(* ===== verification/Prelude.thy ===== *)
theory Prelude
  imports Complex_Main "HOL-Library.AList" "HOL-Library.Sublist"
begin

text \<open>
  What the components share: the JavaScript values that flow through the program, the string and
  \<open>Map\<close> operations of the language that the sources call, thrown values, and the generic lemmas
  and collections the component proofs use.

  A JavaScript string is a list of code units up to 0xFF (an Isabelle \<open>string\<close>). A number that
  travels inside a value is a finite rational: the code forwards, compares, adds and multiplies such
  numbers (page offsets, counts, limits) and reads them from JSON, where NaN and the infinities do
  not occur. Code whose result depends on the floating-point format (the binary codec) has its own
  number type. A JavaScript \<open>Map\<close> and an object literal are association lists in insertion order.
\<close>

section \<open>Values\<close>

datatype jsval =
    JUndef
  | JNull
  | JBool bool
  | JNum rat
  | JStr string
  | JArr "jsval list"
  | JObj "(string \<times> jsval) list"

text \<open>A thrown value: an \<open>Error\<close> object with its name and message, or anything else.\<close>

datatype js_exn = ErrorObj (exn_name: string) (exn_message: string) | NonError jsval

type_synonym 'a res = "js_exn + 'a"

abbreviation throw_error :: "string \<Rightarrow> 'a res" where
  "throw_error msg \<equiv> Inl (ErrorObj ''Error'' msg)"

abbreviation throw_type_error :: "'a res" where
  "throw_type_error \<equiv> Inl (ErrorObj ''TypeError'' ''property of null or undefined'')"

abbreviation throw_range_error :: "'a res" where
  "throw_range_error \<equiv> Inl (ErrorObj ''RangeError'' ''Offset is outside the bounds of the DataView'')"

named_theorems js_simps \<open>evaluation of JavaScript values and maps\<close>
named_theorems inv_intros \<open>preservation of invariants\<close>

text \<open>ToBoolean, \<open>typeof v === "object"\<close>, \<open>Array.isArray\<close>, and the operators on absent values.\<close>

fun truthy :: "jsval \<Rightarrow> bool" where
  "truthy JUndef = False"
| "truthy JNull = False"
| "truthy (JBool b) = b"
| "truthy (JNum n) = (n \<noteq> 0)"
| "truthy (JStr s) = (s \<noteq> [])"
| "truthy (JArr _) = True"
| "truthy (JObj _) = True"

fun typeof_object :: "jsval \<Rightarrow> bool" where
  "typeof_object JNull = True"
| "typeof_object (JArr _) = True"
| "typeof_object (JObj _) = True"
| "typeof_object _ = False"

fun is_array :: "jsval \<Rightarrow> bool" where
  "is_array (JArr _) = True"
| "is_array _ = False"

fun is_number :: "jsval \<Rightarrow> bool" where
  "is_number (JNum _) = True"
| "is_number _ = False"

fun is_string :: "jsval \<Rightarrow> bool" where
  "is_string (JStr _) = True"
| "is_string _ = False"

definition nullish :: "jsval \<Rightarrow> bool" where
  "nullish v \<longleftrightarrow> v = JUndef \<or> v = JNull"

text \<open>\<open>a ?? b\<close> and \<open>a || b\<close>.\<close>

definition coalesce :: "jsval \<Rightarrow> jsval \<Rightarrow> jsval" where
  "coalesce a b = (if nullish a then b else a)"

definition js_or :: "jsval \<Rightarrow> jsval \<Rightarrow> jsval" where
  "js_or a b = (if truthy a then a else b)"

fun of_option :: "jsval option \<Rightarrow> jsval" where
  "of_option None = JUndef"
| "of_option (Some v) = v"

definition opt_str :: "string option \<Rightarrow> jsval" where
  "opt_str s = (case s of None \<Rightarrow> JUndef | Some t \<Rightarrow> JStr t)"

definition opt_num :: "rat option \<Rightarrow> jsval" where
  "opt_num s = (case s of None \<Rightarrow> JUndef | Some t \<Rightarrow> JNum t)"

definition opt_bool :: "bool option \<Rightarrow> jsval" where
  "opt_bool s = (case s of None \<Rightarrow> JUndef | Some t \<Rightarrow> JBool t)"

definition opt_strs :: "string list option \<Rightarrow> jsval" where
  "opt_strs s = (case s of None \<Rightarrow> JUndef | Some t \<Rightarrow> JArr (map JStr t))"

text \<open>\<open>o.k\<close> where the code reads a property of an object it holds, and \<open>o?.k\<close>.\<close>

fun fld :: "jsval \<Rightarrow> string \<Rightarrow> jsval" where
  "fld (JObj kvs) k = (case map_of kvs k of None \<Rightarrow> JUndef | Some v \<Rightarrow> v)"
| "fld _ k = JUndef"

text \<open>\<open>o.k\<close> that throws a TypeError on \<open>null\<close> and \<open>undefined\<close>.\<close>

definition fld_or_throw :: "jsval \<Rightarrow> string \<Rightarrow> jsval res" where
  "fld_or_throw v k = (if nullish v then throw_type_error else Inr (fld v k))"

fun has_key :: "jsval \<Rightarrow> string \<Rightarrow> bool" where
  "has_key (JObj kvs) k = (k \<in> set (map fst kvs))"
| "has_key _ k = False"

fun elem_at :: "jsval \<Rightarrow> nat \<Rightarrow> jsval" where
  "elem_at (JArr vs) i = (if i < length vs then vs ! i else JUndef)"
| "elem_at _ i = JUndef"

text \<open>\<open>v?.length\<close> of an array as a truth value (\<open>undefined\<close> and 0 are falsy).\<close>

fun nonempty_array :: "jsval \<Rightarrow> bool" where
  "nonempty_array (JArr vs) = (vs \<noteq> [])"
| "nonempty_array _ = False"

text \<open>
  \<open>{...o, k: v}\<close> and \<open>o.k = v\<close>: a key that is there keeps its place. \<open>Object.assign(o, p)\<close>
  and \<open>{...o, ...p}\<close> write the entries of \<open>p\<close> in order.
\<close>

definition obj_put :: "string \<Rightarrow> 'v \<Rightarrow> (string \<times> 'v) list \<Rightarrow> (string \<times> 'v) list" where
  "obj_put k v kvs = AList.update k v kvs"

fun obj_assign :: "(string \<times> 'v) list \<Rightarrow> (string \<times> 'v) list \<Rightarrow> (string \<times> 'v) list" where
  "obj_assign kvs [] = kvs"
| "obj_assign kvs ((k, v) # ps) = obj_assign (obj_put k v kvs) ps"

lemma map_of_obj_put [simp, js_simps]: "map_of (obj_put k v kvs) = (map_of kvs)(k \<mapsto> v)"
  by (simp add: obj_put_def update_conv')

lemma map_of_obj_assign_notin:
  "k \<notin> set (map fst ps) \<Longrightarrow> map_of (obj_assign kvs ps) k = map_of kvs k"
  by (induction kvs ps rule: obj_assign.induct) auto

lemma map_add_upd_left_notin: "k \<notin> set (map fst ps) \<Longrightarrow> (f(k \<mapsto> v)) ++ map_of ps = (f ++ map_of ps)(k \<mapsto> v)"
  by (rule map_add_upd_left) (simp add: dom_map_of_conv_image_fst)

lemma map_of_obj_assign:
  "distinct (map fst ps) \<Longrightarrow> map_of (obj_assign kvs ps) = map_of kvs ++ map_of ps"
  by (induction kvs ps rule: obj_assign.induct) (auto simp: map_add_upd_left_notin simp del: fun_upd_apply)

text \<open>\<open>Array.prototype.slice(0, n)\<close> of a number, and of an absent one.\<close>

definition slice_to :: "jsval \<Rightarrow> 'a list \<Rightarrow> 'a list" where
  "slice_to n xs =
     (case n of
        JUndef \<Rightarrow> xs
      | JNum r \<Rightarrow> (if 0 \<le> r then take (nat \<lfloor>r\<rfloor>) xs else take (length xs - nat \<lfloor>- r\<rfloor>) xs)
      | _ \<Rightarrow> [])"

lemma slice_to_nat [simp]: "slice_to (JNum (of_nat n)) xs = take n xs"
  by (simp add: slice_to_def)

section \<open>Strings\<close>

text \<open>White space of \<open>String.prototype.trim\<close> among the code units up to 0xFF.\<close>

definition is_ws :: "char \<Rightarrow> bool" where
  "is_ws c \<longleftrightarrow> c \<in> set [CHR '' '', CHR 0x09, CHR 0x0A, CHR 0x0B, CHR 0x0C, CHR 0x0D, CHR 0xA0]"

abbreviation newline :: char where "newline \<equiv> CHR 0x0A"

definition trim :: "string \<Rightarrow> string" where
  "trim s = rev (dropWhile is_ws (rev (dropWhile is_ws s)))"

fun split_on :: "char \<Rightarrow> string \<Rightarrow> string list" where
  "split_on c [] = [[]]"
| "split_on c (x # xs) =
     (if x = c then [] # split_on c xs
      else (x # hd (split_on c xs)) # tl (split_on c xs))"

fun join :: "string \<Rightarrow> string list \<Rightarrow> string" where
  "join sep [] = []"
| "join sep [w] = w"
| "join sep (w # ws) = w @ sep @ join sep ws"

definition starts_with :: "string \<Rightarrow> string \<Rightarrow> bool" where
  "starts_with s p = prefix p s"

definition ends_with :: "string \<Rightarrow> string \<Rightarrow> bool" where
  "ends_with s p = suffix p s"

definition str_includes :: "string \<Rightarrow> string \<Rightarrow> bool" where
  "str_includes s t = list_ex (prefix t) (suffixes s)"

definition lower_char :: "char \<Rightarrow> char" where
  "lower_char c = (let n = (of_char c :: nat) in
     if 65 \<le> n \<and> n \<le> 90 \<or> 192 \<le> n \<and> n \<le> 222 \<and> n \<noteq> 215 then char_of (n + 32) else c)"

definition to_lower :: "string \<Rightarrow> string" where
  "to_lower s = map lower_char s"

fun show_nat :: "nat \<Rightarrow> string" where
  "show_nat n = (if n < 10 then [char_of (48 + n)] else show_nat (n div 10) @ [char_of (48 + n mod 10)])"

declare show_nat.simps [simp del]

text \<open>Reading the decimal back, so that different numbers have different texts.\<close>

definition read_decimal :: "string \<Rightarrow> nat" where
  "read_decimal s = foldl (\<lambda>a c. 10 * a + (of_char c - 48)) 0 s"

lemma read_show_nat [simp]: "read_decimal (show_nat n) = n"
proof (induction n rule: show_nat.induct)
  case (1 n)
  have digit: "of_char (char_of (48 + d :: nat) :: char) = (48 + d :: nat)" if "d < 10" for d
    using that by simp
  show ?case
  proof (cases "n < 10")
    case True
    then show ?thesis
      using digit [of n] by (simp add: show_nat.simps [of n] read_decimal_def del: of_char_of)
  next
    case False
    then have "read_decimal (show_nat (n div 10)) = n div 10" by (rule "1.IH")
    then show ?thesis
      using False digit [of "n mod 10"]
      by (simp add: show_nat.simps [of n] read_decimal_def del: of_char_of)
  qed
qed

lemma show_nat_inject [simp]: "show_nat m = show_nat n \<longleftrightarrow> m = n"
  by (metis read_show_nat)

text \<open>
  \<open>String(n)\<close>: an integer in decimal; otherwise the shortest decimal fraction equal to the number,
  cut at 17 places. This is the text of the language for the decimals of ordinary magnitude
  (at most 15 significant digits, at least 1e-6 and below 1e21) that JSON documents carry.
\<close>

definition frac_places :: "rat \<Rightarrow> nat" where
  "frac_places r = (case find (\<lambda>k. r * 10 ^ k \<in> \<int>) [0..<17] of Some k \<Rightarrow> k | None \<Rightarrow> 17)"

definition pad_left :: "nat \<Rightarrow> string \<Rightarrow> string" where
  "pad_left n s = replicate (n - length s) (CHR ''0'') @ s"

definition show_rat :: "rat \<Rightarrow> string" where
  "show_rat r =
     (let a = \<bar>r\<bar>; k = frac_places a; m = nat \<lfloor>a * 10 ^ k\<rfloor>;
          body = (if k = 0 then show_nat m
                  else show_nat (m div 10 ^ k) @ ''.'' @ pad_left k (show_nat (m mod 10 ^ k)))
      in if r < 0 then CHR ''-'' # body else body)"

text \<open>
  \<open>String(v)\<close>, as a template literal applies it. Inside an array \<open>null\<close> and
  \<open>undefined\<close> print as nothing.
\<close>

fun to_str :: "jsval \<Rightarrow> string" where
  "to_str JUndef = ''undefined''"
| "to_str JNull = ''null''"
| "to_str (JBool b) = (if b then ''true'' else ''false'')"
| "to_str (JNum r) = show_rat r"
| "to_str (JStr s) = s"
| "to_str (JArr vs) = join '','' (map (\<lambda>v. if v = JUndef \<or> v = JNull then [] else to_str v) vs)"
| "to_str (JObj _) = ''[object Object]''"

lemma split_on_not_Nil [simp]: "split_on c s \<noteq> []"
  by (cases s) auto

lemma split_on_hd_tl: "split_on c s = hd (split_on c s) # tl (split_on c s)"
  by (simp add: hd_Cons_tl [OF split_on_not_Nil])

text \<open>Splitting a concatenation: only the last piece of the left part meets the right part.\<close>

lemma split_on_append:
  "split_on c (s @ t) =
     butlast (split_on c s) @ (last (split_on c s) @ hd (split_on c t)) # tl (split_on c t)"
proof (induction s)
  case Nil
  show ?case by (simp flip: split_on_hd_tl)
next
  case (Cons x s)
  show ?case
  proof (cases "x = c")
    case True
    with Cons show ?thesis by simp
  next
    case False
    obtain w ws where sp: "split_on c s = w # ws"
      by (cases "split_on c s") auto
    from Cons False sp show ?thesis
      by (cases ws) auto
  qed
qed

lemma split_on_no_sep: "c \<notin> set s \<Longrightarrow> split_on c s = [s]"
  by (induction s) auto

lemma split_on_pieces: "w \<in> set (split_on c s) \<Longrightarrow> c \<notin> set w"
proof (induction s arbitrary: w)
  case (Cons x s)
  obtain v vs where sp: "split_on c s = v # vs"
    by (cases "split_on c s") auto
  with Cons show ?case by (auto split: if_splits)
qed simp

lemma join_Cons: "ws \<noteq> [] \<Longrightarrow> join sep (w # ws) = w @ sep @ join sep ws"
  by (cases ws) auto

lemma set_join_superset: "w \<in> set ws \<Longrightarrow> set w \<subseteq> set (join sep ws)"
  by (induction sep ws rule: join.induct) auto

lemma join_split_on: "join [c] (split_on c s) = s"
proof (induction s)
  case (Cons x s)
  obtain v vs where sp: "split_on c s = v # vs"
    by (cases "split_on c s") auto
  from Cons sp show ?case by (cases vs) auto
qed simp

lemma split_on_join:
  assumes "ws \<noteq> []" "\<forall>w \<in> set ws. c \<notin> set w"
  shows "split_on c (join [c] ws) = ws"
  using assms
proof (induction ws)
  case (Cons w ws)
  show ?case
  proof (cases "ws = []")
    case True
    with Cons.prems show ?thesis by (simp add: split_on_no_sep)
  next
    case False
    with Cons show ?thesis
      by (simp add: join_Cons split_on_append split_on_no_sep)
  qed
qed simp

lemma trim_Nil [simp]: "trim [] = []"
  by (simp add: trim_def)

lemma set_trim_subset: "set (trim s) \<subseteq> set s"
  unfolding trim_def by (auto dest!: set_dropWhileD)

lemma trim_idem [simp]: "trim (trim s) = trim s"
proof -
  have rs: "trim s = rev (dropWhile is_ws (rev (dropWhile is_ws s)))"
    by (simp add: trim_def)
  have head: "dropWhile is_ws (trim s) = trim s"
  proof (cases "trim s")
    case (Cons x xs)
    have "suffix (rev (trim s)) (rev (dropWhile is_ws s))"
      unfolding rs by (simp add: suffix_dropWhile)
    then have "prefix (trim s) (dropWhile is_ws s)"
      by (simp add: suffix_to_prefix)
    with Cons have "\<not> is_ws x"
      by (auto simp: prefix_def dropWhile_eq_Cons_conv)
    with Cons show ?thesis by simp
  qed simp
  have rear: "dropWhile is_ws (rev (trim s)) = rev (trim s)"
    unfolding rs by (simp add: dropWhile_idem)
  show ?thesis
    unfolding trim_def [of "trim s"] by (simp only: head rear rev_rev_ident)
qed

section \<open>Maps in insertion order\<close>

text \<open>
  \<open>Map.set\<close> overwrites in place or appends, \<open>Map.delete\<close> removes, \<open>Map.get\<close> looks up. The
  keys stay distinct.
\<close>

type_synonym ('k, 'v) jmap = "('k \<times> 'v) list"

definition jmap_set :: "('k, 'v) jmap \<Rightarrow> 'k \<Rightarrow> 'v \<Rightarrow> ('k, 'v) jmap" where
  "jmap_set m k v = AList.update k v m"

definition jmap_delete :: "('k, 'v) jmap \<Rightarrow> 'k \<Rightarrow> ('k, 'v) jmap" where
  "jmap_delete m k = AList.delete k m"

definition jmap_get :: "('k, 'v) jmap \<Rightarrow> 'k \<Rightarrow> 'v option" where
  "jmap_get m k = map_of m k"

definition jmap_ok :: "('k, 'v) jmap \<Rightarrow> bool" where
  "jmap_ok m \<longleftrightarrow> distinct (map fst m)"

lemma jmap_get_Nil [simp, js_simps]: "jmap_get [] k = None"
  by (simp add: jmap_get_def)

lemma jmap_get_set [simp, js_simps]:
  "jmap_get (jmap_set m k v) k' = (if k' = k then Some v else jmap_get m k')"
  by (simp add: jmap_get_def jmap_set_def update_conv')

lemma jmap_get_delete [simp, js_simps]:
  "jmap_get (jmap_delete m k) k' = (if k' = k then None else jmap_get m k')"
  by (simp add: jmap_get_def jmap_delete_def delete_conv')

lemma jmap_ok_Nil [simp, inv_intros]: "jmap_ok []"
  by (simp add: jmap_ok_def)

lemma jmap_ok_set [intro, inv_intros]: "jmap_ok m \<Longrightarrow> jmap_ok (jmap_set m k v)"
  by (simp add: jmap_ok_def jmap_set_def distinct_update)

lemma jmap_ok_delete [intro, inv_intros]: "jmap_ok m \<Longrightarrow> jmap_ok (jmap_delete m k)"
  by (simp add: jmap_ok_def jmap_delete_def distinct_delete)

lemma jmap_ok_filter [intro, inv_intros]: "jmap_ok m \<Longrightarrow> jmap_ok (filter P m)"
  unfolding jmap_ok_def by (rule distinct_map_filter)

lemma jmap_ok_map_values [intro, inv_intros]:
  "jmap_ok m \<Longrightarrow> jmap_ok (map (\<lambda>(k, v). (k, f k v)) m)"
  by (simp add: jmap_ok_def o_def split_def)

lemma jmap_get_iff: "jmap_ok m \<Longrightarrow> jmap_get m k = Some v \<longleftrightarrow> (k, v) \<in> set m"
  by (simp add: jmap_ok_def jmap_get_def map_of_eq_Some_iff)

lemma jmap_set_keys_old [js_simps]:
  "k \<in> fst ` set m \<Longrightarrow> map fst (jmap_set m k v) = map fst m"
  by (simp add: jmap_set_def update_keys)

lemma jmap_set_keys_new [js_simps]:
  "k \<notin> fst ` set m \<Longrightarrow> map fst (jmap_set m k v) = map fst m @ [k]"
  by (simp add: jmap_set_def update_keys)

text \<open>The contract of a store of widgets, turns or entries by key, and its instance.\<close>

locale keyed_store =
  fixes get :: "'m \<Rightarrow> 'k \<Rightarrow> 'v option"
    and put :: "'m \<Rightarrow> 'k \<Rightarrow> 'v \<Rightarrow> 'm"
    and del :: "'m \<Rightarrow> 'k \<Rightarrow> 'm"
    and ok :: "'m \<Rightarrow> bool"
  assumes get_put: "get (put m k v) k' = (if k' = k then Some v else get m k')"
    and get_del: "get (del m k) k' = (if k' = k then None else get m k')"
    and ok_put: "ok m \<Longrightarrow> ok (put m k v)"
    and ok_del: "ok m \<Longrightarrow> ok (del m k)"
begin

lemma put_put_get: "get (put (put m k v) k w) = get (put m k w)"
  by (simp add: fun_eq_iff get_put)

lemma put_commute: "k \<noteq> k' \<Longrightarrow> get (put (put m k v) k' w) = get (put (put m k' w) k v)"
  by (auto simp: fun_eq_iff get_put)

lemma del_put: "get (del (put m k v) k) = get (del m k)"
  by (simp add: fun_eq_iff get_put get_del)

lemma put_others: "k' \<noteq> k \<Longrightarrow> get (put m k v) k' = get m k'"
  by (simp add: get_put)

end

interpretation jm: keyed_store jmap_get jmap_set jmap_delete jmap_ok
  by unfold_locales auto


text \<open>
  The contract of a state that is looked at by key while actions arrive: an action that does not
  touch a key leaves what is seen there, so a run of such actions does.
\<close>

locale framed =
  fixes step :: "'a \<Rightarrow> 's \<Rightarrow> 's"
    and view :: "'s \<Rightarrow> 'k \<Rightarrow> 'v"
    and touches :: "'a \<Rightarrow> 'k \<Rightarrow> bool"
  assumes frame: "\<not> touches a k \<Longrightarrow> view (step a s) k = view s k"
begin

lemma run_frame: "\<forall>a \<in> set acts. \<not> touches a k \<Longrightarrow> view (fold step acts s) k = view s k"
  by (induction acts arbitrary: s) (simp_all add: frame)

lemma run_last:
  assumes "\<forall>b \<in> set bs. \<not> touches b k"
  shows "view (fold step (as @ a # bs) s) k = view (step a (fold step as s)) k"
  using run_frame [OF assms] by simp

end

text \<open>A property that every action keeps holds after every run.\<close>

lemma fold_invariant:
  assumes "I s" "\<And>a s. I s \<Longrightarrow> I (step a s)"
  shows "I (fold step acts s)"
  using assms(1) by (induction acts arbitrary: s) (simp_all add: assms(2))

section \<open>Removing by index\<close>

text \<open>\<open>xs.filter((_, i) => i !== index)\<close>\<close>

definition without :: "nat \<Rightarrow> 'a list \<Rightarrow> 'a list" where
  "without i xs = map snd (filter (\<lambda>(j, x). j \<noteq> i) (enumerate 0 xs))"

lemma without_nth: "without i xs = take i xs @ drop (i + 1) xs"
proof (induction xs arbitrary: i rule: rev_induct)
  case (snoc x xs)
  show ?case
    using snoc by (cases i "length xs" rule: linorder_cases) (simp_all add: without_def enumerate_append_eq)
qed (simp add: without_def)

lemma without_in: "x \<in> set (without i xs) \<Longrightarrow> x \<in> set xs"
  unfolding without_nth set_append by (metis UnE in_set_dropD in_set_takeD)

lemma distinct_without: "distinct xs \<Longrightarrow> distinct (without i xs)"
  unfolding without_nth distinct_append using set_take_disj_set_drop_if_distinct [of xs i "i + 1"] by simp

lemma length_without: "length xs = length ys \<Longrightarrow> length (without i xs) = length (without i ys)"
  by (simp add: without_nth)

end
