(* ===== verification/Codec.thy ===== *)
theory Codec
  imports Prelude "HOL-Library.Word"
begin

text \<open>
  The binary embedding codec of the Termite SDK (ts/packages/termite-sdk/src/codec.ts). An
  ArrayBuffer is a list of bytes, a DataView access out of its bounds throws a RangeError, and a
  number is a rational or one of the special values of the IEEE formats, with the conversion to and
  from binary32 that \<open>setFloat32\<close> and \<open>getFloat32\<close> perform written out.
\<close>

type_synonym byte = "8 word"
type_synonym array_buffer = "byte list"

section \<open>Numbers and binary32\<close>

datatype jnumber = JNaN | PosInf | NegInf | NegZero | Fin rat

text \<open>Round half to even.\<close>

definition round_even :: "rat \<Rightarrow> nat" where
  "round_even x =
     (let f = \<lfloor>x\<rfloor>; d = x - of_int f in
      nat (if d < 1 / 2 then f else if d > 1 / 2 then f + 1 else if even f then f else f + 1))"

text \<open>
  The magnitude bits of a nonnegative rational. The exponent field is the least \<open>e\<close> with the value
  below \<open>2 ^ (e - 126)\<close>; the significand is the value in units of \<open>2 ^ (e - 150)\<close>, rounded. Adding
  it to the shifted exponent carries a significand that rounded up to \<open>2 ^ 24\<close> into the exponent,
  and with exponent field 1 covers the subnormal numbers.
\<close>

definition f32_exponent :: "rat \<Rightarrow> nat option" where
  "f32_exponent a = find (\<lambda>e. a * 2 ^ 150 < 2 ^ (24 + e)) [1..<255]"

definition f32_magnitude :: "rat \<Rightarrow> nat" where
  "f32_magnitude a =
     (case f32_exponent a of
        None \<Rightarrow> 255 * 2 ^ 23
      | Some e \<Rightarrow> (e - 1) * 2 ^ 23 + round_even (a * 2 ^ 150 / 2 ^ e))"

definition f32_sign :: nat where
  "f32_sign = 2 ^ 31"

fun f32_bits :: "jnumber \<Rightarrow> nat" where
  "f32_bits JNaN = 255 * 2 ^ 23 + 2 ^ 22"
| "f32_bits PosInf = 255 * 2 ^ 23"
| "f32_bits NegInf = f32_sign + 255 * 2 ^ 23"
| "f32_bits NegZero = f32_sign"
| "f32_bits (Fin r) = (if r < 0 then f32_sign + f32_magnitude (- r) else f32_magnitude r)"

definition f32_value :: "nat \<Rightarrow> jnumber" where
  "f32_value w =
     (let neg = 2 ^ 31 \<le> w; e = (w mod 2 ^ 31) div 2 ^ 23; m = w mod 2 ^ 23 in
      if e = 255 then (if m \<noteq> 0 then JNaN else if neg then NegInf else PosInf)
      else if e = 0 \<and> m = 0 then (if neg then NegZero else Fin 0)
      else let v = (if e = 0 then of_nat m * 2 / 2 ^ 150
                    else of_nat (2 ^ 23 + m) * 2 ^ e / 2 ^ 150)
           in Fin (if neg then - v else v))"

text \<open>\<open>Math.fround\<close>: a number as binary32 stores it.\<close>

definition fround :: "jnumber \<Rightarrow> jnumber" where
  "fround x = f32_value (f32_bits x)"

section \<open>Little-endian integers and the DataView\<close>

primrec le_bytes :: "nat \<Rightarrow> nat \<Rightarrow> byte list" where
  "le_bytes 0 n = []"
| "le_bytes (Suc k) n = word_of_nat n # le_bytes k (n div 256)"

primrec of_le :: "byte list \<Rightarrow> nat" where
  "of_le [] = 0"
| "of_le (b # bs) = unat b + 256 * of_le bs"

definition put_bytes :: "array_buffer \<Rightarrow> nat \<Rightarrow> byte list \<Rightarrow> array_buffer res" where
  "put_bytes buf off bs =
     (if off + length bs \<le> length buf
      then Inr (take off buf @ bs @ drop (off + length bs) buf)
      else throw_range_error)"

definition get_bytes :: "array_buffer \<Rightarrow> nat \<Rightarrow> nat \<Rightarrow> byte list res" where
  "get_bytes buf off k =
     (if off + k \<le> length buf then Inr (take k (drop off buf)) else throw_range_error)"

definition set_biguint64 :: "array_buffer \<Rightarrow> nat \<Rightarrow> nat \<Rightarrow> array_buffer res" where
  "set_biguint64 buf off n = put_bytes buf off (le_bytes 8 n)"

definition get_biguint64 :: "array_buffer \<Rightarrow> nat \<Rightarrow> nat res" where
  "get_biguint64 buf off = map_sum id of_le (get_bytes buf off 8)"

definition set_float32 :: "array_buffer \<Rightarrow> nat \<Rightarrow> jnumber \<Rightarrow> array_buffer res" where
  "set_float32 buf off x = put_bytes buf off (le_bytes 4 (f32_bits x))"

definition get_float32 :: "array_buffer \<Rightarrow> nat \<Rightarrow> jnumber res" where
  "get_float32 buf off = map_sum id (\<lambda>bs. f32_value (of_le bs)) (get_bytes buf off 4)"

section \<open>serializeEmbeddings\<close>

text \<open>The inner loop over a vector and the outer loop over the vectors; both thread the offset.\<close>

fun write_vector :: "array_buffer \<Rightarrow> nat \<Rightarrow> jnumber list \<Rightarrow> (array_buffer \<times> nat) res" where
  "write_vector buf off [] = Inr (buf, off)"
| "write_vector buf off (x # xs) =
     (case set_float32 buf off x of
        Inl e \<Rightarrow> Inl e
      | Inr buf' \<Rightarrow> write_vector buf' (off + 4) xs)"

fun write_vectors :: "array_buffer \<Rightarrow> nat \<Rightarrow> jnumber list list \<Rightarrow> (array_buffer \<times> nat) res" where
  "write_vectors buf off [] = Inr (buf, off)"
| "write_vectors buf off (v # vs) =
     (case write_vector buf off v of
        Inl e \<Rightarrow> Inl e
      | Inr (buf', off') \<Rightarrow> write_vectors buf' off' vs)"

definition serializeEmbeddings :: "jnumber list list \<Rightarrow> array_buffer res" where
  "serializeEmbeddings embeddings =
     (case embeddings of
        [] \<Rightarrow> set_biguint64 (replicate 8 0) 0 0
      | v0 # _ \<Rightarrow>
          (let numVectors = length embeddings;
               dimension = length v0;
               totalSize = 8 + 8 + numVectors * dimension * 4
           in case set_biguint64 (replicate totalSize 0) 0 numVectors of
                Inl e \<Rightarrow> Inl e
              | Inr b1 \<Rightarrow>
                  (case set_biguint64 b1 8 dimension of
                     Inl e \<Rightarrow> Inl e
                   | Inr b2 \<Rightarrow> map_sum id fst (write_vectors b2 16 embeddings))))"

section \<open>deserializeEmbeddings\<close>

fun read_vector :: "array_buffer \<Rightarrow> nat \<Rightarrow> nat \<Rightarrow> (jnumber list \<times> nat) res" where
  "read_vector buf off 0 = Inr ([], off)"
| "read_vector buf off (Suc k) =
     (case get_float32 buf off of
        Inl e \<Rightarrow> Inl e
      | Inr x \<Rightarrow>
          (case read_vector buf (off + 4) k of
             Inl e \<Rightarrow> Inl e
           | Inr (xs, off') \<Rightarrow> Inr (x # xs, off')))"

fun read_vectors :: "array_buffer \<Rightarrow> nat \<Rightarrow> nat \<Rightarrow> nat \<Rightarrow> jnumber list list res" where
  "read_vectors buf off d 0 = Inr []"
| "read_vectors buf off d (Suc n) =
     (case read_vector buf off d of
        Inl e \<Rightarrow> Inl e
      | Inr (v, off') \<Rightarrow>
          (case read_vectors buf off' d n of
             Inl e \<Rightarrow> Inl e
           | Inr vs \<Rightarrow> Inr (v # vs)))"

text \<open>
  \<open>Number\<close> of a 64-bit header is exact up to 2^53. A larger number of vectors or dimension, which no array
  has, ends in the same \<open>RangeError\<close> for the rounded number as for the exact one, unless the other is
  0; the rounding is left out.
\<close>

definition deserializeEmbeddings :: "array_buffer \<Rightarrow> jnumber list list res" where
  "deserializeEmbeddings buf =
     (case get_biguint64 buf 0 of
        Inl e \<Rightarrow> Inl e
      | Inr numVectors \<Rightarrow>
          if numVectors = 0 then Inr []
          else (case get_biguint64 buf 8 of
                  Inl e \<Rightarrow> Inl e
                | Inr dimension \<Rightarrow> read_vectors buf 16 dimension numVectors))"

section \<open>Binary32 stores exactly what it reads\<close>

lemma round_even_of_nat [simp]: "round_even (of_nat n) = n"
  by (simp add: round_even_def)

lemma find_append_None: "find P xs = None \<Longrightarrow> find P (xs @ ys) = find P ys"
  by (induction xs) (auto split: if_splits)

lemma find_upt_least:
  assumes "P e" "i \<le> e" "e < j" "\<And>k. i \<le> k \<Longrightarrow> k < e \<Longrightarrow> \<not> P k"
  shows "find P [i..<j] = Some e"
proof -
  have "[i..<j] = [i..<e] @ e # [Suc e..<j]"
    using assms(2,3) upt_add_eq_append [of i e "j - e"] by (simp add: upt_conv_Cons)
  moreover have "find P [i..<e] = None"
    using assms(4) by (auto simp: find_None_iff)
  ultimately show ?thesis
    using assms(1) by (simp add: find_append_None)
qed

lemma of_nat_pow2_less:
  "(of_nat M * 2 ^ e :: rat) < 2 ^ k \<longleftrightarrow> M * 2 ^ e < 2 ^ k"
proof -
  have "(of_nat M * 2 ^ e :: rat) = of_nat (M * 2 ^ e)" "(2 ^ k :: rat) = of_nat (2 ^ k)"
    by simp_all
  then show ?thesis by (simp only: of_nat_less_iff)
qed

lemma mult_pow2_less_iff: "M * 2 ^ e < (2 :: nat) ^ (k + e) \<longleftrightarrow> M < 2 ^ k"
  by (simp add: power_add)

lemma f32_exponent_exact:
  assumes e: "1 \<le> e" "e < 255" and M: "M < 2 ^ 24" and norm: "e = 1 \<or> 2 ^ 23 \<le> M"
  shows "f32_exponent (of_nat M * 2 ^ e / 2 ^ 150) = Some e"
proof -
  have cancel: "(of_nat M * 2 ^ e / 2 ^ 150) * 2 ^ 150 = (of_nat M * 2 ^ e :: rat)"
    by (rule nonzero_divide_eq_eq [THEN iffD1]) simp_all
  show ?thesis
    unfolding f32_exponent_def cancel of_nat_pow2_less
  proof (rule find_upt_least)
    show "M * 2 ^ e < 2 ^ (24 + e)"
      using M by (simp only: mult_pow2_less_iff)
    show "\<not> M * 2 ^ e < 2 ^ (24 + k)" if "1 \<le> k" "k < e" for k
    proof -
      from that norm have "2 ^ 23 \<le> M" by auto
      then have "\<not> M * 2 ^ e < 2 ^ (23 + e)"
        by (simp only: mult_pow2_less_iff not_less)
      moreover have "(2::nat) ^ (24 + k) \<le> 2 ^ (23 + e)"
        using that by (intro power_increasing) auto
      ultimately show ?thesis by linarith
    qed
  qed (use e in auto)
qed

lemma f32_magnitude_exact:
  assumes "1 \<le> e" "e < 255" "M < 2 ^ 24" "e = 1 \<or> 2 ^ 23 \<le> M"
  shows "f32_magnitude (of_nat M * 2 ^ e / 2 ^ 150) = (e - 1) * 2 ^ 23 + M"
proof -
  have "(of_nat M * 2 ^ e / 2 ^ 150) * 2 ^ 150 / 2 ^ e = (of_nat M :: rat)"
    by (metis nonzero_mult_div_cancel_right times_divide_eq_left power_not_zero zero_neq_numeral)
  then show ?thesis
    using f32_exponent_exact [OF assms] by (simp add: f32_magnitude_def)
qed

lemma fields_div_mod:
  assumes "(e::nat) < 256" "m < 2 ^ 23"
  shows "((if neg then 2 ^ 31 else 0) + e * 2 ^ 23 + m) mod 2 ^ 31 div 2 ^ 23 = e"
    and "((if neg then 2 ^ 31 else 0) + e * 2 ^ 23 + m) mod 2 ^ 23 = m"
    and "2 ^ 31 \<le> (if neg then 2 ^ 31 else 0) + e * 2 ^ 23 + m \<longleftrightarrow> neg"
proof -
  have lt: "e * 2 ^ 23 + m < 2 ^ 31"
    using assms by simp
  have "((if neg then 2 ^ 31 else 0) + (e * 2 ^ 23 + m)) mod 2 ^ 31 = e * 2 ^ 23 + m"
    using lt mod_add_self1 [of "2 ^ 31" "e * 2 ^ 23 + m"] by (simp only: if_split mod_less add_0) simp
  moreover have "(e * 2 ^ 23 + m) div 2 ^ 23 = e"
    using assms(2) by (simp add: div_mult_self3)
  ultimately show "((if neg then 2 ^ 31 else 0) + e * 2 ^ 23 + m) mod 2 ^ 31 div 2 ^ 23 = e"
    by (simp only: add.assoc)
  have "(if neg then 2 ^ 31 else 0) + e * 2 ^ 23 + m = ((if neg then 256 else 0) + e) * 2 ^ 23 + m"
    by simp
  then show "((if neg then 2 ^ 31 else 0) + e * 2 ^ 23 + m) mod 2 ^ 23 = m"
    using assms(2) by (simp only: mod_mult_self3 mod_less)
  show "2 ^ 31 \<le> (if neg then 2 ^ 31 else 0) + e * 2 ^ 23 + m \<longleftrightarrow> neg"
    using lt by simp
qed

lemma f32_value_fields:
  assumes "e < 256" "m < 2 ^ 23"
  shows "f32_value ((if neg then 2 ^ 31 else 0) + e * 2 ^ 23 + m) =
    (if e = 255 then (if m \<noteq> 0 then JNaN else if neg then NegInf else PosInf)
     else if e = 0 \<and> m = 0 then (if neg then NegZero else Fin 0)
     else let v = of_nat (if e = 0 then m else 2 ^ 23 + m) * 2 ^ (max e 1) / 2 ^ 150
          in Fin (if neg then - v else v))"
proof -
  have m1: "e \<noteq> 0 \<Longrightarrow> max e 1 = e" by simp
  show ?thesis
    unfolding f32_value_def Let_def fields_div_mod [OF assms]
    by (cases "e = 0") (simp_all add: m1)
qed

lemma f32_bits_Fin_signed:
  assumes "0 < v"
  shows "f32_bits (Fin (if neg then - v else v)) = (if neg then 2 ^ 31 else 0) + f32_magnitude v"
  using assms by (auto simp: f32_sign_def)

lemma f32_bits_value_fields:
  fixes neg :: bool and e m :: nat
  assumes e: "e < 256" and m: "m < 2 ^ 23" and num: "\<not> (e = 255 \<and> m \<noteq> 0)"
  defines "w \<equiv> (if neg then 2 ^ 31 else 0) + e * 2 ^ 23 + m"
  shows "f32_bits (f32_value w) = w"
proof -
  consider "e = 255" | "e = 0" "m = 0" | "e < 255" "\<not> (e = 0 \<and> m = 0)"
    using e by linarith
  then show ?thesis
  proof cases
    case 1
    with num show ?thesis
      unfolding w_def f32_value_fields [OF e m] by (simp add: f32_sign_def)
  next
    case 2
    have "f32_exponent 0 = Some 1"
      unfolding f32_exponent_def by (rule find_upt_least) simp_all
    then have "f32_magnitude 0 = 0"
      using round_even_of_nat [of 0] by (simp add: f32_magnitude_def)
    with 2 show ?thesis
      unfolding w_def f32_value_fields [OF e m] by (simp add: f32_sign_def)
  next
    case 3
    define M where "M = (if e = 0 then m else 2 ^ 23 + m)"
    define E where "E = max e 1"
    have M: "M < 2 ^ 24" "0 < M" and E: "1 \<le> E" "E < 255" "E = 1 \<or> 2 ^ 23 \<le> M"
      using 3 m by (auto simp: M_def E_def max_def)
    have pos: "0 < (of_nat M * 2 ^ E / 2 ^ 150 :: rat)"
      using M by (intro divide_pos_pos mult_pos_pos) simp_all
    have "f32_value w = Fin (if neg then - (of_nat M * 2 ^ E / 2 ^ 150) else of_nat M * 2 ^ E / 2 ^ 150)"
      unfolding w_def f32_value_fields [OF e m] using 3 by (simp only: M_def E_def Let_def) auto
    then have "f32_bits (f32_value w) = (if neg then 2 ^ 31 else 0) + f32_magnitude (of_nat M * 2 ^ E / 2 ^ 150)"
      by (simp only: f32_bits_Fin_signed [OF pos])
    also have "f32_magnitude (of_nat M * 2 ^ E / 2 ^ 150) = e * 2 ^ 23 + m"
      unfolding f32_magnitude_exact [OF E(1,2) M(1) E(3)] by (auto simp: M_def E_def max_def diff_mult_distrib)
    finally show ?thesis by (simp add: w_def)
  qed
qed

lemma split_fields:
  assumes "w < (2::nat) ^ 32"
  obtains neg e m where "e < 256" "m < 2 ^ 23" "w = (if neg then 2 ^ 31 else 0) + e * 2 ^ 23 + m"
proof (rule that)
  show "w mod 2 ^ 31 div 2 ^ 23 < 256" by (simp add: div_less_iff_less_mult)
  show "w mod 2 ^ 23 < 2 ^ 23" by simp
  show "w = (if 2 ^ 31 \<le> w then 2 ^ 31 else 0) + (w mod 2 ^ 31 div 2 ^ 23) * 2 ^ 23 + w mod 2 ^ 23"
  proof -
    have "w = (if 2 ^ 31 \<le> w then 2 ^ 31 else 0) + w mod 2 ^ 31"
      using assms by (simp add: le_mod_geq)
    moreover have "w mod 2 ^ 31 = (w mod 2 ^ 31 div 2 ^ 23) * 2 ^ 23 + w mod 2 ^ 31 mod 2 ^ 23"
      by (simp only: div_mult_mod_eq)
    moreover have "w mod 2 ^ 31 mod 2 ^ 23 = w mod 2 ^ 23"
      by (rule mod_mod_cancel) simp
    ultimately show ?thesis by linarith
  qed
qed

lemma f32_bits_value:
  assumes "w < 2 ^ 32" "f32_value w \<noteq> JNaN"
  shows "f32_bits (f32_value w) = w"
proof -
  obtain neg e m where w: "e < 256" "m < 2 ^ 23" "w = (if neg then 2 ^ 31 else 0) + e * 2 ^ 23 + m"
    using assms(1) by (rule split_fields)
  have "\<not> (e = 255 \<and> m \<noteq> 0)"
    using assms(2) unfolding w(3) f32_value_fields [OF w(1,2)] by (auto split: if_splits)
  then show ?thesis
    unfolding w(3) by (rule f32_bits_value_fields [OF w(1,2)])
qed

lemma round_even_le: "x < of_nat n \<Longrightarrow> round_even x \<le> n"
  unfolding round_even_def Let_def using floor_less_iff [of x "int n"] by auto

lemma f32_magnitude_le: "f32_magnitude a \<le> 255 * 2 ^ 23"
proof (cases "f32_exponent a")
  case (Some e)
  then have e: "a * 2 ^ 150 < 2 ^ (24 + e)" "e < 255"
    by (auto simp: f32_exponent_def find_Some_iff)
  then have "a * 2 ^ 150 / 2 ^ e < of_nat (2 ^ 24)"
    by (simp add: divide_less_eq power_add mult.commute)
  then have "round_even (a * 2 ^ 150 / 2 ^ e) \<le> 2 ^ 24"
    by (rule round_even_le)
  moreover have "(e - 1) * 2 ^ 23 \<le> 253 * 2 ^ 23"
    using e(2) by (intro mult_right_mono) auto
  ultimately show ?thesis
    using Some by (simp add: f32_magnitude_def)
qed (simp add: f32_magnitude_def)

lemma f32_bits_bound: "f32_bits x < 2 ^ 32"
proof (cases x)
  case (Fin r)
  then show ?thesis
    using f32_magnitude_le [of r] f32_magnitude_le [of "- r"] by (auto simp: f32_sign_def)
qed (simp_all add: f32_sign_def)

lemma f32_value_nan: "f32_value (f32_bits JNaN) = JNaN"
  by (simp add: f32_value_def)

lemma fround_idem: "fround (fround x) = fround x"
  unfolding fround_def
  using f32_bits_value [OF f32_bits_bound] f32_value_nan by metis

section \<open>Bytes and buffers\<close>

lemma length_le_bytes [simp]: "length (le_bytes k n) = k"
  by (induction k arbitrary: n) auto

lemma unat_byte: "unat (word_of_nat n :: byte) = n mod 256"
  by (simp add: unat_of_nat)

lemma unat_byte_less: "unat (b :: byte) < 256"
proof -
  have "unat b < 2 ^ LENGTH(8)" by (rule unsigned_less)
  then show ?thesis by simp
qed

lemma of_le_bytes: "of_le (le_bytes k n) = n mod 256 ^ k"
  by (induction k arbitrary: n) (simp_all add: unat_byte mod_mult2_eq)

lemma of_le_bytes_id: "n < 256 ^ k \<Longrightarrow> of_le (le_bytes k n) = n"
  by (simp add: of_le_bytes)

lemma of_le_bound: "of_le bs < 256 ^ length bs"
proof (induction bs)
  case (Cons b bs)
  have "unat b < 256"
    by (rule unat_byte_less)
  with Cons show ?case by simp
qed simp

lemma le_bytes_of_le: "le_bytes (length bs) (of_le bs) = bs"
proof (induction bs)
  case (Cons b bs)
  have b: "unat b < 256"
    by (rule unat_byte_less)
  have "word_of_nat (unat b + 256 * of_le bs) = b"
    by (simp only: word_unat_eq_iff unat_byte mod_mult_self2 mod_less b)
  moreover have "(unat b + 256 * of_le bs) div 256 = of_le bs"
    using b by simp
  ultimately show ?case using Cons by simp
qed simp

lemma of_le_float: "of_le (le_bytes 4 (f32_bits x)) = f32_bits x"
  using f32_bits_bound [of x] by (simp add: of_le_bytes)

definition enc_floats :: "jnumber list \<Rightarrow> byte list" where
  "enc_floats xs = concat (map (\<lambda>x. le_bytes 4 (f32_bits x)) xs)"

lemma length_enc_floats [simp]: "length (enc_floats xs) = 4 * length xs"
  by (induction xs) (simp_all add: enc_floats_def)

lemma enc_floats_Cons: "enc_floats (x # xs) = le_bytes 4 (f32_bits x) @ enc_floats xs"
  by (simp add: enc_floats_def)

lemma enc_floats_append: "enc_floats (xs @ ys) = enc_floats xs @ enc_floats ys"
  by (simp add: enc_floats_def)

text \<open>Writing consecutive floats overwrites exactly their bytes, or runs out of the buffer.\<close>

lemma write_vector_eq:
  "off \<le> length buf \<Longrightarrow> write_vector buf off xs =
     (if off + 4 * length xs \<le> length buf
      then Inr (take off buf @ enc_floats xs @ drop (off + 4 * length xs) buf, off + 4 * length xs)
      else throw_range_error)"
proof (induction xs arbitrary: buf off)
  case (Cons x xs)
  show ?case
  proof (cases "off + 4 \<le> length buf")
    case True
    let ?buf = "take off buf @ le_bytes 4 (f32_bits x) @ drop (off + 4) buf"
    have "set_float32 buf off x = Inr ?buf" and len: "length ?buf = length buf"
      using True by (simp_all add: set_float32_def put_bytes_def)
    then have "write_vector buf off (x # xs) = write_vector ?buf (off + 4) xs"
      by simp
    also have "\<dots> = (if off + 4 * length (x # xs) \<le> length buf
        then Inr (take off buf @ enc_floats (x # xs) @ drop (off + 4 * length (x # xs)) buf,
                  off + 4 * length (x # xs))
        else throw_range_error)"
      using True len by (subst Cons.IH) (auto simp: enc_floats_Cons algebra_simps)
    finally show ?thesis .
  qed (simp add: set_float32_def put_bytes_def)
qed (simp add: enc_floats_def)

lemma write_vectors_concat:
  "off \<le> length buf \<Longrightarrow> write_vectors buf off vs = write_vector buf off (concat vs)"
proof (induction vs arbitrary: buf off)
  case (Cons v vs)
  show ?case
  proof (cases "off + 4 * length v \<le> length buf")
    case True
    let ?buf = "take off buf @ enc_floats v @ drop (off + 4 * length v) buf"
    have len: "length ?buf = length buf" using True by simp
    have "write_vectors buf off (v # vs) = write_vector ?buf (off + 4 * length v) (concat vs)"
      using True Cons.prems len by (simp add: write_vector_eq Cons.IH)
    also have "\<dots> = write_vector buf off (concat (v # vs))"
      using True Cons.prems len
      by (subst (1 2) write_vector_eq) (auto simp: enc_floats_append algebra_simps)
    finally show ?thesis .
  qed (use Cons.prems in \<open>simp add: write_vector_eq\<close>)
qed simp

lemma take_append_drop_exact:
  "off + n \<le> length buf \<Longrightarrow> take n (drop off buf) @ drop (off + n) buf = drop off buf"
  by (metis add.commute append_take_drop_id drop_drop)

lemma read_vector_error: "length buf < off + 4 * k \<Longrightarrow> off \<le> length buf \<Longrightarrow> read_vector buf off k = throw_range_error"
proof (induction k arbitrary: off)
  case (Suc k)
  show ?case
  proof (cases "off + 4 \<le> length buf")
    case True
    with Suc.prems have "read_vector buf (off + 4) k = throw_range_error"
      by (intro Suc.IH) auto
    with True show ?thesis by (simp add: get_float32_def get_bytes_def)
  qed (simp add: get_float32_def get_bytes_def)
qed simp

lemma read_vector_enc:
  "length pre = off \<Longrightarrow> read_vector (pre @ enc_floats xs @ post) off (length xs) =
     Inr (map fround xs, off + 4 * length xs)"
proof (induction xs arbitrary: pre off)
  case (Cons x xs)
  have "get_float32 (pre @ enc_floats (x # xs) @ post) off = Inr (fround x)"
    using Cons.prems
    by (simp add: get_float32_def get_bytes_def enc_floats_Cons of_le_float fround_def)
  moreover have "read_vector ((pre @ le_bytes 4 (f32_bits x)) @ enc_floats xs @ post) (off + 4) (length xs)
      = Inr (map fround xs, off + 4 + 4 * length xs)"
    using Cons.prems by (intro Cons.IH) simp
  ultimately show ?case by (simp add: enc_floats_Cons)
qed simp

lemma read_vectors_enc:
  "\<lbrakk>length pre = off; \<forall>v \<in> set vs. length v = d\<rbrakk> \<Longrightarrow>
     read_vectors (pre @ enc_floats (concat vs) @ post) off d (length vs) =
       Inr (map (map fround) vs)"
proof (induction vs arbitrary: pre off)
  case (Cons v vs)
  have "read_vector (pre @ enc_floats v @ (enc_floats (concat vs) @ post)) off (length v) =
      Inr (map fround v, off + 4 * length v)"
    using Cons.prems by (intro read_vector_enc) simp
  moreover have "read_vectors ((pre @ enc_floats v) @ enc_floats (concat vs) @ post)
      (off + 4 * length v) d (length vs) = Inr (map (map fround) vs)"
    using Cons.prems by (intro Cons.IH) auto
  ultimately show ?case
    using Cons.prems by (simp add: enc_floats_append)
qed simp

text \<open>The bytes the serializer produces, and when it fails.\<close>

definition header :: "nat \<Rightarrow> nat \<Rightarrow> byte list" where
  "header n d = le_bytes 8 n @ le_bytes 8 d"

lemma length_header [simp]: "length (header n d) = 16"
  by (simp add: header_def)

lemma put_two_headers:
  assumes "16 \<le> length buf"
  shows "set_biguint64 buf 0 n = Inr (le_bytes 8 n @ drop 8 buf)"
    and "set_biguint64 (le_bytes 8 n @ drop 8 buf) 8 d = Inr (header n d @ drop 16 buf)"
  using assms by (simp_all add: set_biguint64_def put_bytes_def header_def)

lemma serializeEmbeddings_Cons:
  fixes v0 vs defines "n \<equiv> length (v0 # vs)" and "d \<equiv> length v0"
  shows "serializeEmbeddings (v0 # vs) =
    (if length (concat (v0 # vs)) \<le> n * d
     then Inr (header n d @ enc_floats (concat (v0 # vs))
               @ replicate (4 * (n * d - length (concat (v0 # vs)))) 0)
     else throw_range_error)"
proof -
  let ?z = "replicate (8 + 8 + n * d * 4) (0 :: byte)"
  let ?b = "header n d @ replicate (n * d * 4) (0 :: byte)"
  have "serializeEmbeddings (v0 # vs) = map_sum id fst (write_vectors (header n d @ drop 16 ?z) 16 (v0 # vs))"
    unfolding serializeEmbeddings_def Let_def list.case
    by (simp only: put_two_headers length_replicate n_def [symmetric] d_def [symmetric] sum.case)
  also have "header n d @ drop 16 ?z = ?b"
    by (simp add: replicate_add)
  also have "write_vectors ?b 16 (v0 # vs) = write_vector ?b 16 (concat (v0 # vs))"
    by (rule write_vectors_concat) simp
  finally show ?thesis
    by (subst (asm) write_vector_eq) (auto simp: algebra_simps diff_mult_distrib2)
qed

lemma concat_length_rect:
  "\<forall>v \<in> set vs. length v = d \<Longrightarrow> length (concat vs) = length vs * d"
  by (induction vs) auto

lemma get_header:
  assumes "n < 2 ^ 64" "d < 2 ^ 64"
  shows "get_biguint64 (header n d @ rest) 0 = Inr n"
    and "get_biguint64 (header n d @ rest) 8 = Inr d"
  using assms by (simp_all add: get_biguint64_def get_bytes_def header_def of_le_bytes)

section \<open>Correctness of the codec\<close>

lemma serialize_deserialize:
  assumes rect: "\<forall>v \<in> set vs. length v = d"
    and "length vs < 2 ^ 64" "d < 2 ^ 64"
  shows "\<exists>buf. serializeEmbeddings vs = Inr buf
               \<and> deserializeEmbeddings buf = Inr (map (map fround) vs)"
proof (cases vs)
  case Nil
  have "of_le (le_bytes 8 0) = 0"
    by (simp only: of_le_bytes) simp
  with Nil show ?thesis
    by (simp add: serializeEmbeddings_def set_biguint64_def put_bytes_def
        deserializeEmbeddings_def get_biguint64_def get_bytes_def)
next
  case (Cons v0 vs')
  let ?n = "length vs"
  have d: "length v0 = d" and len: "length (concat vs) = ?n * d"
    using rect Cons concat_length_rect [OF rect] by auto
  have "serializeEmbeddings vs = Inr (header ?n d @ enc_floats (concat vs) @ [])"
    using serializeEmbeddings_Cons [of v0 vs'] d len Cons by simp
  moreover have "deserializeEmbeddings (header ?n d @ enc_floats (concat vs) @ []) =
      read_vectors (header ?n d @ enc_floats (concat vs) @ []) 16 d ?n"
    using assms(2,3) Cons by (simp add: deserializeEmbeddings_def get_header)
  ultimately show ?thesis
    using read_vectors_enc [OF length_header rect] by metis
qed

text \<open>C3. Round trip: for a rectangular matrix whose dimensions fit the 64-bit header, serialization
  succeeds and deserializing its result gives every value back as binary32 stores it
  (\<open>Math.fround\<close>); a matrix of binary32 values comes back unchanged by \<open>fround_idem\<close>.\<close>

theorem codec_roundtrip:
  assumes "\<forall>v \<in> set vs. length v = d"
    and "length vs < 2 ^ 64" "d < 2 ^ 64"
  shows "\<exists>buf. serializeEmbeddings vs = Inr buf
               \<and> deserializeEmbeddings buf = Inr (map (map fround) vs)"
  using assms by (rule serialize_deserialize)

lemma codec_roundtrip_witness:
  "\<exists>buf. serializeEmbeddings [[Fin (1 / 2), NegZero], [JNaN, Fin 3]] = Inr buf
     \<and> deserializeEmbeddings buf = Inr (map (map fround) [[Fin (1 / 2), NegZero], [JNaN, Fin 3]])"
  by (rule codec_roundtrip [where d = 2]) simp_all

text \<open>The serializer throws (a RangeError of the DataView) exactly for a matrix whose rows hold more
  numbers than the row count times the length of the first row; otherwise the buffer has the length
  the header announces.\<close>

theorem serialize_error_iff:
  "case serializeEmbeddings vs of
     Inl e \<Rightarrow> e = ErrorObj ''RangeError'' ''Offset is outside the bounds of the DataView''
              \<and> vs \<noteq> [] \<and> length vs * length (hd vs) < length (concat vs)
   | Inr buf \<Rightarrow> length (concat vs) \<le> length vs * length (hd vs)
                \<and> length buf = (if vs = [] then 8 else 16 + 4 * (length vs * length (hd vs)))"
proof (cases vs)
  case Nil
  then show ?thesis
    by (simp add: serializeEmbeddings_def set_biguint64_def put_bytes_def)
next
  case (Cons v0 vs')
  then show ?thesis
    using serializeEmbeddings_Cons [of v0 vs'] by (auto simp: not_le)
qed

lemma read_vector_ok:
  "off + 4 * k \<le> length buf \<Longrightarrow>
   \<exists>xs. read_vector buf off k = Inr (xs, off + 4 * k) \<and> length xs = k"
proof (induction k arbitrary: off)
  case (Suc k)
  then have "\<exists>xs. read_vector buf (off + 4) k = Inr (xs, off + 4 + 4 * k) \<and> length xs = k"
    by (intro Suc.IH) simp
  with Suc.prems show ?case by (auto simp: get_float32_def get_bytes_def)
qed simp

lemma read_vectors_ok:
  "off + 4 * (n * d) \<le> length buf \<Longrightarrow>
   \<exists>vs. read_vectors buf off d n = Inr vs \<and> length vs = n \<and> (\<forall>v \<in> set vs. length v = d)"
proof (induction n arbitrary: off)
  case (Suc n)
  then have "off + 4 * d \<le> length buf" by (simp add: algebra_simps)
  then obtain v where v: "read_vector buf off d = Inr (v, off + 4 * d)" "length v = d"
    using read_vector_ok by blast
  moreover have "\<exists>vs. read_vectors buf (off + 4 * d) d n = Inr vs \<and> length vs = n \<and> (\<forall>v \<in> set vs. length v = d)"
    using Suc.prems by (intro Suc.IH) (simp add: algebra_simps)
  ultimately show ?case by auto
qed simp

lemma read_vectors_error:
  "off \<le> length buf \<Longrightarrow> length buf < off + 4 * (n * d) \<Longrightarrow> read_vectors buf off d n = throw_range_error"
proof (induction n arbitrary: off)
  case (Suc n)
  show ?case
  proof (cases "off + 4 * d \<le> length buf")
    case True
    then obtain v where v: "read_vector buf off d = Inr (v, off + 4 * d)"
      using read_vector_ok by blast
    have "read_vectors buf (off + 4 * d) d n = throw_range_error"
      using Suc.prems True by (intro Suc.IH) (simp_all add: algebra_simps)
    with v show ?thesis by simp
  qed (use Suc.prems in \<open>simp add: read_vector_error\<close>)
qed simp

text \<open>The deserializer fails exactly on a buffer too short for what its header announces, and
  otherwise returns as many vectors of the announced dimension as the header says; bytes after them
  are ignored.\<close>

theorem deserialize_shape:
  "case deserializeEmbeddings buf of
     Inl e \<Rightarrow> e = ErrorObj ''RangeError'' ''Offset is outside the bounds of the DataView'' \<and>
        (length buf < 8 \<or> of_le (take 8 buf) \<noteq> 0 \<and>
         length buf < 16 + 4 * (of_le (take 8 buf) * of_le (take 8 (drop 8 buf))))
   | Inr vs \<Rightarrow> 8 \<le> length buf \<and> length vs = of_le (take 8 buf) \<and>
        (\<forall>v \<in> set vs. length v = of_le (take 8 (drop 8 buf)))"
proof (cases "8 \<le> length buf")
  case True
  let ?n = "of_le (take 8 buf)" and ?d = "of_le (take 8 (drop 8 buf))"
  have n: "get_biguint64 buf 0 = Inr ?n"
    using True by (simp add: get_biguint64_def get_bytes_def)
  consider "?n = 0" | "?n \<noteq> 0" "length buf < 16" | "?n \<noteq> 0" "16 \<le> length buf"
    by linarith
  then show ?thesis
  proof cases
    case 3
    then have "get_biguint64 buf 8 = Inr ?d"
      by (simp add: get_biguint64_def get_bytes_def)
    with 3 n have "deserializeEmbeddings buf = read_vectors buf 16 ?d ?n"
      by (simp add: deserializeEmbeddings_def)
    with 3 True show ?thesis
      using read_vectors_ok [of 16 ?n ?d buf] read_vectors_error [of 16 buf ?n ?d]
      by (cases "16 + 4 * (?n * ?d) \<le> length buf") auto
  qed (use True n in \<open>auto simp: deserializeEmbeddings_def get_biguint64_def get_bytes_def\<close>)
qed (simp add: deserializeEmbeddings_def get_biguint64_def get_bytes_def)

end
