(* ===== verification/Citations.thy ===== *)
theory Citations
  imports Prelude
begin

text \<open>
  Citation parsing and rendering (ts/packages/components/src/citations.ts). The one regular
  expression of the file is a tokenizer: \<open>cite_tokens\<close> gives the matches of \<open>CITATION_REGEX\<close> with
  the global flag, and the characters between them, in order. Both \<open>matchAll\<close> and \<open>replace\<close> walk
  these tokens.
\<close>

section \<open>The matches of the citation pattern\<close>

text \<open>
  The optional group \<open>(?:(?:resource_id|doc_id)\s+)?\<close> in front of the captured text. The white
  space is taken greedily; when nothing is left to capture, the engine gives one character back, and
  when there is only one it drops the group.
\<close>

definition after_keyword :: "string \<Rightarrow> string \<Rightarrow> string option" where
  "after_keyword kw body =
     (if \<not> starts_with body kw then None
      else let r = drop (length kw) body; ws = takeWhile is_ws r; rest = dropWhile is_ws r in
        if ws = [] then None
        else if rest \<noteq> [] then Some rest
        else if 2 \<le> length ws then Some [last ws]
        else None)"

definition capture :: "string \<Rightarrow> string" where
  "capture body =
     (case after_keyword ''resource_id'' body of
        Some s \<Rightarrow> s
      | None \<Rightarrow> (case after_keyword ''doc_id'' body of Some s \<Rightarrow> s | None \<Rightarrow> body))"

datatype cite_token = Plain char | Cite (cite_text: string) (cite_ids: string)

abbreviation lbrack :: char where "lbrack \<equiv> CHR ''[''"
abbreviation rbrack :: char where "rbrack \<equiv> CHR '']''"

function cite_tokens :: "string \<Rightarrow> cite_token list" where
  "cite_tokens [] = []"
| "cite_tokens (c # s) =
     (let body = takeWhile (\<lambda>x. x \<noteq> rbrack) s; post = dropWhile (\<lambda>x. x \<noteq> rbrack) s in
      if c = lbrack \<and> body \<noteq> [] \<and> post \<noteq> []
      then Cite (lbrack # body @ [rbrack]) (capture body) # cite_tokens (tl post)
      else Plain c # cite_tokens s)"
  by pat_completeness auto
termination
  by (relation "measure length") (auto simp: le_imp_less_Suc length_dropWhile_le le_diff_conv le_SucI)

declare cite_tokens.simps(2) [simp del]

fun token_text :: "cite_token \<Rightarrow> string" where
  "token_text (Plain c) = [c]"
| "token_text (Cite t _) = t"

section \<open>The operations\<close>

record citation =
  originalText :: string
  ids :: "string list"
  startIndex :: nat
  endIndex :: nat

definition split_ids :: "string \<Rightarrow> string list" where
  "split_ids idsString = filter (\<lambda>i. i \<noteq> []) (map trim (split_on (CHR '','') idsString))"

fun citations_from :: "nat \<Rightarrow> cite_token list \<Rightarrow> citation list" where
  "citations_from i [] = []"
| "citations_from i (Plain c # ts) = citations_from (i + 1) ts"
| "citations_from i (Cite t s # ts) =
     \<lparr>originalText = t, ids = split_ids s, startIndex = i, endIndex = i + length t\<rparr>
       # citations_from (i + length t) ts"

definition parseCitations :: "string \<Rightarrow> citation list" where
  "parseCitations text = citations_from 0 (cite_tokens text)"

text \<open>The loop with \<open>includes\<close> and \<open>push\<close>.\<close>

fun push_new :: "string list \<Rightarrow> string list \<Rightarrow> string list" where
  "push_new allIds [] = allIds"
| "push_new allIds (i # rest) = push_new (if i \<in> set allIds then allIds else allIds @ [i]) rest"

fun collect_ids :: "string list \<Rightarrow> citation list \<Rightarrow> string list" where
  "collect_ids allIds [] = allIds"
| "collect_ids allIds (c # cs) = collect_ids (push_new allIds (ids c)) cs"

definition extractAllCitationIds :: "string \<Rightarrow> string list" where
  "extractAllCitationIds text = collect_ids [] (parseCitations text)"

definition replaceCitations :: "string \<Rightarrow> (string list \<Rightarrow> string list \<Rightarrow> string) \<Rightarrow> string" where
  "replaceCitations text renderCitation =
     (let allCitationIds = extractAllCitationIds text in
      concat (map (\<lambda>t. case t of Plain c \<Rightarrow> [c]
                               | Cite _ s \<Rightarrow> renderCitation (split_ids s) allCitationIds)
                  (cite_tokens text)))"

definition md_link :: "string \<Rightarrow> string \<Rightarrow> string" where
  "md_link label i = ''[['' @ label @ '']](#hit-'' @ i @ '')''"

definition renderAsMarkdownLinks :: "string list \<Rightarrow> string" where
  "renderAsMarkdownLinks xs = join '', '' (map (\<lambda>i. md_link i i) xs)"

fun indexOf :: "'a list \<Rightarrow> 'a \<Rightarrow> int" where
  "indexOf [] x = -1"
| "indexOf (y # ys) x = (if y = x then 0 else if indexOf ys x < 0 then -1 else indexOf ys x + 1)"

definition renderAsSequentialLinks :: "string list \<Rightarrow> string list \<Rightarrow> string" where
  "renderAsSequentialLinks xs allCitationIds =
     join '', '' (map (\<lambda>i. let sequentialNum = indexOf allCitationIds i + 1 in
                              md_link (show_nat (nat sequentialNum)) i) xs)"

text \<open>A JavaScript \<open>Set\<close>: adding keeps the first position.\<close>

definition set_add :: "'a list \<Rightarrow> 'a \<Rightarrow> 'a list" where
  "set_add xs x = (if x \<in> set xs then xs else xs @ [x])"

definition getCitedResourceIds :: "string \<Rightarrow> string list" where
  "getCitedResourceIds summary =
     fold (\<lambda>c uniqueIds. fold (\<lambda>i s. set_add s i) (ids c) uniqueIds) (parseCitations summary) []"

definition getCitedDocumentIds :: "string \<Rightarrow> string list" where
  "getCitedDocumentIds summary = getCitedResourceIds summary"

section \<open>Lemmas\<close>

lemma cite_tokens_text: "concat (map token_text (cite_tokens s)) = s"
proof (induction s rule: cite_tokens.induct)
  case (2 c s)
  let ?body = "takeWhile (\<lambda>x. x \<noteq> rbrack) s" and ?post = "dropWhile (\<lambda>x. x \<noteq> rbrack) s"
  show ?case
  proof (cases "c = lbrack \<and> ?body \<noteq> [] \<and> ?post \<noteq> []")
    case True
    have "?post = rbrack # tl ?post"
      using True hd_dropWhile [of "\<lambda>x. x \<noteq> rbrack" s] by (cases ?post) auto
    then have "?body @ rbrack # tl ?post = s"
      using takeWhile_dropWhile_id [of "\<lambda>x. x \<noteq> rbrack" s] by simp
    with True 2 show ?thesis
      by (simp add: cite_tokens.simps(2) Let_def)
  qed (use 2 in \<open>auto simp: cite_tokens.simps(2) Let_def\<close>)
qed simp

lemma cite_tokens_shape:
  "Cite t s \<in> set (cite_tokens input) \<Longrightarrow>
   \<exists>body. t = lbrack # body @ [rbrack] \<and> body \<noteq> [] \<and> rbrack \<notin> set body \<and> s = capture body"
proof (induction input rule: cite_tokens.induct)
  case (2 c r)
  have nr: "rbrack \<notin> set (takeWhile (\<lambda>x. x \<noteq> rbrack) r)"
    by (metis (mono_tags, lifting) set_takeWhileD)
  show ?case
  proof (cases "c = lbrack \<and> takeWhile (\<lambda>x. x \<noteq> rbrack) r \<noteq> [] \<and> dropWhile (\<lambda>x. x \<noteq> rbrack) r \<noteq> []")
    case True
    with 2 nr show ?thesis by (auto simp: cite_tokens.simps(2) Let_def)
  next
    case False
    then have "cite_tokens (c # r) = Plain c # cite_tokens r"
      by (auto simp: cite_tokens.simps(2) Let_def)
    with 2(3) have "Cite t s \<in> set (cite_tokens r)" by simp
    then show ?thesis by (rule 2(2) [OF refl refl False])
  qed
qed simp

lemma plain_without_bracket: "rbrack \<notin> set s \<Longrightarrow> cite_tokens s = map Plain s"
  by (induction s) (auto simp: cite_tokens.simps(2) Let_def)

lemma after_keyword_subset: "after_keyword kw body = Some s \<Longrightarrow> set s \<subseteq> set body"
proof -
  assume ak: "after_keyword kw body = Some s"
  let ?r = "drop (length kw) body"
  have "set s \<subseteq> set ?r"
    using ak by (auto simp: after_keyword_def Let_def split: if_splits
        dest!: set_dropWhileD set_takeWhileD dest: last_in_set)
  then show ?thesis using set_drop_subset by fastforce
qed

lemma capture_subset: "set (capture body) \<subseteq> set body"
  by (auto simp: capture_def dest: after_keyword_subset split: option.splits)

lemma after_keyword_not_Nil: "after_keyword kw body = Some s \<Longrightarrow> s \<noteq> []"
  by (auto simp: after_keyword_def Let_def split: if_splits)

lemma capture_not_Nil: "body \<noteq> [] \<Longrightarrow> capture body \<noteq> []"
  by (auto simp: capture_def dest: after_keyword_not_Nil split: option.splits)

lemma split_ids_clean:
  assumes "i \<in> set (split_ids s)"
  shows "i \<noteq> []" "trim i = i" "CHR '','' \<notin> set i" "set i \<subseteq> set s"
proof -
  obtain w where w: "w \<in> set (split_on (CHR '','') s)" "i = trim w" "i \<noteq> []"
    using assms by (auto simp: split_ids_def)
  have "set w \<subseteq> set s"
    using set_join_superset [OF w(1), of "[CHR '','']"] by (simp only: join_split_on)
  then show "i \<noteq> []" "trim i = i" "CHR '','' \<notin> set i" "set i \<subseteq> set s"
    using w split_on_pieces [OF w(1)] set_trim_subset [of w] by auto
qed

lemma citations_from_append:
  "citations_from i (ts @ us) =
     citations_from i ts @ citations_from (i + length (concat (map token_text ts))) us"
  by (induction i ts rule: citations_from.induct) (simp_all add: algebra_simps)

lemma citations_from_sound:
  "c \<in> set (citations_from i ts) \<Longrightarrow>
   \<exists>us t s vs. ts = us @ Cite t s # vs \<and> originalText c = t \<and> ids c = split_ids s \<and>
     startIndex c = i + length (concat (map token_text us)) \<and> endIndex c = startIndex c + length t"
proof (induction i ts rule: citations_from.induct)
  case (2 i d ts)
  then obtain us t s vs where "ts = us @ Cite t s # vs" "originalText c = t" "ids c = split_ids s"
    "startIndex c = i + 1 + length (concat (map token_text us))" "endIndex c = startIndex c + length t"
    by auto
  then show ?case by (intro exI [of _ "Plain d # us"] exI [of _ t] exI [of _ s] exI [of _ vs]) auto
next
  case (3 i t s ts)
  show ?case
  proof (cases "c \<in> set (citations_from (i + length t) ts)")
    case True
    with 3(1) obtain us t' s' vs where "ts = us @ Cite t' s' # vs" "originalText c = t'" "ids c = split_ids s'"
      "startIndex c = i + length t + length (concat (map token_text us))" "endIndex c = startIndex c + length t'"
      by auto
    then show ?thesis
      by (intro exI [of _ "Cite t s # us"] exI [of _ t'] exI [of _ s'] exI [of _ vs]) auto
  next
    case False
    with 3(2) show ?thesis by (intro exI [of _ "[]"] exI [of _ t] exI [of _ s] exI [of _ ts]) auto
  qed
qed simp

lemma citations_from_ge: "c \<in> set (citations_from i ts) \<Longrightarrow> i \<le> startIndex c"
  by (induction i ts rule: citations_from.induct) fastforce+

lemma citations_from_sorted:
  "sorted_wrt (\<lambda>c d. endIndex c \<le> startIndex d) (citations_from i ts)"
  by (induction i ts rule: citations_from.induct) (auto dest: citations_from_ge)

text \<open>Both collections of ids are the same insertion-ordered set.\<close>

definition add_all :: "string list \<Rightarrow> string list \<Rightarrow> string list" where
  "add_all xs ys = fold (\<lambda>i s. set_add s i) ys xs"

lemma add_all_simps [simp]: "add_all xs [] = xs" "add_all xs (y # ys) = add_all (set_add xs y) ys"
  by (simp_all add: add_all_def)

lemma add_all_append: "add_all xs (ys @ zs) = add_all (add_all xs ys) zs"
  by (simp add: add_all_def)

lemma push_new_add_all: "push_new xs ys = add_all xs ys"
  by (induction ys arbitrary: xs) (simp_all add: set_add_def)

lemma collect_ids_add_all: "collect_ids xs cs = add_all xs (concat (map ids cs))"
  by (induction cs arbitrary: xs) (simp_all add: push_new_add_all add_all_append)

lemma fold_add_all: "fold (\<lambda>c u. fold (\<lambda>i s. set_add s i) (ids c) u) cs xs = add_all xs (concat (map ids cs))"
  by (induction cs arbitrary: xs) (simp_all add: add_all_append flip: add_all_def)

lemma set_add_all: "set (add_all xs ys) = set xs \<union> set ys"
  by (induction ys arbitrary: xs) (auto simp: set_add_def)

lemma distinct_add_all: "distinct xs \<Longrightarrow> distinct (add_all xs ys)"
  by (induction ys arbitrary: xs) (auto simp: set_add_def)

lemma add_all_prefix: "prefix xs (add_all xs ys)"
proof (induction ys arbitrary: xs)
  case (Cons y ys)
  have "prefix xs (set_add xs y)" by (simp add: set_add_def)
  then show ?case using Cons [of "set_add xs y"] by (auto intro: prefix_order.trans)
qed simp

lemma indexOf_nth: "distinct xs \<Longrightarrow> n < length xs \<Longrightarrow> indexOf xs (xs ! n) = int n"
proof (induction xs arbitrary: n)
  case (Cons x xs)
  then show ?case by (cases n) (auto simp: nth_mem)
qed simp

lemma indexOf_mem: "x \<in> set xs \<Longrightarrow> 0 \<le> indexOf xs x \<and> nat (indexOf xs x) < length xs \<and> xs ! nat (indexOf xs x) = x"
  by (induction xs) (auto simp: nat_add_distrib)

lemma indexOf_absent: "x \<notin> set xs \<Longrightarrow> indexOf xs x = -1"
  by (induction xs) auto

section \<open>Properties\<close>

text \<open>C12. Every parsed citation is an occurrence: its text is the slice of the input between its two
  indices, a bracket pair around at least one character and no closing bracket inside; its ids are
  trimmed, not empty and free of commas and closing brackets. (Most of the indices in the examples of the source's
  comments are not those of the code: see \<open>documented_indices_differ\<close>.)\<close>

theorem parseCitations_sound:
  assumes "c \<in> set (parseCitations input)"
  shows "originalText c = take (endIndex c - startIndex c) (drop (startIndex c) input)
    \<and> startIndex c < endIndex c \<and> endIndex c \<le> length input
    \<and> (\<exists>body. originalText c = lbrack # body @ [rbrack] \<and> body \<noteq> [] \<and> rbrack \<notin> set body)
    \<and> (\<forall>i \<in> set (ids c). i \<noteq> [] \<and> trim i = i \<and> CHR '','' \<notin> set i \<and> rbrack \<notin> set i)"
proof -
  obtain us t s vs where tk: "cite_tokens input = us @ Cite t s # vs" and c: "originalText c = t"
    "ids c = split_ids s" "startIndex c = length (concat (map token_text us))" "endIndex c = startIndex c + length t"
    using citations_from_sound [OF assms [unfolded parseCitations_def]] by auto
  have inp: "input = concat (map token_text us) @ t @ concat (map token_text vs)"
    using cite_tokens_text [of input] tk by simp
  obtain body where b: "t = lbrack # body @ [rbrack]" "body \<noteq> []" "rbrack \<notin> set body" "s = capture body"
    using cite_tokens_shape [of t s input] tk by auto
  have "\<forall>i \<in> set (ids c). i \<noteq> [] \<and> trim i = i \<and> CHR '','' \<notin> set i \<and> rbrack \<notin> set i"
    using split_ids_clean capture_subset [of body] b(3,4) c(2) by (metis subsetD)
  moreover have "originalText c = take (endIndex c - startIndex c) (drop (startIndex c) input)"
    "startIndex c < endIndex c" "endIndex c \<le> length input"
    using c b(1) unfolding inp by simp_all
  ultimately show ?thesis using b c(1) by blast
qed

lemma parseCitations_sound_witness:
  "let c = \<lparr>originalText = ''[doc_id 1, 2]'', ids = [''1'', ''2''], startIndex = 2, endIndex = 15\<rparr> in
   c \<in> set (parseCitations ''a [doc_id 1, 2]'') \<and> originalText c = take (endIndex c - startIndex c) (drop (startIndex c) ''a [doc_id 1, 2]'')"
proof -
  let ?c = "\<lparr>originalText = ''[doc_id 1, 2]'', ids = [''1'', ''2''], startIndex = 2, endIndex = 15\<rparr>"
  have "parseCitations ''a [doc_id 1, 2]'' = [?c]" by code_simp
  then have "?c \<in> set (parseCitations ''a [doc_id 1, 2]'')" by simp
  with parseCitations_sound [OF this] show ?thesis by (simp only: Let_def)
qed

text \<open>The two examples in the comments of the source: the comments give the indices 10 to 26 and 37 to 40 for the
  first and 27 to 42 and 61 to 67 for the second.\<close>

lemma documented_indices_differ:
  "map (\<lambda>c. (originalText c, startIndex c, endIndex c)) (parseCitations ''Some text [resource_id 1, 2] more text [3]'')
     = [(''[resource_id 1, 2]'', 10, 28), (''[3]'', 39, 42)]"
  "map (\<lambda>c. (originalText c, startIndex c, endIndex c))
      (parseCitations ''The system uses consensus [resource_id 1] and replication [2, 3].'')
     = [(''[resource_id 1]'', 26, 41), (''[2, 3]'', 58, 64)]"
  by code_simp+

text \<open>The pieces of the text between the citations, with each citation's slice exchanged.\<close>

fun splice_cites :: "nat \<Rightarrow> string \<Rightarrow> citation list \<Rightarrow> (citation \<Rightarrow> string) \<Rightarrow> string" where
  "splice_cites i s [] f = drop i s"
| "splice_cites i s (c # cs) f =
     take (startIndex c - i) (drop i s) @ f c @ splice_cites (endIndex c) s cs f"

lemma splice_skip:
  assumes "i < length s" "\<forall>c \<in> set cs. i < startIndex c"
  shows "splice_cites i s cs f = s ! i # splice_cites (Suc i) s cs f"
proof (cases cs)
  case Nil
  with assms show ?thesis by (simp add: Cons_nth_drop_Suc)
next
  case (Cons c cs')
  then have "startIndex c - i = Suc (startIndex c - Suc i)" using assms(2) by auto
  moreover have "drop i s = s ! i # drop (Suc i) s"
    using assms(1) by (simp add: Cons_nth_drop_Suc)
  ultimately show ?thesis using Cons by simp
qed

lemma splice_tokens:
  assumes "s = pre @ concat (map token_text ts)"
  shows "splice_cites (length pre) s (citations_from (length pre) ts) (\<lambda>c. g (ids c)) =
    concat (map (\<lambda>t. case t of Plain c \<Rightarrow> [c] | Cite u w \<Rightarrow> g (split_ids w)) ts)"
  using assms
proof (induction ts arbitrary: pre)
  case (Cons t ts)
  show ?case
  proof (cases t)
    case (Plain c)
    let ?cs = "citations_from (Suc (length pre)) ts"
    have "splice_cites (length pre) s ?cs (\<lambda>c. g (ids c)) = s ! length pre # splice_cites (Suc (length pre)) s ?cs (\<lambda>c. g (ids c))"
      using Cons.prems Plain by (intro splice_skip) (auto dest!: citations_from_ge)
    also have "s ! length pre = c" using Cons.prems Plain by simp
    finally show ?thesis
      using Cons.IH [of "pre @ [c]"] Cons.prems Plain by simp
  next
    case (Cite u w)
    then show ?thesis
      using Cons.IH [of "pre @ u"] Cons.prems by simp
  qed
qed simp

text \<open>C11. The parsed citations are in the order of the text and do not overlap, and replacing is
  local: the output is the input in which each citation's slice, and nothing else, is exchanged for
  the rendering of its ids.\<close>

theorem replaceCitations_local:
  "sorted_wrt (\<lambda>c d. endIndex c \<le> startIndex d) (parseCitations input)
   \<and> replaceCitations input render =
       splice_cites 0 input (parseCitations input) (\<lambda>c. render (ids c) (extractAllCitationIds input))"
proof -
  have "splice_cites (length ([] :: string)) input (citations_from (length ([] :: string)) (cite_tokens input))
      (\<lambda>c. render (ids c) (extractAllCitationIds input)) =
    concat (map (\<lambda>t. case t of Plain c \<Rightarrow> [c] | Cite u w \<Rightarrow> render (split_ids w) (extractAllCitationIds input))
      (cite_tokens input))"
    by (rule splice_tokens [where pre = "[]" and g = "\<lambda>xs. render xs (extractAllCitationIds input)"])
      (simp add: cite_tokens_text)
  then show ?thesis
    by (simp add: replaceCitations_def parseCitations_def citations_from_sorted Let_def)
qed

text \<open>The two collections of cited ids, the array searched with \<open>includes\<close> and the \<open>Set\<close>, are
  the same list: every id of every citation once, in the order of first appearance.\<close>

theorem cited_ids_agree:
  "extractAllCitationIds input = getCitedResourceIds input
   \<and> distinct (getCitedResourceIds input)
   \<and> set (getCitedResourceIds input) = (\<Union>c \<in> set (parseCitations input). set (ids c))
   \<and> (case parseCitations input of [] \<Rightarrow> getCitedResourceIds input = []
      | c # _ \<Rightarrow> prefix (add_all [] (ids c)) (getCitedResourceIds input))"
proof -
  have g: "getCitedResourceIds input = add_all [] (concat (map ids (parseCitations input)))"
    by (simp add: getCitedResourceIds_def fold_add_all)
  show ?thesis
    unfolding g extractAllCitationIds_def collect_ids_add_all
    by (auto simp: distinct_add_all set_add_all add_all_append add_all_prefix split: list.split)
qed

text \<open>Sequential rendering numbers every id of a parsed citation between 1 and the number of
  distinct ids (never 0, the number an unknown id would get), and two ids get the same number only
  when they are equal.\<close>

theorem sequential_numbers:
  assumes "c \<in> set (parseCitations input)" "d \<in> set (parseCitations input)"
    and "i \<in> set (ids c)" "j \<in> set (ids d)"
  shows "1 \<le> indexOf (extractAllCitationIds input) i + 1
    \<and> indexOf (extractAllCitationIds input) i + 1 \<le> int (length (extractAllCitationIds input))
    \<and> (indexOf (extractAllCitationIds input) i = indexOf (extractAllCitationIds input) j \<longleftrightarrow> i = j)"
proof -
  have mem: "i \<in> set (extractAllCitationIds input)" "j \<in> set (extractAllCitationIds input)"
    using assms by (auto simp: extractAllCitationIds_def collect_ids_add_all set_add_all)
  have "1 \<le> indexOf (extractAllCitationIds input) i + 1"
    "indexOf (extractAllCitationIds input) i + 1 \<le> int (length (extractAllCitationIds input))"
    using indexOf_mem [OF mem(1)] by linarith+
  moreover have "indexOf (extractAllCitationIds input) i = indexOf (extractAllCitationIds input) j \<longleftrightarrow> i = j"
    using indexOf_mem [OF mem(1)] indexOf_mem [OF mem(2)] by metis
  ultimately show ?thesis by blast
qed

lemma sequential_numbers_witness:
  "let x = ''[doc_id 7] and [9, 7]'' in
   1 \<le> indexOf (extractAllCitationIds x) ''9'' + 1 \<and> indexOf (extractAllCitationIds x) ''9'' \<noteq> indexOf (extractAllCitationIds x) ''7''"
proof -
  let ?x = "''[doc_id 7] and [9, 7]''"
  let ?c = "\<lparr>originalText = ''[doc_id 7]'', ids = [''7''], startIndex = 0, endIndex = 10\<rparr>"
  let ?d = "\<lparr>originalText = ''[9, 7]'', ids = [''9'', ''7''], startIndex = 15, endIndex = 21\<rparr>"
  have "parseCitations ?x = [?c, ?d]" by code_simp
  then have "?c \<in> set (parseCitations ?x)" "?d \<in> set (parseCitations ?x)" by simp_all
  from sequential_numbers [OF this(2,1), of "''9''" "''7''"] show ?thesis by simp
qed

end
