(* ===== verification/Base64.thy ===== *)
theory Base64
  imports Prelude
begin

text \<open>
  \<open>btoa\<close>, which both clients of the repository use to build Authorization headers: base64 over code
  units up to 0xFF, with its inverse and the round trip a server relies on to read the credentials.
\<close>

definition b64_alphabet :: string where
  "b64_alphabet = ''ABCDEFGHIJKLMNOPQRSTUVWXYZabcdefghijklmnopqrstuvwxyz0123456789+/''"

definition b64_char :: "nat \<Rightarrow> char" where
  "b64_char n = b64_alphabet ! n"

fun b64_nats :: "nat list \<Rightarrow> string" where
  "b64_nats [] = []"
| "b64_nats [a] = [b64_char (a div 4), b64_char (a mod 4 * 16), CHR ''='', CHR ''='']"
| "b64_nats [a, b] =
     [b64_char (a div 4), b64_char (a mod 4 * 16 + b div 16), b64_char (b mod 16 * 4), CHR ''='']"
| "b64_nats (a # b # c # r) =
     b64_char (a div 4) # b64_char (a mod 4 * 16 + b div 16) # b64_char (b mod 16 * 4 + c div 64)
       # b64_char (c mod 64) # b64_nats r"

definition btoa :: "string \<Rightarrow> string" where
  "btoa s = b64_nats (map of_char s)"

text \<open>The decoder of RFC 4648, for the statements about \<open>btoa\<close>.\<close>

definition b64_val :: "char \<Rightarrow> nat option" where
  "b64_val c = map_of (zip b64_alphabet [0..<64]) c"

fun unb64_nats :: "string \<Rightarrow> nat list option" where
  "unb64_nats [] = Some []"
| "unb64_nats (p # q # r # s # rest) =
     (case (b64_val p, b64_val q, b64_val r, b64_val s) of
        (Some i, Some j, None, None) \<Rightarrow>
          if r = CHR ''='' \<and> s = CHR ''='' \<and> rest = [] then Some [i * 4 + j div 16] else None
      | (Some i, Some j, Some k, None) \<Rightarrow>
          if s = CHR ''='' \<and> rest = [] then Some [i * 4 + j div 16, j mod 16 * 16 + k div 4] else None
      | (Some i, Some j, Some k, Some l) \<Rightarrow>
          map_option (\<lambda>ns. (i * 4 + j div 16) # (j mod 16 * 16 + k div 4) # (k mod 4 * 64 + l) # ns)
            (unb64_nats rest)
      | _ \<Rightarrow> None)"
| "unb64_nats _ = None"

definition atob :: "string \<Rightarrow> string option" where
  "atob s = map_option (map char_of) (unb64_nats s)"

lemma length_b64_alphabet [simp]: "length b64_alphabet = 64"
  by (simp add: b64_alphabet_def)

lemma distinct_b64_alphabet: "distinct b64_alphabet"
  by code_simp

lemma b64_val_char [simp]: "n < 64 \<Longrightarrow> b64_val (b64_char n) = Some n"
proof -
  assume n: "n < 64"
  have "map_of (zip b64_alphabet [0..<64]) (b64_alphabet ! n) = Some ([0..<64] ! n)"
    using n distinct_b64_alphabet by (intro map_of_zip_nth) simp_all
  with n show ?thesis by (simp add: b64_val_def b64_char_def)
qed

lemma b64_val_pad [simp]: "b64_val (CHR ''='') = None"
  by code_simp

lemma digit_bound: "(x::nat) < m \<Longrightarrow> y < k \<Longrightarrow> x * k + y < m * k"
  using mult_le_mono1 [of "Suc x" m k] by simp

lemma digit_div_mod: "(y::nat) < k \<Longrightarrow> (x * k + y) div k = x" "(y::nat) < k \<Longrightarrow> (x * k + y) mod k = y"
  by simp_all

lemma six_bits:
  fixes a b c :: nat
  shows "a < 256 \<Longrightarrow> a div 4 < 64" "a mod 4 * 16 < 64" "b mod 16 * 4 < 64"
    "b < 256 \<Longrightarrow> a mod 4 * 16 + b div 16 < 64" "c < 256 \<Longrightarrow> b mod 16 * 4 + c div 64 < 64" "c mod 64 < 64"
  using digit_bound [of "a mod 4" 4 "b div 16" 16] digit_bound [of "a mod 4" 4 0 16]
    digit_bound [of "b mod 16" 16 "c div 64" 4] digit_bound [of "b mod 16" 16 0 4]
  by (simp_all add: div_less_iff_less_mult)

lemma unpack_bits:
  fixes a b c :: nat
  assumes "b < 256" "c < 256"
  shows "a div 4 * 4 + (a mod 4 * 16) div 16 = a"
    and "a div 4 * 4 + (a mod 4 * 16 + b div 16) div 16 = a"
    and "(a mod 4 * 16 + b div 16) mod 16 * 16 + (b mod 16 * 4) div 4 = b"
    and "(a mod 4 * 16 + b div 16) mod 16 * 16 + (b mod 16 * 4 + c div 64) div 4 = b"
    and "(b mod 16 * 4 + c div 64) mod 4 * 64 + c mod 64 = c"
proof -
  have lt: "b div 16 < 16" "c div 64 < 4"
    using assms by (simp_all add: div_less_iff_less_mult)
  note dm = digit_div_mod(1) [OF lt(1)] digit_div_mod(2) [OF lt(1)]
    digit_div_mod(1) [OF lt(2)] digit_div_mod(2) [OF lt(2)]
  show "a div 4 * 4 + (a mod 4 * 16) div 16 = a"
    by (simp only: nonzero_mult_div_cancel_right) simp
  show "a div 4 * 4 + (a mod 4 * 16 + b div 16) div 16 = a"
    and "(a mod 4 * 16 + b div 16) mod 16 * 16 + (b mod 16 * 4 + c div 64) div 4 = b"
    and "(b mod 16 * 4 + c div 64) mod 4 * 64 + c mod 64 = c"
    by (simp_all only: dm div_mult_mod_eq)
  show "(a mod 4 * 16 + b div 16) mod 16 * 16 + (b mod 16 * 4) div 4 = b"
    by (simp only: dm) simp
qed

lemma unb64_b64_nats: "\<forall>n \<in> set ns. n < 256 \<Longrightarrow> unb64_nats (b64_nats ns) = Some ns"
proof (induction ns rule: b64_nats.induct)
  case (2 a)
  then show ?case using unpack_bits(1) [of 0 0 a] by (simp add: six_bits)
next
  case (3 a b)
  then show ?case using unpack_bits(2,3) [of b 0 a] by (simp add: six_bits)
next
  case (4 a b c r)
  then show ?case using unpack_bits(2,4) [of b c a] unpack_bits(5) [of b c] by (simp add: six_bits)
qed simp

lemma atob_btoa [simp]: "atob (btoa s) = Some s"
proof -
  have "unb64_nats (b64_nats (map of_char s)) = Some (map of_char s)"
    by (rule unb64_b64_nats) auto
  then show ?thesis
    by (simp add: atob_def btoa_def o_def)
qed

lemma btoa_Nil_iff [simp]: "btoa s = [] \<longleftrightarrow> s = []"
  unfolding btoa_def by (cases "map (of_char :: char \<Rightarrow> nat) s" rule: b64_nats.cases) auto

end
