(* ===== verification/LineStream.thy ===== *)
theory LineStream
  imports Prelude
begin

text \<open>
  Reading a response body line by line. Three loops of the SDK (the event stream of the retrieval
  agent, the NDJSON scan) keep a text buffer: a decoded chunk is appended, the buffer is split at
  newlines, the last piece stays in the buffer and the complete lines are processed in order. Their
  common shape is \<open>feed_chunk\<close>; the interface a line processor has to satisfy is \<open>line_reader\<close>.
  Chunks are the decoded texts (\<open>TextDecoder\<close> with \<open>stream: true\<close> is a platform API).
\<close>

text \<open>
  \<open>lines = buffer.split("\n"); buffer = lines.pop() || ""\<close>, the loop over \<open>lines\<close>, and no more
  reads once the processor has left the loop (by \<open>return\<close> or \<open>throw\<close>).
\<close>

definition feed_chunk ::
    "('s \<Rightarrow> bool) \<Rightarrow> ('s \<Rightarrow> string \<Rightarrow> 's) \<Rightarrow> string \<times> 's \<Rightarrow> string \<Rightarrow> string \<times> 's" where
  "feed_chunk stopped step = (\<lambda>(buffer, s) chunk.
     if stopped s then (buffer, s)
     else let lines = split_on newline (buffer @ chunk)
          in (last lines, foldl step s (butlast lines)))"

definition feed_chunks ::
    "('s \<Rightarrow> bool) \<Rightarrow> ('s \<Rightarrow> string \<Rightarrow> 's) \<Rightarrow> string \<times> 's \<Rightarrow> string list \<Rightarrow> string \<times> 's" where
  "feed_chunks stopped step = foldl (feed_chunk stopped step)"

text \<open>The lines of a complete text that a newline ends, and what is left after the last newline.\<close>

definition full_lines :: "string \<Rightarrow> string list" where
  "full_lines t = butlast (split_on newline t)"

definition rest_line :: "string \<Rightarrow> string" where
  "rest_line t = last (split_on newline t)"

lemma last_append_Cons: "last (xs @ y # ys) = (if ys = [] then y else last ys)"
  by (induction xs) auto

lemma split_on_append_parts:
  "full_lines (s @ t) = full_lines s @ full_lines (rest_line s @ t)"
  "rest_line (s @ t) = rest_line (rest_line s @ t)"
proof -
  let ?h = "hd (split_on newline t)" and ?tl = "tl (split_on newline t)" and ?l = "rest_line s"
  have nl: "newline \<notin> set ?l"
    unfolding rest_line_def by (rule split_on_pieces [OF last_in_set]) simp
  have st: "split_on newline (s @ t) = full_lines s @ (?l @ ?h) # ?tl"
    unfolding full_lines_def rest_line_def by (rule split_on_append)
  have lt: "split_on newline (?l @ t) = (?l @ ?h) # ?tl"
    using nl by (simp add: split_on_append split_on_no_sep)
  show "full_lines (s @ t) = full_lines s @ full_lines (?l @ t)"
    unfolding full_lines_def [of "s @ t"] full_lines_def [of "?l @ t"] st lt
    by (simp add: butlast_append)
  show "rest_line (s @ t) = rest_line (?l @ t)"
    unfolding rest_line_def [of "s @ t"] rest_line_def [of "?l @ t"] st lt
    by (simp add: last_append_Cons)
qed

lemma no_newline_split: "newline \<notin> set b \<Longrightarrow> full_lines b = [] \<and> rest_line b = b"
  by (simp add: full_lines_def rest_line_def split_on_no_sep)

text \<open>
  A line processor: once it has stopped, no line changes it. From this alone the result of reading a
  stream does not depend on where the network cut it into chunks.
\<close>

locale line_reader =
  fixes stopped :: "'s \<Rightarrow> bool" and step :: "'s \<Rightarrow> string \<Rightarrow> 's"
  assumes stuck: "stopped s \<Longrightarrow> step s l = s"
begin

lemma foldl_stuck: "stopped s \<Longrightarrow> foldl step s ls = s"
  by (induction ls) (auto simp: stuck)

lemma feed_chunk_state:
  "snd (feed_chunk stopped step (b, s) c) = foldl step s (full_lines (b @ c))"
  by (simp add: feed_chunk_def Let_def full_lines_def foldl_stuck)

lemma feed_chunk_buffer:
  "\<not> stopped s \<Longrightarrow> fst (feed_chunk stopped step (b, s) c) = rest_line (b @ c)"
  by (simp add: feed_chunk_def Let_def rest_line_def)

lemma feed_chunks_stuck: "stopped s \<Longrightarrow> feed_chunks stopped step (b, s) cs = (b, s)"
  by (induction cs) (auto simp: feed_chunks_def feed_chunk_def)

lemma feed_chunks_state:
  assumes "newline \<notin> set b"
  shows "snd (feed_chunks stopped step (b, s) cs) = foldl step s (full_lines (b @ concat cs))"
  using assms
proof (induction cs arbitrary: b s)
  case Nil
  then show ?case by (simp add: feed_chunks_def no_newline_split)
next
  case (Cons c cs)
  show ?case
  proof (cases "stopped s")
    case True
    then show ?thesis by (simp add: feed_chunks_stuck foldl_stuck)
  next
    case False
    let ?s = "foldl step s (full_lines (b @ c))" and ?b = "rest_line (b @ c)"
    have one: "feed_chunk stopped step (b, s) c = (?b, ?s)"
      using feed_chunk_state [of b s c] feed_chunk_buffer [OF False, of b c] by (metis prod.collapse)
    have nl: "newline \<notin> set ?b"
      unfolding rest_line_def by (rule split_on_pieces [OF last_in_set]) simp
    have "snd (feed_chunks stopped step (b, s) (c # cs)) = snd (feed_chunks stopped step (?b, ?s) cs)"
      by (simp add: feed_chunks_def one)
    also have "\<dots> = foldl step ?s (full_lines (?b @ concat cs))"
      by (rule Cons.IH [OF nl])
    also have "\<dots> = foldl step s (full_lines ((b @ c) @ concat cs))"
      by (subst (2) split_on_append_parts(1)) (rule foldl_append [symmetric])
    finally show ?thesis by simp
  qed
qed

lemma feed_chunks_buffer:
  assumes "newline \<notin> set b" "\<not> stopped (snd (feed_chunks stopped step (b, s) cs))"
  shows "fst (feed_chunks stopped step (b, s) cs) = rest_line (b @ concat cs)"
  using assms
proof (induction cs arbitrary: b s)
  case Nil
  then show ?case by (simp add: feed_chunks_def no_newline_split)
next
  case (Cons c cs)
  then have ns: "\<not> stopped s"
    using feed_chunks_stuck [of s b "c # cs"] by auto
  let ?s = "foldl step s (full_lines (b @ c))" and ?b = "rest_line (b @ c)"
  have one: "feed_chunk stopped step (b, s) c = (?b, ?s)"
    using feed_chunk_state [of b s c] feed_chunk_buffer [OF ns, of b c] by (metis prod.collapse)
  have nl: "newline \<notin> set ?b"
    unfolding rest_line_def by (rule split_on_pieces [OF last_in_set]) simp
  have "fst (feed_chunks stopped step (b, s) (c # cs)) = fst (feed_chunks stopped step (?b, ?s) cs)"
    by (simp add: feed_chunks_def one)
  also have "\<dots> = rest_line (?b @ concat cs)"
    using Cons.prems(2) one by (intro Cons.IH [OF nl]) (simp add: feed_chunks_def)
  also have "\<dots> = rest_line ((b @ c) @ concat cs)"
    by (rule split_on_append_parts(2) [symmetric])
  finally show ?case by simp
qed

text \<open>Two ways of cutting the same text are read alike.\<close>

lemma chunking_irrelevant:
  "concat cs = concat ds \<Longrightarrow>
   snd (feed_chunks stopped step ([], s) cs) = snd (feed_chunks stopped step ([], s) ds)"
  by (simp add: feed_chunks_state)

end

end
