(* ===== verification/Sse.thy ===== *)
theory Sse
  imports LineStream
begin

text \<open>
  The event stream of \<open>performRetrievalAgent\<close> (ts/packages/sdk/src/client.ts): the reader loop that
  turns the lines of a text/event-stream body into calls of the caller's callbacks.

  The callbacks are the program's clients: a caller has some of them (\<open>has_cb\<close>), and a call changes
  the client's own state \<open>'c\<close> and may throw (\<open>invoke\<close> returns the new state and whether it threw).
  \<open>json_parse\<close> is \<open>JSON.parse\<close>, \<open>None\<close> where it throws.
\<close>

datatype sse_kind =
    Classification | Reasoning | FilterApplied | SearchExecuted | Hit | Generation | StepStarted
  | StepProgress | StepCompleted | Confidence | Followup | EvalResult | Done | ErrorEvent

text \<open>The cases of the \<open>switch (currentEvent)\<close>.\<close>

definition kind_of_event :: "string \<Rightarrow> sse_kind option" where
  "kind_of_event ev = map_of
     [(''classification'', Classification), (''reasoning'', Reasoning),
      (''filter_applied'', FilterApplied), (''search_executed'', SearchExecuted),
      (''hit'', Hit), (''generation'', Generation), (''step_started'', StepStarted),
      (''step_progress'', StepProgress), (''step_completed'', StepCompleted),
      (''confidence'', Confidence), (''followup'', Followup), (''eval'', EvalResult),
      (''done'', Done), (''error'', ErrorEvent)] ev"

record 'c callbacks =
  has_cb :: "sse_kind \<Rightarrow> bool"
  invoke :: "sse_kind \<Rightarrow> jsval \<Rightarrow> 'c \<Rightarrow> 'c \<times> bool"

datatype phase = Reading | Returned | Threw jsval

text \<open>Console output: a warning with the event name and its data, or a streaming error.\<close>

datatype console = WarnParse string string | StreamError jsval

record 'c sse_state =
  currentEvent :: string
  phase :: phase
  console_out :: "console list"
  client :: 'c

definition sse_init :: "'c \<Rightarrow> 'c sse_state" where
  "sse_init c = \<lparr>currentEvent = [], phase = Reading, console_out = [], client = c\<rparr>"

definition warn :: "string \<Rightarrow> 'c sse_state \<Rightarrow> 'c sse_state" where
  "warn data st = st\<lparr>console_out := console_out st @ [WarnParse (currentEvent st) data]\<rparr>"

text \<open>
  \<open>if (callbacks.onX) callbacks.onX(JSON.parse(data)); break;\<close> inside the \<open>try\<close>: a parse failure or
  an exception of the callback is a warning.
\<close>

definition call_parsed ::
    "(string \<Rightarrow> jsval option) \<Rightarrow> 'c callbacks \<Rightarrow> sse_kind \<Rightarrow> string \<Rightarrow> 'c sse_state \<Rightarrow> 'c sse_state \<times> bool" where
  "call_parsed json_parse cbs k data st =
     (if \<not> has_cb cbs k then (st, True)
      else case json_parse data of
             None \<Rightarrow> (warn data st, False)
           | Some v \<Rightarrow>
               (let (c, threw) = invoke cbs k v (client st); st' = st\<lparr>client := c\<rparr>
                in if threw then (warn data st', False) else (st', True)))"

text \<open>
  The message of an error event: \<open>parsed.error\<close> of an object when truthy, otherwise
  \<open>String(parsed)\<close>. Reading \<open>error\<close> of \<open>null\<close> throws (None).
\<close>

definition error_message :: "jsval \<Rightarrow> jsval option" where
  "error_message parsed =
     (if parsed = JNull then None
      else if typeof_object parsed \<and> truthy (fld parsed ''error'') then Some (fld parsed ''error'')
      else Some (JStr (to_str parsed)))"

definition error_event ::
    "(string \<Rightarrow> jsval option) \<Rightarrow> 'c callbacks \<Rightarrow> string \<Rightarrow> 'c sse_state \<Rightarrow> 'c sse_state" where
  "error_event json_parse cbs data st =
     (case Option.bind (json_parse data) error_message of
        None \<Rightarrow> warn data st
      | Some message \<Rightarrow>
          (let (c, threw) = (if has_cb cbs ErrorEvent then invoke cbs ErrorEvent message (client st)
                             else (client st, False));
               st' = st\<lparr>client := c\<rparr>
           in if threw then warn data st'
              else st'\<lparr>phase := Threw message,
                       console_out := console_out st' @ [StreamError message]\<rparr>))"

definition dispatch_event ::
    "(string \<Rightarrow> jsval option) \<Rightarrow> 'c callbacks \<Rightarrow> string \<Rightarrow> 'c sse_state \<Rightarrow> 'c sse_state" where
  "dispatch_event json_parse cbs data st =
     (case kind_of_event (currentEvent st) of
        None \<Rightarrow> st
      | Some ErrorEvent \<Rightarrow> error_event json_parse cbs data st
      | Some Done \<Rightarrow>
          (let (st', ok) = call_parsed json_parse cbs Done data st
           in if ok then st'\<lparr>phase := Returned\<rparr> else st')
      | Some k \<Rightarrow> fst (call_parsed json_parse cbs k data st))"

definition sse_stopped :: "'c sse_state \<Rightarrow> bool" where
  "sse_stopped st \<longleftrightarrow> phase st \<noteq> Reading"

text \<open>The body of \<open>for (const line of lines)\<close>.\<close>

definition sse_line ::
    "(string \<Rightarrow> jsval option) \<Rightarrow> 'c callbacks \<Rightarrow> 'c sse_state \<Rightarrow> string \<Rightarrow> 'c sse_state" where
  "sse_line json_parse cbs st line =
     (if sse_stopped st then st
      else if trim line = [] then st\<lparr>currentEvent := []\<rparr>
      else if starts_with line ''event: '' then st\<lparr>currentEvent := trim (drop 7 line)\<rparr>
      else if starts_with line ''data: '' then dispatch_event json_parse cbs (trim (drop 6 line)) st
      else st)"

text \<open>
  One \<open>reader.read()\<close>: a chunk, or a rejection. A rejection ends the loop; only an AbortError is not
  reported. The end of the stream leaves the buffer unread.
\<close>

datatype read_result = Chunk string | ReadFails js_exn

definition reader_error :: "js_exn \<Rightarrow> 'c sse_state \<Rightarrow> 'c sse_state" where
  "reader_error e st =
     (case e of
        ErrorObj name msg \<Rightarrow>
          (if name = ''AbortError'' then st\<lparr>phase := Returned\<rparr>
           else st\<lparr>phase := Threw (JStr msg), console_out := console_out st @ [StreamError (JStr msg)]\<rparr>)
      | NonError v \<Rightarrow> st\<lparr>phase := Threw v, console_out := console_out st @ [StreamError v]\<rparr>)"

fun sse_read ::
    "(string \<Rightarrow> jsval option) \<Rightarrow> 'c callbacks \<Rightarrow> string \<times> 'c sse_state \<Rightarrow> read_result list \<Rightarrow> string \<times> 'c sse_state" where
  "sse_read json_parse cbs bs [] = bs"
| "sse_read json_parse cbs bs (Chunk c # rs) =
     sse_read json_parse cbs (feed_chunk sse_stopped (sse_line json_parse cbs) bs c) rs"
| "sse_read json_parse cbs (b, st) (ReadFails e # rs) =
     (if sse_stopped st then (b, st) else (b, reader_error e st))"

section \<open>The reader is a line reader\<close>

interpretation sse: line_reader sse_stopped "sse_line json_parse cbs" for json_parse cbs
  by unfold_locales (simp add: sse_line_def)

lemma sse_read_chunks:
  "sse_read json_parse cbs bs (map Chunk cs) =
     feed_chunks sse_stopped (sse_line json_parse cbs) bs cs"
  by (induction cs arbitrary: bs) (simp_all add: feed_chunks_def)

lemma sse_read_stopped: "sse_stopped st \<Longrightarrow> sse_read json_parse cbs (b, st) rs = (b, st)"
proof (induction rs)
  case (Cons r rs)
  then show ?case by (cases r) (auto simp: feed_chunk_def)
qed simp

section \<open>Invariants of a client of the stream\<close>

text \<open>
  The interface between the reader and the state its callbacks keep: a predicate every callback
  preserves holds of the client's state after any stream, read in any way.
\<close>

locale stream_client =
  fixes cbs :: "'c callbacks" and P :: "'c \<Rightarrow> bool"
  assumes invoke_keeps: "P c \<Longrightarrow> P (fst (invoke cbs k v c))"
begin

lemma warn_client: "client (warn d st) = client st"
  by (simp add: warn_def)

lemma call_parsed_keeps: "P (client st) \<Longrightarrow> P (client (fst (call_parsed json_parse cbs k d st)))"
  using invoke_keeps [of "client st" k]
  by (auto simp: call_parsed_def Let_def warn_client split: option.split prod.split) (metis fst_conv)+

lemma error_event_keeps: "P (client st) \<Longrightarrow> P (client (error_event json_parse cbs d st))"
  using invoke_keeps [of "client st" ErrorEvent]
  by (auto simp: error_event_def Let_def warn_client split: option.split prod.split) (metis fst_conv)+

lemma dispatch_keeps: "P (client st) \<Longrightarrow> P (client (dispatch_event json_parse cbs d st))"
  using call_parsed_keeps [of st json_parse _ d] error_event_keeps [of st json_parse d]
  by (auto simp: dispatch_event_def Let_def case_prod_beta split: option.split sse_kind.split)

lemma line_keeps: "P (client st) \<Longrightarrow> P (client (sse_line json_parse cbs st l))"
  by (auto simp: sse_line_def intro: dispatch_keeps)

lemma foldl_keeps: "P (client st) \<Longrightarrow> P (client (foldl (sse_line json_parse cbs) st ls))"
  by (induction ls arbitrary: st) (auto intro: line_keeps)

lemma read_keeps: "P (client (snd bs)) \<Longrightarrow> P (client (snd (sse_read json_parse cbs bs rs)))"
proof (induction rs arbitrary: bs)
  case (Cons r rs)
  show ?case
  proof (cases r)
    case (Chunk c)
    have "P (client (snd (feed_chunk sse_stopped (sse_line json_parse cbs) bs c)))"
      using Cons.prems by (cases bs) (auto simp: feed_chunk_def Let_def intro: foldl_keeps)
    then show ?thesis using Chunk Cons.IH by simp
  next
    case (ReadFails e)
    then show ?thesis
      using Cons.prems by (cases bs) (auto simp: reader_error_def split: js_exn.split)
  qed
qed simp

end

section \<open>Events on the wire and their delivery\<close>

text \<open>The lines of a server that sends events with a name and one line of data.\<close>

definition event_lines :: "string \<times> string \<Rightarrow> string list" where
  "event_lines = (\<lambda>(ev, d). [''event: '' @ ev, ''data: '' @ d, []])"

definition sse_encode :: "(string \<times> string) list \<Rightarrow> string" where
  "sse_encode evs = concat (map (\<lambda>l. l @ [newline]) (concat (map event_lines evs)))"

definition clean_event :: "string \<times> string \<Rightarrow> bool" where
  "clean_event = (\<lambda>(ev, d). trim ev = ev \<and> trim d = d \<and> newline \<notin> set ev \<and> newline \<notin> set d)"

text \<open>What the program promises: each event is dispatched under its name until one stops the loop.\<close>

fun deliver ::
    "(string \<Rightarrow> jsval option) \<Rightarrow> 'c callbacks \<Rightarrow> 'c sse_state \<Rightarrow> (string \<times> string) list \<Rightarrow> 'c sse_state" where
  "deliver json_parse cbs st [] = st"
| "deliver json_parse cbs st ((ev, d) # evs) =
     (let st' = dispatch_event json_parse cbs d (st\<lparr>currentEvent := ev\<rparr>)
      in if sse_stopped st' then st' else deliver json_parse cbs (st'\<lparr>currentEvent := []\<rparr>) evs)"

lemma full_lines_encode:
  "\<forall>l \<in> set ls. newline \<notin> set l \<Longrightarrow> full_lines (concat (map (\<lambda>l. l @ [newline]) ls)) = ls"
proof (induction ls)
  case (Cons l ls)
  have "split_on newline (l @ [newline]) = [l, []]"
    using Cons.prems by (simp add: split_on_append split_on_no_sep)
  then have "full_lines (l @ [newline]) = [l]" "rest_line (l @ [newline]) = []"
    by (simp_all add: full_lines_def rest_line_def)
  then show ?case
    using Cons split_on_append_parts(1) [of "l @ [newline]"] by simp
qed (simp add: full_lines_def)

lemma trim_not_Nil: "x \<in> set s \<Longrightarrow> \<not> is_ws x \<Longrightarrow> trim s \<noteq> []"
proof -
  assume x: "x \<in> set s" "\<not> is_ws x"
  then have ne: "dropWhile is_ws s \<noteq> []"
    by (auto simp: dropWhile_eq_Nil_conv)
  have "hd (dropWhile is_ws s) \<in> set (dropWhile is_ws s)" "\<not> is_ws (hd (dropWhile is_ws s))"
    using hd_in_set [OF ne] hd_dropWhile [OF ne] by simp_all
  then show "trim s \<noteq> []"
    by (auto simp: trim_def dropWhile_eq_Nil_conv)
qed

lemma is_ws_Cons_text: "trim (CHR ''e'' # s) \<noteq> []" "trim (CHR ''d'' # s) \<noteq> []"
  by (rule trim_not_Nil [of "CHR ''e''"]; simp add: is_ws_def)
     (rule trim_not_Nil [of "CHR ''d''"]; simp add: is_ws_def)

lemma sse_line_event:
  assumes "\<not> sse_stopped st"
  shows "sse_line json_parse cbs st (''event: '' @ ev) = st\<lparr>currentEvent := trim ev\<rparr>"
  using assms by (simp add: sse_line_def starts_with_def is_ws_Cons_text)

lemma sse_line_data:
  assumes "\<not> sse_stopped st"
  shows "sse_line json_parse cbs st (''data: '' @ d) = dispatch_event json_parse cbs (trim d) st"
  using assms by (simp add: sse_line_def starts_with_def is_ws_Cons_text)

lemma sse_line_blank: "\<not> sse_stopped st \<Longrightarrow> sse_line json_parse cbs st [] = st\<lparr>currentEvent := []\<rparr>"
  by (simp add: sse_line_def)

lemma sse_stopped_currentEvent [simp]: "sse_stopped (st\<lparr>currentEvent := e\<rparr>) = sse_stopped st"
  by (simp add: sse_stopped_def)

lemma foldl_event_lines:
  assumes "\<not> sse_stopped st" "\<forall>e \<in> set evs. clean_event e"
  shows "foldl (sse_line json_parse cbs) st (concat (map event_lines evs)) = deliver json_parse cbs st evs"
  using assms
proof (induction evs arbitrary: st)
  case (Cons e evs)
  obtain ev d where e: "e = (ev, d)" "trim ev = ev" "trim d = d"
    using Cons.prems(2) by (cases e) (auto simp: clean_event_def)
  let ?st = "dispatch_event json_parse cbs d (st\<lparr>currentEvent := ev\<rparr>)"
  have "foldl (sse_line json_parse cbs) st (event_lines e) = sse_line json_parse cbs ?st []"
    using Cons.prems(1) e by (simp add: event_lines_def sse_line_event sse_line_data del: append.simps)
  moreover have "sse_line json_parse cbs ?st [] = (if sse_stopped ?st then ?st else ?st\<lparr>currentEvent := []\<rparr>)"
    by (simp add: sse_line_blank sse.stuck)
  ultimately show ?case
    using Cons e by (simp add: Let_def sse.foldl_stuck)
qed simp

lemma clean_event_lines: "\<forall>e \<in> set evs. clean_event e \<Longrightarrow> \<forall>l \<in> set (concat (map event_lines evs)). newline \<notin> set l"
  by (fastforce simp: clean_event_def event_lines_def)

lemma sse_read_encoded:
  assumes "\<forall>e \<in> set evs. clean_event e" and "concat cs = sse_encode evs"
  shows "snd (sse_read json_parse cbs ([], sse_init c) (map Chunk cs)) =
         deliver json_parse cbs (sse_init c) evs"
proof -
  have "snd (sse_read json_parse cbs ([], sse_init c) (map Chunk cs)) =
      foldl (sse_line json_parse cbs) (sse_init c) (full_lines (sse_encode evs))"
    unfolding sse_read_chunks assms(2) [symmetric] by (simp add: sse.feed_chunks_state)
  also have "full_lines (sse_encode evs) = concat (map event_lines evs)"
    unfolding sse_encode_def by (rule full_lines_encode [OF clean_event_lines [OF assms(1)]])
  also have "foldl (sse_line json_parse cbs) (sse_init c) \<dots> = deliver json_parse cbs (sse_init c) evs"
    by (rule foldl_event_lines [OF _ assms(1)]) (simp add: sse_stopped_def sse_init_def)
  finally show ?thesis .
qed

text \<open>
  Clients whose callbacks do not throw on data events: what a run of such events does to their state.
  Events of an unknown name and events whose data does not parse change nothing.
\<close>

definition data_event :: "string \<times> string \<Rightarrow> bool" where
  "data_event = (\<lambda>(ev, d). kind_of_event ev \<noteq> Some Done \<and> kind_of_event ev \<noteq> Some ErrorEvent)"

definition apply_event ::
    "(sse_kind \<Rightarrow> jsval \<Rightarrow> 'c \<Rightarrow> 'c) \<Rightarrow> (string \<Rightarrow> jsval option) \<Rightarrow> string \<times> string \<Rightarrow> 'c \<Rightarrow> 'c" where
  "apply_event update json_parse = (\<lambda>(ev, d) c.
     (case kind_of_event ev of
        None \<Rightarrow> c
      | Some k \<Rightarrow> (case json_parse d of None \<Rightarrow> c | Some v \<Rightarrow> update k v c)))"

text \<open>The parsed data of the events of one kind, in order.\<close>

definition payloads :: "(string \<Rightarrow> jsval option) \<Rightarrow> sse_kind \<Rightarrow> (string \<times> string) list \<Rightarrow> jsval list" where
  "payloads json_parse k evs =
     List.map_filter (\<lambda>(ev, d). if kind_of_event ev = Some k then json_parse d else None) evs"

lemma payloads_simps [simp]:
  "payloads json_parse k [] = []"
  "payloads json_parse k ((ev, d) # evs) =
     (if kind_of_event ev = Some k then (case json_parse d of None \<Rightarrow> [] | Some v \<Rightarrow> [v]) else [])
     @ payloads json_parse k evs"
  by (simp_all add: payloads_def List.map_filter_simps split: option.split)

text \<open>A part of the state that only events of one kind change, and one that none changes.\<close>

lemma fold_events_view:
  assumes "\<And>k v st. view (update k v st) = (if k = K then f (view st) v else view st)"
  shows "view (fold (apply_event update json_parse) evs st) = foldl f (view st) (payloads json_parse K evs)"
proof (induction evs arbitrary: st)
  case (Cons e evs)
  obtain ev d where e: "e = (ev, d)" by force
  have "view (apply_event update json_parse (ev, d) st) =
      foldl f (view st) (payloads json_parse K [(ev, d)])"
    by (auto simp: apply_event_def assms split: option.split)
  then show ?case using e by (simp add: Cons.IH)
qed simp

lemma fold_events_fixed:
  assumes "\<And>k v st. view (update k v st) = view st"
  shows "view (fold (apply_event update json_parse) evs st) = view st"
proof (induction evs arbitrary: st)
  case (Cons e evs)
  then show ?case
    using assms by (cases e) (auto simp: apply_event_def split: option.split)
qed simp

lemma foldl_append_strings: "foldl (\<lambda>a v. a @ f v) x vs = x @ concat (map f vs)"
  by (induction vs arbitrary: x) simp_all

lemma foldl_collect: "foldl (\<lambda>a v. a @ [v]) x vs = x @ vs"
  by (induction vs arbitrary: x) simp_all

lemma foldl_last: "foldl (\<lambda>a v. v) x vs = last (x # vs)"
  by (induction vs arbitrary: x) simp_all

locale data_client =
  fixes cbs :: "'c callbacks" and update :: "sse_kind \<Rightarrow> jsval \<Rightarrow> 'c \<Rightarrow> 'c"
  assumes invoke_data: "k \<noteq> Done \<Longrightarrow> k \<noteq> ErrorEvent \<Longrightarrow> has_cb cbs k \<Longrightarrow> invoke cbs k v c = (update k v c, False)"
    and no_callback: "k \<noteq> Done \<Longrightarrow> k \<noteq> ErrorEvent \<Longrightarrow> \<not> has_cb cbs k \<Longrightarrow> update k v c = c"
begin

lemma dispatch_data:
  assumes "data_event (ev, d)" "currentEvent st = ev"
  shows "phase (dispatch_event json_parse cbs d st) = phase st
    \<and> client (dispatch_event json_parse cbs d st) = apply_event update json_parse (ev, d) (client st)"
proof (cases "kind_of_event ev")
  case (Some k)
  with assms(1) have k: "k \<noteq> Done" "k \<noteq> ErrorEvent" by (auto simp: data_event_def)
  then have "dispatch_event json_parse cbs d st = fst (call_parsed json_parse cbs k d st)"
    using Some assms(2) by (cases k) (simp_all add: dispatch_event_def)
  moreover have "phase (fst (call_parsed json_parse cbs k d st)) = phase st
      \<and> client (fst (call_parsed json_parse cbs k d st)) =
          (case json_parse d of None \<Rightarrow> client st | Some v \<Rightarrow> update k v (client st))"
    using k by (auto simp: call_parsed_def invoke_data no_callback warn_def split: option.split)
  ultimately show ?thesis using Some by (simp add: apply_event_def)
qed (simp add: assms dispatch_event_def apply_event_def)

lemma deliver_data:
  assumes "\<forall>e \<in> set evs. data_event e" "phase st = Reading"
  shows "\<exists>st'. deliver json_parse cbs st (evs @ rest) = deliver json_parse cbs st' rest
    \<and> phase st' = Reading \<and> client st' = fold (apply_event update json_parse) evs (client st)"
  using assms
proof (induction evs arbitrary: st)
  case (Cons e evs)
  obtain ev d where e: "e = (ev, d)" by force
  let ?st = "(dispatch_event json_parse cbs d (st\<lparr>currentEvent := ev\<rparr>))\<lparr>currentEvent := []\<rparr>"
  have "phase ?st = Reading" "client ?st = apply_event update json_parse e (client st)"
    using dispatch_data [of ev d "st\<lparr>currentEvent := ev\<rparr>"] Cons.prems e by simp_all
  moreover have "deliver json_parse cbs st ((e # evs) @ rest) = deliver json_parse cbs ?st (evs @ rest)"
    using \<open>phase ?st = Reading\<close> e by (simp add: Let_def sse_stopped_def)
  ultimately show ?case using Cons.IH [of ?st] Cons.prems(1) by auto
qed auto

end

text \<open>C2. What a stream delivers does not depend on how the network cuts it into chunks: the callbacks'
  state, the way the loop ends and the console output are those of reading the text in one piece.\<close>

theorem sse_chunking:
  assumes "concat cs = concat ds"
  shows "snd (sse_read json_parse cbs ([], sse_init c) (map Chunk cs)) =
         snd (sse_read json_parse cbs ([], sse_init c) (map Chunk ds))"
  unfolding sse_read_chunks using assms by (rule sse.chunking_irrelevant)

definition log_callbacks :: "(sse_kind \<times> jsval) list callbacks" where
  "log_callbacks = \<lparr>has_cb = (\<lambda>k. True), invoke = (\<lambda>k v c. (c @ [(k, v)], False))\<rparr>"

lemma sse_chunking_witness:
  "snd (sse_read (\<lambda>s. Some (JStr s)) log_callbacks ([], sse_init []) (map Chunk [''event: hi'', ''t'', ''[]''])) =
   snd (sse_read (\<lambda>s. Some (JStr s)) log_callbacks ([], sse_init []) (map Chunk [''event: hit[]'']))"
  by (rule sse_chunking) simp

text \<open>C1. A body that encodes a list of events is delivered event by event: whatever the chunks, the
  reader ends in the state that dispatching the events in order reaches, each under its own name, up
  to the first that ends the loop.\<close>

theorem sse_delivers:
  assumes "\<forall>e \<in> set evs. clean_event e" and "concat cs = sse_encode evs"
  shows "snd (sse_read json_parse cbs ([], sse_init c) (map Chunk cs)) =
         deliver json_parse cbs (sse_init c) evs"
  using assms by (rule sse_read_encoded)

lemma sse_delivers_witness:
  "client (snd (sse_read (\<lambda>s. Some (JStr s)) log_callbacks ([], sse_init [])
      (map Chunk [sse_encode [(''hit'', ''a''), (''done'', ''b''), (''hit'', ''c'')]]))) =
   [(Hit, JStr ''a''), (Done, JStr ''b'')]"
proof -
  let ?evs = "[(''hit'', ''a''), (''done'', ''b''), (''hit'', ''c'')]"
  have clean: "\<forall>e \<in> set ?evs. clean_event e"
    by (simp add: clean_event_def trim_def is_ws_def)
  have "client (deliver (\<lambda>s. Some (JStr s)) log_callbacks (sse_init []) ?evs) = [(Hit, JStr ''a''), (Done, JStr ''b'')]"
    by (simp add: dispatch_event_def kind_of_event_def call_parsed_def log_callbacks_def sse_init_def sse_stopped_def)
  then show ?thesis
    by (subst sse_delivers [OF clean]) simp_all
qed

text \<open>What follows the last newline is never dispatched: a body cut off before the newline of its
  last line is read as if that line were not there.\<close>

theorem sse_drops_unterminated:
  assumes "newline \<notin> set r" and "t = [] \<or> last t = newline"
  shows "snd (sse_read json_parse cbs ([], sse_init c) [Chunk (t @ r)]) =
         snd (sse_read json_parse cbs ([], sse_init c) [Chunk t])"
proof -
  have rest: "rest_line t = []"
    using assms(2)
  proof
    assume "last t = newline"
    then show ?thesis
    proof (cases "t = []")
      case False
      then have "t = butlast t @ [newline]" using \<open>last t = newline\<close> by (metis append_butlast_last_id)
      then have "rest_line t = rest_line (rest_line (butlast t) @ [newline])"
        using split_on_append_parts(2) by metis
      moreover have "newline \<notin> set (rest_line (butlast t))"
        unfolding rest_line_def by (rule split_on_pieces [OF last_in_set]) simp
      ultimately show ?thesis
        by (simp add: rest_line_def split_on_append split_on_no_sep)
    qed (simp add: rest_line_def)
  qed (simp add: rest_line_def)
  have "full_lines (t @ r) = full_lines t"
    using split_on_append_parts(1) [of t r] rest no_newline_split [OF assms(1)] by simp
  then show ?thesis
    using sse_read_chunks [of json_parse cbs "([], sse_init c)" "[t @ r]"]
      sse_read_chunks [of json_parse cbs "([], sse_init c)" "[t]"]
    by (simp add: sse.feed_chunks_state)
qed

lemma sse_drops_unterminated_witness:
  "snd (sse_read (\<lambda>s. Some (JStr s)) log_callbacks ([], sse_init []) [Chunk ([newline] @ ''data: x'')]) =
   snd (sse_read (\<lambda>s. Some (JStr s)) log_callbacks ([], sse_init []) [Chunk [newline]])"
  by (rule sse_drops_unterminated) simp_all

text \<open>An error event ends the stream and reports its message once, to the callback and to the
  console, unless its data does not parse, is \<open>null\<close>, or the callback throws; then the event is only
  a warning and reading goes on.\<close>

theorem error_event_outcome:
  fixes cbs :: "'c callbacks" and json_parse :: "string \<Rightarrow> jsval option"
  assumes "\<not> sse_stopped st" "currentEvent st = ''error''" "trim d = d"
  defines "st' \<equiv> sse_line json_parse cbs st (''data: '' @ d)"
  shows "(case Option.bind (json_parse d) error_message of
      None \<Rightarrow> st' = warn d st
    | Some m \<Rightarrow>
        if has_cb cbs ErrorEvent \<and> snd (invoke cbs ErrorEvent m (client st))
        then phase st' = Reading \<and> console_out st' = console_out st @ [WarnParse ''error'' d]
        else phase st' = Threw m \<and> console_out st' = console_out st @ [StreamError m]
             \<and> client st' = (if has_cb cbs ErrorEvent then fst (invoke cbs ErrorEvent m (client st)) else client st))
    \<and> Option.bind (Some JNull) error_message = None"
proof -
  have "st' = error_event json_parse cbs d st"
    unfolding st'_def sse_line_data [OF assms(1)] using assms(2,3)
    by (simp add: dispatch_event_def kind_of_event_def)
  then show ?thesis
    using assms(1,2)
    by (auto simp: error_event_def error_message_def warn_def sse_stopped_def Let_def
        split: option.split prod.split)
qed

lemma error_event_outcome_witness:
  "sse_line (\<lambda>s. Some JNull) log_callbacks (sse_init []\<lparr>currentEvent := ''error''\<rparr>) (''data: '' @ ''null'') =
   warn ''null'' (sse_init []\<lparr>currentEvent := ''error''\<rparr>)"
  using error_event_outcome [of "sse_init []\<lparr>currentEvent := ''error''\<rparr>" "''null''" "\<lambda>s. Some JNull" log_callbacks]
  by (simp add: sse_stopped_def sse_init_def trim_def is_ws_def error_message_def)

end
