(* ===== verification/SdkClient.thy ===== *)
theory SdkClient
  imports Base64 Sse
begin

text \<open>
  The Antfly SDK client (ts/packages/sdk/src/client.ts): configuration and authentication, the
  requests of every operation, the streaming and chat agents and the NDJSON scan.

  Parameters: \<open>api\<close> is the openapi-fetch client that \<open>buildClient\<close> configures (given the base URL,
  the headers and a request it rejects, or resolves with a data and an error value); \<open>fetch\<close> is the
  platform's; \<open>stringify\<close> and \<open>json_parse\<close> are \<open>JSON.stringify\<close> and \<open>JSON.parse\<close>.
\<close>

section \<open>Configuration and authentication\<close>

type_synonym headers = "(string \<times> string) list"

datatype auth =
    BasicAuth string string
  | ApiKeyAuth string string
  | BearerAuth string
  | LegacyAuth string string

record config =
  baseUrl :: string
  cfg_headers :: headers
  auth :: "auth option"

definition getAuthHeader :: "config \<Rightarrow> string option" where
  "getAuthHeader cfg =
     (case auth cfg of
        None \<Rightarrow> None
      | Some (BasicAuth u p) \<Rightarrow> Some (''Basic '' @ btoa (u @ '':'' @ p))
      | Some (ApiKeyAuth i s) \<Rightarrow> Some (''ApiKey '' @ btoa (i @ '':'' @ s))
      | Some (BearerAuth t) \<Rightarrow> Some (''Bearer '' @ t)
      | Some (LegacyAuth u p) \<Rightarrow> Some (''Basic '' @ btoa (u @ '':'' @ p)))"

record built_client =
  bc_baseUrl :: string
  bc_headers :: headers

definition buildClient :: "config \<Rightarrow> built_client" where
  "buildClient cfg =
     (let headers = obj_assign [(''Content-Type'', ''application/json'')] (cfg_headers cfg)
      in \<lparr>bc_baseUrl = baseUrl cfg,
          bc_headers = (case getAuthHeader cfg of
                          Some h \<Rightarrow> obj_put ''Authorization'' h headers
                        | None \<Rightarrow> headers)\<rparr>)"

text \<open>The serializer handed to openapi-fetch: a string body goes out as it is.\<close>

definition bodySerializer :: "(jsval \<Rightarrow> string) \<Rightarrow> jsval \<Rightarrow> string" where
  "bodySerializer stringify body = (case body of JStr s \<Rightarrow> s | _ \<Rightarrow> stringify body)"

record antfly_client =
  cl_config :: config
  cl_client :: built_client

definition new_client :: "config \<Rightarrow> antfly_client" where
  "new_client cfg = \<lparr>cl_config = cfg, cl_client = buildClient cfg\<rparr>"

text \<open>The two overloads of \<open>setAuth\<close>.\<close>

datatype set_auth_args = SetAuth auth | SetUserPass string string

definition setAuth :: "antfly_client \<Rightarrow> set_auth_args \<Rightarrow> antfly_client" where
  "setAuth c args =
     (let cfg = (cl_config c)\<lparr>auth := Some (case args of SetUserPass u p \<Rightarrow> LegacyAuth u p | SetAuth a \<Rightarrow> a)\<rparr>
      in \<lparr>cl_config = cfg, cl_client = buildClient cfg\<rparr>)"

definition getRawClient :: "antfly_client \<Rightarrow> built_client" where
  "getRawClient c = cl_client c"

section \<open>Requests through openapi-fetch\<close>

record api_request =
  rq_method :: string
  rq_path :: string
  rq_params :: "(string \<times> string) list"
  rq_query :: jsval
  rq_body :: jsval
  rq_headers :: headers

type_synonym api = "built_client \<Rightarrow> api_request \<Rightarrow> (jsval \<times> jsval) res"

definition rq :: "string \<Rightarrow> string \<Rightarrow> (string \<times> string) list \<Rightarrow> jsval \<Rightarrow> api_request" where
  "rq m p ps body = \<lparr>rq_method = m, rq_path = p, rq_params = ps, rq_query = JUndef,
                     rq_body = body, rq_headers = []\<rparr>"

text \<open>
  \<open>const { data, error } = await ...; if (error) throw new Error(`what: ${error.error}`); return data\<close>
\<close>

definition api_call :: "api \<Rightarrow> antfly_client \<Rightarrow> api_request \<Rightarrow> string \<Rightarrow> jsval res" where
  "api_call api c req what =
     (case api (cl_client c) req of
        Inl e \<Rightarrow> Inl e
      | Inr (data, error) \<Rightarrow>
          if truthy error then throw_error (what @ '': '' @ to_str (fld error ''error''))
          else Inr data)"

text \<open>The same for the operations that return \<open>true\<close>.\<close>

definition api_call_true :: "api \<Rightarrow> antfly_client \<Rightarrow> api_request \<Rightarrow> string \<Rightarrow> jsval res" where
  "api_call_true api c req what = map_sum id (\<lambda>_. JBool True) (api_call api c req what)"

definition getStatus :: "api \<Rightarrow> antfly_client \<Rightarrow> jsval res" where
  "getStatus api c = api_call api c (rq ''GET'' ''/status'' [] JUndef) ''Failed to get status''"

definition table_query_path :: string where
  "table_query_path = ''/tables/{tableName}/query''"

definition performQuery :: "api \<Rightarrow> antfly_client \<Rightarrow> string \<Rightarrow> jsval \<Rightarrow> string option \<Rightarrow> jsval res" where
  "performQuery api c path request tableName =
     (case tableName of
        Some (t # ts) \<Rightarrow>
          if path = table_query_path
          then api_call api c (rq ''POST'' table_query_path [(''tableName'', t # ts)] request)
                 ''Table query failed''
          else api_call api c (rq ''POST'' ''/query'' [] request) ''Query failed''
      | _ \<Rightarrow> api_call api c (rq ''POST'' ''/query'' [] request) ''Query failed'')"

definition ndjson :: "(jsval \<Rightarrow> string) \<Rightarrow> jsval list \<Rightarrow> string" where
  "ndjson stringify requests = join [newline] (map stringify requests) @ [newline]"

definition ndjson_headers :: headers where
  "ndjson_headers = [(''Content-Type'', ''application/x-ndjson'')]"

definition performMultiquery ::
    "api \<Rightarrow> (jsval \<Rightarrow> string) \<Rightarrow> antfly_client \<Rightarrow> string \<Rightarrow> jsval list \<Rightarrow> string option \<Rightarrow> jsval res" where
  "performMultiquery api stringify c path requests tableName =
     (let body = JStr (ndjson stringify requests) in
      case tableName of
        Some (t # ts) \<Rightarrow>
          if path = table_query_path
          then api_call api c ((rq ''POST'' table_query_path [(''tableName'', t # ts)] body)
                 \<lparr>rq_headers := ndjson_headers\<rparr>) ''Table multi-query failed''
          else api_call api c ((rq ''POST'' ''/query'' [] body)\<lparr>rq_headers := ndjson_headers\<rparr>)
                 ''Multi-query failed''
      | _ \<Rightarrow> api_call api c ((rq ''POST'' ''/query'' [] body)\<lparr>rq_headers := ndjson_headers\<rparr>)
               ''Multi-query failed'')"

definition query :: "api \<Rightarrow> antfly_client \<Rightarrow> jsval \<Rightarrow> jsval res" where
  "query api c request =
     map_sum id (\<lambda>data. elem_at (fld data ''responses'') 0) (performQuery api c ''/query'' request None)"

definition multiquery :: "api \<Rightarrow> (jsval \<Rightarrow> string) \<Rightarrow> antfly_client \<Rightarrow> jsval list \<Rightarrow> jsval res" where
  "multiquery api stringify c requests = performMultiquery api stringify c ''/query'' requests None"

definition queryBuilderAgent :: "api \<Rightarrow> antfly_client \<Rightarrow> jsval \<Rightarrow> jsval res" where
  "queryBuilderAgent api c request =
     api_call api c (rq ''POST'' ''/agents/query-builder'' [] request) ''Query builder agent failed''"

definition evaluate :: "api \<Rightarrow> antfly_client \<Rightarrow> jsval \<Rightarrow> jsval res" where
  "evaluate api c request = api_call api c (rq ''POST'' ''/eval'' [] request) ''Evaluation failed''"

section \<open>Properties\<close>

text \<open>The client's invariant: the built client is the one of the current configuration.\<close>

definition client_ok :: "antfly_client \<Rightarrow> bool" where
  "client_ok c \<longleftrightarrow> cl_client c = buildClient (cl_config c)"

lemma client_ok_new [inv_intros]: "client_ok (new_client cfg)"
  by (simp add: client_ok_def new_client_def)

lemma client_ok_setAuth [inv_intros]: "client_ok (setAuth c args)"
  by (simp add: client_ok_def setAuth_def Let_def)

text \<open>The credentials an Authorization header carries, as a server reads them.\<close>

definition read_authorization :: "string \<Rightarrow> (string \<times> string) option" where
  "read_authorization h =
     (if starts_with h ''Basic '' then map_option (\<lambda>t. (''basic'', t)) (atob (drop 6 h))
      else if starts_with h ''ApiKey '' then map_option (\<lambda>t. (''apiKey'', t)) (atob (drop 7 h))
      else if starts_with h ''Bearer '' then Some (''bearer'', drop 7 h)
      else None)"

definition auth_credentials :: "auth \<Rightarrow> string \<times> string" where
  "auth_credentials a =
     (case a of
        BasicAuth u p \<Rightarrow> (''basic'', u @ '':'' @ p)
      | LegacyAuth u p \<Rightarrow> (''basic'', u @ '':'' @ p)
      | ApiKeyAuth i s \<Rightarrow> (''apiKey'', i @ '':'' @ s)
      | BearerAuth t \<Rightarrow> (''bearer'', t))"

lemma read_authorization_header:
  "read_authorization (the (getAuthHeader (cfg\<lparr>auth := Some a\<rparr>))) = Some (auth_credentials a)"
  by (cases a) (simp_all add: getAuthHeader_def read_authorization_def auth_credentials_def starts_with_def)

lemma map_of_put_other: "k \<noteq> k' \<Longrightarrow> map_of (obj_put k' v kvs) k = map_of kvs k"
  by simp

text \<open>After \<open>setAuth\<close>, whatever the client was and whichever overload was used, the next request
  through the built client carries an Authorization header from which a server reads exactly the
  new credentials, and the configured headers and base URL are kept.\<close>

theorem setAuth_effective:
  defines "a \<equiv> (\<lambda>args. case args of SetUserPass u p \<Rightarrow> LegacyAuth u p | SetAuth a \<Rightarrow> a)"
  shows "Option.bind (map_of (bc_headers (cl_client (setAuth c args))) ''Authorization'') read_authorization
           = Some (auth_credentials (a args))
    \<and> bc_baseUrl (cl_client (setAuth c args)) = baseUrl (cl_config c)
    \<and> cfg_headers (cl_config (setAuth c args)) = cfg_headers (cl_config c)
    \<and> client_ok (setAuth c args)"
proof -
  let ?cfg = "(cl_config c)\<lparr>auth := Some (a args)\<rparr>"
  obtain h where h: "getAuthHeader ?cfg = Some h"
    by (cases "a args") (simp_all add: getAuthHeader_def)
  then have "read_authorization h = Some (auth_credentials (a args))"
    using read_authorization_header [where cfg = "cl_config c" and a = "a args"] by simp
  then show ?thesis
    using h client_ok_setAuth [of c args]
    by (simp add: setAuth_def buildClient_def Let_def a_def)
qed

text \<open>The NDJSON body of a multi-query frames its requests: when \<open>JSON.stringify\<close> writes no newline
  (it escapes them), the complete lines of the body are the serialized requests in order and nothing
  follows the last newline.\<close>

theorem ndjson_framing:
  assumes "requests \<noteq> []" and "\<forall>r \<in> set requests. newline \<notin> set (stringify r)"
  shows "full_lines (ndjson stringify requests) = map stringify requests
    \<and> rest_line (ndjson stringify requests) = []"
proof -
  let ?ls = "map stringify requests"
  have "split_on newline (join [newline] ?ls) = ?ls"
    using assms by (intro split_on_join) auto
  moreover have "split_on newline [newline] = [[], []]" by simp
  ultimately have "split_on newline (ndjson stringify requests) = butlast ?ls @ [last ?ls, []]"
    by (simp add: ndjson_def split_on_append)
  then have "split_on newline (ndjson stringify requests) = ?ls @ [[]]"
    using assms(1) by (metis append.assoc append_Cons append_Nil append_butlast_last_id map_is_Nil_conv)
  then show ?thesis by (simp add: full_lines_def rest_line_def)
qed

lemma ndjson_framing_witness:
  "full_lines (ndjson to_str [JStr ''a'', JBool True]) = [''a'', ''true'']"
  using ndjson_framing [of "[JStr ''a'', JBool True]" to_str] by simp

end
