(* ===== verification/SdkOps.thy ===== *)
theory SdkOps
  imports SdkClient
begin

text \<open>
  The table, index and user operations of the SDK client, and the table of requests they are held
  to: which method, path template, path parameters, query and body each public operation sends.
\<close>

section \<open>tables\<close>

definition tables_list :: "api \<Rightarrow> antfly_client \<Rightarrow> jsval option \<Rightarrow> jsval res" where
  "tables_list api c params =
     api_call api c ((rq ''GET'' ''/tables'' [] JUndef)\<lparr>rq_query := of_option params\<rparr>)
       ''Failed to list tables''"

definition tables_get :: "api \<Rightarrow> antfly_client \<Rightarrow> string \<Rightarrow> jsval res" where
  "tables_get api c tableName =
     api_call api c (rq ''GET'' ''/tables/{tableName}'' [(''tableName'', tableName)] JUndef) ''Failed to get table''"

definition tables_create :: "api \<Rightarrow> antfly_client \<Rightarrow> string \<Rightarrow> jsval \<Rightarrow> jsval res" where
  "tables_create api c tableName config =
     api_call api c (rq ''POST'' ''/tables/{tableName}'' [(''tableName'', tableName)] config) ''Failed to create table''"

definition tables_drop :: "api \<Rightarrow> antfly_client \<Rightarrow> string \<Rightarrow> jsval res" where
  "tables_drop api c tableName =
     api_call_true api c (rq ''DELETE'' ''/tables/{tableName}'' [(''tableName'', tableName)] JUndef) ''Failed to drop table''"

definition tables_updateSchema :: "api \<Rightarrow> antfly_client \<Rightarrow> string \<Rightarrow> jsval \<Rightarrow> jsval res" where
  "tables_updateSchema api c tableName config =
     api_call api c (rq ''PUT'' ''/tables/{tableName}/schema'' [(''tableName'', tableName)] config) ''Failed to update table schema''"

definition tables_query :: "api \<Rightarrow> antfly_client \<Rightarrow> string \<Rightarrow> jsval \<Rightarrow> jsval res" where
  "tables_query api c tableName request = performQuery api c table_query_path request (Some tableName)"

definition tables_multiquery ::
    "api \<Rightarrow> (jsval \<Rightarrow> string) \<Rightarrow> antfly_client \<Rightarrow> string \<Rightarrow> jsval list \<Rightarrow> jsval res" where
  "tables_multiquery api stringify c tableName requests =
     performMultiquery api stringify c table_query_path requests (Some tableName)"

definition tables_batch :: "api \<Rightarrow> antfly_client \<Rightarrow> string \<Rightarrow> jsval \<Rightarrow> jsval res" where
  "tables_batch api c tableName request =
     api_call api c (rq ''POST'' ''/tables/{tableName}/batch'' [(''tableName'', tableName)] request) ''Batch operation failed''"

definition tables_backup :: "api \<Rightarrow> antfly_client \<Rightarrow> string \<Rightarrow> jsval \<Rightarrow> jsval res" where
  "tables_backup api c tableName request =
     api_call api c (rq ''POST'' ''/tables/{tableName}/backup'' [(''tableName'', tableName)] request) ''Backup failed''"

definition tables_restore :: "api \<Rightarrow> antfly_client \<Rightarrow> string \<Rightarrow> jsval \<Rightarrow> jsval res" where
  "tables_restore api c tableName request =
     api_call api c (rq ''POST'' ''/tables/{tableName}/restore'' [(''tableName'', tableName)] request) ''Restore failed''"

definition tables_lookup :: "api \<Rightarrow> antfly_client \<Rightarrow> string \<Rightarrow> string \<Rightarrow> string option \<Rightarrow> jsval res" where
  "tables_lookup api c tableName key flds =
     api_call api c ((rq ''GET'' ''/tables/{tableName}/lookup/{key}'' [(''tableName'', tableName), (''key'', key)] JUndef)
       \<lparr>rq_query := (case flds of Some (f # fs) \<Rightarrow> JObj [(''fields'', JStr (f # fs))] | _ \<Rightarrow> JUndef)\<rparr>)
       ''Key lookup failed''"

section \<open>indexes\<close>

definition indexes_list :: "api \<Rightarrow> antfly_client \<Rightarrow> string \<Rightarrow> jsval res" where
  "indexes_list api c tableName =
     api_call api c (rq ''GET'' ''/tables/{tableName}/indexes'' [(''tableName'', tableName)] JUndef) ''Failed to list indexes''"

definition indexes_get :: "api \<Rightarrow> antfly_client \<Rightarrow> string \<Rightarrow> string \<Rightarrow> jsval res" where
  "indexes_get api c tableName indexName =
     api_call api c (rq ''GET'' ''/tables/{tableName}/indexes/{indexName}'' [(''tableName'', tableName), (''indexName'', indexName)] JUndef) ''Failed to get index''"

text \<open>\<open>config.name\<close> of the index configuration is the path parameter; openapi-fetch writes it with \<open>String\<close>.\<close>

definition indexes_create :: "api \<Rightarrow> antfly_client \<Rightarrow> string \<Rightarrow> jsval \<Rightarrow> jsval res" where
  "indexes_create api c tableName config =
     api_call_true api c (rq ''POST'' ''/tables/{tableName}/indexes/{indexName}''
       [(''tableName'', tableName), (''indexName'', to_str (fld config ''name''))] config)
       ''Failed to create index''"

definition indexes_drop :: "api \<Rightarrow> antfly_client \<Rightarrow> string \<Rightarrow> string \<Rightarrow> jsval res" where
  "indexes_drop api c tableName indexName =
     api_call_true api c (rq ''DELETE'' ''/tables/{tableName}/indexes/{indexName}'' [(''tableName'', tableName), (''indexName'', indexName)] JUndef) ''Failed to drop index''"

section \<open>users\<close>

definition users_getCurrentUser :: "api \<Rightarrow> antfly_client \<Rightarrow> jsval res" where
  "users_getCurrentUser api c =
     api_call api c (rq ''GET'' ''/users/me'' [] JUndef) ''Failed to get current user''"

definition users_list :: "api \<Rightarrow> antfly_client \<Rightarrow> jsval res" where
  "users_list api c =
     api_call api c (rq ''GET'' ''/users'' [] JUndef) ''Failed to list users''"

definition users_get :: "api \<Rightarrow> antfly_client \<Rightarrow> string \<Rightarrow> jsval res" where
  "users_get api c userName =
     api_call api c (rq ''GET'' ''/users/{userName}'' [(''userName'', userName)] JUndef) ''Failed to get user''"

definition users_create :: "api \<Rightarrow> antfly_client \<Rightarrow> string \<Rightarrow> jsval \<Rightarrow> jsval res" where
  "users_create api c userName request =
     api_call api c (rq ''POST'' ''/users/{userName}'' [(''userName'', userName)] request) ''Failed to create user''"

definition users_delete :: "api \<Rightarrow> antfly_client \<Rightarrow> string \<Rightarrow> jsval res" where
  "users_delete api c userName =
     api_call_true api c (rq ''DELETE'' ''/users/{userName}'' [(''userName'', userName)] JUndef) ''Failed to delete user''"

definition users_updatePassword :: "api \<Rightarrow> antfly_client \<Rightarrow> string \<Rightarrow> string \<Rightarrow> jsval res" where
  "users_updatePassword api c userName newPassword =
     api_call api c (rq ''PUT'' ''/users/{userName}/password'' [(''userName'', userName)]
       (JObj [(''new_password'', JStr newPassword)])) ''Failed to update password''"

definition users_getPermissions :: "api \<Rightarrow> antfly_client \<Rightarrow> string \<Rightarrow> jsval res" where
  "users_getPermissions api c userName =
     api_call api c (rq ''GET'' ''/users/{userName}/permissions'' [(''userName'', userName)] JUndef) ''Failed to get permissions''"

definition users_addPermission :: "api \<Rightarrow> antfly_client \<Rightarrow> string \<Rightarrow> jsval \<Rightarrow> jsval res" where
  "users_addPermission api c userName permission =
     api_call api c (rq ''POST'' ''/users/{userName}/permissions'' [(''userName'', userName)] permission) ''Failed to add permission''"

definition users_removePermission :: "api \<Rightarrow> antfly_client \<Rightarrow> string \<Rightarrow> string \<Rightarrow> string \<Rightarrow> jsval res" where
  "users_removePermission api c userName resource resourceType =
     api_call_true api c ((rq ''DELETE'' ''/users/{userName}/permissions'' [(''userName'', userName)] JUndef)
       \<lparr>rq_query := JObj [(''resource'', JStr resource), (''resourceType'', JStr resourceType)]\<rparr>)
       ''Failed to remove permission''"

section \<open>The table of operations\<close>

text \<open>Every public operation with its arguments, and how the client runs it.\<close>

datatype sdk_op =
    OpStatus
  | OpQuery jsval
  | OpMultiquery "jsval list"
  | OpQueryBuilder jsval
  | OpEvaluate jsval
  | OpTablesList "jsval option"
  | OpTablesGet string
  | OpTablesCreate string jsval
  | OpTablesDrop string
  | OpTablesUpdateSchema string jsval
  | OpTablesBatch string jsval
  | OpTablesBackup string jsval
  | OpTablesRestore string jsval
  | OpIndexesList string
  | OpIndexesGet string string
  | OpIndexesCreate string jsval
  | OpIndexesDrop string string
  | OpUsersMe
  | OpUsersList
  | OpUsersGet string
  | OpUsersCreate string jsval
  | OpUsersDelete string
  | OpUsersPassword string string
  | OpUsersPermissions string
  | OpUsersAddPermission string jsval
  | OpUsersRemovePermission string string string
  | OpTablesQuery string jsval
  | OpTablesMultiquery string "jsval list"
  | OpTablesLookup string string "string option"

fun run_op :: "api \<Rightarrow> (jsval \<Rightarrow> string) \<Rightarrow> antfly_client \<Rightarrow> sdk_op \<Rightarrow> jsval res" where
  "run_op api stringify c OpStatus = getStatus api c"
| "run_op api stringify c (OpQuery r) = query api c r"
| "run_op api stringify c (OpMultiquery rs) = multiquery api stringify c rs"
| "run_op api stringify c (OpQueryBuilder r) = queryBuilderAgent api c r"
| "run_op api stringify c (OpEvaluate r) = evaluate api c r"
| "run_op api stringify c (OpTablesList ps) = tables_list api c ps"
| "run_op api stringify c (OpTablesGet t) = tables_get api c t"
| "run_op api stringify c (OpTablesCreate t r) = tables_create api c t r"
| "run_op api stringify c (OpTablesDrop t) = tables_drop api c t"
| "run_op api stringify c (OpTablesUpdateSchema t r) = tables_updateSchema api c t r"
| "run_op api stringify c (OpTablesBatch t r) = tables_batch api c t r"
| "run_op api stringify c (OpTablesBackup t r) = tables_backup api c t r"
| "run_op api stringify c (OpTablesRestore t r) = tables_restore api c t r"
| "run_op api stringify c (OpIndexesList t) = indexes_list api c t"
| "run_op api stringify c (OpIndexesGet t i) = indexes_get api c t i"
| "run_op api stringify c (OpIndexesCreate t r) = indexes_create api c t r"
| "run_op api stringify c (OpIndexesDrop t i) = indexes_drop api c t i"
| "run_op api stringify c OpUsersMe = users_getCurrentUser api c"
| "run_op api stringify c OpUsersList = users_list api c"
| "run_op api stringify c (OpUsersGet u) = users_get api c u"
| "run_op api stringify c (OpUsersCreate u r) = users_create api c u r"
| "run_op api stringify c (OpUsersDelete u) = users_delete api c u"
| "run_op api stringify c (OpUsersPassword u p) = users_updatePassword api c u p"
| "run_op api stringify c (OpUsersPermissions u) = users_getPermissions api c u"
| "run_op api stringify c (OpUsersAddPermission u r) = users_addPermission api c u r"
| "run_op api stringify c (OpUsersRemovePermission u r ty) = users_removePermission api c u r ty"
| "run_op api stringify c (OpTablesQuery t r) = tables_query api c t r"
| "run_op api stringify c (OpTablesMultiquery t rs) = tables_multiquery api stringify c t rs"
| "run_op api stringify c (OpTablesLookup t k f) = tables_lookup api c t k f"

text \<open>The contract: the request an operation is to send, the prefix of its error, and its result.\<close>

fun op_request :: "(jsval \<Rightarrow> string) \<Rightarrow> sdk_op \<Rightarrow> api_request" where
  "op_request stringify OpStatus =
     \<lparr>rq_method = ''GET'', rq_path = ''/status'',
       rq_params = [], rq_query = JUndef, rq_body = JUndef, rq_headers = []\<rparr>"
| "op_request stringify (OpQuery r) =
     \<lparr>rq_method = ''POST'', rq_path = ''/query'',
       rq_params = [], rq_query = JUndef, rq_body = r, rq_headers = []\<rparr>"
| "op_request stringify (OpMultiquery rs) =
     \<lparr>rq_method = ''POST'', rq_path = ''/query'',
       rq_params = [], rq_query = JUndef, rq_body = JStr (ndjson stringify rs), rq_headers = ndjson_headers\<rparr>"
| "op_request stringify (OpQueryBuilder r) =
     \<lparr>rq_method = ''POST'', rq_path = ''/agents/query-builder'',
       rq_params = [], rq_query = JUndef, rq_body = r, rq_headers = []\<rparr>"
| "op_request stringify (OpEvaluate r) =
     \<lparr>rq_method = ''POST'', rq_path = ''/eval'',
       rq_params = [], rq_query = JUndef, rq_body = r, rq_headers = []\<rparr>"
| "op_request stringify (OpTablesList ps) =
     \<lparr>rq_method = ''GET'', rq_path = ''/tables'',
       rq_params = [], rq_query = of_option ps, rq_body = JUndef, rq_headers = []\<rparr>"
| "op_request stringify (OpTablesGet t) =
     \<lparr>rq_method = ''GET'', rq_path = ''/tables/{tableName}'',
       rq_params = [(''tableName'', t)], rq_query = JUndef, rq_body = JUndef, rq_headers = []\<rparr>"
| "op_request stringify (OpTablesCreate t r) =
     \<lparr>rq_method = ''POST'', rq_path = ''/tables/{tableName}'',
       rq_params = [(''tableName'', t)], rq_query = JUndef, rq_body = r, rq_headers = []\<rparr>"
| "op_request stringify (OpTablesDrop t) =
     \<lparr>rq_method = ''DELETE'', rq_path = ''/tables/{tableName}'',
       rq_params = [(''tableName'', t)], rq_query = JUndef, rq_body = JUndef, rq_headers = []\<rparr>"
| "op_request stringify (OpTablesUpdateSchema t r) =
     \<lparr>rq_method = ''PUT'', rq_path = ''/tables/{tableName}/schema'',
       rq_params = [(''tableName'', t)], rq_query = JUndef, rq_body = r, rq_headers = []\<rparr>"
| "op_request stringify (OpTablesBatch t r) =
     \<lparr>rq_method = ''POST'', rq_path = ''/tables/{tableName}/batch'',
       rq_params = [(''tableName'', t)], rq_query = JUndef, rq_body = r, rq_headers = []\<rparr>"
| "op_request stringify (OpTablesBackup t r) =
     \<lparr>rq_method = ''POST'', rq_path = ''/tables/{tableName}/backup'',
       rq_params = [(''tableName'', t)], rq_query = JUndef, rq_body = r, rq_headers = []\<rparr>"
| "op_request stringify (OpTablesRestore t r) =
     \<lparr>rq_method = ''POST'', rq_path = ''/tables/{tableName}/restore'',
       rq_params = [(''tableName'', t)], rq_query = JUndef, rq_body = r, rq_headers = []\<rparr>"
| "op_request stringify (OpIndexesList t) =
     \<lparr>rq_method = ''GET'', rq_path = ''/tables/{tableName}/indexes'',
       rq_params = [(''tableName'', t)], rq_query = JUndef, rq_body = JUndef, rq_headers = []\<rparr>"
| "op_request stringify (OpIndexesGet t i) =
     \<lparr>rq_method = ''GET'', rq_path = ''/tables/{tableName}/indexes/{indexName}'',
       rq_params = [(''tableName'', t), (''indexName'', i)], rq_query = JUndef, rq_body = JUndef, rq_headers = []\<rparr>"
| "op_request stringify (OpIndexesCreate t r) =
     \<lparr>rq_method = ''POST'', rq_path = ''/tables/{tableName}/indexes/{indexName}'',
       rq_params = [(''tableName'', t), (''indexName'', to_str (fld r ''name''))], rq_query = JUndef, rq_body = r, rq_headers = []\<rparr>"
| "op_request stringify (OpIndexesDrop t i) =
     \<lparr>rq_method = ''DELETE'', rq_path = ''/tables/{tableName}/indexes/{indexName}'',
       rq_params = [(''tableName'', t), (''indexName'', i)], rq_query = JUndef, rq_body = JUndef, rq_headers = []\<rparr>"
| "op_request stringify OpUsersMe =
     \<lparr>rq_method = ''GET'', rq_path = ''/users/me'',
       rq_params = [], rq_query = JUndef, rq_body = JUndef, rq_headers = []\<rparr>"
| "op_request stringify OpUsersList =
     \<lparr>rq_method = ''GET'', rq_path = ''/users'',
       rq_params = [], rq_query = JUndef, rq_body = JUndef, rq_headers = []\<rparr>"
| "op_request stringify (OpUsersGet u) =
     \<lparr>rq_method = ''GET'', rq_path = ''/users/{userName}'',
       rq_params = [(''userName'', u)], rq_query = JUndef, rq_body = JUndef, rq_headers = []\<rparr>"
| "op_request stringify (OpUsersCreate u r) =
     \<lparr>rq_method = ''POST'', rq_path = ''/users/{userName}'',
       rq_params = [(''userName'', u)], rq_query = JUndef, rq_body = r, rq_headers = []\<rparr>"
| "op_request stringify (OpUsersDelete u) =
     \<lparr>rq_method = ''DELETE'', rq_path = ''/users/{userName}'',
       rq_params = [(''userName'', u)], rq_query = JUndef, rq_body = JUndef, rq_headers = []\<rparr>"
| "op_request stringify (OpUsersPassword u p) =
     \<lparr>rq_method = ''PUT'', rq_path = ''/users/{userName}/password'',
       rq_params = [(''userName'', u)], rq_query = JUndef, rq_body = JObj [(''new_password'', JStr p)], rq_headers = []\<rparr>"
| "op_request stringify (OpUsersPermissions u) =
     \<lparr>rq_method = ''GET'', rq_path = ''/users/{userName}/permissions'',
       rq_params = [(''userName'', u)], rq_query = JUndef, rq_body = JUndef, rq_headers = []\<rparr>"
| "op_request stringify (OpUsersAddPermission u r) =
     \<lparr>rq_method = ''POST'', rq_path = ''/users/{userName}/permissions'',
       rq_params = [(''userName'', u)], rq_query = JUndef, rq_body = r, rq_headers = []\<rparr>"
| "op_request stringify (OpUsersRemovePermission u r ty) =
     \<lparr>rq_method = ''DELETE'', rq_path = ''/users/{userName}/permissions'',
       rq_params = [(''userName'', u)], rq_query = JObj [(''resource'', JStr r), (''resourceType'', JStr ty)], rq_body = JUndef, rq_headers = []\<rparr>"
| "op_request stringify (OpTablesQuery t r) =
     (if t = [] then \<lparr>rq_method = ''POST'', rq_path = ''/query'',
       rq_params = [], rq_query = JUndef, rq_body = r, rq_headers = []\<rparr>
      else \<lparr>rq_method = ''POST'', rq_path = ''/tables/{tableName}/query'',
       rq_params = [(''tableName'', t)], rq_query = JUndef, rq_body = r, rq_headers = []\<rparr>)"
| "op_request stringify (OpTablesMultiquery t rs) =
     (if t = [] then \<lparr>rq_method = ''POST'', rq_path = ''/query'',
       rq_params = [], rq_query = JUndef, rq_body = JStr (ndjson stringify rs), rq_headers = ndjson_headers\<rparr>
      else \<lparr>rq_method = ''POST'', rq_path = ''/tables/{tableName}/query'',
       rq_params = [(''tableName'', t)], rq_query = JUndef, rq_body = JStr (ndjson stringify rs), rq_headers = ndjson_headers\<rparr>)"
| "op_request stringify (OpTablesLookup t k f) =
     \<lparr>rq_method = ''GET'', rq_path = ''/tables/{tableName}/lookup/{key}'',
       rq_params = [(''tableName'', t), (''key'', k)], rq_query = (if f = None \<or> f = Some [] then JUndef else JObj [(''fields'', opt_str f)]), rq_body = JUndef, rq_headers = []\<rparr>"

fun op_label :: "sdk_op \<Rightarrow> string" where
  "op_label OpStatus = ''Failed to get status''"
| "op_label (OpQuery _) = ''Query failed''"
| "op_label (OpMultiquery _) = ''Multi-query failed''"
| "op_label (OpQueryBuilder _) = ''Query builder agent failed''"
| "op_label (OpEvaluate _) = ''Evaluation failed''"
| "op_label (OpTablesList _) = ''Failed to list tables''"
| "op_label (OpTablesGet _) = ''Failed to get table''"
| "op_label (OpTablesCreate _ _) = ''Failed to create table''"
| "op_label (OpTablesDrop _) = ''Failed to drop table''"
| "op_label (OpTablesUpdateSchema _ _) = ''Failed to update table schema''"
| "op_label (OpTablesBatch _ _) = ''Batch operation failed''"
| "op_label (OpTablesBackup _ _) = ''Backup failed''"
| "op_label (OpTablesRestore _ _) = ''Restore failed''"
| "op_label (OpIndexesList _) = ''Failed to list indexes''"
| "op_label (OpIndexesGet _ _) = ''Failed to get index''"
| "op_label (OpIndexesCreate _ _) = ''Failed to create index''"
| "op_label (OpIndexesDrop _ _) = ''Failed to drop index''"
| "op_label OpUsersMe = ''Failed to get current user''"
| "op_label OpUsersList = ''Failed to list users''"
| "op_label (OpUsersGet _) = ''Failed to get user''"
| "op_label (OpUsersCreate _ _) = ''Failed to create user''"
| "op_label (OpUsersDelete _) = ''Failed to delete user''"
| "op_label (OpUsersPassword _ _) = ''Failed to update password''"
| "op_label (OpUsersPermissions _) = ''Failed to get permissions''"
| "op_label (OpUsersAddPermission _ _) = ''Failed to add permission''"
| "op_label (OpUsersRemovePermission _ _ _) = ''Failed to remove permission''"
| "op_label (OpTablesQuery t _) = (if t = [] then ''Query failed'' else ''Table query failed'')"
| "op_label (OpTablesMultiquery t _) = (if t = [] then ''Multi-query failed'' else ''Table multi-query failed'')"
| "op_label (OpTablesLookup _ _ _) = ''Key lookup failed''"

fun op_result :: "sdk_op \<Rightarrow> jsval \<Rightarrow> jsval" where
  "op_result (OpQuery _) d = elem_at (fld d ''responses'') 0"
| "op_result (OpTablesDrop _) d = JBool True"
| "op_result (OpIndexesCreate _ _) d = JBool True"
| "op_result (OpIndexesDrop _ _) d = JBool True"
| "op_result (OpUsersDelete _) d = JBool True"
| "op_result (OpUsersRemovePermission _ _ _) d = JBool True"
| "op_result _ d = d"

lemma api_call_id: "map_sum id (\<lambda>d. d) x = x"
  by (cases x) simp_all

lemmas op_defs = api_call_def api_call_true_def rq_def getStatus_def query_def multiquery_def
  performQuery_def performMultiquery_def queryBuilderAgent_def evaluate_def tables_list_def
  tables_get_def tables_create_def tables_drop_def tables_updateSchema_def tables_query_def
  tables_multiquery_def tables_batch_def tables_backup_def tables_restore_def tables_lookup_def
  indexes_list_def indexes_get_def indexes_create_def indexes_drop_def users_getCurrentUser_def
  users_list_def users_get_def users_create_def users_delete_def users_updatePassword_def
  users_getPermissions_def users_addPermission_def users_removePermission_def table_query_path_def

text \<open>Every operation of the client sends exactly the request of the table and returns what the table
  says: a rejected request is rethrown, an error value becomes an Error with the operation's prefix
  and the server's message, and otherwise the operation's result is returned. A table query with an
  empty table name goes to the global endpoint.\<close>

theorem sdk_operation_contract:
  "run_op api stringify c op =
     (case api (cl_client c) (op_request stringify op) of
        Inl e \<Rightarrow> Inl e
      | Inr (data, error) \<Rightarrow>
          if truthy error then throw_error (op_label op @ '': '' @ to_str (fld error ''error''))
          else Inr (op_result op data))"
proof (cases op)
  case (OpTablesQuery t r)
  then show ?thesis by (cases t) (simp_all add: op_defs split: sum.split prod.split)
next
  case (OpTablesMultiquery t rs)
  then show ?thesis by (cases t) (simp_all add: op_defs split: sum.split prod.split)
next
  case (OpTablesLookup t k f)
  then show ?thesis
    by (simp add: op_defs opt_str_def split: sum.split prod.split option.split list.split)
qed (simp_all add: op_defs split: sum.split prod.split)

text \<open>The placeholders of a path template.\<close>

fun placeholders :: "string \<Rightarrow> string list" where
  "placeholders [] = []"
| "placeholders (c # s) =
     (if c = CHR ''{'' then takeWhile (\<lambda>x. x \<noteq> CHR ''}'') s # placeholders s else placeholders s)"

text \<open>In every request of the client the path parameters are exactly the placeholders of the path
  template, in order, so no template is sent with a hole and no parameter is lost; requests without
  a body are the GETs and DELETEs.\<close>

theorem sdk_paths_filled:
  "map fst (rq_params (op_request stringify op)) = placeholders (rq_path (op_request stringify op))
   \<and> (rq_method (op_request stringify op) \<in> {''GET'', ''DELETE''} \<longrightarrow> rq_body (op_request stringify op) = JUndef)"
  by (cases op) simp_all

lemma sdk_paths_filled_witness:
  "rq_method (op_request (\<lambda>_. []) (OpIndexesDrop ''t'' ''i'')) = ''DELETE''
   \<and> map fst (rq_params (op_request (\<lambda>_. []) (OpIndexesDrop ''t'' ''i''))) = [''tableName'', ''indexName'']
   \<and> rq_body (op_request (\<lambda>_. []) (OpIndexesDrop ''t'' ''i'')) = JUndef"
  using sdk_paths_filled [of "\<lambda>_. []" "OpIndexesDrop ''t'' ''i''"] by simp

end
