(* ===== verification/SdkAgents.thy ===== *)
theory SdkAgents
  imports SdkClient
begin

text \<open>
  The operations of the SDK client that use \<open>fetch\<close> themselves: the retrieval agent with its event
  stream, the chat agent built on it, and the NDJSON scan.
\<close>

record http_request =
  hr_url :: string
  hr_method :: string
  hr_headers :: headers
  hr_body :: string

text \<open>
  What a \<open>Response\<close> shows: \<open>ok\<close>, \<open>status\<close>, \<open>text()\<close>, \<open>body === null\<close>, the content-type header,
  \<open>json()\<close>, and the results of the successive \<open>reader.read()\<close> calls.
\<close>

record http_response =
  rs_ok :: bool
  rs_status :: nat
  rs_text :: "string res"
  rs_body_null :: bool
  rs_content_type :: "string option"
  rs_json :: "jsval res"
  rs_reads :: "read_result list"

type_synonym fetch = "http_request \<Rightarrow> http_response res"

text \<open>The headers of the direct requests: Accept, then Authorization, then the configured ones on top.\<close>

definition direct_headers :: "config \<Rightarrow> string \<Rightarrow> headers" where
  "direct_headers cfg accept =
     (let headers = [(''Content-Type'', ''application/json''), (''Accept'', accept)];
          headers = (case getAuthHeader cfg of Some h \<Rightarrow> obj_put ''Authorization'' h headers | None \<Rightarrow> headers)
      in obj_assign headers (cfg_headers cfg))"

text \<open>\<open>if (!response.ok) ...; if (!response.body) ...\<close>\<close>

definition check_response :: "string \<Rightarrow> http_response \<Rightarrow> unit res" where
  "check_response what response =
     (if \<not> rs_ok response
      then (case rs_text response of
              Inl e \<Rightarrow> Inl e
            | Inr errorText \<Rightarrow> throw_error (what @ '': '' @ show_nat (rs_status response) @ '' '' @ errorText))
      else if rs_body_null response then throw_error ''Response body is null''
      else Inr ())"

section \<open>The retrieval agent\<close>

text \<open>A JSON result, or an abort controller with what the background reader does to the callbacks.\<close>

datatype 'c agent_result = AgentJson jsval | AgentAbort "'c sse_state option"

definition performRetrievalAgent ::
    "fetch \<Rightarrow> (jsval \<Rightarrow> string) \<Rightarrow> (string \<Rightarrow> jsval option) \<Rightarrow> antfly_client \<Rightarrow> jsval \<Rightarrow>
     'c callbacks option \<Rightarrow> 'c \<Rightarrow> 'c agent_result res" where
  "performRetrievalAgent fetch stringify json_parse c request callbacks client_state =
     (let cfg = cl_config c in
      case fetch \<lparr>hr_url = baseUrl cfg @ ''/agents/retrieval'', hr_method = ''POST'',
                   hr_headers = direct_headers cfg ''text/event-stream, application/json'',
                   hr_body = stringify request\<rparr> of
        Inl e \<Rightarrow> Inl e
      | Inr response \<Rightarrow>
          (case check_response ''Retrieval agent request failed'' response of
             Inl e \<Rightarrow> Inl e
           | Inr _ \<Rightarrow>
               (let contentType = (case rs_content_type response of Some t \<Rightarrow> t | None \<Rightarrow> []) in
                if str_includes contentType ''application/json''
                then map_sum id AgentJson (rs_json response)
                else case callbacks of
                       None \<Rightarrow> Inr (AgentAbort None)
                     | Some cbs \<Rightarrow>
                         Inr (AgentAbort (Some (snd (sse_read json_parse cbs
                           ([], sse_init client_state) (rs_reads response))))))))"

definition retrievalAgent ::
    "fetch \<Rightarrow> (jsval \<Rightarrow> string) \<Rightarrow> (string \<Rightarrow> jsval option) \<Rightarrow> antfly_client \<Rightarrow> jsval \<Rightarrow>
     'c callbacks option \<Rightarrow> 'c \<Rightarrow> 'c agent_result res" where
  "retrievalAgent fetch stringify json_parse c request callbacks client_state =
     performRetrievalAgent fetch stringify json_parse c request callbacks client_state"

section \<open>The chat agent\<close>

record chat_config =
  cc_generator :: jsval
  cc_table :: "string option"
  cc_semanticIndexes :: "string list option"
  cc_agentKnowledge :: "string option"
  cc_maxInternalIterations :: "rat option"
  cc_limit :: "rat option"
  cc_steps :: jsval

definition chat_message :: "string \<Rightarrow> string \<Rightarrow> jsval" where
  "chat_message role content = JObj [(''role'', JStr role), (''content'', JStr content)]"

text \<open>The request of a turn; \<open>streaming\<close> is \<open>!!callbacks\<close>.\<close>

definition chat_request :: "string \<Rightarrow> chat_config \<Rightarrow> jsval list \<Rightarrow> bool \<Rightarrow> jsval" where
  "chat_request userMessage cfg history streaming =
     (let request =
        [(''query'', JStr userMessage),
         (''queries'', JArr [JObj
            [(''table'', opt_str (cc_table cfg)),
             (''semantic_search'', JStr userMessage),
             (''indexes'', opt_strs (cc_semanticIndexes cfg)),
             (''limit'', coalesce (opt_num (cc_limit cfg)) (JNum 10))]]),
         (''generator'', cc_generator cfg),
         (''messages'', JArr (history @ [chat_message ''user'' userMessage])),
         (''max_internal_iterations'', coalesce (opt_num (cc_maxInternalIterations cfg)) (JNum 5)),
         (''stream'', JBool streaming),
         (''agent_knowledge'', opt_str (cc_agentKnowledge cfg))]
      in JObj (if truthy (cc_steps cfg) then obj_put ''steps'' (cc_steps cfg) request else request))"

text \<open>
  The caller's callbacks with the two chat-specific ones, and the closure state of the wrapped
  callbacks: the accumulated answer and the value the messages promise is resolved with.
\<close>

record 'c chat_callbacks =
  cc_base :: "'c callbacks"
  onAssistantMessage :: "(string \<Rightarrow> 'c \<Rightarrow> 'c \<times> bool) option"
  onMessagesUpdated :: "(jsval \<Rightarrow> 'c \<Rightarrow> 'c \<times> bool) option"

record 'c chat_closure =
  answerText :: string
  resolved :: "jsval option"
  user_state :: 'c

definition call_optional :: "('a \<Rightarrow> 'c \<Rightarrow> 'c \<times> bool) option \<Rightarrow> 'a \<Rightarrow> 'c \<Rightarrow> 'c \<times> bool" where
  "call_optional f x c = (case f of None \<Rightarrow> (c, False) | Some g \<Rightarrow> g x c)"

definition base_callback :: "'c callbacks \<Rightarrow> sse_kind \<Rightarrow> (jsval \<Rightarrow> 'c \<Rightarrow> 'c \<times> bool) option" where
  "base_callback cbs k = (if has_cb cbs k then Some (invoke cbs k) else None)"

definition updated_messages :: "jsval list \<Rightarrow> string \<Rightarrow> string \<Rightarrow> jsval" where
  "updated_messages history userMessage answer =
     JArr (history @ [chat_message ''user'' userMessage, chat_message ''assistant'' answer])"

definition chat_on_generation ::
    "'c chat_callbacks \<Rightarrow> jsval \<Rightarrow> 'c chat_closure \<Rightarrow> 'c chat_closure \<times> bool" where
  "chat_on_generation cbs chunk cl =
     (let (u, threw) = call_optional (base_callback (cc_base cbs) Generation) chunk (user_state cl)
      in (cl\<lparr>answerText := answerText cl @ to_str chunk, user_state := u\<rparr>, threw))"

definition chat_on_done ::
    "'c chat_callbacks \<Rightarrow> jsval list \<Rightarrow> string \<Rightarrow> jsval \<Rightarrow> 'c chat_closure \<Rightarrow> 'c chat_closure \<times> bool" where
  "chat_on_done cbs history userMessage data cl =
     (let msgs = updated_messages history userMessage (answerText cl);
          (u1, t1) = call_optional (onAssistantMessage cbs) (answerText cl) (user_state cl)
      in if t1 then (cl\<lparr>user_state := u1\<rparr>, True)
         else let (u2, t2) = call_optional (onMessagesUpdated cbs) msgs u1
         in if t2 then (cl\<lparr>user_state := u2\<rparr>, True)
            else let (u3, t3) = call_optional (base_callback (cc_base cbs) Done) data u2
            in if t3 then (cl\<lparr>user_state := u3\<rparr>, True)
               else (cl\<lparr>user_state := u3,
                        resolved := (if resolved cl = None then Some msgs else resolved cl)\<rparr>, False))"

definition wrapped_callbacks ::
    "'c chat_callbacks \<Rightarrow> jsval list \<Rightarrow> string \<Rightarrow> 'c chat_closure callbacks" where
  "wrapped_callbacks cbs history userMessage =
     \<lparr>has_cb = (\<lambda>k. k = Generation \<or> k = Done \<or> has_cb (cc_base cbs) k),
      invoke = (\<lambda>k v cl.
        if k = Generation then chat_on_generation cbs v cl
        else if k = Done then chat_on_done cbs history userMessage v cl
        else let (u, threw) = invoke (cc_base cbs) k v (user_state cl)
             in (cl\<lparr>user_state := u\<rparr>, threw))\<rparr>"

text \<open>The messages of a non-streaming turn: the server's when it sends some.\<close>

definition chat_result_messages :: "jsval list \<Rightarrow> string \<Rightarrow> jsval \<Rightarrow> jsval" where
  "chat_result_messages history userMessage result =
     (if nonempty_array (fld result ''messages'') then fld result ''messages''
      else JArr (history @ [chat_message ''user'' userMessage] @
             (if truthy (fld result ''generation'')
              then [JObj [(''role'', JStr ''assistant''), (''content'', fld result ''generation'')]]
              else [])))"

datatype 'c chat_outcome =
    ChatTurn jsval jsval
  | ChatStream "'c chat_closure sse_state option"

text \<open>
  The casts of the source: with callbacks the result of \<open>performRetrievalAgent\<close> is returned as the
  abort controller whatever it is (a JSON answer leaves the stream unread and the promise pending,
  \<open>ChatStream None\<close>); without, an event-stream answer is read as an empty result object.
\<close>

definition chatAgent ::
    "fetch \<Rightarrow> (jsval \<Rightarrow> string) \<Rightarrow> (string \<Rightarrow> jsval option) \<Rightarrow> antfly_client \<Rightarrow> string \<Rightarrow> chat_config \<Rightarrow>
     jsval list \<Rightarrow> 'c chat_callbacks option \<Rightarrow> 'c \<Rightarrow> 'c chat_outcome res" where
  "chatAgent fetch stringify json_parse c userMessage cfg history callbacks u =
     (let request = chat_request userMessage cfg history (callbacks \<noteq> None);
          cl = \<lparr>answerText = [], resolved = None, user_state = u\<rparr> in
      case callbacks of
        Some cbs \<Rightarrow>
          map_sum id (\<lambda>r. ChatStream (case r of AgentJson _ \<Rightarrow> None | AgentAbort st \<Rightarrow> st))
            (performRetrievalAgent fetch stringify json_parse c request
               (Some (wrapped_callbacks cbs history userMessage)) cl)
      | None \<Rightarrow>
          map_sum id (\<lambda>r. let result = (case r of AgentJson v \<Rightarrow> v | AgentAbort _ \<Rightarrow> JObj [])
                           in ChatTurn result (chat_result_messages history userMessage result))
            (performRetrievalAgent fetch stringify json_parse c request
               (None :: 'c chat_closure callbacks option) cl))"

section \<open>scan and scanAll\<close>

text \<open>What a consumer of the generator has seen: the yielded documents, and the exception if any.\<close>

record scan_state =
  yielded :: "jsval list"
  scan_error :: "js_exn option"

definition syntax_error :: js_exn where
  "syntax_error = ErrorObj ''SyntaxError'' ''JSON.parse''"

definition scan_stopped :: "scan_state \<Rightarrow> bool" where
  "scan_stopped st \<longleftrightarrow> scan_error st \<noteq> None"

text \<open>\<open>if (line.trim()) yield JSON.parse(line)\<close>\<close>

definition scan_line :: "(string \<Rightarrow> jsval option) \<Rightarrow> scan_state \<Rightarrow> string \<Rightarrow> scan_state" where
  "scan_line json_parse st line =
     (if scan_stopped st \<or> trim line = [] then st
      else case json_parse line of
             Some v \<Rightarrow> st\<lparr>yielded := yielded st @ [v]\<rparr>
           | None \<Rightarrow> st\<lparr>scan_error := Some syntax_error\<rparr>)"

interpretation scan: line_reader scan_stopped "scan_line json_parse" for json_parse
  by unfold_locales (simp add: scan_line_def)

text \<open>The read loop; a rejected read is thrown to the consumer. At the end the buffer is one more line.\<close>

fun scan_read :: "(string \<Rightarrow> jsval option) \<Rightarrow> string \<times> scan_state \<Rightarrow> read_result list \<Rightarrow> scan_state" where
  "scan_read json_parse (b, st) [] = scan_line json_parse st b"
| "scan_read json_parse bs (Chunk c # rs) =
     scan_read json_parse (feed_chunk scan_stopped (scan_line json_parse) bs c) rs"
| "scan_read json_parse (b, st) (ReadFails e # rs) =
     (if scan_stopped st then st else st\<lparr>scan_error := Some e\<rparr>)"

definition scan_init :: scan_state where
  "scan_init = \<lparr>yielded = [], scan_error = None\<rparr>"

definition tables_scan ::
    "fetch \<Rightarrow> (jsval \<Rightarrow> string) \<Rightarrow> (string \<Rightarrow> jsval option) \<Rightarrow> antfly_client \<Rightarrow> string \<Rightarrow> jsval \<Rightarrow> scan_state" where
  "tables_scan fetch stringify json_parse c tableName request =
     (let cfg = cl_config c in
      case fetch \<lparr>hr_url = baseUrl cfg @ ''/tables/'' @ tableName @ ''/lookup'', hr_method = ''POST'',
                   hr_headers = direct_headers cfg ''application/x-ndjson'',
                   hr_body = stringify (js_or request (JObj []))\<rparr> of
        Inl e \<Rightarrow> scan_init\<lparr>scan_error := Some e\<rparr>
      | Inr response \<Rightarrow>
          (case check_response ''Scan failed'' response of
             Inl e \<Rightarrow> scan_init\<lparr>scan_error := Some e\<rparr>
           | Inr _ \<Rightarrow> scan_read json_parse ([], scan_init) (rs_reads response)))"

definition tables_scanAll ::
    "fetch \<Rightarrow> (jsval \<Rightarrow> string) \<Rightarrow> (string \<Rightarrow> jsval option) \<Rightarrow> antfly_client \<Rightarrow> string \<Rightarrow> jsval \<Rightarrow> jsval list res" where
  "tables_scanAll fetch stringify json_parse c tableName request =
     (let st = tables_scan fetch stringify json_parse c tableName request
      in case scan_error st of Some e \<Rightarrow> Inl e | None \<Rightarrow> Inr (yielded st))"

section \<open>Properties of the direct requests\<close>

text \<open>Which Authorization header is sent when both the auth configuration and the configured headers
  name one: requests through openapi-fetch send the one of the auth configuration, the direct
  requests (retrieval agent, chat agent, scan) the one of the configured headers.\<close>

theorem authorization_precedence:
  assumes "distinct (map fst (cfg_headers cfg))"
  defines "configured \<equiv> map_of (cfg_headers cfg) ''Authorization''"
  shows "map_of (bc_headers (buildClient cfg)) ''Authorization'' =
           (if getAuthHeader cfg \<noteq> None then getAuthHeader cfg else configured)
    \<and> map_of (direct_headers cfg accept) ''Authorization'' =
           (if configured \<noteq> None then configured else getAuthHeader cfg)"
  using map_of_obj_assign [OF assms(1)]
  by (auto simp: buildClient_def direct_headers_def configured_def Let_def map_add_def split: option.split)

lemma authorization_precedence_witness:
  "let cfg = \<lparr>baseUrl = [], cfg_headers = [(''Authorization'', ''X'')], auth = Some (BearerAuth ''t'')\<rparr> in
   map_of (bc_headers (buildClient cfg)) ''Authorization'' = Some ''Bearer t''
   \<and> map_of (direct_headers cfg ''*'') ''Authorization'' = Some ''X''"
  using authorization_precedence
    [of "\<lparr>baseUrl = [], cfg_headers = [(''Authorization'', ''X'')], auth = Some (BearerAuth ''t'')\<rparr>" "''*''"]
  by (simp add: getAuthHeader_def)

text \<open>The retrieval agent resolves in exactly one of its ways: the fetch rejection is rethrown; a
  status that is not ok throws with the status and the body text, before the body is looked at; a
  null body throws; a JSON content type gives the parsed result (or its rejection); anything else is
  an event stream, read with the callbacks if there are any.\<close>

theorem retrieval_agent_outcomes:
  fixes json_parse :: "string \<Rightarrow> jsval option" and stringify :: "jsval \<Rightarrow> string" and c :: antfly_client
    and request :: jsval and fetch :: fetch and cs :: 'c and callbacks :: "'c callbacks option"
  defines "sent \<equiv> \<lparr>hr_url = baseUrl (cl_config c) @ ''/agents/retrieval'', hr_method = ''POST'',
      hr_headers = direct_headers (cl_config c) ''text/event-stream, application/json'',
      hr_body = stringify request\<rparr>"
  defines "result \<equiv> retrievalAgent fetch stringify json_parse c request callbacks cs"
  shows "(case fetch sent of
      Inl e \<Rightarrow> result = Inl e
    | Inr r \<Rightarrow>
        if \<not> rs_ok r then
          (\<forall>t. rs_text r = Inr t \<longrightarrow>
             result = throw_error (''Retrieval agent request failed: '' @ show_nat (rs_status r) @ '' '' @ t))
        else if rs_body_null r then result = throw_error ''Response body is null''
        else if (\<exists>t. rs_content_type r = Some t \<and> str_includes t ''application/json'')
        then (\<forall>v. rs_json r = Inr v \<longrightarrow> result = Inr (AgentJson v))
        else result = Inr (AgentAbort (map_option
               (\<lambda>cbs. snd (sse_read json_parse cbs ([], sse_init cs) (rs_reads r))) callbacks)))"
proof (cases "fetch sent")
  case (Inr r)
  have none: "\<not> str_includes [] ''application/json''"
    by (simp add: str_includes_def)
  show ?thesis
    using Inr none unfolding result_def retrievalAgent_def performRetrievalAgent_def Let_def sent_def
    by (cases "rs_content_type r") (auto simp: check_response_def split: option.split sum.split)
qed (simp add: result_def retrievalAgent_def performRetrievalAgent_def Let_def sent_def)

section \<open>Properties of the scan\<close>

lemma scan_read_all:
  "scan_read json_parse ([], st) (map Chunk cs) =
     foldl (scan_line json_parse) st (split_on newline (concat cs))"
proof -
  have run: "scan_read json_parse bs (map Chunk cs) =
      (case feed_chunks scan_stopped (scan_line json_parse) bs cs of (b, st) \<Rightarrow> scan_line json_parse st b)" for bs
    by (induction cs arbitrary: bs) (auto simp: feed_chunks_def)
  obtain b s where fin: "feed_chunks scan_stopped (scan_line json_parse) ([], st) cs = (b, s)"
    by fastforce
  have s: "s = foldl (scan_line json_parse) st (full_lines (concat cs))"
    using scan.feed_chunks_state [of "[]" json_parse st cs] fin by simp
  have "scan_line json_parse s b = scan_line json_parse s (rest_line (concat cs))"
  proof (cases "scan_stopped s")
    case False
    then have "b = rest_line (concat cs)"
      using scan.feed_chunks_buffer [of "[]" json_parse st cs] fin by simp
    then show ?thesis by simp
  qed (simp add: scan.stuck)
  then have "scan_read json_parse ([], st) (map Chunk cs) =
      foldl (scan_line json_parse) st (full_lines (concat cs) @ [rest_line (concat cs)])"
    using run fin s by simp
  then show ?thesis
    by (simp add: full_lines_def rest_line_def)
qed

text \<open>The documents of a list of lines: the blank ones are skipped, the first malformed one ends it.\<close>

fun scan_lines :: "(string \<Rightarrow> jsval option) \<Rightarrow> string list \<Rightarrow> jsval list \<times> js_exn option" where
  "scan_lines json_parse [] = ([], None)"
| "scan_lines json_parse (l # ls) =
     (if trim l = [] then scan_lines json_parse ls
      else case json_parse l of
             None \<Rightarrow> ([], Some syntax_error)
           | Some v \<Rightarrow> (let (vs, e) = scan_lines json_parse ls in (v # vs, e)))"

lemma foldl_scan_line:
  "scan_error st = None \<Longrightarrow> foldl (scan_line json_parse) st ls =
     \<lparr>yielded = yielded st @ fst (scan_lines json_parse ls), scan_error = snd (scan_lines json_parse ls)\<rparr>"
proof (induction ls arbitrary: st)
  case (Cons l ls)
  show ?case
  proof (cases "trim l = []")
    case True
    with Cons show ?thesis by (simp add: scan_line_def)
  next
    case False
    show ?thesis
    proof (cases "json_parse l")
      case None
      with False Cons.prems have "scan_line json_parse st l = st\<lparr>scan_error := Some syntax_error\<rparr>"
        by (simp add: scan_line_def scan_stopped_def)
      then have "foldl (scan_line json_parse) st (l # ls) = st\<lparr>scan_error := Some syntax_error\<rparr>"
        by (simp add: scan.foldl_stuck scan_stopped_def)
      with None False show ?thesis by simp
    next
      case (Some v)
      with False Cons.prems have "scan_line json_parse st l = st\<lparr>yielded := yielded st @ [v]\<rparr>"
        by (simp add: scan_line_def scan_stopped_def)
      with Cons.IH [of "st\<lparr>yielded := yielded st @ [v]\<rparr>"] Cons.prems Some False
      show ?thesis by (simp add: case_prod_beta)
    qed
  qed
qed simp

text \<open>C19. The scan yields, whatever the chunks, the parsed non-blank lines of the whole body in order,
  the last one also when no newline ends it, and stops with a SyntaxError at the first malformed
  line; \<open>scanAll\<close> returns all documents or that error.\<close>

theorem scan_chunks:
  fixes json_parse :: "string \<Rightarrow> jsval option" and cs :: "string list"
  assumes "fetch \<lparr>hr_url = baseUrl (cl_config c) @ ''/tables/'' @ tableName @ ''/lookup'', hr_method = ''POST'',
      hr_headers = direct_headers (cl_config c) ''application/x-ndjson'',
      hr_body = stringify (js_or request (JObj []))\<rparr> = Inr r"
    and "rs_ok r" "\<not> rs_body_null r" "rs_reads r = map Chunk cs"
  defines "out \<equiv> scan_lines json_parse (split_on newline (concat cs))"
  shows "tables_scan fetch stringify json_parse c tableName request = \<lparr>yielded = fst out, scan_error = snd out\<rparr>
    \<and> tables_scanAll fetch stringify json_parse c tableName request =
        (case snd out of Some e \<Rightarrow> Inl e | None \<Rightarrow> Inr (fst out))"
proof -
  have "tables_scan fetch stringify json_parse c tableName request = scan_read json_parse ([], scan_init) (map Chunk cs)"
    using assms(1-4) by (simp add: tables_scan_def Let_def check_response_def)
  also have "\<dots> = \<lparr>yielded = fst out, scan_error = snd out\<rparr>"
    by (simp add: scan_read_all foldl_scan_line scan_init_def out_def)
  finally show ?thesis by (simp add: tables_scanAll_def Let_def split: option.split)
qed

definition ok_response :: "read_result list \<Rightarrow> http_response" where
  "ok_response rs = \<lparr>rs_ok = True, rs_status = 200, rs_text = Inr [], rs_body_null = False,
     rs_content_type = None, rs_json = Inr JNull, rs_reads = rs\<rparr>"

definition example_client :: antfly_client where
  "example_client = new_client \<lparr>baseUrl = ''http://h'', cfg_headers = [], auth = None\<rparr>"

lemma scan_chunks_witness:
  "tables_scanAll (\<lambda>_. Inr (ok_response [Chunk ''12'', Chunk (''3'' @ [newline]), Chunk ''4''])) to_str
     (\<lambda>s. Some (JStr s)) example_client ''docs'' JUndef = Inr [JStr ''123'', JStr ''4'']"
proof -
  let ?r = "ok_response (map Chunk [''12'', ''3'' @ [newline], ''4''])"
  have "tables_scanAll (\<lambda>_. Inr ?r) to_str (\<lambda>s. Some (JStr s)) example_client ''docs'' JUndef =
      (case snd (scan_lines (\<lambda>s. Some (JStr s)) (split_on newline (concat [''12'', ''3'' @ [newline], ''4'']))) of
         Some e \<Rightarrow> Inl e
       | None \<Rightarrow> Inr (fst (scan_lines (\<lambda>s. Some (JStr s)) (split_on newline (concat [''12'', ''3'' @ [newline], ''4''])))))"
    by (rule scan_chunks [where r = ?r, THEN conjunct2]) (simp_all add: ok_response_def)
  then show ?thesis by (simp add: trim_def is_ws_def)
qed

end
