(* ===== verification/SdkChat.thy ===== *)
theory SdkChat
  imports SdkAgents
begin

text \<open>
  Properties of the chat agent of the SDK (\<open>chatAgent\<close> in ts/packages/sdk/src/client.ts): what the
  messages promise of a streaming turn is resolved with, and when it is not.
\<close>

definition chat_closure_init :: "'c \<Rightarrow> 'c chat_closure" where
  "chat_closure_init u = \<lparr>answerText = [], resolved = None, user_state = u\<rparr>"

text \<open>Callbacks of a caller that never throw, and callbacks that may throw while the answer is generated but not
  when it is done.\<close>

definition quiet_end :: "'c chat_callbacks \<Rightarrow> bool" where
  "quiet_end cbs \<longleftrightarrow> (\<forall>v u. \<not> snd (invoke (cc_base cbs) Done v u))
     \<and> (\<forall>f x u. onAssistantMessage cbs = Some f \<longrightarrow> \<not> snd (f x u))
     \<and> (\<forall>f x u. onMessagesUpdated cbs = Some f \<longrightarrow> \<not> snd (f x u))"

definition quiet_generation :: "'c chat_callbacks \<Rightarrow> bool" where
  "quiet_generation cbs \<longleftrightarrow> (\<forall>v u. \<not> snd (invoke (cc_base cbs) Generation v u))"

lemma call_optional_quiet:
  "(\<forall>g x u. f = Some g \<longrightarrow> \<not> snd (g x u)) \<Longrightarrow> \<not> snd (call_optional f x u)"
  by (auto simp: call_optional_def split: option.split)

lemma base_callback_quiet:
  "(\<forall>v u. \<not> snd (invoke (cc_base cbs) k v u)) \<Longrightarrow> \<not> snd (call_optional (base_callback (cc_base cbs) k) x u)"
  by (rule call_optional_quiet) (auto simp: base_callback_def)

lemma chat_on_generation_appends:
  "\<exists>u b. chat_on_generation cbs v cl = (cl\<lparr>answerText := answerText cl @ to_str v, user_state := u\<rparr>, b)
     \<and> (quiet_generation cbs \<longrightarrow> \<not> b)"
  using base_callback_quiet [of cbs Generation v "user_state cl"]
  by (auto simp: chat_on_generation_def quiet_generation_def case_prod_beta Let_def)

lemma chat_on_done_quiet:
  assumes "quiet_end cbs" "resolved cl = None"
  obtains u where "chat_on_done cbs history m v cl =
    (cl\<lparr>user_state := u, resolved := Some (updated_messages history m (answerText cl))\<rparr>, False)"
proof -
  have "\<not> snd (call_optional (onAssistantMessage cbs) x u)" "\<not> snd (call_optional (onMessagesUpdated cbs) y u)"
    for x y u using assms(1) by (auto intro!: call_optional_quiet simp: quiet_end_def)
  then show ?thesis
    using that base_callback_quiet [of cbs Done] assms
    by (simp add: chat_on_done_def Let_def case_prod_beta quiet_end_def)
qed

lemma dispatch_generation:
  assumes "json_parse d = Some (JStr t)" "currentEvent st = ''generation''"
  shows "\<exists>st'. dispatch_event json_parse (wrapped_callbacks cbs history m) d st = st'
    \<and> phase st' = phase st \<and> resolved (client st') = resolved (client st)
    \<and> answerText (client st') = answerText (client st) @ t
    \<and> (quiet_generation cbs \<longrightarrow> console_out st' = console_out st)"
proof -
  obtain u b where "chat_on_generation cbs (JStr t) (client st) =
      ((client st)\<lparr>answerText := answerText (client st) @ to_str (JStr t), user_state := u\<rparr>, b)"
    and "quiet_generation cbs \<longrightarrow> \<not> b"
    using chat_on_generation_appends [of cbs "JStr t" "client st"] by blast
  then show ?thesis
    using assms
    by (cases b) (simp_all add: dispatch_event_def kind_of_event_def call_parsed_def wrapped_callbacks_def warn_def Let_def)
qed

lemma deliver_generations:
  assumes "\<forall>d \<in> set ds. json_parse d = Some (JStr (g d))" "phase st = Reading" "resolved (client st) = None"
  shows "\<exists>st'. deliver json_parse (wrapped_callbacks cbs history m) st (map (\<lambda>d. (''generation'', d)) ds @ rest)
      = deliver json_parse (wrapped_callbacks cbs history m) st' rest
    \<and> phase st' = Reading \<and> resolved (client st') = None
    \<and> answerText (client st') = answerText (client st) @ concat (map g ds)
    \<and> (quiet_generation cbs \<longrightarrow> console_out st' = console_out st)"
  using assms
proof (induction ds arbitrary: st)
  case (Cons d ds)
  let ?W = "wrapped_callbacks cbs history m"
  let ?st = "st\<lparr>currentEvent := ''generation''\<rparr>"
  let ?st2 = "(dispatch_event json_parse ?W d ?st)\<lparr>currentEvent := []\<rparr>"
  have d: "phase ?st2 = Reading" "resolved (client ?st2) = None" "answerText (client ?st2) = answerText (client st) @ g d"
    "quiet_generation cbs \<longrightarrow> console_out ?st2 = console_out st"
    using dispatch_generation [of json_parse d "g d" ?st cbs history m] Cons.prems by simp_all
  have "\<exists>st'. deliver json_parse ?W ?st2 (map (\<lambda>d. (''generation'', d)) ds @ rest) = deliver json_parse ?W st' rest
    \<and> phase st' = Reading \<and> resolved (client st') = None
    \<and> answerText (client st') = answerText (client ?st2) @ concat (map g ds)
    \<and> (quiet_generation cbs \<longrightarrow> console_out st' = console_out ?st2)"
    using Cons.prems(1) d(1,2) by (intro Cons.IH) simp_all
  moreover have "deliver json_parse ?W st (map (\<lambda>d. (''generation'', d)) (d # ds) @ rest) =
      deliver json_parse ?W ?st2 (map (\<lambda>d. (''generation'', d)) ds @ rest)"
    using Cons.prems(2) d(1) by (simp add: Let_def sse_stopped_def)
  ultimately show ?case using d(3,4) by simp
qed auto

text \<open>C18. A streaming turn: when the request is answered with any response that is ok, has a body and is not
  JSON, and that body is a run of generation events closed by a done event, cut into chunks in any way, the
  messages promise is resolved with the history, the user's message and the concatenation of the generated
  chunks as the assistant's message, and the reader ends normally, as long as the callbacks of the end (those of the message, of the messages and of the done event) do not throw;
  the one of the generated chunks may, and if it does not, nothing is written to the console. What the server sends
  after the done event has no effect.\<close>

theorem chat_stream_messages:
  assumes "fetch \<lparr>hr_url = baseUrl (cl_config c) @ ''/agents/retrieval'', hr_method = ''POST'',
      hr_headers = direct_headers (cl_config c) ''text/event-stream, application/json'',
      hr_body = stringify (chat_request userMessage cfg history True)\<rparr> = Inr response"
    and "rs_ok response" "\<not> rs_body_null response" "rs_reads response = map Chunk cs"
    and "\<not> str_includes (case rs_content_type response of None \<Rightarrow> [] | Some t \<Rightarrow> t) ''application/json''"
    and "concat cs = sse_encode (map (\<lambda>d. (''generation'', d)) ds @ (''done'', x) # rest)"
    and "\<forall>e \<in> set (map (\<lambda>d. (''generation'', d)) ds @ (''done'', x) # rest). clean_event e"
    and "\<forall>d \<in> set ds. json_parse d = Some (JStr (g d))" and "json_parse x = Some v" and "quiet_end cbs"
  shows "\<exists>st. chatAgent fetch stringify json_parse c userMessage cfg history (Some cbs) u = Inr (ChatStream (Some st))
    \<and> resolved (client st) = Some (updated_messages history userMessage (concat (map g ds)))
    \<and> phase st = Returned \<and> (quiet_generation cbs \<longrightarrow> console_out st = [])"
proof -
  let ?W = "wrapped_callbacks cbs history userMessage"
  let ?evs = "map (\<lambda>d. (''generation'', d)) ds @ (''done'', x) # rest"
  let ?st = "snd (sse_read json_parse ?W ([], sse_init (chat_closure_init u)) (map Chunk cs))"
  have run: "chatAgent fetch stringify json_parse c userMessage cfg history (Some cbs) u = Inr (ChatStream (Some ?st))"
    using assms(1-5)
    by (simp add: chatAgent_def performRetrievalAgent_def Let_def check_response_def chat_closure_init_def)
  have "?st = deliver json_parse ?W (sse_init (chat_closure_init u)) ?evs"
    by (rule sse_read_encoded [OF assms(7,6)])
  moreover obtain st' where st': "deliver json_parse ?W (sse_init (chat_closure_init u)) ?evs =
      deliver json_parse ?W st' ((''done'', x) # rest)"
    "phase st' = Reading" "resolved (client st') = None"
    "answerText (client st') = concat (map g ds)" "quiet_generation cbs \<longrightarrow> console_out st' = []"
    using deliver_generations [OF assms(8), of "sse_init (chat_closure_init u)" cbs history userMessage "(''done'', x) # rest"]
    by (auto simp: sse_init_def chat_closure_init_def)
  moreover obtain w where "chat_on_done cbs history userMessage v (client st') =
      ((client st')\<lparr>user_state := w, resolved := Some (updated_messages history userMessage (answerText (client st')))\<rparr>, False)"
    using assms(10) st'(3) by (rule chat_on_done_quiet)
  ultimately have "resolved (client ?st) = Some (updated_messages history userMessage (concat (map g ds)))
      \<and> phase ?st = Returned \<and> (quiet_generation cbs \<longrightarrow> console_out ?st = [])"
    using assms(9) by (simp add: dispatch_event_def kind_of_event_def call_parsed_def wrapped_callbacks_def
        sse_stopped_def)
  with run show ?thesis by blast
qed

definition no_chat_callbacks :: "unit chat_callbacks" where
  "no_chat_callbacks = \<lparr>cc_base = \<lparr>has_cb = (\<lambda>_. False), invoke = (\<lambda>_ _ c. (c, False))\<rparr>,
     onAssistantMessage = None, onMessagesUpdated = None\<rparr>"

definition example_chat_config :: chat_config where
  "example_chat_config = \<lparr>cc_generator = JUndef, cc_table = Some ''docs'', cc_semanticIndexes = None,
     cc_agentKnowledge = None, cc_maxInternalIterations = None, cc_limit = None, cc_steps = JUndef\<rparr>"

definition event_response :: "read_result list \<Rightarrow> http_response" where
  "event_response rs = (ok_response rs)\<lparr>rs_content_type := Some ''text/event-stream''\<rparr>"

lemma chat_stream_messages_witness:
  "\<exists>st. chatAgent (\<lambda>_. Inr (event_response (map Chunk
        [sse_encode [(''generation'', ''He''), (''generation'', ''y''), (''done'', ''d'')]])))
      to_str (\<lambda>s. Some (JStr s)) example_client ''hi'' example_chat_config [] (Some no_chat_callbacks) ()
      = Inr (ChatStream (Some st))
    \<and> resolved (client st) = Some (updated_messages [] ''hi'' ''Hey'') \<and> phase st = Returned"
proof -
  let ?cs = "[sse_encode [(''generation'', ''He''), (''generation'', ''y''), (''done'', ''d'')]]"
  have q: "quiet_end no_chat_callbacks" by (simp add: quiet_end_def no_chat_callbacks_def)
  have sent: "rs_ok (event_response rs)" "\<not> rs_body_null (event_response rs)" "rs_reads (event_response rs) = rs"
    "\<not> str_includes (case rs_content_type (event_response rs) of None \<Rightarrow> [] | Some t \<Rightarrow> t) ''application/json''" for rs
    by (simp_all add: event_response_def ok_response_def str_includes_def)
  show ?thesis
    using chat_stream_messages [where fetch = "\<lambda>_. Inr (event_response (map Chunk ?cs))"
        and stringify = to_str and json_parse = "\<lambda>s. Some (JStr s)" and c = example_client
        and userMessage = "''hi''" and cfg = example_chat_config and history = "[]"
        and cs = ?cs and ds = "[''He'', ''y'']" and x = "''d''" and rest = "[]" and g = "\<lambda>s. s" and u = "()",
        OF refl sent _ _ _ _ q]
    by (auto simp: clean_event_def trim_def is_ws_def)
qed

text \<open>The promise is resolved only by the step that also ends the loop normally.\<close>

definition promise_inv :: "'c chat_closure sse_state \<Rightarrow> bool" where
  "promise_inv st \<longleftrightarrow> (resolved (client st) \<noteq> None \<longrightarrow> phase st = Returned)"

lemma chat_on_done_resolved:
  "snd (chat_on_done cbs history m v cl) \<Longrightarrow> resolved (fst (chat_on_done cbs history m v cl)) = resolved cl"
  by (auto simp: chat_on_done_def Let_def split: prod.splits if_splits)

lemma wrapped_resolved:
  "k \<noteq> Done \<Longrightarrow> resolved (fst (invoke (wrapped_callbacks cbs history m) k v cl)) = resolved cl"
  by (auto simp: wrapped_callbacks_def chat_on_generation_def Let_def case_prod_beta)

lemma wrapped_done:
  "invoke (wrapped_callbacks cbs history m) Done v cl = chat_on_done cbs history m v cl"
  "has_cb (wrapped_callbacks cbs history m) Done"
  by (simp_all add: wrapped_callbacks_def)

lemma call_parsed_promise:
  assumes "resolved (client st) = None"
  shows "k \<noteq> Done \<Longrightarrow> resolved (client (fst (call_parsed json_parse (wrapped_callbacks cbs history m) k d st))) = None"
    and "\<not> snd (call_parsed json_parse (wrapped_callbacks cbs history m) Done d st) \<Longrightarrow>
      resolved (client (fst (call_parsed json_parse (wrapped_callbacks cbs history m) Done d st))) = None"
    and "phase (fst (call_parsed json_parse (wrapped_callbacks cbs history m) k d st)) = phase st"
  using assms wrapped_resolved [of k cbs history m _ "client st"] chat_on_done_resolved [of cbs history m _ "client st"]
  by (auto simp: call_parsed_def warn_def Let_def case_prod_beta wrapped_done
      split: option.splits if_splits)

lemma error_event_promise:
  "resolved (client (error_event json_parse (wrapped_callbacks cbs history m) d st)) = resolved (client st)"
  using wrapped_resolved [of ErrorEvent cbs history m _ "client st"]
  by (auto simp: error_event_def warn_def Let_def case_prod_beta split: option.split)

lemma line_promise:
  "promise_inv st \<Longrightarrow> promise_inv (sse_line json_parse (wrapped_callbacks cbs history m) st l)"
proof (cases "sse_stopped st")
  case False
  assume "promise_inv st"
  with False have none: "resolved (client st) = None" and ph: "phase st = Reading"
    by (auto simp: promise_inv_def sse_stopped_def)
  have "promise_inv (dispatch_event json_parse (wrapped_callbacks cbs history m) d st)" for d
    using none ph call_parsed_promise [OF none, where cbs = cbs and history = history and m = m]
      error_event_promise [of json_parse cbs history m d st]
    by (auto simp: promise_inv_def dispatch_event_def Let_def case_prod_beta split: option.split sse_kind.split)
  with none show ?thesis
    by (simp add: sse_line_def promise_inv_def)
qed (simp add: sse.stuck)

lemma foldl_promise:
  "promise_inv st \<Longrightarrow> promise_inv (foldl (sse_line json_parse (wrapped_callbacks cbs history m)) st ls)"
  by (induction ls arbitrary: st) (auto intro: line_promise)

lemma read_promise:
  "promise_inv (snd bs) \<Longrightarrow> promise_inv (snd (sse_read json_parse (wrapped_callbacks cbs history m) bs rs))"
proof (induction rs arbitrary: bs)
  case (Cons r rs)
  show ?case
  proof (cases r)
    case (Chunk c)
    have "promise_inv (snd (feed_chunk sse_stopped (sse_line json_parse (wrapped_callbacks cbs history m)) bs c))"
      using Cons.prems by (cases bs) (auto simp: feed_chunk_def Let_def intro: foldl_promise)
    then show ?thesis using Chunk Cons.IH by simp
  next
    case (ReadFails e)
    then show ?thesis
      using Cons.prems
      by (cases bs) (auto simp: reader_error_def promise_inv_def sse_stopped_def split: js_exn.split)
  qed
qed simp

lemma performRetrievalAgent_stream:
  assumes "performRetrievalAgent fetch stringify json_parse c request (Some cbs) cl = Inr (AgentAbort (Some st))"
  shows "\<exists>rs. st = snd (sse_read json_parse cbs ([], sse_init cl) rs)"
proof -
  define sent where "sent = \<lparr>hr_url = baseUrl (cl_config c) @ ''/agents/retrieval'', hr_method = ''POST'',
      hr_headers = direct_headers (cl_config c) ''text/event-stream, application/json'',
      hr_body = stringify request\<rparr>"
  show ?thesis
  proof (cases "fetch sent")
    case (Inr r)
    with assms show ?thesis
      unfolding performRetrievalAgent_def Let_def sent_def [symmetric]
      by (cases "rs_json r") (auto split: sum.splits if_splits)
  qed (use assms in \<open>simp add: performRetrievalAgent_def Let_def sent_def\<close>)
qed

lemma chatAgent_stream:
  assumes "chatAgent fetch stringify json_parse c m cfg history (Some cbs) u = Inr (ChatStream (Some st))"
  shows "\<exists>rs. st = snd (sse_read json_parse (wrapped_callbacks cbs history m) ([], sse_init (chat_closure_init u)) rs)"
proof -
  define run where "run = performRetrievalAgent fetch stringify json_parse c (chat_request m cfg history True)
    (Some (wrapped_callbacks cbs history m)) (chat_closure_init u)"
  have "chatAgent fetch stringify json_parse c m cfg history (Some cbs) u =
      map_sum id (\<lambda>r. ChatStream (case r of AgentJson _ \<Rightarrow> None | AgentAbort st \<Rightarrow> st)) run"
    by (simp add: chatAgent_def run_def chat_closure_init_def Let_def)
  with assms have "run = Inr (AgentAbort (Some st))"
    by (cases run) (auto split: agent_result.splits)
  then show ?thesis
    unfolding run_def by (rule performRetrievalAgent_stream)
qed

text \<open>The messages promise of a streaming turn stays pending when the reader ends in any other way
  than normally: after an error event, after a failed read, or when the body ends without a done
  event, nothing ever resolves it, whatever the stream and the caller's callbacks.\<close>

theorem chat_promise_pending:
  assumes "chatAgent fetch stringify json_parse c userMessage cfg history (Some cbs) u = Inr (ChatStream (Some st))"
    and "phase st \<noteq> Returned"
  shows "resolved (client st) = None"
proof -
  obtain rs where st: "st = snd (sse_read json_parse (wrapped_callbacks cbs history userMessage)
      ([], sse_init (chat_closure_init u)) rs)"
    using chatAgent_stream [OF assms(1)] by blast
  have "promise_inv st"
    unfolding st by (rule read_promise) (simp add: promise_inv_def sse_init_def chat_closure_init_def)
  then show ?thesis using assms(2) by (simp add: promise_inv_def)
qed

lemma chat_promise_pending_witness:
  "\<exists>st. chatAgent (\<lambda>_. Inr (ok_response [Chunk ''event: gen'']))
      to_str (\<lambda>s. Some (JStr s)) example_client ''hi'' example_chat_config [] (Some no_chat_callbacks) ()
      = Inr (ChatStream (Some st)) \<and> phase st \<noteq> Returned \<and> resolved (client st) = None"
proof -
  let ?st = "sse_init (chat_closure_init ()) :: unit chat_closure sse_state"
  have run: "chatAgent (\<lambda>_. Inr (ok_response [Chunk ''event: gen'']))
      to_str (\<lambda>s. Some (JStr s)) example_client ''hi'' example_chat_config [] (Some no_chat_callbacks) ()
      = Inr (ChatStream (Some ?st))"
    by (simp add: chatAgent_def performRetrievalAgent_def Let_def check_response_def ok_response_def
        str_includes_def chat_closure_init_def feed_chunk_def sse_stopped_def sse_init_def)
  have ph: "phase ?st \<noteq> Returned" by (simp add: sse_init_def)
  show ?thesis using run ph chat_promise_pending [OF run ph] by blast
qed

end
