(* ===== verification/TermiteClient.thy ===== *)
theory TermiteClient
  imports Codec SdkAgents
begin

text \<open>
  The Termite SDK client (ts/packages/termite-sdk/src/client.ts): its configuration, the JSON
  operations through openapi-fetch and the binary embedding request. The parameters are those of
  the Antfly client: \<open>api\<close> is the openapi-fetch client, \<open>fetch\<close> the platform's.
\<close>

section \<open>The client\<close>

record termite_config =
  tc_baseUrl :: string
  tc_headers :: headers

record termite_client =
  tm_client :: built_client
  tm_baseUrl :: string
  tm_headers :: headers

text \<open>\<open>s.replace(/\/$/, "")\<close>: one trailing slash is dropped.\<close>

definition strip_slash :: "string \<Rightarrow> string" where
  "strip_slash s = (if ends_with s ''/'' then butlast s else s)"

definition new_termite_client :: "termite_config \<Rightarrow> termite_client" where
  "new_termite_client cfg =
     (let base = strip_slash (tc_baseUrl cfg);
          headers = obj_assign [(''Content-Type'', ''application/json'')] (tc_headers cfg)
      in \<lparr>tm_client = \<lparr>bc_baseUrl = base, bc_headers = obj_put ''Accept'' ''application/json'' headers\<rparr>,
          tm_baseUrl = base, tm_headers = headers\<rparr>)"

definition getRawTermiteClient :: "termite_client \<Rightarrow> built_client" where
  "getRawTermiteClient c = tm_client c"

section \<open>JSON operations\<close>

text \<open>
  \<open>if (error) throw new Error(`what failed: ${error.error}`)\<close>, then
  \<open>if (!data) throw new Error("what failed: unexpected empty response")\<close>.
\<close>

definition throw_on_error :: "api \<Rightarrow> termite_client \<Rightarrow> api_request \<Rightarrow> string \<Rightarrow> jsval res" where
  "throw_on_error api c req what =
     (case api (tm_client c) req of
        Inl e \<Rightarrow> Inl e
      | Inr (data, error) \<Rightarrow>
          if truthy error then throw_error (what @ '' failed: '' @ to_str (fld error ''error''))
          else Inr data)"

definition termite_call :: "api \<Rightarrow> termite_client \<Rightarrow> api_request \<Rightarrow> string \<Rightarrow> jsval res" where
  "termite_call api c req what =
     (case throw_on_error api c req what of
        Inl e \<Rightarrow> Inl e
      | Inr data \<Rightarrow> if \<not> truthy data then throw_error (what @ '' failed: unexpected empty response'')
                    else Inr data)"

definition embed_body :: "string \<Rightarrow> jsval \<Rightarrow> jsval \<Rightarrow> jsval" where
  "embed_body model input options =
     JObj [(''model'', JStr model), (''input'', input), (''truncate'', fld options ''truncate'')]"

definition embed :: "api \<Rightarrow> termite_client \<Rightarrow> string \<Rightarrow> jsval \<Rightarrow> jsval \<Rightarrow> jsval res" where
  "embed api c model input options =
     throw_on_error api c (rq ''POST'' ''/embed'' [] (embed_body model input options)) ''Embed''"

definition chunk :: "api \<Rightarrow> termite_client \<Rightarrow> string \<Rightarrow> jsval \<Rightarrow> jsval res" where
  "chunk api c txt config =
     termite_call api c (rq ''POST'' ''/chunk'' [] (JObj [(''text'', JStr txt), (''config'', config)])) ''Chunk''"

definition rerank :: "api \<Rightarrow> termite_client \<Rightarrow> string \<Rightarrow> string \<Rightarrow> string list \<Rightarrow> jsval res" where
  "rerank api c model q prompts =
     termite_call api c (rq ''POST'' ''/rerank'' []
       (JObj [(''model'', JStr model), (''query'', JStr q), (''prompts'', JArr (map JStr prompts))])) ''Rerank''"

definition recognize :: "api \<Rightarrow> termite_client \<Rightarrow> string \<Rightarrow> string list \<Rightarrow> jsval \<Rightarrow> jsval res" where
  "recognize api c model texts options =
     termite_call api c (rq ''POST'' ''/recognize'' []
       (JObj [(''model'', JStr model), (''texts'', JArr (map JStr texts)),
              (''labels'', fld options ''labels''),
              (''relation_labels'', fld options ''relationLabels'')])) ''Recognize''"

definition extract_data :: "api \<Rightarrow> termite_client \<Rightarrow> string \<Rightarrow> string list \<Rightarrow> jsval \<Rightarrow> jsval \<Rightarrow> jsval res" where
  "extract_data api c model texts schema options =
     termite_call api c (rq ''POST'' ''/extract'' []
       (JObj [(''model'', JStr model), (''texts'', JArr (map JStr texts)), (''schema'', schema),
              (''threshold'', fld options ''threshold''), (''flat_ner'', fld options ''flatNer''),
              (''include_confidence'', fld options ''includeConfidence''),
              (''include_spans'', fld options ''includeSpans'')])) ''Extract''"

definition rewrite :: "api \<Rightarrow> termite_client \<Rightarrow> string \<Rightarrow> string list \<Rightarrow> jsval res" where
  "rewrite api c model inputs =
     termite_call api c (rq ''POST'' ''/rewrite'' []
       (JObj [(''model'', JStr model), (''inputs'', JArr (map JStr inputs))])) ''Rewrite''"

definition transcribe :: "api \<Rightarrow> termite_client \<Rightarrow> string \<Rightarrow> jsval \<Rightarrow> jsval res" where
  "transcribe api c audio options =
     termite_call api c (rq ''POST'' ''/transcribe'' []
       (JObj [(''audio'', JStr audio), (''model'', fld options ''model''),
              (''language'', fld options ''language'')])) ''Transcribe''"

definition listModels :: "api \<Rightarrow> termite_client \<Rightarrow> jsval res" where
  "listModels api c = termite_call api c (rq ''GET'' ''/models'' [] JUndef) ''List models''"

definition getVersion :: "api \<Rightarrow> termite_client \<Rightarrow> jsval res" where
  "getVersion api c = termite_call api c (rq ''GET'' ''/version'' [] JUndef) ''Get version''"

section \<open>Binary embeddings\<close>

record binary_response = http_response +
  rs_bytes :: "array_buffer res"

definition embedBinary ::
    "(http_request \<Rightarrow> binary_response res) \<Rightarrow> (jsval \<Rightarrow> string) \<Rightarrow> termite_client \<Rightarrow>
     string \<Rightarrow> jsval \<Rightarrow> jsval \<Rightarrow> jnumber list list res" where
  "embedBinary fetch stringify c model input options =
     (case fetch \<lparr>hr_url = tm_baseUrl c @ ''/embed'', hr_method = ''POST'',
                   hr_headers = obj_put ''Accept'' ''application/octet-stream'' (tm_headers c),
                   hr_body = stringify (embed_body model input options)\<rparr> of
        Inl e \<Rightarrow> Inl e
      | Inr response \<Rightarrow>
          if \<not> rs_ok response
          then (case rs_text response of
                  Inl e \<Rightarrow> Inl e
                | Inr errorText \<Rightarrow>
                    throw_error (''Embed failed: '' @ show_nat (rs_status response) @ '' '' @ errorText))
          else (case rs_bytes response of
                  Inl e \<Rightarrow> Inl e
                | Inr arrayBuffer \<Rightarrow> deserializeEmbeddings arrayBuffer))"


section \<open>Properties\<close>

datatype termite_op =
    OpEmbed string jsval jsval
  | OpChunk string jsval
  | OpRerank string string "string list"
  | OpRecognize string "string list" jsval
  | OpExtract string "string list" jsval jsval
  | OpRewrite string "string list"
  | OpTranscribe string jsval
  | OpListModels
  | OpGetVersion

fun run_termite :: "api \<Rightarrow> termite_client \<Rightarrow> termite_op \<Rightarrow> jsval res" where
  "run_termite api c (OpEmbed m i opts) = embed api c m i opts"
| "run_termite api c (OpChunk t cfg) = chunk api c t cfg"
| "run_termite api c (OpRerank m q ps) = rerank api c m q ps"
| "run_termite api c (OpRecognize m ts opts) = recognize api c m ts opts"
| "run_termite api c (OpExtract m ts sch opts) = extract_data api c m ts sch opts"
| "run_termite api c (OpRewrite m xs) = rewrite api c m xs"
| "run_termite api c (OpTranscribe a opts) = transcribe api c a opts"
| "run_termite api c OpListModels = listModels api c"
| "run_termite api c OpGetVersion = getVersion api c"

fun termite_request :: "termite_op \<Rightarrow> api_request" where
  "termite_request (OpEmbed m i opts) = rq ''POST'' ''/embed'' []
     (JObj [(''model'', JStr m), (''input'', i), (''truncate'', fld opts ''truncate'')])"
| "termite_request (OpChunk t cfg) = rq ''POST'' ''/chunk'' [] (JObj [(''text'', JStr t), (''config'', cfg)])"
| "termite_request (OpRerank m q ps) = rq ''POST'' ''/rerank'' []
     (JObj [(''model'', JStr m), (''query'', JStr q), (''prompts'', JArr (map JStr ps))])"
| "termite_request (OpRecognize m ts opts) = rq ''POST'' ''/recognize'' []
     (JObj [(''model'', JStr m), (''texts'', JArr (map JStr ts)), (''labels'', fld opts ''labels''),
            (''relation_labels'', fld opts ''relationLabels'')])"
| "termite_request (OpExtract m ts sch opts) = rq ''POST'' ''/extract'' []
     (JObj [(''model'', JStr m), (''texts'', JArr (map JStr ts)), (''schema'', sch),
            (''threshold'', fld opts ''threshold''), (''flat_ner'', fld opts ''flatNer''),
            (''include_confidence'', fld opts ''includeConfidence''),
            (''include_spans'', fld opts ''includeSpans'')])"
| "termite_request (OpRewrite m xs) = rq ''POST'' ''/rewrite'' []
     (JObj [(''model'', JStr m), (''inputs'', JArr (map JStr xs))])"
| "termite_request (OpTranscribe a opts) = rq ''POST'' ''/transcribe'' []
     (JObj [(''audio'', JStr a), (''model'', fld opts ''model''), (''language'', fld opts ''language'')])"
| "termite_request OpListModels = rq ''GET'' ''/models'' [] JUndef"
| "termite_request OpGetVersion = rq ''GET'' ''/version'' [] JUndef"

fun termite_label :: "termite_op \<Rightarrow> string" where
  "termite_label (OpEmbed m i opts) = ''Embed''"
| "termite_label (OpChunk t cfg) = ''Chunk''"
| "termite_label (OpRerank m q ps) = ''Rerank''"
| "termite_label (OpRecognize m ts opts) = ''Recognize''"
| "termite_label (OpExtract m ts sch opts) = ''Extract''"
| "termite_label (OpRewrite m xs) = ''Rewrite''"
| "termite_label (OpTranscribe a opts) = ''Transcribe''"
| "termite_label OpListModels = ''List models''"
| "termite_label OpGetVersion = ''Get version''"

fun is_embed :: "termite_op \<Rightarrow> bool" where
  "is_embed (OpEmbed m i opts) = True"
| "is_embed _ = False"

lemmas termite_defs = embed_def chunk_def rerank_def recognize_def extract_data_def rewrite_def
  transcribe_def listModels_def getVersion_def termite_call_def throw_on_error_def embed_body_def

text \<open>Every JSON operation of the Termite client sends the request of the table and ends in one of
  four ways: the rejection is rethrown; an error value is thrown under the operation's name; an
  empty response is thrown as such, except by \<open>embed\<close>, which returns it; and otherwise the data is
  returned as it came.\<close>

theorem termite_operation_contract:
  "run_termite api c op =
     (case api (tm_client c) (termite_request op) of
        Inl e \<Rightarrow> Inl e
      | Inr (data, error) \<Rightarrow>
          if truthy error then throw_error (termite_label op @ '' failed: '' @ to_str (fld error ''error''))
          else if truthy data \<or> is_embed op then Inr data
          else throw_error (termite_label op @ '' failed: unexpected empty response''))"
  by (cases op) (simp_all add: termite_defs split: sum.split prod.split)

text \<open>C17. End to end, \<open>embedBinary\<close> returns the vectors a server serialized: it posts to the embed
  endpoint under the base URL without its trailing slash, asks for bytes whatever the configured
  Accept header says, and when the server answers with the binary form of a rectangular matrix it
  returns that matrix in binary32.\<close>

theorem embedBinary_end_to_end:
  fixes vs :: "jnumber list list" and cfg :: termite_config
    and fetch :: "http_request \<Rightarrow> binary_response res"
  defines "c \<equiv> new_termite_client cfg"
  assumes rect: "\<forall>v \<in> set vs. length v = d" "length vs < 2 ^ 64" "d < 2 ^ 64"
    and server: "\<forall>req. hr_url req = strip_slash (tc_baseUrl cfg) @ ''/embed'' \<and> hr_method req = ''POST''
           \<and> map_of (hr_headers req) ''Accept'' = Some ''application/octet-stream''
           \<and> hr_body req = stringify (embed_body model input opts)
         \<longrightarrow> (\<exists>r. fetch req = Inr r \<and> rs_ok r \<and> rs_bytes r = serializeEmbeddings vs)"
  shows "embedBinary fetch stringify c model input opts = Inr (map (map fround) vs)"
proof -
  obtain buf where buf: "serializeEmbeddings vs = Inr buf"
      "deserializeEmbeddings buf = Inr (map (map fround) vs)"
    using serialize_deserialize [OF rect] by blast
  define req where "req = \<lparr>hr_url = tm_baseUrl c @ ''/embed'', hr_method = ''POST'',
                   hr_headers = obj_put ''Accept'' ''application/octet-stream'' (tm_headers c),
                   hr_body = stringify (embed_body model input opts)\<rparr>"
  obtain r where "fetch req = Inr r" "rs_ok r" "rs_bytes r = serializeEmbeddings vs"
    using server [rule_format, of req] by (auto simp: req_def c_def new_termite_client_def Let_def)
  with buf show ?thesis by (simp add: embedBinary_def flip: req_def)
qed

definition binary_server :: "jnumber list list \<Rightarrow> http_request \<Rightarrow> binary_response res" where
  "binary_server vs req = Inr \<lparr>rs_ok = True, rs_status = 200, rs_text = Inr [], rs_body_null = False,
     rs_content_type = None, rs_json = Inr JNull, rs_reads = [], rs_bytes = serializeEmbeddings vs\<rparr>"

lemma embedBinary_end_to_end_witness:
  "embedBinary (binary_server [[Fin (1 / 2), Fin 3]]) to_str
     (new_termite_client \<lparr>tc_baseUrl = ''http://h/'', tc_headers = []\<rparr>) ''m'' (JStr ''x'') JUndef
   = Inr (map (map fround) [[Fin (1 / 2), Fin 3]])"
  by (rule embedBinary_end_to_end [where d = 2]) (simp_all add: binary_server_def)

end
