(* ===== verification/History.thy ===== *)
theory History
  imports Prelude
begin

text \<open>
  The search history hook (ts/packages/components/src/hooks/useSearchHistory.ts): a bounded list of
  search results, newest first, kept in the browser's local storage.

  \<open>json_parse\<close> and \<open>stringify\<close> are those of the language; \<open>storable\<close> says which texts
  \<open>localStorage.setItem\<close> accepts (it throws when the quota is reached, which the hook only logs).
\<close>

section \<open>The hook\<close>

record history_state =
  history :: "jsval list"
  storage :: "string option"

definition results_of :: "jsval \<Rightarrow> jsval list" where
  "results_of parsed = (case fld parsed ''results'' of JArr vs \<Rightarrow> vs | _ \<Rightarrow> [])"

text \<open>The lazy initializer: what is in storage under the hook's key.\<close>

definition load_history :: "(string \<Rightarrow> jsval option) \<Rightarrow> string option \<Rightarrow> history_state" where
  "load_history json_parse stored =
     \<lparr>history = (case stored of
        None \<Rightarrow> []
      | Some s \<Rightarrow> (if s = [] then [] else case json_parse s of None \<Rightarrow> [] | Some parsed \<Rightarrow> results_of parsed)),
      storage = stored\<rparr>"

definition history_text :: "(jsval \<Rightarrow> string) \<Rightarrow> jsval list \<Rightarrow> string" where
  "history_text stringify entries = stringify (JObj [(''results'', JArr entries)])"

definition entry_id :: "jsval \<Rightarrow> jsval" where
  "entry_id e = fld e ''id''"

definition upsertSearch ::
    "(jsval \<Rightarrow> string) \<Rightarrow> (string \<Rightarrow> bool) \<Rightarrow> rat \<Rightarrow> jsval \<Rightarrow> history_state \<Rightarrow> history_state" where
  "upsertSearch stringify storable maxResults result st =
     (if maxResults = 0 then st
      else let existingWithoutCurrent = filter (\<lambda>entry. entry_id entry \<noteq> entry_id result) (history st);
               updated = slice_to (JNum maxResults) (result # existingWithoutCurrent);
               s = history_text stringify updated
           in \<lparr>history = updated, storage = (if storable s then Some s else storage st)\<rparr>)"

definition clearHistory :: "history_state \<Rightarrow> history_state" where
  "clearHistory st = \<lparr>history = [], storage = None\<rparr>"

section \<open>The contract: the most recent result of each id\<close>

definition recent :: "jsval list \<Rightarrow> jsval list" where
  "recent rs = fold (\<lambda>r h. r # filter (\<lambda>e. entry_id e \<noteq> entry_id r) h) rs []"

lemma recent_snoc: "recent (rs @ [r]) = r # filter (\<lambda>e. entry_id e \<noteq> entry_id r) (recent rs)"
  by (simp add: recent_def)

lemma recent_distinct: "distinct (map entry_id (recent rs))"
proof (induction rs rule: rev_induct)
  case (snoc r rs)
  then show ?case by (auto simp: recent_snoc distinct_map_filter)
qed (simp add: recent_def)

text \<open>An entry is the last one given for its id.\<close>

lemma recent_last:
  "e \<in> set (recent rs) \<longleftrightarrow> find (\<lambda>r. entry_id r = entry_id e) (rev rs) = Some e"
proof (induction rs rule: rev_induct)
  case (snoc r rs)
  then show ?case by (auto simp: recent_snoc)
qed (simp add: recent_def)

text \<open>Cutting first removes nothing that a cut afterwards would keep.\<close>

lemma take_filter_distinct:
  assumes "distinct (map f xs)"
  shows "take n (filter (\<lambda>x. f x \<noteq> k) (take (Suc n) xs)) = take n (filter (\<lambda>x. f x \<noteq> k) xs)"
  using assms
proof (induction xs arbitrary: n)
  case (Cons x xs)
  show ?case
  proof (cases "f x = k")
    case True
    with Cons.prems have "filter (\<lambda>x. f x \<noteq> k) ys = ys" if "set ys \<subseteq> set xs" for ys
      using that by (auto simp: filter_id_conv image_iff) (metis subsetD)
    then have "filter (\<lambda>x. f x \<noteq> k) (take n xs) = take n xs" "filter (\<lambda>x. f x \<noteq> k) xs = xs"
      by (auto dest: in_set_takeD)
    with True show ?thesis by simp
  next
    case False
    then show ?thesis
      using Cons by (cases n) simp_all
  qed
qed simp

lemma upsert_history:
  "history (upsertSearch stringify storable (of_nat (Suc n)) r st) =
     r # take n (filter (\<lambda>e. entry_id e \<noteq> entry_id r) (history st))"
  by (simp add: upsertSearch_def Let_def slice_to_nat del: of_nat_Suc)

text \<open>The history is the most recent result of each id, newest first, cut at the maximum: whatever
  results are saved, in whatever order and however often the same id is updated, cutting at every
  step loses nothing that the bound of the final list would not cut.\<close>

theorem history_is_recent:
  "history (fold (upsertSearch stringify storable (of_nat n)) rs (load_history json_parse None)) = take n (recent rs)
   \<and> distinct (map entry_id (recent rs))
   \<and> (e \<in> set (recent rs) \<longleftrightarrow> find (\<lambda>r. entry_id r = entry_id e) (rev rs) = Some e)"
proof -
  have "history (fold (upsertSearch stringify storable (of_nat n)) rs (load_history json_parse None)) = take n (recent rs)"
  proof (induction rs rule: rev_induct)
    case (snoc r rs)
    show ?case
    proof (cases n)
      case 0
      then show ?thesis using snoc by (simp add: upsertSearch_def)
    next
      case (Suc m)
      then show ?thesis
        using snoc take_filter_distinct [OF recent_distinct, of m "entry_id r" rs]
        by (simp add: upsert_history recent_snoc del: of_nat_Suc)
    qed
  qed (simp add: recent_def load_history_def)
  then show ?thesis using recent_distinct recent_last by blast
qed

text \<open>Reloading the page restores the history: after a save whose text the storage accepts, the next
  load reads back the history as it was, when \<open>JSON.parse\<close> inverts \<open>JSON.stringify\<close> on it; after
  clearing there is nothing to load.\<close>

theorem history_survives_reload:
  fixes stringify :: "jsval \<Rightarrow> string" and st :: history_state and n :: nat and storable r
  defines "st' \<equiv> upsertSearch stringify storable (of_nat (Suc n)) r st"
  assumes "storable (history_text stringify (history st'))"
    and "json_parse (history_text stringify (history st')) = Some (JObj [(''results'', JArr (history st'))])"
    and "history_text stringify (history st') \<noteq> []"
  shows "history (load_history json_parse (storage st')) = history st'
    \<and> history (load_history json_parse (storage (clearHistory st'))) = []"
proof -
  have "storage st' = Some (history_text stringify (history st'))"
    using assms(2) by (simp add: st'_def upsertSearch_def Let_def del: of_nat_Suc)
  then show ?thesis
    using assms(3,4) by (simp add: load_history_def results_of_def clearHistory_def)
qed

definition example_entry :: "string \<Rightarrow> jsval" where
  "example_entry i = JObj [(''id'', JStr i)]"

lemma history_is_recent_witness:
  "history (fold (upsertSearch to_str (\<lambda>_. True) (of_nat 2))
     [example_entry ''a'', example_entry ''b'', example_entry ''a'', example_entry ''c'']
     (load_history (\<lambda>_. None) None)) = [example_entry ''c'', example_entry ''a'']"
  using history_is_recent [of to_str "\<lambda>_. True" 2
      "[example_entry ''a'', example_entry ''b'', example_entry ''a'', example_entry ''c'']" "\<lambda>_. None"]
  by (simp add: recent_def example_entry_def entry_id_def numeral_2_eq_2)

lemma history_survives_reload_witness:
  "history (load_history (\<lambda>_. Some (JObj [(''results'', JArr [example_entry ''a''])]))
     (storage (upsertSearch to_str (\<lambda>_. True) (of_nat (Suc 0)) (example_entry ''a'') (load_history (\<lambda>_. None) None))))
   = [example_entry ''a'']"
  using history_survives_reload [of "\<lambda>_. True" to_str 0 "example_entry ''a''" "load_history (\<lambda>_. None) None"
      "\<lambda>_. Some (JObj [(''results'', JArr [example_entry ''a''])])"]
  by (simp add: upsert_history load_history_def history_text_def del: of_nat_Suc)

end
