(* ===== verification/Pagination.thy ===== *)
theory Pagination
  imports Prelude
begin

text \<open>
  The page buttons of a result list (ts/packages/components/src/Pagination.tsx). The number of pages
  per screen is positive. \<open>10000 / itemsPerPage\<close> need not be an integer, so the number of pages is a
  rational; \<open>Array(n)\<close> throws for anything but a natural number.
\<close>

datatype button = Page rat | Gap string

definition max_page :: "rat \<Rightarrow> rat \<Rightarrow> rat" where
  "max_page tot itemsPerPage = min (of_int \<lceil>tot / itemsPerPage\<rceil>) (10000 / itemsPerPage)"

definition first_pages :: "rat \<Rightarrow> button list res" where
  "first_pages n = (if n \<in> \<int> \<and> 0 \<le> n then Inr (map (\<lambda>e. Page (of_nat e + 1)) [0..<nat \<lfloor>n\<rfloor>])
                    else Inl (ErrorObj ''RangeError'' ''Invalid array length''))"

definition buttons :: "rat \<Rightarrow> rat \<Rightarrow> button list res" where
  "buttons page mx =
     (if page < 5 \<or> page > mx
      then map_sum id (\<lambda>ps. ps @ (if mx > 6 then [Gap ''x'', Page mx] else [])) (first_pages (min mx 5))
      else if page \<ge> 5 \<and> page \<le> mx - 4
      then Inr [Page 1, Gap ''x'', Page (page - 2), Page (page - 1), Page page, Page (page + 1),
                Page (page + 2), Gap ''y'', Page mx]
      else if page = 5 \<and> mx = 5 then Inr [Page 1, Page 2, Page 3, Page 4, Page 5]
      else Inr [Page 1, Gap ''x'', Page (mx - 4), Page (mx - 3), Page (mx - 2), Page (mx - 1), Page mx])"

text \<open>The buttons rendered: integers up to the last page, and everything else.\<close>

definition rendered :: "rat \<Rightarrow> rat \<Rightarrow> rat \<Rightarrow> button list res" where
  "rendered tot itemsPerPage page =
     (let mx = max_page tot itemsPerPage
      in map_sum id (filter (\<lambda>b. case b of Page e \<Rightarrow> (e \<in> \<int> \<longrightarrow> e \<le> mx) | Gap s \<Rightarrow> True)) (buttons page mx))"

section \<open>Which pages are offered\<close>

text \<open>For whole numbers of pages, the pages of the buttons in natural numbers.\<close>

definition nat_pages :: "nat \<Rightarrow> nat \<Rightarrow> nat list" where
  "nat_pages page mx =
     (if page < 5 \<or> page > mx then [1..<Suc (min mx 5)] @ (if mx > 6 then [mx] else [])
      else if page + 4 \<le> mx then [1, page - 2, page - 1, page, page + 1, page + 2, mx]
      else if page = 5 \<and> mx = 5 then [1, 2, 3, 4, 5]
      else [1, mx - 4, mx - 3, mx - 2, mx - 1, mx])"

definition page_set :: "button list \<Rightarrow> rat set" where
  "page_set bs = {p. Page p \<in> set bs}"

lemma page_set_simps [simp]:
  "page_set [] = {}" "page_set (Page p # bs) = insert p (page_set bs)" "page_set (Gap s # bs) = page_set bs"
  "page_set (bs @ cs) = page_set bs \<union> page_set cs"
  by (auto simp: page_set_def)

lemma page_set_first: "page_set (map (\<lambda>e. Page (of_nat e + 1)) [0..<n]) = of_nat ` set [1..<Suc n]"
proof (induction n)
  case (Suc n)
  then show ?case by (simp add: ac_simps)
qed simp

lemma first_pages_nat: "first_pages (of_nat n) = Inr (map (\<lambda>e. Page (of_nat e + 1)) [0..<n])"
  by (simp add: first_pages_def)

lemma of_nat_rat_compare:
  "(of_nat page < (5 :: rat)) = (page < 5)" "((5 :: rat) \<le> of_nat page) = (5 \<le> page)"
  "((6 :: rat) < of_nat page) = (6 < page)" "(of_nat page = (5 :: rat)) = (page = 5)"
  "(of_nat page \<le> (of_nat mx :: rat) - 4) = (page + 4 \<le> mx)"
proof -
  have "(5 :: rat) = of_nat 5" "(6 :: rat) = of_nat 6" "(4 :: rat) = of_nat 4" by simp_all
  then show "(of_nat page < (5 :: rat)) = (page < 5)" "((5 :: rat) \<le> of_nat page) = (5 \<le> page)"
    "((6 :: rat) < of_nat page) = (6 < page)" "(of_nat page = (5 :: rat)) = (page = 5)"
    by (simp_all only: of_nat_less_iff of_nat_le_iff of_nat_eq_iff)
  have "(of_nat page \<le> (of_nat mx :: rat) - 4) = (of_nat (page + 4) \<le> (of_nat mx :: rat))"
    by (simp add: le_diff_eq)
  then show "(of_nat page \<le> (of_nat mx :: rat) - 4) = (page + 4 \<le> mx)"
    by (simp only: of_nat_le_iff)
qed

lemma buttons_nat:
  "\<exists>bs. buttons (of_nat page) (of_nat mx) = Inr bs \<and> page_set bs = of_nat ` set (nat_pages page mx)"
proof -
  have m: "min (of_nat mx) 5 = (of_nat (min mx 5) :: rat)" by (simp add: min_def)
  consider "page < 5 \<or> page > mx" | "5 \<le> page" "page + 4 \<le> mx" | "page = 5" "mx = 5"
    | "5 \<le> page" "page \<le> mx" "mx < page + 4" "\<not> (page = 5 \<and> mx = 5)"
    by linarith
  then show ?thesis
  proof cases
    case 1
    then show ?thesis
      unfolding buttons_def nat_pages_def m first_pages_nat
      by (simp add: of_nat_rat_compare page_set_first image_Un del: upt_Suc set_upt)
  next
    case 2
    then show ?thesis
      by (simp add: buttons_def nat_pages_def of_nat_rat_compare of_nat_diff add.commute)
  next
    case 3
    then show ?thesis by (simp add: buttons_def nat_pages_def)
  next
    case 4
    then show ?thesis
      by (simp add: buttons_def nat_pages_def of_nat_rat_compare of_nat_diff)
  qed
qed

definition offered :: "nat \<Rightarrow> nat \<Rightarrow> nat \<Rightarrow> bool" where
  "offered page mx k = (case buttons (of_nat page) (of_nat mx) of
     Inl e \<Rightarrow> False | Inr bs \<Rightarrow> Page (of_nat k) \<in> set bs)"

lemma offered_iff: "offered page mx k \<longleftrightarrow> k \<in> set (nat_pages page mx)"
proof -
  obtain bs where bs: "buttons (of_nat page) (of_nat mx) = Inr bs" "page_set bs = of_nat ` set (nat_pages page mx)"
    using buttons_nat by blast
  have "Page (of_nat k) \<in> set bs \<longleftrightarrow> of_nat k \<in> page_set bs" by (simp add: page_set_def)
  then show ?thesis unfolding offered_def bs by (auto simp: bs(2))
qed

text \<open>The offered pages of the three kinds of lists of buttons.\<close>

lemma offered_pages:
  "page < 5 \<Longrightarrow> 1 \<le> page \<Longrightarrow> page \<le> mx \<Longrightarrow>
     offered page mx k \<longleftrightarrow> 1 \<le> k \<and> k \<le> mx \<and> (k \<le> 5 \<or> 6 < mx \<and> k = mx)"
  "5 \<le> page \<Longrightarrow> page + 4 \<le> mx \<Longrightarrow> offered page mx k \<longleftrightarrow> k = 1 \<or> page \<le> k + 2 \<and> k \<le> page + 2 \<or> k = mx"
  "5 \<le> page \<Longrightarrow> page \<le> mx \<Longrightarrow> mx < page + 4 \<Longrightarrow> offered page mx k \<longleftrightarrow> k = 1 \<or> mx \<le> k + 4 \<and> k \<le> mx"
  unfolding offered_iff nat_pages_def by (simp del: upt_Suc, arith)+

text \<open>From any page one can reach every other: the buttons of a page offer only existing pages, the
  page itself, its neighbours and the first page. The last page is offered too, except by pages 1 to
  4 of a list of exactly six pages, where it can only be reached by stepping.\<close>

theorem pagination_reachable:
  assumes "1 \<le> page" "page \<le> mx"
  shows "(\<forall>k. offered page mx k \<longrightarrow> 1 \<le> k \<and> k \<le> mx)
    \<and> offered page mx page \<and> offered page mx 1
    \<and> (page < mx \<longrightarrow> offered page mx (page + 1)) \<and> (1 < page \<longrightarrow> offered page mx (page - 1))
    \<and> (offered page mx mx \<longleftrightarrow> \<not> (mx = 6 \<and> page < 5))"
proof -
  consider "page < 5" | "5 \<le> page" "page + 4 \<le> mx" | "5 \<le> page" "mx < page + 4"
    by linarith
  then show ?thesis
  proof cases
    case 1
    show ?thesis unfolding offered_pages(1) [OF 1 assms] using assms 1 by arith
  next
    case 2
    show ?thesis unfolding offered_pages(2) [OF 2] using assms 2 by arith
  next
    case 3
    show ?thesis unfolding offered_pages(3) [OF 3(1) assms(2) 3(2)] using assms 3 by arith
  qed
qed

lemma pagination_reachable_witness: "offered 4 9 5 \<and> \<not> offered 2 6 6"
  using pagination_reachable [of 4 9] pagination_reachable [of 2 6] by simp

end
