(* ===== verification/QueryUtils.thy ===== *)
theory QueryUtils
  imports Prelude
begin

text \<open>
  Building queries: the combinators of ts/packages/components/src/utils.ts and the constructors of
  ts/packages/sdk/src/query-helpers.ts. A query is a JavaScript object; the interface
  \<open>query_semantics\<close> says which documents the objects built here select.
\<close>

section \<open>Combinators (utils.ts)\<close>

definition match_all :: jsval where
  "match_all = JObj [(''match_all'', JObj [])]"

definition match_none :: jsval where
  "match_none = JObj [(''match_none'', JObj [])]"

fun key_count :: "jsval \<Rightarrow> nat" where
  "key_count (JObj kvs) = length kvs"
| "key_count (JArr vs) = length vs"
| "key_count _ = 0"

text \<open>\<open>a && typeof a === "object" && "match_all" in a && Object.keys(a).length === 1\<close>\<close>

definition is_bare_match_all :: "jsval \<Rightarrow> bool" where
  "is_bare_match_all a \<longleftrightarrow> truthy a \<and> typeof_object a \<and> has_key a ''match_all'' \<and> key_count a = 1"

definition conjunctsFrom :: "(string, jsval) jmap option \<Rightarrow> jsval" where
  "conjunctsFrom queries =
     (case queries of
        None \<Rightarrow> match_all
      | Some [] \<Rightarrow> match_none
      | Some [(k, v)] \<Rightarrow> v
      | Some m \<Rightarrow>
          (case filter (\<lambda>a. \<not> is_bare_match_all a) (map snd m) of
             [] \<Rightarrow> match_all
           | [a] \<Rightarrow> a
           | conjuncts \<Rightarrow> JObj [(''conjuncts'', JArr conjuncts)]))"

definition disjunctsFrom :: "jsval list option \<Rightarrow> jsval" where
  "disjunctsFrom queries =
     (case queries of
        None \<Rightarrow> match_all
      | Some [] \<Rightarrow> match_none
      | Some [q] \<Rightarrow> q
      | Some qs \<Rightarrow>
          (case filter (\<lambda>a. \<not> is_bare_match_all a) qs of
             [] \<Rightarrow> match_all
           | [a] \<Rightarrow> a
           | disjuncts \<Rightarrow> JObj [(''disjuncts'', JArr disjuncts)]))"

definition term_query :: "string \<Rightarrow> string \<Rightarrow> jsval" where
  "term_query field value = JObj [(''field'', JStr field), (''match'', JStr value)]"

definition toTermQueries :: "string list \<Rightarrow> string list \<Rightarrow> jsval list" where
  "toTermQueries flds selectedValues =
     (let queries = concat (map (\<lambda>field. map (\<lambda>value. term_query field value) selectedValues) flds)
      in if queries = [] then [match_all] else queries)"

text \<open>A table override of a widget: absent, one name, or several.\<close>

datatype table_ref = NoTable | OneTable string | ManyTables "string list"

definition normalizeTable :: "table_ref \<Rightarrow> string list" where
  "normalizeTable table =
     (case table of NoTable \<Rightarrow> [] | OneTable t \<Rightarrow> (if t = [] then [] else [t]) | ManyTables ts \<Rightarrow> ts)"

definition resolveTable :: "table_ref \<Rightarrow> string \<Rightarrow> string" where
  "resolveTable widgetTable defaultTable =
     (if widgetTable = NoTable \<or> widgetTable = OneTable [] then defaultTable
      else case normalizeTable widgetTable of
             t # _ \<Rightarrow> (if t = [] then defaultTable else t)
           | [] \<Rightarrow> defaultTable)"

section \<open>URL query strings (utils.ts)\<close>

text \<open>
  The \<open>qs\<close> package is a parameter (\<open>qs_parse\<close>, \<open>qs_stringify\<close>), as are \<open>JSON.parse\<close> (None where it
  throws) and \<open>JSON.stringify\<close>.
\<close>

definition strip_question :: "string \<Rightarrow> string" where
  "strip_question s = (if starts_with s ''?'' then tl s else s)"

definition fromUrlQueryString ::
    "(string \<Rightarrow> (string \<times> jsval) list) \<Rightarrow> (string \<Rightarrow> jsval option) \<Rightarrow> string \<Rightarrow> (string, jsval) jmap" where
  "fromUrlQueryString qs_parse json_parse str =
     fold (\<lambda>(k, v) m. jmap_set m k
             (case v of JStr s \<Rightarrow> (case json_parse s of Some w \<Rightarrow> w | None \<Rightarrow> v) | _ \<Rightarrow> v))
          (qs_parse (strip_question str)) []"

definition worth_writing :: "jsval \<Rightarrow> bool" where
  "worth_writing v = (case v of JArr vs \<Rightarrow> vs \<noteq> [] | _ \<Rightarrow> truthy v)"

definition toUrlQueryString ::
    "((string \<times> string) list \<Rightarrow> string) \<Rightarrow> (jsval \<Rightarrow> string) \<Rightarrow> (string, jsval) jmap \<Rightarrow> string" where
  "toUrlQueryString qs_stringify stringify params =
     qs_stringify (obj_assign [] (map (\<lambda>(k, v). (k, stringify v)) (filter (\<lambda>(k, v). worth_writing v) params)))"

section \<open>Constructors (query-helpers.ts)\<close>

text \<open>
  An optional argument that is absent is \<open>JUndef\<close>; the objects keep such fields, as the source's do,
  and \<open>JSON.stringify\<close> drops them. \<open>fld options k\<close> is \<open>options?.k\<close>.
\<close>

abbreviation boost_or_undefined :: "jsval \<Rightarrow> jsval" where
  "boost_or_undefined boost \<equiv> coalesce boost JUndef"

definition queryString :: "string \<Rightarrow> jsval \<Rightarrow> jsval" where
  "queryString q boost = JObj [(''query'', JStr q), (''boost'', boost_or_undefined boost)]"

definition term_q :: "string \<Rightarrow> jsval \<Rightarrow> jsval \<Rightarrow> jsval" where
  "term_q t field boost = JObj [(''term'', JStr t), (''field'', field), (''boost'', boost_or_undefined boost)]"

definition match_q :: "string \<Rightarrow> jsval \<Rightarrow> jsval \<Rightarrow> jsval" where
  "match_q m field options =
     JObj [(''match'', JStr m), (''field'', field), (''analyzer'', fld options ''analyzer''),
           (''boost'', fld options ''boost''), (''prefix_length'', fld options ''prefix_length''),
           (''fuzziness'', fld options ''fuzziness''), (''operator'', fld options ''operator'')]"

definition matchPhrase :: "string \<Rightarrow> jsval \<Rightarrow> jsval \<Rightarrow> jsval" where
  "matchPhrase m field options =
     JObj [(''match_phrase'', JStr m), (''field'', field), (''analyzer'', fld options ''analyzer''),
           (''boost'', fld options ''boost''), (''fuzziness'', fld options ''fuzziness'')]"

definition prefix_q :: "string \<Rightarrow> jsval \<Rightarrow> jsval \<Rightarrow> jsval" where
  "prefix_q p field boost = JObj [(''prefix'', JStr p), (''field'', field), (''boost'', boost_or_undefined boost)]"

definition fuzzy :: "string \<Rightarrow> jsval \<Rightarrow> jsval \<Rightarrow> jsval" where
  "fuzzy t field options =
     JObj [(''term'', JStr t), (''field'', field), (''fuzziness'', fld options ''fuzziness''),
           (''prefix_length'', fld options ''prefix_length''), (''boost'', fld options ''boost'')]"

definition numericRange :: "string \<Rightarrow> jsval \<Rightarrow> jsval" where
  "numericRange field options =
     JObj [(''field'', JStr field), (''min'', fld options ''min''), (''max'', fld options ''max''),
           (''inclusive_min'', fld options ''inclusive_min''), (''inclusive_max'', fld options ''inclusive_max''),
           (''boost'', fld options ''boost'')]"

definition dateRange :: "string \<Rightarrow> jsval \<Rightarrow> jsval" where
  "dateRange field options =
     JObj [(''field'', JStr field), (''start'', fld options ''start''), (''end'', fld options ''end''),
           (''inclusive_start'', fld options ''inclusive_start''), (''inclusive_end'', fld options ''inclusive_end''),
           (''datetime_parser'', fld options ''datetime_parser''), (''boost'', fld options ''boost'')]"

definition matchAll :: "jsval \<Rightarrow> jsval" where
  "matchAll boost = JObj [(''match_all'', JObj []), (''boost'', boost_or_undefined boost)]"

definition matchNone :: "jsval \<Rightarrow> jsval" where
  "matchNone boost = JObj [(''match_none'', JObj []), (''boost'', boost_or_undefined boost)]"

definition boolean :: "jsval \<Rightarrow> jsval" where
  "boolean options =
     (let result = [(''boost'', fld options ''boost'')];
          result = (if nonempty_array (fld options ''must'')
                    then obj_put ''must'' (JObj [(''conjuncts'', fld options ''must'')]) result else result);
          result = (if nonempty_array (fld options ''should'')
                    then obj_put ''should'' (JObj [(''disjuncts'', fld options ''should''),
                                                   (''min'', fld options ''minShouldMatch'')]) result else result);
          result = (if nonempty_array (fld options ''mustNot'')
                    then obj_put ''must_not'' (JObj [(''disjuncts'', fld options ''mustNot'')]) result else result);
          result = (if truthy (fld options ''filter'')
                    then obj_put ''filter'' (fld options ''filter'') result else result)
      in JObj result)"

definition conjunction :: "jsval list \<Rightarrow> jsval" where
  "conjunction queries = JObj [(''conjuncts'', JArr queries)]"

definition disjunction :: "jsval list \<Rightarrow> jsval \<Rightarrow> jsval" where
  "disjunction queries mn = JObj [(''disjuncts'', JArr queries), (''min'', mn)]"

definition docIds :: "string list \<Rightarrow> jsval \<Rightarrow> jsval" where
  "docIds xs boost = JObj [(''ids'', JArr (map JStr xs)), (''boost'', boost_or_undefined boost)]"

definition geoDistance :: "string \<Rightarrow> jsval \<Rightarrow> string \<Rightarrow> jsval \<Rightarrow> jsval" where
  "geoDistance field location distance boost =
     JObj [(''field'', JStr field), (''location'', location), (''distance'', JStr distance),
           (''boost'', boost_or_undefined boost)]"

definition geoBoundingBox :: "string \<Rightarrow> jsval \<Rightarrow> jsval \<Rightarrow> jsval" where
  "geoBoundingBox field bounds boost =
     JObj [(''field'', JStr field), (''top_left'', fld bounds ''top_left''),
           (''bottom_right'', fld bounds ''bottom_right''), (''boost'', boost_or_undefined boost)]"

section \<open>What the queries mean\<close>

text \<open>The documented meaning of the compound queries, for a document that satisfies \<open>sat\<close>.\<close>

locale query_semantics =
  fixes sat :: "jsval \<Rightarrow> bool"
  assumes sat_match_all: "sat (JObj [(''match_all'', v)])"
    and sat_match_none: "\<not> sat (JObj [(''match_none'', v)])"
    and sat_conjuncts: "sat (JObj [(''conjuncts'', JArr qs)]) \<longleftrightarrow> (\<forall>q \<in> set qs. sat q)"
    and sat_disjuncts: "sat (JObj [(''disjuncts'', JArr qs)]) \<longleftrightarrow> (\<exists>q \<in> set qs. sat q)"
begin

lemma sat_bare: "is_bare_match_all q \<Longrightarrow> sat q"
proof (cases q)
  case (JObj kvs)
  assume "is_bare_match_all q"
  with JObj obtain v where "kvs = [(''match_all'', v)]"
    by (cases kvs) (auto simp: is_bare_match_all_def)
  with JObj show ?thesis by (simp add: sat_match_all)
qed (simp_all add: is_bare_match_all_def)

lemma conjuncts_sat:
  "sat (conjunctsFrom (Some m)) \<longleftrightarrow> m \<noteq> [] \<and> (\<forall>q \<in> snd ` set m. sat q)"
proof -
  consider "m = []" | k v where "m = [(k, v)]" | p p' m' where "m = p # p' # m'"
    by (metis list.exhaust prod.exhaust)
  then show ?thesis
  proof cases
    case 3
    define fs where "fs = filter (\<lambda>a. \<not> is_bare_match_all a) (map snd m)"
    have "conjunctsFrom (Some m) =
        (case fs of [] \<Rightarrow> match_all | [a] \<Rightarrow> a | _ \<Rightarrow> JObj [(''conjuncts'', JArr fs)])"
      unfolding conjunctsFrom_def fs_def 3 by (simp only: option.case list.case split: list.split prod.split) auto
    then have "sat (conjunctsFrom (Some m)) \<longleftrightarrow> (\<forall>q \<in> set fs. sat q)"
      by (simp add: match_all_def sat_match_all sat_conjuncts split: list.splits)
    moreover have "(\<forall>q \<in> set fs. sat q) \<longleftrightarrow> (\<forall>q \<in> snd ` set m. sat q)"
      unfolding fs_def using sat_bare by auto
    ultimately show ?thesis using 3 by simp
  qed (simp_all add: conjunctsFrom_def match_none_def sat_match_none)
qed

lemma disjuncts_sat:
  "sat (disjunctsFrom (Some qs)) \<longleftrightarrow>
     qs \<noteq> [] \<and> ((\<forall>q \<in> set qs. is_bare_match_all q) \<or> (\<exists>q \<in> set qs. \<not> is_bare_match_all q \<and> sat q))"
proof -
  consider "qs = []" | q where "qs = [q]" | q q' r where "qs = q # q' # r"
    by (metis list.exhaust)
  then show ?thesis
  proof cases
    case 2
    then show ?thesis using sat_bare [of q] by (auto simp: disjunctsFrom_def)
  next
    case 3
    define fs where "fs = filter (\<lambda>a. \<not> is_bare_match_all a) qs"
    have "disjunctsFrom (Some qs) =
        (case fs of [] \<Rightarrow> match_all | [a] \<Rightarrow> a | _ \<Rightarrow> JObj [(''disjuncts'', JArr fs)])"
      unfolding disjunctsFrom_def fs_def 3 by (simp only: option.case list.case split: list.split) auto
    then have "sat (disjunctsFrom (Some qs)) \<longleftrightarrow> fs = [] \<or> (\<exists>q \<in> set fs. sat q)"
      by (simp add: match_all_def sat_match_all sat_disjuncts split: list.splits)
    moreover have "set fs = {q \<in> set qs. \<not> is_bare_match_all q}" by (simp add: fs_def)
    moreover have "fs = [] \<longleftrightarrow> (\<forall>q \<in> set qs. is_bare_match_all q)" by (simp add: fs_def filter_empty_conv)
    ultimately show ?thesis using 3 by auto
  qed (simp add: disjunctsFrom_def match_none_def sat_match_none)
qed

end

text \<open>
  The evaluator of these objects over the meaning of the leaf queries (whether the document matches
  a field query), the instance the statements below are about.
\<close>

function query_sat :: "(jsval \<Rightarrow> bool) \<Rightarrow> jsval \<Rightarrow> bool" where
  "query_sat leaf q =
     (case q of
        JObj [(k, v)] \<Rightarrow>
          (if k = ''match_all'' then True
           else if k = ''match_none'' then False
           else case v of
                  JArr qs \<Rightarrow>
                    (if k = ''conjuncts'' then \<forall>x \<in> set qs. query_sat leaf x
                     else if k = ''disjuncts'' then \<exists>x \<in> set qs. query_sat leaf x
                     else leaf q)
                | _ \<Rightarrow> leaf q)
      | _ \<Rightarrow> leaf q)"
  by pat_completeness auto
termination
  by (relation "measure (\<lambda>(leaf, q). size q)")
     (auto dest: size_list_estimation' [where f = size, OF _ order_refl])

declare query_sat.simps [simp del]

interpretation qsat: query_semantics "query_sat leaf" for leaf
  by unfold_locales (simp_all add: query_sat.simps)


text \<open>A filter query of several widgets means all of them: for every document, the object that
  \<open>conjunctsFrom\<close> builds from a map of queries selects it exactly when the map is not empty and
  every query of the map selects it. The \<open>match_all\<close> queries the code drops change nothing.\<close>

theorem conjuncts_meaning:
  "query_sat leaf (conjunctsFrom (Some m)) \<longleftrightarrow> m \<noteq> [] \<and> (\<forall>q \<in> snd ` set m. query_sat leaf q)"
  by (rule qsat.conjuncts_sat)

theorem conjuncts_meaning_witness:
  "\<not> query_sat (\<lambda>_. False) (conjunctsFrom (Some [(''a'', match_all), (''b'', term_query ''f'' ''x'')]))"
  unfolding conjuncts_meaning by (simp add: term_query_def query_sat.simps)

text \<open>A disjunction of queries is narrower than it reads: bare \<open>match_all\<close> members are dropped,
  so next to another query they no longer select every document; the object selects a document
  exactly when one of the other queries does, or when there is nothing but \<open>match_all\<close>.\<close>

theorem disjuncts_meaning:
  "query_sat leaf (disjunctsFrom (Some qs)) \<longleftrightarrow>
     qs \<noteq> [] \<and> ((\<forall>q \<in> set qs. is_bare_match_all q)
               \<or> (\<exists>q \<in> set qs. \<not> is_bare_match_all q \<and> query_sat leaf q))"
  by (rule qsat.disjuncts_sat)

theorem disjuncts_meaning_witness:
  "\<not> query_sat (\<lambda>_. False) (disjunctsFrom (Some [match_all, term_query ''f'' ''x'']))
   \<and> query_sat (\<lambda>_. False) match_all"
  unfolding disjuncts_meaning
  by (simp add: term_query_def match_all_def is_bare_match_all_def query_sat.simps)

lemma term_query_not_bare: "\<not> is_bare_match_all (term_query f v)"
  by (simp add: term_query_def is_bare_match_all_def)

lemma term_query_sat: "query_sat leaf (term_query f v) = leaf (term_query f v)"
  by (simp add: term_query_def query_sat.simps)

lemma set_toTermQueries:
  "flds \<noteq> [] \<Longrightarrow> vals \<noteq> [] \<Longrightarrow>
     set (toTermQueries flds vals) = {term_query f v | f v. f \<in> set flds \<and> v \<in> set vals}"
  by (auto simp: toTermQueries_def Let_def)

lemma disjuncts_of_terms:
  "query_sat leaf (disjunctsFrom (Some (toTermQueries flds vals))) \<longleftrightarrow>
     flds = [] \<or> vals = [] \<or> (\<exists>f \<in> set flds. \<exists>v \<in> set vals. leaf (term_query f v))"
proof (cases "flds = [] \<or> vals = []")
  case True
  then have "toTermQueries flds vals = [match_all]"
    by (auto simp: toTermQueries_def)
  with True show ?thesis by (auto simp: disjunctsFrom_def match_all_def query_sat.simps)
next
  case False
  then have "set (toTermQueries flds vals) = {term_query f v | f v. f \<in> set flds \<and> v \<in> set vals}"
    by (simp add: set_toTermQueries)
  then have all: "\<forall>q \<in> set (toTermQueries flds vals). \<not> is_bare_match_all q"
    and some: "(\<exists>q \<in> set (toTermQueries flds vals). query_sat leaf q) \<longleftrightarrow>
      (\<exists>f \<in> set flds. \<exists>v \<in> set vals. query_sat leaf (term_query f v))"
    using term_query_not_bare by auto
  moreover have "toTermQueries flds vals \<noteq> []"
    by (auto simp: toTermQueries_def Let_def)
  ultimately show ?thesis
    using False all some unfolding qsat.disjuncts_sat term_query_sat by (metis last_in_set)
qed

section \<open>Query strings\<close>

lemma update_new: "k \<notin> fst ` set m \<Longrightarrow> AList.update k v m = m @ [(k, v)]"
  by (induction m) auto

lemma obj_assign_append:
  "distinct (map fst (kvs @ ps)) \<Longrightarrow> obj_assign kvs ps = kvs @ ps"
  by (induction kvs ps rule: obj_assign.induct) (auto simp: obj_put_def update_new)

lemma fold_jmap_set_append:
  "distinct (map fst (m @ ps)) \<Longrightarrow> fold (\<lambda>(k, v) m. jmap_set m k v) ps m = m @ ps"
  by (induction ps arbitrary: m) (auto simp: jmap_set_def update_new)

text \<open>What \<open>toUrlQueryString\<close> writes, \<open>fromUrlQueryString\<close> reads back: the same parameters in
  the same order, less those it does not write (empty arrays and falsy values), when the \<open>qs\<close>
  package returns the pairs it was given, as strings, and does not open its text with a question
  mark, and \<open>JSON.parse\<close> inverts \<open>JSON.stringify\<close> on the written values.\<close>

theorem url_round_trip:
  fixes m :: "(string, jsval) jmap" and stringify :: "jsval \<Rightarrow> string"
    and qs_stringify :: "(string \<times> string) list \<Rightarrow> string"
  defines "kvs \<equiv> map (\<lambda>(k, v). (k, stringify v)) (filter (\<lambda>(k, v). worth_writing v) m)"
  assumes ok: "jmap_ok m"
    and qs: "qs_parse (qs_stringify kvs) = map (\<lambda>(k, s). (k, JStr s)) kvs"
    and plain: "\<not> starts_with (qs_stringify kvs) ''?''"
    and json: "\<forall>v \<in> snd ` set m. worth_writing v \<longrightarrow> json_parse (stringify v) = Some v"
  shows "fromUrlQueryString qs_parse json_parse (toUrlQueryString qs_stringify stringify m)
           = filter (\<lambda>(k, v). worth_writing v) m"
proof -
  let ?w = "filter (\<lambda>(k, v). worth_writing v) m"
  have dw: "distinct (map fst ?w)"
    using jmap_ok_filter [OF ok] by (simp add: jmap_ok_def)
  have "map fst kvs = map fst ?w" by (simp add: kvs_def o_def split_def)
  with dw have "obj_assign [] kvs = kvs" using obj_assign_append [of "[]" kvs] by simp
  then have str: "toUrlQueryString qs_stringify stringify m = qs_stringify kvs"
    by (simp add: toUrlQueryString_def kvs_def)
  have "fold (\<lambda>(k, v) n. jmap_set n k
            (case v of JStr s \<Rightarrow> (case json_parse s of Some w \<Rightarrow> w | None \<Rightarrow> v) | _ \<Rightarrow> v))
          (map (\<lambda>(k, s). (k, JStr s)) kvs) [] = fold (\<lambda>(k, v) n. jmap_set n k v) ?w []"
    unfolding kvs_def fold_map o_def
    by (rule fold_cong) (use json in \<open>force simp: split_def fun_eq_iff\<close>)+
  then show ?thesis
    using fold_jmap_set_append [of "[]" ?w] dw
    by (simp add: str fromUrlQueryString_def strip_question_def plain qs)
qed

theorem url_round_trip_witness:
  "fromUrlQueryString
     (\<lambda>s. [(takeWhile (\<lambda>c. c \<noteq> CHR ''='') s, JStr (tl (dropWhile (\<lambda>c. c \<noteq> CHR ''='') s)))])
     (\<lambda>s. Some (JStr s))
     (toUrlQueryString (\<lambda>kvs. concat (map (\<lambda>(k, v). k @ ''='' @ v) kvs)) to_str
        [(''q'', JStr ''rust''), (''tags'', JArr [])]) = [(''q'', JStr ''rust'')]"
  using url_round_trip [where m = "[(''q'', JStr ''rust''), (''tags'', JArr [])]" and stringify = to_str
      and qs_stringify = "\<lambda>kvs. concat (map (\<lambda>(k, v). k @ ''='' @ v) kvs)"
      and qs_parse = "\<lambda>s. [(takeWhile (\<lambda>c. c \<noteq> CHR ''='') s, JStr (tl (dropWhile (\<lambda>c. c \<noteq> CHR ''='') s)))]"
      and json_parse = "\<lambda>s. Some (JStr s)"]
  by (simp add: worth_writing_def jmap_ok_def starts_with_def)

section \<open>Boolean queries\<close>

text \<open>\<open>boolean\<close> writes a clause exactly for the options that have one: each of the three lists
  becomes its clause when it is a non-empty array and leaves no field otherwise, the filter is
  copied when it is there, and \<open>boost\<close> is always passed on.\<close>

theorem boolean_clauses:
  "fld (boolean opts) ''must'' =
     (if nonempty_array (fld opts ''must'') then JObj [(''conjuncts'', fld opts ''must'')] else JUndef)
   \<and> fld (boolean opts) ''should'' =
     (if nonempty_array (fld opts ''should'')
      then JObj [(''disjuncts'', fld opts ''should''), (''min'', fld opts ''minShouldMatch'')] else JUndef)
   \<and> fld (boolean opts) ''must_not'' =
     (if nonempty_array (fld opts ''mustNot'') then JObj [(''disjuncts'', fld opts ''mustNot'')] else JUndef)
   \<and> fld (boolean opts) ''filter'' =
     (if truthy (fld opts ''filter'') then fld opts ''filter'' else JUndef)
   \<and> fld (boolean opts) ''boost'' = fld opts ''boost''"
  by (simp add: boolean_def Let_def)

end
