(* ===== verification/ComponentClient.thy ===== *)
theory ComponentClient
  imports SdkAgents QueryUtils
begin

text \<open>
  How the components reach the server (ts/packages/components/src/utils.ts): the module's default
  client, the multi-query of the listener and the answer stream of the hooks.
\<close>

section \<open>The default client\<close>

definition component_client :: "string \<Rightarrow> headers \<Rightarrow> antfly_client" where
  "component_client u headers = new_client \<lparr>baseUrl = u, cfg_headers = headers, auth = None\<rparr>"

text \<open>The module variable \<open>defaultClient\<close> before and after, and the client returned.\<close>

definition initializeAntflyClient ::
    "string \<Rightarrow> headers \<Rightarrow> antfly_client option \<Rightarrow> antfly_client option \<times> antfly_client" where
  "initializeAntflyClient u headers defaultClient =
     (Some (component_client u headers), component_client u headers)"

definition getAntflyClient :: "antfly_client option \<Rightarrow> antfly_client res" where
  "getAntflyClient defaultClient =
     (case defaultClient of
        None \<Rightarrow> throw_error ''AntflyClient not initialized. Call initializeAntflyClient first.''
      | Some c \<Rightarrow> Inr c)"

section \<open>Multi-queries\<close>

definition connection_failed :: "js_exn \<Rightarrow> jsval" where
  "connection_failed error =
     JObj [(''status'', JNum 500), (''took'', JNum 0),
           (''error'', JStr (case error of ErrorObj _ message \<Rightarrow> message | NonError _ \<Rightarrow> ''Connection failed''))]"

text \<open>The function never rejects: the value it resolves with, next to the module variable.\<close>

definition run_multiquery ::
    "api \<Rightarrow> (jsval \<Rightarrow> string) \<Rightarrow> antfly_client option \<Rightarrow> string \<Rightarrow> jsval list \<Rightarrow> headers \<Rightarrow>
     antfly_client option \<times> jsval" where
  "run_multiquery api stringify defaultClient u msearchData headers =
     (let (dc, client) = (case defaultClient of
            None \<Rightarrow> initializeAntflyClient u headers defaultClient
          | Some c \<Rightarrow> (defaultClient, c))
      in (dc, case multiquery api stringify client msearchData of
                Inr result \<Rightarrow> result
              | Inl error \<Rightarrow> JObj [(''responses'', JArr (map (\<lambda>_. connection_failed error) msearchData))]))"

section \<open>The answer stream\<close>

text \<open>
  The callbacks of a caller: those handed to the SDK, and the three that are called here. A handler
  returns the caller's new state and what it throws. An error is a string of the stream (NonError) or
  an Error object.
\<close>

type_synonym 'c handler = "'c \<Rightarrow> 'c \<times> js_exn option"

record 'c answer_callbacks =
  ac_base :: "'c callbacks"
  onComplete :: "'c handler option"
  onError :: "(js_exn \<Rightarrow> 'c handler) option"
  onRetrievalAgentResult :: "(jsval \<Rightarrow> 'c handler) option"

definition call_handler :: "'c handler option \<Rightarrow> 'c handler" where
  "call_handler h c = (case h of None \<Rightarrow> (c, None) | Some f \<Rightarrow> f c)"

definition then_handler :: "'c handler \<Rightarrow> 'c handler \<Rightarrow> 'c handler" where
  "then_handler f g c = (case f c of (c', None) \<Rightarrow> g c' | (c', Some e) \<Rightarrow> (c', Some e))"

definition streaming_kinds :: "sse_kind list" where
  "streaming_kinds = [Classification, Reasoning, Hit, Generation, Confidence, Followup, StepStarted, StepCompleted]"

definition shouldStream :: "'c answer_callbacks \<Rightarrow> bool" where
  "shouldStream callbacks = list_ex (has_cb (ac_base callbacks)) streaming_kinds"

text \<open>\<open>onRetrievalAgentResult?.(result); onComplete?.()\<close>\<close>

definition finish_answer :: "'c answer_callbacks \<Rightarrow> jsval \<Rightarrow> 'c handler" where
  "finish_answer callbacks result =
     then_handler (call_handler (map_option (\<lambda>f. f result) (onRetrievalAgentResult callbacks)))
                  (call_handler (onComplete callbacks))"

definition report_error :: "'c answer_callbacks \<Rightarrow> js_exn \<Rightarrow> 'c handler" where
  "report_error callbacks e = call_handler (map_option (\<lambda>f. f e) (onError callbacks))"

text \<open>The callbacks handed to the SDK.\<close>

definition sdkCallbacks :: "'c answer_callbacks \<Rightarrow> 'c callbacks" where
  "sdkCallbacks callbacks =
     \<lparr>has_cb = (\<lambda>k. k = Done \<or> k = ErrorEvent
                \<or> k \<in> set (EvalResult # streaming_kinds) \<and> has_cb (ac_base callbacks) k),
      invoke = (\<lambda>k v c.
         let (c', e) = (if k = Done then finish_answer callbacks v c
                        else if k = ErrorEvent then report_error callbacks (NonError v) c
                        else (let (c', threw) = invoke (ac_base callbacks) k v c
                              in (c', if threw then Some (NonError JUndef) else None)))
         in (c', e \<noteq> None))\<rparr>"

text \<open>
  The controller \<open>streamAnswer\<close> resolves with: a dummy one, the one of the SDK stream (with the state
  its background reader ends in, if it has callbacks), or a JSON result that has an \<open>abort\<close> field.
\<close>

datatype 'c controller = DummyController | SdkController "'c sse_state option" | ValueController jsval

definition answer_catch :: "'c answer_callbacks \<Rightarrow> js_exn \<Rightarrow> 'c handler" where
  "answer_catch callbacks error =
     (case error of
        ErrorObj name _ \<Rightarrow>
          (if name = ''AbortError'' then (\<lambda>c. (c, None)) else report_error callbacks error)
      | NonError _ \<Rightarrow>
          report_error callbacks
            (ErrorObj ''Error'' ''Unknown error occurred during retrieval agent streaming''))"

text \<open>A handler of the \<open>try\<close> block and then the dummy controller; what it throws is caught.\<close>

definition settle ::
    "'c answer_callbacks \<Rightarrow> 'c \<times> js_exn option \<Rightarrow> 'c \<times> 'c controller res" where
  "settle callbacks r =
     (case r of
        (c, None) \<Rightarrow> (c, Inr DummyController)
      | (c, Some e) \<Rightarrow>
          (case answer_catch callbacks e c of
             (c', None) \<Rightarrow> (c', Inr DummyController)
           | (c', Some e') \<Rightarrow> (c', Inl e')))"

definition streamAnswer ::
    "fetch \<Rightarrow> (jsval \<Rightarrow> string) \<Rightarrow> (string \<Rightarrow> jsval option) \<Rightarrow> string \<Rightarrow> (string \<times> jsval) list \<Rightarrow>
     headers \<Rightarrow> 'c answer_callbacks \<Rightarrow> 'c \<Rightarrow> 'c \<times> 'c controller res" where
  "streamAnswer fetch stringify json_parse u request headers callbacks c =
     (let client = component_client u headers;
          retrievalRequest = JObj (obj_put ''stream'' (JBool (shouldStream callbacks)) request);
          cbs = (if shouldStream callbacks then Some (sdkCallbacks callbacks) else None)
      in case retrievalAgent fetch stringify json_parse client retrievalRequest cbs c of
           Inl e \<Rightarrow> settle callbacks (c, Some e)
         | Inr (AgentAbort None) \<Rightarrow> (c, Inr (SdkController None))
         | Inr (AgentAbort (Some st)) \<Rightarrow> (Sse.client st, Inr (SdkController (Some st)))
         | Inr (AgentJson result) \<Rightarrow>
             if truthy result \<and> typeof_object result \<and> has_key result ''generation''
             then settle callbacks (finish_answer callbacks result c)
             else if truthy result \<and> typeof_object result \<and> has_key result ''abort''
             then (c, Inr (ValueController result))
             else settle callbacks (call_handler (onComplete callbacks) c))"

lemma json_not_abort [simp]: "map_sum id AgentJson x \<noteq> Inr (AgentAbort y)"
  by (cases x) simp_all

section \<open>Invariants of a caller of \<open>streamAnswer\<close>\<close>

text \<open>
  A predicate that all callbacks of a caller keep, and its consequence: nothing the server or the
  network does during a stream breaks it.
\<close>

locale answer_client =
  fixes cbs :: "'c answer_callbacks" and P :: "'c \<Rightarrow> bool"
  assumes base_keeps: "P c \<Longrightarrow> P (fst (invoke (ac_base cbs) k v c))"
    and complete_keeps: "onComplete cbs = Some f \<Longrightarrow> P c \<Longrightarrow> P (fst (f c))"
    and error_keeps: "onError cbs = Some g \<Longrightarrow> P c \<Longrightarrow> P (fst (g e c))"
    and result_keeps: "onRetrievalAgentResult cbs = Some g' \<Longrightarrow> P c \<Longrightarrow> P (fst (g' v c))"
begin

lemma complete_handler_keeps: "P c \<Longrightarrow> P (fst (call_handler (onComplete cbs) c))"
  by (auto simp: call_handler_def complete_keeps split: option.split)

lemma report_keeps: "P c \<Longrightarrow> P (fst (report_error cbs e c))"
  by (auto simp: report_error_def call_handler_def error_keeps split: option.split)

lemma finish_keeps:
  assumes "P c" shows "P (fst (finish_answer cbs r c))"
proof -
  let ?h = "call_handler (map_option (\<lambda>f. f r) (onRetrievalAgentResult cbs))"
  have "P (fst (?h c))"
    using assms by (auto simp: call_handler_def result_keeps split: option.split)
  then show ?thesis
    using complete_handler_keeps
    by (auto simp: finish_answer_def then_handler_def split: prod.split option.split)
qed

lemma sdk_keeps: "P c \<Longrightarrow> P (fst (invoke (sdkCallbacks cbs) k v c))"
  using finish_keeps [of c v] report_keeps [of c "NonError v"] base_keeps [of c k v]
  by (simp add: sdkCallbacks_def Let_def split_def)

lemma catch_keeps: "P c \<Longrightarrow> P (fst (answer_catch cbs e c))"
  using report_keeps by (auto simp: answer_catch_def split: js_exn.split)

lemma settle_keeps:
  assumes "P (fst r)" shows "P (fst (settle cbs r))"
proof (cases "snd r")
  case None
  with assms show ?thesis by (simp add: settle_def split_def)
next
  case (Some e)
  with assms show ?thesis
    using catch_keeps [of "fst r" e]
    by (cases "answer_catch cbs e (fst r)") (auto simp: settle_def split_def split: option.split)
qed

end

sublocale answer_client \<subseteq> stream_client "sdkCallbacks cbs" P
  by unfold_locales (rule sdk_keeps)

context answer_client begin

lemma streamAnswer_keeps:
  assumes "P c"
  shows "P (fst (streamAnswer fetch stringify json_parse u request headers cbs c))"
proof -
  have read: "P (client (snd (sse_read json_parse (sdkCallbacks cbs) ([], sse_init c) rs)))" for rs
    using assms by (intro read_keeps) (simp add: sse_init_def)
  define cs where "cs = (if shouldStream cbs then Some (sdkCallbacks cbs) else None)"
  define res where "res = retrievalAgent fetch stringify json_parse (component_client u headers)
      (JObj (obj_put ''stream'' (JBool (shouldStream cbs)) request)) cs c"
  have body: "P (client st)" if "res = Inr (AgentAbort (Some st))" for st
    using that read unfolding res_def cs_def
    by (auto simp: retrievalAgent_def performRetrievalAgent_def Let_def split: sum.splits if_splits)
  have out: "streamAnswer fetch stringify json_parse u request headers cbs c = (case res of
           Inl e \<Rightarrow> settle cbs (c, Some e)
         | Inr (AgentAbort None) \<Rightarrow> (c, Inr (SdkController None))
         | Inr (AgentAbort (Some st)) \<Rightarrow> (Sse.client st, Inr (SdkController (Some st)))
         | Inr (AgentJson result) \<Rightarrow>
             if truthy result \<and> typeof_object result \<and> has_key result ''generation''
             then settle cbs (finish_answer cbs result c)
             else if truthy result \<and> typeof_object result \<and> has_key result ''abort''
             then (c, Inr (ValueController result))
             else settle cbs (call_handler (onComplete cbs) c))"
    unfolding streamAnswer_def Let_def res_def cs_def by (rule refl)
  show ?thesis
    unfolding out
    using assms complete_handler_keeps [OF assms] finish_keeps [OF assms] body
    by (auto simp: settle_keeps split: sum.split agent_result.split option.split)
qed

end

section \<open>Properties\<close>

lemma multiquery_request:
  "multiquery api stringify c reqs =
     api_call api c ((rq ''POST'' ''/query'' [] (JStr (ndjson stringify reqs)))
                      \<lparr>rq_headers := ndjson_headers\<rparr>) ''Multi-query failed''"
  by (simp add: multiquery_def performMultiquery_def Let_def)

text \<open>The components' multi-query never rejects, and a failure has as many responses as there were
  requests: whatever the connection does, the value is the server's data, or one response of status
  500 per request that carries the message of the Error (and a fixed one for anything else thrown).
  The default client is created once and then kept.\<close>

theorem multiquery_never_rejects:
  "snd (run_multiquery api stringify dc u reqs headers) =
     (case multiquery api stringify (case dc of None \<Rightarrow> component_client u headers | Some c \<Rightarrow> c) reqs of
        Inr data \<Rightarrow> data
      | Inl (ErrorObj n m) \<Rightarrow> JObj [(''responses'', JArr (replicate (length reqs)
          (JObj [(''status'', JNum 500), (''took'', JNum 0), (''error'', JStr m)])))]
      | Inl (NonError v) \<Rightarrow> JObj [(''responses'', JArr (replicate (length reqs)
          (JObj [(''status'', JNum 500), (''took'', JNum 0), (''error'', JStr ''Connection failed'')])))])
   \<and> getAntflyClient (fst (run_multiquery api stringify dc u reqs headers))
       = Inr (case dc of None \<Rightarrow> component_client u headers | Some c \<Rightarrow> c)"
  by (cases dc)
     (simp_all add: run_multiquery_def initializeAntflyClient_def getAntflyClient_def connection_failed_def
        map_replicate_const split: sum.split js_exn.split)

end
