(* ===== verification/AnswerStream.thy ===== *)
theory AnswerStream
  imports ComponentClient
begin

text \<open>
  The hook \<open>useAnswerStream\<close> (ts/packages/components/src/hooks/useAnswerStream.ts): the state it
  accumulates from a stream, and what happens when streams are started, stopped and superseded.
\<close>

section \<open>The state of the hook\<close>

record answer_state =
  answer :: string
  reasoning :: string
  a_classification :: jsval
  a_hits :: "jsval list"
  followUpQuestions :: "jsval list"
  a_isStreaming :: bool
  a_error :: "js_exn option"

definition answer_empty :: answer_state where
  "answer_empty = \<lparr>answer = [], reasoning = [], a_classification = JNull, a_hits = [],
     followUpQuestions = [], a_isStreaming = False, a_error = None\<rparr>"

text \<open>The setters at the head of \<open>startStream\<close>, those of \<open>reset\<close>, and the callbacks.\<close>

definition start_state :: "answer_state \<Rightarrow> answer_state" where
  "start_state st = st\<lparr>answer := [], reasoning := [], a_classification := JNull, a_hits := [],
     followUpQuestions := [], a_error := None, a_isStreaming := True\<rparr>"

definition reset_state :: "answer_state \<Rightarrow> answer_state" where
  "reset_state st = st\<lparr>a_isStreaming := False, answer := [], reasoning := [], a_classification := JNull,
     a_hits := [], followUpQuestions := [], a_error := None\<rparr>"

fun answer_update :: "sse_kind \<Rightarrow> jsval \<Rightarrow> answer_state \<Rightarrow> answer_state" where
  "answer_update Classification v st = st\<lparr>a_classification := v\<rparr>"
| "answer_update Hit v st = st\<lparr>a_hits := a_hits st @ [v]\<rparr>"
| "answer_update Reasoning v st = st\<lparr>reasoning := reasoning st @ to_str v\<rparr>"
| "answer_update Generation v st = st\<lparr>answer := answer st @ to_str v\<rparr>"
| "answer_update Followup v st = st\<lparr>followUpQuestions := followUpQuestions st @ [v]\<rparr>"
| "answer_update _ v st = st"

text \<open>\<open>err instanceof Error ? err : new Error(String(err))\<close>\<close>

definition as_error :: "js_exn \<Rightarrow> js_exn" where
  "as_error e = (case e of ErrorObj n m \<Rightarrow> e | NonError v \<Rightarrow> ErrorObj ''Error'' (to_str v))"

definition answer_complete :: "answer_state \<Rightarrow> answer_state" where
  "answer_complete st = st\<lparr>a_isStreaming := False\<rparr>"

definition answer_fail :: "js_exn \<Rightarrow> answer_state \<Rightarrow> answer_state" where
  "answer_fail e st = st\<lparr>a_error := Some (as_error e), a_isStreaming := False\<rparr>"

definition answer_kinds :: "sse_kind list" where
  "answer_kinds = [Classification, Hit, Reasoning, Generation, Followup]"

definition answer_hook :: "answer_state answer_callbacks" where
  "answer_hook =
     \<lparr>ac_base = \<lparr>has_cb = (\<lambda>k. k \<in> set answer_kinds), invoke = (\<lambda>k v st. (answer_update k v st, False))\<rparr>,
      onComplete = Some (\<lambda>st. (answer_complete st, None)),
      onError = Some (\<lambda>e st. (answer_fail e st, None)),
      onRetrievalAgentResult = None\<rparr>"

text \<open>\<open>startStream\<close> with nothing to abort: the state it leads to once the stream has been read.\<close>

definition startStream ::
    "fetch \<Rightarrow> (jsval \<Rightarrow> string) \<Rightarrow> (string \<Rightarrow> jsval option) \<Rightarrow> string \<Rightarrow> (string \<times> jsval) list \<Rightarrow>
     headers \<Rightarrow> answer_state \<Rightarrow> answer_state" where
  "startStream fetch stringify json_parse u request headers st =
     (case streamAnswer fetch stringify json_parse u request headers answer_hook (start_state st) of
        (st', Inr controller) \<Rightarrow> st'
      | (st', Inl e) \<Rightarrow> answer_fail e st')"

section \<open>Several streams\<close>

text \<open>
  The hook with the streams it started, numbered from 1. An abort controller lands in the ref when its
  \<open>streamAnswer\<close> resolves; until then the stream is pending and cannot be aborted, but its body may
  already be read. The callbacks of an aborted stream are no longer called.
\<close>

record answer_sys =
  hook :: answer_state
  ctrl :: "nat option"
  aborted :: "nat list"
  pending :: "nat list"
  started :: nat

datatype hook_call = Data sse_kind jsval | Complete | Fail js_exn

fun hook_apply :: "hook_call \<Rightarrow> answer_state \<Rightarrow> answer_state" where
  "hook_apply (Data k v) st = answer_update k v st"
| "hook_apply Complete st = answer_complete st"
| "hook_apply (Fail e) st = answer_fail e st"

datatype answer_event = Start | Connected nat | Deliver nat hook_call | Stop | ResetAll

definition abort_ref :: "answer_sys \<Rightarrow> nat list" where
  "abort_ref s = (case ctrl s of None \<Rightarrow> aborted s | Some i \<Rightarrow> i # aborted s)"

fun answer_step :: "answer_event \<Rightarrow> answer_sys \<Rightarrow> answer_sys" where
  "answer_step Start s =
     s\<lparr>hook := start_state (hook s), aborted := abort_ref s,
       started := Suc (started s), pending := Suc (started s) # pending s\<rparr>"
| "answer_step (Connected i) s =
     (if i \<in> set (pending s) then s\<lparr>ctrl := Some i, pending := removeAll i (pending s)\<rparr> else s)"
| "answer_step (Deliver i call) s =
     (if i = 0 \<or> i > started s \<or> i \<in> set (aborted s) then s else s\<lparr>hook := hook_apply call (hook s)\<rparr>)"
| "answer_step Stop s =
     s\<lparr>hook := (hook s)\<lparr>a_isStreaming := False\<rparr>, aborted := abort_ref s, ctrl := None\<rparr>"
| "answer_step ResetAll s =
     s\<lparr>hook := reset_state (hook s), aborted := abort_ref s, ctrl := None\<rparr>"

definition answer_sys_init :: answer_sys where
  "answer_sys_init = \<lparr>hook = answer_empty, ctrl = None, aborted = [], pending = [], started = 0\<rparr>"

text \<open>Runs in which no stream is started while another one is still connecting.\<close>

inductive sequential :: "answer_sys \<Rightarrow> bool" where
  seq_init: "sequential answer_sys_init"
| seq_step: "sequential s \<Longrightarrow> (ev = Start \<Longrightarrow> pending s = []) \<Longrightarrow> sequential (answer_step ev s)"

section \<open>What a stream leaves behind\<close>

lemma answer_sdk [simp]:
  "has_cb (sdkCallbacks answer_hook) k \<longleftrightarrow> k \<in> {Done, ErrorEvent} \<or> k \<in> set answer_kinds"
  by (cases k) (simp_all add: sdkCallbacks_def answer_hook_def answer_kinds_def streaming_kinds_def)

interpretation answer_events: data_client "sdkCallbacks answer_hook" answer_update
proof
  fix k :: sse_kind and v c
  show "k \<noteq> Done \<Longrightarrow> k \<noteq> ErrorEvent \<Longrightarrow> has_cb (sdkCallbacks answer_hook) k \<Longrightarrow>
      invoke (sdkCallbacks answer_hook) k v c = (answer_update k v c, False)"
    by (simp add: sdkCallbacks_def answer_hook_def)
  show "k \<noteq> Done \<Longrightarrow> k \<noteq> ErrorEvent \<Longrightarrow> \<not> has_cb (sdkCallbacks answer_hook) k \<Longrightarrow>
      answer_update k v c = c"
    by (cases k) (simp_all add: answer_kinds_def)
qed

lemma answer_done:
  "invoke (sdkCallbacks answer_hook) Done v st = (answer_complete st, False)"
  by (simp add: sdkCallbacks_def answer_hook_def finish_answer_def then_handler_def call_handler_def)

lemma shouldStream_answer: "shouldStream answer_hook"
  by (simp add: shouldStream_def streaming_kinds_def answer_hook_def answer_kinds_def)

text \<open>What the events of a stream add up to.\<close>

definition collected :: "(string \<Rightarrow> jsval option) \<Rightarrow> (string \<times> string) list \<Rightarrow> answer_state \<Rightarrow> bool" where
  "collected json_parse evs st \<longleftrightarrow>
     answer st = concat (map to_str (payloads json_parse Generation evs))
     \<and> reasoning st = concat (map to_str (payloads json_parse Reasoning evs))
     \<and> a_hits st = payloads json_parse Hit evs
     \<and> followUpQuestions st = payloads json_parse Followup evs
     \<and> a_classification st = (case payloads json_parse Classification evs of [] \<Rightarrow> JNull | vs \<Rightarrow> last vs)
     \<and> a_error st = None"

lemma answer_update_parts:
  "answer (answer_update k v st) = (if k = Generation then answer st @ to_str v else answer st)"
  "reasoning (answer_update k v st) = (if k = Reasoning then reasoning st @ to_str v else reasoning st)"
  "a_hits (answer_update k v st) = (if k = Hit then a_hits st @ [v] else a_hits st)"
  "followUpQuestions (answer_update k v st) =
     (if k = Followup then followUpQuestions st @ [v] else followUpQuestions st)"
  "a_classification (answer_update k v st) = (if k = Classification then v else a_classification st)"
  "a_error (answer_update k v st) = a_error st"
  "a_isStreaming (answer_update k v st) = a_isStreaming st"
  by (cases k; simp)+

lemma fold_answer:
  fixes json_parse :: "string \<Rightarrow> jsval option" and evs :: "(string \<times> string) list"
  defines "run \<equiv> fold (apply_event answer_update json_parse) evs"
  shows "answer (run st) = answer st @ concat (map to_str (payloads json_parse Generation evs))"
    and "reasoning (run st) = reasoning st @ concat (map to_str (payloads json_parse Reasoning evs))"
    and "a_hits (run st) = a_hits st @ payloads json_parse Hit evs"
    and "followUpQuestions (run st) = followUpQuestions st @ payloads json_parse Followup evs"
    and "a_classification (run st) = last (a_classification st # payloads json_parse Classification evs)"
    and "a_error (run st) = a_error st"
    and "a_isStreaming (run st) = a_isStreaming st"
  unfolding run_def
  using fold_events_view [where view = answer and update = answer_update and K = Generation
      and f = "\<lambda>a v. a @ to_str v"]
    fold_events_view [where view = reasoning and update = answer_update and K = Reasoning
      and f = "\<lambda>a v. a @ to_str v"]
    fold_events_view [where view = a_hits and update = answer_update and K = Hit and f = "\<lambda>a v. a @ [v]"]
    fold_events_view [where view = followUpQuestions and update = answer_update and K = Followup
      and f = "\<lambda>a v. a @ [v]"]
    fold_events_view [where view = a_classification and update = answer_update and K = Classification
      and f = "\<lambda>a v. v"]
    fold_events_fixed [where view = a_error and update = answer_update]
    fold_events_fixed [where view = a_isStreaming and update = answer_update]
  by (simp_all add: answer_update_parts foldl_append_strings foldl_collect foldl_last)

lemma collected_run:
  "collected json_parse evs (fold (apply_event answer_update json_parse) evs (start_state st))
   \<and> a_isStreaming (fold (apply_event answer_update json_parse) evs (start_state st))"
  by (auto simp: collected_def fold_answer start_state_def split: list.split)


text \<open>A server that answers the retrieval request with an event stream.\<close>

definition streams :: "fetch \<Rightarrow> string \<Rightarrow> read_result list \<Rightarrow> bool" where
  "streams fetch u reads \<longleftrightarrow>
     (\<forall>req. hr_url req = u @ ''/agents/retrieval'' \<and> hr_method req = ''POST'' \<longrightarrow>
        (\<exists>r. fetch req = Inr r \<and> rs_ok r \<and> \<not> rs_body_null r \<and> rs_reads r = reads
           \<and> rs_content_type r = Some ''text/event-stream''))"

lemma startStream_reads:
  assumes "streams fetch u reads"
  shows "startStream fetch stringify json_parse u request headers st =
    client (snd (sse_read json_parse (sdkCallbacks answer_hook) ([], sse_init (start_state st)) reads))"
proof -
  let ?c = "component_client u headers"
  let ?req = "\<lparr>hr_url = baseUrl (cl_config ?c) @ ''/agents/retrieval'', hr_method = ''POST'',
      hr_headers = direct_headers (cl_config ?c) ''text/event-stream, application/json'',
      hr_body = stringify (JObj (obj_put ''stream'' (JBool True) request))\<rparr>"
  have "baseUrl (cl_config ?c) = u" by (simp add: component_client_def new_client_def)
  then obtain r where r: "fetch ?req = Inr r" "rs_ok r" "\<not> rs_body_null r" "rs_reads r = reads"
      "rs_content_type r = Some ''text/event-stream''"
    using assms unfolding streams_def by (elim allE [of _ ?req]) auto
  have ct: "\<not> str_includes ''text/event-stream'' ''application/json''"
    by (simp add: str_includes_def)
  show ?thesis
    using r ct shouldStream_answer
    by (simp add: startStream_def streamAnswer_def retrievalAgent_def performRetrievalAgent_def
        check_response_def Let_def)
qed

lemma sse_read_chunks_append:
  "sse_read json_parse cbs bs (map Chunk cs @ rs) =
     sse_read json_parse cbs (sse_read json_parse cbs bs (map Chunk cs)) rs"
  by (induction cs arbitrary: bs) simp_all

lemma client_reader_error: "client (reader_error e st) = client st"
  by (simp add: reader_error_def split: js_exn.split)

text \<open>C7. An answer stream that ends with a done event leaves the hook with exactly what the server sent,
  however the network cut it: the answer and the reasoning are the concatenated chunks, the hits and
  follow-up questions are the sent ones in order, the classification is the last one, there is no
  error and the hook is no longer streaming.\<close>

theorem answer_stream_collects:
  assumes server: "streams fetch u (map Chunk cs)" "concat cs = sse_encode (evs @ [(''done'', d)])"
    and clean: "\<forall>e \<in> set (evs @ [(''done'', d)]). clean_event e"
    and data: "\<forall>e \<in> set evs. data_event e" and parsed: "json_parse d \<noteq> None"
  shows "collected json_parse evs (startStream fetch stringify json_parse u request headers st)
    \<and> \<not> a_isStreaming (startStream fetch stringify json_parse u request headers st)"
proof -
  let ?s = "start_state st"
  obtain st' where st': "deliver json_parse (sdkCallbacks answer_hook) (sse_init ?s) (evs @ [(''done'', d)])
      = deliver json_parse (sdkCallbacks answer_hook) st' [(''done'', d)]"
    "phase st' = Reading" "client st' = fold (apply_event answer_update json_parse) evs ?s"
    using answer_events.deliver_data [OF data, of "sse_init ?s" json_parse "[(''done'', d)]"]
    by (auto simp: sse_init_def)
  have "client (deliver json_parse (sdkCallbacks answer_hook) st' [(''done'', d)]) = answer_complete (client st')"
    using parsed by (auto simp: dispatch_event_def kind_of_event_def call_parsed_def answer_done Let_def)
  then have "startStream fetch stringify json_parse u request headers st =
      answer_complete (fold (apply_event answer_update json_parse) evs ?s)"
    unfolding startStream_reads [OF server(1)] sse_read_encoded [OF clean server(2)] st' by (simp add: st'(3))
  then show ?thesis
    using collected_run [of json_parse evs st] by (simp add: collected_def answer_complete_def)
qed

text \<open>A stream that ends without a done or error event (the connection drops, or the server closes
  early) leaves the hook streaming for ever: what was received is there, there is no error, and
  nothing ever ends the streaming state.\<close>

theorem answer_stream_dropped:
  assumes server: "streams fetch u (map Chunk cs @ tail)" "tail = [] \<or> tail = [ReadFails e]"
    and body: "concat cs = sse_encode evs" "\<forall>e \<in> set evs. clean_event e" "\<forall>e \<in> set evs. data_event e"
  shows "collected json_parse evs (startStream fetch stringify json_parse u request headers st)
    \<and> a_isStreaming (startStream fetch stringify json_parse u request headers st)"
proof -
  let ?s = "start_state st" and ?cbs = "sdkCallbacks answer_hook"
  obtain b st' where read: "sse_read json_parse ?cbs ([], sse_init ?s) (map Chunk cs) = (b, st')" by force
  have "st' = deliver json_parse ?cbs (sse_init ?s) evs"
    using sse_read_encoded [OF body(2,1), of json_parse ?cbs ?s] read by simp
  then have "client st' = fold (apply_event answer_update json_parse) evs ?s"
    using answer_events.deliver_data [OF body(3), of "sse_init ?s" json_parse "[]"]
    by (auto simp: sse_init_def)
  moreover have "startStream fetch stringify json_parse u request headers st = client st'"
    unfolding startStream_reads [OF server(1)] sse_read_chunks_append read
    using server(2) by (auto simp: client_reader_error)
  ultimately show ?thesis using collected_run [of json_parse evs st] by simp
qed

text \<open>A request that fails is reported, except an aborted one: when \<open>fetch\<close> rejects, the hook stops
  streaming with the Error (or a fixed one for anything else thrown), but after an AbortError it
  keeps streaming without an error.\<close>

theorem answer_request_fails:
  assumes "\<forall>req. fetch req = Inl e"
  shows "startStream fetch stringify json_parse u request headers st =
    (case e of
       ErrorObj n m \<Rightarrow> if n = ''AbortError'' then start_state st else answer_fail e (start_state st)
     | NonError v \<Rightarrow> answer_fail
         (ErrorObj ''Error'' ''Unknown error occurred during retrieval agent streaming'') (start_state st))"
  using assms
  by (simp add: startStream_def streamAnswer_def retrievalAgent_def performRetrievalAgent_def Let_def
      settle_def answer_catch_def report_error_def call_handler_def answer_hook_def split: js_exn.split)

section \<open>Superseded streams\<close>

lemma sequential_inv:
  "sequential s \<Longrightarrow>
     (\<forall>i. 0 < i \<and> i < started s \<longrightarrow> i \<in> set (aborted s))
     \<and> set (pending s) \<subseteq> {started s}
     \<and> (0 < started s \<longrightarrow> ctrl s = Some (started s) \<or> started s \<in> set (aborted s) \<or> started s \<in> set (pending s))"
proof (induction rule: sequential.induct)
  case (seq_step s ev)
  then show ?case
    by (cases ev) (auto simp: abort_ref_def less_Suc_eq split: option.split)
qed (simp add: answer_sys_init_def)

text \<open>A superseded stream is silent, when streams are started one after the other: in every run in
  which no stream is started while another is still connecting, whatever is stopped, reset or
  delivered, a callback of any stream but the last one started changes nothing.\<close>

theorem superseded_stream_silent:
  assumes "sequential s" "i \<noteq> started s"
  shows "answer_step (Deliver i call) s = s"
  using sequential_inv [OF assms(1)] assms(2) by auto

text \<open>Without that, answers mix: two quick starts leave the first stream unaborted (its controller is
  not known yet, and is overwritten later), so its chunks go into the answer of the second, and its
  end ends the streaming state of the second.\<close>

theorem quick_restart_mixes_answers:
  "answer (hook (fold answer_step
      [Start, Start, Connected 1, Connected 2, Deliver 1 (Data Generation a), Deliver 2 (Data Generation b)]
      answer_sys_init)) = to_str a @ to_str b
   \<and> a_isStreaming (hook (fold answer_step [Start, Start, Connected 1, Connected 2] answer_sys_init))
   \<and> \<not> a_isStreaming (hook (fold answer_step
        [Start, Start, Connected 1, Connected 2, Deliver 1 Complete] answer_sys_init))"
  by (simp add: answer_sys_init_def abort_ref_def start_state_def answer_complete_def)

section \<open>Witnesses\<close>

definition stream_server :: "string \<Rightarrow> read_result list \<Rightarrow> fetch" where
  "stream_server u reads req = (if hr_url req = u @ ''/agents/retrieval'' then
     Inr \<lparr>rs_ok = True, rs_status = 200, rs_text = Inr [], rs_body_null = False,
          rs_content_type = Some ''text/event-stream'', rs_json = Inr JNull, rs_reads = reads\<rparr>
     else Inl (ErrorObj ''TypeError'' ''no route''))"

lemma streams_server: "streams (stream_server u reads) u reads"
  by (simp add: streams_def stream_server_def)

definition two_chunks :: "(string \<times> string) list" where
  "two_chunks = [(''generation'', ''a''), (''hit'', ''h''), (''generation'', ''b'')]"

lemma two_chunks_events: "\<forall>e \<in> set two_chunks. clean_event e" "\<forall>e \<in> set two_chunks. data_event e"
  by (simp_all add: two_chunks_def clean_event_def data_event_def kind_of_event_def trim_def is_ws_def)

lemma answer_stream_collects_witness:
  "answer (startStream (stream_server ''u'' (map Chunk [sse_encode (two_chunks @ [(''done'', ''x'')])])) to_str
     (\<lambda>s. Some (JStr s)) ''u'' [] [] answer_empty) = ''ab''"
proof -
  have "\<forall>e \<in> set (two_chunks @ [(''done'', ''x'')]). clean_event e"
    using two_chunks_events(1) by (simp add: clean_event_def trim_def is_ws_def)
  from answer_stream_collects [OF streams_server _ this two_chunks_events(2), of "[sse_encode (two_chunks @ [(''done'', ''x'')])]"
      "\<lambda>s. Some (JStr s)" "''u''" to_str "[]" "[]" answer_empty]
  show ?thesis by (simp add: collected_def two_chunks_def kind_of_event_def)
qed

lemma answer_stream_dropped_witness:
  "a_isStreaming (startStream (stream_server ''u'' (map Chunk [sse_encode two_chunks]
      @ [ReadFails (ErrorObj ''TypeError'' ''network error'')])) to_str
     (\<lambda>s. Some (JStr s)) ''u'' [] [] answer_empty)"
  using answer_stream_dropped [OF streams_server, of "[ReadFails (ErrorObj ''TypeError'' ''network error'')]"
      "ErrorObj ''TypeError'' ''network error''" "[sse_encode two_chunks]" two_chunks "\<lambda>s. Some (JStr s)"
      "''u''" to_str "[]" "[]" answer_empty] two_chunks_events
  by simp

lemma answer_request_fails_witness:
  "a_error (startStream (\<lambda>_. Inl (ErrorObj ''TypeError'' ''Failed to fetch'')) to_str (\<lambda>s. Some (JStr s))
     ''u'' [] [] answer_empty) = Some (ErrorObj ''TypeError'' ''Failed to fetch'')"
  using answer_request_fails [of "\<lambda>_. Inl (ErrorObj ''TypeError'' ''Failed to fetch'')"
      "ErrorObj ''TypeError'' ''Failed to fetch''" to_str "\<lambda>s. Some (JStr s)" "''u''" "[]" "[]" answer_empty]
  by (simp add: answer_fail_def as_error_def)

lemma superseded_stream_silent_witness:
  "answer_step (Deliver 1 (Data Generation (JStr ''late'')))
     (answer_step Start (answer_step (Connected 1) (answer_step Start answer_sys_init)))
   = answer_step Start (answer_step (Connected 1) (answer_step Start answer_sys_init))"
proof (rule superseded_stream_silent)
  show "sequential (answer_step Start (answer_step (Connected 1) (answer_step Start answer_sys_init)))"
    by (intro sequential.intros) (simp_all add: answer_sys_init_def)
qed (simp add: answer_sys_init_def)

end
