(* ===== verification/ChatStream.thy ===== *)
theory ChatStream
  imports ComponentClient
begin

text \<open>
  The hook \<open>useChatStream\<close> (ts/packages/components/src/hooks/useChatStream.ts): a conversation is a
  list of turns; each message starts a stream whose callbacks update the turn of that message. The
  updaters of a turn run when the component renders, so what one throws (a property of a null result
  or of a null step is read) is not caught by the hook: the render throws. \<open>c_thrown\<close> records it.
\<close>

section \<open>Turns\<close>

record chat_turn =
  t_id :: string
  userMessage :: string
  assistantMessage :: string
  t_hits :: "jsval list"
  t_followUps :: "jsval list"
  t_classification :: jsval
  t_confidence :: jsval
  t_clarification :: jsval
  appliedFilters :: "jsval list"
  reasoningText :: string
  t_steps :: "jsval list"
  activeSteps :: "jsval list"
  toolCallsMade :: rat
  t_error :: "string option"
  t_isStreaming :: bool

definition turn_key :: "nat \<Rightarrow> string" where
  "turn_key n = ''turn-'' @ show_nat n"

definition new_turn :: "nat \<Rightarrow> string \<Rightarrow> chat_turn" where
  "new_turn n message = \<lparr>t_id = turn_key n, userMessage = message, assistantMessage = [], t_hits = [],
     t_followUps = [], t_classification = JNull, t_confidence = JNull, t_clarification = JNull,
     appliedFilters = [], reasoningText = [], t_steps = [], activeSteps = [], toolCallsMade = 0,
     t_error = None, t_isStreaming = True\<rparr>"

fun turn_update :: "sse_kind \<Rightarrow> jsval \<Rightarrow> chat_turn \<Rightarrow> chat_turn res" where
  "turn_update Classification v t = Inr (t\<lparr>t_classification := v\<rparr>)"
| "turn_update Hit v t = Inr (t\<lparr>t_hits := t_hits t @ [v]\<rparr>)"
| "turn_update Reasoning v t = Inr (t\<lparr>reasoningText := reasoningText t @ to_str v\<rparr>)"
| "turn_update StepStarted v t = Inr (t\<lparr>activeSteps := activeSteps t @ [v]\<rparr>)"
| "turn_update StepCompleted v t =
     (if activeSteps t \<noteq> [] \<and> (nullish v \<or> list_ex nullish (activeSteps t)) then throw_type_error
      else Inr (t\<lparr>t_steps := t_steps t @ [v],
                  activeSteps := filter (\<lambda>s. fld s ''id'' \<noteq> fld v ''id'') (activeSteps t),
                  toolCallsMade := toolCallsMade t + 1\<rparr>))"
| "turn_update Generation v t = Inr (t\<lparr>assistantMessage := assistantMessage t @ to_str v\<rparr>)"
| "turn_update Confidence v t = Inr (t\<lparr>t_confidence := v\<rparr>)"
| "turn_update Followup v t = Inr (t\<lparr>t_followUps := t_followUps t @ [v]\<rparr>)"
| "turn_update _ v t = Inr t"

text \<open>\<open>v || []\<close> of a field that holds an array.\<close>

fun array_or_empty :: "jsval \<Rightarrow> jsval list" where
  "array_or_empty (JArr vs) = vs"
| "array_or_empty _ = []"

definition turn_complete :: "chat_turn \<Rightarrow> chat_turn res" where
  "turn_complete t = Inr (t\<lparr>t_isStreaming := False\<rparr>)"

definition error_text :: "js_exn \<Rightarrow> string" where
  "error_text e = (case e of ErrorObj _ m \<Rightarrow> m | NonError v \<Rightarrow> to_str v)"

definition turn_fail :: "js_exn \<Rightarrow> chat_turn \<Rightarrow> chat_turn res" where
  "turn_fail e t = Inr (t\<lparr>t_error := Some (error_text e), t_isStreaming := False\<rparr>)"

definition turn_result :: "jsval \<Rightarrow> chat_turn \<Rightarrow> chat_turn res" where
  "turn_result r t =
     (if nullish r then throw_type_error else Inr (
     t\<lparr>assistantMessage := to_str (js_or (fld r ''generation'') (JStr [])),
       t_hits := array_or_empty (fld r ''hits''),
       t_followUps := array_or_empty (fld r ''followup_questions''),
       t_classification := js_or (fld r ''classification'') JNull,
       t_clarification := js_or (elem_at (fld r ''questions'') 0) JNull,
       appliedFilters := array_or_empty (fld r ''applied_filters''),
       t_steps := (if truthy (fld r ''steps'') then array_or_empty (fld r ''steps'') else t_steps t),
       toolCallsMade := (case fld r ''tool_calls_made'' of JNum n \<Rightarrow> n | _ \<Rightarrow> toolCallsMade t),
       activeSteps := [],
       t_confidence := (if fld r ''generation_confidence'' \<noteq> JUndef \<and> fld r ''context_relevance'' \<noteq> JUndef
          then JObj [(''generation_confidence'', fld r ''generation_confidence''),
                     (''context_relevance'', fld r ''context_relevance'')]
          else JNull),
       t_isStreaming := False\<rparr>))"

section \<open>The state of the hook and the callbacks of a turn\<close>

record chat_state =
  turns :: "chat_turn list"
  c_isStreaming :: bool
  c_thrown :: bool

text \<open>What an updater makes of a turn, which stays as it is when the updater throws.\<close>

definition updated :: "(chat_turn \<Rightarrow> chat_turn res) \<Rightarrow> chat_turn \<Rightarrow> chat_turn" where
  "updated f t = (case f t of Inl e \<Rightarrow> t | Inr t' \<Rightarrow> t')"

text \<open>The ids of the turns differ, so an updater runs on one turn at most.\<close>

definition updateTurn :: "string \<Rightarrow> (chat_turn \<Rightarrow> chat_turn res) \<Rightarrow> chat_state \<Rightarrow> chat_state" where
  "updateTurn turnId updater st =
     st\<lparr>turns := map (\<lambda>t. if t_id t = turnId then updated updater t else t) (turns st),
        c_thrown := (c_thrown st \<or> list_ex (\<lambda>t. t_id t = turnId \<and> isl (updater t)) (turns st))\<rparr>"

definition chat_complete :: "string \<Rightarrow> chat_state \<Rightarrow> chat_state" where
  "chat_complete i st = (updateTurn i turn_complete st)\<lparr>c_isStreaming := False\<rparr>"

definition chat_fail :: "string \<Rightarrow> js_exn \<Rightarrow> chat_state \<Rightarrow> chat_state" where
  "chat_fail i e st = (updateTurn i (turn_fail e) st)\<lparr>c_isStreaming := False\<rparr>"

definition chat_result :: "string \<Rightarrow> jsval \<Rightarrow> chat_state \<Rightarrow> chat_state" where
  "chat_result i r st = (updateTurn i (turn_result r) st)\<lparr>c_isStreaming := False\<rparr>"

definition chat_kinds :: "sse_kind list" where
  "chat_kinds = [Classification, Hit, Reasoning, StepStarted, StepCompleted, Generation, Confidence, Followup]"

definition chat_hook :: "string \<Rightarrow> chat_state answer_callbacks" where
  "chat_hook i =
     \<lparr>ac_base = \<lparr>has_cb = (\<lambda>k. k \<in> set chat_kinds),
                 invoke = (\<lambda>k v st. (updateTurn i (turn_update k v) st, False))\<rparr>,
      onComplete = Some (\<lambda>st. (chat_complete i st, None)),
      onError = Some (\<lambda>e st. (chat_fail i e st, None)),
      onRetrievalAgentResult = Some (\<lambda>r st. (chat_result i r st, None))\<rparr>"

section \<open>The request of a message\<close>

record chat_stream_config =
  cs_url :: string
  cs_headers :: "headers option"
  cs_generator :: jsval
  cs_table :: string
  cs_semanticIndexes :: "string list option"
  cs_agentKnowledge :: "string option"
  cs_systemPrompt :: "string option"
  cs_maxInternalIterations :: "rat option"
  cs_followUpCount :: "rat option"
  cs_limit :: "rat option"
  cs_steps :: jsval
  cs_tools :: jsval
  cs_fields :: "string list option"
  cs_filterQuery :: jsval
  cs_exclusionQuery :: jsval

text \<open>\<open>...(c ? { k: v } : {})\<close>\<close>

definition spread_if :: "string \<Rightarrow> jsval \<Rightarrow> bool \<Rightarrow> (string \<times> jsval) list" where
  "spread_if k v c = (if c then [(k, v)] else [])"

definition history_messages :: "chat_turn list \<Rightarrow> jsval list" where
  "history_messages currentTurns = concat (map (\<lambda>turn.
     chat_message ''user'' (userMessage turn)
     # (if assistantMessage turn \<noteq> [] then [chat_message ''assistant'' (assistantMessage turn)] else [])) currentTurns)"

definition default_steps :: "chat_stream_config \<Rightarrow> jsval" where
  "default_steps cfg = JObj
     ([(''generation'', JObj ([(''enabled'', JBool True)]
          @ spread_if ''system_prompt'' (opt_str (cs_systemPrompt cfg)) (truthy (opt_str (cs_systemPrompt cfg))))),
       (''classification'', JObj [(''enabled'', JBool True)]),
       (''followup'', JObj ([(''enabled'', JBool True)]
          @ spread_if ''count'' (opt_num (cs_followUpCount cfg)) (truthy (opt_num (cs_followUpCount cfg))))),
       (''confidence'', JObj [(''enabled'', JBool True)])]
      @ spread_if ''tools'' (cs_tools cfg) (truthy (cs_tools cfg)))"

definition message_request :: "string \<Rightarrow> chat_stream_config \<Rightarrow> jsval list \<Rightarrow> (string \<times> jsval) list" where
  "message_request message cfg messages =
     [(''query'', JStr message)]
     @ spread_if ''generator'' (cs_generator cfg) (truthy (cs_generator cfg))
     @ [(''agent_knowledge'', opt_str (cs_agentKnowledge cfg)),
        (''stream'', JBool True),
        (''messages'', JArr messages),
        (''queries'', JArr [JObj
           ([(''table'', JStr (cs_table cfg)), (''semantic_search'', JStr message)]
            @ spread_if ''indexes'' (opt_strs (cs_semanticIndexes cfg)) (nonempty_array (opt_strs (cs_semanticIndexes cfg)))
            @ spread_if ''fields'' (opt_strs (cs_fields cfg)) (nonempty_array (opt_strs (cs_fields cfg)))
            @ spread_if ''filter_query'' (cs_filterQuery cfg) (truthy (cs_filterQuery cfg))
            @ spread_if ''exclusion_query'' (cs_exclusionQuery cfg) (truthy (cs_exclusionQuery cfg))
            @ [(''limit'', coalesce (opt_num (cs_limit cfg)) (JNum 10))])]),
        (''steps'', coalesce (cs_steps cfg) (default_steps cfg))]
     @ spread_if ''max_internal_iterations'' (opt_num (cs_maxInternalIterations cfg))
         (truthy (opt_num (cs_maxInternalIterations cfg)))"

section \<open>Sending a message\<close>

definition add_turn :: "nat \<Rightarrow> string \<Rightarrow> chat_state \<Rightarrow> chat_state" where
  "add_turn n message st = st\<lparr>turns := turns st @ [new_turn n message], c_isStreaming := True\<rparr>"

text \<open>\<open>sendMessage\<close> as the \<open>n\<close>-th message, with nothing to abort, up to the end of its stream.\<close>

definition sendMessage ::
    "fetch \<Rightarrow> (jsval \<Rightarrow> string) \<Rightarrow> (string \<Rightarrow> jsval option) \<Rightarrow> nat \<Rightarrow> string \<Rightarrow> chat_stream_config \<Rightarrow>
     chat_turn list \<Rightarrow> chat_state \<Rightarrow> chat_state" where
  "sendMessage fetch stringify json_parse n message cfg turnsRef st =
     (let request = message_request message cfg (history_messages turnsRef);
          headers = (case cs_headers cfg of None \<Rightarrow> [] | Some hs \<Rightarrow> hs)
      in case streamAnswer fetch stringify json_parse (cs_url cfg) request headers
                (chat_hook (turn_key n)) (add_turn n message st) of
           (st', Inr controller) \<Rightarrow> st'
         | (st', Inl e) \<Rightarrow> chat_fail (turn_key n) e st')"

section \<open>Several streams\<close>

text \<open>
  The hook with its streams, as for the answer stream; \<open>turnsRef\<close> is what the last render left for the
  next request. Stream \<open>n\<close> belongs to the turn of the \<open>n\<close>-th message.
\<close>

record chat_sys =
  chat :: chat_state
  turnsRef :: "chat_turn list"
  c_ctrl :: "nat option"
  c_aborted :: "nat list"
  c_pending :: "nat list"
  nextTurnId :: nat

datatype chat_call = CData sse_kind jsval | CResult jsval | CComplete | CFail js_exn

fun chat_apply :: "string \<Rightarrow> chat_call \<Rightarrow> chat_state \<Rightarrow> chat_state" where
  "chat_apply i (CData k v) st = updateTurn i (turn_update k v) st"
| "chat_apply i (CResult r) st = chat_result i r st"
| "chat_apply i CComplete st = chat_complete i st"
| "chat_apply i (CFail e) st = chat_fail i e st"

datatype chat_event = Send string | Rendered | CConnected nat | CDeliver nat chat_call | Abort | ResetChat

definition abort_ctrl :: "chat_sys \<Rightarrow> nat list" where
  "abort_ctrl s = (case c_ctrl s of None \<Rightarrow> c_aborted s | Some i \<Rightarrow> i # c_aborted s)"

definition abort_chat :: "chat_sys \<Rightarrow> chat_sys" where
  "abort_chat s = s\<lparr>chat := (chat s)\<lparr>turns := map (\<lambda>t. if t_isStreaming t then t\<lparr>t_isStreaming := False\<rparr> else t)
                                             (turns (chat s)), c_isStreaming := False\<rparr>,
                    c_aborted := abort_ctrl s, c_ctrl := None\<rparr>"

fun chat_step :: "chat_event \<Rightarrow> chat_sys \<Rightarrow> chat_sys" where
  "chat_step (Send message) s =
     s\<lparr>chat := add_turn (Suc (nextTurnId s)) message (chat s), c_aborted := abort_ctrl s,
       nextTurnId := Suc (nextTurnId s), c_pending := Suc (nextTurnId s) # c_pending s\<rparr>"
| "chat_step Rendered s = s\<lparr>turnsRef := turns (chat s)\<rparr>"
| "chat_step (CConnected n) s =
     (if n \<in> set (c_pending s) then s\<lparr>c_ctrl := Some n, c_pending := removeAll n (c_pending s)\<rparr> else s)"
| "chat_step (CDeliver n call) s =
     (if n = 0 \<or> n > nextTurnId s \<or> n \<in> set (c_aborted s) then s
      else s\<lparr>chat := chat_apply (turn_key n) call (chat s)\<rparr>)"
| "chat_step Abort s = abort_chat s"
| "chat_step ResetChat s =
     (let s' = abort_chat s in s'\<lparr>chat := (chat s')\<lparr>turns := []\<rparr>\<rparr>)"

definition chat_sys_init :: chat_sys where
  "chat_sys_init = \<lparr>chat = \<lparr>turns = [], c_isStreaming = False, c_thrown = False\<rparr>, turnsRef = [], c_ctrl = None,
     c_aborted = [], c_pending = [], nextTurnId = 0\<rparr>"

text \<open>The request the next \<open>sendMessage\<close> sends.\<close>

definition next_request :: "string \<Rightarrow> chat_stream_config \<Rightarrow> chat_sys \<Rightarrow> (string \<times> jsval) list" where
  "next_request message cfg s = message_request message cfg (history_messages (turnsRef s))"


section \<open>Looking at one turn\<close>

definition turn_in :: "chat_turn list \<Rightarrow> string \<Rightarrow> chat_turn option" where
  "turn_in ts i = find (\<lambda>t. t_id t = i) ts"

definition turn_at :: "chat_sys \<Rightarrow> string \<Rightarrow> chat_turn option" where
  "turn_at s i = turn_in (turns (chat s)) i"

lemma turn_key_inject [simp]: "turn_key m = turn_key n \<longleftrightarrow> m = n"
  by (simp add: turn_key_def)

lemma turn_in_id: "turn_in ts i = Some t \<Longrightarrow> t_id t = i"
  by (auto simp: turn_in_def find_Some_iff)

lemma turn_in_update:
  "(\<And>t. t_id (f t) = t_id t) \<Longrightarrow>
     turn_in (map (\<lambda>t. if t_id t = j then f t else t) ts) i
       = (if i = j then map_option f (turn_in ts i) else turn_in ts i)"
  by (induction ts) (auto simp: turn_in_def)

lemma turn_in_append: "turn_in (ts @ us) i = (case turn_in ts i of None \<Rightarrow> turn_in us i | Some t \<Rightarrow> Some t)"
  by (induction ts) (auto simp: turn_in_def)

lemma updated_total [simp]:
  "updated turn_complete t = t\<lparr>t_isStreaming := False\<rparr>"
  "updated (turn_fail e) t = t\<lparr>t_error := Some (error_text e), t_isStreaming := False\<rparr>"
  by (simp_all add: updated_def turn_complete_def turn_fail_def)

lemma turn_id_update [simp]:
  "t_id (updated (turn_update k v) t) = t_id t" "t_id (updated (turn_result r) t) = t_id t"
  by (cases k; simp add: updated_def) (simp add: updated_def turn_result_def)

lemma turn_message_update [simp]:
  "userMessage (updated (turn_update k v) t) = userMessage t" "userMessage (updated (turn_result r) t) = userMessage t"
  by (cases k; simp add: updated_def) (simp add: updated_def turn_result_def)

fun call_update :: "chat_call \<Rightarrow> chat_turn \<Rightarrow> chat_turn" where
  "call_update (CData k v) t = updated (turn_update k v) t"
| "call_update (CResult r) t = updated (turn_result r) t"
| "call_update CComplete t = updated turn_complete t"
| "call_update (CFail e) t = updated (turn_fail e) t"

lemma call_update_id [simp]: "t_id (call_update call t) = t_id t"
  by (cases call) simp_all

lemma turns_chat_apply:
  "turns (chat_apply i call st) = map (\<lambda>t. if t_id t = i then call_update call t else t) (turns st)"
  by (cases call) (simp_all add: updateTurn_def chat_result_def chat_complete_def chat_fail_def)

lemma turn_at_deliver:
  "turn_at (chat_step (CDeliver n call) s) i =
     (if n = 0 \<or> n > nextTurnId s \<or> n \<in> set (c_aborted s) \<or> i \<noteq> turn_key n then turn_at s i
      else map_option (call_update call) (turn_at s i))"
  by (simp add: turn_at_def turns_chat_apply turn_in_update)

text \<open>Which events can touch the turn of a key.\<close>

fun touches_turn :: "chat_event \<Rightarrow> string \<Rightarrow> bool" where
  "touches_turn (CDeliver n call) i = (turn_key n = i)"
| "touches_turn Rendered i = False"
| "touches_turn (CConnected n) i = False"
| "touches_turn _ i = True"

lemma frame_turn: "\<not> touches_turn ev i \<Longrightarrow> turn_at (chat_step ev s) i = turn_at s i"
proof (cases ev)
  case (CDeliver n call)
  assume "\<not> touches_turn ev i"
  with CDeliver show ?thesis by (auto simp only: turn_at_deliver touches_turn.simps simp_thms if_True split: if_splits)
qed (auto simp: turn_at_def)

interpretation chat_turns: framed chat_step turn_at touches_turn
  by unfold_locales (rule frame_turn)

section \<open>Turn ids\<close>

definition chat_ok :: "chat_sys \<Rightarrow> bool" where
  "chat_ok s \<longleftrightarrow> (\<exists>ks. map t_id (turns (chat s)) = map turn_key ks \<and> sorted_wrt (<) ks
     \<and> (\<forall>k \<in> set ks. 0 < k \<and> k \<le> nextTurnId s))"

lemma chat_ok_cong:
  assumes "map t_id (turns (chat s')) = map t_id (turns (chat s))" "nextTurnId s' = nextTurnId s" "chat_ok s"
  shows "chat_ok s'"
  using assms(3) unfolding chat_ok_def assms(1,2) .

lemma chat_ok_step: "chat_ok s \<Longrightarrow> chat_ok (chat_step ev s)"
proof (cases ev)
  case (Send m)
  assume "chat_ok s"
  then obtain ks where ks: "map t_id (turns (chat s)) = map turn_key ks" "sorted_wrt (<) ks"
      "\<forall>k \<in> set ks. 0 < k \<and> k \<le> nextTurnId s"
    by (auto simp: chat_ok_def)
  let ?ks = "ks @ [Suc (nextTurnId s)]"
  have "map t_id (turns (chat (chat_step ev s))) = map turn_key ?ks"
    using ks(1) Send by (simp add: add_turn_def new_turn_def)
  moreover have "sorted_wrt (<) ?ks" "\<forall>k \<in> set ?ks. 0 < k \<and> k \<le> nextTurnId (chat_step ev s)"
    using ks(2,3) Send by (auto simp: sorted_wrt_append)
  ultimately show ?thesis unfolding chat_ok_def by blast
next
  case (CDeliver n call)
  assume "chat_ok s"
  then show ?thesis
    by (rule chat_ok_cong [rotated 2]) (auto simp: CDeliver turns_chat_apply)
next
  case Abort
  assume "chat_ok s"
  then show ?thesis
    by (rule chat_ok_cong [rotated 2]) (auto simp: Abort abort_chat_def)
next
  case ResetChat
  then show ?thesis by (simp add: chat_ok_def Let_def abort_chat_def)
qed (auto simp: chat_ok_def)

lemma chat_ok_run: "chat_ok (fold chat_step evs chat_sys_init)"
  by (rule fold_invariant) (simp_all add: chat_ok_step, simp add: chat_ok_def chat_sys_init_def)

text \<open>Turns keep their identity: after any sequence of sends, renders, deliveries, aborts and resets
  the turns have distinct ids and stand in the order of their messages, and no id is used twice, not
  even after a reset.\<close>

theorem chat_turn_ids:
  defines "s \<equiv> \<lambda>evs. fold chat_step evs chat_sys_init"
  shows "distinct (map t_id (turns (chat (s evs))))
    \<and> (\<exists>ks. map t_id (turns (chat (s evs))) = map turn_key ks \<and> sorted_wrt (<) ks)
    \<and> turn_at (s evs) (turn_key (Suc (nextTurnId (s evs)))) = None"
proof -
  obtain ks where ks: "map t_id (turns (chat (s evs))) = map turn_key ks" "sorted_wrt (<) ks"
      "\<forall>k \<in> set ks. 0 < k \<and> k \<le> nextTurnId (s evs)"
    using chat_ok_run [of evs] by (auto simp: chat_ok_def s_def)
  have "distinct ks" using ks(2) by (simp add: strict_sorted_iff)
  then have "distinct (map t_id (turns (chat (s evs))))"
    unfolding ks(1) by (simp add: distinct_map inj_on_def)
  moreover have "turn_key (Suc (nextTurnId (s evs))) \<notin> set (map t_id (turns (chat (s evs))))"
    unfolding ks(1) using ks(3) by fastforce
  then have "turn_at (s evs) (turn_key (Suc (nextTurnId (s evs)))) = None"
    by (auto simp: turn_at_def turn_in_def find_None_iff image_iff)
  ultimately show ?thesis using ks by blast
qed

section \<open>Concurrent streams do not mix\<close>

text \<open>The data delivered to one turn.\<close>

definition delivered :: "sse_kind \<Rightarrow> nat \<Rightarrow> chat_event list \<Rightarrow> jsval list" where
  "delivered k n evs = List.map_filter (\<lambda>ev. case ev of
     CDeliver m (CData k' v) \<Rightarrow> (if m = n \<and> k' = k then Some v else None) | _ \<Rightarrow> None) evs"

lemma delivered_simps [simp]:
  "delivered k n [] = []"
  "delivered k n (ev # evs) = (case ev of
     CDeliver m (CData k' v) \<Rightarrow> (if m = n \<and> k' = k then [v] else []) | _ \<Rightarrow> []) @ delivered k n evs"
  by (simp_all add: delivered_def List.map_filter_simps split: chat_event.split chat_call.split)

text \<open>Events of a run without aborts and new messages, in which the stream \<open>n\<close> delivers data only.\<close>

fun undisturbed :: "nat \<Rightarrow> chat_event \<Rightarrow> bool" where
  "undisturbed n Rendered = True"
| "undisturbed n (CConnected m) = True"
| "undisturbed n (CDeliver m call) = (m \<noteq> n \<or> (\<exists>k v. call = CData k v))"
| "undisturbed n _ = False"

lemma undisturbed_run:
  assumes "turn_at s (turn_key n) = Some t" "0 < n" "n \<le> nextTurnId s" "n \<notin> set (c_aborted s)"
    and "\<forall>ev \<in> set evs. undisturbed n ev"
  shows "\<exists>t'. turn_at (fold chat_step evs s) (turn_key n) = Some t'
    \<and> assistantMessage t' = assistantMessage t @ concat (map to_str (delivered Generation n evs))
    \<and> reasoningText t' = reasoningText t @ concat (map to_str (delivered Reasoning n evs))
    \<and> t_hits t' = t_hits t @ delivered Hit n evs
    \<and> t_followUps t' = t_followUps t @ delivered Followup n evs
    \<and> userMessage t' = userMessage t"
  using assms
proof (induction evs arbitrary: s t)
  case (Cons ev evs)
  have keep: "nextTurnId (chat_step ev s) = nextTurnId s" "c_aborted (chat_step ev s) = c_aborted s"
    using Cons.prems(5) by (cases ev; simp)+
  show ?case
  proof (cases "\<exists>k v. ev = CDeliver n (CData k v)")
    case True
    then obtain k v where ev: "ev = CDeliver n (CData k v)" by blast
    have "turn_at (chat_step ev s) (turn_key n) = Some (updated (turn_update k v) t)"
      unfolding ev turn_at_deliver using Cons.prems by simp
    then show ?thesis
      using Cons.IH [of "chat_step ev s" "updated (turn_update k v) t"] Cons.prems keep
      by (cases k) (auto simp: ev updated_def)
  next
    case False
    then have "\<not> touches_turn ev (turn_key n)"
      using Cons.prems(5) by (cases ev) auto
    then have "turn_at (chat_step ev s) (turn_key n) = Some t"
      using chat_turns.frame Cons.prems(1) by simp
    moreover have "delivered k n (ev # evs) = delivered k n evs" for k
      using False by (auto split: chat_event.split chat_call.split)
    ultimately show ?thesis
      using Cons.IH [of "chat_step ev s" t] Cons.prems keep by simp
  qed
qed simp

text \<open>C6. Streams that run at the same time do not mix: while a turn's stream delivers data, its texts
  and lists grow by exactly what was delivered to it, in order, however its deliveries interleave
  with data, results, errors and ends of other streams and with renders.\<close>

theorem chat_streams_do_not_mix:
  assumes "turn_at s (turn_key n) = Some t" "0 < n" "n \<le> nextTurnId s" "n \<notin> set (c_aborted s)"
    and "\<forall>ev \<in> set evs. undisturbed n ev"
  shows "\<exists>t'. turn_at (fold chat_step evs s) (turn_key n) = Some t'
    \<and> assistantMessage t' = assistantMessage t @ concat (map to_str (delivered Generation n evs))
    \<and> reasoningText t' = reasoningText t @ concat (map to_str (delivered Reasoning n evs))
    \<and> t_hits t' = t_hits t @ delivered Hit n evs
    \<and> t_followUps t' = t_followUps t @ delivered Followup n evs
    \<and> userMessage t' = userMessage t"
  using assms by (rule undisturbed_run)


section \<open>A message touches its own turn only\<close>

text \<open>The turns that were there, followed by the turn of the message.\<close>

definition only_own :: "string \<Rightarrow> string \<Rightarrow> chat_turn list \<Rightarrow> chat_state \<Rightarrow> bool" where
  "only_own i message old st \<longleftrightarrow> i \<notin> t_id ` set old \<and>
     (\<exists>t. turns st = old @ [t] \<and> t_id t = i \<and> userMessage t = message)"

lemma only_own_update:
  assumes "only_own i message old st" "\<And>t. t_id (updated f t) = t_id t" "\<And>t. userMessage (updated f t) = userMessage t"
  shows "only_own i message old (updateTurn i f st)"
proof -
  obtain t where t: "i \<notin> t_id ` set old" "turns st = old @ [t]" "t_id t = i" "userMessage t = message"
    using assms(1) by (auto simp: only_own_def)
  have "map (\<lambda>t. if t_id t = i then updated f t else t) old = old"
    using t(1) by (intro map_idI) auto
  then have "turns (updateTurn i f st) = old @ [updated f t]"
    using t by (simp add: updateTurn_def)
  then show ?thesis using t assms(2,3) by (simp add: only_own_def)
qed

lemma only_own_streaming [simp]:
  "only_own i message old (st\<lparr>c_isStreaming := b\<rparr>) = only_own i message old st"
  by (simp add: only_own_def)

lemma only_own_calls [simp]:
  assumes "only_own i message old st"
  shows "only_own i message old (updateTurn i (turn_update k v) st)"
    "only_own i message old (updateTurn i (turn_result r) st)"
    "only_own i message old (updateTurn i turn_complete st)"
    "only_own i message old (updateTurn i (turn_fail e) st)"
  using assms by (auto intro!: only_own_update)

interpretation chat_client: answer_client "chat_hook i" "only_own i message old" for i message old
  by unfold_locales (auto simp: chat_hook_def chat_complete_def chat_fail_def chat_result_def)

text \<open>Whatever the server and the network do to the stream of a message (bytes that are not events,
  errors, a closed connection, a JSON answer), when it is over the conversation is the earlier turns
  unchanged, followed by one turn for this message.\<close>

theorem message_touches_own_turn:
  assumes "turn_key n \<notin> t_id ` set (turns st)"
  shows "\<exists>t. turns (sendMessage fetch stringify json_parse n message cfg ref st) = turns st @ [t]
    \<and> t_id t = turn_key n \<and> userMessage t = message"
proof -
  let ?P = "only_own (turn_key n) message (turns st)"
  let ?r = "\<lambda>req hs. streamAnswer fetch stringify json_parse (cs_url cfg) req hs (chat_hook (turn_key n)) (add_turn n message st)"
  have "?P (add_turn n message st)"
    using assms by (simp add: only_own_def add_turn_def new_turn_def)
  then have kept: "?P (fst (?r req hs))" for req hs
    by (rule chat_client.streamAnswer_keeps)
  have failed: "?P (chat_fail (turn_key n) e st')" if "?P st'" for e st'
    using that by (simp add: chat_fail_def only_own_update)
  have "?P (sendMessage fetch stringify json_parse n message cfg ref st)"
    using kept failed
    by (simp add: sendMessage_def Let_def split_def split: sum.split)
  then show ?thesis by (simp add: only_own_def)
qed

section \<open>A message that is answered\<close>

lemma updateTurn_ident:
  assumes "\<And>t. f t = Inr t"
  shows "updateTurn i f st = st"
proof -
  have "map (\<lambda>t. if t_id t = i then updated f t else t) (turns st) = turns st"
    by (rule map_idI) (simp add: updated_def assms)
  then show ?thesis by (simp add: updateTurn_def assms list_ex_iff)
qed

lemma turn_update_other: "k \<notin> set chat_kinds \<Longrightarrow> turn_update k v t = Inr t"
  by (cases k) (simp_all add: chat_kinds_def)

lemma chat_sdk [simp]:
  "has_cb (sdkCallbacks (chat_hook i)) k \<longleftrightarrow> k \<in> {Done, ErrorEvent} \<or> k \<in> set chat_kinds"
  by (cases k) (simp_all add: sdkCallbacks_def chat_hook_def chat_kinds_def streaming_kinds_def)

interpretation chat_events: data_client "sdkCallbacks (chat_hook i)" "\<lambda>k v. updateTurn i (turn_update k v)" for i
proof
  fix k :: sse_kind and v c
  show "k \<noteq> Done \<Longrightarrow> k \<noteq> ErrorEvent \<Longrightarrow> has_cb (sdkCallbacks (chat_hook i)) k \<Longrightarrow>
      invoke (sdkCallbacks (chat_hook i)) k v c = (updateTurn i (turn_update k v) c, False)"
    by (simp add: sdkCallbacks_def chat_hook_def)
  show "k \<noteq> Done \<Longrightarrow> k \<noteq> ErrorEvent \<Longrightarrow> \<not> has_cb (sdkCallbacks (chat_hook i)) k \<Longrightarrow>
      updateTurn i (turn_update k v) c = c"
    by (rule updateTurn_ident, rule turn_update_other) simp
qed

lemma chat_done:
  "invoke (sdkCallbacks (chat_hook i)) Done r st = (chat_complete i (chat_result i r st), False)"
  by (simp add: sdkCallbacks_def chat_hook_def finish_answer_def then_handler_def call_handler_def)

lemma shouldStream_chat: "shouldStream (chat_hook i)"
  by (simp add: shouldStream_def streaming_kinds_def chat_hook_def chat_kinds_def)

text \<open>The callbacks act on the turn of the message, which is the last one.\<close>

lemma updateTurn_last:
  assumes "i \<notin> t_id ` set old" "t_id t = i"
  shows "updateTurn i f \<lparr>turns = old @ [t], c_isStreaming = b, c_thrown = x\<rparr>
       = \<lparr>turns = old @ [updated f t], c_isStreaming = b, c_thrown = x \<or> isl (f t)\<rparr>"
  using assms by (auto simp: updateTurn_def image_iff list_ex_iff intro!: map_idI)

text \<open>A turn with what its updaters have thrown so far.\<close>

definition turn_run :: "sse_kind \<Rightarrow> jsval \<Rightarrow> chat_turn \<times> bool \<Rightarrow> chat_turn \<times> bool" where
  "turn_run k v = (\<lambda>(t, x). (updated (turn_update k v) t, x \<or> isl (turn_update k v t)))"

lemma fold_chat_last:
  assumes "i \<notin> t_id ` set old" "t_id t = i"
  shows "fold (apply_event (\<lambda>k v. updateTurn i (turn_update k v)) json_parse) evs
           \<lparr>turns = old @ [t], c_isStreaming = b, c_thrown = x\<rparr>
       = (let (t', x') = fold (apply_event turn_run json_parse) evs (t, x)
          in \<lparr>turns = old @ [t'], c_isStreaming = b, c_thrown = x'\<rparr>)"
  using assms(2)
proof (induction evs arbitrary: t x)
  case (Cons e evs)
  obtain t' x' where one: "apply_event turn_run json_parse e (t, x) = (t', x')" by fastforce
  have "t_id t' = i"
    using Cons.prems one by (cases e) (auto simp: apply_event_def turn_run_def split: option.splits)
  moreover have "apply_event (\<lambda>k v. updateTurn i (turn_update k v)) json_parse e \<lparr>turns = old @ [t], c_isStreaming = b, c_thrown = x\<rparr>
      = \<lparr>turns = old @ [t'], c_isStreaming = b, c_thrown = x'\<rparr>"
    using updateTurn_last [OF assms(1) Cons.prems] one
    by (cases e) (auto simp: apply_event_def turn_run_def split: option.splits)
  ultimately show ?case using Cons.IH one by simp
qed simp

lemma turn_run_parts:
  "reasoningText (fst (turn_run k v tx)) = (if k = Reasoning then reasoningText (fst tx) @ to_str v else reasoningText (fst tx))"
  "t_error (fst (turn_run k v tx)) = t_error (fst tx)" "t_id (fst (turn_run k v tx)) = t_id (fst tx)"
  "userMessage (fst (turn_run k v tx)) = userMessage (fst tx)"
  by (cases tx; cases k; simp add: turn_run_def updated_def)+

lemma fold_turn_parts:
  "reasoningText (fst (fold (apply_event turn_run json_parse) evs tx)) =
     reasoningText (fst tx) @ concat (map to_str (payloads json_parse Reasoning evs))"
  "t_error (fst (fold (apply_event turn_run json_parse) evs tx)) = t_error (fst tx)"
  "t_id (fst (fold (apply_event turn_run json_parse) evs tx)) = t_id (fst tx)"
  "userMessage (fst (fold (apply_event turn_run json_parse) evs tx)) = userMessage (fst tx)"
  using fold_events_view [where view = "\<lambda>tx. reasoningText (fst tx)" and update = turn_run and K = Reasoning
      and f = "\<lambda>a v. a @ to_str v"]
    fold_events_fixed [where view = "\<lambda>tx. t_error (fst tx)" and update = turn_run]
    fold_events_fixed [where view = "\<lambda>tx. t_id (fst tx)" and update = turn_run]
    fold_events_fixed [where view = "\<lambda>tx. userMessage (fst tx)" and update = turn_run]
  by (simp_all add: turn_run_parts foldl_append_strings)

text \<open>No step that is started or completed is null: then no updater throws.\<close>

definition named_steps :: "(string \<Rightarrow> jsval option) \<Rightarrow> (string \<times> string) list \<Rightarrow> bool" where
  "named_steps json_parse evs \<longleftrightarrow>
     list_all (\<lambda>v. \<not> nullish v) (payloads json_parse StepStarted evs @ payloads json_parse StepCompleted evs)"

lemma turn_run_quiet:
  assumes "list_all (\<lambda>s. \<not> nullish s) (activeSteps t)" "k \<in> {StepStarted, StepCompleted} \<longrightarrow> \<not> nullish v"
  shows "\<exists>t'. turn_run k v (t, x) = (t', x) \<and> list_all (\<lambda>s. \<not> nullish s) (activeSteps t')"
  using assms by (cases k) (auto simp: turn_run_def updated_def list_all_iff list_ex_iff)

lemma fold_turn_quiet:
  assumes "named_steps json_parse evs" "list_all (\<lambda>s. \<not> nullish s) (activeSteps t)"
  shows "snd (fold (apply_event turn_run json_parse) evs (t, x)) = x"
  using assms
proof (induction evs arbitrary: t)
  case (Cons e evs)
  obtain n d where e: "e = (n, d)" by fastforce
  have rest: "named_steps json_parse evs"
    using Cons.prems(1) by (simp add: named_steps_def e)
  have "\<exists>t'. apply_event turn_run json_parse e (t, x) = (t', x) \<and> list_all (\<lambda>s. \<not> nullish s) (activeSteps t')"
  proof (cases "kind_of_event n")
    case None
    then show ?thesis using Cons.prems(2) by (simp add: apply_event_def e)
  next
    case (Some k)
    then show ?thesis
      using Cons.prems turn_run_quiet [OF Cons.prems(2), of k "the (json_parse d)" x]
      by (cases "json_parse d") (auto simp: apply_event_def e named_steps_def split: if_splits)
  qed
  then show ?case using Cons.IH [OF rest] by auto
qed simp

text \<open>A server that answers every request with an event stream.\<close>

definition streams_chat :: "fetch \<Rightarrow> read_result list \<Rightarrow> bool" where
  "streams_chat fetch reads \<longleftrightarrow>
     (\<forall>req. \<exists>r. fetch req = Inr r \<and> rs_ok r \<and> \<not> rs_body_null r \<and> rs_reads r = reads
           \<and> rs_content_type r = Some ''text/event-stream'')"

lemma sendMessage_reads:
  assumes "streams_chat fetch reads"
  shows "sendMessage fetch stringify json_parse n message cfg ref st =
    client (snd (sse_read json_parse (sdkCallbacks (chat_hook (turn_key n))) ([], sse_init (add_turn n message st)) reads))"
proof -
  have ct: "\<not> str_includes ''text/event-stream'' ''application/json''"
    by (simp add: str_includes_def)
  have "\<exists>r. fetch req = Inr r \<and> rs_ok r \<and> \<not> rs_body_null r \<and> rs_reads r = reads
           \<and> rs_content_type r = Some ''text/event-stream''" for req
    using assms by (simp add: streams_chat_def)
  then obtain answer where a: "\<And>req. fetch req = Inr (answer req) \<and> rs_ok (answer req) \<and> \<not> rs_body_null (answer req)
      \<and> rs_reads (answer req) = reads \<and> rs_content_type (answer req) = Some ''text/event-stream''"
    by metis
  show ?thesis
    using a ct shouldStream_chat
    by (simp add: sendMessage_def streamAnswer_def retrievalAgent_def performRetrievalAgent_def
        check_response_def Let_def)
qed

lemma chat_turn_answered:
  fixes st :: chat_state and n :: nat and fetch :: fetch and stringify json_parse message cfg ref
  defines "final \<equiv> sendMessage fetch stringify json_parse n message cfg ref st"
  assumes fresh: "turn_key n \<notin> t_id ` set (turns st)"
    and server: "streams_chat fetch (map Chunk cs)" "concat cs = sse_encode (evs @ [(''done'', d)])"
    and clean: "\<forall>e \<in> set (evs @ [(''done'', d)]). clean_event e"
    and data: "\<forall>e \<in> set evs. data_event e" and parsed: "json_parse d = Some r"
  shows "if nullish r then c_thrown final
    else \<exists>t. turns final = turns st @ [t] \<and> userMessage t = message
      \<and> assistantMessage t = to_str (js_or (fld r ''generation'') (JStr []))
      \<and> t_hits t = array_or_empty (fld r ''hits'')
      \<and> reasoningText t = concat (map to_str (payloads json_parse Reasoning evs))
      \<and> t_error t = None \<and> \<not> t_isStreaming t \<and> \<not> c_isStreaming final
      \<and> (named_steps json_parse evs \<longrightarrow> c_thrown final = c_thrown st)"
proof -
  let ?i = "turn_key n"
  let ?cbs = "sdkCallbacks (chat_hook ?i)"
  let ?s = "add_turn n message st"
  obtain t x where tx: "fold (apply_event turn_run json_parse) evs (new_turn n message, c_thrown st) = (t, x)"
    by fastforce
  have s: "?s = \<lparr>turns = turns st @ [new_turn n message], c_isStreaming = True, c_thrown = c_thrown st\<rparr>"
    by (simp add: add_turn_def)
  have id: "t_id (new_turn n message) = ?i" by (simp add: new_turn_def)
  have t: "t_id t = ?i" "t_error t = None" "userMessage t = message"
    "reasoningText t = concat (map to_str (payloads json_parse Reasoning evs))"
    using fold_turn_parts [of json_parse evs "(new_turn n message, c_thrown st)"] tx by (simp_all add: new_turn_def)
  have quiet: "x = c_thrown st" if "named_steps json_parse evs"
    using fold_turn_quiet [OF that, of "new_turn n message" "c_thrown st"] tx by (simp add: new_turn_def)
  obtain st' where st': "deliver json_parse ?cbs (sse_init ?s) (evs @ [(''done'', d)])
      = deliver json_parse ?cbs st' [(''done'', d)]" "phase st' = Reading"
    "client st' = \<lparr>turns = turns st @ [t], c_isStreaming = True, c_thrown = x\<rparr>"
    using chat_events.deliver_data [OF data, of "sse_init ?s" json_parse ?i "[(''done'', d)]"]
      fold_chat_last [OF fresh id, of json_parse evs True "c_thrown st"] tx
    by (auto simp: sse_init_def s)
  have "client (deliver json_parse ?cbs st' [(''done'', d)]) = chat_complete ?i (chat_result ?i r (client st'))"
    using parsed by (auto simp: dispatch_event_def kind_of_event_def call_parsed_def chat_done Let_def)
  then have "final = chat_complete ?i (chat_result ?i r \<lparr>turns = turns st @ [t], c_isStreaming = True, c_thrown = x\<rparr>)"
    unfolding final_def sendMessage_reads [OF server(1)] sse_read_encoded [OF clean server(2)] st'(1)
    by (simp only: st'(3))
  also have "\<dots> = \<lparr>turns = turns st @ [updated turn_complete (updated (turn_result r) t)], c_isStreaming = False,
      c_thrown = x \<or> isl (turn_result r t)\<rparr>"
    using fresh t(1) by (simp add: chat_complete_def chat_result_def updateTurn_last) (simp add: turn_complete_def)
  finally show ?thesis
    using t quiet by (cases "nullish r") (simp_all add: updated_def turn_complete_def turn_result_def)
qed

text \<open>C5. A message whose stream is data events closed by a done event is answered by the result of that
  event: the assistant's message is the result's generation, whatever chunks came before it, its hits are the
  result's, the reasoning is what was streamed, and the turn and the hook no longer stream; the earlier turns
  are as they were, and when no step of the stream is null no render has thrown. When the done event carries null instead of a
  result, reading the generation of null throws in the updater, so the render of the component throws. (The
  generation and the hits are a text and a list, as the API types them.)\<close>

theorem chat_message_answered:
  fixes st :: chat_state and n :: nat and fetch :: fetch and stringify json_parse message cfg ref
  defines "final \<equiv> sendMessage fetch stringify json_parse n message cfg ref st"
  assumes fresh: "turn_key n \<notin> t_id ` set (turns st)"
    and server: "streams_chat fetch (map Chunk cs)" "concat cs = sse_encode (evs @ [(''done'', d)])"
    and clean: "\<forall>e \<in> set (evs @ [(''done'', d)]). clean_event e"
    and data: "\<forall>e \<in> set evs. data_event e" and parsed: "json_parse d = Some r"
  shows "if nullish r then c_thrown final
    else \<exists>t. turns final = turns st @ [t] \<and> userMessage t = message
      \<and> assistantMessage t = to_str (js_or (fld r ''generation'') (JStr []))
      \<and> t_hits t = array_or_empty (fld r ''hits'')
      \<and> reasoningText t = concat (map to_str (payloads json_parse Reasoning evs))
      \<and> t_error t = None \<and> \<not> t_isStreaming t \<and> \<not> c_isStreaming final
      \<and> (named_steps json_parse evs \<longrightarrow> c_thrown final = c_thrown st)"
  using chat_turn_answered [where n = n and st = st and fetch = fetch and cs = cs and evs = evs and d = d
      and json_parse = json_parse and r = r and stringify = stringify and message = message and cfg = cfg and ref = ref]
    assms(2-) unfolding final_def by blast

section \<open>Superseded messages\<close>

lemma turn_at_send: "turn_at s i = Some t \<Longrightarrow> turn_at (chat_step (Send m) s) i = Some t"
  by (simp add: turn_at_def add_turn_def turn_in_append)

text \<open>Events other than an abort or a reset.\<close>

fun no_abort :: "chat_event \<Rightarrow> bool" where
  "no_abort Abort = False"
| "no_abort ResetChat = False"
| "no_abort _ = True"

lemma aborted_turn_frozen:
  "turn_at s (turn_key n) = Some t \<Longrightarrow> n \<in> set (c_aborted s) \<Longrightarrow> \<forall>ev \<in> set evs. no_abort ev \<Longrightarrow>
     turn_at (fold chat_step evs s) (turn_key n) = Some t"
proof (induction evs arbitrary: s)
  case (Cons ev evs)
  have "turn_at (chat_step ev s) (turn_key n) = Some t"
    using Cons.prems
    by (cases ev) (auto simp only: turn_at_send turn_at_deliver turn_key_inject, auto simp: turn_at_def)
  moreover have "n \<in> set (c_aborted (chat_step ev s))"
    using Cons.prems by (cases ev) (auto simp: abort_ctrl_def split: option.split)
  ultimately show ?case using Cons by simp
qed simp

text \<open>Sending a message while the previous one is still being answered cuts that answer off without
  ending its turn: its stream is aborted, and from then on, until an abort or a reset, the turn stays
  as it was, marked as streaming and without an error.\<close>

theorem superseded_turn_keeps_streaming:
  assumes "turn_at s (turn_key n) = Some t" "t_isStreaming t" "c_ctrl s = Some n"
    and "\<forall>ev \<in> set evs. no_abort ev"
  shows "turn_at (fold chat_step (Send message # evs) s) (turn_key n) = Some t"
proof -
  have "turn_at (chat_step (Send message) s) (turn_key n) = Some t"
    using assms(1) by (rule turn_at_send)
  moreover have "n \<in> set (c_aborted (chat_step (Send message) s))"
    using assms(3) by (simp add: abort_ctrl_def)
  ultimately show ?thesis using assms(4) by (simp add: aborted_turn_frozen)
qed


section \<open>Witnesses\<close>

definition two_messages :: chat_sys where
  "two_messages = fold chat_step [Send ''a'', CConnected 1, Rendered, Send ''b''] chat_sys_init"

lemma two_messages_eq:
  "two_messages = \<lparr>chat = \<lparr>turns = [new_turn 1 ''a'', new_turn 2 ''b''], c_isStreaming = True, c_thrown = False\<rparr>,
     turnsRef = [new_turn 1 ''a''], c_ctrl = Some 1, c_aborted = [1], c_pending = [2], nextTurnId = 2\<rparr>"
  by (simp add: two_messages_def chat_sys_init_def add_turn_def abort_ctrl_def numeral_2_eq_2)

lemma turn_at_two: "turn_at two_messages (turn_key 2) = Some (new_turn 2 ''b'')"
  by (simp add: turn_at_def turn_in_def two_messages_eq new_turn_def)

lemma chat_streams_do_not_mix_witness:
  "\<exists>t. turn_at (fold chat_step [CDeliver 2 (CData Generation (JStr ''x'')), CDeliver 1 (CFail (NonError JNull)),
       CConnected 2, CDeliver 2 (CData Generation (JStr ''y''))] two_messages) (turn_key 2) = Some t
     \<and> assistantMessage t = ''xy''"
  using chat_streams_do_not_mix [OF turn_at_two, of "[CDeliver 2 (CData Generation (JStr ''x'')),
      CDeliver 1 (CFail (NonError JNull)), CConnected 2, CDeliver 2 (CData Generation (JStr ''y''))]"]
  by (auto simp: two_messages_eq new_turn_def)

definition example_chat :: chat_stream_config where
  "example_chat = \<lparr>cs_url = ''u'', cs_headers = None, cs_generator = JUndef, cs_table = ''t'',
     cs_semanticIndexes = None, cs_agentKnowledge = None, cs_systemPrompt = None,
     cs_maxInternalIterations = None, cs_followUpCount = None, cs_limit = None, cs_steps = JUndef,
     cs_tools = JUndef, cs_fields = None, cs_filterQuery = JUndef, cs_exclusionQuery = JUndef\<rparr>"

lemma message_touches_own_turn_witness:
  "\<exists>t. turns (sendMessage (\<lambda>_. Inl (NonError JNull)) to_str (\<lambda>_. None) 2 ''b'' example_chat []
          \<lparr>turns = [new_turn 1 ''a''], c_isStreaming = False, c_thrown = False\<rparr>) = [new_turn 1 ''a'', t]
     \<and> userMessage t = ''b''"
  using message_touches_own_turn [of 2 "\<lparr>turns = [new_turn 1 ''a''], c_isStreaming = False, c_thrown = False\<rparr>"
      "\<lambda>_. Inl (NonError JNull)" to_str "\<lambda>_. None" "''b''" example_chat "[]"]
  by (auto simp: new_turn_def)

definition event_server :: "read_result list \<Rightarrow> fetch" where
  "event_server reads req = Inr \<lparr>rs_ok = True, rs_status = 200, rs_text = Inr [], rs_body_null = False,
     rs_content_type = Some ''text/event-stream'', rs_json = Inr JNull, rs_reads = reads\<rparr>"

lemma chat_message_answered_witness:
  "\<exists>t. turns (sendMessage (event_server (map Chunk [sse_encode [(''reasoning'', ''hm''), (''done'', ''x'')]])) to_str
          (\<lambda>s. Some (JStr s)) 1 ''q'' example_chat [] \<lparr>turns = [], c_isStreaming = False, c_thrown = False\<rparr>) = [t]
     \<and> reasoningText t = ''hm'' \<and> \<not> t_isStreaming t"
proof -
  have server: "streams_chat (event_server rs) rs" for rs
    by (simp add: streams_chat_def event_server_def)
  have clean: "\<forall>e \<in> set ([(''reasoning'', ''hm'')] @ [(''done'', ''x'')]). clean_event e"
    by (simp add: clean_event_def trim_def is_ws_def)
  have data: "\<forall>e \<in> set [(''reasoning'', ''hm'')]. data_event e"
    by (simp add: data_event_def kind_of_event_def)
  show ?thesis
    using chat_message_answered [where st = "\<lparr>turns = [], c_isStreaming = False, c_thrown = False\<rparr>" and n = 1
        and json_parse = "\<lambda>s. Some (JStr s)" and r = "JStr ''x''" and cfg = example_chat and stringify = to_str
        and message = "''q''" and ref = "[]", OF _ server _ clean data,
        of "[sse_encode [(''reasoning'', ''hm''), (''done'', ''x'')]]"]
    by (simp add: kind_of_event_def nullish_def) blast
qed

lemma superseded_turn_keeps_streaming_witness:
  "turn_at (fold chat_step [Send ''b'', CConnected 2, CDeliver 2 CComplete]
      (fold chat_step [Send ''a'', CConnected 1] chat_sys_init)) (turn_key 1) = Some (new_turn 1 ''a'')"
  by (rule superseded_turn_keeps_streaming)
    (simp_all add: chat_sys_init_def add_turn_def turn_at_def turn_in_def new_turn_def)

end
