(* ===== verification/SharedStore.thy ===== *)
theory SharedStore
  imports QueryUtils
begin

text \<open>
  The shared state of the search components (ts/packages/components/src/SharedContext.tsx) and its
  reducer (Antfly.tsx). Widgets register under their key with what they ask for and receive results
  there; the listener reads the whole map.

  A boolean field that is absent reads as false: no code tells the two apart. Fields the sources type
  as \<open>unknown\<close> are JavaScript values, undefined when absent.
\<close>

section \<open>Types (SharedContext.tsx)\<close>

text \<open>A bucket of an aggregation, as the API types it, and the facet data of a result.\<close>

record bucket =
  bk_key :: string
  bk_doc_count :: rat

datatype facet_data = Buckets "bucket list" | BucketGroups "bucket list list"

record result =
  r_data :: "jsval list"
  r_facetData :: facet_data
  r_total :: jsval
  r_error :: "string option"

record widget =
  w_id :: string
  needsQuery :: bool
  needsConfiguration :: bool
  isFacet :: bool
  rootQuery :: bool
  isAutosuggest :: bool
  wantResults :: bool
  wantFacets :: bool
  w_query :: jsval
  semanticQuery :: "string option"
  isSemantic :: bool
  w_value :: jsval
  submittedAt :: "rat option"
  w_table :: table_ref
  filterQuery :: jsval
  exclusionQuery :: jsval
  facetOptions :: "(string \<times> rat option) list"
  isLoading :: bool
  configuration :: jsval
  w_result :: "result option"

record 'e shared_state =
  url :: "string option"
  table :: string
  listenerEffect :: "'e option"
  widgets :: "(string, widget) jmap"
  sh_headers :: "(string \<times> string) list option"

text \<open>
  The actions. The payload of \<open>setWidget\<close> is a widget without an id (the field is ignored);
  \<open>result\<close> is None where the action has none.
\<close>

datatype 'e shared_action =
    SetWidget string widget
  | SetWidgetResult string bool "result option"
  | DeleteWidget string
  | SetListenerEffect "'e option"
  | SetSharedConfig "string option" string "(string \<times> string) list option"

section \<open>The reducer (Antfly.tsx)\<close>

definition reducer :: "'e shared_action \<Rightarrow> 'e shared_state \<Rightarrow> 'e shared_state" where
  "reducer action state =
     (case action of
        SetWidget key w \<Rightarrow>
          (let existingWidget = jmap_get (widgets state) key;
               widget = w\<lparr>w_id := key,
                          w_result := (if w_result w \<noteq> None then w_result w
                                       else Option.bind existingWidget w_result)\<rparr>
           in state\<lparr>widgets := jmap_set (widgets state) key widget\<rparr>)
      | SetWidgetResult key loading res \<Rightarrow>
          (case jmap_get (widgets state) key of
             None \<Rightarrow> state
           | Some existing \<Rightarrow>
               state\<lparr>widgets := jmap_set (widgets state) key
                 (existing\<lparr>isLoading := loading,
                           w_result := (if res \<noteq> None then res else w_result existing)\<rparr>)\<rparr>)
      | DeleteWidget key \<Rightarrow> state\<lparr>widgets := jmap_delete (widgets state) key\<rparr>
      | SetListenerEffect v \<Rightarrow> state\<lparr>listenerEffect := v\<rparr>
      | SetSharedConfig u t hs \<Rightarrow> state\<lparr>url := u, table := t, sh_headers := hs\<rparr>)"

definition initialState :: "string \<Rightarrow> string \<Rightarrow> (string \<times> string) list \<Rightarrow> 'e shared_state" where
  "initialState u t hs =
     \<lparr>url = Some u, table = t, listenerEffect = None, widgets = [], sh_headers = Some hs\<rparr>"

text \<open>The state after a sequence of dispatches.\<close>

definition dispatch_all :: "'e shared_action list \<Rightarrow> 'e shared_state \<Rightarrow> 'e shared_state" where
  "dispatch_all acts state = fold reducer acts state"

definition widget_at :: "'e shared_state \<Rightarrow> string \<Rightarrow> widget option" where
  "widget_at state key = jmap_get (widgets state) key"

definition result_at :: "'e shared_state \<Rightarrow> string \<Rightarrow> result option" where
  "result_at state key = Option.bind (widget_at state key) w_result"

section \<open>Invariant\<close>

text \<open>One widget per key, each under its own id.\<close>

definition store_ok :: "'e shared_state \<Rightarrow> bool" where
  "store_ok state \<longleftrightarrow> jmap_ok (widgets state) \<and> (\<forall>(k, w) \<in> set (widgets state). w_id w = k)"

lemma store_ok_alt:
  "store_ok state \<longleftrightarrow> jmap_ok (widgets state) \<and> (\<forall>k w. widget_at state k = Some w \<longrightarrow> w_id w = k)"
  unfolding store_ok_def widget_at_def by (auto simp: jmap_get_iff)

lemma store_ok_initial [inv_intros]: "store_ok (initialState u t hs)"
  by (simp add: store_ok_def initialState_def)

lemma store_ok_reducer [inv_intros]: "store_ok state \<Longrightarrow> store_ok (reducer action state)"
  unfolding store_ok_alt widget_at_def reducer_def
  by (cases action) (auto simp: Let_def jmap_ok_set jmap_ok_delete split: option.split if_splits)

lemma store_ok_dispatch_all [inv_intros]: "store_ok state \<Longrightarrow> store_ok (dispatch_all acts state)"
  unfolding dispatch_all_def by (rule fold_invariant) (auto intro: store_ok_reducer)

section \<open>Which actions touch what is seen at a key\<close>

fun touches_widget :: "'e shared_action \<Rightarrow> string \<Rightarrow> bool" where
  "touches_widget (SetWidget k w) key = (k = key)"
| "touches_widget (SetWidgetResult k l r) key = (k = key)"
| "touches_widget (DeleteWidget k) key = (k = key)"
| "touches_widget _ key = False"

fun touches_result :: "'e shared_action \<Rightarrow> string \<Rightarrow> bool" where
  "touches_result (SetWidget k w) key = (k = key \<and> w_result w \<noteq> None)"
| "touches_result (SetWidgetResult k l r) key = (k = key \<and> r \<noteq> None)"
| "touches_result (DeleteWidget k) key = (k = key)"
| "touches_result _ key = False"

fun registers :: "'e shared_action \<Rightarrow> string \<Rightarrow> bool" where
  "registers (SetWidget k w) key = (k = key)"
| "registers _ key = False"

lemma frame_widget: "\<not> touches_widget a k \<Longrightarrow> widget_at (reducer a s) k = widget_at s k"
  by (cases a) (auto simp: reducer_def widget_at_def Let_def split: option.split)

lemma frame_result: "\<not> touches_result a k \<Longrightarrow> result_at (reducer a s) k = result_at s k"
  by (cases a) (auto simp: reducer_def widget_at_def result_at_def Let_def split: option.split)

lemma frame_absent: "\<not> registers a k \<Longrightarrow> widget_at s k = None \<Longrightarrow> widget_at (reducer a s) k = None"
  by (cases a) (auto simp: reducer_def widget_at_def Let_def split: option.split)

interpretation store_widget: framed reducer widget_at touches_widget
  by unfold_locales (rule frame_widget)

interpretation store_result: framed reducer result_at touches_result
  by unfold_locales (rule frame_result)

lemma widget_at_set:
  "widget_at (reducer (SetWidget k w) s) k =
     Some (w\<lparr>w_id := k, w_result := (if w_result w \<noteq> None then w_result w else result_at s k)\<rparr>)"
  by (simp add: reducer_def widget_at_def result_at_def Let_def)

lemma widget_at_result:
  "widget_at (reducer (SetWidgetResult k l r) s) k =
     map_option (\<lambda>w. w\<lparr>isLoading := l, w_result := (if r \<noteq> None then r else w_result w)\<rparr>) (widget_at s k)"
  by (simp add: reducer_def widget_at_def split: option.split)

lemma widget_at_delete: "widget_at (reducer (DeleteWidget k) s) k = None"
  by (simp add: reducer_def widget_at_def)

lemma absent_run:
  "widget_at s k = None \<Longrightarrow> \<forall>a \<in> set acts. \<not> registers a k \<Longrightarrow> widget_at (dispatch_all acts s) k = None"
  unfolding dispatch_all_def by (induction acts arbitrary: s) (auto simp: frame_absent)

section \<open>Properties\<close>

text \<open>Whatever the components dispatch, in whatever order, from the provider's initial state, the
  map of widgets holds one entry per key and each widget carries its own key as its id.\<close>

theorem store_invariant: "store_ok (dispatch_all acts (initialState u t hs))"
  by (rule store_ok_dispatch_all) (rule store_ok_initial)

text \<open>Results survive re-registration: once a result arrived for a mounted widget, it is what the
  widget shows until another result for the same key arrives or the widget is removed, however
  often widgets (this one included) register again with new queries, and whatever else is
  dispatched.\<close>

theorem result_kept:
  assumes mounted: "widget_at s k \<noteq> None"
    and later: "\<forall>a \<in> set acts. \<not> touches_result a k"
  shows "result_at (dispatch_all (SetWidgetResult k loading (Some r) # acts) s) k = Some r"
proof -
  have "result_at (dispatch_all (SetWidgetResult k loading (Some r) # acts) s) k
          = result_at (reducer (SetWidgetResult k loading (Some r)) s) k"
    using store_result.run_last [OF later, of "[]"] by (simp add: dispatch_all_def)
  then show ?thesis
    using mounted by (auto simp: result_at_def widget_at_result)
qed

text \<open>A result that comes back after its widget was removed is dropped: from the removal on, until
  the key registers again, no dispatch (late results included) brings the widget back.\<close>

theorem late_results_ignored:
  assumes "\<forall>a \<in> set acts. \<not> registers a k"
  shows "widget_at (dispatch_all (DeleteWidget k # acts) s) k = None"
  using absent_run [OF widget_at_delete assms] by (simp add: dispatch_all_def)

definition empty_widget :: widget where
  "empty_widget = \<lparr>w_id = [], needsQuery = False, needsConfiguration = False, isFacet = False,
     rootQuery = False, isAutosuggest = False, wantResults = False, wantFacets = False,
     w_query = JUndef, semanticQuery = None, isSemantic = False, w_value = JUndef,
     submittedAt = None, w_table = NoTable, filterQuery = JUndef, exclusionQuery = JUndef,
     facetOptions = [], isLoading = False, configuration = JUndef, w_result = None\<rparr>"

definition empty_result :: result where
  "empty_result = \<lparr>r_data = [], r_facetData = Buckets [], r_total = JNum 0, r_error = None\<rparr>"

lemma result_kept_witness:
  "result_at (dispatch_all [SetWidgetResult ''a'' False (Some empty_result), SetWidget ''a'' empty_widget,
       DeleteWidget ''b'']
     (reducer (SetWidget ''a'' empty_widget) (initialState ''u'' ''t'' [] :: unit shared_state))) ''a''
   = Some empty_result"
  by (rule result_kept) (simp_all add: widget_at_set empty_widget_def)

lemma late_results_ignored_witness:
  "widget_at (dispatch_all [DeleteWidget ''a'', SetWidgetResult ''a'' False (Some empty_result)]
     (reducer (SetWidget ''a'' empty_widget) (initialState ''u'' ''t'' [] :: unit shared_state))) ''a'' = None"
  by (rule late_results_ignored) simp

end
