(* ===== verification/Listener.thy ===== *)
theory Listener
  imports SharedStore ComponentClient "HOL-Library.List_Lexorder" "HOL-Library.Char_ord"
begin

text \<open>
  The listener of the search components (ts/packages/components/src/Listener.tsx): it reads the
  widgets of the shared state, decides when and for which widgets to send a multi-query, builds the
  request of each widget, and turns the responses into dispatches.

  \<open>stringify\<close> is \<open>JSON.stringify\<close>. The buckets of a response are read through the API's type (a string
  key and a number).
\<close>

section \<open>What a render derives from the widgets\<close>

definition isSearchWidgetConfig :: "jsval \<Rightarrow> bool" where
  "isSearchWidgetConfig config \<longleftrightarrow>
     config \<noteq> JNull \<and> typeof_object config \<and> is_number (fld config ''itemsPerPage'')
     \<and> is_number (fld config ''page'')"

definition widgetThat :: "(widget \<Rightarrow> bool) \<Rightarrow> 'e shared_state \<Rightarrow> (string, widget) jmap" where
  "widgetThat key s = filter (\<lambda>(_, v). key v) (widgets s)"

definition mapFrom :: "(widget \<Rightarrow> jsval) \<Rightarrow> 'e shared_state \<Rightarrow> (string, jsval) jmap" where
  "mapFrom key s = map (\<lambda>(k, v). (k, key v)) (filter (\<lambda>(_, v). truthy (key v)) (widgets s))"

definition queries :: "'e shared_state \<Rightarrow> (string, jsval) jmap" where
  "queries s = map (\<lambda>(k, v). (k, w_query v)) (filter (\<lambda>(_, v). truthy (w_query v)) (widgets s))"

record semantic_query =
  sq_query :: string
  sq_indexes :: jsval
  sq_limit :: jsval

definition has_semantic :: "widget \<Rightarrow> bool" where
  "has_semantic w \<longleftrightarrow> semanticQuery w \<noteq> None \<and> semanticQuery w \<noteq> Some [] \<and> isSemantic w"

definition semantic_of :: "widget \<Rightarrow> semantic_query" where
  "semantic_of w = \<lparr>sq_query = (case semanticQuery w of None \<Rightarrow> [] | Some q \<Rightarrow> q),
                    sq_indexes = fld (configuration w) ''indexes'', sq_limit = fld (configuration w) ''limit''\<rparr>"

definition semanticQueries :: "'e shared_state \<Rightarrow> (string, semantic_query) jmap" where
  "semanticQueries s = map (\<lambda>(k, v). (k, semantic_of v)) (filter (\<lambda>(_, v). has_semantic v) (widgets s))"

definition isAutosuggestWidget :: "'e shared_state \<Rightarrow> string \<Rightarrow> bool" where
  "isAutosuggestWidget s widgetId =
     (case jmap_get (widgets s) widgetId of None \<Rightarrow> False | Some w \<Rightarrow> isAutosuggest w)"

text \<open>\<open>.sort()\<close> compares the entries as strings.\<close>

definition entriesForGroup ::
    "'e shared_state \<Rightarrow> (string \<times> jsval) list \<Rightarrow> bool \<Rightarrow> jsval" where
  "entriesForGroup s entries autosuggestOnly =
     JArr (sort_key to_str
       (map (\<lambda>(k, v). JArr [JStr k, v])
         (filter (\<lambda>(widgetId, _). isAutosuggestWidget s widgetId = autosuggestOnly) entries)))"

definition semantic_value :: "semantic_query \<Rightarrow> jsval" where
  "semantic_value q = JObj [(''query'', JStr (sq_query q)), (''indexes'', sq_indexes q), (''limit'', sq_limit q)]"

definition group_context :: "'e shared_state \<Rightarrow> jsval" where
  "group_context s =
     JObj [(''url'', opt_str (url s)), (''table'', JStr (table s)),
           (''headers'', case sh_headers s of None \<Rightarrow> JUndef | Some hs \<Rightarrow> JObj (map (\<lambda>(k, v). (k, JStr v)) hs))]"

text \<open>\<open>autosuggestGroupKey\<close> (True) and \<open>nonAutosuggestGroupKey\<close> (False).\<close>

definition group_key :: "(jsval \<Rightarrow> string) \<Rightarrow> 'e shared_state \<Rightarrow> bool \<Rightarrow> string" where
  "group_key stringify s auto = stringify (JObj
     [(''context'', group_context s),
      (''queries'', entriesForGroup s (queries s) auto),
      (''semanticQueries'', entriesForGroup s (map (\<lambda>(k, q). (k, semantic_value q)) (semanticQueries s)) auto),
      (''configurations'', entriesForGroup s (mapFrom configuration s) auto)])"

text \<open>The parameters given to \<open>onChange\<close>: the pages above 1, then the values.\<close>

definition change_params :: "'e shared_state \<Rightarrow> (string, jsval) jmap" where
  "change_params s =
     (let pages = map (\<lambda>(k, v). (k @ ''Page'', fld v ''page''))
            (filter (\<lambda>(_, v). case fld v ''page'' of JNum n \<Rightarrow> n > 1 | _ \<Rightarrow> False) (mapFrom configuration s))
      in fold (\<lambda>(k, v) m. jmap_set m k v) (pages @ mapFrom w_value s) [])"

text \<open>Whether the effect schedules a request.\<close>

definition listener_ready :: "'e shared_state \<Rightarrow> bool" where
  "listener_ready s =
     (let queriesReady = length (queries s) + length (semanticQueries s) = length (widgetThat needsQuery s);
          configurationsReady = length (mapFrom configuration s) = length (widgetThat needsConfiguration s);
          isAtLeastOneWidgetReady = length (widgetThat needsQuery s) + length (widgetThat needsConfiguration s) > 0
      in queriesReady \<and> configurationsReady \<and> isAtLeastOneWidgetReady)"

section \<open>The request of a result widget\<close>

definition first_indexes :: "semantic_query list \<Rightarrow> jsval" where
  "first_indexes qs = elem_at (JArr (filter nonempty_array (map sq_indexes qs))) 0"

definition semantic_text :: "semantic_query list \<Rightarrow> string" where
  "semantic_text qs = join '' '' (map sq_query qs)"

definition widget_flag :: "(widget \<Rightarrow> bool) \<Rightarrow> 'e shared_state \<Rightarrow> string \<Rightarrow> bool" where
  "widget_flag flag s k = (case jmap_get (widgets s) k of None \<Rightarrow> False | Some w \<Rightarrow> flag w)"

definition filteredSemanticQueries :: "'e shared_state \<Rightarrow> string \<Rightarrow> widget \<Rightarrow> semantic_query list" where
  "filteredSemanticQueries s i r =
     map snd (if isAutosuggest r then filter (\<lambda>(k, _). k = i) (semanticQueries s)
              else filter (\<lambda>(k, _). k = i \<or> \<not> widget_flag isAutosuggest s k) (semanticQueries s))"

definition filteredQueries :: "'e shared_state \<Rightarrow> string \<Rightarrow> widget \<Rightarrow> (string, jsval) jmap" where
  "filteredQueries s i r =
     (if isAutosuggest r then filter (\<lambda>(k, _). k = i) (queries s)
      else if rootQuery r
      then filter (\<lambda>(k, _). k = i \<or> \<not> widget_flag rootQuery s k \<and> \<not> widget_flag isAutosuggest s k) (queries s)
      else filter (\<lambda>(k, _). \<not> widget_flag isAutosuggest s k) (queries s))"

definition option_aggregations :: "(string \<times> rat option) list \<Rightarrow> (string \<times> jsval) list" where
  "option_aggregations opts =
     fold (\<lambda>(field, sz) aggs. obj_put field
             (JObj [(''type'', JStr ''terms''), (''field'', JStr field),
                    (''size'', js_or (opt_num sz) (JNum 5))]) aggs) opts []"

fun num_of :: "jsval \<Rightarrow> rat" where
  "num_of (JNum n) = n"
| "num_of _ = 0"

definition search_query :: "'e shared_state \<Rightarrow> string \<Rightarrow> widget \<Rightarrow> jsval" where
  "search_query s i r =
     (let config = configuration r;
          itemsPerPage = fld config ''itemsPerPage'';
          page = fld config ''page'';
          semantic = filteredSemanticQueries s i r;
          semanticQuery = semantic_text semantic;
          hasSemanticQuery = (semanticQuery \<noteq> []);
          fq = filteredQueries s i r;
          queryObj =
            [(''table'', JStr (resolveTable (w_table r) (table s))),
             (''semantic_search'', if hasSemanticQuery then JStr semanticQuery else JUndef),
             (''indexes'', if hasSemanticQuery then first_indexes semantic else JUndef),
             (''limit'', itemsPerPage),
             (''offset'', JNum ((num_of page - 1) * num_of itemsPerPage)),
             (''order_by'', fld config ''sort'')];
          queryObj = (if length fq > 0 \<or> \<not> hasSemanticQuery
                      then obj_put ''full_text_search'' (conjunctsFrom (Some fq)) queryObj else queryObj);
          queryObj = (if truthy (fld config ''fields'')
                      then obj_put ''fields'' (fld config ''fields'') queryObj else queryObj);
          queryObj = (if truthy (filterQuery r)
                      then obj_put ''filter_query'' (filterQuery r) queryObj else queryObj);
          queryObj = (if truthy (exclusionQuery r)
                      then obj_put ''exclusion_query'' (exclusionQuery r) queryObj else queryObj);
          queryObj = (if facetOptions r \<noteq> []
                      then obj_put ''aggregations'' (JObj (option_aggregations (facetOptions r))) queryObj
                      else queryObj)
      in JObj queryObj)"

section \<open>The request of a facet\<close>

definition facet_aggregations :: "jsval list \<Rightarrow> jsval \<Rightarrow> (string \<times> jsval) list" where
  "facet_aggregations flds sz =
     fold (\<lambda>f aggs. obj_put (to_str f)
             (JObj [(''type'', JStr ''terms''), (''field'', f), (''size'', sz)]) aggs) flds []"

definition facet_full_text :: "'e shared_state \<Rightarrow> string \<Rightarrow> widget \<Rightarrow> jsval" where
  "facet_full_text s i f =
     (let baseQueries = jmap_delete (queries s) i;
          facetOnlyQueries = filter (\<lambda>(k, _). widget_flag isFacet s k) baseQueries
      in if truthy (fld (configuration f) ''useCustomQuery'') \<and> truthy (w_query f)
         then conjunctsFrom (Some (jmap_set facetOnlyQueries i (w_query f)))
         else conjunctsFrom (Some baseQueries))"

definition facet_query :: "'e shared_state \<Rightarrow> string \<Rightarrow> widget \<Rightarrow> jsval list \<Rightarrow> jsval" where
  "facet_query s i f flds =
     (let semantic = map snd (filter (\<lambda>(k, _). k = i \<or> \<not> widget_flag isAutosuggest s k) (semanticQueries s));
          semanticQuery = semantic_text semantic;
          limit = js_or (elem_at (JArr (map sq_limit semantic)) 0) (JNum 10);
          facetQueryObj =
            [(''table'', JStr (resolveTable (w_table f) (table s))),
             (''semantic_search'', if semanticQuery \<noteq> [] then JStr semanticQuery else JUndef),
             (''indexes'', if semanticQuery \<noteq> [] then first_indexes semantic else JUndef),
             (''limit'', if semanticQuery \<noteq> [] then limit else JNum 0),
             (''full_text_search'', facet_full_text s i f),
             (''aggregations'', JObj (facet_aggregations flds (fld (configuration f) ''size'')))];
          facetQueryObj = (if truthy (filterQuery f)
                           then obj_put ''filter_query'' (filterQuery f) facetQueryObj else facetQueryObj);
          facetQueryObj = (if truthy (exclusionQuery f)
                           then obj_put ''exclusion_query'' (exclusionQuery f) facetQueryObj
                           else facetQueryObj)
      in JObj facetQueryObj)"

section \<open>Reading a response\<close>

definition as_bucket :: "jsval \<Rightarrow> bucket" where
  "as_bucket v = \<lparr>bk_key = to_str (fld v ''key''), bk_doc_count = num_of (fld v ''doc_count'')\<rparr>"

text \<open>\<open>result.aggregations?.[f]?.buckets || []\<close>\<close>

definition buckets_of :: "jsval \<Rightarrow> string \<Rightarrow> bucket list" where
  "buckets_of res f =
     (case fld (fld (fld res ''aggregations'') f) ''buckets'' of JArr bs \<Rightarrow> map as_bucket bs | _ \<Rightarrow> [])"

definition hits_of :: "jsval \<Rightarrow> jsval list" where
  "hits_of res = (case fld (fld res ''hits'') ''hits'' of JArr vs \<Rightarrow> vs | _ \<Rightarrow> [])"

definition total_of :: "jsval \<Rightarrow> jsval" where
  "total_of res = js_or (fld (fld res ''hits'') ''total'') (JNum 0)"

definition add_bucket :: "bucket \<Rightarrow> (string, bucket) jmap \<Rightarrow> (string, bucket) jmap" where
  "add_bucket i m =
     jmap_set m (bk_key i)
       \<lparr>bk_key = bk_key i,
        bk_doc_count = (case jmap_get m (bk_key i) of
                          Some b \<Rightarrow> bk_doc_count i + bk_doc_count b | None \<Rightarrow> bk_doc_count i)\<rparr>"

definition field_buckets :: "jsval \<Rightarrow> jsval \<Rightarrow> jsval \<Rightarrow> string \<Rightarrow> bucket list" where
  "field_buckets filterValue useCustomQuery res f =
     (if truthy filterValue \<and> \<not> truthy useCustomQuery
      then filter (\<lambda>i. str_includes (to_lower (bk_key i)) (to_lower (to_str filterValue))) (buckets_of res f)
      else buckets_of res f)"

definition merge_buckets :: "jsval \<Rightarrow> bucket list \<Rightarrow> bucket list" where
  "merge_buckets sz bs =
     slice_to sz (sort_key (\<lambda>b. - bk_doc_count b) (map snd (fold add_bucket bs [])))"

section \<open>A run of the listener effect\<close>

text \<open>What is kept of a pushed item: its id, its query, and how its response is read.\<close>

datatype reader =
    SearchReader "(string \<times> rat option) list"
  | FacetReader "jsval list" jsval jsval jsval

record ms_item =
  ms_id :: string
  ms_query :: jsval
  ms_reader :: reader

fun item_data :: "reader \<Rightarrow> jsval \<Rightarrow> jsval list" where
  "item_data (SearchReader opts) res = hits_of res"
| "item_data (FacetReader flds sz fv cq) res = []"

fun item_facets :: "reader \<Rightarrow> jsval \<Rightarrow> facet_data" where
  "item_facets (SearchReader opts) res =
     (if opts \<noteq> [] \<and> truthy (fld res ''aggregations'')
      then BucketGroups (map (\<lambda>(field, _). buckets_of res field) opts) else Buckets [])"
| "item_facets (FacetReader flds sz fv cq) res =
     Buckets (merge_buckets sz (concat (map (\<lambda>f. field_buckets fv cq res (to_str f)) flds)))"

definition search_items :: "'e shared_state \<Rightarrow> bool \<Rightarrow> bool \<Rightarrow> ms_item list" where
  "search_items s autosuggestChanged nonAutosuggestChanged =
     map (\<lambda>(i, r). \<lparr>ms_id = i, ms_query = search_query s i r, ms_reader = SearchReader (facetOptions r)\<rparr>)
       (filter (\<lambda>(_, r). (if isAutosuggest r then autosuggestChanged else nonAutosuggestChanged)
                        \<and> isSearchWidgetConfig (configuration r))
         (widgetThat wantResults s))"

text \<open>
  \<open>config.fields\<close> throws when there is no configuration, \<open>fields.forEach\<close> when it is not an array.
\<close>

definition facet_item :: "'e shared_state \<Rightarrow> string \<times> widget \<Rightarrow> ms_item res" where
  "facet_item s = (\<lambda>(i, f).
     (let config = configuration f in
      case fld_or_throw config ''fields'' of
        Inl e \<Rightarrow> Inl e
      | Inr v \<Rightarrow>
          (case v of
             JArr flds \<Rightarrow> Inr \<lparr>ms_id = i, ms_query = facet_query s i f flds,
                ms_reader = FacetReader flds (fld config ''size'') (fld config ''filterValue'')
                              (fld config ''useCustomQuery'')\<rparr>
           | _ \<Rightarrow> throw_type_error)))"

fun collect :: "('a \<Rightarrow> 'b res) \<Rightarrow> 'a list \<Rightarrow> 'b list res" where
  "collect f [] = Inr []"
| "collect f (x # xs) =
     (case f x of
        Inl e \<Rightarrow> Inl e
      | Inr y \<Rightarrow> map_sum id (\<lambda>ys. y # ys) (collect f xs))"

text \<open>\<open>prevGroupKeysRef\<close>: the keys of the last run, autosuggest first.\<close>

definition listener_effect ::
    "(jsval \<Rightarrow> string) \<Rightarrow> 'e shared_state \<Rightarrow> string \<times> string \<Rightarrow> (string \<times> string) \<times> ms_item list res" where
  "listener_effect stringify s prev =
     (let autoKey = group_key stringify s True; nonAutoKey = group_key stringify s False;
          autosuggestChanged = (autoKey \<noteq> fst prev); nonAutosuggestChanged = (nonAutoKey \<noteq> snd prev);
          facets = (if nonAutosuggestChanged then collect (facet_item s) (widgetThat isFacet s) else Inr [])
      in ((autoKey, nonAutoKey),
          map_sum id (\<lambda>fs. search_items s autosuggestChanged nonAutosuggestChanged @ fs) facets))"

section \<open>Fetching\<close>

definition error_result :: "string \<Rightarrow> result" where
  "error_result msg = \<lparr>r_data = [], r_facetData = Buckets [], r_total = JNum 0, r_error = Some msg\<rparr>"

definition fail_item :: "string \<Rightarrow> ms_item \<Rightarrow> 'e shared_action" where
  "fail_item msg item = SetWidgetResult (ms_id item) False (Some (error_result msg))"

definition item_response :: "ms_item \<Rightarrow> jsval \<Rightarrow> 'e shared_action" where
  "item_response item response =
     (if fld response ''status'' \<noteq> JNum 200
      then fail_item (to_str (js_or (fld response ''error'') (JStr ''Query failed''))) item
      else SetWidgetResult (ms_id item) False
             (Some \<lparr>r_data = item_data (ms_reader item) response,
                    r_facetData = item_facets (ms_reader item) response,
                    r_total = total_of response, r_error = None\<rparr>))"

text \<open>
  \<open>responses.forEach\<close>: the dispatches, and whether it threw (a response past the last item, or a
  response that is null).
\<close>

fun forEach_response :: "ms_item list \<Rightarrow> jsval list \<Rightarrow> 'e shared_action list \<times> bool" where
  "forEach_response items [] = ([], False)"
| "forEach_response [] (r # rs) = ([], True)"
| "forEach_response (item # items) (r # rs) =
     (if nullish r then ([], True)
      else (let (acts, threw) = forEach_response items rs in (item_response item r # acts, threw)))"

definition fetchData :: "ms_item list \<Rightarrow> jsval \<Rightarrow> 'e shared_action list" where
  "fetchData items res =
     (if items = [] then []
      else if truthy res \<and> typeof_object res \<and> truthy (fld res ''error'')
      then map (fail_item (to_str (fld res ''message''))) items
      else let responses = fld res ''responses'' in
        if \<not> truthy responses then []
        else (case responses of
                JArr rs \<Rightarrow>
                  (let (acts, threw) = forEach_response items rs
                   in if threw then acts @ map (fail_item ''Unexpected error occurred'') items else acts)
              | _ \<Rightarrow> map (fail_item ''Unexpected error occurred'') items))"

end
