(* ===== verification/ListenerProps.thy ===== *)
theory ListenerProps
  imports Listener
begin

text \<open>
  What the listener guarantees: merged facets, the meaning of the filters it sends, the isolation of
  autosuggest widgets, when it is ready and when it stays silent, and that a fetch settles every
  widget it was made for.
\<close>

section \<open>Merged facet buckets\<close>

definition key_total :: "bucket list \<Rightarrow> string \<Rightarrow> rat" where
  "key_total bs k = sum_list (map bk_doc_count (filter (\<lambda>b. bk_key b = k) bs))"

lemma add_bucket_ok: "jmap_ok m \<Longrightarrow> jmap_ok (add_bucket b m)"
  by (simp add: add_bucket_def jmap_ok_set)

lemma key_total_absent: "k \<notin> bk_key ` set bs \<Longrightarrow> key_total bs k = 0"
  by (induction bs) (auto simp: key_total_def)

lemma key_total_Cons:
  "key_total (b # bs) k = (if bk_key b = k then bk_doc_count b else 0) + key_total bs k"
  by (simp add: key_total_def)

lemma fold_add_bucket_get:
  "jmap_get (fold add_bucket bs m) k =
     (if k \<in> bk_key ` set bs
      then Some \<lparr>bk_key = k, bk_doc_count = key_total bs k
                   + (case jmap_get m k of Some b \<Rightarrow> bk_doc_count b | None \<Rightarrow> 0)\<rparr>
      else jmap_get m k)"
proof (induction bs arbitrary: m)
  case (Cons b bs)
  show ?case
    unfolding fold_Cons o_apply Cons.IH
    by (cases "k \<in> bk_key ` set bs")
      (auto simp: add_bucket_def key_total_Cons key_total_absent split: option.split)
qed simp

lemma fold_add_bucket_ok: "jmap_ok m \<Longrightarrow> jmap_ok (fold add_bucket bs m)"
  by (rule fold_invariant) (auto intro: add_bucket_ok)

lemma merged_set:
  "b \<in> set (map snd (fold add_bucket bs [])) \<longleftrightarrow>
     bk_key b \<in> bk_key ` set bs \<and> b = \<lparr>bk_key = bk_key b, bk_doc_count = key_total bs (bk_key b)\<rparr>"
proof -
  have "jmap_ok (fold add_bucket bs [])" by (simp add: fold_add_bucket_ok)
  then have entry: "(k, b) \<in> set (fold add_bucket bs []) \<longleftrightarrow>
      k \<in> bk_key ` set bs \<and> b = \<lparr>bk_key = k, bk_doc_count = key_total bs k\<rparr>" for k
    unfolding jmap_get_iff [symmetric, OF \<open>jmap_ok (fold add_bucket bs [])\<close>]
    by (auto simp: fold_add_bucket_get)
  have "b \<in> set (map snd (fold add_bucket bs [])) \<longleftrightarrow> (\<exists>k. (k, b) \<in> set (fold add_bucket bs []))"
    by force
  then show ?thesis unfolding entry by (metis bucket.select_convs(1))
qed

lemma merged_keys: "map bk_key (map snd (fold add_bucket bs [])) = map fst (fold add_bucket bs [])"
proof -
  have ok: "jmap_ok (fold add_bucket bs [])" by (simp add: fold_add_bucket_ok)
  have "bk_key b = k" if "(k, b) \<in> set (fold add_bucket bs [])" for k b
    using that by (auto simp flip: jmap_get_iff [OF ok] simp: fold_add_bucket_get split: if_splits)
  then show ?thesis by auto
qed

lemma merged_distinct: "distinct (map bk_key (map snd (fold add_bucket bs [])))"
  using fold_add_bucket_ok [of "[]" bs] unfolding merged_keys by (simp add: jmap_ok_def)

text \<open>C8. The facet data shown for a facet over several fields is exactly the merge of their buckets: at
  most \<open>size\<close> buckets, one per key, each with the sum of the counts of its key in all fields, in
  descending order of count; and no key that was cut off has a larger count than one that is shown.\<close>

theorem facets_merged:
  "let out = merge_buckets (JNum (of_nat n)) bs in
     length out = min n (card (bk_key ` set bs)) \<and> distinct (map bk_key out)
     \<and> sorted (rev (map bk_doc_count out))
     \<and> (\<forall>b \<in> set out. bk_key b \<in> bk_key ` set bs \<and> bk_doc_count b = key_total bs (bk_key b))
     \<and> (\<forall>k \<in> bk_key ` set bs. k \<notin> bk_key ` set out \<longrightarrow> (\<forall>b \<in> set out. key_total bs k \<le> bk_doc_count b))"
proof -
  let ?m = "map snd (fold add_bucket bs [])"
  define srt where "srt = sort_key (\<lambda>b. - bk_doc_count b) ?m"
  have out: "merge_buckets (JNum (of_nat n)) bs = take n srt"
    by (simp add: merge_buckets_def slice_to_nat srt_def)
  have d: "distinct (map bk_key srt)"
    using merged_distinct [of bs] unfolding srt_def distinct_map [of bk_key] by (simp only: set_sort distinct_sort)
  have set: "set srt = set ?m" by (simp add: srt_def)
  have keys: "bk_key ` set srt = bk_key ` set bs"
    unfolding set using merged_set [of _ bs]
    by (auto simp: image_iff) (metis bucket.select_convs(1))
  have len: "length srt = card (bk_key ` set bs)"
    using distinct_card [OF d] keys by simp
  have desc: "sorted (rev (map bk_doc_count srt))"
  proof -
    have "sorted_wrt (\<le>) (map (\<lambda>b. - bk_doc_count b) srt)"
      unfolding srt_def by (rule sorted_sort_key)
    then show ?thesis by (simp only: sorted_wrt_map sorted_wrt_rev neg_le_iff_le)
  qed
  have val: "bk_key b \<in> bk_key ` set bs \<and> bk_doc_count b = key_total bs (bk_key b)" if "b \<in> set srt" for b
    using that merged_set [of b bs] unfolding set by (metis bucket.select_convs(2))
  have split: "srt = take n srt @ drop n srt" by simp
  have cut: "key_total bs k \<le> bk_doc_count b"
    if k: "k \<in> bk_key ` set bs" "k \<notin> bk_key ` set (take n srt)" and b: "b \<in> set (take n srt)" for k b
  proof -
    obtain c where c: "c \<in> set srt" "bk_key c = k" using k(1) keys by force
    with k(2) have "c \<in> set (drop n srt)"
      by (metis UnE image_eqI set_append split)
    moreover have "sorted_wrt (\<lambda>x y. y \<le> x) (map bk_doc_count (take n srt @ drop n srt))"
      using desc by (simp add: sorted_wrt_rev del: append_take_drop_id flip: split)
    ultimately have "bk_doc_count c \<le> bk_doc_count b"
      using b unfolding map_append sorted_wrt_append by auto
    with c val [of c] show ?thesis by simp
  qed
  have "sorted (rev (map bk_doc_count (take n srt)))"
    using desc unfolding sorted_wrt_rev take_map [symmetric] by (rule sorted_wrt_take)
  moreover have "distinct (map bk_key (take n srt))"
    using d by (simp only: take_map [symmetric] distinct_take)
  ultimately show ?thesis
    unfolding out Let_def using len val cut by (auto dest: in_set_takeD)
qed


text \<open>The buckets of the witness: the key \<open>a\<close> occurs in two fields.\<close>

definition two_fields :: "bucket list" where
  "two_fields = [\<lparr>bk_key = ''a'', bk_doc_count = 2\<rparr>, \<lparr>bk_key = ''b'', bk_doc_count = 4\<rparr>,
                 \<lparr>bk_key = ''a'', bk_doc_count = 3\<rparr>]"

lemma facets_merged_witness:
  "merge_buckets (JNum (of_nat 1)) two_fields = [\<lparr>bk_key = ''a'', bk_doc_count = 5\<rparr>]
   \<and> length (merge_buckets (JNum (of_nat 1)) two_fields) = min 1 (card (bk_key ` set two_fields))"
proof
  show "merge_buckets (JNum (of_nat 1)) two_fields = [\<lparr>bk_key = ''a'', bk_doc_count = 5\<rparr>]"
    unfolding merge_buckets_def slice_to_nat
    by (simp add: two_fields_def add_bucket_def jmap_set_def jmap_get_def)
qed (use facets_merged [of 1 two_fields] in \<open>simp only: Let_def\<close>)

section \<open>What the filters of a request mean\<close>

lemma widget_flag_member: "jmap_ok (widgets s) \<Longrightarrow> (k, w) \<in> set (widgets s) \<Longrightarrow> widget_flag P s k = P w"
  by (simp add: widget_flag_def flip: jmap_get_iff)

text \<open>Filtering the derived maps by a widget's flags is filtering the widgets.\<close>

lemma filter_derived:
  assumes "\<And>k w. (k, w) \<in> set ws \<Longrightarrow> P k = Q (k, w)"
  shows "filter (\<lambda>(k, _). P k) (map (\<lambda>(k, w). (k, f w)) (filter (\<lambda>(_, w). C w) ws))
           = map (\<lambda>(k, w). (k, f w)) (filter (\<lambda>(_, w). C w) (filter Q ws))"
  using assms by (induction ws) (auto split: if_splits)

definition search_filter :: "string \<Rightarrow> widget \<Rightarrow> string \<times> widget \<Rightarrow> bool" where
  "search_filter i r = (\<lambda>(k, w). \<not> isAutosuggest w \<and> (rootQuery r \<longrightarrow> k = i \<or> \<not> rootQuery w))"

lemma filteredQueries_widgets:
  assumes ok: "jmap_ok (widgets s)" and i: "(i, r) \<in> set (widgets s)" and r: "\<not> isAutosuggest r"
  shows "filteredQueries s i r =
    map (\<lambda>(k, w). (k, w_query w)) (filter (\<lambda>(_, w). truthy (w_query w)) (filter (search_filter i r) (widgets s)))"
proof -
  have own: "w = r" if "(i, w) \<in> set (widgets s)" for w
    using that i ok by (metis jmap_get_iff option.inject)
  show ?thesis
  proof (cases "rootQuery r")
    case True
    have "filter (\<lambda>(k, _). k = i \<or> \<not> widget_flag rootQuery s k \<and> \<not> widget_flag isAutosuggest s k) (queries s)
        = map (\<lambda>(k, w). (k, w_query w)) (filter (\<lambda>(_, w). truthy (w_query w)) (filter (search_filter i r) (widgets s)))"
      unfolding queries_def
      by (rule filter_derived) (use True r own in \<open>auto simp: search_filter_def widget_flag_member [OF ok]\<close>)
    with True r show ?thesis by (simp add: filteredQueries_def)
  next
    case False
    have "filter (\<lambda>(k, _). \<not> widget_flag isAutosuggest s k) (queries s)
        = map (\<lambda>(k, w). (k, w_query w)) (filter (\<lambda>(_, w). truthy (w_query w)) (filter (search_filter i r) (widgets s)))"
      unfolding queries_def
      by (rule filter_derived) (use False in \<open>auto simp: search_filter_def widget_flag_member [OF ok]\<close>)
    with False r show ?thesis by (simp add: filteredQueries_def)
  qed
qed

lemma filteredSemantic_widgets:
  assumes ok: "jmap_ok (widgets s)" and i: "(i, r) \<in> set (widgets s)" and r: "\<not> isAutosuggest r"
  shows "filteredSemanticQueries s i r =
    map snd (map (\<lambda>(k, w). (k, semantic_of w))
      (filter (\<lambda>(_, w). has_semantic w) (filter (\<lambda>(_, w). \<not> isAutosuggest w) (widgets s))))"
proof -
  have own: "w = r" if "(i, w) \<in> set (widgets s)" for w
    using that i ok by (metis jmap_get_iff option.inject)
  have "filter (\<lambda>(k, _). k = i \<or> \<not> widget_flag isAutosuggest s k) (semanticQueries s)
      = map (\<lambda>(k, w). (k, semantic_of w))
          (filter (\<lambda>(_, w). has_semantic w) (filter (\<lambda>(_, w). \<not> isAutosuggest w) (widgets s)))"
    unfolding semanticQueries_def
    by (rule filter_derived) (use r own in \<open>auto simp: widget_flag_member [OF ok]\<close>)
  with r show ?thesis by (simp add: filteredSemanticQueries_def)
qed


lemma search_full_text:
  "fld (search_query s i r) ''full_text_search'' =
     (if filteredQueries s i r \<noteq> [] \<or> semantic_text (filteredSemanticQueries s i r) = []
      then conjunctsFrom (Some (filteredQueries s i r)) else JUndef)"
  by (simp add: search_query_def Let_def)

lemma facet_full_text_field: "fld (facet_query s i f flds) ''full_text_search'' = facet_full_text s i f"
  by (simp add: facet_query_def Let_def)

text \<open>The widgets whose query constrains the results of the widget \<open>i\<close>.\<close>

definition constraining :: "'e shared_state \<Rightarrow> string \<Rightarrow> widget \<Rightarrow> (string \<times> widget) set" where
  "constraining s i r = {(k, w) \<in> set (widgets s). truthy (w_query w) \<and> search_filter i r (k, w)}"

lemma filteredQueries_constraining:
  assumes "jmap_ok (widgets s)" "(i, r) \<in> set (widgets s)" "\<not> isAutosuggest r"
  shows "filteredQueries s i r = [] \<longleftrightarrow> constraining s i r = {}"
    and "snd ` set (filteredQueries s i r) = (\<lambda>(k, w). w_query w) ` constraining s i r"
  unfolding filteredQueries_widgets [OF assms] constraining_def
  by (auto simp: filter_empty_conv) (force simp: image_iff split_def)+

text \<open>C4. The full-text filter a search widget sends means what the page shows: it selects a document
  exactly when the query of every constraining widget does, where the constraining widgets are all
  that have a query, less autosuggest widgets and, for a root query widget, less the other root
  queries. With no such widget nothing is selected by full text, and the field is left out when
  there is a semantic query instead.\<close>

theorem search_filter_meaning:
  assumes "store_ok s" "widget_at s i = Some r" "\<not> isAutosuggest r"
  shows "if constraining s i r = {}
    then (if semantic_text (filteredSemanticQueries s i r) = []
          then fld (search_query s i r) ''full_text_search'' = match_none
          else fld (search_query s i r) ''full_text_search'' = JUndef)
    else (query_sat leaf (fld (search_query s i r) ''full_text_search'')
            \<longleftrightarrow> (\<forall>(k, w) \<in> constraining s i r. query_sat leaf (w_query w)))"
proof -
  have ok: "jmap_ok (widgets s)" and i: "(i, r) \<in> set (widgets s)"
    using assms by (auto simp: store_ok_def widget_at_def jmap_get_iff)
  note fq = filteredQueries_constraining [OF ok i assms(3)]
  show ?thesis
  proof (cases "constraining s i r = {}")
    case True
    then have "filteredQueries s i r = []" using fq(1) by simp
    with True show ?thesis by (simp add: search_full_text conjunctsFrom_def)
  next
    case False
    then have "filteredQueries s i r \<noteq> []" using fq(1) by simp
    with False show ?thesis
      by (simp add: search_full_text qsat.conjuncts_sat fq(2) split_def)
  qed
qed

text \<open>The filter behind the counts of a facet: in the default mode it selects a document exactly when
  there is another widget with a query and every one of them selects it. Autosuggest widgets are
  among them, unlike in the filter of the result list the facet stands next to.\<close>

theorem facet_filter_meaning:
  fixes s :: "'e shared_state" and i :: string
  assumes "store_ok s" and "\<not> (truthy (fld (configuration f) ''useCustomQuery'') \<and> truthy (w_query f))"
  defines "others \<equiv> {(k, w) \<in> set (widgets s). k \<noteq> i \<and> truthy (w_query w)}"
  shows "query_sat leaf (fld (facet_query s i f flds) ''full_text_search'') \<longleftrightarrow>
           others \<noteq> {} \<and> (\<forall>(k, w) \<in> others. query_sat leaf (w_query w))"
proof -
  have del: "jmap_delete (queries s) i = map (\<lambda>(k, w). (k, w_query w))
      (filter (\<lambda>(k, w). k \<noteq> i \<and> truthy (w_query w)) (widgets s))"
    by (simp add: jmap_delete_def queries_def AList.delete_eq filter_map o_def split_def)
      (rule arg_cong [where f = "map _"], auto intro!: filter_cong)
  have "jmap_delete (queries s) i = [] \<longleftrightarrow> others = {}"
    unfolding del others_def by (auto simp: filter_empty_conv)
  moreover have "snd ` set (jmap_delete (queries s) i) = (\<lambda>(k, w). w_query w) ` others"
    unfolding del others_def by force
  ultimately show ?thesis
    using assms(2) by (auto simp: facet_full_text_field facet_full_text_def Let_def qsat.conjuncts_sat split_def)
qed

section \<open>Autosuggest widgets do not disturb the others\<close>

definition submitted_widgets :: "'e shared_state \<Rightarrow> (string, widget) jmap" where
  "submitted_widgets s = filter (\<lambda>(_, w). \<not> isAutosuggest w) (widgets s)"

lemma search_filter_filter: "filter (search_filter i r) ws =
    filter (\<lambda>(k, w). rootQuery r \<longrightarrow> k = i \<or> \<not> rootQuery w) (filter (\<lambda>(_, w). \<not> isAutosuggest w) ws)"
  by (auto simp: search_filter_def intro!: filter_cong)

lemma search_query_submitted:
  assumes "jmap_ok (widgets s)" "jmap_ok (widgets s')" "submitted_widgets s = submitted_widgets s'"
    and "table s = table s'" "(i, r) \<in> set (submitted_widgets s)"
  shows "search_query s i r = search_query s' i r"
proof -
  have r: "\<not> isAutosuggest r" "(i, r) \<in> set (widgets s)" "(i, r) \<in> set (widgets s')"
  proof -
    have "(i, r) \<in> set (submitted_widgets s')" using assms(3,5) by simp
    with assms(5) show "\<not> isAutosuggest r" "(i, r) \<in> set (widgets s)" "(i, r) \<in> set (widgets s')"
      by (auto simp: submitted_widgets_def)
  qed
  have "filteredQueries s i r = filteredQueries s' i r"
    using assms(3) unfolding submitted_widgets_def
    by (simp only: filteredQueries_widgets [OF assms(1) r(2) r(1)] search_filter_filter
        filteredQueries_widgets [OF assms(2) r(3) r(1)])
  moreover have "filteredSemanticQueries s i r = filteredSemanticQueries s' i r"
    using assms(3) unfolding submitted_widgets_def
    by (simp only: filteredSemantic_widgets [OF assms(1) r(2) r(1)]
        filteredSemantic_widgets [OF assms(2) r(3) r(1)])
  ultimately show ?thesis
    using assms(4) by (simp add: search_query_def Let_def)
qed

lemma isAutosuggestWidget_flag: "isAutosuggestWidget s k = widget_flag isAutosuggest s k"
  by (simp add: isAutosuggestWidget_def widget_flag_def)

lemma entries_submitted:
  fixes s s' :: "'e shared_state"
  assumes "jmap_ok (widgets s)" "jmap_ok (widgets s')" "submitted_widgets s = submitted_widgets s'"
  shows "entriesForGroup s (map (\<lambda>(k, w). (k, f w)) (filter (\<lambda>(_, w). C w) (widgets s))) False
       = entriesForGroup s' (map (\<lambda>(k, w). (k, f w)) (filter (\<lambda>(_, w). C w) (widgets s'))) False"
proof -
  have "filter (\<lambda>(k, _). isAutosuggestWidget t k = False)
          (map (\<lambda>(k, w). (k, f w)) (filter (\<lambda>(_, w). C w) (widgets t)))
      = map (\<lambda>(k, w). (k, f w)) (filter (\<lambda>(_, w). C w) (submitted_widgets t))"
    if ok: "jmap_ok (widgets t)" for t :: "'e shared_state"
    unfolding submitted_widgets_def
    by (rule filter_derived) (auto simp: isAutosuggestWidget_flag widget_flag_member [OF ok])
  with assms show ?thesis by (simp add: entriesForGroup_def)
qed

lemma group_key_submitted:
  fixes s s' :: "'e shared_state"
  assumes "jmap_ok (widgets s)" "jmap_ok (widgets s')" "submitted_widgets s = submitted_widgets s'"
    and "group_context s = group_context s'"
  shows "group_key stringify s False = group_key stringify s' False"
  using entries_submitted [OF assms(1,2,3), of w_query "\<lambda>w. truthy (w_query w)"]
    entries_submitted [OF assms(1,2,3), of "\<lambda>w. semantic_value (semantic_of w)" has_semantic]
    entries_submitted [OF assms(1,2,3), of configuration "\<lambda>w. truthy (configuration w)"] assms(4)
  by (simp add: group_key_def queries_def semanticQueries_def mapFrom_def o_def split_def)

text \<open>Typing into an autosuggest box does not disturb the search: for two states that differ only in
  their autosuggest widgets, the key that decides whether the submitted widgets are fetched again is
  the same, and so is the request of every submitted widget.\<close>

theorem autosuggest_isolation:
  fixes s s' :: "'e shared_state"
  assumes "store_ok s" "store_ok s'" and "submitted_widgets s = submitted_widgets s'"
    and "url s = url s'" "table s = table s'" "sh_headers s = sh_headers s'"
  shows "group_key stringify s False = group_key stringify s' False
    \<and> (\<forall>(i, r) \<in> set (submitted_widgets s). search_query s i r = search_query s' i r)"
proof -
  have ok: "jmap_ok (widgets s)" "jmap_ok (widgets s')"
    using assms(1,2) by (simp_all add: store_ok_def)
  have "group_context s = group_context s'"
    using assms(4-6) by (simp add: group_context_def)
  then show ?thesis
    using group_key_submitted [OF ok assms(3)] search_query_submitted [OF ok assms(3,5)] by blast
qed


section \<open>When the listener is ready, and when it stays silent\<close>

lemma count_filters:
  assumes "\<And>x. x \<in> set xs \<Longrightarrow> A x \<or> B x \<Longrightarrow> N x" "\<And>x. x \<in> set xs \<Longrightarrow> \<not> (A x \<and> B x)"
  shows "length (filter A xs) + length (filter B xs) \<le> length (filter N xs)
    \<and> (length (filter A xs) + length (filter B xs) = length (filter N xs)
        \<longleftrightarrow> (\<forall>x \<in> set xs. N x \<longrightarrow> A x \<or> B x))"
  using assms
proof (induction xs)
  case (Cons x xs)
  then have IH: "length (filter A xs) + length (filter B xs) \<le> length (filter N xs)
    \<and> (length (filter A xs) + length (filter B xs) = length (filter N xs)
        \<longleftrightarrow> (\<forall>x \<in> set xs. N x \<longrightarrow> A x \<or> B x))" by simp
  have "A x \<or> B x \<Longrightarrow> N x" "\<not> (A x \<and> B x)" using Cons.prems by auto
  with IH show ?case by (cases "A x"; cases "B x"; cases "N x") auto
qed simp

text \<open>
  What every widget of the library registers: a query comes with \<open>needsQuery\<close>, a widget has a query or
  a semantic query and not both, and a configuration comes with \<open>needsConfiguration\<close>.
\<close>

definition well_registered :: "widget \<Rightarrow> bool" where
  "well_registered w \<longleftrightarrow>
     (truthy (w_query w) \<or> has_semantic w \<longrightarrow> needsQuery w)
     \<and> \<not> (truthy (w_query w) \<and> has_semantic w)
     \<and> (truthy (configuration w) \<longrightarrow> needsConfiguration w)"

text \<open>Counting is enough: when widgets register as the library's do, comparing the sizes of the maps
  is the same as asking that there is something to do and every widget that needs a query or a
  configuration has it.\<close>

theorem ready_iff_complete:
  assumes "\<forall>(k, w) \<in> set (widgets s). well_registered w"
  shows "listener_ready s \<longleftrightarrow>
    (\<exists>(k, w) \<in> set (widgets s). needsQuery w \<or> needsConfiguration w)
    \<and> (\<forall>(k, w) \<in> set (widgets s). (needsQuery w \<longrightarrow> truthy (w_query w) \<or> has_semantic w)
                                 \<and> (needsConfiguration w \<longrightarrow> truthy (configuration w)))"
proof -
  let ?ws = "widgets s"
  have q: "length (queries s) + length (semanticQueries s) = length (widgetThat needsQuery s) \<longleftrightarrow>
      (\<forall>x \<in> set ?ws. needsQuery (snd x) \<longrightarrow> truthy (w_query (snd x)) \<or> has_semantic (snd x))"
    using count_filters [of ?ws "\<lambda>x. truthy (w_query (snd x))" "\<lambda>x. has_semantic (snd x)" "\<lambda>x. needsQuery (snd x)"]
      assms
    by (auto simp: queries_def semanticQueries_def widgetThat_def well_registered_def split_def)
  have c: "length (mapFrom configuration s) = length (widgetThat needsConfiguration s) \<longleftrightarrow>
      (\<forall>x \<in> set ?ws. needsConfiguration (snd x) \<longrightarrow> truthy (configuration (snd x)))"
    using count_filters [of ?ws "\<lambda>x. truthy (configuration (snd x))" "\<lambda>x. False" "\<lambda>x. needsConfiguration (snd x)"]
      assms
    by (simp add: mapFrom_def widgetThat_def well_registered_def split_def)
  have e: "length (widgetThat needsQuery s) + length (widgetThat needsConfiguration s) > 0 \<longleftrightarrow>
      (\<exists>x \<in> set ?ws. needsQuery (snd x) \<or> needsConfiguration (snd x))"
    by (auto simp: widgetThat_def filter_empty_conv split_def)
  show ?thesis
    unfolding listener_ready_def Let_def q c e by (auto simp: split_def)
qed

lemma search_items_none: "search_items s False False = []"
  by (simp add: search_items_def filter_empty_conv)

text \<open>C31. The effect does not loop: run again on the same state, with the keys its first run left, it
  sends nothing; and a run for which only the autosuggest key changed sends requests of autosuggest
  widgets alone.\<close>

theorem listener_settles:
  "snd (listener_effect stringify s (fst (listener_effect stringify s prev))) = Inr []
   \<and> (group_key stringify s False = snd prev \<longrightarrow>
        (\<exists>items. snd (listener_effect stringify s prev) = Inr items
           \<and> (\<forall>it \<in> set items. \<exists>w. (ms_id it, w) \<in> set (widgets s) \<and> isAutosuggest w)))"
proof
  show "snd (listener_effect stringify s (fst (listener_effect stringify s prev))) = Inr []"
    by (simp add: listener_effect_def Let_def search_items_none)
  have "\<exists>w. (ms_id it, w) \<in> set (widgets s) \<and> isAutosuggest w"
    if "it \<in> set (search_items s b False)" for it b
    using that by (auto simp: search_items_def widgetThat_def split: if_splits)
  then show "group_key stringify s False = snd prev \<longrightarrow>
        (\<exists>items. snd (listener_effect stringify s prev) = Inr items
           \<and> (\<forall>it \<in> set items. \<exists>w. (ms_id it, w) \<in> set (widgets s) \<and> isAutosuggest w))"
    by (auto simp: listener_effect_def Let_def)
qed

section \<open>A fetch settles its widgets\<close>

definition settled :: "'e shared_state \<Rightarrow> string \<Rightarrow> bool" where
  "settled s k \<longleftrightarrow> (case widget_at s k of None \<Rightarrow> True | Some w \<Rightarrow> \<not> isLoading w)"

fun settling :: "'e shared_action \<Rightarrow> bool" where
  "settling (SetWidgetResult k l r) = (\<not> l)"
| "settling _ = False"

fun action_key :: "'e shared_action \<Rightarrow> string" where
  "action_key (SetWidgetResult k l r) = k"
| "action_key _ = []"

lemma settled_step:
  assumes "settling a"
  shows "settled (reducer a s) (action_key a)" and "settled s k \<Longrightarrow> settled (reducer a s) k"
proof -
  obtain k' r where a: "a = SetWidgetResult k' False r"
    using assms by (cases a) auto
  show own: "settled (reducer a s) (action_key a)"
    by (simp add: a settled_def widget_at_result split: option.split)
  show "settled (reducer a s) k" if "settled s k"
    using that own store_widget.frame [of a k s] by (cases "k' = k") (auto simp: a settled_def)
qed

lemma settled_all:
  assumes "\<forall>a \<in> set acts. settling a" and "k \<in> action_key ` set acts \<or> settled s k"
  shows "settled (dispatch_all acts s) k"
  using assms unfolding dispatch_all_def
  by (induction acts arbitrary: s) (auto simp: settled_step)

lemma fail_item_settling [simp]: "settling (fail_item msg it)" "action_key (fail_item msg it) = ms_id it"
  by (simp_all add: fail_item_def)

lemma item_response_settling [simp]:
  "settling (item_response it r)" "action_key (item_response it r) = ms_id it"
  by (simp_all add: item_response_def)

lemma forEach_settling:
  "forEach_response items rs = (acts, threw) \<Longrightarrow>
     (\<forall>a \<in> set acts. settling a)
     \<and> (length items \<le> length rs \<and> \<not> threw \<longrightarrow> action_key ` set acts = ms_id ` set items)"
  by (induction items rs arbitrary: acts threw rule: forEach_response.induct)
    (auto simp: Let_def split: if_splits prod.splits, blast+)

text \<open>C32. No spinner is left behind: when the multi-query resolves with an error, or with at least as many
  responses as there were requests (more, and null ones, included), then after the dispatches of the
  fetch every widget it was made for has left the loading state or is gone, whatever the state is by
  then.\<close>

theorem fetch_settles:
  fixes s :: "'e shared_state"
  assumes "(truthy res \<and> typeof_object res \<and> truthy (fld res ''error''))
    \<or> (\<exists>rs. fld res ''responses'' = JArr rs \<and> length items \<le> length rs)"
  shows "\<forall>it \<in> set items. settled (dispatch_all (fetchData items res) s) (ms_id it)"
proof
  fix it assume it: "it \<in> set items"
  then have ne: "items \<noteq> []" by auto
  let ?fail = "\<lambda>msg. map (fail_item msg) items :: 'e shared_action list"
  have fail: "\<forall>a \<in> set (?fail msg). settling a" "ms_id it \<in> action_key ` set (?fail msg)" for msg
    using it by (auto simp: image_image)
  show "settled (dispatch_all (fetchData items res) s) (ms_id it)"
  proof (cases "truthy res \<and> typeof_object res \<and> truthy (fld res ''error'')")
    case True
    with ne have "fetchData items res = ?fail (to_str (fld res ''message''))"
      by (simp add: fetchData_def)
    moreover have "settled (dispatch_all (?fail (to_str (fld res ''message''))) s) (ms_id it)"
      by (rule settled_all [OF fail(1)]) (rule disjI1 [OF fail(2)])
    ultimately show ?thesis by (simp only:)
  next
    case False
    then obtain rs where rs: "fld res ''responses'' = JArr rs" "length items \<le> length rs"
      using assms by blast
    obtain acts :: "'e shared_action list" and threw where fe: "forEach_response items rs = (acts, threw)" by force
    have "fetchData items res = (if threw then acts @ ?fail ''Unexpected error occurred'' else acts)"
      unfolding fetchData_def if_not_P [OF ne] if_not_P [OF False] Let_def rs(1) by (simp add: fe)
    moreover have "\<forall>a \<in> set acts. settling a" "\<not> threw \<Longrightarrow> ms_id it \<in> action_key ` set acts"
      using forEach_settling [OF fe] rs(2) it by auto
    ultimately show ?thesis
      using fail by (intro settled_all) (auto simp: image_Un simp del: set_map)
  qed
qed


section \<open>A page with an autosuggest box, a facet and a result list\<close>

definition demo_widget :: "string \<Rightarrow> string \<Rightarrow> widget" where
  "demo_widget i q = empty_widget\<lparr>w_id := i, needsQuery := True, w_query := term_query ''f'' q\<rparr>"

definition demo_state :: "string \<Rightarrow> unit shared_state" where
  "demo_state typed = (initialState ''u'' ''t'' [])\<lparr>widgets :=
     [(''a'', (demo_widget ''a'' typed)\<lparr>isAutosuggest := True\<rparr>),
      (''f'', (demo_widget ''f'' ''red'')\<lparr>isFacet := True\<rparr>),
      (''r'', (demo_widget ''r'' ''rust'')\<lparr>wantResults := True\<rparr>)]\<rparr>"

lemmas demo_defs = demo_state_def demo_widget_def empty_widget_def initialState_def

lemma demo_ok: "store_ok (demo_state q)"
  by (simp add: store_ok_def jmap_ok_def demo_defs)

text \<open>A document that matches everything but the text being typed: the search selects it, the facet next
  to it does not count it.\<close>

lemma search_filter_meaning_witness:
  "query_sat (\<lambda>q. q \<noteq> term_query ''f'' ''ty'')
     (fld (search_query (demo_state ''ty'') ''r'' ((demo_widget ''r'' ''rust'')\<lparr>wantResults := True\<rparr>))
        ''full_text_search'')"
proof -
  let ?r = "(demo_widget ''r'' ''rust'')\<lparr>wantResults := True\<rparr>"
  have c: "constraining (demo_state ''ty'') ''r'' ?r =
      {(''f'', (demo_widget ''f'' ''red'')\<lparr>isFacet := True\<rparr>), (''r'', ?r)}"
    by (auto simp: constraining_def search_filter_def demo_defs term_query_def)
  have at: "widget_at (demo_state ''ty'') ''r'' = Some ?r" "\<not> isAutosuggest ?r"
    by (simp_all add: demo_defs widget_at_def jmap_get_def)
  have "query_sat (\<lambda>q. q \<noteq> term_query ''f'' ''ty'') (term_query ''f'' v)" if "v \<noteq> ''ty''" for v
    using that by (simp add: term_query_sat) (simp add: term_query_def)
  then show ?thesis
    using search_filter_meaning [OF demo_ok at, where leaf = "\<lambda>q. q \<noteq> term_query ''f'' ''ty''"]
    unfolding c by (simp add: demo_widget_def)
qed

lemma facet_filter_meaning_witness:
  "\<not> query_sat (\<lambda>q. q \<noteq> term_query ''f'' ''ty'')
     (fld (facet_query (demo_state ''ty'') ''f'' ((demo_widget ''f'' ''red'')\<lparr>isFacet := True\<rparr>) [JStr ''f''])
        ''full_text_search'')"
proof -
  let ?f = "(demo_widget ''f'' ''red'')\<lparr>isFacet := True\<rparr>"
  have h: "\<not> (truthy (fld (configuration ?f) ''useCustomQuery'') \<and> truthy (w_query ?f))"
    by (simp add: demo_defs)
  let ?a = "(demo_widget ''a'' ''ty'')\<lparr>isAutosuggest := True\<rparr>"
  have a: "(''a'', ?a) \<in> {(k, w) \<in> set (widgets (demo_state ''ty'')). k \<noteq> ''f'' \<and> truthy (w_query w)}"
    by (simp add: demo_state_def demo_widget_def term_query_def)
  have sat: "\<not> query_sat (\<lambda>q. q \<noteq> term_query ''f'' ''ty'') (w_query ?a)"
    by (simp add: demo_widget_def term_query_sat)
  show ?thesis
    unfolding facet_filter_meaning [OF demo_ok h] using a sat by blast
qed

lemma autosuggest_isolation_witness:
  "group_key to_str (demo_state ''ty'') False = group_key to_str (demo_state ''typing'') False
   \<and> search_query (demo_state ''ty'') ''r'' ((demo_widget ''r'' ''rust'')\<lparr>wantResults := True\<rparr>)
       = search_query (demo_state ''typing'') ''r'' ((demo_widget ''r'' ''rust'')\<lparr>wantResults := True\<rparr>)"
proof -
  let ?r = "(demo_widget ''r'' ''rust'')\<lparr>wantResults := True\<rparr>"
  have "submitted_widgets (demo_state ''ty'') = submitted_widgets (demo_state ''typing'')"
    by (simp add: submitted_widgets_def demo_defs)
  moreover have "(''r'', ?r) \<in> set (submitted_widgets (demo_state ''ty''))"
    by (simp add: submitted_widgets_def demo_defs)
  ultimately show ?thesis
    using autosuggest_isolation [OF demo_ok demo_ok, of "''ty''" "''typing''" to_str] by (auto simp: demo_state_def)
qed

lemma ready_iff_complete_witness: "listener_ready (demo_state ''ty'')"
proof -
  have "\<forall>(k, w) \<in> set (widgets (demo_state ''ty'')). well_registered w"
    by (simp add: demo_defs well_registered_def has_semantic_def)
  from ready_iff_complete [OF this] show ?thesis
    by (simp add: demo_defs term_query_def)
qed

lemma listener_settles_witness:
  "snd (listener_effect (\<lambda>_. []) (demo_state ''ty'') (''x'', [])) = Inr []"
proof -
  obtain items where i: "snd (listener_effect (\<lambda>_. []) (demo_state ''ty'') (''x'', [])) = Inr items"
      "\<forall>it \<in> set items. \<exists>w. (ms_id it, w) \<in> set (widgets (demo_state ''ty'')) \<and> isAutosuggest w"
    using listener_settles [of "\<lambda>_. []" "demo_state ''ty''" "(''x'', [])"] by (auto simp: group_key_def)
  then have "items = search_items (demo_state ''ty'') True False"
    by (simp add: listener_effect_def group_key_def Let_def)
  then show ?thesis using i(1)
    by (simp add: search_items_def widgetThat_def demo_defs)
qed

lemma fetch_settles_witness:
  "settled (dispatch_all (fetchData [\<lparr>ms_id = ''r'', ms_query = JNull, ms_reader = SearchReader []\<rparr>]
     (JObj [(''responses'', JArr [JNull, JNull])])) (demo_state ''ty'')) ''r''"
  using fetch_settles [of "JObj [(''responses'', JArr [JNull, JNull])]"
      "[\<lparr>ms_id = ''r'', ms_query = JNull, ms_reader = SearchReader []\<rparr>]" "demo_state ''ty''"] by simp

end
