(* ===== verification/FilterWidgets.thy ===== *)
theory FilterWidgets
  imports ListenerProps
begin

text \<open>
  The widgets that narrow a search: facets (ts/packages/components/src/Facet.tsx) and the list of
  active filters (ActiveFilters.tsx).
\<close>

section \<open>Facets\<close>

record facet_props =
  fp_id :: string
  fp_fields :: "string list"
  fp_itemsPerBlock :: "rat option"
  fp_table :: "string option"

definition table_prop :: "string option \<Rightarrow> table_ref" where
  "table_prop t = (case t of None \<Rightarrow> NoTable | Some s \<Rightarrow> OneTable s)"

text \<open>
  The registration. The \<open>filterValueModifier\<close> of the configuration is a function, which no request
  carries; it is left undefined.
\<close>

definition facet_widget :: "facet_props \<Rightarrow> string list \<Rightarrow> rat \<Rightarrow> string \<Rightarrow> widget" where
  "facet_widget p value sz filterValue = empty_widget
     \<lparr>needsQuery := True, needsConfiguration := True, isFacet := True, wantResults := False,
      w_query := disjunctsFrom (Some (toTermQueries (fp_fields p) value)),
      w_value := JArr (map JStr value), w_table := table_prop (fp_table p),
      configuration := JObj [(''size'', JNum sz), (''filterValue'', JStr filterValue),
        (''fields'', JArr (map JStr (fp_fields p))), (''filterValueModifier'', JUndef)]\<rparr>"

definition block_size :: "facet_props \<Rightarrow> rat" where
  "block_size p = num_of (js_or (opt_num (fp_itemsPerBlock p)) (JNum 5))"

text \<open>The buckets a facet shows: only a single array counts.\<close>

definition facet_data_of :: "widget option \<Rightarrow> bucket list" where
  "facet_data_of w = (case Option.bind w w_result of
     None \<Rightarrow> [] | Some r \<Rightarrow> (case r_facetData r of Buckets bs \<Rightarrow> bs | BucketGroups gs \<Rightarrow> []))"

definition handleChange :: "string \<Rightarrow> bool \<Rightarrow> string list \<Rightarrow> string list" where
  "handleChange key checked value =
     (if checked then fold (\<lambda>v vs. if v \<in> set vs then vs else vs @ [v]) (value @ [key]) []
      else filter (\<lambda>f. f \<noteq> key) value)"

definition isChecked :: "string \<Rightarrow> string list \<Rightarrow> bool" where
  "isChecked key value \<longleftrightarrow> key \<in> set value"

definition see_more :: "facet_props \<Rightarrow> rat \<Rightarrow> rat" where
  "see_more p sz = sz + block_size p"

text \<open>
  The effects of one commit in which the local value changed, in order: the widget is registered with
  the local value, and the value the widget had at the time of the render is copied into the local
  state when it is another array. Arrays are compared by identity, here a number next to the contents.
\<close>

type_synonym array_ref = "nat \<times> string list"

definition facet_effects :: "array_ref \<times> array_ref option \<Rightarrow> array_ref \<times> array_ref option" where
  "facet_effects = (\<lambda>(value, widgetValue).
     (case widgetValue of
        None \<Rightarrow> value
      | Some w \<Rightarrow> (if fst w \<noteq> fst value then w else value),
      Some value))"

text \<open>
  Commits until nothing changes any more: another one follows while the local value or the widget's
  value is not what the last render saw.
\<close>

definition facet_stable :: "array_ref \<times> array_ref option \<Rightarrow> bool" where
  "facet_stable = (\<lambda>(value, widgetValue). widgetValue = Some value)"

section \<open>Active filters\<close>

definition has_filter :: "widget \<Rightarrow> bool" where
  "has_filter w = (case w_value w of JArr vs \<Rightarrow> vs \<noteq> [] | v \<Rightarrow> truthy v)"

definition filter_text :: "jsval \<Rightarrow> string" where
  "filter_text v = (case v of
     JArr vs \<Rightarrow> join '', '' (map (\<lambda>x. if nullish x then [] else to_str x) vs) | _ \<Rightarrow> to_str v)"

definition activeFilters :: "'e shared_state \<Rightarrow> (string \<times> string) list" where
  "activeFilters s = map (\<lambda>(k, w). (k, filter_text (w_value w))) (filter (\<lambda>(_, w). has_filter w) (widgets s))"

definition removeFilter :: "string \<Rightarrow> 'e shared_state \<Rightarrow> 'e shared_action list" where
  "removeFilter i s = (case jmap_get (widgets s) i of
     None \<Rightarrow> []
   | Some w \<Rightarrow> [SetWidget i (w\<lparr>w_value := (if isFacet w then JArr [] else JStr [])\<rparr>)])"

section \<open>Properties\<close>

lemma distinct_fold_add:
  "distinct acc \<Longrightarrow>
     distinct (fold (\<lambda>v vs. if v \<in> set vs then vs else vs @ [v]) xs acc)
     \<and> set (fold (\<lambda>v vs. if v \<in> set vs then vs else vs @ [v]) xs acc) = set acc \<union> set xs"
  by (induction xs arbitrary: acc) auto

lemma set_handleChange: "set (handleChange key checked value) = (if checked then insert key (set value) else set value - {key})"
  using distinct_fold_add [of "[]" "value @ [key]"] by (auto simp: handleChange_def simp del: fold_append)

text \<open>What a facet filters by, end to end: after its boxes were clicked, the query it registers
  selects a document exactly when no box is checked, there are no fields, or one of its fields
  matches one of the checked keys; a click changes its own box and no other.\<close>

theorem facet_click:
  "isChecked k (handleChange key checked value) = (if k = key then checked else isChecked k value)
   \<and> (query_sat leaf (w_query (facet_widget p (handleChange key checked value) sz fv)) \<longleftrightarrow>
        fp_fields p = [] \<or> handleChange key checked value = []
        \<or> (\<exists>f \<in> set (fp_fields p). \<exists>v \<in> set (handleChange key checked value). leaf (term_query f v)))"
  by (auto simp: isChecked_def set_handleChange facet_widget_def disjuncts_of_terms)

text \<open>Clicking a box of a mounted facet never settles: the local value and the registered value swap
  at every commit, so the old selection and the new one alternate for ever.\<close>

theorem facet_sync_oscillates:
  assumes "fst new \<noteq> fst old"
  shows "(facet_effects ^^ n) (new, Some old) = (if even n then (new, Some old) else (old, Some new))
    \<and> \<not> facet_stable ((facet_effects ^^ n) (new, Some old))"
proof -
  have "(facet_effects ^^ n) (new, Some old) = (if even n then (new, Some old) else (old, Some new))"
    using assms by (induction n) (auto simp: facet_effects_def)
  with assms show ?thesis by (auto simp: facet_stable_def)
qed

lemma facet_sync_oscillates_witness:
  "\<not> facet_stable ((facet_effects ^^ 10) ((1, [''red'']), Some (0, [])))"
  by (rule facet_sync_oscillates [THEN conjunct2]) simp

text \<open>Removing an active filter clears exactly that filter: the widget keeps its query, its
  configuration and its result, loses its value, and no other widget changes; it is no longer listed.\<close>

theorem removeFilter_clears:
  fixes s :: "'e shared_state" and i :: string
  assumes "store_ok s"
  defines "s' \<equiv> dispatch_all (removeFilter i s) s"
  shows "(\<forall>k. k \<noteq> i \<longrightarrow> widget_at s' k = widget_at s k)
    \<and> widget_at s' i = map_option (\<lambda>w. w\<lparr>w_value := (if isFacet w then JArr [] else JStr [])\<rparr>) (widget_at s i)
    \<and> i \<notin> fst ` set (activeFilters s')"
proof -
  have ok': "store_ok s'" unfolding s'_def using assms(1) by (rule store_ok_dispatch_all)
  have other: "widget_at s' k = widget_at s k" if "k \<noteq> i" for k
    using that unfolding s'_def removeFilter_def dispatch_all_def
    by (auto simp: store_widget.frame split: option.split)
  have own: "widget_at s' i = map_option (\<lambda>w. w\<lparr>w_value := (if isFacet w then JArr [] else JStr [])\<rparr>) (widget_at s i)"
  proof (cases "widget_at s i")
    case (Some w)
    let ?w = "w\<lparr>w_value := (if isFacet w then JArr [] else JStr [])\<rparr>"
    have "w_id w = i" using Some assms(1) by (simp add: store_ok_alt)
    then have keep: "?w\<lparr>w_id := i, w_result := (if w_result ?w \<noteq> None then w_result ?w else w_result w)\<rparr> = ?w"
      by (cases w) auto
    have "s' = reducer (SetWidget i ?w) s"
      using Some by (simp add: s'_def removeFilter_def dispatch_all_def widget_at_def)
    moreover have "result_at s i = w_result w" using Some by (simp add: result_at_def)
    ultimately show ?thesis using Some keep by (simp only: widget_at_set option.map)
  qed (simp add: s'_def removeFilter_def dispatch_all_def widget_at_def)
  have "i \<notin> fst ` set (activeFilters s')"
  proof
    assume "i \<in> fst ` set (activeFilters s')"
    then obtain w where "(i, w) \<in> set (widgets s')" "has_filter w"
      by (auto simp: activeFilters_def)
    then have "widget_at s' i = Some w"
      using ok' by (simp add: widget_at_def jmap_get_iff store_ok_def)
    with own \<open>has_filter w\<close> show False
      by (cases "widget_at s i") (auto simp: has_filter_def split: if_splits)
  qed
  with other own show ?thesis by blast
qed

lemma removeFilter_clears_witness:
  "widget_at (dispatch_all (removeFilter ''f'' (demo_state ''ty'')) (demo_state ''ty'')) ''r''
     = widget_at (demo_state ''ty'') ''r''"
  using removeFilter_clears [OF demo_ok, of "''f''" "''ty''"] by simp

end
