(* ===== verification/ResultsWidget.thy ===== *)
theory ResultsWidget
  imports FilterWidgets
begin

text \<open>
  The result list (ts/packages/components/src/Results.tsx): what it registers with the listener and
  how its page follows the queries of the page.
\<close>

section \<open>Registration\<close>

record results_props =
  rp_searchBoxId :: "string option"
  rp_fields :: "string list option"
  rp_customQuery :: "(string option \<Rightarrow> jsval) option"
  rp_semanticIndexes :: "string list option"
  rp_limit :: "rat option"
  rp_itemsPerPage :: rat
  rp_initialPage :: rat
  rp_sort :: jsval
  rp_table :: "string option"
  rp_filterQuery :: jsval
  rp_exclusionQuery :: jsval

definition contributes :: "results_props \<Rightarrow> bool" where
  "contributes p \<longleftrightarrow> rp_searchBoxId p \<noteq> None \<and> rp_searchBoxId p \<noteq> Some []"

definition isSemanticEnabled :: "results_props \<Rightarrow> bool" where
  "isSemanticEnabled p \<longleftrightarrow> contributes p \<and> rp_semanticIndexes p \<noteq> None \<and> rp_semanticIndexes p \<noteq> Some []"

text \<open>\<open>queryFromValue\<close>, outside semantic mode (inside it the value is never used as a query).\<close>

definition phrase_query :: "string \<Rightarrow> string \<Rightarrow> jsval" where
  "phrase_query field q = JObj [(''match_phrase'', JStr q), (''field'', JStr field)]"

definition match_query :: "string \<Rightarrow> string \<Rightarrow> jsval" where
  "match_query field q = JObj [(''match'', JStr q), (''field'', JStr field)]"

definition queryFromValue :: "results_props \<Rightarrow> string \<Rightarrow> jsval" where
  "queryFromValue p q =
     (if isSemanticEnabled p then JStr q
      else case rp_customQuery p of
        Some f \<Rightarrow> f (Some q)
      | None \<Rightarrow>
          (case rp_fields p of
             None \<Rightarrow> match_all
           | Some flds \<Rightarrow>
               (let termQueries = map (\<lambda>f. match_query f q) flds
                      @ (if CHR '' '' \<in> set (trim q) then map (\<lambda>f. phrase_query f q) flds else [])
                in if q \<noteq> [] then disjunctsFrom (Some termQueries) else match_all)))"

definition results_query :: "results_props \<Rightarrow> string \<Rightarrow> jsval" where
  "results_query p searchValue =
     (if \<not> contributes p then JUndef
      else if isSemanticEnabled p
      then (case rp_customQuery p of Some f \<Rightarrow> f None | None \<Rightarrow> JNull)
      else queryFromValue p searchValue)"

definition results_widget :: "results_props \<Rightarrow> string \<Rightarrow> rat \<Rightarrow> widget" where
  "results_widget p searchValue page = empty_widget
     \<lparr>needsQuery := contributes p, needsConfiguration := True, isFacet := False, rootQuery := False,
      wantResults := True, isSemantic := isSemanticEnabled p,
      w_query := results_query p searchValue,
      semanticQuery := (if contributes p \<and> isSemanticEnabled p then Some searchValue else None),
      w_table := table_prop (rp_table p), filterQuery := rp_filterQuery p,
      exclusionQuery := rp_exclusionQuery p,
      configuration := JObj ((if contributes p \<and> isSemanticEnabled p
        then [(''indexes'', opt_strs (rp_semanticIndexes p)), (''limit'', js_or (opt_num (rp_limit p)) (JNum 10))]
        else [])
        @ [(''itemsPerPage'', JNum (rp_itemsPerPage p)), (''page'', JNum page), (''sort'', rp_sort p),
           (''fields'', opt_strs (rp_fields p))])\<rparr>"

text \<open>The number of results shown.\<close>

definition results_total :: "widget option \<Rightarrow> jsval" where
  "results_total w = (case Option.bind w w_result of
     None \<Rightarrow> JNum 0
   | Some r \<Rightarrow> (if \<not> truthy (r_total r) then JNum 0
                else if typeof_object (r_total r) \<and> has_key (r_total r) ''value''
                then fld (r_total r) ''value'' else r_total r))"

section \<open>The current page\<close>

record page_state =
  page :: rat
  lastQueryHash :: "string option"
  isInitialized :: bool

definition queryHash :: "(jsval \<Rightarrow> string) \<Rightarrow> 'e shared_state \<Rightarrow> string" where
  "queryHash stringify s = stringify (JArr (map (\<lambda>(k, w). JObj
     [(''id'', JStr (w_id w)), (''value'', w_value w), (''query'', w_query w)]) (widgetThat needsQuery s)))"

definition desiredPage :: "rat \<Rightarrow> string \<Rightarrow> page_state \<Rightarrow> rat" where
  "desiredPage initialPage h st =
     (if Some h \<noteq> lastQueryHash st then (if \<not> isInitialized st then initialPage else 1) else page st)"

definition page_effect :: "rat \<Rightarrow> string \<Rightarrow> page_state \<Rightarrow> page_state" where
  "page_effect initialPage h st =
     (if Some h \<noteq> lastQueryHash st
      then \<lparr>page = desiredPage initialPage h st, lastQueryHash = Some h, isInitialized = True\<rparr>
      else st)"

datatype page_event = RenderWith string | GoTo rat

fun page_step :: "rat \<Rightarrow> page_event \<Rightarrow> page_state \<Rightarrow> page_state" where
  "page_step initialPage (RenderWith h) st = page_effect initialPage h st"
| "page_step initialPage (GoTo p) st = st\<lparr>page := p\<rparr>"

definition page_init :: "rat \<Rightarrow> page_state" where
  "page_init initialPage = \<lparr>page = initialPage, lastQueryHash = None, isInitialized = False\<rparr>"

section \<open>Properties\<close>

text \<open>The page follows the queries: after the first render the initial page is shown (a page the user
  chose before it is not kept); from then on, while the queries stay the same, the page is the one
  the user chose last, and every change of the queries goes back to page 1.\<close>

theorem page_follows_queries:
  assumes "page_step n (RenderWith h) st0 = st" "st0 = page_init n \<or> isInitialized st0"
  shows "page (fold (page_step n) (map GoTo ps @ [RenderWith h']) st) =
      (if h' = h then last (page st # ps) else 1)
    \<and> page (page_step n (RenderWith h) (page_init n)) = n \<and> isInitialized st"
proof -
  have st: "lastQueryHash st = Some h" "isInitialized st"
    using assms by (auto simp: page_effect_def page_init_def)
  have "fold (page_step n) (map GoTo ps) st = st\<lparr>page := last (page st # ps)\<rparr>"
    by (induction ps arbitrary: st) simp_all
  with st show ?thesis by (auto simp: page_effect_def desiredPage_def page_init_def)
qed

lemma page_follows_queries_witness:
  "page (fold (page_step 2) (map GoTo [3, 4] @ [RenderWith ''b'']) (page_step 2 (RenderWith ''a'') (page_init 2))) = 1"
  using page_follows_queries [of 2 "''a''" "page_init 2" _ "[3, 4]" "''b''", OF refl] by simp

lemma results_registered:
  "well_registered (results_widget p searchValue pg) \<longleftrightarrow>
     \<not> (isSemanticEnabled p \<and> truthy (results_query p searchValue) \<and> searchValue \<noteq> [])"
  by (auto simp: well_registered_def results_widget_def has_semantic_def results_query_def empty_widget_def
      isSemanticEnabled_def)

lemma double_count:
  assumes others: "\<forall>(k, w) \<in> set others. well_registered w \<and> (needsQuery w \<longrightarrow> truthy (w_query w) \<or> has_semantic w)"
    and twice: "needsQuery v" "truthy (w_query v)" "has_semantic v"
  shows "\<not> listener_ready (s\<lparr>widgets := others @ [(i, v)]\<rparr>)"
proof -
  have "length (filter (\<lambda>x. truthy (w_query (snd x))) others) + length (filter (\<lambda>x. has_semantic (snd x)) others)
      = length (filter (\<lambda>x. needsQuery (snd x)) others)"
    using count_filters [of others "\<lambda>x. truthy (w_query (snd x))" "\<lambda>x. has_semantic (snd x)" "\<lambda>x. needsQuery (snd x)"]
      others by (fastforce simp: well_registered_def split_def)
  then show ?thesis
    using twice by (simp add: listener_ready_def queries_def semanticQueries_def widgetThat_def Let_def split_def)
qed

text \<open>A semantic result list with a custom query never gets results: it registers a query and a
  semantic query but is one widget, so once something was typed the counts of the listener cannot
  match, and however complete the other widgets of the page are, no request is ever sent.\<close>

theorem semantic_custom_query_never_ready:
  assumes "isSemanticEnabled p" "rp_customQuery p = Some f" "truthy (f None)" "searchValue \<noteq> []"
    and "\<forall>(k, w) \<in> set others. well_registered w \<and> (needsQuery w \<longrightarrow> truthy (w_query w) \<or> has_semantic w)"
  shows "\<not> listener_ready (s\<lparr>widgets := others @ [(i, results_widget p searchValue pg)]\<rparr>)"
  using assms
  by (intro double_count)
    (simp_all add: results_widget_def empty_widget_def results_query_def isSemanticEnabled_def has_semantic_def)

definition semantic_props :: results_props where
  "semantic_props = \<lparr>rp_searchBoxId = Some ''box'', rp_fields = None, rp_customQuery = Some (\<lambda>q. match_all),
     rp_semanticIndexes = Some [''idx''], rp_limit = None, rp_itemsPerPage = 10, rp_initialPage = 1,
     rp_sort = JUndef, rp_table = None, rp_filterQuery = JUndef, rp_exclusionQuery = JUndef\<rparr>"

lemma semantic_custom_query_never_ready_witness:
  "\<not> listener_ready ((demo_state ''ty'')\<lparr>widgets := [] @ [(''r'', results_widget semantic_props ''rust'' 1)]\<rparr>)"
  by (rule semantic_custom_query_never_ready [where f = "\<lambda>q. match_all"])
    (simp_all add: semantic_props_def isSemanticEnabled_def contributes_def match_all_def)

text \<open>What a full-text result list searches for: with fields and a value, a document is selected
  exactly when one of the fields matches the value, or, when the value has several words, contains it
  as a phrase; without a value every document is selected.\<close>

theorem results_query_meaning:
  assumes "contributes p" "\<not> isSemanticEnabled p" "rp_customQuery p = None" "rp_fields p = Some flds" "flds \<noteq> []"
  shows "query_sat leaf (results_query p q) \<longleftrightarrow>
    q = [] \<or> (\<exists>f \<in> set flds. leaf (match_query f q))
    \<or> CHR '' '' \<in> set (trim q) \<and> (\<exists>f \<in> set flds. leaf (phrase_query f q))"
proof -
  let ?qs = "map (\<lambda>f. match_query f q) flds @ (if CHR '' '' \<in> set (trim q) then map (\<lambda>f. phrase_query f q) flds else [])"
  have bare: "\<not> is_bare_match_all (match_query f q)" "\<not> is_bare_match_all (phrase_query f q)" for f
    by (simp_all add: match_query_def phrase_query_def is_bare_match_all_def)
  have leaf: "query_sat leaf (match_query f q) = leaf (match_query f q)"
    "query_sat leaf (phrase_query f q) = leaf (phrase_query f q)" for f
    by (simp_all add: match_query_def phrase_query_def query_sat.simps)
  have "query_sat leaf (disjunctsFrom (Some ?qs)) \<longleftrightarrow>
      (\<exists>f \<in> set flds. leaf (match_query f q))
      \<or> CHR '' '' \<in> set (trim q) \<and> (\<exists>f \<in> set flds. leaf (phrase_query f q))"
  proof -
    have ne: "?qs \<noteq> []" using assms(5) by simp
    have nb: "\<forall>x \<in> set ?qs. \<not> is_bare_match_all x" using bare by auto
    have "query_sat leaf (disjunctsFrom (Some ?qs)) \<longleftrightarrow> (\<exists>x \<in> set ?qs. query_sat leaf x)"
      unfolding qsat.disjuncts_sat using ne nb by (metis last_in_set)
    then show ?thesis using leaf by auto
  qed
  moreover have "query_sat leaf match_all" by (simp add: match_all_def query_sat.simps)
  ultimately show ?thesis
    using assms by (auto simp: results_query_def queryFromValue_def Let_def)
qed

lemma results_query_meaning_witness:
  "query_sat (\<lambda>q. q = phrase_query ''t'' ''a b'')
     (results_query (semantic_props\<lparr>rp_semanticIndexes := None, rp_customQuery := None, rp_fields := Some [''t'']\<rparr>) ''a b'')"
  by (subst results_query_meaning [where flds = "[''t'']"])
    (simp_all add: semantic_props_def contributes_def isSemanticEnabled_def trim_def is_ws_def)

end
