(* ===== verification/Autosuggest.thy ===== *)
theory Autosuggest
  imports FilterWidgets
begin

text \<open>
  The autosuggest dropdown (ts/packages/components/src/Autosuggest.tsx): the widget it registers for
  the text typed so far, the registry of navigable items, and keyboard navigation.
\<close>

section \<open>Registration\<close>

record autosuggest_props =
  ap_fields :: "string list option"
  ap_returnFields :: "string list option"
  ap_limit :: rat
  ap_minChars :: nat
  ap_customQuery :: "(string option \<Rightarrow> string list option \<Rightarrow> jsval) option"
  ap_semanticIndexes :: "string list option"
  ap_table :: "string option"
  ap_filterQuery :: jsval
  ap_exclusionQuery :: jsval
  ap_facetConfigs :: "(string \<times> rat) list"

definition as_semantic :: "autosuggest_props \<Rightarrow> bool" where
  "as_semantic p \<longleftrightarrow> ap_semanticIndexes p \<noteq> None \<and> ap_semanticIndexes p \<noteq> Some []"

definition has_fields :: "autosuggest_props \<Rightarrow> bool" where
  "has_fields p \<longleftrightarrow> ap_fields p \<noteq> None \<and> ap_fields p \<noteq> Some []"

definition canQuery :: "autosuggest_props \<Rightarrow> bool" where
  "canQuery p \<longleftrightarrow> as_semantic p \<or> ap_customQuery p \<noteq> None \<or> has_fields p"

definition field_query :: "string \<Rightarrow> string \<Rightarrow> jsval" where
  "field_query searchValue field =
     (if ends_with field ''__keyword'' then JObj [(''prefix'', JStr searchValue), (''field'', JStr field)]
      else if ends_with field ''__2gram'' then JObj [(''match'', JStr searchValue), (''field'', JStr field)]
      else JObj [(''match'', JStr searchValue), (''field'', JStr field)])"

definition baseQuery :: "autosuggest_props \<Rightarrow> string \<Rightarrow> jsval" where
  "baseQuery p searchValue =
     (if as_semantic p then (case ap_customQuery p of Some f \<Rightarrow> f None None | None \<Rightarrow> JNull)
      else case ap_customQuery p of
        Some f \<Rightarrow> f (Some searchValue) (ap_fields p)
      | None \<Rightarrow> (case ap_fields p of
           Some (f # fs) \<Rightarrow> disjunctsFrom (Some (map (field_query searchValue) (f # fs)))
         | _ \<Rightarrow> JNull))"

definition finalQuery :: "autosuggest_props \<Rightarrow> string \<Rightarrow> jsval" where
  "finalQuery p searchValue =
     (if \<not> as_semantic p \<and> truthy (baseQuery p searchValue) \<and> truthy (ap_filterQuery p)
      then conjunctsFrom (Some [(''filter'', ap_filterQuery p), (''query'', baseQuery p searchValue)])
      else baseQuery p searchValue)"

definition effectiveReturnFields :: "autosuggest_props \<Rightarrow> jsval" where
  "effectiveReturnFields p = coalesce (opt_strs (ap_returnFields p)) (opt_strs (ap_fields p))"

definition as_configuration :: "autosuggest_props \<Rightarrow> jsval" where
  "as_configuration p =
     (if \<not> canQuery p then JUndef
      else if as_semantic p
      then JObj [(''indexes'', opt_strs (ap_semanticIndexes p)), (''limit'', JNum (ap_limit p)),
                 (''itemsPerPage'', JNum (ap_limit p)), (''page'', JNum 1),
                 (''fields'', effectiveReturnFields p)]
      else JObj [(''fields'', effectiveReturnFields p), (''size'', JNum (ap_limit p)),
                 (''itemsPerPage'', JNum (ap_limit p)), (''page'', JNum 1)])"

text \<open>\<open>dispatchQuery\<close>: the widget registered for a search value.\<close>

definition autosuggest_widget :: "autosuggest_props \<Rightarrow> string \<Rightarrow> widget" where
  "autosuggest_widget p searchValue =
     (if length searchValue \<ge> ap_minChars p
      then empty_widget
        \<lparr>needsQuery := canQuery p, needsConfiguration := canQuery p, isFacet := False, rootQuery := True,
         isAutosuggest := True, isSemantic := as_semantic p, wantResults := canQuery p,
         wantFacets := (ap_facetConfigs p \<noteq> []), w_query := finalQuery p searchValue,
         semanticQuery := (if as_semantic p then Some searchValue else None),
         w_table := table_prop (ap_table p), filterQuery := ap_filterQuery p,
         exclusionQuery := ap_exclusionQuery p,
         facetOptions := map (\<lambda>(f, n). (f, Some n)) (ap_facetConfigs p),
         configuration := as_configuration p, isLoading := True\<rparr>
      else empty_widget
        \<lparr>needsQuery := False, needsConfiguration := False, isFacet := False, rootQuery := True,
         isAutosuggest := True, isSemantic := as_semantic p, wantResults := False,
         w_table := table_prop (ap_table p),
         w_result := Some \<lparr>r_data = [], r_facetData = Buckets [], r_total = JNum 0, r_error = None\<rparr>\<rparr>)"

definition suggestions :: "autosuggest_props \<Rightarrow> widget option \<Rightarrow> jsval list" where
  "suggestions p w = slice_to (JNum (ap_limit p)) (case Option.bind w w_result of None \<Rightarrow> [] | Some r \<Rightarrow> r_data r)"

text \<open>The facet terms by field: the \<open>i\<close>-th group belongs to the \<open>i\<close>-th facet child.\<close>

definition facetData :: "autosuggest_props \<Rightarrow> widget option \<Rightarrow> (string, bucket list) jmap" where
  "facetData p w = (case Option.bind w w_result of
     None \<Rightarrow> []
   | Some r \<Rightarrow> (case r_facetData r of
        Buckets bs \<Rightarrow> []
      | BucketGroups gs \<Rightarrow> fold (\<lambda>((f, n), g) m. jmap_set m f g) (zip (ap_facetConfigs p) gs) []))"

definition navigableItemCount :: "bool \<Rightarrow> jsval list \<Rightarrow> (string, bucket list) jmap \<Rightarrow> nat" where
  "navigableItemCount children sugg fd =
     (if \<not> children then length sugg else length sugg + sum_list (map (length \<circ> snd) fd))"

section \<open>The registry of navigable items\<close>

definition registerItem :: "string \<Rightarrow> (string, nat) jmap \<Rightarrow> (string, nat) jmap \<times> nat" where
  "registerItem itemId m = (case jmap_get m itemId of
     None \<Rightarrow> (jmap_set m itemId (length m), length m)
   | Some k \<Rightarrow> (m, k))"

definition unregisterItem :: "string \<Rightarrow> (string, nat) jmap \<Rightarrow> (string, nat) jmap" where
  "unregisterItem itemId m = (let m' = jmap_delete m itemId in zip (map fst m') [0..<length m'])"

datatype item_event = Register string | Unregister string

fun item_step :: "item_event \<Rightarrow> (string, nat) jmap \<Rightarrow> (string, nat) jmap" where
  "item_step (Register i) m = fst (registerItem i m)"
| "item_step (Unregister i) m = unregisterItem i m"

section \<open>Keyboard navigation\<close>

datatype nav_key = ArrowDown | ArrowUp | Enter | Escape | OtherKey

record nav_state =
  selectedIndex :: int
  isOpenOverride :: "bool option"
  justSelected :: bool
  picked :: "nat list"

definition is_open :: "bool option \<Rightarrow> bool \<Rightarrow> nav_state \<Rightarrow> bool" where
  "is_open isOpenProp shouldShow st =
     (case isOpenProp of Some b \<Rightarrow> b | None \<Rightarrow>
        (case isOpenOverride st of Some b \<Rightarrow> b | None \<Rightarrow> shouldShow))"

text \<open>\<open>handleKeyDown\<close> for \<open>n\<close> navigable items; \<open>picked\<close> are the suggestions handed to the caller.\<close>

definition nav_keydown :: "bool option \<Rightarrow> bool \<Rightarrow> bool \<Rightarrow> nat \<Rightarrow> nav_key \<Rightarrow> nav_state \<Rightarrow> nav_state" where
  "nav_keydown isOpenProp shouldShow children n key st =
     (if \<not> is_open isOpenProp shouldShow st \<or> n = 0 then st
      else case key of
        ArrowDown \<Rightarrow> st\<lparr>selectedIndex := (if selectedIndex st < int n - 1 then selectedIndex st + 1 else selectedIndex st)\<rparr>
      | ArrowUp \<Rightarrow> st\<lparr>selectedIndex := (if selectedIndex st > 0 then selectedIndex st - 1 else -1)\<rparr>
      | Enter \<Rightarrow> (if selectedIndex st \<ge> 0 \<and> selectedIndex st < int n \<and> \<not> children
                   then st\<lparr>justSelected := True, picked := picked st @ [nat (selectedIndex st)],
                           isOpenOverride := Some False\<rparr>
                   else st)
      | Escape \<Rightarrow> st\<lparr>isOpenOverride := Some False, selectedIndex := -1\<rparr>
      | OtherKey \<Rightarrow> st)"

definition nav_init :: nav_state where
  "nav_init = \<lparr>selectedIndex = -1, isOpenOverride = None, justSelected = False, picked = []\<rparr>"

section \<open>Properties\<close>

definition registry_ok :: "(string, nat) jmap \<Rightarrow> bool" where
  "registry_ok m \<longleftrightarrow> jmap_ok m \<and> map snd m = [0..<length m]"

lemma registry_step: "registry_ok m \<Longrightarrow> registry_ok (item_step ev m)"
proof (cases ev)
  case (Register i)
  assume ok: "registry_ok m"
  show ?thesis
  proof (cases "jmap_get m i")
    case None
    then have "i \<notin> fst ` set m" by (simp add: jmap_get_def map_of_eq_None_iff)
    then have "jmap_set m i (length m) = m @ [(i, length m)]" by (simp add: jmap_set_def update_new)
    with ok None \<open>i \<notin> fst ` set m\<close> Register show ?thesis
      by (simp add: registry_ok_def registerItem_def jmap_ok_def)
  qed (use ok Register in \<open>simp add: registerItem_def\<close>)
next
  case (Unregister i)
  assume "registry_ok m"
  then have "jmap_ok (jmap_delete m i)" by (simp add: registry_ok_def jmap_ok_delete)
  with Unregister show ?thesis
    by (simp add: registry_ok_def unregisterItem_def Let_def jmap_ok_def)
qed

text \<open>The navigable items are numbered without gaps: after any sequence of registrations and
  removals the registered items carry the numbers 0, 1, 2, ... in the order of registration, each once.\<close>

theorem registry_contiguous:
  "map snd (fold item_step evs []) = [0..<length (fold item_step evs [])] \<and> jmap_ok (fold item_step evs [])"
proof -
  have "registry_ok (fold item_step evs [])"
    by (rule fold_invariant) (simp_all add: registry_step, simp add: registry_ok_def)
  then show ?thesis by (simp add: registry_ok_def)
qed

text \<open>Keyboard navigation stays within the list: with \<open>n\<close> items, whatever keys are pressed, the
  selection is -1 or the index of an item, and only existing items are handed to the caller.\<close>

theorem navigation_in_bounds:
  defines "st \<equiv> \<lambda>isOpenProp shouldShow children n keys. fold (nav_keydown isOpenProp shouldShow children n) keys nav_init"
  shows "-1 \<le> selectedIndex (st isOpenProp shouldShow children n keys)
    \<and> (selectedIndex (st isOpenProp shouldShow children n keys) < int n \<or> selectedIndex (st isOpenProp shouldShow children n keys) = -1)
    \<and> set (picked (st isOpenProp shouldShow children n keys)) \<subseteq> {0..<n}"
proof -
  let ?I = "\<lambda>s. -1 \<le> selectedIndex s \<and> (selectedIndex s < int n \<or> selectedIndex s = -1) \<and> set (picked s) \<subseteq> {0..<n}"
  have "?I (st isOpenProp shouldShow children n keys)"
    unfolding st_def
  proof (rule fold_invariant)
    show "?I nav_init" by (simp add: nav_init_def)
    show "?I (nav_keydown isOpenProp shouldShow children n k s)" if "?I s" for k s
      using that by (cases k) (auto simp: nav_keydown_def nat_less_iff)
  qed
  then show ?thesis by blast
qed

text \<open>What is suggested: with fields, no custom query and no semantic indexes, the query registered
  for a text selects a document exactly when one of the fields matches the text (as a prefix, for
  keyword fields) and the filter query, when there is one, selects it.\<close>

theorem autosuggest_query_meaning:
  assumes "\<not> as_semantic p" "ap_customQuery p = None" "ap_fields p = Some flds" "flds \<noteq> []"
    and "ap_minChars p \<le> length v"
  shows "query_sat leaf (w_query (autosuggest_widget p v)) \<longleftrightarrow>
    (truthy (ap_filterQuery p) \<longrightarrow> query_sat leaf (ap_filterQuery p))
    \<and> (\<exists>f \<in> set flds. leaf (field_query v f))"
proof -
  obtain f fs where flds: "flds = f # fs" using assms(4) by (cases flds) auto
  let ?qs = "map (field_query v) flds"
  have bare: "\<forall>q \<in> set ?qs. \<not> is_bare_match_all q"
    by (auto simp: field_query_def is_bare_match_all_def)
  have leaf: "query_sat leaf (field_query v g) = leaf (field_query v g)" for g
    by (simp add: field_query_def query_sat.simps)
  have "query_sat leaf (disjunctsFrom (Some ?qs)) \<longleftrightarrow> (\<exists>q \<in> set ?qs. query_sat leaf q)"
    unfolding qsat.disjuncts_sat using bare assms(4) by (metis last_in_set map_is_Nil_conv)
  then have base: "query_sat leaf (baseQuery p v) \<longleftrightarrow> (\<exists>g \<in> set flds. leaf (field_query v g))"
    using assms(1-3) leaf flds by (simp add: baseQuery_def)
  have "query_sat leaf (finalQuery p v) \<longleftrightarrow>
      (truthy (ap_filterQuery p) \<longrightarrow> query_sat leaf (ap_filterQuery p)) \<and> query_sat leaf (baseQuery p v)"
  proof -
    have "truthy (baseQuery p v)"
    proof (cases fs)
      case Nil
      then show ?thesis using assms(1-3) flds by (simp add: baseQuery_def disjunctsFrom_def field_query_def)
    next
      case (Cons g gs)
      define hs where "hs = filter (\<lambda>a. \<not> is_bare_match_all a) ?qs"
      have "hs = ?qs" unfolding hs_def using bare by (simp add: filter_id_conv)
      then have "disjunctsFrom (Some ?qs) = JObj [(''disjuncts'', JArr ?qs)]"
        unfolding hs_def flds Cons by (simp add: disjunctsFrom_def)
      then show ?thesis using assms(1-3) flds by (simp add: baseQuery_def)
    qed
    then show ?thesis
      using assms(1) by (auto simp: finalQuery_def qsat.conjuncts_sat)
  qed
  then show ?thesis
    using base assms(5) by (simp add: autosuggest_widget_def)
qed

definition example_autosuggest :: autosuggest_props where
  "example_autosuggest = \<lparr>ap_fields = Some [''name__keyword'', ''name''], ap_returnFields = None, ap_limit = 10,
     ap_minChars = 2, ap_customQuery = None, ap_semanticIndexes = None, ap_table = None,
     ap_filterQuery = match_none, ap_exclusionQuery = JUndef, ap_facetConfigs = []\<rparr>"

lemma autosuggest_query_meaning_witness:
  "\<not> query_sat (\<lambda>_. True) (w_query (autosuggest_widget example_autosuggest ''ru''))"
  by (subst autosuggest_query_meaning [where flds = "[''name__keyword'', ''name'']"])
    (simp_all add: example_autosuggest_def as_semantic_def match_none_def query_sat.simps)

end
