(* ===== verification/QueryBox.thy ===== *)
theory QueryBox
  imports FilterWidgets
begin

text \<open>
  The search box (ts/packages/components/src/QueryBox.tsx): its handlers change the local value,
  dispatch the box's widget and call the caller's callbacks. The clock (\<open>Date.now()\<close>) is a parameter.
\<close>

section \<open>State and effects\<close>

datatype box_mode = Live | Submit

record box_props =
  qb_id :: string
  qb_mode :: box_mode
  qb_clearOnSubmit :: bool
  qb_autoSubmit :: bool
  qb_onEscape :: bool

text \<open>
  What the handlers do outside: dispatches (with the submission time), and the calls of \<open>onSubmit\<close>,
  \<open>onInputChange\<close> and of the child's own selection handler, which do nothing when absent.
\<close>

datatype box_effect =
    Dispatched string "rat option"
  | CalledSubmit string
  | CalledInputChange string
  | CalledChild jsval

record box_state =
  b_value :: string
  isSuggestOpen :: bool
  effects :: "box_effect list"

definition querybox_widget :: "string \<Rightarrow> rat option \<Rightarrow> widget" where
  "querybox_widget v tm = empty_widget
     \<lparr>needsQuery := False, needsConfiguration := False, isFacet := False, rootQuery := True,
      wantResults := False, w_value := JStr v, submittedAt := tm\<rparr>"

text \<open>The dispatch behind an effect.\<close>

definition box_action :: "box_props \<Rightarrow> box_effect \<Rightarrow> 'e shared_action list" where
  "box_action p e = (case e of Dispatched v tm \<Rightarrow> [SetWidget (qb_id p) (querybox_widget v tm)] | _ \<Rightarrow> [])"

definition emit :: "box_effect \<Rightarrow> box_state \<Rightarrow> box_state" where
  "emit e st = st\<lparr>effects := effects st @ [e]\<rparr>"

definition updateWidget :: "rat \<Rightarrow> string \<Rightarrow> bool \<Rightarrow> box_state \<Rightarrow> box_state" where
  "updateWidget now v shouldSubmit st = emit (Dispatched v (if shouldSubmit then Some now else None)) st"

section \<open>Handlers\<close>

definition submitValue :: "box_props \<Rightarrow> rat \<Rightarrow> string \<Rightarrow> box_state \<Rightarrow> box_state" where
  "submitValue p now submittedValue st =
     (let st = st\<lparr>isSuggestOpen := False\<rparr>;
          st = emit (CalledSubmit submittedValue) st;
          st = updateWidget now submittedValue True st
      in if qb_clearOnSubmit p then emit (CalledInputChange []) (st\<lparr>b_value := []\<rparr>) else st)"

definition box_handleChange :: "box_props \<Rightarrow> rat \<Rightarrow> string \<Rightarrow> box_state \<Rightarrow> box_state" where
  "box_handleChange p now newValue st =
     (let st = emit (CalledInputChange newValue) (st\<lparr>b_value := newValue\<rparr>);
          st = (if qb_mode p = Live then updateWidget now newValue False st else st)
      in if trim newValue \<noteq> [] then st\<lparr>isSuggestOpen := True\<rparr> else st)"

definition handleSubmit :: "box_props \<Rightarrow> rat \<Rightarrow> box_state \<Rightarrow> box_state" where
  "handleSubmit p now st = submitValue p now (b_value st) st"

definition handleClear :: "box_props \<Rightarrow> rat \<Rightarrow> box_state \<Rightarrow> box_state" where
  "handleClear p now st =
     (let st = emit (CalledInputChange []) (st\<lparr>b_value := []\<rparr>);
          st = updateWidget now [] (qb_mode p = Submit) st
      in st\<lparr>isSuggestOpen := False\<rparr>)"

definition clearInputOnly :: "box_state \<Rightarrow> box_state" where
  "clearInputOnly st = emit (CalledInputChange []) (st\<lparr>b_value := []\<rparr>)"

text \<open>
  A key: Enter with or without Shift, Escape, or another one. The caller's \<open>onEscape\<close> may clear the
  input and says whether it handled the key.
\<close>

datatype box_key = EnterKey bool | EscapeKey bool bool | PlainKey

definition box_handleKeyDown :: "box_props \<Rightarrow> rat \<Rightarrow> box_key \<Rightarrow> box_state \<Rightarrow> box_state" where
  "box_handleKeyDown p now key st =
     (case key of
        EnterKey shift \<Rightarrow> (if \<not> shift \<and> qb_mode p = Submit then submitValue p now (b_value st) st else st)
      | EscapeKey clears handled \<Rightarrow>
          (let st' = (if qb_onEscape p \<and> clears then clearInputOnly st else st)
           in if qb_onEscape p \<and> handled then st'
              else if qb_mode p = Live
              then (if isSuggestOpen st then st'\<lparr>isSuggestOpen := False\<rparr>
                    else if b_value st \<noteq> [] then handleClear p now st' else st')
              else handleClear p now st')
      | PlainKey \<Rightarrow> st)"

text \<open>The text of a selected suggestion: a common field, the first field of the source, or the id.\<close>

definition commonTextFields :: "string list" where
  "commonTextFields = [''title'', ''name'', ''label'', ''text'', ''description'', ''question'', ''content'']"

fun object_keys :: "jsval \<Rightarrow> string list" where
  "object_keys (JObj kvs) = map fst kvs"
| "object_keys _ = []"

definition suggestion_text :: "jsval \<Rightarrow> string" where
  "suggestion_text suggestion =
     (let source = fld suggestion ''_source'';
          common = (case find (\<lambda>f. truthy (fld source f)) commonTextFields of
                      Some f \<Rightarrow> to_str (fld source f) | None \<Rightarrow> []);
          first = (case object_keys source of
                     f # _ \<Rightarrow> (if truthy (fld source f) \<and> \<not> typeof_object (fld source f)
                              then to_str (fld source f) else [])
                   | [] \<Rightarrow> []);
          v = (if \<not> truthy source then [] else if common \<noteq> [] then common else first)
      in if v \<noteq> [] then v else to_str (js_or (fld suggestion ''_id'') (JStr [])))"

definition handleSuggestionSelect :: "box_props \<Rightarrow> rat \<Rightarrow> bool \<Rightarrow> jsval \<Rightarrow> box_state \<Rightarrow> box_state" where
  "handleSuggestionSelect p now childHandles suggestion st =
     (let st = st\<lparr>isSuggestOpen := False\<rparr> in
      if childHandles then emit (CalledChild suggestion) st
      else let v = suggestion_text suggestion
           in updateWidget now v (qb_mode p = Live) (emit (CalledInputChange v) (st\<lparr>b_value := v\<rparr>)))"

text \<open>The widget's value changed elsewhere: copied in live mode only.\<close>

definition sync_external :: "box_props \<Rightarrow> jsval \<Rightarrow> box_state \<Rightarrow> box_state" where
  "sync_external p widgetValue st =
     (if qb_mode p = Submit then st
      else if widgetValue \<noteq> JUndef \<and> widgetValue \<noteq> JStr (b_value st)
      then st\<lparr>b_value := to_str (js_or widgetValue (JStr []))\<rparr> else st)"

datatype box_event =
    Typed string
  | FormSubmit
  | CustomSubmit string
  | ClearClicked
  | KeyDown box_key
  | SuggestionSelected bool jsval

fun box_step :: "box_props \<Rightarrow> rat \<times> box_event \<Rightarrow> box_state \<Rightarrow> box_state" where
  "box_step p (now, Typed v) st = box_handleChange p now v st"
| "box_step p (now, FormSubmit) st = handleSubmit p now st"
| "box_step p (now, CustomSubmit v) st = submitValue p now v st"
| "box_step p (now, ClearClicked) st = handleClear p now st"
| "box_step p (now, KeyDown k) st = box_handleKeyDown p now k st"
| "box_step p (now, SuggestionSelected h s) st = handleSuggestionSelect p now h s st"

text \<open>The mount: the value is the initial one and the widget is registered with it.\<close>

definition box_init :: "box_props \<Rightarrow> string \<Rightarrow> box_state" where
  "box_init p initialValue = \<lparr>b_value = initialValue, isSuggestOpen = False, effects = [Dispatched initialValue None]\<rparr>"

definition box_dispatches :: "box_state \<Rightarrow> (string \<times> rat option) list" where
  "box_dispatches st = List.map_filter (\<lambda>e. case e of Dispatched v tm \<Rightarrow> Some (v, tm) | _ \<Rightarrow> None) (effects st)"

section \<open>Properties\<close>

lemma map_filter_snoc: "List.map_filter f (xs @ [x]) = List.map_filter f xs @ (case f x of None \<Rightarrow> [] | Some y \<Rightarrow> [y])"
  by (induction xs) (simp_all add: List.map_filter_simps split: option.split)

lemma box_dispatches_emit [simp]:
  "box_dispatches (emit e st) = box_dispatches st @ (case e of Dispatched v tm \<Rightarrow> [(v, tm)] | _ \<Rightarrow> [])"
  by (simp add: box_dispatches_def emit_def map_filter_snoc split: box_effect.split)

lemma box_dispatches_local [simp]:
  "box_dispatches (st\<lparr>b_value := v\<rparr>) = box_dispatches st"
  "box_dispatches (st\<lparr>isSuggestOpen := b\<rparr>) = box_dispatches st"
  by (simp_all add: box_dispatches_def)

lemma emit_parts [simp]:
  "b_value (emit e st) = b_value st" "isSuggestOpen (emit e st) = isSuggestOpen st"
  by (simp_all add: emit_def)

lemmas box_defs = submitValue_def box_handleChange_def handleSubmit_def handleClear_def clearInputOnly_def
  box_handleKeyDown_def handleSuggestionSelect_def updateWidget_def

text \<open>In live mode the shared value is the one in the box: after any sequence of typing, clearing,
  keys, submissions and selections the last value dispatched is the value shown, as long as the box
  does not clear itself on submit, submissions carry the shown value and an Escape handler of the
  caller does not clear the input on its own.\<close>

theorem live_box_in_sync:
  assumes "qb_mode p = Live" "\<not> qb_clearOnSubmit p" "\<not> qb_onEscape p"
    and "\<forall>(now, ev) \<in> set evs. \<forall>v. ev \<noteq> CustomSubmit v"
  shows "fst (last (box_dispatches (fold (box_step p) evs (box_init p v0))))
           = b_value (fold (box_step p) evs (box_init p v0))"
proof -
  let ?I = "\<lambda>st. box_dispatches st \<noteq> [] \<and> fst (last (box_dispatches st)) = b_value st"
  have step: "?I (box_step p e st)" if "?I st" "\<forall>v. snd e \<noteq> CustomSubmit v" for e st
    using that assms(1-3)
    by (cases "(p, e, st)" rule: box_step.cases)
       (auto simp: box_defs Let_def split: box_key.split)
  have "?I (fold (box_step p) evs st)" if "?I st" for st
    using that assms(4) by (induction evs arbitrary: st) (auto simp: step)
  moreover have "?I (box_init p v0)"
    by (simp add: box_init_def box_dispatches_def List.map_filter_simps)
  ultimately show ?thesis by blast
qed

text \<open>In submit mode nothing is shared before it is submitted: typing, keys other than Enter and
  Escape, and line breaks dispatch nothing, so no request can be triggered; and every dispatch that
  carries a submission time comes from a submission or from clearing the box.\<close>

theorem submit_box_waits:
  assumes "qb_mode p = Submit"
    and "\<forall>(now, ev) \<in> set evs. case ev of Typed v \<Rightarrow> True | KeyDown PlainKey \<Rightarrow> True
           | KeyDown (EnterKey shift) \<Rightarrow> shift | _ \<Rightarrow> False"
  shows "box_dispatches (fold (box_step p) evs st) = box_dispatches st
    \<and> box_dispatches (box_step p (now, FormSubmit) st) = box_dispatches st @ [(b_value st, Some now)]
    \<and> box_dispatches (box_step p (now, SuggestionSelected False s) st)
        = box_dispatches st @ [(suggestion_text s, None)]"
proof -
  have step: "box_dispatches (box_step p e st) = box_dispatches st"
    if "case snd e of Typed v \<Rightarrow> True | KeyDown PlainKey \<Rightarrow> True | KeyDown (EnterKey shift) \<Rightarrow> shift | _ \<Rightarrow> False"
    for e st
    using that assms(1)
    by (cases "(p, e, st)" rule: box_step.cases) (auto simp: box_defs Let_def split: box_key.splits)
  have "box_dispatches (fold (box_step p) evs st) = box_dispatches st"
    using assms(2) by (induction evs arbitrary: st) (auto simp: step)
  then show ?thesis using assms(1) by (simp add: box_defs Let_def)
qed

definition live_box :: box_props where
  "live_box = \<lparr>qb_id = ''q'', qb_mode = Live, qb_clearOnSubmit = False, qb_autoSubmit = False, qb_onEscape = False\<rparr>"

lemma live_box_in_sync_witness:
  "fst (last (box_dispatches (fold (box_step live_box) [(1, Typed ''ru''), (2, KeyDown (EscapeKey False False))]
     (box_init live_box []))))
   = b_value (fold (box_step live_box) [(1, Typed ''ru''), (2, KeyDown (EscapeKey False False))] (box_init live_box []))"
  by (rule live_box_in_sync) (simp_all add: live_box_def)

lemma submit_box_waits_witness:
  "box_dispatches (fold (box_step (live_box\<lparr>qb_mode := Submit\<rparr>)) [(1, Typed ''ru''), (2, KeyDown (EnterKey True))]
     (box_init live_box [])) = [([], None)]"
  using submit_box_waits [of "live_box\<lparr>qb_mode := Submit\<rparr>" "[(1, Typed ''ru''), (2, KeyDown (EnterKey True))]"
      "box_init live_box []" 3 JNull]
  by (simp add: live_box_def) (simp add: box_init_def box_dispatches_def List.map_filter_simps)

end
