(* ===== verification/AnswerResults.thy ===== *)
theory AnswerResults
  imports FilterWidgets
begin

text \<open>
  The answer component (ts/packages/components/src/AnswerResults.tsx): when a submission of the linked
  search box starts an agent stream, what the stream's callbacks do, and how the effect that starts it
  is cleaned up. A done event carries a result object, as the API types it.
\<close>

section \<open>State\<close>

record ar_state =
  ar_classification :: jsval
  ar_hits :: "jsval list"
  ar_reasoning :: string
  ar_answer :: string
  ar_confidence :: jsval
  ar_followUps :: "jsval list"
  ar_evalResult :: jsval
  ar_isStreaming :: bool
  ar_error :: "string option"
  streamStarts :: nat
  streamEnds :: nat

text \<open>The setters at the head of \<open>startStream\<close>, and the call of \<open>onStreamStart\<close>.\<close>

definition ar_start :: "ar_state \<Rightarrow> ar_state" where
  "ar_start st = st\<lparr>ar_classification := JNull, ar_hits := [], ar_reasoning := [], ar_answer := [],
     ar_confidence := JNull, ar_followUps := [], ar_evalResult := JNull, ar_error := None,
     ar_isStreaming := True, streamStarts := Suc (streamStarts st)\<rparr>"

fun ar_update :: "sse_kind \<Rightarrow> jsval \<Rightarrow> ar_state \<Rightarrow> ar_state" where
  "ar_update Classification v st = st\<lparr>ar_classification := v\<rparr>"
| "ar_update Reasoning v st = st\<lparr>ar_reasoning := ar_reasoning st @ to_str v\<rparr>"
| "ar_update Hit v st = st\<lparr>ar_hits := ar_hits st @ [v]\<rparr>"
| "ar_update Generation v st = st\<lparr>ar_answer := ar_answer st @ to_str v\<rparr>"
| "ar_update Confidence v st = st\<lparr>ar_confidence := v\<rparr>"
| "ar_update Followup v st = st\<lparr>ar_followUps := ar_followUps st @ [v]\<rparr>"
| "ar_update EvalResult v st = st\<lparr>ar_evalResult := v\<rparr>"
| "ar_update _ v st = st"

definition ar_complete :: "ar_state \<Rightarrow> ar_state" where
  "ar_complete st = st\<lparr>ar_isStreaming := False, streamEnds := Suc (streamEnds st)\<rparr>"

definition ar_fail :: "js_exn \<Rightarrow> ar_state \<Rightarrow> ar_state" where
  "ar_fail e st = st\<lparr>ar_error := Some (case e of ErrorObj _ m \<Rightarrow> m | NonError v \<Rightarrow> to_str v),
                     ar_isStreaming := False\<rparr>"

fun list_or_empty :: "jsval \<Rightarrow> jsval list" where
  "list_or_empty (JArr vs) = vs"
| "list_or_empty _ = []"

definition ar_result :: "jsval \<Rightarrow> ar_state \<Rightarrow> ar_state" where
  "ar_result r st = st
     \<lparr>ar_classification := js_or (fld r ''classification'') JNull,
      ar_answer := to_str (js_or (fld r ''generation'') (JStr [])),
      ar_followUps := list_or_empty (fld r ''followup_questions''),
      ar_hits := list_or_empty (fld r ''hits''),
      ar_confidence := (if fld r ''generation_confidence'' \<noteq> JUndef \<and> fld r ''context_relevance'' \<noteq> JUndef
         then JObj [(''generation_confidence'', fld r ''generation_confidence''),
                    (''context_relevance'', fld r ''context_relevance'')] else ar_confidence st),
      ar_evalResult := (if truthy (fld r ''eval_result'') then fld r ''eval_result'' else ar_evalResult st),
      ar_isStreaming := False, streamEnds := Suc (streamEnds st)\<rparr>"

definition ar_kinds :: "sse_kind list" where
  "ar_kinds = [Classification, Reasoning, Hit, Generation, Confidence, Followup, EvalResult]"

definition ar_hook :: "ar_state answer_callbacks" where
  "ar_hook =
     \<lparr>ac_base = \<lparr>has_cb = (\<lambda>k. k \<in> set ar_kinds), invoke = (\<lambda>k v st. (ar_update k v st, False))\<rparr>,
      onComplete = Some (\<lambda>st. (ar_complete st, None)),
      onError = Some (\<lambda>e st. (ar_fail e st, None)),
      onRetrievalAgentResult = Some (\<lambda>r st. (ar_result r st, None))\<rparr>"

section \<open>The request\<close>

record ar_props =
  arp_generator :: jsval
  arp_agentKnowledge :: "string option"
  arp_table :: table_ref
  arp_filterQuery :: jsval
  arp_exclusionQuery :: jsval
  arp_fields :: "string list option"
  arp_semanticIndexes :: "string list option"
  arp_eval :: jsval
  arp_systemPrompt :: "string option"
  arp_generationContext :: "string option"
  arp_limit :: "rat option"
  arp_followUpCount :: "rat option"
  arp_showReasoning :: bool
  arp_showFollowUpQuestions :: bool
  arp_showConfidence :: bool

definition opt_field :: "string \<Rightarrow> jsval \<Rightarrow> bool \<Rightarrow> (string \<times> jsval) list" where
  "opt_field k v c = (if c then [(k, v)] else [])"

text \<open>\<open>table || searchBoxWidget?.table\<close>, resolved against the default table.\<close>

definition answer_table :: "ar_props \<Rightarrow> widget option \<Rightarrow> string \<Rightarrow> string" where
  "answer_table p box defaultTable =
     resolveTable (if arp_table p = NoTable \<or> arp_table p = OneTable []
                   then (case box of None \<Rightarrow> NoTable | Some w \<Rightarrow> w_table w) else arp_table p) defaultTable"

definition answer_request :: "ar_props \<Rightarrow> string \<Rightarrow> string \<Rightarrow> (string \<times> jsval) list" where
  "answer_request p currentQuery resolvedTable =
     [(''query'', JStr currentQuery)]
     @ opt_field ''generator'' (arp_generator p) (truthy (arp_generator p))
     @ [(''agent_knowledge'', opt_str (arp_agentKnowledge p)), (''stream'', JBool True),
        (''queries'', JArr [JObj
          ([(''table'', JStr resolvedTable), (''semantic_search'', JStr currentQuery)]
           @ opt_field ''indexes'' (opt_strs (arp_semanticIndexes p)) (nonempty_array (opt_strs (arp_semanticIndexes p)))
           @ opt_field ''fields'' (opt_strs (arp_fields p)) (nonempty_array (opt_strs (arp_fields p)))
           @ opt_field ''filter_query'' (arp_filterQuery p) (truthy (arp_filterQuery p))
           @ opt_field ''exclusion_query'' (arp_exclusionQuery p) (truthy (arp_exclusionQuery p))
           @ [(''limit'', coalesce (opt_num (arp_limit p)) (JNum 10))])]),
        (''steps'', JObj
          [(''generation'', JObj ([(''enabled'', JBool True)]
              @ opt_field ''system_prompt'' (opt_str (arp_systemPrompt p)) (truthy (opt_str (arp_systemPrompt p)))
              @ opt_field ''generation_context'' (opt_str (arp_generationContext p))
                  (truthy (opt_str (arp_generationContext p))))),
           (''classification'', JObj [(''enabled'', JBool True), (''with_reasoning'', JBool (arp_showReasoning p))]),
           (''followup'', JObj ([(''enabled'', JBool (arp_showFollowUpQuestions p))]
              @ opt_field ''count'' (opt_num (arp_followUpCount p)) (truthy (opt_num (arp_followUpCount p))))),
           (''confidence'', JObj [(''enabled'', JBool (arp_showConfidence p))]),
           (''eval'', arp_eval p)])]"

definition answer_widget :: "table_ref \<Rightarrow> string \<Rightarrow> widget" where
  "answer_widget t answer = empty_widget
     \<lparr>needsQuery := False, needsConfiguration := False, isFacet := False, wantResults := False,
      w_table := t, w_value := JStr answer\<rparr>"

section \<open>The effect\<close>

text \<open>
  Streams are numbered. \<open>has_cleanup\<close>: the last run of the effect got to its end and returned the
  function that aborts; a run that returns early leaves none.
\<close>

record ar_sys =
  answer_st :: ar_state
  ar_ctrl :: "nat option"
  ar_aborted :: "nat list"
  ar_stream :: nat
  previousSubmission :: "rat option"
  has_cleanup :: bool

definition ar_abort :: "ar_sys \<Rightarrow> nat list" where
  "ar_abort s = (case ar_ctrl s of None \<Rightarrow> ar_aborted s | Some i \<Rightarrow> i # ar_aborted s)"

datatype ar_call = ArData sse_kind jsval | ArResult jsval | ArComplete | ArFail js_exn

fun ar_apply :: "ar_call \<Rightarrow> ar_state \<Rightarrow> ar_state" where
  "ar_apply (ArData k v) st = ar_update k v st"
| "ar_apply (ArResult r) st = ar_result r st"
| "ar_apply ArComplete st = ar_complete st"
| "ar_apply (ArFail e) st = ar_fail e st"

text \<open>
  \<open>Effect\<close> is a run of the effect (some dependency changed) with the current query, its submission
  time and the URL; the arrival of a controller and the callbacks of a stream are the other events.
\<close>

datatype ar_event = Effect "string option" "rat option" "string option" | ArConnected nat | ArDeliver nat ar_call

definition run_effect :: "string option \<Rightarrow> rat option \<Rightarrow> string option \<Rightarrow> ar_sys \<Rightarrow> ar_sys" where
  "run_effect currentQuery tm u s =
     (let s = (if has_cleanup s then s\<lparr>ar_aborted := ar_abort s\<rparr> else s);
          early = s\<lparr>has_cleanup := False\<rparr>
      in if \<not> truthy (opt_str currentQuery) \<or> \<not> truthy (opt_num tm) then early
         else if tm = previousSubmission s then early
         else if \<not> truthy (opt_str u) then early
         else s\<lparr>ar_aborted := ar_abort s, previousSubmission := tm, ar_stream := Suc (ar_stream s),
                answer_st := ar_start (answer_st s), has_cleanup := True\<rparr>)"

fun ar_step :: "ar_event \<Rightarrow> ar_sys \<Rightarrow> ar_sys" where
  "ar_step (Effect q t u) s = run_effect q t u s"
| "ar_step (ArConnected i) s = s\<lparr>ar_ctrl := Some i\<rparr>"
| "ar_step (ArDeliver i call) s =
     (if i \<in> set (ar_aborted s) then s else s\<lparr>answer_st := ar_apply call (answer_st s)\<rparr>)"

section \<open>Properties\<close>

text \<open>A finished stream ends twice: the done event of a stream calls \<open>onStreamEnd\<close> once for its
  result and once for its completion, and so does a JSON answer; the state is that of the result.\<close>

theorem stream_end_called_twice:
  "fst (invoke (sdkCallbacks ar_hook) Done r st) = ar_complete (ar_result r st)
   \<and> streamEnds (fst (invoke (sdkCallbacks ar_hook) Done r st)) = streamEnds st + 2
   \<and> streamEnds (fst (finish_answer ar_hook r st)) = streamEnds st + 2
   \<and> \<not> ar_isStreaming (fst (invoke (sdkCallbacks ar_hook) Done r st))"
  by (simp add: sdkCallbacks_def ar_hook_def finish_answer_def then_handler_def call_handler_def
      ar_complete_def ar_result_def)

lemma aborted_frozen:
  assumes "n \<in> set (ar_aborted s)" "\<forall>e \<in> set evs. \<exists>call. e = ArDeliver n call"
  shows "fold ar_step evs s = s"
  using assms by (induction evs) auto

text \<open>A re-render can kill an answer: when the effect runs again for the same submission while its
  stream is open (any dependency changed, such as a list given inline), the stream is aborted, no new
  one is started, and the component stays in the streaming state with what it had so far, whatever
  the aborted stream would still have delivered.\<close>

theorem rerun_kills_stream:
  assumes "has_cleanup s" "ar_ctrl s = Some n" "previousSubmission s = Some t" "ar_isStreaming (answer_st s)"
    and "\<forall>e \<in> set evs. \<exists>call. e = ArDeliver n call"
  shows "answer_st (fold ar_step (Effect q (Some t) u # evs) s) = answer_st s
    \<and> ar_stream (fold ar_step (Effect q (Some t) u # evs) s) = ar_stream s"
proof -
  let ?s = "ar_step (Effect q (Some t) u) s"
  have s: "?s = s\<lparr>ar_aborted := n # ar_aborted s, has_cleanup := False\<rparr>"
    using assms by (simp add: run_effect_def ar_abort_def Let_def)
  have "fold ar_step evs ?s = ?s"
    unfolding s by (rule aborted_frozen [where n = n, OF _ assms(5)]) simp
  then show ?thesis unfolding fold_Cons o_apply s by simp
qed

text \<open>A submission is answered once: a run of the effect starts a stream exactly when there are a
  query, a URL and a submission time that is not the one of the last start, and then everything the
  earlier answer left is cleared.\<close>

theorem submission_starts_once:
  "ar_stream (run_effect q t u s) = ar_stream s +
     (if truthy (opt_str q) \<and> truthy (opt_num t) \<and> t \<noteq> previousSubmission s \<and> truthy (opt_str u) then 1 else 0)
   \<and> (ar_stream (run_effect q t u s) = ar_stream s \<or>
        previousSubmission (run_effect q t u s) = t \<and> answer_st (run_effect q t u s) = ar_start (answer_st s)
        \<and> ar_stream (run_effect q t u (run_effect q t u s)) = ar_stream (run_effect q t u s))"
  by (auto simp: run_effect_def Let_def ar_abort_def)

definition ar_empty :: ar_state where
  "ar_empty = \<lparr>ar_classification = JNull, ar_hits = [], ar_reasoning = [], ar_answer = [], ar_confidence = JNull,
     ar_followUps = [], ar_evalResult = JNull, ar_isStreaming = False, ar_error = None, streamStarts = 0,
     streamEnds = 0\<rparr>"

lemma rerun_kills_stream_witness:
  "answer_st (fold ar_step [Effect (Some ''q'') (Some 5) (Some ''u''), ArDeliver 1 ArComplete]
     \<lparr>answer_st = ar_start ar_empty, ar_ctrl = Some 1, ar_aborted = [], ar_stream = 1,
      previousSubmission = Some 5, has_cleanup = True\<rparr>) = ar_start ar_empty"
  using rerun_kills_stream [of "\<lparr>answer_st = ar_start ar_empty, ar_ctrl = Some 1, ar_aborted = [], ar_stream = 1,
      previousSubmission = Some 5, has_cleanup = True\<rparr>" 1 5 "[ArDeliver 1 ArComplete]" "Some ''q''" "Some ''u''"]
  by (simp add: ar_start_def)

end
