(* ===== verification/Pages.thy ===== *)
theory Pages
  imports ResultsWidget Autosuggest QueryBox AnswerResults
begin

text \<open>
  Pages built from the components of the library: what all their registrations have in common, and
  what the listener does with a page as a whole.
\<close>

section \<open>The registrations of the library's widgets\<close>

datatype registration =
    RegFacet facet_props "string list" rat string
  | RegResults results_props string rat
  | RegAutosuggest autosuggest_props string
  | RegQueryBox string "rat option"
  | RegAnswer table_ref string

fun registration_widget :: "registration \<Rightarrow> widget" where
  "registration_widget (RegFacet p v sz fv) = facet_widget p v sz fv"
| "registration_widget (RegResults p v pg) = results_widget p v pg"
| "registration_widget (RegAutosuggest p v) = autosuggest_widget p v"
| "registration_widget (RegQueryBox v tm) = querybox_widget v tm"
| "registration_widget (RegAnswer t a) = answer_widget t a"

text \<open>No widget has a full-text query next to its semantic query.\<close>

definition one_query :: "registration \<Rightarrow> bool" where
  "one_query reg \<longleftrightarrow> \<not> (truthy (w_query (registration_widget reg)) \<and> has_semantic (registration_widget reg))"

lemma facet_registered: "well_registered (facet_widget p v sz fv)"
  by (simp add: well_registered_def facet_widget_def has_semantic_def empty_widget_def)

lemma querybox_registered: "well_registered (querybox_widget v tm)"
  by (simp add: well_registered_def querybox_widget_def has_semantic_def empty_widget_def)

lemma answer_registered: "well_registered (answer_widget t a)"
  by (simp add: well_registered_def answer_widget_def has_semantic_def empty_widget_def)

lemma autosuggest_needs:
  "truthy (w_query (autosuggest_widget p v)) \<or> has_semantic (autosuggest_widget p v) \<Longrightarrow>
     needsQuery (autosuggest_widget p v)"
  "truthy (configuration (autosuggest_widget p v)) \<Longrightarrow> needsConfiguration (autosuggest_widget p v)"
  by (auto simp: autosuggest_widget_def has_semantic_def empty_widget_def canQuery_def finalQuery_def
      baseQuery_def has_fields_def as_configuration_def split: option.splits list.splits if_splits)

lemma registered: "one_query reg \<Longrightarrow> well_registered (registration_widget reg)"
proof (cases reg)
  case (RegResults p v pg)
  have "has_semantic (results_widget p v pg) \<longleftrightarrow> isSemanticEnabled p \<and> v \<noteq> []"
    by (auto simp: results_widget_def has_semantic_def isSemanticEnabled_def)
  moreover have "w_query (results_widget p v pg) = results_query p v"
    by (simp add: results_widget_def)
  moreover assume "one_query reg"
  ultimately show ?thesis using RegResults by (simp add: results_registered one_query_def)
next
  case (RegAutosuggest p v)
  assume "one_query reg"
  with RegAutosuggest show ?thesis
    using autosuggest_needs [of p v] by (auto simp: well_registered_def one_query_def)
qed (simp_all add: facet_registered querybox_registered answer_registered)

text \<open>Actions of a page that only the library's widgets (and the listener) dispatch.\<close>

fun library_action :: "'e shared_action \<Rightarrow> bool" where
  "library_action (SetWidget k w) = (\<exists>reg. w = registration_widget reg \<and> one_query reg)"
| "library_action _ = True"

lemma well_registered_fields [simp]:
  "well_registered (w\<lparr>w_id := k\<rparr>) = well_registered w"
  "well_registered (w\<lparr>w_result := r\<rparr>) = well_registered w"
  "well_registered (w\<lparr>isLoading := l\<rparr>) = well_registered w"
  by (simp_all add: well_registered_def has_semantic_def)

definition page_ok :: "'e shared_state \<Rightarrow> bool" where
  "page_ok s \<longleftrightarrow> (\<forall>k w. widget_at s k = Some w \<longrightarrow> well_registered w)"

lemma page_ok_step:
  assumes "page_ok s" "library_action a"
  shows "page_ok (reducer a s)"
  unfolding page_ok_def
proof (intro allI impI)
  fix k w assume w: "widget_at (reducer a s) k = Some w"
  show "well_registered w"
  proof (cases "touches_widget a k")
    case False
    then show ?thesis using w assms(1) by (simp add: store_widget.frame page_ok_def)
  next
    case True
    then show ?thesis
    proof (cases a)
      case (SetWidget k' v)
      then have "well_registered v" using assms(2) registered by auto
      then show ?thesis using w True SetWidget by (auto simp: widget_at_set)
    next
      case (SetWidgetResult k' l r)
      then show ?thesis
        using w True assms(1) by (auto simp: widget_at_result page_ok_def split: option.splits)
    next
      case (DeleteWidget k')
      then show ?thesis using w True by (simp add: widget_at_delete)
    qed simp_all
  qed
qed

lemma page_ok_run:
  "\<forall>a \<in> set acts. library_action a \<Longrightarrow> page_ok s \<Longrightarrow> page_ok (dispatch_all acts s)"
  unfolding dispatch_all_def by (induction acts arbitrary: s) (simp_all add: page_ok_step)

section \<open>Properties\<close>

text \<open>C33. A page of the library is asked for as soon as it is complete, and not before: after any
  sequence of registrations, results, removals and configuration changes in which no widget has both
  kinds of query, the listener schedules a request exactly when some widget wants something and every
  widget that needs a query or a configuration has it.\<close>

theorem page_ready_iff_complete:
  fixes acts :: "'e shared_action list"
  assumes "\<forall>a \<in> set acts. library_action a"
  shows "listener_ready (dispatch_all acts (initialState u t hs)) \<longleftrightarrow>
    (\<exists>(k, w) \<in> set (widgets (dispatch_all acts (initialState u t hs))). needsQuery w \<or> needsConfiguration w)
    \<and> (\<forall>(k, w) \<in> set (widgets (dispatch_all acts (initialState u t hs))).
         (needsQuery w \<longrightarrow> truthy (w_query w) \<or> has_semantic w)
         \<and> (needsConfiguration w \<longrightarrow> truthy (configuration w)))"
proof -
  let ?s = "dispatch_all acts (initialState u t hs)"
  have "page_ok (initialState u t hs :: 'e shared_state)"
    by (simp add: page_ok_def widget_at_def initialState_def)
  then have "page_ok ?s" by (rule page_ok_run [OF assms])
  moreover have "jmap_ok (widgets ?s)"
    using store_ok_dispatch_all [OF store_ok_initial] by (auto simp: store_ok_def)
  ultimately have "\<forall>(k, w) \<in> set (widgets ?s). well_registered w"
    by (auto simp: page_ok_def widget_at_def jmap_get_iff)
  then show ?thesis by (rule ready_iff_complete)
qed

text \<open>The text a widget shows for a rejection.\<close>

definition failure_text :: "js_exn \<Rightarrow> string" where
  "failure_text e = (case e of ErrorObj _ m \<Rightarrow> if m = [] then ''Query failed'' else m | NonError _ \<Rightarrow> ''Connection failed'')"

lemma forEach_failed:
  "n = length items \<Longrightarrow>
     forEach_response items (replicate n (connection_failed e)) = (map (fail_item (failure_text e)) items, False)"
  by (induction items arbitrary: n)
    (simp_all add: connection_failed_def nullish_def item_response_def js_or_def failure_text_def split: js_exn.split)

lemma fetch_failed:
  assumes "multiquery api stringify (case dc of None \<Rightarrow> component_client u hs | Some c \<Rightarrow> c) (map ms_query items) = Inl e"
  shows "(fetchData items (snd (run_multiquery api stringify dc u (map ms_query items) hs)) :: 'e shared_action list)
    = map (fail_item (failure_text e)) items"
proof (cases "items = []")
  case False
  have "snd (run_multiquery api stringify dc u (map ms_query items) hs) =
      JObj [(''responses'', JArr (replicate (length items) (connection_failed e)))]"
    using assms(1) by (cases dc)
      (simp_all add: run_multiquery_def initializeAntflyClient_def map_replicate_const o_def)
  moreover have "(forEach_response items (replicate (length items) (connection_failed e))
      :: 'e shared_action list \<times> bool) = (map (fail_item (failure_text e)) items, False)"
    by (rule forEach_failed [OF refl])
  ultimately show ?thesis
    using False by (simp add: fetchData_def Let_def)
qed (simp add: fetchData_def)

lemma failed_run:
  assumes "widget_at s k \<noteq> None" "k \<in> ms_id ` set items"
  shows "result_at (dispatch_all (map (fail_item m) items) s) k = Some (error_result m)
    \<and> settled (dispatch_all (map (fail_item m) items) s) k"
proof
  have touch: "touches_result (fail_item m it) k \<longleftrightarrow> ms_id it = k" for it
    by (simp add: fail_item_def)
  obtain as it bs where items: "items = as @ it # bs" "ms_id it = k" "\<forall>b \<in> set bs. ms_id b \<noteq> k"
    using assms(2) split_list_last_prop [of items "\<lambda>it. ms_id it = k"] by auto
  have mounted: "widget_at (fold reducer (map (fail_item m) xs) s) k \<noteq> None" for xs
    using assms(1)
  proof (induction xs arbitrary: s)
    case (Cons x xs)
    have "widget_at (reducer (fail_item m x) s) k \<noteq> None"
      using Cons.prems store_widget.frame [of "fail_item m x" k s]
      by (cases "ms_id x = k") (auto simp: fail_item_def widget_at_result)
    then show ?case using Cons.IH by simp
  qed simp
  have "result_at (dispatch_all (map (fail_item m) items) s) k
      = result_at (reducer (fail_item m it) (fold reducer (map (fail_item m) as) s)) k"
    unfolding items dispatch_all_def map_append list.map
    by (rule store_result.run_last) (use items touch in auto)
  then show "result_at (dispatch_all (map (fail_item m) items) s) k = Some (error_result m)"
    using mounted [of as] items(2) by (auto simp: fail_item_def result_at_def widget_at_result)
  show "settled (dispatch_all (map (fail_item m) items) s) k"
    by (rule settled_all) (use assms(2) in \<open>auto simp: image_image\<close>)
qed

text \<open>C34. A failed connection reaches the user: when the multi-query of the listener is rejected, every widget it
  asked for that is still mounted leaves the loading state and shows the message of the Error, \<open>Query failed\<close> when that is
  empty, or \<open>Connection failed\<close> for a rejection that is not an Error; and no other widget changes.\<close>

theorem connection_failure_shown:
  fixes s :: "'e shared_state"
  assumes "multiquery api stringify (case dc of None \<Rightarrow> component_client u hs | Some c \<Rightarrow> c) (map ms_query items) = Inl e"
  shows "(widget_at s k \<noteq> None \<and> k \<in> ms_id ` set items \<longrightarrow>
      result_at (dispatch_all (fetchData items (snd (run_multiquery api stringify dc u (map ms_query items) hs))) s) k
        = Some (error_result (case e of ErrorObj _ m \<Rightarrow> if m = [] then ''Query failed'' else m | NonError _ \<Rightarrow> ''Connection failed''))
      \<and> settled (dispatch_all (fetchData items (snd (run_multiquery api stringify dc u (map ms_query items) hs))) s) k)
    \<and> (k \<notin> ms_id ` set items \<longrightarrow>
      widget_at (dispatch_all (fetchData items (snd (run_multiquery api stringify dc u (map ms_query items) hs))) s) k
        = widget_at s k)"
  unfolding fetch_failed [OF assms] failure_text_def [symmetric]
proof (intro conjI impI)
  assume "k \<notin> ms_id ` set items"
  then show "widget_at (dispatch_all (map (fail_item (failure_text e)) items) s) k = widget_at s k"
    unfolding dispatch_all_def by (intro store_widget.run_frame) (auto simp: fail_item_def)
qed (use failed_run in blast)+

definition failing_item :: ms_item where
  "failing_item = \<lparr>ms_id = ''r'', ms_query = JNull, ms_reader = SearchReader []\<rparr>"

lemma connection_failure_shown_witness:
  "result_at (dispatch_all (fetchData [failing_item] (snd (run_multiquery (\<lambda>_ _. Inl (ErrorObj ''TypeError'' ''down''))
       to_str None ''u'' (map ms_query [failing_item]) []))) (demo_state ''ty'')) ''r'' = Some (error_result ''down'')"
proof -
  have m: "multiquery (\<lambda>_ _. Inl (ErrorObj ''TypeError'' ''down'')) to_str
      (case None of None \<Rightarrow> component_client ''u'' [] | Some c \<Rightarrow> c) (map ms_query [failing_item])
      = Inl (ErrorObj ''TypeError'' ''down'')"
    by (simp add: multiquery_def performMultiquery_def api_call_def Let_def)
  show ?thesis
    using connection_failure_shown [OF m, of "demo_state ''ty''" "''r''"]
    by (simp add: failing_item_def demo_state_def widget_at_def jmap_get_def)
qed

lemma page_ready_iff_complete_witness:
  "listener_ready (dispatch_all [SetWidget ''f'' (facet_widget
     \<lparr>fp_id = ''f'', fp_fields = [''colour''], fp_itemsPerBlock = None, fp_table = None\<rparr> [''red''] 5 [])]
     (initialState ''u'' ''t'' [] :: unit shared_state))"
proof -
  let ?w = "facet_widget \<lparr>fp_id = ''f'', fp_fields = [''colour''], fp_itemsPerBlock = None, fp_table = None\<rparr> [''red''] 5 []"
  have "library_action (SetWidget ''f'' ?w :: unit shared_action)"
    using facet_registered by (auto simp: one_query_def well_registered_def intro!: exI [of _ "RegFacet _ _ _ _"])
  then have "\<forall>a \<in> set [SetWidget ''f'' ?w :: unit shared_action]. library_action a" by simp
  from page_ready_iff_complete [OF this, of "''u''" "''t''" "[]"] show ?thesis
    by (simp add: dispatch_all_def reducer_def initialState_def jmap_set_def facet_widget_def empty_widget_def
        toTermQueries_def disjunctsFrom_def term_query_def)
qed

end
