(* ===== verification/EvalSets.thy ===== *)
theory EvalSets
  imports Prelude "HOL-Library.List_Lexorder" "HOL-Library.Char_ord"
begin

text \<open>
  The evaluation sets of the dashboard (ts/apps/antfarm/src/hooks/use-eval-sets.ts): named sets of
  questions with reference answers, kept in the browser's storage, and the handlers of the page that
  edits them (pages/EvalsPlaygroundPage.tsx).

  An operation of the hook checks the sets of the render it was made in (\<open>seen\<close>) and hands React an
  updater for the current ones; it is modelled as the value it returns next to that updater. The
  clock and the identifier generator are functions of the position of the call within the operation.
  Identifiers and times of an imported set are whatever its JSON holds. The object of sets is read
  through its own keys.
\<close>

section \<open>Sets and their storage\<close>

record eval_item =
  ei_id :: jsval
  ei_question :: string
  ei_answer :: string
  ei_addedAt :: jsval

record eval_set =
  es_name :: string
  es_createdAt :: jsval
  es_items :: "eval_item list"

type_synonym eval_sets = "(string \<times> eval_set) list"

definition item_value :: "eval_item \<Rightarrow> jsval" where
  "item_value i = JObj [(''id'', ei_id i), (''question'', JStr (ei_question i)),
     (''referenceAnswer'', JStr (ei_answer i)), (''addedAt'', ei_addedAt i)]"

definition set_value :: "eval_set \<Rightarrow> jsval" where
  "set_value s = JObj [(''name'', JStr (es_name s)), (''createdAt'', es_createdAt s),
     (''items'', JArr (map item_value (es_items s)))]"

definition sets_value :: "eval_sets \<Rightarrow> jsval" where
  "sets_value sets = JObj (map (\<lambda>(k, s). (k, set_value s)) sets)"

text \<open>The values of the declared types, as the code reads them back after a cast.\<close>

fun text_of :: "jsval \<Rightarrow> string" where
  "text_of (JStr s) = s"
| "text_of _ = []"

fun array_of :: "jsval \<Rightarrow> jsval list" where
  "array_of (JArr vs) = vs"
| "array_of _ = []"

definition value_item :: "jsval \<Rightarrow> eval_item" where
  "value_item v = \<lparr>ei_id = fld v ''id'', ei_question = text_of (fld v ''question''),
     ei_answer = text_of (fld v ''referenceAnswer''), ei_addedAt = fld v ''addedAt''\<rparr>"

definition value_set :: "jsval \<Rightarrow> eval_set" where
  "value_set v = \<lparr>es_name = text_of (fld v ''name''), es_createdAt = fld v ''createdAt'',
     es_items = map value_item (array_of (fld v ''items''))\<rparr>"

fun value_sets :: "jsval \<Rightarrow> eval_sets" where
  "value_sets (JObj kvs) = map (\<lambda>(k, v). (k, value_set v)) kvs"
| "value_sets _ = []"

text \<open>
  \<open>loadFromStorage\<close> and \<open>saveToStorage\<close>: the stored text, if there is any; writing may fail
  (\<open>storable\<close>), which is only logged.
\<close>

definition loadFromStorage :: "(string \<Rightarrow> jsval option) \<Rightarrow> string option \<Rightarrow> eval_sets" where
  "loadFromStorage json_parse stored =
     (case stored of
        None \<Rightarrow> []
      | Some t \<Rightarrow> if t = [] then [] else (case json_parse t of None \<Rightarrow> [] | Some v \<Rightarrow> value_sets v))"

definition saveToStorage ::
    "(jsval \<Rightarrow> string) \<Rightarrow> (string \<Rightarrow> bool) \<Rightarrow> eval_sets \<Rightarrow> string option \<Rightarrow> string option" where
  "saveToStorage stringify storable sets stored =
     (let t = stringify (sets_value sets) in if storable t then Some t else stored)"

section \<open>Operations\<close>

text \<open>An updater handed to React; it throws when it reads a property of a missing set.\<close>

type_synonym update = "eval_sets \<Rightarrow> eval_sets res"

definition evalSet :: "eval_sets \<Rightarrow> string \<Rightarrow> eval_set option" where
  "evalSet sets name = map_of sets name"

definition put_set :: "eval_set \<Rightarrow> update" where
  "put_set s prev = Inr (obj_put (es_name s) s prev)"

definition createEvalSet :: "eval_sets \<Rightarrow> string \<Rightarrow> string \<Rightarrow> eval_set option \<times> update option" where
  "createEvalSet seen now name =
     (if trim name = [] then (None, None)
      else if evalSet seen (trim name) \<noteq> None then (None, None)
      else let newSet = \<lparr>es_name = trim name, es_createdAt = JStr now, es_items = []\<rparr>
           in (Some newSet, Some (put_set newSet)))"

definition deleteEvalSet :: "eval_sets \<Rightarrow> string \<Rightarrow> bool \<times> update option" where
  "deleteEvalSet seen name =
     (if evalSet seen name = None then (False, None)
      else (True, Some (\<lambda>prev. Inr (AList.delete name prev))))"

definition change_items :: "string \<Rightarrow> (eval_item list \<Rightarrow> eval_item list) \<Rightarrow> update" where
  "change_items name f prev =
     (case evalSet prev name of
        None \<Rightarrow> throw_type_error
      | Some s \<Rightarrow> Inr (obj_put name (s\<lparr>es_items := f (es_items s)\<rparr>) prev))"

definition addItem ::
    "eval_sets \<Rightarrow> string \<Rightarrow> string \<Rightarrow> string \<Rightarrow> string \<Rightarrow> string \<Rightarrow> eval_item option \<times> update option" where
  "addItem seen newId now setName question referenceAnswer =
     (if evalSet seen setName = None then (None, None)
      else let newItem = \<lparr>ei_id = JStr newId, ei_question = trim question,
                          ei_answer = trim referenceAnswer, ei_addedAt = JStr now\<rparr>
           in (Some newItem, Some (change_items setName (\<lambda>items. items @ [newItem]))))"

definition removeItem :: "eval_sets \<Rightarrow> string \<Rightarrow> jsval \<Rightarrow> bool \<times> update option" where
  "removeItem seen setName itemId =
     (case evalSet seen setName of
        None \<Rightarrow> (False, None)
      | Some s \<Rightarrow>
          if \<not> list_ex (\<lambda>item. ei_id item = itemId) (es_items s) then (False, None)
          else (True, Some (change_items setName (filter (\<lambda>item. ei_id item \<noteq> itemId)))))"

definition getEvalSetNames :: "eval_sets \<Rightarrow> string list" where
  "getEvalSetNames sets = sort (map fst sets)"

definition exportEvalSet :: "(jsval \<Rightarrow> string) \<Rightarrow> eval_sets \<Rightarrow> string \<Rightarrow> string option" where
  "exportEvalSet stringify sets name = map_option (\<lambda>s. stringify (set_value s)) (evalSet sets name)"

section \<open>Importing\<close>

datatype import_result = ImportFailed string | Imported string

definition exn_text :: "js_exn \<Rightarrow> string" where
  "exn_text e = (case e of ErrorObj n m \<Rightarrow> n @ '': '' @ m | NonError v \<Rightarrow> to_str v)"

text \<open>One round of the loop over \<open>parsed.items\<close>: nothing for an invalid item.\<close>

definition import_item ::
    "(nat \<Rightarrow> string) \<Rightarrow> (nat \<Rightarrow> string) \<Rightarrow> nat \<Rightarrow> jsval \<Rightarrow> eval_item option res" where
  "import_item ids clock n item =
     (case fld_or_throw item ''question'' of
        Inl e \<Rightarrow> Inl e
      | Inr q \<Rightarrow>
          if \<not> truthy q \<or> \<not> truthy (fld item ''referenceAnswer'') then Inr None
          else Inr (Some \<lparr>ei_id = js_or (fld item ''id'') (JStr (ids n)), ei_question = trim (to_str q),
                          ei_answer = trim (to_str (fld item ''referenceAnswer'')),
                          ei_addedAt = js_or (fld item ''addedAt'') (JStr (clock n))\<rparr>))"

text \<open>The promptfoo entry: \<open>{vars: {question, reference_answer}}\<close>.\<close>

definition import_entry ::
    "(nat \<Rightarrow> string) \<Rightarrow> (nat \<Rightarrow> string) \<Rightarrow> nat \<Rightarrow> jsval \<Rightarrow> eval_item option res" where
  "import_entry ids clock n entry =
     (case fld_or_throw entry ''vars'' of
        Inl e \<Rightarrow> Inl e
      | Inr vars \<Rightarrow>
          if \<not> truthy vars \<or> \<not> typeof_object vars
             \<or> \<not> truthy (fld vars ''question'') \<or> \<not> truthy (fld vars ''reference_answer'')
          then Inr None
          else Inr (Some \<lparr>ei_id = JStr (ids n), ei_question = trim (to_str (fld vars ''question'')),
                          ei_answer = trim (to_str (fld vars ''reference_answer'')),
                          ei_addedAt = JStr (clock n)\<rparr>))"

fun import_items :: "(nat \<Rightarrow> 'a \<Rightarrow> 'b option res) \<Rightarrow> nat \<Rightarrow> 'a list \<Rightarrow> 'b list res" where
  "import_items f n [] = Inr []"
| "import_items f n (v # vs) =
     (case f n v of
        Inl e \<Rightarrow> Inl e
      | Inr i \<Rightarrow> map_sum id (\<lambda>is. case i of None \<Rightarrow> is | Some x \<Rightarrow> x # is) (import_items f (Suc n) vs))"

definition parse_failure :: "js_exn \<Rightarrow> import_result" where
  "parse_failure e = ImportFailed (''Failed to parse JSON: '' @ exn_text e)"

definition json_syntax_error :: js_exn where
  "json_syntax_error = ErrorObj ''SyntaxError'' ''JSON.parse''"

definition duplicate_set :: "string \<Rightarrow> import_result" where
  "duplicate_set name = ImportFailed (''Eval set \"'' @ name @ ''\" already exists'')"

definition importEvalSet ::
    "(string \<Rightarrow> jsval option) \<Rightarrow> (nat \<Rightarrow> string) \<Rightarrow> (nat \<Rightarrow> string) \<Rightarrow> eval_sets \<Rightarrow> string \<Rightarrow>
     import_result \<times> update option" where
  "importEvalSet json_parse ids clock seen jsonString =
     (case json_parse jsonString of
        None \<Rightarrow> (parse_failure json_syntax_error, None)
      | Some parsed \<Rightarrow>
          (case fld_or_throw parsed ''name'' of
             Inl e \<Rightarrow> (parse_failure e, None)
           | Inr name \<Rightarrow>
               if \<not> truthy name \<or> \<not> is_string name
               then (ImportFailed ''Invalid format: missing name'', None)
               else if \<not> is_array (fld parsed ''items'')
               then (ImportFailed ''Invalid format: missing items array'', None)
               else if evalSet seen (text_of name) \<noteq> None then (duplicate_set (text_of name), None)
               else (let items = array_of (fld parsed ''items'') in
                 case import_items (import_item ids clock) 0 items of
                   Inl e \<Rightarrow> (parse_failure e, None)
                 | Inr validItems \<Rightarrow>
                     (let importedSet = \<lparr>es_name = trim (text_of name),
                            es_createdAt = js_or (fld parsed ''createdAt'') (JStr (clock (length items))),
                            es_items = validItems\<rparr>
                      in (Imported (es_name importedSet), Some (put_set importedSet))))))"

definition importPromptfooSet ::
    "(string \<Rightarrow> jsval option) \<Rightarrow> (nat \<Rightarrow> string) \<Rightarrow> (nat \<Rightarrow> string) \<Rightarrow> eval_sets \<Rightarrow> string \<Rightarrow> string \<Rightarrow>
     import_result \<times> update option" where
  "importPromptfooSet json_parse ids clock seen jsonString name =
     (let trimmedName = trim name in
      if trimmedName = [] then (ImportFailed ''Name is required'', None)
      else if evalSet seen trimmedName \<noteq> None then (duplicate_set trimmedName, None)
      else (case json_parse jsonString of
              None \<Rightarrow> (parse_failure json_syntax_error, None)
            | Some parsed \<Rightarrow>
                if \<not> is_array parsed
                then (ImportFailed ''Invalid promptfoo format: expected an array'', None)
                else (case import_items (import_entry ids clock) 0 (array_of parsed) of
                   Inl e \<Rightarrow> (parse_failure e, None)
                 | Inr validItems \<Rightarrow>
                     if validItems = []
                     then (ImportFailed ''No valid items found. Expected format: [{vars: {question, reference_answer}}]'', None)
                     else (let importedSet = \<lparr>es_name = trimmedName,
                            es_createdAt = JStr (clock (length (array_of parsed))), es_items = validItems\<rparr>
                      in (Imported trimmedName, Some (put_set importedSet))))))"

section \<open>The handlers of the page\<close>

text \<open>React runs the updaters of a handler in order, before the next render.\<close>

fun run_updates :: "update option list \<Rightarrow> eval_sets \<Rightarrow> eval_sets res" where
  "run_updates [] prev = Inr prev"
| "run_updates (None # us) prev = run_updates us prev"
| "run_updates (Some u # us) prev = (case u prev of Inl e \<Rightarrow> Inl e | Inr next \<Rightarrow> run_updates us next)"

datatype import_format = Native | Promptfoo | UnknownFormat

text \<open>What \<open>handleImportFile\<close> sets for a file's text and its name without the ending.\<close>

definition detect_format :: "(string \<Rightarrow> jsval option) \<Rightarrow> string \<Rightarrow> string \<Rightarrow> import_format \<times> string" where
  "detect_format json_parse content defaultName =
     (case json_parse content of
        None \<Rightarrow> (UnknownFormat, defaultName)
      | Some parsed \<Rightarrow>
          if is_array parsed then (Promptfoo, defaultName)
          else if truthy (fld parsed ''name'') \<and> is_string (fld parsed ''name'')
          then (Native, text_of (fld parsed ''name''))
          else (UnknownFormat, defaultName))"

text \<open>
  \<open>parsed.name = importSetName; JSON.stringify(parsed)\<close>: the property of an array is not written, and
  a primitive takes none.
\<close>

fun renamed :: "string \<Rightarrow> jsval \<Rightarrow> jsval option" where
  "renamed n (JObj kvs) = Some (JObj (obj_put ''name'' (JStr n) kvs))"
| "renamed n (JArr vs) = Some (JArr vs)"
| "renamed n _ = None"

definition page_import ::
    "(jsval \<Rightarrow> string) \<Rightarrow> (string \<Rightarrow> jsval option) \<Rightarrow> (nat \<Rightarrow> string) \<Rightarrow> (nat \<Rightarrow> string) \<Rightarrow> eval_sets \<Rightarrow>
     import_format \<Rightarrow> string \<Rightarrow> string \<Rightarrow> import_result \<times> update option" where
  "page_import stringify json_parse ids clock seen fmt importJson importSetName =
     (case fmt of
        Promptfoo \<Rightarrow> importPromptfooSet json_parse ids clock seen importJson importSetName
      | Native \<Rightarrow>
          (case Option.bind (json_parse importJson) (renamed importSetName) of
             None \<Rightarrow> (ImportFailed ''Invalid JSON'', None)
           | Some v \<Rightarrow> importEvalSet json_parse ids clock seen (stringify v))
      | UnknownFormat \<Rightarrow>
          (let r = importEvalSet json_parse ids clock seen importJson in
           case fst r of
             Imported _ \<Rightarrow> r
           | ImportFailed _ \<Rightarrow> importPromptfooSet json_parse ids clock seen importJson importSetName))"

text \<open>What the page shows after an import: the selected set, or the error.\<close>

definition import_shown :: "import_result \<Rightarrow> string + string" where
  "import_shown r = (case r of
     Imported name \<Rightarrow> if name \<noteq> [] then Inr name else Inl ''Failed to import''
   | ImportFailed error \<Rightarrow> if error \<noteq> [] then Inl error else Inl ''Failed to import'')"

definition sample_items :: "(string \<times> string) list" where
  "sample_items =
     [(''What is the capital of France?'', ''Paris is the capital of France.''),
      (''When was the Eiffel Tower built?'',
       ''The Eiffel Tower was built between 1887 and 1889 as the entrance arch for the 1889 World's Fair.''),
      (''Who designed the Eiffel Tower?'',
       ''The Eiffel Tower was designed by Gustave Eiffel's engineering company.'')]"

definition sample_name :: string where
  "sample_name = ''Sample Eval Set''"

text \<open>The updates of \<open>loadSampleSet\<close>; all calls see the sets of the same render.\<close>

definition loadSampleSet :: "(nat \<Rightarrow> string) \<Rightarrow> (nat \<Rightarrow> string) \<Rightarrow> eval_sets \<Rightarrow> update option list" where
  "loadSampleSet ids clock seen =
     (if evalSet seen sample_name \<noteq> None then []
      else snd (createEvalSet seen (clock 0) sample_name)
           # map (\<lambda>(n, q, a). snd (addItem seen (ids n) (clock (Suc n)) sample_name q a))
                 (enumerate 0 sample_items))"

section \<open>The invariant of the sets\<close>

text \<open>The sets are keyed by their own, trimmed names, each once.\<close>

definition sets_ok :: "eval_sets \<Rightarrow> bool" where
  "sets_ok sets \<longleftrightarrow> distinct (map fst sets) \<and> list_all (\<lambda>(k, s). es_name s = k \<and> trim k = k) sets"

text \<open>An updater that keeps the invariant on every value React may run it on.\<close>

definition keeps_ok :: "update option \<Rightarrow> bool" where
  "keeps_ok u \<longleftrightarrow> (\<forall>f. u = Some f \<longrightarrow> (\<forall>prev sets. sets_ok prev \<longrightarrow> f prev = Inr sets \<longrightarrow> sets_ok sets))"

lemma sets_ok_Nil [simp, inv_intros]: "sets_ok []"
  by (simp add: sets_ok_def)

lemma sets_ok_get: "sets_ok sets \<Longrightarrow> evalSet sets k = Some s \<Longrightarrow> es_name s = k \<and> trim k = k"
  unfolding sets_ok_def evalSet_def by (auto dest!: map_of_SomeD simp: list_all_iff)

lemma update_pairs: "p \<in> set (AList.update k v kvs) \<Longrightarrow> p = (k, v) \<or> p \<in> set kvs"
  by (induction kvs) (auto split: if_splits)

lemma sets_ok_put [inv_intros]:
  "sets_ok prev \<Longrightarrow> es_name s = k \<Longrightarrow> trim k = k \<Longrightarrow> sets_ok (obj_put k s prev)"
  unfolding sets_ok_def obj_put_def by (auto simp: distinct_update list_all_iff dest!: update_pairs)

lemma sets_ok_delete [inv_intros]: "sets_ok prev \<Longrightarrow> sets_ok (AList.delete k prev)"
  unfolding sets_ok_def using distinct_delete [of prev k] by (auto simp: list_all_iff AList.delete_eq)

lemma keeps_ok_None [simp, inv_intros]: "keeps_ok None"
  by (simp add: keeps_ok_def)

lemma keeps_ok_put_set [inv_intros]: "trim (es_name s) = es_name s \<Longrightarrow> keeps_ok (Some (put_set s))"
  by (auto simp: keeps_ok_def put_set_def intro: sets_ok_put)

lemma keeps_ok_change_items [inv_intros]: "keeps_ok (Some (change_items name f))"
  by (auto simp: keeps_ok_def change_items_def split: option.splits dest: sets_ok_get intro!: sets_ok_put)

lemma keeps_ok_create [inv_intros]: "keeps_ok (snd (createEvalSet seen now name))"
  by (auto simp: createEvalSet_def Let_def intro: inv_intros)

lemma keeps_ok_deleteEvalSet [inv_intros]: "keeps_ok (snd (deleteEvalSet seen name))"
  by (auto simp: deleteEvalSet_def keeps_ok_def intro: inv_intros)

lemma keeps_ok_addItem [inv_intros]: "keeps_ok (snd (addItem seen i now name q a))"
  by (auto simp: addItem_def Let_def intro: inv_intros)

lemma keeps_ok_removeItem [inv_intros]: "keeps_ok (snd (removeItem seen name i))"
  by (auto simp: removeItem_def intro: inv_intros split: option.split)

lemma keeps_ok_import [inv_intros]: "keeps_ok (snd (importEvalSet json_parse ids clock seen t))"
  by (auto simp: importEvalSet_def Let_def intro!: keeps_ok_put_set split: option.split sum.split)

lemma keeps_ok_promptfoo [inv_intros]: "keeps_ok (snd (importPromptfooSet json_parse ids clock seen t name))"
  by (auto simp: importPromptfooSet_def Let_def intro!: keeps_ok_put_set split: option.split sum.split)

lemma keeps_ok_page_import [inv_intros]:
  "keeps_ok (snd (page_import stringify json_parse ids clock seen fmt t name))"
  by (auto simp: page_import_def Let_def intro: inv_intros split: option.split import_format.split import_result.split)

lemma run_updates_ok:
  assumes "sets_ok prev" "list_all keeps_ok us" "run_updates us prev = Inr sets"
  shows "sets_ok sets"
  using assms
  by (induction us prev rule: run_updates.induct) (auto simp: keeps_ok_def split: sum.splits)

text \<open>The calls a page makes on the hook, with the sets of the render each was made in.\<close>

datatype eval_sets_call =
    Create eval_sets string string
  | Delete eval_sets string
  | Add eval_sets string string string string string
  | Remove eval_sets string jsval
  | Import eval_sets import_format string string
  | LoadSample eval_sets

fun call_updates ::
    "(jsval \<Rightarrow> string) \<Rightarrow> (string \<Rightarrow> jsval option) \<Rightarrow> (nat \<Rightarrow> string) \<Rightarrow> (nat \<Rightarrow> string) \<Rightarrow>
     eval_sets_call \<Rightarrow> update option list" where
  "call_updates stringify json_parse ids clock (Create seen now name) = [snd (createEvalSet seen now name)]"
| "call_updates stringify json_parse ids clock (Delete seen name) = [snd (deleteEvalSet seen name)]"
| "call_updates stringify json_parse ids clock (Add seen i now name q a) = [snd (addItem seen i now name q a)]"
| "call_updates stringify json_parse ids clock (Remove seen name i) = [snd (removeItem seen name i)]"
| "call_updates stringify json_parse ids clock (Import seen fmt t name) =
     [snd (page_import stringify json_parse ids clock seen fmt t name)]"
| "call_updates stringify json_parse ids clock (LoadSample seen) = loadSampleSet ids clock seen"

lemma call_updates_keep: "list_all keeps_ok (call_updates stringify json_parse ids clock call)"
  by (cases call) (auto simp: loadSampleSet_def list_all_iff intro: inv_intros)

text \<open>Sets keyed by name: whatever the page calls on the hook, in whatever order and with
  whatever earlier render each call still sees, the sets stay keyed by their own trimmed names,
  each once.\<close>

theorem eval_sets_keyed:
  assumes "run_updates (concat (map (call_updates stringify json_parse ids clock) calls)) [] = Inr sets"
  shows "sets_ok sets"
proof (rule run_updates_ok [OF sets_ok_Nil _ assms])
  show "list_all keeps_ok (concat (map (call_updates stringify json_parse ids clock) calls))"
    using call_updates_keep by (auto simp: list_all_iff)
qed

theorem eval_sets_keyed_witness:
  "sets_ok [(''a'', \<lparr>es_name = ''a'', es_createdAt = JStr ''t'', es_items =
      [\<lparr>ei_id = JStr ''i'', ei_question = ''q'', ei_answer = ''r'', ei_addedAt = JStr ''u''\<rparr>]\<rparr>)]"
  by (rule eval_sets_keyed [where calls =
        "[Create [] ''t'' '' a '', Add [(''a'', \<lparr>es_name = ''a'', es_createdAt = JStr ''t'', es_items = []\<rparr>)]
           ''i'' ''u'' ''a'' '' q '' ''r'']" and stringify = "\<lambda>_. []" and json_parse = "\<lambda>_. None"
        and ids = "\<lambda>_. []" and clock = "\<lambda>_. []"])
     (simp add: createEvalSet_def addItem_def put_set_def change_items_def evalSet_def trim_def is_ws_def
      obj_put_def Let_def)

section \<open>Storage and export\<close>

lemma text_of_JStr [simp]: "is_string v \<Longrightarrow> JStr (text_of v) = v"
  by (cases v) auto

lemma value_item_of [simp]: "value_item (item_value i) = i"
  by (simp add: value_item_def item_value_def)

lemma value_set_of [simp]: "value_set (set_value s) = s"
  by (simp add: value_set_def set_value_def o_def)

lemma value_sets_of [simp]: "value_sets (sets_value sets) = sets"
  by (simp add: sets_value_def o_def split_def)

text \<open>Reload: the sets that were saved are the sets the next visit loads, and when the browser
  refuses the write the next visit finds the sets of the last save that worked.\<close>

theorem eval_sets_reload:
  assumes "json_parse (stringify (sets_value sets)) = Some (sets_value sets)"
    and "stringify (sets_value sets) \<noteq> []"
  shows "loadFromStorage json_parse (saveToStorage stringify storable sets stored) =
           (if storable (stringify (sets_value sets)) then sets else loadFromStorage json_parse stored)"
  using assms by (simp add: loadFromStorage_def saveToStorage_def Let_def)

theorem eval_sets_reload_witness:
  "loadFromStorage (\<lambda>t. if t = ''{}'' then Some (JObj []) else None)
     (saveToStorage (\<lambda>_. ''{}'') (\<lambda>_. True) [] None) = []"
  by (subst eval_sets_reload) (simp_all add: sets_value_def)

text \<open>A set whose texts are trimmed and whose identifiers and times are there, as the hook makes them.\<close>

definition exportable :: "eval_set \<Rightarrow> bool" where
  "exportable s \<longleftrightarrow> es_name s \<noteq> [] \<and> trim (es_name s) = es_name s \<and> truthy (es_createdAt s)
     \<and> list_all (\<lambda>i. truthy (ei_id i) \<and> truthy (ei_addedAt i) \<and> trim (ei_question i) = ei_question i
                    \<and> trim (ei_answer i) = ei_answer i) (es_items s)"

definition complete_item :: "eval_item \<Rightarrow> bool" where
  "complete_item i \<longleftrightarrow> ei_question i \<noteq> [] \<and> ei_answer i \<noteq> []"

lemma import_item_of:
  assumes "truthy (ei_id i)" "truthy (ei_addedAt i)" "trim (ei_question i) = ei_question i"
    "trim (ei_answer i) = ei_answer i"
  shows "import_item ids clock n (item_value i) = Inr (if complete_item i then Some i else None)"
  using assms by (simp add: import_item_def item_value_def fld_or_throw_def nullish_def complete_item_def js_or_def)

lemma import_items_of:
  assumes "list_all (\<lambda>i. truthy (ei_id i) \<and> truthy (ei_addedAt i) \<and> trim (ei_question i) = ei_question i
                    \<and> trim (ei_answer i) = ei_answer i) is"
  shows "import_items (import_item ids clock) n (map item_value is) = Inr (filter complete_item is)"
  using assms by (induction "is" arbitrary: n) (simp_all add: import_item_of)

lemma import_set_of:
  assumes "json_parse t = Some (set_value s)" "exportable s" "evalSet seen (es_name s) = None"
  shows "importEvalSet json_parse ids clock seen t =
           (Imported (es_name s), Some (put_set (s\<lparr>es_items := filter complete_item (es_items s)\<rparr>)))"
  using assms import_items_of [of "es_items s" ids clock 0]
  by (cases s) (simp add: importEvalSet_def exportable_def set_value_def fld_or_throw_def nullish_def js_or_def Let_def)

text \<open>C29. Export and import: the text exported for a set, read where no set of that name is, brings
  back that set with its identifiers, times and order, less the items without a question or without
  an answer.\<close>

theorem eval_set_export_import:
  assumes "evalSet sets name = Some s" "exportable s" "es_name s = name" "evalSet seen name = None"
    and "json_parse (stringify (set_value s)) = Some (set_value s)"
  shows "\<exists>t. exportEvalSet stringify sets name = Some t \<and>
           importEvalSet json_parse ids clock seen t =
             (Imported name, Some (put_set (s\<lparr>es_items := filter complete_item (es_items s)\<rparr>)))"
  using assms import_set_of [of json_parse "stringify (set_value s)" s seen ids clock]
  by (simp add: exportEvalSet_def)

definition demo_set :: eval_set where
  "demo_set = \<lparr>es_name = ''a'', es_createdAt = JStr ''t'', es_items =
      [\<lparr>ei_id = JStr ''i'', ei_question = ''q'', ei_answer = ''r'', ei_addedAt = JStr ''u''\<rparr>,
       \<lparr>ei_id = JStr ''j'', ei_question = ''q'', ei_answer = [], ei_addedAt = JStr ''u''\<rparr>]\<rparr>"

theorem eval_set_export_import_witness:
  "\<exists>t. exportEvalSet (\<lambda>_. ''x'') [(''a'', demo_set)] ''a'' = Some t \<and>
     importEvalSet (\<lambda>_. Some (set_value demo_set)) (\<lambda>_. []) (\<lambda>_. []) [] t =
       (Imported ''a'', Some (put_set (demo_set\<lparr>es_items := filter complete_item (es_items demo_set)\<rparr>)))"
  by (rule eval_set_export_import)
     (simp_all add: evalSet_def exportable_def demo_set_def trim_def is_ws_def)

section \<open>Where the operations miss their purpose\<close>

text \<open>An import that overwrites: the guard against an existing set looks at the name as it is
  written in the file, the set is stored under the trimmed one. A name with white space around it
  replaces the set of that name without a word.\<close>

theorem import_overwrites:
  assumes "json_parse t = Some (set_value (s\<lparr>es_name := '' '' @ name\<rparr>))" "exportable (s\<lparr>es_name := name\<rparr>)"
    and "evalSet seen ('' '' @ name) = None" "list_all complete_item (es_items s)"
  shows "importEvalSet json_parse ids clock seen t = (Imported name, Some (put_set (s\<lparr>es_name := name\<rparr>)))"
proof -
  have tr: "trim ('' '' @ name) = name"
    using assms(2) by (simp add: exportable_def trim_def is_ws_def [of "CHR '' ''"])
  have items: "import_items (import_item ids clock) 0 (map item_value (es_items s)) = Inr (es_items s)"
    using assms(2,4) import_items_of [of "es_items s" ids clock 0]
    by (simp add: exportable_def list_all_iff filter_id_conv)
  from assms tr items show ?thesis
    by (cases s)
       (simp add: importEvalSet_def exportable_def set_value_def fld_or_throw_def nullish_def js_or_def Let_def)
qed

theorem import_overwrites_witness:
  "importEvalSet (\<lambda>_. Some (set_value (demo_set\<lparr>es_name := '' a'', es_items := []\<rparr>))) (\<lambda>_. []) (\<lambda>_. [])
     [(''a'', demo_set)] [] = (Imported ''a'', Some (put_set (demo_set\<lparr>es_items := [], es_name := ''a''\<rparr>)))"
  by (rule import_overwrites)
     (simp_all add: evalSet_def exportable_def demo_set_def trim_def is_ws_def)

text \<open>The sample stays empty: \<open>loadSampleSet\<close> creates the set and adds its items with the
  callbacks of one render, in which the set does not exist yet, so each \<open>addItem\<close> gives up.\<close>

theorem sample_set_stays_empty:
  assumes "evalSet seen sample_name = None"
  shows "run_updates (loadSampleSet ids clock seen) prev =
           Inr (obj_put sample_name \<lparr>es_name = sample_name, es_createdAt = JStr (clock 0), es_items = []\<rparr> prev)"
proof -
  have name: "trim sample_name = sample_name" "sample_name \<noteq> []"
    by (simp_all add: sample_name_def trim_def is_ws_def)
  have adds: "run_updates (map (\<lambda>(n, q, a). snd (addItem seen (ids n) (clock (Suc n)) sample_name q a)) xs) p = Inr p"
    for xs p using assms by (induction xs) (auto simp: addItem_def)
  show ?thesis
    using assms name by (simp add: loadSampleSet_def createEvalSet_def Let_def put_set_def adds)
qed

theorem sample_set_stays_empty_witness:
  "run_updates (loadSampleSet (\<lambda>_. ''i'') (\<lambda>_. ''t'') []) [] =
     Inr (obj_put sample_name \<lparr>es_name = sample_name, es_createdAt = JStr ''t'', es_items = []\<rparr> [])"
  by (rule sample_set_stays_empty) (simp add: evalSet_def)

end
