(* ===== verification/EvalRun.thy ===== *)
theory EvalRun
  imports EvalSets SdkAgents
begin

text \<open>
  The run of an evaluation set (\<open>runEvals\<close> of ts/apps/antfarm/src/pages/EvalsPlaygroundPage.tsx): one
  request of the SDK's retrieval agent per item, with the reference answer as the ground truth of
  the server's judge, and the summary of the outcomes.

  The network answers the request of item \<open>i\<close> through \<open>fetch i\<close>, and \<open>now\<close> is the clock: item \<open>i\<close>
  starts at \<open>now (2 * i)\<close> and ends at \<open>now (2 * i + 1)\<close>. The judge's score has its declared type, a
  number where it is present.
\<close>

record generator =
  gn_provider :: jsval
  gn_model :: jsval
  gn_temperature :: jsval

definition generator_value :: "generator \<Rightarrow> jsval" where
  "generator_value g = JObj [(''provider'', gn_provider g), (''model'', gn_model g), (''temperature'', gn_temperature g)]"

definition eval_request :: "string \<Rightarrow> string \<Rightarrow> generator option \<Rightarrow> generator \<Rightarrow> eval_item \<Rightarrow> jsval" where
  "eval_request selectedTable selectedIndex answerGenerator judge item =
     JObj ([(''query'', JStr (ei_question item)),
            (''queries'', JArr [JObj
               [(''table'', JStr selectedTable),
                (''semantic_search'', JStr (ei_question item)),
                (''indexes'', if selectedIndex = [] then JUndef else JArr [JStr selectedIndex]),
                (''limit'', JNum 10)]]),
            (''stream'', JBool False)]
       @ (case answerGenerator of None \<Rightarrow> [] | Some g \<Rightarrow> [(''generator'', generator_value g)])
       @ [(''steps'', JObj
            [(''generation'', JObj [(''enabled'', JBool True)]),
             (''eval'', JObj
                [(''evaluators'', JArr [JStr ''correctness'']),
                 (''judge'', generator_value judge),
                 (''ground_truth'', JObj [(''expectations'', JStr (ei_answer item))])])])])"

record item_result =
  ir_itemId :: jsval
  ir_question :: string
  ir_reference :: string
  ir_actual :: jsval
  ir_score :: rat
  ir_pass :: bool
  ir_reason :: string
  ir_durationMs :: rat
  ir_error :: "string option"

fun number_of :: "jsval \<Rightarrow> rat" where
  "number_of (JNum r) = r"
| "number_of _ = 0"

text \<open>
  The block of one item: the result it pushes, or what it throws. Reading a property of a \<open>null\<close>
  answer throws, and so does \<open>toLowerCase\<close> of a reason that is not text.
\<close>

definition item_outcome :: "eval_item \<Rightarrow> rat \<Rightarrow> unit agent_result res \<Rightarrow> item_result res" where
  "item_outcome item duration answer =
     (case answer of
        Inl e \<Rightarrow> Inl e
      | Inr (AgentAbort _) \<Rightarrow> throw_error ''Unexpected streaming response''
      | Inr (AgentJson answerResult) \<Rightarrow>
          (case fld_or_throw answerResult ''generation'' of
             Inl e \<Rightarrow> Inl e
           | Inr generation \<Rightarrow>
               (let score = fld (fld (fld (fld answerResult ''eval_result'') ''scores'') ''generation'') ''correctness'';
                    reason = coalesce (fld score ''reason'') (JStr [])
                in if \<not> is_string reason then throw_type_error
                   else (let reason = text_of reason;
                             isEvalError = starts_with (to_lower reason) ''evaluation error:''
                         in Inr \<lparr>ir_itemId = ei_id item, ir_question = ei_question item,
                                 ir_reference = ei_answer item, ir_actual = js_or generation (JStr []),
                                 ir_score = number_of (coalesce (fld score ''score'') (JNum 0)),
                                 ir_pass = (\<not> isEvalError \<and> truthy (coalesce (fld score ''pass'') (JBool False))),
                                 ir_reason = reason, ir_durationMs = duration,
                                 ir_error = (if isEvalError then Some reason else None)\<rparr>))))"

definition is_abort :: "js_exn \<Rightarrow> bool" where
  "is_abort e = (case e of ErrorObj n _ \<Rightarrow> n = ''AbortError'' | NonError _ \<Rightarrow> False)"

definition eval_error :: "js_exn \<Rightarrow> string \<Rightarrow> string" where
  "eval_error e other = (case e of ErrorObj _ m \<Rightarrow> m | NonError _ \<Rightarrow> other)"

definition failed_result :: "eval_item \<Rightarrow> rat \<Rightarrow> js_exn \<Rightarrow> item_result" where
  "failed_result item duration e =
     \<lparr>ir_itemId = ei_id item, ir_question = ei_question item, ir_reference = ei_answer item,
      ir_actual = JStr [], ir_score = 0, ir_pass = False, ir_reason = [], ir_durationMs = duration,
      ir_error = Some (eval_error e ''Unknown error'')\<rparr>"

text \<open>The loop: the results in order, or nothing after an \<open>AbortError\<close>.\<close>

fun run_items ::
    "(nat \<Rightarrow> eval_item \<Rightarrow> unit agent_result res) \<Rightarrow> (nat \<Rightarrow> rat) \<Rightarrow> nat \<Rightarrow> eval_item list \<Rightarrow> item_result list option" where
  "run_items ask now i [] = Some []"
| "run_items ask now i (item # items) =
     (let duration = now (2 * i + 1) - now (2 * i) in
      case item_outcome item duration (ask i item) of
        Inr r \<Rightarrow> map_option ((#) r) (run_items ask now (Suc i) items)
      | Inl e \<Rightarrow>
          if is_abort e then None
          else map_option ((#) (failed_result item duration e)) (run_items ask now (Suc i) items))"

record run_summary =
  sm_total :: nat
  sm_passed :: nat
  sm_failed :: nat
  sm_errors :: nat
  sm_averageScore :: rat
  sm_totalDurationMs :: rat

definition truthy_text :: "string option \<Rightarrow> bool" where
  "truthy_text t \<longleftrightarrow> t \<noteq> None \<and> t \<noteq> Some []"

definition summarize :: "item_result list \<Rightarrow> run_summary" where
  "summarize rs =
     \<lparr>sm_total = length rs,
      sm_passed = length (filter (\<lambda>r. ir_pass r \<and> \<not> truthy_text (ir_error r)) rs),
      sm_failed = length (filter (\<lambda>r. \<not> ir_pass r \<and> \<not> truthy_text (ir_error r)) rs),
      sm_errors = length (filter (\<lambda>r. truthy_text (ir_error r)) rs),
      sm_averageScore = (if length rs > 0 then sum_list (map ir_score rs) / of_nat (length rs) else 0),
      sm_totalDurationMs = sum_list (map ir_durationMs rs)\<rparr>"

record eval_run =
  er_setName :: string
  er_tableName :: string
  er_results :: "item_result list"
  er_summary :: run_summary

record eval_page =
  ep_loading :: bool
  ep_error :: "string option"
  ep_results :: "eval_run option"
  ep_progress :: "(nat \<times> nat) option"

text \<open>
  The page's state when the call has ended; while it runs, \<open>progress\<close> counts the items. The inner
  block catches all that an item throws, so the outer one has nothing to catch.
\<close>

definition runEvals ::
    "(nat \<Rightarrow> fetch) \<Rightarrow> (jsval \<Rightarrow> string) \<Rightarrow> (string \<Rightarrow> jsval option) \<Rightarrow> (nat \<Rightarrow> rat) \<Rightarrow> antfly_client \<Rightarrow>
     eval_set option \<Rightarrow> string \<Rightarrow> string \<Rightarrow> string \<Rightarrow> generator option \<Rightarrow> generator \<Rightarrow> eval_page \<Rightarrow> eval_page" where
  "runEvals fetch stringify json_parse now c selectedSet selectedSetName selectedTable selectedIndex
       answerGenerator judge page =
     (case selectedSet of
        None \<Rightarrow> page\<lparr>ep_error := Some ''No items in eval set''\<rparr>
      | Some s \<Rightarrow>
          if es_items s = [] then page\<lparr>ep_error := Some ''No items in eval set''\<rparr>
          else if selectedTable = [] then page\<lparr>ep_error := Some ''Please select a table''\<rparr>
          else (let ask = (\<lambda>i item. retrievalAgent (fetch i) stringify json_parse c
                             (eval_request selectedTable selectedIndex answerGenerator judge item) None ())
                in \<lparr>ep_loading = False, ep_error = None,
                    ep_results = map_option (\<lambda>rs. \<lparr>er_setName = selectedSetName, er_tableName = selectedTable,
                        er_results = rs, er_summary = summarize rs\<rparr>) (run_items ask now 0 (es_items s)),
                    ep_progress = None\<rparr>))"

definition handleReset :: "eval_page \<Rightarrow> eval_page" where
  "handleReset page = page\<lparr>ep_results := None, ep_error := None\<rparr>"

definition toggleResultExpanded :: "string \<Rightarrow> string set \<Rightarrow> string set" where
  "toggleResultExpanded itemId prev = (if itemId \<in> prev then prev - {itemId} else insert itemId prev)"

section \<open>What a run shows\<close>

lemma item_outcome_fields:
  assumes "item_outcome item d answer = Inr r"
  shows "ir_itemId r = ei_id item" "ir_question r = ei_question item" "ir_reference r = ei_answer item"
    "ir_durationMs r = d" "truthy_text (ir_error r) \<Longrightarrow> \<not> ir_pass r"
  using assms
  by (auto simp: item_outcome_def Let_def truthy_text_def split: sum.splits agent_result.splits if_splits)

lemma run_items_results:
  assumes "run_items ask now i its = Some rs"
  shows "map (\<lambda>r. (ir_itemId r, ir_question r, ir_reference r)) rs
           = map (\<lambda>it. (ei_id it, ei_question it, ei_answer it)) its"
    "list_all (\<lambda>r. truthy_text (ir_error r) \<longrightarrow> \<not> ir_pass r) rs"
  using assms
proof (induction its arbitrary: i rs)
  case (Cons it its)
  { case 1 with Cons.IH(1) show ?case
      by (auto simp: Let_def failed_result_def item_outcome_fields split: sum.splits if_splits) }
  { case 2 with Cons.IH(2) show ?case
      by (auto simp: Let_def failed_result_def item_outcome_fields split: sum.splits if_splits) }
qed simp_all

lemma run_items_total:
  assumes "\<forall>j < length its. \<forall>e. ask (i + j) (its ! j) = Inl e \<longrightarrow> \<not> is_abort e"
  shows "\<exists>rs. run_items ask now i its = Some rs"
  using assms
proof (induction its arbitrary: i)
  case (Cons it its)
  have rest: "\<exists>rs. run_items ask now (Suc i) its = Some rs"
    using Cons.prems by (intro Cons.IH) force
  have first: "\<not> is_abort e" if "item_outcome it d (ask i it) = Inl e" for d e
    using that Cons.prems
    by (cases "ask i it")
       (fastforce simp: item_outcome_def Let_def fld_or_throw_def is_abort_def
          split: agent_result.splits if_splits)+
  from rest first show ?case
    by (auto simp: Let_def split: sum.split)
qed simp

lemma partition_lengths:
  "length (filter (\<lambda>r. P r \<and> \<not> E r) rs) + length (filter (\<lambda>r. \<not> P r \<and> \<not> E r) rs) + length (filter E rs) = length rs"
  by (induction rs) auto

lemma summary_partition: "sm_passed (summarize rs) + sm_failed (summarize rs) + sm_errors (summarize rs) = sm_total (summarize rs)"
  by (simp add: summarize_def partition_lengths)

lemma runEvals_results:
  assumes "es_items s \<noteq> []" "selectedTable \<noteq> []"
  shows "ep_results (runEvals fetch stringify json_parse now c (Some s) nm selectedTable idx g j page) =
     map_option (\<lambda>rs. \<lparr>er_setName = nm, er_tableName = selectedTable, er_results = rs, er_summary = summarize rs\<rparr>)
       (run_items (\<lambda>i item. retrievalAgent (fetch i) stringify json_parse c
          (eval_request selectedTable idx g j item) None ()) now 0 (es_items s))"
  using assms by (simp add: runEvals_def Let_def)

text \<open>A set of two items whose first question is answered and judged, and whose second request fails.\<close>

definition demo_verdict :: jsval where
  "demo_verdict = JObj [(''generation'', JStr ''a''), (''eval_result'', JObj [(''scores'', JObj [(''generation'',
     JObj [(''correctness'', JObj [(''score'', JNum 1), (''pass'', JBool True), (''reason'', JStr ''ok'')])])])])]"

definition demo_fetch :: "nat \<Rightarrow> fetch" where
  "demo_fetch i req =
     (if i = 0 then Inr \<lparr>rs_ok = True, rs_status = 200, rs_text = Inr [], rs_body_null = False,
                         rs_content_type = Some ''application/json'', rs_json = Inr demo_verdict, rs_reads = []\<rparr>
      else Inl (ErrorObj ''TypeError'' ''Failed to fetch''))"

definition demo_run :: "eval_set \<Rightarrow> eval_page" where
  "demo_run s = runEvals demo_fetch (\<lambda>_. []) (\<lambda>_. None) of_nat (new_client \<lparr>baseUrl = [], cfg_headers = [], auth = None\<rparr>)
     (Some s) ''a'' ''t'' [] None \<lparr>gn_provider = JUndef, gn_model = JUndef, gn_temperature = JUndef\<rparr>
     \<lparr>ep_loading = False, ep_error = None, ep_results = None, ep_progress = None\<rparr>"

lemma demo_ask:
  "retrievalAgent (demo_fetch i) stringify json_parse c request None cl =
     (if i = 0 then Inr (AgentJson demo_verdict) else Inl (ErrorObj ''TypeError'' ''Failed to fetch''))"
  by (simp add: retrievalAgent_def performRetrievalAgent_def check_response_def demo_fetch_def str_includes_def Let_def)

definition demo_results :: eval_run where
  "demo_results = the (ep_results (demo_run demo_set))"

lemma demo_run_results: "ep_results (demo_run demo_set) = Some demo_results"
  by (simp add: demo_results_def demo_run_def demo_set_def runEvals_results demo_ask item_outcome_def Let_def
      demo_verdict_def fld_or_throw_def nullish_def coalesce_def is_abort_def)

text \<open>C30. A run accounts for every item: the results of a run are one per item of the set, in the
  order of the set and with its texts, and the summary splits them into passed, failed and
  errors without overlap.\<close>

theorem run_accounts_for_items:
  assumes "ep_results (runEvals fetch stringify json_parse now c (Some s) nm selectedTable idx g j page) = Some run"
    and "es_items s \<noteq> []" "selectedTable \<noteq> []"
  shows "map (\<lambda>r. (ir_itemId r, ir_question r, ir_reference r)) (er_results run)
           = map (\<lambda>it. (ei_id it, ei_question it, ei_answer it)) (es_items s)
         \<and> sm_total (er_summary run) = length (es_items s)
         \<and> sm_passed (er_summary run) + sm_failed (er_summary run) + sm_errors (er_summary run) = length (es_items s)
         \<and> list_all (\<lambda>r. truthy_text (ir_error r) \<longrightarrow> \<not> ir_pass r) (er_results run)"
proof -
  obtain rs where run: "run_items (\<lambda>i item. retrievalAgent (fetch i) stringify json_parse c
      (eval_request selectedTable idx g j item) None ()) now 0 (es_items s) = Some rs"
    and res: "er_results run = rs" "er_summary run = summarize rs"
    using assms by (auto simp: runEvals_results)
  have "length rs = length (es_items s)"
    using arg_cong [OF run_items_results(1) [OF run], of length] by simp
  moreover have "sm_total (summarize rs) = length rs"
    by (simp add: summarize_def)
  ultimately show ?thesis
    using run_items_results [OF run] summary_partition [of rs] by (simp add: res)
qed

theorem run_accounts_for_items_witness:
  "map (\<lambda>r. (ir_itemId r, ir_question r, ir_reference r)) (er_results demo_results)
     = map (\<lambda>it. (ei_id it, ei_question it, ei_answer it)) (es_items demo_set)
   \<and> sm_total (er_summary demo_results) = length (es_items demo_set)
   \<and> sm_passed (er_summary demo_results) + sm_failed (er_summary demo_results)
       + sm_errors (er_summary demo_results) = length (es_items demo_set)
   \<and> list_all (\<lambda>r. \<not> (truthy_text (ir_error r) \<and> ir_pass r)) (er_results demo_results)"
  using run_accounts_for_items [OF demo_run_results [unfolded demo_run_def]]
  by (simp add: demo_set_def)

text \<open>A run ends: unless the network aborts a request, a run of a set with items on a chosen
  table shows its results, whatever the answers are; failing requests, unreadable answers and
  event streams become errors of their items.\<close>

theorem run_shows_results:
  assumes "es_items s \<noteq> []" "selectedTable \<noteq> []"
    and "\<forall>i < length (es_items s). \<forall>e. retrievalAgent (fetch i) stringify json_parse c
           (eval_request selectedTable idx g j (es_items s ! i)) None () = Inl e \<longrightarrow> \<not> is_abort e"
  shows "\<exists>run. ep_results (runEvals fetch stringify json_parse now c (Some s) nm selectedTable idx g j page) = Some run"
proof -
  have "\<exists>rs. run_items (\<lambda>i item. retrievalAgent (fetch i) stringify json_parse c
      (eval_request selectedTable idx g j item) None ()) now 0 (es_items s) = Some rs"
    using assms(3) by (intro run_items_total) simp
  then show ?thesis
    using assms(1,2) by (auto simp: runEvals_results)
qed

theorem run_shows_results_witness: "\<exists>run. ep_results (demo_run demo_set) = Some run"
  unfolding demo_run_def
  by (rule run_shows_results) (simp_all add: demo_ask demo_set_def is_abort_def)

lemma sum_list_bounds:
  "list_all (\<lambda>x. 0 \<le> x \<and> x \<le> (1::rat)) xs \<Longrightarrow> 0 \<le> sum_list xs \<and> sum_list xs \<le> of_nat (length xs)"
  by (induction xs) auto

text \<open>The average stays a score: when every score is between 0 and 1, so is the average, an empty
  list included.\<close>

theorem average_score_bounds:
  assumes "list_all (\<lambda>r. 0 \<le> ir_score r \<and> ir_score r \<le> 1) rs"
  shows "0 \<le> sm_averageScore (summarize rs) \<and> sm_averageScore (summarize rs) \<le> 1"
  using sum_list_bounds [of "map ir_score rs"] assms
  by (auto simp: summarize_def list_all_iff divide_le_eq_1)

theorem average_score_bounds_witness:
  "0 \<le> sm_averageScore (summarize (er_results demo_results)) \<and> sm_averageScore (summarize (er_results demo_results)) \<le> 1"
  by (rule average_score_bounds)
     (simp add: demo_results_def demo_run_def demo_set_def runEvals_results demo_ask item_outcome_def Let_def
        demo_verdict_def fld_or_throw_def nullish_def coalesce_def is_abort_def to_lower_def starts_with_def
        lower_char_def failed_result_def)

end
