(* ===== verification/Pipeline.thy ===== *)
theory Pipeline
  imports Prelude
begin

text \<open>
  The retrieval pipeline shown by the dashboard's playground: the reducer of its steps
  (ts/apps/antfarm/src/components/rag/pipeline-types.ts), the callbacks that drive it from an answer
  stream (pages/RagPlaygroundPage.tsx) and the layout of its graph (components/rag/pipeline-layout.ts).
  The clock of a dispatch is an argument.
\<close>

section \<open>The reducer\<close>

datatype step_status = Pending | Running | Complete | Failed | Skipped

datatype step_id = Classification | Search | Generation | Confidence | Followup

record step_state =
  st_id :: step_id
  st_label :: string
  st_status :: step_status
  st_startTime :: "rat option"
  st_endTime :: "rat option"
  st_data :: jsval

datatype overall_status = Idle | AllRunning | AllComplete | AllFailed

record pipeline =
  pl_steps :: "step_state list"
  pl_overall :: overall_status

datatype pipeline_action =
    Reset
  | Start "step_id list"
  | StepStart step_id
  | StepComplete step_id jsval
  | StepError step_id jsval
  | StepUpdate step_id jsval
  | AllDone
  | AllError

definition step_definitions :: "(step_id \<times> string) list" where
  "step_definitions =
     [(Classification, ''Classification''), (Search, ''Search''), (Generation, ''Generation''),
      (Confidence, ''Confidence''), (Followup, ''Follow-up Questions'')]"

definition initialPipelineState :: pipeline where
  "initialPipelineState = \<lparr>pl_steps = [], pl_overall = Idle\<rparr>"

definition on_step :: "step_id \<Rightarrow> (step_state \<Rightarrow> step_state) \<Rightarrow> pipeline \<Rightarrow> pipeline" where
  "on_step i f state = state\<lparr>pl_steps := map (\<lambda>s. if st_id s = i then f s else s) (pl_steps state)\<rparr>"

fun pipelineReducer :: "rat \<Rightarrow> pipeline_action \<Rightarrow> pipeline \<Rightarrow> pipeline" where
  "pipelineReducer now Reset state = initialPipelineState"
| "pipelineReducer now (Start enabledSteps) state =
     \<lparr>pl_steps = map (\<lambda>(i, l). \<lparr>st_id = i, st_label = l, st_status = Pending, st_startTime = None,
                                 st_endTime = None, st_data = JUndef\<rparr>)
                  (filter (\<lambda>d. fst d \<in> set enabledSteps) step_definitions),
      pl_overall = AllRunning\<rparr>"
| "pipelineReducer now (StepStart i) state =
     on_step i (\<lambda>s. s\<lparr>st_status := Running, st_startTime := Some now\<rparr>) state"
| "pipelineReducer now (StepComplete i d) state =
     on_step i (\<lambda>s. s\<lparr>st_status := Complete, st_endTime := Some now, st_data := coalesce d (st_data s)\<rparr>) state"
| "pipelineReducer now (StepError i e) state =
     on_step i (\<lambda>s. s\<lparr>st_status := Failed, st_endTime := Some now, st_data := e\<rparr>) state"
| "pipelineReducer now (StepUpdate i d) state = on_step i (\<lambda>s. s\<lparr>st_data := d\<rparr>) state"
| "pipelineReducer now AllDone state = state\<lparr>pl_overall := AllComplete\<rparr>"
| "pipelineReducer now AllError state = state\<lparr>pl_overall := AllFailed\<rparr>"

section \<open>The callbacks of the page\<close>

record rag_config =
  classification_enabled :: bool
  confidence_enabled :: bool
  followup_enabled :: bool
  rag_provider :: jsval
  rag_model :: jsval

record rag_page =
  rp_pipeline :: pipeline
  rp_isLoading :: bool
  rp_error :: "string option"
  rp_processingTime :: "rat option"
  rp_startTime :: rat
  rp_hits :: "jsval list"
  rp_answer :: string
  rp_followups :: "string list"
  rp_searchCompleted :: bool

text \<open>What the answer component reports while a stream runs.\<close>

datatype rag_event =
    StreamStart
  | Classified jsval
  | Hit jsval
  | AnswerChunk string
  | FollowUpQuestion string
  | Confident rat rat
  | StreamEnd
  | StreamError string

definition dispatch :: "rat \<Rightarrow> pipeline_action list \<Rightarrow> rag_page \<Rightarrow> rag_page" where
  "dispatch now acts p = p\<lparr>rp_pipeline := fold (pipelineReducer now) acts (rp_pipeline p)\<rparr>"

definition search_data :: "rag_page \<Rightarrow> jsval" where
  "search_data p = JObj [(''hits'', JArr (rp_hits p))]"

definition generation_data :: "rag_config \<Rightarrow> rag_page \<Rightarrow> jsval" where
  "generation_data cfg p =
     JObj [(''answer'', JStr (rp_answer p)), (''provider'', rag_provider cfg), (''model'', rag_model cfg)]"

definition followup_data :: "rag_page \<Rightarrow> jsval" where
  "followup_data p = JObj [(''questions'', JArr (map JStr (rp_followups p)))]"

definition enabled_steps :: "rag_config \<Rightarrow> step_id list" where
  "enabled_steps cfg =
     (if classification_enabled cfg then [Classification] else []) @ [Search, Generation]
       @ (if confidence_enabled cfg then [Confidence] else [])
       @ (if followup_enabled cfg then [Followup] else [])"

definition handleStreamStart :: "rat \<Rightarrow> rag_config \<Rightarrow> rag_page \<Rightarrow> rag_page" where
  "handleStreamStart now cfg p =
     dispatch now [Start (enabled_steps cfg),
                   StepStart (if classification_enabled cfg then Classification else Search)]
       (p\<lparr>rp_hits := [], rp_answer := [], rp_followups := [], rp_searchCompleted := False,
          rp_isLoading := True, rp_error := None, rp_processingTime := None, rp_startTime := now\<rparr>)"

definition handleClassification :: "rat \<Rightarrow> jsval \<Rightarrow> rag_page \<Rightarrow> rag_page" where
  "handleClassification now c p =
     dispatch now [StepComplete Classification (JObj [(''classification'', c)]), StepStart Search] p"

definition handleHit :: "rat \<Rightarrow> jsval \<Rightarrow> rag_page \<Rightarrow> rag_page" where
  "handleHit now hit p =
     (let p = p\<lparr>rp_hits := rp_hits p @ [hit]\<rparr> in dispatch now [StepUpdate Search (search_data p)] p)"

definition complete_search :: "rag_page \<Rightarrow> pipeline_action list" where
  "complete_search p = (if rp_searchCompleted p then [] else [StepComplete Search (search_data p)])"

definition handleAnswerChunk :: "rat \<Rightarrow> rag_config \<Rightarrow> string \<Rightarrow> rag_page \<Rightarrow> rag_page" where
  "handleAnswerChunk now cfg chunk p =
     (let first = complete_search p @ (if rp_searchCompleted p then [] else [StepStart Generation]);
          p = p\<lparr>rp_searchCompleted := True, rp_answer := rp_answer p @ chunk\<rparr>
      in dispatch now (first @ [StepUpdate Generation (generation_data cfg p)]) p)"

definition handleFollowUpQuestion :: "rat \<Rightarrow> string \<Rightarrow> rag_page \<Rightarrow> rag_page" where
  "handleFollowUpQuestion now q p =
     (let p = p\<lparr>rp_followups := rp_followups p @ [q]\<rparr>
      in dispatch now [StepStart Followup, StepUpdate Followup (followup_data p)] p)"

definition handleConfidence :: "rat \<Rightarrow> rat \<Rightarrow> rat \<Rightarrow> rag_page \<Rightarrow> rag_page" where
  "handleConfidence now g c p =
     dispatch now [StepComplete Confidence (JObj [(''generation'', JNum g), (''context'', JNum c)])] p"

definition handleStreamEnd :: "rat \<Rightarrow> rag_config \<Rightarrow> rag_page \<Rightarrow> rag_page" where
  "handleStreamEnd now cfg p =
     dispatch now (complete_search p @ [StepComplete Generation (generation_data cfg p)]
         @ (if rp_followups p \<noteq> [] then [StepComplete Followup (followup_data p)] else []) @ [AllDone])
       (p\<lparr>rp_isLoading := False, rp_processingTime := Some (now - rp_startTime p), rp_searchCompleted := True\<rparr>)"

definition handleError :: "rat \<Rightarrow> string \<Rightarrow> rag_page \<Rightarrow> rag_page" where
  "handleError now e p = dispatch now [AllError] (p\<lparr>rp_error := Some e, rp_isLoading := False\<rparr>)"

fun rag_event_step :: "rag_config \<Rightarrow> rat \<times> rag_event \<Rightarrow> rag_page \<Rightarrow> rag_page" where
  "rag_event_step cfg (now, StreamStart) = handleStreamStart now cfg"
| "rag_event_step cfg (now, Classified c) = handleClassification now c"
| "rag_event_step cfg (now, Hit h) = handleHit now h"
| "rag_event_step cfg (now, AnswerChunk t) = handleAnswerChunk now cfg t"
| "rag_event_step cfg (now, FollowUpQuestion q) = handleFollowUpQuestion now q"
| "rag_event_step cfg (now, Confident g c) = handleConfidence now g c"
| "rag_event_step cfg (now, StreamEnd) = handleStreamEnd now cfg"
| "rag_event_step cfg (now, StreamError e) = handleError now e"

section \<open>The layout of the graph\<close>

definition node_width :: nat where "node_width = 160"
definition node_height :: nat where "node_height = 56"
definition gap_x :: nat where "gap_x = 30"
definition gap_y :: nat where "gap_y = 44"

record node_layout =
  nl_index :: nat
  nl_row :: nat
  nl_col :: nat
  nl_x :: nat
  nl_y :: nat

record edge_layout =
  el_from :: nat
  el_to :: nat
  el_d :: string
  el_pathId :: string

record graph_layout =
  gl_nodes :: "node_layout list"
  gl_edges :: "edge_layout list"
  gl_width :: nat
  gl_height :: nat

definition show_half :: "nat \<Rightarrow> string" where
  "show_half n = show_rat (of_nat n / 2)"

text \<open>
  Coordinates are multiples of a half, written by \<open>show_half\<close> of their double: the midpoints of two
  coordinates, and the centres of nodes.
\<close>

definition computeEdgePath :: "node_layout \<Rightarrow> node_layout \<Rightarrow> string" where
  "computeEdgePath from to' =
     (let fromCx = 2 * nl_x from + node_width; fromCy = 2 * nl_y from + node_height;
          toCx = 2 * nl_x to' + node_width; toCy = 2 * nl_y to' + node_height in
      if nl_row from = nl_row to' then
        (let goingRight = nl_x to' > nl_x from;
             startX = (if goingRight then nl_x from + node_width else nl_x from);
             endX = (if goingRight then nl_x to' else nl_x to' + node_width)
         in ''M '' @ show_half (2 * startX) @ '' '' @ show_half fromCy @ '' Q '' @ show_half (startX + endX) @ '' ''
            @ show_half fromCy @ '' '' @ show_half (2 * endX) @ '' '' @ show_half toCy)
      else
        (let startY = nl_y from + node_height; endY = nl_y to'
         in ''M '' @ show_half fromCx @ '' '' @ show_half (2 * startY) @ '' C '' @ show_half fromCx @ '' ''
            @ show_half (startY + endY) @ '' '' @ show_half toCx @ '' '' @ show_half (startY + endY) @ '' ''
            @ show_half toCx @ '' '' @ show_half (2 * endY)))"

definition top_row :: "nat \<Rightarrow> node_layout list" where
  "top_row n = map (\<lambda>i. \<lparr>nl_index = i, nl_row = 0, nl_col = i, nl_x = i * (node_width + gap_x), nl_y = 0\<rparr>) [0..<n]"

definition bottom_row :: "nat \<Rightarrow> nat \<Rightarrow> node_layout list" where
  "bottom_row topCount n =
     map (\<lambda>i. let col = topCount - 1 - i in
          \<lparr>nl_index = topCount + i, nl_row = 1, nl_col = col, nl_x = col * (node_width + gap_x),
           nl_y = node_height + gap_y\<rparr>) [0..<n]"

definition layout_nodes :: "nat \<Rightarrow> node_layout list" where
  "layout_nodes stepCount =
     (if stepCount \<le> 3 then top_row stepCount
      else (let topCount = (stepCount + 1) div 2 in top_row topCount @ bottom_row topCount (stepCount - topCount)))"

definition maximum :: "nat list \<Rightarrow> nat" where
  "maximum xs = fold max xs 0"

definition computeLayout :: "nat \<Rightarrow> graph_layout" where
  "computeLayout stepCount =
     (if stepCount = 0 then \<lparr>gl_nodes = [], gl_edges = [], gl_width = 0, gl_height = 0\<rparr>
      else (let nodes = layout_nodes stepCount in
        \<lparr>gl_nodes = nodes,
         gl_edges = map (\<lambda>i. \<lparr>el_from = i, el_to = i + 1, el_d = computeEdgePath (nodes ! i) (nodes ! (i + 1)),
             el_pathId = ''edge-'' @ show_nat i @ ''-'' @ show_nat (i + 1)\<rparr>) [0..<length nodes - 1],
         gl_width = maximum (map (\<lambda>n. nl_x n + node_width) nodes),
         gl_height = maximum (map (\<lambda>n. nl_y n + node_height) nodes)\<rparr>))"

section \<open>One step of a pipeline\<close>

definition step_at :: "step_id \<Rightarrow> pipeline \<Rightarrow> step_state option" where
  "step_at i pl = find (\<lambda>s. st_id s = i) (pl_steps pl)"

lemma find_map_same:
  assumes "\<And>s. st_id (f s) = st_id s"
  shows "find (\<lambda>s. st_id s = i) (map (\<lambda>s. if st_id s = j then f s else s) ss) =
     (if i = j then map_option f (find (\<lambda>s. st_id s = i) ss) else find (\<lambda>s. st_id s = i) ss)"
  by (induction ss) (auto simp: assms)

lemma step_at_on_step [js_simps]:
  assumes "\<And>s. st_id (f s) = st_id s"
  shows "step_at i (on_step j f pl) = (if i = j then map_option f (step_at i pl) else step_at i pl)"
  using find_map_same [of f i j "pl_steps pl", OF assms] by (simp add: step_at_def on_step_def)

lemma step_at_overall [simp, js_simps]: "step_at i (pl\<lparr>pl_overall := x\<rparr>) = step_at i pl"
  by (simp add: step_at_def)

lemma overall_on_step [simp, js_simps]: "pl_overall (on_step j f pl) = pl_overall pl"
  by (simp add: on_step_def)

lemma step_at_start:
  "step_at i (pipelineReducer now (Start es) pl) =
     (if i \<in> set es then Some \<lparr>st_id = i, st_label = the (map_of step_definitions i), st_status = Pending,
                              st_startTime = None, st_endTime = None, st_data = JUndef\<rparr> else None)"
  by (cases i) (simp_all add: step_at_def step_definitions_def)

text \<open>The shape of the steps: what \<open>Start\<close> lists, and no action but \<open>Start\<close> and \<open>Reset\<close> changes it.\<close>

lemma reducer_ids:
  "map st_id (pl_steps (pipelineReducer now a pl)) =
     (case a of Reset \<Rightarrow> [] | Start es \<Rightarrow> filter (\<lambda>i. i \<in> set es) (map fst step_definitions)
      | _ \<Rightarrow> map st_id (pl_steps pl))"
  by (cases a) (auto simp: initialPipelineState_def on_step_def o_def split_def filter_map)

definition steps_ordered :: "pipeline \<Rightarrow> bool" where
  "steps_ordered pl \<longleftrightarrow> subseq (map st_id (pl_steps pl)) (map fst step_definitions)"

text \<open>The steps of a pipeline, after any dispatches, are some of the five known steps, each at
  most once and in the order they run in, whatever order the enabled steps were given in.\<close>

theorem pipeline_steps_ordered:
  "steps_ordered (fold (\<lambda>(now, a). pipelineReducer now a) acts initialPipelineState)"
proof (rule fold_invariant [where I = steps_ordered])
  show "steps_ordered initialPipelineState"
    by (simp add: steps_ordered_def initialPipelineState_def)
  fix a pl assume "steps_ordered pl"
  then show "steps_ordered ((\<lambda>(now, a). pipelineReducer now a) a pl)"
    by (cases a) (auto simp: steps_ordered_def reducer_ids split: pipeline_action.split)
qed

section \<open>A stream and its pipeline\<close>

lemma always_enabled [simp]: "Search \<in> set (enabled_steps cfg)" "Generation \<in> set (enabled_steps cfg)"
  by (simp_all add: enabled_steps_def)

lemma enabled_iff:
  "Classification \<in> set (enabled_steps cfg) \<longleftrightarrow> classification_enabled cfg"
  "Confidence \<in> set (enabled_steps cfg) \<longleftrightarrow> confidence_enabled cfg"
  "Followup \<in> set (enabled_steps cfg) \<longleftrightarrow> followup_enabled cfg"
  by (simp_all add: enabled_steps_def)

definition step_shown :: "step_id \<Rightarrow> rag_page \<Rightarrow> step_state option" where
  "step_shown i p = step_at i (rp_pipeline p)"

definition status_is :: "step_id \<Rightarrow> step_status \<Rightarrow> rag_page \<Rightarrow> bool" where
  "status_is i x p \<longleftrightarrow> (\<exists>s. step_shown i p = Some s \<and> st_status s = x)"

definition data_is :: "step_id \<Rightarrow> jsval \<Rightarrow> rag_page \<Rightarrow> bool" where
  "data_is i d p \<longleftrightarrow> (\<exists>s. step_shown i p = Some s \<and> st_data s = d)"

definition stream_hits :: "(rat \<times> rag_event) list \<Rightarrow> jsval list" where
  "stream_hits evs = concat (map (\<lambda>(t, e). case e of Hit h \<Rightarrow> [h] | _ \<Rightarrow> []) evs)"

definition answer_of :: "(rat \<times> rag_event) list \<Rightarrow> string" where
  "answer_of evs = concat (map (\<lambda>(t, e). case e of AnswerChunk c \<Rightarrow> c | _ \<Rightarrow> []) evs)"

definition questions_of :: "(rat \<times> rag_event) list \<Rightarrow> string list" where
  "questions_of evs = concat (map (\<lambda>(t, e). case e of FollowUpQuestion q \<Rightarrow> [q] | _ \<Rightarrow> []) evs)"

fun is_chunk :: "rag_event \<Rightarrow> bool" where
  "is_chunk (AnswerChunk _) = True"
| "is_chunk _ = False"

fun is_classified :: "rag_event \<Rightarrow> bool" where
  "is_classified (Classified _) = True"
| "is_classified _ = False"

fun is_confident :: "rag_event \<Rightarrow> bool" where
  "is_confident (Confident _ _) = True"
| "is_confident _ = False"

fun is_inner :: "rag_event \<Rightarrow> bool" where
  "is_inner StreamStart = False"
| "is_inner StreamEnd = False"
| "is_inner (StreamError _) = False"
| "is_inner _ = True"

definition has_event :: "(rag_event \<Rightarrow> bool) \<Rightarrow> (rat \<times> rag_event) list \<Rightarrow> bool" where
  "has_event P evs = list_ex (\<lambda>(t, e). P e) evs"

text \<open>No classification comes after a chunk of the answer.\<close>

fun classified_first :: "(rat \<times> rag_event) list \<Rightarrow> bool" where
  "classified_first [] = True"
| "classified_first ((t, e) # evs) = (classified_first evs \<and> (is_chunk e \<longrightarrow> \<not> has_event is_classified evs))"

lemma has_event_snoc [simp]: "has_event P (evs @ [(t, e)]) = (has_event P evs \<or> P e)"
  by (simp add: has_event_def)

lemma has_event_Cons [simp]: "has_event P ((t, e) # evs) = (P e \<or> has_event P evs)" "\<not> has_event P []"
  by (simp_all add: has_event_def)

lemma classified_first_snoc:
  "classified_first (evs @ [(t, e)]) \<longleftrightarrow> classified_first evs \<and> (is_classified e \<longrightarrow> \<not> has_event is_chunk evs)"
  by (induction evs rule: classified_first.induct) auto

lemma chunk_not_first: "\<not> classified_first evs \<Longrightarrow> has_event is_chunk evs"
  by (induction evs rule: classified_first.induct) auto

lemmas accumulated = stream_hits_def answer_of_def questions_of_def

lemmas handlers = handleStreamStart_def handleClassification_def handleHit_def handleAnswerChunk_def
  handleFollowUpQuestion_def handleConfidence_def handleStreamEnd_def handleError_def dispatch_def
  complete_search_def Let_def

definition run_stream :: "rag_config \<Rightarrow> rat \<Rightarrow> (rat \<times> rag_event) list \<Rightarrow> rag_page \<Rightarrow> rag_page" where
  "run_stream cfg t0 evs p = fold (rag_event_step cfg) evs (rag_event_step cfg (t0, StreamStart) p)"

text \<open>What the page has gathered while the stream runs.\<close>

lemma run_stream_gathers:
  assumes "list_all (\<lambda>(t, e). is_inner e) evs"
  shows "rp_hits (run_stream cfg t0 evs p) = stream_hits evs
    \<and> rp_answer (run_stream cfg t0 evs p) = answer_of evs
    \<and> rp_followups (run_stream cfg t0 evs p) = questions_of evs
    \<and> rp_searchCompleted (run_stream cfg t0 evs p) = has_event is_chunk evs"
  using assms
proof (induction evs rule: rev_induct)
  case Nil
  show ?case by (simp add: run_stream_def handlers accumulated)
next
  case (snoc te evs)
  obtain t e where te: "te = (t, e)" by fastforce
  have IH: "rp_hits (run_stream cfg t0 evs p) = stream_hits evs"
    "rp_answer (run_stream cfg t0 evs p) = answer_of evs"
    "rp_followups (run_stream cfg t0 evs p) = questions_of evs"
    "rp_searchCompleted (run_stream cfg t0 evs p) = has_event is_chunk evs"
    using snoc by simp_all
  have run: "run_stream cfg t0 (evs @ [te]) p = rag_event_step cfg (t, e) (run_stream cfg t0 evs p)"
    by (simp add: run_stream_def te)
  show ?case
    unfolding run using snoc.prems IH by (cases e) (simp_all add: te handlers accumulated)
qed

lemmas step_views = status_is_def data_is_def step_shown_def step_at_on_step

text \<open>The statuses while the stream runs.\<close>

definition stream_view :: "rag_config \<Rightarrow> (rat \<times> rag_event) list \<Rightarrow> rag_page \<Rightarrow> bool" where
  "stream_view cfg evs p \<longleftrightarrow>
     (\<forall>i. step_shown i p \<noteq> None \<longleftrightarrow> i \<in> set (enabled_steps cfg))
   \<and> (classification_enabled cfg \<longrightarrow>
        status_is Classification (if has_event is_classified evs then Complete else Running) p)
   \<and> (confidence_enabled cfg \<longrightarrow>
        status_is Confidence (if has_event is_confident evs then Complete else Pending) p)
   \<and> (followup_enabled cfg \<longrightarrow> status_is Followup (if questions_of evs = [] then Pending else Running) p)
   \<and> (has_event is_chunk evs \<longrightarrow>
        status_is Search (if classified_first evs then Complete else Running) p \<and> status_is Generation Running p
        \<and> data_is Search (search_data p) p)"

lemma status_unique: "status_is i x p \<Longrightarrow> status_is i y p \<longleftrightarrow> x = y"
  by (auto simp: status_is_def)

lemma status_present: "status_is i x p \<Longrightarrow> step_shown i p \<noteq> None"
  by (auto simp: status_is_def)

lemma stream_view_start: "stream_view cfg [] (run_stream cfg t0 [] p)"
proof -
  have "step_shown i (run_stream cfg t0 [] p) \<noteq> None \<longleftrightarrow> i \<in> set (enabled_steps cfg)" for i
    by (simp add: run_stream_def handlers step_shown_def step_at_on_step step_at_start del: pipelineReducer.simps(2))
  then show ?thesis
    unfolding stream_view_def
    by (auto simp: run_stream_def handlers step_views step_at_start enabled_steps_def accumulated
        simp del: pipelineReducer.simps(2))
qed

lemma stream_view_event:
  assumes "stream_view cfg evs p" "is_inner e"
    "rp_searchCompleted p = has_event is_chunk evs"
  shows "stream_view cfg (evs @ [(t, e)]) (rag_event_step cfg (t, e) p)"
proof (cases e)
  case (Classified c)
  with assms show ?thesis
    by (auto simp: stream_view_def handlers step_views accumulated search_data_def classified_first_snoc)
next
  case (Hit h)
  with assms show ?thesis
    by (auto simp: stream_view_def handlers step_views accumulated search_data_def classified_first_snoc)
next
  case (AnswerChunk c)
  have there: "step_shown i p \<noteq> None \<longleftrightarrow> i \<in> set (enabled_steps cfg)" for i
    using assms(1) unfolding stream_view_def by blast
  obtain ss sg where steps: "step_shown Search p = Some ss" "step_shown Generation p = Some sg"
    using there [of Search] there [of Generation] by (auto simp: enabled_steps_def)
  show ?thesis
  proof (cases "has_event is_chunk evs")
    case True
    with steps assms show ?thesis
      unfolding AnswerChunk stream_view_def
      by (simp add: handlers step_views accumulated search_data_def coalesce_def nullish_def classified_first_snoc)
  next
    case False
    then have "classified_first evs" using chunk_not_first by blast
    with False steps assms show ?thesis
      unfolding AnswerChunk stream_view_def
      by (simp add: handlers step_views accumulated search_data_def coalesce_def nullish_def classified_first_snoc)
  qed
next
  case (FollowUpQuestion q)
  with assms show ?thesis
    by (auto simp: stream_view_def handlers step_views accumulated search_data_def classified_first_snoc)
next
  case (Confident g c)
  with assms show ?thesis
    by (auto simp: stream_view_def handlers step_views accumulated search_data_def classified_first_snoc)
qed (use assms in simp_all)

lemma stream_view_run:
  assumes "list_all (\<lambda>(t, e). is_inner e) evs"
  shows "stream_view cfg evs (run_stream cfg t0 evs p)"
  using assms
proof (induction evs rule: rev_induct)
  case (snoc te evs)
  obtain t e where te: "te = (t, e)" by fastforce
  have run: "run_stream cfg t0 (evs @ [te]) p = rag_event_step cfg (t, e) (run_stream cfg t0 evs p)"
    by (simp add: run_stream_def te)
  show ?case
    unfolding run unfolding te
    using snoc run_stream_gathers [of evs cfg t0 p]
    by (intro stream_view_event) (auto simp: te classified_first_snoc)
qed (simp add: stream_view_start)

lemma running_while_streaming:
  assumes "stream_view cfg evs r"
  shows "status_is Classification Running r \<longleftrightarrow> classification_enabled cfg \<and> \<not> has_event is_classified evs"
    and "\<not> status_is Confidence Running r"
    and "status_is Followup Running r \<longleftrightarrow> followup_enabled cfg \<and> questions_of evs \<noteq> []"
proof -
  note view = assms [unfolded stream_view_def]
  have there: "status_is i x r \<Longrightarrow> i \<in> set (enabled_steps cfg)" for i x
    using view status_present by blast
  show "status_is Classification Running r \<longleftrightarrow> classification_enabled cfg \<and> \<not> has_event is_classified evs"
    using view there [of Classification Running] status_unique [of Classification Complete r Running]
    unfolding enabled_iff by (auto split: if_splits)
  show "\<not> status_is Confidence Running r"
    using view there [of Confidence Running] status_unique [of Confidence _ r Running]
    unfolding enabled_iff by (auto split: if_splits)
  show "status_is Followup Running r \<longleftrightarrow> followup_enabled cfg \<and> questions_of evs \<noteq> []"
    using view there [of Followup Running] status_unique [of Followup Pending r Running]
    unfolding enabled_iff by (auto split: if_splits)
qed

text \<open>The end of a stream completes the search and the generation, and the follow-up step if there were questions.\<close>

lemma stream_end_keeps:
  "i = Classification \<or> i = Confidence \<or> i = Followup \<and> rp_followups r = [] \<Longrightarrow>
     step_shown i (rag_event_step cfg (t, StreamEnd) r) = step_shown i r"
  by (auto simp: handlers step_shown_def step_at_on_step)

lemma stream_end_completes:
  assumes "step_shown Search r = Some ss" "step_shown Generation r = Some sg"
    and "rp_searchCompleted r \<Longrightarrow> st_status ss = x \<and> st_data ss = search_data r"
    and "\<not> rp_searchCompleted r \<Longrightarrow> x = Complete"
  shows "status_is Search x (rag_event_step cfg (t, StreamEnd) r)"
    "data_is Search (search_data r) (rag_event_step cfg (t, StreamEnd) r)"
    "status_is Generation Complete (rag_event_step cfg (t, StreamEnd) r)"
    "data_is Generation (generation_data cfg r) (rag_event_step cfg (t, StreamEnd) r)"
  using assms
  by (cases "rp_searchCompleted r";
      simp add: handlers step_views coalesce_def nullish_def search_data_def generation_data_def)+

lemma stream_end_followup:
  assumes "step_shown Followup r \<noteq> None" "rp_followups r \<noteq> []"
  shows "status_is Followup Complete (rag_event_step cfg (t, StreamEnd) r)"
    "data_is Followup (followup_data r) (rag_event_step cfg (t, StreamEnd) r)"
  using assms by (auto simp: handlers step_views coalesce_def nullish_def followup_data_def)

lemma stream_end_overall:
  "pl_overall (rp_pipeline (rag_event_step cfg (t, StreamEnd) r)) = AllComplete"
  "\<not> rp_isLoading (rag_event_step cfg (t, StreamEnd) r)"
  by (simp_all add: handlers)

lemma stream_end_running:
  assumes "stream_view cfg evs r" "rp_followups r = questions_of evs"
    "status_is Search x q" "status_is Generation Complete q" "q = rag_event_step cfg (t, StreamEnd) r"
  shows "status_is i Running q \<longleftrightarrow> i = Classification \<and> classification_enabled cfg \<and> \<not> has_event is_classified evs
    \<or> i = Search \<and> x = Running"
proof (cases "i = Followup \<and> rp_followups r \<noteq> []")
  case True
  then have "step_shown Followup r \<noteq> None \<longleftrightarrow> followup_enabled cfg"
    using assms(1) by (simp add: stream_view_def enabled_iff)
  then have "\<not> status_is Followup Running q"
    using True stream_end_followup(1) [of r cfg t] status_unique [of Followup Complete q Running] assms(5)
    by (cases "followup_enabled cfg")
       (auto simp: handlers status_is_def step_shown_def step_at_on_step)
  then show ?thesis using True by simp
next
  case False
  show ?thesis
  proof (cases "i = Search \<or> i = Generation")
    case True
    then show ?thesis using assms(3,4) by (auto dest: status_unique)
  next
    case no: False
    with False have "step_shown i q = step_shown i r"
      unfolding assms(5) by (intro stream_end_keeps) (cases i; simp)
    then have "status_is i Running q = status_is i Running r"
      by (simp add: status_is_def)
    then show ?thesis
      using running_while_streaming [OF assms(1)] no False assms(2) by (cases i) auto
  qed
qed

text \<open>C9. What the pipeline shows when a stream has ended, whatever events came between its start and its end
  (errors apart): the generation with the whole answer is complete, the search holds all hits, the follow-up
  step is complete with all questions when there were any, and no step is still running but a classification
  that never came and, when a classification came after a chunk of the answer, the search, which that
  classification starts again and nothing completes.\<close>

theorem pipeline_after_stream:
  assumes "list_all (\<lambda>(t, e). is_inner e) evs"
  shows "let q = rag_event_step cfg (t1, StreamEnd) (run_stream cfg t0 evs p) in
     pl_overall (rp_pipeline q) = AllComplete \<and> \<not> rp_isLoading q
     \<and> status_is Search (if classified_first evs then Complete else Running) q
     \<and> data_is Search (JObj [(''hits'', JArr (stream_hits evs))]) q
     \<and> status_is Generation Complete q
     \<and> data_is Generation (JObj [(''answer'', JStr (answer_of evs)), (''provider'', rag_provider cfg),
                                  (''model'', rag_model cfg)]) q
     \<and> (followup_enabled cfg \<and> questions_of evs \<noteq> [] \<longrightarrow> status_is Followup Complete q
         \<and> data_is Followup (JObj [(''questions'', JArr (map JStr (questions_of evs)))]) q)
     \<and> (\<forall>i. status_is i Running q \<longleftrightarrow>
           i = Classification \<and> classification_enabled cfg \<and> \<not> has_event is_classified evs
           \<or> i = Search \<and> \<not> classified_first evs)"
proof -
  define r where "r = run_stream cfg t0 evs p"
  define q where "q = rag_event_step cfg (t1, StreamEnd) r"
  define x where "x = (if classified_first evs then Complete else Running)"
  have gathered: "rp_hits r = stream_hits evs" "rp_answer r = answer_of evs" "rp_followups r = questions_of evs"
    "rp_searchCompleted r = has_event is_chunk evs"
    using run_stream_gathers [OF assms(1), of cfg t0 p] by (simp_all add: r_def)
  have view: "stream_view cfg evs r"
    unfolding r_def by (rule stream_view_run [OF assms])
  then have there: "step_shown i r \<noteq> None \<longleftrightarrow> i \<in> set (enabled_steps cfg)" for i
    unfolding stream_view_def by blast
  obtain ss sg where steps: "step_shown Search r = Some ss" "step_shown Generation r = Some sg"
    using there [of Search] there [of Generation] by auto
  have search: "st_status ss = x \<and> st_data ss = search_data r" if "rp_searchCompleted r"
    using view that steps(1) by (simp add: stream_view_def gathered status_is_def data_is_def x_def)
  have first: "x = Complete" if "\<not> rp_searchCompleted r"
    using that chunk_not_first [of evs] by (auto simp: x_def gathered)
  note ends = stream_end_completes [OF steps search first, of cfg t1, folded q_def]
  have followup: "followup_enabled cfg \<and> questions_of evs \<noteq> [] \<longrightarrow>
      status_is Followup Complete q \<and> data_is Followup (followup_data r) q"
    using there [of Followup] gathered(3) stream_end_followup [of r cfg t1]
    by (simp add: q_def enabled_iff)
  note running = stream_end_running [OF view gathered(3) ends(1,3) q_def]
  show ?thesis
    unfolding Let_def r_def [symmetric] q_def [symmetric] x_def [symmetric]
    using ends followup running stream_end_overall [of cfg t1 r]
    by (simp add: q_def search_data_def generation_data_def followup_data_def gathered) (simp add: x_def)
qed

definition demo_rag :: rag_page where
  "demo_rag = \<lparr>rp_pipeline = initialPipelineState, rp_isLoading = False, rp_error = None,
     rp_processingTime = None, rp_startTime = 0, rp_hits = [], rp_answer = [], rp_followups = [],
     rp_searchCompleted = False\<rparr>"

theorem pipeline_after_stream_witness:
  "\<not> status_is Classification Running (rag_event_step
     \<lparr>classification_enabled = True, confidence_enabled = True, followup_enabled = False,
      rag_provider = JUndef, rag_model = JUndef\<rparr> (5, StreamEnd) (run_stream
     \<lparr>classification_enabled = True, confidence_enabled = True, followup_enabled = False,
      rag_provider = JUndef, rag_model = JUndef\<rparr> 0
     [(1, Classified JNull), (2, Hit JNull), (3, AnswerChunk ''a''), (4, AnswerChunk ''b'')] demo_rag))"
  using pipeline_after_stream [of "[(1, Classified JNull), (2, Hit JNull), (3, AnswerChunk ''a''), (4, AnswerChunk ''b'')]"
      "\<lparr>classification_enabled = True, confidence_enabled = True, followup_enabled = False,
        rag_provider = JUndef, rag_model = JUndef\<rparr>" 5 0 demo_rag]
  by (simp add: Let_def)

section \<open>The drawn graph\<close>

text \<open>The place of step \<open>i\<close> of \<open>n\<close>: a row, or two rows of which the second runs back.\<close>

definition place :: "nat \<Rightarrow> nat \<Rightarrow> nat \<times> nat" where
  "place n i = (let top = (if n \<le> 3 then n else (n + 1) div 2) in
     if i < top then (0, i) else (1, top - 1 - (i - top)))"

definition node_at :: "nat \<times> nat \<Rightarrow> nat \<Rightarrow> node_layout" where
  "node_at rc i = \<lparr>nl_index = i, nl_row = fst rc, nl_col = snd rc, nl_x = snd rc * (node_width + gap_x),
     nl_y = fst rc * (node_height + gap_y)\<rparr>"

lemma layout_nodes_places: "layout_nodes n = map (\<lambda>i. node_at (place n i) i) [0..<n]"
proof (cases "n \<le> 3")
  case True
  then show ?thesis
    by (simp add: layout_nodes_def top_row_def place_def node_at_def)
next
  case False
  define top where "top = (n + 1) div 2"
  have le: "top \<le> n" unfolding top_def using False by simp
  have "[0..<n] = [0..<top] @ map (\<lambda>i. top + i) [0..<n - top]"
    using le by (intro nth_equalityI) (auto simp: nth_append)
  then have "map (\<lambda>i. node_at (place n i) i) [0..<n]
      = map (\<lambda>i. node_at (place n i) i) [0..<top] @ map (\<lambda>i. node_at (place n (top + i)) (top + i)) [0..<n - top]"
    by (simp add: o_def)
  then show ?thesis
    using False unfolding layout_nodes_def top_row_def bottom_row_def place_def node_at_def Let_def top_def [symmetric]
    by simp
qed

lemma place_inject: "i < n \<Longrightarrow> j < n \<Longrightarrow> place n i = place n j \<Longrightarrow> i = j"
  by (auto simp: place_def Let_def split: if_splits)

lemma place_next:
  assumes "i + 1 < n"
  shows "fst (place n (i + 1)) = fst (place n i) \<and>
           (snd (place n (i + 1)) = snd (place n i) + 1 \<or> snd (place n i) = snd (place n (i + 1)) + 1)
         \<or> fst (place n i) = 0 \<and> fst (place n (i + 1)) = 1 \<and> snd (place n (i + 1)) = snd (place n i)"
proof -
  define top where "top = (if n \<le> 3 then n else (n + 1) div 2)"
  have "n \<le> 2 * ((n + 1) div 2)" by linarith
  then have top: "n \<le> 2 * top" unfolding top_def by simp
  have at: "place n j = (if j < top then (0, j) else (1, top - 1 - (j - top)))" for j
    by (simp add: place_def top_def Let_def)
  consider "i + 1 < top" | "i + 1 = top" | "top \<le> i" by linarith
  then show ?thesis
  proof cases
    case 1
    then show ?thesis by (simp add: at)
  next
    case 2
    then show ?thesis by (simp add: at)
  next
    case 3
    have "top - 1 - (i - top) = Suc (top - 1 - (i + 1 - top))"
      using 3 top assms by linarith
    then show ?thesis using 3 by (simp add: at)
  qed
qed

lemma maximum_ge: "x \<in> set xs \<Longrightarrow> x \<le> maximum xs"
proof -
  have "x \<in> set xs \<or> x \<le> a \<Longrightarrow> x \<le> fold max xs a" for a
    by (induction xs arbitrary: a) (auto simp: max.coboundedI1 max.coboundedI2)
  then show "x \<in> set xs \<Longrightarrow> x \<le> maximum xs" by (simp add: maximum_def)
qed

lemma layout_parts:
  "length (gl_nodes (computeLayout n)) = n
   \<and> (\<forall>i j. i < n \<and> j < n \<and> place n i = place n j \<longrightarrow> i = j)
   \<and> (\<forall>i < n. gl_nodes (computeLayout n) ! i = node_at (place n i) i
        \<and> nl_x (gl_nodes (computeLayout n) ! i) + node_width \<le> gl_width (computeLayout n)
        \<and> nl_y (gl_nodes (computeLayout n) ! i) + node_height \<le> gl_height (computeLayout n))
   \<and> map (\<lambda>e. (el_from e, el_to e)) (gl_edges (computeLayout n)) = map (\<lambda>i. (i, i + 1)) [0..<n - 1]
   \<and> (\<forall>i. i + 1 < n \<longrightarrow>
        fst (place n (i + 1)) = fst (place n i) \<and>
          (snd (place n (i + 1)) = snd (place n i) + 1 \<or> snd (place n i) = snd (place n (i + 1)) + 1)
        \<or> fst (place n i) = 0 \<and> fst (place n (i + 1)) = 1 \<and> snd (place n (i + 1)) = snd (place n i))"
proof (cases "n = 0")
  case True
  then show ?thesis by (simp add: computeLayout_def)
next
  case False
  have nodes: "gl_nodes (computeLayout n) = map (\<lambda>i. node_at (place n i) i) [0..<n]"
    using False by (simp add: computeLayout_def layout_nodes_places Let_def)
  have inside: "nl_x (node_at (place n i) i) + node_width \<le> gl_width (computeLayout n)
      \<and> nl_y (node_at (place n i) i) + node_height \<le> gl_height (computeLayout n)" if "i < n" for i
    using that False unfolding computeLayout_def Let_def layout_nodes_places
    by (auto intro!: maximum_ge)
  show ?thesis
    using False nodes inside place_inject place_next
    by (auto simp: computeLayout_def layout_nodes_places Let_def)
qed

text \<open>C39. The drawing of a pipeline: one node per step, numbered in order, on distinct places of a grid
  whose cells are a node apart; every node lies inside the drawing, and every edge joins a step to
  the next one on a neighbouring place.\<close>

theorem layout_sound:
  "length (gl_nodes (computeLayout n)) = n
   \<and> (\<forall>i j. i < n \<and> j < n \<and> place n i = place n j \<longrightarrow> i = j)
   \<and> (\<forall>i < n. gl_nodes (computeLayout n) ! i = node_at (place n i) i
        \<and> nl_x (gl_nodes (computeLayout n) ! i) + node_width \<le> gl_width (computeLayout n)
        \<and> nl_y (gl_nodes (computeLayout n) ! i) + node_height \<le> gl_height (computeLayout n))
   \<and> map (\<lambda>e. (el_from e, el_to e)) (gl_edges (computeLayout n)) = map (\<lambda>i. (i, i + 1)) [0..<n - 1]
   \<and> (\<forall>i. i + 1 < n \<longrightarrow>
        fst (place n (i + 1)) = fst (place n i) \<and>
          (snd (place n (i + 1)) = snd (place n i) + 1 \<or> snd (place n i) = snd (place n (i + 1)) + 1)
        \<or> fst (place n i) = 0 \<and> fst (place n (i + 1)) = 1 \<and> snd (place n (i + 1)) = snd (place n i))"
  by (rule layout_parts)

theorem layout_sound_witness:
  "gl_nodes (computeLayout 5) ! 3 = node_at (place 5 3) 3 \<and> place 5 3 = (1, 2)"
  using layout_sound [of 5] by (simp add: place_def)

end
