(* ===== verification/SchemaDetect.thy ===== *)
theory SchemaDetect
  imports Prelude "HOL-Library.Multiset"
begin

text \<open>
  How the dashboard proposes a table schema from documents: the type rules of
  ts/apps/antfarm/src/components/schema-builder/schema-utils.ts, the detection over the documents of
  a table (hooks/use-field-detection.ts) or over pasted JSON (components/schema-builder/
  DocumentSchemasForm.tsx), and the searchable fields made of a schema field (utils/fieldUtils.ts).
  The keys of an object are read in the order of JavaScript: array indices first, by their number, then the
  others in the order of the object's list.
\<close>

section \<open>Types of values\<close>

datatype json_type = TString | TNumber | TBoolean | TObject | TArray

datatype antfly_type =
    AText | AKeyword | AHtml | ANumeric | ABoolean | ADatetime | AGeopoint | AGeoshape | AEmbedding | ALink
  | ABlob | ASearchAsYouType

definition antfly_types :: "(antfly_type \<times> string) list" where
  "antfly_types =
     [(AText, ''Text''), (AKeyword, ''Keyword''), (AHtml, ''HTML''), (ANumeric, ''Numeric''),
      (ABoolean, ''Boolean''), (ADatetime, ''Datetime''), (AGeopoint, ''Geo Point''), (AGeoshape, ''Geo Shape''),
      (AEmbedding, ''Embedding''), (ALink, ''Link''), (ABlob, ''Blob''),
      (ASearchAsYouType, ''Search as You Type'')]"

definition reserved_field_names :: "string list" where
  "reserved_field_names = [''_type'', ''_id'', ''_embeddings'', ''_summaries'']"

fun inferJSONType :: "jsval \<Rightarrow> json_type" where
  "inferJSONType (JArr _) = TArray"
| "inferJSONType (JObj _) = TObject"
| "inferJSONType (JNum _) = TNumber"
| "inferJSONType (JBool _) = TBoolean"
| "inferJSONType _ = TString"

definition is_digit :: "char \<Rightarrow> bool" where
  "is_digit c \<longleftrightarrow> (let n = (of_char c :: nat) in 48 \<le> n \<and> n \<le> 57)"

definition is_letter :: "char \<Rightarrow> bool" where
  "is_letter c \<longleftrightarrow> (let n = (of_char c :: nat) in 65 \<le> n \<and> n \<le> 90 \<or> 97 \<le> n \<and> n \<le> 122)"

text \<open>A pattern of single characters at the start of a text.\<close>

fun fits :: "(char \<Rightarrow> bool) list \<Rightarrow> string \<Rightarrow> bool" where
  "fits [] s = True"
| "fits (p # ps) [] = False"
| "fits (p # ps) (c # s) = (p c \<and> fits ps s)"

definition date_pattern :: "(char \<Rightarrow> bool) list" where
  "date_pattern = [is_digit, is_digit, is_digit, is_digit, (=) (CHR ''-''), is_digit, is_digit, (=) (CHR ''-''),
     is_digit, is_digit]"

definition time_pattern :: "(char \<Rightarrow> bool) list" where
  "time_pattern = [is_digit, is_digit, (=) (CHR '':''), is_digit, is_digit]"

text \<open>The expressions \<open>/^\d{4}-\d{2}-\d{2}(T|\s)?\d{2}:\d{2}/\<close> and \<open>/<[a-z][\s\S]*>/i\<close>.\<close>

definition looks_like_datetime :: "string \<Rightarrow> bool" where
  "looks_like_datetime s \<longleftrightarrow>
     fits (date_pattern @ time_pattern) s \<or> fits (date_pattern @ (\<lambda>c. c = CHR ''T'' \<or> is_ws c) # time_pattern) s"

fun looks_like_html :: "string \<Rightarrow> bool" where
  "looks_like_html (c # d # s) =
     (c = CHR ''<'' \<and> is_letter d \<and> CHR ''>'' \<in> set s \<or> looks_like_html (d # s))"
| "looks_like_html _ = False"

definition getDefaultAntflyType :: "json_type \<Rightarrow> jsval \<Rightarrow> antfly_type list" where
  "getDefaultAntflyType jsonType value =
     (case jsonType of
        TNumber \<Rightarrow> [ANumeric]
      | TBoolean \<Rightarrow> []
      | TArray \<Rightarrow> [AKeyword]
      | TObject \<Rightarrow> []
      | TString \<Rightarrow>
          (case value of
             JStr s \<Rightarrow> if looks_like_datetime s then [ADatetime] else if looks_like_html s then [AHtml] else [AText]
           | _ \<Rightarrow> [AText]))"

definition truncateValue :: "(jsval \<Rightarrow> string) \<Rightarrow> jsval \<Rightarrow> nat \<Rightarrow> string" where
  "truncateValue stringify value maxLen =
     (if value = JNull then ''null''
      else if value = JUndef then ''undefined''
      else (let str = (if typeof_object value then stringify value else to_str value)
            in if length str > maxLen then take maxLen str @ ''...'' else str))"

section \<open>Searchable fields\<close>

record searchable_field =
  sf_displayName :: string
  sf_searchField :: string
  sf_originalField :: string
  sf_schemaTypes :: "string list"
  sf_antflyTypes :: "antfly_type list"
  sf_variation :: string

definition generateSearchableFields :: "string \<Rightarrow> string list \<Rightarrow> antfly_type list \<Rightarrow> searchable_field list" where
  "generateSearchableFields field schemaTypes antflyTypes =
     (let hasMultipleAntflyTypes = length antflyTypes > 1;
          entry = (\<lambda>d s v. \<lparr>sf_displayName = d, sf_searchField = s, sf_originalField = field,
                            sf_schemaTypes = schemaTypes, sf_antflyTypes = antflyTypes, sf_variation = v\<rparr>)
      in (if AText \<in> set antflyTypes \<or> length antflyTypes = 0
          then [entry (if hasMultipleAntflyTypes then field @ '' (text)'' else field) field ''text''] else [])
       @ (if hasMultipleAntflyTypes \<and> AKeyword \<in> set antflyTypes
          then [entry (field @ '' (keyword)'') (field @ ''__keyword'') ''keyword''] else [])
       @ (if ASearchAsYouType \<in> set antflyTypes
          then entry (field @ '' (egdegram)'') (field @ ''__2gram'') ''2gram''
               # (if AText \<notin> set antflyTypes then [entry (field @ '' (text)'') field ''text''] else [])
          else []))"

record basic_field =
  bf_displayName :: string
  bf_fieldName :: string
  bf_schemaType :: string

definition generateBasicFields :: "string \<Rightarrow> string \<Rightarrow> basic_field" where
  "generateBasicFields field schemaType =
     \<lparr>bf_displayName = field @ '' ('' @ schemaType @ '')'', bf_fieldName = field, bf_schemaType = schemaType\<rparr>"

section \<open>Fields of a group of documents\<close>

record tracked =
  tk_example :: jsval
  tk_seen :: nat
  tk_type :: json_type

type_synonym field_map = "(string, tracked) jmap"

definition skipped_key :: "string \<Rightarrow> bool" where
  "skipped_key key \<longleftrightarrow> starts_with key ''_'' \<or> key \<in> set reserved_field_names"

definition track :: "string \<times> jsval \<Rightarrow> field_map \<Rightarrow> field_map" where
  "track kv m =
     (let (key, value) = kv in
      if skipped_key key then m
      else case jmap_get m key of
             Some existing \<Rightarrow> jmap_set m key
               (existing\<lparr>tk_seen := tk_seen existing + 1,
                         tk_example := (if tk_example existing = JNull \<and> value \<noteq> JNull then value
                                        else tk_example existing)\<rparr>)
           | None \<Rightarrow> jmap_set m key \<lparr>tk_example = value, tk_seen = 1, tk_type = inferJSONType value\<rparr>)"

text \<open>The order in which the keys of an object are enumerated.\<close>

definition array_index :: "string \<Rightarrow> nat option" where
  "array_index s = (let n = read_decimal s in if show_nat n = s \<and> n < 2 ^ 32 - 1 then Some n else None)"

definition own_order :: "(string \<times> 'a) list \<Rightarrow> (string \<times> 'a) list" where
  "own_order kvs = sort_key (\<lambda>kv. the (array_index (fst kv))) (filter (\<lambda>kv. array_index (fst kv) \<noteq> None) kvs)
     @ filter (\<lambda>kv. array_index (fst kv) = None) kvs"

lemma decimal_digits: "list_all (\<lambda>c. 48 \<le> (of_char c :: nat) \<and> of_char c < (58 :: nat)) (show_nat n)"
  by (induction n rule: show_nat.induct) (simp add: show_nat.simps)

lemma named_key: "\<not> list_all (\<lambda>c. 48 \<le> (of_char c :: nat) \<and> of_char c < (58 :: nat)) s \<Longrightarrow> array_index s = None"
  using decimal_digits [of "read_decimal s"] by (auto simp: array_index_def Let_def)

lemma set_own_order [simp]: "set (own_order kvs) = set kvs"
  by (auto simp: own_order_def)

lemma distinct_own_order [simp]: "distinct (map fst (own_order kvs)) = distinct (map fst kvs)"
proof -
  have "mset (own_order kvs) = mset kvs"
    unfolding own_order_def by (simp flip: multiset_partition)
  then have "mset (map fst (own_order kvs)) = mset (map fst kvs)" by simp
  then show ?thesis by (rule mset_eq_imp_distinct_iff)
qed

lemma own_order_named: "list_all (\<lambda>kv. array_index (fst kv) = None) kvs \<Longrightarrow> own_order kvs = kvs"
  by (simp add: own_order_def list_all_iff filter_id_conv filter_empty_conv)

lemma own_order_single [simp]: "own_order [] = []" "own_order [kv] = [kv]"
  by (simp_all add: own_order_def)

lemma map_of_own_order: "distinct (map fst kvs) \<Longrightarrow> map_of (own_order kvs) = map_of kvs"
proof
  fix k
  assume d: "distinct (map fst kvs)"
  then have "map_of (own_order kvs) k = Some v \<longleftrightarrow> map_of kvs k = Some v" for v
    by (simp add: map_of_eq_Some_iff)
  then show "map_of (own_order kvs) k = map_of kvs k"
    by (metis not_None_eq)
qed

text \<open>\<open>Object.entries\<close>: an array and a text have their positions as keys.\<close>

fun entries :: "jsval \<Rightarrow> (string \<times> jsval) list" where
  "entries (JObj kvs) = own_order kvs"
| "entries (JArr vs) = map (\<lambda>(i, v). (show_nat i, v)) (enumerate 0 vs)"
| "entries (JStr s) = map (\<lambda>(i, c). (show_nat i, JStr [c])) (enumerate 0 s)"
| "entries _ = []"

definition track_doc :: "jsval \<Rightarrow> field_map \<Rightarrow> field_map" where
  "track_doc doc m = fold track (entries doc) m"

record detected_field =
  df_name :: string
  df_inferredType :: json_type
  df_exampleValue :: jsval
  df_frequency :: rat
  df_sampleCount :: nat
  df_suggested :: "antfly_type list"

definition detected :: "nat \<Rightarrow> string \<times> tracked \<Rightarrow> detected_field" where
  "detected n = (\<lambda>(name, f).
     \<lparr>df_name = name, df_inferredType = tk_type f, df_exampleValue = tk_example f,
      df_frequency = of_nat (tk_seen f) / of_nat n, df_sampleCount = n,
      df_suggested = getDefaultAntflyType (tk_type f) (tk_example f)\<rparr>)"

definition by_count :: "field_map \<Rightarrow> field_map" where
  "by_count m = sort_key (\<lambda>(name, f). - int (tk_seen f)) m"

definition fields_of_docs :: "jsval list \<Rightarrow> detected_field list" where
  "fields_of_docs docs = map (detected (length docs)) (by_count (fold track_doc docs []))"

text \<open>Grouping by type name, in the order the types are first met.\<close>

definition add_to_group :: "('a \<Rightarrow> 'k) \<Rightarrow> 'a \<Rightarrow> ('k, 'a list) jmap \<Rightarrow> ('k, 'a list) jmap" where
  "add_to_group key x m =
     jmap_set m (key x) ((case jmap_get m (key x) of Some g \<Rightarrow> g | None \<Rightarrow> []) @ [x])"

definition group_by :: "('a \<Rightarrow> 'k) \<Rightarrow> 'a list \<Rightarrow> ('k, 'a list) jmap" where
  "group_by key xs = fold (add_to_group key) xs []"

section \<open>Detection over the documents of a table\<close>

definition hit_type :: "jsval \<Rightarrow> jsval" where
  "hit_type hit = js_or (fld (fld hit ''_source'') ''_type'') (JStr ''default'')"

record detection_group =
  dg_typeName :: jsval
  dg_fields :: "detected_field list"
  dg_docCount :: nat

record detection =
  dt_error :: "string option"
  dt_fields :: "detected_field list"
  dt_groups :: "detection_group list"
  dt_sampleCount :: nat
  dt_detecting :: bool

definition hit_sources :: "jsval list \<Rightarrow> jsval list" where
  "hit_sources hits = map (\<lambda>hit. fld hit ''_source'') hits"

text \<open>
  The result and the state after \<open>detect\<close> of a table, given what the query came back with; without a
  table name nothing happens. The combined list counts the groups one after the other.
\<close>

definition detect :: "string option \<Rightarrow> jsval res \<Rightarrow> detection \<Rightarrow> detected_field list \<times> detection" where
  "detect tableName queried st =
     (if tableName = None \<or> tableName = Some [] then ([], st)
      else (let st = st\<lparr>dt_error := None, dt_fields := [], dt_groups := [], dt_detecting := False\<rparr> in
        case queried of
          Inl e \<Rightarrow> ([], st\<lparr>dt_error := Some (case e of ErrorObj _ m \<Rightarrow> m | NonError _ \<Rightarrow> ''Failed to detect fields'')\<rparr>)
        | Inr response \<Rightarrow>
            (let hits = (case fld (fld (elem_at (fld response ''responses'') 0) ''hits'') ''hits'' of
                           JArr hs \<Rightarrow> hs | _ \<Rightarrow> [])
             in if hits = [] then ([], st\<lparr>dt_error := Some ''No documents found in table''\<rparr>)
                else (let typeGroups = group_by hit_type hits;
                          groups = map (\<lambda>(typeName, typeHits).
                            \<lparr>dg_typeName = typeName, dg_fields = fields_of_docs (hit_sources typeHits),
                             dg_docCount = length typeHits\<rparr>) typeGroups;
                          sorted = map (detected (length hits))
                            (by_count (fold track_doc (hit_sources (concat (map snd typeGroups))) []))
                      in (sorted, st\<lparr>dt_fields := sorted, dt_groups := groups, dt_sampleCount := length hits\<rparr>)))))"

section \<open>Documents from pasted text\<close>

definition plain_object :: "jsval \<Rightarrow> bool" where
  "plain_object v \<longleftrightarrow> typeof_object v \<and> v \<noteq> JNull"

fun parse_all :: "(string \<Rightarrow> jsval option) \<Rightarrow> string list \<Rightarrow> jsval list \<times> bool" where
  "parse_all json_parse [] = ([], True)"
| "parse_all json_parse (t # ts) =
     (case json_parse t of
        None \<Rightarrow> ([], False)
      | Some v \<Rightarrow> (let (docs, ok) = parse_all json_parse ts
                   in (if plain_object v \<and> \<not> is_array v then v # docs else docs, ok)))"

text \<open>
  The first phase of \<open>handleDetectFromJson\<close>: line by line, then as one text; \<open>None\<close> where it gives up.
  Documents of lines before a bad one stay collected.
\<close>

definition pasted_docs :: "(string \<Rightarrow> jsval option) \<Rightarrow> string \<Rightarrow> jsval list option" where
  "pasted_docs json_parse jsonString =
     (if trim jsonString = [] then None
      else (let lines = split_on newline (trim jsonString);
                (docs, isJsonl) = (if length lines > 1 then parse_all json_parse (map trim lines) else ([], False))
            in if isJsonl then (if docs = [] then None else Some docs)
               else (case json_parse jsonString of
                       None \<Rightarrow> None
                     | Some parsed \<Rightarrow>
                         (let docs = docs @ (case parsed of JArr items \<Rightarrow> filter plain_object items
                                             | _ \<Rightarrow> if plain_object parsed then [parsed] else [])
                          in if docs = [] then None else Some docs))))"

definition doc_type :: "jsval \<Rightarrow> string" where
  "doc_type doc = (case fld doc ''_type'' of JStr s \<Rightarrow> s | _ \<Rightarrow> ''default'')"

text \<open>The fields proposed for each type of the pasted documents.\<close>

definition pasted_groups :: "(string \<Rightarrow> jsval option) \<Rightarrow> string \<Rightarrow> (string \<times> detected_field list) list" where
  "pasted_groups json_parse jsonString =
     (case pasted_docs json_parse jsonString of
        None \<Rightarrow> []
      | Some docs \<Rightarrow> map (\<lambda>(typeName, typeDocs). (typeName, fields_of_docs typeDocs)) (group_by doc_type docs))"

section \<open>Groups\<close>

lemma group_by_snoc: "group_by key (xs @ [x]) = add_to_group key x (group_by key xs)"
  by (simp add: group_by_def)

lemma group_by_get:
  "jmap_get (group_by key xs) k = (let g = filter (\<lambda>x. key x = k) xs in if g = [] then None else Some g)"
proof (induction xs rule: rev_induct)
  case Nil
  show ?case by (simp add: group_by_def)
next
  case (snoc x xs)
  then show ?case
    by (auto simp: group_by_snoc add_to_group_def Let_def)
qed

lemma group_by_ok: "jmap_ok (group_by key xs)"
  by (induction xs rule: rev_induct) (auto simp: group_by_snoc add_to_group_def, simp add: group_by_def)

lemma group_by_mem:
  "(k, g) \<in> set (group_by key xs) \<Longrightarrow> g = filter (\<lambda>x. key x = k) xs \<and> g \<noteq> []"
  using group_by_get [of key xs k] jmap_get_iff [OF group_by_ok, of key xs k g]
  by (auto simp: Let_def split: if_splits)

lemma group_by_covers: "x \<in> set xs \<Longrightarrow> \<exists>g. (key x, g) \<in> set (group_by key xs) \<and> x \<in> set g"
proof -
  assume "x \<in> set xs"
  then have "x \<in> set (filter (\<lambda>y. key y = key x) xs)" by simp
  then have "jmap_get (group_by key xs) (key x) = Some (filter (\<lambda>y. key y = key x) xs)"
    by (auto simp: group_by_get Let_def filter_empty_conv)
  with \<open>x \<in> set xs\<close> show ?thesis
    unfolding jmap_get_iff [OF group_by_ok] by (intro exI [of _ "filter (\<lambda>y. key y = key x) xs"]) simp
qed

section \<open>Counting\<close>

definition seen :: "field_map \<Rightarrow> string \<Rightarrow> nat" where
  "seen m k = (case jmap_get m k of None \<Rightarrow> 0 | Some f \<Rightarrow> tk_seen f)"

definition map_ok :: "field_map \<Rightarrow> bool" where
  "map_ok m \<longleftrightarrow> jmap_ok m \<and> (\<forall>k f. jmap_get m k = Some f \<longrightarrow> tk_seen f > 0 \<and> \<not> skipped_key k)"

lemma track_keeps: "map_ok m \<Longrightarrow> map_ok (track kv m)"
  by (auto simp: map_ok_def track_def Let_def split: prod.splits option.splits if_splits)

lemma seen_track: "seen (track (k', v) m) k = seen m k + (if k = k' \<and> \<not> skipped_key k then 1 else 0)"
  by (auto simp: seen_def track_def Let_def split: option.splits)

lemma seen_tracks:
  "seen (fold track kvs m) k = seen m k + (if skipped_key k then 0 else length (filter (\<lambda>kv. fst kv = k) kvs))"
  by (induction kvs arbitrary: m) (auto simp: seen_track)

text \<open>An object has a key once.\<close>

definition object_ok :: "jsval \<Rightarrow> bool" where
  "object_ok v \<longleftrightarrow> distinct (map fst (entries v))"

lemma once: "distinct (map fst kvs) \<Longrightarrow> length (filter (\<lambda>kv. fst kv = k) kvs) = (if k \<in> fst ` set kvs then 1 else 0)"
  by (induction kvs) (force simp: filter_empty_conv)+

definition has_entry :: "jsval \<Rightarrow> string \<Rightarrow> bool" where
  "has_entry v k \<longleftrightarrow> k \<in> fst ` set (entries v)"

lemma has_entry_object: "has_entry (JObj kvs) k \<longleftrightarrow> has_key (JObj kvs) k"
  by (simp add: has_entry_def)

lemma seen_doc:
  "object_ok doc \<Longrightarrow> seen (track_doc doc m) k = seen m k + (if has_entry doc k \<and> \<not> skipped_key k then 1 else 0)"
  by (simp add: track_doc_def seen_tracks object_ok_def once has_entry_def)

lemma seen_docs:
  "list_all object_ok docs \<Longrightarrow>
     seen (fold track_doc docs m) k = seen m k + (if skipped_key k then 0 else length (filter (\<lambda>d. has_entry d k) docs))"
  by (induction docs arbitrary: m) (auto simp: seen_doc)

lemma map_ok_Nil: "map_ok []"
  by (simp add: map_ok_def)

lemma map_ok_docs: "map_ok (fold track_doc docs [])"
  by (rule fold_invariant [where I = map_ok, OF map_ok_Nil])
     (simp add: track_doc_def, erule fold_invariant [where I = map_ok], rule track_keeps)

lemma seen_iff: "map_ok m \<Longrightarrow> (\<exists>f. (k, f) \<in> set m) \<longleftrightarrow> seen m k > 0"
  using jmap_get_iff [of m k] by (auto simp: map_ok_def seen_def split: option.splits)

lemma tracked_seen: "map_ok m \<Longrightarrow> (k, f) \<in> set m \<Longrightarrow> tk_seen f = seen m k"
  using jmap_get_iff [of m k f] by (auto simp: map_ok_def seen_def)

lemma by_count_set [simp]: "set (by_count m) = set m"
  by (simp add: by_count_def)

lemma distinct_by_count: "jmap_ok m \<Longrightarrow> distinct (map fst (by_count m))"
  by (simp add: jmap_ok_def distinct_map by_count_def)

lemma seen_all:
  "list_all object_ok docs \<Longrightarrow>
     seen (fold track_doc docs []) k = (if skipped_key k then 0 else length (filter (\<lambda>d. has_entry d k) docs))"
  using seen_docs [of docs "[]" k] by (simp add: seen_def [of "[]"])

lemma fields_names: "map df_name (fields_of_docs docs) = map fst (by_count (fold track_doc docs []))"
  by (simp add: fields_of_docs_def detected_def split_def o_def)

lemma detection_names:
  assumes "list_all object_ok docs"
  shows "set (map df_name (fields_of_docs docs)) = {k. \<not> skipped_key k \<and> (\<exists>d \<in> set docs. has_entry d k)}"
proof -
  have "set (map df_name (fields_of_docs docs)) = {k. seen (fold track_doc docs []) k > 0}"
    using seen_iff [OF map_ok_docs] unfolding fields_names by force
  also have "\<dots> = {k. \<not> skipped_key k \<and> (\<exists>d \<in> set docs. has_entry d k)}"
    by (auto simp: seen_all [OF assms] filter_empty_conv)
  finally show ?thesis .
qed

lemma detection_sorted: "sorted_wrt (\<ge>) (map df_frequency (fields_of_docs docs))"
proof -
  let ?m = "fold track_doc docs []"
  have "sorted_wrt (\<lambda>p q. tk_seen (snd q) \<le> tk_seen (snd p)) (by_count ?m)"
    using sorted_sort_key [of "\<lambda>(name, f). - int (tk_seen f)" ?m]
    by (simp add: by_count_def sorted_map split_def)
  then show ?thesis
    by (auto simp: fields_of_docs_def sorted_wrt_map detected_def split_def divide_right_mono
        elim!: sorted_wrt_mono_rel [rotated])
qed

lemma tracked_count:
  assumes "list_all object_ok docs" "(k, f) \<in> set (fold track_doc docs [])"
  shows "tk_seen f = length (filter (\<lambda>d. has_entry d k) docs)" "0 < tk_seen f"
  using tracked_seen [OF map_ok_docs assms(2)] seen_iff [OF map_ok_docs, of k docs] assms(2)
    seen_all [OF assms(1), of k]
  by (auto split: if_splits)

lemma detection_frequency:
  assumes "list_all object_ok docs" "f \<in> set (fields_of_docs docs)"
  shows "df_sampleCount f = length docs"
    "df_frequency f = of_nat (length (filter (\<lambda>d. has_entry d (df_name f)) docs)) / of_nat (length docs)"
    "0 < df_frequency f" "df_frequency f \<le> 1"
proof -
  obtain k t where kt: "(k, t) \<in> set (fold track_doc docs [])" "f = detected (length docs) (k, t)"
    using assms(2) by (auto simp: fields_of_docs_def)
  note count = tracked_count [OF assms(1) kt(1)]
  have le: "tk_seen t \<le> length docs" by (simp add: count(1))
  with count(2) have "0 < length docs" by linarith
  then have "0 < rat_of_nat (tk_seen t) / rat_of_nat (length docs)"
    using count(2) by simp
  with le count show "df_sampleCount f = length docs"
    "df_frequency f = of_nat (length (filter (\<lambda>d. has_entry d (df_name f)) docs)) / of_nat (length docs)"
    "0 < df_frequency f" "df_frequency f \<le> 1"
    by (auto simp: kt(2) detected_def divide_le_eq_1)
qed

text \<open>C28. What a detection reports of a field: over documents that have each key at most once, as every object
  of JavaScript does, the proposed names are those that occur and do not start with an underscore, each once and by falling
  count, and the frequency of a name is the share of the documents that have it.\<close>

theorem detection_counts:
  assumes "list_all object_ok docs"
  shows "set (map df_name (fields_of_docs docs)) = {k. \<not> skipped_key k \<and> (\<exists>d \<in> set docs. has_entry d k)}
    \<and> distinct (map df_name (fields_of_docs docs))
    \<and> sorted_wrt (\<ge>) (map df_frequency (fields_of_docs docs))
    \<and> list_all (\<lambda>f. df_sampleCount f = length docs \<and>
          df_frequency f = of_nat (length (filter (\<lambda>d. has_entry d (df_name f)) docs)) / of_nat (length docs)
          \<and> 0 < df_frequency f \<and> df_frequency f \<le> 1) (fields_of_docs docs)"
  using detection_names [OF assms] distinct_by_count [of "fold track_doc docs []"] map_ok_docs [of docs]
    detection_sorted [of docs] detection_frequency [OF assms]
  by (simp add: fields_names map_ok_def list_all_iff)

theorem detection_counts_witness:
  "set (map df_name (fields_of_docs [JObj [(''a'', JNum 1), (''_id'', JNull)], JObj [(''b'', JNull), (''a'', JNull)]]))
     = {k. \<not> skipped_key k \<and> (k = ''a'' \<or> k = ''_id'' \<or> k = ''b'')}"
  using detection_counts [of "[JObj [(''a'', JNum 1), (''_id'', JNull)], JObj [(''b'', JNull), (''a'', JNull)]]"]
  by (auto simp: object_ok_def has_entry_object)

text \<open>Detection looks at every document: the groups of a table are one per type, each with all
  documents of that type in their order, and no document is left out.\<close>

theorem detection_groups_partition:
  "jmap_ok (group_by hit_type hits)
   \<and> (\<forall>k g. (k, g) \<in> set (group_by hit_type hits) \<longrightarrow> g = filter (\<lambda>h. hit_type h = k) hits \<and> g \<noteq> [])
   \<and> (\<forall>h \<in> set hits. \<exists>g. (hit_type h, g) \<in> set (group_by hit_type hits) \<and> h \<in> set g)"
  using group_by_ok [of hit_type hits] group_by_mem [of _ _ hit_type hits] group_by_covers [of _ hits hit_type]
  by blast

theorem detection_groups_partition_witness:
  "jmap_ok (group_by hit_type [JNull])"
  using detection_groups_partition [of "[JNull]"] by blast

section \<open>Where the rules miss their purpose\<close>

text \<open>A leading null hides the type: an example that is null is replaced by the next value, but the
  type inferred from the null stays, so a field of numbers is proposed as text.\<close>

theorem null_first_hides_type:
  assumes "\<not> skipped_key k"
  shows "fields_of_docs [JObj [(k, JNull)], JObj [(k, JNum r)]] =
     [\<lparr>df_name = k, df_inferredType = TString, df_exampleValue = JNum r, df_frequency = 1,
       df_sampleCount = 2, df_suggested = [AText]\<rparr>]"
  using assms
  by (simp add: fields_of_docs_def track_doc_def track_def jmap_set_def jmap_get_def by_count_def detected_def
      getDefaultAntflyType_def)

theorem null_first_hides_type_witness:
  "fields_of_docs [JObj [(''n'', JNull)], JObj [(''n'', JNum 3)]] =
     [\<lparr>df_name = ''n'', df_inferredType = TString, df_exampleValue = JNum 3, df_frequency = 1,
       df_sampleCount = 2, df_suggested = [AText]\<rparr>]"
  by (rule null_first_hides_type) (simp add: skipped_key_def starts_with_def reserved_field_names_def)

text \<open>A blank line between two documents: lines that hold one document each are read, but a blank
  line among them makes the whole text unreadable and nothing is proposed.\<close>

theorem blank_line_rejected:
  assumes "split_on newline (trim t) = ls @ l # ms" "ls @ ms \<noteq> []" "trim l = []"
    and "json_parse [] = None" "json_parse t = None"
  shows "pasted_groups json_parse t = []"
proof -
  have "\<not> snd (parse_all json_parse (map trim (ls @ l # ms)))"
    using assms(3,4) by (induction ls) (auto simp: split_def Let_def split: option.split)
  moreover have "1 < length (ls @ l # ms)"
    using assms(2) by (cases ls; cases ms) auto
  ultimately show ?thesis
    using assms(1,5) by (simp add: pasted_groups_def pasted_docs_def split_def Let_def)
qed

theorem blank_line_rejected_witness:
  "pasted_groups (\<lambda>t. if t = ''{}'' then Some (JObj []) else None) (''{}'' @ [newline, newline] @ ''{}'') = []"
  by (rule blank_line_rejected [of _ "[''{}'']" "[]" "[''{}'']"])
     (simp_all add: trim_def is_ws_def)

text \<open>The names a field is searched under: the plain name for a text or search-as-you-type field
  and for one without a type, the keyword name for a field with another type beside keyword, the
  2-gram name for a search-as-you-type field; no name twice. A field that is a keyword and nothing
  else is searched under no name.\<close>

theorem searchable_names:
  "let names = map sf_searchField (generateSearchableFields f ts as) in
   distinct names
   \<and> (f \<in> set names \<longleftrightarrow> AText \<in> set as \<or> ASearchAsYouType \<in> set as \<or> as = [])
   \<and> (f @ ''__keyword'' \<in> set names \<longleftrightarrow> AKeyword \<in> set as \<and> length as > 1)
   \<and> (f @ ''__2gram'' \<in> set names \<longleftrightarrow> ASearchAsYouType \<in> set as)
   \<and> generateSearchableFields f ts [AKeyword] = []"
  by (cases "AText \<in> set as"; cases "ASearchAsYouType \<in> set as"; cases "AKeyword \<in> set as"; cases "length as > 1")
     (simp_all add: generateSearchableFields_def Let_def, auto)

theorem searchable_names_witness:
  "generateSearchableFields ''a'' [] [AKeyword] = []"
  using searchable_names [of "''a''" "[]" "[]"] by (simp add: Let_def)

end
