(* ===== verification/SchemaForm.thy ===== *)
theory SchemaForm
  imports SchemaDetect
begin

text \<open>
  The forms of the dashboard that edit a table's schema and write documents by it
  (ts/apps/antfarm/src/components/schema-builder/DocumentSchemasForm.tsx and TableSchemaForm.tsx,
  components/DocumentBuilder.tsx): from a schema to the form's fields, from the fields to the schema
  that is sent, the switch between the form and the JSON view, and the default values of a document.
  The form library is not modelled: it hands the fields back as they are, without the keys its
  declared shape does not have. Every document schema carries its \<open>schema\<close> object, as its type says.
\<close>

section \<open>Schema and fields\<close>

record form_property =
  fp_name :: string
  fp_type :: jsval
  fp_description :: jsval
  fp_index :: jsval
  fp_types :: jsval

record document_form =
  do_name :: string
  do_includeInAll :: jsval
  do_properties :: "form_property list"

record schema_form =
  sc_default_type :: jsval
  sc_documents :: "document_form list"

text \<open>\<open>Object.entries\<close> of a field that holds an object.\<close>

fun pairs :: "jsval \<Rightarrow> (string \<times> jsval) list" where
  "pairs (JObj kvs) = own_order kvs"
| "pairs _ = []"

definition property_field :: "string \<times> jsval \<Rightarrow> form_property" where
  "property_field = (\<lambda>(propName, prop).
     \<lparr>fp_name = propName, fp_type = fld prop ''type'', fp_description = fld prop ''description'',
      fp_index = fld prop ''x-antfly-index'', fp_types = fld prop ''x-antfly-types''\<rparr>)"

definition document_fields :: "string \<times> jsval \<Rightarrow> document_form" where
  "document_fields = (\<lambda>(schemaName, schemaDetails).
     \<lparr>do_name = schemaName,
      do_includeInAll = js_or (fld (fld schemaDetails ''schema'') ''x-antfly-include-in-all'') (JArr []),
      do_properties = map property_field
        (pairs (js_or (fld (fld schemaDetails ''schema'') ''properties'') (JObj [])))\<rparr>)"

text \<open>The default values of the form, for an absent or \<open>null\<close> initial schema too.\<close>

definition default_values :: "jsval \<Rightarrow> schema_form" where
  "default_values initialSchema =
     \<lparr>sc_default_type = js_or (fld initialSchema ''default_type'') (JStr []),
      sc_documents = (if truthy initialSchema
        then map document_fields (pairs (js_or (fld initialSchema ''document_schemas'') (JObj []))) else [])\<rparr>"

section \<open>Fields and schema\<close>

definition property_value :: "form_property \<Rightarrow> jsval" where
  "property_value p = JObj [(''type'', fp_type p), (''description'', fp_description p),
     (''x-antfly-index'', fp_index p), (''x-antfly-types'', fp_types p)]"

definition include_list :: "jsval \<Rightarrow> jsval list" where
  "include_list v = (case v of JArr vs \<Rightarrow> filter is_string vs | _ \<Rightarrow> [])"

definition document_value :: "(string \<Rightarrow> bool) \<Rightarrow> document_form \<Rightarrow> jsval" where
  "document_value kept d =
     (let props = fold (\<lambda>p acc. if kept (fp_name p) then obj_put (fp_name p) (property_value p) acc else acc)
                    (do_properties d) [];
          includeInAll = include_list (do_includeInAll d)
      in JObj [(''schema'', JObj ([(''type'', JStr ''object''), (''properties'', JObj props)]
           @ (if includeInAll \<noteq> [] then [(''x-antfly-include-in-all'', JArr includeInAll)] else [])))])"

definition formatted_schema :: "(string \<Rightarrow> bool) \<Rightarrow> schema_form \<Rightarrow> jsval" where
  "formatted_schema kept data =
     JObj [(''default_type'', sc_default_type data),
           (''document_schemas'', JObj (fold (\<lambda>d acc.
              if kept (do_name d) then obj_put (do_name d) (document_value kept d) acc else acc)
              (sc_documents data) []))]"

text \<open>The JSON payload that follows the form while it is edited, which skips what has no name yet.\<close>

definition watch_payload :: "schema_form \<Rightarrow> jsval" where
  "watch_payload data = formatted_schema (\<lambda>n. n \<noteq> []) data"

datatype view_mode = FormView | JsonView

definition handleFormSubmit :: "view_mode \<Rightarrow> jsval \<Rightarrow> schema_form \<Rightarrow> jsval" where
  "handleFormSubmit viewMode jsonPayload data =
     (case viewMode of JsonView \<Rightarrow> jsonPayload | FormView \<Rightarrow> formatted_schema (\<lambda>n. True) data)"

text \<open>The form after the switch was used; \<open>reset\<close> replaces its values.\<close>

definition handleViewChange :: "bool \<Rightarrow> jsval \<Rightarrow> schema_form \<Rightarrow> view_mode \<times> schema_form" where
  "handleViewChange checked jsonPayload data =
     (if checked then (JsonView, data)
      else (FormView,
            if truthy jsonPayload
            then \<lparr>sc_default_type = js_or (fld jsonPayload ''default_type'') (JStr []),
                  sc_documents = map document_fields (pairs (js_or (fld jsonPayload ''document_schemas'') (JObj [])))\<rparr>
            else data))"

section \<open>The table form\<close>

definition formatted_index :: "(string \<times> jsval) list \<Rightarrow> (string \<times> jsval) list" where
  "formatted_index index =
     (let rest = AList.delete ''sourceType'' index
      in if map_of index ''sourceType'' = Some (JStr ''field'') then obj_put ''template'' JUndef rest
         else obj_put ''field'' JUndef rest)"

record table_form =
  tf_name :: string
  tf_num_shards :: rat
  tf_indexes :: "(string \<times> jsval) list list"

definition table_payload :: "table_form \<Rightarrow> jsval \<Rightarrow> jsval" where
  "table_payload data schema =
     JObj [(''name'', JStr (tf_name data)), (''schema'', schema), (''num_shards'', JNum (tf_num_shards data)),
           (''indexes'', JArr (map (\<lambda>i. JObj (formatted_index i)) (tf_indexes data)))]"

text \<open>
  The state of the table form: the schema of the embedded form and the payload of the JSON view. The
  payload follows the embedded form, and falls back to one shard.
\<close>

record table_form_state =
  tb_currentSchema :: jsval
  tb_jsonPayload :: jsval

definition handleSchemaChange :: "table_form \<Rightarrow> jsval \<Rightarrow> table_form_state \<Rightarrow> table_form_state" where
  "handleSchemaChange formData schema st =
     st\<lparr>tb_currentSchema := schema,
        tb_jsonPayload := table_payload
          (formData\<lparr>tf_num_shards := (if tf_num_shards formData \<noteq> 0 then tf_num_shards formData else 1)\<rparr>) schema\<rparr>"

definition table_submit :: "view_mode \<Rightarrow> table_form \<Rightarrow> table_form_state \<Rightarrow> jsval" where
  "table_submit viewMode data st =
     (case viewMode of JsonView \<Rightarrow> tb_jsonPayload st | FormView \<Rightarrow> table_payload data (tb_currentSchema st))"

text \<open>The checks beyond the shape of the fields: the messages for an index.\<close>

definition index_issues :: "(string \<times> jsval) list \<Rightarrow> string list" where
  "index_issues index =
     (if map_of index ''type'' = Some (JStr ''embeddings'')
      then (if \<not> truthy (fld (JObj index) ''sourceType'') then [''Source type is required for vector indexes.''] else [])
         @ (if \<not> truthy (fld (JObj index) ''embedder'') then [''Embedder config is required for vector indexes.''] else [])
      else [])"

section \<open>Documents by a schema\<close>

datatype property_type = PString | PNumber | PInteger | PBoolean | PArray | PObject | POther string

datatype property =
  Property (p_type: property_type) (p_properties: "(string \<times> property) list option") (p_items: "property option")

fun generateDefaultValue :: "property \<Rightarrow> jsval" where
  "generateDefaultValue (Property t ps it) =
     (case t of
        PString \<Rightarrow> JStr []
      | PNumber \<Rightarrow> JNum 0
      | PInteger \<Rightarrow> JNum 0
      | PBoolean \<Rightarrow> JBool False
      | PArray \<Rightarrow> JArr []
      | PObject \<Rightarrow> (case ps of None \<Rightarrow> JObj [] | Some kps \<Rightarrow> JObj (map (\<lambda>(k, p). (k, generateDefaultValue p)) kps))
      | POther _ \<Rightarrow> JStr [])"

record document_schema =
  ds_properties :: "(string \<times> property) list option"

record builder_schema =
  bs_default_type :: "string option"
  bs_documents :: "(string \<times> document_schema) list option"

record builder =
  bd_values :: "(string \<times> jsval) list"
  bd_type :: string
  bd_id :: string
  bd_loading :: bool
  bd_error :: "string option"
  bd_success :: "string option"

definition schema_of :: "builder_schema \<Rightarrow> string \<Rightarrow> document_schema option" where
  "schema_of schema t = Option.bind (bs_documents schema) (\<lambda>ds. map_of ds t)"

definition defaults_of :: "(string \<times> property) list \<Rightarrow> (string \<times> jsval) list" where
  "defaults_of properties = map (\<lambda>(k, p). (k, generateDefaultValue p)) properties"

text \<open>The effects: new defaults when the type changes, the default type when the schema changes.\<close>

definition type_effect :: "builder_schema option \<Rightarrow> builder \<Rightarrow> builder" where
  "type_effect schema b =
     (if bd_type b = [] then b
      else case Option.bind (Option.bind schema (\<lambda>s. schema_of s (bd_type b))) ds_properties of
             None \<Rightarrow> b
           | Some properties \<Rightarrow> b\<lparr>bd_values := defaults_of properties, bd_id := []\<rparr>)"

definition schema_effect :: "builder_schema option \<Rightarrow> builder \<Rightarrow> builder" where
  "schema_effect schema b =
     (case schema of
        None \<Rightarrow> b
      | Some s \<Rightarrow>
          (case bs_default_type s of
             None \<Rightarrow> b
           | Some t \<Rightarrow> if t \<noteq> [] \<and> schema_of s t \<noteq> None then b\<lparr>bd_type := t\<rparr> else b))"

definition updateValue :: "string \<Rightarrow> jsval \<Rightarrow> builder \<Rightarrow> builder" where
  "updateValue fieldName newValue b = b\<lparr>bd_values := obj_put fieldName newValue (bd_values b)\<rparr>"

text \<open>
  \<open>handleSubmitSingleDocument\<close>: the request it sends, if any, and the state afterwards; \<open>batch\<close> is
  the SDK's batch operation on the table.
\<close>

definition batch_request :: "builder \<Rightarrow> jsval" where
  "batch_request b = JObj [(''inserts'', JObj [(bd_id b, JObj (bd_values b))])]"

definition insert_failed :: "string \<Rightarrow> builder \<Rightarrow> builder" where
  "insert_failed m b = b\<lparr>bd_loading := False, bd_success := None, bd_error := Some (''Failed to insert document: '' @ m)\<rparr>"

definition handleSubmitSingleDocument ::
    "(string \<Rightarrow> jsval \<Rightarrow> jsval res) \<Rightarrow> string \<Rightarrow> builder_schema option \<Rightarrow> builder \<Rightarrow> jsval option \<times> builder" where
  "handleSubmitSingleDocument batch tableName schema b =
     (if tableName = [] \<or> bd_type b = [] \<or> schema = None
      then (None, b\<lparr>bd_error := Some ''Please select a schema type and fill in the document.''\<rparr>)
      else (case schema_of (the schema) (bd_type b) of
              None \<Rightarrow> (None, insert_failed (''Schema type \"'' @ bd_type b @ ''\" not found.'') b)
            | Some docSchema \<Rightarrow>
                if trim (bd_id b) = [] then (None, insert_failed ''Document ID is required.'' b)
                else (Some (batch_request b),
                  case batch tableName (batch_request b) of
                    Inl (ErrorObj _ m) \<Rightarrow> insert_failed m b
                  | Inl (NonError _) \<Rightarrow>
                      b\<lparr>bd_loading := False, bd_success := None, bd_error := Some ''An unknown error occurred.''\<rparr>
                  | Inr _ \<Rightarrow>
                      b\<lparr>bd_loading := False, bd_error := None, bd_success := Some ''Successfully inserted document.'',
                        bd_id := [], bd_values := (case ds_properties docSchema of
                                                     None \<Rightarrow> [] | Some ps \<Rightarrow> defaults_of ps)\<rparr>)))"

section \<open>From fields to schema and back\<close>

lemma obj_put_new: "k \<notin> fst ` set kvs \<Longrightarrow> obj_put k v kvs = kvs @ [(k, v)]"
  by (induction kvs) (auto simp: obj_put_def)

lemma fold_obj_put:
  assumes "distinct (map nm xs)" "\<forall>x \<in> set xs. kept (nm x)" "\<forall>x \<in> set xs. nm x \<notin> fst ` set acc"
  shows "fold (\<lambda>x acc. if kept (nm x) then obj_put (nm x) (f x) acc else acc) xs acc = acc @ map (\<lambda>x. (nm x, f x)) xs"
  using assms
proof (induction xs arbitrary: acc)
  case (Cons x xs)
  then have "\<forall>y \<in> set xs. nm y \<notin> fst ` set (acc @ [(nm x, f x)])"
    by (auto simp: image_iff)
  with Cons show ?case by (simp add: obj_put_new)
qed simp

lemmas fold_obj_put_Nil = fold_obj_put [where acc = "[]", simplified]

lemma property_field_value: "property_field (fp_name p, property_value p) = p"
  by (simp add: property_field_def property_value_def)

text \<open>A document of the form that is complete: it and its properties have names, those of its properties differ,
  and its include list is one of names or absent, as in a document that was added by the button or by the
  detection.\<close>

definition complete_document :: "document_form \<Rightarrow> bool" where
  "complete_document d \<longleftrightarrow> do_name d \<noteq> [] \<and> distinct (map fp_name (do_properties d))
     \<and> list_all (\<lambda>p. fp_name p \<noteq> []) (do_properties d)
     \<and> (do_includeInAll d = JUndef \<or> (\<exists>ns. do_includeInAll d = JArr (map JStr ns)))"

text \<open>A list in the order of the keys of an object.\<close>

definition key_order :: "('a \<Rightarrow> string) \<Rightarrow> 'a list \<Rightarrow> 'a list" where
  "key_order nm xs = map snd (own_order (map (\<lambda>x. (nm x, x)) xs))"

definition switched_document :: "document_form \<Rightarrow> document_form" where
  "switched_document d = d\<lparr>do_includeInAll := (if do_includeInAll d = JUndef then JArr [] else do_includeInAll d),
     do_properties := key_order fp_name (do_properties d)\<rparr>"

text \<open>No name of the form is an array index, and every document has an include list.\<close>

definition plainly_named :: "schema_form \<Rightarrow> bool" where
  "plainly_named data \<longleftrightarrow> list_all (\<lambda>d. array_index (do_name d) = None \<and> do_includeInAll d \<noteq> JUndef
     \<and> list_all (\<lambda>p. array_index (fp_name p) = None) (do_properties d)) (sc_documents data)"

lemma insort_key_map: "insort_key f (g x) (map g xs) = map g (insort_key (\<lambda>x. f (g x)) x xs)"
  by (induction xs) simp_all

lemma sort_key_map: "sort_key f (map g xs) = map g (sort_key (\<lambda>x. f (g x)) xs)"
  by (induction xs) (simp_all add: insort_key_map)

lemma own_order_map: "own_order (map (\<lambda>x. (nm x, f x)) xs) = map (\<lambda>x. (nm x, f x)) (key_order nm xs)"
  by (simp add: own_order_def key_order_def filter_map o_def sort_key_map)

lemma key_order_named: "list_all (\<lambda>x. array_index (nm x) = None) xs \<Longrightarrow> key_order nm xs = xs"
  by (simp add: key_order_def own_order_named list_all_iff o_def)

lemma include_list_strings: "include_list (JArr (map JStr ns)) = map JStr ns"
  by (simp add: include_list_def filter_id_conv)

lemma document_fields_value:
  assumes "complete_document d"
  shows "document_fields (do_name d, document_value (\<lambda>n. n \<noteq> []) d) = switched_document d"
proof -
  have "fold (\<lambda>p acc. if fp_name p \<noteq> [] then obj_put (fp_name p) (property_value p) acc else acc) (do_properties d) []
      = map (\<lambda>p. (fp_name p, property_value p)) (do_properties d)"
    using assms by (intro fold_obj_put_Nil) (auto simp: complete_document_def list_all_iff)
  then have props: "map property_field (own_order (fold (\<lambda>p acc. if fp_name p \<noteq> [] then obj_put (fp_name p) (property_value p) acc else acc)
      (do_properties d) [])) = key_order fp_name (do_properties d)"
    by (simp add: own_order_map property_field_value o_def)
  consider "do_includeInAll d = JUndef" | ns where "do_includeInAll d = JArr (map JStr ns)"
    using assms by (auto simp: complete_document_def)
  then show ?thesis
  proof cases
    case 1
    then show ?thesis
      using props by (simp add: document_fields_def document_value_def switched_document_def include_list_def js_or_def Let_def)
  next
    case (2 ns)
    then show ?thesis
      using props
      by (cases "ns = []")
         (simp_all add: document_fields_def document_value_def switched_document_def include_list_strings
            include_list_strings [of "[]", simplified] js_or_def Let_def)
  qed
qed

text \<open>C37. Switching to the JSON view and back, for a form whose documents and properties have different names, all
  given, and include lists of names, or none as in a document that was just added: the default type, the documents and their properties are as they were, but in the order of
  JavaScript's object keys, which puts names that are array indices first by their number, and an absent
  include list is an empty one; so with no such name and with every include list given, the form is the same.\<close>

theorem view_switch_restores:
  assumes "distinct (map do_name (sc_documents data))" "list_all complete_document (sc_documents data)"
    and "sc_default_type data = JStr t"
  shows "handleViewChange False (watch_payload data) (snd (handleViewChange True payload data))
      = (FormView, data\<lparr>sc_documents := map switched_document (key_order do_name (sc_documents data))\<rparr>)
    \<and> (plainly_named data \<longrightarrow>
        handleViewChange False (watch_payload data) (snd (handleViewChange True payload data)) = (FormView, data))"
proof -
  let ?ds = "sc_documents data"
  have "fold (\<lambda>d acc. if do_name d \<noteq> [] then obj_put (do_name d) (document_value (\<lambda>n. n \<noteq> []) d) acc else acc) ?ds []
      = map (\<lambda>d. (do_name d, document_value (\<lambda>n. n \<noteq> []) d)) ?ds"
    using assms by (intro fold_obj_put_Nil) (auto simp: complete_document_def list_all_iff)
  moreover have "map document_fields (map (\<lambda>d. (do_name d, document_value (\<lambda>n. n \<noteq> []) d)) (key_order do_name ?ds))
      = map switched_document (key_order do_name ?ds)"
    using assms(2) by (auto simp: list_all_iff document_fields_value key_order_def)
  ultimately have main: "handleViewChange False (watch_payload data) (snd (handleViewChange True payload data))
      = (FormView, data\<lparr>sc_documents := map switched_document (key_order do_name ?ds)\<rparr>)"
    using assms(3)
    by (cases data) (simp add: handleViewChange_def watch_payload_def formatted_schema_def js_or_def own_order_map o_def)
  have "map switched_document (key_order do_name ?ds) = ?ds" if "plainly_named data"
  proof -
    have "key_order do_name ?ds = ?ds"
      using that by (intro key_order_named) (simp add: plainly_named_def list_all_iff)
    moreover have "switched_document d = d" if "d \<in> set ?ds" for d
      using \<open>plainly_named data\<close> that key_order_named [of fp_name "do_properties d"]
      by (simp add: plainly_named_def list_all_iff switched_document_def)
    ultimately show ?thesis by (simp add: map_idI)
  qed
  then show ?thesis unfolding main by simp
qed

definition demo_form :: schema_form where
  "demo_form = \<lparr>sc_default_type = JStr ''d'', sc_documents = [\<lparr>do_name = ''d'', do_includeInAll = JArr [JStr ''a''],
     do_properties = [\<lparr>fp_name = ''a'', fp_type = JStr ''string'', fp_description = JStr [],
                       fp_index = JBool True, fp_types = JArr []\<rparr>]\<rparr>]\<rparr>"

lemma demo_names: "array_index ''d'' = None" "array_index ''a'' = None"
  by (simp_all add: named_key)

theorem view_switch_restores_witness:
  "handleViewChange False (watch_payload demo_form) (snd (handleViewChange True JNull demo_form)) = (FormView, demo_form)"
proof -
  have complete: "list_all complete_document (sc_documents demo_form)"
    by (simp add: demo_form_def complete_document_def exI [of _ "[''a'']"])
  have named: "plainly_named demo_form"
    using demo_names by (simp add: demo_form_def plainly_named_def)
  have names: "distinct (map do_name (sc_documents demo_form))" "sc_default_type demo_form = JStr ''d''"
    by (simp_all add: demo_form_def)
  show ?thesis
    by (rule view_switch_restores [OF names(1) complete names(2), THEN conjunct2, THEN mp, OF named])
qed

text \<open>The submitted schema of a form that was opened and not edited.\<close>

definition unedited_submit :: "jsval \<Rightarrow> jsval" where
  "unedited_submit s = handleFormSubmit FormView JUndef (default_values s)"

lemma document_name [simp]: "do_name (document_fields p) = fst p"
  by (simp add: document_fields_def split_def)

lemma property_name [simp]: "fp_name (property_field p) = fst p"
  by (simp add: property_field_def split_def)

lemma own_order_keys:
  "own_order [(''default_type'', x), (''document_schemas'', y)] = [(''default_type'', x), (''document_schemas'', y)]"
  "own_order [(''schema'', x)] = [(''schema'', x)]"
proof -
  have "array_index ''default_type'' = None" "array_index ''document_schemas'' = None"
    by (simp_all add: named_key)
  then show "own_order [(''default_type'', x), (''document_schemas'', y)] = [(''default_type'', x), (''document_schemas'', y)]"
    by (simp add: own_order_named)
qed simp

lemma submitted_properties:
  assumes "distinct (map fst props)" "(k, p) \<in> set props"
    and "fld (fld d ''schema'') ''properties'' = JObj props"
  shows "fld (fld (fld (document_value (\<lambda>n. True) (document_fields (n, d))) ''schema'') ''properties'') k
           = property_value (property_field (k, p))"
proof -
  have "fold (\<lambda>p acc. obj_put (fp_name p) (property_value p) acc) (map property_field (own_order props)) []
      = map (\<lambda>p. (fp_name p, property_value p)) (map property_field (own_order props))"
    using fold_obj_put_Nil [of fp_name "map property_field (own_order props)" "\<lambda>n. True" property_value] assms(1)
    by (simp add: o_def)
  moreover have "map_of (map (\<lambda>p. (fst p, property_value (property_field p))) (own_order props)) k
      = Some (property_value (property_field (k, p)))"
    using assms(1,2) by (intro map_of_is_SomeI) (auto simp: o_def intro!: image_eqI [of _ _ "(k, p)"])
  ultimately show ?thesis
    using assms(3) by (simp add: document_value_def document_fields_def js_or_def Let_def o_def)
qed

text \<open>What an unedited form sends: of a schema that is opened and sent back, every property of every
  document keeps its type, description and index settings, and nothing else: nested properties,
  items and the like are gone, and of the schema itself only the default type and the documents
  are sent.\<close>

theorem unedited_form_keeps_four_keys:
  assumes "fld s ''document_schemas'' = JObj docs" "distinct (map fst docs)" "(n, d) \<in> set docs"
    and "fld (fld d ''schema'') ''properties'' = JObj props" "distinct (map fst props)" "(k, p) \<in> set props"
  shows "fld (fld (fld (fld (fld (unedited_submit s) ''document_schemas'') n) ''schema'') ''properties'') k
           = JObj (map (\<lambda>key. (key, fld p key)) [''type'', ''description'', ''x-antfly-index'', ''x-antfly-types''])
       \<and> map fst (pairs (unedited_submit s)) = [''default_type'', ''document_schemas'']
       \<and> map fst (pairs (fld (fld (unedited_submit s) ''document_schemas'') n)) = [''schema'']"
proof -
  have "truthy s" using assms(1) by (cases s) auto
  then have docs: "sc_documents (default_values s) = map document_fields (own_order docs)"
    using assms(1) by (simp add: default_values_def js_or_def)
  have "fold (\<lambda>d acc. obj_put (do_name d) (document_value (\<lambda>n. True) d) acc) (map document_fields (own_order docs)) []
      = map (\<lambda>d. (do_name d, document_value (\<lambda>n. True) d)) (map document_fields (own_order docs))"
    using fold_obj_put_Nil [of do_name "map document_fields (own_order docs)" "\<lambda>n. True" "document_value (\<lambda>n. True)"] assms(2)
    by (simp add: o_def)
  moreover have "map_of (map (\<lambda>d. (fst d, document_value (\<lambda>n. True) (document_fields d))) (own_order docs)) n
      = Some (document_value (\<lambda>n. True) (document_fields (n, d)))"
    using assms(2,3) by (intro map_of_is_SomeI) (auto simp: o_def intro!: image_eqI [of _ _ "(n, d)"])
  ultimately have sent: "fld (fld (unedited_submit s) ''document_schemas'') n
      = document_value (\<lambda>n. True) (document_fields (n, d))"
    using assms(2)
    by (simp add: unedited_submit_def handleFormSubmit_def formatted_schema_def docs o_def)
  have "map fst (pairs (unedited_submit s)) = [''default_type'', ''document_schemas'']"
    by (simp add: unedited_submit_def handleFormSubmit_def formatted_schema_def own_order_keys)
  moreover have "map fst (pairs (document_value (\<lambda>n. True) (document_fields (n, d)))) = [''schema'']"
    by (simp add: document_value_def Let_def own_order_keys)
  ultimately show ?thesis
    unfolding sent using submitted_properties [OF assms(5,6,4), of n]
    by (simp add: property_value_def property_field_def)
qed

definition nested_schema :: jsval where
  "nested_schema = JObj [(''enforce_types'', JBool True), (''document_schemas'', JObj [(''d'', JObj [(''schema'',
     JObj [(''properties'', JObj [(''a'', JObj [(''type'', JStr ''object''),
        (''properties'', JObj [(''b'', JObj [(''type'', JStr ''string'')])])])])])])])]"

theorem unedited_form_keeps_four_keys_witness:
  "fld (fld (fld (fld (fld (fld (unedited_submit nested_schema) ''document_schemas'') ''d'') ''schema'')
     ''properties'') ''a'') ''properties'' = JUndef \<and> fld (unedited_submit nested_schema) ''enforce_types'' = JUndef"
proof -
  define p where "p = JObj [(''type'', JStr ''object''), (''properties'', JObj [(''b'', JObj [(''type'', JStr ''string'')])])]"
  define props where "props = [(''a'', p)]"
  define d where "d = JObj [(''schema'', JObj [(''properties'', JObj props)])]"
  have facts: "fld nested_schema ''document_schemas'' = JObj [(''d'', d)]" "fld (fld d ''schema'') ''properties'' = JObj props"
    by (simp_all add: nested_schema_def d_def props_def p_def)
  have ks: "fld v k = JUndef" if "map fst (pairs v) = ks" "k \<notin> set ks" for v k ks
    using that by (cases v) (auto simp: map_of_eq_None_iff [THEN iffD2])
  note all = unedited_form_keeps_four_keys [OF facts(1) _ _ facts(2), of "''d''" "''a''" p]
  show ?thesis
    using all ks [of "unedited_submit nested_schema" _ "''enforce_types''"]
    by (simp add: props_def)
qed

section \<open>Documents and their schema\<close>

text \<open>A value of a property's type; an object has the declared properties, each of its type.\<close>

fun conforms :: "property \<Rightarrow> jsval \<Rightarrow> bool" where
  "conforms (Property t ps it) v =
     (case t of
        PString \<Rightarrow> is_string v
      | PNumber \<Rightarrow> is_number v
      | PInteger \<Rightarrow> (case v of JNum r \<Rightarrow> r \<in> \<int> | _ \<Rightarrow> False)
      | PBoolean \<Rightarrow> (case v of JBool b \<Rightarrow> True | _ \<Rightarrow> False)
      | PArray \<Rightarrow> is_array v
      | PObject \<Rightarrow> (case v of
            JObj kvs \<Rightarrow> (case ps of None \<Rightarrow> True
              | Some kps \<Rightarrow> list_all (\<lambda>(k, p). case map_of kvs k of None \<Rightarrow> False | Some w \<Rightarrow> conforms p w) kps)
          | _ \<Rightarrow> False)
      | POther _ \<Rightarrow> True)"

text \<open>A schema read from JSON has each property once.\<close>

fun property_ok :: "property \<Rightarrow> bool" where
  "property_ok (Property t ps it) \<longleftrightarrow>
     (case ps of None \<Rightarrow> True | Some kps \<Rightarrow> distinct (map fst kps) \<and> list_all (\<lambda>(k, p). property_ok p) kps)"

definition values_conform :: "(string \<times> property) list \<Rightarrow> (string \<times> jsval) list \<Rightarrow> bool" where
  "values_conform ps kvs \<longleftrightarrow>
     list_all (\<lambda>(k, p). case map_of kvs k of None \<Rightarrow> False | Some w \<Rightarrow> conforms p w) ps"

lemma map_of_map_values:
  "distinct (map fst kps) \<Longrightarrow> (k, p) \<in> set kps \<Longrightarrow> map_of (map (\<lambda>(k, p). (k, f p)) kps) k = Some (f p)"
  by (intro map_of_is_SomeI) (auto simp: o_def split_def intro!: image_eqI [of _ _ "(k, p)"])

text \<open>C36. The default value of a property has the property's type, nested objects to any depth.\<close>

theorem default_value_conforms:
  "property_ok p \<Longrightarrow> conforms p (generateDefaultValue p)"
proof (induction p rule: generateDefaultValue.induct)
  case (1 t ps it)
  show ?case
  proof (cases "t = PObject \<and> ps \<noteq> None")
    case True
    then obtain kps where ps: "ps = Some kps" "t = PObject" by auto
    have "conforms p (generateDefaultValue p)" if "(k, p) \<in> set kps" for k p
      using "1.IH" [of kps "(k, p)" k p] "1.prems" that by (auto simp: ps list_all_iff)
    then show ?thesis
      using "1.prems" by (auto simp: ps list_all_iff map_of_map_values)
  next
    case False
    then show ?thesis by (cases t) auto
  qed
qed

theorem default_value_conforms_witness:
  "conforms (Property PObject (Some [(''a'', Property PObject (Some [(''b'', Property PInteger None None)]) None),
       (''c'', Property PArray None None)]) None)
     (JObj [(''a'', JObj [(''b'', JNum 0)]), (''c'', JArr [])])"
  using default_value_conforms [of "Property PObject (Some [(''a'', Property PObject
      (Some [(''b'', Property PInteger None None)]) None), (''c'', Property PArray None None)]) None"]
  by simp

lemma defaults_conform:
  assumes "distinct (map fst ps)" "list_all (\<lambda>(k, p). property_ok p) ps"
  shows "values_conform ps (defaults_of ps)"
  using assms default_value_conforms
  by (auto simp: values_conform_def defaults_of_def list_all_iff map_of_map_values)

text \<open>The document builder sends one batch with one document, only under an identifier that is not
  blank and for a type the schema has; after an insert the values are defaults of that type again,
  and a refused insert keeps what was typed and shows why.\<close>

theorem insert_document:
  assumes "handleSubmitSingleDocument batch tableName schema b = (sent, b')"
  shows "(\<forall>r. sent = Some r \<longrightarrow> r = batch_request b \<and> trim (bd_id b) \<noteq> []
             \<and> (\<exists>s. schema = Some s \<and> schema_of s (bd_type b) \<noteq> None))
       \<and> (bd_error b' = None \<longleftrightarrow> (\<exists>r v. sent = Some r \<and> batch tableName r = Inr v))
       \<and> (bd_error b' \<noteq> None \<longrightarrow> bd_values b' = bd_values b \<and> bd_id b' = bd_id b)"
proof -
  consider (unset) "tableName = [] \<or> bd_type b = [] \<or> schema = None"
    | (no_type) "tableName \<noteq> []" "bd_type b \<noteq> []" "schema \<noteq> None" "schema_of (the schema) (bd_type b) = None"
    | (typed) d where "tableName \<noteq> []" "bd_type b \<noteq> []" "schema \<noteq> None" "schema_of (the schema) (bd_type b) = Some d"
    by blast
  then show ?thesis
  proof cases
    case typed
    then show ?thesis
      using assms
      by (cases "trim (bd_id b) = []"; cases "batch tableName (batch_request b)")
         (auto simp: handleSubmitSingleDocument_def insert_failed_def split: js_exn.splits)
  qed (use assms in \<open>auto simp: handleSubmitSingleDocument_def insert_failed_def\<close>)
qed

theorem insert_document_witness:
  "fst (handleSubmitSingleDocument (\<lambda>t r. Inr JNull) ''t''
     (Some \<lparr>bs_default_type = None, bs_documents = Some [(''d'', \<lparr>ds_properties = None\<rparr>)]\<rparr>)
     \<lparr>bd_values = [], bd_type = ''d'', bd_id = '' '', bd_loading = False, bd_error = None, bd_success = None\<rparr>) = None"
  using insert_document [OF prod.collapse [symmetric], of "\<lambda>t r. Inr JNull" "''t''"
      "Some \<lparr>bs_default_type = None, bs_documents = Some [(''d'', \<lparr>ds_properties = None\<rparr>)]\<rparr>"
      "\<lparr>bd_values = [], bd_type = ''d'', bd_id = '' '', bd_loading = False, bd_error = None, bd_success = None\<rparr>"]
  by (auto simp: trim_def is_ws_def)

end
