(* ===== verification/QueryForms.thy ===== *)
theory QueryForms
  imports Prelude
begin

text \<open>
  The dashboard's visual query editor: a node of the query tree and its groups
  (ts/apps/antfarm/src/components/querybuilder/QueryNode.tsx), the request around it
  (querybuilder/QueryBuilder.tsx), and the aggregations it adds and shows (components/
  AggregationBuilder.tsx and AggregationResults.tsx). A query is an object of a search request, a list
  of keys and values; what an editor hands to \<open>onChange\<close> is its result.
\<close>

section \<open>The type of a query node\<close>

datatype query_type =
    MatchAll | MatchNone | Term | Match | MatchPhrase | Prefix | Wildcard | Regexp | Fuzzy | QueryString
  | NumericRange | Boolean | Conjunction | Disjunction

type_synonym query_node = "(string \<times> jsval) list"

definition has :: "query_node \<Rightarrow> string \<Rightarrow> bool" where
  "has q k \<longleftrightarrow> k \<in> fst ` set q"

definition val :: "query_node \<Rightarrow> string \<Rightarrow> jsval" where
  "val q k = fld (JObj q) k"

definition getQueryType :: "query_node \<Rightarrow> query_type" where
  "getQueryType q =
     (if has q ''match_phrase'' then MatchPhrase
      else if has q ''prefix'' then Prefix
      else if has q ''wildcard'' then Wildcard
      else if has q ''regexp'' then Regexp
      else if has q ''query'' then QueryString
      else if (has q ''min'' \<or> has q ''max'') \<and> \<not> has q ''disjuncts''
              \<and> \<not> is_string (val q ''min'') \<and> \<not> is_string (val q ''max'') then NumericRange
      else if has q ''term'' \<and> (has q ''fuzziness'' \<or> has q ''prefix_length'') then Fuzzy
      else if has q ''term'' then Term
      else if has q ''match'' then Match
      else if has q ''must'' \<or> has q ''should'' \<or> has q ''must_not'' then Boolean
      else if has q ''match_all'' then MatchAll
      else if has q ''match_none'' then MatchNone
      else if has q ''conjuncts'' then Conjunction
      else if has q ''disjuncts'' then Disjunction
      else if has q ''and'' then Conjunction
      else if has q ''or'' then Disjunction
      else MatchAll)"

fun defaultQueries :: "query_type \<Rightarrow> query_node" where
  "defaultQueries MatchAll = [(''match_all'', JObj [])]"
| "defaultQueries MatchNone = [(''match_none'', JObj [])]"
| "defaultQueries Term = [(''term'', JStr [])]"
| "defaultQueries Match = [(''match'', JStr [])]"
| "defaultQueries MatchPhrase = [(''match_phrase'', JStr [])]"
| "defaultQueries Prefix = [(''prefix'', JStr [])]"
| "defaultQueries Wildcard = [(''wildcard'', JStr [])]"
| "defaultQueries Regexp = [(''regexp'', JStr [])]"
| "defaultQueries Fuzzy = [(''term'', JStr []), (''fuzziness'', JNum 1)]"
| "defaultQueries QueryString = [(''query'', JStr [])]"
| "defaultQueries NumericRange = [(''min'', JNull), (''max'', JNull)]"
| "defaultQueries Boolean = [(''must'', JObj [(''conjuncts'', JArr [])])]"
| "defaultQueries Conjunction = [(''conjuncts'', JArr [])]"
| "defaultQueries Disjunction = [(''disjuncts'', JArr [])]"

definition isComplex :: "query_type \<Rightarrow> bool" where
  "isComplex t \<longleftrightarrow> t \<in> set [Boolean, Conjunction, Disjunction]"

definition handleTypeChange :: "query_type \<Rightarrow> query_node" where
  "handleTypeChange newType = defaultQueries newType"

definition handleFieldChange :: "query_node \<Rightarrow> string \<Rightarrow> jsval \<Rightarrow> query_node" where
  "handleFieldChange q field value = obj_put field value q"

text \<open>
  The inputs a node shows: for each the key it writes and the values it can write. Text inputs write
  text; number inputs a number or \<open>null\<close>; boxes a truth value; groups a list of queries.
\<close>

fun number_or_null :: "jsval \<Rightarrow> bool" where
  "number_or_null (JNum _) = True"
| "number_or_null JNull = True"
| "number_or_null _ = False"

fun is_bool :: "jsval \<Rightarrow> bool" where
  "is_bool (JBool _) = True"
| "is_bool _ = False"

fun group_under :: "string \<Rightarrow> jsval \<Rightarrow> bool" where
  "group_under k (JObj [(k', JArr _)]) = (k' = k)"
| "group_under k _ = False"

fun queryFields :: "query_type \<Rightarrow> (string \<times> (jsval \<Rightarrow> bool)) list" where
  "queryFields Term = [(''term'', is_string), (''field'', is_string)]"
| "queryFields Match = [(''match'', is_string), (''field'', is_string)]"
| "queryFields MatchPhrase = [(''match_phrase'', is_string), (''field'', is_string)]"
| "queryFields Prefix = [(''prefix'', is_string), (''field'', is_string)]"
| "queryFields Wildcard = [(''wildcard'', is_string), (''field'', is_string)]"
| "queryFields Regexp = [(''regexp'', is_string), (''field'', is_string)]"
| "queryFields Fuzzy = [(''term'', is_string), (''fuzziness'', number_or_null), (''field'', is_string)]"
| "queryFields QueryString = [(''query'', is_string)]"
| "queryFields NumericRange =
     [(''min'', number_or_null), (''max'', number_or_null), (''inclusive_min'', is_bool), (''inclusive_max'', is_bool),
      (''field'', is_string)]"
| "queryFields Boolean =
     [(''must'', group_under ''conjuncts''), (''should'', group_under ''disjuncts''),
      (''must_not'', group_under ''disjuncts'')]"
| "queryFields Conjunction = [(''conjuncts'', is_array)]"
| "queryFields Disjunction = [(''disjuncts'', is_array)]"
| "queryFields MatchAll = []"
| "queryFields MatchNone = []"

section \<open>Groups\<close>

definition addQuery :: "query_node list \<Rightarrow> query_node list" where
  "addQuery queries = queries @ [defaultQueries MatchAll]"

text \<open>An assignment by index to a row that is shown.\<close>

definition updateQuery :: "query_node list \<Rightarrow> nat \<Rightarrow> query_node \<Rightarrow> query_node list" where
  "updateQuery queries index newQuery = queries[index := newQuery]"

definition deleteQuery :: "query_node list \<Rightarrow> nat \<Rightarrow> query_node list" where
  "deleteQuery queries index = without index queries"

section \<open>The request around the node\<close>

text \<open>\<open>queryRequest\<close> of the text in the editor; \<open>only_filter\<close> is \<open>showQueryNode && !showOrderByAndFacets\<close>.\<close>

definition query_request :: "(string \<Rightarrow> jsval option) \<Rightarrow> bool \<Rightarrow> string \<Rightarrow> jsval" where
  "query_request json_parse only_filter value =
     (case json_parse value of
        Some parsed \<Rightarrow> if only_filter then JObj [(''filter_query'', parsed)] else parsed
      | None \<Rightarrow> JObj [(''filter_query'', JObj [(''match_all'', JObj [])])])"

text \<open>\<open>{...o, k: v}\<close>; a spread of an array has its indices as keys.\<close>

fun spread :: "jsval \<Rightarrow> (string \<times> jsval) list" where
  "spread (JObj kvs) = kvs"
| "spread (JArr vs) = map (\<lambda>(i, v). (show_nat i, v)) (enumerate 0 vs)"
| "spread (JStr s) = map (\<lambda>(i, c). (show_nat i, JStr [c])) (enumerate 0 s)"
| "spread _ = []"

definition with_key :: "jsval \<Rightarrow> string \<Rightarrow> jsval \<Rightarrow> jsval" where
  "with_key o' k v = JObj (obj_put k v (spread o'))"

text \<open>\<open>[...(v || [])]\<close>; what is not iterable throws.\<close>

fun spread_array :: "jsval \<Rightarrow> jsval list res" where
  "spread_array (JArr vs) = Inr vs"
| "spread_array (JStr s) = Inr (map (\<lambda>c. JStr [c]) s)"
| "spread_array v = (if truthy v then throw_type_error else Inr [])"

definition handleQueryChange :: "(jsval \<Rightarrow> string) \<Rightarrow> bool \<Rightarrow> jsval \<Rightarrow> query_node \<Rightarrow> string" where
  "handleQueryChange stringify only_filter request newQuery =
     (if only_filter then stringify (JObj newQuery)
      else stringify (with_key request ''filter_query'' (JObj newQuery)))"

definition handleLimitChange :: "(jsval \<Rightarrow> string) \<Rightarrow> jsval \<Rightarrow> rat \<Rightarrow> string" where
  "handleLimitChange stringify request limit = stringify (with_key request ''limit'' (JNum limit))"

definition handleOffsetChange :: "(jsval \<Rightarrow> string) \<Rightarrow> jsval \<Rightarrow> rat \<Rightarrow> string" where
  "handleOffsetChange stringify request offset = stringify (with_key request ''offset'' (JNum offset))"

definition sort_field :: "string \<Rightarrow> bool \<Rightarrow> jsval" where
  "sort_field field desc = JObj [(''field'', JStr field), (''desc'', JBool desc)]"

text \<open>The new \<open>order_by\<close> of the three row operations, for a row that is shown.\<close>

definition handleOrderByChange :: "jsval \<Rightarrow> nat \<Rightarrow> string \<Rightarrow> bool \<Rightarrow> jsval res" where
  "handleOrderByChange request index field asc =
     map_sum id (\<lambda>rows. with_key request ''order_by'' (JArr (rows[index := sort_field field (\<not> asc)])))
       (spread_array (fld request ''order_by''))"

definition addOrderBy :: "jsval \<Rightarrow> jsval res" where
  "addOrderBy request =
     map_sum id (\<lambda>rows. with_key request ''order_by'' (JArr (rows @ [sort_field [] False])))
       (spread_array (fld request ''order_by''))"

definition removeOrderBy :: "jsval \<Rightarrow> nat \<Rightarrow> jsval res" where
  "removeOrderBy request index =
     map_sum id (\<lambda>rows. with_key request ''order_by'' (JArr (take index rows @ drop (Suc index) rows)))
       (spread_array (fld request ''order_by''))"

text \<open>The field selector under the rows.\<close>

definition selectOrderBy :: "jsval \<Rightarrow> string \<Rightarrow> jsval" where
  "selectOrderBy request fieldName =
     with_key request ''order_by'' (with_key (fld request ''order_by'') fieldName (JBool True))"

text \<open>The rows of the panel: \<open>order_by?.map\<close>, of which only an array has one.\<close>

definition order_rows :: "jsval \<Rightarrow> jsval list res" where
  "order_rows request =
     (case fld request ''order_by'' of
        JUndef \<Rightarrow> Inr []
      | JNull \<Rightarrow> Inr []
      | JArr rows \<Rightarrow> Inr rows
      | _ \<Rightarrow> throw_type_error)"

definition handleAddAggregation :: "jsval \<Rightarrow> string \<Rightarrow> jsval \<Rightarrow> jsval" where
  "handleAddAggregation request name config =
     with_key request ''aggregations'' (with_key (fld request ''aggregations'') name config)"

definition removeFacet :: "jsval \<Rightarrow> string \<Rightarrow> jsval" where
  "removeFacet request name =
     with_key request ''aggregations'' (JObj (AList.delete name (spread (fld request ''aggregations''))))"

section \<open>Aggregations\<close>

datatype aggregation_type =
    ATerms | ARange | ADateRange | AHistogram | ADateHistogram | ASum | AAvg | AMin | AMax | ACount | AStats
  | ACardinality

fun aggregation_name :: "aggregation_type \<Rightarrow> string" where
  "aggregation_name ATerms = ''terms''"
| "aggregation_name ARange = ''range''"
| "aggregation_name ADateRange = ''date_range''"
| "aggregation_name AHistogram = ''histogram''"
| "aggregation_name ADateHistogram = ''date_histogram''"
| "aggregation_name ASum = ''sum''"
| "aggregation_name AAvg = ''avg''"
| "aggregation_name AMin = ''min''"
| "aggregation_name AMax = ''max''"
| "aggregation_name ACount = ''count''"
| "aggregation_name AStats = ''stats''"
| "aggregation_name ACardinality = ''cardinality''"

record range_entry =
  re_name :: string
  re_from :: string
  re_to :: string

record aggregation_form =
  ag_name :: string
  ag_type :: aggregation_type
  ag_field :: string
  ag_size :: rat
  ag_interval :: rat
  ag_calendarInterval :: string
  ag_ranges :: "range_entry list"

definition empty_range :: range_entry where
  "empty_range = \<lparr>re_name = [], re_from = [], re_to = []\<rparr>"

definition initial_aggregation :: aggregation_form where
  "initial_aggregation = \<lparr>ag_name = [], ag_type = ATerms, ag_field = [], ag_size = 10, ag_interval = 10,
     ag_calendarInterval = ''day'', ag_ranges = [empty_range]\<rparr>"

definition range_values :: "range_entry list \<Rightarrow> jsval" where
  "range_values ranges =
     JArr (map (\<lambda>r. JObj ([(''name'', JStr (re_name r))]
            @ (if re_from r \<noteq> [] then [(''from'', JStr (re_from r))] else [])
            @ (if re_to r \<noteq> [] then [(''to'', JStr (re_to r))] else [])))
          (filter (\<lambda>r. re_name r \<noteq> []) ranges))"

definition aggregation_config :: "aggregation_form \<Rightarrow> (string \<times> jsval) list" where
  "aggregation_config f =
     [(''type'', JStr (aggregation_name (ag_type f))), (''field'', JStr (ag_field f))]
     @ (if ag_type f = ATerms then [(''size'', JNum (ag_size f))] else [])
     @ (if ag_type f = ARange then [(''ranges'', range_values (ag_ranges f))] else [])
     @ (if ag_type f = ADateRange then [(''date_ranges'', range_values (ag_ranges f))] else [])
     @ (if ag_type f = AHistogram then [(''interval'', JNum (ag_interval f))] else [])
     @ (if ag_type f = ADateHistogram then [(''calendar_interval'', JStr (ag_calendarInterval f))] else [])"

text \<open>What \<open>handleAdd\<close> hands to \<open>onAdd\<close>, and the form after it.\<close>

definition handleAdd :: "aggregation_form \<Rightarrow> (string \<times> jsval) option \<times> aggregation_form" where
  "handleAdd f =
     (if trim (ag_name f) = [] \<or> trim (ag_field f) = [] then (None, f)
      else (Some (ag_name f, JObj (aggregation_config f)),
            f\<lparr>ag_name := [], ag_field := [], ag_type := ATerms, ag_size := 10, ag_ranges := [empty_range]\<rparr>))"

definition addRange :: "aggregation_form \<Rightarrow> aggregation_form" where
  "addRange f = f\<lparr>ag_ranges := ag_ranges f @ [empty_range]\<rparr>"

definition updateRange :: "nat \<Rightarrow> (range_entry \<Rightarrow> range_entry) \<Rightarrow> aggregation_form \<Rightarrow> aggregation_form" where
  "updateRange index change f = f\<lparr>ag_ranges := (ag_ranges f)[index := change (ag_ranges f ! index)]\<rparr>"

definition removeRange :: "nat \<Rightarrow> aggregation_form \<Rightarrow> aggregation_form" where
  "removeRange index f = f\<lparr>ag_ranges := without index (ag_ranges f)\<rparr>"

text \<open>The bars of a bucket aggregation: the label, the width in percent and the count.\<close>

record facet_bar =
  fb_key :: string
  fb_key_as_string :: "string option"
  fb_doc_count :: "rat option"

definition bucket_count :: "facet_bar \<Rightarrow> rat" where
  "bucket_count b = (case fb_doc_count b of None \<Rightarrow> 0 | Some n \<Rightarrow> n)"

fun max_of :: "rat list \<Rightarrow> rat" where
  "max_of [] = 0"
| "max_of [x] = x"
| "max_of (x # xs) = max x (max_of xs)"

definition bars :: "facet_bar list \<Rightarrow> (string \<times> rat \<times> rat) list" where
  "bars buckets =
     (let maxCount = max_of (map bucket_count buckets)
      in map (\<lambda>b. let count = bucket_count b;
                       pct = (if maxCount > 0 then count / maxCount * 100 else 0);
                       label = (case fb_key_as_string b of Some t \<Rightarrow> if t \<noteq> [] then t else fb_key b | None \<Rightarrow> fb_key b)
                   in (label, pct, count)) buckets)"

section \<open>Editing a node\<close>

lemma keys_obj_put: "fst ` set (obj_put k v q) = insert k (fst ` set q)"
  by (simp add: obj_put_def dom_update)

lemma has_obj_put [simp]: "has (obj_put k v q) j \<longleftrightarrow> j = k \<or> has q j"
  by (auto simp: has_def keys_obj_put)

lemma val_obj_put [simp]: "val (obj_put k v q) j = (if j = k then v else val q j)"
  by (simp add: val_def)

lemma number_not_string [simp]: "number_or_null v \<Longrightarrow> \<not> is_string v"
  by (cases v) auto

lemma type_of_default: "getQueryType (defaultQueries t) = t"
  by (cases t) (simp_all add: getQueryType_def has_def val_def)

text \<open>The keys the type depends on; a write that adds none of them, and no bound, changes nothing.\<close>

definition consulted :: "string list" where
  "consulted = [''match_phrase'', ''prefix'', ''wildcard'', ''regexp'', ''query'', ''min'', ''max'', ''disjuncts'',
     ''term'', ''fuzziness'', ''prefix_length'', ''match'', ''must'', ''should'', ''must_not'', ''match_all'',
     ''match_none'', ''conjuncts'', ''and'', ''or'']"

lemma type_same_keys:
  assumes "\<forall>j \<in> set consulted. has q' j = has q j" "val q' ''min'' = val q ''min''" "val q' ''max'' = val q ''max''"
  shows "getQueryType q' = getQueryType q"
  using assms unfolding getQueryType_def consulted_def by simp

lemma neutral_write:
  assumes "k \<notin> set consulted \<or> has q k" "k \<noteq> ''min''" "k \<noteq> ''max''"
  shows "getQueryType (obj_put k v q) = getQueryType q"
  using assms by (intro type_same_keys) auto

text \<open>The clauses of the type, read off without splitting them.\<close>

lemma type_clause:
  "A \<noteq> B \<Longrightarrow> ((if c then A else x) = B) = (\<not> c \<and> x = B)"
  "((if c then B else x) = B) = (c \<or> x = B)"
  by simp_all

lemma keys_of_type:
  "getQueryType q = Term \<Longrightarrow> has q ''term''"
  "getQueryType q = Match \<Longrightarrow> has q ''match''"
  "getQueryType q = MatchPhrase \<Longrightarrow> has q ''match_phrase''"
  "getQueryType q = Prefix \<Longrightarrow> has q ''prefix''"
  "getQueryType q = Wildcard \<Longrightarrow> has q ''wildcard''"
  "getQueryType q = Regexp \<Longrightarrow> has q ''regexp''"
  "getQueryType q = QueryString \<Longrightarrow> has q ''query''"
  "getQueryType q = Fuzzy \<Longrightarrow> has q ''term''"
  by (simp_all add: getQueryType_def type_clause split del: if_split)

lemma fuzzy_kept: "getQueryType q = Fuzzy \<Longrightarrow> getQueryType (obj_put ''fuzziness'' v q) = Fuzzy"
  by (simp add: getQueryType_def type_clause split del: if_split)

lemma boolean_kept:
  "getQueryType q = Boolean \<Longrightarrow> getQueryType (obj_put ''must'' v q) = Boolean"
  "getQueryType q = Boolean \<Longrightarrow> getQueryType (obj_put ''should'' v q) = Boolean"
  "getQueryType q = Boolean \<Longrightarrow> getQueryType (obj_put ''must_not'' v q) = Boolean"
  by (simp_all add: getQueryType_def type_clause split del: if_split)

lemma junction_kept:
  "getQueryType q = Conjunction \<Longrightarrow> getQueryType (obj_put ''conjuncts'' v q) = Conjunction"
  "getQueryType q = Disjunction \<Longrightarrow> getQueryType (obj_put ''disjuncts'' v q) = Disjunction"
  by (simp_all add: getQueryType_def type_clause split del: if_split)

lemma range_kept:
  "getQueryType q = NumericRange \<Longrightarrow> \<not> is_string v \<Longrightarrow> getQueryType (obj_put ''min'' v q) = NumericRange"
  "getQueryType q = NumericRange \<Longrightarrow> \<not> is_string v \<Longrightarrow> getQueryType (obj_put ''max'' v q) = NumericRange"
  by (simp_all add: getQueryType_def type_clause split del: if_split)

lemma neutral_fields:
  "getQueryType (obj_put ''field'' v q) = getQueryType q"
  "getQueryType (obj_put ''inclusive_min'' v q) = getQueryType q"
  "getQueryType (obj_put ''inclusive_max'' v q) = getQueryType q"
  by (rule neutral_write; simp add: consulted_def)+

lemma present_kept:
  "getQueryType q = Term \<Longrightarrow> getQueryType (obj_put ''term'' v q) = Term"
  "getQueryType q = Match \<Longrightarrow> getQueryType (obj_put ''match'' v q) = Match"
  "getQueryType q = MatchPhrase \<Longrightarrow> getQueryType (obj_put ''match_phrase'' v q) = MatchPhrase"
  "getQueryType q = Prefix \<Longrightarrow> getQueryType (obj_put ''prefix'' v q) = Prefix"
  "getQueryType q = Wildcard \<Longrightarrow> getQueryType (obj_put ''wildcard'' v q) = Wildcard"
  "getQueryType q = Regexp \<Longrightarrow> getQueryType (obj_put ''regexp'' v q) = Regexp"
  "getQueryType q = QueryString \<Longrightarrow> getQueryType (obj_put ''query'' v q) = QueryString"
  "getQueryType q = Fuzzy \<Longrightarrow> getQueryType (obj_put ''term'' v q) = Fuzzy"
  by (frule keys_of_type, simp add: neutral_write)+

lemmas kept = neutral_fields present_kept fuzzy_kept boolean_kept junction_kept range_kept

lemma node_edit_keeps_type:
  assumes "getQueryType q = t" "(k, ok) \<in> set (queryFields t)" "ok v"
  shows "getQueryType (obj_put k v q) = t"
proof (cases t)
  case NumericRange
  with assms(2) consider "k = ''min''" "ok = number_or_null" | "k = ''max''" "ok = number_or_null"
    | "k \<in> {''field'', ''inclusive_min'', ''inclusive_max''}" by auto
  then show ?thesis
    using assms(1,3) NumericRange by cases (auto simp: neutral_fields range_kept)
qed (use assms in \<open>auto simp: kept\<close>)

text \<open>A node keeps its kind: choosing a type gives a query of that type, and nothing that can be
  typed into the inputs of a node, or edited in its groups, turns it into another type.\<close>

theorem editing_keeps_type:
  "getQueryType (handleTypeChange t) = t
   \<and> (getQueryType q = t \<and> (k, ok) \<in> set (queryFields t) \<and> ok v \<longrightarrow> getQueryType (handleFieldChange q k v) = t)"
  using type_of_default [of t] node_edit_keeps_type [of q t k ok v]
  by (simp add: handleTypeChange_def handleFieldChange_def)

theorem editing_keeps_type_witness:
  "getQueryType (handleFieldChange (handleTypeChange Fuzzy) ''fuzziness'' JNull) = Fuzzy"
  using editing_keeps_type [of Fuzzy "handleTypeChange Fuzzy" "''fuzziness''" number_or_null JNull]
    editing_keeps_type [of Fuzzy]
  by simp

section \<open>The request\<close>

lemma fld_with_key [simp]: "fld (with_key o' k v) j = (if j = k then v else fld (JObj (spread o')) j)"
  by (simp add: with_key_def)

text \<open>The text of the editor follows the node: the query a node reports is the query the editor shows
  next, and every other part of the request is as it was.\<close>

theorem editor_text_round_trip:
  assumes "\<And>v. json_parse (stringify v) = Some v"
  shows "fld (query_request json_parse only_filter (handleQueryChange stringify only_filter (JObj request) newQuery))
           ''filter_query'' = JObj newQuery
       \<and> (\<not> only_filter \<and> k \<noteq> ''filter_query'' \<longrightarrow>
            fld (query_request json_parse only_filter (handleQueryChange stringify only_filter (JObj request) newQuery)) k
              = fld (JObj request) k)"
  using assms by (simp add: query_request_def handleQueryChange_def)

text \<open>Rows of the order: a change, a new row and a removal act on the row they name and on no other, and
  leave a list that the panel can show.\<close>

theorem order_rows_follow:
  assumes "order_rows request = Inr rows" "i < length rows"
  shows "Option.bind (case handleOrderByChange request i f asc of Inr r \<Rightarrow> Some r | Inl _ \<Rightarrow> None)
             (\<lambda>r. case order_rows r of Inr x \<Rightarrow> Some x | Inl _ \<Rightarrow> None) = Some (rows[i := sort_field f (\<not> asc)])
       \<and> Option.bind (case addOrderBy request of Inr r \<Rightarrow> Some r | Inl _ \<Rightarrow> None)
             (\<lambda>r. case order_rows r of Inr x \<Rightarrow> Some x | Inl _ \<Rightarrow> None) = Some (rows @ [sort_field [] False])
       \<and> Option.bind (case removeOrderBy request i of Inr r \<Rightarrow> Some r | Inl _ \<Rightarrow> None)
             (\<lambda>r. case order_rows r of Inr x \<Rightarrow> Some x | Inl _ \<Rightarrow> None) = Some (take i rows @ drop (Suc i) rows)"
proof -
  have "fld request ''order_by'' = JArr rows"
    using assms by (auto simp: order_rows_def split: jsval.splits)
  then show ?thesis
    by (simp add: handleOrderByChange_def addOrderBy_def removeOrderBy_def order_rows_def)
qed

theorem order_rows_follow_witness:
  "order_rows (JObj [(''order_by'', JArr [sort_field ''a'' True])]) = Inr [sort_field ''a'' True]
   \<and> Option.bind (case addOrderBy (JObj [(''order_by'', JArr [sort_field ''a'' True])]) of Inr r \<Rightarrow> Some r | Inl _ \<Rightarrow> None)
       (\<lambda>r. case order_rows r of Inr x \<Rightarrow> Some x | Inl _ \<Rightarrow> None) = Some [sort_field ''a'' True, sort_field [] False]"
  using order_rows_follow [of "JObj [(''order_by'', JArr [sort_field ''a'' True])]" "[sort_field ''a'' True]" 0]
  by (simp add: order_rows_def)

text \<open>Picking a field to order by breaks the editor: the field selector turns the list of rows into an
  object, so showing the rows throws, and so does adding a row.\<close>

theorem order_field_select_breaks:
  "order_rows (selectOrderBy request f) = throw_type_error
   \<and> addOrderBy (selectOrderBy request f) = throw_type_error
   \<and> handleOrderByChange (selectOrderBy request f) i g asc = throw_type_error"
  by (simp add: order_rows_def selectOrderBy_def with_key_def addOrderBy_def handleOrderByChange_def)

section \<open>Bars\<close>

lemma max_of_ge: "x \<in> set xs \<Longrightarrow> x \<le> max_of xs"
  by (induction xs rule: max_of.induct) (auto simp: max.coboundedI1 max.coboundedI2)

lemma max_of_mem: "xs \<noteq> [] \<Longrightarrow> max_of xs \<in> set xs"
  by (induction xs rule: max_of.induct) (auto simp: max_def)

text \<open>The bars of a chart: no bar is shorter than nothing or longer than the chart, longer bars stand for
  larger counts, and when anything was counted the largest count fills the chart.\<close>

theorem bars_scaled:
  assumes "list_all (\<lambda>b. 0 \<le> bucket_count b) buckets"
  shows "list_all (\<lambda>(label, pct, count). 0 \<le> pct \<and> pct \<le> 100) (bars buckets)
       \<and> list_all (\<lambda>(l, p, c). list_all (\<lambda>(l', p', c'). \<not> (c \<le> c' \<and> p' < p)) (bars buckets)) (bars buckets)
       \<and> (list_ex (\<lambda>b. 0 < bucket_count b) buckets \<longrightarrow> list_ex (\<lambda>(l, p, c). p = 100) (bars buckets))"
proof -
  define m where "m = max_of (map bucket_count buckets)"
  define pct where "pct b = (if m > 0 then bucket_count b / m * 100 else 0)" for b
  have bars: "\<exists>f. bars buckets = map (\<lambda>b. (f b, pct b, bucket_count b)) buckets"
    by (simp add: bars_def Let_def m_def pct_def)
       (rule exI [of _ "\<lambda>b. case fb_key_as_string b of Some t \<Rightarrow> if t \<noteq> [] then t else fb_key b | None \<Rightarrow> fb_key b"], simp)
  have le: "bucket_count b \<le> m" if "b \<in> set buckets" for b
    using that by (simp add: m_def max_of_ge)
  have range: "0 \<le> pct b \<and> pct b \<le> 100" if "b \<in> set buckets" for b
    using that le [OF that] assms by (auto simp: pct_def list_all_iff divide_le_eq)
  have mono: "pct b \<le> pct b'" if "bucket_count b \<le> bucket_count b'" for b b'
    using that by (auto simp: pct_def divide_right_mono)
  have full: "\<exists>b \<in> set buckets. pct b = 100" if "\<exists>b \<in> set buckets. 0 < bucket_count b"
  proof -
    have "m \<in> set (map bucket_count buckets)"
      using that unfolding m_def by (intro max_of_mem) auto
    moreover have "0 < m" using that le by force
    ultimately show ?thesis by (force simp: pct_def)
  qed
  show ?thesis
    using bars range mono full by (fastforce simp: list_all_iff list_ex_iff not_le [symmetric])
qed

theorem bars_scaled_witness:
  "list_all (\<lambda>(label, pct, count). 0 \<le> pct \<and> pct \<le> 100)
     (bars [\<lparr>fb_key = ''a'', fb_key_as_string = None, fb_doc_count = Some 3\<rparr>,
            \<lparr>fb_key = ''b'', fb_key_as_string = None, fb_doc_count = None\<rparr>])"
  using bars_scaled [of "[\<lparr>fb_key = ''a'', fb_key_as_string = None, fb_doc_count = Some 3\<rparr>,
      \<lparr>fb_key = ''b'', fb_key_as_string = None, fb_doc_count = None\<rparr>]"]
  by (simp add: bucket_count_def)

end
