(* ===== verification/Session.thy ===== *)
theory Session
  imports SdkClient
begin

text \<open>
  Who may see what in the dashboard, and whom it talks to: the enabled products and the routes they own
  (ts/apps/antfarm/src/config/products.ts), the session of the signed-in user and its permissions
  (components/auth-provider.tsx, private-route.tsx), the configured servers
  (components/api-config-provider.tsx), and the stored preferences (generator-preference-provider.tsx,
  content-width-provider.tsx, theme-provider.tsx).

  \<open>status_call\<close> and \<open>user_call\<close> are the SDK's \<open>getStatus\<close> and \<open>users.getCurrentUser\<close> on a client. The
  browser's storage holds a text per key or none. An asynchronous operation is modelled by the state
  it ends in.
\<close>

section \<open>Products and routes\<close>

datatype product_id = Antfly | Termite

record product =
  pr_name :: string
  pr_description :: string
  pr_defaultRoute :: string
  pr_routes :: "string list"

fun products :: "product_id \<Rightarrow> product" where
  "products Antfly = \<lparr>pr_name = ''Antfly'', pr_description = ''Vector database management'', pr_defaultRoute = ''/'',
     pr_routes = [''/'', ''/create'', ''/tables/'', ''/users'', ''/secrets'', ''/cluster'', ''/playground/evals'',
       ''/playground/rag'', ''/playground/chat'', ''/playground/embedding'', ''/playground/reranking'',
       ''/playground/chunking'']\<rparr>"
| "products Termite = \<lparr>pr_name = ''Termite'', pr_description = ''ML inference playgrounds'',
     pr_defaultRoute = ''/playground/chunk'',
     pr_routes = [''/models'', ''/playground/chunk'', ''/playground/recognize'', ''/playground/rewrite'',
       ''/playground/rerank'', ''/playground/kg'', ''/playground/embed'', ''/playground/read'',
       ''/playground/transcribe'']\<rparr>"

fun product_named :: "string \<Rightarrow> product_id option" where
  "product_named n = (if n = ''antfly'' then Some Antfly else if n = ''termite'' then Some Termite else None)"

text \<open>\<open>parseEnabledProducts\<close> of the build's \<open>VITE_PRODUCTS\<close>; a name given twice is kept twice.\<close>

definition parseEnabledProducts :: "string option \<Rightarrow> product_id list" where
  "parseEnabledProducts envValue =
     (if envValue = None \<or> envValue = Some [] then [Antfly, Termite]
      else (let products = List.map_filter (\<lambda>p. product_named (to_lower (trim p))) (split_on (CHR '','') (the envValue))
            in if length products > 0 then products else [Antfly, Termite]))"

definition isProductEnabled :: "product_id list \<Rightarrow> product_id \<Rightarrow> bool" where
  "isProductEnabled enabledProducts p \<longleftrightarrow> p \<in> set enabledProducts"

definition showProductSwitcher :: "product_id list \<Rightarrow> bool" where
  "showProductSwitcher enabledProducts \<longleftrightarrow> length enabledProducts > 1"

definition getDefaultRoute :: "product_id list \<Rightarrow> string" where
  "getDefaultRoute enabledProducts = pr_defaultRoute (products (hd enabledProducts))"

definition route_matches :: "string \<Rightarrow> string \<Rightarrow> bool" where
  "route_matches pathname route \<longleftrightarrow> route = pathname \<or> length route > 1 \<and> starts_with pathname route"

definition better_route :: "string \<Rightarrow> product_id \<times> string \<Rightarrow> (product_id \<times> nat) option \<Rightarrow> (product_id \<times> nat) option" where
  "better_route pathname pr best =
     (let (p, route) = pr in
      if route_matches pathname route \<and> (case best of None \<Rightarrow> True | Some (q, len) \<Rightarrow> length route > len)
      then Some (p, length route) else best)"

definition product_routes :: "product_id list \<Rightarrow> (product_id \<times> string) list" where
  "product_routes enabledProducts = concat (map (\<lambda>p. map (Pair p) (pr_routes (products p))) enabledProducts)"

definition productForPath :: "product_id list \<Rightarrow> string \<Rightarrow> product_id option" where
  "productForPath enabledProducts pathname =
     map_option fst (fold (better_route pathname) (product_routes enabledProducts) None)"

section \<open>The session\<close>

record user =
  us_username :: jsval
  us_permissions :: "jsval list"

record session =
  se_user :: "user option"
  se_authEnabled :: "bool option"
  se_isLoading :: bool
  se_error :: "string option"
  se_stored :: "string option"

definition createClient :: "string \<Rightarrow> string \<Rightarrow> string \<Rightarrow> antfly_client" where
  "createClient apiUrl username password =
     new_client \<lparr>baseUrl = apiUrl, cfg_headers = [],
       auth = (if username \<noteq> [] \<and> password \<noteq> [] then Some (LegacyAuth username password) else None)\<rparr>"

definition credentials_value :: "string \<Rightarrow> string \<Rightarrow> jsval" where
  "credentials_value username password = JObj [(''username'', JStr username), (''password'', JStr password)]"

fun str_of :: "jsval \<Rightarrow> string" where
  "str_of (JStr s) = s"
| "str_of _ = []"

definition getStoredCredentials :: "(string \<Rightarrow> jsval option) \<Rightarrow> string option \<Rightarrow> jsval option" where
  "getStoredCredentials json_parse stored =
     (case stored of
        None \<Rightarrow> None
      | Some t \<Rightarrow> if t = [] then None else (case json_parse t of None \<Rightarrow> None | Some v \<Rightarrow> if truthy v then Some v else None))"

definition storeCredentials :: "(jsval \<Rightarrow> string) \<Rightarrow> string \<Rightarrow> string \<Rightarrow> session \<Rightarrow> session" where
  "storeCredentials stringify username password s = s\<lparr>se_stored := Some (stringify (credentials_value username password))\<rparr>"

definition clearCredentials :: "session \<Rightarrow> session" where
  "clearCredentials s = s\<lparr>se_stored := None\<rparr>"

definition checkAuthEnabled :: "product_id list \<Rightarrow> (antfly_client \<Rightarrow> jsval res) \<Rightarrow> string \<Rightarrow> bool" where
  "checkAuthEnabled enabled status_call apiUrl =
     (if \<not> isProductEnabled enabled Antfly then False
      else case status_call (createClient apiUrl [] []) of
             Inr status \<Rightarrow> truthy (coalesce (fld status ''auth_enabled'') (JBool True))
           | Inl _ \<Rightarrow> True)"

definition list_of :: "jsval \<Rightarrow> jsval list" where
  "list_of v = (case v of JArr vs \<Rightarrow> vs | _ \<Rightarrow> [])"

definition fetchCurrentUser ::
    "(antfly_client \<Rightarrow> jsval res) \<Rightarrow> string \<Rightarrow> string \<Rightarrow> string \<Rightarrow> user res" where
  "fetchCurrentUser user_call apiUrl username password =
     (case user_call (createClient apiUrl username password) of
        Inr data \<Rightarrow> Inr \<lparr>us_username = js_or (fld data ''username'') (JStr username),
                         us_permissions = list_of (js_or (fld data ''permissions'') (JArr []))\<rparr>
      | Inl (ErrorObj n m) \<Rightarrow>
          if str_includes m ''401'' then throw_error ''Invalid credentials'' else throw_error ''Failed to fetch user info''
      | Inl (NonError _) \<Rightarrow> throw_error ''Failed to fetch user info'')"

definition message_of :: "string \<Rightarrow> js_exn \<Rightarrow> string" where
  "message_of other e = (case e of ErrorObj _ m \<Rightarrow> m | NonError _ \<Rightarrow> other)"

definition refreshUser ::
    "product_id list \<Rightarrow> (antfly_client \<Rightarrow> jsval res) \<Rightarrow> (antfly_client \<Rightarrow> jsval res) \<Rightarrow> (string \<Rightarrow> jsval option) \<Rightarrow>
     string \<Rightarrow> session \<Rightarrow> session" where
  "refreshUser enabled status_call user_call json_parse apiUrl s =
     (let isAuthEnabled = checkAuthEnabled enabled status_call apiUrl;
          s = s\<lparr>se_error := None, se_authEnabled := Some isAuthEnabled, se_isLoading := False\<rparr>
      in if \<not> isAuthEnabled then s\<lparr>se_user := None\<rparr>
         else case getStoredCredentials json_parse (se_stored s) of
                None \<Rightarrow> s\<lparr>se_user := None\<rparr>
              | Some credentials \<Rightarrow>
                  (case fetchCurrentUser user_call apiUrl (str_of (fld credentials ''username''))
                          (str_of (fld credentials ''password'')) of
                     Inr userData \<Rightarrow> s\<lparr>se_user := Some userData\<rparr>
                   | Inl e \<Rightarrow> clearCredentials (s\<lparr>se_error := Some (message_of ''Authentication failed'' e), se_user := None\<rparr>)))"

text \<open>\<open>login\<close> rethrows after it has noted the error.\<close>

definition login ::
    "(antfly_client \<Rightarrow> jsval res) \<Rightarrow> (jsval \<Rightarrow> string) \<Rightarrow> string \<Rightarrow> string \<Rightarrow> string \<Rightarrow> session \<Rightarrow> unit res \<times> session" where
  "login user_call stringify apiUrl username password s =
     (let s = s\<lparr>se_isLoading := False, se_error := None\<rparr> in
      case fetchCurrentUser user_call apiUrl username password of
        Inr userData \<Rightarrow> (Inr (), (storeCredentials stringify username password s)\<lparr>se_user := Some userData\<rparr>)
      | Inl e \<Rightarrow> (Inl e, s\<lparr>se_error := Some (message_of ''Login failed'' e)\<rparr>))"

definition logout :: "session \<Rightarrow> session" where
  "logout s = (clearCredentials s)\<lparr>se_user := None, se_error := None\<rparr>"

definition permission_grants :: "string \<Rightarrow> string \<Rightarrow> string \<Rightarrow> jsval \<Rightarrow> bool" where
  "permission_grants resource resourceType permissionType perm \<longleftrightarrow>
     (fld perm ''resource'' = JStr resource \<or> fld perm ''resource'' = JStr ''*'')
     \<and> (fld perm ''resource_type'' = JStr resourceType \<or> fld perm ''resource_type'' = JStr ''*'')
     \<and> (fld perm ''type'' = JStr permissionType \<or> fld perm ''type'' = JStr ''admin'')"

definition hasPermission :: "session \<Rightarrow> string \<Rightarrow> string \<Rightarrow> string \<Rightarrow> bool" where
  "hasPermission s resource resourceType permissionType =
     (if se_authEnabled s = Some False then True
      else case se_user s of
             None \<Rightarrow> False
           | Some u \<Rightarrow> list_ex (permission_grants resource resourceType permissionType) (us_permissions u))"

definition isAuthenticated :: "session \<Rightarrow> bool" where
  "isAuthenticated s = (if se_authEnabled s = Some False then True else se_user s \<noteq> None)"

text \<open>What a private route shows.\<close>

datatype route_view = LoadingView | LoginRedirect | AccessDenied | Children

definition privateRoute :: "session \<Rightarrow> (string \<times> string \<times> string) option \<Rightarrow> route_view" where
  "privateRoute s requiredPermission =
     (if se_isLoading s then LoadingView
      else if se_authEnabled s = Some False then Children
      else if \<not> isAuthenticated s then LoginRedirect
      else case requiredPermission of
             Some (r, rt, p) \<Rightarrow> if \<not> hasPermission s r rt p then AccessDenied else Children
           | None \<Rightarrow> Children)"

section \<open>The configured servers\<close>

record api_config =
  ac_apiUrl :: string
  ac_termiteApiUrl :: string
  ac_client :: antfly_client
  ac_stored :: "string option"
  ac_storedTermite :: "string option"

definition getDefaultApiUrl :: string where
  "getDefaultApiUrl = ''/api/v1''"

definition getDefaultTermiteApiUrl :: "product_id list \<Rightarrow> string" where
  "getDefaultTermiteApiUrl enabled = (if isProductEnabled enabled Antfly then ''/termite'' else [])"

definition or_default :: "string option \<Rightarrow> string \<Rightarrow> string" where
  "or_default stored d = (case stored of None \<Rightarrow> d | Some t \<Rightarrow> if t = [] then d else t)"

definition page_client :: "string \<Rightarrow> antfly_client" where
  "page_client url = new_client \<lparr>baseUrl = url, cfg_headers = [], auth = None\<rparr>"

definition api_config_start :: "product_id list \<Rightarrow> string option \<Rightarrow> string option \<Rightarrow> api_config" where
  "api_config_start enabled stored storedTermite =
     (let apiUrl = or_default stored getDefaultApiUrl
      in \<lparr>ac_apiUrl = apiUrl, ac_termiteApiUrl = or_default storedTermite (getDefaultTermiteApiUrl enabled),
          ac_client = page_client apiUrl, ac_stored = stored, ac_storedTermite = storedTermite\<rparr>)"

definition setApiUrl :: "string \<Rightarrow> api_config \<Rightarrow> api_config" where
  "setApiUrl url c =
     c\<lparr>ac_apiUrl := trim url, ac_stored := Some (trim url), ac_client := page_client (trim url)\<rparr>"

definition resetToDefault :: "api_config \<Rightarrow> api_config" where
  "resetToDefault c =
     c\<lparr>ac_apiUrl := getDefaultApiUrl, ac_stored := None, ac_client := page_client getDefaultApiUrl\<rparr>"

definition setTermiteApiUrl :: "string \<Rightarrow> api_config \<Rightarrow> api_config" where
  "setTermiteApiUrl url c = c\<lparr>ac_termiteApiUrl := trim url, ac_storedTermite := Some (trim url)\<rparr>"

definition resetTermiteApiUrl :: "product_id list \<Rightarrow> api_config \<Rightarrow> api_config" where
  "resetTermiteApiUrl enabled c = c\<lparr>ac_termiteApiUrl := getDefaultTermiteApiUrl enabled, ac_storedTermite := None\<rparr>"

section \<open>Stored preferences\<close>

text \<open>
  The storage as the generator preference sees it: missing, or there with a text or none; \<open>set_ok\<close> and
  \<open>remove_ok\<close> say whether it takes a write and a removal.
\<close>

record gen_storage =
  gs_text :: "string option"
  gs_set_ok :: bool
  gs_remove_ok :: bool

definition generator_ok :: "jsval \<Rightarrow> bool" where
  "generator_ok v \<longleftrightarrow> truthy v \<and> typeof_object v \<and> is_string (fld v ''provider'') \<and> is_string (fld v ''model'')"

definition loadStoredGenerator ::
    "(string \<Rightarrow> jsval option) \<Rightarrow> gen_storage option \<Rightarrow> jsval option \<times> gen_storage option" where
  "loadStoredGenerator json_parse storage =
     (case storage of
        None \<Rightarrow> (None, None)
      | Some st \<Rightarrow>
          (case gs_text st of
             None \<Rightarrow> (None, Some st)
           | Some raw \<Rightarrow>
               if raw = [] then (None, Some st)
               else (case json_parse raw of
                       None \<Rightarrow> (None, Some (if gs_remove_ok st then st\<lparr>gs_text := None\<rparr> else st))
                     | Some parsed \<Rightarrow> (if generator_ok parsed then Some parsed else None, Some st))))"

definition setDashboardGenerator ::
    "(jsval \<Rightarrow> string) \<Rightarrow> jsval option \<Rightarrow> gen_storage option \<Rightarrow> jsval option \<times> gen_storage option" where
  "setDashboardGenerator stringify value storage =
     (value, map_option (\<lambda>st. case value of
          Some v \<Rightarrow> if gs_set_ok st then st\<lparr>gs_text := Some (stringify v)\<rparr> else st
        | None \<Rightarrow> if gs_remove_ok st then st\<lparr>gs_text := None\<rparr> else st) storage)"

datatype content_width = Restricted | Full

definition load_content_width :: "string option \<Rightarrow> content_width" where
  "load_content_width saved = (if saved = Some ''full'' then Full else Restricted)"

fun toggleContentWidth :: "content_width \<Rightarrow> content_width \<times> string" where
  "toggleContentWidth Restricted = (Full, ''full'')"
| "toggleContentWidth Full = (Restricted, ''restricted'')"

text \<open>The class that a theme puts on the document, for the system's preference.\<close>

definition applyTheme :: "bool \<Rightarrow> string \<Rightarrow> bool" where
  "applyTheme system_dark theme = (if theme = ''system'' then system_dark else theme = ''dark'')"

definition initial_theme :: "string option \<Rightarrow> string \<Rightarrow> string" where
  "initial_theme stored defaultTheme = or_default stored defaultTheme"

section \<open>Routes\<close>

lemma better_route_fold:
  "case fold (better_route pathname) prs None of
     None \<Rightarrow> \<forall>(q, r) \<in> set prs. \<not> route_matches pathname r
   | Some (p, n) \<Rightarrow> (\<exists>r. (p, r) \<in> set prs \<and> route_matches pathname r \<and> length r = n)
                    \<and> (\<forall>(q, r) \<in> set prs. route_matches pathname r \<longrightarrow> length r \<le> n)"
proof (induction prs rule: rev_induct)
  case (snoc x prs)
  obtain p r where x: "x = (p, r)" by fastforce
  define F where "F = fold (better_route pathname) prs None"
  have step: "fold (better_route pathname) (prs @ [x]) None = better_route pathname (p, r) F"
    by (simp add: F_def x)
  show ?case
    unfolding step using snoc.IH [folded F_def]
    by (cases F) (auto simp: x better_route_def intro: order_trans [OF _ less_imp_le])
qed simp

text \<open>The product of a path is one of the enabled products and owns the longest of all enabled routes
  that the path starts with; a path that no route matches has none.\<close>

theorem product_for_path_longest:
  "case productForPath enabled pathname of
     None \<Rightarrow> list_all (\<lambda>(q, r). \<not> route_matches pathname r) (product_routes enabled)
   | Some p \<Rightarrow> p \<in> set enabled \<and> list_ex (\<lambda>r. route_matches pathname r
       \<and> list_all (\<lambda>(q, r'). \<not> (route_matches pathname r' \<and> length r < length r')) (product_routes enabled))
           (pr_routes (products p))"
  using better_route_fold [where pathname = pathname and prs = "product_routes enabled"]
  by (cases "fold (better_route pathname) (product_routes enabled) None")
     (fastforce simp: productForPath_def product_routes_def list_all_iff list_ex_iff)+

text \<open>The path of the chunking playground: with both products enabled, \<open>/playground/chunking\<close> belongs
  to Antfly, whose own route it is; only a build without Antfly gives it to Termite.\<close>

theorem chunking_path_owner:
  "productForPath [Antfly, Termite] ''/playground/chunking'' = Some Antfly
   \<and> productForPath [Termite, Antfly] ''/playground/chunking'' = Some Antfly
   \<and> productForPath [Termite] ''/playground/chunking'' = Some Termite"
  by (simp add: productForPath_def product_routes_def better_route_def route_matches_def starts_with_def)

section \<open>The session\<close>

text \<open>C35. The guard of a private page: its content is shown exactly when the session is settled and either
  authentication is off or a user is signed in who, where the page asks for a permission, has one
  that names the resource, its type and the action, or stands for all of them.\<close>

theorem route_guard:
  "privateRoute s required = Children \<longleftrightarrow>
     \<not> se_isLoading s \<and>
     (se_authEnabled s = Some False \<or>
      (\<exists>u. se_user s = Some u \<and>
         (case required of None \<Rightarrow> True
          | Some (r, rt, p) \<Rightarrow> list_ex (\<lambda>perm.
              fld perm ''resource'' \<in> {JStr r, JStr ''*''} \<and> fld perm ''resource_type'' \<in> {JStr rt, JStr ''*''}
              \<and> fld perm ''type'' \<in> {JStr p, JStr ''admin''}) (us_permissions u))))"
  by (auto simp: privateRoute_def isAuthenticated_def hasPermission_def list_ex_iff permission_grants_def
      split: option.splits)

lemma user_after_login:
  assumes "login user_call stringify apiUrl username password s = (Inr (), s')"
  obtains u where "fetchCurrentUser user_call apiUrl username password = Inr u"
    and "s' = s\<lparr>se_isLoading := False, se_error := None,
               se_stored := Some (stringify (credentials_value username password)), se_user := Some u\<rparr>"
  using assms by (auto simp: login_def storeCredentials_def Let_def split: sum.splits)

text \<open>A login outlives a reload: after a successful login, a fresh page that reads the same storage and
  asks the same server has the same user and no error, and still holds the credentials.\<close>

theorem login_survives_reload:
  assumes "login user_call stringify apiUrl username password s = (Inr (), s')"
    and "json_parse (stringify (credentials_value username password)) = Some (credentials_value username password)"
    and "stringify (credentials_value username password) \<noteq> []"
    and "checkAuthEnabled enabled status_call apiUrl"
    and "fresh = \<lparr>se_user = None, se_authEnabled = None, se_isLoading = True, se_error = None, se_stored = se_stored s'\<rparr>"
  shows "se_user (refreshUser enabled status_call user_call json_parse apiUrl fresh) = se_user s'
       \<and> se_user s' \<noteq> None
       \<and> se_error (refreshUser enabled status_call user_call json_parse apiUrl fresh) = None
       \<and> se_stored (refreshUser enabled status_call user_call json_parse apiUrl fresh) = se_stored s'"
proof -
  obtain u where "fetchCurrentUser user_call apiUrl username password = Inr u"
    and "s' = s\<lparr>se_isLoading := False, se_error := None,
               se_stored := Some (stringify (credentials_value username password)), se_user := Some u\<rparr>"
    by (rule user_after_login [OF assms(1)])
  moreover have "truthy (credentials_value username password)"
    "fld (credentials_value username password) ''username'' = JStr username"
    "fld (credentials_value username password) ''password'' = JStr password"
    by (simp_all add: credentials_value_def)
  ultimately show ?thesis
    using assms(2-5) by (simp add: refreshUser_def getStoredCredentials_def Let_def)
qed

definition demo_session :: session where
  "demo_session = \<lparr>se_user = None, se_authEnabled = Some True, se_isLoading = False, se_error = None, se_stored = None\<rparr>"

theorem login_survives_reload_witness:
  "se_stored (refreshUser [Antfly] (\<lambda>_. Inr JNull) (\<lambda>_. Inr JNull) (\<lambda>_. Some (credentials_value ''u'' ''p'')) []
     \<lparr>se_user = None, se_authEnabled = None, se_isLoading = True, se_error = None, se_stored = Some ''x''\<rparr>) = Some ''x''"
  using login_survives_reload [of "\<lambda>_. Inr JNull" "\<lambda>_. ''x''" "[]" "''u''" "''p''" demo_session
      "(storeCredentials (\<lambda>_. ''x'') ''u'' ''p'' demo_session)\<lparr>se_user := Some \<lparr>us_username = JStr ''u'', us_permissions = []\<rparr>\<rparr>"
      "\<lambda>_. Some (credentials_value ''u'' ''p'')" "[Antfly]" "\<lambda>_. Inr JNull"]
  by (simp add: login_def Let_def demo_session_def fetchCurrentUser_def js_or_def list_of_def storeCredentials_def
      checkAuthEnabled_def isProductEnabled_def coalesce_def nullish_def)

text \<open>Any failure signs the user out for good: when the server cannot tell who the user is, be it that it
  is not reachable, the stored credentials are deleted, so the next visit needs a new login.\<close>

theorem refresh_failure_forgets:
  assumes "isProductEnabled enabled Antfly" "status_call (createClient apiUrl [] []) = Inl e"
    and "getStoredCredentials json_parse (se_stored s) = Some c"
    and "user_call (createClient apiUrl (str_of (fld c ''username'')) (str_of (fld c ''password''))) = Inl e'"
  shows "se_stored (refreshUser enabled status_call user_call json_parse apiUrl s) = None
       \<and> privateRoute (refreshUser enabled status_call user_call json_parse apiUrl s) required = LoginRedirect"
  using assms
  by (auto simp: refreshUser_def checkAuthEnabled_def clearCredentials_def fetchCurrentUser_def Let_def
      privateRoute_def isAuthenticated_def split: js_exn.splits)

theorem refresh_failure_forgets_witness:
  "se_stored (refreshUser [Antfly] (\<lambda>_. Inl (NonError JNull)) (\<lambda>_. Inl (NonError JNull))
     (\<lambda>_. Some (credentials_value ''u'' ''p'')) [] (demo_session\<lparr>se_stored := Some ''x''\<rparr>)) = None"
  using refresh_failure_forgets [of "[Antfly]" "\<lambda>_. Inl (NonError JNull)" "[]" "NonError JNull"
      "\<lambda>_. Some (credentials_value ''u'' ''p'')" "demo_session\<lparr>se_stored := Some ''x''\<rparr>"
      "credentials_value ''u'' ''p''" "\<lambda>_. Inl (NonError JNull)" "NonError JNull"]
  by (simp add: isProductEnabled_def getStoredCredentials_def credentials_value_def)

section \<open>The client of the pages\<close>

datatype api_change = SetApiUrl string | ResetApiUrl | SetTermiteUrl string | ResetTermiteUrl

fun api_step :: "product_id list \<Rightarrow> api_change \<Rightarrow> api_config \<Rightarrow> api_config" where
  "api_step enabled (SetApiUrl url) = setApiUrl url"
| "api_step enabled ResetApiUrl = resetToDefault"
| "api_step enabled (SetTermiteUrl url) = setTermiteApiUrl url"
| "api_step enabled ResetTermiteUrl = resetTermiteApiUrl enabled"

text \<open>The client that the pages share talks to the configured server and never carries credentials:
  whatever is configured, and whoever is signed in, its requests have no authorization.\<close>

theorem page_client_unauthenticated:
  "let c = fold (api_step enabled) changes (api_config_start enabled stored storedTermite) in
   baseUrl (cl_config (ac_client c)) = ac_apiUrl c
   \<and> getAuthHeader (cl_config (ac_client c)) = None
   \<and> map_of (bc_headers (cl_client (ac_client c))) ''Authorization'' = None"
proof -
  have "ac_client (fold (api_step enabled) changes (api_config_start enabled stored storedTermite))
      = page_client (ac_apiUrl (fold (api_step enabled) changes (api_config_start enabled stored storedTermite)))"
  proof (rule fold_invariant [where I = "\<lambda>c :: api_config. ac_client c = page_client (ac_apiUrl c)"])
    show "ac_client (api_config_start enabled stored storedTermite)
        = page_client (ac_apiUrl (api_config_start enabled stored storedTermite))"
      by (simp add: api_config_start_def Let_def)
    fix a and c :: api_config assume "ac_client c = page_client (ac_apiUrl c)"
    then show "ac_client (api_step enabled a c) = page_client (ac_apiUrl (api_step enabled a c))"
      by (cases a) (simp_all add: setApiUrl_def resetToDefault_def setTermiteApiUrl_def resetTermiteApiUrl_def)
  qed
  then show ?thesis
    by (simp add: Let_def page_client_def new_client_def getAuthHeader_def buildClient_def)
qed

text \<open>The preferred generator is remembered: one that is chosen, and the choice of none, are read back by
  the next visit when the storage takes the write; when it does not, the choice holds for the visit.\<close>

theorem generator_remembered:
  assumes "\<And>v. value = Some v \<Longrightarrow> generator_ok v \<and> json_parse (stringify v) = Some v \<and> stringify v \<noteq> []"
    and "gs_set_ok st" "gs_remove_ok st"
  shows "fst (loadStoredGenerator json_parse (snd (setDashboardGenerator stringify value (Some st)))) = value
       \<and> fst (setDashboardGenerator stringify value None) = value"
  using assms by (cases "value") (auto simp: loadStoredGenerator_def setDashboardGenerator_def)

theorem generator_remembered_witness:
  "fst (loadStoredGenerator (\<lambda>_. None) (snd (setDashboardGenerator (\<lambda>_. []) None
     (Some \<lparr>gs_text = Some ''x'', gs_set_ok = True, gs_remove_ok = True\<rparr>)))) = None"
  using generator_remembered [of None "\<lambda>_. None" "\<lambda>_. []" "\<lparr>gs_text = Some ''x'', gs_set_ok = True, gs_remove_ok = True\<rparr>"]
  by simp

text \<open>The width of the pages is remembered: what a toggle stores is what the next visit loads.\<close>

theorem content_width_remembered:
  "load_content_width (Some (snd (toggleContentWidth w))) = fst (toggleContentWidth w)
   \<and> fst (toggleContentWidth (fst (toggleContentWidth w))) = w"
  by (cases w) (simp_all add: load_content_width_def)

end
