(* ===== verification/TableSelection.thy ===== *)
theory TableSelection
  imports Prelude
begin

text \<open>
  The selected table and index of the dashboard and their place in the address: the provider shared by
  the pages (ts/apps/antfarm/src/components/table-provider.tsx) and the selector with its own state
  (hooks/use-table-index-selector.ts).

  The address is a path and its query parameters. \<open>navigate\<close> is the router's: the path that a target
  leads to. A response of the server is an event of its own, since the code keeps no order between the
  requests it has sent. \<open>decodeURIComponent\<close> is defined for escapes of code units up to 0x7F, and
  throws on a percent sign that starts no escape; other escapes are outside the model's strings.
\<close>

section \<open>Addresses\<close>

record address =
  ad_path :: string
  ad_params :: "(string \<times> string) list"

definition hex_value :: "char \<Rightarrow> nat option" where
  "hex_value c = (let n = (of_char c :: nat) in
     if 48 \<le> n \<and> n \<le> 57 then Some (n - 48)
     else if 65 \<le> n \<and> n \<le> 70 then Some (n - 55)
     else if 97 \<le> n \<and> n \<le> 102 then Some (n - 87) else None)"

fun decodeURIComponent :: "string \<Rightarrow> string option" where
  "decodeURIComponent [] = Some []"
| "decodeURIComponent (c # s) =
     (if c \<noteq> CHR ''%'' then map_option ((#) c) (decodeURIComponent s)
      else case s of
             h # l # s' \<Rightarrow>
               (case (hex_value h, hex_value l) of
                  (Some a, Some b) \<Rightarrow> if a < 8 then map_option ((#) (char_of (16 * a + b))) (decodeURIComponent s') else None
                | _ \<Rightarrow> None)
           | _ \<Rightarrow> None)"

definition tables_prefix :: string where
  "tables_prefix = ''/tables/''"

text \<open>\<open>pathname.match(/^\/tables\/([^/]+)/)\<close>.\<close>

definition path_match :: "string \<Rightarrow> string option" where
  "path_match pathname =
     (if starts_with pathname tables_prefix
      then (let seg = takeWhile (\<lambda>c. c \<noteq> CHR ''/'') (drop (length tables_prefix) pathname)
            in if seg = [] then None else Some seg)
      else None)"

definition on_table_page :: "address \<Rightarrow> bool" where
  "on_table_page a \<longleftrightarrow> starts_with (ad_path a) tables_prefix"

text \<open>The table an address names: its path, or its parameter; an unreadable path throws.\<close>

definition url_table :: "address \<Rightarrow> string option" where
  "url_table a =
     (case path_match (ad_path a) of
        Some seg \<Rightarrow> (case decodeURIComponent seg of
           None \<Rightarrow> None
         | Some t \<Rightarrow> Some (if t \<noteq> [] then t else (case map_of (ad_params a) ''table'' of Some q \<Rightarrow> q | None \<Rightarrow> [])))
      | None \<Rightarrow> Some (case map_of (ad_params a) ''table'' of Some q \<Rightarrow> q | None \<Rightarrow> []))"

section \<open>The provider\<close>

record table_state =
  tp_address :: address
  tp_tables :: "string list"
  tp_selectedTable :: string
  tp_embeddingIndexes :: "string list"
  tp_chatIndexes :: "string list"
  tp_selectedIndex :: string
  tp_isLoadingTables :: bool
  tp_isLoadingIndexes :: bool

text \<open>The two effects that keep the address and the selection together.\<close>

definition sync_from_url :: "table_state \<Rightarrow> table_state option" where
  "sync_from_url s =
     map_option (\<lambda>t. if t \<noteq> [] then s\<lparr>tp_selectedTable := t\<rparr> else s) (url_table (tp_address s))"

definition with_param :: "string \<Rightarrow> string \<Rightarrow> address \<Rightarrow> address" where
  "with_param k v a = a\<lparr>ad_params := obj_put k v (ad_params a)\<rparr>"

definition without_param :: "string \<Rightarrow> address \<Rightarrow> address" where
  "without_param k a = a\<lparr>ad_params := AList.delete k (ad_params a)\<rparr>"

definition sync_to_url :: "table_state \<Rightarrow> table_state" where
  "sync_to_url s =
     (if on_table_page (tp_address s) then s
      else if tp_selectedTable s \<noteq> [] \<and> map_of (ad_params (tp_address s)) ''table'' \<noteq> Some (tp_selectedTable s)
      then s\<lparr>tp_address := with_param ''table'' (tp_selectedTable s) (tp_address s)\<rparr>
      else s)"

definition setSelectedTable :: "(string \<Rightarrow> string) \<Rightarrow> string \<Rightarrow> table_state \<Rightarrow> table_state" where
  "setSelectedTable navigate name s =
     (let s' = s\<lparr>tp_selectedTable := name\<rparr> in
      if on_table_page (tp_address s)
      then s'\<lparr>tp_address := \<lparr>ad_path = navigate (tables_prefix @ name), ad_params = []\<rparr>\<rparr>
      else s'\<lparr>tp_address := with_param ''table'' name (tp_address s)\<rparr>)"

text \<open>The answer to a list of tables; an answer that is no list leaves the tables.\<close>

definition tables_answer :: "(jsval res) \<Rightarrow> table_state \<Rightarrow> table_state" where
  "tables_answer r s =
     (case r of
        Inr (JArr ts) \<Rightarrow> s\<lparr>tp_tables := map (\<lambda>t. to_str (fld t ''name'')) ts, tp_isLoadingTables := False\<rparr>
      | Inr _ \<Rightarrow> s\<lparr>tp_isLoadingTables := False\<rparr>
      | Inl _ \<Rightarrow> s\<lparr>tp_tables := [], tp_isLoadingTables := False\<rparr>)"

definition auto_select :: "(string \<Rightarrow> string) \<Rightarrow> table_state \<Rightarrow> table_state" where
  "auto_select navigate s =
     (if tp_selectedTable s = [] \<and> tp_tables s \<noteq> [] then setSelectedTable navigate (hd (tp_tables s)) s else s)"

section \<open>Indexes\<close>

text \<open>\<open>idx.config?.type?.includes(t)\<close> and the names that are not empty.\<close>

definition type_includes :: "jsval \<Rightarrow> string \<Rightarrow> bool" where
  "type_includes idx t \<longleftrightarrow> (case fld (fld idx ''config'') ''type'' of JStr s \<Rightarrow> str_includes s t | _ \<Rightarrow> False)"

definition index_names :: "(jsval \<Rightarrow> bool) \<Rightarrow> jsval list \<Rightarrow> string list" where
  "index_names P indexes =
     filter (\<lambda>n. n \<noteq> []) (map (\<lambda>idx. case fld (fld idx ''config'') ''name'' of JStr n \<Rightarrow> n | _ \<Rightarrow> []) (filter P indexes))"

definition embedding_index :: "jsval \<Rightarrow> bool" where
  "embedding_index idx \<longleftrightarrow> type_includes idx ''aknn'' \<or> type_includes idx ''embedding''"

definition chat_index :: "jsval \<Rightarrow> bool" where
  "chat_index idx \<longleftrightarrow> type_includes idx ''aknn'' \<or> type_includes idx ''embedding'' \<or> type_includes idx ''full_text''"

definition first_or_none :: "string list \<Rightarrow> string" where
  "first_or_none names = (if names \<noteq> [] then hd names else [])"

definition no_indexes :: "table_state \<Rightarrow> table_state" where
  "no_indexes s = s\<lparr>tp_embeddingIndexes := [], tp_chatIndexes := [], tp_selectedIndex := []\<rparr>"

text \<open>The start and the end of \<open>fetchIndexes\<close>; the end does not ask which table is selected by then.\<close>

definition indexes_start :: "table_state \<Rightarrow> table_state" where
  "indexes_start s = (if tp_selectedTable s = [] then no_indexes s else s\<lparr>tp_isLoadingIndexes := True\<rparr>)"

definition indexes_answer :: "(jsval list) res \<Rightarrow> table_state \<Rightarrow> table_state" where
  "indexes_answer r s =
     (case r of
        Inr indexes \<Rightarrow>
          (let embeddingIdxs = index_names embedding_index indexes
           in s\<lparr>tp_embeddingIndexes := embeddingIdxs, tp_chatIndexes := index_names chat_index indexes,
                tp_selectedIndex := first_or_none embeddingIdxs, tp_isLoadingIndexes := False\<rparr>)
      | Inl _ \<Rightarrow> (no_indexes s)\<lparr>tp_isLoadingIndexes := False\<rparr>)"

section \<open>The selector with its own state\<close>

record selector =
  sl_tables :: "string list"
  sl_selectedTable :: string
  sl_embeddingIndexes :: "string list"
  sl_selectedIndex :: string
  sl_isLoading :: bool
  sl_tablesLoaded :: bool
  sl_params :: "(string \<times> string) list"

definition put_or_delete :: "string \<Rightarrow> string \<Rightarrow> (string \<times> string) list \<Rightarrow> (string \<times> string) list" where
  "put_or_delete k v params = (if v \<noteq> [] then obj_put k v params else AList.delete k params)"

definition selector_setTable :: "bool \<Rightarrow> string \<Rightarrow> selector \<Rightarrow> selector" where
  "selector_setTable syncToUrl table s =
     (let s = s\<lparr>sl_selectedTable := table\<rparr> in
      if syncToUrl then s\<lparr>sl_params := AList.delete ''index'' (put_or_delete ''table'' table (sl_params s))\<rparr> else s)"

definition selector_setIndex :: "bool \<Rightarrow> string \<Rightarrow> selector \<Rightarrow> selector" where
  "selector_setIndex syncToUrl index s =
     (let s = s\<lparr>sl_selectedIndex := index\<rparr> in
      if syncToUrl then s\<lparr>sl_params := put_or_delete ''index'' index (sl_params s)\<rparr> else s)"

definition valid_param :: "bool \<Rightarrow> string \<Rightarrow> string list \<Rightarrow> selector \<Rightarrow> string option" where
  "valid_param syncToUrl k names s =
     (if syncToUrl then (case map_of (sl_params s) k of
        Some v \<Rightarrow> if v \<noteq> [] \<and> v \<in> set names then Some v else None | None \<Rightarrow> None) else None)"

definition selector_tables :: "bool \<Rightarrow> (string list) res \<Rightarrow> selector \<Rightarrow> selector" where
  "selector_tables syncToUrl r s =
     (let s = s\<lparr>sl_tablesLoaded := True, sl_isLoading := False\<rparr> in
      case r of
        Inl _ \<Rightarrow> s\<lparr>sl_tables := []\<rparr>
      | Inr names \<Rightarrow>
          (let s = s\<lparr>sl_tables := names\<rparr> in
           case valid_param syncToUrl ''table'' names s of
             Some t \<Rightarrow> s\<lparr>sl_selectedTable := t\<rparr>
           | None \<Rightarrow> if names \<noteq> [] then s\<lparr>sl_selectedTable := hd names\<rparr> else s))"

definition selector_indexes :: "bool \<Rightarrow> (jsval list) res \<Rightarrow> selector \<Rightarrow> selector" where
  "selector_indexes syncToUrl r s =
     (if sl_selectedTable s = [] \<or> \<not> sl_tablesLoaded s then s\<lparr>sl_embeddingIndexes := [], sl_selectedIndex := []\<rparr>
      else case r of
        Inl _ \<Rightarrow> s\<lparr>sl_embeddingIndexes := [], sl_selectedIndex := []\<rparr>
      | Inr indexes \<Rightarrow>
          (let embeddingIdxs = index_names embedding_index indexes in
           s\<lparr>sl_embeddingIndexes := embeddingIdxs,
             sl_selectedIndex := (case valid_param syncToUrl ''index'' embeddingIdxs s of
                                    Some i \<Rightarrow> i | None \<Rightarrow> first_or_none embeddingIdxs)\<rparr>))"

section \<open>Address and selection\<close>

lemma decode_plain: "CHR ''%'' \<notin> set s \<Longrightarrow> decodeURIComponent s = Some s"
  by (induction s) auto

lemma takeWhile_all: "CHR ''/'' \<notin> set a \<Longrightarrow> takeWhile (\<lambda>c. c \<noteq> CHR ''/'') a = a"
  by (rule takeWhile_eq_all_conv [THEN iffD2]) auto

text \<open>A selection stays: a table whose name has neither a slash nor a percent sign, once selected, is
  still selected after the address has followed and both effects have run, on a table's page and on
  any other; and the address then names it.\<close>

theorem selection_stable:
  assumes "name \<noteq> []" "CHR ''/'' \<notin> set name" "CHR ''%'' \<notin> set name"
    and "navigate (tables_prefix @ name) = tables_prefix @ name"
    and "\<not> on_table_page (tp_address s) \<longrightarrow> path_match (ad_path (tp_address s)) = None"
  shows "map_option (\<lambda>s'. tp_selectedTable (sync_to_url s')) (sync_from_url (setSelectedTable navigate name s)) = Some name
       \<and> url_table (tp_address (sync_to_url (setSelectedTable navigate name s))) = Some name"
proof -
  have "path_match (tables_prefix @ name) = Some name"
    using assms(1,2) by (simp add: path_match_def starts_with_def takeWhile_all Let_def)
  then show ?thesis
    using assms
    by (cases "on_table_page (tp_address s)")
       (simp_all add: setSelectedTable_def sync_from_url_def sync_to_url_def url_table_def decode_plain
          with_param_def on_table_page_def starts_with_def Let_def)
qed

definition demo_tables :: table_state where
  "demo_tables = \<lparr>tp_address = \<lparr>ad_path = ''/tables/t'', ad_params = []\<rparr>, tp_tables = [], tp_selectedTable = ''t'',
     tp_embeddingIndexes = [], tp_chatIndexes = [], tp_selectedIndex = [], tp_isLoadingTables = False,
     tp_isLoadingIndexes = False\<rparr>"

theorem selection_stable_witness:
  "url_table (tp_address (sync_to_url (setSelectedTable id ''a b'' demo_tables))) = Some ''a b''"
  using selection_stable [of "''a b''" id demo_tables]
  by (simp add: demo_tables_def on_table_page_def starts_with_def tables_prefix_def)

text \<open>A table with a slash in its name cannot be selected on a table's page: the address is made of the
  bare name, so its first part is read back as the selection.\<close>

theorem slash_cuts_selection:
  assumes "a \<noteq> []" "CHR ''/'' \<notin> set a" "CHR ''%'' \<notin> set a" "on_table_page (tp_address s)"
    and "navigate (tables_prefix @ a @ ''/'' @ b) = tables_prefix @ a @ ''/'' @ b"
  shows "map_option tp_selectedTable (sync_from_url (setSelectedTable navigate (a @ ''/'' @ b) s)) = Some a"
proof -
  have "takeWhile (\<lambda>c. c \<noteq> CHR ''/'') (a @ ''/'' @ b) = a"
    using assms(2) by (simp add: takeWhile_append takeWhile_all)
  then have "path_match (tables_prefix @ a @ ''/'' @ b) = Some a"
    using assms(1) by (simp add: path_match_def starts_with_def Let_def)
  then show ?thesis
    using assms by (simp add: setSelectedTable_def sync_from_url_def url_table_def decode_plain)
qed

theorem slash_cuts_selection_witness:
  "map_option tp_selectedTable (sync_from_url (setSelectedTable id ''a/b'' demo_tables)) = Some ''a''"
  using slash_cuts_selection [of "''a''" demo_tables id "''b''"]
  by (simp add: demo_tables_def on_table_page_def starts_with_def tables_prefix_def)

section \<open>Indexes of the selection\<close>

lemma embedding_is_chat: "set (index_names embedding_index is) \<subseteq> set (index_names chat_index is)"
  by (auto simp: index_names_def embedding_index_def chat_index_def)

lemma names_given: "[] \<notin> set (index_names P is)"
  by (simp add: index_names_def)

text \<open>After an answer the selected index is one of the table's embedding indexes, or none when there is
  none; embedding indexes are chat indexes; and no name is empty. A failed request leaves none.\<close>

theorem indexes_consistent:
  "let s' = indexes_answer r s in
   (tp_selectedIndex s' \<in> set (tp_embeddingIndexes s') \<or> tp_selectedIndex s' = [] \<and> tp_embeddingIndexes s' = [])
   \<and> set (tp_embeddingIndexes s') \<subseteq> set (tp_chatIndexes s') \<and> [] \<notin> set (tp_chatIndexes s')
   \<and> \<not> tp_isLoadingIndexes s' \<and> tp_selectedTable s' = tp_selectedTable s"
  using embedding_is_chat names_given
  by (cases r) (auto simp: indexes_answer_def no_indexes_def first_or_none_def Let_def)

text \<open>A late answer of the table left behind: requests are not cancelled, so when the answer for the old
  table arrives after the one for the new table, the old table's indexes and index are shown for it.\<close>

theorem late_indexes_overwrite:
  assumes "first_or_none (index_names embedding_index old) = i"
  shows "let s' = indexes_answer (Inr old) (indexes_answer (Inr new)
             (indexes_start (setSelectedTable navigate name (indexes_start s)))) in
         tp_selectedTable s' = name \<and> tp_embeddingIndexes s' = index_names embedding_index old \<and> tp_selectedIndex s' = i"
  using assms by (simp add: indexes_answer_def indexes_start_def setSelectedTable_def no_indexes_def Let_def)

theorem late_indexes_overwrite_witness:
  "tp_selectedIndex (indexes_answer (Inr [JObj [(''config'', JObj [(''type'', JStr ''aknn''), (''name'', JStr ''i'')])]])
     (indexes_answer (Inr []) (indexes_start (setSelectedTable id ''u'' (indexes_start demo_tables))))) = ''i''"
  using late_indexes_overwrite
    [of "[JObj [(''config'', JObj [(''type'', JStr ''aknn''), (''name'', JStr ''i'')])]]" "''i''" "[]" id "''u''" demo_tables]
  by (simp add: Let_def index_names_def embedding_index_def type_includes_def str_includes_def first_or_none_def)

text \<open>The selector selects what exists: after its tables have loaded it has selected one of them, the one
  in the address where that is one of them, and after its indexes have loaded likewise an index.\<close>

theorem selector_selects_existing:
  "(names \<noteq> [] \<longrightarrow> sl_selectedTable (selector_tables sync (Inr names) s) \<in> set names)
   \<and> (sync \<and> t \<noteq> [] \<and> t \<in> set names \<and> map_of (sl_params s) ''table'' = Some t \<longrightarrow>
        sl_selectedTable (selector_tables sync (Inr names) s) = t)
   \<and> (let s' = selector_indexes sync r s in
        sl_selectedIndex s' \<in> set (sl_embeddingIndexes s') \<or> sl_selectedIndex s' = [] \<and> sl_embeddingIndexes s' = [])"
  by (auto simp: selector_tables_def selector_indexes_def valid_param_def first_or_none_def Let_def
      split: option.splits sum.splits)

theorem selector_selects_existing_witness:
  "sl_selectedTable (selector_tables True (Inr [''a'', ''b'']) \<lparr>sl_tables = [], sl_selectedTable = [],
     sl_embeddingIndexes = [], sl_selectedIndex = [], sl_isLoading = True, sl_tablesLoaded = False,
     sl_params = [(''table'', ''b'')]\<rparr>) = ''b''"
  using selector_selects_existing [of "[''a'', ''b'']" True "\<lparr>sl_tables = [], sl_selectedTable = [],
     sl_embeddingIndexes = [], sl_selectedIndex = [], sl_isLoading = True, sl_tablesLoaded = False,
     sl_params = [(''table'', ''b'')]\<rparr>" "''b''"]
  by simp

end
