(* ===== verification/Audio.thy ===== *)
theory Audio
  imports Codec Base64
begin

text \<open>
  The audio utilities of the dashboard (ts/apps/antfarm/src/lib/audio-utils.ts): recorded samples as a WAV
  file of 16-bit PCM, its base64 text for the transcription request, and the texts for sizes and
  times. Samples are binary32 values, so their products with the 16-bit range are exact numbers; sizes
  and times are not negative. The resampling by the browser's audio context is not modelled.
\<close>

section \<open>encodeWAV\<close>

text \<open>A sequence of writes into a buffer, each at its offset.\<close>

fun writes :: "array_buffer \<Rightarrow> (nat \<times> byte list) list \<Rightarrow> array_buffer res" where
  "writes buf [] = Inr buf"
| "writes buf ((off, bs) # ws) =
     (case put_bytes buf off bs of Inl e \<Rightarrow> Inl e | Inr buf' \<Rightarrow> writes buf' ws)"

definition ascii_bytes :: "string \<Rightarrow> byte list" where
  "ascii_bytes s = map (\<lambda>c. word_of_nat (of_char c)) s"

text \<open>\<open>Math.max(-1, Math.min(1, x))\<close>, and what \<open>setInt16\<close> makes of a number.\<close>

fun clamp :: "jnumber \<Rightarrow> jnumber" where
  "clamp JNaN = JNaN"
| "clamp PosInf = Fin 1"
| "clamp NegInf = Fin (-1)"
| "clamp NegZero = NegZero"
| "clamp (Fin r) = Fin (max (-1) (min 1 r))"

definition truncate_rat :: "rat \<Rightarrow> int" where
  "truncate_rat r = (if r < 0 then - \<lfloor>- r\<rfloor> else \<lfloor>r\<rfloor>)"

definition pcm_value :: "jnumber \<Rightarrow> int" where
  "pcm_value x =
     (case clamp x of
        Fin s \<Rightarrow> truncate_rat (if s < 0 then s * 0x8000 else s * 0x7fff)
      | _ \<Rightarrow> 0)"

definition int16_bytes :: "int \<Rightarrow> byte list" where
  "int16_bytes v = le_bytes 2 (nat (v mod 2 ^ 16))"

definition wav_header_writes :: "nat \<Rightarrow> nat \<Rightarrow> (nat \<times> byte list) list" where
  "wav_header_writes numSamples sampleRate =
     [(0, ascii_bytes ''RIFF''), (4, le_bytes 4 (36 + numSamples * 2)), (8, ascii_bytes ''WAVE''),
      (12, ascii_bytes ''fmt ''), (16, le_bytes 4 16), (20, le_bytes 2 1), (22, le_bytes 2 1),
      (24, le_bytes 4 sampleRate), (28, le_bytes 4 (sampleRate * 2)), (32, le_bytes 2 2), (34, le_bytes 2 16),
      (36, ascii_bytes ''data''), (40, le_bytes 4 (numSamples * 2))]"

definition wav_sample_writes :: "nat \<Rightarrow> jnumber list \<Rightarrow> (nat \<times> byte list) list" where
  "wav_sample_writes i samples =
     map (\<lambda>(j, x). (44 + j * 2, int16_bytes (pcm_value x))) (enumerate i samples)"

definition encodeWAV :: "jnumber list \<Rightarrow> nat \<Rightarrow> array_buffer res" where
  "encodeWAV samples sampleRate =
     (let numSamples = length samples
      in writes (replicate (44 + numSamples * 2) 0)
           (wav_header_writes numSamples sampleRate @ wav_sample_writes 0 samples))"

section \<open>Base64 and texts\<close>

definition chunk_size :: nat where
  "chunk_size = 8192"

text \<open>The loop over the chunks of a buffer.\<close>

function binary_chunks :: "nat \<Rightarrow> byte list \<Rightarrow> string" where
  "binary_chunks k bytes =
     (if bytes = [] \<or> k = 0 then []
      else map (\<lambda>b. char_of (unat b)) (take k bytes) @ binary_chunks k (drop k bytes))"
  by auto
termination by (relation "measure (\<lambda>(k, bytes). length bytes)") auto

declare binary_chunks.simps [simp del]

definition arrayBufferToBase64 :: "array_buffer \<Rightarrow> string" where
  "arrayBufferToBase64 buffer = btoa (binary_chunks chunk_size buffer)"

text \<open>\<open>toFixed(1)\<close> of a number that is not negative: the nearest tenth, the larger of two.\<close>

definition toFixed1 :: "rat \<Rightarrow> string" where
  "toFixed1 x = (let n = nat \<lfloor>x * 10 + 1 / 2\<rfloor> in show_nat (n div 10) @ ''.'' @ show_nat (n mod 10))"

definition formatFileSize :: "nat \<Rightarrow> string" where
  "formatFileSize bytes =
     (if bytes < 1024 then show_nat bytes @ '' B''
      else if bytes < 1024 * 1024 then toFixed1 (of_nat bytes / 1024) @ '' KB''
      else toFixed1 (of_nat bytes / (1024 * 1024)) @ '' MB'')"

definition formatTime :: "rat \<Rightarrow> string" where
  "formatTime ms =
     (let totalSec = nat \<lfloor>ms / 1000\<rfloor>; mins = totalSec div 60; secs = totalSec mod 60;
          millis = nat \<lfloor>ms - 1000 * of_int \<lfloor>ms / 1000\<rfloor>\<rfloor>
      in show_nat mins @ '':'' @ pad_left 2 (show_nat secs) @ ''.'' @ pad_left 3 (show_nat millis))"

definition formatDuration :: "rat \<Rightarrow> string" where
  "formatDuration seconds =
     (let mins = nat \<lfloor>seconds / 60\<rfloor>; secs = nat \<lfloor>seconds - 60 * of_int \<lfloor>seconds / 60\<rfloor>\<rfloor>
      in show_nat mins @ '':'' @ pad_left 2 (show_nat secs))"

section \<open>The bytes of a file\<close>

fun contiguous :: "nat \<Rightarrow> (nat \<times> byte list) list \<Rightarrow> bool" where
  "contiguous off [] = True"
| "contiguous off ((o', bs) # ws) = (o' = off \<and> contiguous (off + length bs) ws)"

lemma contiguous_append:
  "contiguous off (vs @ ws) \<longleftrightarrow> contiguous off vs \<and> contiguous (off + length (concat (map snd vs))) ws"
  by (induction off vs rule: contiguous.induct) (auto simp: add.assoc)

lemma writes_contiguous:
  assumes "contiguous (length pre) ws" "length (concat (map snd ws)) \<le> length rest"
  shows "writes (pre @ rest) ws = Inr (pre @ concat (map snd ws) @ drop (length (concat (map snd ws))) rest)"
  using assms
proof (induction ws arbitrary: pre rest)
  case (Cons w ws)
  obtain bs where w: "w = (length pre, bs)"
    using Cons.prems by (cases w) auto
  have "put_bytes (pre @ rest) (length pre) bs = Inr ((pre @ bs) @ drop (length bs) rest)"
    using Cons.prems by (simp add: put_bytes_def w)
  then show ?case
    using Cons.IH [of "pre @ bs" "drop (length bs) rest"] Cons.prems by (simp add: w add.commute)
qed simp

lemma length_int16 [simp]: "length (int16_bytes v) = 2"
  by (simp add: int16_bytes_def)

lemma length_ascii [simp]: "length (ascii_bytes s) = length s"
  by (simp add: ascii_bytes_def)

definition wav_header :: "nat \<Rightarrow> nat \<Rightarrow> byte list" where
  "wav_header numSamples sampleRate = concat (map snd (wav_header_writes numSamples sampleRate))"

definition wav_samples :: "jnumber list \<Rightarrow> byte list" where
  "wav_samples samples = concat (map (\<lambda>x. int16_bytes (pcm_value x)) samples)"

lemma length_wav_header [simp]: "length (wav_header n r) = 44"
  by (simp add: wav_header_def wav_header_writes_def)

lemma length_wav_samples [simp]: "length (wav_samples xs) = 2 * length xs"
  by (induction xs) (auto simp: wav_samples_def)

lemma sample_writes_bytes: "concat (map snd (wav_sample_writes i samples)) = wav_samples samples"
  by (induction samples arbitrary: i) (auto simp: wav_sample_writes_def wav_samples_def)

lemma sample_writes_contiguous: "contiguous (44 + i * 2) (wav_sample_writes i samples)"
proof (induction samples arbitrary: i)
  case (Cons x samples)
  have "44 + i * 2 + 2 = 44 + Suc i * 2" by simp
  with Cons [of "Suc i"] show ?case by (simp add: wav_sample_writes_def)
qed (simp add: wav_sample_writes_def)

lemma header_writes_contiguous: "contiguous 0 (wav_header_writes n r)"
  by (simp add: wav_header_writes_def)

lemma encodeWAV_bytes: "encodeWAV samples sampleRate = Inr (wav_header (length samples) sampleRate @ wav_samples samples)"
proof -
  let ?ws = "wav_header_writes (length samples) sampleRate @ wav_sample_writes 0 samples"
  have bytes: "concat (map snd ?ws) = wav_header (length samples) sampleRate @ wav_samples samples"
    by (simp add: sample_writes_bytes wav_header_def)
  have len: "length (concat (map snd ?ws)) = 44 + length samples * 2"
    unfolding bytes by simp
  have "contiguous 0 ?ws"
    using header_writes_contiguous sample_writes_contiguous [of 0 samples] length_wav_header
    by (simp add: contiguous_append wav_header_def)
  then have "writes ([] @ replicate (44 + length samples * 2) 0) ?ws
      = Inr ([] @ concat (map snd ?ws) @ drop (length (concat (map snd ?ws))) (replicate (44 + length samples * 2) 0))"
    by (intro writes_contiguous) (simp_all only: len length_replicate list.size)
  then show ?thesis
    unfolding encodeWAV_def Let_def len bytes by simp
qed

section \<open>Reading a file back\<close>

definition le_at :: "nat \<Rightarrow> nat \<Rightarrow> byte list \<Rightarrow> nat" where
  "le_at off k bs = of_le (take k (drop off bs))"

definition signed16 :: "nat \<Rightarrow> int" where
  "signed16 n = (if n < 2 ^ 15 then int n else int n - 2 ^ 16)"

definition sample_at :: "byte list \<Rightarrow> nat \<Rightarrow> int" where
  "sample_at bs i = signed16 (le_at (44 + 2 * i) 2 bs)"

lemma pcm_value_range: "- 0x8000 \<le> pcm_value x \<and> pcm_value x \<le> 0x7fff"
proof (cases "clamp x")
  case (Fin s)
  then have s: "-1 \<le> s" "s \<le> 1" by (cases x; auto)+
  show ?thesis
  proof (cases "s < 0")
    case True
    define f where "f = \<lfloor>- (s * 0x8000)\<rfloor>"
    have "0 \<le> f" "f \<le> 0x8000"
      unfolding f_def using s True by (simp_all add: floor_le_iff)
    moreover have "pcm_value x = - f"
      using True by (simp add: pcm_value_def Fin truncate_rat_def f_def)
    ultimately show ?thesis by simp
  next
    case False
    define f where "f = \<lfloor>s * 0x7fff\<rfloor>"
    have "0 \<le> f" "f \<le> 0x7fff"
      unfolding f_def using s False by (simp_all add: floor_le_iff)
    moreover have "pcm_value x = f"
      using False by (simp add: pcm_value_def Fin truncate_rat_def f_def)
    ultimately show ?thesis by simp
  qed
qed (simp_all add: pcm_value_def)

lemma signed16_bytes:
  assumes "- 0x8000 \<le> v" "v \<le> 0x7fff"
  shows "signed16 (of_le (int16_bytes v)) = v"
proof -
  have "of_le (int16_bytes v) = nat (v mod 2 ^ 16)"
    unfolding int16_bytes_def by (rule of_le_bytes_id) (simp add: nat_less_iff)
  moreover have "v mod 2 ^ 16 = (if v < 0 then v + 2 ^ 16 else v)"
  proof (cases "v < 0")
    case True
    then have "(v + 2 ^ 16) mod 2 ^ 16 = v + 2 ^ 16"
      using assms by (intro mod_pos_pos_trivial) simp_all
    with True show ?thesis by (simp only: mod_add_self2 if_True)
  qed (use assms in simp)
  ultimately show ?thesis
    using assms by (simp add: signed16_def nat_less_iff not_less le_nat_iff)
qed

lemma drop_samples: "drop (2 * i) (wav_samples xs) = wav_samples (drop i xs)"
proof (induction xs arbitrary: i)
  case (Cons x xs)
  then show ?case by (cases i) (simp_all add: wav_samples_def)
qed (simp add: wav_samples_def)

lemma sample_at_encoded:
  assumes "i < length xs"
  shows "sample_at (wav_header n r @ wav_samples xs) i = pcm_value (xs ! i)"
proof -
  have "drop (44 + 2 * i) (wav_header n r @ wav_samples xs) = wav_samples (drop i xs)"
    using assms by (simp add: drop_samples)
  moreover have "drop i xs = xs ! i # drop (Suc i) xs"
    using assms by (simp add: Cons_nth_drop_Suc)
  then have "wav_samples (drop i xs) = int16_bytes (pcm_value (xs ! i)) @ wav_samples (drop (Suc i) xs)"
    unfolding wav_samples_def by (simp only: list.map concat.simps)
  ultimately show ?thesis
    using pcm_value_range [of "xs ! i"] by (simp add: sample_at_def le_at_def signed16_bytes)
qed

text \<open>The loudness of a sample survives: the 16-bit value, read back on the scale of its sign, is within
  one step of the clamped sample.\<close>

theorem pcm_error_bound:
  assumes "clamp x = Fin s"
  shows "\<bar>of_int (pcm_value x) / (if s < 0 then 0x8000 else 0x7fff) - s\<bar> < 1 / 0x7fff"
proof (cases "s < 0")
  case True
  define d where "d = - (s * 0x8000) - of_int \<lfloor>- (s * 0x8000)\<rfloor>"
  have d: "0 \<le> d" "d < 1" unfolding d_def by linarith+
  have "of_int (pcm_value x) / 0x8000 - s = d / 0x8000"
    using True by (simp add: pcm_value_def assms truncate_rat_def d_def field_simps)
  with d True show ?thesis by simp
next
  case False
  define d where "d = s * 0x7fff - of_int \<lfloor>s * 0x7fff\<rfloor>"
  have d: "0 \<le> d" "d < 1" unfolding d_def by linarith+
  have "of_int (pcm_value x) / 0x7fff - s = - (d / 0x7fff)"
    using False by (simp add: pcm_value_def assms truncate_rat_def d_def field_simps)
  with d False show ?thesis by simp
qed

theorem pcm_error_bound_witness:
  "\<bar>of_int (pcm_value (Fin (1 / 3))) / 0x7fff - 1 / 3\<bar> < (1 / 0x7fff :: rat)"
  using pcm_error_bound [of "Fin (1 / 3)" "1 / 3"] by simp

text \<open>What a 16-bit value has to be for a sample: the sample, held between -1 and 1, on the scale of 32768 below
  zero and of 32767 above, cut towards zero.\<close>

fun sample_value_ok :: "jnumber \<Rightarrow> int \<Rightarrow> bool" where
  "sample_value_ok (Fin r) v \<longleftrightarrow>
     (if r < 0 then v \<le> 0 \<and> max (-1) r * 32768 \<le> of_int v \<and> of_int v < max (-1) r * 32768 + 1
      else 0 \<le> v \<and> of_int v \<le> min 1 r * 32767 \<and> min 1 r * 32767 < of_int v + 1)"
| "sample_value_ok PosInf v \<longleftrightarrow> v = 32767"
| "sample_value_ok NegInf v \<longleftrightarrow> v = -32768"
| "sample_value_ok NegZero v \<longleftrightarrow> v = 0"
| "sample_value_ok JNaN v \<longleftrightarrow> v = 0"

lemma pcm_value_ok: "sample_value_ok x (pcm_value x)"
proof (cases x)
  case (Fin r)
  show ?thesis
  proof (cases "r < 0")
    case True
    define f where "f = \<lfloor>- (max (-1) r * 0x8000)\<rfloor>"
    have f: "of_int f \<le> - (max (-1) r * 0x8000)" "- (max (-1) r * 0x8000) < of_int f + 1" "0 \<le> f"
      unfolding f_def using True by (linarith, linarith, simp)
    have "pcm_value x = - f"
      using True by (simp add: Fin pcm_value_def truncate_rat_def f_def min_def max_def)
    then show ?thesis using True f by (simp add: Fin)
  next
    case False
    define f where "f = \<lfloor>min 1 r * 0x7fff\<rfloor>"
    have f: "of_int f \<le> min 1 r * 0x7fff" "min 1 r * 0x7fff < of_int f + 1" "0 \<le> f"
      unfolding f_def using False by (linarith, linarith, simp)
    have "pcm_value x = f"
      using False by (simp add: Fin pcm_value_def truncate_rat_def f_def min_def max_def)
    then show ?thesis using False f by (simp add: Fin)
  qed
qed (simp_all add: pcm_value_def truncate_rat_def)

text \<open>C10. A recording as a file: encoding never fails, and, when the sizes and twice the rate fit in 32 bits
  (a file below 4 GiB, a rate below 2 GHz), the file has the RIFF and data sizes of its length and the given
  rate as mono 16-bit PCM, and the value at the place of each sample is the sample held between -1 and 1, on
  the scale of 32768 below zero and 32767 above, cut towards zero by less than one step; a sample that is
  not a number is silence.\<close>

theorem encodeWAV_file:
  assumes "36 + 2 * length samples < 2 ^ 32" "sampleRate * 2 < 2 ^ 32"
  shows "\<exists>bs. encodeWAV samples sampleRate = Inr bs \<and> length bs = 44 + 2 * length samples
     \<and> take 4 bs = ascii_bytes ''RIFF'' \<and> le_at 4 4 bs = length bs - 8
     \<and> take 8 (drop 8 bs) = ascii_bytes ''WAVEfmt '' \<and> le_at 16 4 bs = 16
     \<and> le_at 20 2 bs = 1 \<and> le_at 22 2 bs = 1 \<and> le_at 24 4 bs = sampleRate \<and> le_at 28 4 bs = 2 * sampleRate
     \<and> le_at 32 2 bs = 2 \<and> le_at 34 2 bs = 16
     \<and> take 4 (drop 36 bs) = ascii_bytes ''data'' \<and> le_at 40 4 bs = 2 * length samples
     \<and> (\<forall>i < length samples. sample_value_ok (samples ! i) (sample_at bs i))"
proof -
  have fields: "take 4 (wav_header n r @ rest) = ascii_bytes ''RIFF''"
    "take 8 (drop 8 (wav_header n r @ rest)) = ascii_bytes ''WAVEfmt ''" "take 4 (drop 36 (wav_header n r @ rest)) = ascii_bytes ''data''"
    "le_at 16 4 (wav_header n r @ rest) = 16" "le_at 28 4 (wav_header n r @ rest) = (r * 2) mod 2 ^ 32"
    "le_at 32 2 (wav_header n r @ rest) = 2"
    "le_at 4 4 (wav_header n r @ rest) = (36 + 2 * n) mod 2 ^ 32" "le_at 20 2 (wav_header n r @ rest) = 1"
    "le_at 22 2 (wav_header n r @ rest) = 1" "le_at 24 4 (wav_header n r @ rest) = r mod 2 ^ 32"
    "le_at 34 2 (wav_header n r @ rest) = 16" "le_at 40 4 (wav_header n r @ rest) = (2 * n) mod 2 ^ 32" for n r rest
    by (simp_all add: wav_header_def wav_header_writes_def le_at_def of_le_bytes mult.commute ascii_bytes_def)
  show ?thesis
    using assms by (intro exI [of _ "wav_header (length samples) sampleRate @ wav_samples samples"])
      (simp add: encodeWAV_bytes fields sample_at_encoded pcm_value_ok mult.commute del: take_append drop_append)
qed

theorem encodeWAV_file_witness:
  "\<exists>bs. encodeWAV [Fin (-1), PosInf, JNaN] 16000 = Inr bs \<and> sample_at bs 0 = -32768 \<and> sample_at bs 1 = 32767
     \<and> sample_at bs 2 = 0"
proof -
  obtain bs where "encodeWAV [Fin (-1), PosInf, JNaN] 16000 = Inr bs"
    and at: "\<forall>i < 3. sample_value_ok ([Fin (-1), PosInf, JNaN] ! i) (sample_at bs i)"
    using encodeWAV_file [of "[Fin (-1), PosInf, JNaN]" 16000] by auto
  then show ?thesis
    using at [rule_format, of 0] at [rule_format, of 1] at [rule_format, of 2] by auto
qed

section \<open>Texts\<close>

lemma binary_chunks_all: "0 < k \<Longrightarrow> binary_chunks k bytes = map (\<lambda>b. char_of (unat b)) bytes"
proof (induction k bytes rule: binary_chunks.induct)
  case (1 k bytes)
  then show ?case
    by (subst binary_chunks.simps) (auto simp flip: map_append)
qed

text \<open>The request carries the recording: whatever the size of the chunks, the base64 text decodes to the
  bytes of the buffer.\<close>

theorem base64_of_buffer:
  "map_option (map (\<lambda>c. word_of_nat (of_char c) :: byte)) (atob (arrayBufferToBase64 buffer)) = Some buffer"
proof -
  have byte: "word_of_nat (unat b mod 256) = b" for b :: byte
    using unat_byte_less [of b] by simp
  show ?thesis
    by (simp add: arrayBufferToBase64_def binary_chunks_all chunk_size_def o_def byte map_idI)
qed

text \<open>A duration reads back: the minutes and the two-digit seconds shown are the whole seconds of the
  duration, and the seconds stay below a minute.\<close>

theorem duration_reads_back:
  assumes "0 \<le> s"
  shows "\<exists>m d. formatDuration s = show_nat m @ '':'' @ pad_left 2 (show_nat d) \<and> d < 60 \<and> 60 * m + d = nat \<lfloor>s\<rfloor>"
proof -
  define q where "q = \<lfloor>s / 60\<rfloor>"
  have q: "0 \<le> q" "60 * of_int q \<le> s" "s < 60 * of_int q + 60"
    using assms floor_correct [of "s / 60"] by (simp_all add: q_def field_simps)
  have d: "\<lfloor>s - 60 * of_int q\<rfloor> = \<lfloor>s\<rfloor> - 60 * q"
    by (metis floor_diff_of_int of_int_mult of_int_numeral)
  have "\<lfloor>s\<rfloor> < 60 * q + 60" "60 * q \<le> \<lfloor>s\<rfloor>"
    using q by (simp_all add: floor_less_iff le_floor_iff)
  then show ?thesis
    using q(1)
    by (rule_tac exI [of _ "nat q"], rule_tac exI [of _ "nat (\<lfloor>s\<rfloor> - 60 * q)"])
       (simp add: formatDuration_def q_def [symmetric] d Let_def, arith)
qed

theorem duration_reads_back_witness:
  "\<exists>m d. formatDuration (151 / 2) = show_nat m @ '':'' @ pad_left 2 (show_nat d) \<and> d < 60 \<and> 60 * m + d = 75"
proof -
  have "\<lfloor>151 / 2 :: rat\<rfloor> = 75" by (rule floor_unique) simp_all
  then show ?thesis using duration_reads_back [of "151 / 2"] by simp
qed

end
