(* ===== verification/ServerStatus.thy ===== *)
theory ServerStatus
  imports Prelude
begin

text \<open>
  What the dashboard knows of its servers: whether they answer
  (ts/apps/antfarm/src/hooks/use-connection-status.ts), the state of the cluster
  (hooks/use-cluster-status.ts) and the tables made of its shards (pages/ClusterPage.tsx), and the
  registry of models with its cache (hooks/use-termite-registry.ts).

  Requests are events that end in a response or a rejection. Names are compared by the browser's
  collation, given by the key \<open>collate\<close> of a name. Sizes and times are not negative.
\<close>

section \<open>Connections\<close>

datatype server_status = Connected | Disconnected | Checking

record connection =
  cn_antfly :: server_status
  cn_termite :: server_status
  cn_mounted :: bool

datatype server = AntflyServer | TermiteServer

type_synonym enabled = "server \<Rightarrow> bool"

fun status_of :: "server \<Rightarrow> connection \<Rightarrow> server_status" where
  "status_of AntflyServer c = cn_antfly c"
| "status_of TermiteServer c = cn_termite c"

fun set_status :: "server \<Rightarrow> server_status \<Rightarrow> connection \<Rightarrow> connection" where
  "set_status AntflyServer x c = c\<lparr>cn_antfly := x\<rparr>"
| "set_status TermiteServer x c = c\<lparr>cn_termite := x\<rparr>"

text \<open>
  \<open>checkAntfly\<close> and \<open>checkTermite\<close>: a disabled product is connected at once; otherwise the request ends
  with \<open>response.ok\<close> or a rejection (\<open>None\<close>), which counts while the component is mounted.
\<close>

definition check_start :: "enabled \<Rightarrow> server \<Rightarrow> connection \<Rightarrow> connection" where
  "check_start enabled srv c = (if \<not> enabled srv then set_status srv Connected c else c)"

definition check_done :: "enabled \<Rightarrow> server \<Rightarrow> bool option \<Rightarrow> connection \<Rightarrow> connection" where
  "check_done enabled srv answer c =
     (if \<not> enabled srv \<or> \<not> cn_mounted c then c
      else set_status srv (if answer = Some True then Connected else Disconnected) c)"

definition retry :: "enabled \<Rightarrow> connection \<Rightarrow> connection" where
  "retry enabled c =
     (let c = (if enabled AntflyServer then set_status AntflyServer Checking c else c);
          c = (if enabled TermiteServer then set_status TermiteServer Checking c else c)
      in check_start enabled TermiteServer (check_start enabled AntflyServer c))"

text \<open>The effect of the mount, its cleanup, and the servers that the timer checks again.\<close>

definition mount_effect :: "enabled \<Rightarrow> connection \<Rightarrow> connection" where
  "mount_effect enabled c =
     check_start enabled TermiteServer (check_start enabled AntflyServer (c\<lparr>cn_mounted := True\<rparr>))"

definition mount_cleanup :: "connection \<Rightarrow> connection" where
  "mount_cleanup c = c\<lparr>cn_mounted := False\<rparr>"

definition interval_checks :: "connection \<Rightarrow> server list" where
  "interval_checks c = filter (\<lambda>srv. status_of srv c = Disconnected) [AntflyServer, TermiteServer]"

section \<open>The cluster\<close>

record cluster =
  cu_loading :: bool
  cu_error :: "string option"
  cu_health :: jsval
  cu_message :: jsval
  cu_swarmMode :: bool
  cu_authEnabled :: bool
  cu_stores :: jsval
  cu_shards :: jsval
  cu_metadataInfo :: jsval

text \<open>\<open>fetchStatus\<close> when the SDK's \<open>getStatus\<close> has ended.\<close>

definition fetchStatus :: "jsval res \<Rightarrow> cluster \<Rightarrow> cluster" where
  "fetchStatus answer c =
     (let c = c\<lparr>cu_loading := False\<rparr> in
      case answer of
        Inl e \<Rightarrow> c\<lparr>cu_error := Some (case e of ErrorObj _ m \<Rightarrow> m | NonError _ \<Rightarrow> ''Failed to fetch cluster status'')\<rparr>
      | Inr data \<Rightarrow>
          if \<not> truthy data then c\<lparr>cu_error := Some ''No data returned from status endpoint''\<rparr>
          else c\<lparr>cu_health := coalesce (fld data ''health'') (JStr ''unknown''), cu_message := fld data ''message'',
                 cu_swarmMode := truthy (fld data ''swarm_mode''), cu_authEnabled := truthy (fld data ''auth_enabled''),
                 cu_stores := coalesce (fld (fld data ''stores'') ''statuses'') (JObj []),
                 cu_shards := coalesce (fld (fld data ''shards'') ''statuses'') (JObj []),
                 cu_metadataInfo := fld data ''metadata_info'', cu_error := None\<rparr>)"

definition cluster_refresh :: "cluster \<Rightarrow> cluster" where
  "cluster_refresh c = c\<lparr>cu_loading := True\<rparr>"

record shard =
  sh_id :: string
  sh_table :: string
  sh_state :: string
  sh_peers :: "string list option"
  sh_leader :: "string option"
  sh_initializing :: bool
  sh_splitting :: bool
  sh_disk_size :: "rat option"

definition truncateId :: "string \<Rightarrow> nat \<Rightarrow> string" where
  "truncateId i len = (if length i > len then take len i @ ''...'' else i)"

definition truncateRange :: "string \<Rightarrow> string" where
  "truncateRange r = (if r = [] then [] else if length r > 6 then take 6 r @ ''..'' else r)"

definition timeAgo :: "rat \<Rightarrow> string" where
  "timeAgo diff =
     (if diff < 1000 then ''now''
      else if diff < 60000 then show_nat (nat \<lfloor>diff / 1000\<rfloor>) @ ''s ago''
      else if diff < 3600000 then show_nat (nat \<lfloor>diff / 60000\<rfloor>) @ ''m ago''
      else show_nat (nat \<lfloor>diff / 3600000\<rfloor>) @ ''h ago'')"

datatype shard_role = Leader | Follower | Initializing | Splitting | Unassigned

definition is_peer :: "string \<Rightarrow> shard \<Rightarrow> bool" where
  "is_peer storeId s \<longleftrightarrow> (case sh_peers s of None \<Rightarrow> False | Some ps \<Rightarrow> storeId \<in> set ps)"

definition getShardRole :: "shard \<Rightarrow> string \<Rightarrow> shard_role" where
  "getShardRole s storeId =
     (if sh_initializing s then Initializing
      else if sh_splitting s then Splitting
      else if \<not> is_peer storeId s then Unassigned
      else if sh_leader s = Some storeId then Leader
      else Follower)"

definition getShardDiskSize :: "shard \<Rightarrow> rat" where
  "getShardDiskSize s = (case sh_disk_size s of None \<Rightarrow> 0 | Some n \<Rightarrow> n)"

record table_row =
  tr_name :: string
  tr_shardCount :: nat
  tr_totalDisk :: rat
  tr_shards :: "shard list"

definition add_shard :: "shard \<Rightarrow> (string, shard list) jmap \<Rightarrow> (string, shard list) jmap" where
  "add_shard s tables =
     jmap_set tables (sh_table s) ((case jmap_get tables (sh_table s) of None \<Rightarrow> [] | Some ss \<Rightarrow> ss) @ [s])"

definition table_row_of :: "string \<times> shard list \<Rightarrow> table_row" where
  "table_row_of = (\<lambda>(name, ss).
     \<lparr>tr_name = name, tr_shardCount = length ss, tr_totalDisk = sum_list (map getShardDiskSize ss), tr_shards = ss\<rparr>)"

definition buildTableRows :: "(string \<Rightarrow> 'k :: linorder) \<Rightarrow> (string \<times> shard) list \<Rightarrow> table_row list" where
  "buildTableRows collate shards =
     sort_key (\<lambda>r. collate (tr_name r)) (map table_row_of (fold add_shard (map snd shards) []))"

definition getShardsForCell :: "shard list \<Rightarrow> string \<Rightarrow> shard list" where
  "getShardsForCell tableShards storeId = filter (is_peer storeId) tableShards"

definition getTotalDisk :: "(string \<times> shard) list \<Rightarrow> rat" where
  "getTotalDisk shards = sum_list (map getShardDiskSize (map snd shards))"

definition getStoreShardCount :: "(string \<times> shard) list \<Rightarrow> string \<Rightarrow> nat" where
  "getStoreShardCount shards storeId = length (filter (is_peer storeId) (map snd shards))"

section \<open>The registry\<close>

text \<open>\<open>toFixed(d)\<close> of a number that is not negative.\<close>

definition toFixed :: "nat \<Rightarrow> rat \<Rightarrow> string" where
  "toFixed d x = (let n = nat \<lfloor>x * 10 ^ d + 1 / 2\<rfloor>
     in show_nat (n div 10 ^ d) @ ''.'' @ pad_left d (show_nat (n mod 10 ^ d)))"

definition formatBytes :: "nat \<Rightarrow> string" where
  "formatBytes bytes =
     (if bytes < 1024 then show_nat bytes @ '' B''
      else if bytes < 1024 * 1024 then toFixed 1 (of_nat bytes / 1024) @ '' KB''
      else if bytes < 1024 * 1024 * 1024 then toFixed 1 (of_nat bytes / (1024 * 1024)) @ '' MB''
      else toFixed 2 (of_nat bytes / (1024 * 1024 * 1024)) @ '' GB'')"

record registry_model =
  rm_name :: string
  rm_source :: string
  rm_type :: string
  rm_description :: string
  rm_capabilities :: jsval
  rm_variants :: jsval
  rm_backends :: jsval
  rm_size :: "nat option"

record termite_model =
  tm_id :: string
  tm_name :: string
  tm_source :: string
  tm_sourceUrl :: string
  tm_type :: string
  tm_description :: string
  tm_capabilities :: jsval
  tm_variants :: jsval
  tm_backends :: jsval
  tm_size :: "string option"
  tm_inRegistry :: bool

definition transformModel :: "registry_model \<Rightarrow> termite_model" where
  "transformModel m =
     \<lparr>tm_id = map (\<lambda>c. if c = CHR ''_'' then CHR ''-'' else c) (to_lower (rm_name m)),
      tm_name = rm_name m, tm_source = rm_source m,
      tm_sourceUrl = (if rm_source m \<noteq> [] then ''https://huggingface.co/'' @ rm_source m else []),
      tm_type = rm_type m, tm_description = rm_description m, tm_capabilities = rm_capabilities m,
      tm_variants = js_or (rm_variants m) (JArr []), tm_backends = rm_backends m,
      tm_size = (case rm_size m of None \<Rightarrow> None | Some n \<Rightarrow> if n = 0 then None else Some (formatBytes n)),
      tm_inRegistry = True\<rparr>"

text \<open>
  The module's cache and one component: what it shows and whether it is mounted. The static lists of
  types and quantization options are shown with the models.
\<close>

record registry =
  rg_cache :: "termite_model list option"
  rg_models :: "termite_model list"
  rg_loading :: bool
  rg_error :: "string option"
  rg_mounted :: bool

datatype registry_answer = NotOk nat | Models "registry_model list" | Rejected js_exn

definition registry_open :: "termite_model list option \<Rightarrow> registry" where
  "registry_open cache =
     \<lparr>rg_cache = cache, rg_models = (case cache of None \<Rightarrow> [] | Some ms \<Rightarrow> ms), rg_loading = (cache = None),
      rg_error = None, rg_mounted = True\<rparr>"

definition fetch_start :: "registry \<Rightarrow> registry" where
  "fetch_start r = r\<lparr>rg_loading := True, rg_error := None\<rparr>"

definition registry_failed :: "string \<Rightarrow> registry \<Rightarrow> registry" where
  "registry_failed m r = (if \<not> rg_mounted r then r else r\<lparr>rg_error := Some m, rg_loading := False\<rparr>)"

definition fetch_done :: "registry_answer \<Rightarrow> registry \<Rightarrow> registry" where
  "fetch_done answer r =
     (case answer of
        NotOk status \<Rightarrow> registry_failed (''Failed to fetch registry: '' @ show_nat status) r
      | Models ms \<Rightarrow>
          if \<not> rg_mounted r then r
          else r\<lparr>rg_cache := Some (map transformModel ms), rg_models := map transformModel ms, rg_loading := False\<rparr>
      | Rejected e \<Rightarrow>
          (case e of
             ErrorObj n m \<Rightarrow> if n = ''AbortError'' then r else registry_failed m r
           | NonError _ \<Rightarrow> registry_failed ''Failed to fetch model registry'' r))"

section \<open>Checks of the servers\<close>

lemma status_set [simp]: "status_of s (set_status t x c) = (if s = t then x else status_of s c)"
  by (cases s; cases t) auto

lemma mounted_set [simp]: "cn_mounted (set_status t x c) = cn_mounted c"
  by (cases t) auto

lemma set_twice [simp]: "set_status t x (set_status t y c) = set_status t x c"
  by (cases t) auto

text \<open>A check settles its server and no other: while the page is mounted, a server that answered well is
  connected and any other end of the request disconnects it; a disabled server is connected without
  a request; and the timer asks exactly the disconnected ones again.\<close>

theorem check_settles:
  assumes "cn_mounted c"
  shows "status_of s (check_done enabled s answer (retry enabled c)) =
           (if \<not> enabled s then Connected else if answer = Some True then Connected else Disconnected)
       \<and> (s' \<noteq> s \<longrightarrow> status_of s' (check_done enabled s answer c) = status_of s' c)
       \<and> set (interval_checks c) = {t. status_of t c = Disconnected}"
proof -
  have "t \<in> set (interval_checks c) \<longleftrightarrow> t \<in> {t. status_of t c = Disconnected}" for t
    by (cases t) (auto simp: interval_checks_def simp del: status_of.simps)
  then have "set (interval_checks c) = {t. status_of t c = Disconnected}" by blast
  then show ?thesis
    using assms by (cases s; cases s') (auto simp: check_done_def retry_def check_start_def Let_def)
qed

definition demo_connection :: connection where
  "demo_connection = \<lparr>cn_antfly = Checking, cn_termite = Connected, cn_mounted = True\<rparr>"

theorem check_settles_witness:
  "status_of AntflyServer (check_done (\<lambda>_. True) AntflyServer None (retry (\<lambda>_. True) demo_connection)) = Disconnected"
  using check_settles [of demo_connection AntflyServer "\<lambda>_. True" None] by (simp add: demo_connection_def)

text \<open>A cancelled check counts against the server: when the address of the inference server changes, the
  cleanup cancels the running checks, the new effect marks the page mounted again, and only then the
  cancelled request is rejected, so the other server is shown as disconnected without an answer.\<close>

theorem cancelled_check_disconnects:
  assumes "enabled s"
  shows "status_of s (check_done enabled s None (mount_effect enabled (mount_cleanup c))) = Disconnected"
  using assms by (cases s) (auto simp: check_done_def mount_effect_def check_start_def)

theorem cancelled_check_disconnects_witness:
  "status_of AntflyServer (check_done (\<lambda>_. True) AntflyServer None (mount_effect (\<lambda>_. True) (mount_cleanup demo_connection)))
     = Disconnected"
  by (rule cancelled_check_disconnects) simp

section \<open>The cluster\<close>

text \<open>A failed refresh keeps the last known cluster: it ends the loading and says why, and changes nothing
  else; a good one replaces everything and clears the error.\<close>

theorem failed_refresh_keeps_cluster:
  "(\<not> (\<exists>data. answer = Inr data \<and> truthy data) \<longrightarrow>
      cu_error (fetchStatus answer c) \<noteq> None \<and> (fetchStatus answer c)\<lparr>cu_error := None\<rparr> = c\<lparr>cu_error := None, cu_loading := False\<rparr>)
   \<and> (answer = Inr data \<and> truthy data \<longrightarrow> cu_error (fetchStatus answer c) = None
      \<and> cu_shards (fetchStatus answer c) = coalesce (fld (fld data ''shards'') ''statuses'') (JObj []))
   \<and> \<not> cu_loading (fetchStatus answer c)"
  by (cases answer) (auto simp: fetchStatus_def Let_def)

theorem failed_refresh_keeps_cluster_witness:
  "cu_error (fetchStatus (Inr JNull) \<lparr>cu_loading = True, cu_error = None, cu_health = JStr ''healthy'', cu_message = JUndef,
     cu_swarmMode = False, cu_authEnabled = False, cu_stores = JObj [], cu_shards = JObj [], cu_metadataInfo = JUndef\<rparr>) \<noteq> None"
  using failed_refresh_keeps_cluster [of "Inr JNull"] by simp

lemma add_shard_fold_get:
  "jmap_get (fold add_shard ss m) k =
     (let new = filter (\<lambda>s. sh_table s = k) ss in
      case jmap_get m k of None \<Rightarrow> if new = [] then None else Some new | Some old \<Rightarrow> Some (old @ new))"
  by (induction ss arbitrary: m) (auto simp: add_shard_def Let_def split: option.splits)

lemma add_shard_fold_ok: "jmap_ok m \<Longrightarrow> jmap_ok (fold add_shard ss m)"
  by (induction ss arbitrary: m) (auto simp: add_shard_def)

lemma add_shard_sum:
  fixes f :: "shard \<Rightarrow> 'a :: comm_monoid_add"
  shows "sum_list (map (\<lambda>(k, g). sum_list (map f g)) (add_shard s m))
       = sum_list (map (\<lambda>(k, g). sum_list (map f g)) m) + f s"
proof (induction m)
  case (Cons p m)
  obtain k g where p: "p = (k, g)" by fastforce
  show ?case
  proof (cases "k = sh_table s")
    case True
    then show ?thesis by (simp add: add_shard_def jmap_set_def jmap_get_def p ac_simps)
  next
    case False
    have "jmap_get ((k, g) # m) (sh_table s) = jmap_get m (sh_table s)"
      using False by (simp add: jmap_get_def)
    then have "add_shard s ((k, g) # m) = (k, g) # add_shard s m"
      using False by (simp add: add_shard_def jmap_set_def)
    then show ?thesis using Cons by (simp add: p ac_simps)
  qed
qed (simp add: add_shard_def jmap_set_def)

lemma add_shard_fold_sum:
  fixes f :: "shard \<Rightarrow> 'a :: comm_monoid_add"
  shows "sum_list (map (\<lambda>(k, g). sum_list (map f g)) (fold add_shard ss m))
       = sum_list (map (\<lambda>(k, g). sum_list (map f g)) m) + sum_list (map f ss)"
  by (induction ss arbitrary: m) (simp_all add: add_shard_sum ac_simps)

lemma sum_list_sort_key: "sum_list (map f (sort_key k xs)) = sum_list (map f xs)" for f :: "'b \<Rightarrow> 'a :: comm_monoid_add"
proof -
  have "sum_list (map f (insort_key k x ys)) = f x + sum_list (map f ys)" for x ys
    by (induction ys) (auto simp: ac_simps)
  then show ?thesis
    by (induction xs) simp_all
qed

text \<open>The tables of a cluster account for its shards: each table has one row, with the shards of that table
  in their order, and over all rows the counts and the sizes add up to those of the cluster.\<close>

theorem rows_account_for_shards:
  fixes collate :: "string \<Rightarrow> 'k :: linorder"
  shows "sum_list (map tr_shardCount (buildTableRows collate shards)) = length shards
   \<and> sum_list (map tr_totalDisk (buildTableRows collate shards)) = getTotalDisk shards
   \<and> distinct (map tr_name (buildTableRows collate shards))
   \<and> list_all (\<lambda>r. tr_shards r = filter (\<lambda>s. sh_table s = tr_name r) (map snd shards) \<and> tr_shards r \<noteq> [])
        (buildTableRows collate shards)"
proof -
  let ?m = "fold add_shard (map snd shards) []"
  have ok: "jmap_ok ?m" by (rule add_shard_fold_ok) simp
  have group_eq: "g = filter (\<lambda>s. sh_table s = k) (map snd shards) \<and> g \<noteq> []" if "(k, g) \<in> set ?m" for k g
    using that add_shard_fold_get [of "map snd shards" "[]" k] jmap_get_iff [OF ok, of k g]
    by (auto simp: Let_def split: if_splits)
  have "distinct (map tr_name (map table_row_of ?m))"
    using ok by (simp add: jmap_ok_def table_row_of_def o_def split_def)
  then have "distinct (map tr_name (buildTableRows collate shards))"
    by (auto simp: buildTableRows_def distinct_map dest: inj_on_imageI inj_on_imageI2)
  moreover have "sum_list (map tr_shardCount (map table_row_of ?m)) = length shards"
    using add_shard_fold_sum [of "\<lambda>_. 1 :: nat" "map snd shards" "[]"]
    by (simp add: table_row_of_def o_def split_def sum_list_triv)
  moreover have "sum_list (map tr_totalDisk (map table_row_of ?m)) = getTotalDisk shards"
    using add_shard_fold_sum [of getShardDiskSize "map snd shards" "[]"]
    by (simp add: table_row_of_def o_def split_def getTotalDisk_def)
  moreover have "list_all (\<lambda>r. tr_shards r = filter (\<lambda>s. sh_table s = tr_name r) (map snd shards) \<and> tr_shards r \<noteq> [])
      (buildTableRows collate shards)"
    using group_eq by (auto simp: list_all_iff buildTableRows_def table_row_of_def)
  ultimately show ?thesis
    by (simp add: buildTableRows_def sum_list_sort_key del: map_map)
qed

text \<open>One leader: of the stores of a shard at most one is shown as its leader, and only a store that
  holds the shard is; a shard on the move has no leader shown.\<close>

theorem one_leader_shown:
  "(getShardRole s a = Leader \<and> getShardRole s b = Leader \<longrightarrow> a = b)
   \<and> (getShardRole s a = Leader \<longrightarrow> is_peer a s \<and> \<not> sh_initializing s \<and> \<not> sh_splitting s)"
  by (auto simp: getShardRole_def split: if_splits)

theorem one_leader_shown_witness:
  "getShardRole \<lparr>sh_id = ''1'', sh_table = ''t'', sh_state = [], sh_peers = Some [''a'', ''b''], sh_leader = Some ''a'',
     sh_initializing = False, sh_splitting = False, sh_disk_size = None\<rparr> ''b'' \<noteq> Leader"
  using one_leader_shown [of "\<lparr>sh_id = ''1'', sh_table = ''t'', sh_state = [], sh_peers = Some [''a'', ''b''],
      sh_leader = Some ''a'', sh_initializing = False, sh_splitting = False, sh_disk_size = None\<rparr>" "''a''" "''b''"]
  by (auto simp: getShardRole_def is_peer_def)

section \<open>The registry\<close>

text \<open>The cache and the component agree: what is cached is what is shown, once it has loaded.\<close>

definition models_ok :: "registry \<Rightarrow> bool" where
  "models_ok r \<longleftrightarrow> (rg_cache r \<noteq> None \<longrightarrow> rg_models r = the (rg_cache r)) \<and> (rg_cache r = None \<longrightarrow> rg_models r = [])
     \<and> list_all tm_inRegistry (rg_models r)"

text \<open>The registry fails softly: whatever a request of a mounted component ends in, the models of the last
  good answer stay, a failure is shown, an aborted request is not, and a good answer is cached for the
  next component, which shows it without a request.\<close>

theorem registry_keeps_models:
  assumes "models_ok r" "rg_mounted r" "r' = fetch_done answer (fetch_start r)"
  shows "models_ok r'
       \<and> ((\<forall>ms. answer \<noteq> Models ms) \<longrightarrow> rg_models r' = rg_models r)
       \<and> (answer = Models ms \<longrightarrow> rg_models (registry_open (rg_cache r')) = map transformModel ms
            \<and> \<not> rg_loading (registry_open (rg_cache r')) \<and> rg_error r' = None \<and> \<not> rg_loading r')
       \<and> (answer = NotOk n \<longrightarrow> rg_error r' \<noteq> None \<and> \<not> rg_loading r')"
  using assms
  by (cases answer)
     (auto simp: models_ok_def fetch_done_def fetch_start_def registry_failed_def registry_open_def
        transformModel_def list_all_iff split: js_exn.splits)

theorem registry_keeps_models_witness:
  "rg_error (fetch_done (NotOk 404) (fetch_start (registry_open None))) \<noteq> None"
  using registry_keeps_models [of "registry_open None" _ "NotOk 404" "[]" 404]
  by (simp add: models_ok_def registry_open_def)

end
