(* ===== verification/Palette.thy ===== *)
theory Palette
  imports Prelude
begin

text \<open>
  The command palette of the dashboard (ts/apps/antfarm/src/components/command-palette-provider.tsx)
  and its semantic search (lib/semantic-search.ts). \<open>embed_call\<close> is the client's request for the vector of
  a query. Vectors and scores are real numbers here: the order and the bounds of scores are those of
  exact arithmetic. The delayed search is a timer and a request that ends in an event of its own.
\<close>

section \<open>Semantic search\<close>

record command_item =
  ci_id :: string
  ci_type :: string
  ci_label :: string
  ci_description :: string
  ci_href :: "string option"
  ci_action :: "string option"
  ci_icon :: string

record semantic_result =
  sr_item :: command_item
  sr_score :: real

definition dot :: "real list \<Rightarrow> real list \<Rightarrow> real" where
  "dot a b = sum_list (map2 (*) a b)"

definition cosineSimilarity :: "real list \<Rightarrow> real list \<Rightarrow> real res" where
  "cosineSimilarity a b =
     (if length a \<noteq> length b
      then throw_error (''Vector length mismatch: '' @ show_nat (length a) @ '' vs '' @ show_nat (length b))
      else (let denominator = sqrt (dot a a) * sqrt (dot b b)
            in Inr (if denominator = 0 then 0 else dot a b / denominator)))"

fun map_res :: "('a \<Rightarrow> 'b res) \<Rightarrow> 'a list \<Rightarrow> 'b list res" where
  "map_res f [] = Inr []"
| "map_res f (x # xs) =
     (case f x of Inl e \<Rightarrow> Inl e | Inr y \<Rightarrow> map_sum id ((#) y) (map_res f xs))"

definition score_command :: "real list \<Rightarrow> command_item \<times> real list \<Rightarrow> semantic_result res" where
  "score_command queryVec = (\<lambda>(item, embedding).
     map_sum id (\<lambda>s. \<lparr>sr_item = item, sr_score = s\<rparr>) (cosineSimilarity queryVec embedding))"

definition top_results :: "nat \<Rightarrow> semantic_result list \<Rightarrow> semantic_result list" where
  "top_results limit scored = take limit (sort_key (\<lambda>r. - sr_score r) scored)"

text \<open>Every failure is an empty list, and so is an answer without a vector.\<close>

definition semanticSearch ::
    "(string \<Rightarrow> real list list option res) \<Rightarrow> (command_item \<times> real list) list \<Rightarrow> string \<Rightarrow> nat \<Rightarrow> semantic_result list" where
  "semanticSearch embed_call commands query limit =
     (case embed_call query of
        Inr (Some (queryVec # _)) \<Rightarrow>
          (case map_res (score_command queryVec) commands of
             Inr scored \<Rightarrow> top_results limit scored
           | Inl _ \<Rightarrow> [])
      | _ \<Rightarrow> [])"

section \<open>The palette\<close>

definition all_items :: "string list" where
  "all_items =
     [''Tables'', ''Create Table'', ''Models'', ''Users'', ''Chunking Playground'', ''Recognize Playground'',
      ''Rewriting Playground'', ''Reranking Playground'', ''Knowledge Graph'', ''Evals'', ''Toggle Theme'',
      ''Toggle Content Width'']"

definition hasStringMatches :: "string \<Rightarrow> bool" where
  "hasStringMatches searchValue \<longleftrightarrow>
     searchValue = [] \<or> list_ex (\<lambda>label. str_includes (to_lower label) (to_lower searchValue)) all_items"

record palette =
  pa_open :: bool
  pa_value :: string
  pa_results :: "semantic_result list"
  pa_searching :: bool
  pa_timer :: "string option"
  pa_inflight :: "string list"

text \<open>The effect on the search text, after the cleanup that clears the timer.\<close>

definition search_effect :: "palette \<Rightarrow> palette" where
  "search_effect p =
     (let p = p\<lparr>pa_timer := None\<rparr> in
      if hasStringMatches (pa_value p) \<or> length (pa_value p) < 2 then p\<lparr>pa_results := []\<rparr>
      else p\<lparr>pa_searching := True, pa_timer := Some (pa_value p)\<rparr>)"

definition type_text :: "string \<Rightarrow> palette \<Rightarrow> palette" where
  "type_text t p = (if t = pa_value p then p else search_effect (p\<lparr>pa_value := t\<rparr>))"

definition timer_fires :: "palette \<Rightarrow> palette" where
  "timer_fires p = (case pa_timer p of
     None \<Rightarrow> p | Some t \<Rightarrow> p\<lparr>pa_timer := None, pa_inflight := pa_inflight p @ [t]\<rparr>)"

text \<open>A request that ends, whichever text it was for.\<close>

definition search_done :: "string \<Rightarrow> semantic_result list \<Rightarrow> palette \<Rightarrow> palette" where
  "search_done t results p =
     (if t \<in> set (pa_inflight p)
      then p\<lparr>pa_results := results, pa_searching := False, pa_inflight := remove1 t (pa_inflight p)\<rparr> else p)"

definition set_open :: "bool \<Rightarrow> palette \<Rightarrow> palette" where
  "set_open b p =
     (if b then p\<lparr>pa_open := True\<rparr>
      else (type_text [] (p\<lparr>pa_open := False\<rparr>))\<lparr>pa_results := [], pa_searching := False\<rparr>)"

definition palette_toggle :: "palette \<Rightarrow> palette" where
  "palette_toggle p = set_open (\<not> pa_open p) p"

datatype palette_event =
    Toggle | TypeText string | TimerFires | SearchDone string "semantic_result list" | Close

fun palette_step :: "palette_event \<Rightarrow> palette \<Rightarrow> palette" where
  "palette_step Toggle = palette_toggle"
| "palette_step (TypeText t) = type_text t"
| "palette_step TimerFires = timer_fires"
| "palette_step (SearchDone t rs) = search_done t rs"
| "palette_step Close = set_open False"

text \<open>What selecting a command does besides closing: a new theme, the width, or a page.\<close>

datatype selection = SetTheme string | ToggleWidth | Navigate string | Nothing

definition handleSelect :: "string \<Rightarrow> string option \<Rightarrow> string option \<Rightarrow> selection" where
  "handleSelect theme href action =
     (if action = Some ''toggle-theme''
      then SetTheme (if theme = ''system'' then ''light'' else if theme = ''light'' then ''dark'' else ''system'')
      else if action = Some ''toggle-width'' then ToggleWidth
      else case href of Some h \<Rightarrow> if h \<noteq> [] then Navigate h else Nothing | None \<Rightarrow> Nothing)"

section \<open>Scores\<close>

lemma dot_Cons [simp]: "dot (x # a) (y # b) = x * y + dot a b" "dot [] b = 0"
  by (simp_all add: dot_def)

lemma dot_self_nonneg: "0 \<le> dot a a"
  by (induction a) simp_all

text \<open>The inequality of Cauchy and Schwarz, by induction on the vectors.\<close>

lemma cauchy_schwarz: "length a = length b \<Longrightarrow> (dot a b)\<^sup>2 \<le> dot a a * dot b b"
proof (induction a b rule: list_induct2)
  case (Cons x a y b)
  let ?p = "dot a a" and ?q = "dot b b" and ?d = "dot a b"
  have pq: "0 \<le> ?p" "0 \<le> ?q" by (rule dot_self_nonneg)+
  have "?d \<le> sqrt ?p * sqrt ?q" "- ?d \<le> sqrt ?p * sqrt ?q"
    using Cons.IH by (auto intro!: real_le_rsqrt simp flip: real_sqrt_mult)
  then have "\<bar>?d\<bar> \<le> sqrt ?p * sqrt ?q" by simp
  then have "\<bar>x * y\<bar> * \<bar>?d\<bar> \<le> \<bar>x * y\<bar> * (sqrt ?p * sqrt ?q)"
    by (rule mult_left_mono) simp
  moreover have "(x * y) * ?d \<le> \<bar>x * y\<bar> * \<bar>?d\<bar>"
    unfolding abs_mult [symmetric] by (rule abs_ge_self)
  ultimately have "2 * (x * y) * ?d \<le> 2 * (\<bar>x\<bar> * \<bar>y\<bar>) * (sqrt ?p * sqrt ?q)"
    by (simp add: abs_mult)
  also have "\<dots> = 2 * (\<bar>x\<bar> * sqrt ?q) * (\<bar>y\<bar> * sqrt ?p)" by (simp add: ac_simps)
  also have "\<dots> \<le> (\<bar>x\<bar> * sqrt ?q)\<^sup>2 + (\<bar>y\<bar> * sqrt ?p)\<^sup>2" by (rule sum_squares_bound)
  also have "\<dots> = x\<^sup>2 * ?q + y\<^sup>2 * ?p" using pq by (simp add: power_mult_distrib)
  finally have "2 * (x * y) * ?d \<le> x\<^sup>2 * ?q + y\<^sup>2 * ?p" .
  then show ?case
    using Cons.IH by (simp add: power2_sum algebra_simps power2_eq_square)
qed simp

lemma cosine_bounds:
  assumes "cosineSimilarity a b = Inr s"
  shows "- 1 \<le> s \<and> s \<le> 1"
proof -
  have len: "length a = length b" and s: "s = (if sqrt (dot a a) * sqrt (dot b b) = 0 then 0
      else dot a b / (sqrt (dot a a) * sqrt (dot b b)))"
    using assms by (auto simp: cosineSimilarity_def Let_def split: if_splits)
  have "\<bar>dot a b\<bar> \<le> sqrt (dot a a) * sqrt (dot b b)"
    using cauchy_schwarz [OF len] by (metis real_sqrt_abs real_sqrt_le_iff real_sqrt_mult)
  moreover have "0 \<le> sqrt (dot a a) * sqrt (dot b b)"
    by (simp add: dot_self_nonneg)
  ultimately show ?thesis
    unfolding s by (auto simp: abs_le_iff divide_le_eq le_divide_eq)
qed

lemma map_res_all: "map_res f xs = Inr ys \<Longrightarrow> list_all2 (\<lambda>x y. f x = Inr y) xs ys"
proof (induction xs arbitrary: ys)
  case (Cons x xs)
  then show ?case
    by (cases "f x"; cases "map_res f xs") auto
qed simp

lemma top_results_facts:
  assumes "r \<in> set (top_results n rs)"
  shows "r \<in> set rs"
  using assms set_take_subset [of n "sort_key (\<lambda>r. - sr_score r) rs"] by (auto simp: top_results_def)

lemma sorted_by_score: "sorted_wrt (\<lambda>p q. sr_score q \<le> sr_score p) (sort_key (\<lambda>r. - sr_score r) rs)"
  using sorted_sort_key [of "\<lambda>r. - sr_score r" rs] by (simp add: sorted_map)

lemma top_results_best:
  assumes "r \<in> set rs" "r \<notin> set (top_results n rs)" "t \<in> set (top_results n rs)"
  shows "sr_score r \<le> sr_score t"
proof -
  let ?s = "sort_key (\<lambda>r. - sr_score r) rs"
  have "sorted_wrt (\<lambda>p q. sr_score q \<le> sr_score p) (take n ?s @ drop n ?s)"
    using sorted_by_score by simp
  moreover have "r \<in> set (drop n ?s)"
    using assms(1,2) by (metis Un_iff append_take_drop_id set_append set_sort top_results_def)
  ultimately show ?thesis
    using assms(3) unfolding sorted_wrt_append top_results_def by blast
qed

text \<open>What a semantic search finds: at most as many commands as asked for, each with its cosine with the
  query, by falling score between -1 and 1, and no command left out scores higher than one shown.\<close>

theorem semantic_search_best:
  assumes "embed_call query = Inr (Some (v # vs))" "map_res (score_command v) commands = Inr scored"
  shows "let found = semanticSearch embed_call commands query limit in
     length found = min limit (length commands)
     \<and> sorted_wrt (\<lambda>p q. sr_score q \<le> sr_score p) found
     \<and> list_all (\<lambda>r. -1 \<le> sr_score r \<and> sr_score r \<le> 1 \<and> list_ex (\<lambda>c. score_command v c = Inr r) commands) found
     \<and> list_all (\<lambda>r. list_all (\<lambda>t. r \<in> set found \<or> sr_score r \<le> sr_score t) found) scored"
proof -
  have found: "semanticSearch embed_call commands query limit = top_results limit scored"
    by (simp add: semanticSearch_def assms)
  have all: "list_all2 (\<lambda>c r. score_command v c = Inr r) commands scored"
    by (rule map_res_all [OF assms(2)])
  have origin: "\<exists>c \<in> set commands. score_command v c = Inr r" if "r \<in> set scored" for r
    using all that by (auto simp: list_all2_conv_all_nth in_set_conv_nth) (metis nth_mem)
  have range: "-1 \<le> sr_score r \<and> sr_score r \<le> 1" if "r \<in> set scored" for r
    using origin [OF that] cosine_bounds
    by (auto simp: score_command_def split: prod.splits) (auto simp: map_sum_def split: sum.splits)
  have "length (top_results limit scored) = min limit (length commands)"
    using list_all2_lengthD [OF all] by (simp add: top_results_def)
  moreover have "sorted_wrt (\<lambda>p q. sr_score q \<le> sr_score p) (top_results limit scored)"
    unfolding top_results_def by (metis append_take_drop_id sorted_by_score sorted_wrt_append)
  ultimately show ?thesis
    unfolding found Let_def list_all_iff list_ex_iff
    using origin range top_results_facts top_results_best by metis
qed

definition demo_command :: command_item where
  "demo_command = \<lparr>ci_id = ''a'', ci_type = ''navigation'', ci_label = ''A'', ci_description = [], ci_href = None,
     ci_action = None, ci_icon = []\<rparr>"

theorem semantic_search_best_witness:
  "length (semanticSearch (\<lambda>_. Inr (Some [[1, 0]])) [(demo_command, [0, 1]), (demo_command, [1, 0])] ''q'' 1) = 1"
  using semantic_search_best [of "\<lambda>_. Inr (Some [[1, 0]])" "''q''" "[1, 0]" "[]"
      "[(demo_command, [0, 1]), (demo_command, [1, 0])]"
      "[\<lparr>sr_item = demo_command, sr_score = 0\<rparr>, \<lparr>sr_item = demo_command, sr_score = 1\<rparr>]" 1]
  by (simp add: Let_def score_command_def cosineSimilarity_def)

section \<open>Where the palette misses its purpose\<close>

definition palette_idle :: palette where
  "palette_idle = \<lparr>pa_open = True, pa_value = [], pa_results = [], pa_searching = False, pa_timer = None, pa_inflight = []\<rparr>"

lemma demo_texts: "hasStringMatches ''users''" "\<not> hasStringMatches ''zz''"
  by code_simp+

text \<open>A search that never ends: a text that matches no label starts the search, and a text that matches
  one, typed before the delay is over, clears the timer but not the mark that a search is running;
  with no request left to end it, the mark stays however long the palette waits.\<close>

theorem search_mark_stuck:
  assumes "\<not> hasStringMatches a" "2 \<le> length a" "hasStringMatches b" "b \<noteq> a" "a \<noteq> pa_value p" "pa_inflight p = []"
    and "\<forall>e \<in> set waiting. e = TimerFires \<or> (\<exists>t rs. e = SearchDone t rs)"
  shows "let q = fold palette_step waiting (type_text b (type_text a p)) in
     pa_searching q \<and> pa_timer q = None \<and> pa_inflight q = []"
proof -
  let ?q = "type_text b (type_text a p)"
  have start: "pa_searching ?q \<and> pa_timer ?q = None \<and> pa_inflight ?q = []"
    using assms(1-6) by (simp add: type_text_def search_effect_def Let_def)
  have "pa_searching (fold palette_step waiting q) \<and> pa_timer (fold palette_step waiting q) = None
      \<and> pa_inflight (fold palette_step waiting q) = []"
    if "pa_searching q \<and> pa_timer q = None \<and> pa_inflight q = []" for q
    using that assms(7)
    by (induction waiting arbitrary: q) (auto simp: timer_fires_def search_done_def)
  with start show ?thesis by (simp add: Let_def)
qed

theorem search_mark_stuck_witness:
  "pa_searching (fold palette_step [TimerFires, TimerFires] (type_text ''users'' (type_text ''zz'' palette_idle)))"
  using search_mark_stuck [of "''zz''" "''users''" palette_idle "[TimerFires, TimerFires]"]
  by (simp add: Let_def demo_texts palette_idle_def [THEN arg_cong [where f = pa_value]]
      palette_idle_def [THEN arg_cong [where f = pa_inflight]])

text \<open>Results for an old text: a request that is on its way is not cancelled, so its results are shown
  under a text typed since, one that matches labels of its own included.\<close>

theorem late_results_shown:
  assumes "\<not> hasStringMatches a" "2 \<le> length a" "hasStringMatches b" "a \<noteq> pa_value p" "b \<noteq> a"
  shows "let q = search_done a rs (type_text b (timer_fires (type_text a p))) in
     pa_value q = b \<and> hasStringMatches (pa_value q) \<and> pa_results q = rs"
  using assms by (simp add: type_text_def search_effect_def timer_fires_def search_done_def Let_def)

theorem late_results_shown_witness:
  "pa_results (search_done ''zz'' [\<lparr>sr_item = demo_command, sr_score = 0\<rparr>]
     (type_text ''users'' (timer_fires (type_text ''zz'' palette_idle)))) = [\<lparr>sr_item = demo_command, sr_score = 0\<rparr>]"
  using late_results_shown [of "''zz''" "''users''" palette_idle "[\<lparr>sr_item = demo_command, sr_score = 0\<rparr>]"]
  by (simp add: Let_def demo_texts palette_idle_def [THEN arg_cong [where f = pa_value]]
      palette_idle_def [THEN arg_cong [where f = pa_inflight]])

end
