(* ===== verification/Playgrounds.thy ===== *)
theory Playgrounds
  imports SdkAgents "HOL-Library.Multiset"
begin

text \<open>
  The inference playgrounds of the dashboard: the retrying request they share
  (ts/apps/antfarm/src/lib/utils.ts), the knowledge graph
  (pages/KnowledgeGraphPlaygroundPage.tsx), the entity recognition (pages/NERPlaygroundPage.tsx) and the
  reranking (pages/RerankingPlaygroundPage.tsx).

  The network answers the attempts of one request in order, \<open>fetch i\<close> the attempt \<open>i\<close>. A request of a page
  and its end are separate events; a page may start another in between, which cancels the first.
\<close>

section \<open>The retrying request\<close>

function fetch_attempts :: "(nat \<Rightarrow> http_response res) \<Rightarrow> nat \<Rightarrow> nat \<Rightarrow> http_response res \<times> nat" where
  "fetch_attempts fetch maxRetries attempt =
     (case fetch attempt of
        Inl e \<Rightarrow> (Inl e, attempt + 1)
      | Inr response \<Rightarrow>
          if rs_status response = 502 \<and> attempt < maxRetries then fetch_attempts fetch maxRetries (attempt + 1)
          else (Inr response, attempt + 1))"
  by pat_completeness auto
termination by (relation "measure (\<lambda>(fetch, maxRetries, attempt). maxRetries - attempt)") auto

declare fetch_attempts.simps [simp del]

text \<open>The response or rejection, and the number of requests that were sent.\<close>

definition fetchWithRetry :: "(nat \<Rightarrow> http_response res) \<Rightarrow> nat \<Rightarrow> http_response res \<times> nat" where
  "fetchWithRetry fetch maxRetries = fetch_attempts fetch maxRetries 0"

section \<open>A page and its requests\<close>

record 'r page_run =
  ru_loading :: bool
  ru_error :: "string option"
  ru_result :: "'r option"
  ru_time :: "rat option"

datatype 'r run_end = RunAnswer 'r rat | RunFails string | RunAborted

definition run_invalid :: "string \<Rightarrow> 'r page_run \<Rightarrow> 'r page_run" where
  "run_invalid m r = r\<lparr>ru_error := Some m\<rparr>"

definition run_start :: "'r page_run \<Rightarrow> 'r page_run" where
  "run_start r = r\<lparr>ru_loading := True, ru_error := None, ru_result := None\<rparr>"

text \<open>Every end runs the \<open>finally\<close> block, a cancelled request's too.\<close>

definition run_finish :: "'r run_end \<Rightarrow> 'r page_run \<Rightarrow> 'r page_run" where
  "run_finish e r =
     (case e of
        RunAnswer v t \<Rightarrow> r\<lparr>ru_result := Some v, ru_time := Some t, ru_loading := False\<rparr>
      | RunFails m \<Rightarrow> r\<lparr>ru_error := Some m, ru_loading := False\<rparr>
      | RunAborted \<Rightarrow> r\<lparr>ru_loading := False\<rparr>)"

definition termite_unreachable :: string where
  "termite_unreachable = ''Failed to connect to Termite. Make sure Termite is running.''"

definition rejected_end :: "js_exn \<Rightarrow> 'r run_end" where
  "rejected_end e = (case e of
     ErrorObj n m \<Rightarrow> if n = ''AbortError'' then RunAborted else RunFails m
   | NonError _ \<Rightarrow> RunFails termite_unreachable)"

text \<open>What a response ends in: its status, its JSON and what the page makes of it, which may throw.\<close>

definition response_end :: "(jsval \<Rightarrow> 'r res) \<Rightarrow> rat \<Rightarrow> http_response res \<Rightarrow> 'r run_end" where
  "response_end build t answer =
     (case answer of
        Inl e \<Rightarrow> rejected_end e
      | Inr response \<Rightarrow>
          if \<not> rs_ok response
          then (case rs_text response of
                  Inl e \<Rightarrow> rejected_end e
                | Inr errorText \<Rightarrow>
                    RunFails (if errorText \<noteq> [] then errorText else ''HTTP '' @ show_nat (rs_status response)))
          else (case rs_json response of
                  Inl e \<Rightarrow> rejected_end e
                | Inr data \<Rightarrow> (case build data of Inl e \<Rightarrow> rejected_end e | Inr r \<Rightarrow> RunAnswer r t)))"

section \<open>The knowledge graph\<close>

record kg_entity =
  en_text :: string
  en_label :: string
  en_score :: rat

record kg_relation =
  re_head :: kg_entity
  re_tail :: kg_entity
  re_label :: string
  re_score :: rat

record kg_node =
  kn_id :: string
  kn_name :: string
  kn_type :: string
  kn_confidence :: rat

record kg_edge =
  ke_id :: string
  ke_source :: string
  ke_target :: string
  ke_type :: string
  ke_confidence :: rat

record kg_result =
  kg_model :: string
  kg_nodes :: "kg_node list"
  kg_edges :: "kg_edge list"

type_synonym node_map = "(string, kg_node) jmap"

definition node_key :: "kg_entity \<Rightarrow> string" where
  "node_key e = to_lower (en_text e) @ ''::'' @ to_lower (en_label e)"

text \<open>The node map, whose size is the next node index.\<close>

definition add_entity :: "kg_entity \<Rightarrow> node_map \<Rightarrow> node_map" where
  "add_entity e m =
     (case jmap_get m (node_key e) of
        Some existing \<Rightarrow>
          if en_score e > kn_confidence existing
          then jmap_set m (node_key e) (existing\<lparr>kn_confidence := en_score e, kn_name := en_text e\<rparr>)
          else m
      | None \<Rightarrow> jmap_set m (node_key e)
          \<lparr>kn_id = ''node-'' @ show_nat (length m), kn_name = en_text e, kn_type = en_label e, kn_confidence = en_score e\<rparr>)"

fun add_edges :: "node_map \<Rightarrow> nat \<Rightarrow> kg_relation list \<Rightarrow> kg_edge list" where
  "add_edges m i [] = []"
| "add_edges m i (rel # rels) =
     (case (jmap_get m (node_key (re_head rel)), jmap_get m (node_key (re_tail rel))) of
        (Some sourceNode, Some targetNode) \<Rightarrow>
          \<lparr>ke_id = ''edge-'' @ show_nat i, ke_source = kn_id sourceNode, ke_target = kn_id targetNode,
           ke_type = re_label rel, ke_confidence = re_score rel\<rparr> # add_edges m (i + 1) rels
      | _ \<Rightarrow> add_edges m i rels)"

definition buildGraphFromResponse :: "string \<Rightarrow> kg_entity list list \<Rightarrow> kg_relation list list option \<Rightarrow> kg_result" where
  "buildGraphFromResponse model entities relations =
     (let nodeMap = fold add_entity (concat entities) [] in
      \<lparr>kg_model = model, kg_nodes = map snd nodeMap,
       kg_edges = (case relations of None \<Rightarrow> [] | Some rs \<Rightarrow> add_edges nodeMap 0 (concat rs))\<rparr>)"

definition getModelName :: "string \<Rightarrow> string" where
  "getModelName model = (if starts_with model ''rel:'' then drop 4 model else model)"

definition isRebelModel :: "string \<Rightarrow> bool" where
  "isRebelModel selectedModel \<longleftrightarrow> starts_with selectedModel ''rel:''"

text \<open>The models the page offers: those with the capability, Rebel models with a prefix.\<close>

definition offered_models :: "(string \<times> string list) list \<Rightarrow> string list" where
  "offered_models recognizers =
     map (\<lambda>(m, cs). if str_includes (to_lower m) ''rebel'' then ''rel:'' @ m else m)
       (filter (\<lambda>(m, cs). ''relations'' \<in> set cs) recognizers)"

definition keep_or_first :: "string \<Rightarrow> string list \<Rightarrow> string" where
  "keep_or_first prev models = (if prev \<noteq> [] \<and> prev \<in> set models then prev else if models = [] then [] else hd models)"

text \<open>The effect on the \<open>model\<close> parameter of the address: the selected model and the parameter left.\<close>

definition model_param_effect :: "string option \<Rightarrow> bool \<Rightarrow> string list \<Rightarrow> string \<Rightarrow> string \<times> string option" where
  "model_param_effect modelParam modelsLoaded availableModels selectedModel =
     (case modelParam of
        None \<Rightarrow> (selectedModel, None)
      | Some m \<Rightarrow> if m \<noteq> [] \<and> modelsLoaded \<and> m \<in> set availableModels then (m, None) else (selectedModel, Some m))"

text \<open>\<open>inputText.split(/\n\n+/)\<close>: a run of two or more line feeds separates.\<close>

function split_paragraphs :: "string \<Rightarrow> string \<Rightarrow> string list" where
  "split_paragraphs acc [] = [acc]"
| "split_paragraphs acc [c] = [acc @ [c]]"
| "split_paragraphs acc (c # d # s) =
     (if c = newline \<and> d = newline then acc # split_paragraphs [] (dropWhile (\<lambda>x. x = newline) s)
      else split_paragraphs (acc @ [c]) (d # s))"
  by pat_completeness auto
termination
  by (relation "measure (\<lambda>(acc, s). length s)") (auto simp: le_imp_less_Suc length_dropWhile_le le_SucI)

definition graph_texts :: "string \<Rightarrow> string list" where
  "graph_texts inputText = filter (\<lambda>t. t \<noteq> []) (map trim (split_paragraphs [] inputText))"

definition graph_request :: "string \<Rightarrow> string \<Rightarrow> jsval \<Rightarrow> string list \<Rightarrow> string list \<Rightarrow> jsval" where
  "graph_request inputText selectedModel config entityLabels relationLabels =
     JObj ([(''model'', JStr (getModelName selectedModel)), (''texts'', JArr (map JStr (graph_texts inputText))),
            (''resolver'', config)]
       @ (if isRebelModel selectedModel then []
          else [(''labels'', JArr (map JStr entityLabels))]
             @ (if relationLabels \<noteq> [] then [(''relation_labels'', JArr (map JStr relationLabels))] else [])))"

text \<open>The checks before a request; the first that fails is shown.\<close>

definition graph_problem :: "string \<Rightarrow> string \<Rightarrow> string list \<Rightarrow> string option" where
  "graph_problem inputText selectedModel entityLabels =
     (if trim inputText = [] then Some ''Please enter some text to build a knowledge graph from''
      else if selectedModel = [] then Some ''Please select a model''
      else if \<not> isRebelModel selectedModel \<and> entityLabels = [] then Some ''Please add at least one entity label''
      else None)"

text \<open>The label lists of this page and of the next: a new label, trimmed and in lower case.\<close>

definition add_label :: "string \<Rightarrow> string list \<Rightarrow> string list \<times> string" where
  "add_label newLabel labels =
     (let l = to_lower (trim newLabel) in if l \<noteq> [] \<and> l \<notin> set labels then (labels @ [l], []) else (labels, newLabel))"

definition remove_label :: "string \<Rightarrow> string list \<Rightarrow> string list" where
  "remove_label labelToRemove labels = filter (\<lambda>l. l \<noteq> labelToRemove) labels"

section \<open>Entity recognition\<close>

record ner_entity =
  ne_text :: string
  ne_label :: string
  ne_start :: nat
  ne_end :: nat
  ne_score :: rat

definition getFilteredEntities :: "rat \<Rightarrow> ner_entity list list option \<Rightarrow> ner_entity list" where
  "getFilteredEntities confidenceThreshold entities =
     (case entities of Some (es # _) \<Rightarrow> filter (\<lambda>e. ne_score e \<ge> confidenceThreshold) es | _ \<Rightarrow> [])"

definition getEntityCountByLabel :: "ner_entity list \<Rightarrow> (string, nat) jmap" where
  "getEntityCountByLabel entities =
     fold (\<lambda>e m. jmap_set m (ne_label e) ((case jmap_get m (ne_label e) of None \<Rightarrow> 0 | Some n \<Rightarrow> n) + 1)) entities []"

datatype piece = Plain string | Marked string string

fun pieces :: "string \<Rightarrow> nat \<Rightarrow> ner_entity list \<Rightarrow> piece list" where
  "pieces inputText lastEnd [] = (if lastEnd < length inputText then [Plain (drop lastEnd inputText)] else [])"
| "pieces inputText lastEnd (e # es) =
     (if ne_start e > lastEnd then [Plain (take (ne_start e - lastEnd) (drop lastEnd inputText))] else [])
     @ Marked (ne_label e) (ne_text e) # pieces inputText (ne_end e) es"

datatype highlighted = NoEntities | PlainText string | Pieces "piece list"

definition renderHighlightedText :: "string \<Rightarrow> bool \<Rightarrow> ner_entity list \<Rightarrow> highlighted" where
  "renderHighlightedText inputText recognized entities =
     (if entities = []
      then (if recognized then NoEntities
            else PlainText (if inputText \<noteq> [] then inputText else ''Enter text and click \"Run\" to see results''))
      else Pieces (pieces inputText 0 (sort_key ne_start entities)))"

text \<open>The colour of a label: its own, or the next of eight, kept for the label.\<close>

definition standard_labels :: "string list" where
  "standard_labels = [''per'', ''person'', ''org'', ''organization'', ''loc'', ''location'', ''misc'']"

datatype label_color = Standard string | Dynamic nat

definition getColorForLabel :: "string \<Rightarrow> (string, nat) jmap \<Rightarrow> label_color \<times> (string, nat) jmap" where
  "getColorForLabel label colors =
     (let l = to_lower label in
      if l \<in> set standard_labels then (Standard l, colors)
      else (let colors = (if jmap_get colors l = None then jmap_set colors l (length colors mod 8) else colors)
            in (Dynamic (case jmap_get colors l of None \<Rightarrow> 0 | Some i \<Rightarrow> i), colors)))"

record ner_field =
  nf_name :: string
  nf_list :: bool

record ner_structure =
  ns_name :: string
  ns_fields :: "ner_field list"

definition new_field :: ner_field where
  "new_field = \<lparr>nf_name = [], nf_list = False\<rparr>"

text \<open>The edits of the extraction schema, at rows that are shown.\<close>

definition addStructure :: "ner_structure list \<Rightarrow> ner_structure list" where
  "addStructure schema = schema @ [\<lparr>ns_name = [], ns_fields = [new_field]\<rparr>]"

definition removeStructure :: "nat \<Rightarrow> ner_structure list \<Rightarrow> ner_structure list" where
  "removeStructure index schema = without index schema"

definition change_structure :: "nat \<Rightarrow> (ner_structure \<Rightarrow> ner_structure) \<Rightarrow> ner_structure list \<Rightarrow> ner_structure list" where
  "change_structure index f schema = schema[index := f (schema ! index)]"

definition updateStructureName :: "nat \<Rightarrow> string \<Rightarrow> ner_structure list \<Rightarrow> ner_structure list" where
  "updateStructureName index name schema = change_structure index (\<lambda>s. s\<lparr>ns_name := name\<rparr>) schema"

definition addField :: "nat \<Rightarrow> ner_structure list \<Rightarrow> ner_structure list" where
  "addField structIndex schema = change_structure structIndex (\<lambda>s. s\<lparr>ns_fields := ns_fields s @ [new_field]\<rparr>) schema"

definition removeField :: "nat \<Rightarrow> nat \<Rightarrow> ner_structure list \<Rightarrow> ner_structure list" where
  "removeField structIndex fieldIndex schema =
     change_structure structIndex (\<lambda>s. s\<lparr>ns_fields := without fieldIndex (ns_fields s)\<rparr>) schema"

definition updateField :: "nat \<Rightarrow> nat \<Rightarrow> (ner_field \<Rightarrow> ner_field) \<Rightarrow> ner_structure list \<Rightarrow> ner_structure list" where
  "updateField structIndex fieldIndex updates schema =
     change_structure structIndex
       (\<lambda>s. s\<lparr>ns_fields := map (\<lambda>(i, f). if i = fieldIndex then updates f else f) (enumerate 0 (ns_fields s))\<rparr>) schema"

text \<open>The schema of the extraction request, and the checks before it.\<close>

definition api_schema :: "ner_structure list \<Rightarrow> (string \<times> string list) list" where
  "api_schema schema =
     fold (\<lambda>s acc. obj_put (ns_name s)
       (map (\<lambda>f. nf_name f @ ''::'' @ (if nf_list f then ''list'' else ''str'')) (ns_fields s)) acc) schema []"

definition recognize_request :: "string \<Rightarrow> string \<Rightarrow> string list \<Rightarrow> jsval" where
  "recognize_request inputText selectedModel labels =
     JObj [(''model'', JStr selectedModel), (''texts'', JArr [JStr inputText]), (''labels'', JArr (map JStr labels))]"

definition extract_request :: "string \<Rightarrow> string \<Rightarrow> ner_structure list \<Rightarrow> rat \<Rightarrow> bool \<Rightarrow> bool \<Rightarrow> jsval" where
  "extract_request inputText selectedModel schema extractThreshold includeConfidence includeSpans =
     JObj [(''model'', JStr selectedModel), (''texts'', JArr [JStr inputText]),
           (''schema'', JObj (map (\<lambda>(n, fs). (n, JArr (map JStr fs))) (api_schema schema))),
           (''threshold'', JNum extractThreshold), (''include_confidence'', JBool includeConfidence),
           (''include_spans'', JBool includeSpans)]"

definition ner_problem :: "string \<Rightarrow> string \<Rightarrow> bool \<Rightarrow> string list \<Rightarrow> ner_structure list \<Rightarrow> string option" where
  "ner_problem inputText selectedModel recognize labels schema =
     (if trim inputText = [] then Some ''Please enter some text to analyze''
      else if selectedModel = [] then Some ''Please select a model''
      else if recognize \<and> labels = [] then Some ''Please add at least one entity label''
      else if \<not> recognize \<and> schema = [] then Some ''Please add at least one structure to the schema''
      else None)"

section \<open>Reranking\<close>

record rerank_page =
  rr_query :: string
  rr_documents :: "string list"
  rr_docKeys :: "string list"
  rr_counter :: nat
  rr_scores :: "rat list option"

record ranked =
  rk_index :: nat
  rk_text :: string
  rk_score :: rat
  rk_rank :: nat

definition doc_key :: "nat \<Rightarrow> string" where
  "doc_key n = ''doc-'' @ show_nat n"

definition initial_key :: "nat \<Rightarrow> string" where
  "initial_key i = ''doc-init-'' @ show_nat i"

text \<open>The first page, with the query and the documents saved in the browser.\<close>

definition initial_rerank :: "(string \<times> string list) option \<Rightarrow> rerank_page" where
  "initial_rerank saved =
     (let (q, docs) = (case saved of Some (q, d # ds) \<Rightarrow> (q, d # ds) | Some (q, []) \<Rightarrow> (q, [[]]) | None \<Rightarrow> ([], [[]]))
      in \<lparr>rr_query = q, rr_documents = docs, rr_docKeys = map initial_key [0..<length docs], rr_counter = 0, rr_scores = None\<rparr>)"

definition handleReset_rerank :: "rerank_page \<Rightarrow> rerank_page" where
  "handleReset_rerank p = p\<lparr>rr_query := [], rr_documents := [[]], rr_docKeys := [doc_key (rr_counter p + 1)],
     rr_counter := rr_counter p + 1, rr_scores := None\<rparr>"

definition addDocument :: "rerank_page \<Rightarrow> rerank_page" where
  "addDocument p = p\<lparr>rr_documents := rr_documents p @ [[]], rr_docKeys := rr_docKeys p @ [doc_key (rr_counter p + 1)],
     rr_counter := rr_counter p + 1, rr_scores := None\<rparr>"

definition removeDocument :: "nat \<Rightarrow> rerank_page \<Rightarrow> rerank_page" where
  "removeDocument index p =
     (if length (rr_documents p) \<le> 1 then p
      else p\<lparr>rr_documents := without index (rr_documents p), rr_docKeys := without index (rr_docKeys p), rr_scores := None\<rparr>)"

definition updateDocument :: "nat \<Rightarrow> string \<Rightarrow> rerank_page \<Rightarrow> rerank_page" where
  "updateDocument index t p = p\<lparr>rr_documents := (rr_documents p)[index := t], rr_scores := None\<rparr>"

text \<open>A sample preset sets the query and the documents.\<close>

definition load_sample :: "string \<Rightarrow> string list \<Rightarrow> rerank_page \<Rightarrow> rerank_page" where
  "load_sample q docs p =
     p\<lparr>rr_query := q, rr_documents := docs,
       rr_docKeys := map (\<lambda>i. doc_key (rr_counter p + 1 + i)) [0..<length docs], rr_counter := rr_counter p + length docs\<rparr>"

datatype doc_edit = AddDocument | RemoveDocument nat | UpdateDocument nat string | LoadSample string "string list" | ResetDocuments

definition edit_documents :: "doc_edit \<Rightarrow> rerank_page \<Rightarrow> rerank_page" where
  "edit_documents e = (case e of
     AddDocument \<Rightarrow> addDocument | RemoveDocument i \<Rightarrow> removeDocument i | UpdateDocument i t \<Rightarrow> updateDocument i t
   | LoadSample q docs \<Rightarrow> load_sample q docs | ResetDocuments \<Rightarrow> handleReset_rerank)"

definition nonempty_docs :: "rerank_page \<Rightarrow> string list" where
  "nonempty_docs p = filter (\<lambda>d. trim d \<noteq> []) (rr_documents p)"

definition rerank_problem :: "string \<Rightarrow> rerank_page \<Rightarrow> string option" where
  "rerank_problem selectedModel p =
     (if trim (rr_query p) = [] then Some ''Please enter a search query''
      else if nonempty_docs p = [] then Some ''Please add at least one document''
      else if selectedModel = [] then Some ''Please select a model''
      else None)"

definition rerank_request :: "string \<Rightarrow> rerank_page \<Rightarrow> jsval" where
  "rerank_request selectedModel p =
     JObj [(''model'', JStr selectedModel), (''query'', JStr (rr_query p)), (''prompts'', JArr (map JStr (nonempty_docs p)))]"

text \<open>The model selected when the list of models arrives: the one before, the built-in one, or the first.\<close>

definition choose_reranker :: "string \<Rightarrow> string list \<Rightarrow> string" where
  "choose_reranker prev rerankers =
     (if prev \<noteq> [] \<and> prev \<in> set rerankers then prev
      else if ''antfly-builtin-reranker'' \<in> set rerankers then ''antfly-builtin-reranker''
      else if rerankers = [] then [] else hd rerankers)"

definition getRankedDocuments :: "rerank_page \<Rightarrow> ranked list" where
  "getRankedDocuments p =
     (case rr_scores p of
        None \<Rightarrow> []
      | Some scores \<Rightarrow>
          map (\<lambda>(i, r). r\<lparr>rk_rank := i + 1\<rparr>) (enumerate 0 (sort_key (\<lambda>r. - rk_score r)
            (map (\<lambda>(i, s). \<lparr>rk_index = i,
                    rk_text = (if i < length (nonempty_docs p) then nonempty_docs p ! i else []), rk_score = s, rk_rank = 0\<rparr>)
               (enumerate 0 scores)))))"

text \<open>The largest score, one without scores, and the colour of a bar.\<close>

definition getMaxScore :: "rerank_page \<Rightarrow> rat" where
  "getMaxScore p = (case rr_scores p of Some (s # ss) \<Rightarrow> fold max ss s | _ \<Rightarrow> 1)"

datatype score_color = Green | Yellow | Red

definition getScoreColor :: "rat \<Rightarrow> rat \<Rightarrow> score_color" where
  "getScoreColor score maxScore =
     (let normalized = (if maxScore > 0 then score / maxScore else 0)
      in if normalized \<ge> 7 / 10 then Green else if normalized \<ge> 4 / 10 then Yellow else Red)"

section \<open>Retries and ends\<close>

definition bad_gateway :: "http_response res \<Rightarrow> bool" where
  "bad_gateway answer \<longleftrightarrow> (case answer of Inr r \<Rightarrow> rs_status r = 502 | Inl _ \<Rightarrow> False)"

definition attempts_ok :: "(nat \<Rightarrow> http_response res) \<Rightarrow> nat \<Rightarrow> nat \<Rightarrow> http_response res \<times> nat \<Rightarrow> bool" where
  "attempts_ok fetch m a p \<longleftrightarrow> a < snd p \<and> snd p \<le> m + 1 \<and> fst p = fetch (snd p - 1)
     \<and> (\<forall>i. a \<le> i \<and> i + 1 < snd p \<longrightarrow> bad_gateway (fetch i)) \<and> (bad_gateway (fst p) \<longrightarrow> snd p = m + 1)"

lemma attempts_ok_back:
  assumes "bad_gateway (fetch a)" "attempts_ok fetch m (a + 1) p"
  shows "attempts_ok fetch m a p"
proof -
  have "bad_gateway (fetch i)" if "a \<le> i" "i + 1 < snd p" for i
  proof (cases "i = a")
    case False
    with that(1) have "a + 1 \<le> i" by simp
    then show ?thesis using assms(2) that(2) unfolding attempts_ok_def by blast
  qed (use assms(1) in simp)
  moreover have "a < snd p" using assms(2) unfolding attempts_ok_def by linarith
  ultimately show ?thesis using assms(2) unfolding attempts_ok_def by blast
qed

lemma fetch_attempts_step:
  "fetch_attempts fetch m a =
     (if bad_gateway (fetch a) \<and> a < m then fetch_attempts fetch m (a + 1) else (fetch a, a + 1))"
  unfolding fetch_attempts.simps [of fetch m a]
  by (cases "fetch a") (simp_all only: bad_gateway_def sum.case if_False simp_thms)

lemma fetch_attempts_ok: "a \<le> m \<Longrightarrow> attempts_ok fetch m a (fetch_attempts fetch m a)"
proof (induction "m - a" arbitrary: a)
  case 0
  then show ?case unfolding fetch_attempts_step [of fetch m a] attempts_ok_def by auto
next
  case (Suc n)
  then have "attempts_ok fetch m (a + 1) (fetch_attempts fetch m (a + 1))"
    by (intro Suc.hyps(1)) simp_all
  then show ?case
    unfolding fetch_attempts_step [of fetch m a] using attempts_ok_back [of fetch a m] Suc.hyps(2) Suc.prems
    by (cases "bad_gateway (fetch a)") (auto simp: attempts_ok_def [of fetch m a "(fetch a, Suc a)"])
qed

text \<open>The retrying request ends: it sends at least one and at most one more than the allowed retries, only
  after answers with the status 502, and returns the last answer or rejection; it gives back a 502
  only when every attempt is used up.\<close>

theorem fetch_with_retry:
  "let (answer, sent) = fetchWithRetry fetch maxRetries in
   1 \<le> sent \<and> sent \<le> maxRetries + 1 \<and> answer = fetch (sent - 1)
   \<and> (\<forall>i. i + 1 < sent \<longrightarrow> bad_gateway (fetch i)) \<and> (bad_gateway answer \<longrightarrow> sent = maxRetries + 1)"
proof -
  obtain answer sent where p: "fetchWithRetry fetch maxRetries = (answer, sent)" by force
  then have "attempts_ok fetch maxRetries 0 (answer, sent)"
    using fetch_attempts_ok [of 0 maxRetries fetch] by (simp add: fetchWithRetry_def)
  then have ok: "0 < sent" "sent \<le> maxRetries + 1" "answer = fetch (sent - 1)"
      "\<forall>i. i + 1 < sent \<longrightarrow> bad_gateway (fetch i)" "bad_gateway answer \<longrightarrow> sent = maxRetries + 1"
    unfolding attempts_ok_def fst_conv snd_conv by blast+
  from ok(1) have "1 \<le> sent" by linarith
  then show ?thesis unfolding p Let_def prod.case using ok(2-) by blast
qed

theorem fetch_with_retry_witness:
  "snd (fetchWithRetry (\<lambda>i. Inl (NonError JNull)) 1) \<le> 2"
  using fetch_with_retry [of "\<lambda>i. Inl (NonError JNull)" 1] unfolding Let_def split_def by linarith

text \<open>A request settles its page: however it ends, the page is no longer loading, and it shows the answer,
  the reason it failed, or nothing new after a cancellation; an error response shows the server's
  text, or its status without one.\<close>

theorem run_settles:
  "let r' = run_finish (response_end build t answer) (run_start r) in
   \<not> ru_loading r'
   \<and> (case answer of
        Inl (ErrorObj n m) \<Rightarrow> ru_result r' = None \<and> ru_error r' = (if n = ''AbortError'' then None else Some m)
      | Inl (NonError _) \<Rightarrow> ru_result r' = None \<and> ru_error r' = Some termite_unreachable
      | Inr response \<Rightarrow>
          (if rs_ok response
           then (case rs_json response of
                   Inr d \<Rightarrow> (case build d of Inr v \<Rightarrow> ru_result r' = Some v \<and> ru_error r' = None | Inl _ \<Rightarrow> ru_result r' = None)
                 | Inl _ \<Rightarrow> ru_result r' = None)
           else ru_result r' = None \<and> (case rs_text response of
               Inr e \<Rightarrow> ru_error r' = Some (if e \<noteq> [] then e else ''HTTP '' @ show_nat (rs_status response)) | Inl _ \<Rightarrow> True)))"
  by (cases answer)
     (simp_all add: run_finish_def response_end_def rejected_end_def run_start_def Let_def split: sum.split js_exn.split)

text \<open>A cancelled request ends the loading of the next: when a page starts a request while one is running,
  the end of the cancelled one marks the page as idle although the new request is still running.\<close>

theorem cancelled_run_ends_loading:
  "let r' = run_finish RunAborted (run_start (run_start r)) in
   \<not> ru_loading r' \<and> ru_loading (run_start (run_start r)) \<and> ru_result r' = None \<and> ru_error r' = None"
  by (simp add: run_finish_def run_start_def Let_def)

section \<open>Nodes and edges\<close>

text \<open>The graph as it should be: the keys of the entities by first appearance, and for each a node with the label of
  its first entity and the text and score of the first one with the best score.\<close>

definition first_keys :: "kg_entity list \<Rightarrow> string list" where
  "first_keys es = rev (remdups (rev (map node_key es)))"

definition key_group :: "string \<Rightarrow> kg_entity list \<Rightarrow> kg_entity list" where
  "key_group k es = filter (\<lambda>e. node_key e = k) es"

definition best_entity :: "kg_entity list \<Rightarrow> kg_entity" where
  "best_entity es = hd (filter (\<lambda>e. en_score e = Max (en_score ` set es)) es)"

definition node_for :: "nat \<Rightarrow> kg_entity list \<Rightarrow> kg_node" where
  "node_for i es = \<lparr>kn_id = ''node-'' @ show_nat i, kn_name = en_text (best_entity es), kn_type = en_label (hd es),
     kn_confidence = en_score (best_entity es)\<rparr>"

definition key_place :: "string list \<Rightarrow> string \<Rightarrow> nat" where
  "key_place ks k = length (takeWhile (\<lambda>q. q \<noteq> k) ks)"

definition edge_for :: "string list \<Rightarrow> nat \<Rightarrow> kg_relation \<Rightarrow> kg_edge" where
  "edge_for ks i rel = \<lparr>ke_id = ''edge-'' @ show_nat i,
     ke_source = ''node-'' @ show_nat (key_place ks (node_key (re_head rel))),
     ke_target = ''node-'' @ show_nat (key_place ks (node_key (re_tail rel))),
     ke_type = re_label rel, ke_confidence = re_score rel\<rparr>"

definition joins_known :: "string list \<Rightarrow> kg_relation \<Rightarrow> bool" where
  "joins_known ks rel \<longleftrightarrow> node_key (re_head rel) \<in> set ks \<and> node_key (re_tail rel) \<in> set ks"

lemma first_keys_snoc:
  "first_keys [] = []"
  "first_keys (es @ [e]) = (if node_key e \<in> set (first_keys es) then first_keys es else first_keys es @ [node_key e])"
  by (simp_all add: first_keys_def)

lemma first_keys_distinct: "distinct (first_keys es)" and first_keys_set: "set (first_keys es) = node_key ` set es"
  by (simp_all add: first_keys_def)

lemma key_group_snoc:
  "key_group k (es @ [e]) = key_group k es @ (if node_key e = k then [e] else [])"
  by (simp add: key_group_def)

lemma key_group_known: "key_group k es \<noteq> [] \<longleftrightarrow> k \<in> set (first_keys es)"
  by (auto simp: key_group_def first_keys_set filter_empty_conv)

lemma best_entity_single: "best_entity [e] = e"
  by (simp add: best_entity_def)

lemma best_entity_in:
  assumes "es \<noteq> []"
  shows "en_score (best_entity es) = Max (en_score ` set es)"
proof -
  have "Max (en_score ` set es) \<in> en_score ` set es" using assms by (intro Max_in) simp_all
  then have "filter (\<lambda>e. en_score e = Max (en_score ` set es)) es \<noteq> []"
    by (auto simp: filter_empty_conv)
  then have "best_entity es \<in> set (filter (\<lambda>e. en_score e = Max (en_score ` set es)) es)"
    unfolding best_entity_def by (rule hd_in_set)
  then show ?thesis by simp
qed

lemma best_entity_snoc:
  assumes "es \<noteq> []"
  shows "best_entity (es @ [e]) = (if en_score e > en_score (best_entity es) then e else best_entity es)"
proof -
  let ?M = "Max (en_score ` set es)"
  have M: "Max (en_score ` set (es @ [e])) = max (en_score e) ?M" using assms by simp
  have le: "en_score x \<le> ?M" if "x \<in> set es" for x using that by (intro Max_ge) simp_all
  show ?thesis
  proof (cases "en_score e > ?M")
    case True
    then have "\<forall>x \<in> set es. en_score x \<noteq> en_score e" using le by (metis leD)
    then have "filter (\<lambda>x. en_score x = en_score e) es = []" by (simp add: filter_empty_conv)
    then show ?thesis
      using True unfolding best_entity_in [OF assms] best_entity_def [of "es @ [e]"] M by (simp add: max_def)
  next
    case False
    have "?M \<in> en_score ` set es" using assms by (intro Max_in) simp_all
    then have "filter (\<lambda>x. en_score x = ?M) es \<noteq> []" by (auto simp: filter_empty_conv)
    then have "best_entity (es @ [e]) = best_entity es"
      using False unfolding best_entity_def [of "es @ [e]"] best_entity_def [of es] M by (simp add: max_def)
    then show ?thesis using False best_entity_in [OF assms] by simp
  qed
qed

definition node_list :: "kg_entity list \<Rightarrow> node_map" where
  "node_list es = map (\<lambda>i. (first_keys es ! i, node_for i (key_group (first_keys es ! i) es))) [0..<length (first_keys es)]"

lemma key_place_nth: "distinct ks \<Longrightarrow> i < length ks \<Longrightarrow> key_place ks (ks ! i) = i"
proof (induction ks arbitrary: i)
  case (Cons q ks)
  then show ?case by (cases i) (auto simp: key_place_def)
qed simp

lemma node_list_ok: "jmap_ok (node_list es)" "map fst (node_list es) = first_keys es"
proof -
  show "map fst (node_list es) = first_keys es"
    unfolding node_list_def map_map comp_def fst_conv by (rule map_nth)
  then show "jmap_ok (node_list es)" by (simp add: jmap_ok_def first_keys_distinct)
qed

lemma node_list_get:
  "jmap_get (node_list es) k =
     (if k \<in> set (first_keys es) then Some (node_for (key_place (first_keys es) k) (key_group k es)) else None)"
proof (cases "k \<in> set (first_keys es)")
  case True
  then obtain i where i: "i < length (first_keys es)" "first_keys es ! i = k" by (auto simp: in_set_conv_nth)
  then have "key_place (first_keys es) k = i" using key_place_nth [OF first_keys_distinct] by blast
  moreover have "(k, node_for i (key_group k es)) \<in> set (node_list es)"
    using i by (auto simp: node_list_def intro!: image_eqI [of _ _ i])
  ultimately show ?thesis
    using True node_list_ok(1) [of es] by (simp add: jmap_get_iff)
next
  case False
  then show ?thesis
    using node_list_ok(2) [of es] by (simp add: jmap_get_def map_of_eq_None_iff flip: set_map)
qed

lemma jmap_set_map:
  assumes "jmap_ok m" "jmap_get m k \<noteq> None"
  shows "jmap_set m k w = map (\<lambda>(j, x). if j = k then (j, w) else (j, x)) m"
  using assms
proof (induction m)
  case (Cons p m)
  obtain j x where p: "p = (j, x)" by fastforce
  show ?case
  proof (cases "j = k")
    case True
    then have "\<forall>q \<in> set m. fst q \<noteq> k" using Cons.prems(1) by (auto simp: p jmap_ok_def)
    then have "map (\<lambda>(j, x). if j = k then (j, w) else (j, x)) m = m" by (auto intro!: map_idI)
    then show ?thesis using True by (simp add: p jmap_set_def)
  next
    case False
    with Cons show ?thesis by (simp add: p jmap_set_def jmap_get_def jmap_ok_def)
  qed
qed (simp add: jmap_get_def)

lemma jmap_set_new: "jmap_get m k = None \<Longrightarrow> jmap_set m k w = m @ [(k, w)]"
  by (induction m) (auto simp: jmap_set_def jmap_get_def split: if_splits)

lemma node_list_add: "add_entity e (node_list es) = node_list (es @ [e])"
proof (cases "node_key e \<in> set (first_keys es)")
  case False
  let ?ks = "first_keys es"
  have new: "key_group (node_key e) es = []" using False key_group_known by blast
  have old: "node_key e \<noteq> ?ks ! i" if "i < length ?ks" for i using that False nth_mem by metis
  have "node_list (es @ [e]) = node_list es @ [(node_key e, node_for (length ?ks) [e])]"
    using False old by (simp add: node_list_def first_keys_snoc nth_append key_group_snoc new)
  moreover have "length (node_list es) = length ?ks" by (simp add: node_list_def)
  ultimately show ?thesis
    using False by (simp add: add_entity_def node_list_get jmap_set_new node_for_def best_entity_single)
next
  case True
  let ?ks = "first_keys es"
  define i where "i = key_place ?ks (node_key e)"
  define n where "n = node_for i (key_group (node_key e) es)"
  define w where "w = n\<lparr>kn_confidence := en_score e, kn_name := en_text e\<rparr>"
  have get: "jmap_get (node_list es) (node_key e) = Some n"
    using True by (simp add: node_list_get n_def i_def)
  have group: "key_group (node_key e) es \<noteq> []" using True key_group_known by blast
  have upd: "node_for i (key_group (node_key e) (es @ [e])) = (if en_score e > kn_confidence n then w else n)"
    using group by (simp add: key_group_snoc n_def w_def node_for_def best_entity_snoc)
  have place: "j = i" if "j < length ?ks" "?ks ! j = node_key e" for j
    using key_place_nth [OF first_keys_distinct that(1)] that(2) by (simp add: i_def)
  have at: "node_for x (key_group (?ks ! x) (es @ [e]))
      = (if ?ks ! x = node_key e then (if en_score e > kn_confidence n then w else n) else node_for x (key_group (?ks ! x) es))"
    if "x < length ?ks" for x
    using upd place [OF that] by (cases "?ks ! x = node_key e") (simp_all, simp add: key_group_snoc)
  have "node_list (es @ [e]) = map (\<lambda>(j, x). if j = node_key e then (j, if en_score e > kn_confidence n then w else n) else (j, x)) (node_list es)"
    using True at by (auto simp: node_list_def first_keys_snoc)
  also have "\<dots> = jmap_set (node_list es) (node_key e) (if en_score e > kn_confidence n then w else n)"
    using jmap_set_map [OF node_list_ok(1)] get by simp
  also have "\<dots> = add_entity e (node_list es)"
  proof (cases "en_score e > kn_confidence n")
    case False
    have "jmap_set (node_list es) (node_key e) n = node_list es"
      using jmap_set_map [OF node_list_ok(1), of es "node_key e" n] get node_list_ok(1) [of es]
      by (auto intro!: map_idI simp: jmap_get_iff jmap_ok_def dest: eq_key_imp_eq_value)
    then show ?thesis using False get by (simp add: add_entity_def)
  qed (use get in \<open>simp add: add_entity_def w_def\<close>)
  finally show ?thesis by simp
qed

lemma nodes_of_entities: "fold add_entity es [] = node_list es"
proof (induction es rule: rev_induct)
  case Nil
  then show ?case by (simp add: node_list_def first_keys_snoc)
qed (simp add: node_list_add)

lemma edges_of_relations:
  "add_edges (node_list es) i rels =
     map (\<lambda>(i, rel). edge_for (first_keys es) i rel) (enumerate i (filter (joins_known (first_keys es)) rels))"
  by (induction rels arbitrary: i) (simp_all add: node_list_get joins_known_def edge_for_def node_for_def)

text \<open>C20. The graph a response builds is this one: entities are the same when their texts and labels, in lower case and
  joined by two colons, are; there is one node for each such key, in the order of first appearance and
  numbered by it, with the label of its first entity and the text and confidence of the first of its entities with the
  highest confidence; and there is one edge for each relation whose two ends are among the entities, in
  their order, numbered, between the nodes of its ends and with its label and confidence, and no other.\<close>

theorem graph_well_formed:
  "let g = buildGraphFromResponse model entities relations; es = concat entities; ks = first_keys es in
   kg_nodes g = map (\<lambda>i. node_for i (key_group (ks ! i) es)) [0..<length ks]
   \<and> kg_edges g = (case relations of None \<Rightarrow> []
       | Some rs \<Rightarrow> map (\<lambda>(i, rel). edge_for ks i rel) (enumerate 0 (filter (joins_known ks) (concat rs))))
   \<and> kg_model g = model"
proof -
  have "map snd (node_list es) = map (\<lambda>i. node_for i (key_group (first_keys es ! i) es)) [0..<length (first_keys es)]" for es
    by (simp add: node_list_def)
  then show ?thesis
    by (simp add: buildGraphFromResponse_def Let_def nodes_of_entities edges_of_relations split: option.split)
qed

text \<open>Two different entities share a key when one's text or label has two colons, and are one node.\<close>

lemma keys_collide:
  "let g = buildGraphFromResponse [] [[\<lparr>en_text = ''a::b'', en_label = ''c'', en_score = 1\<rparr>,
       \<lparr>en_text = ''a'', en_label = ''b::c'', en_score = 1\<rparr>]] None
   in map (\<lambda>n. (kn_name n, kn_type n)) (kg_nodes g) = [(''a::b'', ''c'')]"
  by code_simp

text \<open>The model parameter is lost on a Rebel model: the page offers such a model under a prefix, so the
  name that another page links to is in no offer, the selection stays and the parameter stays in the
  address.\<close>

theorem rebel_model_param_ignored:
  "let offers = offered_models [(''rebel-large'', [''relations'']), (''gliner'', [''relations''])] in
   model_param_effect (Some ''rebel-large'') True offers (keep_or_first [] offers) = (''rel:rebel-large'', Some ''rebel-large'')
   \<and> model_param_effect (Some ''rebel-large'') True offers ''gliner'' = (''gliner'', Some ''rebel-large'')
   \<and> model_param_effect (Some ''gliner'') True offers ''rel:rebel-large'' = (''gliner'', None)"
  by code_simp

section \<open>Highlighted text\<close>

definition piece_text :: "piece \<Rightarrow> string" where
  "piece_text p = (case p of Plain t \<Rightarrow> t | Marked l t \<Rightarrow> t)"

text \<open>The entities are the ranges of the text they name, in order and apart.\<close>

fun spans_ok :: "string \<Rightarrow> nat \<Rightarrow> ner_entity list \<Rightarrow> bool" where
  "spans_ok t i [] \<longleftrightarrow> True"
| "spans_ok t i (e # es) \<longleftrightarrow> i \<le> ne_start e \<and> ne_start e \<le> ne_end e \<and> ne_end e \<le> length t
     \<and> ne_text e = take (ne_end e - ne_start e) (drop (ne_start e) t) \<and> spans_ok t (ne_end e) es"

lemma slice_append: "i \<le> j \<Longrightarrow> take (j - i) (drop i xs) @ drop j xs = drop i xs"
  by (metis append_take_drop_id drop_drop le_add_diff_inverse2)

lemma pieces_text: "spans_ok t i es \<Longrightarrow> concat (map piece_text (pieces t i es)) = drop i t"
proof (induction t i es rule: pieces.induct)
  case (2 t i e es)
  from 2(2) have ends: "i \<le> ne_start e" "ne_start e \<le> ne_end e" "spans_ok t (ne_end e) es"
    and marked: "ne_text e = take (ne_end e - ne_start e) (drop (ne_start e) t)" by simp_all
  have "concat (map piece_text (pieces t i (e # es)))
      = take (ne_start e - i) (drop i t) @ ne_text e @ drop (ne_end e) t"
    by (cases "i < ne_start e") (simp_all add: 2(1) [OF ends(3)] piece_text_def [of "Plain _"] piece_text_def [of "Marked _ _"])
  also have "\<dots> = drop i t"
    unfolding marked slice_append [OF ends(2)] by (rule slice_append [OF ends(1)])
  finally show ?case .
qed (simp add: piece_text_def)

lemma pieces_marks: "map (\<lambda>e. Marked (ne_label e) (ne_text e)) es = filter (\<lambda>p. case p of Marked l t \<Rightarrow> True | _ \<Rightarrow> False) (pieces t i es)"
  by (induction t i es rule: pieces.induct) simp_all

text \<open>Highlighting keeps the text: when the entities are ranges of the text that do not overlap, in any order,
  the pieces the page renders are the whole text, with one mark for each entity in the order of the
  text.\<close>

theorem highlight_keeps_text:
  assumes "entities \<noteq> []" "spans_ok inputText 0 (sort_key ne_start entities)"
  shows "\<exists>ps. renderHighlightedText inputText recognized entities = Pieces ps
    \<and> concat (map piece_text ps) = inputText
    \<and> filter (\<lambda>p. case p of Marked l t \<Rightarrow> True | _ \<Rightarrow> False) ps
      = map (\<lambda>e. Marked (ne_label e) (ne_text e)) (sort_key ne_start entities)"
  using pieces_text [OF assms(2)] pieces_marks [of "sort_key ne_start entities" inputText 0] assms(1)
  by (simp add: renderHighlightedText_def)

definition demo_entities :: "ner_entity list" where
  "demo_entities = [\<lparr>ne_text = ''Rome'', ne_label = ''loc'', ne_start = 7, ne_end = 11, ne_score = 9 / 10\<rparr>,
     \<lparr>ne_text = ''Ann'', ne_label = ''per'', ne_start = 0, ne_end = 3, ne_score = 8 / 10\<rparr>]"

theorem highlight_keeps_text_witness:
  "\<exists>ps. renderHighlightedText ''Ann in Rome!'' True demo_entities = Pieces ps \<and> concat (map piece_text ps) = ''Ann in Rome!''"
  using highlight_keeps_text [of demo_entities "''Ann in Rome!''" True] by (auto simp: demo_entities_def)

text \<open>Overlapping entities repeat text: an entity inside another, which a recogniser with several labels
  returns, is rendered after the one that holds it, so its letters are shown twice, and so is what
  follows it in the outer entity.\<close>

theorem overlap_repeats_text:
  "renderHighlightedText ''New York Times'' True
      [\<lparr>ne_text = ''New York Times'', ne_label = ''org'', ne_start = 0, ne_end = 14, ne_score = 1\<rparr>,
       \<lparr>ne_text = ''York'', ne_label = ''loc'', ne_start = 4, ne_end = 8, ne_score = 1\<rparr>]
   = Pieces [Marked ''org'' ''New York Times'', Marked ''loc'' ''York'', Plain '' Times'']"
  by (simp add: renderHighlightedText_def)

section \<open>Ranks and documents\<close>

lemma map_ranked:
  assumes "\<And>r n. f (r\<lparr>rk_rank := n\<rparr>) = f r"
  shows "map f (map (\<lambda>(i, r). r\<lparr>rk_rank := i + 1\<rparr>) (enumerate 0 rows)) = map f rows"
  by (rule nth_equalityI) (simp_all add: nth_enumerate_eq assms)

text \<open>The ranking is one: the rows carry the ranks \<open>1\<close>, \<open>2\<close>, and so on, their scores never rise, and they are the
  documents of the request, each once, with the score the server gave it.\<close>

theorem ranks_sorted:
  "rr_scores p = Some scores \<Longrightarrow> length scores = length (nonempty_docs p) \<Longrightarrow>
   let rows = getRankedDocuments p in
   map rk_rank rows = [1..<length rows + 1]
   \<and> sorted (map (\<lambda>r. - rk_score r) rows)
   \<and> mset (map (\<lambda>r. (rk_index r, rk_text r, rk_score r)) rows)
     = mset (zip [0..<length scores] (zip (nonempty_docs p) scores))"
proof -
  assume some: "rr_scores p = Some scores" and len: "length scores = length (nonempty_docs p)"
  define given where "given = map (\<lambda>(i, s). \<lparr>rk_index = i,
      rk_text = (if i < length (nonempty_docs p) then nonempty_docs p ! i else []), rk_score = s, rk_rank = 0\<rparr>) (enumerate 0 scores)"
  define best where "best = sort_key (\<lambda>r. - rk_score r) given"
  have rows: "getRankedDocuments p = map (\<lambda>(i, r). r\<lparr>rk_rank := i + 1\<rparr>) (enumerate 0 best)"
    by (simp add: getRankedDocuments_def some given_def best_def)
  have "map rk_rank (getRankedDocuments p) = [1..<length (getRankedDocuments p) + 1]"
    unfolding rows by (rule nth_equalityI) (simp_all add: nth_enumerate_eq del: upt_Suc)
  moreover have "sorted (map (\<lambda>r. - rk_score r) (getRankedDocuments p))"
    unfolding rows using map_ranked [of "\<lambda>r. - rk_score r" best] by (simp add: best_def)
  moreover have "mset (map (\<lambda>r. (rk_index r, rk_text r, rk_score r)) (getRankedDocuments p))
      = mset (map (\<lambda>r. (rk_index r, rk_text r, rk_score r)) given)"
    unfolding rows by (subst map_ranked) (simp_all add: best_def)
  moreover have "map (\<lambda>r. (rk_index r, rk_text r, rk_score r)) given = zip [0..<length scores] (zip (nonempty_docs p) scores)"
    by (rule nth_equalityI) (simp_all add: given_def nth_enumerate_eq len)
  ultimately show ?thesis by simp
qed

definition demo_rerank :: rerank_page where
  "demo_rerank = \<lparr>rr_query = ''q'', rr_documents = [''a'', '''', ''b''], rr_docKeys = [''doc-1'', ''doc-2'', ''doc-3''],
     rr_counter = 3, rr_scores = Some [1 / 10, 9 / 10]\<rparr>"

lemma demo_rerank_docs: "nonempty_docs demo_rerank = [''a'', ''b'']" "rr_scores demo_rerank = Some [1 / 10, 9 / 10]"
  by code_simp+

theorem ranks_sorted_witness: "length (map rk_rank (getRankedDocuments demo_rerank)) = 2"
proof -
  have "mset (map (\<lambda>r. (rk_index r, rk_text r, rk_score r)) (getRankedDocuments demo_rerank))
      = mset [(0, ''a'', 1 / 10), (1, ''b'', 9 / 10)]"
    using ranks_sorted [OF demo_rerank_docs(2)] by (simp add: demo_rerank_docs Let_def)
  from arg_cong [OF this, of size] show ?thesis by simp
qed

text \<open>A sample leaves the scores of the documents before it: loading a preset replaces the query and the
  documents and not the answer, so the page ranks the new documents by the scores of the old ones.\<close>

theorem sample_keeps_scores:
  "map (\<lambda>r. (rk_text r, rk_rank r)) (getRankedDocuments (load_sample ''r'' [''x'', ''y''] demo_rerank)) = [(''y'', 1), (''x'', 2)]
   \<and> rr_scores (updateDocument 0 ''x'' demo_rerank) = None"
  by code_simp

lemma show_nat_first: "show_nat n = c # s \<Longrightarrow> 48 \<le> (of_char c :: nat) \<and> (of_char c :: nat) \<le> 57"
proof (induction n arbitrary: s rule: show_nat.induct)
  case (1 n)
  show ?case
  proof (cases "n < 10")
    case True
    then show ?thesis using "1.prems" by (auto simp: show_nat.simps [of n])
  next
    case False
    obtain d t where "show_nat (n div 10) = d # t"
      by (cases "show_nat (n div 10)") (auto simp: show_nat.simps [of "n div 10"] split: if_splits)
    then show ?thesis
      using "1.IH" [OF False] "1.prems" False by (simp add: show_nat.simps [of n])
  qed
qed

text \<open>Every row has a key of its own: one of the first page or a counted one, which no later row gets.\<close>

definition rows_ok :: "rerank_page \<Rightarrow> bool" where
  "rows_ok p \<longleftrightarrow> length (rr_docKeys p) = length (rr_documents p) \<and> distinct (rr_docKeys p)
     \<and> (\<forall>k \<in> set (rr_docKeys p). (\<exists>i. k = initial_key i) \<or> (\<exists>n. n \<le> rr_counter p \<and> k = doc_key n))"

lemma initial_key_ne [simp]: "doc_key n \<noteq> initial_key i"
  using show_nat_first [of n "CHR ''i''" "tl (show_nat n)"] by (auto simp: doc_key_def initial_key_def)

lemma doc_key_eq [simp]: "doc_key m = doc_key n \<longleftrightarrow> m = n"
  by (simp add: doc_key_def)

lemma rows_ok_fresh: "rows_ok p \<Longrightarrow> rr_counter p < n \<Longrightarrow> doc_key n \<notin> set (rr_docKeys p)"
  unfolding rows_ok_def by (metis doc_key_eq initial_key_ne linorder_not_le)

lemma rows_ok_remove: "rows_ok p \<Longrightarrow> rows_ok (removeDocument i p)"
  using length_without [of "rr_docKeys p" "rr_documents p" i] unfolding rows_ok_def removeDocument_def
  by (auto simp: distinct_without dest: without_in)

lemma rows_ok_add: "rows_ok p \<Longrightarrow> rows_ok (addDocument p)"
  using rows_ok_fresh [of p "rr_counter p + 1"] unfolding rows_ok_def addDocument_def
  by (auto intro: le_SucI)

lemma rows_ok_step: "rows_ok p \<Longrightarrow> rows_ok (edit_documents e p)"
  by (cases e) (auto simp: edit_documents_def rows_ok_remove rows_ok_add, 
    auto simp: rows_ok_def updateDocument_def load_sample_def handleReset_rerank_def distinct_map inj_on_def)

text \<open>Rows keep their keys: whatever the user adds, removes, edits, loads and resets, every document row has a key,
  and no two rows share one, so a row keeps its text field when others go.\<close>

theorem rows_keyed:
  "let p = foldl (\<lambda>p e. edit_documents e p) (initial_rerank saved) es in
   length (rr_docKeys p) = length (rr_documents p) \<and> distinct (rr_docKeys p)"
proof -
  have start: "rows_ok (initial_rerank saved)"
    by (auto simp: initial_rerank_def rows_ok_def distinct_map inj_on_def initial_key_def Let_def
        split: option.split list.split prod.split)
  have "rows_ok (foldl (\<lambda>p e. edit_documents e p) q es)" if "rows_ok q" for q
    using that by (induction es arbitrary: q) (simp_all add: rows_ok_step)
  from this [OF start] show ?thesis by (simp add: Let_def rows_ok_def)
qed

end
