(* ===== verification/AutosuggestItems.thy ===== *)
theory AutosuggestItems
  imports Autosuggest
begin

text \<open>
  The composable parts of the autosuggest dropdown (ts/packages/components/src/Autosuggest.tsx from
  line 425): the result and facet sections, the numbers under which their items are registered for
  keyboard navigation, and what is shown. A section keeps the numbers it got in a map of its own; when
  what it displays changes, the effect of the section removes the old items and registers the new.
  In one commit the cleanups of all changed sections run before their effects. \<open>collate\<close> is the order
  of \<open>localeCompare\<close>.
\<close>

section \<open>What a section displays\<close>

definition displayResults :: "(jsval \<Rightarrow> bool) option \<Rightarrow> nat option \<Rightarrow> jsval list \<Rightarrow> jsval list" where
  "displayResults flt limit results =
     (let filtered = (case flt of None \<Rightarrow> results | Some f \<Rightarrow> filter f results)
      in case limit of None \<Rightarrow> filtered | Some n \<Rightarrow> if n = 0 then filtered else take n filtered)"

datatype facet_order = ByCount | ByReverseCount | ByTerm | ByReverseTerm

text \<open>A stable sort by a falling key.\<close>

definition sort_down :: "('a \<Rightarrow> 'k :: linorder) \<Rightarrow> 'a list \<Rightarrow> 'a list" where
  "sort_down f xs = rev (sort_key f (rev xs))"

definition sortedTerms :: "(string \<Rightarrow> 'k :: linorder) \<Rightarrow> facet_order \<Rightarrow> bucket list \<Rightarrow> bucket list" where
  "sortedTerms collate ord terms =
     (case ord of
        ByCount \<Rightarrow> sort_down bk_doc_count terms
      | ByReverseCount \<Rightarrow> sort_key bk_doc_count terms
      | ByTerm \<Rightarrow> sort_key (\<lambda>t. collate (bk_key t)) terms
      | ByReverseTerm \<Rightarrow> sort_down (\<lambda>t. collate (bk_key t)) terms)"

definition displayTerms :: "(string \<Rightarrow> 'k :: linorder) \<Rightarrow> facet_order \<Rightarrow> (bucket \<Rightarrow> bool) option \<Rightarrow> nat \<Rightarrow> bucket list \<Rightarrow> bucket list" where
  "displayTerms collate ord flt n terms =
     take n ((case flt of None \<Rightarrow> id | Some f \<Rightarrow> filter f) (sortedTerms collate ord terms))"

definition result_item_id :: "string \<Rightarrow> string" where
  "result_item_id i = ''result-'' @ i"

definition facet_item_id :: "string \<Rightarrow> string \<Rightarrow> string" where
  "facet_item_id field k = ''facet-'' @ field @ ''-'' @ k"

section \<open>The numbers of the items\<close>

text \<open>A section: the displayed keys, how a key is named in the registry, and the section's own map.\<close>

record panel =
  pn_item :: "string \<Rightarrow> string"
  pn_keys :: "string list"
  pn_index :: "(string, nat) jmap"

definition register_key :: "(string \<Rightarrow> string) \<Rightarrow> string \<Rightarrow> (string, nat) jmap \<times> (string, nat) jmap
    \<Rightarrow> (string, nat) jmap \<times> (string, nat) jmap" where
  "register_key item k = (\<lambda>(m, ix). let (m', n) = registerItem (item k) m in (m', jmap_set ix k n))"

definition unregister_key :: "(string \<Rightarrow> string) \<Rightarrow> string \<Rightarrow> (string, nat) jmap \<times> (string, nat) jmap
    \<Rightarrow> (string, nat) jmap \<times> (string, nat) jmap" where
  "unregister_key item k = (\<lambda>(m, ix). (unregisterItem (item k) m, jmap_delete ix k))"

definition panel_effect :: "panel \<Rightarrow> (string, nat) jmap \<Rightarrow> panel \<times> (string, nat) jmap" where
  "panel_effect p m =
     (let (m', ix) = fold (register_key (pn_item p)) (pn_keys p) (m, pn_index p) in (p\<lparr>pn_index := ix\<rparr>, m'))"

definition panel_cleanup :: "panel \<Rightarrow> (string, nat) jmap \<Rightarrow> panel \<times> (string, nat) jmap" where
  "panel_cleanup p m =
     (let (m', ix) = fold (unregister_key (pn_item p)) (pn_keys p) (m, pn_index p) in (p\<lparr>pn_index := ix\<rparr>, m'))"

text \<open>A commit: for each section the keys it now displays, or nothing when they have not changed.\<close>

fun run_cleanups :: "(panel \<times> string list option) list \<Rightarrow> (string, nat) jmap \<Rightarrow> panel list \<times> (string, nat) jmap" where
  "run_cleanups [] m = ([], m)"
| "run_cleanups ((p, None) # ps) m = (let (qs, m') = run_cleanups ps m in (p # qs, m'))"
| "run_cleanups ((p, Some keys) # ps) m =
     (let (p', m') = panel_cleanup p m; (qs, m'') = run_cleanups ps m' in (p'\<lparr>pn_keys := keys\<rparr> # qs, m''))"

fun run_effects :: "(panel \<times> bool) list \<Rightarrow> (string, nat) jmap \<Rightarrow> panel list \<times> (string, nat) jmap" where
  "run_effects [] m = ([], m)"
| "run_effects ((p, changed) # ps) m =
     (let (p', m') = (if changed then panel_effect p m else (p, m)); (qs, m'') = run_effects ps m' in (p' # qs, m''))"

definition commit :: "(panel \<times> string list option) list \<Rightarrow> (string, nat) jmap \<Rightarrow> panel list \<times> (string, nat) jmap" where
  "commit ps m =
     (let (qs, m') = run_cleanups ps m in run_effects (zip qs (map (\<lambda>(p, new). new \<noteq> None) ps)) m')"

text \<open>What the Enter key picks in a section.\<close>

definition picked_key :: "int \<Rightarrow> panel \<Rightarrow> string option" where
  "picked_key selected p =
     (if selected < 0 then None else find (\<lambda>k. jmap_get (pn_index p) k = Some (nat selected)) (pn_keys p))"

section \<open>What is shown\<close>

definition container_shown :: "bool \<Rightarrow> string \<Rightarrow> nat \<Rightarrow> jsval list \<Rightarrow> (string, bucket list) jmap \<Rightarrow> bool \<Rightarrow> bool" where
  "container_shown isOpen searchValue minChars sugg fd loading \<longleftrightarrow>
     isOpen \<and> length searchValue \<ge> minChars
     \<and> (sugg \<noteq> [] \<or> list_ex (\<lambda>(f, terms). terms \<noteq> []) fd \<or> loading)"

definition list_shown :: "bool \<Rightarrow> jsval list \<Rightarrow> bool" where
  "list_shown isOpen sugg \<longleftrightarrow> isOpen \<and> sugg \<noteq> []"

text \<open>The default text of a hit: its value in the first field, without the suffix of the index, or its id.\<close>

definition plain_field :: "string \<Rightarrow> string" where
  "plain_field f =
     (if ends_with f ''__2gram'' then take (length f - 7) f
      else if ends_with f ''__keyword'' then take (length f - 9) f else f)"

definition hit_text :: "string list option \<Rightarrow> jsval \<Rightarrow> string" where
  "hit_text flds hit =
     (let v = (case flds of
                 Some (f # _) \<Rightarrow> if plain_field f = [] then JUndef else fld (fld hit ''_source'') (plain_field f)
               | _ \<Rightarrow> JUndef)
      in if truthy v then to_str v else to_str (fld hit ''_id''))"

section \<open>Numbering\<close>

lemma register_fresh:
  assumes "registry_ok m" "n \<notin> fst ` set m"
  shows "registerItem n m = (m @ [(n, length m)], length m)" "registry_ok (m @ [(n, length m)])"
proof -
  have none: "jmap_get m n = None" using assms(2) by (simp add: jmap_get_def map_of_eq_None_iff)
  have set: "jmap_set m n (length m) = m @ [(n, length m)]"
    using assms(2) by (simp add: jmap_set_def update_new)
  show "registerItem n m = (m @ [(n, length m)], length m)"
    by (simp add: registerItem_def none set)
  show "registry_ok (m @ [(n, length m)])"
    using assms by (simp add: registry_ok_def jmap_ok_def)
qed

lemma register_keys:
  assumes "registry_ok m" "distinct (map item keys)" "item ` set keys \<inter> fst ` set m = {}"
  shows "\<exists>ix'. fold (register_key item) keys (m, ix) = (m @ zip (map item keys) [length m..<length m + length keys], ix')
    \<and> registry_ok (m @ zip (map item keys) [length m..<length m + length keys])
    \<and> (\<forall>k. jmap_get ix' k = (case map_of (zip keys [length m..<length m + length keys]) k of
         Some n \<Rightarrow> Some n | None \<Rightarrow> jmap_get ix k))"
  using assms
proof (induction keys arbitrary: m ix)
  case (Cons k keys)
  let ?m = "m @ [(item k, length m)]"
  have fresh: "item k \<notin> fst ` set m" using Cons.prems(3) by auto
  note reg = register_fresh [OF Cons.prems(1) fresh]
  have step: "register_key item k (m, ix) = (?m, jmap_set ix k (length m))"
    by (simp add: register_key_def reg(1))
  have range: "[length m..<length m + length (k # keys)] = length m # [length ?m..<length ?m + length keys]"
    by (simp add: upt_rec)
  have "item ` set keys \<inter> fst ` set ?m = {}" using Cons.prems(2,3) by auto
  with Cons.IH [OF reg(2), of "jmap_set ix k (length m)"] Cons.prems(2)
  obtain ix' where ix': "fold (register_key item) keys (?m, jmap_set ix k (length m))
      = (?m @ zip (map item keys) [length ?m..<length ?m + length keys], ix')"
    "registry_ok (?m @ zip (map item keys) [length ?m..<length ?m + length keys])"
    "\<forall>j. jmap_get ix' j = (case map_of (zip keys [length ?m..<length ?m + length keys]) j of
         Some n \<Rightarrow> Some n | None \<Rightarrow> jmap_get (jmap_set ix k (length m)) j)"
    by auto
  define old where "old = map_of (zip keys [length ?m..<length ?m + length keys])"
  have "k \<notin> set keys" using Cons.prems(2) by auto
  then have none: "old k = None"
    unfolding old_def map_of_eq_None_iff by (metis imageE prod.collapse set_zip_leftD)
  have "jmap_get ix' j = (case map_of (zip (k # keys) (length m # [length ?m..<length ?m + length keys])) j of
         Some n \<Rightarrow> Some n | None \<Rightarrow> jmap_get ix j)" for j
    using ix'(3) [folded old_def, rule_format, of j] none
    unfolding zip_Cons_Cons map_of.simps fst_conv snd_conv old_def [symmetric]
    by (cases "j = k") (simp_all split: option.split)
  then show ?case
    using ix'(1,2) unfolding range by (intro exI [of _ ix']) (simp add: step del: upt_Suc)
qed simp

lemma unregister_keys:
  assumes "registry_ok m" "fold (unregister_key item) keys (m, ix) = (m', ix')"
  shows "registry_ok m' \<and> fst ` set m' = fst ` set m - item ` set keys \<and> fst ` set ix' = fst ` set ix - set keys"
  using assms
proof (induction keys arbitrary: m ix)
  case (Cons k keys)
  have ok: "registry_ok (unregisterItem (item k) m)"
    using registry_step [of m "Unregister (item k)"] Cons.prems by simp
  have names: "fst ` set (unregisterItem (item k) m) = fst ` set m - {item k}"
  proof -
    have "length (map fst (jmap_delete m (item k))) = length [0..<length (jmap_delete m (item k))]" by simp
    then have "map fst (unregisterItem (item k) m) = map fst (jmap_delete m (item k))"
      by (simp add: unregisterItem_def Let_def)
    then have "set (map fst (unregisterItem (item k) m)) = set (map fst m) - {item k}"
      by (simp only: jmap_delete_def delete_keys set_removeAll)
    then show ?thesis by simp
  qed
  have own: "fst ` set (jmap_delete ix k) = fst ` set ix - {k}"
  proof -
    have "set (map fst (jmap_delete ix k)) = set (map fst ix) - {k}"
      by (simp only: jmap_delete_def delete_keys set_removeAll)
    then show ?thesis by simp
  qed
  have "fold (unregister_key item) keys (unregisterItem (item k) m, jmap_delete ix k) = (m', ix')"
    using Cons.prems(2) by (simp add: unregister_key_def [of item k])
  note res = Cons.IH [OF ok this, unfolded names own]
  have "fst ` set m' = fst ` set m - item ` set (k # keys)" using res by auto
  moreover have "fst ` set ix' = fst ` set ix - set (k # keys)" using res by auto
  ultimately show ?case using res by blast
qed simp

section \<open>A commit of all sections\<close>

abbreviation panel_names :: "panel \<Rightarrow> string list" where
  "panel_names p \<equiv> map (pn_item p) (pn_keys p)"

text \<open>The registry holds the items of the sections, and a section's map only its own.\<close>

definition panels_registered :: "panel list \<Rightarrow> (string, nat) jmap \<Rightarrow> bool" where
  "panels_registered ps m \<longleftrightarrow> registry_ok m \<and> fst ` set m = set (concat (map panel_names ps))
     \<and> (\<forall>p \<in> set ps. fst ` set (pn_index p) \<subseteq> set (pn_keys p))"

fun numbered :: "nat \<Rightarrow> panel list \<Rightarrow> bool" where
  "numbered off [] \<longleftrightarrow> True"
| "numbered off (p # ps) \<longleftrightarrow>
     (\<forall>k. jmap_get (pn_index p) k = map_of (zip (pn_keys p) [off..<off + length (pn_keys p)]) k)
     \<and> numbered (off + length (pn_keys p)) ps"

lemma cleanup_all:
  assumes "registry_ok m" "\<forall>p \<in> set ps. fst ` set (pn_index p) \<subseteq> set (pn_keys p)" "length ps = length news"
  shows "\<exists>m'. run_cleanups (zip ps (map Some news)) m = (map2 (\<lambda>p ks. p\<lparr>pn_keys := ks, pn_index := []\<rparr>) ps news, m')
    \<and> registry_ok m' \<and> fst ` set m' = fst ` set m - set (concat (map panel_names ps))"
  using assms
proof (induction ps arbitrary: m news)
  case (Cons p ps)
  then obtain ks news' where news: "news = ks # news'" by (cases news) auto
  obtain m1 ix where fold: "fold (unregister_key (pn_item p)) (pn_keys p) (m, pn_index p) = (m1, ix)" by force
  note m1 = unregister_keys [OF Cons.prems(1) fold, THEN conjunct1]
    unregister_keys [OF Cons.prems(1) fold, THEN conjunct2, THEN conjunct1]
    unregister_keys [OF Cons.prems(1) fold, THEN conjunct2, THEN conjunct2]
  have "fst ` set ix = {}" using m1(3) Cons.prems(2) by auto
  then have "ix = []" by simp
  then have clean: "panel_cleanup p m = (p\<lparr>pn_index := []\<rparr>, m1)" by (simp add: panel_cleanup_def fold)
  have "length ps = length news'" using Cons.prems(3) news by simp
  with Cons.IH [OF m1(1), of news'] Cons.prems(2) obtain m' where res:
    "run_cleanups (zip ps (map Some news')) m1 = (map2 (\<lambda>p ks. p\<lparr>pn_keys := ks, pn_index := []\<rparr>) ps news', m')"
    "registry_ok m'" "fst ` set m' = fst ` set m1 - set (concat (map panel_names ps))"
    by (meson list.set_intros(2))
  have "run_cleanups (zip (p # ps) (map Some news)) m
      = (map2 (\<lambda>p ks. p\<lparr>pn_keys := ks, pn_index := []\<rparr>) (p # ps) news, m')"
    unfolding news list.map zip_Cons_Cons run_cleanups.simps clean Let_def prod.case res(1) by simp
  moreover have "fst ` set m' = fst ` set m - set (concat (map panel_names (p # ps)))"
    unfolding res(3) m1(2) by auto
  ultimately show ?case using res(2) by blast
qed simp

lemma effects_all:
  assumes "registry_ok m" "distinct (concat (map panel_names ps))" "set (concat (map panel_names ps)) \<inter> fst ` set m = {}"
    and "\<forall>p \<in> set ps. pn_index p = []"
  shows "\<exists>qs. run_effects (map (\<lambda>p. (p, True)) ps) m
      = (qs, m @ zip (concat (map panel_names ps)) [length m..<length m + length (concat (map panel_names ps))])
    \<and> numbered (length m) qs \<and> map pn_keys qs = map pn_keys ps \<and> map pn_item qs = map pn_item ps"
  using assms
proof (induction ps arbitrary: m)
  case (Cons p ps)
  let ?n = "length (pn_keys p)"
  let ?m = "m @ zip (panel_names p) [length m..<length m + ?n]"
  have empty: "(case x of None \<Rightarrow> jmap_get [] k | Some n \<Rightarrow> Some n) = x" for x and k :: string
    by (cases x) simp_all
  obtain ix where ix: "fold (register_key (pn_item p)) (pn_keys p) (m, pn_index p) = (?m, ix)" "registry_ok ?m"
    "\<forall>k. jmap_get ix k = map_of (zip (pn_keys p) [length m..<length m + ?n]) k"
  proof -
    have "distinct (panel_names p)" "pn_item p ` set (pn_keys p) \<inter> fst ` set m = {}" "pn_index p = []"
      using Cons.prems(2-4) by auto
    from register_keys [OF Cons.prems(1) this(1,2), of "pn_index p"] that show thesis
      unfolding \<open>pn_index p = []\<close> empty by blast
  qed
  have len: "length ?m = length m + ?n" by simp
  have names: "fst ` set ?m = fst ` set m \<union> set (panel_names p)"
    by (simp add: image_Un set_map [symmetric] del: set_map)
  have sep: "set (concat (map panel_names ps)) \<inter> fst ` set ?m = {}"
  proof -
    have gen: "B \<inter> (C \<union> A) = {}" if "A \<inter> B = {}" "(A \<union> B) \<inter> C = {}" for A B C :: "string set"
      using that by blast
    have "set (panel_names p) \<inter> set (concat (map panel_names ps)) = {}"
      using Cons.prems(2) unfolding list.map concat.simps distinct_append by (elim conjE)
    moreover have "(set (panel_names p) \<union> set (concat (map panel_names ps))) \<inter> fst ` set m = {}"
      using Cons.prems(3) unfolding list.map concat.simps set_append .
    ultimately show ?thesis unfolding names by (rule gen)
  qed
  have rest: "distinct (concat (map panel_names ps))" "\<forall>p \<in> set ps. pn_index p = []"
    using Cons.prems(2,4) by simp_all
  from Cons.IH [OF ix(2) rest(1) sep rest(2), unfolded len]
  obtain qs where q: "run_effects (map (\<lambda>p. (p, True)) ps) ?m
      = (qs, ?m @ zip (concat (map panel_names ps)) [length m + ?n..<length m + ?n + length (concat (map panel_names ps))])
    \<and> numbered (length m + ?n) qs \<and> map pn_keys qs = map pn_keys ps \<and> map pn_item qs = map pn_item ps"
    by (rule exE)
  note qs = q [THEN conjunct1] q [THEN conjunct2, THEN conjunct1] q [THEN conjunct2, THEN conjunct2]
  have "[length m..<length m + ?n + length (concat (map panel_names ps))]
      = [length m..<length m + ?n] @ [length m + ?n..<length m + ?n + length (concat (map panel_names ps))]"
    by (rule upt_add_eq_append) simp
  then have "zip (concat (map panel_names (p # ps))) [length m..<length m + length (concat (map panel_names (p # ps)))]
      = zip (panel_names p) [length m..<length m + ?n]
        @ zip (concat (map panel_names ps)) [length m + ?n..<length m + ?n + length (concat (map panel_names ps))]"
    by (simp add: add.assoc)
  then show ?case
    using ix qs by (intro exI [of _ "p\<lparr>pn_index := ix\<rparr> # qs"]) (simp add: panel_effect_def)
qed simp

lemma find_number:
  assumes "distinct keys"
  shows "find (\<lambda>k. map_of (zip keys [off..<off + length keys]) k = Some i) keys
    = (if off \<le> i \<and> i < off + length keys then Some (keys ! (i - off)) else None)"
  using assms
proof (induction keys arbitrary: off)
  case (Cons k keys)
  have range: "[off..<off + length (k # keys)] = off # [Suc off..<Suc off + length keys]"
    by (simp add: upt_rec)
  have "find (\<lambda>j. map_of (zip (k # keys) (off # [Suc off..<Suc off + length keys])) j = Some i) keys
      = find (\<lambda>j. map_of (zip keys [Suc off..<Suc off + length keys]) j = Some i) keys"
    using Cons.prems by (intro find_cong) auto
  then show ?case
    unfolding range using Cons.IH [of "Suc off"] Cons.prems
    by (cases "i = off") (auto simp: nth_Cons' Suc_diff_le simp del: upt_Suc)
qed simp

definition picked_names :: "int \<Rightarrow> panel list \<Rightarrow> string list" where
  "picked_names selected ps = concat (map (\<lambda>p. case picked_key selected p of None \<Rightarrow> [] | Some k \<Rightarrow> [pn_item p k]) ps)"

lemma numbered_picks:
  assumes "numbered off ps" "\<forall>p \<in> set ps. distinct (pn_keys p)"
  shows "picked_names (int i) ps = (if off \<le> i \<and> i - off < length (concat (map panel_names ps))
    then [concat (map panel_names ps) ! (i - off)] else [])"
  using assms
proof (induction ps arbitrary: off)
  case (Cons p ps)
  let ?n = "length (pn_keys p)"
  have pick: "picked_key (int i) p = (if off \<le> i \<and> i < off + ?n then Some (pn_keys p ! (i - off)) else None)"
    using Cons.prems find_number [of "pn_keys p" off i] by (simp add: picked_key_def)
  have IH: "picked_names (int i) ps = (if off + ?n \<le> i \<and> i - (off + ?n) < length (concat (map panel_names ps))
      then [concat (map panel_names ps) ! (i - (off + ?n))] else [])"
    using Cons by simp
  have cons: "picked_names (int i) (p # ps)
      = (if off \<le> i \<and> i < off + ?n then [pn_item p (pn_keys p ! (i - off))] else []) @ picked_names (int i) ps"
    unfolding picked_names_def by (simp add: pick)
  consider "i < off" | "off \<le> i" "i < off + ?n" | "off + ?n \<le> i" by linarith
  then show ?case
    unfolding cons IH
  proof cases
    case 2
    then show "(if off \<le> i \<and> i < off + ?n then [pn_item p (pn_keys p ! (i - off))] else [])
        @ (if off + ?n \<le> i \<and> i - (off + ?n) < length (concat (map panel_names ps))
           then [concat (map panel_names ps) ! (i - (off + ?n))] else [])
      = (if off \<le> i \<and> i - off < length (concat (map panel_names (p # ps)))
         then [concat (map panel_names (p # ps)) ! (i - off)] else [])"
      by (simp add: nth_append less_diff_conv2)
  next
    case 3
    then have "i - off < ?n + length (concat (map panel_names ps)) \<longleftrightarrow> i - (off + ?n) < length (concat (map panel_names ps))"
      by linarith
    then show "(if off \<le> i \<and> i < off + ?n then [pn_item p (pn_keys p ! (i - off))] else [])
        @ (if off + ?n \<le> i \<and> i - (off + ?n) < length (concat (map panel_names ps))
           then [concat (map panel_names ps) ! (i - (off + ?n))] else [])
      = (if off \<le> i \<and> i - off < length (concat (map panel_names (p # ps)))
         then [concat (map panel_names (p # ps)) ! (i - off)] else [])"
      using 3 by (simp add: nth_append)
  qed simp
qed (simp add: picked_names_def)

text \<open>The sections after a commit in which all of them display new keys.\<close>

definition redisplay :: "panel list \<Rightarrow> string list list \<Rightarrow> panel list" where
  "redisplay ps news = map2 (\<lambda>p ks. p\<lparr>pn_keys := ks, pn_index := []\<rparr>) ps news"

text \<open>A new answer numbers the items afresh: when every section displays new items, they are registered
  as 0, 1, 2, ... in the order of the sections, and the Enter key picks, over all sections together,
  exactly the item with the selected number.\<close>

theorem enter_picks_selected:
  assumes "panels_registered ps m" "length news = length ps"
    and "distinct (concat (map panel_names (redisplay ps news)))"
  shows "let (qs, m') = commit (zip ps (map Some news)) m; names = concat (map panel_names (redisplay ps news)) in
    m' = zip names [0..<length names]
    \<and> picked_names (int i) qs = (if i < length names then [names ! i] else [])"
proof -
  let ?rs = "redisplay ps news"
  obtain m1 where m1: "run_cleanups (zip ps (map Some news)) m = (?rs, m1)" "registry_ok m1"
      "fst ` set m1 = fst ` set m - set (concat (map panel_names ps))"
    using cleanup_all [of m ps news] assms(1,2) unfolding panels_registered_def redisplay_def by auto
  then have "m1 = []" using assms(1) by (auto simp: panels_registered_def)
  have rs: "zip ?rs (map (\<lambda>(p, new). new \<noteq> None) (zip ps (map Some news))) = map (\<lambda>p. (p, True)) ?rs"
    using assms(2) by (intro nth_equalityI) (simp_all add: redisplay_def)
  have "\<forall>p \<in> set ?rs. pn_index p = []" by (auto simp: redisplay_def)
  with effects_all [of "[]" ?rs] assms(3) obtain qs where qs:
    "run_effects (map (\<lambda>p. (p, True)) ?rs) []
      = (qs, zip (concat (map panel_names ?rs)) [0..<length (concat (map panel_names ?rs))])"
    "numbered 0 qs" "map pn_keys qs = map pn_keys ?rs" "map pn_item qs = map pn_item ?rs"
    by (auto simp: registry_ok_def)
  have names: "map panel_names qs = map panel_names ?rs"
    using qs(3,4) by (metis (no_types, lifting) list.map_comp nth_map length_map nth_equalityI)
  have "distinct (pn_keys q)" if "q \<in> set qs" for q
    using assms(3) that unfolding names [symmetric] by (auto simp: distinct_concat_iff distinct_map)
  then have "picked_names (int i) qs = (if i < length (concat (map panel_names ?rs))
      then [concat (map panel_names ?rs) ! i] else [])"
    using numbered_picks [OF qs(2)] unfolding names by simp
  then show ?thesis
    unfolding commit_def m1(1) \<open>m1 = []\<close> Let_def prod.case rs qs(1) by simp
qed

definition demo_panels :: "panel list" where
  "demo_panels = [\<lparr>pn_item = facet_item_id ''k'', pn_keys = [], pn_index = []\<rparr>,
     \<lparr>pn_item = result_item_id, pn_keys = [], pn_index = []\<rparr>]"

theorem enter_picks_selected_witness:
  "picked_names 1 (fst (commit (zip demo_panels (map Some [[''a''], [''1'', ''2'']])) [])) = [''result-1'']"
  using enter_picks_selected [of demo_panels "[]" "[[''a''], [''1'', ''2'']]" 1]
  by (simp add: demo_panels_def panels_registered_def registry_ok_def redisplay_def facet_item_id_def result_item_id_def
      Let_def case_prod_beta)

text \<open>A section that changes alone leaves the others with old numbers: with a facet section above the
  results, a new render of the parent changes only the facet section; its items move behind the
  results in the registry, the results keep their old numbers, and then no item has the number 0 and
  the Enter key picks a facet and a result at once.\<close>

theorem stale_numbers_pick_twice:
  "let (ps, m) = commit (zip demo_panels (map Some [[''a''], [''1'']])) [];
       (qs, m') = commit (zip ps [Some [''a''], None]) m in
   picked_names 0 ps = [''facet-k-a''] \<and> picked_names 1 ps = [''result-1'']
   \<and> picked_names 0 qs = [] \<and> picked_names 1 qs = [''facet-k-a'', ''result-1'']"
  by code_simp

end
