(* ===== verification/ChatWidgets.thy ===== *)
theory ChatWidgets
  imports ChatStream SharedStore
begin

text \<open>
  The widgets around the chat hook and the answer (ts/packages/components/src): the bar that owns a
  conversation (ChatBar.tsx), its input (ChatInput.tsx) and its messages (ChatMessages.tsx), the
  feedback on an answer (AnswerFeedback.tsx, feedback-renderers.tsx), and the functions that map
  them to another component set (adapters/transforms.ts, createAIElementsRenderers.tsx).
  A render of the bar is an event: it shows the current state and then runs the effects.
\<close>

section \<open>The bar\<close>

record chat_bar_props =
  cbp_generator :: jsval
  cbp_table :: table_ref
  cbp_semanticIndexes :: "string list option"
  cbp_agentKnowledge :: "string option"
  cbp_systemPrompt :: "string option"
  cbp_maxInternalIterations :: "rat option"
  cbp_followUpCount :: "rat option"
  cbp_limit :: "rat option"
  cbp_steps :: jsval
  cbp_tools :: jsval
  cbp_fields :: "string list option"
  cbp_filterQuery :: jsval
  cbp_exclusionQuery :: jsval

definition chat_bar_config :: "chat_bar_props \<Rightarrow> string option \<Rightarrow> headers option \<Rightarrow> string \<Rightarrow> chat_stream_config" where
  "chat_bar_config p apiUrl hdrs defaultTable =
     \<lparr>cs_url = (case apiUrl of None \<Rightarrow> [] | Some u \<Rightarrow> u),
      cs_headers = Some (case hdrs of None \<Rightarrow> [] | Some hs \<Rightarrow> hs),
      cs_generator = cbp_generator p, cs_table = resolveTable (cbp_table p) defaultTable,
      cs_semanticIndexes = cbp_semanticIndexes p, cs_agentKnowledge = cbp_agentKnowledge p,
      cs_systemPrompt = cbp_systemPrompt p, cs_maxInternalIterations = cbp_maxInternalIterations p,
      cs_followUpCount = cbp_followUpCount p, cs_limit = cbp_limit p, cs_steps = cbp_steps p,
      cs_tools = cbp_tools p, cs_fields = cbp_fields p, cs_filterQuery = cbp_filterQuery p,
      cs_exclusionQuery = cbp_exclusionQuery p\<rparr>"

datatype bar_call = OnStreamStart | OnStreamEnd | OnBarError string

record chat_bar =
  cb_sys :: chat_sys
  cb_prevStreaming :: bool
  cb_calls :: "bar_call list"

definition bar_start :: chat_bar where
  "bar_start = \<lparr>cb_sys = chat_sys_init, cb_prevStreaming = False, cb_calls = []\<rparr>"

definition bar_log :: "bar_call list \<Rightarrow> chat_bar \<Rightarrow> chat_bar" where
  "bar_log cs b = b\<lparr>cb_calls := cb_calls b @ cs\<rparr>"

definition bar_sendMessage :: "string option \<Rightarrow> string \<Rightarrow> chat_bar \<Rightarrow> chat_bar" where
  "bar_sendMessage apiUrl t b =
     (if apiUrl = None \<or> apiUrl = Some [] then bar_log [OnBarError ''ChatBar: Missing API URL in context''] b
      else (bar_log [OnStreamStart] b)\<lparr>cb_sys := chat_step (Send t) (cb_sys b)\<rparr>)"

text \<open>The calls of the effect that watches the end of a stream, and the effect.\<close>

definition end_calls :: "chat_turn list \<Rightarrow> bar_call list" where
  "end_calls ts =
     (if ts = [] then []
      else case t_error (last ts) of Some e \<Rightarrow> if e \<noteq> [] then [OnBarError e] else [] | None \<Rightarrow> []) @ [OnStreamEnd]"

definition bar_effect :: "chat_bar \<Rightarrow> chat_bar" where
  "bar_effect b =
     (let now = c_isStreaming (chat (cb_sys b))
      in (if cb_prevStreaming b \<and> \<not> now then bar_log (end_calls (turns (chat (cb_sys b)))) b else b)
           \<lparr>cb_prevStreaming := now\<rparr>)"

datatype bar_event = BarSend string | BarRender | BarStream chat_event

fun bar_step :: "string option \<Rightarrow> bar_event \<Rightarrow> chat_bar \<Rightarrow> chat_bar" where
  "bar_step apiUrl (BarSend t) b = bar_sendMessage apiUrl t b"
| "bar_step apiUrl BarRender b = bar_effect (b\<lparr>cb_sys := chat_step Rendered (cb_sys b)\<rparr>)"
| "bar_step apiUrl (BarStream e) b = b\<lparr>cb_sys := chat_step e (cb_sys b)\<rparr>"

text \<open>The widget registered for consistency, and the cleanup of the unmount.\<close>

definition bar_widget :: "table_ref \<Rightarrow> widget" where
  "bar_widget t = empty_widget\<lparr>needsQuery := False, needsConfiguration := False, isFacet := False,
     wantResults := False, w_table := t\<rparr>"

definition bar_register :: "string \<Rightarrow> table_ref \<Rightarrow> 'b shared_state \<Rightarrow> 'b shared_state" where
  "bar_register i t = reducer (SetWidget i (bar_widget t))"

definition bar_unmount :: "string \<Rightarrow> chat_bar \<Rightarrow> 'b shared_state \<Rightarrow> chat_bar \<times> 'b shared_state" where
  "bar_unmount i b s = (b\<lparr>cb_sys := chat_step Abort (cb_sys b)\<rparr>, reducer (DeleteWidget i) s)"

section \<open>The input\<close>

text \<open>The message to send, if any, and the text that is left.\<close>

definition chat_input_submit :: "bool \<Rightarrow> string \<Rightarrow> string option \<times> string" where
  "chat_input_submit isStreaming value =
     (let trimmed = trim value in if trimmed = [] \<or> isStreaming then (None, value) else (Some trimmed, []))"

definition chat_input_keydown :: "bool \<Rightarrow> bool \<Rightarrow> bool \<Rightarrow> string \<Rightarrow> string option \<times> string" where
  "chat_input_keydown enter shift isStreaming value =
     (if enter \<and> \<not> shift then chat_input_submit isStreaming value else (None, value))"

section \<open>The messages\<close>

record messages_props =
  mp_showHits :: bool
  mp_showFollowUpQuestions :: bool
  mp_showConfidence :: bool

datatype block =
    UserBlock string | ErrorBlock string | IndicatorBlock | AssistantBlock string bool | ConfidenceBlock jsval
  | HitsBlock "jsval list" | ClarificationBlock jsval | FollowUpsBlock "jsval list"

definition turn_blocks :: "messages_props \<Rightarrow> bool \<Rightarrow> chat_turn \<Rightarrow> block list" where
  "turn_blocks p isLast t =
     [UserBlock (userMessage t)]
     @ (case t_error t of Some e \<Rightarrow> if e \<noteq> [] then [ErrorBlock e] else [] | None \<Rightarrow> [])
     @ (if t_isStreaming t \<and> assistantMessage t = [] \<and> (t_error t = None \<or> t_error t = Some []) then [IndicatorBlock] else [])
     @ (if assistantMessage t \<noteq> [] then [AssistantBlock (assistantMessage t) (t_isStreaming t)] else [])
     @ (if mp_showConfidence p \<and> truthy (t_confidence t) \<and> \<not> t_isStreaming t then [ConfidenceBlock (t_confidence t)] else [])
     @ (if mp_showHits p \<and> t_hits t \<noteq> [] then [HitsBlock (t_hits t)] else [])
     @ (if truthy (t_clarification t) \<and> \<not> t_isStreaming t then [ClarificationBlock (t_clarification t)] else [])
     @ (if mp_showFollowUpQuestions p \<and> isLast \<and> t_followUps t \<noteq> [] \<and> \<not> t_isStreaming t
        then [FollowUpsBlock (t_followUps t)] else [])"

definition chat_messages_view :: "messages_props \<Rightarrow> chat_turn list \<Rightarrow> block list list" where
  "chat_messages_view p ts = map (\<lambda>(i, t). turn_blocks p (i + 1 = length ts) t) (enumerate 0 ts)"

section \<open>Feedback\<close>

record answer_context =
  ac_query :: string
  ac_isStreaming :: bool
  ac_result :: jsval
  ac_answer :: string
  ac_classification :: jsval
  ac_reasoning :: string
  ac_agentKnowledge :: "string option"

record feedback_state =
  fb_rating :: "rat option"
  fb_comment :: string
  fb_showCommentField :: bool
  fb_submitted :: bool
  fb_previousQuery :: string

definition feedback_start :: "string \<Rightarrow> feedback_state" where
  "feedback_start q = \<lparr>fb_rating = None, fb_comment = [], fb_showCommentField = False, fb_submitted = False, fb_previousQuery = q\<rparr>"

definition feedback_effect :: "answer_context \<Rightarrow> feedback_state \<Rightarrow> feedback_state" where
  "feedback_effect c s = (if fb_previousQuery s \<noteq> ac_query c then feedback_start (ac_query c) else s)"

definition handleRate :: "rat \<Rightarrow> bool \<Rightarrow> rat \<Rightarrow> feedback_state \<Rightarrow> feedback_state" where
  "handleRate scale renderComment value s =
     (if value < 0 \<or> value > scale then s
      else s\<lparr>fb_rating := Some value, fb_showCommentField := (if renderComment then True else fb_showCommentField s)\<rparr>)"

record feedback =
  fd_rating :: rat
  fd_scale :: rat
  fd_comment :: "string option"
  fd_result :: jsval
  fd_query :: string
  fd_context :: jsval

definition feedback_context :: "answer_context \<Rightarrow> jsval" where
  "feedback_context c = JObj [(''classification'', js_or (ac_classification c) JUndef),
     (''reasoning'', js_or (JStr (ac_reasoning c)) JUndef),
     (''agentKnowledge'', js_or (opt_str (ac_agentKnowledge c)) JUndef)]"

text \<open>\<open>handleSubmit\<close>, with the feedback that is reported.\<close>

definition feedback_submit :: "rat \<Rightarrow> answer_context \<Rightarrow> feedback_state \<Rightarrow> feedback list \<times> feedback_state" where
  "feedback_submit scale c s =
     (case fb_rating s of
        None \<Rightarrow> ([], s)
      | Some r \<Rightarrow>
          if \<not> truthy (ac_result c) then ([], s)
          else ([\<lparr>fd_rating = r, fd_scale = scale, fd_comment = (if fb_comment s = [] then None else Some (fb_comment s)),
                  fd_result = ac_result c, fd_query = ac_query c, fd_context = feedback_context c\<rparr>],
                s\<lparr>fb_submitted := True\<rparr>))"

datatype feedback_view = NoFeedback | ThankYou | FeedbackForm bool bool

text \<open>The form shows a comment field and a submit button.\<close>

definition shown_feedback :: "bool \<Rightarrow> answer_context \<Rightarrow> feedback_state \<Rightarrow> feedback_view" where
  "shown_feedback renderComment c s =
     (if ac_isStreaming c then NoFeedback
      else if fb_submitted s then ThankYou
      else if \<not> truthy (ac_result c) then NoFeedback
      else if trim (ac_answer c) = [] then NoFeedback
      else FeedbackForm (renderComment \<and> fb_showCommentField s) (fb_rating s \<noteq> None))"

text \<open>The values the rating renderers offer, and which of them they mark.\<close>

definition thumb_values :: "rat list" where
  "thumb_values = [0, 1]"

definition star_values :: "rat list" where
  "star_values = [0, 1, 2, 3, 4]"

definition numeric_values :: "nat \<Rightarrow> rat list" where
  "numeric_values scale = map of_nat [0..<scale + 1]"

definition star_active :: "rat option \<Rightarrow> rat \<Rightarrow> bool" where
  "star_active currentRating starValue \<longleftrightarrow> (case currentRating of None \<Rightarrow> False | Some r \<Rightarrow> starValue \<le> r)"

text \<open>What the user can do: only what is shown can be used.\<close>

datatype feedback_event = FeedbackContext answer_context | RateWith rat | WriteComment string | PressSubmit

record feedback_widget =
  fw_context :: answer_context
  fw_state :: feedback_state
  fw_sent :: "feedback list"

fun feedback_step :: "rat \<Rightarrow> bool \<Rightarrow> feedback_event \<Rightarrow> feedback_widget \<Rightarrow> feedback_widget" where
  "feedback_step scale renderComment (FeedbackContext c) w =
     w\<lparr>fw_context := c, fw_state := feedback_effect c (fw_state w)\<rparr>"
| "feedback_step scale renderComment (RateWith v) w =
     (case shown_feedback renderComment (fw_context w) (fw_state w) of
        FeedbackForm _ _ \<Rightarrow> w\<lparr>fw_state := handleRate scale renderComment v (fw_state w)\<rparr> | _ \<Rightarrow> w)"
| "feedback_step scale renderComment (WriteComment t) w =
     (case shown_feedback renderComment (fw_context w) (fw_state w) of
        FeedbackForm True _ \<Rightarrow> w\<lparr>fw_state := (fw_state w)\<lparr>fb_comment := t\<rparr>\<rparr> | _ \<Rightarrow> w)"
| "feedback_step scale renderComment PressSubmit w =
     (case shown_feedback renderComment (fw_context w) (fw_state w) of
        FeedbackForm _ True \<Rightarrow>
          (let (sent, s) = feedback_submit scale (fw_context w) (fw_state w)
           in w\<lparr>fw_state := s, fw_sent := fw_sent w @ sent\<rparr>)
      | _ \<Rightarrow> w)"

section \<open>Another component set\<close>

record source_props =
  so_href :: "string option"
  so_title :: string
  so_key :: string

definition string_field :: "jsval \<Rightarrow> string \<Rightarrow> string option" where
  "string_field v k = (case fld v k of JStr s \<Rightarrow> Some s | _ \<Rightarrow> None)"

definition first_of :: "'a option \<Rightarrow> 'a option \<Rightarrow> 'a option" where
  "first_of a b = (case a of None \<Rightarrow> b | Some x \<Rightarrow> Some x)"

text \<open>A hit as a source; its id is a string or absent.\<close>

definition hitToSourceProps :: "jsval \<Rightarrow> nat \<Rightarrow> source_props" where
  "hitToSourceProps hit index =
     (let source = fld hit ''_source'' in
      \<lparr>so_href = first_of (string_field source ''url'') (string_field source ''link''),
       so_title = (case first_of (string_field source ''title'') (first_of (string_field source ''name'') (string_field hit ''_id'')) of
          Some t \<Rightarrow> t | None \<Rightarrow> ''Result '' @ show_nat (index + 1)),
       so_key = (case string_field hit ''_id'' of Some i \<Rightarrow> i | None \<Rightarrow> show_nat index)\<rparr>)"

datatype prompt_status = AwaitingMessage | Submitted | Streaming

definition turnToStatus :: "bool \<Rightarrow> bool \<Rightarrow> prompt_status" where
  "turnToStatus isStreaming hasContent =
     (if \<not> isStreaming then AwaitingMessage else if hasContent then Streaming else Submitted)"

definition confidenceLabel :: "rat \<Rightarrow> string" where
  "confidenceLabel generation_confidence =
     show_rat (of_int \<lfloor>generation_confidence * 100 + 1 / 2\<rfloor>) @ ''% confident''"

text \<open>Which blocks the renderers of the other component set draw: no indicator, and no empty lists.\<close>

definition ai_element :: "block \<Rightarrow> block option" where
  "ai_element b = (case b of
     IndicatorBlock \<Rightarrow> None
   | HitsBlock hs \<Rightarrow> if hs = [] then None else Some b
   | FollowUpsBlock qs \<Rightarrow> if qs = [] then None else Some b
   | _ \<Rightarrow> Some b)"

text \<open>The status of its submit button.\<close>

definition ai_input_status :: "bool \<Rightarrow> string \<Rightarrow> prompt_status" where
  "ai_input_status isStreaming value = turnToStatus isStreaming (value \<noteq> [])"

section \<open>The life of a stream\<close>

text \<open>What may happen while a turn streams: renders, its connection and the data of its events, a null step,
  whose updater may throw, excepted.\<close>

fun streaming_event :: "nat \<Rightarrow> bar_event \<Rightarrow> bool" where
  "streaming_event n BarRender = True"
| "streaming_event n (BarStream (CConnected k)) = True"
| "streaming_event n (BarStream (CDeliver k (CData kd v))) =
     (k = n \<and> (kd = StepStarted \<or> kd = StepCompleted \<longrightarrow> \<not> nullish v))"
| "streaming_event n _ = False"

definition bar_streaming :: "nat \<Rightarrow> bar_call list \<Rightarrow> chat_bar \<Rightarrow> bool" where
  "bar_streaming n calls b \<longleftrightarrow>
     (let s = cb_sys b; ts = turns (chat s) in
      c_isStreaming (chat s) \<and> ts \<noteq> [] \<and> t_id (last ts) = turn_key n \<and> t_error (last ts) = None
      \<and> nextTurnId s = n \<and> 0 < n \<and> n \<notin> set (c_aborted s) \<and> cb_calls b = calls)"

lemma last_update: "ts \<noteq> [] \<Longrightarrow> last (map (\<lambda>t. if t_id t = i then f t else t) ts)
    = (if t_id (last ts) = i then f (last ts) else last ts)"
  by (simp add: last_map)

lemma turn_error_update [simp]: "t_error (updated (turn_update k v) t) = t_error t"
  by (cases k) (simp_all add: updated_def)

lemma bar_streaming_step:
  assumes "bar_streaming n calls b" "streaming_event n e"
  shows "bar_streaming n calls (bar_step apiUrl e b)"
  using assms(2)
proof (cases rule: streaming_event.cases [of "(n, e)"])
  case (1 m)
  then show ?thesis using assms by (simp add: bar_streaming_def bar_effect_def Let_def)
next
  case (2 m k)
  then show ?thesis using assms by (simp add: bar_streaming_def Let_def)
next
  case (3 m k kd v)
  then show ?thesis using assms by (auto simp: bar_streaming_def Let_def updateTurn_def last_update)
qed (use assms in auto)

lemma bar_streaming_run:
  "bar_streaming n calls b \<Longrightarrow> \<forall>e \<in> set es. streaming_event n e \<Longrightarrow> bar_streaming n calls (fold (bar_step apiUrl) es b)"
  by (induction es arbitrary: b) (simp_all add: bar_streaming_step)

text \<open>Every stream of the bar is announced once and ended once: after a message, whatever
  data arrives (but a null step) and however often the bar renders, the end of the stream is reported exactly once, by
  the first render after it, and a failure is reported before it with its text.\<close>

theorem bar_reports_stream:
  fixes b :: chat_bar and final :: "js_exn option"
  defines "n \<equiv> Suc (nextTurnId (cb_sys b))"
  assumes url: "apiUrl = Some u" "u \<noteq> []" and idle: "n \<notin> set (c_aborted (cb_sys b))" "c_ctrl (cb_sys b) \<noteq> Some n"
    and mid: "\<forall>e \<in> set es. streaming_event n e"
  shows "cb_calls (fold (bar_step apiUrl)
      ([BarSend q, BarRender] @ es @ [BarStream (CDeliver n (case final of None \<Rightarrow> CComplete | Some e \<Rightarrow> CFail e)), BarRender, BarRender]) b)
    = cb_calls b @ [OnStreamStart]
      @ (case final of Some (ErrorObj name m) \<Rightarrow> (if m = [] then [] else [OnBarError m])
         | Some (NonError w) \<Rightarrow> (if to_str w = [] then [] else [OnBarError (to_str w)]) | None \<Rightarrow> [])
      @ [OnStreamEnd]"
proof -
  let ?calls = "cb_calls b @ [OnStreamStart]"
  let ?r = "fold (bar_step apiUrl) es (bar_step apiUrl BarRender (bar_step apiUrl (BarSend q) b))"
  have "bar_streaming n ?calls (bar_step apiUrl (BarSend q) b)"
    using url idle by (auto simp: bar_streaming_def bar_sendMessage_def bar_log_def add_turn_def new_turn_def n_def
        abort_ctrl_def Let_def split: option.splits)
  then have start: "bar_streaming n ?calls (bar_step apiUrl BarRender (bar_step apiUrl (BarSend q) b))"
    by (rule bar_streaming_step) simp
  have prev: "cb_prevStreaming (fold (bar_step apiUrl) es c)" if "bar_streaming n ?calls c" "cb_prevStreaming c" for c
    using mid that
  proof (induction es arbitrary: c)
    case (Cons e es)
    have "cb_prevStreaming (bar_step apiUrl e c)"
      using Cons.prems by (cases rule: streaming_event.cases [of "(n, e)"])
        (auto simp: bar_effect_def Let_def bar_streaming_def)
    with Cons show ?case by (simp add: bar_streaming_step)
  qed simp
  have run: "bar_streaming n ?calls ?r" by (rule bar_streaming_run [OF start mid])
  have "cb_prevStreaming (bar_step apiUrl BarRender (bar_step apiUrl (BarSend q) b))"
    using url by (simp add: bar_effect_def bar_sendMessage_def bar_log_def add_turn_def Let_def)
  from prev [OF start this] have p: "cb_prevStreaming ?r" .
  define c where "c = ?r"
  have c: "bar_streaming n ?calls c" "cb_prevStreaming c" using run p by (simp_all add: c_def)
  have "cb_calls (fold (bar_step apiUrl) [BarStream (CDeliver n (case final of None \<Rightarrow> CComplete | Some e \<Rightarrow> CFail e)), BarRender, BarRender] c)
    = ?calls @ (case final of Some (ErrorObj name m) \<Rightarrow> (if m = [] then [] else [OnBarError m])
         | Some (NonError w) \<Rightarrow> (if to_str w = [] then [] else [OnBarError (to_str w)]) | None \<Rightarrow> []) @ [OnStreamEnd]"
    using c
    by (auto simp: bar_streaming_def Let_def bar_effect_def bar_log_def end_calls_def chat_complete_def chat_fail_def
        updateTurn_def last_update turn_complete_def turn_fail_def error_text_def split: option.splits js_exn.splits)
  then show ?thesis by (simp add: c_def)
qed

theorem bar_reports_stream_witness:
  "cb_calls (fold (bar_step (Some ''u''))
      ([BarSend ''q'', BarRender] @ [BarStream (CConnected 1), BarStream (CDeliver 1 (CData Generation (JStr ''a''))), BarRender]
       @ [BarStream (CDeliver 1 (CFail (ErrorObj ''Error'' ''lost''))), BarRender, BarRender]) bar_start)
    = [OnStreamStart, OnBarError ''lost'', OnStreamEnd]"
  using bar_reports_stream [of "Some ''u''" "''u''" bar_start
      "[BarStream (CConnected 1), BarStream (CDeliver 1 (CData Generation (JStr ''a''))), BarRender]"
      "''q''" "Some (ErrorObj ''Error'' ''lost'')"]
  by (simp add: bar_start_def chat_sys_init_def)

text \<open>A message sent while another streams is announced and never ended: the options of a clarification stay
  usable on every turn that has ended, also while a later turn streams, so two streams are announced
  and one end is reported.\<close>

theorem overlapping_sends_lose_an_end:
  "cb_calls (fold (bar_step (Some ''u''))
      [BarSend ''a'', BarRender, BarSend ''b'', BarRender, BarStream (CConnected 2), BarStream (CDeliver 2 CComplete), BarRender] bar_start)
    = [OnStreamStart, OnStreamStart, OnStreamEnd]
   \<and> (ClarificationBlock c \<in> set (turn_blocks p False (t\<lparr>t_clarification := c, t_isStreaming := False\<rparr>)) \<longleftrightarrow> truthy c)"
proof
  show "cb_calls (fold (bar_step (Some ''u''))
      [BarSend ''a'', BarRender, BarSend ''b'', BarRender, BarStream (CConnected 2), BarStream (CDeliver 2 CComplete), BarRender] bar_start)
    = [OnStreamStart, OnStreamStart, OnStreamEnd]"
    by code_simp
qed (auto simp: turn_blocks_def split: option.splits)

section \<open>What the messages show\<close>

text \<open>An answered message is shown with its answer: when the stream of a message has delivered its events and its
  result, the last entry of the message list is the user's text and the answer, with the hits and the
  follow-up questions when they are enabled, and shows neither an error nor the indicator.\<close>

theorem answered_turn_shown:
  fixes st :: chat_state and n :: nat and fetch :: fetch and stringify json_parse message cfg ref
  defines "final \<equiv> sendMessage fetch stringify json_parse n message cfg ref st"
  assumes fresh: "turn_key n \<notin> t_id ` set (turns st)"
    and server: "streams_chat fetch (map Chunk cs)" "concat cs = sse_encode (evs @ [(''done'', d)])"
    and clean: "\<forall>e \<in> set (evs @ [(''done'', d)]). clean_event e"
    and data: "\<forall>e \<in> set evs. data_event e" and parsed: "json_parse d = Some r"
    and result: "\<not> nullish r" and answer: "to_str (js_or (fld r ''generation'') (JStr [])) \<noteq> []"
  shows "chat_messages_view p (turns final) \<noteq> []
    \<and> AssistantBlock (to_str (js_or (fld r ''generation'') (JStr []))) False \<in> set (last (chat_messages_view p (turns final)))
    \<and> IndicatorBlock \<notin> set (last (chat_messages_view p (turns final)))
    \<and> (\<forall>e. ErrorBlock e \<notin> set (last (chat_messages_view p (turns final))))
    \<and> (HitsBlock (array_or_empty (fld r ''hits'')) \<in> set (last (chat_messages_view p (turns final)))
       \<longleftrightarrow> mp_showHits p \<and> array_or_empty (fld r ''hits'') \<noteq> [])"
proof -
  obtain t where t: "turns final = turns st @ [t]"
    "assistantMessage t = to_str (js_or (fld r ''generation'') (JStr []))" "t_hits t = array_or_empty (fld r ''hits'')"
    "t_error t = None" "\<not> t_isStreaming t"
    using chat_turn_answered [where n = n and st = st and fetch = fetch and cs = cs and evs = evs and d = d
        and json_parse = json_parse and r = r and stringify = stringify and message = message and cfg = cfg and ref = ref]
      fresh server clean data parsed result unfolding final_def by auto
  have view: "chat_messages_view p (turns st @ [t]) = butlast (chat_messages_view p (turns st @ [t])) @ [turn_blocks p True t]"
    by (simp add: chat_messages_view_def enumerate_append_eq butlast_append)
  have "last (chat_messages_view p (turns final)) = turn_blocks p True t" "chat_messages_view p (turns final) \<noteq> []"
    unfolding t(1) by (subst view, simp)+
  then show ?thesis using t(2-5) answer by (auto simp: turn_blocks_def)
qed

theorem answered_turn_shown_witness:
  "IndicatorBlock \<notin> set (last (chat_messages_view \<lparr>mp_showHits = True, mp_showFollowUpQuestions = True, mp_showConfidence = True\<rparr>
     (turns (sendMessage (event_server (map Chunk [sse_encode [(''reasoning'', ''hm''), (''done'', ''x'')]])) to_str
          (\<lambda>s. Some (JObj [(''generation'', JStr ''yes'')])) 1 ''q'' example_chat [] \<lparr>turns = [], c_isStreaming = False, c_thrown = False\<rparr>))))"
proof -
  have server: "streams_chat (event_server rs) rs" for rs
    by (simp add: streams_chat_def event_server_def)
  have clean: "\<forall>e \<in> set ([(''reasoning'', ''hm'')] @ [(''done'', ''x'')]). clean_event e"
    by (simp add: clean_event_def trim_def is_ws_def)
  have data: "\<forall>e \<in> set [(''reasoning'', ''hm'')]. data_event e"
    by (simp add: data_event_def kind_of_event_def)
  show ?thesis
    using answered_turn_shown [where st = "\<lparr>turns = [], c_isStreaming = False, c_thrown = False\<rparr>" and n = 1
        and json_parse = "\<lambda>s. Some (JObj [(''generation'', JStr ''yes'')])" and r = "JObj [(''generation'', JStr ''yes'')]"
        and cfg = example_chat and stringify = to_str and message = "''q''" and ref = "[]", OF _ server _ clean data,
        of "[sse_encode [(''reasoning'', ''hm''), (''done'', ''x'')]]"]
    by (simp add: js_or_def nullish_def)
qed

text \<open>A waiting turn shows nothing but the question in the other component set: its renderers draw no
  indicator, and the message that would show the streaming state is drawn only once it has text.\<close>

theorem waiting_turn_undrawn:
  "List.map_filter ai_element (turn_blocks p isLast (new_turn n q)) = [UserBlock q]
   \<and> IndicatorBlock \<in> set (turn_blocks p isLast (new_turn n q))"
  by (simp add: turn_blocks_def new_turn_def ai_element_def List.map_filter_simps)

text \<open>The button of its input reports what is typed instead of what has arrived.\<close>

lemma input_status_by_text:
  "ai_input_status True (snd (chat_input_submit False value)) = (if trim value = [] \<and> value \<noteq> [] then Streaming else Submitted)"
  by (auto simp: ai_input_status_def chat_input_submit_def turnToStatus_def Let_def trim_def)

section \<open>Feedback on an answer\<close>

text \<open>What is kept while the query stays the same.\<close>

definition feedback_ok :: "rat \<Rightarrow> string \<Rightarrow> feedback_widget \<Rightarrow> bool" where
  "feedback_ok scale q w \<longleftrightarrow>
     fb_previousQuery (fw_state w) = q \<and> ac_query (fw_context w) = q
     \<and> length (fw_sent w) = (if fb_submitted (fw_state w) then 1 else 0)
     \<and> (\<forall>f \<in> set (fw_sent w). 0 \<le> fd_rating f \<and> fd_rating f \<le> scale \<and> fd_query f = q \<and> truthy (fd_result f))
     \<and> (\<forall>r. fb_rating (fw_state w) = Some r \<longrightarrow> 0 \<le> r \<and> r \<le> scale)"

definition same_query :: "string \<Rightarrow> feedback_event \<Rightarrow> bool" where
  "same_query q e \<longleftrightarrow> (case e of FeedbackContext c \<Rightarrow> ac_query c = q | _ \<Rightarrow> True)"

lemma feedback_ok_step:
  assumes "feedback_ok scale q w" "same_query q e"
  shows "feedback_ok scale q (feedback_step scale renderComment e w)"
proof (cases e)
  case (FeedbackContext c)
  then show ?thesis using assms by (simp add: feedback_ok_def feedback_effect_def same_query_def)
next
  case (RateWith v)
  then show ?thesis using assms by (auto simp: feedback_ok_def handleRate_def split: feedback_view.split)
next
  case (WriteComment t)
  then show ?thesis using assms by (auto simp: feedback_ok_def split: feedback_view.split bool.split)
next
  case PressSubmit
  then show ?thesis
    using assms by (auto simp: feedback_ok_def feedback_submit_def shown_feedback_def split: feedback_view.split bool.split option.split if_splits)
qed

text \<open>A question gets at most one feedback: as long as the query stays the same, whatever the user presses
  and however the answer changes, at most one feedback is reported; its rating is between zero and the
  scale, and it carries the query and a result.\<close>

theorem feedback_at_most_once:
  assumes "\<forall>e \<in> set es. same_query (ac_query c) e"
  shows "let w = fold (feedback_step scale renderComment) es \<lparr>fw_context = c, fw_state = feedback_start (ac_query c), fw_sent = []\<rparr> in
    length (fw_sent w) \<le> 1
    \<and> (\<forall>f \<in> set (fw_sent w). 0 \<le> fd_rating f \<and> fd_rating f \<le> scale \<and> fd_query f = ac_query c \<and> truthy (fd_result f))"
proof -
  have "feedback_ok scale (ac_query c) (fold (feedback_step scale renderComment) es w)"
    if "feedback_ok scale (ac_query c) w" for w
    using assms that by (induction es arbitrary: w) (simp_all add: feedback_ok_step)
  from this [of "\<lparr>fw_context = c, fw_state = feedback_start (ac_query c), fw_sent = []\<rparr>"]
  show ?thesis by (simp add: feedback_ok_def feedback_start_def Let_def split: if_splits)
qed

definition demo_answer :: answer_context where
  "demo_answer = \<lparr>ac_query = ''q'', ac_isStreaming = False, ac_result = JObj [], ac_answer = ''yes'', ac_classification = JNull,
     ac_reasoning = [], ac_agentKnowledge = None\<rparr>"

theorem feedback_at_most_once_witness:
  "length (fw_sent (fold (feedback_step 4 False) [RateWith 9, RateWith 3, PressSubmit, RateWith 1, PressSubmit]
     \<lparr>fw_context = demo_answer, fw_state = feedback_start (ac_query demo_answer), fw_sent = []\<rparr>)) \<le> 1"
  using feedback_at_most_once [of "[RateWith 9, RateWith 3, PressSubmit, RateWith 1, PressSubmit]" demo_answer 4 False]
  by (simp add: same_query_def Let_def)

text \<open>Asking the same question again takes no feedback: the state is reset only when the text of the query
  changes, so a new answer to the same question shows the thanks for the old one.\<close>

theorem repeated_question_thanked:
  "let w = fold (feedback_step 1 False)
       [RateWith 1, PressSubmit, FeedbackContext (demo_answer\<lparr>ac_isStreaming := True, ac_result := JNull\<rparr>),
        FeedbackContext (demo_answer\<lparr>ac_answer := ''no''\<rparr>)]
       \<lparr>fw_context = demo_answer, fw_state = feedback_start ''q'', fw_sent = []\<rparr> in
   shown_feedback False (fw_context w) (fw_state w) = ThankYou \<and> length (fw_sent w) = 1"
  by code_simp

text \<open>The values the renderers offer are accepted, on their scales.\<close>

lemma offered_ratings_accepted:
  "v \<in> set thumb_values \<Longrightarrow> fb_rating (handleRate 1 rc v s) = Some v"
  "v \<in> set star_values \<Longrightarrow> fb_rating (handleRate 4 rc v s) = Some v"
  "v \<in> set (numeric_values n) \<Longrightarrow> fb_rating (handleRate (of_nat n) rc v s) = Some v"
  by (auto simp: thumb_values_def star_values_def numeric_values_def handleRate_def)

end
