(* ===== verification/QueryBoxAuto.thy ===== *)
theory QueryBoxAuto
  imports QueryBox
begin

text \<open>
  The initial value of the search box and its automatic submission
  (ts/packages/components/src/QueryBox.tsx lines 100-146): three effects that run after a render whose
  \<open>initialValue\<close> or \<open>submitSignal\<close> have changed, in this order.
\<close>

record auto_box =
  au_box :: box_state
  au_lastApplied :: "string option"
  au_lastKey :: "string option"
  au_seen :: "(string option \<times> string option) option"

text \<open>The first render: the initial value is the value, and counts as applied.\<close>

definition auto_start :: "string option \<Rightarrow> auto_box" where
  "auto_start initialValue =
     \<lparr>au_box = \<lparr>b_value = (case initialValue of None \<Rightarrow> [] | Some v \<Rightarrow> v), isSuggestOpen = False, effects = []\<rparr>,
      au_lastApplied = initialValue, au_lastKey = None, au_seen = None\<rparr>"

definition init_effect :: "rat \<Rightarrow> string option \<Rightarrow> box_state \<Rightarrow> box_state" where
  "init_effect now initialValue st = updateWidget now (case initialValue of None \<Rightarrow> [] | Some v \<Rightarrow> v) False st"

definition apply_effect :: "rat \<Rightarrow> string option \<Rightarrow> auto_box \<Rightarrow> auto_box" where
  "apply_effect now initialValue b =
     (case initialValue of
        None \<Rightarrow> b
      | Some v \<Rightarrow>
          if au_lastApplied b = Some v then b
          else b\<lparr>au_lastApplied := Some v, au_box := updateWidget now v False ((au_box b)\<lparr>b_value := v\<rparr>)\<rparr>)"

definition auto_key :: "string option \<Rightarrow> string \<Rightarrow> string" where
  "auto_key submitSignal v = (case submitSignal of None \<Rightarrow> ''__default__'' | Some s \<Rightarrow> s) @ ''::'' @ v"

definition submit_effect :: "box_props \<Rightarrow> rat \<Rightarrow> string option \<Rightarrow> string option \<Rightarrow> auto_box \<Rightarrow> auto_box" where
  "submit_effect p now initialValue submitSignal b =
     (case initialValue of
        None \<Rightarrow> b
      | Some v \<Rightarrow>
          if \<not> qb_autoSubmit p \<or> qb_mode p \<noteq> Submit \<or> trim v = [] \<or> au_lastKey b = Some (auto_key submitSignal v) then b
          else b\<lparr>au_lastKey := Some (auto_key submitSignal v), au_lastApplied := Some v,
                 au_box := submitValue p now v ((au_box b)\<lparr>b_value := v\<rparr>)\<rparr>)"

text \<open>
  A render: the first two effects depend on the initial value; the third also on the signal and on the
  handlers of the caller, which may be new functions at any render.
\<close>

record auto_props =
  ap_initialValue :: "string option"
  ap_submitSignal :: "string option"
  ap_newHandlers :: bool

definition auto_render :: "box_props \<Rightarrow> rat \<times> auto_props \<Rightarrow> auto_box \<Rightarrow> auto_box" where
  "auto_render p = (\<lambda>(now, a) b.
     let initialValue = ap_initialValue a; submitSignal = ap_submitSignal a;
         changed = (map_option fst (au_seen b) \<noteq> Some initialValue);
         b1 = (if changed then b\<lparr>au_box := init_effect now initialValue (au_box b)\<rparr> else b);
         b2 = (if changed then apply_effect now initialValue b1 else b1);
         b3 = (if au_seen b \<noteq> Some (initialValue, submitSignal) \<or> ap_newHandlers a
               then submit_effect p now initialValue submitSignal b2 else b2)
     in b3\<lparr>au_seen := Some (initialValue, submitSignal)\<rparr>)"

definition submissions :: "auto_box \<Rightarrow> string list" where
  "submissions b = concat (map (\<lambda>e. case e of CalledSubmit v \<Rightarrow> [v] | _ \<Rightarrow> []) (effects (au_box b)))"

text \<open>
  What is meant to happen: a render whose initial value is not blank asks for a submission under a key,
  and it happens unless the last submission was under the same key.
\<close>

fun auto_wanted :: "string option \<Rightarrow> auto_props list \<Rightarrow> string list" where
  "auto_wanted k [] = []"
| "auto_wanted k (a # as) =
     (case ap_initialValue a of
        None \<Rightarrow> auto_wanted k as
      | Some v \<Rightarrow>
          if trim v = [] \<or> k = Some (auto_key (ap_submitSignal a) v) then auto_wanted k as
          else v # auto_wanted (Some (auto_key (ap_submitSignal a) v)) as)"

section \<open>Properties\<close>

lemma submissions_local [simp]:
  "submissions (b\<lparr>au_box := init_effect now v (au_box b)\<rparr>) = submissions b"
  "submissions (apply_effect now v b) = submissions b"
  "submissions (b\<lparr>au_seen := s\<rparr>) = submissions b"
  by (simp_all add: submissions_def init_effect_def apply_effect_def updateWidget_def emit_def split: option.split)

lemma key_local [simp]: "au_lastKey (apply_effect now v b) = au_lastKey b" "au_seen (apply_effect now v b) = au_seen b"
  by (simp_all add: apply_effect_def split: option.split)

definition wants :: "auto_props \<Rightarrow> string option \<Rightarrow> bool" where
  "wants a k = (case ap_initialValue a of None \<Rightarrow> False
     | Some v \<Rightarrow> trim v \<noteq> [] \<and> k \<noteq> Some (auto_key (ap_submitSignal a) v))"

lemma submit_effect_effect:
  assumes "qb_autoSubmit p" "qb_mode p = Submit"
  shows "submissions (submit_effect p now (ap_initialValue a) (ap_submitSignal a) b)
           = submissions b @ (if wants a (au_lastKey b) then [the (ap_initialValue a)] else [])
         \<and> au_lastKey (submit_effect p now (ap_initialValue a) (ap_submitSignal a) b)
           = (if wants a (au_lastKey b) then Some (auto_key (ap_submitSignal a) (the (ap_initialValue a))) else au_lastKey b)
         \<and> \<not> wants a (au_lastKey (submit_effect p now (ap_initialValue a) (ap_submitSignal a) b))"
  using assms
  by (auto simp: submissions_def submit_effect_def wants_def submitValue_def updateWidget_def emit_def Let_def split: option.split)

lemma auto_wanted_unfold:
  "auto_wanted k (a # as) = (if wants a k then the (ap_initialValue a)
     # auto_wanted (Some (auto_key (ap_submitSignal a) (the (ap_initialValue a)))) as else auto_wanted k as)"
  by (simp add: wants_def split: option.split)

text \<open>Where a render does not run the effect, the last one did, and left nothing wanted.\<close>

definition box_settled :: "auto_box \<Rightarrow> bool" where
  "box_settled b = (\<forall>v s n. au_seen b = Some (v, s) \<longrightarrow>
     \<not> wants \<lparr>ap_initialValue = v, ap_submitSignal = s, ap_newHandlers = n\<rparr> (au_lastKey b))"

lemma auto_render_effect:
  assumes "qb_autoSubmit p" "qb_mode p = Submit" "box_settled b"
  shows "submissions (auto_render p (now, a) b) = submissions b @ (if wants a (au_lastKey b) then [the (ap_initialValue a)] else [])
         \<and> au_lastKey (auto_render p (now, a) b)
           = (if wants a (au_lastKey b) then Some (auto_key (ap_submitSignal a) (the (ap_initialValue a))) else au_lastKey b)
         \<and> box_settled (auto_render p (now, a) b)"
proof (cases "au_seen b \<noteq> Some (ap_initialValue a, ap_submitSignal a) \<or> ap_newHandlers a")
  case True
  obtain b2 where b2: "submissions b2 = submissions b" "au_lastKey b2 = au_lastKey b"
    and r: "auto_render p (now, a) b = (submit_effect p now (ap_initialValue a) (ap_submitSignal a) b2)
              \<lparr>au_seen := Some (ap_initialValue a, ap_submitSignal a)\<rparr>"
  proof (cases "map_option fst (au_seen b) = Some (ap_initialValue a)")
    case same: True
    show ?thesis by (rule that [of b]) (use True same in \<open>auto simp: auto_render_def Let_def\<close>)
  next
    case new: False
    show ?thesis
      by (rule that [of "apply_effect now (ap_initialValue a) (b\<lparr>au_box := init_effect now (ap_initialValue a) (au_box b)\<rparr>)"])
         (use new in \<open>auto simp: auto_render_def Let_def\<close>)
  qed
  have settles: "box_settled (c\<lparr>au_seen := Some (ap_initialValue a, ap_submitSignal a)\<rparr>)"
    if "\<not> wants a (au_lastKey c)" for c
    using that by (cases "ap_initialValue a") (auto simp: box_settled_def wants_def)
  have "box_settled (auto_render p (now, a) b)"
    unfolding r by (rule settles) (use submit_effect_effect [OF assms(1,2), of now a b2] in blast)
  then show ?thesis
    using submit_effect_effect [OF assms(1,2), of now a b2] by (simp add: r b2)
next
  case False
  then have "\<not> wants a (au_lastKey b)"
    using assms(3) by (cases a) (auto simp: box_settled_def)
  with False show ?thesis
    using assms(3) by (auto simp: auto_render_def Let_def box_settled_def)
qed

lemma auto_renders_wanted:
  assumes "qb_autoSubmit p" "qb_mode p = Submit" "box_settled b"
  shows "submissions (fold (auto_render p) rs b) = submissions b @ auto_wanted (au_lastKey b) (map snd rs)"
  using assms(3)
proof (induction rs arbitrary: b)
  case (Cons r rs)
  obtain now a where r: "r = (now, a)" by (cases r)
  show ?case
    using Cons.IH [of "auto_render p r b"] auto_render_effect [OF assms(1,2) Cons.prems, of now a]
    by (simp add: r auto_wanted_unfold del: auto_wanted.simps)
qed simp

text \<open>Automatic submission of the initial value: however often the box renders, and with
  whatever new handlers, \<open>onSubmit\<close> is called with exactly the initial values that are not blank and
  whose key (signal and value) is not the key of the last submission, in order; a box that is not in
  submit mode or does not ask for it never submits by itself.\<close>

theorem auto_submits_each_key_once:
  "submissions (fold (auto_render p) rs (auto_start v0))
     = (if qb_autoSubmit p \<and> qb_mode p = Submit then auto_wanted None (map snd rs) else [])"
proof (cases "qb_autoSubmit p \<and> qb_mode p = Submit")
  case True
  moreover have "box_settled (auto_start v0)" "submissions (auto_start v0) = []" "au_lastKey (auto_start v0) = None"
    by (simp_all add: box_settled_def auto_start_def submissions_def)
  ultimately show ?thesis by (simp add: auto_renders_wanted)
next
  case False
  then have "submit_effect p now v s b = b" for now v s b
    by (auto simp: submit_effect_def split: option.split)
  then have "submissions (auto_render p r b) = submissions b" for r b
    by (cases r) (simp add: auto_render_def Let_def)
  then have "submissions (fold (auto_render p) rs b) = submissions b" for b
    by (induction rs arbitrary: b) simp_all
  moreover have "submissions (auto_start v0) = []" by (simp add: auto_start_def submissions_def)
  ultimately show ?thesis using False by auto
qed

text \<open>The key survives an empty initial value: a value that is taken away and comes back is not
  submitted again, and without a signal of the caller's own nothing ever resubmits it.\<close>

lemma cleared_value_not_resubmitted:
  "auto_wanted None (map (\<lambda>v. \<lparr>ap_initialValue = Some v, ap_submitSignal = None, ap_newHandlers = True\<rparr>)
     [''raft'', [], ''raft'']) = [''raft'']"
  by code_simp

end
