(* ===== verification/PromptInput.thy ===== *)
theory PromptInput
  imports QueryUtils
begin

text \<open>
  The prompt of the dashboard's chat pages (ts/apps/antfarm/src/components/ai-elements/prompt-input.tsx):
  its attachments with their object URLs, the referenced sources, the text, and submission, both with
  state of its own and with the state of a provider around it. \<open>nanoid\<close> gives the n-th id of the
  third-party generator, \<open>to_data\<close> is the browser's reading of a file as a data URL, which may fail. The
  object URLs of the browser are numbered, and the live ones kept in the state: a URL that was revoked
  cannot be read. The converters of a submission start reading before the handler returns.
\<close>

section \<open>Files and object URLs\<close>

record pfile =
  pf_name :: string
  pf_type :: string
  pf_size :: nat
  pf_content :: string

record attachment =
  at_id :: string
  at_filename :: string
  at_mediaType :: string
  at_url :: string

record blob_store =
  bs_live :: "(string, pfile) jmap"
  bs_made :: nat
  bs_ids :: nat

definition blob_url :: "nat \<Rightarrow> string" where
  "blob_url n = ''blob:'' @ show_nat n"

definition createObjectURL :: "pfile \<Rightarrow> blob_store \<Rightarrow> string \<times> blob_store" where
  "createObjectURL f b =
     (blob_url (bs_made b), b\<lparr>bs_live := jmap_set (bs_live b) (blob_url (bs_made b)) f, bs_made := bs_made b + 1\<rparr>)"

definition revokeObjectURL :: "string \<Rightarrow> blob_store \<Rightarrow> blob_store" where
  "revokeObjectURL u b = b\<lparr>bs_live := jmap_delete (bs_live b) u\<rparr>"

definition make_attachment :: "(nat \<Rightarrow> string) \<Rightarrow> pfile \<Rightarrow> blob_store \<Rightarrow> attachment \<times> blob_store" where
  "make_attachment nanoid f b =
     (let i = nanoid (bs_ids b); (u, b') = createObjectURL f b
      in (\<lparr>at_id = i, at_filename = pf_name f, at_mediaType = pf_type f, at_url = u\<rparr>, b'\<lparr>bs_ids := bs_ids b + 1\<rparr>))"

fun make_attachments :: "(nat \<Rightarrow> string) \<Rightarrow> pfile list \<Rightarrow> blob_store \<Rightarrow> attachment list \<times> blob_store" where
  "make_attachments nanoid [] b = ([], b)"
| "make_attachments nanoid (f # fs) b =
     (let (a, b1) = make_attachment nanoid f b; (as, b2) = make_attachments nanoid fs b1 in (a # as, b2))"

section \<open>Which files are taken\<close>

record prompt_limits =
  pl_accept :: "string option"
  pl_maxFiles :: "int option"
  pl_maxFileSize :: "nat option"

datatype prompt_error = TooManyFiles | FileTooLarge | NotAccepted

definition accept_pattern :: "string \<Rightarrow> string \<Rightarrow> bool" where
  "accept_pattern ftype p = (if ends_with p ''/*'' then starts_with ftype (butlast p) else ftype = p)"

definition matchesAccept :: "string option \<Rightarrow> pfile \<Rightarrow> bool" where
  "matchesAccept accept f =
     (case accept of
        None \<Rightarrow> True
      | Some s \<Rightarrow>
          if trim s = [] then True
          else list_ex (accept_pattern (pf_type f)) (filter (\<lambda>p. p \<noteq> []) (map trim (split_on (CHR '','') s))))"

definition withinSize :: "nat option \<Rightarrow> pfile \<Rightarrow> bool" where
  "withinSize maxFileSize f = (case maxFileSize of None \<Rightarrow> True | Some m \<Rightarrow> m = 0 \<or> pf_size f \<le> m)"

text \<open>The part both ways of adding share: an error, or the files that may be added.\<close>

definition taken_files :: "prompt_limits \<Rightarrow> pfile list \<Rightarrow> prompt_error + pfile list" where
  "taken_files l incoming =
     (let accepted = filter (matchesAccept (pl_accept l)) incoming;
          sized = filter (withinSize (pl_maxFileSize l)) accepted
      in if incoming \<noteq> [] \<and> accepted = [] then Inl NotAccepted
         else if accepted \<noteq> [] \<and> sized = [] then Inl FileTooLarge
         else Inr sized)"

definition capped_files :: "prompt_limits \<Rightarrow> nat \<Rightarrow> pfile list \<Rightarrow> pfile list \<times> prompt_error list" where
  "capped_files l count sized =
     (case pl_maxFiles l of
        None \<Rightarrow> (sized, [])
      | Some m \<Rightarrow>
          let capacity = nat (m - int count)
          in (take capacity sized, if length sized > capacity then [TooManyFiles] else []))"

section \<open>State\<close>

text \<open>\<open>pr_seen\<close> is what the handlers of the last render see; \<open>pr_converting\<close> are submissions whose files
  are being read, \<open>pr_promised\<close> counts those whose \<open>onSubmit\<close> has returned a promise. \<open>pr_default\<close> is the
  default value of the text area, which it starts with and which resetting the form gives back (with a
  provider the first text is the provider's own and the form is never reset).\<close>

record prompt =
  pr_items :: "attachment list"
  pr_store :: blob_store
  pr_sources :: "(string \<times> jsval) list"
  pr_text :: string
  pr_default :: string
  pr_seen :: "attachment list \<times> string"
  pr_errors :: "prompt_error list"
  pr_converting :: "(string \<times> attachment list) list"
  pr_promised :: nat
  pr_sent :: "(string \<times> attachment list) list"

definition prompt_start :: "string \<Rightarrow> prompt" where
  "prompt_start t = \<lparr>pr_items = [], pr_store = \<lparr>bs_live = [], bs_made = 0, bs_ids = 0\<rparr>, pr_sources = [],
     pr_text = t, pr_default = t, pr_seen = ([], t), pr_errors = [], pr_converting = [], pr_promised = 0, pr_sent = []\<rparr>"

definition append_files :: "(nat \<Rightarrow> string) \<Rightarrow> pfile list \<Rightarrow> prompt \<Rightarrow> prompt" where
  "append_files nanoid fs p =
     (let (as, b) = make_attachments nanoid fs (pr_store p) in p\<lparr>pr_items := pr_items p @ as, pr_store := b\<rparr>)"

definition report :: "prompt_error list \<Rightarrow> prompt \<Rightarrow> prompt" where
  "report es p = p\<lparr>pr_errors := pr_errors p @ es\<rparr>"

text \<open>The prompt's own state counts the files it has when the update runs.\<close>

definition addLocal :: "(nat \<Rightarrow> string) \<Rightarrow> prompt_limits \<Rightarrow> pfile list \<Rightarrow> prompt \<Rightarrow> prompt" where
  "addLocal nanoid l incoming p =
     (case taken_files l incoming of
        Inl e \<Rightarrow> report [e] p
      | Inr sized \<Rightarrow>
          let (capped, es) = capped_files l (length (pr_items p)) sized
          in append_files nanoid capped (report es p))"

text \<open>With a provider it is the count of the last render, and the provider only appends.\<close>

definition provider_add :: "(nat \<Rightarrow> string) \<Rightarrow> pfile list \<Rightarrow> prompt \<Rightarrow> prompt" where
  "provider_add nanoid incoming p = (if incoming = [] then p else append_files nanoid incoming p)"

definition addWithProviderValidation :: "(nat \<Rightarrow> string) \<Rightarrow> prompt_limits \<Rightarrow> pfile list \<Rightarrow> prompt \<Rightarrow> prompt" where
  "addWithProviderValidation nanoid l incoming p =
     (case taken_files l incoming of
        Inl e \<Rightarrow> report [e] p
      | Inr sized \<Rightarrow>
          let (capped, es) = capped_files l (length (fst (pr_seen p))) sized
          in (if capped \<noteq> [] then provider_add nanoid capped (report es p) else report es p))"

definition remove_attachment :: "string \<Rightarrow> prompt \<Rightarrow> prompt" where
  "remove_attachment i p =
     (let store = (case find (\<lambda>f. at_id f = i) (pr_items p) of
                     Some f \<Rightarrow> if at_url f \<noteq> [] then revokeObjectURL (at_url f) (pr_store p) else pr_store p
                   | None \<Rightarrow> pr_store p)
      in p\<lparr>pr_store := store, pr_items := filter (\<lambda>f. at_id f \<noteq> i) (pr_items p)\<rparr>)"

definition revoke_all :: "attachment list \<Rightarrow> blob_store \<Rightarrow> blob_store" where
  "revoke_all as b = fold (\<lambda>f b. if at_url f \<noteq> [] then revokeObjectURL (at_url f) b else b) as b"

definition clearAttachments :: "prompt \<Rightarrow> prompt" where
  "clearAttachments p = p\<lparr>pr_store := revoke_all (pr_items p) (pr_store p), pr_items := []\<rparr>"

definition prompt_clear :: "prompt \<Rightarrow> prompt" where
  "prompt_clear p = (clearAttachments p)\<lparr>pr_sources := []\<rparr>"

definition prompt_unmount :: "prompt \<Rightarrow> prompt" where
  "prompt_unmount p = p\<lparr>pr_store := revoke_all (fst (pr_seen p)) (pr_store p)\<rparr>"

fun add_sources :: "(nat \<Rightarrow> string) \<Rightarrow> jsval list \<Rightarrow> prompt \<Rightarrow> prompt" where
  "add_sources nanoid [] p = p"
| "add_sources nanoid (s # ss) p =
     add_sources nanoid ss (p\<lparr>pr_sources := pr_sources p @ [(nanoid (bs_ids (pr_store p)), s)],
       pr_store := (pr_store p)\<lparr>bs_ids := bs_ids (pr_store p) + 1\<rparr>\<rparr>)"

definition remove_source :: "string \<Rightarrow> prompt \<Rightarrow> prompt" where
  "remove_source i p = p\<lparr>pr_sources := filter (\<lambda>s. fst s \<noteq> i) (pr_sources p)\<rparr>"

section \<open>Submission\<close>

definition convertBlobUrlToDataUrl :: "(pfile \<Rightarrow> string option) \<Rightarrow> string \<Rightarrow> blob_store \<Rightarrow> string option" where
  "convertBlobUrlToDataUrl to_data u b = (case jmap_get (bs_live b) u of None \<Rightarrow> None | Some f \<Rightarrow> to_data f)"

text \<open>A file as it is sent: without its id, with a data URL where one can be had.\<close>

definition converted_file :: "(pfile \<Rightarrow> string option) \<Rightarrow> blob_store \<Rightarrow> attachment \<Rightarrow> attachment" where
  "converted_file to_data b a =
     (let a = a\<lparr>at_id := []\<rparr>
      in if starts_with (at_url a) ''blob:''
         then a\<lparr>at_url := (case convertBlobUrlToDataUrl to_data (at_url a) b of Some d \<Rightarrow> d | None \<Rightarrow> at_url a)\<rparr>
         else a)"

definition prompt_submit :: "(pfile \<Rightarrow> string option) \<Rightarrow> bool \<Rightarrow> prompt \<Rightarrow> prompt" where
  "prompt_submit to_data usingProvider p =
     (let t = (if usingProvider then snd (pr_seen p) else pr_text p);
          p = (if usingProvider then p else p\<lparr>pr_text := pr_default p\<rparr>)
      in p\<lparr>pr_converting := pr_converting p @ [(t, map (converted_file to_data (pr_store p)) (fst (pr_seen p)))]\<rparr>)"

definition submit_done :: "bool \<Rightarrow> prompt \<Rightarrow> prompt" where
  "submit_done usingProvider p =
     (let p = prompt_clear p in if usingProvider then p\<lparr>pr_text := []\<rparr> else p)"

text \<open>What \<open>onSubmit\<close> does: it returns, throws, or returns a promise.\<close>

datatype submit_outcome = Returned | Thrown | Promised

definition prompt_converted :: "bool \<Rightarrow> nat \<Rightarrow> submit_outcome \<Rightarrow> prompt \<Rightarrow> prompt" where
  "prompt_converted usingProvider i r p =
     (if i < length (pr_converting p) then
        (let p1 = p\<lparr>pr_converting := without i (pr_converting p), pr_sent := pr_sent p @ [pr_converting p ! i]\<rparr>
         in case r of Returned \<Rightarrow> submit_done usingProvider p1
            | Thrown \<Rightarrow> p1
            | Promised \<Rightarrow> p1\<lparr>pr_promised := pr_promised p1 + 1\<rparr>)
      else p)"

definition prompt_settled :: "bool \<Rightarrow> bool \<Rightarrow> prompt \<Rightarrow> prompt" where
  "prompt_settled usingProvider fulfilled p =
     (if pr_promised p = 0 then p
      else let p1 = p\<lparr>pr_promised := pr_promised p - 1\<rparr> in if fulfilled then submit_done usingProvider p1 else p1)"

section \<open>The text area\<close>

record textarea_key =
  tk_key :: string
  tk_prevented :: bool
  tk_composing :: bool
  tk_shift :: bool
  tk_value :: string

datatype key_effect = KeyNothing | KeySwallowed | KeySubmit | KeyRemove string

text \<open>\<open>handleKeyDown\<close>: nothing, the key is swallowed, the form is submitted, or the last attachment goes.\<close>

definition textarea_keydown :: "bool \<Rightarrow> attachment list \<Rightarrow> textarea_key \<Rightarrow> key_effect" where
  "textarea_keydown submitDisabled attached k =
     (if tk_prevented k then KeyNothing
      else if tk_key k = ''Enter'' then
        (if tk_composing k \<or> tk_shift k then KeyNothing
         else if submitDisabled then KeySwallowed else KeySubmit)
      else if tk_key k = ''Backspace'' \<and> tk_value k = [] \<and> attached \<noteq> [] then KeyRemove (at_id (last attached))
      else KeyNothing)"

text \<open>\<open>handlePaste\<close>: the files among the items of the clipboard; an item may fail to give its file.\<close>

definition pasted_files :: "(string \<times> pfile option) list \<Rightarrow> pfile list" where
  "pasted_files items = concat (map (\<lambda>(kind, f). if kind = ''file'' then (case f of None \<Rightarrow> [] | Some x \<Rightarrow> [x]) else []) items)"

section \<open>A run\<close>

datatype prompt_event =
    PAdd "pfile list" | PPaste "(string \<times> pfile option) list" | PRemove string | PClear
  | PAddSources "jsval list" | PRemoveSource string | PType string | PRender
  | PSubmit | PConverted nat submit_outcome | PSettled bool
  | PKey bool textarea_key

definition prompt_add :: "(nat \<Rightarrow> string) \<Rightarrow> prompt_limits \<Rightarrow> bool \<Rightarrow> pfile list \<Rightarrow> prompt \<Rightarrow> prompt" where
  "prompt_add nanoid l usingProvider =
     (if usingProvider then addWithProviderValidation nanoid l else addLocal nanoid l)"

fun prompt_step :: "(nat \<Rightarrow> string) \<Rightarrow> (pfile \<Rightarrow> string option) \<Rightarrow> prompt_limits \<Rightarrow> bool \<Rightarrow> prompt_event \<Rightarrow> prompt \<Rightarrow> prompt" where
  "prompt_step nanoid to_data l up (PAdd fs) p = prompt_add nanoid l up fs p"
| "prompt_step nanoid to_data l up (PPaste items) p =
     (if pasted_files items = [] then p else prompt_add nanoid l up (pasted_files items) p)"
| "prompt_step nanoid to_data l up (PRemove i) p = remove_attachment i p"
| "prompt_step nanoid to_data l up PClear p = clearAttachments p"
| "prompt_step nanoid to_data l up (PAddSources ss) p = add_sources nanoid ss p"
| "prompt_step nanoid to_data l up (PRemoveSource i) p = remove_source i p"
| "prompt_step nanoid to_data l up (PType t) p = p\<lparr>pr_text := t\<rparr>"
| "prompt_step nanoid to_data l up PRender p = p\<lparr>pr_seen := (pr_items p, pr_text p)\<rparr>"
| "prompt_step nanoid to_data l up PSubmit p = prompt_submit to_data up p"
| "prompt_step nanoid to_data l up (PConverted i r) p = prompt_converted up i r p"
| "prompt_step nanoid to_data l up (PSettled ok) p = prompt_settled up ok p"
| "prompt_step nanoid to_data l up (PKey submitDisabled k) p =
     (case textarea_keydown submitDisabled (fst (pr_seen p)) k of
        KeySubmit \<Rightarrow> prompt_submit to_data up p
      | KeyRemove i \<Rightarrow> remove_attachment i p
      | _ \<Rightarrow> p)"

section \<open>The submit button\<close>

datatype chat_status = StatusSubmitted | StatusStreaming | StatusReady | StatusError | StatusAwaiting

datatype button_effect = StopCalled | ClickForwarded

definition isGenerating :: "chat_status option \<Rightarrow> bool" where
  "isGenerating st \<longleftrightarrow> st = Some StatusSubmitted \<or> st = Some StatusStreaming"

definition submit_button_click :: "chat_status option \<Rightarrow> bool \<Rightarrow> button_effect" where
  "submit_button_click st hasOnStop = (if isGenerating st \<and> hasOnStop then StopCalled else ClickForwarded)"

definition submit_button_submits :: "chat_status option \<Rightarrow> bool \<Rightarrow> bool" where
  "submit_button_submits st hasOnStop \<longleftrightarrow> \<not> (isGenerating st \<and> hasOnStop)"

section \<open>The attachments own the live object URLs\<close>

definition holds_file :: "attachment \<Rightarrow> string \<times> pfile \<Rightarrow> bool" where
  "holds_file a e \<longleftrightarrow> at_url a = fst e \<and> at_filename a = pf_name (snd e) \<and> at_mediaType a = pf_type (snd e)"

definition prompt_ok :: "(nat \<Rightarrow> string) \<Rightarrow> prompt \<Rightarrow> bool" where
  "prompt_ok nanoid p \<longleftrightarrow> list_all2 holds_file (pr_items p) (bs_live (pr_store p))
     \<and> distinct (map at_url (pr_items p)) \<and> at_url ` set (pr_items p) \<subseteq> blob_url ` {..<bs_made (pr_store p)}
     \<and> distinct (map at_id (pr_items p)) \<and> at_id ` set (pr_items p) \<subseteq> nanoid ` {..<bs_ids (pr_store p)}"

lemma blob_url_inject [simp]: "blob_url m = blob_url n \<longleftrightarrow> m = n"
  by (simp add: blob_url_def)

lemma blob_url_nonempty [simp]: "blob_url n \<noteq> []"
  by (simp add: blob_url_def)

lemma holds_urls: "list_all2 holds_file as es \<Longrightarrow> map at_url as = map fst es"
  by (induction rule: list_all2_induct) (simp_all add: holds_file_def)

lemma prompt_ok_urls:
  assumes "prompt_ok nanoid p"
  shows "fst ` set (bs_live (pr_store p)) = at_url ` set (pr_items p)" "[] \<notin> at_url ` set (pr_items p)"
proof -
  show "fst ` set (bs_live (pr_store p)) = at_url ` set (pr_items p)"
    using assms holds_urls unfolding prompt_ok_def by (metis set_map)
  have "at_url ` set (pr_items p) \<subseteq> blob_url ` {..<bs_made (pr_store p)}" using assms by (simp add: prompt_ok_def)
  moreover have "[] \<notin> blob_url ` {..<bs_made (pr_store p)}" by (auto simp: blob_url_def)
  ultimately show "[] \<notin> at_url ` set (pr_items p)" by blast
qed

lemma make_attachment_ok:
  assumes "inj nanoid" "prompt_ok nanoid p" "make_attachment nanoid f (pr_store p) = (a, b)"
  shows "prompt_ok nanoid (p\<lparr>pr_items := pr_items p @ [a], pr_store := b\<rparr>)"
    "bs_live b = bs_live (pr_store p) @ [(at_url a, f)]"
proof -
  let ?s = "pr_store p"
  have a: "a = \<lparr>at_id = nanoid (bs_ids ?s), at_filename = pf_name f, at_mediaType = pf_type f, at_url = blob_url (bs_made ?s)\<rparr>"
    and b: "b = \<lparr>bs_live = jmap_set (bs_live ?s) (blob_url (bs_made ?s)) f, bs_made = bs_made ?s + 1, bs_ids = bs_ids ?s + 1\<rparr>"
    using assms(3) by (auto simp: make_attachment_def createObjectURL_def Let_def)
  have u: "blob_url (bs_made ?s) \<notin> at_url ` set (pr_items p)"
    using assms(2) by (auto simp: prompt_ok_def subset_iff image_iff)
  have i: "nanoid (bs_ids ?s) \<notin> at_id ` set (pr_items p)"
    using assms(1,2) by (auto simp: prompt_ok_def subset_iff image_iff dest: injD)
  have "blob_url (bs_made ?s) \<notin> fst ` set (bs_live ?s)"
    using u prompt_ok_urls(1) [OF assms(2)] by simp
  then have live: "jmap_set (bs_live ?s) (blob_url (bs_made ?s)) f = bs_live ?s @ [(blob_url (bs_made ?s), f)]"
    by (simp add: jmap_set_def update_new)
  show "bs_live b = bs_live ?s @ [(at_url a, f)]" by (simp add: a b live)
  have "list_all2 holds_file (pr_items p @ [a]) (bs_live ?s @ [(at_url a, f)])"
    using assms(2) by (intro list_all2_appendI) (simp_all add: prompt_ok_def holds_file_def a)
  then show "prompt_ok nanoid (p\<lparr>pr_items := pr_items p @ [a], pr_store := b\<rparr>)"
    using assms(2) u i by (auto simp: prompt_ok_def a b live lessThan_Suc)
qed

lemma append_files_ok:
  assumes "inj nanoid" "prompt_ok nanoid p"
  shows "prompt_ok nanoid (append_files nanoid fs p)
    \<and> map snd (bs_live (pr_store (append_files nanoid fs p))) = map snd (bs_live (pr_store p)) @ fs
    \<and> map at_filename (pr_items (append_files nanoid fs p)) = map at_filename (pr_items p) @ map pf_name fs"
  using assms(2)
proof (induction fs arbitrary: p)
  case (Cons f fs)
  obtain a b where ab: "make_attachment nanoid f (pr_store p) = (a, b)" by force
  let ?p = "p\<lparr>pr_items := pr_items p @ [a], pr_store := b\<rparr>"
  have name: "at_filename a = pf_name f"
    using ab by (auto simp: make_attachment_def Let_def split: prod.splits)
  have "append_files nanoid (f # fs) p = append_files nanoid fs ?p"
    by (simp add: append_files_def ab Let_def split: prod.split)
  then show ?case
    using Cons.IH [OF make_attachment_ok(1) [OF assms(1) Cons.prems ab]]
      make_attachment_ok(2) [OF assms(1) Cons.prems ab] name by simp
qed (simp add: append_files_def)

lemma list_all2_filter:
  assumes "list_all2 P xs ys" "\<And>x y. P x y \<Longrightarrow> x \<in> set xs \<Longrightarrow> Q x = R y"
  shows "list_all2 P (filter Q xs) (filter R ys)"
  using assms by (induction rule: list_all2_induct) auto

lemma remove_attachment_ok:
  assumes "prompt_ok nanoid p"
  shows "prompt_ok nanoid (remove_attachment i p)"
    "set (bs_live (pr_store (remove_attachment i p))) \<subseteq> set (bs_live (pr_store p))"
    "length (pr_items (remove_attachment i p)) \<le> length (pr_items p)"
proof -
  have ok: "prompt_ok nanoid (remove_attachment i p)
    \<and> set (bs_live (pr_store (remove_attachment i p))) \<subseteq> set (bs_live (pr_store p))"
  proof (cases "find (\<lambda>f. at_id f = i) (pr_items p)")
    case None
    then have "filter (\<lambda>f. at_id f \<noteq> i) (pr_items p) = pr_items p"
      by (simp add: find_None_iff filter_id_conv)
    then show ?thesis using assms None by (simp add: remove_attachment_def Let_def prompt_ok_def)
  next
    case (Some a)
    then have a: "a \<in> set (pr_items p)" "at_id a = i" by (auto simp: find_Some_iff)
    then have ne: "at_url a \<noteq> []" using prompt_ok_urls(2) [OF assms] by (metis imageI)
    have same: "at_id x \<noteq> i \<longleftrightarrow> at_url x \<noteq> at_url a" if "x \<in> set (pr_items p)" for x
      using assms a that unfolding prompt_ok_def distinct_map by (metis inj_onD)
    have "list_all2 holds_file (filter (\<lambda>f. at_id f \<noteq> i) (pr_items p))
            (jmap_delete (bs_live (pr_store p)) (at_url a))"
      unfolding jmap_delete_def AList.delete_eq
      by (rule list_all2_filter) (use assms same in \<open>auto simp: prompt_ok_def holds_file_def\<close>)
    then show ?thesis
      using assms Some ne
      by (auto simp: remove_attachment_def Let_def prompt_ok_def revokeObjectURL_def distinct_map_filter
            jmap_delete_def AList.delete_eq)
  qed
  then show "prompt_ok nanoid (remove_attachment i p)"
    "set (bs_live (pr_store (remove_attachment i p))) \<subseteq> set (bs_live (pr_store p))" by blast+
  show "length (pr_items (remove_attachment i p)) \<le> length (pr_items p)"
    by (simp add: remove_attachment_def Let_def)
qed

lemma revoke_all_store:
  "bs_made (revoke_all as b) = bs_made b \<and> bs_ids (revoke_all as b) = bs_ids b
   \<and> set (bs_live (revoke_all as b)) = {e \<in> set (bs_live b). fst e \<notin> at_url ` set as \<or> fst e = []}"
  if "[] \<notin> at_url ` set as"
  using that
proof (induction as arbitrary: b)
  case (Cons a as)
  have "revoke_all (a # as) b = revoke_all as (revokeObjectURL (at_url a) b)"
    using Cons.prems by (auto simp: revoke_all_def)
  then show ?case
    using Cons by (auto simp: revokeObjectURL_def jmap_delete_def AList.delete_eq)
qed (simp add: revoke_all_def)

lemma clear_ok:
  assumes "prompt_ok nanoid p"
  shows "prompt_ok nanoid (clearAttachments p) \<and> pr_items (clearAttachments p) = [] \<and> bs_live (pr_store (clearAttachments p)) = []"
proof -
  note r = revoke_all_store [OF prompt_ok_urls(2) [OF assms], of "pr_store p"]
  have "fst e \<in> at_url ` set (pr_items p) \<and> fst e \<noteq> []" if "e \<in> set (bs_live (pr_store p))" for e
    using that prompt_ok_urls [OF assms] by (metis imageI)
  then have "set (bs_live (revoke_all (pr_items p) (pr_store p))) = {}"
    unfolding r [THEN conjunct2, THEN conjunct2] by blast
  then have "bs_live (revoke_all (pr_items p) (pr_store p)) = []" by simp
  then show ?thesis by (simp add: clearAttachments_def prompt_ok_def)
qed

section \<open>Every event keeps them\<close>

lemma prompt_ok_fields [simp]:
  "prompt_ok nanoid (p\<lparr>pr_text := t\<rparr>) = prompt_ok nanoid p" "prompt_ok nanoid (p\<lparr>pr_seen := s\<rparr>) = prompt_ok nanoid p"
  "prompt_ok nanoid (p\<lparr>pr_errors := e\<rparr>) = prompt_ok nanoid p" "prompt_ok nanoid (p\<lparr>pr_converting := c\<rparr>) = prompt_ok nanoid p"
  "prompt_ok nanoid (p\<lparr>pr_promised := n\<rparr>) = prompt_ok nanoid p" "prompt_ok nanoid (p\<lparr>pr_sent := m\<rparr>) = prompt_ok nanoid p"
  "prompt_ok nanoid (p\<lparr>pr_sources := ss\<rparr>) = prompt_ok nanoid p"
  by (simp_all add: prompt_ok_def)

text \<open>Files within the limits, and their number in a prompt with state of its own.\<close>

definition within_limits :: "prompt_limits \<Rightarrow> pfile \<Rightarrow> bool" where
  "within_limits l f \<longleftrightarrow> matchesAccept (pl_accept l) f \<and> withinSize (pl_maxFileSize l) f"

definition prompt_fits :: "prompt_limits \<Rightarrow> bool \<Rightarrow> prompt \<Rightarrow> bool" where
  "prompt_fits l up p \<longleftrightarrow> (\<forall>f \<in> snd ` set (bs_live (pr_store p)). within_limits l f)
     \<and> (\<forall>m. pl_maxFiles l = Some m \<longrightarrow> up \<or> length (pr_items p) \<le> nat m)"

lemma prompt_fits_fields [simp]:
  "prompt_fits l up (p\<lparr>pr_text := t\<rparr>) = prompt_fits l up p" "prompt_fits l up (p\<lparr>pr_seen := s\<rparr>) = prompt_fits l up p"
  "prompt_fits l up (p\<lparr>pr_errors := e\<rparr>) = prompt_fits l up p" "prompt_fits l up (p\<lparr>pr_converting := c\<rparr>) = prompt_fits l up p"
  "prompt_fits l up (p\<lparr>pr_promised := n\<rparr>) = prompt_fits l up p" "prompt_fits l up (p\<lparr>pr_sent := m\<rparr>) = prompt_fits l up p"
  "prompt_fits l up (p\<lparr>pr_sources := ss\<rparr>) = prompt_fits l up p"
  by (simp_all add: prompt_fits_def)

definition prompt_inv :: "(nat \<Rightarrow> string) \<Rightarrow> prompt_limits \<Rightarrow> bool \<Rightarrow> prompt \<Rightarrow> bool" where
  "prompt_inv nanoid l up p \<longleftrightarrow> prompt_ok nanoid p \<and> prompt_fits l up p"

lemma prompt_add_inv:
  assumes "inj nanoid" "prompt_inv nanoid l up p"
  shows "prompt_inv nanoid l up (prompt_add nanoid l up fs p)"
proof (cases "taken_files l fs")
  case (Inl e)
  then show ?thesis
    using assms(2) by (cases up) (simp_all add: prompt_inv_def prompt_add_def addLocal_def addWithProviderValidation_def report_def)
next
  case (Inr sized)
  have sized: "\<forall>f \<in> set sized. within_limits l f"
    using Inr by (auto simp: taken_files_def Let_def within_limits_def split: if_splits)
  define n where "n = (if up then length (fst (pr_seen p)) else length (pr_items p))"
  obtain capped es where c: "capped_files l n sized = (capped, es)" by force
  have capped: "set capped \<subseteq> set sized" "\<forall>m. pl_maxFiles l = Some m \<longrightarrow> length capped \<le> nat (m - int n)"
    using c by (auto simp: capped_files_def Let_def set_take_subset split: option.splits dest: in_set_takeD)
  have ok: "prompt_ok nanoid (report es p)" using assms(2) by (simp add: prompt_inv_def report_def)
  note app = append_files_ok [OF assms(1) ok, of capped]
  have r: "prompt_add nanoid l up fs p = append_files nanoid capped (report es p)"
    using Inr c by (auto simp: prompt_add_def addLocal_def addWithProviderValidation_def provider_add_def n_def
        append_files_def report_def Let_def)
  let ?q = "append_files nanoid capped (report es p)"
  have "length (map at_filename (pr_items ?q)) = length (pr_items p) + length capped"
    using app by (simp add: report_def)
  then have len: "length (pr_items ?q) = length (pr_items p) + length capped" by simp
  have "set (map snd (bs_live (pr_store ?q))) = set (map snd (bs_live (pr_store p))) \<union> set capped"
    using app by (simp add: report_def del: set_map)
  then have files: "snd ` set (bs_live (pr_store ?q)) = snd ` set (bs_live (pr_store p)) \<union> set capped" by simp
  have old: "prompt_fits l up p" "prompt_ok nanoid ?q" using assms(2) app by (simp_all add: prompt_inv_def)
  have "length (pr_items ?q) \<le> nat m" if "pl_maxFiles l = Some m" "\<not> up" for m
    using old(1) that capped(2) len by (fastforce simp: prompt_fits_def n_def)
  moreover have "\<forall>f \<in> snd ` set (bs_live (pr_store ?q)). within_limits l f"
    unfolding files using old(1) capped(1) sized unfolding prompt_fits_def by blast
  ultimately show ?thesis
    unfolding r prompt_inv_def prompt_fits_def using old(2) by blast
qed

lemma clear_inv:
  assumes "prompt_inv nanoid l up p"
  shows "prompt_inv nanoid l up (clearAttachments p)" "prompt_inv nanoid l up (submit_done up p)"
    "pr_items (submit_done up p) = []" "bs_live (pr_store (submit_done up p)) = []"
  using clear_ok [of nanoid p] assms
  by (simp_all add: prompt_inv_def prompt_fits_def submit_done_def prompt_clear_def Let_def)

lemma add_sources_inv:
  assumes "prompt_inv nanoid l up p"
  shows "prompt_inv nanoid l up (add_sources nanoid ss p)"
  using assms
proof (induction ss arbitrary: p)
  case (Cons s ss)
  have "prompt_inv nanoid l up (p\<lparr>pr_sources := pr_sources p @ [(nanoid (bs_ids (pr_store p)), s)],
      pr_store := (pr_store p)\<lparr>bs_ids := bs_ids (pr_store p) + 1\<rparr>\<rparr>)"
    using Cons.prems by (auto simp: prompt_inv_def prompt_ok_def prompt_fits_def lessThan_Suc)
  then show ?case by (simp add: Cons.IH)
qed simp

lemma prompt_step_inv:
  assumes "inj nanoid" "prompt_inv nanoid l up p"
  shows "prompt_inv nanoid l up (prompt_step nanoid to_data l up e p)"
proof -
  have remove: "prompt_inv nanoid l up (remove_attachment i p)" for i
    using remove_attachment_ok [of nanoid p i] assms(2)
    by (auto simp: prompt_inv_def prompt_fits_def subset_iff image_iff intro: order_trans)
  have submit: "prompt_inv nanoid l up (prompt_submit to_data up p)"
    using assms(2) by (cases up) (simp_all add: prompt_inv_def prompt_submit_def Let_def)
  have cleared: "prompt_inv nanoid l up (submit_done up q)" if "prompt_inv nanoid l up q" for q
    using clear_inv(2) that .
  show ?thesis
  proof (cases "(nanoid, to_data, l, up, e, p)" rule: prompt_step.cases)
    case (10 nanoid' to_data' l' up' i r p')
    have kept: "prompt_inv nanoid l up (p\<lparr>pr_converting := c, pr_sent := m\<rparr>)"
      "prompt_inv nanoid l up (p\<lparr>pr_converting := c, pr_sent := m, pr_promised := n\<rparr>)" for c m n
      using assms(2) by (simp_all add: prompt_inv_def)
    then show ?thesis
      using 10 assms(2) kept cleared [OF kept(1)] by (simp add: prompt_converted_def Let_def split: submit_outcome.split)
  next
    case (11 nanoid' to_data' l' up' ok p')
    have kept: "prompt_inv nanoid l up (p\<lparr>pr_promised := n\<rparr>)" for n
      using assms(2) by (simp add: prompt_inv_def)
    then show ?thesis using 11 assms(2) cleared [OF kept] by (simp add: prompt_settled_def Let_def)
  qed (use assms prompt_add_inv [OF assms] remove submit clear_inv(1) [OF assms(2)] add_sources_inv in
        \<open>auto simp: prompt_inv_def remove_source_def split: key_effect.split\<close>)
qed

lemma prompt_run_inv:
  assumes "inj nanoid"
  shows "prompt_inv nanoid l up (fold (prompt_step nanoid to_data l up) evs (prompt_start t))"
proof -
  have "prompt_inv nanoid l up (fold (prompt_step nanoid to_data l up) evs p)" if "prompt_inv nanoid l up p" for p
    using that by (induction evs arbitrary: p) (simp_all add: prompt_step_inv [OF assms])
  moreover have "prompt_inv nanoid l up (prompt_start t)"
    by (simp add: prompt_inv_def prompt_ok_def prompt_fits_def prompt_start_def)
  ultimately show ?thesis by blast
qed

text \<open>C23. Attachments and object URLs: after any adding, pasting, removing, clearing, typing, rendering
  and submitting, with state of its own or of a provider, the attachments are, one by one and in order,
  the files behind the live object URLs - none leaks and none is dead - under distinct URLs and ids;
  every file is of an accepted type and size; and a prompt with state of its own never holds more files
  than its maximum.\<close>

theorem prompt_attachments_owned:
  assumes "inj nanoid" "p = fold (prompt_step nanoid to_data l up) evs (prompt_start t)"
  shows "list_all2 holds_file (pr_items p) (bs_live (pr_store p))
    \<and> distinct (map at_url (pr_items p)) \<and> distinct (map at_id (pr_items p))
    \<and> (\<forall>f \<in> snd ` set (bs_live (pr_store p)). matchesAccept (pl_accept l) f \<and> withinSize (pl_maxFileSize l) f)
    \<and> (\<forall>m. pl_maxFiles l = Some m \<longrightarrow> up \<or> length (pr_items p) \<le> nat m)"
  using prompt_run_inv [OF assms(1), of l up to_data evs t]
  by (simp add: assms(2) prompt_inv_def prompt_ok_def prompt_fits_def within_limits_def)

section \<open>Submission\<close>

definition sent_file :: "(pfile \<Rightarrow> string option) \<Rightarrow> attachment \<Rightarrow> string \<times> pfile \<Rightarrow> bool" where
  "sent_file to_data s = (\<lambda>(u, f). at_filename s = pf_name f \<and> at_mediaType s = pf_type f
     \<and> at_url s = (case to_data f of Some d \<Rightarrow> d | None \<Rightarrow> u))"

lemma converted_items:
  assumes "prompt_ok nanoid p"
  shows "list_all2 (sent_file to_data) (map (converted_file to_data (pr_store p)) (pr_items p)) (bs_live (pr_store p))"
proof -
  have dist: "distinct (map fst (bs_live (pr_store p)))"
    using assms holds_urls unfolding prompt_ok_def by metis
  have blob: "starts_with (at_url a) ''blob:''" if "a \<in> set (pr_items p)" for a
    using assms that by (auto simp: prompt_ok_def subset_iff image_iff blob_url_def starts_with_def)
  have conv: "sent_file to_data (converted_file to_data (pr_store p) a) e"
    if "a \<in> set (pr_items p)" "e \<in> set (bs_live (pr_store p))" "holds_file a e" for a e
  proof -
    obtain u f where e: "e = (u, f)" by force
    have u: "at_url a = u" "at_filename a = pf_name f" "at_mediaType a = pf_type f"
      using that(3) by (simp_all add: holds_file_def e)
    have "jmap_get (bs_live (pr_store p)) u = Some f"
      using that(2) dist by (simp add: e jmap_get_def)
    then show ?thesis
      using blob [OF that(1)] u by (cases a) (simp add: sent_file_def converted_file_def convertBlobUrlToDataUrl_def Let_def e split: option.split)
  qed
  have "list_all2 holds_file (pr_items p) (bs_live (pr_store p))" using assms by (simp add: prompt_ok_def)
  then show ?thesis
    using conv unfolding list_all2_map1 by (metis (mono_tags, lifting) list.rel_mono_strong)
qed

lemma default_kept [simp]:
  "pr_default (report es p) = pr_default p" "pr_default (append_files nanoid fs p) = pr_default p"
  "pr_default (add_sources nanoid ss p) = pr_default p" "pr_default (clearAttachments p) = pr_default p"
  "pr_default (remove_attachment i p) = pr_default p" "pr_default (prompt_submit to_data up p) = pr_default p"
  "pr_default (submit_done up p) = pr_default p"
  by (simp_all add: report_def append_files_def clearAttachments_def remove_attachment_def prompt_submit_def
      submit_done_def prompt_clear_def Let_def split: prod.split)
     (induction ss arbitrary: p; simp)

lemma prompt_default [simp]:
  "pr_default (fold (prompt_step nanoid to_data l up) evs p) = pr_default p"
proof (induction evs arbitrary: p)
  case (Cons e evs)
  have "pr_default (prompt_step nanoid to_data l up e p) = pr_default p"
    by (cases e) (auto simp: prompt_add_def addWithProviderValidation_def addLocal_def provider_add_def remove_source_def
        prompt_converted_def prompt_settled_def Let_def split: sum.split prod.split option.split submit_outcome.split key_effect.split)
  then show ?case using Cons by simp
qed simp

text \<open>C24. Submission of the prompt: with no other submission under way, submitting what was last
  rendered calls \<open>onSubmit\<close> once, with the text and every attachment in order, each with its name, type
  and the data URL of its content (its object URL when it cannot be read); when the call returns or its
  promise is fulfilled the attachments and the sources are cleared, no object URL is left and the text is cleared
  (without a provider, it is the default value of the text area again, which is empty in the pages);
  when it throws or the promise is rejected the attachments stay.\<close>

theorem prompt_submit_delivers:
  assumes "inj nanoid" "p = fold (prompt_step nanoid to_data l up) (evs @ [PRender]) (prompt_start t)"
    and "pr_converting p = []" "pr_promised p = 0"
    and "q = fold (prompt_step nanoid to_data l up)
           (if promised then [PSubmit, PConverted 0 Promised, PSettled good]
            else [PSubmit, PConverted 0 (if good then Returned else Thrown)]) p"
  shows "\<exists>fs. pr_sent q = pr_sent p @ [(pr_text p, fs)] \<and> list_all2 (sent_file to_data) fs (bs_live (pr_store p))
    \<and> (if good then pr_items q = [] \<and> bs_live (pr_store q) = [] \<and> pr_sources q = [] \<and> pr_text q = (if up then [] else t)
       else pr_items q = pr_items p \<and> pr_store q = pr_store p \<and> pr_sources q = pr_sources p)"
proof -
  let ?fs = "map (converted_file to_data (pr_store p)) (pr_items p)"
  have inv: "prompt_inv nanoid l up p" unfolding assms(2) by (rule prompt_run_inv [OF assms(1)])
  then have fs: "list_all2 (sent_file to_data) ?fs (bs_live (pr_store p))"
    by (intro converted_items [of nanoid]) (simp add: prompt_inv_def)
  have seen: "pr_seen p = (pr_items p, pr_text p)" "pr_default p = t" by (simp_all add: assms(2) prompt_start_def)
  have cleared: "pr_items (submit_done u r) = [] \<and> bs_live (pr_store (submit_done u r)) = []"
    if "pr_items r = pr_items p" "pr_store r = pr_store p" for u r
  proof -
    have "prompt_inv nanoid l up r" using inv that by (simp add: prompt_inv_def prompt_ok_def prompt_fits_def)
    then have "pr_items (submit_done up r) = [] \<and> bs_live (pr_store (submit_done up r)) = []"
      using clear_inv(3,4) by blast
    then show ?thesis by (simp add: submit_done_def Let_def split: if_splits)
  qed
  have other: "pr_sent (submit_done u r) = pr_sent r" "pr_sources (submit_done u r) = []"
    "pr_text (submit_done u r) = (if u then [] else pr_text r)" for u r
    by (simp_all add: submit_done_def prompt_clear_def clearAttachments_def Let_def)
  show ?thesis
    by (rule exI [of _ ?fs])
       (use fs seen assms(3,4) in \<open>simp add: assms(5) prompt_submit_def prompt_converted_def prompt_settled_def
          without_def cleared other Let_def split: if_split\<close>)
qed

section \<open>Examples\<close>

definition demo_file :: "string \<Rightarrow> string \<Rightarrow> pfile" where
  "demo_file n ty = \<lparr>pf_name = n, pf_type = ty, pf_size = 3, pf_content = ''x''\<rparr>"

definition demo_limits :: prompt_limits where
  "demo_limits = \<lparr>pl_accept = None, pl_maxFiles = Some 2, pl_maxFileSize = Some 10\<rparr>"

definition demo_ids :: "nat \<Rightarrow> string" where
  "demo_ids n = ''id'' @ show_nat n"

definition demo_prompt_reader :: "pfile \<Rightarrow> string option" where
  "demo_prompt_reader f = Some (''data:'' @ pf_content f)"

lemma demo_ids_inj: "inj demo_ids"
  by (rule injI) (simp add: demo_ids_def)

lemma prompt_attachments_owned_witness:
  "length (pr_items (fold (prompt_step demo_ids demo_prompt_reader demo_limits False)
     [PAdd [demo_file ''a'' ''image/png'', demo_file ''b'' ''text/plain'', demo_file ''c'' ''image/png''], PRender]
     (prompt_start []))) \<le> 2"
  using prompt_attachments_owned [OF demo_ids_inj refl, of demo_prompt_reader demo_limits False
      "[PAdd [demo_file ''a'' ''image/png'', demo_file ''b'' ''text/plain'', demo_file ''c'' ''image/png''], PRender]" "[]"]
  by (simp add: demo_limits_def)

definition demo_typed :: "prompt_event list" where
  "demo_typed = [PAdd [demo_file ''a'' ''image/png''], PType ''hi'', PRender]"

lemma prompt_submit_delivers_witness:
  "map fst (pr_sent (fold (prompt_step demo_ids demo_prompt_reader demo_limits False)
     [PSubmit, PConverted 0 Promised, PSettled True]
     (fold (prompt_step demo_ids demo_prompt_reader demo_limits False) demo_typed (prompt_start [])))) = [''hi'']"
proof -
  have start: "demo_typed = [PAdd [demo_file ''a'' ''image/png''], PType ''hi''] @ [PRender]"
    by (simp add: demo_typed_def)
  have "pr_converting (fold (prompt_step demo_ids demo_prompt_reader demo_limits False) demo_typed (prompt_start [])) = []
    \<and> pr_promised (fold (prompt_step demo_ids demo_prompt_reader demo_limits False) demo_typed (prompt_start [])) = 0
    \<and> pr_sent (fold (prompt_step demo_ids demo_prompt_reader demo_limits False) demo_typed (prompt_start [])) = []
    \<and> pr_text (fold (prompt_step demo_ids demo_prompt_reader demo_limits False) demo_typed (prompt_start [])) = ''hi''"
    by code_simp
  then show ?thesis
    using prompt_submit_delivers [OF demo_ids_inj, of _ demo_prompt_reader demo_limits False
        "[PAdd [demo_file ''a'' ''image/png''], PType ''hi'']" "[]" _ True True, folded start, OF refl _ _ refl]
    by auto
qed

text \<open>While the promise of a submission is open nothing holds back the form: an attachment added
  meanwhile is removed with the ones that were sent, without having been sent, and text typed into a
  provider goes too; and submitting again sends the same files a second time.\<close>

theorem meanwhile_attachments_lost:
  "let p = fold (prompt_step demo_ids demo_prompt_reader demo_limits True)
         (demo_typed @ [PSubmit, PConverted 0 Promised, PAdd [demo_file ''late'' ''image/png''], PType ''more'', PRender, PSettled True])
         (prompt_start [])
   in pr_items p = [] \<and> pr_text p = [] \<and> map (map at_filename \<circ> snd) (pr_sent p) = [[''a'']]"
  by code_simp

lemma second_submit_resends:
  "map (\<lambda>(t, fs). (t, map at_filename fs)) (pr_sent (fold (prompt_step demo_ids demo_prompt_reader demo_limits False)
     (demo_typed @ [PSubmit, PRender, PSubmit, PConverted 0 Promised, PConverted 0 Promised]) (prompt_start [])))
   = [(''hi'', [''a'']), ([], [''a''])]"
  by code_simp

text \<open>A prompt with state of its own resets the form before it knows the outcome: the text of a failed
  submission is lost, though its attachments stay.\<close>

theorem failed_submit_loses_text:
  "let p = fold (prompt_step demo_ids demo_prompt_reader demo_limits False) (demo_typed @ [PSubmit, PConverted 0 Thrown]) (prompt_start [])
   in pr_text p = [] \<and> map at_filename (pr_items p) = [''a'']"
  by code_simp

text \<open>With a provider two additions between renders count the same files, and exceed the maximum.\<close>

theorem provider_exceeds_maximum:
  "length (pr_items (fold (prompt_step demo_ids demo_prompt_reader demo_limits True)
     [PAdd [demo_file ''a'' ''image/png'', demo_file ''b'' ''image/png''], PAdd [demo_file ''c'' ''image/png'', demo_file ''d'' ''image/png'']]
     (prompt_start []))) = 4"
  by code_simp

text \<open>A list of file name extensions, which the file input itself understands, accepts no file: a type
  never starts with a dot.\<close>

lemma extensions_accept_nothing:
  assumes "trim s \<noteq> []" "\<forall>p \<in> set (map trim (split_on (CHR '','') s)). p \<noteq> [] \<longrightarrow> hd p = CHR ''.''"
    and "pf_type f = [] \<or> hd (pf_type f) \<noteq> CHR ''.''"
  shows "\<not> matchesAccept (Some s) f"
proof -
  have "\<not> accept_pattern (pf_type f) p" if "p \<noteq> []" "hd p = CHR ''.''" for p
  proof -
    define r where "r = tl p"
    have p: "p = CHR ''.'' # r" using list.collapse [OF that(1)] by (simp only: that(2) r_def)
    have "suffix ''/*'' p \<Longrightarrow> r \<noteq> []" unfolding p by (auto simp: suffix_def)
    then show ?thesis
      using assms(3) unfolding accept_pattern_def starts_with_def ends_with_def
      by (cases "pf_type f") (auto simp: p)
  qed
  then show ?thesis
    using assms(1,2) by (auto simp: matchesAccept_def list_ex_iff)
qed

end
