(* ===== verification/ModelCatalog.thy ===== *)
theory ModelCatalog
  imports ServerStatus Session "HOL-Library.Multiset"
begin

text \<open>
  The catalogue of inference models (ts/apps/antfarm/src/data/termite-models.ts and
  pages/ModelsPage.tsx): hardware, variants and presets, the download command, the filtered and
  grouped list, the detail sheet, and the statistics fetched for a model. Models are those of the
  registry (theory ServerStatus); types and variants are strings, as the registry gives them.
\<close>

section \<open>Hardware and variants\<close>

datatype hardware = NvidiaGpu | AppleSilicon | GoogleTpu | Cpu

definition backend_hardware :: "string \<Rightarrow> hardware list" where
  "backend_hardware b =
     (if b = ''onnx'' then [NvidiaGpu, AppleSilicon, Cpu]
      else if b = ''xla'' then [GoogleTpu, NvidiaGpu, Cpu]
      else if b = ''go'' then [Cpu] else [])"

definition hardware_order :: "hardware list" where
  "hardware_order = [NvidiaGpu, AppleSilicon, GoogleTpu, Cpu]"

definition getHardwareCapabilities :: "string list option \<Rightarrow> hardware list" where
  "getHardwareCapabilities backends =
     (case backends of
        None \<Rightarrow> [Cpu]
      | Some bs \<Rightarrow>
          if bs = [] then [Cpu]
          else filter (\<lambda>h. h \<in> set (concat (map backend_hardware bs))) hardware_order)"

datatype variant_preset = Recommended | Smallest | HighestQuality

fun preset_order :: "variant_preset \<Rightarrow> string list" where
  "preset_order Recommended = [''f16'', ''f32'', ''i8'']"
| "preset_order Smallest = [''i8'', ''i4'', ''f16'']"
| "preset_order HighestQuality = [''f32'', ''f16'']"

definition selectVariant :: "variant_preset \<Rightarrow> string list \<Rightarrow> string option" where
  "selectVariant p available =
     (case find (\<lambda>v. v \<in> set available) (preset_order p) of
        Some v \<Rightarrow> Some v
      | None \<Rightarrow> (case available of [] \<Rightarrow> None | v # _ \<Rightarrow> Some v))"

definition variant_presets :: "variant_preset list" where
  "variant_presets = [Recommended, Smallest, HighestQuality]"

record quant_option =
  qo_type :: string
  qo_name :: string
  qo_recommended :: bool
  qo_generatorOnly :: bool

definition quantization_options :: "quant_option list" where
  "quantization_options =
     [\<lparr>qo_type = ''f32'', qo_name = ''Float32'', qo_recommended = False, qo_generatorOnly = False\<rparr>,
      \<lparr>qo_type = ''f16'', qo_name = ''Float16'', qo_recommended = True, qo_generatorOnly = False\<rparr>,
      \<lparr>qo_type = ''i8'', qo_name = ''INT8'', qo_recommended = False, qo_generatorOnly = False\<rparr>,
      \<lparr>qo_type = ''i8-st'', qo_name = ''INT8 Static'', qo_recommended = False, qo_generatorOnly = False\<rparr>,
      \<lparr>qo_type = ''i4'', qo_name = ''INT4'', qo_recommended = False, qo_generatorOnly = True\<rparr>,
      \<lparr>qo_type = ''i4-cuda'', qo_name = ''INT4 CUDA'', qo_recommended = False, qo_generatorOnly = True\<rparr>]"

definition model_types :: "string list" where
  "model_types = [''embedder'', ''reranker'', ''chunker'', ''recognizer'', ''rewriter'', ''generator'', ''reader'', ''transcriber'']"

definition variants_of :: "termite_model \<Rightarrow> string list" where
  "variants_of m = (case tm_variants m of JArr vs \<Rightarrow> map to_str vs | _ \<Rightarrow> [])"

definition getModelsByType :: "termite_model list \<Rightarrow> string \<Rightarrow> termite_model list" where
  "getModelsByType ms ty = filter (\<lambda>m. tm_type m = ty) ms"

definition getModelById :: "termite_model list \<Rightarrow> string \<Rightarrow> termite_model option" where
  "getModelById ms i = find (\<lambda>m. tm_id m = i) ms"

definition getRegistryModels :: "termite_model list \<Rightarrow> termite_model list" where
  "getRegistryModels ms = filter tm_inRegistry ms"

definition getExportableModels :: "termite_model list \<Rightarrow> termite_model list" where
  "getExportableModels ms = filter (\<lambda>m. \<not> tm_inRegistry m) ms"

definition getModelsWithCapability :: "termite_model list \<Rightarrow> string \<Rightarrow> termite_model list" where
  "getModelsWithCapability ms c =
     filter (\<lambda>m. case tm_capabilities m of JArr cs \<Rightarrow> JStr c \<in> set cs | _ \<Rightarrow> False) ms"

definition getQuantizationInfo :: "quant_option list \<Rightarrow> string \<Rightarrow> quant_option option" where
  "getQuantizationInfo options ty = find (\<lambda>q. qo_type q = ty) options"

section \<open>The download command\<close>

definition shell_char :: "char \<Rightarrow> bool" where
  "shell_char c = (let n = (of_char c :: nat) in
     97 \<le> n \<and> n \<le> 122 \<or> 65 \<le> n \<and> n \<le> 90 \<or> 48 \<le> n \<and> n \<le> 57 \<or> c \<in> set ''-_./:'')"

definition shellSafe :: "string \<Rightarrow> string" where
  "shellSafe s = filter shell_char s"

definition variant_cli_names :: "(string \<times> string) list" where
  "variant_cli_names = [(''f32'', ''fp32''), (''f16'', ''fp16''), (''i8'', ''int8''), (''i8-st'', ''int8-static''),
     (''i4'', ''int4''), (''i4-cuda'', ''int4-cuda'')]"

definition getDownloadCommand :: "termite_model \<Rightarrow> string option \<Rightarrow> string" where
  "getDownloadCommand m quantization =
     (let source = shellSafe (tm_source m);
          q = (case quantization of None \<Rightarrow> [] | Some v \<Rightarrow> v)
      in if tm_inRegistry m
         then ''termite pull '' @ source @ (if q = [] then [] else '':'' @ q)
         else ''termite pull '' @ source @ '' --type '' @ tm_type m
           @ (if q = [] then [] else case map_of variant_cli_names q of None \<Rightarrow> [] | Some n \<Rightarrow> '' --variant '' @ n))"

definition model_playground :: "string \<Rightarrow> string option" where
  "model_playground ty = map_of
     [(''chunker'', ''/playground/chunking''), (''recognizer'', ''/playground/recognize''),
      (''rewriter'', ''/playground/rewrite''), (''reranker'', ''/playground/rerank''),
      (''transcriber'', ''/playground/transcribe'')] ty"

section \<open>Statistics of a model\<close>

definition formatNumber :: "nat \<Rightarrow> string" where
  "formatNumber n =
     (if n \<ge> 1000000 then toFixed 1 (of_nat n / 1000000) @ ''M''
      else if n \<ge> 1000 then toFixed 1 (of_nat n / 1000) @ ''k''
      else show_nat n)"

record hf_stats =
  hf_downloads :: nat
  hf_likes :: nat
  hf_loading :: bool
  hf_error :: bool

text \<open>The shared cache and one component, with the source its running request is for.\<close>

record hf_view =
  hv_cache :: "(string, nat \<times> nat) jmap"
  hv_source :: string
  hv_stats :: hf_stats
  hv_request :: "string option"

definition hf_cached :: "nat \<times> nat \<Rightarrow> hf_stats" where
  "hf_cached c = \<lparr>hf_downloads = fst c, hf_likes = snd c, hf_loading = False, hf_error = False\<rparr>"

definition hf_effect :: "hf_view \<Rightarrow> hf_view" where
  "hf_effect v =
     (case jmap_get (hv_cache v) (hv_source v) of
        Some c \<Rightarrow> v\<lparr>hv_stats := hf_cached c, hv_request := None\<rparr>
      | None \<Rightarrow> v\<lparr>hv_request := Some (hv_source v)\<rparr>)"

definition hf_mount :: "(string, nat \<times> nat) jmap \<Rightarrow> string \<Rightarrow> hf_view" where
  "hf_mount cache source = hf_effect
     \<lparr>hv_cache = cache, hv_source = source,
      hv_stats = (case jmap_get cache source of Some c \<Rightarrow> hf_cached c
        | None \<Rightarrow> \<lparr>hf_downloads = 0, hf_likes = 0, hf_loading = True, hf_error = False\<rparr>),
      hv_request = None\<rparr>"

text \<open>A new source: the cleanup aborts the running request, then the effect runs.\<close>

definition hf_change :: "string \<Rightarrow> hf_view \<Rightarrow> hf_view" where
  "hf_change source v =
     (if source = hv_source v then v else hf_effect (v\<lparr>hv_source := source, hv_request := None\<rparr>))"

text \<open>The answer of a request: its numbers (absent ones are 0), or a failure. An aborted request does nothing.\<close>

definition hf_answer :: "string \<Rightarrow> (nat \<times> nat) option \<Rightarrow> hf_view \<Rightarrow> hf_view" where
  "hf_answer source a v =
     (if hv_request v \<noteq> Some source then v
      else case a of
        Some c \<Rightarrow> v\<lparr>hv_cache := jmap_set (hv_cache v) source c, hv_stats := hf_cached c, hv_request := None\<rparr>
      | None \<Rightarrow> v\<lparr>hv_stats := (hv_stats v)\<lparr>hf_loading := False, hf_error := True\<rparr>, hv_request := None\<rparr>)"

datatype hf_shown = HfPlaceholder | HfNothing | HfNumbers string string

definition hf_show :: "hf_stats \<Rightarrow> hf_shown" where
  "hf_show s = (if hf_loading s then HfPlaceholder else if hf_error s then HfNothing
     else HfNumbers (formatNumber (hf_downloads s)) (formatNumber (hf_likes s)))"

text \<open>The counter of the page's head: the number shown after a time of the animation.\<close>

definition counter_at :: "rat \<Rightarrow> nat \<Rightarrow> rat \<Rightarrow> nat" where
  "counter_at duration value elapsed =
     (let progress = min (elapsed / duration) 1; easeOut = 1 - (1 - progress) ^ 3
      in nat \<lfloor>easeOut * of_nat value\<rfloor>)"

section \<open>The page\<close>

definition model_matches :: "string option \<Rightarrow> string \<Rightarrow> termite_model \<Rightarrow> bool" where
  "model_matches selectedType searchQuery m \<longleftrightarrow>
     (case selectedType of None \<Rightarrow> True | Some ty \<Rightarrow> tm_type m = ty)
     \<and> (searchQuery = [] \<or> str_includes (to_lower (tm_name m)) (to_lower searchQuery)
        \<or> str_includes (to_lower (tm_source m)) (to_lower searchQuery)
        \<or> str_includes (to_lower (tm_description m)) (to_lower searchQuery))"

definition filteredModels :: "string option \<Rightarrow> string \<Rightarrow> termite_model list \<Rightarrow> termite_model list" where
  "filteredModels selectedType searchQuery ms = filter (model_matches selectedType searchQuery) ms"

text \<open>The groups and counts start with every known type; other types are passed over.\<close>

definition push_model :: "termite_model \<Rightarrow> (string, termite_model list) jmap \<Rightarrow> (string, termite_model list) jmap" where
  "push_model m g = map (\<lambda>(t, ms). (t, if t = tm_type m then ms @ [m] else ms)) g"

definition modelsByType :: "termite_model list \<Rightarrow> (string, termite_model list) jmap" where
  "modelsByType ms = fold push_model ms (map (\<lambda>t. (t, [])) model_types)"

definition count_model :: "termite_model \<Rightarrow> (string, nat) jmap \<Rightarrow> (string, nat) jmap" where
  "count_model m g = map (\<lambda>(t, n). (t, if t = tm_type m then n + 1 else n)) g"

definition modelCounts :: "termite_model list \<Rightarrow> (string, nat) jmap" where
  "modelCounts ms = fold count_model ms (map (\<lambda>t. (t, 0)) model_types)"

datatype models_view = NoModelsFound | Sections "(string \<times> termite_model list) list" | Flat "termite_model list"

definition models_shown :: "string list \<Rightarrow> string option \<Rightarrow> string \<Rightarrow> termite_model list \<Rightarrow> models_view" where
  "models_shown types selectedType searchQuery ms =
     (let shown = filteredModels selectedType searchQuery ms in
      if shown = [] then NoModelsFound
      else case selectedType of
        Some _ \<Rightarrow> Flat shown
      | None \<Rightarrow> Sections (filter (\<lambda>(t, ms). ms \<noteq> [])
          (map (\<lambda>t. (t, case jmap_get (modelsByType shown) t of Some ms \<Rightarrow> ms | None \<Rightarrow> [])) types)))"

text \<open>\<open>checkDownloads\<close>: which server is asked, and what its answer (or none) makes of the flag.\<close>

definition downloads_request :: "product_id list \<Rightarrow> string \<Rightarrow> string \<Rightarrow> string" where
  "downloads_request enabled apiUrl termiteApiUrl =
     (if Antfly \<in> set enabled then apiUrl @ ''/status'' else termiteApiUrl @ ''/api/version'')"

definition downloads_answer :: "product_id list \<Rightarrow> jsval option \<Rightarrow> bool \<Rightarrow> bool" where
  "downloads_answer enabled answer allowDownloads =
     (case answer of
        None \<Rightarrow> allowDownloads
      | Some d \<Rightarrow> fld d (if Antfly \<in> set enabled then ''swarm_mode'' else ''allow_downloads'') = JBool True)"

section \<open>The detail sheet\<close>

record model_sheet =
  ms_model :: "termite_model option"
  ms_variant :: "string option"
  ms_preset :: "variant_preset option"
  ms_showAll :: bool

definition sheet_start :: model_sheet where
  "sheet_start = \<lparr>ms_model = None, ms_variant = None, ms_preset = Some Recommended, ms_showAll = False\<rparr>"

definition sheet_open :: "termite_model \<Rightarrow> model_sheet \<Rightarrow> model_sheet" where
  "sheet_open m s =
     (if ms_model s = Some m then s
      else \<lparr>ms_model = Some m, ms_variant = selectVariant Recommended (variants_of m), ms_preset = Some Recommended, ms_showAll = False\<rparr>)"

definition choose_preset :: "variant_preset \<Rightarrow> model_sheet \<Rightarrow> model_sheet" where
  "choose_preset p s =
     (case ms_model s of
        None \<Rightarrow> s
      | Some m \<Rightarrow>
          (case selectVariant p (variants_of m) of
             None \<Rightarrow> s
           | Some v \<Rightarrow> s\<lparr>ms_preset := Some p, ms_variant := Some v\<rparr>))"

definition availableVariants :: "quant_option list \<Rightarrow> termite_model \<Rightarrow> quant_option list" where
  "availableVariants options m =
     filter (\<lambda>q. (\<not> qo_generatorOnly q \<or> tm_type m = ''generator'') \<and> qo_type q \<in> set (variants_of m)) options"

definition choose_variant :: "quant_option list \<Rightarrow> string \<Rightarrow> model_sheet \<Rightarrow> model_sheet" where
  "choose_variant options v s =
     (case ms_model s of
        None \<Rightarrow> s
      | Some m \<Rightarrow>
          if v \<in> qo_type ` set (availableVariants options m) then s\<lparr>ms_variant := Some v, ms_preset := None\<rparr> else s)"

definition selectedVariantInfo :: "quant_option list \<Rightarrow> model_sheet \<Rightarrow> quant_option option" where
  "selectedVariantInfo options s =
     (case (ms_model s, ms_variant s) of
        (Some m, Some v) \<Rightarrow> if v = [] then None else find (\<lambda>q. qo_type q = v) (availableVariants options m)
      | _ \<Rightarrow> None)"

definition sheet_command :: "model_sheet \<Rightarrow> string option" where
  "sheet_command s = map_option (\<lambda>m. getDownloadCommand m (ms_variant s)) (ms_model s)"

text \<open>The route of the playground button, before the escaped name of the model.\<close>

definition playground_button :: "termite_model \<Rightarrow> string option" where
  "playground_button m = (if tm_inRegistry m then model_playground (tm_type m) else None)"

datatype sheet_event = OpenModel termite_model | ChoosePreset variant_preset | ChooseVariant string

fun sheet_step :: "sheet_event \<Rightarrow> model_sheet \<Rightarrow> model_sheet" where
  "sheet_step (OpenModel m) s = sheet_open m s"
| "sheet_step (ChoosePreset p) s = choose_preset p s"
| "sheet_step (ChooseVariant v) s = choose_variant quantization_options v s"

section \<open>The list of models\<close>

lemma modelsByType_eq: "modelsByType ms = map (\<lambda>t. (t, filter (\<lambda>m. tm_type m = t) ms)) model_types"
proof -
  have "fold push_model ms (map (\<lambda>t. (t, f t)) ts) = map (\<lambda>t. (t, f t @ filter (\<lambda>m. tm_type m = t) ms)) ts" for f ts
    by (induction ms arbitrary: f) (simp_all add: push_model_def comp_def cong: if_cong)
  then show ?thesis by (simp add: modelsByType_def)
qed

lemma modelCounts_eq: "modelCounts ms = map (\<lambda>t. (t, length (filter (\<lambda>m. tm_type m = t) ms))) model_types"
proof -
  have "fold count_model ms (map (\<lambda>t. (t, f t)) ts) = map (\<lambda>t. (t, f t + length (filter (\<lambda>m. tm_type m = t) ms))) ts" for f ts
    by (induction ms arbitrary: f) (auto simp add: count_model_def comp_def)
  then show ?thesis by (simp add: modelCounts_def)
qed

lemma distinct_types: "distinct model_types"
  by (simp add: model_types_def)

lemma mset_by_key:
  assumes "distinct ts"
  shows "mset (concat (map (\<lambda>t. filter (\<lambda>x. f x = t) xs) ts)) = mset (filter (\<lambda>x. f x \<in> set ts) xs)"
  using assms
proof (induction ts arbitrary: xs)
  case (Cons t ts)
  have "concat (map (\<lambda>u. filter (\<lambda>x. f x = u) xs) ts) = concat (map (\<lambda>u. filter (\<lambda>x. f x = u) (filter (\<lambda>x. f x \<noteq> t) xs)) ts)"
    using Cons.prems by (intro arg_cong [of _ _ concat] map_cong refl) (auto intro: filter_cong)
  moreover have "mset (concat (map (\<lambda>u. filter (\<lambda>x. f x = u) (filter (\<lambda>x. f x \<noteq> t) xs)) ts))
      = mset (filter (\<lambda>x. f x \<in> set ts) (filter (\<lambda>x. f x \<noteq> t) xs))"
    using Cons.IH [of "filter (\<lambda>x. f x \<noteq> t) xs"] Cons.prems by simp
  moreover have "filter (\<lambda>x. f x = t) xs = filter (\<lambda>x. f x = t) (filter (\<lambda>x. f x \<in> set (t # ts)) xs)"
    "filter (\<lambda>x. f x \<in> set ts) (filter (\<lambda>x. f x \<noteq> t) xs) = filter (\<lambda>x. f x \<noteq> t) (filter (\<lambda>x. f x \<in> set (t # ts)) xs)"
    using Cons.prems by (auto intro: filter_cong)
  ultimately show ?case by (simp del: filter_filter set_simps)
qed simp

text \<open>C40. The list of models, whatever their types: with no type chosen the page shows a section for
  exactly the known types that have a matching model, in the order of the types, each with the matching
  models of its type in their order, so that every matching model of a known type is shown exactly once and
  one of an unknown type not at all; with a type chosen it shows the matching models of that type; it says
  that nothing was found exactly when nothing matches, which is not so when only models of unknown types
  match: then it shows no section and no message; and the count beside each type is the number of its models,
  whatever is searched, so that the counts add up to the number of models of known types.\<close>

theorem models_partitioned:
  shows "(models_shown model_types sel q ms = NoModelsFound \<longleftrightarrow> filter (model_matches sel q) ms = [])
    \<and> (\<forall>ss. models_shown model_types sel q ms = Sections ss \<longrightarrow>
         sel = None
         \<and> mset (concat (map snd ss)) = mset (filter (\<lambda>m. tm_type m \<in> set model_types) (filter (model_matches None q) ms))
         \<and> map fst ss = filter (\<lambda>t. \<exists>m \<in> set ms. model_matches None q m \<and> tm_type m = t) model_types
         \<and> (\<forall>(t, xs) \<in> set ss. xs \<noteq> [] \<and> xs = filter (\<lambda>m. tm_type m = t) (filter (model_matches None q) ms)))
    \<and> (\<forall>xs. models_shown model_types sel q ms = Flat xs \<longrightarrow>
         (\<exists>t. sel = Some t \<and> xs = filter (\<lambda>m. tm_type m = t) (filter (model_matches None q) ms)))
    \<and> modelCounts ms = map (\<lambda>t. (t, length (filter (\<lambda>m. tm_type m = t) ms))) model_types
    \<and> sum_list (map snd (modelCounts ms)) = length (filter (\<lambda>m. tm_type m \<in> set model_types) ms)"
proof -
  let ?shown = "filter (model_matches None q) ms"
  let ?all = "map (\<lambda>t. (t, filter (\<lambda>m. tm_type m = t) ?shown)) model_types"
  have get: "jmap_get (modelsByType ?shown) t = Some (filter (\<lambda>m. tm_type m = t) ?shown)" if "t \<in> set model_types" for t
    using that by (simp add: modelsByType_eq jmap_get_def map_of_map_restrict)
  have sections: "models_shown model_types None q ms = (if ?shown = [] then NoModelsFound else Sections (filter (\<lambda>(t, ms). ms \<noteq> []) ?all))"
    using get by (simp add: models_shown_def filteredModels_def Let_def cong: map_cong)
  have drop: "concat (map snd (filter (\<lambda>(t, ms). ms \<noteq> []) xs)) = concat (map snd xs)" for xs :: "(string \<times> termite_model list) list"
    by (induction xs) auto
  have "mset (concat (map snd ?all)) = mset (filter (\<lambda>m. tm_type m \<in> set model_types) ?shown)"
    using mset_by_key [OF distinct_types, of tm_type ?shown] by (simp add: comp_def)
  then have parts: "mset (concat (map snd (filter (\<lambda>(t, ms). ms \<noteq> []) ?all)))
      = mset (filter (\<lambda>m. tm_type m \<in> set model_types) ?shown)" by (simp only: drop)
  have "map fst (filter (\<lambda>(t, ms). ms \<noteq> []) (map (\<lambda>t. (t, filter (\<lambda>m. tm_type m = t) xs)) ts))
      = filter (\<lambda>t. \<exists>m \<in> set xs. tm_type m = t) ts" for ts and xs :: "termite_model list"
    by (induction ts) (auto simp: filter_empty_conv)
  from this [of ?shown model_types] have dist: "map fst (filter (\<lambda>(t, ms). ms \<noteq> []) ?all)
      = filter (\<lambda>t. \<exists>m \<in> set ms. model_matches None q m \<and> tm_type m = t) model_types"
    unfolding set_filter by (simp add: Bex_def conj_assoc del: filter_filter)
  have flat: "filter (model_matches (Some t) q) ms = filter (\<lambda>m. tm_type m = t) ?shown" for t
    unfolding filter_filter by (rule filter_cong) (auto simp: model_matches_def)
  have "length (concat (map (\<lambda>t. filter (\<lambda>m. tm_type m = t) ms) model_types)) = length (filter (\<lambda>m. tm_type m \<in> set model_types) ms)"
    using mset_by_key [OF distinct_types, of tm_type ms] by (metis size_mset)
  then have counts: "sum_list (map snd (modelCounts ms)) = length (filter (\<lambda>m. tm_type m \<in> set model_types) ms)"
    by (simp add: modelCounts_eq length_concat comp_def)
  show ?thesis
  proof (cases sel)
    case None
    then show ?thesis using sections parts dist counts modelCounts_eq [of ms] by auto
  next
    case (Some t)
    then have "models_shown model_types sel q ms = (if filter (model_matches sel q) ms = [] then NoModelsFound else Flat (filter (model_matches sel q) ms))"
      by (simp add: models_shown_def filteredModels_def Let_def)
    then show ?thesis using Some counts flat [of t] modelCounts_eq [of ms] by auto
  qed
qed

definition demo_model :: "string \<Rightarrow> string \<Rightarrow> string list \<Rightarrow> termite_model" where
  "demo_model n ty vs = \<lparr>tm_id = n, tm_name = n, tm_source = ''o/'' @ n, tm_sourceUrl = [], tm_type = ty,
     tm_description = [], tm_capabilities = JUndef, tm_variants = JArr (map JStr vs), tm_backends = JUndef,
     tm_size = None, tm_inRegistry = True\<rparr>"

lemma models_partitioned_witness:
  "sum_list (map snd (modelCounts [demo_model ''a'' ''reader'' [], demo_model ''b'' ''oracle'' []])) = 1"
  using models_partitioned [of None "[]" "[demo_model ''a'' ''reader'' [], demo_model ''b'' ''oracle'' []]"]
  by (simp add: demo_model_def model_types_def)

section \<open>The command\<close>

lemma shell_names: "\<forall>v \<in> set model_types \<union> fst ` set variant_cli_names \<union> snd ` set variant_cli_names. list_all shell_char v"
  by code_simp

text \<open>The download command: for a model of a known type and a variant of the published list it
  consists of letters, digits, the signs \<open>-_./:\<close> and spaces, whatever the source of the model; a
  registry model is pulled by its source and variant, any other by source, type and the command line name
  of the variant.\<close>

theorem download_command_safe:
  assumes "tm_type m \<in> set model_types" "v \<in> fst ` set variant_cli_names"
  shows "list_all (\<lambda>c. shell_char c \<or> c = CHR '' '') (getDownloadCommand m (Some v))
    \<and> getDownloadCommand m (Some v) =
        (if tm_inRegistry m then ''termite pull '' @ shellSafe (tm_source m) @ '':'' @ v
         else ''termite pull '' @ shellSafe (tm_source m) @ '' --type '' @ tm_type m
           @ '' --variant '' @ the (map_of variant_cli_names v))"
proof -
  have ne: "v \<noteq> []" using assms(2) by (auto simp: variant_cli_names_def)
  obtain n where n: "map_of variant_cli_names v = Some n" "n \<in> snd ` set variant_cli_names"
    using assms(2) by (metis (no_types, lifting) imageI map_of_SomeD not_Some_eq map_of_eq_None_iff snd_conv)
  have names: "list_all shell_char (tm_type m)" "list_all shell_char v" "list_all shell_char n"
    using shell_names assms n(2) by blast+
  have source: "list_all shell_char (shellSafe s)" for s
    by (simp add: shellSafe_def list_all_iff)
  have weak: "list_all (\<lambda>c. shell_char c \<or> c = CHR '' '') s" if "list_all shell_char s" for s
    using that by (simp add: list_all_iff)
  have words: "list_all (\<lambda>c. shell_char c \<or> c = CHR '' '') ''termite pull ''"
    "list_all (\<lambda>c. shell_char c \<or> c = CHR '' '') '' --type ''"
    "list_all (\<lambda>c. shell_char c \<or> c = CHR '' '') '' --variant ''"
    "list_all (\<lambda>c. shell_char c \<or> c = CHR '' '') '':''"
    by code_simp+
  have eq: "getDownloadCommand m (Some v) =
        (if tm_inRegistry m then ''termite pull '' @ shellSafe (tm_source m) @ '':'' @ v
         else ''termite pull '' @ shellSafe (tm_source m) @ '' --type '' @ tm_type m @ '' --variant '' @ n)"
    using ne n(1) by (simp add: getDownloadCommand_def Let_def)
  have "list_all (\<lambda>c. shell_char c \<or> c = CHR '' '') (getDownloadCommand m (Some v))"
    unfolding eq by (cases "tm_inRegistry m")
      (simp_all only: if_True if_False list_all_append words names [THEN weak] source [THEN weak] simp_thms)
  then show ?thesis unfolding eq n(1) option.sel by blast
qed

theorem download_command_safe_witness:
  "getDownloadCommand (demo_model ''m;x'' ''reader'' []) (Some ''f16'') = ''termite pull o/mx:f16''"
proof -
  have "shellSafe ''o/m;x'' = ''o/mx''" by code_simp
  then show ?thesis
    using download_command_safe [of "demo_model ''m;x'' ''reader'' []" "''f16''"]
    by (simp add: demo_model_def model_types_def variant_cli_names_def)
qed

text \<open>The variant is not filtered: a name the registry made up goes into the command as it is.\<close>

theorem unknown_variant_unsafe:
  "map_option (\<lambda>v. getDownloadCommand (demo_model ''m'' ''reader'' [''q;rm'']) (Some v))
     (selectVariant Recommended (variants_of (demo_model ''m'' ''reader'' [''q;rm''])))
   = Some ''termite pull o/m:q;rm''"
  by code_simp

section \<open>The sheet\<close>

lemma selectVariant_in: "selectVariant p vs = Some v \<Longrightarrow> v \<in> set vs"
  by (auto simp: selectVariant_def find_Some_iff split: option.splits list.splits)

lemma selectVariant_none [simp]: "selectVariant p vs = None \<longleftrightarrow> vs = []"
  by (cases p) (auto simp: selectVariant_def split: option.splits list.splits)

definition sheet_ok :: "model_sheet \<Rightarrow> bool" where
  "sheet_ok s \<longleftrightarrow> (\<forall>m. ms_model s = Some m \<longrightarrow>
     (case ms_variant s of None \<Rightarrow> variants_of m = [] | Some v \<Rightarrow> v \<in> set (variants_of m))
     \<and> (\<forall>p. ms_preset s = Some p \<longrightarrow> ms_variant s = selectVariant p (variants_of m)))"

lemma sheet_step_ok: "sheet_ok s \<Longrightarrow> sheet_ok (sheet_step e s)"
proof (cases e)
  case (OpenModel m)
  have "case selectVariant Recommended (variants_of m) of None \<Rightarrow> variants_of m = [] | Some v \<Rightarrow> v \<in> set (variants_of m)"
    by (auto split: option.split dest: selectVariant_in)
  then show "sheet_ok s \<Longrightarrow> sheet_ok (sheet_step e s)" by (simp add: OpenModel sheet_open_def sheet_ok_def)
next
  case (ChoosePreset p)
  then show "sheet_ok s \<Longrightarrow> sheet_ok (sheet_step e s)"
    by (auto simp: choose_preset_def sheet_ok_def split: option.splits dest: selectVariant_in)
next
  case (ChooseVariant v)
  then show "sheet_ok s \<Longrightarrow> sheet_ok (sheet_step e s)"
    by (auto simp: choose_variant_def sheet_ok_def availableVariants_def split: option.splits)
qed

text \<open>The detail sheet: after any opening of models and choosing of presets and variants the
  selected variant is one of the open model's own, there is one exactly when the model has any, and while
  a preset is marked the selected variant is the one that preset prefers.\<close>

theorem sheet_variant_of_model:
  assumes "s = fold sheet_step evs sheet_start" "ms_model s = Some m"
  shows "(case ms_variant s of None \<Rightarrow> variants_of m = [] | Some v \<Rightarrow> v \<in> set (variants_of m))
    \<and> (\<forall>p. ms_preset s = Some p \<longrightarrow> ms_variant s = selectVariant p (variants_of m))"
proof -
  have "sheet_ok (fold sheet_step evs r)" if "sheet_ok r" for r
    using that by (induction evs arbitrary: r) (simp_all add: sheet_step_ok)
  moreover have "sheet_ok sheet_start" by (simp add: sheet_ok_def sheet_start_def)
  ultimately show ?thesis using assms unfolding sheet_ok_def by blast
qed

theorem sheet_variant_of_model_witness:
  "ms_variant (fold sheet_step [OpenModel (demo_model ''m'' ''reader'' [''i8'', ''f32''])] sheet_start) = Some ''f32''"
proof -
  let ?m = "demo_model ''m'' ''reader'' [''i8'', ''f32'']"
  have s: "fold sheet_step [OpenModel ?m] sheet_start
      = \<lparr>ms_model = Some ?m, ms_variant = selectVariant Recommended (variants_of ?m), ms_preset = Some Recommended, ms_showAll = False\<rparr>"
    by (simp add: sheet_open_def sheet_start_def)
  have "selectVariant Recommended (variants_of ?m) = Some ''f32''" by code_simp
  then show ?thesis using sheet_variant_of_model [OF refl, of "[OpenModel ?m]" ?m] unfolding s by simp
qed

text \<open>A preset may select a variant that the list of variants keeps from the model's type: four-bit
  variants are for generators only, and then the sheet names no selected variant at all.\<close>

theorem hidden_variant_selected:
  "let s = fold sheet_step [OpenModel (demo_model ''m'' ''reader'' [''i4'', ''f16'']), ChoosePreset Smallest] sheet_start
   in ms_variant s = Some ''i4'' \<and> selectedVariantInfo quantization_options s = None
      \<and> map qo_type (availableVariants quantization_options (the (ms_model s))) = [''f16'']"
  by code_simp

section \<open>Routes, hardware, statistics\<close>

text \<open>The playground of a chunker model is the route of the database product: in a build of the inference
  product alone there is no such route.\<close>

theorem chunker_button_leaves_termite:
  "map_option (productForPath [Antfly, Termite]) (playground_button (demo_model ''m'' ''chunker'' [])) = Some (Some Antfly)
   \<and> the (playground_button (demo_model ''m'' ''chunker'' [])) \<notin> set (pr_routes (products Termite))"
  by code_simp

lemma hardware_in_order:
  "getHardwareCapabilities (Some bs) = (if bs = [] then [Cpu]
     else filter (\<lambda>h. list_ex (\<lambda>b. h \<in> set (backend_hardware b)) bs) hardware_order)"
  by (simp add: getHardwareCapabilities_def list_ex_iff)

lemma known_backend_has_cpu:
  "b \<in> {''onnx'', ''xla'', ''go''} \<Longrightarrow> b \<in> set bs \<Longrightarrow> Cpu \<in> set (getHardwareCapabilities (Some bs))"
  by (auto simp: getHardwareCapabilities_def hardware_order_def backend_hardware_def)

text \<open>A number just below a million is shown as a thousand thousands.\<close>

lemma formatNumber_small: "formatNumber 7 = ''7''"
proof -
  have "show_nat 7 = ''7''" by code_simp
  then show ?thesis by (simp add: formatNumber_def)
qed

lemma toFixed_number:
  assumes "\<lfloor>x * 10 ^ d + 1 / 2\<rfloor> = int n"
  shows "toFixed d x = show_nat (n div 10 ^ d) @ ''.'' @ pad_left d (show_nat (n mod 10 ^ d))"
  by (simp add: toFixed_def assms Let_def)

lemma formatNumber_boundary: "formatNumber 999950 = ''1000.0k'' \<and> formatNumber 1500 = ''1.5k''"
proof -
  have "\<lfloor>(of_nat 999950 / 1000 :: rat) * 10 ^ 1 + 1 / 2\<rfloor> = int 10000"
    by (rule floor_unique) simp_all
  note a = toFixed_number [OF this]
  have "\<lfloor>(of_nat 1500 / 1000 :: rat) * 10 ^ 1 + 1 / 2\<rfloor> = int 15"
    by (rule floor_unique) simp_all
  note b = toFixed_number [OF this]
  have "show_nat 1000 = ''1000''" "show_nat 0 = ''0''" "show_nat 1 = ''1''" "show_nat 5 = ''5''" by code_simp+
  then show ?thesis using a b by (simp add: formatNumber_def pad_left_def)
qed

text \<open>When the sheet goes on to a model whose numbers are not cached, it keeps showing those of the model
  before, until the answer comes.\<close>

theorem stale_numbers_shown:
  "let v = hf_change ''o/b'' (hf_answer ''o/a'' (Some (1500, 7)) (hf_mount [] ''o/a''))
   in hv_source v = ''o/b'' \<and> hf_show (hv_stats v) = HfNumbers ''1.5k'' ''7''"
  by (simp add: hf_change_def hf_answer_def hf_mount_def hf_effect_def hf_cached_def hf_show_def formatNumber_boundary
      formatNumber_small jmap_get_def jmap_set_def Let_def)

lemma counter_reaches_value:
  assumes "0 < duration" "duration \<le> elapsed"
  shows "counter_at duration value elapsed = value"
  using assms by (simp add: counter_at_def Let_def min_def le_divide_eq)

end
