(* ===== verification/Transcribe.thy ===== *)
theory Transcribe
  imports Audio
begin

text \<open>
  The transcription page of the dashboard (ts/apps/antfarm/src/pages/TranscribePlaygroundPage.tsx): the
  microphone, the audio that is loaded or recorded, the inputs of the voice activity detection, and the
  pipeline that cuts the audio into segments, transcribes each and cleans it up. A run of the pipeline
  is a job with a number of its own; the answers it waits for are events. The signal of a job is aborted
  by a reset and by a later run. The requests that take the signal (the cut and the clean-up) end in an
  \<open>AbortError\<close> once it is aborted; the transcription itself does not take it.
\<close>

section \<open>Audio\<close>

record uploaded_audio =
  ua_name :: string
  ua_base64 :: string
  ua_dataUri :: string
  ua_mimeType :: string
  ua_size :: nat

text \<open>\<open>dataUri.split(",")[1]\<close>, where a data URI always has a comma.\<close>

definition base64_part :: "string \<Rightarrow> string" where
  "base64_part dataUri = (case split_on (CHR '','') dataUri of _ # b # _ \<Rightarrow> b | _ \<Rightarrow> [])"

definition processAudioFile :: "string \<Rightarrow> string \<Rightarrow> nat \<Rightarrow> string \<Rightarrow> string + uploaded_audio" where
  "processAudioFile name mimeType bytes dataUri =
     (if \<not> starts_with mimeType ''audio/'' then Inl ''Please select an audio file''
      else Inr \<lparr>ua_name = name, ua_base64 = base64_part dataUri, ua_dataUri = dataUri, ua_mimeType = mimeType, ua_size = bytes\<rparr>)"

text \<open>The recording: the captured buffers, resampled by the audio context, as a WAV file of 16 kHz.\<close>

definition recorded_audio :: "(jnumber list \<Rightarrow> rat \<Rightarrow> jnumber list) \<Rightarrow> string \<Rightarrow> rat \<Rightarrow> jnumber list list
    \<Rightarrow> (string + uploaded_audio \<times> rat) res" where
  "recorded_audio resample blobUrl sampleRate buffers =
     (let pcm = concat buffers in
      if length pcm = 0 then Inr (Inl ''No audio captured'')
      else let samples16k = (if sampleRate = 16000 then pcm else resample pcm sampleRate)
      in case encodeWAV samples16k 16000 of
           Inl e \<Rightarrow> Inl e
         | Inr wav \<Rightarrow> Inr (Inr
             (\<lparr>ua_name = ''recording.wav'', ua_base64 = arrayBufferToBase64 wav, ua_dataUri = blobUrl,
               ua_mimeType = ''audio/wav'', ua_size = length wav\<rparr>, of_nat (length samples16k) / 16000)))"

section \<open>The microphone\<close>

text \<open>The streams that are live, the one the page holds, and how many requests for one are open.\<close>

record microphone =
  mc_live :: "nat list"
  mc_stream :: "nat option"
  mc_recording :: bool
  mc_asked :: nat
  mc_next :: nat
  mc_mounted :: bool

datatype mic_event = StartRecording | Granted | GrantedUnusable | Denied | StopRecording | ResetRecording | LeavePage

definition mic_start :: microphone where
  "mic_start = \<lparr>mc_live = [], mc_stream = None, mc_recording = False, mc_asked = 0, mc_next = 0, mc_mounted = True\<rparr>"

definition cleanupRecording :: "microphone \<Rightarrow> microphone" where
  "cleanupRecording m =
     (case mc_stream m of None \<Rightarrow> m | Some s \<Rightarrow> m\<lparr>mc_live := removeAll s (mc_live m), mc_stream := None\<rparr>)"

text \<open>The start button is shown while the page does not record, the stop button while it does. A granted stream is
  held before the audio context is made and connected; when one of these calls throws
  (\<open>GrantedUnusable\<close>) only an error is set, and the page does not record.\<close>

fun mic_step :: "mic_event \<Rightarrow> microphone \<Rightarrow> microphone" where
  "mic_step StartRecording m =
     (if mc_mounted m \<and> \<not> mc_recording m then m\<lparr>mc_asked := mc_asked m + 1\<rparr> else m)"
| "mic_step Granted m =
     (if mc_asked m = 0 then m
      else m\<lparr>mc_asked := mc_asked m - 1, mc_live := mc_next m # mc_live m, mc_stream := Some (mc_next m),
             mc_next := mc_next m + 1, mc_recording := True\<rparr>)"
| "mic_step GrantedUnusable m =
     (if mc_asked m = 0 then m
      else m\<lparr>mc_asked := mc_asked m - 1, mc_live := mc_next m # mc_live m, mc_stream := Some (mc_next m),
             mc_next := mc_next m + 1\<rparr>)"
| "mic_step Denied m = (if mc_asked m = 0 then m else m\<lparr>mc_asked := mc_asked m - 1\<rparr>)"
| "mic_step StopRecording m = (if mc_mounted m \<and> mc_recording m then (cleanupRecording m)\<lparr>mc_recording := False\<rparr> else m)"
| "mic_step ResetRecording m =
     (if mc_mounted m \<and> mc_recording m then (cleanupRecording m)\<lparr>mc_recording := False\<rparr> else m)"
| "mic_step LeavePage m = (cleanupRecording m)\<lparr>mc_mounted := False\<rparr>"

section \<open>Settings\<close>

record vad_config =
  vc_threshold :: rat
  vc_minSilence :: int
  vc_minSpeech :: int
  vc_speechPad :: int

definition default_vad :: vad_config where
  "default_vad = \<lparr>vc_threshold = 3 / 10, vc_minSilence = 2000, vc_minSpeech = 500, vc_speechPad = 200\<rparr>"

text \<open>The inputs: the number that was read, or nothing when there is none.\<close>

definition set_threshold :: "rat option \<Rightarrow> vad_config \<Rightarrow> vad_config" where
  "set_threshold v c = (case v of None \<Rightarrow> c | Some x \<Rightarrow> if 0 \<le> x \<and> x \<le> 1 then c\<lparr>vc_threshold := x\<rparr> else c)"

definition number_or :: "int option \<Rightarrow> int \<Rightarrow> int" where
  "number_or v d = (case v of None \<Rightarrow> d | Some x \<Rightarrow> if x = 0 then d else x)"

definition set_minSilence :: "int option \<Rightarrow> vad_config \<Rightarrow> vad_config" where
  "set_minSilence v c = c\<lparr>vc_minSilence := number_or v 2000\<rparr>"

definition set_minSpeech :: "int option \<Rightarrow> vad_config \<Rightarrow> vad_config" where
  "set_minSpeech v c = c\<lparr>vc_minSpeech := number_or v 500\<rparr>"

definition set_speechPad :: "int option \<Rightarrow> vad_config \<Rightarrow> vad_config" where
  "set_speechPad v c = c\<lparr>vc_speechPad := number_or v 200\<rparr>"

definition selectPlaceholder :: "bool \<Rightarrow> nat \<Rightarrow> string \<Rightarrow> string" where
  "selectPlaceholder loaded count typeName =
     (if \<not> loaded then ''Loading...'' else if count = 0 then ''No '' @ typeName else ''Select '' @ typeName)"

text \<open>The lists of models and the first of each; an answer after the page has gone on is dropped.\<close>

definition listed_models :: "jsval \<Rightarrow> string \<Rightarrow> string list" where
  "listed_models data k = (case js_or (fld data k) (JObj []) of JObj kvs \<Rightarrow> map fst kvs | _ \<Rightarrow> [])"

definition first_listed :: "string list \<Rightarrow> string \<Rightarrow> string" where
  "first_listed names selected = (case names of [] \<Rightarrow> selected | n # _ \<Rightarrow> n)"

section \<open>The pipeline\<close>

datatype seg_status = SegPending | SegTranscribing | SegCleaning | SegDone

record segment =
  sg_startMs :: rat
  sg_endMs :: rat
  sg_rawText :: "string option"
  sg_cleanedText :: "string option"
  sg_status :: seg_status
  sg_error :: "string option"

definition pending_segment :: "rat \<Rightarrow> rat \<Rightarrow> segment" where
  "pending_segment a b = \<lparr>sg_startMs = a, sg_endMs = b, sg_rawText = None, sg_cleanedText = None, sg_status = SegPending, sg_error = None\<rparr>"

record vad_chunk =
  vd_data :: string
  vd_start :: "rat option"
  vd_end :: "rat option"

text \<open>What a run is started with, as the page has it.\<close>

record run_setup =
  ru_audio :: "uploaded_audio option"
  ru_duration :: "rat option"
  ru_transcriber :: string
  ru_chunker :: string
  ru_generator :: string
  ru_language :: string
  ru_useVAD :: bool
  ru_useLLM :: bool
  ru_vad :: vad_config
  ru_termiteUrl :: string

text \<open>Where a job waits: for the cut, for the transcription of a segment, or for its clean-up.\<close>

datatype job_stage = AtCut | AtTranscription nat | AtCleanup nat string

record job =
  jb_id :: nat
  jb_setup :: run_setup
  jb_vad :: bool
  jb_chunks :: "string list"
  jb_stage :: job_stage

record transcription =
  tr_segments :: "segment list"
  tr_loading :: bool
  tr_error :: "string option"
  tr_finished :: "nat option"
  tr_live :: "nat option"
  tr_next :: nat
  tr_jobs :: "job list"
  tr_requests :: "(nat \<times> jsval) list"

definition transcription_start :: transcription where
  "transcription_start = \<lparr>tr_segments = [], tr_loading = False, tr_error = None, tr_finished = None, tr_live = None,
     tr_next = 0, tr_jobs = [], tr_requests = []\<rparr>"

definition run_generator :: "run_setup \<Rightarrow> string option" where
  "run_generator u = (if ru_useLLM u \<and> ru_generator u \<noteq> [] then Some (ru_generator u) else None)"

definition uses_vad :: "run_setup \<Rightarrow> bool" where
  "uses_vad u \<longleftrightarrow> ru_useVAD u \<and> ru_chunker u \<noteq> [] \<and> (case ru_duration u of None \<Rightarrow> False | Some d \<Rightarrow> d > 30)"

definition cut_request :: "run_setup \<Rightarrow> uploaded_audio \<Rightarrow> jsval" where
  "cut_request u a = JObj
     [(''input'', JObj [(''type'', JStr ''media''), (''data'', JStr (ua_base64 a)), (''mime_type'', JStr (ua_mimeType a))]),
      (''config'', JObj [(''model'', JStr (ru_chunker u)), (''threshold'', JNum (vc_threshold (ru_vad u))),
         (''audio'', JObj [(''vad'', JObj [(''min_silence_duration_ms'', JNum (of_int (vc_minSilence (ru_vad u)))),
            (''min_speech_duration_ms'', JNum (of_int (vc_minSpeech (ru_vad u)))),
            (''speech_pad_ms'', JNum (of_int (vc_speechPad (ru_vad u))))])])])]"

definition transcribe_request :: "run_setup \<Rightarrow> string \<Rightarrow> jsval" where
  "transcribe_request u audio = JObj ([(''audio'', JStr audio), (''model'', JStr (ru_transcriber u))]
     @ (if trim (ru_language u) \<noteq> [] then [(''language'', JStr (trim (ru_language u)))] else []))"

definition cleanup_request :: "string \<Rightarrow> string \<Rightarrow> string \<Rightarrow> jsval" where
  "cleanup_request promptText generator rawText = JObj
     [(''model'', JStr generator),
      (''messages'', JArr [JObj [(''role'', JStr ''system''), (''content'', JStr promptText)],
                         JObj [(''role'', JStr ''user''), (''content'', JStr rawText)]]),
      (''temperature'', JNum (3 / 10)), (''max_tokens'', JNum 1024)]"

definition updateSegment :: "nat \<Rightarrow> (segment \<Rightarrow> segment) \<Rightarrow> transcription \<Rightarrow> transcription" where
  "updateSegment i f s = s\<lparr>tr_segments := map (\<lambda>(j, sg). if j = i then f sg else sg) (enumerate 0 (tr_segments s))\<rparr>"

definition put_job :: "job \<Rightarrow> transcription \<Rightarrow> transcription" where
  "put_job j s = s\<lparr>tr_jobs := map (\<lambda>k. if jb_id k = jb_id j then j else k) (tr_jobs s)\<rparr>"

text \<open>\<open>finally\<close>: the job ends, and the page no longer loads.\<close>

definition end_job :: "job \<Rightarrow> transcription \<Rightarrow> transcription" where
  "end_job j s = s\<lparr>tr_jobs := filter (\<lambda>k. jb_id k \<noteq> jb_id j) (tr_jobs s), tr_loading := False\<rparr>"

definition finish_job :: "job \<Rightarrow> transcription \<Rightarrow> transcription" where
  "finish_job j s = end_job j (s\<lparr>tr_finished := Some (jb_id j)\<rparr>)"

definition fail_job :: "job \<Rightarrow> js_exn \<Rightarrow> transcription \<Rightarrow> transcription" where
  "fail_job j e s =
     (case e of
        ErrorObj n m \<Rightarrow> if n = ''AbortError'' then end_job j s else end_job j (s\<lparr>tr_error := Some m\<rparr>)
      | NonError _ \<Rightarrow> end_job j (s\<lparr>tr_error := Some (''Failed to connect to Termite at '' @ ru_termiteUrl (jb_setup j))\<rparr>))"

definition begin_segment :: "job \<Rightarrow> nat \<Rightarrow> transcription \<Rightarrow> transcription" where
  "begin_segment j i s = put_job (j\<lparr>jb_stage := AtTranscription i\<rparr>)
     ((updateSegment i (\<lambda>sg. sg\<lparr>sg_status := SegTranscribing\<rparr>) s)
        \<lparr>tr_requests := tr_requests s @ [(jb_id j, transcribe_request (jb_setup j) (jb_chunks j ! i))]\<rparr>)"

text \<open>After a segment: the loop over the segments looks at the signal, the end of the run does not.\<close>

definition after_segment :: "job \<Rightarrow> nat \<Rightarrow> transcription \<Rightarrow> transcription" where
  "after_segment j i s =
     (if jb_vad j \<and> i + 1 < length (jb_chunks j) then
        (if tr_live s \<noteq> Some (jb_id j) then end_job j s else begin_segment j (i + 1) s)
      else finish_job j s)"

definition transcribed :: "string \<Rightarrow> job \<Rightarrow> nat \<Rightarrow> string res \<Rightarrow> transcription \<Rightarrow> transcription" where
  "transcribed promptText j i answer s =
     (case answer of
        Inl e \<Rightarrow> fail_job j e s
      | Inr t \<Rightarrow>
          if tr_live s \<noteq> Some (jb_id j) then after_segment j i s
          else (let rawText = trim t in
            case run_generator (jb_setup j) of
              Some g \<Rightarrow>
                if rawText \<noteq> [] then
                  put_job (j\<lparr>jb_stage := AtCleanup i rawText\<rparr>)
                    ((updateSegment i (\<lambda>sg. sg\<lparr>sg_rawText := Some rawText, sg_status := SegCleaning\<rparr>) s)
                       \<lparr>tr_requests := tr_requests s @ [(jb_id j, cleanup_request promptText g rawText)]\<rparr>)
                else after_segment j i (updateSegment i (\<lambda>sg. sg\<lparr>sg_rawText := Some rawText, sg_status := SegDone\<rparr>) s)
            | None \<Rightarrow> after_segment j i (updateSegment i (\<lambda>sg. sg\<lparr>sg_rawText := Some rawText, sg_status := SegDone\<rparr>) s)))"

text \<open>The clean-up: a text (the content of the first choice, or nothing), an HTTP failure, or a rejection.\<close>

datatype cleanup_answer = CleanText string | CleanHttp nat string | CleanRejected js_exn

definition cleaned :: "job \<Rightarrow> nat \<Rightarrow> string \<Rightarrow> cleanup_answer \<Rightarrow> transcription \<Rightarrow> transcription" where
  "cleaned j i rawText answer s =
     (let failed = (\<lambda>m. after_segment j i (updateSegment i (\<lambda>sg. sg\<lparr>sg_rawText := Some rawText, sg_status := SegDone,
             sg_error := Some (''LLM cleanup failed: '' @ m)\<rparr>) s))
      in if tr_live s \<noteq> Some (jb_id j) then after_segment j i s
         else case answer of
           CleanText t \<Rightarrow> after_segment j i (updateSegment i
             (\<lambda>sg. sg\<lparr>sg_rawText := Some rawText, sg_cleanedText := Some (trim t), sg_status := SegDone\<rparr>) s)
         | CleanHttp status body \<Rightarrow> failed (if body \<noteq> [] then body else ''LLM cleanup failed: HTTP '' @ show_nat status)
         | CleanRejected (ErrorObj n m) \<Rightarrow> if n = ''AbortError'' then after_segment j i s else failed m
         | CleanRejected (NonError _) \<Rightarrow> failed ''unknown'')"

datatype cut_answer = Chunks "vad_chunk list" | CutHttp nat string | CutRejected js_exn

definition cut_done :: "job \<Rightarrow> cut_answer \<Rightarrow> transcription \<Rightarrow> transcription" where
  "cut_done j answer s =
     (if tr_live s \<noteq> Some (jb_id j) then end_job j s
      else case answer of
        CutRejected e \<Rightarrow> fail_job j e s
      | CutHttp status body \<Rightarrow>
          fail_job j (ErrorObj ''Error'' (if body \<noteq> [] then body else ''VAD chunking failed: HTTP '' @ show_nat status)) s
      | Chunks cs \<Rightarrow>
          if cs = [] then end_job j (s\<lparr>tr_error := Some ''No speech detected by VAD''\<rparr>)
          else begin_segment (j\<lparr>jb_chunks := map vd_data cs\<rparr>) 0
            (s\<lparr>tr_segments := map (\<lambda>c. pending_segment (case vd_start c of None \<Rightarrow> 0 | Some x \<Rightarrow> x)
                 (case vd_end c of None \<Rightarrow> 0 | Some x \<Rightarrow> x)) cs\<rparr>))"

definition handleTranscribe :: "run_setup \<Rightarrow> transcription \<Rightarrow> transcription" where
  "handleTranscribe u s =
     (case ru_audio u of
        None \<Rightarrow> s\<lparr>tr_error := Some ''Please provide audio input''\<rparr>
      | Some a \<Rightarrow>
          if ru_transcriber u = [] then s\<lparr>tr_error := Some ''Please select a transcriber model''\<rparr>
          else (let n = tr_next s;
                    j = \<lparr>jb_id = n, jb_setup = u, jb_vad = uses_vad u, jb_chunks = [ua_base64 a], jb_stage = AtCut\<rparr>;
                    s1 = s\<lparr>tr_live := Some n, tr_next := n + 1, tr_loading := True, tr_error := None, tr_segments := [],
                           tr_finished := None, tr_jobs := tr_jobs s @ [j]\<rparr>
                in if uses_vad u then s1\<lparr>tr_requests := tr_requests s1 @ [(n, cut_request u a)]\<rparr>
                   else begin_segment j 0
                     (s1\<lparr>tr_segments := [pending_segment 0 ((case ru_duration u of None \<Rightarrow> 0 | Some d \<Rightarrow> d) * 1000)]\<rparr>)))"

definition reset_transcription :: "transcription \<Rightarrow> transcription" where
  "reset_transcription s = s\<lparr>tr_live := None, tr_segments := [], tr_error := None, tr_finished := None, tr_loading := False\<rparr>"

datatype transcription_event =
    TStart run_setup | TCut nat cut_answer | TText nat "string res" | TClean nat cleanup_answer | TReset

definition find_job :: "nat \<Rightarrow> transcription \<Rightarrow> job option" where
  "find_job n s = find (\<lambda>j. jb_id j = n) (tr_jobs s)"

text \<open>The button of a run is disabled while the page loads.\<close>

fun transcription_step :: "string \<Rightarrow> transcription_event \<Rightarrow> transcription \<Rightarrow> transcription" where
  "transcription_step promptText (TStart u) s = (if tr_loading s then s else handleTranscribe u s)"
| "transcription_step promptText (TCut n a) s =
     (case find_job n s of Some j \<Rightarrow> (case jb_stage j of AtCut \<Rightarrow> cut_done j a s | _ \<Rightarrow> s) | None \<Rightarrow> s)"
| "transcription_step promptText (TText n a) s =
     (case find_job n s of Some j \<Rightarrow> (case jb_stage j of AtTranscription i \<Rightarrow> transcribed promptText j i a s | _ \<Rightarrow> s) | None \<Rightarrow> s)"
| "transcription_step promptText (TClean n a) s =
     (case find_job n s of Some j \<Rightarrow> (case jb_stage j of AtCleanup i r \<Rightarrow> cleaned j i r a s | _ \<Rightarrow> s) | None \<Rightarrow> s)"
| "transcription_step promptText TReset s = reset_transcription s"

definition segment_text :: "segment \<Rightarrow> string" where
  "segment_text sg = (case sg_cleanedText sg of Some c \<Rightarrow> if c \<noteq> [] then c else (case sg_rawText sg of Some r \<Rightarrow> r | None \<Rightarrow> [])
     | None \<Rightarrow> (case sg_rawText sg of Some r \<Rightarrow> r | None \<Rightarrow> []))"

definition allText :: "transcription \<Rightarrow> string" where
  "allText s = join [newline] (map segment_text (filter (\<lambda>sg. sg_status sg = SegDone) (tr_segments s)))"

section \<open>A run that is left alone\<close>

text \<open>What the answers for a segment make of it; a clean-up that fails keeps the raw text.\<close>

definition clean_failed :: "segment \<Rightarrow> string \<Rightarrow> string \<Rightarrow> segment" where
  "clean_failed p raw m = p\<lparr>sg_rawText := Some raw, sg_status := SegDone, sg_error := Some (''LLM cleanup failed: '' @ m)\<rparr>"

definition answered_segment :: "string option \<Rightarrow> segment \<Rightarrow> string \<times> cleanup_answer \<Rightarrow> segment" where
  "answered_segment g p = (\<lambda>(t, c).
     if g = None \<or> trim t = [] then p\<lparr>sg_rawText := Some (trim t), sg_status := SegDone\<rparr>
     else case c of
       CleanText x \<Rightarrow> p\<lparr>sg_rawText := Some (trim t), sg_cleanedText := Some (trim x), sg_status := SegDone\<rparr>
     | CleanHttp status body \<Rightarrow> clean_failed p (trim t) (if body \<noteq> [] then body else ''LLM cleanup failed: HTTP '' @ show_nat status)
     | CleanRejected (ErrorObj n m) \<Rightarrow> clean_failed p (trim t) m
     | CleanRejected (NonError _) \<Rightarrow> clean_failed p (trim t) ''unknown'')"

definition segment_events :: "string option \<Rightarrow> nat \<Rightarrow> string \<times> cleanup_answer \<Rightarrow> transcription_event list" where
  "segment_events g n = (\<lambda>(t, c). TText n (Inr t) # (if g = None \<or> trim t = [] then [] else [TClean n c]))"

definition not_aborted :: "string \<times> cleanup_answer \<Rightarrow> bool" where
  "not_aborted = (\<lambda>(t, c). case c of CleanRejected (ErrorObj n m) \<Rightarrow> n \<noteq> ''AbortError'' | _ \<Rightarrow> True)"

text \<open>The only job waits for the transcription of segment \<open>length xs\<close>; the ones before are answered.\<close>

definition at_segment :: "job \<Rightarrow> segment list \<Rightarrow> segment list \<Rightarrow> transcription \<Rightarrow> bool" where
  "at_segment j xs ps s \<longleftrightarrow> tr_live s = Some (jb_id j) \<and> tr_jobs s = [j\<lparr>jb_stage := AtTranscription (length xs)\<rparr>]
     \<and> ps \<noteq> [] \<and> tr_segments s = xs @ (hd ps)\<lparr>sg_status := SegTranscribing\<rparr> # tl ps
     \<and> tr_error s = None \<and> tr_loading s"

lemma update_segment_at:
  assumes "tr_segments s = xs @ y # ys"
  shows "tr_segments (updateSegment (length xs) f s) = xs @ f y # ys"
proof -
  have keep: "map (\<lambda>(j, sg). if j = i then f sg else sg) (enumerate n zs) = zs" if "i < n \<or> n + length zs \<le> i" for i n zs
    using that by (induction zs arbitrary: n) auto
  have "map (\<lambda>(j, sg). if j = length xs then f sg else sg) (enumerate 0 xs) = xs" by (rule keep) simp
  moreover have "map (\<lambda>(j, sg). if j = length xs then f sg else sg) (enumerate (Suc (length xs)) ys) = ys" by (rule keep) simp
  ultimately show ?thesis by (simp add: updateSegment_def assms enumerate_append_eq)
qed

lemma update_segment_rest [simp]:
  "tr_live (updateSegment i f s) = tr_live s" "tr_jobs (updateSegment i f s) = tr_jobs s"
  "tr_error (updateSegment i f s) = tr_error s" "tr_loading (updateSegment i f s) = tr_loading s"
  "tr_requests (updateSegment i f s) = tr_requests s"
  by (simp_all add: updateSegment_def)

text \<open>The end of a segment: the next one, or the end of the run.\<close>

lemma after_segment_next:
  assumes "tr_live s = Some (jb_id j)" "jb_id k = jb_id j" "tr_jobs s = [k]" "tr_segments s = xs @ p # q # ps"
    "tr_error s = None" "tr_loading s" "jb_vad j" "length xs + 2 \<le> length (jb_chunks j)"
  shows "at_segment (j\<lparr>jb_stage := st\<rparr>) (xs @ [p]) (q # ps) (after_segment (j\<lparr>jb_stage := st\<rparr>) (length xs) s)"
  using assms update_segment_at [of s "xs @ [p]" q ps]
  by (simp add: at_segment_def after_segment_def begin_segment_def put_job_def)

lemma after_segment_end:
  assumes "tr_jobs s = [k]" "jb_id k = jb_id j" "\<not> jb_vad j \<or> length (jb_chunks j) \<le> i + 1"
  shows "after_segment j i s = s\<lparr>tr_finished := Some (jb_id j), tr_jobs := [], tr_loading := False\<rparr>"
  using assms by (auto simp: after_segment_def finish_job_def end_job_def)

lemma segment_answered:
  assumes at: "at_segment j xs ps s" and ok: "not_aborted tc"
  shows "\<exists>s' k. fold (transcription_step pt) (segment_events (run_generator (jb_setup j)) (jb_id j) tc) s
      = after_segment (j\<lparr>jb_stage := k\<rparr>) (length xs) s'
    \<and> tr_live s' = Some (jb_id j) \<and> (\<exists>m. tr_jobs s' = [m] \<and> jb_id m = jb_id j)
    \<and> tr_segments s' = xs @ answered_segment (run_generator (jb_setup j)) (hd ps) tc # tl ps
    \<and> tr_error s' = None \<and> tr_loading s'"
proof -
  obtain t c where tc: "tc = (t, c)" by force
  let ?j = "j\<lparr>jb_stage := AtTranscription (length xs)\<rparr>"
  note a = at [unfolded at_segment_def]
  have job: "find_job (jb_id j) s = Some ?j" using a by (simp add: find_job_def)
  have seg: "tr_segments s = xs @ (hd ps)\<lparr>sg_status := SegTranscribing\<rparr> # tl ps" using a by simp
  show ?thesis
  proof (cases "run_generator (jb_setup j) = None \<or> trim t = []")
    case True
    let ?s = "updateSegment (length xs) (\<lambda>sg. sg\<lparr>sg_rawText := Some (trim t), sg_status := SegDone\<rparr>) s"
    have "fold (transcription_step pt) (segment_events (run_generator (jb_setup j)) (jb_id j) tc) s = after_segment ?j (length xs) ?s"
      using True job a by (auto simp: tc segment_events_def transcribed_def Let_def split: option.split)
    then show ?thesis
      using a True update_segment_at [OF seg]
      by (intro exI [of _ ?s] exI [of _ "AtTranscription (length xs)"]) (simp add: tc answered_segment_def)
  next
    case False
    then obtain g where g: "run_generator (jb_setup j) = Some g" and t: "trim t \<noteq> []" by auto
    let ?k = "j\<lparr>jb_stage := AtCleanup (length xs) (trim t)\<rparr>"
    let ?s1 = "put_job ?k ((updateSegment (length xs) (\<lambda>sg. sg\<lparr>sg_rawText := Some (trim t), sg_status := SegCleaning\<rparr>) s)
                 \<lparr>tr_requests := tr_requests s @ [(jb_id j, cleanup_request pt g (trim t))]\<rparr>)"
    have one: "fold (transcription_step pt) (segment_events (run_generator (jb_setup j)) (jb_id j) tc) s
        = transcription_step pt (TClean (jb_id j) c) ?s1"
      using g t job a by (simp add: tc segment_events_def transcribed_def Let_def)
    have jobs: "tr_jobs ?s1 = [?k]" and live: "tr_live ?s1 = Some (jb_id j)" and rest: "tr_error ?s1 = None" "tr_loading ?s1"
      using a by (simp_all add: put_job_def)
    have seg1: "tr_segments ?s1 = xs @ (hd ps)\<lparr>sg_rawText := Some (trim t), sg_status := SegCleaning\<rparr> # tl ps"
      using update_segment_at [OF seg] by (simp add: put_job_def)
    define f where "f = (\<lambda>sg :: segment. case c of
        CleanText x \<Rightarrow> sg\<lparr>sg_rawText := Some (trim t), sg_cleanedText := Some (trim x), sg_status := SegDone\<rparr>
      | CleanHttp status body \<Rightarrow> clean_failed sg (trim t) (if body \<noteq> [] then body else ''LLM cleanup failed: HTTP '' @ show_nat status)
      | CleanRejected (ErrorObj n m) \<Rightarrow> clean_failed sg (trim t) m
      | CleanRejected (NonError _) \<Rightarrow> clean_failed sg (trim t) ''unknown'')"
    have "transcription_step pt (TClean (jb_id j) c) ?s1 = cleaned ?k (length xs) (trim t) c ?s1"
      using jobs by (simp add: find_job_def)
    also have "\<dots> = after_segment ?k (length xs) (updateSegment (length xs) f ?s1)"
      using ok live
      by (cases c) (auto simp: cleaned_def f_def clean_failed_def tc not_aborted_def Let_def split: js_exn.split)
    finally have two: "transcription_step pt (TClean (jb_id j) c) ?s1 = after_segment ?k (length xs) (updateSegment (length xs) f ?s1)" .
    have "f ((hd ps)\<lparr>sg_rawText := Some (trim t), sg_status := SegCleaning\<rparr>) = answered_segment (run_generator (jb_setup j)) (hd ps) tc"
      using g t by (simp add: f_def tc answered_segment_def clean_failed_def split: cleanup_answer.split js_exn.split)
    then show ?thesis
      unfolding one two using update_segment_at [OF seg1, of f] jobs live rest
      by (intro exI [of _ "updateSegment (length xs) f ?s1"] exI [of _ "AtCleanup (length xs) (trim t)"]) simp
  qed
qed

lemma answered_run:
  assumes "at_segment j xs ps s" "length tcs = length ps" "length (jb_chunks j) = length xs + length ps"
    and "jb_vad j \<or> length (jb_chunks j) = 1" "\<forall>tc \<in> set tcs. not_aborted tc" "g = run_generator (jb_setup j)"
  shows "let s' = fold (transcription_step pt) (concat (map (segment_events g (jb_id j)) tcs)) s
    in tr_segments s' = xs @ map2 (answered_segment g) ps tcs \<and> \<not> tr_loading s' \<and> tr_error s' = None
       \<and> tr_finished s' = Some (jb_id j) \<and> tr_jobs s' = []"
  using assms
proof (induction tcs arbitrary: j xs ps s)
  case Nil
  then show ?case by (simp add: at_segment_def)
next
  case (Cons tc tcs)
  then obtain p ps' where ps: "ps = p # ps'" by (cases ps) auto
  obtain s' k m where one: "fold (transcription_step pt) (segment_events g (jb_id j) tc) s = after_segment (j\<lparr>jb_stage := k\<rparr>) (length xs) s'"
    and s': "tr_live s' = Some (jb_id j)" "tr_jobs s' = [m]" "jb_id m = jb_id j"
      "tr_segments s' = xs @ answered_segment g p tc # ps'" "tr_error s' = None" "tr_loading s'"
    using segment_answered [OF Cons.prems(1), of tc pt] Cons.prems(5,6) unfolding ps by auto
  show ?case
  proof (cases ps')
    case Nil
    then have "after_segment (j\<lparr>jb_stage := k\<rparr>) (length xs) s' = s'\<lparr>tr_finished := Some (jb_id j), tr_jobs := [], tr_loading := False\<rparr>"
      using after_segment_end [of s' m "j\<lparr>jb_stage := k\<rparr>" "length xs"] s' Cons.prems(3) ps by simp
    then show ?thesis using Nil Cons.prems(2) one s' ps by simp
  next
    case (Cons q qs)
    have vad: "jb_vad j" using Cons.prems(3,4) Cons ps by auto
    have "at_segment (j\<lparr>jb_stage := k\<rparr>) (xs @ [answered_segment g p tc]) (q # qs) (after_segment (j\<lparr>jb_stage := k\<rparr>) (length xs) s')"
      using after_segment_next [of s' j m xs "answered_segment g p tc" q qs k] s' vad Cons.prems(3) Cons ps by simp
    from Cons.IH [OF this] Cons.prems(2-6) vad Cons ps one
    show ?thesis by simp
  qed
qed

definition cut_segment :: "vad_chunk \<Rightarrow> segment" where
  "cut_segment c = pending_segment (case vd_start c of None \<Rightarrow> 0 | Some x \<Rightarrow> x) (case vd_end c of None \<Rightarrow> 0 | Some x \<Rightarrow> x)"

text \<open>C21. A transcription that is left alone (a page with no run under way, with audio and a model, whose cut
  and transcriptions are answered and whose clean-ups do not end in an \<open>AbortError\<close>): it makes one segment per
  cut chunk, or one for the whole audio without the cut. When the cut finds no speech, the page shows that
  as its error, with no segment and no time. Otherwise the segments are exactly the answers, in order - the
  raw text, the cleaned text where the clean-up succeeded, an error beside the raw text where it failed -
  all of them done, with no error of the page and the time recorded, and the text to copy is the lines of the
  segments. Either way nothing is loading and no job is left.\<close>

theorem transcript_complete:
  assumes "tr_jobs s = []" "\<not> tr_loading s" "ru_audio u = Some a" "ru_transcriber u \<noteq> []"
    and "ps = (if uses_vad u then map cut_segment cs
               else [pending_segment 0 ((case ru_duration u of None \<Rightarrow> 0 | Some d \<Rightarrow> d) * 1000)])"
    and "length tcs = length ps" "\<forall>tc \<in> set tcs. not_aborted tc"
    and "s' = fold (transcription_step pt) ([TStart u] @ (if uses_vad u then [TCut (tr_next s) (Chunks cs)] else [])
           @ concat (map (segment_events (run_generator u) (tr_next s)) tcs)) s"
  shows "tr_segments s' = map2 (answered_segment (run_generator u)) ps tcs
    \<and> (\<forall>sg \<in> set (tr_segments s'). sg_status sg = SegDone) \<and> allText s' = join [newline] (map segment_text (tr_segments s'))
    \<and> \<not> tr_loading s' \<and> tr_jobs s' = []
    \<and> (if ps = [] then tr_error s' = Some ''No speech detected by VAD'' \<and> tr_finished s' = None
       else tr_error s' = None \<and> tr_finished s' = Some (tr_next s))"
proof -
  let ?n = "tr_next s"
  define s0 where "s0 = fold (transcription_step pt) ([TStart u] @ (if uses_vad u then [TCut ?n (Chunks cs)] else [])) s"
  define j where "j = \<lparr>jb_id = ?n, jb_setup = u, jb_vad = uses_vad u,
     jb_chunks = (if uses_vad u then map vd_data cs else [ua_base64 a]), jb_stage = AtCut\<rparr>"
  have run: "s' = fold (transcription_step pt) (concat (map (segment_events (run_generator u) ?n) tcs)) s0"
    by (simp add: assms(8) s0_def)
  show ?thesis
  proof (cases "ps = []")
    case True
    then have "uses_vad u" "cs = []" "tcs = []" using assms(5,6) by (auto split: if_splits)
    then show ?thesis
      using assms(1-4) True run
      by (simp add: s0_def handleTranscribe_def cut_done_def find_job_def end_job_def allText_def Let_def)
  next
    case ps: False
    have "at_segment j [] ps s0"
    proof (cases "uses_vad u")
      case True
      then show ?thesis
        using assms(1-5) update_segment_at [where xs = "[]" and y = "hd ps" and ys = "tl ps"] ps
        by (simp add: s0_def j_def at_segment_def handleTranscribe_def cut_done_def begin_segment_def put_job_def
            find_job_def cut_segment_def Let_def comp_def)
    next
      case False
      then show ?thesis
        using assms(1-5) update_segment_at [where xs = "[]" and y = "hd ps" and ys = "tl ps"] ps
        by (simp add: s0_def j_def at_segment_def handleTranscribe_def begin_segment_def put_job_def Let_def)
    qed
    moreover have "length (jb_chunks j) = length ps" "jb_vad j \<or> length (jb_chunks j) = 1"
      using assms(5) by (auto simp: j_def split: if_splits)
    ultimately have main: "tr_segments s' = map2 (answered_segment (run_generator u)) ps tcs \<and> \<not> tr_loading s'
        \<and> tr_error s' = None \<and> tr_finished s' = Some ?n \<and> tr_jobs s' = []"
      using answered_run [of j "[]" ps s0 tcs "run_generator u" pt] assms(6,7) run by (simp add: Let_def j_def)
    have "sg_status (answered_segment g p tc) = SegDone" for g p tc
      by (cases tc) (simp add: answered_segment_def clean_failed_def split: cleanup_answer.split js_exn.split)
    then have done_all: "\<forall>sg \<in> set (tr_segments s'). sg_status sg = SegDone"
      using main by (auto simp: in_set_zip)
    then have "filter (\<lambda>sg. sg_status sg = SegDone) (tr_segments s') = tr_segments s'" by (simp add: filter_id_conv)
    then show ?thesis using main done_all ps by (simp add: allText_def)
  qed
qed

definition demo_setup :: "bool \<Rightarrow> run_setup" where
  "demo_setup vad = \<lparr>ru_audio = Some \<lparr>ua_name = ''a'', ua_base64 = ''AA'', ua_dataUri = ''u'', ua_mimeType = ''audio/wav'', ua_size = 2\<rparr>,
     ru_duration = Some 60, ru_transcriber = ''w'', ru_chunker = ''v'', ru_generator = ''g'', ru_language = [],
     ru_useVAD = vad, ru_useLLM = True, ru_vad = default_vad, ru_termiteUrl = ''t''\<rparr>"

definition demo_chunks :: "vad_chunk list" where
  "demo_chunks = [\<lparr>vd_data = ''A'', vd_start = Some 0, vd_end = Some 900\<rparr>, \<lparr>vd_data = ''B'', vd_start = None, vd_end = None\<rparr>]"

theorem transcript_complete_witness:
  "length (tr_segments (fold (transcription_step ''p'') ([TStart (demo_setup True), TCut 0 (Chunks demo_chunks)]
      @ concat (map (segment_events (run_generator (demo_setup True)) 0) [([], CleanText []), ([], CleanText [])])) transcription_start)) = 2"
proof -
  let ?u = "demo_setup True" and ?tcs = "[([], CleanText []), ([], CleanText [])]"
  let ?run = "\<lambda>cut. fold (transcription_step ''p'') ([TStart ?u] @ cut @ concat (map (segment_events (run_generator ?u) 0) ?tcs)) transcription_start"
  have vad: "uses_vad ?u" by (simp add: uses_vad_def demo_setup_def)
  have start: "tr_jobs transcription_start = []" "\<not> tr_loading transcription_start" "tr_next transcription_start = 0"
    by (simp_all add: transcription_start_def)
  have given: "ru_audio ?u = Some (the (ru_audio ?u))" "ru_transcriber ?u \<noteq> []" by (simp_all add: demo_setup_def)
  have "length ?tcs = length (map cut_segment demo_chunks)" "\<forall>tc \<in> set ?tcs. not_aborted tc"
    by (simp_all add: demo_chunks_def not_aborted_def)
  note facts = this
  have "tr_segments (?run (if uses_vad ?u then [TCut (tr_next transcription_start) (Chunks demo_chunks)] else []))
      = map2 (answered_segment (run_generator ?u)) (map cut_segment demo_chunks) ?tcs"
    by (rule transcript_complete [where cs = demo_chunks and ps = "map cut_segment demo_chunks", THEN conjunct1,
          OF start(1,2) given _ facts]) (simp_all only: vad if_True start(3))
  then have "length (tr_segments (?run [TCut 0 (Chunks demo_chunks)])) = length demo_chunks"
    by (simp only: vad if_True start(3)) (simp add: demo_chunks_def)
  then show ?thesis by (simp only: append.simps) (simp add: demo_chunks_def)
qed

section \<open>Runs that meet\<close>

text \<open>The transcription request does not take the signal. When it answers after a reset, a run over
  the whole audio still ends as if it had finished, and records its time; when it fails after a reset, its
  error is shown on the page that was reset; and when a new run has begun, the end of the old one
  takes away the new one's loading mark, so that a third can be started beside it.\<close>

theorem reset_run_interferes:
  "tr_finished (fold (transcription_step ''p'') [TStart (demo_setup False), TReset, TText 0 (Inr ''hi'')] transcription_start) = Some 0
   \<and> tr_error (fold (transcription_step ''p'') [TStart (demo_setup False), TReset, TText 0 (throw_error ''down'')] transcription_start) = Some ''down''
   \<and> (let s = fold (transcription_step ''p'') [TStart (demo_setup False), TReset, TStart (demo_setup False), TText 0 (Inr ''hi'')] transcription_start
      in \<not> tr_loading s \<and> map jb_id (tr_jobs s) = [1] \<and> tr_live s = Some 1 \<and> tr_finished s = Some 0)"
proof -
  have vad: "\<not> uses_vad (demo_setup False)" by (simp add: uses_vad_def demo_setup_def)
  note defs = handleTranscribe_def begin_segment_def put_job_def updateSegment_def find_job_def transcribed_def
    reset_transcription_def after_segment_def finish_job_def fail_job_def end_job_def transcription_start_def Let_def
  have given: "ru_audio (demo_setup False) \<noteq> None" "ru_transcriber (demo_setup False) \<noteq> []"
    by (simp_all add: demo_setup_def)
  then obtain a where a: "ru_audio (demo_setup False) = Some a" by blast
  show ?thesis using vad given(2) a by (simp add: defs)
qed

section \<open>The microphone\<close>

text \<open>A use that waits for the answer to one request before it asks again or leaves.\<close>

definition orderly :: "mic_event \<Rightarrow> microphone \<Rightarrow> bool" where
  "orderly e m \<longleftrightarrow> (e = StartRecording \<or> e = LeavePage \<longrightarrow> mc_asked m = 0)"

inductive mic_reach :: "nat \<Rightarrow> microphone \<Rightarrow> bool" where
  mic_open: "mic_reach 0 mic_start"
| mic_next: "mic_reach k m \<Longrightarrow> orderly e m \<Longrightarrow>
    mic_reach (if e = GrantedUnusable \<and> mc_asked m \<noteq> 0 then k + 1 else k) (mic_step e m)"

text \<open>The streams that are live and not held were left by starts that failed.\<close>

definition mic_ok :: "nat \<Rightarrow> microphone \<Rightarrow> bool" where
  "mic_ok k m \<longleftrightarrow> distinct (mc_live m) \<and> (\<forall>i \<in> set (mc_live m). i < mc_next m)
     \<and> (\<forall>i. mc_stream m = Some i \<longrightarrow> i \<in> set (mc_live m))
     \<and> (mc_recording m \<and> mc_mounted m \<longrightarrow> mc_stream m \<noteq> None \<and> mc_asked m = 0)
     \<and> length (mc_live m) \<le> k + (if mc_recording m \<and> mc_mounted m then 1 else 0)
     \<and> mc_asked m \<le> 1 \<and> (\<not> mc_mounted m \<longrightarrow> mc_asked m = 0 \<and> mc_stream m = None)"

lemma length_removeAll_distinct: "distinct xs \<Longrightarrow> x \<in> set xs \<Longrightarrow> length (removeAll x xs) = length xs - 1"
  by (simp add: distinct_remove1_removeAll [symmetric] length_remove1)

lemma mic_ok_cleanup:
  assumes "mic_ok k m"
  shows "distinct (mc_live (cleanupRecording m)) \<and> (\<forall>i \<in> set (mc_live (cleanupRecording m)). i < mc_next m)
    \<and> mc_stream (cleanupRecording m) = None \<and> mc_next (cleanupRecording m) = mc_next m
    \<and> mc_recording (cleanupRecording m) = mc_recording m \<and> mc_mounted (cleanupRecording m) = mc_mounted m
    \<and> mc_asked (cleanupRecording m) = mc_asked m \<and> length (mc_live (cleanupRecording m)) \<le> k"
proof (cases "mc_stream m")
  case None
  then show ?thesis using assms by (auto simp: mic_ok_def cleanupRecording_def split: if_splits)
next
  case (Some i)
  then have "length (removeAll i (mc_live m)) = length (mc_live m) - 1"
    using assms length_removeAll_distinct [of "mc_live m" i] by (simp add: mic_ok_def)
  then show ?thesis
    using Some assms by (auto simp: mic_ok_def cleanupRecording_def distinct_removeAll split: if_splits)
qed

lemma mic_ok_step:
  assumes "mic_ok k m" "orderly e m"
  shows "mic_ok (if e = GrantedUnusable \<and> mc_asked m \<noteq> 0 then k + 1 else k) (mic_step e m)"
proof (cases e)
  case StopRecording
  then show ?thesis using assms mic_ok_cleanup [OF assms(1)] by (auto simp: mic_ok_def)
next
  case ResetRecording
  then show ?thesis using assms mic_ok_cleanup [OF assms(1)] by (auto simp: mic_ok_def)
next
  case LeavePage
  then show ?thesis using assms mic_ok_cleanup [OF assms(1)] by (auto simp: mic_ok_def orderly_def)
qed (use assms in \<open>auto simp: mic_ok_def orderly_def\<close>)

lemma mic_reach_ok: "mic_reach k m \<Longrightarrow> mic_ok k m"
proof (induction rule: mic_reach.induct)
  case mic_open
  then show ?case by (simp add: mic_ok_def mic_start_def)
next
  case (mic_next k m e)
  then show ?case by (intro mic_ok_step)
qed

text \<open>C22. The microphone, as long as a request for it is answered before the next is made or the page is left: as long
  as no start has failed after the stream was granted (the audio context may throw), a stream is live
  exactly while the page records, it is the one the page holds, and none is left after stopping, resetting or
  leaving; in general, after k such failures at most k streams are live beside the one of a recording, a
  recording page holds a live stream, and stopping, resetting and leaving end the stream that the page holds.\<close>

theorem microphone_released:
  assumes "mic_reach k m"
  shows "(k = 0 \<longrightarrow> mc_live m = (if mc_recording m \<and> mc_mounted m then [the (mc_stream m)] else [])
        \<and> mc_live (mic_step StopRecording m) = [] \<and> mc_live (mic_step ResetRecording m) = [] \<and> mc_live (mic_step LeavePage m) = [])
    \<and> length (mc_live m) \<le> k + (if mc_recording m \<and> mc_mounted m then 1 else 0)
    \<and> (mc_recording m \<and> mc_mounted m \<longrightarrow> the (mc_stream m) \<in> set (mc_live m)
         \<and> the (mc_stream m) \<notin> set (mc_live (mic_step StopRecording m))
         \<and> the (mc_stream m) \<notin> set (mc_live (mic_step ResetRecording m)))
    \<and> (mc_stream m \<noteq> None \<longrightarrow> the (mc_stream m) \<notin> set (mc_live (mic_step LeavePage m)))"
proof -
  have ok: "mic_ok k m" using assms by (rule mic_reach_ok)
  have one: "xs = [x]" if "length xs \<le> Suc 0" "x \<in> set xs" for xs and x :: nat
    using that by (cases xs) auto
  have released: "the (mc_stream m) \<notin> set (mc_live (cleanupRecording m))" if "mc_stream m \<noteq> None"
    using that by (auto simp: cleanupRecording_def)
  have first: "mc_live m = (if mc_recording m \<and> mc_mounted m then [the (mc_stream m)] else [])" if "k = 0"
    using ok that one [of "mc_live m" "the (mc_stream m)"] by (auto simp: mic_ok_def)
  have clean: "mc_live (cleanupRecording m) = []" if "k = 0"
    using mic_ok_cleanup [OF ok] that by simp
  show ?thesis
    using ok first clean released by (auto simp: mic_ok_def)
qed

theorem microphone_released_witness:
  "mc_live (mic_step StopRecording (mic_step Granted (mic_step StartRecording mic_start))) = []"
proof -
  have "mic_reach 0 (mic_step StartRecording mic_start)"
    using mic_reach.mic_next [OF mic_reach.mic_open, of StartRecording] by (simp add: orderly_def mic_start_def)
  then have "mic_reach 0 (mic_step Granted (mic_step StartRecording mic_start))"
    using mic_reach.mic_next [of 0 _ Granted] by (simp add: orderly_def)
  then show ?thesis using microphone_released by blast
qed

text \<open>When the audio context cannot be made the microphone stays on while the page does not record, and the
  next start forgets its stream, which nothing stops any more.\<close>

theorem failed_start_keeps_microphone:
  "let m = fold mic_step [StartRecording, GrantedUnusable] mic_start
   in mc_live m = [0] \<and> \<not> mc_recording m \<and> mc_live (mic_step StopRecording m) = [0]
      \<and> mc_live (fold mic_step [StartRecording, Granted, StopRecording, LeavePage] m) = [0]"
  by code_simp

text \<open>Two clicks before the first request is answered, or leaving the page meanwhile, leave a stream that
  nothing stops any more.\<close>

theorem microphone_leaks:
  "mc_live (fold mic_step [StartRecording, StartRecording, Granted, Granted, StopRecording, LeavePage] mic_start) = [0]
   \<and> mc_live (fold mic_step [StartRecording, LeavePage, Granted] mic_start) = [0]"
  by code_simp

section \<open>Settings and recordings\<close>

text \<open>A padding of zero, which the input allows, is read as the default.\<close>

theorem zero_padding_replaced:
  "vc_speechPad (set_speechPad (Some 0) c) = 200 \<and> (x \<noteq> 0 \<longrightarrow> vc_speechPad (set_speechPad (Some x) c) = x)"
  by (simp add: set_speechPad_def number_or_def)

theorem zero_padding_replaced_witness: "vc_speechPad (set_speechPad (Some 50) default_vad) = 50"
  using zero_padding_replaced [of default_vad 50] by simp

lemma threshold_in_range:
  "0 \<le> vc_threshold c \<and> vc_threshold c \<le> 1 \<Longrightarrow> 0 \<le> vc_threshold (set_threshold v c) \<and> vc_threshold (set_threshold v c) \<le> 1"
  by (simp add: set_threshold_def split: option.split)

end
