(* ===== verification/TextPlaygrounds.thy ===== *)
theory TextPlaygrounds
  imports EvalSets QueryUtils
begin

text \<open>
  Three playgrounds of the dashboard (ts/apps/antfarm/src/pages): chunking, in its two pages
  (ChunkingPlaygroundPage.tsx and AntflyChunkingPlaygroundPage.tsx), the generation of questions
  (QuestionPlaygroundPage.tsx) with its dialog for evaluation sets, and the reading of images
  (ReaderPlaygroundPage.tsx). Their requests run as those of theory Playgrounds.
\<close>

section \<open>Chunking\<close>

abbreviation backslash :: char where
  "backslash \<equiv> CHR 0x5C"

record chunk_config =
  cc_model :: string
  cc_targetTokens :: int
  cc_overlapTokens :: int
  cc_separator :: string
  cc_maxChunks :: int
  cc_threshold :: rat

definition default_chunk_config :: chunk_config where
  "default_chunk_config = \<lparr>cc_model = ''fixed'', cc_targetTokens = 500, cc_overlapTokens = 50,
     cc_separator = [backslash, CHR ''n'', backslash, CHR ''n''], cc_maxChunks = 50, cc_threshold = 1 / 2\<rparr>"

text \<open>A backslash and a letter, replaced by a character.\<close>

fun replace_escape :: "char \<Rightarrow> char \<Rightarrow> string \<Rightarrow> string" where
  "replace_escape l c (a # b # s) =
     (if a = backslash \<and> b = l then c # replace_escape l c s else a # replace_escape l c (b # s))"
| "replace_escape l c s = s"

definition actualSeparator :: "string \<Rightarrow> string" where
  "actualSeparator s = replace_escape (CHR ''t'') (CHR 0x09) (replace_escape (CHR ''n'') newline s)"

text \<open>The values of the items of the separator's list: in an attribute a backslash stands for itself.\<close>

definition separator_items :: "string list" where
  "separator_items =
     [[backslash, backslash, CHR ''n'', backslash, backslash, CHR ''n''], [backslash, backslash, CHR ''n''], ''. '', '' '']"

text \<open>The inputs: the number that was read, or nothing.\<close>

definition read_or :: "int option \<Rightarrow> int \<Rightarrow> int" where
  "read_or v d = (case v of None \<Rightarrow> d | Some x \<Rightarrow> if x = 0 then d else x)"

definition set_target :: "int option \<Rightarrow> chunk_config \<Rightarrow> chunk_config" where
  "set_target v c = c\<lparr>cc_targetTokens := read_or v (if cc_model c = ''fixed'' then 500 else 0)\<rparr>"

definition set_overlap :: "int option \<Rightarrow> chunk_config \<Rightarrow> chunk_config" where
  "set_overlap v c = c\<lparr>cc_overlapTokens := read_or v 0\<rparr>"

definition set_maxChunks :: "int option \<Rightarrow> chunk_config \<Rightarrow> chunk_config" where
  "set_maxChunks v c = c\<lparr>cc_maxChunks := read_or v 50\<rparr>"

definition set_chunk_threshold :: "rat option \<Rightarrow> chunk_config \<Rightarrow> chunk_config" where
  "set_chunk_threshold v c = (case v of None \<Rightarrow> c | Some x \<Rightarrow> if 0 \<le> x \<and> x \<le> 1 then c\<lparr>cc_threshold := x\<rparr> else c)"

definition chunk_request :: "chunk_config \<Rightarrow> jsval" where
  "chunk_request c = JObj
     [(''model'', JStr (cc_model c)),
      (''text'', JObj [(''target_tokens'', JNum (of_int (cc_targetTokens c))), (''overlap_tokens'', JNum (of_int (cc_overlapTokens c))),
         (''separator'', JStr (actualSeparator (cc_separator c)))]),
      (''max_chunks'', JNum (of_int (cc_maxChunks c))), (''threshold'', JNum (cc_threshold c))]"

definition chunker_config :: "string \<Rightarrow> chunk_config \<Rightarrow> jsval" where
  "chunker_config provider c = JObj
     ([(''provider'', JStr provider), (''strategy'', JStr (if cc_model c = ''fixed'' then ''fixed'' else ''hugot'')),
      (''text'', JObj [(''target_tokens'', JNum (of_int (cc_targetTokens c))), (''overlap_tokens'', JNum (of_int (cc_overlapTokens c))),
         (''separator'', JStr (actualSeparator (cc_separator c)))]),
      (''max_chunks'', JNum (of_int (cc_maxChunks c)))]
      @ (if cc_model c \<noteq> ''fixed'' then [(''threshold'', JNum (cc_threshold c))] else []))"

definition estimateTokens :: "string \<Rightarrow> nat" where
  "estimateTokens t = nat \<lceil>(of_nat (length t) :: rat) / 4\<rceil>"

datatype doc_chunk = TextChunk string string nat nat | MediaChunk string

datatype chunk_piece = GapPiece string | MarkedPiece nat string | EndPiece string

text \<open>\<open>s.slice(a, b)\<close>\<close>

definition slice_between :: "nat \<Rightarrow> nat \<Rightarrow> string \<Rightarrow> string" where
  "slice_between a b s = drop a (take b s)"

fun chunk_pieces :: "string \<Rightarrow> nat \<Rightarrow> nat \<Rightarrow> doc_chunk list \<Rightarrow> chunk_piece list" where
  "chunk_pieces t lastEnd index [] = (if lastEnd < length t then [EndPiece (drop lastEnd t)] else [])"
| "chunk_pieces t lastEnd index (MediaChunk i # cs) = chunk_pieces t lastEnd (index + 1) cs"
| "chunk_pieces t lastEnd index (TextChunk i x a b # cs) =
     (if a > lastEnd then [GapPiece (slice_between lastEnd a t)] else [])
     @ [MarkedPiece (index mod 8) (slice_between a b t)] @ chunk_pieces t b (index + 1) cs"

fun chunk_piece_text :: "chunk_piece \<Rightarrow> string" where
  "chunk_piece_text (GapPiece t) = t"
| "chunk_piece_text (MarkedPiece i t) = t"
| "chunk_piece_text (EndPiece t) = t"

definition text_fields :: "string list" where
  "text_fields = [''text'', ''content'', ''body'', ''description'', ''summary'', ''title'', ''name'']"

definition extractDocumentText :: "(jsval \<Rightarrow> string) \<Rightarrow> jsval \<Rightarrow> string" where
  "extractDocumentText stringify source =
     (let parts = filter (\<lambda>s. s \<noteq> []) (map (\<lambda>f. case fld source f of JStr s \<Rightarrow> s | _ \<Rightarrow> []) text_fields)
      in if parts = [] then stringify source else join [newline, newline] parts)"

definition document_preview :: "string \<Rightarrow> string" where
  "document_preview t = take 120 t @ (if length t > 120 then ''...'' else [])"

definition document_query :: "string option \<Rightarrow> string \<Rightarrow> jsval" where
  "document_query selectedIndex q =
     (case selectedIndex of
        Some i \<Rightarrow> if i \<noteq> [] then JObj [(''semantic_search'', JStr q), (''indexes'', JArr [JStr i]), (''limit'', JNum 5)]
          else JObj [(''full_text_search'', JObj [(''query'', JStr q)]), (''limit'', JNum 5)]
      | None \<Rightarrow> JObj [(''full_text_search'', JObj [(''query'', JStr q)]), (''limit'', JNum 5)])"

section \<open>Questions\<close>

text \<open>
  The first place where a text occurs for a regular expression with the flag \<open>i\<close>, which compares
  characters by their upper case where that is one character: sharp s has none, and the upper cases
  of y with diaeresis and of the micro sign are not among the 256 characters of the model, nor the upper case
  of another of them, so that the three stand for themselves.
\<close>

definition regex_canon :: "char \<Rightarrow> char" where
  "regex_canon c = (let n = (of_char c :: nat) in
     if 97 \<le> n \<and> n \<le> 122 \<or> 224 \<le> n \<and> n \<le> 254 \<and> n \<noteq> 247 then char_of (n - 32) else c)"

definition occurs_at :: "string \<Rightarrow> string \<Rightarrow> nat \<Rightarrow> bool" where
  "occurs_at needle s i \<longleftrightarrow> i + length needle \<le> length s \<and> map regex_canon (take (length needle) (drop i s)) = map regex_canon needle"

definition find_ci :: "string \<Rightarrow> string \<Rightarrow> nat option" where
  "find_ci needle s = find (occurs_at needle s) [0..<length s + 1]"

definition formatInput :: "string \<Rightarrow> string \<Rightarrow> string" where
  "formatInput ctx ans = ''generate question: '' @
     (case find_ci ans ctx of
        None \<Rightarrow> ctx
      | Some i \<Rightarrow> take i ctx @ ''<hl> '' @ take (length ans) (drop i ctx) @ '' <hl>'' @ drop (i + length ans) ctx)"

text \<open>\<open>context.split(regex)\<close> with the match as a part of its own; the searched text is not empty.\<close>

function split_ci :: "string \<Rightarrow> string \<Rightarrow> string list" where
  "split_ci needle s =
     (if needle = [] then [s]
      else case find_ci needle s of
        None \<Rightarrow> [s]
      | Some i \<Rightarrow> take i s # take (length needle) (drop i s) # split_ci needle (drop (i + length needle) s))"
  by auto
termination
proof (relation "measure (\<lambda>(needle, s). length s)")
  fix needle s :: string and i
  assume "needle \<noteq> []" "find_ci needle s = Some i"
  then have "i + length needle \<le> length s" "0 < length needle"
    by (auto simp: find_ci_def find_Some_iff occurs_at_def)
  then have "length s - (i + length needle) < length s" by linarith
  then show "((needle, drop (i + length needle) s), (needle, s)) \<in> measure (\<lambda>(needle, s). length s)" by simp
qed simp

declare split_ci.simps [simp del]

datatype context_part = MarkedPart string | PlainPart string

fun part_text :: "context_part \<Rightarrow> string" where
  "part_text (MarkedPart s) = s"
| "part_text (PlainPart s) = s"

definition highlight_part :: "string \<Rightarrow> string \<Rightarrow> context_part" where
  "highlight_part ans p = (if to_lower p = to_lower ans then MarkedPart p else PlainPart p)"

definition renderHighlightedContext :: "string \<Rightarrow> string \<Rightarrow> context_part list" where
  "renderHighlightedContext ctx ans =
     (if trim ans = [] then [PlainPart ctx] else map (highlight_part ans) (split_ci ans ctx))"

text \<open>The keys the parts are rendered under: the offset of each.\<close>

fun part_keys :: "nat \<Rightarrow> context_part list \<Rightarrow> string list" where
  "part_keys offset [] = []"
| "part_keys offset (p # ps) = (''part-'' @ show_nat offset) # part_keys (offset + length (part_text p)) ps"

definition generate_problem :: "string \<Rightarrow> string \<Rightarrow> string \<Rightarrow> string option" where
  "generate_problem ctx ans selectedModel =
     (if trim ctx = [] then Some ''Please enter a context passage''
      else if trim ans = [] then Some ''Please enter an answer to generate a question for''
      else if selectedModel = [] then Some ''Please select a model''
      else if \<not> str_includes (to_lower ctx) (to_lower ans) then Some ''The answer should appear in the context passage''
      else None)"

definition generate_request :: "string \<Rightarrow> string \<Rightarrow> string \<Rightarrow> jsval" where
  "generate_request ctx ans selectedModel =
     JObj [(''model'', JStr selectedModel), (''inputs'', JArr [JStr (formatInput ctx ans)])]"

text \<open>The models that are offered, and which is selected.\<close>

definition keep_reader_model :: "string list \<Rightarrow> string \<Rightarrow> string" where
  "keep_reader_model names selected =
     (if selected \<noteq> [] \<and> selected \<in> set names then selected else case names of [] \<Rightarrow> [] | n # _ \<Rightarrow> n)"

record set_dialog =
  sd_open :: bool
  sd_question :: string
  sd_selected :: string
  sd_newName :: string
  sd_success :: bool

definition openAddToEvalSetDialog :: "eval_sets \<Rightarrow> string \<Rightarrow> set_dialog \<Rightarrow> set_dialog" where
  "openAddToEvalSetDialog seen question d =
     (let names = getEvalSetNames seen;
          d = d\<lparr>sd_question := question, sd_open := True, sd_success := False\<rparr>
      in if names \<noteq> [] \<and> sd_selected d = [] then d\<lparr>sd_selected := hd names\<rparr> else d)"

text \<open>The button beside the new name.\<close>

definition create_named_set :: "eval_sets \<Rightarrow> string \<Rightarrow> set_dialog \<Rightarrow> set_dialog \<times> update list" where
  "create_named_set seen now d =
     (case createEvalSet seen now (trim (sd_newName d)) of
        (Some s, Some u) \<Rightarrow> (d\<lparr>sd_selected := es_name s, sd_newName := []\<rparr>, [u])
      | _ \<Rightarrow> (d, []))"

text \<open>\<open>handleAddToEvalSet\<close>, with the updates it hands on; every operation sees the sets of the render.\<close>

definition handleAddToEvalSet :: "eval_sets \<Rightarrow> string \<Rightarrow> string \<Rightarrow> string \<Rightarrow> set_dialog \<Rightarrow> set_dialog \<times> update list" where
  "handleAddToEvalSet seen newId now answer d =
     (let add = (\<lambda>target d us.
            if target = [] then (d, us)
            else (d\<lparr>sd_success := True, sd_newName := []\<rparr>,
                  us @ (case snd (addItem seen newId now target (sd_question d) answer) of None \<Rightarrow> [] | Some u \<Rightarrow> [u])))
      in if trim (sd_newName d) \<noteq> [] then
           (case createEvalSet seen now (trim (sd_newName d)) of
              (Some s, Some u) \<Rightarrow> add (es_name s) (d\<lparr>sd_selected := es_name s\<rparr>) [u]
            | _ \<Rightarrow> (d, []))
         else add (sd_selected d) d [])"

fun apply_updates :: "update list \<Rightarrow> eval_sets \<Rightarrow> eval_sets res" where
  "apply_updates [] sets = Inr sets"
| "apply_updates (u # us) sets = (case u sets of Inl e \<Rightarrow> Inl e | Inr sets' \<Rightarrow> apply_updates us sets')"

section \<open>Images\<close>

record uploaded_image =
  im_id :: string
  im_name :: string
  im_dataUri :: string
  im_width :: rat
  im_height :: rat

record reader_page =
  rp_images :: "uploaded_image list"
  rp_selected :: nat
  rp_prompt :: string
  rp_maxTokens :: string
  rp_model :: string
  rp_results :: "jsval list option"
  rp_tab :: string
  rp_error :: "string option"

definition auto_prompts :: "string list" where
  "auto_prompts = [[], ''<s_cord-v2>'', ''<OCR>'']"

definition prompt_effect :: "reader_page \<Rightarrow> reader_page" where
  "prompt_effect p =
     (if rp_model p = [] \<or> rp_prompt p \<notin> set auto_prompts then p
      else let lower = to_lower (rp_model p)
        in p\<lparr>rp_prompt := (if str_includes lower ''donut'' then ''<s_cord-v2>''
             else if str_includes lower ''florence'' then ''<OCR>'' else [])\<rparr>)"

definition image_files :: "(string \<times> 'f) list \<Rightarrow> (string \<times> 'f) list" where
  "image_files fs = filter (\<lambda>f. starts_with (fst f) ''image/'') fs"

definition add_image :: "uploaded_image \<Rightarrow> reader_page \<Rightarrow> reader_page" where
  "add_image i p = p\<lparr>rp_images := rp_images p @ [i]\<rparr>"

fun index_of :: "('a \<Rightarrow> bool) \<Rightarrow> 'a list \<Rightarrow> int" where
  "index_of P [] = - 1"
| "index_of P (x # xs) = (if P x then 0 else let i = index_of P xs in if i < 0 then - 1 else i + 1)"

definition removeImage :: "string \<Rightarrow> reader_page \<Rightarrow> reader_page" where
  "removeImage i p =
     (let idx = index_of (\<lambda>m. im_id m = i) (rp_images p);
          filtered = filter (\<lambda>m. im_id m \<noteq> i) (rp_images p);
          p1 = p\<lparr>rp_images := filtered\<rparr>
      in if rp_selected p \<ge> length filtered then p1\<lparr>rp_selected := length filtered - 1\<rparr>
         else if idx < int (rp_selected p) then p1\<lparr>rp_selected := rp_selected p - 1\<rparr>
         else p1)"

definition select_image :: "nat \<Rightarrow> reader_page \<Rightarrow> reader_page" where
  "select_image k p = (if k < length (rp_images p) then p\<lparr>rp_selected := k\<rparr> else p)"

text \<open>A whole number at the beginning of a text, as \<open>parseInt\<close> reads it: a parameter.\<close>

definition read_request :: "(string \<Rightarrow> int option) \<Rightarrow> reader_page \<Rightarrow> string + jsval" where
  "read_request parseInt p =
     (if rp_images p = [] then Inl ''Please upload at least one image''
      else if rp_model p = [] then Inl ''Please select a model''
      else Inr (JObj ([(''model'', JStr (rp_model p)), (''images'', JArr (map (\<lambda>m. JObj [(''url'', JStr (im_dataUri m))]) (rp_images p)))]
        @ (if trim (rp_prompt p) \<noteq> [] then [(''prompt'', JStr (trim (rp_prompt p)))] else [])
        @ (case parseInt (rp_maxTokens p) of
             Some n \<Rightarrow> if rp_maxTokens p \<noteq> [] \<and> n > 0 then [(''max_tokens'', JNum (of_int n))] else []
           | None \<Rightarrow> []))))"

definition read_answered :: "jsval list \<Rightarrow> reader_page \<Rightarrow> reader_page" where
  "read_answered results p = p\<lparr>rp_results := Some results, rp_selected := 0, rp_tab := ''text''\<rparr>"

definition currentResult :: "reader_page \<Rightarrow> jsval option" where
  "currentResult p = (case rp_results p of None \<Rightarrow> None
     | Some rs \<Rightarrow> if rp_selected p < length rs then Some (rs ! rp_selected p) else None)"

definition outputTabs :: "jsval option \<Rightarrow> string list" where
  "outputTabs r = [''text'']
     @ (case r of Some v \<Rightarrow> (case fld v ''fields'' of JObj kvs \<Rightarrow> if kvs \<noteq> [] then [''fields''] else [] | _ \<Rightarrow> []) | None \<Rightarrow> [])
     @ (case r of Some v \<Rightarrow> (case fld v ''regions'' of JArr rs \<Rightarrow> if rs \<noteq> [] then [''regions''] else [] | _ \<Rightarrow> []) | None \<Rightarrow> [])
     @ [''json'']"

definition tab_effect :: "reader_page \<Rightarrow> reader_page" where
  "tab_effect p = (if rp_tab p \<in> set (outputTabs (currentResult p)) then p else p\<lparr>rp_tab := ''text''\<rparr>)"

text \<open>The box of a region as percentages of the image: left, top, width and height.\<close>

definition region_box :: "uploaded_image \<Rightarrow> rat list \<Rightarrow> (rat \<times> rat \<times> rat \<times> rat) option" where
  "region_box m bbox =
     (case bbox of x # y # w # h # _ \<Rightarrow> Some (x / im_width m * 100, y / im_height m * 100, w / im_width m * 100, h / im_height m * 100)
      | _ \<Rightarrow> None)"

datatype reader_event = AddImage uploaded_image | RemoveImage string | SelectImage nat | ReadAnswered "jsval list" | SampleImage uploaded_image | ResetReader

fun reader_step :: "reader_event \<Rightarrow> reader_page \<Rightarrow> reader_page" where
  "reader_step (AddImage i) p = add_image i p"
| "reader_step (RemoveImage i) p = removeImage i p"
| "reader_step (SelectImage k) p = select_image k p"
| "reader_step (ReadAnswered rs) p = read_answered rs p"
| "reader_step (SampleImage i) p = p\<lparr>rp_images := [i], rp_selected := 0, rp_results := None, rp_error := None\<rparr>"
| "reader_step ResetReader p = p\<lparr>rp_images := [], rp_prompt := [], rp_maxTokens := [], rp_results := None, rp_error := None, rp_selected := 0\<rparr>"

section \<open>Properties of chunking\<close>

text \<open>Chunks in the order of the text, each within it and after the one before.\<close>

fun chunks_ok :: "string \<Rightarrow> nat \<Rightarrow> doc_chunk list \<Rightarrow> bool" where
  "chunks_ok t i [] \<longleftrightarrow> True"
| "chunks_ok t i (MediaChunk _ # cs) \<longleftrightarrow> chunks_ok t i cs"
| "chunks_ok t i (TextChunk _ x a b # cs) \<longleftrightarrow> i \<le> a \<and> a \<le> b \<and> b \<le> length t \<and> chunks_ok t b cs"

lemma slice_then_rest: "a \<le> b \<Longrightarrow> slice_between a b t @ drop b t = drop a t"
  unfolding slice_between_def by (metis append_take_drop_id drop_append drop_drop drop_take le_add_diff_inverse2 take_drop)

lemma chunk_pieces_rest: "chunks_ok t i cs \<Longrightarrow> concat (map chunk_piece_text (chunk_pieces t i n cs)) = drop i t"
proof (induction cs arbitrary: i n)
  case (Cons c cs)
  show ?case
  proof (cases c)
    case (TextChunk ci x a b)
    have "(if a > i then slice_between i a t else []) @ drop a t = drop i t"
      using Cons.prems TextChunk slice_then_rest [of i a t] by auto
    moreover have "slice_between a b t @ drop b t = drop a t"
      using Cons.prems TextChunk by (intro slice_then_rest) simp
    ultimately show ?thesis
      using Cons.IH [of b "n + 1"] Cons.prems TextChunk by (auto simp del: append_assoc simp flip: append_assoc)
  qed (use Cons in simp)
qed simp

text \<open>The highlighted text of the chunking pages: when the text chunks follow one another within the text, the
  pieces - chunks, gaps between them and the end - are the text itself, in order, and every text chunk is
  one marked piece, the slice its positions name.\<close>

theorem chunk_highlight_keeps_text:
  assumes "chunks_ok t 0 cs"
  shows "concat (map chunk_piece_text (chunk_pieces t 0 0 cs)) = t
    \<and> map chunk_piece_text (filter (\<lambda>p. case p of MarkedPiece k s \<Rightarrow> True | _ \<Rightarrow> False) (chunk_pieces t 0 0 cs))
        = concat (map (\<lambda>c. case c of TextChunk i x a b \<Rightarrow> [slice_between a b t] | MediaChunk i \<Rightarrow> []) cs)"
proof -
  have "map chunk_piece_text (filter (\<lambda>p. case p of MarkedPiece k s \<Rightarrow> True | _ \<Rightarrow> False) (chunk_pieces t i n cs))
        = concat (map (\<lambda>c. case c of TextChunk i x a b \<Rightarrow> [slice_between a b t] | MediaChunk i \<Rightarrow> []) cs)" for i n
    by (induction t i n cs rule: chunk_pieces.induct) simp_all
  then show ?thesis using chunk_pieces_rest [OF assms, of 0] by simp
qed

theorem chunk_highlight_keeps_text_witness:
  "concat (map chunk_piece_text (chunk_pieces ''ab cd'' 0 0 [TextChunk ''1'' ''ab'' 0 2, TextChunk ''2'' ''cd'' 3 5])) = ''ab cd''"
  using chunk_highlight_keeps_text [of "''ab cd''" "[TextChunk ''1'' ''ab'' 0 2, TextChunk ''2'' ''cd'' 3 5]"] by simp

text \<open>Chunks that overlap, as the default of fifty tokens makes them, show the shared text twice.\<close>

theorem overlapping_chunks_repeat:
  "concat (map chunk_piece_text (chunk_pieces ''abcd'' 0 0 [TextChunk ''1'' ''abc'' 0 3, TextChunk ''2'' ''bcd'' 1 4])) = ''abcbcd''"
  by code_simp

text \<open>The default separator is two line breaks, and is none of the items offered; choosing the item of
  the paragraph sends a backslash before each line break.\<close>

theorem separator_items_escaped_twice:
  "actualSeparator (cc_separator default_chunk_config) = [newline, newline]
   \<and> cc_separator default_chunk_config \<notin> set separator_items
   \<and> actualSeparator (separator_items ! 0) = [backslash, newline, backslash, newline]"
  by code_simp

lemma actualSeparator_plain: "backslash \<notin> set s \<Longrightarrow> actualSeparator s = s"
proof -
  have "replace_escape l c s = s" if "backslash \<notin> set s" for l c s
    using that by (induction l c s rule: replace_escape.induct) auto
  then show "backslash \<notin> set s \<Longrightarrow> actualSeparator s = s" by (simp add: actualSeparator_def)
qed

lemma estimateTokens_bounds: "length t \<le> 4 * estimateTokens t \<and> 4 * estimateTokens t < length t + 4"
  unfolding estimateTokens_def by linarith

section \<open>Properties of the question page\<close>

lemma find_ci_Some:
  assumes "find_ci needle s = Some i"
  shows "occurs_at needle s i \<and> (\<forall>j < i. \<not> occurs_at needle s j)"
  using assms by (auto simp: find_ci_def find_Some_iff nth_append split: if_splits)

text \<open>The check of the page compares lower cases; on these characters the two agree.\<close>

lemma code_of_canon: "of_char (regex_canon c) =
    (let n = (of_char c :: nat) in if 97 \<le> n \<and> n \<le> 122 \<or> 224 \<le> n \<and> n \<le> 254 \<and> n \<noteq> 247 then n - 32 else n)"
  by (auto simp: regex_canon_def Let_def)

lemma code_of_lower: "of_char (lower_char c) =
    (let n = (of_char c :: nat) in if 65 \<le> n \<and> n \<le> 90 \<or> 192 \<le> n \<and> n \<le> 222 \<and> n \<noteq> 215 then n + 32 else n)"
  by (auto simp: lower_char_def Let_def)

lemma lower_canon: "lower_char (regex_canon c) = lower_char c"
proof -
  have "(of_char (lower_char (regex_canon c)) :: nat) = of_char (lower_char c)"
    unfolding code_of_lower [of "regex_canon c"] code_of_lower [of c] code_of_canon Let_def by (auto split: if_splits)
  then show ?thesis by simp
qed

lemma canon_lower: "regex_canon (lower_char c) = regex_canon c"
proof -
  have "(of_char (regex_canon (lower_char c)) :: nat) = of_char (regex_canon c)"
    unfolding code_of_canon [of "lower_char c"] code_of_canon [of c] code_of_lower Let_def by (auto split: if_splits)
  then show ?thesis by simp
qed

lemma canon_iff_lower: "regex_canon c = regex_canon d \<longleftrightarrow> lower_char c = lower_char d"
  by (metis lower_canon canon_lower)

lemma same_text: "map regex_canon s = map regex_canon t \<longleftrightarrow> to_lower s = to_lower t"
  unfolding to_lower_def list.map_comp [symmetric] list_eq_iff_nth_eq
  by (auto simp: canon_iff_lower)

lemma occurs_at_lower:
  "occurs_at needle s i \<longleftrightarrow> i + length needle \<le> length s \<and> to_lower (take (length needle) (drop i s)) = to_lower needle"
  by (simp only: occurs_at_def same_text)

lemma find_ci_None: "find_ci needle s = None \<longleftrightarrow> \<not> str_includes (to_lower s) (to_lower needle)"
proof -
  have "str_includes (to_lower s) (to_lower needle) \<longleftrightarrow> (\<exists>i \<le> length s. occurs_at needle s i)"
  proof
    assume "str_includes (to_lower s) (to_lower needle)"
    then obtain zs where zs: "suffix zs (to_lower s)" "prefix (to_lower needle) zs"
      by (auto simp: str_includes_def list_ex_iff in_set_suffixes)
    then obtain us vs where s: "to_lower s = us @ to_lower needle @ vs" by (auto simp: suffix_def prefix_def)
    have len: "length s = length us + length needle + length vs"
      using arg_cong [OF s, of length] by (simp add: to_lower_def)
    have "to_lower (take (length needle) (drop (length us) s)) = take (length needle) (drop (length us) (to_lower s))"
      by (simp add: to_lower_def take_map drop_map)
    also have "\<dots> = to_lower needle" unfolding s by (simp add: to_lower_def)
    finally show "\<exists>i \<le> length s. occurs_at needle s i"
      using len by (intro exI [of _ "length us"]) (simp add: occurs_at_lower)
  next
    assume "\<exists>i \<le> length s. occurs_at needle s i"
    then obtain i where i: "i + length needle \<le> length s" "to_lower (take (length needle) (drop i s)) = to_lower needle"
      by (auto simp: occurs_at_lower)
    have "prefix (to_lower (take (length needle) (drop i s))) (to_lower (drop i s))"
      by (simp add: to_lower_def take_is_prefix flip: take_map)
    moreover have "suffix (to_lower (drop i s)) (to_lower s)"
      by (simp add: to_lower_def suffix_drop flip: drop_map)
    ultimately show "str_includes (to_lower s) (to_lower needle)"
      unfolding i(2) by (auto simp: str_includes_def list_ex_iff in_set_suffixes)
  qed
  moreover have "find_ci needle s = None \<longleftrightarrow> \<not> (\<exists>i \<le> length s. occurs_at needle s i)"
    by (auto simp: find_ci_def find_None_iff le_eq_less_or_eq)
  ultimately show ?thesis by simp
qed

text \<open>C38. The input of the question model: the passage is sent with its first occurrence of the answer, as the
  regular expression compares letters, between two marks and in the passage's own letters, and otherwise
  unchanged; with no occurrence it is sent unmarked. When the page accepts the request, there is one: the check,
  which compares lower cases, and the regular expression agree. This is so for texts of the 256 characters
  of the model (Latin letters with and without accents); on others the two disagree, so that for capital
  sharp s against sharp s, or the Kelvin sign against k, the request is accepted and nothing is marked.\<close>

theorem question_input_marks_answer:
  "(case find_ci ans ctx of
      None \<Rightarrow> (\<forall>i. \<not> occurs_at ans ctx i) \<and> formatInput ctx ans = ''generate question: '' @ ctx
    | Some i \<Rightarrow> \<exists>found. ctx = take i ctx @ found @ drop (i + length ans) ctx
        \<and> map regex_canon found = map regex_canon ans
        \<and> formatInput ctx ans = ''generate question: '' @ take i ctx @ ''<hl> '' @ found @ '' <hl>'' @ drop (i + length ans) ctx
        \<and> (\<forall>j < i. \<not> occurs_at ans ctx j))
   \<and> (generate_problem ctx ans m = None \<longrightarrow> find_ci ans ctx \<noteq> None)"
proof (cases "find_ci ans ctx")
  case None
  then have "\<not> occurs_at ans ctx i" for i
    by (auto simp: find_ci_def find_None_iff occurs_at_def)
  moreover have "generate_problem ctx ans m \<noteq> None"
    using None unfolding find_ci_None by (simp add: generate_problem_def)
  ultimately show ?thesis
    using None by (simp add: formatInput_def)
next
  case (Some i)
  have "ctx = take i ctx @ take (length ans) (drop i ctx) @ drop (i + length ans) ctx"
    by (metis add.commute append_take_drop_id drop_drop)
  then show ?thesis
    using find_ci_Some [OF Some] Some
    by (auto simp: formatInput_def occurs_at_def intro!: exI [of _ "take (length ans) (drop i ctx)"])
qed

theorem question_input_marks_answer_witness:
  "find_ci ''raft'' ''The Raft log'' \<noteq> None"
proof -
  have "generate_problem ''The Raft log'' ''raft'' ''m'' = None" by code_simp
  then show ?thesis by (rule question_input_marks_answer [THEN conjunct2, THEN mp])
qed

lemma split_ci_text: "concat (split_ci needle s) = s"
proof (induction needle s rule: split_ci.induct)
  case (1 needle s)
  show ?case
  proof (cases "needle = [] \<or> find_ci needle s = None")
    case False
    then obtain i where i: "needle \<noteq> []" "find_ci needle s = Some i" by auto
    have "take i s @ take (length needle) (drop i s) @ drop (i + length needle) s = s"
      by (metis add.commute append_take_drop_id drop_drop)
    then show ?thesis using i 1 by (simp add: split_ci.simps [of needle s])
  qed (auto simp: split_ci.simps [of needle s])
qed

text \<open>The passage as it is shown: the parts are the passage, in order, and exactly the parts that are the
  answer, whatever their case, are marked.\<close>

theorem context_highlight_keeps_text:
  "concat (map part_text (renderHighlightedContext ctx ans)) = ctx
   \<and> (\<forall>p \<in> set (renderHighlightedContext ctx ans). trim ans \<noteq> [] \<longrightarrow>
        (case p of MarkedPart x \<Rightarrow> to_lower x = to_lower ans | PlainPart x \<Rightarrow> to_lower x \<noteq> to_lower ans))"
proof -
  have "part_text (highlight_part ans p) = p" for p by (simp add: highlight_part_def)
  then have "map part_text (map (highlight_part ans) ps) = ps" for ps by (simp add: comp_def)
  then show ?thesis
    by (auto simp: renderHighlightedContext_def split_ci_text highlight_part_def simp del: map_map)
qed

theorem context_highlight_keeps_text_witness:
  "concat (map part_text (renderHighlightedContext ''a raft Raft'' ''raft'')) = ''a raft Raft''"
  using context_highlight_keeps_text [of "''a raft Raft''" "''raft''"] by blast

text \<open>A passage that begins with the answer has two parts under the same key.\<close>

lemma duplicate_part_keys:
  "part_keys 0 (renderHighlightedContext ''Raft log'' ''raft'') = [''part-0'', ''part-0'', ''part-4'']"
  by code_simp

text \<open>Adding a question to an evaluation set that is made in the same step: the page reports success,
  and the new set stays empty, because the item is added to the sets of the render, which do not have
  the new set yet.\<close>

theorem new_set_item_lost:
  assumes "trim (sd_newName d) \<noteq> []" "evalSet seen (trim (sd_newName d)) = None"
  shows "let (d', us) = handleAddToEvalSet seen newId now answer d in
    sd_success d' \<and> sd_selected d' = trim (sd_newName d)
    \<and> (\<exists>sets. apply_updates us seen = Inr sets \<and> map_option es_items (evalSet sets (trim (sd_newName d))) = Some [])"
proof -
  show ?thesis
    using assms
    by (simp add: handleAddToEvalSet_def createEvalSet_def addItem_def put_set_def evalSet_def obj_put_def update_conv' Let_def)
qed

text \<open>Adding to a set that exists: exactly the question and the answer, trimmed, go to the end of that set, and
  no other set changes.\<close>

theorem existing_set_item_added:
  assumes "trim (sd_newName d) = []" "evalSet seen (sd_selected d) = Some s" "sd_selected d \<noteq> []"
  shows "let (d', us) = handleAddToEvalSet seen newId now answer d in
    sd_success d' \<and> (\<exists>sets. apply_updates us seen = Inr sets
      \<and> map_option es_items (evalSet sets (sd_selected d)) = Some (es_items s @
           [\<lparr>ei_id = JStr newId, ei_question = trim (sd_question d), ei_answer = trim answer, ei_addedAt = JStr now\<rparr>])
      \<and> (\<forall>n. n \<noteq> sd_selected d \<longrightarrow> evalSet sets n = evalSet seen n))"
  using assms
  by (simp add: handleAddToEvalSet_def addItem_def change_items_def evalSet_def obj_put_def update_conv' Let_def)

definition demo_dialog :: "string \<Rightarrow> string \<Rightarrow> set_dialog" where
  "demo_dialog sel new = \<lparr>sd_open = True, sd_question = ''q'', sd_selected = sel, sd_newName = new, sd_success = False\<rparr>"

theorem new_set_item_lost_witness:
  "sd_success (fst (handleAddToEvalSet [] ''1'' ''now'' ''a'' (demo_dialog [] ''mine'')))"
proof -
  have "trim ''mine'' \<noteq> []" by code_simp
  then show ?thesis
    using new_set_item_lost [of "demo_dialog [] ''mine''" "[]" "''1''" "''now''" "''a''"]
    by (simp add: demo_dialog_def evalSet_def Let_def split: prod.splits)
qed

theorem existing_set_item_added_witness:
  "sd_success (fst (handleAddToEvalSet [(''s'', \<lparr>es_name = ''s'', es_createdAt = JNull, es_items = []\<rparr>)] ''1'' ''now'' ''a'' (demo_dialog ''s'' [])))"
proof -
  have "trim [] = []" by code_simp
  then show ?thesis
    using existing_set_item_added [of "demo_dialog ''s'' []" "[(''s'', \<lparr>es_name = ''s'', es_createdAt = JNull, es_items = []\<rparr>)]"
        _ "''1''" "''now''" "''a''"]
    by (simp add: demo_dialog_def evalSet_def Let_def split: prod.splits)
qed

section \<open>Properties of the image page\<close>

definition selection_ok :: "reader_page \<Rightarrow> bool" where
  "selection_ok p \<longleftrightarrow> rp_selected p < length (rp_images p) \<or> rp_images p = [] \<and> rp_selected p = 0"

lemma reader_step_selection: "selection_ok p \<Longrightarrow> selection_ok (reader_step e p)"
proof (cases e)
  case (RemoveImage i)
  assume ok: "selection_ok p"
  show ?thesis
    using ok by (cases "filter (\<lambda>m. im_id m \<noteq> i) (rp_images p)")
      (auto simp: RemoveImage removeImage_def selection_ok_def Let_def)
qed (auto simp: selection_ok_def add_image_def select_image_def read_answered_def)

lemma index_of_distinct:
  assumes "distinct (map f xs)" "k < length xs"
  shows "index_of (\<lambda>x. f x = f (xs ! k)) xs = int k"
  using assms
proof (induction xs arbitrary: k)
  case (Cons x xs)
  then show ?case
    by (cases k) (auto simp: Let_def)
qed simp

lemma index_of_none: "y \<notin> f ` set xs \<Longrightarrow> index_of (\<lambda>x. f x = y) xs = - 1"
  by (induction xs) auto

lemma filter_one:
  assumes "distinct (map f xs)" "k < length xs"
  shows "filter (\<lambda>x. f x \<noteq> f (xs ! k)) xs = take k xs @ drop (Suc k) xs"
proof -
  have xs: "xs = take k xs @ xs ! k # drop (Suc k) xs" by (rule id_take_nth_drop [OF assms(2)])
  have "f ` set (take k xs) \<inter> {f (xs ! k)} = {}" "f (xs ! k) \<notin> f ` set (drop (Suc k) xs)"
    using assms(1) by (subst (asm) xs, auto)+
  then have "filter (\<lambda>x. f x \<noteq> f (xs ! k)) (take k xs) = take k xs" "filter (\<lambda>x. f x \<noteq> f (xs ! k)) (drop (Suc k) xs) = drop (Suc k) xs"
    by (auto simp: filter_id_conv image_iff)
  then show ?thesis by (subst xs) simp
qed

text \<open>The selected image: whatever is added, removed, selected, read, loaded or reset, the selection is one of the
  images (or the first place when there is none); and removing an image that is not the selected one
  keeps the same image selected.\<close>

theorem image_selection_kept:
  assumes "p = fold reader_step evs p0" "rp_images p0 = []" "rp_selected p0 = 0"
  shows "(rp_selected p < length (rp_images p) \<or> rp_images p = [] \<and> rp_selected p = 0)
    \<and> (distinct (map im_id (rp_images p)) \<longrightarrow> k < length (rp_images p) \<longrightarrow> k \<noteq> rp_selected p \<longrightarrow>
        (let q = removeImage (im_id (rp_images p ! k)) p
         in rp_selected q < length (rp_images q) \<and> rp_images q ! rp_selected q = rp_images p ! rp_selected p))"
proof -
  have run: "selection_ok (fold reader_step evs r)" if "selection_ok r" for r
    using that by (induction evs arbitrary: r) (simp_all add: reader_step_selection)
  have ok: "selection_ok p" unfolding assms(1) by (rule run) (simp add: selection_ok_def assms)
  have "let q = removeImage (im_id (rp_images p ! k)) p
         in rp_selected q < length (rp_images q) \<and> rp_images q ! rp_selected q = rp_images p ! rp_selected p"
    if d: "distinct (map im_id (rp_images p))" and k: "k < length (rp_images p)" "k \<noteq> rp_selected p"
  proof -
    have sel: "rp_selected p < length (rp_images p)" using ok k by (auto simp: selection_ok_def)
    have fil: "filter (\<lambda>m. im_id m \<noteq> im_id (rp_images p ! k)) (rp_images p) = take k (rp_images p) @ drop (Suc k) (rp_images p)"
      by (rule filter_one [OF d k(1)])
    have idx: "index_of (\<lambda>m. im_id m = im_id (rp_images p ! k)) (rp_images p) = int k"
      by (rule index_of_distinct [OF d k(1)])
    have len: "length (take k (rp_images p) @ drop (Suc k) (rp_images p)) = length (rp_images p) - 1" using k by simp
    show ?thesis
    proof (cases "k < rp_selected p")
      case True
      have last: "Suc (length (rp_images p) - 2) = rp_selected p" if "length (rp_images p) - Suc 0 \<le> rp_selected p"
        using that sel True by linarith
      from True show ?thesis
        using sel k unfolding removeImage_def fil idx Let_def len
        by (auto simp: nth_append min_def last)
    next
      case False
      then show ?thesis
        using sel k unfolding removeImage_def fil idx Let_def len
        by (auto simp: nth_append min_def)
    qed
  qed
  then show ?thesis using ok by (auto simp: selection_ok_def)
qed

definition demo_image :: "string \<Rightarrow> uploaded_image" where
  "demo_image n = \<lparr>im_id = n, im_name = n, im_dataUri = n, im_width = 10, im_height = 10\<rparr>"

definition demo_reader :: reader_page where
  "demo_reader = \<lparr>rp_images = [], rp_selected = 0, rp_prompt = [], rp_maxTokens = [], rp_model = ''m'', rp_results = None,
     rp_tab = ''text'', rp_error = None\<rparr>"

theorem image_selection_kept_witness:
  "rp_images (removeImage ''a'' (fold reader_step [AddImage (demo_image ''a''), AddImage (demo_image ''b''), SelectImage 1] demo_reader))
     ! rp_selected (removeImage ''a'' (fold reader_step [AddImage (demo_image ''a''), AddImage (demo_image ''b''), SelectImage 1] demo_reader))
   = demo_image ''b''"
  using image_selection_kept [OF refl, of demo_reader "[AddImage (demo_image ''a''), AddImage (demo_image ''b''), SelectImage 1]" 0]
  by (simp add: demo_reader_def demo_image_def add_image_def select_image_def Let_def)

text \<open>The results are not removed with their images: after the first of two images has gone, the one that
  is left is shown with the result of the other.\<close>

theorem result_of_removed_image_shown:
  "let p = fold reader_step [AddImage (demo_image ''a''), AddImage (demo_image ''b''), ReadAnswered [JStr ''ra'', JStr ''rb''], RemoveImage ''a''] demo_reader
   in map im_id (rp_images p) = [''b''] \<and> currentResult p = Some (JStr ''ra'')"
  by code_simp

lemma tab_effect_valid: "rp_tab (tab_effect p) \<in> set (outputTabs (currentResult (tab_effect p)))"
  by (auto simp: tab_effect_def outputTabs_def currentResult_def)

lemma prompt_effect_stable: "prompt_effect (prompt_effect p) = prompt_effect p"
  by (auto simp: prompt_effect_def auto_prompts_def Let_def)

end
