(* ===== verification/MemoryViews.thy ===== *)
theory MemoryViews
  imports QueryUtils ServerStatus SchemaDetect "HOL-Library.Multiset"
begin

text \<open>
  The memory dashboard, part one (pkg/memoryaf/dashboard/app.js): cleaning and normalizing what the
  service answers (lines 757-826), query strings, escaping, and the markup that the page writes for
  lists, cards, bars and the detail of a memory. \<open>parse\<close> is \<open>JSON.parse\<close>. The ellipsis character,
  which lies above the code units of the model's strings, is written by its place in code page 1252.
  Scores and counts, which the service computes, are not negative.
\<close>

section \<open>Cleaning and normalizing\<close>

abbreviation ellipsis :: char where
  "ellipsis \<equiv> CHR 0x85"

fun clean :: "jsval \<Rightarrow> string" where
  "clean (JStr s) = trim s"
| "clean _ = []"

definition nonempty_trimmed :: "string list \<Rightarrow> string list" where
  "nonempty_trimmed ws = filter (\<lambda>w. w \<noteq> []) (map trim ws)"

definition splitCommaField :: "string \<Rightarrow> string list" where
  "splitCommaField s = nonempty_trimmed (split_on (CHR '','') s)"

definition splitLines :: "string \<Rightarrow> string list" where
  "splitLines s = nonempty_trimmed (split_on newline s)"

definition ensureArray :: "(string \<Rightarrow> jsval option) \<Rightarrow> jsval \<Rightarrow> jsval list" where
  "ensureArray parse v =
     (case v of
        JArr vs \<Rightarrow> filter truthy vs
      | JStr s \<Rightarrow>
          (if trim s = [] then []
           else if starts_with (trim s) ''[''
                then (case parse s of Some (JArr vs) \<Rightarrow> filter truthy vs | _ \<Rightarrow> [])
           else map JStr (splitCommaField s))
      | _ \<Rightarrow> [])"

text \<open>The fields that an object literal gets when a value is spread into it.\<close>

fun spread_fields :: "jsval \<Rightarrow> (string \<times> jsval) list" where
  "spread_fields (JObj kvs) = kvs"
| "spread_fields (JArr vs) = map (\<lambda>i. (show_nat i, vs ! i)) [0..<length vs]"
| "spread_fields (JStr s) = map (\<lambda>i. (show_nat i, JStr [s ! i])) [0..<length s]"
| "spread_fields _ = []"

definition arr_or_empty :: "jsval \<Rightarrow> jsval" where
  "arr_or_empty v = (if is_array v then v else JArr [])"

text \<open>Reading a property of null or undefined throws.\<close>

definition normalizeMemory :: "(string \<Rightarrow> jsval option) \<Rightarrow> jsval \<Rightarrow> jsval res" where
  "normalizeMemory parse memory =
     (if nullish memory then throw_type_error
      else Inr (JObj (obj_assign (spread_fields memory)
        [(''tags'', JArr (ensureArray parse (fld memory ''tags''))),
         (''entities'', arr_or_empty (fld memory ''entities'')),
         (''steps'', JArr (ensureArray parse (fld memory ''steps''))),
         (''section_path'', JArr (ensureArray parse (fld memory ''section_path''))),
         (''ephemeral'', JBool (truthy (fld memory ''ephemeral'')))])))"

fun map_all_res :: "('a \<Rightarrow> 'b res) \<Rightarrow> 'a list \<Rightarrow> 'b list res" where
  "map_all_res f [] = Inr []"
| "map_all_res f (x # xs) =
     (case f x of Inl e \<Rightarrow> Inl e
      | Inr y \<Rightarrow> (case map_all_res f xs of Inl e \<Rightarrow> Inl e | Inr ys \<Rightarrow> Inr (y # ys)))"

fun elems :: "jsval \<Rightarrow> jsval list" where
  "elems (JArr vs) = vs"
| "elems _ = []"

definition normalizeMemories :: "(string \<Rightarrow> jsval option) \<Rightarrow> jsval \<Rightarrow> jsval list res" where
  "normalizeMemories parse items = map_all_res (normalizeMemory parse) (elems items)"

text \<open>A search result: its memory, and its other fields.\<close>

definition normalizeResult :: "(string \<Rightarrow> jsval option) \<Rightarrow> jsval \<Rightarrow> jsval res" where
  "normalizeResult parse item =
     (if nullish item then throw_type_error
      else (case normalizeMemory parse (js_or (fld item ''memory'') (JObj [])) of
              Inl e \<Rightarrow> Inl e
            | Inr m \<Rightarrow> Inr (JObj (obj_put ''memory'' m (spread_fields item)))))"

definition normalizeSearchResults :: "(string \<Rightarrow> jsval option) \<Rightarrow> jsval \<Rightarrow> jsval list res" where
  "normalizeSearchResults parse items = map_all_res (normalizeResult parse) (elems items)"

definition summarize_text :: "jsval \<Rightarrow> nat \<Rightarrow> string" where
  "summarize_text v n = (let s = clean v in if length s > n then take (n - 1) s @ [ellipsis] else s)"

definition titleForMemory :: "jsval \<Rightarrow> string" where
  "titleForMemory memory = summarize_text (js_or (fld memory ''content'') (JStr ''Untitled memory'')) 88"

definition matchEntity :: "jsval \<Rightarrow> jsval \<Rightarrow> bool" where
  "matchEntity l r \<longleftrightarrow> truthy l \<and> truthy r \<and> fld l ''label'' = fld r ''label'' \<and> fld l ''text'' = fld r ''text''"

section \<open>Query strings\<close>

text \<open>The bytes of a character's UTF-8 form, and the serializers of the platform.\<close>

definition utf8 :: "char \<Rightarrow> nat list" where
  "utf8 c = (let n = of_char c :: nat in if n < 128 then [n] else [192 + n div 64, 128 + n mod 64])"

definition hex_digit :: "nat \<Rightarrow> char" where
  "hex_digit d = ''0123456789ABCDEF'' ! d"

definition percent_byte :: "nat \<Rightarrow> string" where
  "percent_byte b = [CHR ''%'', hex_digit (b div 16), hex_digit (b mod 16)]"

definition is_alnum :: "char \<Rightarrow> bool" where
  "is_alnum c \<longleftrightarrow> is_letter c \<or> is_digit c"

definition encodeURIComponent :: "string \<Rightarrow> string" where
  "encodeURIComponent s =
     concat (map (\<lambda>c. if is_alnum c \<or> c \<in> set ''-_.!~*()'' \<or> c = CHR 0x27 then [c]
                      else concat (map percent_byte (utf8 c))) s)"

definition form_char :: "char \<Rightarrow> string" where
  "form_char c =
     (if c = CHR '' '' then ''+''
      else if is_alnum c \<or> c \<in> set ''*-._'' then [c]
      else concat (map percent_byte (utf8 c)))"

definition form_encode :: "string \<Rightarrow> string" where
  "form_encode s = concat (map form_char s)"

definition sent_param :: "jsval \<Rightarrow> bool" where
  "sent_param v \<longleftrightarrow> v \<noteq> JUndef \<and> v \<noteq> JNull \<and> v \<noteq> JStr [] \<and> v \<noteq> JBool False"

definition toQueryString :: "(string \<times> jsval) list \<Rightarrow> string" where
  "toQueryString params =
     (let out = join ''&'' (map (\<lambda>(k, v). form_encode k @ ''='' @ form_encode (to_str v))
                              (filter (\<lambda>(k, v). sent_param v) params))
      in if out = [] then [] else CHR ''?'' # out)"

section \<open>Escaping\<close>

definition replaceAll :: "char \<Rightarrow> string \<Rightarrow> string \<Rightarrow> string" where
  "replaceAll c r s = concat (map (\<lambda>x. if x = c then r else [x]) s)"

abbreviation quote1 :: char where "quote1 \<equiv> CHR 0x27"
abbreviation quote2 :: char where "quote2 \<equiv> CHR 0x22"

definition escapeHTML :: "jsval \<Rightarrow> string" where
  "escapeHTML v =
     replaceAll quote1 ''&#39;''
       (replaceAll quote2 ''&quot;''
         (replaceAll (CHR ''>'') ''&gt;''
           (replaceAll (CHR ''<'') ''&lt;''
             (replaceAll (CHR ''&'') ''&amp;'' (to_str v)))))"

definition escapeAttribute :: "jsval \<Rightarrow> string" where
  "escapeAttribute v = replaceAll (CHR 0x60) ''&#96;'' (escapeHTML v)"

section \<open>Markup\<close>

abbreviation esc :: "string \<Rightarrow> string" where
  "esc s \<equiv> escapeHTML (JStr s)"

abbreviation nl :: "nat \<Rightarrow> string" where
  "nl n \<equiv> newline # replicate n (CHR '' '')"

definition middle_dot :: string where
  "middle_dot = [CHR '' '', CHR 0xB7, CHR '' '']"

definition emptyState :: "string \<Rightarrow> string" where
  "emptyState message = ''<div class=\"empty-state\">'' @ esc message @ ''</div>''"

definition renderPills :: "jsval list \<Rightarrow> string" where
  "renderPills values = concat (map (\<lambda>v. ''<span class=\"pill\">'' @ escapeHTML v @ ''</span>'') values)"

definition detailCell :: "string \<Rightarrow> string \<Rightarrow> string" where
  "detailCell label v = ''<div><span>'' @ label @ ''</span><div>'' @ v @ ''</div></div>''"

definition serverRow :: "string \<Rightarrow> jsval \<Rightarrow> string" where
  "serverRow label v =
     ''<div class=\"server-row\"><span>'' @ esc label @ ''</span><strong>'' @ escapeHTML v @ ''</strong></div>''"

definition serverInfo_html :: "jsval \<Rightarrow> jsval \<Rightarrow> string" where
  "serverInfo_html info health =
     serverRow ''Name'' (fld info ''name'') @ serverRow ''Version'' (fld info ''version'')
     @ serverRow ''Description'' (fld info ''description'') @ serverRow ''Health'' (fld health ''status'')
     @ serverRow ''Antfly'' (JStr (if truthy (fld health ''antfly'') then ''reachable by configuration'' else ''unavailable''))
     @ serverRow ''Extractor'' (JStr (if truthy (fld health ''termite'') then ''configured'' else ''disabled''))"

text \<open>A number with two decimals; an absent score is not a number.\<close>

definition fixed2 :: "jsval \<Rightarrow> string" where
  "fixed2 v = (case v of JNum r \<Rightarrow> toFixed 2 r | _ \<Rightarrow> ''NaN'')"

definition project_of :: "jsval \<Rightarrow> jsval" where
  "project_of memory = js_or (fld memory ''project'') (JStr ''No project'')"

definition ephemeral_mark :: "jsval \<Rightarrow> string" where
  "ephemeral_mark memory = (if truthy (fld memory ''ephemeral'') then middle_dot @ ''ephemeral'' else [])"

definition memory_card :: "jsval option \<Rightarrow> jsval \<Rightarrow> string" where
  "memory_card selected item =
     (let memory = fld item ''memory''; score = fld item ''score'';
          active = (case selected of None \<Rightarrow> [] | Some s \<Rightarrow> if fld s ''id'' = fld memory ''id'' then '' active'' else [])
      in nl 10 @ ''<article class=\"item-card'' @ active @ ''\" data-memory-id=\"'' @ escapeHTML (fld memory ''id'') @ ''\">''
       @ nl 12 @ ''<p class=\"item-title\">'' @ esc (titleForMemory memory) @ ''</p>''
       @ nl 12 @ ''<p class=\"item-meta\">'' @ escapeHTML (project_of memory) @ middle_dot @ escapeHTML (fld memory ''memory_type'')
           @ middle_dot @ escapeHTML (fld memory ''visibility'') @ ephemeral_mark memory
           @ (if nullish score then [] else middle_dot @ ''score '' @ fixed2 score) @ ''</p>''
       @ nl 12 @ ''<div class=\"pill-row\">''
       @ nl 14 @ renderPills (elems (js_or (fld memory ''tags'') (JArr [])))
       @ nl 14 @ (if truthy (fld memory ''source_backend'')
                  then ''<span class=\"pill\">'' @ escapeHTML (fld memory ''source_backend'') @ ''</span>'' else [])
       @ nl 12 @ ''</div>'' @ nl 10 @ ''</article>'' @ nl 8)"

definition memoryList_html :: "jsval option \<Rightarrow> jsval list \<Rightarrow> string" where
  "memoryList_html selected results =
     (if results = [] then emptyState ''No memories matched the current filters.''
      else concat (map (memory_card selected) results))"

definition recent_html :: "jsval list \<Rightarrow> string" where
  "recent_html memories =
     (if memories = [] then emptyState ''No memories found.''
      else concat (map (\<lambda>memory.
        nl 8 @ ''<div class=\"item-card\">''
        @ nl 10 @ ''<p class=\"item-title\">'' @ esc (titleForMemory memory) @ ''</p>''
        @ nl 10 @ ''<p class=\"item-meta\">'' @ escapeHTML (project_of memory) @ middle_dot @ escapeHTML (fld memory ''memory_type'') @ ''</p>''
        @ nl 8 @ ''</div>'' @ nl 6) (take 6 memories)))"

definition session_html :: "jsval \<Rightarrow> string" where
  "session_html s =
     nl 8 @ ''<article class=\"item-card\">''
     @ nl 10 @ ''<p class=\"item-title\">'' @ escapeHTML (fld s ''session_id'') @ ''</p>''
     @ nl 10 @ ''<p class=\"item-meta\">'' @ (case js_or (fld s ''memory_count'') (JNum 0) of JNum r \<Rightarrow> show_rat r | _ \<Rightarrow> ''NaN'') @ '' memories</p>''
     @ nl 10 @ ''<div class=\"inline-actions\">''
     @ nl 12 @ ''<button class=\"button button-danger end-session-button\" data-session-id=\"''
         @ escapeAttribute (fld s ''session_id'') @ ''\" type=\"button\">End Session</button>''
     @ nl 10 @ ''</div>'' @ nl 8 @ ''</article>'' @ nl 6"

definition sessions_html :: "jsval list \<Rightarrow> string" where
  "sessions_html ss =
     (if ss = [] then emptyState ''No active ephemeral sessions.'' else concat (map session_html ss))"

definition entity_card :: "jsval \<Rightarrow> jsval \<Rightarrow> string" where
  "entity_card selected entity =
     (let active = (if truthy selected \<and> matchEntity entity selected then '' active'' else [])
      in nl 10 @ ''<article class=\"item-card'' @ active @ ''\" data-entity-label=\"'' @ escapeHTML (fld entity ''label'')
           @ ''\" data-entity-text=\"'' @ escapeHTML (fld entity ''text'') @ ''\">''
       @ nl 12 @ ''<p class=\"item-title\">'' @ escapeHTML (fld entity ''text'') @ ''</p>''
       @ nl 12 @ ''<p class=\"item-meta\">'' @ escapeHTML (fld entity ''label'') @ middle_dot @ ''mentions ''
           @ (case js_or (fld entity ''mention_count'') (JNum 0) of JNum r \<Rightarrow> show_rat r | _ \<Rightarrow> ''NaN'') @ ''</p>''
       @ nl 10 @ ''</article>'' @ nl 8)"

definition entityList_html :: "jsval \<Rightarrow> jsval list \<Rightarrow> string" where
  "entityList_html selected entities =
     (if entities = [] then emptyState ''No entities found for this filter.''
      else concat (map (entity_card selected) entities))"

text \<open>The counts of the overview, as bars: the label, the count and the width in percent.\<close>

record count_bar =
  cb_label :: string
  cb_value :: rat
  cb_width :: rat

definition bar_entries :: "(string \<times> rat) list \<Rightarrow> (string \<times> rat) list" where
  "bar_entries counts = take 7 (sort_key (\<lambda>e. - snd e) counts)"

definition count_bars :: "(string \<times> rat) list \<Rightarrow> count_bar list" where
  "count_bars counts =
     (let entries = bar_entries counts; mx = foldr max (map snd entries) 1
      in map (\<lambda>(l, v). \<lparr>cb_label = esc (if l = [] then ''unassigned'' else l), cb_value = v,
                          cb_width = max 8 (v / mx * 100)\<rparr>) entries)"

section \<open>The detail of a memory\<close>

definition text_or :: "jsval \<Rightarrow> string \<Rightarrow> string \<Rightarrow> string" where
  "text_or m k d = escapeHTML (js_or (fld m k) (JStr d))"

definition mono_or :: "jsval \<Rightarrow> string \<Rightarrow> string" where
  "mono_or m k = ''<span class=\"mono\">'' @ text_or m k ''n/a'' @ ''</span>''"

definition section_path_of :: "jsval \<Rightarrow> string" where
  "section_path_of m = join '' > '' (map to_str (elems (js_or (fld m ''section_path'') (JArr []))))"

definition link_html :: "jsval \<Rightarrow> string" where
  "link_html m =
     (if truthy (fld m ''source_url'')
      then ''<a href=\"'' @ escapeAttribute (fld m ''source_url'') @ ''\" target=\"_blank\" rel=\"noreferrer\">''
           @ escapeHTML (fld m ''source_url'') @ ''</a>''
      else ''n/a'')"

definition has_reference :: "jsval \<Rightarrow> bool" where
  "has_reference m \<longleftrightarrow> truthy (fld m ''source_backend'') \<or> truthy (fld m ''source_id'')
     \<or> truthy (fld m ''source_path'') \<or> truthy (fld m ''source_url'')"

definition reference_html :: "jsval \<Rightarrow> string" where
  "reference_html m =
     nl 10 @ ''<div>''
     @ nl 12 @ ''<p class=\"eyebrow\">External Source Reference</p>''
     @ nl 12 @ ''<div class=\"detail-grid\">''
     @ nl 14 @ detailCell ''Backend'' (text_or m ''source_backend'' ''n/a'')
     @ nl 14 @ detailCell ''Source ID'' (mono_or m ''source_id'')
     @ nl 14 @ detailCell ''Source Path'' (mono_or m ''source_path'')
     @ nl 14 @ detailCell ''Source Version'' (mono_or m ''source_version'')
     @ nl 14 @ detailCell ''Section Path'' (esc (if section_path_of m = [] then ''n/a'' else section_path_of m))
     @ nl 14 @ detailCell ''Source URL'' (link_html m)
     @ nl 12 @ ''</div>'' @ nl 10 @ ''</div>'' @ nl 8"

definition entity_pills :: "jsval list \<Rightarrow> string" where
  "entity_pills es =
     concat (map (\<lambda>e. ''<span class=\"pill\">'' @ escapeHTML (fld e ''label'') @ middle_dot @ escapeHTML (fld e ''text'') @ ''</span>'') es)"

definition pill_block :: "string \<Rightarrow> string \<Rightarrow> string" where
  "pill_block title pills =
     ''<div><p class=\"eyebrow\">'' @ title @ ''</p><div class=\"pill-row\">'' @ pills @ ''</div></div>''"

definition renderMemoryDetail :: "jsval \<Rightarrow> string \<Rightarrow> string \<Rightarrow> string" where
  "renderMemoryDetail m relatedHTML siblingHTML =
     nl 6 @ ''<div class=\"detail-block\">''
     @ nl 8 @ ''<div>''
     @ nl 10 @ ''<p class=\"item-title\">'' @ esc (titleForMemory m) @ ''</p>''
     @ nl 10 @ ''<p class=\"item-meta\">'' @ escapeHTML (project_of m) @ middle_dot @ escapeHTML (fld m ''memory_type'')
         @ middle_dot @ escapeHTML (fld m ''visibility'') @ ephemeral_mark m @ ''</p>''
     @ nl 8 @ ''</div>'' @ [newline]
     @ nl 8 @ ''<div class=\"detail-grid\">''
     @ nl 10 @ detailCell ''ID'' (''<span class=\"mono\">'' @ escapeHTML (fld m ''id'') @ ''</span>'')
     @ nl 10 @ detailCell ''Created By'' (text_or m ''created_by'' ''unknown'')
     @ nl 10 @ detailCell ''Created At'' (text_or m ''created_at'' ''n/a'')
     @ nl 10 @ detailCell ''Updated At'' (text_or m ''updated_at'' ''n/a'')
     @ nl 10 @ detailCell ''Session'' (text_or m ''session_id'' ''n/a'')
     @ nl 10 @ detailCell ''Agent'' (text_or m ''agent_id'' ''n/a'')
     @ nl 10 @ detailCell ''Device'' (text_or m ''device_id'' ''n/a'')
     @ nl 10 @ detailCell ''Source'' (text_or m ''source'' ''n/a'')
     @ nl 8 @ ''</div>'' @ [newline]
     @ nl 8 @ ''<div>''
     @ nl 10 @ ''<p class=\"eyebrow\">Content</p>''
     @ nl 10 @ ''<p>'' @ escapeHTML (fld m ''content'') @ ''</p>''
     @ nl 8 @ ''</div>'' @ [newline]
     @ nl 8 @ (if elems (fld m ''tags'') \<noteq> [] then pill_block ''Tags'' (renderPills (elems (fld m ''tags''))) else []) @ [newline]
     @ nl 8 @ (if elems (fld m ''entities'') \<noteq> [] then pill_block ''Entities'' (entity_pills (elems (fld m ''entities''))) else []) @ [newline]
     @ nl 8 @ (if has_reference m then reference_html m else []) @ [newline]
     @ nl 8 @ ''<div>'' @ nl 10 @ ''<p class=\"eyebrow\">Related Memories</p>'' @ nl 10 @ relatedHTML @ nl 8 @ ''</div>'' @ [newline]
     @ nl 8 @ ''<div>'' @ nl 10 @ ''<p class=\"eyebrow\">Sibling Sections</p>'' @ nl 10 @ siblingHTML @ nl 8 @ ''</div>''
     @ nl 6 @ ''</div>'' @ nl 4"

definition related_html :: "jsval list \<Rightarrow> string" where
  "related_html items =
     (if items = [] then ''<p class=\"subtle\">No related memories found.</p>''
      else ''<div class=\"stack-list\">''
        @ concat (map (\<lambda>item. ''<div class=\"item-card\"><p class=\"item-title\">'' @ esc (titleForMemory (fld item ''memory''))
            @ ''</p><p class=\"item-meta\">'' @ escapeHTML (project_of (fld item ''memory'')) @ middle_dot @ ''score ''
            @ fixed2 (fld item ''score'') @ ''</p></div>'') items) @ ''</div>'')"

definition sibling_html :: "jsval list \<Rightarrow> string" where
  "sibling_html ms =
     (if ms = [] then ''<p class=\"subtle\">No sibling sections found for this source document.</p>''
      else ''<div class=\"stack-list\">''
        @ concat (map (\<lambda>m. ''<div class=\"item-card\"><p class=\"item-title\">'' @ esc (titleForMemory m)
            @ ''</p><p class=\"item-meta\">''
            @ escapeHTML (js_or (js_or (JStr (section_path_of m)) (fld m ''source_path'')) (JStr ''No section path''))
            @ ''</p></div>'') ms) @ ''</div>'')"

definition linked_html :: "jsval list \<Rightarrow> string" where
  "linked_html items =
     (if items = [] then emptyState ''No memories linked to this entity.''
      else nl 8 @ ''<div class=\"stack-list\">'' @ nl 10
        @ concat (map (\<lambda>item. nl 14 @ ''<div class=\"item-card\">''
            @ nl 16 @ ''<p class=\"item-title\">'' @ esc (titleForMemory (fld item ''memory'')) @ ''</p>''
            @ nl 16 @ ''<p class=\"item-meta\">'' @ escapeHTML (project_of (fld item ''memory'')) @ middle_dot @ ''score ''
                @ fixed2 (fld item ''score'') @ ''</p>''
            @ nl 14 @ ''</div>'' @ nl 12) items)
        @ nl 8 @ ''</div>'' @ nl 6)"

section \<open>Escaped text\<close>

definition markup_chars :: "char set" where
  "markup_chars = {CHR ''<'', CHR ''>'', quote2, quote1}"

lemma replaceAll_append [simp]: "replaceAll c r (s @ t) = replaceAll c r s @ replaceAll c r t"
  by (simp add: replaceAll_def)

lemma replaceAll_Nil [simp]: "replaceAll c r [] = []"
  by (simp add: replaceAll_def)

lemma replaceAll_Cons: "replaceAll c r (x # s) = (if x = c then r else [x]) @ replaceAll c r s"
  by (simp add: replaceAll_def)

definition escape_char :: "char \<Rightarrow> string" where
  "escape_char c =
     (if c = CHR ''&'' then ''&amp;'' else if c = CHR ''<'' then ''&lt;'' else if c = CHR ''>'' then ''&gt;''
      else if c = quote2 then ''&quot;'' else if c = quote1 then ''&#39;'' else [c])"

lemma escapeHTML_chars: "escapeHTML v = concat (map escape_char (to_str v))"
proof -
  have "replaceAll quote1 ''&#39;'' (replaceAll quote2 ''&quot;'' (replaceAll (CHR ''>'') ''&gt;''
          (replaceAll (CHR ''<'') ''&lt;'' (replaceAll (CHR ''&'') ''&amp;'' s)))) = concat (map escape_char s)" for s
    by (induction s) (simp_all add: escape_char_def replaceAll_Cons)
  then show ?thesis by (simp add: escapeHTML_def)
qed

lemma escape_char_safe: "set (escape_char c) \<inter> markup_chars = {}"
  by (auto simp: escape_char_def markup_chars_def)

lemma escapeHTML_safe: "set (escapeHTML v) \<inter> markup_chars = {}"
  using escape_char_safe by (force simp: escapeHTML_chars)

lemma set_replaceAll: "set (replaceAll c r s) \<subseteq> (set s - {c}) \<union> set r"
  by (auto simp: replaceAll_def split: if_splits)

lemma replaceAll_free:
  assumes "set r \<inter> insert c A = {}" "set s \<inter> A = {}"
  shows "set (replaceAll c r s) \<inter> insert c A = {}"
  using assms set_replaceAll [of c r s] by blast

lemma escapeAttribute_safe: "set (escapeAttribute v) \<inter> insert (CHR 0x60) markup_chars = {}"
  unfolding escapeAttribute_def
  by (rule replaceAll_free [OF _ escapeHTML_safe]) (simp add: markup_chars_def)

text \<open>What a browser reads back from the text of an element or attribute.\<close>

definition char_refs :: "(string \<times> char) list" where
  "char_refs = [(''&amp;'', CHR ''&''), (''&lt;'', CHR ''<''), (''&gt;'', CHR ''>''), (''&quot;'', quote2), (''&#39;'', quote1)]"

function unescape :: "string \<Rightarrow> string" where
  "unescape [] = []"
| "unescape (c # s) =
     (case find (\<lambda>p. prefix (fst p) (c # s)) char_refs of
        None \<Rightarrow> c # unescape s
      | Some p \<Rightarrow> snd p # unescape (drop (length (fst p) - 1) s))"
  by pat_completeness auto
termination by (relation "measure length") auto

declare unescape.simps [simp del]

lemma unescape_plain: "c \<noteq> CHR ''&'' \<Longrightarrow> unescape (c # s) = c # unescape s"
  by (simp add: unescape.simps char_refs_def)

lemma unescape_refs:
  "unescape (''&amp;'' @ s) = CHR ''&'' # unescape s" "unescape (''&lt;'' @ s) = CHR ''<'' # unescape s"
  "unescape (''&gt;'' @ s) = CHR ''>'' # unescape s" "unescape (''&quot;'' @ s) = quote2 # unescape s"
  "unescape (''&#39;'' @ s) = quote1 # unescape s"
  by (simp_all add: unescape.simps(2) char_refs_def)

lemma unescape_Nil [simp]: "unescape [] = []"
  by (simp add: unescape.simps)

lemmas unescape_evals = unescape_refs [simplified append.simps] unescape_plain

lemma unescape_char: "unescape (escape_char c @ s) = c # unescape s"
  unfolding escape_char_def by (simp only: unescape_evals append.simps split: if_split) (simp add: unescape_plain)

lemma unescape_concat: "unescape (concat (map escape_char s)) = s"
  by (induction s) (simp_all add: unescape_char)

text \<open>What the page writes for a value, in an element or in a quoted attribute, has none of the
  characters that open or close markup, and a browser reads the text of the value back from it.\<close>

theorem escaped_text_read_back:
  "set (escapeHTML v) \<inter> markup_chars = {} \<and> unescape (escapeHTML v) = to_str v"
  by (simp only: escapeHTML_safe) (simp add: escapeHTML_chars unescape_concat)

text \<open>The markup characters of a text, and the ones of the literal parts of the cards.\<close>

definition markup :: "string \<Rightarrow> string" where
  "markup s = filter (\<lambda>c. c \<in> markup_chars) s"

lemma markup_append [simp]: "markup (s @ t) = markup s @ markup t"
  by (simp add: markup_def)

lemma markup_Nil [simp]: "markup [] = []"
  by (simp add: markup_def)

lemma markup_Cons: "markup (c # s) = (if c \<in> markup_chars then [c] else []) @ markup s"
  by (simp add: markup_def)

lemmas markup_evals = markup_Cons markup_chars_def

lemma markup_escaped [simp]: "markup (escapeHTML v) = []"
  using escapeHTML_safe [of v] by (auto simp: markup_def filter_empty_conv)

lemma markup_attribute [simp]: "markup (escapeAttribute v) = []"
  using escapeAttribute_safe [of v] by (auto simp: markup_def filter_empty_conv)

lemma markup_concat: "markup (concat ws) = concat (map markup ws)"
  by (induction ws) simp_all

lemma markup_if: "markup (if b then s else t) = (if b then markup s else markup t)"
  by simp

lemma show_nat_digits: "c \<in> set (show_nat n) \<Longrightarrow> is_digit c"
proof (induction n rule: show_nat.induct)
  case (1 n)
  have digit: "is_digit (char_of (48 + d))" if "d < 10" for d :: nat
    using that by (simp add: is_digit_def)
  show ?case
    using 1 digit [of n] digit [of "n mod 10"] by (auto simp: show_nat.simps [of n] split: if_splits)
qed

lemma markup_digits [simp]: "markup (show_nat n) = []"
proof -
  have "c \<notin> markup_chars" if "is_digit c" for c
    using that by (auto simp: markup_chars_def is_digit_def)
  then show ?thesis
    using show_nat_digits by (force simp: markup_def filter_empty_conv)
qed

lemma markup_pad [simp]: "markup (pad_left d s) = markup s"
  by (simp add: pad_left_def markup_def markup_chars_def)

lemma markup_fixed2 [simp]: "markup (fixed2 v) = []"
  by (simp add: fixed2_def toFixed_def Let_def markup_evals split: jsval.split)

lemma markup_dot [simp]: "markup middle_dot = []"
  by (simp add: middle_dot_def markup_def markup_chars_def)

lemma markup_mark [simp]: "markup (ephemeral_mark m) = []"
  by (simp add: ephemeral_mark_def markup_evals)

lemma markup_replicate [simp]: "c \<notin> markup_chars \<Longrightarrow> markup (replicate n c) = []"
  by (simp add: markup_def)

lemma markup_pill: "markup (''<span class=\"pill\">'' @ escapeHTML v @ ''</span>'') = markup ''<span class=\"pill\"></span>''"
  by (simp add: markup_evals)

lemma markup_pills: "markup (renderPills vs) = concat (replicate (length vs) (markup ''<span class=\"pill\"></span>''))"
  unfolding renderPills_def markup_concat map_map o_def markup_pill by (simp add: map_replicate_const)

text \<open>The shape of a card: how many tags it has, and whether it names a backend.\<close>

definition card_shape :: "jsval \<Rightarrow> nat \<times> bool" where
  "card_shape item =
     (length (elems (js_or (fld (fld item ''memory'') ''tags'') (JArr []))), truthy (fld (fld item ''memory'') ''source_backend''))"

definition card_markup :: "nat \<times> bool \<Rightarrow> string" where
  "card_markup = (\<lambda>(n, b).
     markup ''<article class=\"\" data-memory-id=\"\"><p class=\"\"></p><p class=\"\"></p><div class=\"\">''
     @ concat (replicate n (markup ''<span class=\"pill\"></span>''))
     @ (if b then markup ''<span class=\"pill\"></span>'' else []) @ markup ''</div></article>'')"

lemma markup_card: "markup (memory_card selected item) = card_markup (card_shape item)"
proof -
  have active: "markup (case selected of None \<Rightarrow> [] | Some s \<Rightarrow> if fld s ''id'' = k then '' active'' else []) = []" for k
    by (simp add: markup_evals split: option.split)
  have score: "markup (if b then [] else middle_dot @ ''score '' @ fixed2 v) = []" for b v
    by (simp add: markup_evals)
  show ?thesis
    unfolding memory_card_def Let_def card_shape_def card_markup_def split_beta fst_conv snd_conv markup_append active score
      markup_pills markup_escaped markup_dot markup_mark markup_if markup_pill
    by (simp add: markup_evals)
qed

text \<open>C13. The text of memories cannot change the structure of the list: two lists whose memories have
  the same numbers of tags and the same presence of a backend have the same markup, whatever their
  identifiers, contents, projects, types, visibilities, tags and scores are.\<close>

theorem list_markup_fixed:
  assumes "map card_shape rs = map card_shape rs'"
  shows "markup (memoryList_html s rs) = markup (memoryList_html s' rs')"
proof -
  have cards: "map markup (map (memory_card s) rs) = map card_markup (map card_shape rs)" for s rs
    by (simp add: markup_card o_def)
  have "map markup (map (memory_card s) rs) = map markup (map (memory_card s') rs')"
    unfolding cards assms ..
  moreover have "rs = [] \<longleftrightarrow> rs' = []"
    using assms by (metis map_is_Nil_conv)
  ultimately show ?thesis
    by (simp add: memoryList_html_def markup_concat)
qed

theorem list_markup_fixed_witness:
  "markup (memoryList_html None [JObj [(''memory'', JObj [(''id'', JStr ''<script>''), (''content'', JStr ''\"><b>'')])]])
   = markup (memoryList_html None [JObj [(''memory'', JObj [(''id'', JStr ''m1''), (''content'', JStr ''plain'')])]])"
  by (rule list_markup_fixed) (simp add: card_shape_def)

text \<open>The address of a source is escaped and not inspected: a memory whose address has the scheme
  \<open>javascript:\<close> gets a link that runs its text as a program when it is clicked.\<close>

theorem script_link_rendered:
  "link_html (JObj [(''source_url'', JStr ''javascript:alert(1)'')])
   = ''<a href=\"javascript:alert(1)\" target=\"_blank\" rel=\"noreferrer\">javascript:alert(1)</a>''"
  by (simp add: link_html_def escapeAttribute_def escapeHTML_def replaceAll_def)

section \<open>Reading a query string\<close>

text \<open>How a service reads a query string: the inverse of the two serializers.\<close>

definition unhex :: "char \<Rightarrow> nat" where
  "unhex c = (let n = of_char c in if n < 58 then n - 48 else n - 55)"

function pct_bytes :: "string \<Rightarrow> nat list" where
  "pct_bytes [] = []"
| "pct_bytes (c # s) =
     (if c = CHR ''%'' \<and> 2 \<le> length s then (16 * unhex (s ! 0) + unhex (s ! 1)) # pct_bytes (drop 2 s)
      else (if c = CHR ''+'' then 32 else of_char c) # pct_bytes s)"
  by pat_completeness auto
termination by (relation "measure length") auto

fun utf8_read :: "nat list \<Rightarrow> string" where
  "utf8_read [] = []"
| "utf8_read [b] = [char_of b]"
| "utf8_read (b # b' # bs) =
     (if b < 128 then char_of b # utf8_read (b' # bs)
      else char_of ((b - 192) * 64 + (b' - 128)) # utf8_read bs)"

definition form_decode :: "string \<Rightarrow> string" where
  "form_decode s = utf8_read (pct_bytes s)"

definition read_piece :: "string \<Rightarrow> string \<times> string" where
  "read_piece p = (form_decode (takeWhile (\<lambda>c. c \<noteq> CHR ''='') p), form_decode (drop 1 (dropWhile (\<lambda>c. c \<noteq> CHR ''='') p)))"

definition query_pairs :: "string \<Rightarrow> (string \<times> string) list" where
  "query_pairs s =
     (if s = [] then []
      else map read_piece (split_on (CHR ''&'') (drop 1 s)))"

lemma unhex_digit: "d < 16 \<Longrightarrow> unhex (hex_digit d) = d"
proof -
  have "\<forall>d \<in> set [0..<16]. unhex (hex_digit d) = d" by code_simp
  then show "d < 16 \<Longrightarrow> unhex (hex_digit d) = d" by simp
qed

declare pct_bytes.simps [simp del]

lemma pct_bytes_Nil [simp]: "pct_bytes [] = []"
  by (simp add: pct_bytes.simps)

lemma pct_bytes_byte: "b < 256 \<Longrightarrow> pct_bytes (percent_byte b @ s) = b # pct_bytes s"
  by (simp add: percent_byte_def pct_bytes.simps(2) unhex_digit numeral_2_eq_2)

lemma utf8_bytes: "\<forall>b \<in> set (utf8 c). b < 256"
proof -
  have "(of_char c :: nat) < 256" by (rule nat_of_char_less_256)
  then have "of_char c div 64 < (4 :: nat)" by (simp add: div_less_iff_less_mult)
  with \<open>of_char c < 256\<close> show ?thesis by (auto simp: utf8_def Let_def)
qed

lemma pct_bytes_bytes: "\<forall>b \<in> set bs. b < 256 \<Longrightarrow> pct_bytes (concat (map percent_byte bs) @ s) = bs @ pct_bytes s"
  by (induction bs) (simp_all add: pct_bytes_byte)

lemma plain_char:
  assumes "is_alnum c \<or> c \<in> set ''*-._''"
  shows "(of_char c :: nat) < 128" "c \<noteq> CHR ''%''" "c \<noteq> CHR ''+''" "c \<noteq> CHR ''&''" "c \<noteq> CHR ''=''"
  using assms by (auto simp: is_alnum_def is_letter_def is_digit_def Let_def)

lemma pct_bytes_char: "pct_bytes (form_char c @ s) = utf8 c @ pct_bytes s"
proof (cases "c = CHR '' ''")
  case True
  then show ?thesis by (simp add: form_char_def pct_bytes.simps(2) utf8_def)
next
  case False
  show ?thesis
  proof (cases "is_alnum c \<or> c \<in> set ''*-._''")
    case True
    then show ?thesis
      using False plain_char [OF True] unfolding form_char_def by (simp only: if_False if_True append.simps)
        (simp add: pct_bytes.simps(2) utf8_def Let_def)
  next
    case plain: False
    then show ?thesis
      using False utf8_bytes [of c] unfolding form_char_def by (simp only: if_False pct_bytes_bytes)
  qed
qed

lemma utf8_read_char: "utf8_read (utf8 c @ bs) = c # utf8_read bs"
proof -
  let ?n = "of_char c :: nat"
  have n: "?n < 256" by (rule nat_of_char_less_256)
  show ?thesis
  proof (cases "?n < 128")
    case True
    then show ?thesis by (cases bs) (simp_all add: utf8_def)
  next
    case False
    have "(?n div 64) * 64 + ?n mod 64 = ?n" by simp
    with False show ?thesis by (simp add: utf8_def Let_def del: mult_div_mod_eq div_mult_mod_eq)
  qed
qed

lemma form_decode_encode: "form_decode (form_encode s) = s"
proof -
  have "pct_bytes (form_encode s) = concat (map utf8 s)"
    by (induction s) (simp_all add: form_encode_def pct_bytes_char)
  moreover have "utf8_read (concat (map utf8 s)) = s"
    by (induction s) (simp_all add: utf8_read_char)
  ultimately show ?thesis by (simp add: form_decode_def)
qed

lemma hex_digit_plain: "d < 16 \<Longrightarrow> hex_digit d \<notin> set ''&=''"
proof -
  have "\<forall>d \<in> set [0..<16]. hex_digit d \<notin> set ''&=''" by code_simp
  then show "d < 16 \<Longrightarrow> hex_digit d \<notin> set ''&=''" by simp
qed

lemma percent_plain: "b < 256 \<Longrightarrow> set (percent_byte b) \<inter> set ''&='' = {}"
  using hex_digit_plain [of "b div 16"] hex_digit_plain [of "b mod 16"] by (auto simp: percent_byte_def)

lemma form_char_plain: "set (form_char c) \<inter> set ''&='' = {}"
proof (cases "is_alnum c \<or> c \<in> set ''*-._''")
  case True
  then show ?thesis
    using plain_char [OF True] by (auto simp: form_char_def)
next
  case False
  have "set (concat (map percent_byte bs)) \<inter> set ''&='' = {}" if "\<forall>b \<in> set bs. b < 256" for bs
    using that by (induction bs) (use percent_plain in \<open>simp_all add: Int_Un_distrib2\<close>)
  from this [OF utf8_bytes [of c]] False show ?thesis by (simp only: form_char_def if_False split: if_split) simp
qed

lemma form_encode_plain: "CHR ''&'' \<notin> set (form_encode s)" "CHR ''='' \<notin> set (form_encode s)"
  using form_char_plain by (force simp: form_encode_def)+

lemma takeWhile_sep: "x \<notin> set s \<Longrightarrow> takeWhile (\<lambda>c. c \<noteq> x) (s @ x # t) = s"
  by (induction s) auto

lemma dropWhile_sep: "x \<notin> set s \<Longrightarrow> dropWhile (\<lambda>c. c \<noteq> x) (s @ x # t) = x # t"
  by (induction s) auto

lemma read_piece_form: "read_piece (form_encode k @ CHR ''='' # form_encode v) = (k, v)"
  by (simp add: read_piece_def takeWhile_sep dropWhile_sep form_encode_plain form_decode_encode)

text \<open>C15. A service that reads the query string finds exactly the parameters that are worth sending,
  with their texts, in their order: reserved characters, blanks and characters beyond ASCII included.\<close>

theorem query_string_read:
  "query_pairs (toQueryString params) = map (\<lambda>(k, v). (k, to_str v)) (filter (\<lambda>(k, v). sent_param v) params)"
proof (cases "filter (\<lambda>(k, v). sent_param v) params = []")
  case True
  then show ?thesis by (simp add: toQueryString_def query_pairs_def)
next
  case False
  let ?ps = "filter (\<lambda>(k, v). sent_param v) params"
  let ?piece = "\<lambda>(k, v). form_encode k @ ''='' @ form_encode (to_str v)"
  have sep: "\<forall>w \<in> set (map ?piece ?ps). CHR ''&'' \<notin> set w"
    using form_encode_plain(1) by (auto split: prod.split)
  have split: "split_on (CHR ''&'') (join ''&'' (map ?piece ?ps)) = map ?piece ?ps"
    by (rule split_on_join [OF _ sep]) (use False in simp)
  obtain p ps where ps: "?ps = p # ps" using False by (cases ?ps) auto
  then have ne: "join ''&'' (map ?piece ?ps) \<noteq> []"
    by (cases p; cases ps) simp_all
  have "query_pairs (toQueryString params) = map read_piece (map ?piece ?ps)"
    using ne unfolding toQueryString_def query_pairs_def Let_def by (simp only: split list.distinct if_False One_nat_def drop_Suc_Cons drop_0)
  then show ?thesis
    by (simp add: read_piece_form split_def)
qed

text \<open>A parameter that is false is left out: a request that asks for the counts of the memories
  that are not ephemeral is the request that asks for no choice.\<close>

theorem false_not_sent: "toQueryString [(''ephemeral'', JBool False)] = toQueryString []"
  by (simp add: toQueryString_def sent_param_def)

section \<open>Normal forms, titles and bars\<close>

lemma ensureArray_strings: "ensureArray parse (JArr (ensureArray parse v)) = ensureArray parse v"
proof -
  have "\<forall>x \<in> set (map JStr (splitCommaField s)). truthy x" for s
    by (auto simp: splitCommaField_def nonempty_trimmed_def)
  then have "filter truthy (map JStr (splitCommaField s)) = map JStr (splitCommaField s)" for s
    by (simp only: filter_id_conv)
  then show ?thesis
    by (auto simp: ensureArray_def split: jsval.split option.split)
qed

definition normal_fields :: "(string \<Rightarrow> jsval option) \<Rightarrow> jsval \<Rightarrow> (string \<times> jsval) list" where
  "normal_fields parse memory =
     [(''tags'', JArr (ensureArray parse (fld memory ''tags''))), (''entities'', arr_or_empty (fld memory ''entities'')),
      (''steps'', JArr (ensureArray parse (fld memory ''steps''))),
      (''section_path'', JArr (ensureArray parse (fld memory ''section_path''))),
      (''ephemeral'', JBool (truthy (fld memory ''ephemeral'')))]"

lemma normalizeMemory_fields:
  "normalizeMemory parse memory =
     (if nullish memory then throw_type_error else Inr (JObj (obj_assign (spread_fields memory) (normal_fields parse memory))))"
  by (simp add: normalizeMemory_def normal_fields_def)

lemma obj_put_same: "map_of kvs k = Some v \<Longrightarrow> obj_put k v kvs = kvs"
  unfolding obj_put_def by (induction kvs) (auto split: if_splits)

text \<open>Normalizing makes a memory regular, whatever the service stores: tags, steps and the section
  path are arrays of non-empty values, also when they came as a text, the entities an array, the
  ephemeral mark a truth value; every other field is kept; and normalizing again changes nothing.\<close>

theorem normalize_regular:
  assumes "normalizeMemory parse m = Inr n"
  shows "(\<forall>k \<in> {''tags'', ''steps'', ''section_path''}. is_array (fld n k) \<and> (\<forall>v \<in> set (elems (fld n k)). truthy v))
    \<and> is_array (fld n ''entities'') \<and> fld n ''ephemeral'' = JBool (truthy (fld m ''ephemeral''))
    \<and> (\<forall>k. k \<notin> {''tags'', ''entities'', ''steps'', ''section_path'', ''ephemeral''} \<longrightarrow> fld n k = fld (JObj (spread_fields m)) k)
    \<and> normalizeMemory parse n = Inr n"
proof -
  have n: "n = JObj (obj_assign (spread_fields m) (normal_fields parse m))"
    using assms by (simp add: normalizeMemory_fields split: if_splits)
  have same: "normal_fields parse n = normal_fields parse m"
    unfolding n normal_fields_def by (simp add: ensureArray_strings arr_or_empty_def)
  have "obj_assign (spread_fields n) (normal_fields parse m) = spread_fields n"
    unfolding n normal_fields_def by (simp add: obj_put_same)
  then have "normalizeMemory parse n = Inr n"
    unfolding normalizeMemory_fields same by (simp add: n nullish_def)
  moreover have "\<forall>v \<in> set (ensureArray parse w). truthy v" for w
    using ensureArray_strings [of parse w] by (simp add: ensureArray_def filter_id_conv)
  ultimately show ?thesis
    by (simp add: n) (simp add: normal_fields_def arr_or_empty_def)
qed

theorem normalize_regular_witness:
  "fld (JObj [(''tags'', JArr [JStr ''a'', JStr ''b'']), (''entities'', JArr []), (''steps'', JArr []),
              (''section_path'', JArr []), (''ephemeral'', JBool False)]) ''ephemeral''
   = JBool (truthy (fld (JObj [(''tags'', JStr ''a, b'')]) ''ephemeral''))"
proof -
  have "splitCommaField ''a, b'' = [''a'', ''b'']" by code_simp
  moreover have "trim ''a, b'' = ''a, b''" by code_simp
  ultimately have "normalizeMemory parse (JObj [(''tags'', JStr ''a, b'')])
     = Inr (JObj [(''tags'', JArr [JStr ''a'', JStr ''b'']), (''entities'', JArr []), (''steps'', JArr []),
              (''section_path'', JArr []), (''ephemeral'', JBool False)])" for parse
    by (simp add: normalizeMemory_def ensureArray_def starts_with_def nullish_def obj_put_def arr_or_empty_def)
  from normalize_regular [OF this] show ?thesis by blast
qed

text \<open>A title is never longer than asked for, and a text that fits is shown whole.\<close>

theorem summary_bounded:
  "n > 0 \<Longrightarrow> length (summarize_text v n) \<le> n \<and> (length (clean v) \<le> n \<longrightarrow> summarize_text v n = clean v)
     \<and> prefix (take (n - 1) (clean v)) (summarize_text v n)"
  by (auto simp: summarize_text_def Let_def take_is_prefix)

theorem summary_bounded_witness: "length (summarize_text (JStr ''abcdef'') 4) \<le> 4"
  using summary_bounded [of 4 "JStr ''abcdef''"] by simp

lemma foldr_max: "1 \<le> foldr max (map snd es) 1 \<and> (\<forall>e \<in> set es. snd e \<le> foldr max (map snd es) (1 :: rat))"
  by (induction es) (auto simp: le_max_iff_disj)

text \<open>The bars of the overview: at most seven, the largest counts, the longest first; every bar is
  between 8 and 100 percent wide, and a count at least as large has a bar at least as wide.\<close>

theorem bars_sound:
  "length (count_bars counts) \<le> 7
    \<and> sorted_wrt (\<lambda>a b. cb_value a \<ge> cb_value b \<and> cb_width a \<ge> cb_width b) (count_bars counts)
    \<and> (\<forall>b \<in> set (count_bars counts). 8 \<le> cb_width b \<and> cb_width b \<le> 100)
    \<and> mset (bar_entries counts) \<subseteq># mset counts
    \<and> (\<forall>e \<in># mset counts - mset (bar_entries counts). \<forall>b \<in> set (count_bars counts). snd e \<le> cb_value b)"
proof -
  let ?sorted = "sort_key (\<lambda>e. - snd e) counts"
  let ?es = "bar_entries counts"
  let ?mx = "foldr max (map snd ?es) 1"
  have down: "sorted_wrt (\<lambda>a b. snd a \<ge> snd b) ?sorted"
    using sorted_sort_key [of "\<lambda>e. - snd e" counts] by (simp add: sorted_wrt_map)
  have parts: "?sorted = ?es @ drop 7 ?sorted"
    by (simp add: bar_entries_def)
  have mx: "1 \<le> ?mx \<and> (\<forall>e \<in> set ?es. snd e \<le> ?mx)"
    by (rule foldr_max)
  have bars: "count_bars counts = map (\<lambda>(l, v). \<lparr>cb_label = esc (if l = [] then ''unassigned'' else l), cb_value = v,
      cb_width = max 8 (v / ?mx * 100)\<rparr>) ?es"
    by (simp add: count_bars_def Let_def)
  have width: "v / ?mx * 100 \<le> w / ?mx * 100" if "v \<le> w" for v w
    using that mx by (simp add: divide_right_mono)
  have "sorted_wrt (\<lambda>a b. snd a \<ge> snd b) ?es"
    using down by (metis parts sorted_wrt_append)
  then have "sorted_wrt (\<lambda>a b. cb_value a \<ge> cb_value b \<and> cb_width a \<ge> cb_width b) (count_bars counts)"
    unfolding bars sorted_wrt_map
    by (rule sorted_wrt_mono_rel [rotated]) (use width in \<open>auto simp: split_beta max.coboundedI2\<close>)
  moreover have "v / ?mx * 100 \<le> 100" if "(l, v) \<in> set ?es" for l v
    using mx that by (fastforce simp: divide_le_eq)
  then have "\<forall>b \<in> set (count_bars counts). 8 \<le> cb_width b \<and> cb_width b \<le> 100"
    unfolding bars by auto
  moreover have ms: "mset counts = mset ?es + mset (drop 7 ?sorted)"
    by (metis parts mset_append mset_sort)
  moreover have "\<forall>e \<in> set (drop 7 ?sorted). \<forall>b \<in> set ?es. snd e \<le> snd b"
    using down by (metis parts sorted_wrt_append)
  then have "\<forall>e \<in># mset counts - mset ?es. \<forall>b \<in> set (count_bars counts). snd e \<le> cb_value b"
    unfolding ms bars by (simp add: split_beta)
  moreover have "length (count_bars counts) \<le> 7" by (simp add: bars bar_entries_def)
  ultimately show ?thesis by (simp add: ms)
qed

theorem bars_sound_witness: "length (count_bars [(''a'', 3), (''b'', 1)]) \<le> 7"
  using bars_sound [of "[(''a'', 3), (''b'', 1)]"] by simp

end
