(* ===== verification/MemoryDashboard.thy ===== *)
theory MemoryDashboard
  imports MemoryViews
begin

text \<open>
  The memory dashboard, part two (pkg/memoryaf/dashboard/app.js): the page's state, its requests, and
  its handlers. An asynchronous function is split at its awaits: it starts by adding a task with its
  requests to the pending ones, and the answer to a task, in any order, runs the rest. The answers of
  requests that are awaited together are one array. \<open>parse\<close> is \<open>JSON.parse\<close>, \<open>stringify\<close> its
  inverse, \<open>to_number\<close> the conversion of a numeric input, and \<open>local_parts\<close> reads a time and gives the
  year, month, day, hour and minute of the browser's zone. The times of a running page are those of
  its input fields: they hold any text.
\<close>

section \<open>Identity and requests\<close>

definition default_identity :: "(string \<times> jsval) list" where
  "default_identity =
     [(''userId'', JStr ''dashboard''), (''namespace'', JStr ''default''), (''role'', JStr ''member''),
      (''agentId'', JStr []), (''deviceId'', JStr []), (''sessionId'', JStr [])]"

text \<open>The stored text, if any; a text that does not parse is ignored.\<close>

definition loadIdentity :: "(string \<Rightarrow> jsval option) \<Rightarrow> string option \<Rightarrow> jsval" where
  "loadIdentity parse stored =
     (case parse (case stored of None \<Rightarrow> ''{}'' | Some s \<Rightarrow> if s = [] then ''{}'' else s) of
        None \<Rightarrow> JObj default_identity
      | Some v \<Rightarrow> JObj (obj_assign default_identity (spread_fields v)))"

definition id_or :: "jsval \<Rightarrow> string \<Rightarrow> string \<Rightarrow> jsval" where
  "id_or identity k d = js_or (fld identity k) (JStr d)"

definition api_headers :: "jsval \<Rightarrow> (string \<times> string) list" where
  "api_headers identity =
     [(''Content-Type'', ''application/json''),
      (''X-User-ID'', to_str (id_or identity ''userId'' ''dashboard'')),
      (''X-Namespace'', to_str (id_or identity ''namespace'' ''default'')),
      (''X-Role'', to_str (id_or identity ''role'' ''member''))]
     @ concat (map (\<lambda>(h, k). if truthy (fld identity k) then [(h, to_str (fld identity k))] else [])
         [(''X-Agent-ID'', ''agentId''), (''X-Device-ID'', ''deviceId''), (''X-Session-ID'', ''sessionId'')])"

record http_call =
  rq_method :: string
  rq_path :: string
  rq_body :: "jsval option"
  rq_headers :: "(string \<times> string) list"

definition request_to :: "jsval \<Rightarrow> string \<Rightarrow> string \<Rightarrow> jsval option \<Rightarrow> http_call" where
  "request_to identity m path body =
     \<lparr>rq_method = m, rq_path = path, rq_body = body, rq_headers = api_headers identity\<rparr>"

text \<open>What \<open>api\<close> returns or throws for a response; the body may not be JSON.\<close>

datatype api_response =
    Unreachable string
  | Response bool nat string "jsval option"

definition api_outcome :: "api_response \<Rightarrow> jsval res" where
  "api_outcome r =
     (case r of
        Unreachable msg \<Rightarrow> Inl (ErrorObj ''TypeError'' msg)
      | Response ok status statusText body \<Rightarrow>
          (if ok then (case body of Some v \<Rightarrow> Inr v | None \<Rightarrow> Inl (ErrorObj ''SyntaxError'' ''Unexpected token''))
           else (let payload = (case body of Some v \<Rightarrow> v | None \<Rightarrow> JObj [(''error'', JStr statusText)])
                 in if nullish payload then throw_type_error
                    else throw_error (to_str (js_or (fld payload ''error'') (JStr (''HTTP '' @ show_nat status)))))))"

definition err_message :: "js_exn \<Rightarrow> string" where
  "err_message e = (case e of ErrorObj _ m \<Rightarrow> m | NonError v \<Rightarrow> to_str (fld v ''message''))"

section \<open>State\<close>

record mem_filters =
  mf_query :: string
  mf_project :: string
  mf_backend :: string
  mf_type :: string
  mf_visibility :: string
  mf_ephemeral :: bool
  mf_expand :: bool

record mem_form =
  fm_content :: string
  fm_memoryType :: string
  fm_visibility :: string
  fm_project :: string
  fm_source :: string
  fm_tags :: string
  fm_ephemeral :: bool
  fm_sessionID :: string
  fm_agentID :: string
  fm_deviceID :: string
  fm_eventTime :: string
  fm_context :: string
  fm_confidence :: string
  fm_supersedes :: string
  fm_trigger :: string
  fm_steps :: string
  fm_outcome :: string
  fm_sourceBackend :: string
  fm_sourceID :: string
  fm_sourcePath :: string
  fm_sourceURL :: string
  fm_sourceVersion :: string
  fm_sectionPath :: string

datatype mem_task =
    TOverview
  | TServerInfo
  | TMemories bool
  | TDetail jsval
  | TEntities
  | TLinked jsval
  | TSessions
  | TSave bool
  | TDelete
  | TEndSession string
  | TInit string

record overview =
  ov_total :: string
  ov_namespace :: string
  ov_health :: string
  ov_extractor :: string
  ov_types :: "count_bar list"
  ov_projects :: "count_bar list"
  ov_tags :: "count_bar list"
  ov_sources :: "count_bar list"
  ov_recent :: string

record dash =
  d_identity :: jsval
  d_stored :: string
  d_results :: "jsval list"
  d_selected :: jsval
  d_related :: "jsval list"
  d_entities :: "jsval list"
  d_selEntity :: jsval
  d_sessions :: "jsval list"
  d_editing :: jsval
  d_banner :: "(string \<times> bool) option"
  d_overview :: overview
  d_server :: string
  d_listHTML :: string
  d_summary :: string
  d_detailHTML :: string
  d_actions :: bool
  d_entityHTML :: string
  d_entityHeading :: string
  d_entityDetail :: string
  d_sessionHTML :: string
  d_form :: mem_form
  d_dialogOpen :: bool
  d_sourceInputs :: bool
  d_filters :: mem_filters
  d_entityLabel :: string
  d_entityEphemeral :: bool
  d_pending :: "(mem_task \<times> http_call list) list"

definition showBanner :: "string \<Rightarrow> bool \<Rightarrow> dash \<Rightarrow> dash" where
  "showBanner message isError st = st\<lparr>d_banner := (if message = [] then None else Some (message, isError))\<rparr>"

definition await_api :: "mem_task \<Rightarrow> (string \<times> string \<times> jsval option) list \<Rightarrow> dash \<Rightarrow> dash" where
  "await_api t rs st =
     st\<lparr>d_pending := d_pending st @ [(t, map (\<lambda>(m, p, b). request_to (d_identity st) m p b) rs)]\<rparr>"

section \<open>Loading\<close>

definition loadOverview :: "dash \<Rightarrow> dash" where
  "loadOverview st =
     await_api TOverview
       [(''GET'', ''/api/v1/stats'' @ toQueryString [(''ephemeral'', JBool False)], None),
        (''GET'', ''/api/v1/memories'' @ toQueryString [(''limit'', JNum 8)], None),
        (''GET'', ''/health'', None)] st"

definition loadServerInfo :: "dash \<Rightarrow> dash" where
  "loadServerInfo st = await_api TServerInfo [(''GET'', ''/api/v1/info'', None), (''GET'', ''/health'', None)] st"

definition defined_fields :: "(string \<times> jsval) list \<Rightarrow> jsval" where
  "defined_fields kvs = JObj (filter (\<lambda>(k, v). v \<noteq> JUndef) kvs)"

definition or_undefined :: "string \<Rightarrow> jsval" where
  "or_undefined s = (if s = [] then JUndef else JStr s)"

definition memory_params :: "mem_filters \<Rightarrow> (string \<times> jsval) list" where
  "memory_params f =
     [(''project'', JStr (trim (mf_project f))), (''source_backend'', JStr (trim (mf_backend f))),
      (''memory_type'', JStr (trim (mf_type f))), (''visibility'', JStr (trim (mf_visibility f))),
      (''ephemeral'', JBool (mf_ephemeral f)), (''limit'', JNum 50)]"

definition search_body :: "mem_filters \<Rightarrow> jsval" where
  "search_body f =
     defined_fields
       [(''query'', JStr (trim (mf_query f))), (''project'', or_undefined (trim (mf_project f))),
        (''source_backend'', or_undefined (trim (mf_backend f))), (''memory_type'', or_undefined (trim (mf_type f))),
        (''visibility'', or_undefined (trim (mf_visibility f))), (''expand_graph'', JBool (mf_expand f)),
        (''ephemeral'', JBool (mf_ephemeral f)), (''limit'', JNum 50)]"

definition loadMemories :: "dash \<Rightarrow> dash" where
  "loadMemories st =
     (let f = d_filters st
      in if trim (mf_query f) \<noteq> []
         then await_api (TMemories True) [(''POST'', ''/api/v1/memories/search'', Some (search_body f))] st
         else await_api (TMemories False) [(''GET'', ''/api/v1/memories'' @ toQueryString (memory_params f), None)] st)"

definition loadEntities :: "dash \<Rightarrow> dash" where
  "loadEntities st =
     await_api TEntities
       [(''GET'', ''/api/v1/entities'' @ toQueryString
           [(''label'', JStr (trim (d_entityLabel st))), (''limit'', JNum 60), (''ephemeral'', JBool (d_entityEphemeral st))], None)] st"

definition loadSessions :: "dash \<Rightarrow> dash" where
  "loadSessions st =
     await_api TSessions
       [(''GET'', ''/api/v1/sessions'' @ toQueryString
           [(''limit'', JNum 30), (''agent_id'', js_or (fld (d_identity st) ''agentId'') JUndef)], None)] st"

definition reload :: "dash \<Rightarrow> dash" where
  "reload st = loadSessions (loadEntities (loadMemories (loadOverview st)))"

definition syncIdentityUI :: "dash \<Rightarrow> dash" where
  "syncIdentityUI st =
     st\<lparr>d_overview := (d_overview st)\<lparr>ov_namespace := to_str (id_or (d_identity st) ''namespace'' ''default'')\<rparr>\<rparr>"

definition refreshAll :: "dash \<Rightarrow> dash" where
  "refreshAll st = loadSessions (loadServerInfo (loadEntities (loadMemories (loadOverview (syncIdentityUI st)))))"

section \<open>The selected memory and entity\<close>

definition loading_related :: string where
  "loading_related = ''<p class=\"subtle\">Loading related memories'' @ [ellipsis] @ ''</p>''"

definition loading_siblings :: "jsval \<Rightarrow> string" where
  "loading_siblings memory =
     (if truthy (fld memory ''source_id'')
      then ''<p class=\"subtle\">Loading sibling sections'' @ [ellipsis] @ ''</p>''
      else ''<p class=\"subtle\">No external source reference on this memory.</p>'')"

definition detail_requests :: "jsval \<Rightarrow> (string \<times> string \<times> jsval option) list" where
  "detail_requests memory =
     (''GET'', ''/api/v1/memories/'' @ encodeURIComponent (to_str (fld memory ''id'')) @ ''/related''
         @ toQueryString [(''limit'', JNum 8), (''ephemeral'', fld memory ''ephemeral'')], None)
     # (if truthy (fld memory ''source_id'')
        then [(''GET'', ''/api/v1/memories'' @ toQueryString
                [(''source_id'', fld memory ''source_id''), (''ephemeral'', fld memory ''ephemeral''), (''limit'', JNum 25)], None)]
        else [])"

definition renderSelectedMemory :: "(string \<Rightarrow> jsval option) \<Rightarrow> dash \<Rightarrow> dash" where
  "renderSelectedMemory parse st =
     (let st1 = st\<lparr>d_actions := truthy (d_selected st)\<rparr>
      in if \<not> truthy (d_selected st)
         then st1\<lparr>d_detailHTML := ''<div class=\"detail-empty\">Select a memory to inspect its metadata, entities, and source references.</div>''\<rparr>
         else (case normalizeMemory parse (d_selected st) of
                 Inl e \<Rightarrow> st1
               | Inr memory \<Rightarrow>
                   await_api (TDetail memory) (detail_requests memory)
                     (st1\<lparr>d_detailHTML := renderMemoryDetail memory loading_related (loading_siblings memory)\<rparr>)))"

definition error_line :: "js_exn \<Rightarrow> string" where
  "error_line e = ''<p class=\"subtle\">'' @ esc (err_message e) @ ''</p>''"

text \<open>The answer: the related memories and, for a memory with a source, the other sections of it.\<close>

definition detail_answer :: "(string \<Rightarrow> jsval option) \<Rightarrow> jsval \<Rightarrow> jsval res \<Rightarrow> dash \<Rightarrow> dash" where
  "detail_answer parse memory r st =
     (let failed = (\<lambda>e s. s\<lparr>d_detailHTML := renderMemoryDetail memory (error_line e) (error_line e)\<rparr>)
      in case r of
        Inl e \<Rightarrow> failed e st
      | Inr v \<Rightarrow>
          (case normalizeSearchResults parse (elem_at v 0) of
             Inl e \<Rightarrow> failed e st
           | Inr related \<Rightarrow>
               (let st1 = st\<lparr>d_related := related\<rparr>
                in if \<not> truthy (fld memory ''source_id'')
                   then st1\<lparr>d_detailHTML := renderMemoryDetail memory (related_html related) (loading_siblings memory)\<rparr>
                   else (case normalizeMemories parse (js_or (elem_at v 1) (JArr [])) of
                           Inl e \<Rightarrow> failed e st1
                         | Inr ms \<Rightarrow> st1\<lparr>d_detailHTML := renderMemoryDetail memory (related_html related)
                             (sibling_html (filter (\<lambda>m. fld m ''id'' \<noteq> fld memory ''id'') ms))\<rparr>))))"

definition entity_key :: "jsval \<Rightarrow> string" where
  "entity_key e = to_str (fld e ''label'') @ '':'' @ to_str (fld e ''text'')"

definition renderSelectedEntity :: "dash \<Rightarrow> dash" where
  "renderSelectedEntity st =
     (if \<not> truthy (d_selEntity st)
      then st\<lparr>d_entityHeading := ''Pick an entity to inspect linked memories'',
              d_entityDetail := ''<div class=\"detail-empty\">No entity selected.</div>''\<rparr>
      else await_api (TLinked (d_selEntity st))
             [(''GET'', ''/api/v1/entities/'' @ encodeURIComponent (entity_key (d_selEntity st)) @ ''/memories''
                 @ toQueryString [(''limit'', JNum 25), (''ephemeral'', JBool (d_entityEphemeral st))], None)]
             (st\<lparr>d_entityHeading := entity_key (d_selEntity st),
                 d_entityDetail := ''<p class=\"subtle\">Loading linked memories'' @ [ellipsis] @ ''</p>''\<rparr>))"

definition linked_answer :: "(string \<Rightarrow> jsval option) \<Rightarrow> jsval res \<Rightarrow> dash \<Rightarrow> dash" where
  "linked_answer parse r st =
     (case r of
        Inl e \<Rightarrow> st\<lparr>d_entityDetail := emptyState (err_message e)\<rparr>
      | Inr v \<Rightarrow> (case normalizeSearchResults parse v of
                    Inl e \<Rightarrow> st\<lparr>d_entityDetail := emptyState (err_message e)\<rparr>
                  | Inr items \<Rightarrow> st\<lparr>d_entityDetail := linked_html items\<rparr>))"

text \<open>A click on a card of the memories, by its identifier, and on one of the entities.\<close>

definition find_memory :: "jsval \<Rightarrow> jsval list \<Rightarrow> jsval" where
  "find_memory i results =
     (case find (\<lambda>item. fld (fld item ''memory'') ''id'' = i) results of None \<Rightarrow> JNull | Some item \<Rightarrow> fld item ''memory'')"

definition renderMemoryList :: "dash \<Rightarrow> dash" where
  "renderMemoryList st =
     st\<lparr>d_listHTML := memoryList_html (if truthy (d_selected st) then Some (d_selected st) else None) (d_results st)\<rparr>"

definition click_memory :: "(string \<Rightarrow> jsval option) \<Rightarrow> string \<Rightarrow> dash \<Rightarrow> dash" where
  "click_memory parse i st =
     (if find (\<lambda>item. fld (fld item ''memory'') ''id'' = JStr i) (d_results st) = None then st
      else renderSelectedMemory parse (renderMemoryList (st\<lparr>d_selected := find_memory (JStr i) (d_results st)\<rparr>)))"

definition renderEntityList :: "dash \<Rightarrow> dash" where
  "renderEntityList st = st\<lparr>d_entityHTML := entityList_html (d_selEntity st) (d_entities st)\<rparr>"

definition click_entity :: "string \<Rightarrow> string \<Rightarrow> dash \<Rightarrow> dash" where
  "click_entity label txt st =
     renderSelectedEntity (renderEntityList (st\<lparr>d_selEntity := JObj [(''label'', JStr label), (''text'', JStr txt)]\<rparr>))"

section \<open>Answers of the lists\<close>

definition list_failed :: "js_exn \<Rightarrow> dash \<Rightarrow> dash" where
  "list_failed e st = (showBanner (err_message e) True st)\<lparr>d_listHTML := emptyState (err_message e)\<rparr>"

definition keep_selection :: "dash \<Rightarrow> dash" where
  "keep_selection st =
     (let st1 = (if truthy (d_selected st)
                 then st\<lparr>d_selected := find_memory (fld (d_selected st) ''id'') (d_results st)\<rparr> else st)
      in if \<not> truthy (d_selected st1) \<and> d_results st1 \<noteq> []
         then st1\<lparr>d_selected := fld (hd (d_results st1)) ''memory''\<rparr> else st1)"

definition memories_answer :: "(string \<Rightarrow> jsval option) \<Rightarrow> bool \<Rightarrow> jsval res \<Rightarrow> dash \<Rightarrow> dash" where
  "memories_answer parse search r st =
     (case r of
        Inl e \<Rightarrow> list_failed e st
      | Inr v \<Rightarrow>
          (case (if search then normalizeSearchResults parse v
                 else (case normalizeMemories parse v of Inl e \<Rightarrow> Inl e
                       | Inr ms \<Rightarrow> Inr (map (\<lambda>m. JObj [(''memory'', m), (''score'', JNull)]) ms))) of
             Inl e \<Rightarrow> list_failed e st
           | Inr results \<Rightarrow>
               renderSelectedMemory parse (keep_selection (renderMemoryList
                 (st\<lparr>d_results := results,
                     d_summary := show_nat (length results) @ '' result'' @ (if length results = 1 then [] else ''s'')\<rparr>)))))"

definition keep_entity :: "dash \<Rightarrow> dash" where
  "keep_entity st =
     (let st1 = (if truthy (d_selEntity st)
                 then st\<lparr>d_selEntity := (case find (\<lambda>e. matchEntity e (d_selEntity st)) (d_entities st) of None \<Rightarrow> JNull | Some e \<Rightarrow> e)\<rparr>
                 else st)
      in if \<not> truthy (d_selEntity st1) \<and> d_entities st1 \<noteq> []
         then st1\<lparr>d_selEntity := hd (d_entities st1)\<rparr> else st1)"

definition entities_answer :: "jsval res \<Rightarrow> dash \<Rightarrow> dash" where
  "entities_answer r st =
     (case r of
        Inl e \<Rightarrow> st\<lparr>d_entityHTML := emptyState (err_message e)\<rparr>
      | Inr v \<Rightarrow> renderSelectedEntity (keep_entity (renderEntityList (st\<lparr>d_entities := elems v\<rparr>))))"

definition sessions_answer :: "jsval res \<Rightarrow> dash \<Rightarrow> dash" where
  "sessions_answer r st =
     (case r of
        Inl e \<Rightarrow> st\<lparr>d_sessionHTML := emptyState (err_message e)\<rparr>
      | Inr v \<Rightarrow> st\<lparr>d_sessions := elems v, d_sessionHTML := sessions_html (elems v)\<rparr>)"

text \<open>The counts of the service are numbers.\<close>

fun counts_of :: "jsval \<Rightarrow> (string \<times> rat) list" where
  "counts_of (JObj kvs) = map (\<lambda>(k, v). (k, case v of JNum r \<Rightarrow> r | _ \<Rightarrow> 0)) kvs"
| "counts_of _ = []"

definition overview_answer :: "(string \<Rightarrow> jsval option) \<Rightarrow> jsval res \<Rightarrow> dash \<Rightarrow> dash" where
  "overview_answer parse r st =
     (case r of
        Inl e \<Rightarrow> showBanner (err_message e) True st
      | Inr v \<Rightarrow>
          (let stats = elem_at v 0; recent = elem_at v 1; health = elem_at v 2;
               type_error = showBanner ''property of null or undefined'' True
           in if nullish stats then type_error st
              else (let st1 = syncIdentityUI (st\<lparr>d_overview := (d_overview st)\<lparr>ov_total := to_str (js_or (fld stats ''total_memories'') (JNum 0))\<rparr>\<rparr>)
                    in if nullish health then type_error st1
                       else (let st2 = st1\<lparr>d_overview := (d_overview st1)
                                 \<lparr>ov_health := to_str (js_or (fld health ''status'') (JStr ''unknown'')),
                                  ov_extractor := (if truthy (fld health ''termite'') then ''Configured'' else ''Disabled''),
                                  ov_types := count_bars (counts_of (fld stats ''by_type'')),
                                  ov_projects := count_bars (counts_of (fld stats ''by_project'')),
                                  ov_tags := count_bars (counts_of (fld stats ''by_tag'')),
                                  ov_sources := count_bars (counts_of (fld stats ''by_source_backend''))\<rparr>\<rparr>
                             in (case normalizeMemories parse recent of
                                   Inl e \<Rightarrow> showBanner (err_message e) True st2
                                 | Inr ms \<Rightarrow> st2\<lparr>d_overview := (d_overview st2)\<lparr>ov_recent := recent_html ms\<rparr>\<rparr>)))))"

definition server_answer :: "jsval res \<Rightarrow> dash \<Rightarrow> dash" where
  "server_answer r st =
     (case r of
        Inl e \<Rightarrow> st\<lparr>d_server := emptyState (err_message e)\<rparr>
      | Inr v \<Rightarrow>
          (if nullish (elem_at v 0) \<or> nullish (elem_at v 1) then st\<lparr>d_server := emptyState ''property of null or undefined''\<rparr>
           else st\<lparr>d_server := serverInfo_html (elem_at v 0) (elem_at v 1)\<rparr>))"

section \<open>The dialog\<close>

definition pad2 :: "nat \<Rightarrow> string" where
  "pad2 n = pad_left 2 (show_nat n)"

type_synonym local_time = "nat \<times> nat \<times> nat \<times> nat \<times> nat"

definition toLocalInput :: "(string \<Rightarrow> local_time option) \<Rightarrow> string \<Rightarrow> string" where
  "toLocalInput local_parts v =
     (case local_parts v of
        None \<Rightarrow> []
      | Some (y, mo, d, h, mi) \<Rightarrow>
          show_nat y @ ''-'' @ pad2 mo @ ''-'' @ pad2 d @ ''T'' @ pad2 h @ '':'' @ pad2 mi)"

definition input_of :: "jsval \<Rightarrow> string \<Rightarrow> jsval \<Rightarrow> string" where
  "input_of n k d = to_str (js_or (fld n k) d)"

definition joined :: "string \<Rightarrow> jsval \<Rightarrow> string" where
  "joined sep v = join sep (map to_str (elems v))"

text \<open>What the elements of the page's markup (index.html) make of a value that is assigned to them: an input of one
  line drops line breaks, a text area has line feeds for them, a selection has only its options, and the
  inputs of a number and of a time are empty when the text is not one.\<close>

abbreviation carriage_return :: char where "carriage_return \<equiv> CHR 0x0D"

definition single_line :: "string \<Rightarrow> string" where
  "single_line s = filter (\<lambda>c. c \<noteq> newline \<and> c \<noteq> carriage_return) s"

fun area_text :: "string \<Rightarrow> string" where
  "area_text [] = []"
| "area_text [c] = [if c = carriage_return then newline else c]"
| "area_text (c # d # s) =
     (if c = carriage_return \<and> d = newline then newline # area_text s
      else (if c = carriage_return then newline else c) # area_text (d # s))"

definition chosen_option :: "string list \<Rightarrow> string \<Rightarrow> string" where
  "chosen_option options s = (if s \<in> set options then s else [])"

definition memory_types :: "string list" where
  "memory_types = [''semantic'', ''episodic'', ''procedural'']"

definition visibilities :: "string list" where
  "visibilities = [''team'', ''private'']"

definition number_mantissa :: "string \<Rightarrow> bool" where
  "number_mantissa t \<longleftrightarrow>
     (let w = takeWhile is_digit t; r = dropWhile is_digit t
      in case r of [] \<Rightarrow> w \<noteq> [] | c # f \<Rightarrow> c = CHR ''.'' \<and> f \<noteq> [] \<and> list_all is_digit f)"

definition number_exponent :: "string \<Rightarrow> bool" where
  "number_exponent e \<longleftrightarrow>
     (case e of [] \<Rightarrow> True
      | c # x \<Rightarrow> (let y = (if x \<noteq> [] \<and> hd x \<in> set ''+-'' then tl x else x) in y \<noteq> [] \<and> list_all is_digit y))"

definition number_text :: "string \<Rightarrow> bool" where
  "number_text s \<longleftrightarrow>
     (let t = (if s \<noteq> [] \<and> hd s = CHR ''-'' then tl s else s); m = takeWhile (\<lambda>c. c \<notin> set ''eE'') t
      in number_mantissa m \<and> number_exponent (drop (length m) t))"

definition number_input :: "string \<Rightarrow> string" where
  "number_input s = (if number_text s then s else [])"

text \<open>The years of a time have four digits or more.\<close>

definition time_input :: "string \<Rightarrow> string" where
  "time_input s = (if 4 \<le> length (takeWhile is_digit s) then s else [])"

text \<open>The fields of the dialog for a normalized memory, or for none.\<close>

definition form_of :: "(string \<Rightarrow> local_time option) \<Rightarrow> jsval \<Rightarrow> jsval \<Rightarrow> mem_form" where
  "form_of local_parts identity n =
     \<lparr>fm_content = area_text (input_of n ''content'' (JStr [])),
      fm_memoryType = chosen_option memory_types (input_of n ''memory_type'' (JStr ''semantic'')),
      fm_visibility = chosen_option visibilities (input_of n ''visibility'' (JStr ''team'')),
      fm_project = single_line (input_of n ''project'' (JStr [])),
      fm_source = single_line (input_of n ''source'' (JStr [])),
      fm_tags = single_line (joined '', '' (fld n ''tags'')),
      fm_ephemeral = truthy (fld n ''ephemeral''),
      fm_sessionID = single_line (input_of n ''session_id'' (js_or (fld identity ''sessionId'') (JStr []))),
      fm_agentID = single_line (input_of n ''agent_id'' (js_or (fld identity ''agentId'') (JStr []))),
      fm_deviceID = single_line (input_of n ''device_id'' (js_or (fld identity ''deviceId'') (JStr []))),
      fm_eventTime = time_input
        (if truthy (fld n ''event_time'') then toLocalInput local_parts (to_str (fld n ''event_time'')) else []),
      fm_context = area_text (input_of n ''context'' (JStr [])),
      fm_confidence = number_input (to_str (coalesce (fld n ''confidence'') (JStr []))),
      fm_supersedes = single_line (input_of n ''supersedes'' (JStr [])),
      fm_trigger = single_line (input_of n ''trigger'' (JStr [])),
      fm_steps = area_text (joined [newline] (fld n ''steps'')),
      fm_outcome = area_text (input_of n ''outcome'' (JStr [])),
      fm_sourceBackend = single_line (input_of n ''source_backend'' (JStr [])),
      fm_sourceID = single_line (input_of n ''source_id'' (JStr [])),
      fm_sourcePath = single_line (input_of n ''source_path'' (JStr [])),
      fm_sourceURL = single_line (input_of n ''source_url'' (JStr [])),
      fm_sourceVersion = single_line (input_of n ''source_version'' (JStr [])),
      fm_sectionPath = single_line (joined '', '' (fld n ''section_path''))\<rparr>"

text \<open>\<open>memory\<close> is null for a new memory. The normal form of a memory that the list holds exists.\<close>

definition openMemoryDialog ::
  "(string \<Rightarrow> jsval option) \<Rightarrow> (string \<Rightarrow> local_time option) \<Rightarrow> jsval \<Rightarrow> dash \<Rightarrow> dash" where
  "openMemoryDialog parse local_parts memory st =
     (let n = (if truthy memory then (case normalizeMemory parse memory of Inl e \<Rightarrow> JNull | Inr m \<Rightarrow> m) else JNull)
      in st\<lparr>d_editing := (if truthy memory then fld memory ''id'' else JNull),
            d_sourceInputs := \<not> truthy memory,
            d_form := form_of local_parts (d_identity st) n,
            d_dialogOpen := True\<rparr>)"

definition edit_selected ::
  "(string \<Rightarrow> jsval option) \<Rightarrow> (string \<Rightarrow> local_time option) \<Rightarrow> dash \<Rightarrow> dash" where
  "edit_selected parse local_parts st =
     (if truthy (d_selected st) then openMemoryDialog parse local_parts (d_selected st) st else st)"

text \<open>The fields after a reset: the initial values of the page's markup.\<close>

definition blank_form :: mem_form where
  "blank_form =
     \<lparr>fm_content = [], fm_memoryType = ''semantic'', fm_visibility = ''team'', fm_project = [], fm_source = [], fm_tags = [],
      fm_ephemeral = False, fm_sessionID = [], fm_agentID = [], fm_deviceID = [], fm_eventTime = [], fm_context = [],
      fm_confidence = [], fm_supersedes = [], fm_trigger = [], fm_steps = [], fm_outcome = [], fm_sourceBackend = [],
      fm_sourceID = [], fm_sourcePath = [], fm_sourceURL = [], fm_sourceVersion = [], fm_sectionPath = []\<rparr>"

definition closeMemoryDialog :: "dash \<Rightarrow> dash" where
  "closeMemoryDialog st = st\<lparr>d_dialogOpen := False, d_editing := JNull, d_form := blank_form, d_sourceInputs := True\<rparr>"

definition trimmed :: "string \<Rightarrow> jsval" where
  "trimmed s = JStr (trim s)"

definition trimmed_or :: "string \<Rightarrow> string \<Rightarrow> jsval" where
  "trimmed_or s d = (if trim s = [] then JStr d else JStr (trim s))"

definition base_fields :: "(string \<Rightarrow> rat) \<Rightarrow> mem_form \<Rightarrow> (string \<times> jsval) list" where
  "base_fields to_number f =
     [(''content'', trimmed (fm_content f)),
      (''memory_type'', trimmed_or (fm_memoryType f) ''semantic''),
      (''visibility'', trimmed_or (fm_visibility f) ''team''),
      (''project'', trimmed (fm_project f)),
      (''source'', trimmed (fm_source f)),
      (''tags'', JArr (map JStr (splitCommaField (fm_tags f)))),
      (''ephemeral'', JBool (fm_ephemeral f)),
      (''session_id'', trimmed (fm_sessionID f)),
      (''agent_id'', trimmed (fm_agentID f)),
      (''device_id'', trimmed (fm_deviceID f)),
      (''event_time'', trimmed (fm_eventTime f)),
      (''context'', trimmed (fm_context f)),
      (''confidence'', if trim (fm_confidence f) \<noteq> [] then JNum (to_number (fm_confidence f)) else JUndef),
      (''supersedes'', trimmed (fm_supersedes f)),
      (''trigger'', trimmed (fm_trigger f)),
      (''steps'', JArr (map JStr (splitLines (fm_steps f)))),
      (''outcome'', trimmed (fm_outcome f))]"

definition source_fields :: "mem_form \<Rightarrow> (string \<times> jsval) list" where
  "source_fields f =
     [(''source_backend'', trimmed (fm_sourceBackend f)), (''source_id'', trimmed (fm_sourceID f)),
      (''source_path'', trimmed (fm_sourcePath f)), (''source_url'', trimmed (fm_sourceURL f)),
      (''source_version'', trimmed (fm_sourceVersion f)),
      (''section_path'', JArr (map JStr (splitCommaField (fm_sectionPath f))))]"

definition submitMemoryForm :: "(string \<Rightarrow> rat) \<Rightarrow> dash \<Rightarrow> dash" where
  "submitMemoryForm to_number st =
     (let f = d_form st
      in if trim (fm_content f) = [] then showBanner ''Content is required.'' True st
         else if truthy (d_editing st)
         then await_api (TSave True)
                [(''PUT'', ''/api/v1/memories/'' @ encodeURIComponent (to_str (d_editing st)), Some (defined_fields (base_fields to_number f)))] st
         else await_api (TSave False)
                [(''POST'', ''/api/v1/memories'', Some (defined_fields (base_fields to_number f @ source_fields f)))] st)"

definition save_answer :: "bool \<Rightarrow> jsval res \<Rightarrow> dash \<Rightarrow> dash" where
  "save_answer editing r st =
     (case r of
        Inl e \<Rightarrow> showBanner (err_message e) True st
      | Inr v \<Rightarrow> reload (closeMemoryDialog
          (showBanner (if editing then ''Memory updated.'' else ''Memory created.'') False st)))"

section \<open>Deletion, sessions and settings\<close>

definition deleteSelectedMemory :: "bool \<Rightarrow> dash \<Rightarrow> dash" where
  "deleteSelectedMemory confirmed st =
     (if \<not> truthy (d_selected st) \<or> \<not> confirmed then st
      else await_api TDelete
             [(''DELETE'', ''/api/v1/memories/'' @ encodeURIComponent (to_str (fld (d_selected st) ''id'')), None)] st)"

definition delete_answer :: "jsval res \<Rightarrow> dash \<Rightarrow> dash" where
  "delete_answer r st =
     (case r of
        Inl e \<Rightarrow> showBanner (err_message e) True st
      | Inr v \<Rightarrow> reload (showBanner ''Memory deleted.'' False (st\<lparr>d_selected := JNull\<rparr>)))"

definition endSession :: "bool \<Rightarrow> string \<Rightarrow> dash \<Rightarrow> dash" where
  "endSession confirmed sessionID st =
     (if sessionID = [] \<or> \<not> confirmed then st
      else await_api (TEndSession sessionID)
             [(''POST'', ''/api/v1/sessions/'' @ encodeURIComponent sessionID @ ''/end'', None)] st)"

definition endCurrentSession :: "bool \<Rightarrow> dash \<Rightarrow> dash" where
  "endCurrentSession confirmed st =
     (if \<not> truthy (fld (d_identity st) ''sessionId'')
      then showBanner ''Set a session ID in Settings before ending the current session.'' True st
      else endSession confirmed (to_str (fld (d_identity st) ''sessionId'')) st)"

definition end_answer :: "(jsval \<Rightarrow> string) \<Rightarrow> string \<Rightarrow> jsval res \<Rightarrow> dash \<Rightarrow> dash" where
  "end_answer stringify sessionID r st =
     (case r of
        Inl e \<Rightarrow> showBanner (err_message e) True st
      | Inr v \<Rightarrow>
          (let st1 = (if fld (d_identity st) ''sessionId'' = JStr sessionID
                      then (let i = JObj (obj_put ''sessionId'' (JStr []) (spread_fields (d_identity st)))
                            in syncIdentityUI (st\<lparr>d_identity := i, d_stored := stringify i\<rparr>))
                      else st)
           in reload (showBanner (''Session '' @ sessionID @ '' ended.'') False st1)))"

definition settings_identity :: "string \<Rightarrow> string \<Rightarrow> string \<Rightarrow> string \<Rightarrow> string \<Rightarrow> string \<Rightarrow> jsval" where
  "settings_identity user ns role agent device sess =
     JObj [(''userId'', trimmed_or user ''dashboard''), (''namespace'', trimmed_or ns ''default''),
           (''role'', trimmed_or role ''member''), (''agentId'', trimmed agent), (''deviceId'', trimmed device),
           (''sessionId'', trimmed sess)]"

text \<open>The message of the settings appears when everything has loaded again, whatever was answered.\<close>

definition submit_identity :: "(jsval \<Rightarrow> string) \<Rightarrow> jsval \<Rightarrow> dash \<Rightarrow> dash" where
  "submit_identity stringify i st = refreshAll (syncIdentityUI (st\<lparr>d_identity := i, d_stored := stringify i\<rparr>))"

definition submit_namespace :: "string \<Rightarrow> dash \<Rightarrow> dash" where
  "submit_namespace input st =
     (if trim input = [] then showBanner ''Namespace is required.'' True st
      else await_api (TInit (trim input)) [(''POST'', ''/api/v1/namespaces/'' @ encodeURIComponent (trim input) @ ''/init'', None)] st)"

definition init_answer :: "string \<Rightarrow> jsval res \<Rightarrow> dash \<Rightarrow> dash" where
  "init_answer namespace r st =
     (case r of
        Inl e \<Rightarrow> showBanner (err_message e) True st
      | Inr v \<Rightarrow> showBanner (''Namespace '' @ namespace @ '' initialized.'') False st)"

section \<open>The page\<close>

record dash_env =
  de_parse :: "string \<Rightarrow> jsval option"
  de_stringify :: "jsval \<Rightarrow> string"
  de_number :: "string \<Rightarrow> rat"
  de_local :: "string \<Rightarrow> local_time option"

datatype dash_event =
    EFilters mem_filters
  | EApplyFilters
  | EClickMemory string
  | EEntityFilter string bool
  | ELoadEntities
  | EClickEntity string string
  | ERefreshSessions
  | ERefresh
  | ENewMemory
  | EEditMemory
  | EForm mem_form
  | ESubmit
  | ECloseDialog
  | EDelete bool
  | EEndCurrent bool
  | EEndSession bool string
  | EIdentity jsval
  | ENamespace string
  | EAnswer nat "jsval res"

fun task_answer :: "dash_env \<Rightarrow> mem_task \<Rightarrow> jsval res \<Rightarrow> dash \<Rightarrow> dash" where
  "task_answer env TOverview r st = overview_answer (de_parse env) r st"
| "task_answer env TServerInfo r st = server_answer r st"
| "task_answer env (TMemories search) r st = memories_answer (de_parse env) search r st"
| "task_answer env (TDetail memory) r st = detail_answer (de_parse env) memory r st"
| "task_answer env TEntities r st = entities_answer r st"
| "task_answer env (TLinked e) r st = linked_answer (de_parse env) r st"
| "task_answer env TSessions r st = sessions_answer r st"
| "task_answer env (TSave editing) r st = save_answer editing r st"
| "task_answer env TDelete r st = delete_answer r st"
| "task_answer env (TEndSession s) r st = end_answer (de_stringify env) s r st"
| "task_answer env (TInit n) r st = init_answer n r st"

fun dash_step :: "dash_env \<Rightarrow> dash_event \<Rightarrow> dash \<Rightarrow> dash" where
  "dash_step env (EFilters f) st = st\<lparr>d_filters := f\<rparr>"
| "dash_step env EApplyFilters st = loadMemories st"
| "dash_step env (EClickMemory i) st = click_memory (de_parse env) i st"
| "dash_step env (EEntityFilter l e) st = st\<lparr>d_entityLabel := l, d_entityEphemeral := e\<rparr>"
| "dash_step env ELoadEntities st = loadEntities st"
| "dash_step env (EClickEntity l t) st = click_entity l t st"
| "dash_step env ERefreshSessions st = loadSessions st"
| "dash_step env ERefresh st = refreshAll st"
| "dash_step env ENewMemory st = openMemoryDialog (de_parse env) (de_local env) JNull st"
| "dash_step env EEditMemory st = edit_selected (de_parse env) (de_local env) st"
| "dash_step env (EForm f) st = (if d_dialogOpen st then st\<lparr>d_form := f\<rparr> else st)"
| "dash_step env ESubmit st = (if d_dialogOpen st then submitMemoryForm (de_number env) st else st)"
| "dash_step env ECloseDialog st = closeMemoryDialog st"
| "dash_step env (EDelete c) st = deleteSelectedMemory c st"
| "dash_step env (EEndCurrent c) st = endCurrentSession c st"
| "dash_step env (EEndSession c s) st = endSession c s st"
| "dash_step env (EIdentity i) st = submit_identity (de_stringify env) i st"
| "dash_step env (ENamespace n) st = submit_namespace n st"
| "dash_step env (EAnswer i r) st =
     (if i < length (d_pending st)
      then task_answer env (fst (d_pending st ! i)) r (st\<lparr>d_pending := without i (d_pending st)\<rparr>) else st)"

definition start_dash :: "(string \<Rightarrow> jsval option) \<Rightarrow> string option \<Rightarrow> dash" where
  "start_dash parse stored =
     refreshAll \<lparr>d_identity = loadIdentity parse stored, d_stored = (case stored of None \<Rightarrow> [] | Some s \<Rightarrow> s),
       d_results = [], d_selected = JNull, d_related = [], d_entities = [], d_selEntity = JNull, d_sessions = [],
       d_editing = JNull, d_banner = None,
       d_overview = \<lparr>ov_total = ''0'', ov_namespace = ''default'', ov_health = ''Unknown'', ov_extractor = ''Unknown'', ov_types = [], ov_projects = [],
                     ov_tags = [], ov_sources = [], ov_recent = []\<rparr>,
       d_server = [], d_listHTML = [], d_summary = [], d_detailHTML = [], d_actions = False, d_entityHTML = [],
       d_entityHeading = [], d_entityDetail = [], d_sessionHTML = [], d_form = blank_form, d_dialogOpen = False,
       d_sourceInputs = True,
       d_filters = \<lparr>mf_query = [], mf_project = [], mf_backend = [], mf_type = [], mf_visibility = [], mf_ephemeral = False,
                    mf_expand = False\<rparr>,
       d_entityLabel = [], d_entityEphemeral = False, d_pending = []\<rparr>"

section \<open>What the page keeps\<close>

definition dash_run :: "dash_env \<Rightarrow> dash_event list \<Rightarrow> dash \<Rightarrow> dash" where
  "dash_run env evs st = fold (dash_step env) evs st"

definition dash_ok :: "dash \<Rightarrow> bool" where
  "dash_ok st \<longleftrightarrow>
     (truthy (d_selected st) \<longrightarrow> (\<exists>item \<in> set (d_results st). fld item ''memory'' = d_selected st))
     \<and> (truthy (d_editing st) \<longrightarrow> d_dialogOpen st \<and> \<not> d_sourceInputs st)"

lemma await_api_simps [simp]:
  "d_identity (await_api t rs st) = d_identity st" "d_results (await_api t rs st) = d_results st"
  "d_selected (await_api t rs st) = d_selected st" "d_editing (await_api t rs st) = d_editing st"
  "d_dialogOpen (await_api t rs st) = d_dialogOpen st" "d_sourceInputs (await_api t rs st) = d_sourceInputs st"
  "d_form (await_api t rs st) = d_form st" "d_listHTML (await_api t rs st) = d_listHTML st"
  "d_detailHTML (await_api t rs st) = d_detailHTML st" "d_stored (await_api t rs st) = d_stored st"
  "d_banner (await_api t rs st) = d_banner st"
  by (simp_all add: await_api_def)

lemma showBanner_simps [simp]:
  "d_identity (showBanner m e st) = d_identity st" "d_results (showBanner m e st) = d_results st"
  "d_selected (showBanner m e st) = d_selected st" "d_editing (showBanner m e st) = d_editing st"
  "d_dialogOpen (showBanner m e st) = d_dialogOpen st" "d_sourceInputs (showBanner m e st) = d_sourceInputs st"
  "d_form (showBanner m e st) = d_form st" "d_pending (showBanner m e st) = d_pending st"
  "d_stored (showBanner m e st) = d_stored st" "d_filters (showBanner m e st) = d_filters st"
  "d_entityLabel (showBanner m e st) = d_entityLabel st" "d_entityEphemeral (showBanner m e st) = d_entityEphemeral st"
  by (simp_all add: showBanner_def)

named_theorems dash_evals \<open>the parts of the dashboard's handlers\<close>

lemmas load_defs [dash_evals] =
  loadOverview_def loadServerInfo_def loadMemories_def loadEntities_def loadSessions_def reload_def refreshAll_def
  syncIdentityUI_def

lemma dash_ok_await [inv_intros]: "dash_ok st \<Longrightarrow> dash_ok (await_api t rs st)"
  by (simp add: dash_ok_def)

lemma dash_ok_banner [inv_intros]: "dash_ok st \<Longrightarrow> dash_ok (showBanner m e st)"
  by (simp add: dash_ok_def)

lemma dash_ok_reload [inv_intros]: "dash_ok st \<Longrightarrow> dash_ok (reload st)"
  by (simp add: dash_ok_def dash_evals Let_def)

lemma dash_ok_refresh [inv_intros]: "dash_ok st \<Longrightarrow> dash_ok (refreshAll st)"
  by (simp add: dash_ok_def dash_evals Let_def)

lemma find_memory_in: "truthy (find_memory i rs) \<Longrightarrow> \<exists>item \<in> set rs. fld item ''memory'' = find_memory i rs"
  by (induction rs) (auto simp: find_memory_def split: if_splits)

lemma dash_ok_detail [inv_intros]: "dash_ok st \<Longrightarrow> dash_ok (renderSelectedMemory parse st)"
  by (simp add: dash_ok_def renderSelectedMemory_def Let_def split: sum.split)

lemma dash_ok_entity [inv_intros]: "dash_ok st \<Longrightarrow> dash_ok (renderSelectedEntity st)"
  by (simp add: dash_ok_def renderSelectedEntity_def Let_def)

lemma renderMemoryList_simps [simp]:
  "d_results (renderMemoryList st) = d_results st" "d_selected (renderMemoryList st) = d_selected st"
  "d_editing (renderMemoryList st) = d_editing st" "d_dialogOpen (renderMemoryList st) = d_dialogOpen st"
  "d_sourceInputs (renderMemoryList st) = d_sourceInputs st"
  by (simp_all add: renderMemoryList_def)

lemma dash_ok_list [inv_intros]: "dash_ok st \<Longrightarrow> dash_ok (renderMemoryList st)"
  by (simp add: dash_ok_def)

lemma dash_ok_click: "dash_ok st \<Longrightarrow> dash_ok (click_memory parse i st)"
  unfolding click_memory_def
  by (auto intro!: dash_ok_detail dash_ok_list) (use find_memory_in in \<open>simp add: dash_ok_def\<close>)

lemma dash_ok_keep:
  assumes "truthy (d_editing st) \<longrightarrow> d_dialogOpen st \<and> \<not> d_sourceInputs st"
  shows "dash_ok (keep_selection st)"
proof (cases "truthy (d_selected st) \<and> truthy (find_memory (fld (d_selected st) ''id'') (d_results st))")
  case True
  then show ?thesis
    using assms find_memory_in [of "fld (d_selected st) ''id''" "d_results st"]
    by (auto simp: dash_ok_def keep_selection_def Let_def)
next
  case False
  then show ?thesis
    using assms by (cases "d_results st") (auto simp: dash_ok_def keep_selection_def Let_def)
qed

lemma dash_ok_memories: "dash_ok st \<Longrightarrow> dash_ok (memories_answer parse search r st)"
proof -
  assume ok: "dash_ok st"
  have failed: "dash_ok (list_failed e st)" for e
    using ok by (simp add: dash_ok_def list_failed_def)
  have "dash_ok (renderSelectedMemory parse (keep_selection (renderMemoryList (st\<lparr>d_results := rs, d_summary := t\<rparr>))))" for rs t
    using ok by (intro dash_ok_detail dash_ok_keep) (simp add: dash_ok_def)
  with failed show ?thesis
    by (simp add: memories_answer_def split: sum.split)
qed

lemma dash_ok_detail_answer: "dash_ok st \<Longrightarrow> dash_ok (detail_answer parse m r st)"
  by (simp add: detail_answer_def dash_ok_def Let_def split: sum.split)

lemma dash_ok_overview: "dash_ok st \<Longrightarrow> dash_ok (overview_answer parse r st)"
  by (simp add: overview_answer_def dash_ok_def Let_def syncIdentityUI_def split: sum.split)

lemma dash_ok_task: "dash_ok st \<Longrightarrow> dash_ok (task_answer env t r st)"
proof (cases t)
  case TEntities
  then show "dash_ok st \<Longrightarrow> ?thesis"
    by (auto simp: entities_answer_def keep_entity_def renderEntityList_def dash_ok_def renderSelectedEntity_def Let_def
        split: sum.split)
next
  case (TSave editing)
  then show "dash_ok st \<Longrightarrow> ?thesis"
    by (auto simp: save_answer_def closeMemoryDialog_def split: sum.split intro!: inv_intros) (simp_all add: dash_ok_def)
next
  case TDelete
  then show "dash_ok st \<Longrightarrow> ?thesis"
    by (auto simp: delete_answer_def split: sum.split intro!: inv_intros) (simp add: dash_ok_def)
next
  case (TEndSession s)
  then show "dash_ok st \<Longrightarrow> ?thesis"
    by (auto simp: end_answer_def Let_def syncIdentityUI_def split: sum.split intro!: inv_intros) (simp_all add: dash_ok_def)
next
  case TServerInfo
  then show "dash_ok st \<Longrightarrow> ?thesis" by (simp add: server_answer_def dash_ok_def split: sum.split)
next
  case (TLinked e)
  then show "dash_ok st \<Longrightarrow> ?thesis" by (simp add: linked_answer_def dash_ok_def split: sum.split)
next
  case TSessions
  then show "dash_ok st \<Longrightarrow> ?thesis" by (simp add: sessions_answer_def dash_ok_def split: sum.split)
next
  case (TInit n)
  then show "dash_ok st \<Longrightarrow> ?thesis" by (simp add: init_answer_def dash_ok_def split: sum.split)
qed (simp_all add: dash_ok_overview dash_ok_memories dash_ok_detail_answer)

lemma dash_ok_step: "dash_ok st \<Longrightarrow> dash_ok (dash_step env ev st)"
proof (cases ev)
  case (EAnswer i r)
  then show "dash_ok st \<Longrightarrow> ?thesis"
    by (auto intro!: dash_ok_task) (simp add: dash_ok_def)
next
  case (EClickEntity l t)
  then show "dash_ok st \<Longrightarrow> ?thesis"
    by (simp add: click_entity_def renderEntityList_def dash_ok_entity dash_ok_def renderSelectedEntity_def)
qed (auto simp: dash_ok_click openMemoryDialog_def edit_selected_def closeMemoryDialog_def submitMemoryForm_def Let_def
      deleteSelectedMemory_def endCurrentSession_def endSession_def submit_identity_def submit_namespace_def
      loadMemories_def loadEntities_def loadSessions_def syncIdentityUI_def intro!: inv_intros, auto simp: dash_ok_def)

text \<open>C16. Whatever the user does and however the answers arrive: a selected memory is one of the listed
  ones, and while a memory is edited the dialog is open and its source fields are locked.\<close>

theorem selection_is_listed: "dash_ok (dash_run env evs (start_dash parse stored))"
proof -
  have "dash_ok (start_dash parse stored)"
    unfolding start_dash_def by (rule dash_ok_refresh) (simp add: dash_ok_def)
  then show ?thesis
    unfolding dash_run_def by (induction evs rule: rev_induct) (simp_all add: dash_ok_step)
qed

section \<open>Editing\<close>

text \<open>A memory that the dialog can hold as it is: its texts have no blanks at their ends and, in the inputs of one
  line, no line breaks; its type and visibility are offered; its tags have no commas and its steps no line
  breaks; and its confidence is a number as the input wants it.\<close>

definition optional_text :: "(string \<Rightarrow> string) \<Rightarrow> jsval \<Rightarrow> bool" where
  "optional_text held v \<longleftrightarrow> v = JUndef \<or> v = JNull \<or> (\<exists>s. v = JStr s \<and> trim s = s \<and> held s = s)"

definition area_keys :: "string list" where
  "area_keys = [''content'', ''context'', ''outcome'']"

definition line_keys :: "string list" where
  "line_keys = [''project'', ''source'', ''supersedes'', ''trigger'']"

definition holder_keys :: "(string \<times> string) list" where
  "holder_keys = [(''session_id'', ''sessionId''), (''agent_id'', ''agentId''), (''device_id'', ''deviceId'')]"

definition plain_item :: "char \<Rightarrow> string \<Rightarrow> bool" where
  "plain_item sep t \<longleftrightarrow> t \<noteq> [] \<and> trim t = t \<and> sep \<notin> set t \<and> newline \<notin> set t \<and> carriage_return \<notin> set t"

definition plain_memory :: "(string \<Rightarrow> rat) \<Rightarrow> jsval \<Rightarrow> bool" where
  "plain_memory to_number n \<longleftrightarrow>
     (\<forall>k \<in> set area_keys. optional_text area_text (fld n k))
     \<and> (\<forall>k \<in> set (line_keys @ map fst holder_keys). optional_text single_line (fld n k))
     \<and> (\<exists>s \<in> set memory_types. fld n ''memory_type'' = JStr s) \<and> (\<exists>s \<in> set visibilities. fld n ''visibility'' = JStr s)
     \<and> (\<exists>ts. fld n ''tags'' = JArr (map JStr ts) \<and> (\<forall>t \<in> set ts. plain_item (CHR '','') t))
     \<and> (\<exists>ts. fld n ''steps'' = JArr (map JStr ts) \<and> (\<forall>t \<in> set ts. plain_item newline t))
     \<and> (\<exists>b. fld n ''ephemeral'' = JBool b)
     \<and> (nullish (fld n ''confidence'') \<or> (\<exists>r. fld n ''confidence'' = JNum r \<and> number_text (show_rat r)
           \<and> trim (show_rat r) \<noteq> [] \<and> to_number (show_rat r) = r))"

lemma trim_blank: "trim (CHR '' '' # s) = trim s"
  by (simp add: trim_def is_ws_def)

lemma split_join_blank:
  assumes "ts \<noteq> []" "\<forall>t \<in> set ts. CHR '','' \<notin> set t"
  shows "map trim (split_on (CHR '','') (join '', '' ts)) = map trim ts"
  using assms
proof (induction ts)
  case (Cons t ts)
  show ?case
  proof (cases ts)
    case Nil
    then show ?thesis using Cons.prems by (simp add: split_on_no_sep)
  next
    case (Cons u us)
    obtain w ws where rest: "split_on (CHR '','') (join '', '' ts) = w # ws"
      using split_on_hd_tl by blast
    have "split_on (CHR '','') (join '', '' (t # ts)) = t # (CHR '' '' # w) # ws"
      using Cons.prems by (simp add: join_Cons Cons split_on_append split_on_no_sep)
        (simp add: rest [unfolded Cons])
    with Cons.IH Cons.prems rest Cons show ?thesis
      by (simp add: trim_blank)
  qed
qed simp

lemma comma_field_joined:
  assumes "\<forall>t \<in> set ts. t \<noteq> [] \<and> trim t = t \<and> CHR '','' \<notin> set t"
  shows "splitCommaField (joined '', '' (JArr (map JStr ts))) = ts"
proof (cases "ts = []")
  case True
  then show ?thesis by (simp add: splitCommaField_def nonempty_trimmed_def joined_def)
next
  case False
  have "map trim ts = ts" using assms by (simp add: map_idI)
  moreover have "filter (\<lambda>w. w \<noteq> []) ts = ts" using assms by (simp add: filter_id_conv)
  ultimately show ?thesis
    using assms split_join_blank [OF False] by (simp add: splitCommaField_def nonempty_trimmed_def joined_def o_def)
qed

lemma lines_joined:
  assumes "\<forall>t \<in> set ts. t \<noteq> [] \<and> trim t = t \<and> newline \<notin> set t"
  shows "splitLines (joined [newline] (JArr (map JStr ts))) = ts"
proof (cases "ts = []")
  case True
  then show ?thesis by (simp add: splitLines_def nonempty_trimmed_def joined_def)
next
  case False
  have "map trim ts = ts" using assms by (simp add: map_idI)
  moreover have "filter (\<lambda>w. w \<noteq> []) ts = ts" using assms by (simp add: filter_id_conv)
  ultimately show ?thesis
    using assms split_on_join [OF False, of newline] by (simp add: splitLines_def nonempty_trimmed_def joined_def o_def)
qed

lemma single_line_id: "newline \<notin> set s \<Longrightarrow> carriage_return \<notin> set s \<Longrightarrow> single_line s = s"
  by (auto simp: single_line_def filter_id_conv)

lemma area_text_id: "carriage_return \<notin> set s \<Longrightarrow> area_text s = s"
  by (induction s rule: area_text.induct) auto

lemma held_Nil [simp]: "single_line [] = []" "area_text [] = []" "number_text [] = False"
  by (simp_all add: single_line_def number_text_def number_mantissa_def Let_def)

lemma chars_joined: "c \<notin> set sep \<Longrightarrow> \<forall>t \<in> set ts. c \<notin> set t \<Longrightarrow> c \<notin> set (joined sep (JArr (map JStr ts)))"
proof (induction ts)
  case (Cons t ts)
  then show ?case by (cases "ts = []") (simp_all add: joined_def join_Cons)
qed (simp add: joined_def)

lemma held_tags: "\<forall>t \<in> set ts. plain_item (CHR '','') t \<Longrightarrow> splitCommaField (single_line (joined '', '' (JArr (map JStr ts)))) = ts"
  using chars_joined [of newline "'', ''" ts] chars_joined [of carriage_return "'', ''" ts] comma_field_joined [of ts]
  by (simp add: plain_item_def single_line_id)

lemma held_steps: "\<forall>t \<in> set ts. plain_item newline t \<Longrightarrow> splitLines (area_text (joined [newline] (JArr (map JStr ts)))) = ts"
  using chars_joined [of carriage_return "[newline]" ts] lines_joined [of ts]
  by (simp add: plain_item_def area_text_id)

lemma trimmed_input:
  "optional_text held (fld n k) \<Longrightarrow> held [] = [] \<Longrightarrow> trimmed (held (input_of n k (JStr []))) = js_or (fld n k) (JStr [])"
  by (auto simp: optional_text_def input_of_def trimmed_def js_or_def)

lemma trimmed_holder:
  "optional_text single_line (fld n k) \<Longrightarrow>
     trimmed (single_line (input_of n k d)) = (if truthy (fld n k) then fld n k else trimmed (single_line (to_str d)))"
  by (auto simp: optional_text_def input_of_def trimmed_def js_or_def)

lemma chosen_kept:
  assumes "fld n k = JStr s" "s \<in> set options" "list_all (\<lambda>s. s \<noteq> [] \<and> trim s = s) options"
  shows "trimmed_or (chosen_option options (input_of n k d)) d' = fld n k"
  using assms by (auto simp: input_of_def trimmed_or_def js_or_def chosen_option_def list_all_iff)

lemma options_plain: "list_all (\<lambda>s. s \<noteq> [] \<and> trim s = s) memory_types" "list_all (\<lambda>s. s \<noteq> [] \<and> trim s = s) visibilities"
  by code_simp+

lemma key_of_entry: "map_of (filter P kvs) k = Some v \<Longrightarrow> k \<in> fst ` set kvs"
  by (force dest: map_of_SomeD)

lemma fld_defined: "fld (defined_fields kvs) k = fld (JObj kvs) k" if "distinct (map fst kvs)"
  using that by (induction kvs) (auto simp: defined_fields_def dest: key_of_entry split: option.splits)

text \<open>C14. What an edit that touches nothing sends of a memory that the dialog can hold (texts without blanks at
  their ends and without line breaks in the inputs of one line, an offered type and visibility, tags without
  commas, steps without line breaks, a confidence as the number input wants it): its texts (an absent one as
  an empty one), its type and visibility, its tags and steps one by one, its ephemeral mark and its
  confidence, as they are; its session, agent and device, or those of the page's identity where the memory
  has none; the time of the event as its input holds it; and nothing else.\<close>

theorem unedited_edit_keeps:
  assumes "plain_memory to_number n"
  shows "let body = defined_fields (base_fields to_number (form_of local_parts identity n))
         in (\<forall>k \<in> set (area_keys @ line_keys). fld body k = js_or (fld n k) (JStr []))
            \<and> (\<forall>k \<in> {''memory_type'', ''visibility'', ''tags'', ''steps'', ''ephemeral''}. fld body k = fld n k)
            \<and> (if nullish (fld n ''confidence'') then fld body ''confidence'' = JUndef
               else fld body ''confidence'' = fld n ''confidence'')
            \<and> (\<forall>(k, j) \<in> set holder_keys. fld body k =
                 (if truthy (fld n k) then fld n k else trimmed (single_line (to_str (js_or (fld identity j) (JStr []))))))
            \<and> fld body ''event_time'' = trimmed (time_input
                 (if truthy (fld n ''event_time'') then toLocalInput local_parts (to_str (fld n ''event_time'')) else []))
            \<and> (\<forall>k. k \<notin> set (area_keys @ line_keys @ map fst holder_keys
                 @ [''memory_type'', ''visibility'', ''tags'', ''steps'', ''ephemeral'', ''confidence'', ''event_time''])
                 \<longrightarrow> fld body k = JUndef)"
proof -
  let ?f = "form_of local_parts identity n"
  let ?base = "base_fields to_number ?f"
  have body: "fld (defined_fields ?base) k = fld (JObj ?base) k" for k
    by (rule fld_defined) (simp add: base_fields_def)
  note plain = assms [unfolded plain_memory_def]
  have areas: "\<forall>k \<in> set area_keys. fld (JObj ?base) k = js_or (fld n k) (JStr [])"
    using plain trimmed_input [of area_text n] by (simp add: area_keys_def base_fields_def form_of_def)
  have lines: "\<forall>k \<in> set line_keys. fld (JObj ?base) k = js_or (fld n k) (JStr [])"
    using plain trimmed_input [of single_line n] by (simp add: line_keys_def base_fields_def form_of_def)
  have holders: "\<forall>(k, j) \<in> set holder_keys. fld (JObj ?base) k =
      (if truthy (fld n k) then fld n k else trimmed (single_line (to_str (js_or (fld identity j) (JStr [])))))"
    using plain by (simp add: holder_keys_def base_fields_def form_of_def trimmed_holder)
  have choices: "fld (JObj ?base) ''memory_type'' = fld n ''memory_type''" "fld (JObj ?base) ''visibility'' = fld n ''visibility''"
    using plain chosen_kept [OF _ _ options_plain(1)] chosen_kept [OF _ _ options_plain(2)]
    by (auto simp: base_fields_def form_of_def)
  have lists: "fld (JObj ?base) ''tags'' = fld n ''tags''" "fld (JObj ?base) ''steps'' = fld n ''steps''"
    using plain held_tags held_steps by (auto simp: base_fields_def form_of_def)
  have rest: "fld (JObj ?base) ''ephemeral'' = fld n ''ephemeral''"
    "if nullish (fld n ''confidence'') then fld (JObj ?base) ''confidence'' = JUndef
     else fld (JObj ?base) ''confidence'' = fld n ''confidence''"
    using plain by (auto simp: base_fields_def form_of_def coalesce_def nullish_def number_input_def)
  have time: "fld (JObj ?base) ''event_time'' = trimmed (time_input
      (if truthy (fld n ''event_time'') then toLocalInput local_parts (to_str (fld n ''event_time'')) else []))"
    by (simp add: base_fields_def form_of_def)
  have none: "fld (JObj ?base) k = JUndef" if "k \<notin> set (map fst ?base)" for k
    using that by (simp add: map_of_eq_None_iff [THEN iffD2])
  have keys: "set (map fst ?base) = set (area_keys @ line_keys @ map fst holder_keys
      @ [''memory_type'', ''visibility'', ''tags'', ''steps'', ''ephemeral'', ''confidence'', ''event_time''])"
    by (auto simp: base_fields_def area_keys_def line_keys_def holder_keys_def)
  show ?thesis
    unfolding Let_def body
    using areas lines choices lists rest holders time none [unfolded keys] by (simp add: ball_Un)
qed

definition demo_memory :: jsval where
  "demo_memory = JObj [(''id'', JStr ''m1''), (''content'', JStr ''note''), (''memory_type'', JStr ''episodic''),
     (''visibility'', JStr ''team''), (''tags'', JArr [JStr ''a'', JStr ''b'']), (''entities'', JArr []), (''steps'', JArr []),
     (''section_path'', JArr []), (''ephemeral'', JBool False), (''event_time'', JStr ''2024-01-02T03:04:05Z'')]"

lemma demo_trim: "trim ''note'' = ''note''" "area_text ''note'' = ''note''" "plain_item (CHR '','') ''a''" "plain_item (CHR '','') ''b''"
  "''episodic'' \<in> set memory_types" "''team'' \<in> set visibilities"
  by code_simp+

theorem unedited_edit_keeps_witness:
  "fld (defined_fields (base_fields (\<lambda>s. 0) (form_of (\<lambda>s. None) (JObj [(''agentId'', JStr ''a1'')]) demo_memory))) ''tags'' = JArr [JStr ''a'', JStr ''b'']
   \<and> fld (defined_fields (base_fields (\<lambda>s. 0) (form_of (\<lambda>s. None) (JObj [(''agentId'', JStr ''a1'')]) demo_memory))) ''agent_id''
     = trimmed (single_line ''a1'')"
proof -
  have "plain_memory (\<lambda>s. 0) demo_memory"
    unfolding plain_memory_def
  proof (intro conjI)
    show "\<exists>ts. fld demo_memory ''tags'' = JArr (map JStr ts) \<and> (\<forall>t\<in>set ts. plain_item (CHR '','') t)"
      by (rule exI [of _ "[''a'', ''b'']"]) (simp add: demo_memory_def demo_trim)
    show "\<exists>s\<in>set memory_types. fld demo_memory ''memory_type'' = JStr s"
      by (rule bexI [OF _ demo_trim(5)]) (simp add: demo_memory_def)
    show "\<exists>s\<in>set visibilities. fld demo_memory ''visibility'' = JStr s"
      by (rule bexI [OF _ demo_trim(6)]) (simp add: demo_memory_def)
  qed (auto simp: demo_memory_def area_keys_def line_keys_def holder_keys_def optional_text_def demo_trim nullish_def)
  note sent = unedited_edit_keeps [OF this, of "\<lambda>s. None" "JObj [(''agentId'', JStr ''a1'')]", unfolded Let_def, THEN conjunct2]
  have at: "\<not> truthy (fld demo_memory ''agent_id'')" "fld demo_memory ''tags'' = JArr [JStr ''a'', JStr ''b'']"
    "to_str (js_or (fld (JObj [(''agentId'', JStr ''a1'')]) ''agentId'') (JStr [])) = ''a1''"
    by (simp_all add: demo_memory_def js_or_def)
  show ?thesis
    using sent [THEN conjunct1, THEN bspec, of "''tags''"]
      sent [THEN conjunct2, THEN conjunct2, THEN conjunct1, THEN bspec, of "(''agent_id'', ''agentId'')"]
    by (simp only: at split_conv if_False) (simp add: holder_keys_def)
qed

text \<open>A memory that was made without a session, an agent or a device gets those of whoever edits it.\<close>

theorem edit_takes_identity:
  assumes "(k, j) \<in> set holder_keys" "\<not> truthy (fld n k)" "fld identity j = JStr w" "w \<noteq> []"
  shows "fld (defined_fields (base_fields to_number (form_of local_parts identity n))) k = JStr (trim (single_line w))"
proof -
  have "fld (defined_fields (base_fields to_number (form_of local_parts identity n))) k
      = fld (JObj (base_fields to_number (form_of local_parts identity n))) k"
    by (rule fld_defined) (simp add: base_fields_def)
  also have "\<dots> = trimmed (single_line (input_of n k (js_or (fld identity j) (JStr []))))"
    using assms(1) unfolding holder_keys_def list.set
    by (elim insertE) (simp_all add: base_fields_def form_of_def)
  finally show ?thesis
    using assms(2-4) by (simp add: input_of_def js_or_def trimmed_def)
qed

theorem edit_takes_identity_witness:
  "fld (defined_fields (base_fields (\<lambda>s. 0) (form_of (\<lambda>s. None) (JObj [(''agentId'', JStr ''a1'')]) (JObj [])))) ''agent_id''
     = JStr (trim (single_line ''a1''))"
  by (rule edit_takes_identity [where j = "''agentId''"]) (simp_all add: holder_keys_def)

lemma pad2_digits: "c \<in> set (pad2 n) \<Longrightarrow> is_digit c"
proof -
  have "is_digit (CHR ''0'')" by (simp add: is_digit_def)
  then show "c \<in> set (pad2 n) \<Longrightarrow> is_digit c"
    by (auto simp: pad2_def pad_left_def dest: show_nat_digits)
qed

lemma local_time_chars: "CHR ''Z'' \<notin> set (toLocalInput local_parts v)"
proof -
  have "\<not> is_digit (CHR ''Z'')" by (simp add: is_digit_def)
  then have "CHR ''Z'' \<notin> set (show_nat n)" "CHR ''Z'' \<notin> set (pad2 n)" for n
    using show_nat_digits pad2_digits by blast+
  then show ?thesis
    by (simp add: toLocalInput_def split: option.split prod.split)
qed

text \<open>The time of an event does not survive an edit: a time in UTC, as the service stores it, is
  sent back in the browser's zone to the minute, without a zone, by an edit that did not touch it.\<close>

theorem edit_changes_event_time:
  assumes "fld n ''event_time'' = JStr t" "CHR ''Z'' \<in> set t"
  shows "fld (defined_fields (base_fields to_number (form_of local_parts identity n))) ''event_time'' \<noteq> fld n ''event_time''"
proof -
  have "fld (defined_fields (base_fields to_number (form_of local_parts identity n))) ''event_time''
      = JStr (trim (time_input (toLocalInput local_parts t)))"
    using assms by (subst fld_defined) (auto simp: base_fields_def form_of_def trimmed_def)
  moreover have "CHR ''Z'' \<notin> set (time_input (toLocalInput local_parts t))"
    using local_time_chars [of local_parts t] by (simp add: time_input_def)
  then have "CHR ''Z'' \<notin> set (trim (time_input (toLocalInput local_parts t)))"
    using set_trim_subset by blast
  ultimately show ?thesis using assms by auto
qed

theorem edit_changes_event_time_witness:
  "fld (defined_fields (base_fields (\<lambda>s. 0) (form_of (\<lambda>s. Some (2024, 1, 2, 4, 4)) (JObj []) demo_memory))) ''event_time''
   \<noteq> JStr ''2024-01-02T03:04:05Z''"
proof -
  have time: "fld demo_memory ''event_time'' = JStr ''2024-01-02T03:04:05Z''" by (simp add: demo_memory_def)
  from edit_changes_event_time [OF time] show ?thesis by (simp add: time)
qed

section \<open>Late answers\<close>

lemma detail_answer_shows: "\<exists>x y. d_detailHTML (detail_answer parse m r st) = renderMemoryDetail m x y"
  by (auto simp: detail_answer_def Let_def split: sum.split)

lemma detail_answer_selected [simp]: "d_selected (detail_answer parse m r st) = d_selected st"
  by (simp add: detail_answer_def Let_def split: sum.split)

text \<open>The answer for the detail of a memory is shown whatever is selected by then, while the delete
  button acts on the selection: the page may show one memory and delete another.\<close>

theorem late_detail_shown:
  assumes "i < length (d_pending st)" "fst (d_pending st ! i) = TDetail m" "truthy (d_selected st)"
    and st': "st' = dash_step env (EAnswer i r) st"
  shows "(\<exists>x y. d_detailHTML st' = renderMemoryDetail m x y)
    \<and> map rq_path (snd (last (d_pending (dash_step env (EDelete True) st'))))
      = [''/api/v1/memories/'' @ encodeURIComponent (to_str (fld (d_selected st) ''id''))]"
  using assms(1-3) detail_answer_shows unfolding st'
  by (simp add: deleteSelectedMemory_def await_api_def request_to_def)

definition two_memories :: dash where
  "two_memories = (start_dash (\<lambda>s. None) None)
     \<lparr>d_results := [JObj [(''memory'', JObj [(''id'', JStr ''a'')])], JObj [(''memory'', JObj [(''id'', JStr ''b'')])]],
      d_selected := JObj [(''id'', JStr ''b'')],
      d_pending := [(TDetail (JObj [(''id'', JStr ''a'')]), []), (TDetail (JObj [(''id'', JStr ''b'')]), [])]\<rparr>"

theorem late_detail_shown_witness:
  "\<exists>x y. d_detailHTML (dash_step \<lparr>de_parse = \<lambda>s. None, de_stringify = \<lambda>v. [], de_number = \<lambda>s. 0, de_local = \<lambda>s. None\<rparr>
        (EAnswer 0 (throw_error ''lost'')) two_memories)
      = renderMemoryDetail (JObj [(''id'', JStr ''a'')]) x y"
proof -
  have "0 < length (d_pending two_memories)" "fst (d_pending two_memories ! 0) = TDetail (JObj [(''id'', JStr ''a'')])"
    "truthy (d_selected two_memories)"
    by (simp_all add: two_memories_def)
  from late_detail_shown [OF this refl] show ?thesis by blast
qed

text \<open>When the first memories arrive the page selects the first of them, but the list was written
  before that and marks none.\<close>

theorem first_selection_unmarked:
  assumes "\<not> truthy (d_selected st)" "normalizeMemories parse v = Inr (m # ms)"
    and st': "st' = memories_answer parse False (Inr v) st"
  shows "d_selected st' = m \<and> d_listHTML st' = memoryList_html None (d_results st') \<and> hd (d_results st') = JObj [(''memory'', m), (''score'', JNull)]"
proof -
  have "truthy m"
    using assms(2) by (cases "elems v") (auto simp: normalizeMemories_def normalizeMemory_def split: sum.splits if_splits)
  then show ?thesis
    using assms by (simp add: memories_answer_def keep_selection_def renderMemoryList_def renderSelectedMemory_def Let_def split: sum.split)
qed

theorem first_selection_unmarked_witness:
  "d_selected (memories_answer (\<lambda>s. None) False (Inr (JArr [JObj []])) (start_dash (\<lambda>s. None) None))
   = JObj [(''tags'', JArr []), (''entities'', JArr []), (''steps'', JArr []), (''section_path'', JArr []), (''ephemeral'', JBool False)]"
proof -
  have "normalizeMemories (\<lambda>s. None) (JArr [JObj []]) = Inr [JObj [(''tags'', JArr []), (''entities'', JArr []), (''steps'', JArr []),
      (''section_path'', JArr []), (''ephemeral'', JBool False)]]"
    by (simp add: normalizeMemories_def normalizeMemory_def nullish_def ensureArray_def arr_or_empty_def obj_put_def)
  moreover have "\<not> truthy (d_selected (start_dash (\<lambda>s. None) None))"
    by (simp add: start_dash_def dash_evals Let_def)
  ultimately show ?thesis
    using first_selection_unmarked [of "start_dash (\<lambda>s. None) None" "\<lambda>s. None" "JArr [JObj []]"] by blast
qed

text \<open>The answer to a save closes the dialog and clears its fields, also when the user has closed it
  before and is writing another memory: that text is lost.\<close>

theorem late_save_clears_dialog:
  assumes "i < length (d_pending st)" "fst (d_pending st ! i) = TSave editing"
  shows "d_form (dash_step env (EAnswer i (Inr v)) st) = blank_form \<and> \<not> d_dialogOpen (dash_step env (EAnswer i (Inr v)) st)"
  using assms by (simp add: save_answer_def closeMemoryDialog_def dash_evals Let_def)

theorem late_save_clears_dialog_witness:
  "\<not> d_dialogOpen (dash_step \<lparr>de_parse = \<lambda>s. None, de_stringify = \<lambda>v. [], de_number = \<lambda>s. 0, de_local = \<lambda>s. None\<rparr>
     (EAnswer 0 (Inr JNull)) (two_memories\<lparr>d_dialogOpen := True, d_pending := [(TSave False, [])]\<rparr>))"
  using late_save_clears_dialog [of 0 "two_memories\<lparr>d_dialogOpen := True, d_pending := [(TSave False, [])]\<rparr>" False] by simp

section \<open>Identity\<close>

text \<open>The settings reach the service: every request after them names the user, the namespace and the
  role that were entered, or their defaults, and the agent, device and session where they were given;
  and the page reads the same identity back when it is opened again.\<close>

theorem settings_sent:
  assumes "i = settings_identity user ns role agent device sess" "parse (stringify i) = Some i" "stringify i \<noteq> []"
  shows "api_headers i =
      [(''Content-Type'', ''application/json''),
       (''X-User-ID'', if trim user = [] then ''dashboard'' else trim user),
       (''X-Namespace'', if trim ns = [] then ''default'' else trim ns),
       (''X-Role'', if trim role = [] then ''member'' else trim role)]
      @ (if trim agent = [] then [] else [(''X-Agent-ID'', trim agent)])
      @ (if trim device = [] then [] else [(''X-Device-ID'', trim device)])
      @ (if trim sess = [] then [] else [(''X-Session-ID'', trim sess)])
    \<and> loadIdentity parse (Some (d_stored (submit_identity stringify i st))) = i"
proof -
  have "d_stored (submit_identity stringify i st) = stringify i"
    by (simp add: submit_identity_def dash_evals Let_def)
  then have "loadIdentity parse (Some (d_stored (submit_identity stringify i st))) = i"
    using assms by (simp add: loadIdentity_def default_identity_def settings_identity_def obj_put_def)
  moreover have "api_headers i =
      [(''Content-Type'', ''application/json''),
       (''X-User-ID'', if trim user = [] then ''dashboard'' else trim user),
       (''X-Namespace'', if trim ns = [] then ''default'' else trim ns),
       (''X-Role'', if trim role = [] then ''member'' else trim role)]
      @ (if trim agent = [] then [] else [(''X-Agent-ID'', trim agent)])
      @ (if trim device = [] then [] else [(''X-Device-ID'', trim device)])
      @ (if trim sess = [] then [] else [(''X-Session-ID'', trim sess)])"
    unfolding assms(1) api_headers_def settings_identity_def
    by (simp add: id_or_def js_or_def trimmed_or_def trimmed_def)
  ultimately show ?thesis by blast
qed

theorem settings_sent_witness:
  "loadIdentity (\<lambda>s. Some (settings_identity [] [] [] [] [] [])) (Some (d_stored (submit_identity (\<lambda>v. ''x'')
      (settings_identity [] [] [] [] [] []) two_memories))) = settings_identity [] [] [] [] [] []"
  using settings_sent [of "settings_identity [] [] [] [] [] []" "[]" "[]" "[]" "[]" "[]" "[]"
      "\<lambda>s. Some (settings_identity [] [] [] [] [] [])" "\<lambda>v. ''x''" two_memories] by simp

definition sent_session :: "http_call \<Rightarrow> string option" where
  "sent_session r = map_of (rq_headers r) ''X-Session-ID''"

lemma session_header: "map_of (api_headers i) ''X-Session-ID'' =
    (if truthy (fld i ''sessionId'') then Some (to_str (fld i ''sessionId'')) else None)"
  by (simp add: api_headers_def)

text \<open>A state with one more task, whose requests carry the identity.\<close>

definition asks_more :: "dash \<Rightarrow> dash \<Rightarrow> bool" where
  "asks_more st st' \<longleftrightarrow>
     d_identity st' = d_identity st \<and> d_stored st' = d_stored st
     \<and> (\<exists>t. d_pending st' = d_pending st @ [t] \<and> (\<forall>r \<in> set (snd t). rq_headers r = api_headers (d_identity st)))"

lemma asks_await: "asks_more st (await_api t rs st)"
  by (auto simp: asks_more_def await_api_def request_to_def)

lemma asks_load:
  "asks_more st (loadOverview st)" "asks_more st (loadMemories st)" "asks_more st (loadEntities st)" "asks_more st (loadSessions st)"
  by (simp_all add: loadOverview_def loadMemories_def loadEntities_def loadSessions_def Let_def asks_await)

lemma asks_twice:
  assumes "d_identity st' = d_identity st" "d_stored st' = d_stored st" "d_pending st' = d_pending st @ ts"
    "\<forall>t \<in> set ts. \<forall>r \<in> set (snd t). rq_headers r = api_headers (d_identity st)" "asks_more st' st''"
  obtains t where "d_identity st'' = d_identity st" "d_stored st'' = d_stored st" "d_pending st'' = d_pending st @ ts @ [t]"
    "\<forall>u \<in> set (ts @ [t]). \<forall>r \<in> set (snd u). rq_headers r = api_headers (d_identity st)"
  using assms unfolding asks_more_def by auto

lemma reload_asks:
  "d_identity (reload st) = d_identity st \<and> d_stored (reload st) = d_stored st
   \<and> (\<exists>ts. d_pending (reload st) = d_pending st @ ts \<and> length ts = 4
        \<and> (\<forall>t \<in> set ts. \<forall>r \<in> set (snd t). rq_headers r = api_headers (d_identity st)))"
proof -
  let ?s1 = "loadOverview st" let ?s2 = "loadMemories ?s1" let ?s3 = "loadEntities ?s2"
  obtain t1 where s1: "d_identity ?s1 = d_identity st" "d_stored ?s1 = d_stored st" "d_pending ?s1 = d_pending st @ [t1]"
    "\<forall>t \<in> set [t1]. \<forall>r \<in> set (snd t). rq_headers r = api_headers (d_identity st)"
    using asks_load(1) [of st] unfolding asks_more_def by auto
  obtain t2 where s2: "d_identity ?s2 = d_identity st" "d_stored ?s2 = d_stored st" "d_pending ?s2 = d_pending st @ [t1] @ [t2]"
    "\<forall>t \<in> set ([t1] @ [t2]). \<forall>r \<in> set (snd t). rq_headers r = api_headers (d_identity st)"
    by (rule asks_twice [OF s1 asks_load(2)])
  obtain t3 where s3: "d_identity ?s3 = d_identity st" "d_stored ?s3 = d_stored st"
    "d_pending ?s3 = d_pending st @ ([t1] @ [t2]) @ [t3]"
    "\<forall>t \<in> set (([t1] @ [t2]) @ [t3]). \<forall>r \<in> set (snd t). rq_headers r = api_headers (d_identity st)"
    by (rule asks_twice [OF s2 asks_load(3)])
  obtain t4 where s4: "d_identity (reload st) = d_identity st" "d_stored (reload st) = d_stored st"
    "d_pending (reload st) = d_pending st @ (([t1] @ [t2]) @ [t3]) @ [t4]"
    "\<forall>t \<in> set ((([t1] @ [t2]) @ [t3]) @ [t4]). \<forall>r \<in> set (snd t). rq_headers r = api_headers (d_identity st)"
    unfolding reload_def by (rule asks_twice [OF s3 asks_load(4)])
  then show ?thesis by (intro conjI exI [of _ "(([t1] @ [t2]) @ [t3]) @ [t4]"]) simp_all
qed

text \<open>After a session has ended, the page no longer works in it: if it was the session of the
  identity, the identity and its stored copy have none, and the requests that follow name none.\<close>

theorem ended_session_left:
  assumes "fld (d_identity st) ''sessionId'' = JStr s" "s \<noteq> []" "st' = end_answer stringify s (Inr v) st"
  shows "fld (d_identity st') ''sessionId'' = JStr [] \<and> d_stored st' = stringify (d_identity st')
    \<and> (\<exists>ts. d_pending st' = d_pending st @ ts \<and> length ts = 4 \<and> (\<forall>t \<in> set ts. \<forall>r \<in> set (snd t). sent_session r = None))"
proof -
  let ?i = "JObj (obj_put ''sessionId'' (JStr []) (spread_fields (d_identity st)))"
  let ?st1 = "showBanner (''Session '' @ s @ '' ended.'') False (syncIdentityUI (st\<lparr>d_identity := ?i, d_stored := stringify ?i\<rparr>))"
  have st': "st' = reload ?st1"
    using assms by (simp add: end_answer_def Let_def)
  have st1: "d_identity ?st1 = ?i" "d_stored ?st1 = stringify ?i" "d_pending ?st1 = d_pending st"
    by (simp_all add: syncIdentityUI_def)
  obtain ts where "d_pending st' = d_pending st @ ts" "length ts = 4" "\<forall>t \<in> set ts. \<forall>r \<in> set (snd t). rq_headers r = api_headers ?i"
    using reload_asks [of ?st1] unfolding st' st1 by blast
  moreover have "map_of (api_headers ?i) ''X-Session-ID'' = None"
    by (simp add: session_header)
  moreover have "d_identity st' = ?i" "d_stored st' = stringify ?i"
    using reload_asks [of ?st1] unfolding st' st1 by blast+
  ultimately show ?thesis by (auto simp: sent_session_def)
qed

theorem ended_session_left_witness:
  "fld (d_identity (end_answer (\<lambda>v. []) ''s1'' (Inr JNull) (two_memories\<lparr>d_identity := JObj [(''sessionId'', JStr ''s1'')]\<rparr>))) ''sessionId'' = JStr []"
proof -
  have "fld (d_identity (two_memories\<lparr>d_identity := JObj [(''sessionId'', JStr ''s1'')]\<rparr>)) ''sessionId'' = JStr ''s1''"
    by simp
  from ended_session_left [OF this _ refl] show ?thesis by blast
qed

end
