(* ===== verification/BulkInsert.thy ===== *)
theory BulkInsert
  imports SdkOps
begin

text \<open>
  The insertion of documents from a file (ts/apps/antfarm/src/components/Insert.tsx): the fields that
  are offered for the identifier, the template that composes it, the batch that is sent, and the
  states of the form. \<open>parse\<close> is \<open>JSON.parse\<close>; every line should be an object, as the page says, and
  reading a field of another value finds nothing. The batch goes through the operation of theory SdkOps.
\<close>

section \<open>The fields of the first line\<close>

text \<open>\<open>Object.keys\<close>, which throws on null.\<close>

fun own_keys :: "jsval \<Rightarrow> string list option" where
  "own_keys (JObj kvs) = Some (map fst kvs)"
| "own_keys (JArr vs) = Some (map show_nat [0..<length vs])"
| "own_keys (JStr s) = Some (map show_nat [0..<length s])"
| "own_keys JNull = None"
| "own_keys JUndef = None"
| "own_keys _ = Some []"

record insert_form =
  if_file :: "string option"
  if_idField :: string
  if_content :: string
  if_suggestions :: "string list"
  if_error :: "string option"
  if_success :: "string option"
  if_loading :: bool

definition start_insert :: insert_form where
  "start_insert = \<lparr>if_file = None, if_idField = [], if_content = [], if_suggestions = [], if_error = None,
     if_success = None, if_loading = False\<rparr>"

text \<open>The default key of the table's schema, when it arrives.\<close>

definition schema_key :: "jsval \<Rightarrow> jsval" where
  "schema_key response =
     (let s = fld response ''schema''; name = fld s ''default_type''; docs = fld s ''document_schemas''
      in if truthy s \<and> (own_keys s \<noteq> Some []) \<and> truthy name \<and> truthy docs
         then fld (fld docs (to_str name)) ''key'' else JUndef)"

definition schema_arrived :: "jsval res \<Rightarrow> insert_form \<Rightarrow> insert_form" where
  "schema_arrived r st =
     (case r of Inl e \<Rightarrow> st
      | Inr v \<Rightarrow> if truthy (schema_key v) then st\<lparr>if_idField := to_str (schema_key v)\<rparr> else st)"

text \<open>A file is chosen, and then read: its text, or nothing when reading fails.\<close>

definition choose_file :: "string \<Rightarrow> insert_form \<Rightarrow> insert_form" where
  "choose_file text st = st\<lparr>if_file := Some text\<rparr>"

definition file_read :: "(string \<Rightarrow> jsval option) \<Rightarrow> string option \<Rightarrow> insert_form \<Rightarrow> insert_form" where
  "file_read parse content st =
     (case content of
        None \<Rightarrow> st\<lparr>if_suggestions := []\<rparr>
      | Some c \<Rightarrow>
          (let st1 = st\<lparr>if_content := c\<rparr>; line = hd (split_on newline c)
           in if c = [] \<or> line = [] then st1
              else (case parse line of
                      None \<Rightarrow> st1\<lparr>if_suggestions := []\<rparr>
                    | Some doc \<Rightarrow> st1\<lparr>if_suggestions := (case own_keys doc of None \<Rightarrow> [] | Some ks \<Rightarrow> ks)\<rparr>)))"

definition field_template :: "string \<Rightarrow> string" where
  "field_template name = ''{{'' @ name @ ''}}''"

text \<open>The input and its selection, if it is there; else the field's value. The new value and the cursor.\<close>

definition insertFieldAtCursor ::
  "string \<Rightarrow> (string \<times> nat option \<times> nat option) option \<Rightarrow> insert_form \<Rightarrow> insert_form \<times> nat option" where
  "insertFieldAtCursor name inp st =
     (case inp of
        Some (val, a, b) \<Rightarrow>
          (let start = (case a of None \<Rightarrow> length val | Some i \<Rightarrow> i);
               stop = (case b of None \<Rightarrow> start | Some j \<Rightarrow> j)
           in (st\<lparr>if_idField := take start val @ field_template name @ drop stop val\<rparr>,
               Some (start + length (field_template name))))
      | None \<Rightarrow> (st\<lparr>if_idField := if_idField st @ field_template name\<rparr>, None))"

section \<open>The identifier\<close>

definition is_word :: "char \<Rightarrow> bool" where
  "is_word c \<longleftrightarrow> (let n = (of_char c :: nat) in
     48 \<le> n \<and> n \<le> 57 \<or> 65 \<le> n \<and> n \<le> 90 \<or> 97 \<le> n \<and> n \<le> 122 \<or> n = 95)"

text \<open>A match of \<open>/\{\{(\w+)\}\}/\<close> at the start of a text: the name and what follows.\<close>

definition match_hole :: "string \<Rightarrow> (string \<times> string) option" where
  "match_hole s =
     (if prefix ''{{'' s
      then (let w = takeWhile is_word (drop 2 s); r = dropWhile is_word (drop 2 s)
            in if w \<noteq> [] \<and> prefix ''}}'' r then Some (w, drop 2 r) else None)
      else None)"

lemma match_hole_shorter: "match_hole s = Some (w, r) \<Longrightarrow> length r < length s"
proof -
  assume "match_hole s = Some (w, r)"
  then have "prefix ''{{'' s" "r = drop 2 (dropWhile is_word (drop 2 s))"
    by (auto simp: match_hole_def Let_def split: if_splits)
  moreover have "length (dropWhile is_word (drop 2 s)) \<le> length (drop 2 s)" by (rule length_dropWhile_le)
  ultimately show ?thesis by (auto simp: prefix_def)
qed

definition missing_field :: "string \<Rightarrow> string \<Rightarrow> string" where
  "missing_field key line =
     ''Template field \"'' @ field_template key @ ''\" not found in document: '' @ take 100 line"

function expand :: "jsval \<Rightarrow> string \<Rightarrow> string \<Rightarrow> string res" where
  "expand doc line [] = Inr []"
| "expand doc line (c # s) =
     (case match_hole (c # s) of
        None \<Rightarrow> (case expand doc line s of Inl e \<Rightarrow> Inl e | Inr t \<Rightarrow> Inr (c # t))
      | Some (w, r) \<Rightarrow>
          (if nullish doc then throw_type_error
           else if nullish (fld doc w) then throw_error (missing_field w line)
           else (case expand doc line r of Inl e \<Rightarrow> Inl e | Inr t \<Rightarrow> Inr (to_str (fld doc w) @ t))))"
  by pat_completeness auto
termination
  by (relation "measure (\<lambda>(doc, line, s). length s)") (use match_hole_shorter in force)+

declare expand.simps(2) [simp del]

definition document_id :: "string \<Rightarrow> jsval \<Rightarrow> string \<Rightarrow> jsval res" where
  "document_id idField doc line =
     (if str_includes idField ''{{''
      then (case expand doc line idField of Inl e \<Rightarrow> Inl e | Inr s \<Rightarrow> Inr (JStr s))
      else fld_or_throw doc idField)"

definition empty_id :: "string \<Rightarrow> string \<Rightarrow> string" where
  "empty_id idField line =
     ''ID field \"'' @ idField @ ''\" produced an empty ID for document: '' @ take 100 line"

text \<open>A line that does not parse throws; the batch is an object, keyed by the text of the identifier.\<close>

fun collect_inserts ::
  "(string \<Rightarrow> jsval option) \<Rightarrow> string \<Rightarrow> string list \<Rightarrow> (string \<times> jsval) list \<Rightarrow> (string \<times> jsval) list res" where
  "collect_inserts parse idField [] inserts = Inr inserts"
| "collect_inserts parse idField (line # ls) inserts =
     (case parse line of
        None \<Rightarrow> Inl (ErrorObj ''SyntaxError'' ''Unexpected token'')
      | Some doc \<Rightarrow>
          (case document_id idField doc line of
             Inl e \<Rightarrow> Inl e
           | Inr i \<Rightarrow>
               if \<not> truthy i then throw_error (empty_id idField line)
               else collect_inserts parse idField ls (obj_put (to_str i) doc inserts)))"

definition file_lines :: "string \<Rightarrow> string list" where
  "file_lines content = filter (\<lambda>l. trim l \<noteq> []) (split_on newline content)"

definition file_inserts :: "(string \<Rightarrow> jsval option) \<Rightarrow> string \<Rightarrow> string \<Rightarrow> (string \<times> jsval) list res" where
  "file_inserts parse idField content = collect_inserts parse idField (file_lines content) []"

definition submit_insert :: "string \<Rightarrow> insert_form \<Rightarrow> insert_form" where
  "submit_insert tableName st =
     (if if_file st = None \<or> if_idField st = [] \<or> tableName = []
      then st\<lparr>if_error := Some ''Please select a file and specify the ID field.''\<rparr>
      else st\<lparr>if_loading := True, if_error := None, if_success := None\<rparr>)"

text \<open>The file has been read again and the batch, if one was sent, answered.\<close>

definition insert_failed_with :: "js_exn \<Rightarrow> insert_form \<Rightarrow> insert_form" where
  "insert_failed_with e st =
     st\<lparr>if_error := Some (case e of ErrorObj _ m \<Rightarrow> ''Failed to process file: '' @ m | NonError _ \<Rightarrow> ''An unknown error occurred.''),
        if_loading := False\<rparr>"

definition insert_read ::
  "(string \<Rightarrow> jsval option) \<Rightarrow> api \<Rightarrow> antfly_client \<Rightarrow> string \<Rightarrow> string \<Rightarrow> string option \<Rightarrow> insert_form \<Rightarrow> insert_form" where
  "insert_read parse api cl tableName idField content st =
     (case content of
        None \<Rightarrow> st\<lparr>if_error := Some ''Failed to read file.'', if_loading := False\<rparr>
      | Some c \<Rightarrow>
          (if c = [] then st\<lparr>if_error := Some ''Failed to read file content.'', if_loading := False\<rparr>
           else (case file_inserts parse idField c of
                   Inl e \<Rightarrow> insert_failed_with e st
                 | Inr inserts \<Rightarrow>
                     (case tables_batch api cl tableName (JObj [(''inserts'', JObj inserts)]) of
                        Inl e \<Rightarrow> insert_failed_with e st
                      | Inr v \<Rightarrow>
                          st\<lparr>if_success := Some (''Successfully inserted '' @ show_nat (length inserts) @ '' documents.''),
                             if_file := None, if_idField := [], if_content := [], if_suggestions := [],
                             if_loading := False\<rparr>))))"

section \<open>Templates\<close>

text \<open>A template as its parts, and what it stands for: every hole replaced by the field's text.\<close>

datatype part = Plain string | Hole string

definition part_source :: "part \<Rightarrow> string" where
  "part_source p = (case p of Plain s \<Rightarrow> s | Hole w \<Rightarrow> field_template w)"

definition part_value :: "jsval \<Rightarrow> part \<Rightarrow> string" where
  "part_value doc p = (case p of Plain s \<Rightarrow> s | Hole w \<Rightarrow> to_str (fld doc w))"

definition part_ok :: "jsval \<Rightarrow> part \<Rightarrow> bool" where
  "part_ok doc p = (case p of Plain s \<Rightarrow> CHR ''{'' \<notin> set s
     | Hole w \<Rightarrow> w \<noteq> [] \<and> list_all is_word w \<and> \<not> nullish (fld doc w))"

lemma match_hole_plain: "c \<noteq> CHR ''{'' \<Longrightarrow> match_hole (c # s) = None"
  by (simp add: match_hole_def)

lemma not_word: "\<not> is_word (CHR ''}'')" "\<not> is_word (CHR ''{'')"
  by (simp_all add: is_word_def)

lemma match_hole_template:
  assumes "w \<noteq> []" "list_all is_word w"
  shows "match_hole (field_template w @ s) = Some (w, s)"
proof -
  have "takeWhile is_word (w @ ''}}'' @ s) = w" "dropWhile is_word (w @ ''}}'' @ s) = ''}}'' @ s"
    using assms(2) by (induction w) (simp_all add: not_word)
  then show ?thesis using assms(1) by (simp add: match_hole_def field_template_def)
qed

lemma expand_plain:
  "CHR ''{'' \<notin> set p \<Longrightarrow> expand doc line (p @ s) = (case expand doc line s of Inl e \<Rightarrow> Inl e | Inr t \<Rightarrow> Inr (p @ t))"
  by (induction p) (auto simp: expand.simps(2) match_hole_plain split: sum.split)

lemma expand_hole:
  assumes "w \<noteq> []" "list_all is_word w"
  shows "expand doc line (field_template w @ s) =
     (if nullish doc then throw_type_error
      else if nullish (fld doc w) then throw_error (missing_field w line)
      else (case expand doc line s of Inl e \<Rightarrow> Inl e | Inr t \<Rightarrow> Inr (to_str (fld doc w) @ t)))"
proof -
  obtain c r where cr: "field_template w @ s = c # r" by (simp add: field_template_def)
  show ?thesis
    using match_hole_template [OF assms, of s] unfolding cr by (simp add: expand.simps(2))
qed

text \<open>A template composes the identifier from its parts: the text between the holes as it stands and
  the values of the named fields, when the document has them all.\<close>

theorem template_composes_id:
  assumes "list_all (part_ok (JObj kvs)) ps"
  shows "expand (JObj kvs) line (concat (map part_source ps)) = Inr (concat (map (part_value (JObj kvs)) ps))"
  using assms
proof (induction ps)
  case (Cons p ps)
  then show ?case
    by (cases p) (auto simp: part_source_def part_value_def part_ok_def expand_plain expand_hole nullish_def)
qed simp

theorem template_composes_id_witness:
  "expand (JObj [(''category'', JStr ''news''), (''slug'', JStr ''7'')]) ''line'' ''{{category}}-{{slug}}'' = Inr ''news-7''"
proof -
  have "list_all (part_ok (JObj [(''category'', JStr ''news''), (''slug'', JStr ''7'')])) [Hole ''category'', Plain ''-'', Hole ''slug'']"
    by (simp add: part_ok_def nullish_def is_word_def)
  from template_composes_id [OF this, of "''line''"] show ?thesis
    by (simp add: part_source_def part_value_def field_template_def)
qed

text \<open>A field that the document lacks, or has as null, is an error that names it.\<close>

theorem missing_field_named:
  assumes "w \<noteq> []" "list_all is_word w" "CHR ''{'' \<notin> set p" "nullish (fld (JObj kvs) w)"
  shows "expand (JObj kvs) line (p @ field_template w @ s) = throw_error (missing_field w line)"
  using assms by (simp add: expand_plain expand_hole nullish_def)

theorem missing_field_named_witness:
  "expand (JObj []) ''{}'' ''doc-{{id}}'' = throw_error (missing_field ''id'' ''{}'')"
  using missing_field_named [of "''id''" "''doc-''" "[]" "''{}''" "[]"] by (simp add: is_word_def nullish_def field_template_def)

text \<open>A field whose name has another character, such as a dash or a dot, is offered and inserted as
  a hole all the same, but is never filled: the identifier is the template itself, for every document,
  so that of a whole file only the last document is inserted, and the page reports success for one.\<close>

lemma unfilled_hole: "expand doc line ''{{a-b}}'' = Inr ''{{a-b}}''"
proof -
  have none: "match_hole ''{{a-b}}'' = None" "match_hole ''{a-b}}'' = None"
    by (simp_all add: match_hole_def is_word_def)
  have "expand doc line ''a-b}}'' = Inr ''a-b}}''"
    using expand_plain [of "''a-b}}''" doc line "[]"] by simp
  then show ?thesis by (simp add: expand.simps(2) none)
qed

theorem offered_field_collapses_file:
  assumes "ls \<noteq> []" "\<forall>l \<in> set ls. \<exists>d. parse l = Some d"
  shows "collect_inserts parse (if_idField (fst (insertFieldAtCursor ''a-b'' None start_insert))) ls []
     = Inr [(''{{a-b}}'', the (parse (last ls)))]"
proof -
  have incl: "str_includes ''{{a-b}}'' ''{{'' " by (simp add: str_includes_def sublist_code)
  have run: "collect_inserts parse ''{{a-b}}'' ls (obj_put ''{{a-b}}'' d [])
      = Inr [(''{{a-b}}'', if ls = [] then d else the (parse (last ls)))]"
    if "\<forall>l \<in> set ls. \<exists>d. parse l = Some d" for d ls
    using that by (induction ls arbitrary: d) (auto simp: document_id_def incl unfilled_hole obj_put_def)
  obtain l ls' d where "ls = l # ls'" "parse l = Some d" using assms by (cases ls) auto
  then show ?thesis
    using run [of ls' d] assms
    by (simp add: insertFieldAtCursor_def start_insert_def field_template_def document_id_def incl unfilled_hole)
qed

theorem offered_field_collapses_file_witness:
  "collect_inserts (\<lambda>l. Some (JStr l)) (if_idField (fst (insertFieldAtCursor ''a-b'' None start_insert))) [''x'', ''y''] []
   = Inr [(''{{a-b}}'', JStr ''y'')]"
  using offered_field_collapses_file [of "[''x'', ''y'']" "\<lambda>l. Some (JStr l)"] by simp

section \<open>The batch\<close>

lemma collect_inserts_result:
  assumes "collect_inserts parse idField ls inserts = Inr out"
  shows "\<exists>ids docs. length ids = length ls \<and> length docs = length ls
    \<and> (\<forall>j < length ls. parse (ls ! j) = Some (docs ! j)
         \<and> (\<exists>i. document_id idField (docs ! j) (ls ! j) = Inr i \<and> truthy i \<and> ids ! j = to_str i))
    \<and> out = fold (\<lambda>(i, d). obj_put i d) (zip ids docs) inserts"
  using assms
proof (induction ls arbitrary: inserts)
  case (Cons l ls)
  obtain doc i where d: "parse l = Some doc" "document_id idField doc l = Inr i" "truthy i"
    and rest: "collect_inserts parse idField ls (obj_put (to_str i) doc inserts) = Inr out"
    using Cons.prems by (auto split: option.splits sum.splits if_splits)
  obtain ids docs where ih: "length ids = length ls" "length docs = length ls"
    "\<forall>j < length ls. parse (ls ! j) = Some (docs ! j)
       \<and> (\<exists>i. document_id idField (docs ! j) (ls ! j) = Inr i \<and> truthy i \<and> ids ! j = to_str i)"
    "out = fold (\<lambda>(i, d). obj_put i d) (zip ids docs) (obj_put (to_str i) doc inserts)"
    using Cons.IH [OF rest] by blast
  show ?case
    using ih d by (intro exI [of _ "to_str i # ids"] exI [of _ "doc # docs"]) (auto simp: nth_Cons split: nat.split)
qed simp

lemma map_of_fold_put: "map_of (fold (\<lambda>(i, d). obj_put i d) ps acc) = map_of acc ++ map_of (rev ps)"
  by (induction ps arbitrary: acc) (auto simp: map_add_def fun_eq_iff split: option.split)

lemma keys_fold_put: "distinct (map fst acc) \<Longrightarrow>
    distinct (map fst (fold (\<lambda>(i, d). obj_put i d) ps acc))
    \<and> fst ` set (fold (\<lambda>(i, d). obj_put i d) ps acc) = fst ` set acc \<union> fst ` set ps"
proof (induction ps arbitrary: acc)
  case (Cons p ps)
  obtain i d where p: "p = (i, d)" by (cases p)
  have "distinct (map fst (obj_put i d acc))" "fst ` set (obj_put i d acc) = insert i (fst ` set acc)"
    using Cons.prems by (simp_all add: obj_put_def distinct_update dom_update)
  then show ?case using Cons.IH [of "obj_put i d acc"] by (simp add: p)
qed simp

text \<open>C25. A file that is sent has every line's document under its own identifier, the last one where
  several share it, and nothing else; the number that the page reports is the number of different
  identifiers, not of lines.\<close>

theorem batch_holds_documents:
  assumes "file_inserts parse idField content = Inr inserts"
  shows "\<exists>ids docs. length ids = length (file_lines content) \<and> length docs = length (file_lines content)
    \<and> (\<forall>j < length ids. parse (file_lines content ! j) = Some (docs ! j)
         \<and> (\<exists>i. document_id idField (docs ! j) (file_lines content ! j) = Inr i \<and> truthy i \<and> ids ! j = to_str i))
    \<and> map_of inserts = map_of (rev (zip ids docs)) \<and> length inserts = card (set ids)"
proof -
  obtain ids docs where r: "length ids = length (file_lines content)" "length docs = length (file_lines content)"
    "\<forall>j < length (file_lines content). parse (file_lines content ! j) = Some (docs ! j)
       \<and> (\<exists>i. document_id idField (docs ! j) (file_lines content ! j) = Inr i \<and> truthy i \<and> ids ! j = to_str i)"
    "inserts = fold (\<lambda>(i, d). obj_put i d) (zip ids docs) []"
    using collect_inserts_result [OF assms [unfolded file_inserts_def]] by blast
  have keys: "distinct (map fst inserts)" "fst ` set inserts = fst ` set (zip ids docs)"
    using keys_fold_put [of "[]" "zip ids docs"] by (simp_all add: r(4))
  have "map fst (zip ids docs) = ids" using r(1,2) by simp
  then have "fst ` set (zip ids docs) = set ids" by (metis set_map)
  then have "card (set ids) = length inserts"
    using keys distinct_card [of "map fst inserts"] by simp
  moreover have "map_of inserts = map_of (rev (zip ids docs))"
    by (simp add: r(4) map_of_fold_put)
  ultimately show ?thesis using r by metis
qed

theorem batch_holds_documents_witness:
  "\<exists>ids docs. length ids = (2 :: nat) \<and> map_of [(''k'', JObj [(''id'', JStr ''k'')])] = map_of (rev (zip ids docs))
     \<and> card (set ids) = 1"
proof -
  let ?c = "''x'' @ [newline] @ ''y''"
  have ls: "file_lines ?c = [''x'', ''y'']" by code_simp
  have "\<not> str_includes ''id'' ''{{''" by code_simp
  then have "file_inserts (\<lambda>l. Some (JObj [(''id'', JStr ''k'')])) ''id'' ?c = Inr [(''k'', JObj [(''id'', JStr ''k'')])]"
    unfolding file_inserts_def ls by (simp add: document_id_def fld_or_throw_def nullish_def obj_put_def)
  from batch_holds_documents [OF this, unfolded ls] obtain ids docs where "length ids = length [''x'', ''y'']"
    "map_of [(''k'', JObj [(''id'', JStr ''k'')])] = map_of (rev (zip ids docs))" "length [(''k'', JObj [(''id'', JStr ''k'')])] = card (set ids)"
    by blast
  then show ?thesis by (intro exI [of _ ids] exI [of _ docs]) simp
qed

text \<open>A numeric identifier of zero is rejected as an empty one, although the same document is
  accepted when the field is named by a template.\<close>

theorem zero_id_rejected:
  "collect_inserts (\<lambda>l. Some (JObj [(''id'', JNum 0)])) ''id'' [''line''] [] = throw_error (empty_id ''id'' ''line'')
   \<and> collect_inserts (\<lambda>l. Some (JObj [(''id'', JNum 0)])) ''{{id}}'' [''line''] [] = Inr [(to_str (JNum 0), JObj [(''id'', JNum 0)])]"
proof -
  have incl: "\<not> str_includes ''id'' ''{{''" "str_includes ''{{id}}'' ''{{''"
    by (simp_all add: str_includes_def sublist_code)
  have "expand (JObj [(''id'', JNum 0)]) ''line'' (field_template ''id'' @ []) = Inr (to_str (JNum 0))"
    by (subst expand_hole) (simp_all add: is_word_def nullish_def)
  then have id0: "expand (JObj [(''id'', JNum 0)]) ''line'' ''{{id}}'' = Inr (to_str (JNum 0))"
    by (simp add: field_template_def)
  have "to_str (JNum 0) \<noteq> []"
    by (simp add: show_rat_def Let_def) (metis append_is_Nil_conv list.distinct(1) show_nat.simps)
  then show ?thesis
    by (simp add: document_id_def incl id0 fld_or_throw_def nullish_def obj_put_def del: to_str.simps(4))
qed

text \<open>An upload settles: whatever the file holds and the service answers, the page stops loading and
  says either that the documents are inserted, with an empty form, or what went wrong, with the form
  as it was.\<close>

theorem insert_settles:
  assumes "st' = insert_read parse api cl tableName idField content (submit_insert tableName st)"
    and "if_file st \<noteq> None" "if_idField st \<noteq> []" "tableName \<noteq> []"
  shows "\<not> if_loading st' \<and>
    (if_error st' = None \<and> if_success st' \<noteq> None \<and> if_file st' = None \<and> if_idField st' = []
     \<or> (\<exists>m. if_error st' = Some m) \<and> if_success st' = None \<and> if_file st' = if_file st \<and> if_idField st' = if_idField st)"
  using assms
  by (auto simp: insert_read_def submit_insert_def insert_failed_with_def split: option.splits sum.splits)

theorem insert_settles_witness:
  "\<not> if_loading (insert_read (\<lambda>l. None) (\<lambda>a b. undefined) (new_client undefined) ''t'' ''id'' None
     (submit_insert ''t'' (start_insert\<lparr>if_file := Some ''x'', if_idField := ''id''\<rparr>)))"
  using insert_settles [OF refl, of "start_insert\<lparr>if_file := Some ''x'', if_idField := ''id''\<rparr>" "''t''"] by simp

text \<open>The default key of the table's schema replaces whatever the user has typed by the time it
  arrives.\<close>

theorem late_schema_replaces_field:
  "if_idField (schema_arrived (Inr (JObj [(''schema'', JObj [(''default_type'', JStr ''doc''),
      (''document_schemas'', JObj [(''doc'', JObj [(''key'', JStr ''id'')])])])])) (start_insert\<lparr>if_idField := ''{{a}}-{{b}}''\<rparr>)) = ''id''"
  by (simp add: schema_arrived_def schema_key_def)

end
