(* ===== verification/AdminPages.thy ===== *)
theory AdminPages
  imports MemoryViews Session SdkOps
begin

text \<open>
  Two pages of the dashboard for administrators (ts/apps/antfarm/src/pages): the secrets of the server
  (SecretsPage.tsx) and the users with their permissions (UsersPage.tsx). A handler that awaits the
  service is split: it starts a call, and the answer, whenever it comes, runs the rest. \<open>parse\<close> is
  \<open>JSON.parse\<close>.
\<close>

section \<open>Secrets\<close>

definition common_secrets :: "(string \<times> string) list" where
  "common_secrets =
     [(''openai.api_key'', ''OpenAI''), (''anthropic.api_key'', ''Anthropic''), (''gemini.api_key'', ''Gemini''),
      (''cohere.api_key'', ''Cohere''), (''openrouter.api_key'', ''OpenRouter'')]"

definition authHeaders :: "(string \<Rightarrow> jsval option) \<Rightarrow> string option \<Rightarrow> (string \<times> string) list" where
  "authHeaders parse stored =
     (''Content-Type'', ''application/json'')
     # (case stored of
          None \<Rightarrow> []
        | Some s \<Rightarrow> (case (if s = [] then None else parse s) of
             None \<Rightarrow> []
           | Some v \<Rightarrow> if nullish v then []
               else [(''Authorization'', ''Basic '' @ btoa (to_str (fld v ''username'') @ '':'' @ to_str (fld v ''password'')))]))"

text \<open>What a fetch comes to: no connection, or a status with a body that may not be JSON.\<close>

datatype page_reply = Down string | Reply bool nat "jsval option"

definition body_of :: "jsval option \<Rightarrow> jsval res" where
  "body_of b = (case b of None \<Rightarrow> Inl (ErrorObj ''SyntaxError'' ''Unexpected end of JSON input'')
     | Some v \<Rightarrow> if nullish v then throw_type_error else Inr v)"

record secrets_page =
  sp_secrets :: "jsval list"
  sp_loading :: bool
  sp_error :: string
  sp_swarm :: bool
  sp_dialog :: bool
  sp_key :: string
  sp_value :: string
  sp_showValue :: bool
  sp_addError :: string
  sp_preset :: string
  sp_calls :: "(string \<times> string \<times> jsval option) list"

definition start_secrets :: secrets_page where
  "start_secrets = \<lparr>sp_secrets = [], sp_loading = False, sp_error = [], sp_swarm = False, sp_dialog = False, sp_key = [],
     sp_value = [], sp_showValue = False, sp_addError = [], sp_preset = [], sp_calls = []\<rparr>"

definition call_secrets :: "string \<Rightarrow> string \<Rightarrow> jsval option \<Rightarrow> secrets_page \<Rightarrow> secrets_page" where
  "call_secrets m path body st = st\<lparr>sp_calls := sp_calls st @ [(m, path, body)]\<rparr>"

definition mode_answer :: "page_reply \<Rightarrow> secrets_page \<Rightarrow> secrets_page" where
  "mode_answer r st =
     (case r of
        Reply True _ (Some v) \<Rightarrow> if nullish v then st else st\<lparr>sp_swarm := (fld v ''swarm_mode'' = JBool True)\<rparr>
      | _ \<Rightarrow> st)"

definition fetchSecrets :: "string \<Rightarrow> secrets_page \<Rightarrow> secrets_page" where
  "fetchSecrets apiUrl st = call_secrets ''GET'' (apiUrl @ ''/secrets'') None (st\<lparr>sp_loading := True, sp_error := []\<rparr>)"

definition secrets_answer :: "page_reply \<Rightarrow> secrets_page \<Rightarrow> secrets_page" where
  "secrets_answer r st =
     (case (case r of Down m \<Rightarrow> Inl (ErrorObj ''TypeError'' m)
            | Reply ok status body \<Rightarrow> if ok then body_of body else throw_error (''HTTP '' @ show_nat status)) of
        Inl e \<Rightarrow> st\<lparr>sp_error := message_of ''Failed to load secrets'' e, sp_loading := False\<rparr>
      | Inr v \<Rightarrow> st\<lparr>sp_secrets := elems (js_or (fld v ''secrets'') (JArr [])), sp_loading := False\<rparr>)"

definition secret_char :: "char \<Rightarrow> bool" where
  "secret_char c \<longleftrightarrow> is_alnum c \<or> c \<in> set ''._-''"

definition secret_key_ok :: "string \<Rightarrow> bool" where
  "secret_key_ok key \<longleftrightarrow> key \<noteq> [] \<and> list_all secret_char key"

definition handleAddSecret :: "string \<Rightarrow> secrets_page \<Rightarrow> secrets_page" where
  "handleAddSecret apiUrl st =
     (let key = trim (sp_key st); st1 = st\<lparr>sp_addError := []\<rparr>
      in if key = [] \<or> sp_value st = [] then st1\<lparr>sp_addError := ''Key and value are required''\<rparr>
         else if \<not> secret_key_ok key
         then st1\<lparr>sp_addError := ''Invalid key format. Use letters, numbers, dots, dashes, or underscores.''\<rparr>
         else call_secrets ''PUT'' (apiUrl @ ''/secrets/'' @ encodeURIComponent key)
                (Some (JObj [(''value'', JStr (sp_value st))])) st1)"

definition refused :: "string \<Rightarrow> jsval option \<Rightarrow> js_exn" where
  "refused other body =
     (case body_of body of Inl e \<Rightarrow> e | Inr v \<Rightarrow> ErrorObj ''Error'' (to_str (js_or (fld v ''error'') (JStr other))))"

definition add_answer :: "string \<Rightarrow> page_reply \<Rightarrow> secrets_page \<Rightarrow> secrets_page" where
  "add_answer apiUrl r st =
     (let failed = (\<lambda>e. st\<lparr>sp_addError := message_of ''Failed to store secret'' e\<rparr>)
      in case r of
        Down m \<Rightarrow> failed (ErrorObj ''TypeError'' m)
      | Reply ok status body \<Rightarrow>
          (if ok then fetchSecrets apiUrl (st\<lparr>sp_dialog := False, sp_key := [], sp_value := [], sp_showValue := False, sp_preset := []\<rparr>)
           else failed (refused ''Failed to store secret'' body)))"

definition handleDeleteSecret :: "string \<Rightarrow> bool \<Rightarrow> string \<Rightarrow> secrets_page \<Rightarrow> secrets_page" where
  "handleDeleteSecret apiUrl confirmed key st =
     (if confirmed then call_secrets ''DELETE'' (apiUrl @ ''/secrets/'' @ encodeURIComponent key) None st else st)"

definition secret_deleted :: "string \<Rightarrow> page_reply \<Rightarrow> secrets_page \<Rightarrow> secrets_page" where
  "secret_deleted apiUrl r st =
     (let failed = (\<lambda>e. st\<lparr>sp_error := message_of ''Failed to delete secret'' e\<rparr>)
      in case r of
        Down m \<Rightarrow> failed (ErrorObj ''TypeError'' m)
      | Reply ok status body \<Rightarrow>
          (if ok \<or> status = 204 then fetchSecrets apiUrl st else failed (refused ''Failed to delete secret'' body)))"

definition handlePresetChange :: "string \<Rightarrow> secrets_page \<Rightarrow> secrets_page" where
  "handlePresetChange v st =
     st\<lparr>sp_preset := v, sp_key := (if v \<noteq> [] \<and> v \<noteq> ''custom'' then v else [])\<rparr>"

definition quick_add :: "string \<Rightarrow> secrets_page \<Rightarrow> secrets_page" where
  "quick_add key st = st\<lparr>sp_preset := key, sp_key := key, sp_value := [], sp_dialog := True\<rparr>"

definition configured_key :: "secrets_page \<Rightarrow> string \<Rightarrow> bool" where
  "configured_key st key \<longleftrightarrow> (\<exists>e \<in> set (sp_secrets st). fld e ''key'' = JStr key)"

definition quick_keys :: "secrets_page \<Rightarrow> (string \<times> string) list" where
  "quick_keys st = filter (\<lambda>s. \<not> configured_key st (fst s)) common_secrets"

definition all_configured :: "secrets_page \<Rightarrow> bool" where
  "all_configured st \<longleftrightarrow> list_all (\<lambda>s. configured_key st (fst s)) common_secrets"

definition key_input_shown :: "secrets_page \<Rightarrow> bool" where
  "key_input_shown st \<longleftrightarrow> sp_preset st = ''custom'' \<or> sp_preset st = []"

definition delete_offered :: "secrets_page \<Rightarrow> jsval \<Rightarrow> bool" where
  "delete_offered st secret \<longleftrightarrow>
     sp_swarm st \<and> (fld secret ''status'' = JStr ''configured_keystore'' \<or> fld secret ''status'' = JStr ''configured_both'')"

definition isHttpNonLocal :: "string \<Rightarrow> string \<Rightarrow> bool" where
  "isHttpNonLocal protocol hostname \<longleftrightarrow> protocol = ''http:'' \<and> hostname \<notin> set [''localhost'', ''127.0.0.1'', ''[::1]'']"

datatype secrets_event =
    SMode page_reply
  | SListed page_reply
  | SPreset string
  | SKey string
  | SValue string
  | SShow
  | SQuick string
  | SDialog bool
  | SStore
  | SStored page_reply
  | SDelete bool string
  | SDeleted page_reply

fun secrets_step :: "string \<Rightarrow> secrets_event \<Rightarrow> secrets_page \<Rightarrow> secrets_page" where
  "secrets_step u (SMode r) st = mode_answer r st"
| "secrets_step u (SListed r) st = secrets_answer r st"
| "secrets_step u (SPreset v) st = handlePresetChange v st"
| "secrets_step u (SKey k) st = (if key_input_shown st then st\<lparr>sp_key := k\<rparr> else st)"
| "secrets_step u (SValue v) st = st\<lparr>sp_value := v\<rparr>"
| "secrets_step u SShow st = st\<lparr>sp_showValue := \<not> sp_showValue st\<rparr>"
| "secrets_step u (SQuick k) st = (if k \<in> set (map fst (quick_keys st)) then quick_add k st else st)"
| "secrets_step u (SDialog b) st = st\<lparr>sp_dialog := b\<rparr>"
| "secrets_step u SStore st = handleAddSecret u st"
| "secrets_step u (SStored r) st = add_answer u r st"
| "secrets_step u (SDelete c k) st = handleDeleteSecret u c k st"
| "secrets_step u (SDeleted r) st = secret_deleted u r st"

section \<open>Users\<close>

text \<open>A user of the list is one whose name is a text.\<close>

definition valid_users :: "jsval \<Rightarrow> jsval list" where
  "valid_users v = filter (\<lambda>u. is_string (fld u ''username'')) (elems v)"

datatype user_call =
    CList
  | CPermissions string
  | CCreate string string
  | CDeleteUser string
  | CAddPermission string jsval
  | CRemovePermission string jsval jsval
  | CPassword string string

record users_page =
  up_users :: "jsval list"
  up_selected :: "string option"
  up_permissions :: "jsval list"
  up_loading :: bool
  up_error :: string
  up_create :: bool
  up_newName :: string
  up_newPassword :: string
  up_createError :: string
  up_addPerm :: bool
  up_resource :: string
  up_resourceType :: string
  up_permType :: string
  up_passwordDialog :: bool
  up_passwordValue :: string
  up_passwordError :: string
  up_calls :: "user_call list"

definition start_users :: users_page where
  "start_users = \<lparr>up_users = [], up_selected = None, up_permissions = [], up_loading = False, up_error = [], up_create = False,
     up_newName = [], up_newPassword = [], up_createError = [], up_addPerm = False, up_resource = [], up_resourceType = ''table'',
     up_permType = ''read'', up_passwordDialog = False, up_passwordValue = [], up_passwordError = [], up_calls = []\<rparr>"

definition users_client :: "(string \<Rightarrow> jsval option) \<Rightarrow> string \<Rightarrow> string option \<Rightarrow> antfly_client" where
  "users_client parse apiUrl stored =
     (case stored of
        None \<Rightarrow> page_client apiUrl
      | Some s \<Rightarrow> (case (if s = [] then None else parse s) of
           None \<Rightarrow> page_client apiUrl
         | Some v \<Rightarrow> if nullish v then page_client apiUrl
             else createClient apiUrl (to_str (fld v ''username'')) (to_str (fld v ''password''))))"

definition call_users :: "user_call \<Rightarrow> users_page \<Rightarrow> users_page" where
  "call_users c st = st\<lparr>up_calls := up_calls st @ [c]\<rparr>"

definition fetchUsers :: "users_page \<Rightarrow> users_page" where
  "fetchUsers st = call_users CList (st\<lparr>up_loading := True, up_error := []\<rparr>)"

definition fetchPermissions :: "string \<Rightarrow> users_page \<Rightarrow> users_page" where
  "fetchPermissions username st = call_users (CPermissions username) (st\<lparr>up_error := []\<rparr>)"

text \<open>Selecting a user, whose change runs the effect that fetches the permissions.\<close>

definition select_user :: "string \<Rightarrow> users_page \<Rightarrow> users_page" where
  "select_user username st =
     (if up_selected st = Some username then st
      else (let st1 = st\<lparr>up_selected := Some username\<rparr> in if username = [] then st1 else fetchPermissions username st1))"

definition handleCreateUser :: "users_page \<Rightarrow> users_page" where
  "handleCreateUser st =
     (if up_newName st = [] \<or> up_newPassword st = []
      then st\<lparr>up_createError := ''Username and password are required''\<rparr>
      else call_users (CCreate (up_newName st) (up_newPassword st)) (st\<lparr>up_createError := []\<rparr>))"

definition handleDeleteUser :: "bool \<Rightarrow> string \<Rightarrow> users_page \<Rightarrow> users_page" where
  "handleDeleteUser confirmed username st = (if confirmed then call_users (CDeleteUser username) st else st)"

definition chosen_user :: "users_page \<Rightarrow> string option" where
  "chosen_user st = (case up_selected st of Some u \<Rightarrow> if u = [] then None else Some u | None \<Rightarrow> None)"

definition handleAddPermission :: "users_page \<Rightarrow> users_page" where
  "handleAddPermission st =
     (case chosen_user st of
        None \<Rightarrow> st
      | Some u \<Rightarrow>
          (if up_resource st = [] then st
           else call_users (CAddPermission u (JObj [(''resource'', JStr (up_resource st)),
                  (''resource_type'', JStr (up_resourceType st)), (''type'', JStr (up_permType st))])) st))"

definition handleRemovePermission :: "jsval \<Rightarrow> users_page \<Rightarrow> users_page" where
  "handleRemovePermission perm st =
     (case chosen_user st of
        None \<Rightarrow> st
      | Some u \<Rightarrow> call_users (CRemovePermission u (fld perm ''resource'') (fld perm ''resource_type'')) st)"

definition handleChangePassword :: "users_page \<Rightarrow> users_page" where
  "handleChangePassword st =
     (case chosen_user st of
        None \<Rightarrow> st\<lparr>up_passwordError := ''Password is required''\<rparr>
      | Some u \<Rightarrow>
          (if up_passwordValue st = [] then st\<lparr>up_passwordError := ''Password is required''\<rparr>
           else call_users (CPassword u (up_passwordValue st)) st))"

definition open_password :: "string \<Rightarrow> users_page \<Rightarrow> users_page" where
  "open_password username st = (select_user username st)\<lparr>up_passwordDialog := True\<rparr>"

definition close_password :: "users_page \<Rightarrow> users_page" where
  "close_password st = st\<lparr>up_passwordDialog := False, up_passwordError := []\<rparr>"

text \<open>The rest of a handler after its call.\<close>

definition user_failed :: "string \<Rightarrow> js_exn \<Rightarrow> users_page \<Rightarrow> users_page" where
  "user_failed other e st = st\<lparr>up_error := message_of other e\<rparr>"

fun user_answer :: "user_call \<Rightarrow> jsval res \<Rightarrow> users_page \<Rightarrow> users_page" where
  "user_answer CList (Inr v) st = st\<lparr>up_users := valid_users (js_or v (JArr [])), up_loading := False\<rparr>"
| "user_answer CList (Inl e) st = (user_failed ''Failed to load users'' e st)\<lparr>up_loading := False\<rparr>"
| "user_answer (CPermissions u) (Inr v) st = st\<lparr>up_permissions := elems (js_or v (JArr []))\<rparr>"
| "user_answer (CPermissions u) (Inl e) st = user_failed ''Failed to load permissions'' e st"
| "user_answer (CCreate u p) (Inr v) st = fetchUsers (st\<lparr>up_create := False, up_newName := [], up_newPassword := []\<rparr>)"
| "user_answer (CCreate u p) (Inl e) st = st\<lparr>up_createError := message_of ''Failed to create user'' e\<rparr>"
| "user_answer (CDeleteUser u) (Inr v) st =
     fetchUsers (if up_selected st = Some u then st\<lparr>up_selected := None, up_permissions := []\<rparr> else st)"
| "user_answer (CDeleteUser u) (Inl e) st = user_failed ''Failed to delete user'' e st"
| "user_answer (CAddPermission u p) (Inr v) st =
     fetchPermissions u (st\<lparr>up_addPerm := False, up_resource := [], up_resourceType := ''table'', up_permType := ''read''\<rparr>)"
| "user_answer (CAddPermission u p) (Inl e) st = user_failed ''Failed to add permission'' e st"
| "user_answer (CRemovePermission u a b) (Inr v) st = fetchPermissions u st"
| "user_answer (CRemovePermission u a b) (Inl e) st = user_failed ''Failed to remove permission'' e st"
| "user_answer (CPassword u p) (Inr v) st = st\<lparr>up_passwordDialog := False, up_passwordValue := [], up_passwordError := []\<rparr>"
| "user_answer (CPassword u p) (Inl e) st = st\<lparr>up_passwordError := message_of ''Failed to change password'' e\<rparr>"

text \<open>What a call asks of the SDK.\<close>

fun perform_call :: "api \<Rightarrow> antfly_client \<Rightarrow> user_call \<Rightarrow> jsval res" where
  "perform_call ap cl CList = users_list ap cl"
| "perform_call ap cl (CPermissions u) = users_getPermissions ap cl u"
| "perform_call ap cl (CCreate u p) = users_create ap cl u (JObj [(''password'', JStr p)])"
| "perform_call ap cl (CDeleteUser u) = users_delete ap cl u"
| "perform_call ap cl (CAddPermission u p) = users_addPermission ap cl u p"
| "perform_call ap cl (CRemovePermission u a b) = users_removePermission ap cl u (to_str a) (to_str b)"
| "perform_call ap cl (CPassword u p) = users_updatePassword ap cl u p"

section \<open>What is stored\<close>

lemma encode_plain: "list_all secret_char key \<Longrightarrow> encodeURIComponent key = key"
  by (induction key) (auto simp: encodeURIComponent_def secret_char_def)

text \<open>The provider that the dialog shows is the one whose key is stored, and the value typed is the one
  that was typed: an invariant of every sequence of events.\<close>

definition preset_ok :: "secrets_page \<Rightarrow> bool" where
  "preset_ok st \<longleftrightarrow> (\<not> key_input_shown st \<longrightarrow> sp_key st = sp_preset st)"

lemma fetchSecrets_fields [simp]:
  "sp_key (fetchSecrets u st) = sp_key st" "sp_preset (fetchSecrets u st) = sp_preset st"
  by (simp_all add: fetchSecrets_def call_secrets_def)

lemma kept_fields:
  "sp_key (mode_answer r st) = sp_key st \<and> sp_preset (mode_answer r st) = sp_preset st"
  "sp_key (secrets_answer r st) = sp_key st \<and> sp_preset (secrets_answer r st) = sp_preset st"
  "sp_key (handleAddSecret u st) = sp_key st \<and> sp_preset (handleAddSecret u st) = sp_preset st"
  "sp_key (handleDeleteSecret u c k st) = sp_key st \<and> sp_preset (handleDeleteSecret u c k st) = sp_preset st"
  "sp_key (secret_deleted u r st) = sp_key st \<and> sp_preset (secret_deleted u r st) = sp_preset st"
proof -
  show "sp_key (mode_answer r st) = sp_key st \<and> sp_preset (mode_answer r st) = sp_preset st"
    by (simp add: mode_answer_def split: page_reply.split option.split bool.split)
  show "sp_key (secrets_answer r st) = sp_key st \<and> sp_preset (secrets_answer r st) = sp_preset st"
    by (simp only: secrets_answer_def split: sum.split) simp
  show "sp_key (handleAddSecret u st) = sp_key st \<and> sp_preset (handleAddSecret u st) = sp_preset st"
    by (simp add: handleAddSecret_def call_secrets_def Let_def)
  show "sp_key (handleDeleteSecret u c k st) = sp_key st \<and> sp_preset (handleDeleteSecret u c k st) = sp_preset st"
    by (simp add: handleDeleteSecret_def call_secrets_def)
  show "sp_key (secret_deleted u r st) = sp_key st \<and> sp_preset (secret_deleted u r st) = sp_preset st"
    by (simp add: secret_deleted_def Let_def split: page_reply.split)
qed

lemma preset_ok_step: "preset_ok st \<Longrightarrow> preset_ok (secrets_step u ev st)"
proof (cases ev)
  case (SStored r)
  then show "preset_ok st \<Longrightarrow> ?thesis"
    by (simp add: preset_ok_def key_input_shown_def add_answer_def Let_def split: page_reply.split)
qed (simp_all add: preset_ok_def key_input_shown_def kept_fields handlePresetChange_def quick_add_def)

text \<open>C26. A secret is stored only under a valid name, which stands unchanged in the address, with exactly
  the value that was typed; and while the dialog shows a provider, it is stored under that provider's key.\<close>

theorem secret_stored_as_shown:
  assumes "st = fold (secrets_step u) evs start_secrets" "handleAddSecret u st = st'" "sp_calls st' \<noteq> sp_calls st"
  shows "secret_key_ok (trim (sp_key st))
    \<and> sp_calls st' = sp_calls st @ [(''PUT'', u @ ''/secrets/'' @ trim (sp_key st), Some (JObj [(''value'', JStr (sp_value st))]))]
    \<and> sp_value st \<noteq> [] \<and> (\<not> key_input_shown st \<longrightarrow> sp_key st = sp_preset st)"
proof -
  have "preset_ok (fold (secrets_step u) evs start_secrets)"
    by (induction evs rule: rev_induct) (simp_all add: preset_ok_step, simp add: preset_ok_def key_input_shown_def start_secrets_def)
  then have "\<not> key_input_shown st \<longrightarrow> sp_key st = sp_preset st"
    unfolding assms(1) preset_ok_def .
  moreover have "secret_key_ok (trim (sp_key st)) \<and> sp_value st \<noteq> []"
    using assms(2,3) by (auto simp: handleAddSecret_def Let_def split: if_splits)
  moreover from this have "encodeURIComponent (trim (sp_key st)) = trim (sp_key st)"
    by (intro encode_plain) (simp add: secret_key_ok_def)
  ultimately show ?thesis
    using assms(2) by (auto simp: handleAddSecret_def Let_def call_secrets_def secret_key_ok_def)
qed

theorem secret_stored_as_shown_witness:
  "sp_calls (handleAddSecret ''/api'' (fold (secrets_step ''/api'') [SPreset ''openai.api_key'', SValue ''k''] start_secrets))
   = [(''PUT'', ''/api/secrets/openai.api_key'', Some (JObj [(''value'', JStr ''k'')]))]"
proof -
  define st where "st = fold (secrets_step ''/api'') [SPreset ''openai.api_key'', SValue ''k''] start_secrets"
  have st: "sp_key st = ''openai.api_key''" "sp_value st = ''k''" "sp_calls st = []"
    by (simp_all add: st_def handlePresetChange_def start_secrets_def)
  have tr: "trim ''openai.api_key'' = ''openai.api_key''" by code_simp
  have ok: "secret_key_ok ''openai.api_key''" by code_simp
  have "sp_calls (handleAddSecret ''/api'' st) \<noteq> sp_calls st"
    using ok by (simp add: handleAddSecret_def Let_def st tr call_secrets_def)
  from secret_stored_as_shown [OF st_def refl this]
  show ?thesis unfolding st_def [symmetric] by (simp add: st tr)
qed

text \<open>Leaving the dialog keeps what was typed: a secret that was not stored is there, and legible if it
  had been made so, when the dialog is opened again.\<close>

theorem secret_survives_cancel:
  "sp_value (fold (secrets_step u) [SDialog False, SDialog True] st) = sp_value st
   \<and> sp_showValue (fold (secrets_step u) [SDialog False, SDialog True] st) = sp_showValue st
   \<and> sp_key (fold (secrets_step u) [SDialog False, SDialog True] st) = sp_key st"
  by simp

text \<open>The quick buttons are the providers without a key: each common provider is either offered or
  configured, and the page says that all are configured exactly when none is offered.\<close>

theorem quick_keys_complete:
  "set (quick_keys st) = {s \<in> set common_secrets. \<not> configured_key st (fst s)} \<and> (all_configured st \<longleftrightarrow> quick_keys st = [])"
  by (auto simp: quick_keys_def all_configured_def filter_empty_conv list_all_iff)

section \<open>Whose permissions\<close>

text \<open>A failed request for the permissions of a user leaves those of the user selected before: the page
  lists them under the new user, and removing one of them removes it from the new user.\<close>

theorem removes_from_other_user:
  assumes "a \<noteq> b" "b \<noteq> []" "up_selected st = Some a" "perm \<in> set (up_permissions st)"
    and st': "st' = user_answer (CPermissions b) (Inl e) (select_user b st)"
  shows "up_selected st' = Some b \<and> up_permissions st' = up_permissions st
    \<and> last (up_calls (handleRemovePermission perm st')) = CRemovePermission b (fld perm ''resource'') (fld perm ''resource_type'')"
  using assms
  by (simp add: select_user_def fetchPermissions_def call_users_def user_failed_def handleRemovePermission_def chosen_user_def)

theorem removes_from_other_user_witness:
  "up_permissions (user_answer (CPermissions ''bob'') (throw_error ''lost'')
      (select_user ''bob'' (start_users\<lparr>up_selected := Some ''ann'', up_permissions := [JObj []]\<rparr>))) = [JObj []]"
proof -
  let ?st = "start_users\<lparr>up_selected := Some ''ann'', up_permissions := [JObj []]\<rparr>"
  have "''ann'' \<noteq> ''bob''" "''bob'' \<noteq> []" "up_selected ?st = Some ''ann''" "JObj [] \<in> set (up_permissions ?st)"
    by simp_all
  from removes_from_other_user [OF this refl, of "ErrorObj ''Error'' ''lost''"]
  have "up_permissions (user_answer (CPermissions ''bob'') (throw_error ''lost'') (select_user ''bob'' ?st)) = up_permissions ?st"
    by blast
  moreover have "up_permissions ?st = [JObj []]" by simp
  ultimately show ?thesis by (rule trans)
qed

text \<open>The answer for a user who is no longer selected is shown for the one who is.\<close>

theorem late_permissions_shown:
  "up_selected (user_answer (CPermissions a) (Inr v) st) = up_selected st
   \<and> up_permissions (user_answer (CPermissions a) (Inr v) st) = elems (js_or v (JArr []))"
  by simp

text \<open>A password that was typed for one user and not confirmed is in the dialog of the next user.\<close>

theorem password_carried_over:
  "up_passwordValue (open_password b (close_password st)) = up_passwordValue st
   \<and> up_passwordDialog (open_password b (close_password st))"
  by (simp add: open_password_def close_password_def select_user_def Let_def fetchPermissions_def call_users_def)

text \<open>A deletion that succeeds leaves no trace of the user: if the user was selected, no user is and no
  permission is listed; the others' selection stays; and the list is fetched again.\<close>

theorem deleted_user_left:
  "let st' = user_answer (CDeleteUser u) (Inr v) st
   in up_selected st' \<noteq> Some u
      \<and> (up_selected st = Some u \<longrightarrow> up_permissions st' = [])
      \<and> (up_selected st \<noteq> Some u \<longrightarrow> up_selected st' = up_selected st \<and> up_permissions st' = up_permissions st)
      \<and> last (up_calls st') = CList"
  by (simp add: fetchUsers_def call_users_def Let_def)

theorem deleted_user_left_witness:
  "up_selected (user_answer (CDeleteUser ''ann'') (Inr JUndef) (start_users\<lparr>up_selected := Some ''ann''\<rparr>)) \<noteq> Some ''ann''"
  using deleted_user_left [of "''ann''" JUndef "start_users\<lparr>up_selected := Some ''ann''\<rparr>"] by (simp add: Let_def)

lemma create_needs_both: "handleCreateUser st = st' \<Longrightarrow> up_calls st' \<noteq> up_calls st \<Longrightarrow>
    up_newName st \<noteq> [] \<and> up_newPassword st \<noteq> [] \<and> last (up_calls st') = CCreate (up_newName st) (up_newPassword st)"
  by (auto simp: handleCreateUser_def call_users_def split: if_splits)

end
