(* ===== verification/SearchBuilder.thy ===== *)
theory SearchBuilder
  imports SchemaDetect TextPlaygrounds "HOL-Library.Multiset"
begin

text \<open>
  The builder of search pages (ts/apps/antfarm/src/components/SearchBoxBuilder.tsx): the fields and
  indexes that it offers from the schema of a table, the user's choices, what the preview gets, and
  the code that it writes. \<open>collate\<close> is the order of \<open>localeCompare\<close>; \<open>now\<close> is the clock.
\<close>

section \<open>What is offered\<close>

record schema_property =
  pr_type :: "string option"
  pr_index :: "bool option"
  pr_types :: "antfly_type list option"

type_synonym doc_schemas = "(string \<times> (string \<times> schema_property) list option) list"

definition property_types :: "schema_property \<Rightarrow> antfly_type list" where
  "property_types p = (case pr_types p of None \<Rightarrow> [] | Some ts \<Rightarrow> ts)"

definition property_indexed :: "schema_property \<Rightarrow> bool" where
  "property_indexed p \<longleftrightarrow> pr_index p \<noteq> Some False \<and> AEmbedding \<notin> set (property_types p) \<and> ABlob \<notin> set (property_types p)"

definition schema_type_of :: "schema_property \<Rightarrow> string option" where
  "schema_type_of p = (case pr_type p of Some t \<Rightarrow> if t = [] then None else Some t | None \<Rightarrow> None)"

definition property_fields :: "string \<times> schema_property \<Rightarrow> searchable_field list" where
  "property_fields = (\<lambda>(field, p).
     if property_indexed p
     then generateSearchableFields field (case schema_type_of p of None \<Rightarrow> [] | Some t \<Rightarrow> [t]) (property_types p) else [])"

definition schema_properties :: "doc_schemas \<Rightarrow> (string \<times> schema_property) list" where
  "schema_properties schemas = concat (map (\<lambda>(n, ps). case ps of None \<Rightarrow> [] | Some l \<Rightarrow> l) schemas)"

text \<open>\<open>variationOrder[v] || 999\<close>: the text has place 0, which is falsy.\<close>

definition variation_rank :: "string \<Rightarrow> nat" where
  "variation_rank v =
     (let place = (if v = ''text'' then 0 else if v = ''keyword'' then 1 else if v = ''2gram'' then 2 else 0)
      in if place = 0 then 999 else place)"

definition availableFields :: "(string \<Rightarrow> 'k :: linorder) \<Rightarrow> doc_schemas option \<Rightarrow> searchable_field list" where
  "availableFields collate schemas =
     (case schemas of
        None \<Rightarrow> []
      | Some s \<Rightarrow> sort_key (\<lambda>f. collate (sf_originalField f))
                   (sort_key (\<lambda>f. variation_rank (sf_variation f)) (concat (map property_fields (schema_properties s)))))"

text \<open>A field is taken from the first schema that has it, whether that one indexes it or not.\<close>

fun basic_fields :: "string list \<Rightarrow> (string \<times> schema_property) list \<Rightarrow> basic_field list" where
  "basic_fields processed [] = []"
| "basic_fields processed ((field, p) # ps) =
     (if field \<in> set processed then basic_fields processed ps
      else (if property_indexed p
            then [generateBasicFields field (case schema_type_of p of None \<Rightarrow> ''unknown'' | Some t \<Rightarrow> t)] else [])
           @ basic_fields (field # processed) ps)"

definition availableBasicFields :: "(string \<Rightarrow> 'k :: linorder) \<Rightarrow> doc_schemas option \<Rightarrow> basic_field list" where
  "availableBasicFields collate schemas =
     (case schemas of None \<Rightarrow> []
      | Some s \<Rightarrow> sort_key (\<lambda>b. collate (bf_fieldName b)) (basic_fields [] (schema_properties s)))"

text \<open>The indexes of one type: their type and name; \<open>rank\<close> is the order of strings.\<close>

definition availableSemanticIndexes :: "(string \<Rightarrow> 'r :: linorder) \<Rightarrow> (string \<times> string) list \<Rightarrow> (string, string list) jmap" where
  "availableSemanticIndexes rank indexes =
     map (\<lambda>(t, ns). (t, sort_key rank ns))
       (fold (\<lambda>(t, n) acc. jmap_set acc t ((case jmap_get acc t of None \<Rightarrow> [] | Some ns \<Rightarrow> ns) @ [n])) indexes [])"

definition embedding_indexes :: "(string, string list) jmap \<Rightarrow> string list" where
  "embedding_indexes available = (case jmap_get available ''embeddings'' of None \<Rightarrow> [] | Some ns \<Rightarrow> ns)"

section \<open>The choices\<close>

record facet_config =
  fc_id :: string
  fc_fields :: "string list"
  fc_title :: string

datatype thumb_size = Small | Medium | Large

record search_page =
  sb_searchFields :: "string list"
  sb_indexes :: "string list"
  sb_facets :: "facet_config list"
  sb_newFacetField :: string
  sb_newFacetTitle :: string
  sb_newSearchField :: string
  sb_semantic :: bool
  sb_semanticLimit :: int
  sb_autosuggest :: bool
  sb_autoSemantic :: bool
  sb_autoFields :: "string list"
  sb_autoIndexes :: "string list"
  sb_autoLimit :: int
  sb_autoMin :: int
  sb_perPage :: int
  sb_resultFields :: "string list"
  sb_showResults :: bool
  sb_pagination :: bool
  sb_showFacets :: bool
  sb_thumbnails :: bool
  sb_thumbField :: string
  sb_thumbSize :: thumb_size
  sb_textField :: string

definition start_builder :: search_page where
  "start_builder = \<lparr>sb_searchFields = [], sb_indexes = [], sb_facets = [], sb_newFacetField = [], sb_newFacetTitle = [],
     sb_newSearchField = [], sb_semantic = False, sb_semanticLimit = 5, sb_autosuggest = False, sb_autoSemantic = False,
     sb_autoFields = [], sb_autoIndexes = [], sb_autoLimit = 10, sb_autoMin = 2, sb_perPage = 10, sb_resultFields = [],
     sb_showResults = True, sb_pagination = True, sb_showFacets = True, sb_thumbnails = False, sb_thumbField = [],
     sb_thumbSize = Medium, sb_textField = []\<rparr>"

definition effectivePagination :: "search_page \<Rightarrow> bool" where
  "effectivePagination b \<longleftrightarrow> sb_pagination b \<and> \<not> sb_semantic b"

definition handleAddSearchField :: "string \<Rightarrow> search_page \<Rightarrow> search_page" where
  "handleAddSearchField f b =
     (if trim f \<noteq> [] \<and> f \<notin> set (sb_searchFields b) then b\<lparr>sb_searchFields := sb_searchFields b @ [trim f]\<rparr> else b)"

definition handleAddCustomSearchField :: "search_page \<Rightarrow> search_page" where
  "handleAddCustomSearchField b =
     (if trim (sb_newSearchField b) \<noteq> []
      then (handleAddSearchField (trim (sb_newSearchField b)) b)\<lparr>sb_newSearchField := []\<rparr> else b)"

definition add_once :: "'a \<Rightarrow> 'a list \<Rightarrow> 'a list" where
  "add_once x xs = (if x \<in> set xs then xs else xs @ [x])"

definition remove_choice :: "'a \<Rightarrow> 'a list \<Rightarrow> 'a list" where
  "remove_choice x xs = filter (\<lambda>y. y \<noteq> x) xs"

definition handleAddFacet :: "nat \<Rightarrow> search_page \<Rightarrow> search_page" where
  "handleAddFacet now b =
     (if sb_newFacetField b \<noteq> [] \<and> sb_newFacetTitle b \<noteq> []
      then b\<lparr>sb_facets := sb_facets b @ [\<lparr>fc_id = ''facet'' @ show_nat now, fc_fields = [sb_newFacetField b], fc_title = sb_newFacetTitle b\<rparr>],
             sb_newFacetField := [], sb_newFacetTitle := []\<rparr>
      else b)"

definition handleRemoveFacet :: "string \<Rightarrow> search_page \<Rightarrow> search_page" where
  "handleRemoveFacet i b = b\<lparr>sb_facets := filter (\<lambda>f. fc_id f \<noteq> i) (sb_facets b)\<rparr>"

text \<open>The effect that selects the first vector index.\<close>

definition select_first_index :: "string list \<Rightarrow> search_page \<Rightarrow> search_page" where
  "select_first_index embeddings b =
     (if sb_semantic b \<and> sb_indexes b = [] \<and> embeddings \<noteq> [] then b\<lparr>sb_indexes := [hd embeddings]\<rparr> else b)"

datatype builder_event =
    BAddField string
  | BRemoveField string
  | BTypeField string
  | BAddCustom
  | BToggleIndex string
  | BAddAutoField string
  | BRemoveAutoField string
  | BToggleAutoIndex string
  | BAddResultField string
  | BRemoveResultField string
  | BThumbnailField string
  | BDisplayText string
  | BFacetField string
  | BFacetTitle string
  | BAddFacet nat
  | BRemoveFacet string
  | BSemantic bool
  | BSemanticLimit "int option"
  | BAutosuggest bool
  | BAutoSemantic bool
  | BAutoLimit "int option"
  | BAutoMin "int option"
  | BPerPage "int option"
  | BShowResults bool
  | BPagination bool
  | BShowFacets bool
  | BThumbnails bool
  | BThumbSize thumb_size

fun builder_event_step :: "builder_event \<Rightarrow> search_page \<Rightarrow> search_page" where
  "builder_event_step (BAddField f) b = handleAddSearchField f b"
| "builder_event_step (BRemoveField f) b = b\<lparr>sb_searchFields := remove_choice f (sb_searchFields b)\<rparr>"
| "builder_event_step (BTypeField t) b = b\<lparr>sb_newSearchField := t\<rparr>"
| "builder_event_step BAddCustom b = handleAddCustomSearchField b"
| "builder_event_step (BToggleIndex i) b =
     b\<lparr>sb_indexes := (if i \<in> set (sb_indexes b) then remove_choice i (sb_indexes b) else add_once i (sb_indexes b))\<rparr>"
| "builder_event_step (BAddAutoField f) b = b\<lparr>sb_autoFields := add_once f (sb_autoFields b)\<rparr>"
| "builder_event_step (BRemoveAutoField f) b = b\<lparr>sb_autoFields := remove_choice f (sb_autoFields b)\<rparr>"
| "builder_event_step (BToggleAutoIndex i) b =
     b\<lparr>sb_autoIndexes := (if i \<in> set (sb_autoIndexes b) then remove_choice i (sb_autoIndexes b) else add_once i (sb_autoIndexes b))\<rparr>"
| "builder_event_step (BAddResultField f) b = b\<lparr>sb_resultFields := add_once f (sb_resultFields b)\<rparr>"
| "builder_event_step (BRemoveResultField f) b = b\<lparr>sb_resultFields := remove_choice f (sb_resultFields b)\<rparr>"
| "builder_event_step (BThumbnailField f) b = b\<lparr>sb_thumbField := f\<rparr>"
| "builder_event_step (BDisplayText f) b = b\<lparr>sb_textField := f\<rparr>"
| "builder_event_step (BFacetField f) b = b\<lparr>sb_newFacetField := f\<rparr>"
| "builder_event_step (BFacetTitle t) b = b\<lparr>sb_newFacetTitle := t\<rparr>"
| "builder_event_step (BAddFacet now) b = handleAddFacet now b"
| "builder_event_step (BRemoveFacet i) b = handleRemoveFacet i b"
| "builder_event_step (BSemantic v) b = b\<lparr>sb_semantic := v\<rparr>"
| "builder_event_step (BSemanticLimit n) b = b\<lparr>sb_semanticLimit := read_or n 5\<rparr>"
| "builder_event_step (BAutosuggest v) b = b\<lparr>sb_autosuggest := v\<rparr>"
| "builder_event_step (BAutoSemantic v) b = b\<lparr>sb_autoSemantic := v\<rparr>"
| "builder_event_step (BAutoLimit n) b = b\<lparr>sb_autoLimit := read_or n 10\<rparr>"
| "builder_event_step (BAutoMin n) b = b\<lparr>sb_autoMin := read_or n 2\<rparr>"
| "builder_event_step (BPerPage n) b = b\<lparr>sb_perPage := read_or n 10\<rparr>"
| "builder_event_step (BShowResults v) b = b\<lparr>sb_showResults := v\<rparr>"
| "builder_event_step (BPagination v) b = b\<lparr>sb_pagination := v\<rparr>"
| "builder_event_step (BShowFacets v) b = b\<lparr>sb_showFacets := v\<rparr>"
| "builder_event_step (BThumbnails v) b = b\<lparr>sb_thumbnails := v\<rparr>"
| "builder_event_step (BThumbSize s) b = b\<lparr>sb_thumbSize := s\<rparr>"

text \<open>An event and the effect after the render.\<close>

definition builder_step :: "string list \<Rightarrow> builder_event \<Rightarrow> search_page \<Rightarrow> search_page" where
  "builder_step embeddings ev b = select_first_index embeddings (builder_event_step ev b)"

section \<open>The preview\<close>

datatype preview_props = SemanticProps "string list" int | FieldProps "string list"

definition resultsProps :: "search_page \<Rightarrow> preview_props option" where
  "resultsProps b =
     (if sb_semantic b
      then (if sb_indexes b \<noteq> [] \<and> list_all (\<lambda>i. trim i \<noteq> []) (sb_indexes b)
            then Some (SemanticProps (sb_indexes b) (max 1 (min 100 (sb_semanticLimit b)))) else None)
      else (if sb_searchFields b \<noteq> [] \<and> list_all (\<lambda>f. trim f \<noteq> []) (sb_searchFields b)
            then Some (FieldProps (sb_searchFields b)) else None))"

datatype suggest_props = SuggestProps "string list option" "string list" int int

definition preview_autosuggest :: "search_page \<Rightarrow> suggest_props option" where
  "preview_autosuggest b =
     (if \<not> sb_autosuggest b then None
      else if sb_autoSemantic b
      then (if sb_autoIndexes b \<noteq> [] then Some (SuggestProps (Some (sb_autoIndexes b)) (sb_autoFields b) (sb_autoLimit b) (sb_autoMin b)) else None)
      else (if sb_autoFields b \<noteq> [] then Some (SuggestProps None (sb_autoFields b) (sb_autoLimit b) (sb_autoMin b)) else None))"

text \<open>One result: the thumbnail's address, the prominent text, and the shown fields with their texts.\<close>

record shown_result =
  sr_thumbnail :: "string option option"
  sr_heading :: "string option"
  sr_fields :: "(string \<times> string) list"

definition renderResultItem :: "search_page \<Rightarrow> jsval \<Rightarrow> shown_result" where
  "renderResultItem b source =
     (let thumb = fld source (sb_thumbField b); heading = fld source (sb_textField b)
      in \<lparr>sr_thumbnail = (if sb_thumbnails b \<and> sb_thumbField b \<noteq> []
            then Some (if truthy source \<and> truthy thumb then Some (to_str thumb) else None) else None),
          sr_heading = (if sb_textField b \<noteq> [] \<and> truthy source \<and> \<not> nullish heading then Some (to_str heading) else None),
          sr_fields = (if \<not> truthy source then []
            else if sb_resultFields b \<noteq> []
            then map (\<lambda>f. (f, to_str (fld source f))) (filter (\<lambda>f. fld source f \<noteq> JUndef) (sb_resultFields b))
            else map (\<lambda>(k, v). (k, to_str v)) (entries source))\<rparr>)"

section \<open>The code\<close>

definition code_line :: "nat \<Rightarrow> string \<Rightarrow> string" where
  "code_line n s = newline # replicate n (CHR '' '') @ s"

definition in_quotes :: "string \<Rightarrow> string" where
  "in_quotes s = CHR 0x22 # s @ [CHR 0x22]"

definition code_list :: "string list \<Rightarrow> string" where
  "code_list xs = ''['' @ join '', '' (map in_quotes xs) @ '']''"

definition int_code :: "int \<Rightarrow> string" where
  "int_code n = (if n < 0 then CHR ''-'' # show_nat (nat (- n)) else show_nat (nat n))"

definition facet_code :: "facet_config \<Rightarrow> string" where
  "facet_code f =
     replicate 8 (CHR '' '') @ ''<Facet''
     @ code_line 10 ''id='' @ in_quotes (fc_id f)
     @ code_line 10 ''fields={'' @ code_list (fc_fields f) @ ''}''
     @ code_line 10 ''seeMore=\"See more\"''
     @ code_line 10 ''placeholder='' @ in_quotes (''Filter '' @ fc_title f @ ''...'')
     @ code_line 8 ''/>''"

definition facets_code :: "search_page \<Rightarrow> string" where
  "facets_code b =
     (if sb_showFacets b \<and> sb_facets b \<noteq> [] then join [newline] (map facet_code (sb_facets b)) else [])"

definition search_props_code :: "search_page \<Rightarrow> string" where
  "search_props_code b =
     code_line 8 ''searchBoxId=\"main\"''
     @ (if sb_semantic b
        then (if sb_indexes b \<noteq> [] then code_line 8 ''semanticIndexes={'' @ code_list (sb_indexes b) @ ''}'' else [])
             @ code_line 8 ''limit={'' @ int_code (sb_semanticLimit b) @ ''}''
        else if sb_searchFields b \<noteq> [] then code_line 8 ''fields={'' @ code_list (sb_searchFields b) @ ''}'' else [])"

definition autosuggest_code :: "search_page \<Rightarrow> string" where
  "autosuggest_code b =
     (let rest = code_line 10 ''limit={'' @ int_code (sb_autoLimit b) @ ''}''
               @ code_line 10 ''minChars={'' @ int_code (sb_autoMin b) @ ''}'' @ code_line 8 ''/>''
      in if \<not> sb_autosuggest b then []
         else if sb_autoSemantic b \<and> sb_autoIndexes b \<noteq> []
         then code_line 8 ''<Autosuggest'' @ code_line 10 ''semanticIndexes={'' @ code_list (sb_autoIndexes b) @ ''}''
              @ code_line 10 ''fields={'' @ code_list (sb_autoFields b) @ ''}'' @ rest
         else if \<not> sb_autoSemantic b \<and> sb_autoFields b \<noteq> []
         then code_line 8 ''<Autosuggest'' @ code_line 10 ''fields={'' @ code_list (sb_autoFields b) @ ''}'' @ rest
         else [])"

definition thumb_class :: "search_page \<Rightarrow> string" where
  "thumb_class b = (case sb_thumbSize b of Small \<Rightarrow> ''w-16 h-16'' | Large \<Rightarrow> ''w-40 h-40'' | Medium \<Rightarrow> ''w-24 h-24'')"

definition with_thumbnails :: "search_page \<Rightarrow> bool" where
  "with_thumbnails b \<longleftrightarrow> sb_thumbnails b \<and> sb_thumbField b \<noteq> []"

definition thumbnail_code :: "search_page \<Rightarrow> string" where
  "thumbnail_code b =
     code_line 22 ''{/* Thumbnail */}''
     @ code_line 22 ''<div className=\"shrink-0 '' @ thumb_class b
     @ '' bg-gray-100 rounded overflow-hidden flex items-center justify-center\">''
     @ code_line 24 ''{thumbnailUrl ? (''
     @ code_line 26 ''<img''
     @ code_line 28 ''src={String(thumbnailUrl)}''
     @ code_line 28 ''alt=\"Thumbnail\"''
     @ code_line 28 ''className=\"w-full h-full object-cover\"''
     @ code_line 28 ''onError={(e) => {''
     @ code_line 30 ''const target = e.target;''
     @ code_line 30 ''target.style.display = 'none';''
     @ code_line 30 ''const parent = target.parentElement;''
     @ code_line 30 ''if (parent && !parent.querySelector('.placeholder-text')) {''
     @ code_line 32 ''const placeholder = document.createElement('div');''
     @ code_line 32 ''placeholder.className = 'placeholder-text text-gray-400 text-xs text-center p-2';''
     @ code_line 32 ''placeholder.textContent = 'No image';''
     @ code_line 32 ''parent.appendChild(placeholder);''
     @ code_line 30 ''}''
     @ code_line 28 ''}}''
     @ code_line 26 ''/>''
     @ code_line 24 '') : (''
     @ code_line 26 ''<div className=\"text-gray-400 text-xs text-center p-2\">No image</div>''
     @ code_line 24 '')}''
     @ code_line 22 ''</div>''"

definition heading_code :: string where
  "heading_code =
     code_line 24 ''{/* Display Text Field */}''
     @ code_line 24 ''{displayTextValue !== undefined && displayTextValue !== null && (''
     @ code_line 26 ''<div className=\"text-lg font-semibold mb-2\">{String(displayTextValue)}</div>''
     @ code_line 24 '')}''"

definition fields_code :: "search_page \<Rightarrow> string" where
  "fields_code b =
     (if sb_resultFields b \<noteq> []
      then code_line 24 (code_list (sb_resultFields b)) @ ''.map((field) => {''
     @ code_line 26 ''const value = _source[field];''
     @ code_line 26 ''return value !== undefined ? (''
     @ code_line 28 ''<div key={field} className=\"text-sm\">''
     @ code_line 30 ''<strong>{field}:</strong> {String(value)}''
     @ code_line 28 ''</div>''
     @ code_line 26 '') : null;''
     @ code_line 24 ''})''
      else code_line 24 ''Object.entries(_source).map(([key, value]) => (''
     @ code_line 26 ''<div key={key} className=\"text-sm\">''
     @ code_line 28 ''<strong>{key}:</strong> {String(value)}''
     @ code_line 26 ''</div>''
     @ code_line 24 ''))'')"

definition results_code :: "search_page \<Rightarrow> string" where
  "results_code b =
     (if \<not> sb_showResults b then []
      else code_line 6 ''<Results'' @ search_props_code b
     @ code_line 8 ''id=\"result\"''
     @ code_line 8 ''items={(data) =>''
     @ code_line 10 ''Array.isArray(data)''
     @ code_line 12 ''? data.map(({ _source, _id }) => {''
     @ (if with_thumbnails b
        then code_line 16 ''const thumbnailUrl = _source ? _source['' @ in_quotes (sb_thumbField b) @ ''] : null;'' else [])
     @ (if sb_textField b \<noteq> []
        then code_line 16 ''const displayTextValue = _source ? _source['' @ in_quotes (sb_textField b) @ ''] : null;'' else [])
     @ code_line 16 ''return (''
     @ code_line 18 ''<div key={_id} className=\"p-2 border-b\">''
     @ code_line 20 ''<div className=\"flex gap-4\">''
     @ (if with_thumbnails b then thumbnail_code b else [])
     @ code_line 22 ''{/* Content */}''
     @ code_line 22 ''<div className=\"flex-1 min-w-0\">''
     @ (if sb_textField b \<noteq> [] then heading_code else [])
     @ code_line 24 ''{/* Result Fields */}''
     @ code_line 24 ''{_source &&'' @ fields_code b @ ''}''
     @ code_line 22 ''</div>''
     @ code_line 20 ''</div>''
     @ code_line 18 ''</div>''
     @ code_line 16 '');''
     @ code_line 14 ''})''
     @ code_line 12 '': []''
     @ code_line 8 ''}''
     @ (if effectivePagination b then code_line 8 ''itemsPerPage={'' @ int_code (sb_perPage b) @ ''}'' else [])
     @ code_line 6 ''/>'')"

definition used_components :: "search_page \<Rightarrow> string list" where
  "used_components b =
     [''Antfly'', ''QueryBox'']
     @ (if sb_showFacets b \<and> sb_facets b \<noteq> [] then [''Facet''] else [])
     @ (if sb_showResults b then [''Results''] else [])
     @ (if sb_autosuggest b \<and> (sb_autoSemantic b \<and> sb_autoIndexes b \<noteq> [] \<or> \<not> sb_autoSemantic b \<and> sb_autoFields b \<noteq> [])
        then [''Autosuggest''] else [])"

definition generateReactCode :: "string \<Rightarrow> string \<Rightarrow> search_page \<Rightarrow> string" where
  "generateReactCode antflyUrl tableName b =
     ''import { '' @ join '', '' (used_components b) @ '' } from \"@antfly/components\";'' @ [newline]
     @ code_line 0 ''export default function MySearchComponent() {''
     @ code_line 2 ''return (''
     @ code_line 4 ''<Antfly url='' @ in_quotes antflyUrl @ '' table='' @ in_quotes tableName @ ''>''
     @ code_line 6 ''<QueryBox id=\"main\" mode=\"live\">'' @ autosuggest_code b
     @ code_line 6 ''</QueryBox>''
     @ [newline] @ facets_code b @ results_code b
     @ code_line 4 ''</Antfly>'' @ code_line 2 '');'' @ code_line 0 ''}''"

section \<open>Fields that are offered\<close>

text \<open>Every indexed property is offered with exactly its variations, and nothing else is, grouped by
  field in the order of the collation.\<close>

theorem offered_fields_exact:
  "mset (availableFields collate (Some s)) = (\<Sum>p \<in># mset (schema_properties s). mset (property_fields p))
   \<and> sorted (map (\<lambda>f. collate (sf_originalField f)) (availableFields collate (Some s)))"
proof -
  have "mset (concat (map property_fields ps)) = (\<Sum>p \<in># mset ps. mset (property_fields p))" for ps
    by (induction ps) simp_all
  then show ?thesis by (simp add: availableFields_def)
qed

text \<open>A property whose only type is another than text and search-as-you-type, such as a keyword or a
  number, is indexed and yet never offered.\<close>

theorem single_type_offered:
  assumes "property_types p = [t]" "property_indexed p"
  shows "property_fields (field, p) \<noteq> [] \<longleftrightarrow> t \<in> {AText, ASearchAsYouType}"
  using assms by (simp add: property_fields_def generateSearchableFields_def Let_def)

theorem single_type_offered_witness:
  "property_fields (''sku'', \<lparr>pr_type = Some ''string'', pr_index = None, pr_types = Some [AKeyword]\<rparr>) = []"
  using single_type_offered [of "\<lparr>pr_type = Some ''string'', pr_index = None, pr_types = Some [AKeyword]\<rparr>" AKeyword "''sku''"]
  by (simp add: property_types_def property_indexed_def)

text \<open>The variations of a field are meant to start with its text; the text comes last.\<close>

theorem text_offered_last:
  "map sf_variation (availableFields (\<lambda>s. 0 :: nat)
     (Some [(''doc'', Some [(''title'', \<lparr>pr_type = Some ''string'', pr_index = None,
        pr_types = Some [AText, AKeyword, ASearchAsYouType]\<rparr>)])]))
   = [''keyword'', ''2gram'', ''text'']"
  by code_simp

lemma basic_fields_names:
  "distinct (map bf_fieldName (basic_fields processed ps)) \<and> set (map bf_fieldName (basic_fields processed ps)) \<inter> set processed = {}"
  by (induction processed ps rule: basic_fields.induct) (auto simp: generateBasicFields_def)

lemma sort_key_names: "distinct (map f xs) \<Longrightarrow> distinct (map f (sort_key k xs))"
  by (simp add: distinct_map)

text \<open>The fields for results are offered once each, however many schemas of the table have them.\<close>

theorem result_fields_distinct: "distinct (map bf_fieldName (availableBasicFields collate schemas))"
  using basic_fields_names [of "[]"] by (simp add: availableBasicFields_def sort_key_names split: option.split)

text \<open>A field that one schema indexes is not offered for results when an earlier schema does not.\<close>

theorem earlier_schema_hides_field:
  "availableBasicFields collate (Some [(''a'', Some [(''note'', \<lparr>pr_type = Some ''string'', pr_index = Some False, pr_types = None\<rparr>)]),
     (''b'', Some [(''note'', \<lparr>pr_type = Some ''string'', pr_index = None, pr_types = None\<rparr>)])]) = []
   \<and> map sf_searchField (availableFields collate (Some [(''a'', Some [(''note'', \<lparr>pr_type = Some ''string'', pr_index = Some False, pr_types = None\<rparr>)]),
     (''b'', Some [(''note'', \<lparr>pr_type = Some ''string'', pr_index = None, pr_types = None\<rparr>)])])) = [''note'']"
  by (simp add: availableBasicFields_def availableFields_def schema_properties_def property_indexed_def property_types_def
      property_fields_def generateSearchableFields_def Let_def)

section \<open>Choices that stay valid\<close>

definition builder_ok :: "search_page \<Rightarrow> bool" where
  "builder_ok b \<longleftrightarrow>
     list_all (\<lambda>f. trim f = f \<and> f \<noteq> []) (sb_searchFields b)
     \<and> distinct (sb_indexes b) \<and> list_all (\<lambda>i. trim i \<noteq> []) (sb_indexes b)
     \<and> distinct (sb_autoFields b) \<and> distinct (sb_autoIndexes b) \<and> distinct (sb_resultFields b)"

text \<open>Names of indexes are not blank; a field whose name has no blanks at its ends.\<close>

fun event_ok :: "builder_event \<Rightarrow> bool" where
  "event_ok (BToggleIndex i) \<longleftrightarrow> trim i \<noteq> []"
| "event_ok _ \<longleftrightarrow> True"

fun field_trimmed :: "builder_event \<Rightarrow> bool" where
  "field_trimmed (BAddField f) \<longleftrightarrow> trim f = f"
| "field_trimmed _ \<longleftrightarrow> True"

lemma distinct_add_once [simp]: "distinct xs \<Longrightarrow> distinct (add_once x xs)"
  by (simp add: add_once_def)

lemma distinct_remove [simp]: "distinct xs \<Longrightarrow> distinct (remove_choice x xs)"
  by (simp add: remove_choice_def)

lemma list_all_remove [simp]: "list_all P xs \<Longrightarrow> list_all P (remove_choice x xs)"
  by (simp add: remove_choice_def list_all_iff)

lemma builder_ok_add: "builder_ok b \<Longrightarrow> builder_ok (handleAddSearchField f b)"
  by (simp add: builder_ok_def handleAddSearchField_def)

lemma select_keeps_fields: "sb_searchFields (select_first_index embeddings b) = sb_searchFields b"
  by (simp add: select_first_index_def)

lemma search_fields_once:
  assumes "distinct (sb_searchFields b)" "field_trimmed ev"
  shows "distinct (sb_searchFields (builder_event_step ev b))"
  using assms by (cases ev) (auto simp: handleAddSearchField_def handleAddCustomSearchField_def handleAddFacet_def handleRemoveFacet_def)

lemma builder_ok_event: "builder_ok b \<Longrightarrow> event_ok ev \<Longrightarrow> builder_ok (builder_event_step ev b)"
proof (cases ev)
  case BAddCustom
  then show "builder_ok b \<Longrightarrow> ?thesis"
    using builder_ok_add [of b "trim (sb_newSearchField b)"] by (simp add: handleAddCustomSearchField_def builder_ok_def)
next
  case (BAddField f)
  then show "builder_ok b \<Longrightarrow> event_ok ev \<Longrightarrow> ?thesis" by (simp add: builder_ok_add)
next
  case (BAddFacet now)
  then show "builder_ok b \<Longrightarrow> ?thesis" by (simp add: handleAddFacet_def builder_ok_def)
next
  case (BRemoveFacet i)
  then show "builder_ok b \<Longrightarrow> ?thesis" by (simp add: handleRemoveFacet_def builder_ok_def)
next
  case (BToggleIndex i)
  then show "builder_ok b \<Longrightarrow> event_ok ev \<Longrightarrow> ?thesis"
    by (simp add: builder_ok_def add_once_def)
qed (simp_all add: builder_ok_def)

lemma builder_ok_select: "builder_ok b \<Longrightarrow> list_all (\<lambda>i. trim i \<noteq> []) embeddings \<Longrightarrow> builder_ok (select_first_index embeddings b)"
  by (cases embeddings) (simp_all add: select_first_index_def builder_ok_def)

lemma select_first_index_nonempty:
  "sb_semantic (select_first_index embeddings b) \<and> embeddings \<noteq> [] \<longrightarrow> sb_indexes (select_first_index embeddings b) \<noteq> []"
  by (simp add: select_first_index_def)

text \<open>C27. Whatever the user does, when the names of the indexes are not blank: the chosen fields of the search are
  trimmed and not empty, no index, suggestion field, suggestion index or result field is chosen twice, and
  no field of the search either as long as the names that are picked have no blanks at their ends; the
  preview is shown exactly when something is chosen for the mode of the search; and with a vector index at
  hand, the semantic mode always has one.\<close>

theorem choices_stay_valid:
  assumes "list_all event_ok evs" "list_all (\<lambda>i. trim i \<noteq> []) embeddings" "b = fold (builder_step embeddings) evs start_builder"
  shows "builder_ok b \<and> (list_all field_trimmed evs \<longrightarrow> distinct (sb_searchFields b))
    \<and> (resultsProps b = None \<longleftrightarrow> (if sb_semantic b then sb_indexes b = [] else sb_searchFields b = []))
    \<and> (sb_semantic b \<and> embeddings \<noteq> [] \<longrightarrow> sb_indexes b \<noteq> [])"
proof -
  have "builder_ok (fold (builder_step embeddings) evs start_builder)"
    using assms(1,2)
  proof (induction evs rule: rev_induct)
    case Nil
    then show ?case by (simp add: builder_ok_def start_builder_def)
  next
    case (snoc ev evs)
    then show ?case by (simp add: builder_step_def builder_ok_event builder_ok_select)
  qed
  then have ok: "builder_ok b" unfolding assms(3) .
  have once: "distinct (sb_searchFields b)" if "list_all field_trimmed evs"
    using that unfolding assms(3)
  proof (induction evs rule: rev_induct)
    case Nil
    then show ?case by (simp add: start_builder_def)
  next
    case (snoc ev evs)
    then show ?case by (simp add: builder_step_def search_fields_once select_keeps_fields)
  qed
  have "sb_semantic b \<and> embeddings \<noteq> [] \<longrightarrow> sb_indexes b \<noteq> []"
    unfolding assms(3)
    by (cases evs rule: rev_cases) (simp add: start_builder_def, simp add: builder_step_def select_first_index_nonempty)
  moreover have "list_all (\<lambda>f. trim f \<noteq> []) (sb_searchFields b)" "list_all (\<lambda>i. trim i \<noteq> []) (sb_indexes b)"
    using ok unfolding builder_ok_def list_all_iff by (metis, metis)
  then have "resultsProps b = None \<longleftrightarrow> (if sb_semantic b then sb_indexes b = [] else sb_searchFields b = [])"
    by (simp add: resultsProps_def)
  ultimately show ?thesis
    using ok once by blast
qed

theorem choices_stay_valid_witness:
  "builder_ok (fold (builder_step [''v1'']) [BSemantic True, BToggleIndex ''v1''] start_builder)"
proof -
  have "trim ''v1'' \<noteq> []" by code_simp
  then have "list_all event_ok [BSemantic True, BToggleIndex ''v1'']" "list_all (\<lambda>i. trim i \<noteq> []) [''v1'']" by simp_all
  from choices_stay_valid [OF this refl] show ?thesis by blast
qed

text \<open>The check for a chosen field looks for the name as it is and stores the trimmed one: a field whose name begins
  with a blank is chosen as often as it is picked.\<close>

lemma blank_field_chosen_twice:
  "sb_searchFields (fold (builder_step []) [BAddField '' a'', BAddField '' a''] start_builder) = [''a'', ''a'']"
  by code_simp

text \<open>The only chosen index cannot be removed when it is the first one: the click that removes it is
  followed by the effect that selects it.\<close>

theorem first_index_returns:
  "sb_indexes (builder_step (i # is) (BToggleIndex i) (start_builder\<lparr>sb_semantic := True, sb_indexes := [i]\<rparr>)) = [i]"
  by (simp add: builder_step_def select_first_index_def remove_choice_def)

section \<open>What the code says\<close>

text \<open>The code imports the components that it uses: beside the provider and the box, the facets, the
  results and the suggestions appear in the import exactly when they appear in the page.\<close>

theorem imports_match_code:
  "(''Facet'' \<in> set (used_components b) \<longleftrightarrow> facets_code b \<noteq> [])
   \<and> (''Results'' \<in> set (used_components b) \<longleftrightarrow> results_code b \<noteq> [])
   \<and> (''Autosuggest'' \<in> set (used_components b) \<longleftrightarrow> autosuggest_code b \<noteq> [])
   \<and> (preview_autosuggest b \<noteq> None \<longleftrightarrow> autosuggest_code b \<noteq> [])"
proof -
  have facets: "join [newline] (map facet_code fs) \<noteq> []" if "fs \<noteq> []" for fs
    using that by (cases fs rule: list.exhaust; cases "tl fs") (auto simp: facet_code_def)
  have line: "code_line n t @ u \<noteq> []" for n t u
    by (simp add: code_line_def)
  have "results_code b \<noteq> [] \<longleftrightarrow> sb_showResults b"
    by (cases "sb_showResults b") (simp_all only: results_code_def if_True if_False not_True_eq_False not_False_eq_True line simp_thms)
  moreover have "autosuggest_code b \<noteq> [] \<longleftrightarrow>
      sb_autosuggest b \<and> (sb_autoSemantic b \<and> sb_autoIndexes b \<noteq> [] \<or> \<not> sb_autoSemantic b \<and> sb_autoFields b \<noteq> [])"
    by (cases "sb_autosuggest b"; cases "sb_autoSemantic b"; cases "sb_autoIndexes b = []"; cases "sb_autoFields b = []")
      (simp_all only: autosuggest_code_def Let_def if_True if_False not_True_eq_False not_False_eq_True line simp_thms)
  moreover have "facets_code b \<noteq> [] \<longleftrightarrow> sb_showFacets b \<and> sb_facets b \<noteq> []"
    by (simp add: facets_code_def facets)
  ultimately show ?thesis
    by (simp add: used_components_def preview_autosuggest_def)
qed

text \<open>The preview bounds the number of semantic results, the code does not: the code that is copied
  asks for what was typed.\<close>

theorem code_limit_unbounded:
  assumes "sb_semantic b" "resultsProps b = Some (SemanticProps is n)"
  shows "1 \<le> n \<and> n \<le> 100
    \<and> search_props_code b = code_line 8 ''searchBoxId=\"main\"'' @ code_line 8 ''semanticIndexes={'' @ code_list is @ ''}''
        @ code_line 8 ''limit={'' @ int_code (sb_semanticLimit b) @ ''}''"
  using assms by (auto simp: resultsProps_def search_props_code_def split: if_splits)

theorem code_limit_unbounded_witness:
  "resultsProps (start_builder\<lparr>sb_semantic := True, sb_indexes := [''v1''], sb_semanticLimit := 1000\<rparr>) = Some (SemanticProps [''v1''] 100)
   \<and> search_props_code (start_builder\<lparr>sb_semantic := True, sb_indexes := [''v1''], sb_semanticLimit := 1000\<rparr>)
     = code_line 8 ''searchBoxId=\"main\"'' @ code_line 8 ''semanticIndexes={'' @ code_list [''v1''] @ ''}''
        @ code_line 8 ''limit={'' @ int_code 1000 @ ''}''"
proof -
  let ?b = "start_builder\<lparr>sb_semantic := True, sb_indexes := [''v1''], sb_semanticLimit := 1000\<rparr>"
  have "trim ''v1'' \<noteq> []" by code_simp
  then have p: "resultsProps ?b = Some (SemanticProps [''v1''] 100)" by (simp add: resultsProps_def)
  have "sb_semantic ?b" by simp
  from code_limit_unbounded [OF this p] have "search_props_code ?b
     = code_line 8 ''searchBoxId=\"main\"'' @ code_line 8 ''semanticIndexes={'' @ code_list [''v1''] @ ''}''
        @ code_line 8 ''limit={'' @ int_code (sb_semanticLimit ?b) @ ''}''" by blast
  with p show ?thesis by simp
qed

text \<open>A name is put between quotation marks as it is: the code says it exactly when it has none.\<close>

theorem quoted_name_read_back:
  "takeWhile (\<lambda>c. c \<noteq> CHR 0x22) (drop 1 (in_quotes s)) = s \<longleftrightarrow> CHR 0x22 \<notin> set s"
proof -
  have "takeWhile (\<lambda>c. c \<noteq> q) (s @ [q]) = s \<longleftrightarrow> q \<notin> set s" for q :: char
    by (induction s) auto
  then show ?thesis by (simp add: in_quotes_def)
qed

end
