(* ===== verification/TablePages.thy ===== *)
theory TablePages
  imports MemoryDashboard BulkInsert SdkOps SearchBuilder "HOL-Library.Countable"
begin

text \<open>
  The pages of the tables: the list (ts/apps/antfarm/src/pages/TablesListPage.tsx) and the page of one
  table (ts/apps/antfarm/src/pages/TableDetailsPage.tsx) with its indexes, its search in two views and
  its schema. A request that is under way is an entry of the list of calls, and its answer an event that
  names the entry, so the answers may come in any order. \<open>parse\<close> and \<open>print\<close> are \<open>JSON.parse\<close> and
  \<open>JSON.stringify\<close>; a member that is undefined is not written, and is left out before \<open>print\<close> is used.
\<close>

section \<open>The list of tables\<close>

datatype filter_mode = ByPrefix | ByRegex

text \<open>
  A drop and the timer that follows it hold the parameters of the list request that was in scope when
  the handler was called.
\<close>

datatype list_call = LList "(string \<times> string) list" | LDrop string "(string \<times> string) list"

record tables_page =
  tl_tables :: "jsval list"
  tl_error :: "string option"
  tl_dropOpen :: bool
  tl_selected :: "string option"
  tl_dropping :: bool
  tl_loading :: bool
  tl_mode :: filter_mode
  tl_filter :: string
  tl_calls :: "list_call list"
  tl_timers :: "(string \<times> string) list list"

definition list_params :: "tables_page \<Rightarrow> (string \<times> string) list" where
  "list_params st =
     (if tl_filter st = [] then []
      else case tl_mode st of ByPrefix \<Rightarrow> [(''prefix'', tl_filter st)] | ByRegex \<Rightarrow> [(''pattern'', tl_filter st)])"

definition fetch_with :: "(string \<times> string) list \<Rightarrow> tables_page \<Rightarrow> tables_page" where
  "fetch_with ps st = st\<lparr>tl_loading := True, tl_calls := tl_calls st @ [LList ps]\<rparr>"

definition fetchTables :: "tables_page \<Rightarrow> tables_page" where
  "fetchTables st = fetch_with (list_params st) st"

definition mount_list :: tables_page where
  "mount_list = fetch_with [] \<lparr>tl_tables = [], tl_error = None, tl_dropOpen = False, tl_selected = None, tl_dropping = False,
     tl_loading = False, tl_mode = ByPrefix, tl_filter = [], tl_calls = [], tl_timers = []\<rparr>"

definition handleDropTable :: "tables_page \<Rightarrow> tables_page" where
  "handleDropTable st =
     (case tl_selected st of
        None \<Rightarrow> st
      | Some n \<Rightarrow> st\<lparr>tl_dropping := True, tl_calls := tl_calls st @ [LDrop n (list_params st)]\<rparr>)"

definition drop_answer :: "(string \<times> string) list \<Rightarrow> string \<Rightarrow> jsval res \<Rightarrow> tables_page \<Rightarrow> tables_page" where
  "drop_answer captured n r st =
     (case r of
        Inr _ \<Rightarrow> st\<lparr>tl_timers := tl_timers st @ [captured]\<rparr>
      | Inl _ \<Rightarrow> st\<lparr>tl_error := Some (''Failed to drop table '' @ n @ ''.''), tl_dropping := False\<rparr>)"

definition drop_timer :: "(string \<times> string) list \<Rightarrow> tables_page \<Rightarrow> tables_page" where
  "drop_timer captured st = (fetch_with captured st)\<lparr>tl_selected := None, tl_dropOpen := False, tl_dropping := False\<rparr>"

definition list_answer :: "jsval res \<Rightarrow> tables_page \<Rightarrow> tables_page" where
  "list_answer r st =
     (case r of
        Inr v \<Rightarrow> st\<lparr>tl_tables := elems v, tl_loading := False\<rparr>
      | Inl _ \<Rightarrow> st\<lparr>tl_error := Some ''Failed to fetch tables. Make sure the Antfly server is running.'', tl_loading := False\<rparr>)"

definition handleClearFilter :: "tables_page \<Rightarrow> tables_page" where
  "handleClearFilter st = st\<lparr>tl_filter := [], tl_mode := ByPrefix\<rparr>"

text \<open>The buttons that are disabled while a list is awaited or a drop is under way do nothing then; the
  Enter key in the filter does not look at that, and a dialog may be left at any time.\<close>

datatype list_event =
    LReload
  | LMode filter_mode
  | LFilter string
  | LEnter
  | LApply
  | LClear
  | LOpenDrop string
  | LCloseDrop
  | LConfirmDrop
  | LAnswer nat "jsval res"
  | LTimer nat

definition list_call_answer :: "list_call \<Rightarrow> jsval res \<Rightarrow> tables_page \<Rightarrow> tables_page" where
  "list_call_answer c r st = (case c of LList ps \<Rightarrow> list_answer r st | LDrop n captured \<Rightarrow> drop_answer captured n r st)"

fun list_step :: "list_event \<Rightarrow> tables_page \<Rightarrow> tables_page" where
  "list_step LReload st = (if tl_loading st then st else fetchTables st)"
| "list_step (LMode m) st = st\<lparr>tl_mode := m\<rparr>"
| "list_step (LFilter s) st = st\<lparr>tl_filter := s\<rparr>"
| "list_step LEnter st = fetchTables st"
| "list_step LApply st = (if tl_loading st then st else fetchTables st)"
| "list_step LClear st = (if tl_filter st = [] \<or> tl_loading st then st else handleClearFilter st)"
| "list_step (LOpenDrop n) st = st\<lparr>tl_selected := Some n, tl_dropOpen := True\<rparr>"
| "list_step LCloseDrop st = st\<lparr>tl_dropOpen := False\<rparr>"
| "list_step LConfirmDrop st =
     (if tl_dropping st \<or> \<not> tl_dropOpen st then st else (handleDropTable st)\<lparr>tl_dropOpen := False\<rparr>)"
| "list_step (LAnswer i r) st =
     (if i < length (tl_calls st) then list_call_answer (tl_calls st ! i) r (st\<lparr>tl_calls := without i (tl_calls st)\<rparr>) else st)"
| "list_step (LTimer i) st =
     (if i < length (tl_timers st) then drop_timer (tl_timers st ! i) (st\<lparr>tl_timers := without i (tl_timers st)\<rparr>) else st)"

text \<open>The cells of one table's row that are computed.\<close>

datatype status_part = Rebuilding string string | EmptyTable | DiskUsage jsval | NotAvailable

definition entry_count :: "jsval \<Rightarrow> nat res" where
  "entry_count v = (case own_keys v of None \<Rightarrow> throw_type_error | Some ks \<Rightarrow> Inr (length ks))"

definition rebuilding :: "jsval \<Rightarrow> status_part list res" where
  "rebuilding table =
     (if truthy (fld table ''migration'')
      then (case fld_or_throw (fld (fld table ''migration'') ''read_schema'') ''version'' of
              Inl e \<Rightarrow> Inl e
            | Inr v \<Rightarrow> Inr [Rebuilding (to_str v) (to_str (coalesce (fld (fld table ''schema'') ''version'') (JStr ''?'')))])
      else Inr [])"

definition storage_parts :: "jsval \<Rightarrow> status_part list" where
  "storage_parts storage =
     (if truthy storage
      then (if truthy (fld storage ''empty'') then [EmptyTable] else [])
           @ (if fld storage ''disk_usage'' \<noteq> JUndef then [DiskUsage (fld storage ''disk_usage'')] else [])
      else [NotAvailable])"

definition table_status :: "jsval \<Rightarrow> status_part list res" where
  "table_status table = (case rebuilding table of Inl e \<Rightarrow> Inl e | Inr ps \<Rightarrow> Inr (ps @ storage_parts (fld table ''storage_status'')))"

section \<open>One row of the indexes\<close>

text \<open>An entry of the answer, as the type of the SDK has it.\<close>

record index_info =
  ix_name :: string
  ix_type :: string
  ix_config :: jsval
  ix_status :: jsval

definition index_info_of :: "jsval \<Rightarrow> index_info" where
  "index_info_of v = \<lparr>ix_name = to_str (fld (fld v ''config'') ''name''), ix_type = to_str (fld (fld v ''config'') ''type''),
     ix_config = fld v ''config'', ix_status = fld v ''status''\<rparr>"

definition is_dec_digit :: "char \<Rightarrow> bool" where
  "is_dec_digit c \<longleftrightarrow> c \<in> set ''0123456789''"

text \<open>The pattern \<open>/_v(\d+)$/\<close>: the digits at the end, behind \<open>_v\<close>.\<close>

definition getIndexVersion :: "string \<Rightarrow> string option" where
  "getIndexVersion name =
     (let ds = takeWhile is_dec_digit (rev name)
      in if ds \<noteq> [] \<and> take 2 (drop (length ds) (rev name)) = ''v_'' then Some (rev ds) else None)"

definition getModelInfo :: "index_info \<Rightarrow> (string \<times> string) option" where
  "getModelInfo ix =
     (if ix_type ix = ''embeddings''
      then let c = fld (ix_config ix) ''embedder''
           in Some (to_str (js_or (fld c ''model'') (JStr ''N/A'')), to_str (js_or (fld c ''provider'') (JStr ''N/A'')))
      else None)"

datatype row_cell = TextCell string | SizeCell jsval | ActionsCell bool

definition total_cell :: "index_info \<Rightarrow> row_cell" where
  "total_cell ix = TextCell (if has_key (ix_status ix) ''total_indexed'' then to_str (fld (ix_status ix) ''total_indexed'') else ''N/A'')"

definition disk_cell :: "index_info \<Rightarrow> row_cell" where
  "disk_cell ix =
     (if has_key (ix_status ix) ''disk_usage'' \<and> fld (ix_status ix) ''disk_usage'' \<noteq> JUndef
      then SizeCell (fld (ix_status ix) ''disk_usage'') else TextCell ''N/A'')"

text \<open>The last cell has the drop button, disabled for the index that every table has.\<close>

definition index_row :: "index_info \<Rightarrow> row_cell list" where
  "index_row ix =
     (if ix_type ix \<noteq> ''full_text'' then [TextCell (ix_name ix)] else [])
     @ (if ix_type ix = ''full_text'' then (case getIndexVersion (ix_name ix) of None \<Rightarrow> [] | Some v \<Rightarrow> [TextCell v]) else [])
     @ (case getModelInfo ix of None \<Rightarrow> [] | Some (m, p) \<Rightarrow> [TextCell p, TextCell m])
     @ (if ix_type ix \<in> {''embeddings'', ''full_text''} then [total_cell ix] else [])
     @ (if ix_type ix = ''full_text'' then [disk_cell ix] else [])
     @ [ActionsCell (\<not> starts_with (ix_name ix) ''full_text_index'')]"

definition row_header :: "string \<Rightarrow> string list" where
  "row_header t =
     [if t = ''full_text'' then ''Version'' else ''Name'']
     @ (if t = ''embeddings'' then [''Provider'', ''Model''] else [])
     @ (if t \<in> {''embeddings'', ''full_text''} then [''Total Indexed''] else [])
     @ (if t = ''full_text'' then [''Disk Usage''] else [])
     @ [''Actions'']"

definition groupedIndexes :: "index_info list \<Rightarrow> (string, index_info list) jmap" where
  "groupedIndexes ixs =
     foldl (\<lambda>acc ix. jmap_set acc (ix_type ix) ((case jmap_get acc (ix_type ix) of None \<Rightarrow> [] | Some g \<Rightarrow> g) @ [ix])) [] ixs"

definition sortedIndexTypes :: "index_info list \<Rightarrow> string list" where
  "sortedIndexTypes ixs = sort (map fst (groupedIndexes ixs))"

definition index_tables :: "index_info list \<Rightarrow> (string \<times> index_info list) list" where
  "index_tables ixs = map (\<lambda>t. (t, the (jmap_get (groupedIndexes ixs) t))) (sortedIndexTypes ixs)"

section \<open>The page of a table\<close>

datatype query_mode = BuilderMode | JsonMode

datatype table_call =
    CIndexes string
  | CSchema string
  | CDropIndex string string
  | CQuery string jsval
  | CUpdateSchema string jsval

text \<open>
  The text of the query, its indexes and its fields are values, since the JSON view may bring back
  anything; a timer holds the run that was in scope when it was set.
\<close>

record table_page =
  td_table :: string
  td_indexes :: "index_info list"
  td_schema :: jsval
  td_migration :: jsval
  td_error :: "string option"
  td_createOpen :: bool
  td_dropOpen :: bool
  td_selected :: "index_info option"
  td_query :: jsval
  td_result :: jsval
  td_queryIndexes :: jsval
  td_filterQuery :: string
  td_semanticQuery :: string
  td_fields :: jsval
  td_fieldInput :: string
  td_editing :: bool
  td_mode :: query_mode
  td_json :: string
  td_calls :: "table_call list"
  td_timers :: "(string \<times> jsval res) list"

text \<open>\<open>v.length\<close> of a text or an array; other values have none.\<close>

fun length_of :: "jsval \<Rightarrow> nat option" where
  "length_of (JArr vs) = Some (length vs)"
| "length_of (JStr s) = Some (length s)"
| "length_of _ = None"

definition some_elements :: "jsval \<Rightarrow> bool" where
  "some_elements v \<longleftrightarrow> (case length_of v of None \<Rightarrow> False | Some n \<Rightarrow> 0 < n)"

definition vector_indexes :: "index_info list \<Rightarrow> string list" where
  "vector_indexes ixs = map ix_name (filter (\<lambda>ix. ix_type ix = ''embeddings'') ixs)"

text \<open>The effect that takes the first vector index while none is chosen.\<close>

definition take_first_index :: "table_page \<Rightarrow> table_page" where
  "take_first_index st =
     (if length_of (td_queryIndexes st) = Some 0 \<and> vector_indexes (td_indexes st) \<noteq> []
      then st\<lparr>td_queryIndexes := JArr [JStr (hd (vector_indexes (td_indexes st)))]\<rparr> else st)"

text \<open>Only a text has \<open>trim\<close>; the page keeps a text there (theorem \<open>page_keeps_types\<close>).\<close>

definition hasSemanticQuery :: "table_page \<Rightarrow> bool" where
  "hasSemanticQuery st \<longleftrightarrow>
     (case td_query st of JStr q \<Rightarrow> trim q \<noteq> [] | _ \<Rightarrow> False) \<and> some_elements (td_queryIndexes st)"

definition hasFilterQuery :: "(string \<Rightarrow> jsval option) \<Rightarrow> table_page \<Rightarrow> bool" where
  "hasFilterQuery parse st \<longleftrightarrow>
     (case Option.bind (parse (td_filterQuery st)) own_keys of None \<Rightarrow> False | Some ks \<Rightarrow> ks \<noteq> [])"

definition limit_part :: "(string \<Rightarrow> jsval option) \<Rightarrow> table_page \<Rightarrow> (string \<times> jsval) list" where
  "limit_part parse st =
     (case parse (td_semanticQuery st) of
        None \<Rightarrow> [(''limit'', JNum 10)]
      | Some v \<Rightarrow>
          if nullish v then [(''limit'', JNum 10)]
          else [(''aggregations'', fld v ''aggregations''), (''limit'', coalesce (fld v ''limit'') (JNum 10))]
               @ (if hasSemanticQuery st then [] else [(''offset'', fld v ''offset'')]))"

definition request_object :: "(string \<Rightarrow> jsval option) \<Rightarrow> table_page \<Rightarrow> jsval" where
  "request_object parse st = defined_fields (
     (if hasSemanticQuery st
      then [(''indexes'', td_queryIndexes st), (''semantic_search'', js_or (td_query st) (JStr []))] else [])
     @ (if some_elements (td_fields st) then [(''fields'', td_fields st)] else [])
     @ limit_part parse st
     @ (if hasFilterQuery parse st then [(''filter_query'', of_option (parse (td_filterQuery st)))] else []))"

definition semanticQueryRequestString :: "(string \<Rightarrow> jsval option) \<Rightarrow> (jsval \<Rightarrow> string) \<Rightarrow> table_page \<Rightarrow> string" where
  "semanticQueryRequestString parse print st = print (request_object parse st)"

definition semanticQueryRequest :: "(string \<Rightarrow> jsval option) \<Rightarrow> (jsval \<Rightarrow> string) \<Rightarrow> table_page \<Rightarrow> jsval" where
  "semanticQueryRequest parse print st =
     (case parse (semanticQueryRequestString parse print st) of Some v \<Rightarrow> v | None \<Rightarrow> JObj [])"

definition show_json :: "(string \<Rightarrow> jsval option) \<Rightarrow> (jsval \<Rightarrow> string) \<Rightarrow> table_page \<Rightarrow> table_page" where
  "show_json parse print st = st\<lparr>td_json := semanticQueryRequestString parse print st, td_mode := JsonMode\<rparr>"

definition semantic_part :: "jsval \<Rightarrow> jsval" where
  "semantic_part r = defined_fields (
     (if truthy (fld r ''aggregations'') then [(''aggregations'', fld r ''aggregations'')] else [])
     @ [(''limit'', fld r ''limit''), (''offset'', fld r ''offset'')])"

definition json_refused :: string where
  "json_refused = ''Invalid JSON in query editor. Please fix it before switching to builder mode.''"

definition show_builder :: "(string \<Rightarrow> jsval option) \<Rightarrow> (jsval \<Rightarrow> string) \<Rightarrow> table_page \<Rightarrow> table_page" where
  "show_builder parse print st =
     (case parse (td_json st) of
        None \<Rightarrow> st\<lparr>td_error := Some json_refused\<rparr>
      | Some r \<Rightarrow>
          if nullish r then st\<lparr>td_error := Some json_refused\<rparr>
          else st\<lparr>td_queryIndexes := js_or (fld r ''indexes'') (JArr []),
                  td_fields := js_or (fld r ''fields'') (JArr []),
                  td_fieldInput := [],
                  td_query := js_or (fld r ''semantic_search'') (JStr []),
                  td_filterQuery := print (if truthy (fld r ''filter_query'') then fld r ''filter_query'' else JObj []),
                  td_semanticQuery := print (semantic_part r),
                  td_error := None,
                  td_mode := BuilderMode\<rparr>)"

definition handleQueryModeChange ::
    "(string \<Rightarrow> jsval option) \<Rightarrow> (jsval \<Rightarrow> string) \<Rightarrow> query_mode \<Rightarrow> table_page \<Rightarrow> table_page" where
  "handleQueryModeChange parse print m st =
     (case m of JsonMode \<Rightarrow> show_json parse print st | BuilderMode \<Rightarrow> show_builder parse print st)"

definition ask :: "table_call \<Rightarrow> table_page \<Rightarrow> table_page" where
  "ask c st = st\<lparr>td_calls := td_calls st @ [c]\<rparr>"

definition fetchIndexes :: "string \<Rightarrow> table_page \<Rightarrow> table_page" where
  "fetchIndexes t st = (if t = [] then st else ask (CIndexes t) st)"

definition fetchTableSchema :: "string \<Rightarrow> table_page \<Rightarrow> table_page" where
  "fetchTableSchema t st = (if t = [] then st else ask (CSchema t) st)"

definition index_list_answer :: "string \<Rightarrow> jsval res \<Rightarrow> table_page \<Rightarrow> table_page" where
  "index_list_answer t r st =
     (case r of
        Inr v \<Rightarrow> st\<lparr>td_indexes := map index_info_of (elems v)\<rparr>
      | Inl _ \<Rightarrow> st\<lparr>td_error := Some (''Failed to fetch indexes for table '' @ t @ ''.'')\<rparr>)"

definition shown_schema :: "jsval \<Rightarrow> jsval" where
  "shown_schema response =
     (let s = fld response ''schema''
      in if truthy s \<and> (case own_keys s of None \<Rightarrow> False | Some ks \<Rightarrow> ks \<noteq> []) then s else JNull)"

definition schema_answer :: "jsval res \<Rightarrow> table_page \<Rightarrow> table_page" where
  "schema_answer r st =
     (case r of
        Inr v \<Rightarrow> st\<lparr>td_schema := shown_schema v, td_migration := fld v ''migration''\<rparr>
      | Inl _ \<Rightarrow> st\<lparr>td_schema := JNull, td_migration := JUndef\<rparr>)"

definition handleDropIndex :: "table_page \<Rightarrow> table_page" where
  "handleDropIndex st =
     (case td_selected st of
        None \<Rightarrow> st
      | Some ix \<Rightarrow> if td_table st = [] then st else ask (CDropIndex (td_table st) (ix_name ix)) st)"

text \<open>The handler goes on with the table that it was called for.\<close>

definition index_dropped :: "string \<Rightarrow> string \<Rightarrow> jsval res \<Rightarrow> table_page \<Rightarrow> table_page" where
  "index_dropped t n r st =
     (case r of
        Inr _ \<Rightarrow> (fetchIndexes t st)\<lparr>td_selected := None, td_dropOpen := False\<rparr>
      | Inl _ \<Rightarrow> st\<lparr>td_error := Some (''Failed to drop index '' @ n @ ''.'')\<rparr>)"

text \<open>The run of a query as the handler of this render would do it: the table, and the request or what
  \<open>JSON.parse\<close> throws.\<close>

definition query_to_run :: "(string \<Rightarrow> jsval option) \<Rightarrow> (jsval \<Rightarrow> string) \<Rightarrow> table_page \<Rightarrow> string \<times> jsval res" where
  "query_to_run parse print st =
     (td_table st,
      case td_mode st of
        JsonMode \<Rightarrow> (case parse (td_json st) of Some v \<Rightarrow> Inr v | None \<Rightarrow> Inl (ErrorObj ''SyntaxError'' (td_json st)))
      | BuilderMode \<Rightarrow> Inr (semanticQueryRequest parse print st))"

definition run_failed :: "string \<Rightarrow> table_page \<Rightarrow> table_page" where
  "run_failed t st = st\<lparr>td_error := Some (''Failed to run query on table '' @ t @ ''.'')\<rparr>"

definition run_query :: "string \<times> jsval res \<Rightarrow> table_page \<Rightarrow> table_page" where
  "run_query q st =
     (if fst q = [] then st
      else case snd q of Inr v \<Rightarrow> ask (CQuery (fst q) v) st | Inl _ \<Rightarrow> run_failed (fst q) st)"

definition handleRunQuery :: "(string \<Rightarrow> jsval option) \<Rightarrow> (jsval \<Rightarrow> string) \<Rightarrow> table_page \<Rightarrow> table_page" where
  "handleRunQuery parse print st = run_query (query_to_run parse print st) st"

definition query_answer :: "string \<Rightarrow> jsval res \<Rightarrow> table_page \<Rightarrow> table_page" where
  "query_answer t r st =
     (case r of
        Inr v \<Rightarrow> st\<lparr>td_result := js_or (elem_at (fld v ''responses'') 0) JNull\<rparr>
      | Inl _ \<Rightarrow> run_failed t st)"

definition query_applied :: "(jsval \<Rightarrow> string) \<Rightarrow> jsval \<Rightarrow> table_page \<Rightarrow> table_page" where
  "query_applied print q st = st\<lparr>td_filterQuery := print q\<rparr>"

definition query_applied_and_run ::
    "(string \<Rightarrow> jsval option) \<Rightarrow> (jsval \<Rightarrow> string) \<Rightarrow> jsval \<Rightarrow> table_page \<Rightarrow> table_page" where
  "query_applied_and_run parse print q st =
     (query_applied print q st)\<lparr>td_timers := td_timers st @ [query_to_run parse print st]\<rparr>"

text \<open>The fields of the answer.\<close>

definition field_key_enter :: "table_page \<Rightarrow> table_page" where
  "field_key_enter st =
     (if trim (td_fieldInput st) = [] then st
      else st\<lparr>td_fields := JArr (add_once (JStr (trim (td_fieldInput st))) (elems (td_fields st))), td_fieldInput := []\<rparr>)"

definition handleRemoveField :: "string \<Rightarrow> table_page \<Rightarrow> table_page" where
  "handleRemoveField f st = st\<lparr>td_fields := JArr (filter (\<lambda>x. x \<noteq> JStr f) (elems (td_fields st)))\<rparr>"

definition handleAddAvailableField :: "string \<Rightarrow> table_page \<Rightarrow> table_page" where
  "handleAddAvailableField f st = st\<lparr>td_fields := JArr (add_once (JStr f) (elems (td_fields st)))\<rparr>"

definition handleUpdateSchema :: "(string \<times> jsval) list \<Rightarrow> table_page \<Rightarrow> table_page" where
  "handleUpdateSchema schema st =
     (if td_table st = [] then st
      else ask (CUpdateSchema (td_table st) (JObj (obj_assign [(''version'', JNum 0)] schema))) st)"

definition schema_updated :: "string \<Rightarrow> jsval res \<Rightarrow> table_page \<Rightarrow> table_page" where
  "schema_updated t r st =
     (case r of
        Inr _ \<Rightarrow> (fetchTableSchema t st)\<lparr>td_editing := False\<rparr>
      | Inl _ \<Rightarrow> st\<lparr>td_error := Some (''Failed to update schema for table '' @ t @ ''.'')\<rparr>)"

fun table_answer :: "table_call \<Rightarrow> jsval res \<Rightarrow> table_page \<Rightarrow> table_page" where
  "table_answer (CIndexes t) r st = index_list_answer t r st"
| "table_answer (CSchema t) r st = schema_answer r st"
| "table_answer (CDropIndex t n) r st = index_dropped t n r st"
| "table_answer (CQuery t q) r st = query_answer t r st"
| "table_answer (CUpdateSchema t s) r st = schema_updated t r st"

text \<open>What a call asks of the SDK.\<close>

fun perform_table_call :: "api \<Rightarrow> antfly_client \<Rightarrow> table_call \<Rightarrow> jsval res" where
  "perform_table_call ap cl (CIndexes t) = indexes_list ap cl t"
| "perform_table_call ap cl (CSchema t) = tables_get ap cl t"
| "perform_table_call ap cl (CDropIndex t n) = indexes_drop ap cl t n"
| "perform_table_call ap cl (CQuery t q) = tables_query ap cl t q"
| "perform_table_call ap cl (CUpdateSchema t s) = tables_updateSchema ap cl t s"

text \<open>What the schema section and the banner of a migration show.\<close>

datatype schema_view = EditForm jsval | SchemaShown jsval | NewForm

definition schema_section :: "table_page \<Rightarrow> schema_view" where
  "schema_section st =
     (let ds = fld (td_schema st) ''document_schemas''
      in if td_editing st then EditForm (td_schema st)
         else if truthy ds \<and> (case own_keys ds of None \<Rightarrow> False | Some ks \<Rightarrow> ks \<noteq> []) then SchemaShown (td_schema st)
         else NewForm)"

definition migration_versions :: "table_page \<Rightarrow> (string \<times> string) option res" where
  "migration_versions st =
     (if truthy (td_migration st)
      then (case fld_or_throw (fld (td_migration st) ''read_schema'') ''version'' of
              Inl e \<Rightarrow> Inl e
            | Inr v \<Rightarrow> Inr (Some (to_str v, to_str (coalesce (fld (td_schema st) ''version'') (JStr ''?'')))))
      else Inr None)"

definition run_status :: "(string \<Rightarrow> jsval option) \<Rightarrow> table_page \<Rightarrow> string" where
  "run_status parse st =
     (if hasSemanticQuery st \<and> hasFilterQuery parse st then ''Running semantic + full-text search''
      else if hasSemanticQuery st then ''Running semantic search''
      else if hasFilterQuery parse st then ''Running full-text search''
      else ''Enter a query to search'')"

definition run_enabled :: "(string \<Rightarrow> jsval option) \<Rightarrow> table_page \<Rightarrow> bool" where
  "run_enabled parse st \<longleftrightarrow> hasSemanticQuery st \<or> hasFilterQuery parse st"

text \<open>The text of the JSON view can be edited only while it does not parse.\<close>

definition json_editable :: "(string \<Rightarrow> jsval option) \<Rightarrow> table_page \<Rightarrow> bool" where
  "json_editable parse st \<longleftrightarrow> td_mode st = JsonMode \<and> parse (td_json st) = None"

text \<open>The fields that the schema offers, as the search page builder computes them.\<close>

definition antfly_type_names :: "(antfly_type \<times> string) list" where
  "antfly_type_names =
     [(AText, ''text''), (AKeyword, ''keyword''), (AHtml, ''html''), (ANumeric, ''numeric''), (ABoolean, ''boolean''),
      (ADatetime, ''datetime''), (AGeopoint, ''geopoint''), (AGeoshape, ''geoshape''), (AEmbedding, ''embedding''),
      (ALink, ''link''), (ABlob, ''blob''), (ASearchAsYouType, ''search_as_you_type'')]"

definition antfly_type_named :: "jsval \<Rightarrow> antfly_type list" where
  "antfly_type_named v = map fst (filter (\<lambda>(t, n). v = JStr n) antfly_type_names)"

definition schema_property_of :: "jsval \<Rightarrow> schema_property" where
  "schema_property_of v =
     \<lparr>pr_type = (case fld v ''type'' of JStr s \<Rightarrow> Some s | _ \<Rightarrow> None),
      pr_index = (case fld v ''x-antfly-index'' of JBool b \<Rightarrow> Some b | _ \<Rightarrow> None),
      pr_types = (case fld v ''x-antfly-types'' of JArr ts \<Rightarrow> Some (concat (map antfly_type_named ts)) | _ \<Rightarrow> None)\<rparr>"

definition document_schemas_of :: "jsval \<Rightarrow> doc_schemas option" where
  "document_schemas_of schema =
     (case fld schema ''document_schemas'' of
        JObj ds \<Rightarrow> Some (map (\<lambda>(n, d). (n, case fld (fld d ''schema'') ''properties'' of
                                        JObj ps \<Rightarrow> Some (map (\<lambda>(k, p). (k, schema_property_of p)) ps)
                                      | _ \<Rightarrow> None)) ds)
      | _ \<Rightarrow> None)"

definition availableSearchableFields :: "(string \<Rightarrow> 'k :: linorder) \<Rightarrow> table_page \<Rightarrow> searchable_field list" where
  "availableSearchableFields collate st = availableFields collate (document_schemas_of (td_schema st))"

definition page_basic_fields :: "(string \<Rightarrow> 'k :: linorder) \<Rightarrow> table_page \<Rightarrow> basic_field list" where
  "page_basic_fields collate st = availableBasicFields collate (document_schemas_of (td_schema st))"

definition offered_fields :: "(string \<Rightarrow> 'k :: linorder) \<Rightarrow> table_page \<Rightarrow> basic_field list" where
  "offered_fields collate st =
     filter (\<lambda>f. JStr (bf_fieldName f) \<notin> set (elems (td_fields st))) (page_basic_fields collate st)"

definition field_badge :: "(string \<Rightarrow> 'k :: linorder) \<Rightarrow> table_page \<Rightarrow> string \<Rightarrow> string" where
  "field_badge collate st f =
     (case List.find (\<lambda>b. bf_fieldName b = f) (page_basic_fields collate st) of
        None \<Rightarrow> f
      | Some b \<Rightarrow> if bf_displayName b = [] then f else bf_displayName b)"

section \<open>Its events\<close>

datatype table_event =
    PTable string
  | PAnswer nat "jsval res"
  | PTimer nat
  | PReload
  | PMode query_mode
  | PJsonText string
  | PQuery string
  | PIndexes "string list"
  | PFilter string
  | PSemantic string
  | PFieldInput string
  | PFieldEnter
  | PFieldRemove string
  | PFieldAdd string
  | PApply jsval
  | PApplyAndRun jsval
  | PRun
  | PCtrlEnter bool
  | POpenCreate bool
  | PCreated
  | POpenDrop index_info
  | PCloseDrop
  | PDrop
  | PEdit
  | PSubmitSchema "(string \<times> jsval) list"

definition open_table :: "string \<Rightarrow> table_page \<Rightarrow> table_page" where
  "open_table t st =
     (if t = td_table st then st else fetchTableSchema t (fetchIndexes t (st\<lparr>td_table := t\<rparr>)))"

definition open_drop :: "index_info \<Rightarrow> table_page \<Rightarrow> table_page" where
  "open_drop ix st =
     (if ix \<in> set (td_indexes st) \<and> \<not> starts_with (ix_name ix) ''full_text_index''
      then st\<lparr>td_selected := Some ix, td_dropOpen := True\<rparr> else st)"

text \<open>The Enter key in the query field reaches the field's handler and then that of the window.\<close>

definition ctrl_enter :: "(string \<Rightarrow> jsval option) \<Rightarrow> (jsval \<Rightarrow> string) \<Rightarrow> bool \<Rightarrow> table_page \<Rightarrow> table_page" where
  "ctrl_enter parse print in_field st =
     (let q = query_to_run parse print st
      in run_query q (if in_field \<and> td_mode st = BuilderMode then run_query q st else st))"

definition in_builder :: "(table_page \<Rightarrow> table_page) \<Rightarrow> table_page \<Rightarrow> table_page" where
  "in_builder f st = (if td_mode st = BuilderMode then f st else st)"

fun page_action :: "(string \<Rightarrow> jsval option) \<Rightarrow> (jsval \<Rightarrow> string) \<Rightarrow> table_event \<Rightarrow> table_page \<Rightarrow> table_page" where
  "page_action parse print (PTable t) st = open_table t st"
| "page_action parse print (PAnswer i r) st =
     (if i < length (td_calls st) then table_answer (td_calls st ! i) r (st\<lparr>td_calls := without i (td_calls st)\<rparr>) else st)"
| "page_action parse print (PTimer i) st =
     (if i < length (td_timers st) then run_query (td_timers st ! i) (st\<lparr>td_timers := without i (td_timers st)\<rparr>) else st)"
| "page_action parse print PReload st = fetchIndexes (td_table st) st"
| "page_action parse print (PMode m) st = (if m = td_mode st then st else handleQueryModeChange parse print m st)"
| "page_action parse print (PJsonText s) st = (if json_editable parse st then st\<lparr>td_json := s\<rparr> else st)"
| "page_action parse print (PQuery q) st = in_builder (\<lambda>st. st\<lparr>td_query := JStr q\<rparr>) st"
| "page_action parse print (PIndexes ixs) st = in_builder (\<lambda>st. st\<lparr>td_queryIndexes := JArr (map JStr ixs)\<rparr>) st"
| "page_action parse print (PFilter s) st = in_builder (\<lambda>st. st\<lparr>td_filterQuery := s\<rparr>) st"
| "page_action parse print (PSemantic s) st = in_builder (\<lambda>st. st\<lparr>td_semanticQuery := s\<rparr>) st"
| "page_action parse print (PFieldInput s) st = in_builder (\<lambda>st. st\<lparr>td_fieldInput := s\<rparr>) st"
| "page_action parse print PFieldEnter st = in_builder field_key_enter st"
| "page_action parse print (PFieldRemove f) st = in_builder (handleRemoveField f) st"
| "page_action parse print (PFieldAdd f) st = in_builder (handleAddAvailableField f) st"
| "page_action parse print (PApply q) st = in_builder (query_applied print q) st"
| "page_action parse print (PApplyAndRun q) st = in_builder (query_applied_and_run parse print q) st"
| "page_action parse print PRun st = (if run_enabled parse st then handleRunQuery parse print st else st)"
| "page_action parse print (PCtrlEnter b) st = ctrl_enter parse print b st"
| "page_action parse print (POpenCreate b) st = st\<lparr>td_createOpen := b\<rparr>"
| "page_action parse print PCreated st = fetchIndexes (td_table st) st"
| "page_action parse print (POpenDrop ix) st = open_drop ix st"
| "page_action parse print PCloseDrop st = st\<lparr>td_dropOpen := False\<rparr>"
| "page_action parse print PDrop st = (if td_dropOpen st then (handleDropIndex st)\<lparr>td_dropOpen := False\<rparr> else st)"
| "page_action parse print PEdit st = st\<lparr>td_editing := \<not> td_editing st\<rparr>"
| "page_action parse print (PSubmitSchema s) st = handleUpdateSchema s st"

definition table_page_step :: "(string \<Rightarrow> jsval option) \<Rightarrow> (jsval \<Rightarrow> string) \<Rightarrow> table_event \<Rightarrow> table_page \<Rightarrow> table_page" where
  "table_page_step parse print ev st = take_first_index (page_action parse print ev st)"

text \<open>The first render computes the text of the JSON view.\<close>

definition blank_page :: "(jsval \<Rightarrow> string) \<Rightarrow> string \<Rightarrow> table_page" where
  "blank_page print t = \<lparr>td_table = t, td_indexes = [], td_schema = JNull, td_migration = JUndef, td_error = None,
     td_createOpen = False, td_dropOpen = False, td_selected = None, td_query = JStr [], td_result = JNull,
     td_queryIndexes = JArr [], td_filterQuery = print (JObj []), td_semanticQuery = print (JObj []), td_fields = JArr [],
     td_fieldInput = [], td_editing = False, td_mode = BuilderMode, td_json = [], td_calls = [], td_timers = []\<rparr>"

definition mount_page :: "(string \<Rightarrow> jsval option) \<Rightarrow> (jsval \<Rightarrow> string) \<Rightarrow> string \<Rightarrow> table_page" where
  "mount_page parse print t =
     (let st = blank_page print t
      in fetchTableSchema t (fetchIndexes t (st\<lparr>td_json := semanticQueryRequestString parse print st\<rparr>)))"

section \<open>Values that JSON can carry\<close>

fun json_value :: "jsval \<Rightarrow> bool" where
  "json_value JUndef \<longleftrightarrow> False"
| "json_value (JArr vs) \<longleftrightarrow> (\<forall>v \<in> set vs. json_value v)"
| "json_value (JObj kvs) \<longleftrightarrow> distinct (map fst kvs) \<and> (\<forall>kv \<in> set kvs. json_value (snd kv))"
| "json_value _ \<longleftrightarrow> True"

text \<open>What is written is read back, and what is read is a value of JSON.\<close>

definition json_text :: "(string \<Rightarrow> jsval option) \<Rightarrow> (jsval \<Rightarrow> string) \<Rightarrow> bool" where
  "json_text parse print \<longleftrightarrow>
     (\<forall>v. json_value v \<longrightarrow> parse (print v) = Some v) \<and> (\<forall>s v. parse s = Some v \<longrightarrow> json_value v)"

section \<open>The list: errors, drops and late answers\<close>

text \<open>A table is dropped only from the dialog that names it, after it was confirmed there.\<close>

definition dropped_in :: "tables_page \<Rightarrow> string list" where
  "dropped_in st = map (\<lambda>c. case c of LDrop n _ \<Rightarrow> n | LList _ \<Rightarrow> []) (filter (\<lambda>c. case c of LDrop n _ \<Rightarrow> True | LList _ \<Rightarrow> False) (tl_calls st))"

lemma dropped_fetch [simp]: "dropped_in (fetch_with ps st) = dropped_in st" "dropped_in (fetchTables st) = dropped_in st"
  by (simp_all add: dropped_in_def fetch_with_def fetchTables_def)

lemma dropped_without: "n \<in> set (dropped_in (st\<lparr>tl_calls := without i (tl_calls st)\<rparr>)) \<Longrightarrow> n \<in> set (dropped_in st)"
  by (auto simp: dropped_in_def dest: without_in)

lemma dropped_answers [simp]:
  "dropped_in (list_answer r st) = dropped_in st" "dropped_in (drop_answer c n r st) = dropped_in st"
  "dropped_in (drop_timer c st) = dropped_in st"
  by (simp_all add: dropped_in_def list_answer_def drop_answer_def drop_timer_def fetch_with_def split: sum.split)

lemma dropped_fields [simp]:
  "dropped_in (st\<lparr>tl_mode := m\<rparr>) = dropped_in st" "dropped_in (st\<lparr>tl_filter := s\<rparr>) = dropped_in st"
  "dropped_in (st\<lparr>tl_dropOpen := b\<rparr>) = dropped_in st" "dropped_in (st\<lparr>tl_selected := x\<rparr>) = dropped_in st"
  "dropped_in (st\<lparr>tl_timers := ts\<rparr>) = dropped_in st" "dropped_in (handleClearFilter st) = dropped_in st"
  by (simp_all add: dropped_in_def handleClearFilter_def)

theorem drop_confirmed:
  assumes "n \<in> set (dropped_in (list_step ev st))" "n \<notin> set (dropped_in st)"
  shows "ev = LConfirmDrop \<and> tl_dropOpen st \<and> tl_selected st = Some n \<and> \<not> tl_dropping st"
proof (cases ev)
  case LConfirmDrop
  then show ?thesis
    using assms by (auto simp: handleDropTable_def dropped_in_def split: if_splits option.splits)
qed (use assms in \<open>auto simp: list_call_answer_def dest: dropped_without split: if_splits list_call.splits\<close>)

theorem drop_confirmed_witness:
  "tl_selected (list_step (LOpenDrop ''t'') mount_list) = Some ''t''"
proof -
  let ?st = "list_step (LOpenDrop ''t'') mount_list"
  have "''t'' \<in> set (dropped_in (list_step LConfirmDrop ?st))" "''t'' \<notin> set (dropped_in ?st)"
    by (simp_all add: dropped_in_def handleDropTable_def mount_list_def fetch_with_def)
  from drop_confirmed [OF this] show ?thesis by simp
qed

text \<open>An error stays on the page: no event takes it away, a successful answer neither.\<close>

lemma error_kept_step: "tl_error st \<noteq> None \<Longrightarrow> tl_error (list_step ev st) \<noteq> None"
  by (cases ev)
     (simp_all add: fetchTables_def fetch_with_def handleClearFilter_def handleDropTable_def list_call_answer_def
        list_answer_def drop_answer_def drop_timer_def split: option.split list_call.split sum.split)

theorem error_never_cleared:
  assumes "tl_error st \<noteq> None"
  shows "tl_error (fold list_step evs st) \<noteq> None"
  using assms by (induction evs rule: rev_induct) (simp_all del: not_None_eq add: error_kept_step)

theorem error_never_cleared_witness:
  "tl_error (fold list_step [LAnswer 0 (throw_error ''down''), LReload, LAnswer 0 (Inr (JArr []))] mount_list) \<noteq> None"
proof -
  have "tl_error (list_step (LAnswer 0 (throw_error ''down'')) mount_list) \<noteq> None"
    by (simp add: mount_list_def fetch_with_def list_call_answer_def list_answer_def)
  from error_never_cleared [OF this, of "[LReload, LAnswer 0 (Inr (JArr []))]"] show ?thesis by simp
qed

text \<open>
  The list after a drop is asked for with the filter of the moment the drop was confirmed: a filter that
  was changed and applied meanwhile is shown beside the list of the filter before.
\<close>

theorem drop_reloads_old_filter:
  assumes "tl_calls st = []" "tl_timers st = []" "tl_dropOpen st" "\<not> tl_dropping st" "tl_selected st = Some n"
  shows "tl_calls (fold list_step [LConfirmDrop, LAnswer 0 (Inr v), LFilter s, LTimer 0] st) = [LList (list_params st)]
    \<and> tl_filter (fold list_step [LConfirmDrop, LAnswer 0 (Inr v), LFilter s, LTimer 0] st) = s"
  using assms
  by (simp add: handleDropTable_def list_params_def list_call_answer_def drop_answer_def drop_timer_def fetch_with_def without_def)

theorem drop_reloads_old_filter_witness:
  "tl_calls (fold list_step [LConfirmDrop, LAnswer 0 (Inr JNull), LFilter ''a'', LTimer 0]
      (mount_list\<lparr>tl_calls := [], tl_dropOpen := True, tl_selected := Some ''t''\<rparr>)) = [LList []]"
proof -
  let ?st = "mount_list\<lparr>tl_calls := [], tl_dropOpen := True, tl_selected := Some ''t''\<rparr>"
  have "tl_calls ?st = []" "tl_timers ?st = []" "tl_dropOpen ?st" "\<not> tl_dropping ?st" "tl_selected ?st = Some ''t''"
    by (simp_all add: mount_list_def fetch_with_def)
  note t = drop_reloads_old_filter [OF this, of JNull "''a''"]
  have "list_params ?st = []" by (simp add: list_params_def mount_list_def fetch_with_def)
  then show ?thesis using t by simp
qed

text \<open>Two requests under way, as Enter allows: whichever answer comes last is the list that is shown.\<close>

theorem last_list_answer_shown:
  assumes "tl_calls st = []" "s \<noteq> []" "s' \<noteq> []" "tl_mode st = ByPrefix"
    and st': "st' = fold list_step [LFilter s, LEnter, LFilter s', LEnter, LAnswer 1 (Inr (JArr new)), LAnswer 0 (Inr (JArr old))] st"
  shows "tl_filter st' = s' \<and> tl_tables st' = old \<and> \<not> tl_loading st'"
  using assms by (simp add: fetchTables_def fetch_with_def list_params_def list_call_answer_def list_answer_def without_def)

theorem last_list_answer_shown_witness:
  "tl_tables (fold list_step [LFilter ''a'', LEnter, LFilter ''ab'', LEnter, LAnswer 1 (Inr (JArr [])), LAnswer 0 (Inr (JArr [JNull]))]
     (mount_list\<lparr>tl_calls := []\<rparr>)) = [JNull]"
proof -
  let ?st = "mount_list\<lparr>tl_calls := []\<rparr>"
  have "tl_calls ?st = []" "''a'' \<noteq> []" "''ab'' \<noteq> []" "tl_mode ?st = ByPrefix"
    by (simp_all add: mount_list_def fetch_with_def)
  from last_list_answer_shown [OF this refl] show ?thesis by blast
qed

section \<open>The tables of indexes\<close>

lemma groupedIndexes_snoc:
  "groupedIndexes (ixs @ [ix]) = jmap_set (groupedIndexes ixs) (ix_type ix)
     ((case jmap_get (groupedIndexes ixs) (ix_type ix) of None \<Rightarrow> [] | Some g \<Rightarrow> g) @ [ix])"
  by (simp add: groupedIndexes_def)

lemma groupedIndexes_ok: "jmap_ok (groupedIndexes ixs)"
  by (induction ixs rule: rev_induct) (simp_all add: groupedIndexes_snoc jmap_ok_set, simp add: groupedIndexes_def)

lemma grouped_get:
  "jmap_get (groupedIndexes ixs) t =
     (if \<exists>ix \<in> set ixs. ix_type ix = t then Some (filter (\<lambda>ix. ix_type ix = t) ixs) else None)"
proof (induction ixs rule: rev_induct)
  case Nil
  show ?case by (simp add: groupedIndexes_def)
next
  case (snoc ix ixs)
  have "filter (\<lambda>x. ix_type x = ix_type ix) ixs = []" if "\<not> (\<exists>x \<in> set ixs. ix_type x = ix_type ix)"
    using that by (auto simp: filter_empty_conv)
  then show ?case using snoc.IH by (auto simp: groupedIndexes_snoc)
qed

lemma jmap_keys: "jmap_ok m \<Longrightarrow> t \<in> set (map fst m) \<longleftrightarrow> jmap_get m t \<noteq> None"
  by (auto simp: jmap_get_def map_of_eq_None_iff)

lemma grouped_keys: "set (map fst (groupedIndexes ixs)) = ix_type ` set ixs"
proof -
  have "t \<in> set (map fst (groupedIndexes ixs)) \<longleftrightarrow> t \<in> ix_type ` set ixs" for t
    using jmap_keys [OF groupedIndexes_ok, of t ixs] by (auto simp: grouped_get image_iff)
  then show ?thesis by blast
qed

lemma index_tables_groups: "index_tables ixs = map (\<lambda>t. (t, filter (\<lambda>ix. ix_type ix = t) ixs)) (sortedIndexTypes ixs)"
proof -
  have "set (sortedIndexTypes ixs) = ix_type ` set ixs"
    by (simp add: sortedIndexTypes_def grouped_keys [unfolded set_map])
  then show ?thesis
    by (auto simp: index_tables_def grouped_get)
qed

lemma mset_groups:
  "distinct ts \<Longrightarrow> mset (concat (map (\<lambda>t. filter (\<lambda>x. f x = t) xs) ts)) = filter_mset (\<lambda>x. f x \<in> set ts) (mset xs)"
proof (induction ts)
  case (Cons t ts)
  then show ?case by (auto intro!: multiset_eqI)
qed simp

text \<open>The indexes are shown in one table for each type, the types in order, and each index in exactly one
  row, those of one type in the order of the answer.\<close>

theorem index_tables_complete:
  "sorted_wrt (<) (map fst (index_tables ixs)) \<and> mset (concat (map snd (index_tables ixs))) = mset ixs
   \<and> (\<forall>g \<in> set (index_tables ixs). snd g = filter (\<lambda>ix. ix_type ix = fst g) ixs \<and> snd g \<noteq> [])"
proof -
  have types: "set (sortedIndexTypes ixs) = ix_type ` set ixs"
    by (simp add: sortedIndexTypes_def grouped_keys [unfolded set_map])
  have d: "distinct (sortedIndexTypes ixs)"
    using groupedIndexes_ok [of ixs] by (simp add: sortedIndexTypes_def jmap_ok_def)
  have "filter_mset (\<lambda>x. ix_type x \<in> set (sortedIndexTypes ixs)) (mset ixs) = mset ixs"
    by (simp add: types filter_mset_eq_conv)
  then have "mset (concat (map snd (index_tables ixs))) = mset ixs"
    using mset_groups [OF d, of ix_type ixs] by (simp add: index_tables_groups comp_def)
  moreover have "sorted_wrt (<) (map fst (index_tables ixs))"
    using d unfolding strict_sorted_iff by (simp add: index_tables_groups comp_def) (simp add: sortedIndexTypes_def)
  ultimately show ?thesis
    by (auto simp: index_tables_groups types filter_empty_conv)
qed

text \<open>A row has a cell under each heading, but for a full-text index whose name ends in no version: its
  cells stand one column to the left.\<close>

lemma row_header_length:
  "length (row_header t) = (if t = ''embeddings'' then 5 else if t = ''full_text'' then 4 else 2)"
  by (simp add: row_header_def)

lemma index_row_length:
  "length (index_row ix) = (if ix_type ix = ''embeddings'' then 5
     else if ix_type ix = ''full_text'' then (if getIndexVersion (ix_name ix) = None then 3 else 4) else 2)"
  by (simp add: index_row_def getModelInfo_def Let_def split: option.split)

theorem row_under_headings:
  "length (index_row ix) = length (row_header (ix_type ix))
     \<longleftrightarrow> ix_type ix \<noteq> ''full_text'' \<or> getIndexVersion (ix_name ix) \<noteq> None"
  by (simp add: row_header_length index_row_length)

text \<open>The version of a name that was built with one.\<close>

theorem getVersion_of_name:
  assumes "ds \<noteq> []" "list_all is_dec_digit ds"
  shows "getIndexVersion (p @ ''_v'' @ ds) = Some ds"
proof -
  have "\<not> is_dec_digit (CHR ''v'')" by code_simp
  moreover have "\<forall>c \<in> set (rev ds). is_dec_digit c" using assms(2) by (simp add: list_all_iff)
  ultimately have "takeWhile is_dec_digit (rev (p @ ''_v'' @ ds)) = rev ds"
    by (simp add: takeWhile_append)
  then show ?thesis using assms(1) by (simp add: getIndexVersion_def)
qed

theorem getVersion_of_name_witness: "getIndexVersion ''full_text_index_v12'' = Some ''12''"
proof -
  have "''12'' \<noteq> []" "list_all is_dec_digit ''12''" by code_simp+
  from getVersion_of_name [OF this, of "''full_text_index''"] show ?thesis by simp
qed

section \<open>What the page keeps\<close>

lemma fld_defined_fields [simp]: "fld (defined_fields kvs) k = (case map_of (filter (\<lambda>(k, v). v \<noteq> JUndef) kvs) k of None \<Rightarrow> JUndef | Some v \<Rightarrow> v)"
  by (simp add: defined_fields_def)

lemma distinct_defined: "distinct (map fst kvs) \<Longrightarrow> distinct (map fst (filter P kvs))"
  by (rule distinct_map_filter)

lemma json_defined:
  "distinct (map fst kvs) \<Longrightarrow> (\<And>k v. (k, v) \<in> set kvs \<Longrightarrow> v = JUndef \<or> json_value v) \<Longrightarrow> json_value (defined_fields kvs)"
  by (auto simp: defined_fields_def distinct_map_filter)

lemma json_fld: "json_value v \<Longrightarrow> fld v k = JUndef \<or> json_value (fld v k)"
  by (cases "(v, k)" rule: fld.cases) (auto split: option.split dest!: map_of_SomeD)

lemma json_fld': "json_value v \<Longrightarrow> \<not> json_value (fld v k) \<Longrightarrow> fld v k = JUndef"
  using json_fld by blast

lemma json_coalesce: "json_value v \<Longrightarrow> json_value (coalesce (fld v k) (JNum n))"
  using json_fld [of v k] by (auto simp: coalesce_def nullish_def)

lemma json_js_or: "json_value v \<Longrightarrow> json_value d \<Longrightarrow> json_value (js_or (fld v k) d)"
  using json_fld [of v k] by (auto simp: js_or_def)

text \<open>The types: the query is a text, the indexes and the fields are lists of texts.\<close>

definition text_list :: "jsval \<Rightarrow> bool" where
  "text_list v \<longleftrightarrow> (\<exists>ss. v = JArr (map JStr ss))"

definition page_typed :: "table_page \<Rightarrow> bool" where
  "page_typed st \<longleftrightarrow> is_string (td_query st) \<and> text_list (td_queryIndexes st) \<and> text_list (td_fields st)"

definition request_typed :: "jsval \<Rightarrow> bool" where
  "request_typed r \<longleftrightarrow> \<not> nullish r \<and> (fld r ''indexes'' = JUndef \<or> text_list (fld r ''indexes''))
     \<and> (fld r ''semantic_search'' = JUndef \<or> is_string (fld r ''semantic_search''))
     \<and> (fld r ''fields'' = JUndef \<or> text_list (fld r ''fields''))"

lemma text_list_json: "text_list v \<Longrightarrow> json_value v"
  by (auto simp: text_list_def)

lemma string_json: "is_string v \<Longrightarrow> json_value v"
  by (cases v) simp_all

lemma text_list_intros [intro]: "text_list (JArr [])" "text_list (JArr (map JStr ss))" "text_list (JArr [JStr s])"
  by (auto simp: text_list_def intro: exI [of _ "[]"] exI [of _ "[s]"])

lemma string_or: "is_string v \<Longrightarrow> is_string (js_or v (JStr s))"
  by (simp add: js_or_def)

lemma limit_part_json:
  assumes "json_text parse print"
  shows "distinct (map fst (limit_part parse st))" "set (map fst (limit_part parse st)) \<subseteq> {''aggregations'', ''limit'', ''offset''}"
    and "(k, v) \<in> set (limit_part parse st) \<Longrightarrow> v = JUndef \<or> json_value v"
  using assms
  by (auto simp: limit_part_def json_text_def json_coalesce intro: json_fld' split: option.splits if_splits)

lemma parsed_filter_json: "json_text parse print \<Longrightarrow> of_option (parse s) = JUndef \<or> json_value (of_option (parse s))"
  by (cases "parse s") (auto simp: json_text_def)

definition search_part :: "table_page \<Rightarrow> (string \<times> jsval) list" where
  "search_part st = (if hasSemanticQuery st
     then [(''indexes'', td_queryIndexes st), (''semantic_search'', js_or (td_query st) (JStr []))] else [])"

definition fields_part :: "table_page \<Rightarrow> (string \<times> jsval) list" where
  "fields_part st = (if some_elements (td_fields st) then [(''fields'', td_fields st)] else [])"

definition filter_part :: "(string \<Rightarrow> jsval option) \<Rightarrow> table_page \<Rightarrow> (string \<times> jsval) list" where
  "filter_part parse st = (if hasFilterQuery parse st then [(''filter_query'', of_option (parse (td_filterQuery st)))] else [])"

lemma request_parts:
  "request_object parse st = defined_fields (search_part st @ fields_part st @ limit_part parse st @ filter_part parse st)"
  by (simp add: request_object_def search_part_def fields_part_def filter_part_def)

lemma part_keys:
  "set (map fst (search_part st)) \<subseteq> {''indexes'', ''semantic_search''}" "distinct (map fst (search_part st))"
  "set (map fst (fields_part st)) \<subseteq> {''fields''}" "distinct (map fst (fields_part st))"
  "set (map fst (filter_part parse st)) \<subseteq> {''filter_query''}" "distinct (map fst (filter_part parse st))"
  by (auto simp: search_part_def fields_part_def filter_part_def)

lemma limit_part_keys:
  "set (map fst (limit_part parse st)) \<subseteq> {''aggregations'', ''limit'', ''offset''}" "distinct (map fst (limit_part parse st))"
  by (auto simp: limit_part_def split: option.split)

lemma request_keys_distinct:
  "distinct (map fst (search_part st @ fields_part st @ limit_part parse st @ filter_part parse st))"
proof -
  have "A \<inter> B = {}" if "A \<subseteq> P" "B \<subseteq> Q" "P \<inter> Q = {}" for A B P Q :: "string set"
    using that by blast
  note dis = this
  have "set (map fst (search_part st)) \<inter> set (map fst (fields_part st)) = {}"
    by (rule dis [OF part_keys(1) part_keys(3)]) simp
  moreover have "set (map fst (search_part st)) \<inter> set (map fst (limit_part parse st)) = {}"
    by (rule dis [OF part_keys(1) limit_part_keys(1)]) simp
  moreover have "set (map fst (search_part st)) \<inter> set (map fst (filter_part parse st)) = {}"
    by (rule dis [OF part_keys(1) part_keys(5)]) simp
  moreover have "set (map fst (fields_part st)) \<inter> set (map fst (limit_part parse st)) = {}"
    by (rule dis [OF part_keys(3) limit_part_keys(1)]) simp
  moreover have "set (map fst (fields_part st)) \<inter> set (map fst (filter_part parse st)) = {}"
    by (rule dis [OF part_keys(3) part_keys(5)]) simp
  moreover have "set (map fst (limit_part parse st)) \<inter> set (map fst (filter_part parse st)) = {}"
    by (rule dis [OF limit_part_keys(1) part_keys(5)]) simp
  ultimately show ?thesis
    using part_keys(2,4,6) limit_part_keys(2) by (simp only: map_append distinct_append set_append) blast
qed

lemma request_json:
  assumes "json_text parse print" "page_typed st"
  shows "json_value (request_object parse st)"
  unfolding request_parts
proof (rule json_defined [OF request_keys_distinct])
  fix k v assume "(k, v) \<in> set (search_part st @ fields_part st @ limit_part parse st @ filter_part parse st)"
  moreover have "json_value (td_queryIndexes st)" "json_value (td_fields st)" "json_value (js_or (td_query st) (JStr []))"
    using assms(2) by (auto simp: page_typed_def intro: text_list_json string_json string_or)
  ultimately show "v = JUndef \<or> json_value v"
    using limit_part_json(3) [OF assms(1), of k v st] parsed_filter_json [OF assms(1), of "td_filterQuery st"]
    by (auto simp: search_part_def fields_part_def filter_part_def split: if_splits)
qed

text \<open>The members of the request.\<close>

lemma map_of_defined:
  "distinct (map fst kvs) \<Longrightarrow> fld (defined_fields kvs) k = (case map_of kvs k of None \<Rightarrow> JUndef | Some v \<Rightarrow> v)"
proof (induction kvs)
  case (Cons kv kvs)
  have "map_of (filter (\<lambda>(k, v). v \<noteq> JUndef) kvs) (fst kv) = None" if "fst kv \<notin> fst ` set kvs"
    using that by (auto simp: map_of_eq_None_iff)
  then show ?case using Cons by (cases kv) (auto simp: split: option.split)
qed simp

lemma map_of_foreign: "k \<notin> P \<Longrightarrow> set (map fst kvs) \<subseteq> P \<Longrightarrow> map_of kvs k = None"
  by (auto simp: map_of_eq_None_iff)

lemma request_members:
  "fld (request_object parse st) ''indexes'' = (if hasSemanticQuery st then td_queryIndexes st else JUndef)"
  "fld (request_object parse st) ''semantic_search'' = (if hasSemanticQuery st then js_or (td_query st) (JStr []) else JUndef)"
  "fld (request_object parse st) ''fields'' = (if some_elements (td_fields st) then td_fields st else JUndef)"
  "fld (request_object parse st) ''filter_query'' = (if hasFilterQuery parse st then of_option (parse (td_filterQuery st)) else JUndef)"
  "fld (request_object parse st) ''aggregations'' = (case map_of (limit_part parse st) ''aggregations'' of None \<Rightarrow> JUndef | Some v \<Rightarrow> v)"
  "fld (request_object parse st) ''limit'' = (case map_of (limit_part parse st) ''limit'' of None \<Rightarrow> JUndef | Some v \<Rightarrow> v)"
  "fld (request_object parse st) ''offset'' = (case map_of (limit_part parse st) ''offset'' of None \<Rightarrow> JUndef | Some v \<Rightarrow> v)"
  unfolding request_parts map_of_defined [OF request_keys_distinct]
  by (simp_all add: map_of_append search_part_def fields_part_def filter_part_def limit_part_def map_add_def split: option.split)

lemma request_is_typed: "page_typed st \<Longrightarrow> request_typed (request_object parse st)"
  unfolding request_typed_def request_members
  by (auto simp: page_typed_def string_or request_parts defined_fields_def nullish_def)

lemma page_typed_first: "page_typed st \<Longrightarrow> page_typed (take_first_index st)"
  by (auto simp: take_first_index_def page_typed_def)

lemma elems_text_list: "text_list v \<Longrightarrow> \<exists>ss. elems v = map JStr ss"
  by (auto simp: text_list_def)

lemma text_list_add: "text_list v \<Longrightarrow> text_list (JArr (add_once (JStr f) (elems v)))"
proof -
  assume "text_list v"
  then obtain ss where "elems v = map JStr ss" using elems_text_list by blast
  then have "JArr (add_once (JStr f) (elems v)) = JArr (map JStr (if JStr f \<in> set (map JStr ss) then ss else ss @ [f]))"
    by (simp add: add_once_def)
  then show ?thesis using text_list_intros(2) by metis
qed

lemma text_list_remove: "text_list v \<Longrightarrow> text_list (JArr (filter (\<lambda>x. x \<noteq> JStr f) (elems v)))"
proof -
  assume "text_list v"
  then obtain ss where ss: "elems v = map JStr ss" using elems_text_list by blast
  have "filter (\<lambda>x. x \<noteq> JStr f) (map JStr ss) = map JStr (filter (\<lambda>s. s \<noteq> f) ss)"
    by (simp add: filter_map comp_def)
  then show ?thesis using ss text_list_intros(2) by metis
qed

text \<open>The text of the JSON view is always a request that the page wrote.\<close>

definition json_view_ok :: "(string \<Rightarrow> jsval option) \<Rightarrow> table_page \<Rightarrow> bool" where
  "json_view_ok parse st \<longleftrightarrow> (\<exists>r. parse (td_json st) = Some r \<and> request_typed r)"

definition table_page_ok :: "(string \<Rightarrow> jsval option) \<Rightarrow> table_page \<Rightarrow> bool" where
  "table_page_ok parse st \<longleftrightarrow> page_typed st \<and> json_view_ok parse st"

lemma show_json_ok:
  assumes "json_text parse print" "table_page_ok parse st"
  shows "table_page_ok parse (show_json parse print st)"
proof -
  have "parse (print (request_object parse st)) = Some (request_object parse st)"
    using assms request_json by (auto simp: table_page_ok_def json_text_def)
  then show ?thesis
    using assms(2) request_is_typed
    by (auto simp: table_page_ok_def json_view_ok_def page_typed_def show_json_def semanticQueryRequestString_def)
qed

lemma string_or_fld: "v = JUndef \<or> is_string v \<Longrightarrow> is_string (js_or v (JStr []))"
  by (auto simp: js_or_def)

lemma text_list_or_fld: "v = JUndef \<or> text_list v \<Longrightarrow> text_list (js_or v (JArr []))"
  by (auto simp: js_or_def)

lemma show_builder_ok: "table_page_ok parse st \<Longrightarrow> table_page_ok parse (show_builder parse print st)"
  by (auto simp: table_page_ok_def json_view_ok_def page_typed_def request_typed_def show_builder_def
      intro: string_or_fld text_list_or_fld split: option.splits)

lemma same_view_ok:
  "table_page_ok parse st \<Longrightarrow> td_json st' = td_json st \<Longrightarrow> td_query st' = td_query st
     \<Longrightarrow> td_queryIndexes st' = td_queryIndexes st \<Longrightarrow> td_fields st' = td_fields st \<Longrightarrow> table_page_ok parse st'"
  by (simp add: table_page_ok_def page_typed_def json_view_ok_def)

text \<open>The parts of the page that the search does not touch.\<close>

definition search_view :: "table_page \<Rightarrow> string \<times> jsval \<times> jsval \<times> jsval" where
  "search_view st = (td_json st, td_query st, td_queryIndexes st, td_fields st)"

lemma search_view_ok: "table_page_ok parse st \<Longrightarrow> search_view st' = search_view st \<Longrightarrow> table_page_ok parse st'"
  by (rule same_view_ok) (simp_all add: search_view_def)

lemma search_view_ask [simp]:
  "search_view (ask c st) = search_view st" "search_view (fetchIndexes t st) = search_view st"
  "search_view (fetchTableSchema t st) = search_view st" "search_view (run_failed t st) = search_view st"
  "search_view (run_query q st) = search_view st" "search_view (handleDropIndex st) = search_view st"
  "search_view (handleUpdateSchema s st) = search_view st"
  by (simp_all add: search_view_def ask_def fetchIndexes_def fetchTableSchema_def run_failed_def run_query_def handleDropIndex_def
      handleUpdateSchema_def split: sum.split option.split)

lemma search_view_fields [simp]:
  "search_view (st\<lparr>td_calls := c\<rparr>) = search_view st" "search_view (st\<lparr>td_timers := ts\<rparr>) = search_view st"
  "search_view (st\<lparr>td_table := t\<rparr>) = search_view st" "search_view (st\<lparr>td_dropOpen := b\<rparr>) = search_view st"
  "search_view (st\<lparr>td_createOpen := b\<rparr>) = search_view st" "search_view (st\<lparr>td_editing := b\<rparr>) = search_view st"
  "search_view (st\<lparr>td_selected := x\<rparr>) = search_view st"
  "search_view (st\<lparr>td_filterQuery := s\<rparr>) = search_view st" "search_view (st\<lparr>td_semanticQuery := s\<rparr>) = search_view st"
  "search_view (st\<lparr>td_fieldInput := s\<rparr>) = search_view st"
  by (simp_all add: search_view_def)

lemma search_view_answer [simp]: "search_view (table_answer c r st) = search_view st"
proof (cases c)
  case (CIndexes t) then show ?thesis by (simp add: index_list_answer_def search_view_def split: sum.split)
next
  case (CSchema t) then show ?thesis by (simp add: schema_answer_def search_view_def split: sum.split)
next
  case (CDropIndex t n)
  then show ?thesis by (cases r) (simp_all add: index_dropped_def, simp add: search_view_def)
next
  case (CQuery t q) then show ?thesis by (cases r) (simp_all add: query_answer_def, simp add: search_view_def)
next
  case (CUpdateSchema t s)
  then show ?thesis by (cases r) (simp_all add: schema_updated_def, simp add: search_view_def)
qed

lemma builder_ok_if: "(table_page_ok parse st \<Longrightarrow> table_page_ok parse (f st)) \<Longrightarrow> table_page_ok parse st \<Longrightarrow> table_page_ok parse (in_builder f st)"
  by (simp add: in_builder_def)

lemma edits_ok:
  "table_page_ok parse st \<Longrightarrow> table_page_ok parse (st\<lparr>td_query := JStr q\<rparr>)"
  "table_page_ok parse st \<Longrightarrow> table_page_ok parse (st\<lparr>td_queryIndexes := JArr (map JStr ixs)\<rparr>)"
  "table_page_ok parse st \<Longrightarrow> table_page_ok parse (field_key_enter st)"
  "table_page_ok parse st \<Longrightarrow> table_page_ok parse (handleRemoveField f st)"
  "table_page_ok parse st \<Longrightarrow> table_page_ok parse (handleAddAvailableField f st)"
  by (auto simp: table_page_ok_def json_view_ok_def page_typed_def field_key_enter_def handleRemoveField_def handleAddAvailableField_def
      intro: text_list_add text_list_remove)

lemma search_view_small [simp]:
  "search_view (open_table t st) = search_view st" "search_view (open_drop ix st) = search_view st"
  "search_view (ctrl_enter parse print b st) = search_view st" "search_view (handleRunQuery parse print st) = search_view st"
  "search_view (query_applied print q st) = search_view st" "search_view (query_applied_and_run parse print q st) = search_view st"
  by (simp_all add: open_table_def open_drop_def ctrl_enter_def handleRunQuery_def query_applied_def query_applied_and_run_def Let_def)

text \<open>The events that may change the search; every other event leaves it as it is.\<close>

fun search_event :: "table_event \<Rightarrow> bool" where
  "search_event (PMode m) = True"
| "search_event (PJsonText s) = True"
| "search_event (PQuery q) = True"
| "search_event (PIndexes ixs) = True"
| "search_event PFieldEnter = True"
| "search_event (PFieldRemove f) = True"
| "search_event (PFieldAdd f) = True"
| "search_event _ = False"

lemma other_events: "\<not> search_event ev \<Longrightarrow> search_view (page_action parse print ev st) = search_view st"
  by (cases ev) (simp_all add: in_builder_def)

lemma json_never_editable: "table_page_ok parse st \<Longrightarrow> \<not> json_editable parse st"
  by (auto simp: table_page_ok_def json_view_ok_def json_editable_def)

lemma table_page_ok_action:
  assumes "json_text parse print" "table_page_ok parse st"
  shows "table_page_ok parse (page_action parse print ev st)"
proof (cases "search_event ev")
  case True
  then show ?thesis
    using assms json_never_editable [OF assms(2)]
    by (cases ev) (auto simp: handleQueryModeChange_def show_json_ok show_builder_ok edits_ok intro!: builder_ok_if split: query_mode.split)
next
  case False
  from search_view_ok [OF assms(2) other_events [OF False]] show ?thesis .
qed

lemma table_page_ok_step:
  assumes "json_text parse print" "table_page_ok parse st"
  shows "table_page_ok parse (table_page_step parse print ev st)"
proof -
  have "table_page_ok parse (take_first_index st')" if "table_page_ok parse st'" for st'
    using that page_typed_first [of st'] by (auto simp: table_page_ok_def json_view_ok_def take_first_index_def)
  then show ?thesis unfolding table_page_step_def using table_page_ok_action [OF assms] by blast
qed

lemma table_page_ok_mount:
  assumes "json_text parse print"
  shows "table_page_ok parse (mount_page parse print t)"
proof -
  let ?st = "blank_page print t"
  have "page_typed ?st" by (auto simp: page_typed_def blank_page_def)
  then have "parse (semanticQueryRequestString parse print ?st) = Some (request_object parse ?st)"
      "request_typed (request_object parse ?st)"
    using request_json [OF assms] request_is_typed assms by (auto simp: json_text_def semanticQueryRequestString_def)
  then have "table_page_ok parse (?st\<lparr>td_json := semanticQueryRequestString parse print ?st\<rparr>)"
    using \<open>page_typed ?st\<close> by (auto simp: table_page_ok_def json_view_ok_def page_typed_def)
  then show ?thesis
    by (rule search_view_ok) (simp add: mount_page_def Let_def)
qed

text \<open>
  C0. Whatever the user does and the server answers, the query stays a text and the chosen indexes and
  fields stay lists of texts, so the page renders; and the text of the JSON view parses, so it can never
  be edited, and leaving that view is never refused.
\<close>

theorem page_keeps_types:
  assumes "json_text parse print" and st_def: "st = fold (table_page_step parse print) evs (mount_page parse print t)"
  shows "page_typed st \<and> \<not> json_editable parse st \<and> td_mode (handleQueryModeChange parse print BuilderMode st) = BuilderMode"
proof -
  have ok: "table_page_ok parse st"
    unfolding st_def by (induction evs rule: rev_induct) (simp_all add: table_page_ok_mount table_page_ok_step assms(1))
  then have "td_mode (show_builder parse print st) = BuilderMode"
    by (auto simp: table_page_ok_def json_view_ok_def request_typed_def show_builder_def)
  then show ?thesis
    using ok json_never_editable [OF ok] by (simp add: table_page_ok_def handleQueryModeChange_def)
qed

text \<open>A text for every value: values are countable, and the text of the n-th is n strokes.\<close>

instance jsval :: countable by countable_datatype

definition stroke_print :: "jsval \<Rightarrow> string" where
  "stroke_print v = replicate (to_nat v) (CHR ''|'')"

definition stroke_parse :: "string \<Rightarrow> jsval option" where
  "stroke_parse s = (let v = from_nat (length s) in if json_value v then Some v else None)"

lemma strokes_json: "json_text stroke_parse stroke_print"
  by (auto simp: json_text_def stroke_parse_def stroke_print_def Let_def split: if_splits)

theorem page_keeps_types_witness:
  "page_typed (fold (table_page_step stroke_parse stroke_print) [PMode JsonMode, PMode BuilderMode, PQuery ''q''] (mount_page stroke_parse stroke_print ''t''))"
  using page_keeps_types [OF strokes_json refl] by blast

section \<open>The two views of a query\<close>

definition same_members :: "(string \<times> jsval) list \<Rightarrow> (string \<times> jsval) list \<Rightarrow> bool" where
  "same_members xs ys \<longleftrightarrow> filter (\<lambda>(k, v). v \<noteq> JUndef) xs = filter (\<lambda>(k, v). v \<noteq> JUndef) ys"

lemma same_members_defined:
  "same_members a a' \<Longrightarrow> same_members b b' \<Longrightarrow> same_members c c' \<Longrightarrow> same_members d d'
     \<Longrightarrow> defined_fields (a @ b @ c @ d) = defined_fields (a' @ b' @ c' @ d')"
  by (simp add: same_members_def defined_fields_def)

abbreviation members_of :: "jsval \<Rightarrow> string list \<Rightarrow> (string \<times> jsval) list" where
  "members_of r ks \<equiv> map (\<lambda>k. (k, fld r k)) ks"

abbreviation request_keys :: "string list" where
  "request_keys \<equiv> [''indexes'', ''semantic_search''] @ [''fields''] @ [''aggregations'', ''limit'', ''offset''] @ [''filter_query'']"

lemma request_canonical: "request_object parse st = defined_fields (members_of (request_object parse st) request_keys)"
proof -
  have "same_members (limit_part parse st) (members_of (request_object parse st) [''aggregations'', ''limit'', ''offset''])"
    by (simp add: request_members(5-7) limit_part_def same_members_def split: option.split)
  moreover have "same_members (search_part st) (members_of (request_object parse st) [''indexes'', ''semantic_search''])"
    by (simp add: request_members(1,2) search_part_def same_members_def)
  moreover have "same_members (fields_part st) (members_of (request_object parse st) [''fields''])"
    by (simp add: request_members(3) fields_part_def same_members_def)
  moreover have "same_members (filter_part parse st) (members_of (request_object parse st) [''filter_query''])"
    by (simp add: request_members(4) filter_part_def same_members_def)
  ultimately show ?thesis
    unfolding map_append by (subst request_parts) (rule same_members_defined)
qed

lemma request_object_eqI:
  assumes "\<And>k. k \<in> set request_keys \<Longrightarrow> fld (request_object parse st') k = fld (request_object parse st) k"
  shows "request_object parse st' = request_object parse st"
proof -
  have "members_of (request_object parse st') request_keys = members_of (request_object parse st) request_keys"
    by (rule map_cong [OF refl]) (use assms in blast)
  then show ?thesis
    using request_canonical [of parse st'] request_canonical [of parse st] by (simp only:)
qed

lemma filter_truthy: "hasFilterQuery parse st \<Longrightarrow> truthy (of_option (parse (td_filterQuery st)))"
  unfolding hasFilterQuery_def
  by (cases "parse (td_filterQuery st)"; cases "the (parse (td_filterQuery st))") auto

lemma hasFilter_value:
  "parse (td_filterQuery st) = Some v \<Longrightarrow> hasFilterQuery parse st \<longleftrightarrow> (case own_keys v of None \<Rightarrow> False | Some ks \<Rightarrow> ks \<noteq> [])"
  by (simp add: hasFilterQuery_def)

lemma hasFilter_own: "hasFilterQuery parse st \<Longrightarrow> parse (td_filterQuery st) = Some v \<Longrightarrow> (case own_keys v of None \<Rightarrow> False | Some ks \<Rightarrow> ks \<noteq> [])"
  by (simp add: hasFilterQuery_def)

lemma limit_members:
  "fld (request_object parse st) ''limit'' \<noteq> JUndef" "fld (request_object parse st) ''limit'' \<noteq> JNull"
  "hasSemanticQuery st \<Longrightarrow> fld (request_object parse st) ''offset'' = JUndef"
  by (auto simp: request_members limit_part_def coalesce_def nullish_def split: option.split)

lemma some_elements_truthy: "some_elements v \<Longrightarrow> truthy v"
  by (cases v) (auto simp: some_elements_def)

lemma semantic_query_text: "hasSemanticQuery st \<Longrightarrow> page_typed st \<Longrightarrow> td_query st \<noteq> JStr [] \<and> truthy (td_query st)"
  by (cases "td_query st") (auto simp: hasSemanticQuery_def page_typed_def)

lemma semantic_part_json: "json_value r \<Longrightarrow> json_value (semantic_part r)"
  unfolding semantic_part_def by (rule json_defined) (auto dest: json_fld' split: if_splits)

lemma semantic_part_fld:
  "fld (semantic_part r) ''aggregations'' = (if truthy (fld r ''aggregations'') then fld r ''aggregations'' else JUndef)"
  "fld (semantic_part r) ''limit'' = fld r ''limit''" "fld (semantic_part r) ''offset'' = fld r ''offset''"
  unfolding semantic_part_def by (auto simp: map_of_defined)

text \<open>What the builder has after it read the request of \<open>st\<close>.\<close>

lemma builder_reads_request:
  assumes "json_text parse print" "page_typed st" "td_json x = print (request_object parse st)"
    and x': "x' = show_builder parse print x"
  shows "td_query x' = (if hasSemanticQuery st then td_query st else JStr [])"
    and "td_queryIndexes x' = (if hasSemanticQuery st then td_queryIndexes st else JArr [])"
    and "td_fields x' = td_fields st" "td_mode x' = BuilderMode" "td_error x' = None" "td_indexes x' = td_indexes x"
    and "parse (td_filterQuery x') = Some (if hasFilterQuery parse st then of_option (parse (td_filterQuery st)) else JObj [])"
    and "parse (td_semanticQuery x') = Some (semantic_part (request_object parse st))"
proof -
  let ?R = "request_object parse st"
  have js: "json_value ?R" by (rule request_json [OF assms(1,2)])
  have p: "parse (print v) = Some v" if "json_value v" for v
    using assms(1) that by (simp add: json_text_def)
  have "parse (td_json x) = Some ?R" "\<not> nullish ?R"
    using p [OF js] assms(3) request_is_typed [OF assms(2)] by (simp_all add: request_typed_def)
  then have x'': "x' = x\<lparr>td_queryIndexes := js_or (fld ?R ''indexes'') (JArr []), td_fields := js_or (fld ?R ''fields'') (JArr []),
      td_fieldInput := [], td_query := js_or (fld ?R ''semantic_search'') (JStr []),
      td_filterQuery := print (if truthy (fld ?R ''filter_query'') then fld ?R ''filter_query'' else JObj []),
      td_semanticQuery := print (semantic_part ?R), td_error := None, td_mode := BuilderMode\<rparr>"
    by (simp add: x' show_builder_def)
  show "td_mode x' = BuilderMode" "td_error x' = None" "td_indexes x' = td_indexes x"
    by (simp_all add: x'')
  show "td_query x' = (if hasSemanticQuery st then td_query st else JStr [])"
    using semantic_query_text [OF _ assms(2)] by (auto simp: x'' request_members js_or_def)
  show "td_queryIndexes x' = (if hasSemanticQuery st then td_queryIndexes st else JArr [])"
    using some_elements_truthy [of "td_queryIndexes st"] by (auto simp: x'' request_members js_or_def hasSemanticQuery_def)
  show "td_fields x' = td_fields st"
    using assms(2) by (auto simp: x'' request_members js_or_def page_typed_def text_list_def some_elements_def)
  show "parse (td_semanticQuery x') = Some (semantic_part ?R)"
    using p [OF semantic_part_json [OF js]] by (simp add: x'')
  show "parse (td_filterQuery x') = Some (if hasFilterQuery parse st then of_option (parse (td_filterQuery st)) else JObj [])"
    using filter_truthy [of parse st] json_fld [OF js, of "''filter_query''"] p
    by (auto simp: x'' request_members)
qed

lemma builder_request:
  assumes "json_text parse print" "page_typed st" "td_json x = print (request_object parse st)"
    and x': "x' = show_builder parse print x"
    and agg: "fld (request_object parse st) ''aggregations'' = JUndef \<or> truthy (fld (request_object parse st) ''aggregations'')"
  shows "request_object parse x' = request_object parse st" "hasSemanticQuery x' = hasSemanticQuery st"
proof -
  let ?R = "request_object parse st"
  note rd = builder_reads_request [OF assms(1-4)]
  show sem: "hasSemanticQuery x' = hasSemanticQuery st"
    by (simp add: hasSemanticQuery_def [of x'] rd(1,2) some_elements_def) (simp add: hasSemanticQuery_def some_elements_def)
  have fil: "hasFilterQuery parse x' = hasFilterQuery parse st"
  proof (cases "hasFilterQuery parse st")
    case True
    then obtain v where "parse (td_filterQuery st) = Some v"
      unfolding hasFilterQuery_def by (cases "parse (td_filterQuery st)") auto
    then show ?thesis using True rd(7) hasFilter_own [OF True] by (simp add: hasFilterQuery_def [of _ x'])
  qed (use rd(7) in \<open>simp add: hasFilterQuery_def [of _ x']\<close>)
  have lim: "limit_part parse x' = [(''aggregations'', fld ?R ''aggregations''), (''limit'', fld ?R ''limit'')]
      @ (if hasSemanticQuery st then [] else [(''offset'', fld ?R ''offset'')])"
    using agg limit_members(1,2) [of parse st] rd(8)
    by (auto simp: limit_part_def [of _ x'] sem semantic_part_fld coalesce_def nullish_def)
       (auto simp: semantic_part_def defined_fields_def)
  show "request_object parse x' = ?R"
  proof (rule request_object_eqI)
    fix k assume "k \<in> set request_keys"
    moreover have "fld (request_object parse x') ''indexes'' = fld ?R ''indexes''"
        "fld (request_object parse x') ''semantic_search'' = fld ?R ''semantic_search''"
        "fld (request_object parse x') ''fields'' = fld ?R ''fields''"
      by (simp_all add: request_members(1-3) sem rd(1-3))
    moreover have "fld (request_object parse x') ''filter_query'' = fld ?R ''filter_query''"
      by (simp add: request_members(4) fil rd(7))
    moreover have "fld (request_object parse x') ''aggregations'' = fld ?R ''aggregations''"
        "fld (request_object parse x') ''limit'' = fld ?R ''limit''"
        "fld (request_object parse x') ''offset'' = fld ?R ''offset''"
      using limit_members(3) [of st parse] unfolding request_members(5-7) [of parse x'] lim by simp_all
    ultimately show "fld (request_object parse x') k = fld ?R k" by auto
  qed
qed

lemma request_object_cong:
  assumes "hasSemanticQuery st' = hasSemanticQuery st" "td_semanticQuery st' = td_semanticQuery st"
    "td_filterQuery st' = td_filterQuery st" "td_fields st' = td_fields st" "td_query st' = td_query st"
    "hasSemanticQuery st \<Longrightarrow> td_queryIndexes st' = td_queryIndexes st"
  shows "request_object parse st' = request_object parse st"
proof -
  have "limit_part parse st' = limit_part parse st" using assms(1,2) by (simp only: limit_part_def)
  moreover have "hasFilterQuery parse st' = hasFilterQuery parse st" using assms(3) by (simp only: hasFilterQuery_def)
  ultimately show ?thesis using assms by (simp add: request_object_def)
qed

text \<open>The first-index effect does not change the request of a page without a query text.\<close>

lemma take_first_request:
  "hasSemanticQuery st \<or> td_query st = JStr [] \<Longrightarrow> request_object parse (take_first_index st) = request_object parse st"
  "hasSemanticQuery st \<Longrightarrow> take_first_index st = st"
proof -
  have nosem: "request_object parse (st\<lparr>td_queryIndexes := v\<rparr>) = request_object parse st" if "td_query st = JStr []" for v
  proof -
    have "hasSemanticQuery (st\<lparr>td_queryIndexes := v\<rparr>) = False" "hasSemanticQuery st = False"
      using that by (simp_all add: hasSemanticQuery_def)
    then show ?thesis by (intro request_object_cong) simp_all
  qed
  show id: "hasSemanticQuery st \<Longrightarrow> take_first_index st = st"
    by (auto simp: take_first_index_def hasSemanticQuery_def some_elements_def split: option.splits)
  show "hasSemanticQuery st \<or> td_query st = JStr [] \<Longrightarrow> request_object parse (take_first_index st) = request_object parse st"
    using id nosem by (auto simp: take_first_index_def)
qed

lemma view_turn:
  assumes "td_mode st = BuilderMode"
  shows "fold (table_page_step parse print) [PMode JsonMode, PMode BuilderMode] st
    = take_first_index (show_builder parse print (take_first_index (show_json parse print st)))"
  using assms by (simp add: table_page_step_def handleQueryModeChange_def show_json_def take_first_index_def)

lemma take_first_keeps:
  "td_json (take_first_index x) = td_json x" "td_indexes (take_first_index x) = td_indexes x"
  "td_query (take_first_index x) = td_query x" "td_fields (take_first_index x) = td_fields x"
  "td_mode (take_first_index x) = td_mode x" "td_error (take_first_index x) = td_error x"
  by (simp_all add: take_first_index_def)

text \<open>
  C0. Going to the JSON view and back leaves the request that the page would send as it was, with the
  chosen fields and, of a semantic search, the text and the indexes. (An aggregation that is null or
  false is not kept.)
\<close>

theorem json_view_keeps_request:
  assumes "json_text parse print" "page_typed st" "td_mode st = BuilderMode"
    and "fld (request_object parse st) ''aggregations'' = JUndef \<or> truthy (fld (request_object parse st) ''aggregations'')"
    and st': "st' = fold (table_page_step parse print) [PMode JsonMode, PMode BuilderMode] st"
  shows "request_object parse st' = request_object parse st \<and> td_mode st' = BuilderMode \<and> td_fields st' = td_fields st
    \<and> (hasSemanticQuery st \<longrightarrow> td_query st' = td_query st \<and> td_queryIndexes st' = td_queryIndexes st)"
proof -
  let ?x = "take_first_index (show_json parse print st)"
  let ?y = "show_builder parse print ?x"
  have js: "td_json ?x = print (request_object parse st)"
    by (simp add: take_first_keeps show_json_def semanticQueryRequestString_def)
  note rd = builder_reads_request [OF assms(1,2) js refl]
  note rq = builder_request [OF assms(1,2) js refl assms(4)]
  have st'': "st' = take_first_index ?y"
    unfolding st' by (rule view_turn [OF assms(3)])
  have "request_object parse st' = request_object parse st"
    unfolding st'' by (subst take_first_request(1)) (use rq rd(1) in auto)
  moreover have "td_queryIndexes st' = td_queryIndexes st" if "hasSemanticQuery st"
    using that rd(2) rq(2) by (simp add: st'' take_first_request(2))
  ultimately show ?thesis
    using rd(1,3,4) by (simp add: st'' take_first_keeps)
qed

lemma mount_typed: "page_typed (mount_page parse print t)" "td_mode (mount_page parse print t) = BuilderMode"
  by (auto simp: page_typed_def mount_page_def blank_page_def Let_def fetchIndexes_def fetchTableSchema_def ask_def)

lemma mount_parts: "td_semanticQuery (mount_page parse print t) = print (JObj [])"
  by (simp add: mount_page_def blank_page_def Let_def fetchIndexes_def fetchTableSchema_def ask_def)

theorem json_view_keeps_request_witness:
  "td_mode (fold (table_page_step stroke_parse stroke_print) [PMode JsonMode, PMode BuilderMode] (mount_page stroke_parse stroke_print ''t''))
     = BuilderMode"
proof -
  let ?st = "mount_page stroke_parse stroke_print ''t''"
  have "stroke_parse (stroke_print (JObj [])) = Some (JObj [])"
    using strokes_json by (simp add: json_text_def)
  then have "fld (request_object stroke_parse ?st) ''aggregations'' = JUndef"
    by (simp add: request_members limit_part_def mount_parts nullish_def)
  then show ?thesis
    using json_view_keeps_request [OF strokes_json mount_typed disjI1 refl] by blast
qed

text \<open>
  Without a query text the request does not have the chosen vector indexes, so the same way back replaces
  them by the first one.
\<close>

theorem json_view_forgets_indexes:
  assumes "json_text parse print" "page_typed st" "td_mode st = BuilderMode" "td_query st = JStr []"
    and "vector_indexes (td_indexes st) = first # others"
    and st': "st' = fold (table_page_step parse print) [PMode JsonMode, PMode BuilderMode] st"
  shows "td_queryIndexes st' = JArr [JStr first]"
proof -
  let ?x = "take_first_index (show_json parse print st)"
  have js: "td_json ?x = print (request_object parse st)"
    by (simp add: take_first_keeps show_json_def semanticQueryRequestString_def)
  note rd = builder_reads_request [OF assms(1,2) js refl]
  have "\<not> hasSemanticQuery st" using assms(4) by (simp add: hasSemanticQuery_def)
  moreover have "td_indexes ?x = td_indexes st" by (simp add: take_first_keeps show_json_def)
  ultimately show ?thesis
    unfolding st' view_turn [OF assms(3)]
    by (simp add: take_first_index_def [of "show_builder parse print ?x"] rd(2,6) assms(5))
qed

definition two_indexes :: "index_info list" where
  "two_indexes = [\<lparr>ix_name = ''a'', ix_type = ''embeddings'', ix_config = JNull, ix_status = JNull\<rparr>,
     \<lparr>ix_name = ''b'', ix_type = ''embeddings'', ix_config = JNull, ix_status = JNull\<rparr>]"

theorem json_view_forgets_indexes_witness:
  "td_queryIndexes (fold (table_page_step stroke_parse stroke_print) [PMode JsonMode, PMode BuilderMode]
     ((mount_page stroke_parse stroke_print ''t'')\<lparr>td_indexes := two_indexes, td_queryIndexes := JArr (map JStr [''b''])\<rparr>))
   = JArr [JStr ''a'']"
proof -
  let ?st = "(mount_page stroke_parse stroke_print ''t'')\<lparr>td_indexes := two_indexes, td_queryIndexes := JArr (map JStr [''b''])\<rparr>"
  have "td_query (mount_page stroke_parse stroke_print ''t'') = JStr []"
    by (simp add: mount_page_def blank_page_def Let_def fetchIndexes_def fetchTableSchema_def ask_def)
  moreover have "page_typed ?st" "td_mode ?st = BuilderMode"
    using mount_typed [of stroke_parse stroke_print "''t''"] text_list_intros(2) [of "[''b'']"] by (simp_all add: page_typed_def)
  moreover have "vector_indexes (td_indexes ?st) = ''a'' # [''b'']"
    by (simp add: two_indexes_def vector_indexes_def)
  ultimately show ?thesis
    using json_view_forgets_indexes [OF strokes_json _ _ _ _ refl, of ?st "''a''" "[''b'']"] by simp
qed

section \<open>Runs, drops and tables\<close>

text \<open>
  The assistant's "apply and run": the run that the timer starts is the one of the render before, so what
  is sent is the request without the query that was just applied.
\<close>

theorem apply_and_run_sends_old:
  assumes "td_mode st = BuilderMode" "td_table st \<noteq> []" "td_timers st = []"
    and st': "st' = page_action parse print (PTimer 0) (page_action parse print (PApplyAndRun q) st)"
  shows "td_filterQuery st' = print q
    \<and> td_calls st' = td_calls st @ [CQuery (td_table st) (semanticQueryRequest parse print st)]"
  using assms
  by (simp add: in_builder_def query_applied_and_run_def query_applied_def query_to_run_def run_query_def ask_def)

theorem apply_and_run_sends_old_witness:
  "td_filterQuery (page_action stroke_parse stroke_print (PTimer 0)
      (page_action stroke_parse stroke_print (PApplyAndRun (JObj [(''match'', JStr ''x'')])) (mount_page stroke_parse stroke_print ''t'')))
    = stroke_print (JObj [(''match'', JStr ''x'')])"
proof -
  let ?st = "mount_page stroke_parse stroke_print ''t''"
  have "td_table ?st \<noteq> []" "td_timers ?st = []"
    by (simp_all add: mount_page_def blank_page_def Let_def fetchIndexes_def fetchTableSchema_def ask_def)
  from apply_and_run_sends_old [OF mount_typed(2) this refl] show ?thesis by blast
qed

text \<open>Enter with the control key inside the query field asks the server twice.\<close>

theorem ctrl_enter_asks_twice:
  assumes "td_mode st = BuilderMode" "td_table st \<noteq> []" "c = CQuery (td_table st) (semanticQueryRequest parse print st)"
  shows "td_calls (table_page_step parse print (PCtrlEnter True) st) = td_calls st @ [c, c]
    \<and> td_calls (table_page_step parse print (PCtrlEnter False) st) = td_calls st @ [c]"
  using assms
  by (simp add: table_page_step_def take_first_index_def ctrl_enter_def query_to_run_def run_query_def ask_def Let_def)

theorem ctrl_enter_asks_twice_witness:
  "length (td_calls (table_page_step stroke_parse stroke_print (PCtrlEnter True) (mount_page stroke_parse stroke_print ''t'')))
   = length (td_calls (mount_page stroke_parse stroke_print ''t'')) + 2"
proof -
  let ?st = "mount_page stroke_parse stroke_print ''t''"
  have "td_table ?st \<noteq> []" by (simp add: mount_page_def blank_page_def Let_def fetchIndexes_def fetchTableSchema_def ask_def)
  from ctrl_enter_asks_twice [OF mount_typed(2) this refl] show ?thesis by simp
qed

text \<open>
  C0. The full-text index that every table has is never dropped: in every reachable state no call that is
  under way drops an index of that name, and the dialog does not have it selected.
\<close>

definition droppable :: "string \<Rightarrow> bool" where
  "droppable n \<longleftrightarrow> \<not> starts_with n ''full_text_index''"

definition drop_safe :: "table_page \<Rightarrow> bool" where
  "drop_safe st \<longleftrightarrow> (\<forall>ix. td_selected st = Some ix \<longrightarrow> droppable (ix_name ix))
     \<and> (\<forall>t n. CDropIndex t n \<in> set (td_calls st) \<longrightarrow> droppable n)"

lemma drop_safe_ask: "drop_safe st \<Longrightarrow> (\<And>t n. c = CDropIndex t n \<Longrightarrow> droppable n) \<Longrightarrow> drop_safe (ask c st)"
  by (auto simp: drop_safe_def ask_def)

lemma drop_safe_same:
  "drop_safe st \<Longrightarrow> td_selected st' = td_selected st \<Longrightarrow> td_calls st' = td_calls st \<Longrightarrow> drop_safe st'"
  by (simp add: drop_safe_def)

lemma drop_safe_fetch [simp]:
  "drop_safe (fetchIndexes t st) = drop_safe st" "drop_safe (fetchTableSchema t st) = drop_safe st"
  by (auto simp: fetchIndexes_def fetchTableSchema_def drop_safe_def ask_def)

lemma drop_safe_run [simp]: "drop_safe (run_query q st) = drop_safe st" "drop_safe (run_failed t st) = drop_safe st"
  by (auto simp: run_query_def run_failed_def drop_safe_def ask_def split: sum.split)

lemma drop_safe_update [simp]: "drop_safe (handleUpdateSchema s st) = drop_safe st"
  by (auto simp: handleUpdateSchema_def drop_safe_def ask_def)

lemma drop_safe_fields [simp]:
  "drop_safe (st\<lparr>td_table := t\<rparr>) = drop_safe st" "drop_safe (st\<lparr>td_timers := ts\<rparr>) = drop_safe st"
  "drop_safe (st\<lparr>td_dropOpen := b\<rparr>) = drop_safe st" "drop_safe (st\<lparr>td_createOpen := b\<rparr>) = drop_safe st"
  "drop_safe (st\<lparr>td_editing := b\<rparr>) = drop_safe st" "drop_safe (st\<lparr>td_query := v\<rparr>) = drop_safe st"
  "drop_safe (st\<lparr>td_queryIndexes := v\<rparr>) = drop_safe st" "drop_safe (st\<lparr>td_filterQuery := s\<rparr>) = drop_safe st"
  "drop_safe (st\<lparr>td_semanticQuery := s\<rparr>) = drop_safe st" "drop_safe (st\<lparr>td_fieldInput := s\<rparr>) = drop_safe st"
  "drop_safe (st\<lparr>td_json := s\<rparr>) = drop_safe st" "drop_safe (st\<lparr>td_error := e\<rparr>) = drop_safe st"
  "drop_safe (st\<lparr>td_fields := v\<rparr>) = drop_safe st" "drop_safe (st\<lparr>td_mode := m\<rparr>) = drop_safe st"
  "drop_safe (st\<lparr>td_indexes := ixs\<rparr>) = drop_safe st" "drop_safe (st\<lparr>td_result := v\<rparr>) = drop_safe st"
  "drop_safe (st\<lparr>td_schema := v\<rparr>) = drop_safe st" "drop_safe (st\<lparr>td_migration := v\<rparr>) = drop_safe st"
  by (simp_all add: drop_safe_def)

lemma drop_safe_small [simp]:
  "drop_safe (field_key_enter st) = drop_safe st" "drop_safe (handleRemoveField f st) = drop_safe st"
  "drop_safe (handleAddAvailableField f st) = drop_safe st" "drop_safe (query_applied print q st) = drop_safe st"
  "drop_safe (query_applied_and_run parse print q st) = drop_safe st" "drop_safe (show_json parse print st) = drop_safe st"
  "drop_safe (show_builder parse print st) = drop_safe st" "drop_safe (take_first_index st) = drop_safe st"
  "drop_safe (ctrl_enter parse print b st) = drop_safe st" "drop_safe (handleRunQuery parse print st) = drop_safe st"
  "drop_safe (open_table t st) = drop_safe st"
  by (simp_all add: field_key_enter_def handleRemoveField_def handleAddAvailableField_def query_applied_def
      query_applied_and_run_def show_json_def show_builder_def take_first_index_def ctrl_enter_def handleRunQuery_def
      open_table_def Let_def split: option.split)

lemma drop_safe_selected: "drop_safe st \<Longrightarrow> drop_safe (st\<lparr>td_selected := None\<rparr>)"
  by (simp add: drop_safe_def)

lemma drop_safe_answer: "drop_safe st \<Longrightarrow> drop_safe (table_answer c r st)"
  by (cases c) (simp_all add: index_list_answer_def schema_answer_def index_dropped_def query_answer_def schema_updated_def
      drop_safe_selected split: sum.split)

lemma drop_safe_without: "drop_safe st \<Longrightarrow> drop_safe (st\<lparr>td_calls := without i (td_calls st)\<rparr>)"
  by (auto simp: drop_safe_def dest: without_in)

lemma drop_safe_drop: "drop_safe st \<Longrightarrow> drop_safe (handleDropIndex st)"
  by (auto simp: handleDropIndex_def drop_safe_def ask_def split: option.split)

lemma drop_safe_open: "drop_safe st \<Longrightarrow> drop_safe (open_drop ix st)"
  by (auto simp: open_drop_def drop_safe_def droppable_def)

lemma drop_safe_action: "drop_safe st \<Longrightarrow> drop_safe (page_action parse print ev st)"
  by (cases ev) (simp_all add: in_builder_def handleQueryModeChange_def drop_safe_answer drop_safe_without drop_safe_drop drop_safe_open
      split: query_mode.split)

theorem default_index_never_dropped:
  assumes "CDropIndex tab n \<in> set (td_calls (fold (table_page_step parse print) evs (mount_page parse print t)))"
  shows "\<not> starts_with n ''full_text_index''"
proof -
  have "drop_safe (fold (table_page_step parse print) evs (mount_page parse print t))"
  proof (induction evs rule: rev_induct)
    case Nil
    show ?case by (simp add: mount_page_def Let_def) (simp add: drop_safe_def blank_page_def)
  next
    case (snoc ev evs)
    then show ?case by (simp add: table_page_step_def drop_safe_action)
  qed
  then show ?thesis using assms by (auto simp: drop_safe_def droppable_def)
qed

definition vector_answer :: jsval where
  "vector_answer = JArr [JObj [(''config'', JObj [(''name'', JStr ''v''), (''type'', JStr ''embeddings'')])]]"

theorem default_index_never_dropped_witness:
  "\<not> starts_with ''v'' ''full_text_index''"
proof -
  let ?evs = "[PAnswer 0 (Inr vector_answer), POpenDrop (index_info_of (JObj [(''config'', JObj [(''name'', JStr ''v''), (''type'', JStr ''embeddings'')])])), PDrop]"
  have nm: "\<not> starts_with ''v'' ''full_text_index''" by code_simp
  have "CDropIndex ''t'' ''v'' \<in> set (td_calls (fold (table_page_step stroke_parse stroke_print) ?evs (mount_page stroke_parse stroke_print ''t'')))"
    by (simp add: table_page_step_def take_first_index_def mount_page_def blank_page_def Let_def fetchIndexes_def fetchTableSchema_def ask_def
        vector_answer_def index_list_answer_def index_info_of_def open_drop_def nm handleDropIndex_def vector_indexes_def without_def)
  from default_index_never_dropped [OF this] show ?thesis .
qed

text \<open>
  Another table in the same page: the query, its indexes and its fields stay, so the next run asks the new
  table for indexes that it need not have; its own indexes are taken only where none was chosen.
\<close>

theorem table_change_keeps_query:
  assumes "td_mode st = BuilderMode" "some_elements (td_queryIndexes st)" "t \<noteq> []" "t \<noteq> td_table st"
    and st': "st' = table_page_step parse print (PAnswer (length (td_calls st)) (Inr v)) (table_page_step parse print (PTable t) st)"
  shows "td_indexes st' = map index_info_of (elems v) \<and> request_object parse st' = request_object parse st
    \<and> query_to_run parse print st' = (t, Inr (semanticQueryRequest parse print st))"
proof -
  have keep: "take_first_index x = x" if "td_queryIndexes x = td_queryIndexes st" for x
    using that assms(2) by (auto simp: take_first_index_def some_elements_def)
  have st'': "st' = st\<lparr>td_table := t, td_calls := td_calls st @ [CSchema t], td_indexes := map index_info_of (elems v)\<rparr>"
    using assms(3,4)
    by (simp add: st' table_page_step_def keep open_table_def fetchIndexes_def fetchTableSchema_def ask_def index_list_answer_def without_nth
        nth_append)
  have "request_object parse st' = request_object parse st"
    unfolding st'' by (intro request_object_cong) (simp_all add: hasSemanticQuery_def)
  moreover have "td_mode st' = BuilderMode" "td_table st' = t" "td_indexes st' = map index_info_of (elems v)"
    by (simp_all add: st'' assms(1))
  ultimately show ?thesis
    by (simp add: query_to_run_def semanticQueryRequest_def semanticQueryRequestString_def)
qed

theorem table_change_keeps_query_witness:
  "td_indexes (table_page_step stroke_parse stroke_print (PAnswer 2 (Inr (JArr []))) (table_page_step stroke_parse stroke_print (PTable ''u'')
     ((mount_page stroke_parse stroke_print ''t'')\<lparr>td_queryIndexes := JArr [JStr ''v'']\<rparr>))) = []"
proof -
  let ?st = "(mount_page stroke_parse stroke_print ''t'')\<lparr>td_queryIndexes := JArr [JStr ''v'']\<rparr>"
  have "td_mode ?st = BuilderMode" "some_elements (td_queryIndexes ?st)" "''u'' \<noteq> []" "''u'' \<noteq> td_table ?st" "length (td_calls ?st) = 2"
    by (simp_all add: mount_page_def blank_page_def Let_def fetchIndexes_def fetchTableSchema_def ask_def some_elements_def)
  from table_change_keeps_query [OF this(1-4) refl, of stroke_parse stroke_print "JArr []"] this(5)
  show ?thesis by simp
qed

text \<open>The answer for the table before, when it comes last, is shown under the new one.\<close>

theorem late_indexes_shown:
  assumes "td_calls st = [CIndexes a, CIndexes b]" "td_table st = b"
    and st': "st' = fold (table_page_step parse print) [PAnswer 1 (Inr new), PAnswer 0 (Inr old)] st"
  shows "td_table st' = b \<and> td_indexes st' = map index_info_of (elems old) \<and> td_calls st' = []"
  using assms by (simp add: table_page_step_def take_first_index_def index_list_answer_def without_def)

theorem late_indexes_shown_witness:
  "td_table (fold (table_page_step stroke_parse stroke_print) [PAnswer 1 (Inr (JArr [])), PAnswer 0 (Inr vector_answer)]
     ((blank_page stroke_print ''b'')\<lparr>td_calls := [CIndexes ''a'', CIndexes ''b'']\<rparr>)) = ''b''"
proof -
  let ?st = "(blank_page stroke_print ''b'')\<lparr>td_calls := [CIndexes ''a'', CIndexes ''b'']\<rparr>"
  have "td_calls ?st = [CIndexes ''a'', CIndexes ''b'']" "td_table ?st = ''b''" by (simp_all add: blank_page_def)
  from late_indexes_shown [OF this refl] show ?thesis by blast
qed

text \<open>Any failure of the request for the schema, not only a missing table, makes the page offer the form
  for a new schema, and says nothing.\<close>

theorem lost_schema_offers_form:
  assumes "\<not> td_editing st" "st' = table_answer (CSchema t) (Inl e) st"
  shows "schema_section st' = NewForm \<and> td_error st' = td_error st"
  using assms by (simp add: schema_answer_def schema_section_def Let_def)

theorem lost_schema_offers_form_witness:
  "schema_section (table_answer (CSchema ''t'') (throw_error ''lost'')
     ((blank_page stroke_print ''t'')\<lparr>td_schema := JObj [(''document_schemas'', JObj [(''d'', JNull)])]\<rparr>)) = NewForm"
proof -
  let ?st = "(blank_page stroke_print ''t'')\<lparr>td_schema := JObj [(''document_schemas'', JObj [(''d'', JNull)])]\<rparr>"
  have "\<not> td_editing ?st" by (simp add: blank_page_def)
  from lost_schema_offers_form [OF this refl] show ?thesis by blast
qed

text \<open>Choosing an offered field takes it from the offered ones and leaves the others.\<close>

theorem chosen_field_not_offered:
  assumes "page_typed st"
  shows "set (offered_fields collate (handleAddAvailableField f st)) = {b \<in> set (offered_fields collate st). bf_fieldName b \<noteq> f}"
proof -
  have "page_basic_fields collate (handleAddAvailableField f st) = page_basic_fields collate st"
    by (simp add: page_basic_fields_def handleAddAvailableField_def)
  moreover have "set (elems (td_fields (handleAddAvailableField f st))) = insert (JStr f) (set (elems (td_fields st)))"
    by (auto simp: handleAddAvailableField_def add_once_def)
  ultimately show ?thesis by (auto simp: offered_fields_def)
qed

theorem chosen_field_not_offered_witness:
  "set (offered_fields (\<lambda>s. s) (handleAddAvailableField ''f'' (mount_page stroke_parse stroke_print ''t'')))
     \<subseteq> {b. bf_fieldName b \<noteq> ''f''}"
  using chosen_field_not_offered [OF mount_typed(1), of "\<lambda>s. s" "''f''"] by blast

end
