(* ===== verification/IndexForms.thy ===== *)
theory IndexForms
  imports TablePages AdminPages SchemaForm
begin

text \<open>
  The forms that make a table and its indexes (ts/apps/antfarm/src/components/CreateIndexDialog.tsx,
  IndexForm.tsx, ChunkingForm.tsx, Combobox.tsx, CreateTableDialog.tsx and pages/CreateTablePage.tsx).
  The form library keeps the values of the fields and calls the handler only with values that have the
  declared shape, without the keys that the shape does not have; the shape is the source's. A member
  whose value is undefined is kept, since the code asks whether a key is there.
\<close>

section \<open>The combobox\<close>

record combobox =
  cb_open :: bool
  cb_search :: string

text \<open>A handler gives the box and, when it calls \<open>onChange\<close>, the new value.\<close>

definition combo_select :: "string \<Rightarrow> string \<Rightarrow> combobox \<Rightarrow> string option \<times> combobox" where
  "combo_select val picked st = (Some (if picked = val then [] else picked), \<lparr>cb_open = False, cb_search = []\<rparr>)"

definition combo_input :: "bool \<Rightarrow> string \<Rightarrow> combobox \<Rightarrow> string option \<times> combobox" where
  "combo_input custom s st = (if custom then Some s else None, st\<lparr>cb_search := s\<rparr>)"

definition combo_enter :: "bool \<Rightarrow> combobox \<Rightarrow> string option \<times> combobox" where
  "combo_enter custom st =
     (if custom \<and> cb_search st \<noteq> [] then (Some (cb_search st), \<lparr>cb_open = False, cb_search = []\<rparr>) else (None, st))"

definition displayValue :: "bool \<Rightarrow> (string \<times> string) list \<Rightarrow> string \<Rightarrow> string" where
  "displayValue custom opts val =
     (case List.find (\<lambda>(v, l). v = val) opts of Some (v, l) \<Rightarrow> l | None \<Rightarrow> if custom then val else [])"

datatype combo_event = ComboOpen bool | ComboInput string | ComboEnter | ComboPick string

definition combo_step :: "bool \<Rightarrow> combo_event \<Rightarrow> string \<times> combobox \<Rightarrow> string \<times> combobox" where
  "combo_step custom ev = (\<lambda>(val, st).
     let (change, st') = (case ev of
           ComboOpen b \<Rightarrow> (None, st\<lparr>cb_open := b\<rparr>)
         | ComboInput s \<Rightarrow> combo_input custom s st
         | ComboEnter \<Rightarrow> combo_enter custom st
         | ComboPick v \<Rightarrow> combo_select val v st)
     in (case change of None \<Rightarrow> val | Some v \<Rightarrow> v, st'))"

section \<open>The models that are suggested\<close>

definition embedderProviders :: "string list" where
  "embedderProviders =
     [''termite'', ''ollama'', ''gemini'', ''vertex'', ''openai'', ''openrouter'', ''bedrock'', ''cohere'', ''mock'']"

definition staticModelSuggestions :: "(string \<times> string list) list" where
  "staticModelSuggestions =
     [(''antfly'', [''all-MiniLM-L6-v2'']), (''termite'', []),
      (''ollama'', [''all-minilm'', ''nomic-embed-text'', ''embeddinggemma'']),
      (''gemini'', [''embeddinggemma'', ''gemini-embedding-001'']),
      (''vertex'', [''text-embedding-004'', ''text-multilingual-embedding-002'']),
      (''openai'', [''text-embedding-3-small'', ''text-embedding-3-large'']),
      (''openrouter'', [''openai/text-embedding-3-small'', ''openai/text-embedding-3-large'']),
      (''bedrock'', [''amazon.titan-embed-text-v2:0'', ''amazon.titan-embed-image-v1'', ''cohere.embed-multilingual-v3'',
                    ''cohere.embed-english-v3'']),
      (''cohere'', [''embed-english-v3.0'', ''embed-multilingual-v3.0'', ''embed-english-light-v3.0'']),
      (''mock'', [])]"

record model_suggestions =
  sg_termite :: "string list"
  sg_loading :: bool

definition termite_models_answer :: "page_reply \<Rightarrow> model_suggestions \<Rightarrow> model_suggestions" where
  "termite_models_answer r st =
     (case r of
        Reply True _ (Some v) \<Rightarrow>
          (if nullish v then st
           else case own_keys (js_or (fld v ''embedders'') (JObj [])) of
                  None \<Rightarrow> st | Some ks \<Rightarrow> st\<lparr>sg_termite := ks\<rparr>)
      | _ \<Rightarrow> st)\<lparr>sg_loading := False\<rparr>"

definition modelSuggestions :: "model_suggestions \<Rightarrow> (string \<times> string list) list" where
  "modelSuggestions st = obj_put ''termite'' (sg_termite st) staticModelSuggestions"

definition suggested_models :: "model_suggestions \<Rightarrow> string \<Rightarrow> string list" where
  "suggested_models st provider = (case map_of (modelSuggestions st) provider of None \<Rightarrow> [] | Some ms \<Rightarrow> ms)"

definition termite_hint :: "model_suggestions \<Rightarrow> string \<Rightarrow> string" where
  "termite_hint st provider =
     (if provider \<noteq> ''termite'' then []
      else if sg_loading st then ''Loading models from Termite...''
      else if sg_termite st \<noteq> [] then ''Select a model or enter a custom name for Termite to pull.''
      else ''Enter a model name (e.g., sentence-transformers/all-MiniLM-L6-v2) for Termite to pull.'')"

section \<open>The shape of an index\<close>

fun opt_text :: "jsval \<Rightarrow> bool" where
  "opt_text JUndef = True" | "opt_text (JStr _) = True" | "opt_text _ = False"

fun opt_number :: "jsval \<Rightarrow> bool" where
  "opt_number JUndef = True" | "opt_number (JNum _) = True" | "opt_number _ = False"

definition one_of :: "string list \<Rightarrow> jsval \<Rightarrow> bool" where
  "one_of ss v \<longleftrightarrow> v \<in> set (map JStr ss)"

definition some_text :: "jsval \<Rightarrow> bool" where
  "some_text v \<longleftrightarrow> is_string v \<and> v \<noteq> JStr []"

definition shape_providers :: "string list" where
  "shape_providers =
     [''antfly'', ''termite'', ''ollama'', ''gemini'', ''vertex'', ''openai'', ''openrouter'', ''bedrock'', ''cohere'', ''mock'']"

definition embedder_keys :: "string list" where
  "embedder_keys = [''provider'', ''model'', ''api_key'', ''url'', ''aws_access_key_id'', ''aws_secret_access_key'', ''region'']"

fun plain_members :: "jsval \<Rightarrow> bool" where
  "plain_members (JObj _) = True" | "plain_members _ = False"

definition embedder_shape :: "jsval \<Rightarrow> bool" where
  "embedder_shape e \<longleftrightarrow> plain_members e \<and> one_of shape_providers (fld e ''provider'') \<and> some_text (fld e ''model'')
     \<and> list_all (\<lambda>k. opt_text (fld e k)) [''api_key'', ''url'', ''aws_access_key_id'', ''aws_secret_access_key'', ''region'']"

definition chunker_keys :: "string list" where
  "chunker_keys = [''provider'', ''strategy'', ''api_url'', ''target_tokens'', ''overlap_tokens'', ''separator'', ''max_chunks'', ''threshold'']"

definition chunker_shape :: "jsval \<Rightarrow> bool" where
  "chunker_shape c \<longleftrightarrow> plain_members c \<and> one_of [''termite'', ''mock'', ''antfly''] (fld c ''provider'')
     \<and> one_of [''hugot'', ''fixed''] (fld c ''strategy'')
     \<and> list_all (\<lambda>k. opt_text (fld c k)) [''api_url'', ''separator'']
     \<and> list_all (\<lambda>k. opt_number (fld c k)) [''target_tokens'', ''overlap_tokens'', ''max_chunks'', ''threshold'']"

definition index_shape :: "jsval \<Rightarrow> bool" where
  "index_shape d \<longleftrightarrow> plain_members d \<and> some_text (fld d ''name'') \<and> opt_number (fld d ''dimension'')
     \<and> opt_text (fld d ''field'') \<and> opt_text (fld d ''template'') \<and> one_of [''field'', ''template''] (fld d ''sourceType'')
     \<and> embedder_shape (fld d ''embedder'')
     \<and> (fld d ''chunker'' = JUndef \<or> chunker_shape (fld d ''chunker''))"

text \<open>What the handler gets: the keys of the shape that are there.\<close>

definition keep_keys :: "string list \<Rightarrow> jsval \<Rightarrow> jsval" where
  "keep_keys ks v = (case v of JObj kvs \<Rightarrow> JObj (map (\<lambda>k. (k, fld v k)) (filter (\<lambda>k. has_key v k) ks)) | _ \<Rightarrow> v)"

definition index_keys :: "string list" where
  "index_keys = [''name'', ''dimension'', ''field'', ''template'', ''sourceType'']"

definition parsed_index :: "jsval \<Rightarrow> jsval" where
  "parsed_index d =
     (case keep_keys index_keys d of
        JObj kvs \<Rightarrow> JObj (kvs @ [(''embedder'', keep_keys embedder_keys (fld d ''embedder'')),
                              (''chunker'', keep_keys chunker_keys (fld d ''chunker''))])
      | v \<Rightarrow> v)"

section \<open>The dialog\<close>

record index_dialog =
  xd_error :: "string option"
  xd_view :: view_mode
  xd_payload :: jsval
  xd_form :: jsval
  xd_pending :: "(string \<times> jsval) list"
  xd_closed :: nat
  xd_created :: nat

definition form_values :: "string \<Rightarrow> jsval \<Rightarrow> jsval \<Rightarrow> jsval \<Rightarrow> string \<Rightarrow> jsval \<Rightarrow> jsval \<Rightarrow> jsval" where
  "form_values nm dimn field template source embedder chunker =
     JObj [(''name'', JStr nm), (''dimension'', dimn), (''field'', field), (''template'', template), (''sourceType'', JStr source),
           (''embedder'', embedder), (''chunker'', chunker)]"

definition default_embedder :: jsval where
  "default_embedder = JObj [(''provider'', JStr ''ollama''), (''model'', JStr [])]"

definition new_dialog :: index_dialog where
  "new_dialog = \<lparr>xd_error = None, xd_view = FormView,
     xd_payload = JObj [(''name'', JStr []), (''type'', JStr ''embeddings''), (''dimension'', JNum 0), (''embedder'', default_embedder)],
     xd_form = form_values [] (JNum 0) (JStr []) (JStr []) ''field'' default_embedder JUndef,
     xd_pending = [], xd_closed = 0, xd_created = 0\<rparr>"

text \<open>The subscription that writes the JSON view while the form is shown, from the values as they are.\<close>

definition index_config :: "jsval \<Rightarrow> jsval \<Rightarrow> jsval" where
  "index_config d embedder =
     JObj [(''name'', js_or (fld d ''name'') (JStr [])), (''type'', JStr ''embeddings''),
           (''dimension'', js_or (fld d ''dimension'') (JNum 0)),
           (''field'', if fld d ''sourceType'' = JStr ''field'' then fld d ''field'' else JUndef),
           (''template'', if fld d ''sourceType'' = JStr ''template'' then fld d ''template'' else JUndef),
           (''embedder'', embedder), (''chunker'', js_or (fld d ''chunker'') JUndef)]"

definition form_changed :: "jsval \<Rightarrow> index_dialog \<Rightarrow> index_dialog" where
  "form_changed d st =
     (let st1 = st\<lparr>xd_form := d\<rparr>
      in if xd_view st = FormView then st1\<lparr>xd_payload := index_config d (fld d ''embedder'')\<rparr> else st1)"

text \<open>The embedder that is sent: the provider, the model and what this provider is given.\<close>

definition embedder_extras :: "(string \<times> string list) list" where
  "embedder_extras =
     [(''termite'', []), (''ollama'', [''url'']), (''gemini'', [''api_key'']), (''vertex'', []),
      (''openai'', [''api_key'', ''url'']), (''openrouter'', [''api_key'']), (''bedrock'', [''region'']),
      (''cohere'', [''api_key'']), (''mock'', []), (''antfly'', [])]"

definition embedder_config :: "jsval \<Rightarrow> jsval res" where
  "embedder_config e =
     (case map_of embedder_extras (to_str (fld e ''provider'')) of
        None \<Rightarrow> throw_error ''Invalid provider''
      | Some ks \<Rightarrow> Inr (JObj ([(''provider'', fld e ''provider''), (''model'', fld e ''model'')] @ map (\<lambda>k. (k, fld e k)) ks)))"

definition index_to_create :: "jsval \<Rightarrow> index_dialog \<Rightarrow> jsval res" where
  "index_to_create d st =
     (case xd_view st of
        JsonView \<Rightarrow> Inr (xd_payload st)
      | FormView \<Rightarrow> (case embedder_config (fld d ''embedder'') of Inl e \<Rightarrow> Inl e | Inr e \<Rightarrow> Inr (index_config d e)))"

definition create_failed :: "index_dialog \<Rightarrow> index_dialog" where
  "create_failed st = st\<lparr>xd_error := Some ''Failed to create index.''\<rparr>"

definition submit_index :: "string \<Rightarrow> index_dialog \<Rightarrow> index_dialog" where
  "submit_index tableName st =
     (if index_shape (xd_form st)
      then case index_to_create (parsed_index (xd_form st)) st of
             Inl e \<Rightarrow> create_failed st
           | Inr c \<Rightarrow> st\<lparr>xd_pending := xd_pending st @ [(tableName, c)]\<rparr>
      else st)"

definition index_created :: "jsval res \<Rightarrow> index_dialog \<Rightarrow> index_dialog" where
  "index_created r st =
     (case r of
        Inr _ \<Rightarrow> st\<lparr>xd_created := xd_created st + 1, xd_closed := xd_closed st + 1\<rparr>
      | Inl _ \<Rightarrow> create_failed st)"

definition dialog_view_change :: "bool \<Rightarrow> index_dialog \<Rightarrow> index_dialog" where
  "dialog_view_change checked st =
     (if checked then st\<lparr>xd_view := JsonView\<rparr>
      else let p = xd_payload st
           in if \<not> has_key p ''embedder'' \<or> \<not> has_key p ''dimension'' then st
              else st\<lparr>xd_form := JObj
                       [(''name'', fld p ''name''), (''dimension'', fld p ''dimension''), (''field'', fld p ''field''),
                        (''template'', fld p ''template''),
                        (''sourceType'', JStr (if truthy (fld p ''field'') then ''field'' else ''template'')),
                        (''embedder'', fld p ''embedder''), (''chunker'', js_or (fld p ''chunker'') JUndef)],
                     xd_view := FormView\<rparr>)"

text \<open>The fields that are offered: those of the first document schema.\<close>

definition dialog_fields :: "jsval \<Rightarrow> string list" where
  "dialog_fields schema =
     (case fld schema ''document_schemas'' of
        JObj ((n, d) # ds) \<Rightarrow>
          (if truthy d then case own_keys (fld (fld d ''schema'') ''properties'') of None \<Rightarrow> [] | Some ks \<Rightarrow> ks else [])
      | _ \<Rightarrow> [])"

section \<open>The fields for chunking\<close>

text \<open>\<open>parseInt(s, 10) || 0\<close>: the sign and the digits at the front.\<close>

definition parse_int_or_0 :: "string \<Rightarrow> int" where
  "parse_int_or_0 s =
     (let t = dropWhile is_ws s;
          neg = (t \<noteq> [] \<and> hd t = CHR ''-'');
          u = (if t \<noteq> [] \<and> (hd t = CHR ''-'' \<or> hd t = CHR ''+'') then tl t else t);
          n = int (read_decimal (takeWhile is_dec_digit u))
      in if neg then - n else n)"

datatype chunk_field = ChunkModel string | TargetTokens string | OverlapTokens string | ChunkSeparator string | MaxChunks string
  | ChunkThreshold rat | ChunkApiUrl string

fun chunk_entry :: "chunk_field \<Rightarrow> string \<times> jsval" where
  "chunk_entry (ChunkModel m) = (''model'', JStr m)"
| "chunk_entry (TargetTokens s) = (''target_tokens'', JNum (of_int (parse_int_or_0 s)))"
| "chunk_entry (OverlapTokens s) = (''overlap_tokens'', JNum (of_int (parse_int_or_0 s)))"
| "chunk_entry (ChunkSeparator s) = (''separator'', JStr s)"
| "chunk_entry (MaxChunks s) = (''max_chunks'', JNum (of_int (parse_int_or_0 s)))"
| "chunk_entry (ChunkThreshold r) = (''threshold'', JNum r)"
| "chunk_entry (ChunkApiUrl s) = (''api_url'', JStr s)"

definition spread_members :: "jsval \<Rightarrow> (string \<times> jsval) list" where
  "spread_members v = (case v of JObj kvs \<Rightarrow> kvs | _ \<Rightarrow> [])"

definition edit_chunker :: "chunk_field \<Rightarrow> jsval \<Rightarrow> jsval" where
  "edit_chunker f c = JObj (obj_put (fst (chunk_entry f)) (snd (chunk_entry f)) (spread_members c))"

text \<open>The threshold is shown for models that are not fixed.\<close>

definition threshold_shown :: "jsval \<Rightarrow> bool" where
  "threshold_shown c \<longleftrightarrow> truthy (fld c ''model'') \<and> fld c ''model'' \<noteq> JStr ''fixed''"

section \<open>Making a table with its indexes\<close>

text \<open>The calls are made one after the other; \<open>oks\<close> tells for each whether it succeeds.\<close>

datatype create_call = CCreateTable string jsval | CCreateIndex string jsval

definition table_body :: "jsval \<Rightarrow> jsval \<Rightarrow> jsval" where
  "table_body shards schema =
     JObj [(''num_shards'', shards), (''schema'', JObj (obj_assign [(''version'', JNum 0)] (spread_members schema)))]"

fun calls_until_failure :: "create_call list \<Rightarrow> bool list \<Rightarrow> create_call list \<times> bool" where
  "calls_until_failure [] oks = ([], True)"
| "calls_until_failure (c # cs) oks =
     (case oks of
        True # oks' \<Rightarrow> (let (made, done_all) = calls_until_failure cs oks' in (c # made, done_all))
      | _ \<Rightarrow> ([c], False))"

definition create_calls :: "jsval \<Rightarrow> create_call list" where
  "create_calls data =
     CCreateTable (to_str (fld data ''name'')) (table_body (fld data ''num_shards'') (fld data ''schema''))
     # map (CCreateIndex (to_str (fld data ''name''))) (elems (fld data ''indexes''))"

text \<open>The calls that are made, and whether the page goes on to the list of tables.\<close>

definition handleCreateTable :: "jsval \<Rightarrow> bool list \<Rightarrow> create_call list \<times> bool" where
  "handleCreateTable data oks = calls_until_failure (create_calls data) oks"

section \<open>The combobox: what is typed and what is picked\<close>

text \<open>Without text of one's own the value is always one of the options or empty.\<close>

theorem combo_value_offered:
  assumes "val \<in> insert [] (set opts)" "\<forall>v. ComboPick v \<in> set evs \<longrightarrow> v \<in> set opts"
  shows "fst (fold (combo_step False) evs (val, st)) \<in> insert [] (set opts)"
  using assms
proof (induction evs arbitrary: val st)
  case (Cons ev evs)
  obtain val' st' where step: "combo_step False ev (val, st) = (val', st')" by (cases "combo_step False ev (val, st)")
  have "val' \<in> insert [] (set opts)"
    using step Cons.prems
    by (cases ev) (auto simp: combo_step_def combo_input_def combo_enter_def combo_select_def split: if_splits)
  then show ?case using Cons.IH [of val' st'] Cons.prems(2) step by simp
qed simp

theorem combo_value_offered_witness:
  "fst (fold (combo_step False) [ComboInput ''x'', ComboEnter, ComboPick ''a''] ([], \<lparr>cb_open = True, cb_search = []\<rparr>)) \<in> {[], ''a''}"
proof -
  have "([] :: string) \<in> insert [] (set [''a''])" "\<forall>v. ComboPick v \<in> set [ComboInput ''x'', ComboEnter, ComboPick ''a''] \<longrightarrow> v \<in> set [''a'']"
    by simp_all
  from combo_value_offered [OF this] show ?thesis by simp
qed

text \<open>With text of one's own, typing already sets the value, so picking the option that was typed in full
  clears it.\<close>

theorem typed_option_cleared_by_picking:
  "fst (fold (combo_step True) [ComboInput v, ComboPick v] (val, st)) = []"
  by (simp add: combo_step_def combo_input_def combo_select_def)

section \<open>Suggestions\<close>

text \<open>Every provider that is offered has suggestions of its own and a valid shape; one provider with a
  shape is not offered.\<close>

theorem providers_suggested:
  "set embedderProviders \<subseteq> set shape_providers \<and> set shape_providers - set embedderProviders = {''antfly''}
   \<and> (\<forall>p \<in> set embedderProviders. p \<noteq> ''termite'' \<longrightarrow>
        suggested_models st p = the (map_of staticModelSuggestions p))
   \<and> suggested_models st ''termite'' = sg_termite st"
  by (auto simp: embedderProviders_def shape_providers_def suggested_models_def modelSuggestions_def staticModelSuggestions_def)

theorem providers_suggested_witness:
  "suggested_models \<lparr>sg_termite = [''m''], sg_loading = False\<rparr> ''cohere''
     = [''embed-english-v3.0'', ''embed-multilingual-v3.0'', ''embed-english-light-v3.0'']"
  using providers_suggested [of "\<lparr>sg_termite = [''m''], sg_loading = False\<rparr>"]
  by (simp add: embedderProviders_def staticModelSuggestions_def)

text \<open>When the server at another address does not answer, the models of the server before stay suggested.\<close>

theorem suggestions_of_old_server:
  "sg_termite (termite_models_answer (Down m) st) = sg_termite st \<and> \<not> sg_loading (termite_models_answer (Down m) st)
   \<and> sg_termite (termite_models_answer (Reply False code b) st) = sg_termite st"
  by (simp add: termite_models_answer_def)

section \<open>What is refused\<close>

text \<open>The number fields of the form give text, which the shape refuses: a dimension that was typed makes
  every submission do nothing.\<close>

theorem typed_dimension_refused:
  assumes "fld (xd_form st) ''dimension'' = JStr s"
  shows "submit_index t st = st"
  using assms by (simp add: submit_index_def index_shape_def)

theorem typed_dimension_refused_witness:
  "submit_index ''t'' (form_changed (form_values ''i'' (JStr ''384'') (JStr ''f'') JUndef ''field'' default_embedder JUndef) new_dialog)
   = form_changed (form_values ''i'' (JStr ''384'') (JStr ''f'') JUndef ''field'' default_embedder JUndef) new_dialog"
proof -
  let ?st = "form_changed (form_values ''i'' (JStr ''384'') (JStr ''f'') JUndef ''field'' default_embedder JUndef) new_dialog"
  have "fld (xd_form ?st) ''dimension'' = JStr ''384''" by (simp add: form_changed_def form_values_def new_dialog_def)
  from typed_dimension_refused [OF this] show ?thesis .
qed

text \<open>The fields for chunking never write the strategy that the shape asks for: whatever is edited there,
  the form can no longer be submitted.\<close>

lemma edit_chunker_strategy: "fld (edit_chunker f c) ''strategy'' = fld (JObj (spread_members c)) ''strategy''"
  by (cases f) (simp_all add: edit_chunker_def)

lemma edits_strategy: "fld (fold edit_chunker fs (JObj [])) ''strategy'' = JUndef"
proof (induction fs rule: rev_induct)
  case (snoc f fs)
  have "fld (JObj (spread_members c)) ''strategy'' = fld c ''strategy''" for c
    by (cases c) (simp_all add: spread_members_def)
  then show ?case using snoc by (simp add: edit_chunker_strategy)
qed simp

theorem edited_chunking_refused:
  assumes "fs \<noteq> []" "fld (xd_form st) ''chunker'' = fold edit_chunker fs (JObj [])"
  shows "submit_index t st = st"
proof -
  have "\<not> chunker_shape (fold edit_chunker fs (JObj []))"
    by (simp add: chunker_shape_def one_of_def edits_strategy)
  moreover have "fold edit_chunker fs (JObj []) \<noteq> JUndef"
    using assms(1) by (cases fs rule: rev_cases) (simp_all add: edit_chunker_def)
  ultimately show ?thesis using assms(2) by (simp add: submit_index_def index_shape_def)
qed

theorem edited_chunking_refused_witness:
  "submit_index ''t'' (form_changed (form_values ''i'' (JNum 0) (JStr ''f'') JUndef ''field'' default_embedder
       (fold edit_chunker [ChunkModel ''fixed'', ChunkSeparator '','' ] (JObj []))) new_dialog)
   = form_changed (form_values ''i'' (JNum 0) (JStr ''f'') JUndef ''field'' default_embedder
       (fold edit_chunker [ChunkModel ''fixed'', ChunkSeparator '','' ] (JObj []))) new_dialog"
proof -
  let ?fs = "[ChunkModel ''fixed'', ChunkSeparator '','' ]"
  let ?st = "form_changed (form_values ''i'' (JNum 0) (JStr ''f'') JUndef ''field'' default_embedder (fold edit_chunker ?fs (JObj []))) new_dialog"
  have "?fs \<noteq> []" "fld (xd_form ?st) ''chunker'' = fold edit_chunker ?fs (JObj [])"
    by (simp_all only: form_changed_def form_values_def new_dialog_def Let_def) simp_all
  from edited_chunking_refused [OF this] show ?thesis .
qed

section \<open>What is sent\<close>

lemma map_of_map_key: "map_of (map (\<lambda>k. (k, f k)) ks) k = (if k \<in> set ks then Some (f k) else None)"
  by (induction ks) auto

lemma embedder_config_fld:
  assumes "embedder_config e = Inr c" "k \<noteq> ''provider''" "k \<noteq> ''model''"
  shows "fld c k = (if k \<in> set (the (map_of embedder_extras (to_str (fld e ''provider'')))) then fld e k else JUndef)"
  using assms by (auto simp: embedder_config_def map_of_map_key split: option.splits)

lemma extras_no_aws: "map_of embedder_extras p = Some ks \<Longrightarrow> ''aws_access_key_id'' \<notin> set ks \<and> ''aws_secret_access_key'' \<notin> set ks"
  by (auto simp: embedder_extras_def split: if_splits)

lemma embedder_config_fields:
  assumes "embedder_config e = Inr c"
  shows "fld c ''provider'' = fld e ''provider''" "fld c ''model'' = fld e ''model''"
    "fld c ''aws_access_key_id'' = JUndef" "fld c ''aws_secret_access_key'' = JUndef"
proof -
  obtain ks where ks: "map_of embedder_extras (to_str (fld e ''provider'')) = Some ks"
      and c: "c = JObj ([(''provider'', fld e ''provider''), (''model'', fld e ''model'')] @ map (\<lambda>k. (k, fld e k)) ks)"
    using assms by (auto simp: embedder_config_def split: option.splits)
  show "fld c ''provider'' = fld e ''provider''" "fld c ''model'' = fld e ''model''" by (simp_all add: c)
  show "fld c ''aws_access_key_id'' = JUndef" "fld c ''aws_secret_access_key'' = JUndef"
    using extras_no_aws [OF ks] ks by (simp_all add: embedder_config_fld [OF assms])
qed

lemma one_of_text: "one_of ss v \<Longrightarrow> \<exists>s \<in> set ss. v = JStr s"
  by (auto simp: one_of_def)

lemma shape_provider_known: "p \<in> set shape_providers \<Longrightarrow> map_of embedder_extras p \<noteq> None"
  by (auto simp: shape_providers_def embedder_extras_def)

lemma keep_keys_fld: "plain_members v \<Longrightarrow> k \<in> set ks \<Longrightarrow> fld (keep_keys ks v) k = fld v k"
proof -
  assume "plain_members v" "k \<in> set ks"
  then obtain kvs where v: "v = JObj kvs" by (cases v) auto
  have "map_of kvs k = None" if "k \<notin> fst ` set kvs"
    using that by (auto simp: map_of_eq_None_iff)
  then show ?thesis using \<open>k \<in> set ks\<close> by (auto simp: v keep_keys_def map_of_map_key)
qed

lemma fld_append: "k \<in> fst ` set xs \<Longrightarrow> fld (JObj (xs @ ys)) k = fld (JObj xs) k"
  by (auto simp: map_of_append map_add_def map_of_eq_None_iff split: option.split)

lemma fld_append_other: "k \<notin> fst ` set xs \<Longrightarrow> fld (JObj (xs @ ys)) k = fld (JObj ys) k"
proof -
  assume "k \<notin> fst ` set xs"
  then have "map_of xs k = None" by (simp add: map_of_eq_None_iff)
  then show ?thesis by (auto simp: map_of_append map_add_def split: option.split)
qed

lemma parsed_fld:
  assumes "plain_members d"
  shows "k \<in> set index_keys \<Longrightarrow> fld (parsed_index d) k = fld d k"
    and "fld (parsed_index d) ''embedder'' = keep_keys embedder_keys (fld d ''embedder'')"
    and "fld (parsed_index d) ''chunker'' = keep_keys chunker_keys (fld d ''chunker'')"
proof -
  obtain kvs where kvs: "keep_keys index_keys d = JObj kvs" and keys: "fst ` set kvs \<subseteq> set index_keys"
  proof -
    obtain x where d: "d = JObj x" using assms by (cases d) auto
    show ?thesis by (rule that [unfolded d]) (auto simp: keep_keys_def)
  qed
  have p: "parsed_index d = JObj (kvs @ [(''embedder'', keep_keys embedder_keys (fld d ''embedder'')), (''chunker'', keep_keys chunker_keys (fld d ''chunker''))])"
    by (simp add: parsed_index_def kvs)
  have no: "''embedder'' \<notin> fst ` set kvs" "''chunker'' \<notin> fst ` set kvs"
    using keys by (auto simp: index_keys_def)
  show "fld (parsed_index d) ''embedder'' = keep_keys embedder_keys (fld d ''embedder'')"
    "fld (parsed_index d) ''chunker'' = keep_keys chunker_keys (fld d ''chunker'')"
    unfolding p by (simp_all only: fld_append_other [OF no(1)] fld_append_other [OF no(2)]) simp_all
  assume k: "k \<in> set index_keys"
  have "fld (JObj kvs) k = fld d k" using keep_keys_fld [OF assms k] by (simp add: kvs)
  moreover have "fld (JObj [(''embedder'', a), (''chunker'', b)]) k = JUndef" for a b
    using k by (auto simp: index_keys_def)
  ultimately show "fld (parsed_index d) k = fld d k"
  proof (cases "k \<in> fst ` set kvs")
    case True
    then show ?thesis unfolding p fld_append [OF True] using \<open>fld (JObj kvs) k = fld d k\<close> by (simp only:)
  next
    case False
    then have "map_of kvs k = None" by (simp add: map_of_eq_None_iff)
    then have "fld (JObj kvs) k = JUndef" by simp
    then show ?thesis
      unfolding p fld_append_other [OF False] using \<open>fld (JObj kvs) k = fld d k\<close>
        \<open>\<And>a b. fld (JObj [(''embedder'', a), (''chunker'', b)]) k = JUndef\<close> by (simp only:)
  qed
qed

lemma index_config_fld:
  "fld (index_config d e) ''name'' = js_or (fld d ''name'') (JStr [])" "fld (index_config d e) ''embedder'' = e"
  "fld (index_config d e) ''dimension'' = js_or (fld d ''dimension'') (JNum 0)"
  "fld (index_config d e) ''chunker'' = js_or (fld d ''chunker'') JUndef"
  "fld (index_config d e) ''field'' = (if fld d ''sourceType'' = JStr ''field'' then fld d ''field'' else JUndef)"
  "fld (index_config d e) ''template'' = (if fld d ''sourceType'' = JStr ''template'' then fld d ''template'' else JUndef)"
  by (simp_all add: index_config_def)

text \<open>
  From the form an index is created only with a name, a known provider and a model, with the source that
  is chosen and no other, and never with the two keys of AWS, which the form asks for.
\<close>

theorem form_creates_index:
  assumes "xd_view st = FormView" "xd_pending (submit_index t st) \<noteq> xd_pending st"
  shows "\<exists>c. xd_pending (submit_index t st) = xd_pending st @ [(t, c)] \<and> fld c ''name'' = fld (xd_form st) ''name''
    \<and> some_text (fld c ''name'') \<and> (fld c ''field'' = JUndef \<or> fld c ''template'' = JUndef)
    \<and> one_of shape_providers (fld (fld c ''embedder'') ''provider'') \<and> some_text (fld (fld c ''embedder'') ''model'')
    \<and> fld (fld c ''embedder'') ''aws_access_key_id'' = JUndef \<and> fld (fld c ''embedder'') ''aws_secret_access_key'' = JUndef"
proof -
  let ?d = "parsed_index (xd_form st)"
  have sh: "index_shape (xd_form st)" using assms(2) by (auto simp: submit_index_def split: if_splits)
  then have pm: "plain_members (xd_form st)" "embedder_shape (fld (xd_form st) ''embedder'')" "some_text (fld (xd_form st) ''name'')"
    by (simp_all add: index_shape_def)
  have emb: "fld ?d ''embedder'' = keep_keys embedder_keys (fld (xd_form st) ''embedder'')" by (rule parsed_fld(2) [OF pm(1)])
  have pe: "plain_members (fld (xd_form st) ''embedder'')" using pm(2) by (simp add: embedder_shape_def)
  have ks: "''provider'' \<in> set embedder_keys" "''model'' \<in> set embedder_keys" by (simp_all add: embedder_keys_def)
  have prov: "fld (fld ?d ''embedder'') ''provider'' = fld (fld (xd_form st) ''embedder'') ''provider''"
    "fld (fld ?d ''embedder'') ''model'' = fld (fld (xd_form st) ''embedder'') ''model''"
    unfolding emb using keep_keys_fld [OF pe ks(1)] keep_keys_fld [OF pe ks(2)] by simp_all
  obtain c where c: "embedder_config (fld ?d ''embedder'') = Inr c"
    using assms sh by (cases "embedder_config (fld ?d ''embedder'')")
      (auto simp: submit_index_def index_to_create_def create_failed_def)
  have name: "fld ?d ''name'' = fld (xd_form st) ''name''"
    by (rule parsed_fld(1) [OF pm(1)]) (simp add: index_keys_def)
  have "js_or (fld (xd_form st) ''name'') (JStr []) = fld (xd_form st) ''name''"
    using pm(3) by (cases "fld (xd_form st) ''name''") (auto simp: some_text_def js_or_def)
  then show ?thesis
    using sh c pm(2,3) embedder_config_fields [OF c] prov assms(1)
    by (auto simp: submit_index_def index_to_create_def index_config_fld name embedder_shape_def)
qed

definition good_form :: jsval where
  "good_form = form_values ''i'' (JNum 0) (JStr ''f'') (JStr []) ''field''
     (JObj [(''provider'', JStr ''bedrock''), (''model'', JStr ''m''), (''aws_access_key_id'', JStr ''k''), (''aws_secret_access_key'', JStr ''s'')])
     JUndef"

lemma good_form_shape: "index_shape good_form"
  by (simp add: index_shape_def good_form_def form_values_def some_text_def one_of_def embedder_shape_def shape_providers_def)

lemma good_form_config:
  "\<exists>c. embedder_config (fld (parsed_index good_form) ''embedder'') = Inr c"
proof -
  have "plain_members good_form" "fld good_form ''embedder'' \<noteq> JUndef" "plain_members (fld good_form ''embedder'')"
      "to_str (fld (fld good_form ''embedder'') ''provider'') = ''bedrock''"
    by (simp_all add: good_form_def form_values_def)
  moreover have "''provider'' \<in> set embedder_keys" by (simp add: embedder_keys_def)
  ultimately have "to_str (fld (fld (parsed_index good_form) ''embedder'') ''provider'') = ''bedrock''"
    using parsed_fld(2) keep_keys_fld by metis
  then show ?thesis by (simp add: embedder_config_def embedder_extras_def)
qed

theorem form_creates_index_witness:
  "\<exists>c. xd_pending (submit_index ''t'' (form_changed good_form new_dialog)) = [(''t'', c)]
     \<and> fld (fld c ''embedder'') ''aws_access_key_id'' = JUndef"
proof -
  let ?st = "form_changed good_form new_dialog"
  have st: "xd_view ?st = FormView" "xd_form ?st = good_form" "xd_pending ?st = []"
    by (simp_all add: form_changed_def new_dialog_def Let_def)
  obtain c where c: "embedder_config (fld (parsed_index good_form) ''embedder'') = Inr c"
    using good_form_config by blast
  have "xd_pending (submit_index ''t'' ?st) \<noteq> xd_pending ?st"
    by (simp add: submit_index_def index_to_create_def st good_form_shape c)
  from form_creates_index [OF st(1) this] show ?thesis by (auto simp: st(3))
qed

text \<open>From the JSON view the same form sends what was watched: the two keys are in it.\<close>

theorem json_view_sends_watched:
  assumes "xd_view st = FormView" "index_shape d"
  shows "xd_pending (submit_index t (dialog_view_change True (form_changed d st)))
    = xd_pending st @ [(t, index_config d (fld d ''embedder''))]"
  using assms
  by (simp add: dialog_view_change_def form_changed_def submit_index_def index_to_create_def Let_def)

theorem json_view_sends_watched_witness:
  "\<exists>c. xd_pending (submit_index ''t'' (dialog_view_change True (form_changed good_form new_dialog))) = [(''t'', c)]
     \<and> fld (fld c ''embedder'') ''aws_access_key_id'' = JStr ''k''"
proof -
  have "xd_view new_dialog = FormView" by (simp add: new_dialog_def)
  note j = json_view_sends_watched [OF this good_form_shape, of "''t''"]
  have "fld (fld (index_config good_form (fld good_form ''embedder'')) ''embedder'') ''aws_access_key_id'' = JStr ''k''"
    by (simp add: index_config_fld good_form_def form_values_def)
  then show ?thesis using j by (simp add: new_dialog_def)
qed

section \<open>The views of the dialog\<close>

text \<open>
  Showing the JSON view and coming back keeps a source that has a field; a source by field whose field
  is still empty comes back as a template, and the text of the source that is not chosen is lost.
\<close>

definition index_form_ok :: "jsval \<Rightarrow> bool" where
  "index_form_ok d \<longleftrightarrow> is_string (fld d ''name'') \<and> is_number (fld d ''dimension'') \<and> one_of [''field'', ''template''] (fld d ''sourceType'')"

lemma view_change_payload:
  assumes "xd_view st = FormView" and p_def: "p = index_config d (fld d ''embedder'')"
  shows "dialog_view_change False (dialog_view_change True (form_changed d st)) = st\<lparr>xd_payload := p, xd_view := FormView,
     xd_form := JObj [(''name'', fld p ''name''), (''dimension'', fld p ''dimension''), (''field'', fld p ''field''),
        (''template'', fld p ''template''), (''sourceType'', JStr (if truthy (fld p ''field'') then ''field'' else ''template'')),
        (''embedder'', fld p ''embedder''), (''chunker'', js_or (fld p ''chunker'') JUndef)]\<rparr>"
proof -
  have "has_key p ''embedder'' \<and> has_key p ''dimension''" by (simp add: p_def index_config_def)
  then show ?thesis using assms(1) by (simp add: dialog_view_change_def form_changed_def Let_def p_def)
qed

lemma js_or_string [simp]: "is_string v \<Longrightarrow> js_or v (JStr []) = v"
  by (cases v) (simp_all add: js_or_def)

lemma js_or_number [simp]: "is_number v \<Longrightarrow> js_or v (JNum 0) = v"
  by (cases v) (simp_all add: js_or_def)

theorem dialog_view_keeps:
  assumes "xd_view st = FormView" "index_form_ok d"
    and st': "st' = dialog_view_change False (dialog_view_change True (form_changed d st))"
  shows "fld (xd_form st') ''name'' = fld d ''name'' \<and> fld (xd_form st') ''dimension'' = fld d ''dimension''
    \<and> fld (xd_form st') ''embedder'' = fld d ''embedder'' \<and> xd_view st' = FormView
    \<and> (fld d ''sourceType'' = JStr ''field'' \<longrightarrow> fld (xd_form st') ''field'' = fld d ''field''
         \<and> fld (xd_form st') ''template'' = JUndef
         \<and> fld (xd_form st') ''sourceType'' = JStr (if truthy (fld d ''field'') then ''field'' else ''template''))
    \<and> (fld d ''sourceType'' = JStr ''template'' \<longrightarrow> fld (xd_form st') ''sourceType'' = JStr ''template''
         \<and> fld (xd_form st') ''template'' = fld d ''template'' \<and> fld (xd_form st') ''field'' = JUndef)"
  using assms(2) unfolding st' view_change_payload [OF assms(1) refl] index_config_fld index_form_ok_def by simp

theorem dialog_view_keeps_witness:
  "fld (xd_form (dialog_view_change False (dialog_view_change True
      (form_changed (form_values ''i'' (JNum 0) (JStr []) (JStr []) ''field'' default_embedder JUndef) new_dialog)))) ''sourceType'' = JStr ''template''"
proof -
  let ?d = "form_values ''i'' (JNum 0) (JStr []) (JStr []) ''field'' default_embedder JUndef"
  have "xd_view new_dialog = FormView" "index_form_ok ?d" "fld ?d ''sourceType'' = JStr ''field''" "fld ?d ''field'' = JStr []"
    by (simp_all add: new_dialog_def index_form_ok_def form_values_def one_of_def)
  from dialog_view_keeps [OF this(1,2) refl] this(3,4) show ?thesis by simp
qed

text \<open>An error stays in the dialog, also over a later success.\<close>

theorem dialog_error_stays:
  assumes "xd_error st \<noteq> None"
  shows "xd_error (index_created (Inr v) (submit_index t (form_changed d st))) \<noteq> None"
proof -
  have "xd_error (form_changed d st) \<noteq> None" using assms by (simp add: form_changed_def Let_def)
  then have "xd_error (submit_index t (form_changed d st)) \<noteq> None"
    by (simp add: submit_index_def create_failed_def split: sum.split)
  then show ?thesis by (simp add: index_created_def)
qed

theorem dialog_error_stays_witness:
  "xd_error (index_created (Inr JNull) (submit_index ''t'' (form_changed good_form (create_failed new_dialog)))) \<noteq> None"
proof -
  have "xd_error (create_failed new_dialog) \<noteq> None" by (simp add: create_failed_def)
  from dialog_error_stays [OF this] show ?thesis .
qed

section \<open>A table and its indexes\<close>

text \<open>The calls are made in order up to the first that fails; the page goes on exactly when none fails.\<close>

lemma calls_prefix:
  assumes "length oks = length cs"
  shows "fst (calls_until_failure cs oks) = take (Suc (length (takeWhile id oks))) cs
    \<and> (snd (calls_until_failure cs oks) \<longleftrightarrow> list_all id oks)"
  using assms
proof (induction cs arbitrary: oks)
  case (Cons c cs)
  then obtain b oks' where oks: "oks = b # oks'" "length oks' = length cs" by (cases oks) auto
  show ?case using Cons.IH [OF oks(2)] by (cases b; cases "calls_until_failure cs oks'") (simp_all add: oks(1))
qed simp

text \<open>
  A table whose n-th index fails is there with the indexes before it, and the page stays without a word;
  the table and every index are asked for when nothing fails, and only then the page goes on.
\<close>

theorem table_then_indexes:
  assumes "length oks = length (create_calls data)"
  shows "fst (handleCreateTable data oks) = take (Suc (length (takeWhile id oks))) (create_calls data)
    \<and> (snd (handleCreateTable data oks) \<longleftrightarrow> list_all id oks)
    \<and> (list_all id oks \<longrightarrow> fst (handleCreateTable data oks) = create_calls data)"
proof -
  have "takeWhile id oks = oks" if "list_all id oks" using that by (simp add: list_all_iff takeWhile_eq_all_conv)
  then have "list_all id oks \<Longrightarrow> length (takeWhile id oks) = length (create_calls data)" using assms by metis
  then show ?thesis using calls_prefix [OF assms] by (simp add: handleCreateTable_def)
qed

theorem table_then_indexes_witness:
  "fst (handleCreateTable (JObj [(''name'', JStr ''t''), (''indexes'', JArr [JNull, JNull])]) [True, False, True])
     = take 2 (create_calls (JObj [(''name'', JStr ''t''), (''indexes'', JArr [JNull, JNull])]))"
proof -
  have "length [True, False, True] = length (create_calls (JObj [(''name'', JStr ''t''), (''indexes'', JArr [JNull, JNull])]))"
    by (simp add: create_calls_def)
  from table_then_indexes [OF this] show ?thesis by (simp add: numeral_2_eq_2)
qed

end
