(* ===== verification/CompareViews.thy ===== *)
theory CompareViews
  imports Playgrounds TermiteClient SdkOps "HOL-Library.Multiset"
begin

text \<open>
  The pages that compare rankings: embeddings of one's own documents
  (ts/apps/antfarm/src/pages/EmbeddingPlaygroundPage.tsx), the vectors of a table
  (AntflyEmbeddingPlaygroundPage.tsx) and a table's results before and after a reranker
  (AntflyRerankingPlaygroundPage.tsx). The components of the vectors are real numbers: the rounding of
  the floating-point format is not modelled. A result that is not a number is \<open>None\<close>; how the sort of
  the language orders such results is left open by the parameter \<open>order\<close>.
\<close>

section \<open>Similarity\<close>

text \<open>The sums of the loop over the first vector; a missing component of the second gives no number.\<close>

fun cosine_sums :: "real \<times> real \<times> real \<Rightarrow> real list \<Rightarrow> real list \<Rightarrow> (real \<times> real \<times> real) option" where
  "cosine_sums (dot, na, nb) [] ys = Some (dot, na, nb)"
| "cosine_sums (dot, na, nb) (x # xs) [] = None"
| "cosine_sums (dot, na, nb) (x # xs) (y # ys) = cosine_sums (dot + x * y, na + x * x, nb + y * y) xs ys"

definition vector_similarity :: "real list \<Rightarrow> real list \<Rightarrow> real option" where
  "vector_similarity a b =
     (case cosine_sums (0, 0, 0) a b of
        None \<Rightarrow> None
      | Some (dot, na, nb) \<Rightarrow>
          let denom = sqrt na * sqrt nb in Some (if denom = 0 then 0 else dot / denom))"

text \<open>The bars of the first sixty components, and the bar of a score.\<close>

record spark_rect =
  sb_x :: real
  sb_y :: real
  sb_w :: real
  sb_h :: real

definition spark_bar :: "real \<Rightarrow> real \<Rightarrow> real \<Rightarrow> nat \<Rightarrow> real \<Rightarrow> spark_rect" where
  "spark_bar maxv barW mid i v =
     (let nrm = (if maxv = 0 then 0 else v / maxv);
          barH = \<bar>nrm\<bar> * mid
      in \<lparr>sb_x = real i * barW, sb_y = (if nrm \<ge> 0 then mid - barH else mid), sb_w = max (barW - 3 / 10) (3 / 10), sb_h = barH\<rparr>)"

definition embeddingSparkline :: "real \<Rightarrow> real \<Rightarrow> real list \<Rightarrow> spark_rect list option" where
  "embeddingSparkline width height values =
     (let dims = take 60 values
      in if dims = [] then None
         else Some (map (\<lambda>(i, v). spark_bar (fold max (map abs (tl dims)) \<bar>hd dims\<bar>) (width / real (length dims)) (height / 2) i v)
                        (enumerate 0 dims)))"

definition bar_percent :: "real \<Rightarrow> real \<Rightarrow> real" where
  "bar_percent score maxScore = (if maxScore > 0 then max 0 (min 100 (score / maxScore * 100)) else 0)"

definition bar_hue :: "real \<Rightarrow> int" where
  "bar_hue pct = \<lfloor>pct * (12 / 10) + 1 / 2\<rfloor>"

section \<open>One's own documents\<close>

record scored_doc =
  sd_index :: nat
  sd_text :: string
  sd_similarity :: "real option"
  sd_embedding :: "real list"

record embed_page =
  ep_query :: string
  ep_documents :: "string list"
  ep_model :: string
  ep_models :: "string list"
  ep_loaded :: bool
  ep_queryVector :: "real list option"
  ep_dimensions :: "nat option"
  ep_run :: "scored_doc list page_run"
  ep_calls :: "(string \<times> string list) list"

definition choose_embedder :: "string list \<Rightarrow> string" where
  "choose_embedder ms =
     (case List.find (\<lambda>m. str_includes m ''bge-small'') ms of Some m \<Rightarrow> if m = [] then hd ms else m | None \<Rightarrow> hd ms)"

text \<open>The answer of the list of models: the names, or nothing when the request fails.\<close>

definition embedders_answer :: "string list option \<Rightarrow> embed_page \<Rightarrow> embed_page" where
  "embedders_answer r st =
     (case r of
        None \<Rightarrow> st
      | Some ms \<Rightarrow> (if ms = [] then st\<lparr>ep_models := ms\<rparr> else st\<lparr>ep_models := ms, ep_model := choose_embedder ms\<rparr>))\<lparr>ep_loaded := True\<rparr>"

definition written_docs :: "string list \<Rightarrow> string list" where
  "written_docs ds = filter (\<lambda>d. trim d \<noteq> []) ds"

definition embed_problem :: "embed_page \<Rightarrow> string option" where
  "embed_problem st =
     (if trim (ep_query st) = [] then Some ''Please enter a query''
      else if written_docs (ep_documents st) = [] then Some ''Please add at least one document''
      else if ep_model st = [] then Some ''Please select a model''
      else None)"

definition handleEmbed :: "embed_page \<Rightarrow> embed_page" where
  "handleEmbed st =
     (case embed_problem st of
        Some m \<Rightarrow> st\<lparr>ep_run := run_invalid m (ep_run st)\<rparr>
      | None \<Rightarrow> st\<lparr>ep_run := run_start (ep_run st), ep_queryVector := None, ep_dimensions := None,
                  ep_calls := ep_calls st @ [(ep_model st, ep_query st # written_docs (ep_documents st))]\<rparr>)"

text \<open>What the call asks of the SDK of the inference server.\<close>

definition perform_embed :: "api \<Rightarrow> termite_client \<Rightarrow> string \<times> string list \<Rightarrow> jsval res" where
  "perform_embed ap c = (\<lambda>(m, ts). embed ap c m (JArr (map JStr ts)) JUndef)"

fun vector_of :: "jsval \<Rightarrow> real list" where
  "vector_of (JArr vs) = map (\<lambda>v. case v of JNum r \<Rightarrow> of_rat r | _ \<Rightarrow> 0) vs"
| "vector_of _ = []"

definition vector_at :: "real list list \<Rightarrow> nat \<Rightarrow> real list" where
  "vector_at vs i = (if i < length vs then vs ! i else [])"

definition scored_docs :: "real list \<Rightarrow> real list list \<Rightarrow> string list \<Rightarrow> scored_doc list" where
  "scored_docs q vs docs =
     map (\<lambda>(i, t). \<lparr>sd_index = i, sd_text = t, sd_similarity = vector_similarity q (vector_at vs i), sd_embedding = vector_at vs i\<rparr>)
       (enumerate 0 docs)"

definition sort_scored :: "(scored_doc list \<Rightarrow> scored_doc list) \<Rightarrow> scored_doc list \<Rightarrow> scored_doc list" where
  "sort_scored order ds =
     (if list_all (\<lambda>d. sd_similarity d \<noteq> None) ds then sort_key (\<lambda>d. - the (sd_similarity d)) ds else order ds)"

definition run_rejected :: "string \<Rightarrow> js_exn \<Rightarrow> 'r run_end" where
  "run_rejected m e =
     (case e of ErrorObj n msg \<Rightarrow> if n = ''AbortError'' then RunAborted else RunFails msg | NonError _ \<Rightarrow> RunFails m)"

definition embed_answer ::
    "(scored_doc list \<Rightarrow> scored_doc list) \<Rightarrow> string \<Rightarrow> rat \<Rightarrow> string \<times> string list \<Rightarrow> jsval res \<Rightarrow> embed_page \<Rightarrow> embed_page" where
  "embed_answer order apiUrl t call r st =
     (let fails = (\<lambda>e st. st\<lparr>ep_run := run_finish (run_rejected (''Failed to connect to Termite at '' @ apiUrl) e) (ep_run st)\<rparr>)
      in case r of
           Inl e \<Rightarrow> fails e st
         | Inr v \<Rightarrow>
             let vs = (case fld v ''embeddings'' of JArr es \<Rightarrow> map vector_of es | _ \<Rightarrow> [])
             in if length vs < 2 then fails (ErrorObj ''Error'' ''No embeddings returned'') st
                else let docs = tl (snd call);
                         st1 = st\<lparr>ep_queryVector := Some (hd vs), ep_dimensions := Some (length (hd vs))\<rparr>
                     in if length (tl vs) < length docs \<and> hd vs \<noteq> []
                        then fails (ErrorObj ''TypeError'' ''Cannot read properties of undefined'') st1
                        else st1\<lparr>ep_run := run_finish (RunAnswer (sort_scored order (scored_docs (hd vs) (tl vs) docs)) t) (ep_run st1)\<rparr>)"

definition embed_reset :: "embed_page \<Rightarrow> embed_page" where
  "embed_reset st = st\<lparr>ep_query := [], ep_documents := [[]], ep_queryVector := None, ep_dimensions := None,
     ep_run := (ep_run st)\<lparr>ru_result := None, ru_error := None, ru_time := None\<rparr>\<rparr>"

definition add_embed_doc :: "embed_page \<Rightarrow> embed_page" where
  "add_embed_doc st = st\<lparr>ep_documents := ep_documents st @ [[]]\<rparr>"

definition remove_embed_doc :: "nat \<Rightarrow> embed_page \<Rightarrow> embed_page" where
  "remove_embed_doc i st = (if length (ep_documents st) \<le> 1 then st else st\<lparr>ep_documents := without i (ep_documents st)\<rparr>)"

definition update_embed_doc :: "nat \<Rightarrow> string \<Rightarrow> embed_page \<Rightarrow> embed_page" where
  "update_embed_doc i t st = st\<lparr>ep_documents := (ep_documents st)[i := t]\<rparr>"

definition load_embed_sample :: "string \<Rightarrow> string list \<Rightarrow> embed_page \<Rightarrow> embed_page" where
  "load_embed_sample q docs st = st\<lparr>ep_query := q, ep_documents := docs\<rparr>"

definition embed_enabled :: "embed_page \<Rightarrow> bool" where
  "embed_enabled st \<longleftrightarrow> \<not> ru_loading (ep_run st) \<and> embed_problem st = None"

section \<open>The hits of a table\<close>

record table_hit =
  th_id :: jsval
  th_score :: rat
  th_source :: jsval
  th_indexScores :: jsval

definition score_number :: "jsval \<Rightarrow> rat" where
  "score_number v = (case v of JNum r \<Rightarrow> r | _ \<Rightarrow> 0)"

definition hit_of :: "jsval \<Rightarrow> table_hit" where
  "hit_of h = \<lparr>th_id = fld h ''_id'', th_score = score_number (fld h ''_score''), th_source = js_or (fld h ''_source'') (JObj []),
     th_indexScores = js_or (fld h ''_index_scores'') JUndef\<rparr>"

fun hit_list :: "jsval \<Rightarrow> table_hit list res" where
  "hit_list (JArr hs) = (if list_all (\<lambda>h. \<not> nullish h) hs then Inr (map hit_of hs) else throw_type_error)"
| "hit_list v = (if truthy v then throw_type_error else Inr [])"

definition query_hits :: "jsval \<Rightarrow> table_hit list res" where
  "query_hits response = hit_list (fld (fld (elem_at (fld response ''responses'') 0) ''hits'') ''hits'')"

definition preview_fields :: "string list" where
  "preview_fields = [''title'', ''name'', ''text'', ''content'', ''body'', ''description'', ''summary'']"

definition preview_title_field :: "jsval \<Rightarrow> string option" where
  "preview_title_field source = List.find (\<lambda>f. is_string (fld source f)) preview_fields"

definition preview_title :: "jsval \<Rightarrow> string" where
  "preview_title source = (case preview_title_field source of None \<Rightarrow> [] | Some f \<Rightarrow> to_str (fld source f))"

definition members :: "jsval \<Rightarrow> (string \<times> jsval) list" where
  "members v = (case v of JObj kvs \<Rightarrow> kvs | _ \<Rightarrow> [])"

definition preview_others :: "jsval \<Rightarrow> (string \<times> string) list" where
  "preview_others source =
     take 2 (map (\<lambda>(k, v). (k, to_str v)) (filter (\<lambda>(k, v). is_string v \<and> Some k \<noteq> preview_title_field source
       \<and> \<not> starts_with k ''_'' \<and> 0 < length (to_str v) \<and> length (to_str v) < 500) (members source)))"

datatype preview = TitleAndOthers string "(string \<times> string) list" | OthersOnly "(string \<times> string) list" | RawJson string

definition documentPreview :: "(jsval \<Rightarrow> string) \<Rightarrow> jsval \<Rightarrow> preview" where
  "documentPreview print source =
     (if preview_title source \<noteq> [] then TitleAndOthers (preview_title source) (preview_others source)
      else if preview_others source \<noteq> [] then OthersOnly (preview_others source)
      else RawJson (take 200 (print source)))"

section \<open>The vectors of a table\<close>

record explore_page =
  xp_query :: string
  xp_limit :: int
  xp_run :: "table_hit list page_run"
  xp_calls :: "(string \<times> jsval) list"

text \<open>\<open>parseInt(text, 10) || 10\<close>; \<open>parseInt\<close> gives no number or a whole one.\<close>

definition limit_of :: "(string \<Rightarrow> int option) \<Rightarrow> string \<Rightarrow> int" where
  "limit_of parseInt s = (case parseInt s of None \<Rightarrow> 10 | Some n \<Rightarrow> if n = 0 then 10 else n)"

definition explore_problem :: "string \<Rightarrow> string \<Rightarrow> explore_page \<Rightarrow> string option" where
  "explore_problem tab index st =
     (if trim (xp_query st) = [] then Some ''Please enter a query''
      else if tab = [] then Some ''Please select a table''
      else if index = [] then Some ''Please select an embedding index''
      else None)"

definition vector_request :: "string \<Rightarrow> string \<Rightarrow> int \<Rightarrow> jsval" where
  "vector_request q index limit =
     JObj [(''semantic_search'', JStr q), (''indexes'', JArr [JStr index]), (''limit'', JNum (of_int limit))]"

definition explore_search :: "string \<Rightarrow> string \<Rightarrow> explore_page \<Rightarrow> explore_page" where
  "explore_search tab index st =
     (case explore_problem tab index st of
        Some m \<Rightarrow> st\<lparr>xp_run := run_invalid m (xp_run st)\<rparr>
      | None \<Rightarrow> st\<lparr>xp_run := run_start (xp_run st), xp_calls := xp_calls st @ [(tab, vector_request (xp_query st) index (xp_limit st))]\<rparr>)"

definition explore_answer :: "rat \<Rightarrow> jsval res \<Rightarrow> explore_page \<Rightarrow> explore_page" where
  "explore_answer t r st =
     st\<lparr>xp_run := run_finish
        (case (case r of Inl e \<Rightarrow> Inl e | Inr v \<Rightarrow> query_hits v) of
           Inl e \<Rightarrow> run_rejected ''Search failed'' e
         | Inr hs \<Rightarrow> RunAnswer hs t) (xp_run st)\<rparr>"

definition perform_explore :: "api \<Rightarrow> antfly_client \<Rightarrow> string \<times> jsval \<Rightarrow> jsval res" where
  "perform_explore ap c = (\<lambda>(t, q). tables_query ap c t q)"

definition explore_reset :: "explore_page \<Rightarrow> explore_page" where
  "explore_reset st = st\<lparr>xp_query := [], xp_run := (xp_run st)\<lparr>ru_result := None, ru_error := None, ru_time := None\<rparr>\<rparr>"

definition max_score :: "rat list \<Rightarrow> rat" where
  "max_score ss = (case ss of [] \<Rightarrow> 1 | s # ss \<Rightarrow> fold max ss s)"

section \<open>Before and after a reranker\<close>

definition extract_fields :: "string list" where
  "extract_fields = [''text'', ''content'', ''body'', ''description'', ''summary'', ''title'', ''name'']"

definition extract_parts :: "jsval \<Rightarrow> string list" where
  "extract_parts source =
     map (\<lambda>f. to_str (fld source f)) (filter (\<lambda>f. is_string (fld source f) \<and> fld source f \<noteq> JStr []) extract_fields)"

definition extractText :: "(jsval \<Rightarrow> string) \<Rightarrow> jsval \<Rightarrow> string" where
  "extractText print source =
     (if extract_parts source = [] then take 500 (print source) else take 1000 (join '' '' (extract_parts source)))"

record ranked_hit =
  rh_hit :: table_hit
  rh_original :: nat
  rh_score :: rat
  rh_new :: nat
  rh_change :: int

datatype compare_call = QueryTable string jsval | RerankTexts string string "table_hit list"

record compare_page =
  cp_query :: string
  cp_limit :: int
  cp_model :: string
  cp_models :: "string list"
  cp_loaded :: bool
  cp_hits :: "table_hit list option"
  cp_searchTime :: "rat option"
  cp_ranked :: "ranked_hit list option"
  cp_rerankTime :: "rat option"
  cp_searching :: bool
  cp_reranking :: bool
  cp_error :: "string option"
  cp_calls :: "compare_call list"

definition rerankers_answer :: "string list option \<Rightarrow> compare_page \<Rightarrow> compare_page" where
  "rerankers_answer r st =
     (case r of
        None \<Rightarrow> st
      | Some ms \<Rightarrow>
          (if ms = [] then st\<lparr>cp_models := ms\<rparr>
           else st\<lparr>cp_models := ms,
                   cp_model := (if ''antfly-builtin-reranker'' \<in> set ms then ''antfly-builtin-reranker'' else hd ms)\<rparr>))\<lparr>cp_loaded := True\<rparr>"

definition compare_request :: "string \<Rightarrow> compare_page \<Rightarrow> jsval" where
  "compare_request index st =
     (if index \<noteq> [] then vector_request (cp_query st) index (cp_limit st)
      else JObj [(''full_text_search'', JObj [(''query'', JStr (cp_query st))]), (''limit'', JNum (of_int (cp_limit st)))])"

definition compare_search :: "string \<Rightarrow> string \<Rightarrow> compare_page \<Rightarrow> compare_page" where
  "compare_search tab index st =
     (if trim (cp_query st) = [] then st\<lparr>cp_error := Some ''Please enter a query''\<rparr>
      else if tab = [] then st\<lparr>cp_error := Some ''Please select a table''\<rparr>
      else st\<lparr>cp_searching := True, cp_error := None, cp_hits := None, cp_ranked := None, cp_searchTime := None,
              cp_rerankTime := None, cp_calls := cp_calls st @ [QueryTable tab (compare_request index st)]\<rparr>)"

definition exn_is_abort :: "js_exn \<Rightarrow> bool" where
  "exn_is_abort e \<longleftrightarrow> (case e of ErrorObj n m \<Rightarrow> n = ''AbortError'' | NonError _ \<Rightarrow> False)"

definition compare_failed :: "string \<Rightarrow> js_exn \<Rightarrow> compare_page \<Rightarrow> compare_page" where
  "compare_failed m e st = st\<lparr>cp_error := Some (case e of ErrorObj n msg \<Rightarrow> msg | NonError _ \<Rightarrow> m)\<rparr>"

definition searched :: "rat \<Rightarrow> jsval res \<Rightarrow> compare_page \<Rightarrow> compare_page" where
  "searched t r st =
     (case (case r of Inl e \<Rightarrow> Inl e | Inr v \<Rightarrow> query_hits v) of
        Inl e \<Rightarrow> if exn_is_abort e then st else compare_failed ''Search failed'' e st
      | Inr hs \<Rightarrow> st\<lparr>cp_hits := Some hs, cp_searchTime := Some t\<rparr>)\<lparr>cp_searching := False\<rparr>"

definition handleRerank :: "compare_page \<Rightarrow> compare_page" where
  "handleRerank st =
     (case cp_hits st of
        None \<Rightarrow> st
      | Some [] \<Rightarrow> st
      | Some hits \<Rightarrow>
          if cp_model st = [] then st\<lparr>cp_error := Some ''Please select a reranker model''\<rparr>
          else st\<lparr>cp_reranking := True, cp_error := None, cp_ranked := None,
                  cp_calls := cp_calls st @ [RerankTexts (cp_model st) (cp_query st) hits]\<rparr>)"

definition rank_hits :: "table_hit list \<Rightarrow> rat list \<Rightarrow> ranked_hit list" where
  "rank_hits hits scores =
     map (\<lambda>(i, h). h\<lparr>rh_new := i + 1, rh_change := int (rh_original h) - int (i + 1)\<rparr>)
       (enumerate 0 (sort_key (\<lambda>h. - rh_score h)
          (map (\<lambda>(i, h). \<lparr>rh_hit = h, rh_original = i + 1, rh_score = scores ! i, rh_new = 0, rh_change = 0\<rparr>) (enumerate 0 hits))))"

definition reranked :: "rat \<Rightarrow> table_hit list \<Rightarrow> jsval res \<Rightarrow> compare_page \<Rightarrow> compare_page" where
  "reranked t hits r st =
     (case r of
        Inl e \<Rightarrow> compare_failed ''Reranking failed'' e st
      | Inr v \<Rightarrow>
          (case fld v ''scores'' of
             JArr ss \<Rightarrow>
               if length ss \<noteq> length hits
               then compare_failed [] (ErrorObj ''Error'' ''Reranker returned unexpected number of scores'') st
               else st\<lparr>cp_ranked := Some (rank_hits hits (map score_number ss)), cp_rerankTime := Some t\<rparr>
           | _ \<Rightarrow> compare_failed [] (ErrorObj ''Error'' ''Reranker returned unexpected number of scores'') st))\<lparr>cp_reranking := False\<rparr>"

definition compare_reset :: "compare_page \<Rightarrow> compare_page" where
  "compare_reset st = st\<lparr>cp_query := [], cp_hits := None, cp_ranked := None, cp_error := None, cp_searchTime := None, cp_rerankTime := None\<rparr>"

definition rankDelta :: "int \<Rightarrow> string" where
  "rankDelta c = (if c = 0 then ''='' else if c > 0 then ''+'' @ show_nat (nat c) else ''-'' @ show_nat (nat (- c)))"

fun compare_answer :: "rat \<Rightarrow> compare_call \<Rightarrow> jsval res \<Rightarrow> compare_page \<Rightarrow> compare_page" where
  "compare_answer t (QueryTable tab q) r st = searched t r st"
| "compare_answer t (RerankTexts m q hits) r st = reranked t hits r st"

fun perform_compare :: "(jsval \<Rightarrow> string) \<Rightarrow> api \<Rightarrow> antfly_client \<Rightarrow> termite_client \<Rightarrow> compare_call \<Rightarrow> jsval res" where
  "perform_compare print ap c tc (QueryTable tab q) = tables_query ap c tab q"
| "perform_compare print ap c tc (RerankTexts m q hits) = rerank ap tc m q (map (\<lambda>h. extractText print (th_source h)) hits)"

section \<open>The range of a similarity\<close>

lemma two_products: "d * d \<le> na * nb \<Longrightarrow> 0 \<le> na \<Longrightarrow> 0 \<le> nb \<Longrightarrow> 2 * d * x * y \<le> na * (y * y) + nb * (x * x)" for d na nb x y :: real
proof -
  assume a: "d * d \<le> na * nb" "0 \<le> na" "0 \<le> nb"
  let ?p = "na * (y * y)" and ?q = "nb * (x * x)"
  have "(d * x * y)\<^sup>2 = (d * d) * ((x * x) * (y * y))" by (simp add: power2_eq_square algebra_simps)
  also have "\<dots> \<le> (na * nb) * ((x * x) * (y * y))" using a(1) by (intro mult_right_mono) auto
  also have "\<dots> = ?p * ?q" by (simp add: algebra_simps)
  finally have "(2 * d * x * y)\<^sup>2 \<le> 4 * (?p * ?q)" by (simp add: power2_eq_square algebra_simps)
  also have "\<dots> \<le> (?p + ?q)\<^sup>2"
  proof -
    have "0 \<le> (?p - ?q)\<^sup>2" by simp
    then show ?thesis by (simp add: power2_eq_square algebra_simps)
  qed
  finally have "\<bar>2 * d * x * y\<bar> \<le> \<bar>?p + ?q\<bar>" by (simp only: abs_le_square_iff)
  moreover have "0 \<le> ?p + ?q" using a by simp
  ultimately show ?thesis by linarith
qed

lemma cosine_sums_bound:
  "cosine_sums (d, na, nb) xs ys = Some (d', na', nb') \<Longrightarrow> d * d \<le> na * nb \<Longrightarrow> 0 \<le> na \<Longrightarrow> 0 \<le> nb
     \<Longrightarrow> d' * d' \<le> na' * nb' \<and> 0 \<le> na' \<and> 0 \<le> nb'"
proof (induction "(d, na, nb)" xs ys arbitrary: d na nb rule: cosine_sums.induct)
  case (3 d na nb x xs y ys)
  have "(d + x * y) * (d + x * y) = d * d + 2 * d * x * y + (x * x) * (y * y)"
    by (simp add: algebra_simps)
  also have "\<dots> \<le> na * nb + (na * (y * y) + nb * (x * x)) + (x * x) * (y * y)"
    using 3(3) two_products [OF 3(3-5), of x y] by simp
  also have "\<dots> = (na + x * x) * (nb + y * y)" by (simp add: algebra_simps)
  finally have "(d + x * y) * (d + x * y) \<le> (na + x * x) * (nb + y * y)" .
  then show ?case using 3 by simp
qed auto

text \<open>A similarity that is a number is between -1 and 1, as the help text says.\<close>

theorem similarity_range:
  assumes "vector_similarity a b = Some c"
  shows "- 1 \<le> c \<and> c \<le> 1"
proof -
  obtain d na nb where s: "cosine_sums (0, 0, 0) a b = Some (d, na, nb)"
      and c: "c = (if sqrt na * sqrt nb = 0 then 0 else d / (sqrt na * sqrt nb))"
    using assms by (auto simp: vector_similarity_def Let_def split: option.splits)
  have b: "d * d \<le> na * nb" "0 \<le> na" "0 \<le> nb" using cosine_sums_bound [OF s] by simp_all
  have "\<bar>d\<bar> \<le> sqrt na * sqrt nb"
    using b by (simp add: real_sqrt_mult [symmetric] power2_eq_square real_le_rsqrt)
  show ?thesis
  proof (cases "sqrt na * sqrt nb = 0")
    case False
    have "0 \<le> sqrt na * sqrt nb" using b by simp
    then have "0 < sqrt na * sqrt nb" using False by linarith
    then have "\<bar>c\<bar> \<le> 1"
      using \<open>\<bar>d\<bar> \<le> sqrt na * sqrt nb\<close> False by (simp only: c if_False abs_divide divide_le_eq_1) simp
    then show ?thesis by linarith
  qed (simp add: c)
qed

theorem similarity_range_witness: "\<exists>c. vector_similarity [3, 4] [4, 3] = Some c \<and> - 1 \<le> c \<and> c \<le> 1"
proof -
  have "vector_similarity [3, 4] [4, 3] = Some (24 / 25)" by (simp add: vector_similarity_def Let_def real_sqrt_mult [symmetric])
  from this similarity_range [OF this] show ?thesis by blast
qed

lemma cosine_sums_defined: "cosine_sums (d, na, nb) xs ys \<noteq> None \<longleftrightarrow> length xs \<le> length ys"
  by (induction "(d, na, nb)" xs ys arbitrary: d na nb rule: cosine_sums.induct) auto

lemma similarity_defined: "vector_similarity a b \<noteq> None \<longleftrightarrow> length a \<le> length b"
  using cosine_sums_defined [of 0 0 0 a b] by (auto simp: vector_similarity_def Let_def split: option.splits)

lemma cosine_sums_same:
  "cosine_sums (n, n, n) xs xs = Some (s, t, u) \<Longrightarrow> s = t \<and> t = u \<and> n \<le> s \<and> (s = n \<longrightarrow> list_all (\<lambda>x. x = 0) xs)"
proof (induction xs arbitrary: n)
  case (Cons x xs)
  have "cosine_sums (n + x * x, n + x * x, n + x * x) xs xs = Some (s, t, u)" using Cons.prems by simp
  note IH = Cons.IH [OF this]
  have sq: "0 \<le> x * x" "x * x = 0 \<longleftrightarrow> x = 0" by simp_all
  have "n \<le> s" using IH sq by linarith
  moreover have "list_all (\<lambda>x. x = 0) (x # xs)" if "s = n"
  proof -
    have "x * x = 0" "s = n + x * x" using IH sq that by linarith+
    then show ?thesis using IH by simp
  qed
  ultimately show ?case using IH by blast
qed simp

text \<open>A text that is not mapped to zero has similarity 1 to itself.\<close>

theorem similarity_of_same:
  assumes "\<exists>x \<in> set a. x \<noteq> 0"
  shows "vector_similarity a a = Some 1"
proof -
  have "cosine_sums (0, 0, 0) a a \<noteq> None" by (simp only: cosine_sums_defined)
  then obtain s t u where s: "cosine_sums (0, 0, 0) a a = Some (s, t, u)" by auto
  note same = cosine_sums_same [OF s]
  have "s \<noteq> 0" using same assms by (auto simp: list_all_iff)
  then show ?thesis using same by (simp add: vector_similarity_def s Let_def)
qed

theorem similarity_of_same_witness: "vector_similarity [1, 0] [1, 0] = Some 1"
proof -
  have "\<exists>x \<in> set [1, 0]. x \<noteq> (0 :: real)" by simp
  from similarity_of_same [OF this] show ?thesis .
qed

section \<open>Bars\<close>

lemma enumerate_snd: "p \<in> set (enumerate n xs) \<Longrightarrow> snd p \<in> set xs"
  by (induction xs arbitrary: n) auto

lemma fold_max_start: "v \<le> fold max vs v" for v :: "'a :: linorder"
  by (induction vs arbitrary: v) (auto intro: order_trans [OF max.cobounded2])

lemma fold_max_ge: "x \<in> set (v # vs) \<Longrightarrow> x \<le> fold max vs v" for x :: "'a :: linorder"
proof (induction vs arbitrary: v)
  case (Cons w ws)
  have "w \<le> fold max ws (max w v)" "v \<le> fold max ws (max w v)"
    using fold_max_start [of "max w v" ws] by auto
  then show ?case using Cons.prems Cons.IH [of "max w v"] by auto
qed simp

text \<open>Every bar of a vector's picture lies inside it, and each ends at the middle.\<close>

theorem sparkline_inside:
  assumes "embeddingSparkline width height values = Some bars" "0 \<le> height" "b \<in> set bars"
  shows "0 \<le> sb_h b \<and> 0 \<le> sb_y b \<and> sb_y b + sb_h b \<le> height \<and> (sb_y b = height / 2 \<or> sb_y b + sb_h b = height / 2)
    \<and> length bars = min 60 (length values)"
proof -
  let ?dims = "take 60 values"
  define maxv where "maxv = fold max (map abs (tl ?dims)) \<bar>hd ?dims\<bar>"
  have ne: "?dims \<noteq> []" and bars: "bars = map (\<lambda>(i, v). spark_bar maxv (width / real (length ?dims)) (height / 2) i v) (enumerate 0 ?dims)"
    using assms(1) by (auto simp: embeddingSparkline_def Let_def maxv_def split: if_splits)
  obtain i v where v: "v \<in> set ?dims" "b = spark_bar maxv (width / real (length ?dims)) (height / 2) i v"
  proof -
    obtain p where "p \<in> set (enumerate 0 ?dims)" "b = (\<lambda>(i, v). spark_bar maxv (width / real (length ?dims)) (height / 2) i v) p"
      using assms(3) unfolding bars by auto
    moreover from this(1) have "snd p \<in> set ?dims" by (rule enumerate_snd)
    ultimately show ?thesis by (intro that [of "snd p" "fst p"]) (simp_all add: case_prod_beta)
  qed
  have "map abs ?dims = \<bar>hd ?dims\<bar> # map abs (tl ?dims)" using ne by (cases ?dims) auto
  moreover have "\<bar>v\<bar> \<in> set (map abs ?dims)" using v(1) by simp
  ultimately have "\<bar>v\<bar> \<le> maxv" using fold_max_ge [of "\<bar>v\<bar>" "\<bar>hd ?dims\<bar>" "map abs (tl ?dims)"] unfolding maxv_def by (simp only:)
  then have vm: "\<bar>v\<bar> \<le> maxv" .
  define r where "r = (if maxv = 0 then 0 else v / maxv)"
  have r: "\<bar>r\<bar> \<le> 1"
  proof (cases "maxv = 0")
    case False
    then have "0 < maxv" using vm by linarith
    then show ?thesis using vm by (simp add: r_def abs_divide)
  qed (simp add: r_def)
  have "\<bar>r\<bar> * (height / 2) \<le> height / 2" "0 \<le> \<bar>r\<bar> * (height / 2)"
    using mult_left_le_one_le [of "height / 2" "\<bar>r\<bar>"] r assms(2) by (simp_all only: abs_ge_zero zero_le_divide_iff mult_nonneg_nonneg) auto
  moreover have "sb_h b = \<bar>r\<bar> * (height / 2)" "sb_y b = (if r \<ge> 0 then height / 2 - \<bar>r\<bar> * (height / 2) else height / 2)"
    by (simp_all add: v(2) spark_bar_def r_def Let_def)
  ultimately show ?thesis by (simp add: bars split: if_splits)
qed

theorem sparkline_inside_witness:
  "\<exists>bars. embeddingSparkline 120 24 [1, -2] = Some bars \<and> (\<forall>b \<in> set bars. sb_y b + sb_h b \<le> 24)"
proof -
  obtain bars where bars: "embeddingSparkline 120 24 [1, -2] = Some bars" by (simp add: embeddingSparkline_def Let_def)
  have "(0 :: real) \<le> 24" by simp
  from sparkline_inside [OF bars this] bars show ?thesis by blast
qed

text \<open>The width of a bar is a percentage and its hue an angle up to 120; without a positive score every
  bar is empty.\<close>

theorem bar_range:
  "0 \<le> bar_percent s m \<and> bar_percent s m \<le> 100 \<and> 0 \<le> bar_hue (bar_percent s m) \<and> bar_hue (bar_percent s m) \<le> 120
   \<and> (m \<le> 0 \<longrightarrow> bar_percent s m = 0)"
proof -
  have p: "0 \<le> bar_percent s m \<and> bar_percent s m \<le> 100" by (auto simp: bar_percent_def)
  then have "0 \<le> bar_percent s m * (12 / 10) + 1 / 2" "bar_percent s m * (12 / 10) + 1 / 2 < 121" by auto
  then show ?thesis using p by (auto simp: bar_hue_def bar_percent_def floor_le_iff le_floor_iff)
qed

theorem bar_range_witness: "bar_percent 5 (- 1) = 0"
  using bar_range [of 5 "- 1"] by simp

section \<open>The ranking of one's own documents\<close>

lemma scored_texts: "map sd_text (scored_docs q vs docs) = docs"
  by (simp add: scored_docs_def comp_def case_prod_beta enumerate_eq_zip)

lemma scored_defined:
  assumes "list_all (\<lambda>v. length v = length q) vs" "length docs \<le> length vs"
  shows "list_all (\<lambda>d. sd_similarity d \<noteq> None) (scored_docs q vs docs)"
proof -
  have "vector_similarity q (vector_at vs i) \<noteq> None" if "i < length docs" for i
    unfolding similarity_defined using that assms by (simp add: vector_at_def list_all_length)
  then show ?thesis
    by (auto simp: scored_docs_def list_all_iff in_set_zip enumerate_eq_zip)
qed

text \<open>
  The answer of an embedder with one vector of the same dimension for the query and for each document:
  the page shows each document once, by falling similarity, each with the similarity of its own vector.
\<close>

theorem embed_ranks_documents:
  assumes "fld v ''embeddings'' = JArr (e # es)" "length es = length docs" "docs \<noteq> []"
    and "list_all (\<lambda>x. length (vector_of x) = length (vector_of e)) es"
    and st': "st' = embed_answer order u t (m, q # docs) (Inr v) st"
  shows "\<exists>ds. ru_result (ep_run st') = Some ds \<and> mset (map sd_text ds) = mset docs
    \<and> sorted_wrt (\<lambda>a b. the (sd_similarity b) \<le> the (sd_similarity a)) ds
    \<and> (\<forall>d \<in> set ds. sd_index d < length docs \<and> sd_text d = docs ! sd_index d
          \<and> sd_similarity d = vector_similarity (vector_of e) (vector_of (es ! sd_index d)))
    \<and> \<not> ru_loading (ep_run st') \<and> ep_dimensions st' = Some (length (vector_of e))"
proof -
  let ?q = "vector_of e" and ?vs = "map vector_of es"
  let ?ds = "scored_docs ?q ?vs docs"
  let ?k = "\<lambda>d. - the (sd_similarity d)"
  have def: "list_all (\<lambda>d. sd_similarity d \<noteq> None) ?ds"
    using assms(2,4) by (intro scored_defined) (simp_all add: list_all_iff)
  have res: "ru_result (ep_run st') = Some (sort_key ?k ?ds)" "\<not> ru_loading (ep_run st')" "ep_dimensions st' = Some (length ?q)"
    using assms(1-3) def by (cases docs; simp add: st' embed_answer_def Let_def run_finish_def sort_scored_def)+
  have "mset (map sd_text (sort_key ?k ?ds)) = mset (map sd_text ?ds)" by simp
  then have "mset (map sd_text (sort_key ?k ?ds)) = mset docs" by (simp only: scored_texts)
  moreover have "sorted_wrt (\<lambda>a b. the (sd_similarity b) \<le> the (sd_similarity a)) (sort_key ?k ?ds)"
    using sorted_sort_key [of ?k ?ds] by (simp add: sorted_map)
  moreover have "\<forall>d \<in> set ?ds. sd_index d < length docs \<and> sd_text d = docs ! sd_index d
      \<and> sd_similarity d = vector_similarity ?q (vector_of (es ! sd_index d))"
    using assms(2) by (auto simp: scored_docs_def in_set_zip enumerate_eq_zip vector_at_def)
  ultimately show ?thesis using res by auto
qed

definition blank_embed :: embed_page where
  "blank_embed = \<lparr>ep_query = ''q'', ep_documents = [''a'', ''b''], ep_model = ''m'', ep_models = [], ep_loaded = True,
     ep_queryVector = None, ep_dimensions = None,
     ep_run = \<lparr>ru_loading = True, ru_error = None, ru_result = None, ru_time = None\<rparr>, ep_calls = []\<rparr>"

theorem embed_ranks_documents_witness:
  "ep_dimensions (embed_answer id [] 1 (''m'', ''q'' # [''a'', ''b''])
      (Inr (JObj [(''embeddings'', JArr [JArr [JNum 1, JNum 0], JArr [JNum 0, JNum 1], JArr [JNum 1, JNum 1]])])) blank_embed)
   = Some (length (vector_of (JArr [JNum 1, JNum 0])))"
proof -
  let ?v = "JObj [(''embeddings'', JArr [JArr [JNum 1, JNum 0], JArr [JNum 0, JNum 1], JArr [JNum 1, JNum 1]])]"
  have "fld ?v ''embeddings'' = JArr (JArr [JNum 1, JNum 0] # [JArr [JNum 0, JNum 1], JArr [JNum 1, JNum 1]])"
    "length [JArr [JNum 0, JNum 1], JArr [JNum 1, JNum 1]] = length [''a'', ''b'']" "[''a'', ''b''] \<noteq> []"
    "list_all (\<lambda>x. length (vector_of x) = length (vector_of (JArr [JNum 1, JNum 0]))) [JArr [JNum 0, JNum 1], JArr [JNum 1, JNum 1]]"
    by simp_all
  from embed_ranks_documents [OF this refl, of id "[]" 1 "''m''" "''q''" blank_embed] show ?thesis by blast
qed

text \<open>The request is not tied to the controller that the page makes: what the page was reset from comes
  back with the answer.\<close>

theorem answer_after_reset:
  assumes "fld v ''embeddings'' = JArr (e # es)" "length es = length docs" "docs \<noteq> []"
  shows "ru_result (ep_run (embed_answer order u t (m, q # docs) (Inr v) (embed_reset st))) \<noteq> None
    \<and> ep_query (embed_answer order u t (m, q # docs) (Inr v) (embed_reset st)) = []"
  using assms by (cases docs) (simp_all add: embed_answer_def Let_def run_finish_def embed_reset_def)

theorem answer_after_reset_witness:
  "ep_query (embed_answer id [] 1 (''m'', ''q'' # [''a'']) (Inr (JObj [(''embeddings'', JArr [JArr [], JArr []])])) (embed_reset blank_embed)) = []"
proof -
  have "fld (JObj [(''embeddings'', JArr [JArr [], JArr []])]) ''embeddings'' = JArr (JArr [] # [JArr []])"
    "length [JArr []] = length [''a'']" "[''a''] \<noteq> []" by simp_all
  from answer_after_reset [OF this] show ?thesis by blast
qed

section \<open>Ranks before and after\<close>

section \<open>Ranks before and after\<close>

definition unranked :: "table_hit list \<Rightarrow> rat list \<Rightarrow> ranked_hit list" where
  "unranked hits scores =
     map (\<lambda>(i, h). \<lparr>rh_hit = h, rh_original = i + 1, rh_score = scores ! i, rh_new = 0, rh_change = 0\<rparr>) (enumerate 0 hits)"

definition by_score :: "table_hit list \<Rightarrow> rat list \<Rightarrow> ranked_hit list" where
  "by_score hits scores = sort_key (\<lambda>h. - rh_score h) (unranked hits scores)"

lemma rank_hits_nth:
  assumes "i < length hits"
  shows "rank_hits hits scores ! i = (let h = by_score hits scores ! i in h\<lparr>rh_new := i + 1, rh_change := int (rh_original h) - int (i + 1)\<rparr>)"
  using assms by (simp add: rank_hits_def by_score_def unranked_def nth_enumerate_eq Let_def)

lemma rank_hits_length: "length (rank_hits hits scores) = length hits" "length (by_score hits scores) = length hits"
  by (simp_all add: rank_hits_def by_score_def unranked_def)

lemma ranks_kept:
  "map rh_original (rank_hits hits scores) = map rh_original (by_score hits scores)"
  "map rh_score (rank_hits hits scores) = map rh_score (by_score hits scores)"
  "map rh_hit (rank_hits hits scores) = map rh_hit (by_score hits scores)"
  "map rh_new (rank_hits hits scores) = map Suc [0..<length hits]"
  by (rule nth_equalityI; simp add: rank_hits_length rank_hits_nth Let_def)+

lemma unranked_originals: "map rh_original (unranked hits scores) = map Suc [0..<length hits]"
  by (rule nth_equalityI) (simp_all add: unranked_def nth_enumerate_eq)

lemma unranked_at:
  "h \<in> set (unranked hits scores) \<Longrightarrow> 0 < rh_original h \<and> rh_original h \<le> length hits
     \<and> rh_hit h = hits ! (rh_original h - 1) \<and> rh_score h = scores ! (rh_original h - 1)"
  by (auto simp: unranked_def in_set_zip enumerate_eq_zip)

text \<open>
  The reranked list has every hit of the search once, by falling score, with the score of its own text;
  its ranks are 1, 2, ... and the changes, each the old rank less the new one, add up to nothing.
\<close>

theorem ranks_after_reranker:
  shows "length (rank_hits hits scores) = length hits
    \<and> mset (map rh_original (rank_hits hits scores)) = mset (map Suc [0..<length hits])
    \<and> sorted_wrt (\<lambda>a b. rh_score b \<le> rh_score a) (rank_hits hits scores)
    \<and> map rh_new (rank_hits hits scores) = map Suc [0..<length hits]
    \<and> (\<Sum>h \<leftarrow> rank_hits hits scores. rh_change h) = 0"
proof -
  let ?R = "rank_hits hits scores"
  have "mset (map rh_original ?R) = mset (map rh_original (unranked hits scores))"
    unfolding ranks_kept(1) by_score_def by simp
  then have orig: "mset (map rh_original ?R) = mset (map Suc [0..<length hits])"
    unfolding unranked_originals .
  have "sorted_wrt (\<le>) (map (\<lambda>s. - s) (map rh_score (by_score hits scores)))"
    using sorted_sort_key [of "\<lambda>h. - rh_score h" "unranked hits scores"] by (simp add: by_score_def comp_def)
  then have "sorted_wrt (\<le>) (map (\<lambda>s. - s) (map rh_score ?R))" by (simp only: ranks_kept(2))
  then have srt: "sorted_wrt (\<lambda>a b. rh_score b \<le> rh_score a) ?R" by (simp add: sorted_wrt_map)
  have "map rh_change ?R = map (\<lambda>h. int (rh_original h) - int (rh_new h)) ?R"
    by (rule nth_equalityI) (simp_all add: rank_hits_length rank_hits_nth Let_def)
  from arg_cong [OF this, of sum_list]
  have "(\<Sum>h \<leftarrow> ?R. rh_change h) = (\<Sum>h \<leftarrow> ?R. int (rh_original h)) - (\<Sum>h \<leftarrow> ?R. int (rh_new h))"
    unfolding sum_list_subtractf .
  moreover have "(\<Sum>h \<leftarrow> ?R. int (rh_original h)) = sum_list (map int (map rh_original ?R))"
      "(\<Sum>h \<leftarrow> ?R. int (rh_new h)) = sum_list (map int (map rh_new ?R))" by (simp_all add: comp_def)
  moreover have "sum_list (map int (map rh_original ?R)) = sum_list (map int (map rh_new ?R))"
    unfolding ranks_kept(4) using orig by (metis mset_map sum_mset_sum_list)
  ultimately show ?thesis using orig srt by (simp add: rank_hits_length ranks_kept(4))
qed

text \<open>Each entry belongs to the hit and the score at its old rank.\<close>

theorem ranked_hit_own_score:
  assumes "h \<in> set (rank_hits hits scores)"
  shows "0 < rh_original h \<and> rh_original h \<le> length hits \<and> rh_hit h = hits ! (rh_original h - 1)
    \<and> rh_score h = scores ! (rh_original h - 1)"
proof -
  obtain i where i: "i < length hits" "h = rank_hits hits scores ! i"
    using assms by (auto simp: in_set_conv_nth rank_hits_length)
  have "by_score hits scores ! i \<in> set (by_score hits scores)"
    using i(1) by (intro nth_mem) (simp add: rank_hits_length)
  then have "by_score hits scores ! i \<in> set (unranked hits scores)"
    unfolding by_score_def by simp
  from unranked_at [OF this] show ?thesis
    using i by (simp add: rank_hits_nth Let_def)
qed

definition demo_hits :: "table_hit list" where
  "demo_hits = [hit_of (JObj [(''_id'', JStr ''a''), (''_score'', JNum 2)]), hit_of (JObj [(''_id'', JStr ''b''), (''_score'', JNum 1)])]"

theorem ranked_hit_own_score_witness:
  "rh_hit (rank_hits demo_hits [1, 2] ! 0) \<in> set demo_hits"
proof -
  have "rank_hits demo_hits [1, 2] ! 0 \<in> set (rank_hits demo_hits [1, 2])"
    by (rule nth_mem) (simp add: rank_hits_length demo_hits_def)
  note own = ranked_hit_own_score [OF this]
  have "demo_hits ! (rh_original (rank_hits demo_hits [1, 2] ! 0) - 1) \<in> set demo_hits"
    by (rule nth_mem) (use own in linarith)
  then show ?thesis using own by simp
qed

section \<open>Which query, which results\<close>

text \<open>The reranker gets the query that stands in the field when it is asked, not the one that was searched.\<close>

theorem reranks_by_edited_query:
  assumes "cp_hits st = Some (h # hs)" "cp_model st \<noteq> []"
  shows "cp_calls (handleRerank (st\<lparr>cp_query := q\<rparr>)) = cp_calls st @ [RerankTexts (cp_model st) q (h # hs)]"
  using assms by (simp add: handleRerank_def)

definition demo_compare :: compare_page where
  "demo_compare = \<lparr>cp_query = ''first'', cp_limit = 10, cp_model = ''m'', cp_models = [], cp_loaded = True, cp_hits = Some demo_hits, cp_searchTime = None, cp_ranked = None,
     cp_rerankTime = None, cp_searching = False, cp_reranking = False, cp_error = None, cp_calls = []\<rparr>"

theorem reranks_by_edited_query_witness:
  "cp_calls (handleRerank (demo_compare\<lparr>cp_query := ''other''\<rparr>)) = [RerankTexts ''m'' ''other'' demo_hits]"
proof -
  obtain h hs where hs: "demo_hits = h # hs" by (cases demo_hits) (simp_all add: demo_hits_def)
  have "cp_hits demo_compare = Some (h # hs)" "cp_model demo_compare \<noteq> []" by (simp_all add: demo_compare_def hs)
  from reranks_by_edited_query [OF this, of "''other''"] show ?thesis by (simp add: demo_compare_def hs)
qed

text \<open>A search made while the reranker is at work: its results are shown beside the reranked list of the
  search before.\<close>

theorem reranked_list_of_other_search:
  assumes "trim (cp_query st) \<noteq> []" "tab \<noteq> []" "query_hits v = Inr new" "fld w ''scores'' = JArr ss" "length ss = length old"
    and st': "st' = reranked t' old (Inr w) (searched t (Inr v) (compare_search tab index st))"
  shows "cp_hits st' = Some new \<and> cp_ranked st' = Some (rank_hits old (map score_number ss))"
  using assms by (simp add: reranked_def searched_def compare_search_def)

theorem reranked_list_of_other_search_witness:
  "cp_hits (reranked 1 demo_hits (Inr (JObj [(''scores'', JArr [JNum 1, JNum 2])])) (searched 1 (Inr JNull) (compare_search ''t'' [] demo_compare))) = Some []"
proof -
  have tr: "trim ''first'' \<noteq> []" by code_simp
  have "trim (cp_query demo_compare) \<noteq> []" "''t'' \<noteq> []" "query_hits JNull = Inr []"
    "fld (JObj [(''scores'', JArr [JNum 1, JNum 2])]) ''scores'' = JArr [JNum 1, JNum 2]" "length [JNum 1, JNum 2] = length demo_hits"
    using tr by (simp_all add: demo_compare_def query_hits_def demo_hits_def)
  from reranked_list_of_other_search [OF this refl] show ?thesis by blast
qed

text \<open>Enter searches also while a search is under way, and the answer that comes last is shown.\<close>

theorem last_search_answer_shown:
  assumes "query_hits new = Inr nh" "query_hits old = Inr oh"
    and st': "st' = explore_answer t2 (Inr old) (explore_answer t1 (Inr new) (explore_search tab index (st\<lparr>xp_query := q\<rparr>)))"
  shows "ru_result (xp_run st') = Some oh \<and> xp_query st' = q \<and> \<not> ru_loading (xp_run st')"
  using assms by (simp add: explore_answer_def run_finish_def explore_search_def split: option.split)

theorem last_search_answer_shown_witness:
  "xp_query (explore_answer 2 (Inr JNull) (explore_answer 1 (Inr JNull) (explore_search ''t'' ''i''
     (\<lparr>xp_query = [], xp_limit = 10, xp_run = \<lparr>ru_loading = False, ru_error = None, ru_result = None, ru_time = None\<rparr>, xp_calls = []\<rparr>
       \<lparr>xp_query := ''q''\<rparr>)))) = ''q''"
proof -
  have "query_hits JNull = Inr []" by (simp add: query_hits_def)
  from last_search_answer_shown [OF this this refl] show ?thesis by blast
qed

text \<open>An empty title hides the text: the preview has the title field though there is no title, and is then
  the raw document.\<close>

theorem empty_title_hides_text:
  "documentPreview print (JObj [(''title'', JStr []), (''text'', v)]) =
     (if is_string v \<and> 0 < length (to_str v) \<and> length (to_str v) < 500 then OthersOnly [(''text'', to_str v)]
      else RawJson (take 200 (print (JObj [(''title'', JStr []), (''text'', v)]))))"
  by (simp add: documentPreview_def preview_title_def preview_others_def preview_title_field_def preview_fields_def members_def
      starts_with_def)

end
