(* ===== verification/ResultViews.thy ===== *)
theory ResultViews
  imports MemoryDashboard BulkInsert ServerStatus "HOL-Library.Multiset" "HOL-Library.List_Lexorder" "HOL-Library.Char_ord"
begin

text \<open>
  The display of query results (ts/apps/antfarm/src/components/results/FieldValueDisplay.tsx,
  QueryResultItem.tsx, QueryResultsList.tsx and ResultsToolbar.tsx): how a value is shown, the preview
  and the fields of a hit, the order, the columns, what is expanded, and the export. \<open>print\<close> is
  \<open>JSON.stringify\<close>, \<open>is_url\<close> whether the URL constructor takes a text, \<open>collate\<close> the order of
  \<open>localeCompare\<close>. Writing numbers in the style of the user's country is not modelled.
\<close>

section \<open>One value\<close>

datatype field_view =
    NullBadge
  | BoolBadge bool
  | NumberText rat
  | VectorBadge nat
  | ImageLink string
  | WebLink string
  | TextBlock string bool
  | EmptyArray
  | Badges "string list"
  | ArrayBox "field_view list"
  | EmptyObject
  | ObjectBox nat string
  | InlineObject "(string \<times> field_view) list"

definition holds_vectors :: "string \<Rightarrow> bool" where
  "holds_vectors fieldName \<longleftrightarrow> str_includes (to_lower fieldName) ''embedding'' \<or> str_includes (to_lower fieldName) ''vector''"

definition is_web_url :: "(string \<Rightarrow> bool) \<Rightarrow> string \<Rightarrow> bool" where
  "is_web_url is_url s \<longleftrightarrow> is_url s \<and> (starts_with s ''http://'' \<or> starts_with s ''https://'')"

definition image_endings :: "string list" where
  "image_endings = [''.jpg'', ''.jpeg'', ''.png'', ''.gif'', ''.webp'', ''.svg'']"

definition is_image_url :: "(string \<Rightarrow> bool) \<Rightarrow> string \<Rightarrow> bool" where
  "is_image_url is_url s \<longleftrightarrow> is_web_url is_url s \<and> list_ex (\<lambda>e. ends_with (to_lower s) e) image_endings"

definition all_numbers :: "jsval list \<Rightarrow> bool" where
  "all_numbers vs \<longleftrightarrow> list_all is_number vs"

fun is_simple :: "jsval \<Rightarrow> bool" where
  "is_simple (JStr _) = True" | "is_simple (JNum _) = True" | "is_simple (JBool _) = True" | "is_simple _ = False"

definition printed_vector :: "(string \<Rightarrow> jsval option) \<Rightarrow> string \<Rightarrow> string \<Rightarrow> nat option" where
  "printed_vector parse fieldName s =
     (if holds_vectors fieldName \<and> starts_with s ''[''
      then (case parse s of Some (JArr vs) \<Rightarrow> if all_numbers vs then Some (length vs) else None | _ \<Rightarrow> None)
      else None)"

definition text_view ::
    "(string \<Rightarrow> jsval option) \<Rightarrow> (string \<Rightarrow> bool) \<Rightarrow> string \<Rightarrow> nat \<Rightarrow> bool \<Rightarrow> bool \<Rightarrow> string \<Rightarrow> field_view" where
  "text_view parse is_url fieldName maxLength tight expanded s =
     (case printed_vector parse fieldName s of
        Some n \<Rightarrow> VectorBadge n
      | None \<Rightarrow>
          if is_image_url is_url s then ImageLink s
          else if is_web_url is_url s then WebLink s
          else let needsTruncation = length s > maxLength \<and> \<not> tight
               in TextBlock (if needsTruncation \<and> \<not> expanded then take maxLength s @ ''...'' else s) needsTruncation)"

definition is_complex :: "(jsval \<Rightarrow> string) \<Rightarrow> (string \<times> jsval) list \<Rightarrow> bool" where
  "is_complex print kvs \<longleftrightarrow> length kvs > 3 \<or> length (print (JObj kvs)) > 200"

definition item_name :: "string \<Rightarrow> nat \<Rightarrow> string" where
  "item_name fieldName i = fieldName @ ''['' @ show_nat i @ '']''"

record view_env =
  ve_parse :: "string \<Rightarrow> jsval option"
  ve_print :: "jsval \<Rightarrow> string"
  ve_is_url :: "string \<Rightarrow> bool"

text \<open>\<open>expanded\<close> is the state of this value alone; a value inside starts collapsed, compact and with the
  usual length.\<close>

fun render_value :: "view_env \<Rightarrow> string \<Rightarrow> nat \<Rightarrow> bool \<Rightarrow> bool \<Rightarrow> jsval \<Rightarrow> field_view"
  and item_views :: "view_env \<Rightarrow> string \<Rightarrow> nat \<Rightarrow> jsval list \<Rightarrow> field_view list"
  and member_views :: "view_env \<Rightarrow> string \<Rightarrow> (string \<times> jsval) list \<Rightarrow> (string \<times> field_view) list" where
  "render_value e fieldName maxLength tight expanded JUndef = NullBadge"
| "render_value e fieldName maxLength tight expanded JNull = NullBadge"
| "render_value e fieldName maxLength tight expanded (JBool b) = BoolBadge b"
| "render_value e fieldName maxLength tight expanded (JNum n) = NumberText n"
| "render_value e fieldName maxLength tight expanded (JStr s) =
     text_view (ve_parse e) (ve_is_url e) fieldName maxLength tight expanded s"
| "render_value e fieldName maxLength tight expanded (JArr vs) =
     (if holds_vectors fieldName \<and> all_numbers vs then VectorBadge (length vs)
      else if vs = [] then EmptyArray
      else if list_all is_simple vs \<and> length vs \<le> 5 then Badges (map to_str vs)
      else ArrayBox (item_views e fieldName 0 vs))"
| "render_value e fieldName maxLength tight expanded (JObj kvs) =
     (if kvs = [] then EmptyObject
      else if is_complex (ve_print e) kvs then ObjectBox (length kvs) (ve_print e (JObj kvs))
      else InlineObject (member_views e fieldName kvs))"
| "item_views e fieldName i [] = []"
| "item_views e fieldName i (v # vs) = render_value e (item_name fieldName i) 200 True False v # item_views e fieldName (i + 1) vs"
| "member_views e fieldName [] = []"
| "member_views e fieldName ((k, v) # kvs) =
     (k, render_value e (fieldName @ ''.'' @ k) 200 True False v) # member_views e fieldName kvs"

section \<open>One hit\<close>

definition hit_percentage :: "jsval \<Rightarrow> rat option" where
  "hit_percentage score = (case score of JNum r \<Rightarrow> Some (min 100 (max 0 (r * 100))) | _ \<Rightarrow> None)"

definition hit_previewFields :: "string list" where
  "hit_previewFields = [''title'', ''name'', ''description'', ''text'', ''content'']"

definition previewData :: "jsval \<Rightarrow> (string \<times> jsval) list" where
  "previewData source =
     (if \<not> truthy source then []
      else map (\<lambda>f. (f, fld source f)) (take 3 (filter (\<lambda>f. \<not> nullish (fld source f)) hit_previewFields)))"

definition previewText :: "jsval \<Rightarrow> string" where
  "previewText source =
     (case previewData source of
        [] \<Rightarrow> ''No preview available''
      | (f, v) # rest \<Rightarrow>
          (case v of
             JStr s \<Rightarrow> if length s > 100 then take 100 s @ ''...'' else s
           | JArr vs \<Rightarrow> ''['' @ show_nat (length vs) @ '' items]''
           | JObj kvs \<Rightarrow> ''{'' @ show_nat (length kvs) @ '' fields}''
           | _ \<Rightarrow> to_str v))"

definition special_fields :: "string list" where
  "special_fields = [''_id'', ''title'', ''name'', ''description'']"

definition source_members :: "jsval \<Rightarrow> (string \<times> jsval) list" where
  "source_members source = (case source of JObj kvs \<Rightarrow> kvs | _ \<Rightarrow> [])"

definition hit_allFields :: "(string \<Rightarrow> 'k :: linorder) \<Rightarrow> string list option \<Rightarrow> jsval \<Rightarrow> (string \<times> jsval) list" where
  "hit_allFields collate visible source =
     sort_key (\<lambda>(k, v). if k \<in> set special_fields then (0 :: nat) else 1)
       (sort_key (\<lambda>(k, v). collate k)
          (filter (\<lambda>(k, v). case visible of None \<Rightarrow> True | Some fs \<Rightarrow> k \<in> set fs) (source_members source)))"

definition hit_label :: "nat \<Rightarrow> jsval \<Rightarrow> string" where
  "hit_label index hit = (if truthy (fld hit ''_id'') then to_str (fld hit ''_id'') else ''Result #'' @ show_nat (index + 1))"

section \<open>The list of hits\<close>

datatype view_choice = CardsView | TableView | RawView

datatype sort_mode = ByRelevance | ById | Unsorted

record results_list =
  rl_view :: view_choice
  rl_sort :: sort_mode
  rl_expanded :: "nat list"
  rl_expandAll :: bool
  rl_visible :: "string list"

definition result_hits :: "jsval \<Rightarrow> jsval list" where
  "result_hits result = (case fld (fld result ''hits'') ''hits'' of JArr hs \<Rightarrow> hs | _ \<Rightarrow> [])"

definition source_keys :: "jsval \<Rightarrow> string list" where
  "source_keys hit =
     (if truthy (fld hit ''_source'') then (case own_keys (fld hit ''_source'') of None \<Rightarrow> [] | Some ks \<Rightarrow> ks) else [])"

definition result_fields :: "jsval \<Rightarrow> string list" where
  "result_fields result = sort (remdups (concat (map source_keys (result_hits result))))"

definition start_list :: "jsval \<Rightarrow> results_list" where
  "start_list result = \<lparr>rl_view = CardsView, rl_sort = ByRelevance, rl_expanded = [], rl_expandAll = False,
     rl_visible = result_fields result\<rparr>"

text \<open>The effect of a new result: what is visible starts again, what is expanded stays.\<close>

definition new_result :: "jsval \<Rightarrow> results_list \<Rightarrow> results_list" where
  "new_result result st = st\<lparr>rl_visible := result_fields result\<rparr>"

definition hit_score :: "jsval \<Rightarrow> rat" where
  "hit_score hit = (case coalesce (fld hit ''_score'') (JNum 0) of JNum r \<Rightarrow> r | _ \<Rightarrow> 0)"

definition sortedHits :: "(string \<Rightarrow> 'k :: linorder) \<Rightarrow> sort_mode \<Rightarrow> jsval \<Rightarrow> jsval list" where
  "sortedHits collate m result =
     (case m of
        ByRelevance \<Rightarrow> sort_key (\<lambda>h. - hit_score h) (result_hits result)
      | ById \<Rightarrow> sort_key (\<lambda>h. collate (to_str (coalesce (fld h ''_id'') (JStr [])))) (result_hits result)
      | Unsorted \<Rightarrow> result_hits result)"

definition toggle_in :: "'a \<Rightarrow> 'a list \<Rightarrow> 'a list" where
  "toggle_in x xs = (if x \<in> set xs then filter (\<lambda>y. y \<noteq> x) xs else xs @ [x])"

definition handleToggleItem :: "nat \<Rightarrow> results_list \<Rightarrow> results_list" where
  "handleToggleItem i st = st\<lparr>rl_expanded := toggle_in i (rl_expanded st)\<rparr>"

definition handleExpandAllChange :: "jsval \<Rightarrow> bool \<Rightarrow> results_list \<Rightarrow> results_list" where
  "handleExpandAllChange result b st =
     st\<lparr>rl_expandAll := b, rl_expanded := (if b then [0..<length (result_hits result)] else [])\<rparr>"

definition allFieldsSelected :: "jsval \<Rightarrow> results_list \<Rightarrow> bool" where
  "allFieldsSelected result st \<longleftrightarrow> list_all (\<lambda>f. f \<in> set (rl_visible st)) (result_fields result)"

definition handleToggleAllFields :: "jsval \<Rightarrow> results_list \<Rightarrow> results_list" where
  "handleToggleAllFields result st =
     st\<lparr>rl_visible := (if allFieldsSelected result st then [] else result_fields result)\<rparr>"

definition handleToggleField :: "string \<Rightarrow> results_list \<Rightarrow> results_list" where
  "handleToggleField f st = st\<lparr>rl_visible := toggle_in f (rl_visible st)\<rparr>"

datatype list_action = ShowView view_choice | SortBy sort_mode | ToggleItem nat | ExpandAll bool | ToggleAllFields | ToggleField string

fun apply_action :: "jsval \<Rightarrow> list_action \<Rightarrow> results_list \<Rightarrow> results_list" where
  "apply_action result (ShowView v) st = st\<lparr>rl_view := v\<rparr>"
| "apply_action result (SortBy m) st = st\<lparr>rl_sort := m\<rparr>"
| "apply_action result (ToggleItem i) st = handleToggleItem i st"
| "apply_action result (ExpandAll b) st = handleExpandAllChange result b st"
| "apply_action result ToggleAllFields st = handleToggleAllFields result st"
| "apply_action result (ToggleField f) st = handleToggleField f st"

text \<open>The hits that the cards show expanded.\<close>

definition expanded_hits :: "(string \<Rightarrow> 'k :: linorder) \<Rightarrow> jsval \<Rightarrow> results_list \<Rightarrow> jsval list" where
  "expanded_hits collate result st = map snd (filter (\<lambda>(i, h). i \<in> set (rl_expanded st)) (enumerate 0 (sortedHits collate (rl_sort st) result)))"

text \<open>The table: the headings, each name once, and the cells of a row.\<close>

definition tableColumns :: "results_list \<Rightarrow> string list" where
  "tableColumns st = rev (remdups (rev ([''_id'', ''_score''] @ rl_visible st)))"

datatype table_cell = IdCell string | ScoreCell jsval | FieldCell field_view

definition result_row :: "view_env \<Rightarrow> results_list \<Rightarrow> nat \<Rightarrow> jsval \<Rightarrow> table_cell list" where
  "result_row e st index hit =
     [IdCell (hit_label index hit), ScoreCell (fld hit ''_score'')]
     @ map (\<lambda>f. FieldCell (render_value e f 200 True False (fld (fld hit ''_source'') f))) (rl_visible st)"

text \<open>A time in nanoseconds.\<close>

definition formatQueryTime :: "rat \<Rightarrow> string" where
  "formatQueryTime ns =
     (let ms = ns / 1000000
      in if ms < 1 then ''< 1ms''
         else if ms < 1000 then show_nat (nat \<lfloor>ms + 1 / 2\<rfloor>) @ ''ms''
         else toFixed 1 (ms / 1000) @ ''s'')"

section \<open>The export\<close>

definition mark_doubled :: "char \<Rightarrow> string" where
  "mark_doubled c = (if c = CHR 0x22 then ''\"\"'' else [c])"

definition csv_quoted :: "string \<Rightarrow> string" where
  "csv_quoted s = ''\"'' @ concat (map mark_doubled s) @ ''\"''"

definition csv_id :: "jsval \<Rightarrow> string" where
  "csv_id v = (if truthy v then ''\"'' @ to_str v @ ''\"'' else [])"

definition csv_score :: "jsval \<Rightarrow> string" where
  "csv_score v = (if v = JUndef then [] else to_str v)"

definition csv_value :: "(jsval \<Rightarrow> string) \<Rightarrow> jsval \<Rightarrow> string" where
  "csv_value print v = (if nullish v then [] else if typeof_object v then csv_quoted (print v) else csv_quoted (to_str v))"

definition csv_row :: "(jsval \<Rightarrow> string) \<Rightarrow> string list \<Rightarrow> jsval \<Rightarrow> string" where
  "csv_row print flds hit = join '','' (csv_id (fld hit ''_id'') # csv_score (fld hit ''_score'')
     # map (\<lambda>f. csv_value print (fld (fld hit ''_source'') f)) flds)"

definition csv_export :: "(jsval \<Rightarrow> string) \<Rightarrow> jsval \<Rightarrow> string option" where
  "csv_export print result =
     (if result_hits result = [] then None
      else Some (join [newline] (join '','' ([''_id'', ''_score''] @ result_fields result)
                 # map (csv_row print (result_fields result)) (result_hits result))))"

text \<open>How a reader of the format takes a file apart: rows of cells; a cell in quotation marks may have
  commas, ends of lines and doubled marks.\<close>

function csv_read :: "bool \<Rightarrow> string \<Rightarrow> string list \<Rightarrow> string \<Rightarrow> string list list" where
  "csv_read quoted cell row [] = [row @ [cell]]"
| "csv_read False cell row (c # cs) =
     (if c = CHR '','' then csv_read False [] (row @ [cell]) cs
      else if c = newline then (row @ [cell]) # csv_read False [] [] cs
      else if c = CHR 0x22 \<and> cell = [] then csv_read True [] row cs
      else csv_read False (cell @ [c]) row cs)"
| "csv_read True cell row (c # cs) =
     (if c = CHR 0x22
      then (if cs \<noteq> [] \<and> hd cs = CHR 0x22 then csv_read True (cell @ [CHR 0x22]) row (tl cs) else csv_read False cell row cs)
      else csv_read True (cell @ [c]) row cs)"
  by pat_completeness auto
termination by (relation "measure (\<lambda>(q, cell, row, s). length s)") auto

section \<open>Reading the export back\<close>

text \<open>A written cell that a reader takes as one value, whatever follows it.\<close>

definition cell_reads :: "string \<Rightarrow> string \<Rightarrow> bool" where
  "cell_reads enc v \<longleftrightarrow>
     (\<forall>row rest. rest = [] \<or> hd rest = CHR '','' \<or> hd rest = newline \<longrightarrow> csv_read False [] row (enc @ rest) = csv_read False v row rest)"

definition csv_plain :: "string \<Rightarrow> bool" where
  "csv_plain s \<longleftrightarrow> list_all (\<lambda>c. c \<noteq> CHR '','' \<and> c \<noteq> newline \<and> c \<noteq> CHR 0x22) s"

lemma read_plain: "csv_plain s \<Longrightarrow> csv_read False cell row (s @ rest) = csv_read False (cell @ s) row rest"
  by (induction s arbitrary: cell) (auto simp: csv_plain_def)

lemma plain_reads: "csv_plain s \<Longrightarrow> cell_reads s s"
  by (simp add: cell_reads_def read_plain)

lemma read_inside:
  "rest = [] \<or> hd rest \<noteq> CHR 0x22 \<Longrightarrow>
   csv_read True cell row (concat (map mark_doubled s) @ ''\"'' @ rest) = csv_read False (cell @ s) row rest"
proof (induction s arbitrary: cell)
  case (Cons c s)
  then show ?case by (cases "c = CHR 0x22") (simp_all add: mark_doubled_def)
qed auto

lemma quoted_reads: "cell_reads (csv_quoted s) s"
  unfolding cell_reads_def
proof (intro allI impI)
  fix row rest assume "rest = [] \<or> hd rest = CHR '','' \<or> hd rest = newline"
  then have r: "rest = [] \<or> hd rest \<noteq> CHR 0x22" by auto
  have "csv_quoted s @ rest = CHR 0x22 # concat (map mark_doubled s) @ ''\"'' @ rest"
    by (simp add: csv_quoted_def)
  then show "csv_read False [] row (csv_quoted s @ rest) = csv_read False s row rest"
    using read_inside [OF r, of "[]" row s] by simp
qed

lemma quoted_plain: "csv_plain s \<Longrightarrow> ''\"'' @ s @ ''\"'' = csv_quoted s"
proof -
  assume "csv_plain s"
  then have "concat (map mark_doubled s) = s" by (induction s) (auto simp: csv_plain_def mark_doubled_def)
  then show ?thesis by (simp add: csv_quoted_def)
qed

lemma read_row:
  assumes "list_all2 cell_reads encs vs" "encs \<noteq> []" "rest = [] \<or> hd rest = newline"
  shows "csv_read False [] row (join '','' encs @ rest) = csv_read False (last vs) (row @ butlast vs) rest"
  using assms
proof (induction encs vs arbitrary: row rule: list_all2_induct)
  case (Cons enc encs v vs)
  show ?case
  proof (cases "encs = []")
    case True
    then show ?thesis using Cons.hyps Cons.prems by (auto simp: cell_reads_def)
  next
    case False
    then have ne: "vs \<noteq> []" using Cons.hyps(2) by auto
    have "csv_read False [] row (enc @ CHR '','' # join '','' encs @ rest) = csv_read False v row (CHR '','' # join '','' encs @ rest)"
      using Cons.hyps(1) by (auto simp: cell_reads_def)
    moreover have "join '','' (enc # encs) @ rest = enc @ CHR '','' # join '','' encs @ rest"
      using False by (simp add: join_Cons)
    ultimately show ?thesis
      using Cons.IH [OF False Cons.prems(2), of "row @ [v]"] ne by simp
  qed
qed simp

lemma read_rows:
  assumes "list_all2 (\<lambda>encs vs. encs \<noteq> [] \<and> list_all2 cell_reads encs vs) rows cells" "rows \<noteq> []"
  shows "csv_read False [] [] (join [newline] (map (join '','') rows)) = cells"
  using assms
proof (induction rows cells rule: list_all2_induct)
  case (Cons encs rows vs cells)
  have ne: "vs \<noteq> []" using Cons.hyps(1) by auto
  show ?case
  proof (cases "rows = []")
    case True
    then have "csv_read False [] [] (join '','' encs @ []) = csv_read False (last vs) ([] @ butlast vs) []"
      using Cons.hyps(1) by (intro read_row) auto
    then show ?thesis using True Cons.hyps(2) ne by simp
  next
    case False
    have "csv_read False [] [] (join '','' encs @ newline # join [newline] (map (join '','') rows))
        = csv_read False (last vs) ([] @ butlast vs) (newline # join [newline] (map (join '','') rows))"
      using Cons.hyps(1) by (intro read_row) auto
    then show ?thesis using Cons.IH [OF False] False ne by (simp add: join_Cons)
  qed
qed simp

text \<open>The values that stand in the cells.\<close>

definition cell_value :: "(jsval \<Rightarrow> string) \<Rightarrow> jsval \<Rightarrow> string" where
  "cell_value print v = (if nullish v then [] else if typeof_object v then print v else to_str v)"

definition row_values :: "(jsval \<Rightarrow> string) \<Rightarrow> string list \<Rightarrow> jsval \<Rightarrow> string list" where
  "row_values print flds hit = (if truthy (fld hit ''_id'') then to_str (fld hit ''_id'') else [])
     # csv_score (fld hit ''_score'') # map (\<lambda>f. cell_value print (fld (fld hit ''_source'') f)) flds"

lemma empty_reads: "cell_reads [] []"
  by (rule plain_reads) (simp add: csv_plain_def)

lemma value_reads: "cell_reads (csv_value print v) (cell_value print v)"
  by (simp add: csv_value_def cell_value_def quoted_reads empty_reads)

text \<open>
  A reader of the exported file gets back the headings and, for every hit, its identifier, its score and
  every value of its source, whatever commas, marks or line ends the values have. The identifiers and the
  names of the fields are written as they are, so they must be plain.
\<close>

theorem csv_export_read:
  assumes "csv_export print result = Some out"
    and "\<forall>f \<in> set (result_fields result). csv_plain f"
    and "\<forall>h \<in> set (result_hits result). csv_plain (to_str (fld h ''_id'')) \<and> csv_plain (csv_score (fld h ''_score''))"
  shows "csv_read False [] [] out =
    ([''_id'', ''_score''] @ result_fields result) # map (row_values print (result_fields result)) (result_hits result)"
proof -
  let ?fs = "result_fields result" and ?hs = "result_hits result"
  let ?encs = "\<lambda>h. csv_id (fld h ''_id'') # csv_score (fld h ''_score'') # map (\<lambda>f. csv_value print (fld (fld h ''_source'') f)) ?fs"
  have out: "out = join [newline] (map (join '','') (([''_id'', ''_score''] @ ?fs) # map ?encs ?hs))"
  proof -
    have "csv_row print ?fs = (\<lambda>h. join '','' (?encs h))" by (rule ext) (simp only: csv_row_def)
    then show ?thesis using assms(1) by (simp only: csv_export_def list.map map_map comp_def split: if_splits) simp_all
  qed
  have "csv_plain ''_id''" "csv_plain ''_score''" by (simp_all add: csv_plain_def)
  then have head: "list_all2 cell_reads ([''_id'', ''_score''] @ ?fs) ([''_id'', ''_score''] @ ?fs)"
    using assms(2) by (simp add: list_all2_same plain_reads)
  have row: "list_all2 cell_reads (?encs h) (row_values print ?fs h)" if "h \<in> set ?hs" for h
  proof -
    have "cell_reads (csv_id (fld h ''_id'')) (if truthy (fld h ''_id'') then to_str (fld h ''_id'') else [])"
      using assms(3) that quoted_plain [of "to_str (fld h ''_id'')"] quoted_reads empty_reads by (simp add: csv_id_def)
    moreover have "cell_reads (csv_score (fld h ''_score'')) (csv_score (fld h ''_score''))"
      using assms(3) that by (simp add: plain_reads)
    ultimately show ?thesis
      by (simp add: row_values_def list_all2_map1 list_all2_map2 list_all2_same value_reads)
  qed
  have "list_all2 (\<lambda>encs vs. encs \<noteq> [] \<and> list_all2 cell_reads encs vs) (map ?encs ?hs) (map (row_values print ?fs) ?hs)"
    unfolding list_all2_map1 list_all2_map2 list_all2_same using row by blast
  then show ?thesis
    unfolding out using head by (intro read_rows) simp_all
qed

definition sample_hit :: "string \<Rightarrow> (string \<times> jsval) list \<Rightarrow> jsval" where
  "sample_hit i src = JObj [(''_id'', JStr i), (''_source'', JObj src)]"

definition sample_result :: "jsval list \<Rightarrow> jsval" where
  "sample_result hits = JObj [(''hits'', JObj [(''hits'', JArr hits)])]"

definition print_nothing :: "jsval \<Rightarrow> string" where
  "print_nothing v = ''{}''"

lemma sample_result_hits: "result_hits (sample_result hits) = hits"
  by (simp add: result_hits_def sample_result_def)

lemma sample_result_fields1:
  "src = [(k, v)] \<Longrightarrow> result_fields (sample_result [sample_hit i src]) = [k]"
  by (simp add: result_fields_def sample_result_hits source_keys_def sample_hit_def)

theorem csv_export_read_witness:
  "csv_read False [] [] (''_id,_score,text'' @ [newline] @ ''\"a1\",,\"he said \"\"no, no\"\"\"'')
   = [[''_id'', ''_score'', ''text''], [''a1'', [], ''he said \"no, no\"'']]"
proof -
  let ?h = "sample_hit ''a1'' [(''text'', JStr ''he said \"no, no\"'')]"
  let ?r = "sample_result [?h]"
  have hits: "result_hits ?r = [?h]" by (rule sample_result_hits)
  have fs: "result_fields ?r = [''text'']" by (rule sample_result_fields1) (rule refl)
  have exported: "csv_export print_nothing ?r = Some (''_id,_score,text'' @ [newline] @ ''\"a1\",,\"he said \"\"no, no\"\"\"'')"
    unfolding csv_export_def hits fs by code_simp
  have plain: "\<forall>f \<in> set (result_fields ?r). csv_plain f" unfolding fs by code_simp
  have cells: "\<forall>h \<in> set (result_hits ?r). csv_plain (to_str (fld h ''_id'')) \<and> csv_plain (csv_score (fld h ''_score''))"
    unfolding hits by code_simp
  have vals: "row_values print_nothing [''text''] ?h = [''a1'', [], ''he said \"no, no\"'']" by code_simp
  show ?thesis using csv_export_read [OF exported plain cells] vals by (simp add: hits fs)
qed

text \<open>
  An identifier with a quotation mark, and a field whose name has a comma, are written as they are: what
  a reader gets back is neither the identifier nor the heading.
\<close>

theorem csv_plain_needed:
  "csv_row print_nothing [] (sample_hit ''6\" disk'' []) = ''\"6\" disk\",'' \<and>
   csv_read False [] [] ''\"6\" disk\",'' = [[''6 disk\"'', []]] \<and>
   csv_read False [] [] (join '','' [''_id'', ''_score'', ''price, net'']) = [[''_id'', ''_score'', ''price'', '' net'']]"
  by code_simp

section \<open>The columns and the cells\<close>

lemma dedup_first:
  "rev (remdups (rev (xs @ ys))) = rev (remdups (rev xs)) @ filter (\<lambda>y. y \<notin> set xs) (rev (remdups (rev ys)))"
proof (induction ys rule: rev_induct)
  case (snoc y ys)
  then show ?case by auto
qed simp

lemma dedup_distinct: "distinct xs \<Longrightarrow> rev (remdups (rev xs)) = xs"
  by (simp add: distinct_remdups_id)

lemma columns_split:
  assumes "distinct (rl_visible st)"
  shows "tableColumns st = [''_id'', ''_score''] @ filter (\<lambda>f. f \<notin> set [''_id'', ''_score'']) (rl_visible st)"
proof -
  have "distinct [''_id'', ''_score'']" by simp
  then have "rev (remdups (rev [''_id'', ''_score''])) = [''_id'', ''_score'']" by (rule dedup_distinct)
  then show ?thesis unfolding tableColumns_def dedup_first dedup_distinct [OF assms] by (rule arg_cong)
qed

lemma none_dropped:
  "length (filter (\<lambda>f. f \<notin> set [a, b]) xs) = length xs \<longleftrightarrow> a \<notin> set xs \<and> b \<notin> set xs"
proof (induction xs)
  case (Cons x xs)
  have "length (filter (\<lambda>f. f \<noteq> a \<and> f \<noteq> b) xs) \<noteq> Suc (length xs)"
    using length_filter_le [of "\<lambda>f. f \<noteq> a \<and> f \<noteq> b" xs] by linarith
  then show ?case using Cons by auto
qed simp

text \<open>
  In the table view a row has one cell for each heading exactly when no field of the source has the name
  \<open>_id\<close> or \<open>_score\<close>; the headings drop such a field and the rows do not, so that the cells after it
  stand one column too far to the right.
\<close>

theorem row_fits_headings:
  assumes "distinct (rl_visible st)"
  shows "length (result_row e st i hit) = length (tableColumns st)
           \<longleftrightarrow> ''_id'' \<notin> set (rl_visible st) \<and> ''_score'' \<notin> set (rl_visible st)"
proof -
  let ?new = "\<lambda>f. f \<notin> set [''_id'', ''_score'']"
  have "length (tableColumns st) = 2 + length (filter ?new (rl_visible st))"
    unfolding columns_split [OF assms] by simp
  moreover have "length (result_row e st i hit) = 2 + length (rl_visible st)" by (simp add: result_row_def)
  ultimately have "length (result_row e st i hit) = length (tableColumns st)
      \<longleftrightarrow> length (filter ?new (rl_visible st)) = length (rl_visible st)" by linarith
  then show ?thesis by (simp only: none_dropped)
qed

definition no_env :: view_env where
  "no_env = \<lparr>ve_parse = (\<lambda>_. None), ve_print = print_nothing, ve_is_url = (\<lambda>_. False)\<rparr>"

theorem row_fits_headings_witness:
  "length (result_row no_env (start_list JNull\<lparr>rl_visible := [''_id'', ''text'']\<rparr>) 0 JNull)
     \<noteq> length (tableColumns (start_list JNull\<lparr>rl_visible := [''_id'', ''text'']\<rparr>))"
proof -
  let ?st = "start_list JNull\<lparr>rl_visible := [''_id'', ''text'']\<rparr>"
  have "distinct (rl_visible ?st)" by simp
  moreover have "''_id'' \<in> set (rl_visible ?st)" by simp
  ultimately show ?thesis using row_fits_headings [of ?st no_env 0 JNull] by blast
qed

section \<open>What is open and what is shown\<close>

definition only_looks :: "list_action \<Rightarrow> bool" where
  "only_looks a = (case a of ShowView _ \<Rightarrow> True | SortBy _ \<Rightarrow> True | _ \<Rightarrow> False)"

lemma looking_keeps: "only_looks a \<Longrightarrow> rl_expanded (apply_action result a st) = rl_expanded st"
  by (cases a) (simp_all add: only_looks_def)

lemma sortedHits_length: "length (sortedHits collate m result) = length (result_hits result)"
  by (cases m) (simp_all add: sortedHits_def)

lemma sortedHits_mset: "mset (sortedHits collate m result) = mset (result_hits result)"
  by (cases m) (simp_all add: sortedHits_def)

lemma filter_enumerate_all: "snd ` set (enumerate 0 xs) \<subseteq> set xs \<and> fst ` set (enumerate 0 xs) \<subseteq> {0..<length xs}"
  by (auto simp: enumerate_eq_zip in_set_zip)

text \<open>
  Once all hits have been opened, every hit is shown open in whatever order and view are chosen after, as
  often as they are chosen.
\<close>

theorem all_stay_open:
  assumes "list_all only_looks actions"
    and "st' = foldl (\<lambda>s a. apply_action result a s) (handleExpandAllChange result True st) actions"
  shows "expanded_hits collate result st' = sortedHits collate (rl_sort st') result"
proof -
  have "rl_expanded (foldl (\<lambda>s a. apply_action result a s) s actions) = rl_expanded s" for s
    using assms(1) by (induction actions arbitrary: s) (simp_all add: looking_keeps)
  then have e: "rl_expanded st' = [0..<length (result_hits result)]"
    using assms(2) by (simp add: handleExpandAllChange_def)
  let ?xs = "sortedHits collate (rl_sort st') result"
  have "filter (\<lambda>(i, h). i \<in> set (rl_expanded st')) (enumerate 0 ?xs) = enumerate 0 ?xs"
    unfolding e using filter_enumerate_all [of ?xs] by (intro filter_True) (auto simp: sortedHits_length)
  then show ?thesis by (simp add: expanded_hits_def)
qed

theorem all_stay_open_witness:
  "length (expanded_hits (\<lambda>s. s) (sample_result [sample_hit ''a'' [], sample_hit ''b'' []])
     (foldl (\<lambda>s a. apply_action (sample_result [sample_hit ''a'' [], sample_hit ''b'' []]) a s)
        (handleExpandAllChange (sample_result [sample_hit ''a'' [], sample_hit ''b'' []]) True (start_list JNull)) [SortBy ById, ShowView CardsView])) = 2"
proof -
  have "list_all only_looks [SortBy ById, ShowView CardsView]" by (simp add: only_looks_def)
  from all_stay_open [OF this refl, of "\<lambda>s. s"] show ?thesis by (simp add: sortedHits_length sample_result_hits)
qed

text \<open>
  A hit that was opened is remembered by its place: after the order has changed, the hit that now stands
  there is open.
\<close>

theorem open_place_not_hit:
  "let result = sample_result [sample_hit ''b'' [], sample_hit ''a'' []];
       st = handleToggleItem 0 (start_list result)
   in expanded_hits (\<lambda>s. s) result st = [sample_hit ''b'' []] \<and>
      expanded_hits (\<lambda>s. s) result (apply_action result (SortBy ById) st) = [sample_hit ''a'' []]"
  by (simp add: Let_def handleToggleItem_def toggle_in_def start_list_def expanded_hits_def sortedHits_def
      sample_result_hits hit_score_def sample_hit_def coalesce_def nullish_def)

text \<open>The state of a list: every open place once, every visible field once and a field of the result.\<close>

definition list_ok :: "jsval \<Rightarrow> results_list \<Rightarrow> bool" where
  "list_ok result st \<longleftrightarrow> distinct (rl_expanded st) \<and> distinct (rl_visible st) \<and> set (rl_visible st) \<subseteq> set (result_fields result)"

definition list_offered :: "jsval \<Rightarrow> list_action \<Rightarrow> bool" where
  "list_offered result a \<longleftrightarrow> (case a of ToggleField f \<Rightarrow> f \<in> set (result_fields result) | _ \<Rightarrow> True)"

lemma shown_fields_distinct: "distinct (result_fields result)"
  by (simp add: result_fields_def)

lemma toggle_distinct: "distinct xs \<Longrightarrow> distinct (toggle_in x xs)"
  by (simp add: toggle_in_def)

lemma toggle_set: "set (toggle_in x xs) = (if x \<in> set xs then set xs - {x} else insert x (set xs))"
  by (auto simp: toggle_in_def)

lemma list_ok_step: "list_ok result st \<Longrightarrow> list_offered result a \<Longrightarrow> list_ok result (apply_action result a st)"
  by (cases a) (auto simp: list_ok_def list_offered_def handleToggleItem_def handleExpandAllChange_def
      handleToggleAllFields_def handleToggleField_def toggle_distinct toggle_set shown_fields_distinct)

text \<open>
  Whatever is chosen in the toolbar, and when a new result comes in after it: no open place and no visible
  field is listed twice, and only fields of the shown result are visible.
\<close>

theorem results_list_invariant:
  assumes "list_all (list_offered result) actions"
  shows "list_ok result' (new_result result' (foldl (\<lambda>s a. apply_action result a s) (start_list result) actions)) \<and>
         list_ok result (foldl (\<lambda>s a. apply_action result a s) (start_list result) actions)"
proof -
  have start: "list_ok result (start_list result)"
    by (simp add: list_ok_def start_list_def shown_fields_distinct)
  have fold: "list_ok result st \<Longrightarrow> list_ok result (foldl (\<lambda>s a. apply_action result a s) st actions)" for st
    using assms by (induction actions arbitrary: st) (simp_all add: list_ok_step)
  show ?thesis using fold [OF start] by (auto simp: list_ok_def new_result_def shown_fields_distinct)
qed

theorem results_list_invariant_witness:
  "list_ok (sample_result []) (foldl (\<lambda>s a. apply_action (sample_result []) a s) (start_list (sample_result [])) [ToggleItem 3, ToggleItem 3])"
proof -
  have "list_all (list_offered (sample_result [])) [ToggleItem 3, ToggleItem 3]" by (simp add: list_offered_def)
  from results_list_invariant [OF this] show ?thesis by blast
qed

text \<open>Choosing a field or a hit twice shows again what was shown before.\<close>

theorem toggle_twice:
  "set (rl_visible (handleToggleField f (handleToggleField f st))) = set (rl_visible st) \<and>
   set (rl_expanded (handleToggleItem i (handleToggleItem i st))) = set (rl_expanded st)"
  by (auto simp: handleToggleField_def handleToggleItem_def toggle_set)

section \<open>The values shown\<close>

text \<open>
  The opened hit shows every visible field of its source once, the special ones before the others.
\<close>

theorem allFields_complete:
  "mset (hit_allFields collate None source) = mset (source_members source) \<and>
   sorted (map (\<lambda>(k, v). if k \<in> set special_fields then (0 :: nat) else 1) (hit_allFields collate visible source))"
  by (simp add: hit_allFields_def del: sort_key_simps(2))

lemma str_includes_parts: "str_includes s t \<longleftrightarrow> (\<exists>a b. s = a @ t @ b)"
proof -
  have "str_includes s t \<longleftrightarrow> (\<exists>x. suffix x s \<and> prefix t x)"
    by (auto simp: str_includes_def list_ex_iff)
  then show ?thesis by (auto simp: suffix_def prefix_def)
qed

lemma includes_longer: "str_includes s t \<Longrightarrow> str_includes (s @ u) t"
  unfolding str_includes_parts by (metis append.assoc)

lemma holds_vectors_longer: "holds_vectors f \<Longrightarrow> holds_vectors (f @ u)"
  unfolding holds_vectors_def to_lower_def map_append
  by (elim disjE) (rule disjI1, erule includes_longer, rule disjI2, erule includes_longer)

text \<open>
  A list of numbers in a field for embeddings is never written out, alone or inside another list of such
  a field.
\<close>

theorem vector_not_written_out:
  assumes "holds_vectors fieldName" "list_all is_number vs"
  shows "render_value e fieldName maxLength tight expanded (JArr vs) = VectorBadge (length vs)
       \<and> item_views e fieldName i [JArr vs] = [VectorBadge (length vs)]"
proof -
  have deeper: "holds_vectors (item_name fieldName i)"
    unfolding item_name_def by (rule holds_vectors_longer) (rule assms(1))
  show ?thesis using assms deeper by (simp add: all_numbers_def)
qed

text \<open>Just under a second is shown as a thousand milliseconds.\<close>

theorem query_time_border:
  "formatQueryTime 999600000 = ''1000ms'' \<and> formatQueryTime 1000000000 = ''1.0s'' \<and> formatQueryTime 999999 = ''< 1ms''"
  by code_simp

end
