(* ===== verification/QueryAssistant.thy ===== *)
theory QueryAssistant
  imports TablePages ChatStream
begin

text \<open>
  The choice of a generator and the panels that ask for a query in words
  (ts/apps/antfarm/src/components/playground/GeneratorSelector.tsx, components/AIQueryAssistant.tsx and
  components/QueryBuilderAgent.tsx), and the assistant on the page of a table (pages/TableDetailsPage.tsx).
  A generator configuration is the object that the code spreads. \<open>parseFloat\<close> gives a finite number or
  none. The requests under way are a list; an answer event names its place in it.
\<close>

section \<open>The choice of a generator\<close>

definition generator_defaults :: "(string \<times> string) list" where
  "generator_defaults =
     [(''ollama'', ''llama3.3:70b''), (''gemini'', ''gemini-2.5-flash''), (''openai'', ''gpt-4.1''),
      (''anthropic'', ''claude-sonnet-4-5-20250929''), (''vertex'', ''gemini-2.5-flash''), (''cohere'', ''command-r-plus''),
      (''termite'', ''gemma-3-1b-it''), (''openrouter'', ''openai/gpt-4.1''),
      (''bedrock'', ''anthropic.claude-sonnet-4-5-20250929-v1:0''), (''mock'', ''mock'')]"

definition generator_labels :: "(string \<times> string) list" where
  "generator_labels =
     [(''ollama'', ''Ollama (Local)''), (''gemini'', ''Google AI (Gemini)''), (''openai'', ''OpenAI''),
      (''anthropic'', ''Anthropic (Claude)''), (''vertex'', ''Google Cloud Vertex AI''), (''cohere'', ''Cohere''),
      (''termite'', ''Termite (Local)''), (''openrouter'', ''OpenRouter''), (''bedrock'', ''AWS Bedrock''),
      (''mock'', ''Mock (Testing)'')]"

definition generator_default_config :: jsval where
  "generator_default_config = JObj [(''provider'', JStr ''openai''), (''model'', JStr ''gpt-4.1''), (''temperature'', JNum (7 / 10))]"

definition query_builder_providers :: "string list" where
  "query_builder_providers =
     [''gemini'', ''vertex'', ''openai'', ''anthropic'', ''bedrock'', ''ollama'', ''cohere'', ''openrouter'', ''termite'', ''mock'']"

definition formatGeneratorSummary :: "jsval \<Rightarrow> string \<Rightarrow> string" where
  "formatGeneratorSummary config defaultLabel =
     (if \<not> truthy (fld config ''provider'') \<or> \<not> truthy (fld config ''model'') then defaultLabel
      else to_str (fld config ''provider'') @ ''/'' @ to_str (fld config ''model''))"

definition getInheritedGeneratorLabels :: "jsval option \<Rightarrow> string \<times> string" where
  "getInheritedGeneratorLabels dashboardGenerator =
     (case dashboardGenerator of
        Some g \<Rightarrow> (''Dashboard default'',
                   ''Use the dashboard default generator ('' @ formatGeneratorSummary g ''Server default'' @ '').'')
      | None \<Rightarrow> (''Server default'',
                 ''Use the generator configured in the Antfly server config and omit any local override.''))"

text \<open>\<open>{...value, k: v}\<close>\<close>

definition spread_put :: "string \<Rightarrow> jsval \<Rightarrow> jsval \<Rightarrow> jsval" where
  "spread_put k v value = (case value of JObj kvs \<Rightarrow> JObj (obj_put k v kvs) | _ \<Rightarrow> JObj [(k, v)])"

definition selector_mode :: "jsval option \<Rightarrow> string" where
  "selector_mode value = (if value = None then ''default'' else ''custom'')"

definition handleModeChange :: "jsval \<Rightarrow> string \<Rightarrow> jsval option \<Rightarrow> jsval option" where
  "handleModeChange defaultConfig nextMode value =
     (if nextMode = ''default'' then None else Some (case value of Some v \<Rightarrow> v | None \<Rightarrow> defaultConfig))"

definition handleProviderChange :: "string \<Rightarrow> jsval option \<Rightarrow> jsval option" where
  "handleProviderChange provider value =
     map_option (\<lambda>v. spread_put ''model'' (case map_of generator_defaults provider of Some m \<Rightarrow> JStr m | None \<Rightarrow> fld v ''model'')
                       (spread_put ''provider'' (JStr provider) v)) value"

definition handleModelInput :: "string \<Rightarrow> jsval option \<Rightarrow> jsval option" where
  "handleModelInput s value = map_option (spread_put ''model'' (JStr s)) value"

definition handleTemperatureInput :: "(string \<Rightarrow> rat option) \<Rightarrow> jsval \<Rightarrow> string \<Rightarrow> jsval option \<Rightarrow> jsval option" where
  "handleTemperatureInput parseFloat defaultConfig s value =
     map_option (spread_put ''temperature''
       (case parseFloat s of Some r \<Rightarrow> JNum r | None \<Rightarrow> coalesce (fld defaultConfig ''temperature'') (JNum 0))) value"

definition shown_temperature :: "jsval \<Rightarrow> jsval \<Rightarrow> jsval" where
  "shown_temperature defaultConfig v =
     coalesce (fld v ''temperature'') (coalesce (fld defaultConfig ''temperature'') (JNum 0))"

definition provider_options :: "string list \<Rightarrow> (string \<times> string) list" where
  "provider_options providers = map (\<lambda>p. (p, case map_of generator_labels p of Some l \<Rightarrow> l | None \<Rightarrow> p)) providers"

datatype selector_event = SelMode string | SelProvider string | SelModel string | SelTemperature string

fun selector_step :: "(string \<Rightarrow> rat option) \<Rightarrow> jsval \<Rightarrow> selector_event \<Rightarrow> jsval option \<Rightarrow> jsval option" where
  "selector_step parseFloat dflt (SelMode m) value = handleModeChange dflt m value"
| "selector_step parseFloat dflt (SelProvider p) value = handleProviderChange p value"
| "selector_step parseFloat dflt (SelModel s) value = handleModelInput s value"
| "selector_step parseFloat dflt (SelTemperature s) value = handleTemperatureInput parseFloat dflt s value"

definition effectiveGenerator :: "jsval option \<Rightarrow> jsval option \<Rightarrow> jsval" where
  "effectiveGenerator override dashboard =
     coalesce (of_option override) (coalesce (of_option dashboard) JNull)"

section \<open>The assistant\<close>

record assistant_props =
  ap_table :: "string option"
  ap_schemaFields :: "string list option"
  ap_dashboard :: "jsval option"

record assistant =
  as_intent :: string
  as_loading :: bool
  as_error :: "string option"
  as_result :: jsval
  as_proposed :: jsval
  as_override :: "jsval option"
  as_calls :: "jsval list"

definition start_assistant :: assistant where
  "start_assistant = \<lparr>as_intent = [], as_loading = False, as_error = None, as_result = JNull, as_proposed = JNull,
     as_override = None, as_calls = []\<rparr>"

definition builder_request :: "assistant_props \<Rightarrow> jsval option \<Rightarrow> string \<Rightarrow> jsval" where
  "builder_request p override intent =
     (let g = effectiveGenerator override (ap_dashboard p)
      in JObj ([(''intent'', JStr (trim intent))]
           @ spread_if ''table'' (opt_str (ap_table p)) (truthy (opt_str (ap_table p)))
           @ spread_if ''schema_fields'' (opt_strs (ap_schemaFields p)) (nonempty_array (opt_strs (ap_schemaFields p)))
           @ spread_if ''generator'' g (truthy g)))"

definition handleGenerate :: "assistant_props \<Rightarrow> assistant \<Rightarrow> assistant" where
  "handleGenerate p st =
     (if trim (as_intent st) = [] then st\<lparr>as_error := Some ''Please describe what you want to search for''\<rparr>
      else st\<lparr>as_loading := True, as_error := None, as_result := JNull, as_proposed := JNull,
              as_calls := as_calls st @ [builder_request p (as_override st) (as_intent st)]\<rparr>)"

definition caught_text :: "js_exn \<Rightarrow> string \<Rightarrow> string" where
  "caught_text e dflt = (case e of ErrorObj _ m \<Rightarrow> m | NonError _ \<Rightarrow> dflt)"

definition generated :: "jsval res \<Rightarrow> assistant \<Rightarrow> assistant" where
  "generated r st =
     (case r of
        Inl e \<Rightarrow> st\<lparr>as_error := Some (caught_text e ''Failed to generate query''), as_loading := False\<rparr>
      | Inr v \<Rightarrow>
          (case fld_or_throw v ''query'' of
             Inl e \<Rightarrow> st\<lparr>as_result := v, as_error := Some (caught_text e ''Failed to generate query''), as_loading := False\<rparr>
           | Inr q \<Rightarrow> st\<lparr>as_result := v, as_proposed := q, as_loading := False\<rparr>))"

definition clearProposal :: "assistant \<Rightarrow> assistant" where
  "clearProposal st = st\<lparr>as_result := JNull, as_proposed := JNull\<rparr>"

text \<open>What a click hands to the page around the assistant.\<close>

datatype handed = Applied jsval | AppliedAndRun jsval

definition assistant_apply :: "(jsval \<Rightarrow> handed) \<Rightarrow> assistant \<Rightarrow> handed option \<times> assistant" where
  "assistant_apply f st =
     (if truthy (as_proposed st) then (Some (f (as_proposed st)), clearProposal st) else (None, st))"

definition generate_enabled :: "bool \<Rightarrow> string \<Rightarrow> bool" where
  "generate_enabled loading intent \<longleftrightarrow> \<not> loading \<and> trim intent \<noteq> []"

definition confidence_colour :: "rat option \<Rightarrow> string" where
  "confidence_colour c =
     (case c of None \<Rightarrow> ''secondary''
      | Some r \<Rightarrow> if r \<ge> 8 / 10 then ''default'' else if r \<ge> 5 / 10 then ''secondary'' else ''destructive'')"

definition confidence_label :: "rat option \<Rightarrow> string" where
  "confidence_label c =
     (case c of None \<Rightarrow> ''Unknown''
      | Some r \<Rightarrow> if r \<ge> 8 / 10 then ''High'' else if r \<ge> 5 / 10 then ''Medium'' else ''Low'')"

definition confidence_percent :: "rat \<Rightarrow> int" where
  "confidence_percent r = \<lfloor>r * 100 + 1 / 2\<rfloor>"

record proposal_card =
  pc_intent :: string
  pc_badge :: "(string \<times> string \<times> int) option"
  pc_explanation :: jsval
  pc_proposed :: jsval
  pc_warnings :: jsval

definition numeric_of :: "jsval \<Rightarrow> rat option" where
  "numeric_of v = (case v of JNum r \<Rightarrow> Some r | _ \<Rightarrow> None)"

text \<open>The card of the proposal, when it is shown.\<close>

definition proposal_card_of :: "assistant \<Rightarrow> proposal_card option" where
  "proposal_card_of st =
     (if truthy (as_result st) \<and> truthy (as_proposed st)
      then Some \<lparr>pc_intent = as_intent st,
                 pc_badge = map_option (\<lambda>r. (confidence_colour (Some r), confidence_label (Some r), confidence_percent r))
                   (numeric_of (fld (as_result st) ''confidence'')),
                 pc_explanation = fld (as_result st) ''explanation'', pc_proposed = as_proposed st,
                 pc_warnings = fld (as_result st) ''warnings''\<rparr>
      else None)"

datatype assistant_event =
    AIntent string
  | ACtrlEnter
  | AGenerate
  | AAnswer nat "jsval res"
  | AApply
  | AApplyAndRun
  | ADiscard
  | AOverride selector_event

text \<open>The buttons of the card are there only while the card is.\<close>

fun assistant_step ::
    "(string \<Rightarrow> rat option) \<Rightarrow> assistant_props \<Rightarrow> assistant_event \<Rightarrow> assistant \<Rightarrow> handed option \<times> assistant" where
  "assistant_step pf p (AIntent s) st = (None, st\<lparr>as_intent := s\<rparr>)"
| "assistant_step pf p ACtrlEnter st = (None, handleGenerate p st)"
| "assistant_step pf p AGenerate st =
     (None, if generate_enabled (as_loading st) (as_intent st) then handleGenerate p st else st)"
| "assistant_step pf p (AAnswer i r) st =
     (None, if i < length (as_calls st) then generated r (st\<lparr>as_calls := without i (as_calls st)\<rparr>) else st)"
| "assistant_step pf p AApply st = (if proposal_card_of st \<noteq> None then assistant_apply Applied st else (None, st))"
| "assistant_step pf p AApplyAndRun st =
     (if proposal_card_of st \<noteq> None then assistant_apply AppliedAndRun st else (None, st))"
| "assistant_step pf p ADiscard st = (None, if proposal_card_of st \<noteq> None then clearProposal st else st)"
| "assistant_step pf p (AOverride e) st =
     (None, st\<lparr>as_override := selector_step pf generator_default_config e (as_override st)\<rparr>)"

text \<open>A run of events: what was handed over, in order, and the state after it.\<close>

fun assistant_run ::
    "(string \<Rightarrow> rat option) \<Rightarrow> assistant_props \<Rightarrow> assistant_event list \<Rightarrow> assistant \<Rightarrow> handed list \<times> assistant" where
  "assistant_run pf p [] st = ([], st)"
| "assistant_run pf p (ev # evs) st =
     (let (h, st') = assistant_step pf p ev st; (hs, st'') = assistant_run pf p evs st'
      in ((case h of None \<Rightarrow> hs | Some x \<Rightarrow> x # hs), st''))"

definition handed_query :: "handed \<Rightarrow> jsval" where
  "handed_query h = (case h of Applied q \<Rightarrow> q | AppliedAndRun q \<Rightarrow> q)"

section \<open>The panel without a proposal\<close>

record builder_panel =
  bp_intent :: string
  bp_loading :: bool
  bp_error :: "string option"
  bp_result :: jsval
  bp_override :: "jsval option"
  bp_calls :: "jsval list"

definition handleGenerateQuery :: "assistant_props \<Rightarrow> builder_panel \<Rightarrow> builder_panel" where
  "handleGenerateQuery p st =
     (if trim (bp_intent st) = [] then st\<lparr>bp_error := Some ''Please describe what you want to search for''\<rparr>
      else st\<lparr>bp_loading := True, bp_error := None, bp_result := JNull,
              bp_calls := bp_calls st @ [builder_request p (bp_override st) (bp_intent st)]\<rparr>)"

definition panel_generated :: "jsval res \<Rightarrow> builder_panel \<Rightarrow> builder_panel" where
  "panel_generated r st =
     (case r of
        Inl e \<Rightarrow> st\<lparr>bp_error := Some (caught_text e ''Failed to generate query''), bp_loading := False\<rparr>
      | Inr v \<Rightarrow> st\<lparr>bp_result := v, bp_loading := False\<rparr>)"

definition handleUseQuery :: "bool \<Rightarrow> builder_panel \<Rightarrow> jsval option" where
  "handleUseQuery has_callback st =
     (if truthy (fld (bp_result st) ''query'') \<and> has_callback then Some (fld (bp_result st) ''query'') else None)"

section \<open>The assistant on the page of a table\<close>

definition page_assistant_props :: "(string \<Rightarrow> 'k :: linorder) \<Rightarrow> jsval option \<Rightarrow> table_page \<Rightarrow> assistant_props" where
  "page_assistant_props collate dashboard st =
     \<lparr>ap_table = Some (td_table st), ap_schemaFields = Some (map sf_originalField (availableSearchableFields collate st)),
      ap_dashboard = dashboard\<rparr>"

definition current_query :: "(string \<Rightarrow> jsval option) \<Rightarrow> table_page \<Rightarrow> jsval" where
  "current_query parse st = (case parse (td_filterQuery st) of Some v \<Rightarrow> v | None \<Rightarrow> JObj [])"

definition hand_over :: "(string \<Rightarrow> jsval option) \<Rightarrow> (jsval \<Rightarrow> string) \<Rightarrow> handed option \<Rightarrow> table_page \<Rightarrow> table_page" where
  "hand_over parse print h page =
     (case h of
        None \<Rightarrow> page
      | Some (Applied q) \<Rightarrow> query_applied print q page
      | Some (AppliedAndRun q) \<Rightarrow> query_applied_and_run parse print q page)"

text \<open>The assistant is part of the builder. Its keystroke reaches the handler of the window too.\<close>

definition assistant_on_page ::
    "(string \<Rightarrow> rat option) \<Rightarrow> (string \<Rightarrow> jsval option) \<Rightarrow> (jsval \<Rightarrow> string) \<Rightarrow> (string \<Rightarrow> 'k :: linorder) \<Rightarrow> jsval option \<Rightarrow>
     assistant_event \<Rightarrow> assistant \<times> table_page \<Rightarrow> assistant \<times> table_page" where
  "assistant_on_page pf parse print collate dashboard ev = (\<lambda>(st, page).
     let (h, st') = assistant_step pf (page_assistant_props collate dashboard page) ev st;
         page' = hand_over parse print h page
     in (st', if ev = ACtrlEnter then ctrl_enter parse print False page' else page'))"

section \<open>The choice of a generator, proved\<close>

text \<open>Every offered provider has a label and a default model.\<close>

lemma providers_known:
  "list_all (\<lambda>p. map_of generator_defaults p \<noteq> None \<and> map_of generator_labels p \<noteq> None) query_builder_providers"
  by code_simp

lemma fld_spread_put: "fld (spread_put k v x) k' = (if k' = k then v else fld x k')"
  by (cases x) (simp_all add: spread_put_def)

text \<open>
  After a provider was chosen, the model is the default model of that provider and everything else of the
  configuration is what it was: a provider never stands beside the model of another.
\<close>

theorem provider_brings_model:
  assumes "provider \<in> set query_builder_providers" "handleProviderChange provider (Some v) = Some v'"
  shows "fld v' ''provider'' = JStr provider \<and> (\<exists>m. map_of generator_defaults provider = Some m \<and> fld v' ''model'' = JStr m)
    \<and> (k \<noteq> ''provider'' \<longrightarrow> k \<noteq> ''model'' \<longrightarrow> fld v' k = fld v k)"
proof -
  obtain m where m: "map_of generator_defaults provider = Some m"
    using providers_known assms(1) by (auto simp: list_all_iff)
  have "v' = spread_put ''model'' (JStr m) (spread_put ''provider'' (JStr provider) v)"
    using assms(2) by (simp add: handleProviderChange_def m)
  then show ?thesis by (simp add: fld_spread_put m)
qed

theorem provider_brings_model_witness:
  "fld (spread_put ''model'' (JStr ''mock'') (spread_put ''provider'' (JStr ''mock'') generator_default_config)) ''temperature''
     = JNum (7 / 10)"
proof -
  have m: "map_of generator_defaults ''mock'' = Some ''mock''" by code_simp
  have p: "''mock'' \<in> set query_builder_providers" by code_simp
  have "handleProviderChange ''mock'' (Some generator_default_config)
      = Some (spread_put ''model'' (JStr ''mock'') (spread_put ''provider'' (JStr ''mock'') generator_default_config))"
    by (simp add: handleProviderChange_def m)
  from provider_brings_model [OF p this, of "''temperature''"] show ?thesis by (simp add: generator_default_config_def)
qed

text \<open>Going to the default and back loses the choice: the override starts again from the initial one.\<close>

theorem mode_forgets_choice:
  "handleModeChange dflt ''custom'' (handleModeChange dflt ''default'' value) = Some dflt \<and>
   handleModeChange dflt ''custom'' (Some v) = Some v"
  by (simp add: handleModeChange_def)

text \<open>
  The request uses the override, then the generator of the dashboard, then none; a configuration without
  its model is summed up as the server's default although it is sent.
\<close>

theorem summary_of_sent_generator:
  "fld (builder_request p (Some (JObj [(''provider'', JStr ''openai''), (''model'', JStr [])])) intent) ''generator''
     = JObj [(''provider'', JStr ''openai''), (''model'', JStr [])] \<and>
   formatGeneratorSummary (JObj [(''provider'', JStr ''openai''), (''model'', JStr [])]) ''Server default'' = ''Server default''"
proof -
  have "fld (JObj (kvs @ spread_if ''generator'' g True)) ''generator'' = g"
    if "map_of kvs ''generator'' = None" for kvs g
    using that by (simp add: spread_if_def map_add_def)
  note last = this
  have "map_of ([(''intent'', JStr (trim intent))]
      @ spread_if ''table'' (opt_str (ap_table p)) b @ spread_if ''schema_fields'' (opt_strs (ap_schemaFields p)) c) ''generator'' = None" for b c
    by (simp add: spread_if_def)
  from last [OF this] show ?thesis
    by (simp add: builder_request_def effectiveGenerator_def coalesce_def nullish_def Let_def formatGeneratorSummary_def)
qed

section \<open>The assistant, proved\<close>

text \<open>
  What the assistant holds as its proposal, and everything it hands to the page, is the query of an
  answer of the service, and it is handed over only once per answer: the proposal goes with it.
\<close>

definition answered_queries :: "assistant_event list \<Rightarrow> jsval list" where
  "answered_queries evs = concat (map (\<lambda>ev. case ev of AAnswer i (Inr v) \<Rightarrow> [fld v ''query''] | _ \<Rightarrow> []) evs)"

lemma answered_Cons: "answered_queries (ev # evs) = (case ev of AAnswer i (Inr v) \<Rightarrow> [fld v ''query''] | _ \<Rightarrow> []) @ answered_queries evs"
  by (simp add: answered_queries_def)

lemma proposed_step:
  "as_proposed (snd (assistant_step pf p ev st)) \<in> {as_proposed st, JNull} \<union> set (answered_queries [ev])"
  by (cases ev) (auto simp: handleGenerate_def generated_def clearProposal_def assistant_apply_def answered_queries_def
      fld_or_throw_def split: sum.split if_splits)

lemma handed_step:
  "fst (assistant_step pf p ev st) = Some h \<Longrightarrow>
   handed_query h = as_proposed st \<and> truthy (as_proposed st) \<and> as_proposed (snd (assistant_step pf p ev st)) = JNull"
  by (cases ev) (auto simp: assistant_apply_def clearProposal_def handed_query_def split: if_splits)

lemma handed_among:
  "h \<in> set (fst (assistant_run pf p evs st)) \<Longrightarrow>
   truthy (handed_query h) \<and> handed_query h \<in> insert (as_proposed st) (set (answered_queries evs))"
proof (induction evs arbitrary: st)
  case (Cons ev evs)
  let ?st = "snd (assistant_step pf p ev st)"
  have st: "as_proposed ?st \<in> {as_proposed st, JNull} \<union> set (answered_queries [ev])" by (rule proposed_step)
  have sub: "set (answered_queries (ev # evs)) = set (answered_queries [ev]) \<union> set (answered_queries evs)"
    by (simp add: answered_queries_def)
  consider "fst (assistant_step pf p ev st) = Some h" | "h \<in> set (fst (assistant_run pf p evs ?st))"
    using Cons.prems by (auto simp: case_prod_beta Let_def split: option.splits)
  then show ?case
  proof cases
    case 1
    then show ?thesis using handed_step by simp
  next
    case 2
    from Cons.IH [OF this] have t: "truthy (handed_query h)"
      and "handed_query h \<in> insert (as_proposed ?st) (set (answered_queries evs))" by blast+
    moreover have "handed_query h \<noteq> JNull" using t by auto
    ultimately show ?thesis using st unfolding sub by auto
  qed
qed simp

theorem only_answers_handed:
  assumes "h \<in> set (fst (assistant_run pf p evs start_assistant))"
  shows "truthy (handed_query h) \<and> handed_query h \<in> set (answered_queries evs)"
proof -
  have "as_proposed start_assistant = JNull" by (simp add: start_assistant_def)
  with handed_among [OF assms] show ?thesis by auto
qed

definition sample_answer :: "string \<Rightarrow> jsval" where
  "sample_answer s = JObj [(''query'', JObj [(''query'', JStr s)])]"

definition no_props :: assistant_props where
  "no_props = \<lparr>ap_table = None, ap_schemaFields = None, ap_dashboard = None\<rparr>"

theorem only_answers_handed_witness:
  "JObj [(''query'', JStr ''a'')] \<in> set (answered_queries [AIntent ''x'', AGenerate, AAnswer 0 (Inr (sample_answer ''a'')), AApply])"
proof -
  have x: "trim ''x'' \<noteq> []" by code_simp
  have "Applied (JObj [(''query'', JStr ''a'')])
      \<in> set (fst (assistant_run (\<lambda>_. None) no_props [AIntent ''x'', AGenerate, AAnswer 0 (Inr (sample_answer ''a'')), AApply] start_assistant))"
    using x by (simp add: start_assistant_def generate_enabled_def handleGenerate_def generated_def fld_or_throw_def sample_answer_def
        nullish_def proposal_card_of_def assistant_apply_def)
  from only_answers_handed [OF this] show ?thesis by (simp add: handed_query_def)
qed

text \<open>A proposal that was handed over or discarded is gone: until the next answer nothing can be handed over.\<close>

definition no_answer :: "assistant_event \<Rightarrow> bool" where
  "no_answer ev = (case ev of AAnswer _ _ \<Rightarrow> False | _ \<Rightarrow> True)"

lemma nothing_proposed_step:
  "no_answer ev \<Longrightarrow> \<not> truthy (as_proposed st) \<Longrightarrow>
   fst (assistant_step pf p ev st) = None \<and> \<not> truthy (as_proposed (snd (assistant_step pf p ev st)))"
  by (cases ev) (auto simp: no_answer_def handleGenerate_def assistant_apply_def clearProposal_def)

theorem handed_once:
  assumes "fst (assistant_step pf p ev st) = Some h" "list_all no_answer evs"
  shows "fst (assistant_run pf p evs (snd (assistant_step pf p ev st))) = []"
proof -
  have "fst (assistant_run pf p evs s) = []" if "\<not> truthy (as_proposed s)" for s
    using assms(2) that
  proof (induction evs arbitrary: s)
    case (Cons ev evs)
    then have "fst (assistant_step pf p ev s) = None" "\<not> truthy (as_proposed (snd (assistant_step pf p ev s)))"
      using nothing_proposed_step by simp_all
    then show ?case using Cons by (simp add: case_prod_beta Let_def)
  qed simp
  then show ?thesis using handed_step [OF assms(1)] by simp
qed

theorem handed_once_witness:
  "fst (assistant_run (\<lambda>_. None) no_props [AApply, AApplyAndRun]
     (snd (assistant_step (\<lambda>_. None) no_props AApply (start_assistant\<lparr>as_result := JObj [], as_proposed := JObj []\<rparr>)))) = []"
proof -
  have h: "fst (assistant_step (\<lambda>_. None) no_props AApply (start_assistant\<lparr>as_result := JObj [], as_proposed := JObj []\<rparr>)) = Some (Applied (JObj []))"
    by (simp add: proposal_card_of_def assistant_apply_def start_assistant_def)
  have "list_all no_answer [AApply, AApplyAndRun]" by (simp add: no_answer_def)
  from handed_once [OF h this] show ?thesis .
qed

text \<open>
  The keystroke does not wait for the request under way. Of two requests the last answer is the proposal,
  and once the first has come the assistant no longer says that it is working.
\<close>

theorem last_proposal_shown:
  assumes "as_calls st = []" "trim a \<noteq> []" "trim b \<noteq> []"
  shows "as_calls (snd (assistant_run pf p [AIntent a, ACtrlEnter, AIntent b, ACtrlEnter] st))
           = [builder_request p (as_override st) a, builder_request p (as_override st) b]
     \<and> (let st' = snd (assistant_run pf p [AIntent a, ACtrlEnter, AIntent b, ACtrlEnter, AAnswer 1 (Inr (sample_answer new))] st)
        in as_calls st' = [builder_request p (as_override st) a] \<and> \<not> as_loading st' \<and> as_proposed st' = fld (sample_answer new) ''query'')
     \<and> (let st' = snd (assistant_run pf p [AIntent a, ACtrlEnter, AIntent b, ACtrlEnter, AAnswer 1 (Inr (sample_answer new)), AAnswer 0 (Inr (sample_answer old))] st)
        in as_proposed st' = fld (sample_answer old) ''query'' \<and> map_option pc_intent (proposal_card_of st') = Some b)"
  using assms
  by (simp add: Let_def handleGenerate_def generated_def fld_or_throw_def sample_answer_def nullish_def without_def proposal_card_of_def)

theorem last_proposal_shown_witness:
  "as_proposed (snd (assistant_run (\<lambda>_. None) no_props [AIntent ''a'', ACtrlEnter, AIntent ''b'', ACtrlEnter,
      AAnswer 1 (Inr (sample_answer ''new'')), AAnswer 0 (Inr (sample_answer ''old''))] start_assistant)) = JObj [(''query'', JStr ''old'')]"
proof -
  have "as_calls start_assistant = []" "trim ''a'' \<noteq> []" "trim ''b'' \<noteq> []" by (simp add: start_assistant_def) code_simp+
  note t = conjunct2 [OF conjunct2 [OF last_proposal_shown [OF this, of "\<lambda>_. None" no_props "''new''" "''old''"]], unfolded Let_def]
  have q: "fld (sample_answer ''old'') ''query'' = JObj [(''query'', JStr ''old'')]" by (simp add: sample_answer_def)
  show ?thesis using t [unfolded q] by (rule conjunct1)
qed

text \<open>
  The card shows the text that stands in the field by then as the intent of its proposal. An answer
  without a query ends the request with neither a card nor an error.
\<close>

theorem card_shows_field:
  "map_option pc_intent (proposal_card_of (st\<lparr>as_intent := s\<rparr>)) = map_option (\<lambda>_. s) (proposal_card_of st) \<and>
   map_option pc_proposed (proposal_card_of (st\<lparr>as_intent := s\<rparr>)) = map_option pc_proposed (proposal_card_of st)"
  by (simp add: proposal_card_of_def)

theorem answer_without_query:
  assumes "as_error st = None" "as_proposed st = JNull"
  shows "let st' = generated (Inr (JObj [])) st in as_error st' = None \<and> \<not> as_loading st' \<and> proposal_card_of st' = None"
  using assms by (simp add: generated_def fld_or_throw_def nullish_def proposal_card_of_def Let_def)

theorem answer_without_query_witness:
  "proposal_card_of (generated (Inr (JObj [])) start_assistant) = None"
proof -
  have "as_error start_assistant = None" "as_proposed start_assistant = JNull" by (simp_all add: start_assistant_def)
  from answer_without_query [OF this] show ?thesis by (simp add: Let_def)
qed

text \<open>
  The word for the confidence is the right one for its percentage except just under the two borders,
  where the rounded percentage reaches the border and the word does not.
\<close>

theorem label_of_percentage:
  assumes "r * 100 = of_int (confidence_percent r)"
  shows "confidence_label (Some r) = (if confidence_percent r \<ge> 80 then ''High'' else if confidence_percent r \<ge> 50 then ''Medium'' else ''Low'')"
proof -
  have "r \<ge> 8 / 10 \<longleftrightarrow> (80 :: rat) \<le> of_int (confidence_percent r)" "r \<ge> 5 / 10 \<longleftrightarrow> (50 :: rat) \<le> of_int (confidence_percent r)"
    unfolding assms [symmetric] by (simp_all add: field_simps)
  moreover have "(80 :: rat) \<le> of_int (confidence_percent r) \<longleftrightarrow> 80 \<le> confidence_percent r"
    "(50 :: rat) \<le> of_int (confidence_percent r) \<longleftrightarrow> 50 \<le> confidence_percent r" by linarith+
  ultimately show ?thesis by (simp add: confidence_label_def)
qed

theorem label_of_percentage_witness: "confidence_label (Some (1 / 2)) = ''Medium''"
proof -
  have p: "confidence_percent (1 / 2) = 50" by (simp add: confidence_percent_def floor_eq_iff)
  from label_of_percentage [of "1 / 2"] show ?thesis by (simp add: p)
qed

theorem label_under_border:
  "confidence_label (Some (796 / 1000)) = ''Medium'' \<and> confidence_percent (796 / 1000) = 80"
  by (simp add: confidence_label_def confidence_percent_def floor_eq_iff)

section \<open>The assistant on the page, proved\<close>

text \<open>
  One keystroke in the assistant asks for a query and, when the page has one to run, runs the old one:
  the handler of the window sees the key too.
\<close>

theorem assistant_key_also_searches:
  assumes "trim (as_intent st) \<noteq> []" "td_table page \<noteq> []" "td_mode page = BuilderMode"
  shows "let (st', page') = assistant_on_page pf parse print collate dashboard ACtrlEnter (st, page)
         in as_calls st' = as_calls st @ [builder_request (page_assistant_props collate dashboard page) (as_override st) (as_intent st)] \<and>
            td_calls page' = td_calls page @ [CQuery (td_table page) (semanticQueryRequest parse print page)]"
  using assms by (simp add: assistant_on_page_def handleGenerate_def hand_over_def ctrl_enter_def Let_def query_to_run_def run_query_def ask_def)

theorem assistant_key_also_searches_witness:
  "length (td_calls (snd (assistant_on_page (\<lambda>_. None) (\<lambda>_. None) (\<lambda>_. []) (\<lambda>s. s) None ACtrlEnter
      (start_assistant\<lparr>as_intent := ''x''\<rparr>, blank_page (\<lambda>_. []) ''t'')))) = 1"
proof -
  have t: "trim (as_intent (start_assistant\<lparr>as_intent := ''x''\<rparr>)) \<noteq> []" by (simp add: start_assistant_def) code_simp
  have p: "td_table (blank_page (\<lambda>_. []) ''t'') \<noteq> []" "td_mode (blank_page (\<lambda>_. []) ''t'') = BuilderMode" "td_calls (blank_page (\<lambda>_. []) ''t'') = []"
    by (simp_all add: blank_page_def)
  from assistant_key_also_searches [OF t p(1,2), of "\<lambda>_. None" "\<lambda>_. None" "\<lambda>_. []" "\<lambda>s. s" None] show ?thesis
    by (simp add: case_prod_beta Let_def p(3))
qed

text \<open>The fields of the schema are told once for every way they are indexed.\<close>

theorem schema_fields_repeated:
  "map sf_originalField (availableFields (\<lambda>s. s) (Some [(''doc'', Some [(''title'',
      \<lparr>pr_type = Some ''string'', pr_index = None, pr_types = Some [AText, AKeyword]\<rparr>)])]))
   = [''title'', ''title'']"
  by code_simp

section \<open>The two panels\<close>

definition panel_of :: "assistant \<Rightarrow> builder_panel" where
  "panel_of st = \<lparr>bp_intent = as_intent st, bp_loading = as_loading st, bp_error = as_error st, bp_result = as_result st,
     bp_override = as_override st, bp_calls = as_calls st\<rparr>"

text \<open>
  The two panels make the same requests and keep the same answers and errors, and where the panel would
  use a query the assistant proposes the same one, unless the answer is no object at all: then the
  assistant shows an error and the panel nothing.
\<close>

theorem panels_agree:
  assumes "\<forall>v. r = Inr v \<longrightarrow> \<not> nullish v"
  shows "handleGenerateQuery p (panel_of st) = panel_of (handleGenerate p st) \<and>
         panel_generated r (panel_of st) = panel_of (generated r st) \<and>
         (\<forall>v. r = Inr v \<longrightarrow> truthy (fld v ''query'') \<longrightarrow>
            handleUseQuery True (panel_generated r (panel_of st)) = Some (as_proposed (generated r st)))"
  using assms
  by (cases r) (auto simp: panel_of_def handleGenerateQuery_def handleGenerate_def panel_generated_def generated_def fld_or_throw_def handleUseQuery_def)

theorem panels_agree_witness:
  "handleUseQuery True (panel_generated (Inr (sample_answer ''a'')) (panel_of start_assistant)) = Some (JObj [(''query'', JStr ''a'')])"
proof -
  have "\<forall>v. Inr (sample_answer ''a'') = (Inr v :: jsval res) \<longrightarrow> \<not> nullish v" by (auto simp: sample_answer_def nullish_def)
  from panels_agree [OF this, of no_props start_assistant]
  show ?thesis by (auto simp: sample_answer_def generated_def fld_or_throw_def nullish_def)
qed

end
