(* ===== verification/ChatPage.thy ===== *)
theory ChatPage
  imports QueryAssistant ChatWidgets TableSelection CompareViews
begin

text \<open>
  The chat playground (ts/apps/antfarm/src/pages/ChatPlaygroundPage.tsx) as the settings that it gives to
  the chat bar of the components (theory ChatWidgets) and through it to the request of a message (theory
  ChatStream), and the chain of steps beside an answer (components/playground/ReasoningChainCollapsible.tsx).
  \<open>parseInt\<close> gives a whole number or none.
\<close>

section \<open>The settings\<close>

record chat_page =
  cp_override :: "jsval option"
  cp_limit :: int
  cp_classification :: bool
  cp_followup :: bool
  cp_count :: int
  cp_confidence :: bool
  cp_systemPrompt :: string
  cp_agentKnowledge :: string
  cp_agentic :: bool
  cp_iterations :: int
  cp_tools :: "string list"
  cp_settingsOpen :: bool
  cp_key :: nat

definition available_tools :: "(string \<times> string \<times> string) list" where
  "available_tools =
     [(''semantic_search'', ''Semantic Search'', ''Vector similarity search''),
      (''full_text_search'', ''Full-Text Search'', ''BM25 keyword search''),
      (''add_filter'', ''Add Filter'', ''Field constraints''),
      (''ask_clarification'', ''Ask Clarification'', ''Request user input''),
      (''websearch'', ''Web Search'', ''Search the web'')]"

definition default_tools :: "string list" where
  "default_tools = [''semantic_search'', ''full_text_search'', ''add_filter'']"

definition default_chat_steps :: "chat_page \<Rightarrow> chat_page" where
  "default_chat_steps st = st\<lparr>cp_classification := True, cp_followup := True, cp_count := 3, cp_confidence := False\<rparr>"

definition start_chat_page :: "int \<Rightarrow> chat_page" where
  "start_chat_page innerWidth =
     \<lparr>cp_override = None, cp_limit = 10, cp_classification = True, cp_followup = True, cp_count = 3, cp_confidence = False,
      cp_systemPrompt = [], cp_agentKnowledge = [], cp_agentic = False, cp_iterations = 5, cp_tools = default_tools,
      cp_settingsOpen = (innerWidth \<ge> 1024), cp_key = 0\<rparr>"

definition chat_page_reset :: "chat_page \<Rightarrow> chat_page" where
  "chat_page_reset st =
     (default_chat_steps st)\<lparr>cp_override := None, cp_limit := 10, cp_systemPrompt := [], cp_agentKnowledge := [],
        cp_agentic := False, cp_iterations := 5, cp_tools := default_tools, cp_key := cp_key st + 1\<rparr>"

text \<open>\<open>parseInt(s, 10) || d\<close>\<close>

definition int_or :: "(string \<Rightarrow> int option) \<Rightarrow> int \<Rightarrow> string \<Rightarrow> int" where
  "int_or parseInt d s = (case parseInt s of None \<Rightarrow> d | Some n \<Rightarrow> if n = 0 then d else n)"

definition tool_toggled :: "string \<Rightarrow> chat_page \<Rightarrow> chat_page" where
  "tool_toggled name st =
     st\<lparr>cp_tools := (if name \<in> set (cp_tools st) then filter (\<lambda>n. n \<noteq> name) (cp_tools st) else cp_tools st @ [name])\<rparr>"

datatype chat_page_event =
    CpGenerator selector_event
  | CpLimit string
  | CpClassification bool
  | CpFollowup bool
  | CpCount string
  | CpConfidence bool
  | CpAgentic bool
  | CpIterations string
  | CpTool string
  | CpSystemPrompt string
  | CpKnowledge string
  | CpSettings
  | CpReset

text \<open>Only the fields that are shown can be changed: the count while there are follow-ups, the iterations
  and the tools in agentic mode.\<close>

fun chat_page_step ::
    "(string \<Rightarrow> int option) \<Rightarrow> (string \<Rightarrow> rat option) \<Rightarrow> chat_page_event \<Rightarrow> chat_page \<Rightarrow> chat_page" where
  "chat_page_step pint pf (CpGenerator e) st =
     st\<lparr>cp_override := selector_step pf generator_default_config e (cp_override st)\<rparr>"
| "chat_page_step pint pf (CpLimit s) st = st\<lparr>cp_limit := int_or pint 10 s\<rparr>"
| "chat_page_step pint pf (CpClassification b) st = st\<lparr>cp_classification := b\<rparr>"
| "chat_page_step pint pf (CpFollowup b) st = st\<lparr>cp_followup := b\<rparr>"
| "chat_page_step pint pf (CpCount s) st = (if cp_followup st then st\<lparr>cp_count := int_or pint 3 s\<rparr> else st)"
| "chat_page_step pint pf (CpConfidence b) st = st\<lparr>cp_confidence := b\<rparr>"
| "chat_page_step pint pf (CpAgentic b) st = st\<lparr>cp_agentic := b\<rparr>"
| "chat_page_step pint pf (CpIterations s) st =
     (if cp_agentic st then st\<lparr>cp_iterations := max 1 (min 20 (int_or pint 5 s))\<rparr> else st)"
| "chat_page_step pint pf (CpTool n) st =
     (if cp_agentic st \<and> n \<in> set (map fst available_tools) then tool_toggled n st else st)"
| "chat_page_step pint pf (CpSystemPrompt s) st = st\<lparr>cp_systemPrompt := s\<rparr>"
| "chat_page_step pint pf (CpKnowledge s) st = st\<lparr>cp_agentKnowledge := s\<rparr>"
| "chat_page_step pint pf CpSettings st = st\<lparr>cp_settingsOpen := \<not> cp_settingsOpen st\<rparr>"
| "chat_page_step pint pf CpReset st = chat_page_reset st"

section \<open>What the chat bar is given\<close>

definition enabled_step :: "bool \<Rightarrow> jsval" where
  "enabled_step b = JObj [(''enabled'', JBool b)]"

definition chat_page_steps :: "chat_page \<Rightarrow> jsval" where
  "chat_page_steps st = JObj
     [(''generation'', enabled_step True), (''classification'', enabled_step (cp_classification st)),
      (''followup'', JObj [(''enabled'', JBool (cp_followup st)), (''count'', JNum (of_int (cp_count st)))]),
      (''confidence'', enabled_step (cp_confidence st))]"

definition chat_page_tools :: "chat_page \<Rightarrow> jsval" where
  "chat_page_tools st =
     (if cp_agentic st
      then JObj [(''enabled_tools'', JArr (map JStr (cp_tools st))), (''max_tool_iterations'', JNum (of_int (cp_iterations st)))]
      else JUndef)"

definition text_or_none :: "string \<Rightarrow> string option" where
  "text_or_none s = (if s = [] then None else Some s)"

definition chat_page_props :: "jsval option \<Rightarrow> table_state \<Rightarrow> chat_page \<Rightarrow> chat_bar_props" where
  "chat_page_props dashboard ts st =
     \<lparr>cbp_generator = (let g = effectiveGenerator (cp_override st) dashboard in if truthy g then g else JUndef),
      cbp_table = OneTable (tp_selectedTable ts),
      cbp_semanticIndexes = (if tp_chatIndexes ts = [] then None else Some (tp_chatIndexes ts)),
      cbp_agentKnowledge = text_or_none (cp_agentKnowledge st),
      cbp_systemPrompt = text_or_none (cp_systemPrompt st),
      cbp_maxInternalIterations = (if cp_agentic st then Some (of_int (cp_iterations st)) else None),
      cbp_followUpCount = (if cp_followup st then Some (of_int (cp_count st)) else None),
      cbp_limit = Some (of_int (cp_limit st)),
      cbp_steps = chat_page_steps st,
      cbp_tools = chat_page_tools st,
      cbp_fields = None, cbp_filterQuery = JUndef, cbp_exclusionQuery = JUndef\<rparr>"

definition chat_page_messages :: "chat_page \<Rightarrow> messages_props" where
  "chat_page_messages st = \<lparr>mp_showHits = True, mp_showFollowUpQuestions = cp_followup st, mp_showConfidence = cp_confidence st\<rparr>"

definition chat_field_disabled :: "table_state \<Rightarrow> bool \<Rightarrow> bool" where
  "chat_field_disabled ts streaming \<longleftrightarrow> streaming \<or> tp_selectedTable ts = [] \<or> tp_chatIndexes ts = []"

text \<open>The request of a message on the page: the bar's configuration, with the table of the page as the
  default table, and the message.\<close>

definition chat_page_request :: "string option \<Rightarrow> jsval option \<Rightarrow> table_state \<Rightarrow> chat_page \<Rightarrow> string \<Rightarrow> chat_turn list \<Rightarrow> (string \<times> jsval) list" where
  "chat_page_request apiUrl dashboard ts st message history =
     message_request message (chat_bar_config (chat_page_props dashboard ts st) apiUrl None (tp_selectedTable ts)) (history_messages history)"

text \<open>A new key mounts a new chat bar in the place of the old one, which is unmounted.\<close>

definition chat_page_remount :: "chat_page \<Rightarrow> chat_page \<Rightarrow> chat_bar \<Rightarrow> 'b shared_state \<Rightarrow> (chat_bar \<times> chat_bar) \<times> 'b shared_state" where
  "chat_page_remount old new b s =
     (if cp_key new = cp_key old then ((b, b), s)
      else let (b', s') = bar_unmount ''chat-playground'' b s in ((bar_start, b'), s'))"

section \<open>The chain of steps\<close>

definition status_variant :: "string option \<Rightarrow> string" where
  "status_variant status =
     (if status = Some ''success'' then ''secondary''
      else if status = Some ''error'' then ''destructive''
      else if status = Some ''skipped'' then ''outline'' else ''default'')"

definition plural_s :: "rat \<Rightarrow> string" where
  "plural_s n = (if n \<noteq> 1 then ''s'' else [])"

definition chain_count :: "jsval list \<Rightarrow> rat \<Rightarrow> rat" where
  "chain_count chain made = (if made \<noteq> 0 then made else of_nat (length chain))"

definition chain_label :: "jsval list \<Rightarrow> rat \<Rightarrow> bool \<Rightarrow> string" where
  "chain_label chain made isStreaming =
     (if isStreaming
      then ''Reasoning... ('' @ show_nat (length chain) @ '' step'' @ plural_s (of_nat (length chain)) @ '')''
      else to_str (JNum (chain_count chain made)) @ '' tool call'' @ plural_s (chain_count chain made))"

record step_view =
  sv_name :: jsval
  sv_status :: "(string \<times> string) option"
  sv_duration :: "string option"
  sv_action :: "string option"
  sv_error :: "string option"
  sv_details :: bool

definition shown_if :: "jsval \<Rightarrow> string option" where
  "shown_if v = (if truthy v then Some (to_str v) else None)"

definition has_details :: "jsval \<Rightarrow> bool" where
  "has_details step \<longleftrightarrow> truthy (fld step ''details'') \<and> (case own_keys (fld step ''details'') of None \<Rightarrow> False | Some ks \<Rightarrow> ks \<noteq> [])"

definition step_item :: "jsval \<Rightarrow> step_view" where
  "step_item step =
     \<lparr>sv_name = fld step ''name'',
      sv_status = map_option (\<lambda>s. (s, status_variant (Some s))) (shown_if (fld step ''status'')),
      sv_duration = (if fld step ''duration_ms'' \<noteq> JUndef then Some (to_str (fld step ''duration_ms'') @ ''ms'') else None),
      sv_action = shown_if (fld step ''action''), sv_error = shown_if (fld step ''error_message''),
      sv_details = has_details step\<rparr>"

definition active_item :: "jsval \<Rightarrow> jsval \<times> string option" where
  "active_item step = (fld step ''name'', shown_if (fld step ''action''))"

definition reasoning_chain ::
    "jsval list \<Rightarrow> jsval list \<Rightarrow> rat \<Rightarrow> string \<Rightarrow> bool \<Rightarrow> (string \<times> step_view list \<times> (jsval \<times> string option) list \<times> string) option" where
  "reasoning_chain chain active made reasoning isStreaming =
     (if length chain + length active = 0 \<and> reasoning = [] then None
      else Some (chain_label chain made isStreaming, map step_item chain, map active_item active, reasoning))"

definition turn_chain :: "chat_turn \<Rightarrow> (string \<times> step_view list \<times> (jsval \<times> string option) list \<times> string) option" where
  "turn_chain t =
     (if t_steps t \<noteq> [] \<or> activeSteps t \<noteq> [] \<or> reasoningText t \<noteq> []
      then reasoning_chain (t_steps t) (activeSteps t) (toolCallsMade t) (reasoningText t) (t_isStreaming t) else None)"

section \<open>What is sent\<close>

text \<open>
  The request of a message does not depend on the system prompt or on the tools that were chosen: the page
  gives the steps itself, without either, and the chat bar then leaves both out.
\<close>

theorem chat_settings_not_sent:
  "chat_page_request apiUrl dashboard ts (st\<lparr>cp_systemPrompt := s, cp_tools := tools\<rparr>) message history
     = chat_page_request apiUrl dashboard ts st message history"
  by (simp add: chat_page_request_def chat_page_props_def chat_bar_config_def message_request_def chat_page_steps_def
      coalesce_def nullish_def)

lemma map_of_spread: "map_of (spread_if k v c) k' = (if c \<and> k' = k then Some v else None)"
  by (simp add: spread_if_def)

text \<open>
  The switches, the counts, the knowledge and the limit are sent as they stand on the page; the number of
  iterations in agentic mode only.
\<close>

theorem chat_settings_sent:
  "map_of (chat_page_request apiUrl dashboard ts st message history) ''steps'' = Some (chat_page_steps st) \<and>
   map_of (chat_page_request apiUrl dashboard ts st message history) ''agent_knowledge'' = Some (opt_str (text_or_none (cp_agentKnowledge st))) \<and>
   map_of (chat_page_request apiUrl dashboard ts st message history) ''max_internal_iterations''
     = (if cp_agentic st \<and> cp_iterations st \<noteq> 0 then Some (JNum (of_int (cp_iterations st))) else None) \<and>
   (\<exists>q. map_of (chat_page_request apiUrl dashboard ts st message history) ''queries'' = Some (JArr [JObj q]) \<and>
        map_of q ''limit'' = Some (JNum (of_int (cp_limit st))) \<and> map_of q ''table'' = Some (JStr (tp_selectedTable ts)) \<and>
        map_of q ''indexes'' = (if tp_chatIndexes ts = [] then None else Some (JArr (map JStr (tp_chatIndexes ts)))))"
proof -
  have t: "resolveTable (OneTable (tp_selectedTable ts)) (tp_selectedTable ts) = tp_selectedTable ts"
    by (simp add: resolveTable_def normalizeTable_def)
  show ?thesis
    by (simp add: chat_page_request_def message_request_def map_add_def map_of_spread chat_bar_config_def chat_page_props_def
        coalesce_def nullish_def chat_page_steps_def opt_num_def opt_strs_def t)
qed

section \<open>The state of the page\<close>

text \<open>Between resets and renders the numbers and the tools stay what the page can mean.\<close>

definition chat_page_ok :: "chat_page \<Rightarrow> bool" where
  "chat_page_ok st \<longleftrightarrow> 1 \<le> cp_iterations st \<and> cp_iterations st \<le> 20 \<and> cp_limit st \<noteq> 0 \<and> cp_count st \<noteq> 0 \<and>
     distinct (cp_tools st) \<and> set (cp_tools st) \<subseteq> set (map fst available_tools)"

lemma int_or_not_0: "d \<noteq> 0 \<Longrightarrow> int_or p d s \<noteq> 0"
  by (simp add: int_or_def split: option.split)

lemma default_tools_ok: "distinct default_tools" "set default_tools \<subseteq> set (map fst available_tools)"
  by code_simp+

lemma tool_toggled_ok:
  "distinct (cp_tools st) \<and> set (cp_tools st) \<subseteq> A \<Longrightarrow> n \<in> A \<Longrightarrow>
   distinct (cp_tools (tool_toggled n st)) \<and> set (cp_tools (tool_toggled n st)) \<subseteq> A"
  by (auto simp: tool_toggled_def)

lemma tool_toggled_others:
  "cp_iterations (tool_toggled n st) = cp_iterations st" "cp_limit (tool_toggled n st) = cp_limit st"
  "cp_count (tool_toggled n st) = cp_count st"
  by (simp_all add: tool_toggled_def)

lemma chat_page_ok_step: "chat_page_ok st \<Longrightarrow> chat_page_ok (chat_page_step pint pf ev st)"
proof (cases ev)
  case (CpTool n)
  assume "chat_page_ok st"
  then show ?thesis
    using tool_toggled_ok [of st "set (map fst available_tools)" n]
    by (simp add: CpTool chat_page_ok_def tool_toggled_others del: set_map)
next
  case CpReset
  show ?thesis using default_tools_ok
    by (simp add: CpReset chat_page_ok_def chat_page_reset_def default_chat_steps_def del: set_map)
qed (simp_all add: chat_page_ok_def int_or_not_0 del: set_map)

theorem chat_page_invariant:
  "chat_page_ok (fold (chat_page_step pint pf) evs (start_chat_page w))"
proof -
  have "chat_page_ok (start_chat_page w)"
    using default_tools_ok by (simp add: chat_page_ok_def start_chat_page_def del: set_map)
  then show ?thesis by (induction evs rule: rev_induct) (simp_all add: chat_page_ok_step)
qed

text \<open>
  A reset gives back the settings of a page that was just opened, whatever was chosen, except whether the
  settings are open, and mounts a new chat bar: the stream of the old one is aborted and its widget taken
  out of the shared state, and the new one has no turns.
\<close>

theorem chat_reset_starts_again:
  "chat_page_reset (fold (chat_page_step pint pf) evs st)
     = (start_chat_page w)\<lparr>cp_settingsOpen := cp_settingsOpen (fold (chat_page_step pint pf) evs st),
                            cp_key := cp_key (fold (chat_page_step pint pf) evs st) + 1\<rparr> \<and>
   chat_page_remount st' (chat_page_reset st') b s
     = ((bar_start, b\<lparr>cb_sys := chat_step Abort (cb_sys b)\<rparr>), reducer (DeleteWidget ''chat-playground'') s)"
  by (simp add: chat_page_reset_def default_chat_steps_def start_chat_page_def chat_page_remount_def bar_unmount_def)

text \<open>The iterations are kept between one and twenty, the limit and the count are not: a negative one is sent.\<close>

theorem chat_limit_unchecked:
  assumes "pint ''-5'' = Some (- 5)" "pint ''99'' = Some 99"
  shows "cp_limit (chat_page_step pint pf (CpLimit ''-5'') st) = - 5 \<and>
         (cp_agentic st \<longrightarrow> cp_iterations (chat_page_step pint pf (CpIterations ''99'') st) = 20)"
  using assms by (simp add: int_or_def)

theorem chat_limit_unchecked_witness:
  "cp_limit (chat_page_step (\<lambda>s. if s = ''-5'' then Some (- 5) else Some 99) (\<lambda>_. None) (CpLimit ''-5'') (start_chat_page 0)) = - 5"
proof -
  have "(\<lambda>s. if s = ''-5'' then Some (- 5) else Some 99 :: int option) ''-5'' = Some (- 5)"
    "(\<lambda>s. if s = ''-5'' then Some (- 5) else Some 99 :: int option) ''99'' = Some 99" by simp_all
  from chat_limit_unchecked [OF this, of "\<lambda>_. None" "start_chat_page 0"] show ?thesis by blast
qed

section \<open>The chain of a turn\<close>

text \<open>
  A turn shows its chain exactly when it has steps, running steps or a text of reasoning, and while the
  answer streams every started step is in it once: what is completed moves from the running ones to the
  others, where completing it does not throw.
\<close>

theorem chain_shown:
  "turn_chain t \<noteq> None \<longleftrightarrow> t_steps t \<noteq> [] \<or> activeSteps t \<noteq> [] \<or> reasoningText t \<noteq> []"
  by (simp add: turn_chain_def reasoning_chain_def)

theorem completed_step_moves:
  assumes "turn_chain t = Some (l, items, active, r)" "turn_update StepCompleted v t = Inr t'"
  shows "\<exists>l' active'. turn_chain t' = Some (l', items @ [step_item v], active', r)
       \<and> length active' = length (filter (\<lambda>s. fld s ''id'' \<noteq> fld v ''id'') (activeSteps t))"
  using assms by (auto simp: turn_chain_def reasoning_chain_def split: if_splits)

theorem completed_step_moves_witness:
  "turn_chain ((new_turn 0 ''hi'')\<lparr>t_steps := [JObj [(''id'', JStr ''s'')]], activeSteps := [], toolCallsMade := 1\<rparr>) \<noteq> None"
proof -
  let ?s = "JObj [(''id'', JStr ''s'')]"
  let ?t = "(new_turn 0 ''hi'')\<lparr>activeSteps := [?s]\<rparr>"
  obtain l items active r where "turn_chain ?t = Some (l, items, active, r)"
    by (simp add: turn_chain_def reasoning_chain_def new_turn_def)
  moreover have "turn_update StepCompleted ?s ?t
      = Inr ((new_turn 0 ''hi'')\<lparr>t_steps := [?s], activeSteps := [], toolCallsMade := 1\<rparr>)"
    by (simp add: new_turn_def nullish_def)
  ultimately show ?thesis using completed_step_moves by blast
qed

text \<open>
  When a stream has ended, the label counts the tool calls of the turn; a result that tells none of them
  makes the label count the steps.
\<close>

theorem chain_label_counts:
  "chain_label chain 0 False = chain_label chain (of_nat (length chain)) False \<and>
   chain_label [s] 0 True = ''Reasoning... (1 step)'' \<and> chain_label [] n True = ''Reasoning... (0 steps)''"
proof -
  have "show_nat 1 = ''1''" "show_nat 0 = ''0''" by code_simp+
  then show ?thesis by (simp add: chain_label_def chain_count_def plural_s_def)
qed

end
