(* ===== verification/ChunkPages.thy ===== *)
theory ChunkPages
  imports QueryAssistant TextPlaygrounds Playgrounds
begin

text \<open>
  The two chunking pages as they are used (ts/apps/antfarm/src/pages/AntflyChunkingPlaygroundPage.tsx and
  ChunkingPlaygroundPage.tsx): the choice of a document of the table, the requests and their answers, what is
  kept in the browser. Requests, pieces and configurations are those of theory TextPlaygrounds. The calls
  under way are a list and an answer names its place in it; a chunk request carries whether its controller
  was aborted, and an aborted one ends as such.
\<close>

section \<open>The page on a table\<close>

record chunk_answer =
  ca_model :: string
  ca_chunks :: "doc_chunk list"

datatype doc_source = Manual | FromTable

datatype page_call = ChunkCall string chunk_config bool | SearchCall string jsval | FetchCall string string

record chunk_page =
  cg_config :: chunk_config
  cg_input :: string
  cg_docId :: string
  cg_run :: "chunk_answer page_run"
  cg_fetching :: bool
  cg_source :: doc_source
  cg_searchQuery :: string
  cg_searchResults :: "(string \<times> string) list option"
  cg_searching :: bool
  cg_calls :: "page_call list"

definition idle_run :: "'r page_run" where
  "idle_run = \<lparr>ru_loading = False, ru_error = None, ru_result = None, ru_time = None\<rparr>"

definition start_chunk_page :: chunk_page where
  "start_chunk_page = \<lparr>cg_config = default_chunk_config, cg_input = [], cg_docId = [], cg_run = idle_run, cg_fetching = False,
     cg_source = FromTable, cg_searchQuery = [], cg_searchResults = None, cg_searching = False, cg_calls = []\<rparr>"

definition page_error :: "string option \<Rightarrow> chunk_page \<Rightarrow> chunk_page" where
  "page_error e st = st\<lparr>cg_run := (cg_run st)\<lparr>ru_error := e\<rparr>\<rparr>"

definition chunk_ask :: "page_call \<Rightarrow> chunk_page \<Rightarrow> chunk_page" where
  "chunk_ask c st = st\<lparr>cg_calls := cg_calls st @ [c]\<rparr>"

definition handleSearchDocuments :: "string \<Rightarrow> string option \<Rightarrow> chunk_page \<Rightarrow> chunk_page" where
  "handleSearchDocuments tab index st =
     (if tab = [] \<or> trim (cg_searchQuery st) = [] then st
      else chunk_ask (SearchCall tab (document_query index (cg_searchQuery st))) (page_error None (st\<lparr>cg_searching := True\<rparr>)))"

definition response_hits :: "jsval \<Rightarrow> jsval list" where
  "response_hits v = (case fld (fld (elem_at (fld v ''responses'') 0) ''hits'') ''hits'' of JArr hs \<Rightarrow> hs | _ \<Rightarrow> [])"

definition search_item :: "(jsval \<Rightarrow> string) \<Rightarrow> jsval \<Rightarrow> string \<times> string" where
  "search_item stringify hit =
     (to_str (fld hit ''_id''), document_preview (extractDocumentText stringify (js_or (fld hit ''_source'') (JObj []))))"

definition search_ended :: "(jsval \<Rightarrow> string) \<Rightarrow> jsval res \<Rightarrow> chunk_page \<Rightarrow> chunk_page" where
  "search_ended stringify r st =
     (case r of
        Inr v \<Rightarrow> st\<lparr>cg_searchResults := Some (map (search_item stringify) (response_hits v)), cg_searching := False\<rparr>
      | Inl e \<Rightarrow> page_error (Some (caught_text e ''Search failed'')) (st\<lparr>cg_searching := False\<rparr>))"

definition handleFetchDocument :: "string \<Rightarrow> string \<Rightarrow> chunk_page \<Rightarrow> chunk_page" where
  "handleFetchDocument tab docId st =
     (if tab = [] \<or> trim docId = [] then st
      else chunk_ask (FetchCall tab docId) (page_error None (st\<lparr>cg_fetching := True\<rparr>)))"

definition fetch_ended :: "(jsval \<Rightarrow> string) \<Rightarrow> string \<Rightarrow> jsval res \<Rightarrow> chunk_page \<Rightarrow> chunk_page" where
  "fetch_ended stringify docId r st =
     (case r of
        Inr doc \<Rightarrow>
          (if truthy doc
           then st\<lparr>cg_input := extractDocumentText stringify doc, cg_docId := docId, cg_run := (cg_run st)\<lparr>ru_result := None\<rparr>,
                   cg_searchResults := None, cg_fetching := False\<rparr>
           else page_error (Some (''Document \"'' @ docId @ ''\" not found'')) (st\<lparr>cg_fetching := False\<rparr>))
      | Inl e \<Rightarrow> page_error (Some (caught_text e ''Failed to fetch document'')) (st\<lparr>cg_fetching := False\<rparr>))"

fun abort_call :: "page_call \<Rightarrow> page_call" where
  "abort_call (ChunkCall t c b) = ChunkCall t c True"
| "abort_call c = c"

definition handleChunk :: "chunk_page \<Rightarrow> chunk_page" where
  "handleChunk st =
     (if trim (cg_input st) = [] then st\<lparr>cg_run := run_invalid ''Please enter or load text to chunk'' (cg_run st)\<rparr>
      else chunk_ask (ChunkCall (cg_input st) (cg_config st) False)
             (st\<lparr>cg_run := run_start (cg_run st), cg_calls := map abort_call (cg_calls st)\<rparr>))"

definition chunk_end :: "string \<Rightarrow> (chunk_answer \<times> rat) res \<Rightarrow> bool \<Rightarrow> chunk_answer run_end" where
  "chunk_end unreachable r aborted =
     (if aborted then RunAborted
      else case r of
             Inr (a, t) \<Rightarrow> RunAnswer a t
           | Inl (ErrorObj n m) \<Rightarrow> if n = ''AbortError'' then RunAborted else RunFails m
           | Inl (NonError v) \<Rightarrow> RunFails unreachable)"

definition chunk_page_cleared :: "chunk_page \<Rightarrow> chunk_page" where
  "chunk_page_cleared st = st\<lparr>cg_config := default_chunk_config, cg_input := [], cg_docId := [],
     cg_run := (cg_run st)\<lparr>ru_result := None, ru_error := None, ru_time := None\<rparr>, cg_searchResults := None, cg_searchQuery := []\<rparr>"

datatype config_input =
  SetModel string | SetTarget "int option" | SetOverlap "int option" | SetSeparator string | SetMax "int option" | SetThreshold "rat option"

text \<open>Overlap and separator are shown for the fixed model only, the threshold for the others.\<close>

fun config_step :: "config_input \<Rightarrow> chunk_config \<Rightarrow> chunk_config" where
  "config_step (SetModel m) c = c\<lparr>cc_model := m\<rparr>"
| "config_step (SetTarget v) c = set_target v c"
| "config_step (SetOverlap v) c = (if cc_model c = ''fixed'' then set_overlap v c else c)"
| "config_step (SetSeparator s) c = (if cc_model c = ''fixed'' then c\<lparr>cc_separator := s\<rparr> else c)"
| "config_step (SetMax v) c = set_maxChunks v c"
| "config_step (SetThreshold v) c = (if cc_model c = ''fixed'' then c else set_chunk_threshold v c)"

datatype chunk_event =
    CgConfig config_input
  | CgInput string
  | CgDocId string
  | CgSource doc_source
  | CgSearchText string
  | CgSearchEnter
  | CgSearchClick
  | CgLoadEnter
  | CgLoadClick
  | CgPick string
  | CgChunk
  | CgReset
  | CgChunkEnds nat "(chunk_answer \<times> rat) res"
  | CgEnds nat "jsval res"

definition picker_shown :: "string \<Rightarrow> chunk_page \<Rightarrow> bool" where
  "picker_shown tab st \<longleftrightarrow> cg_source st = FromTable \<and> tab \<noteq> []"

definition in_picker :: "string \<Rightarrow> (chunk_page \<Rightarrow> chunk_page) \<Rightarrow> chunk_page \<Rightarrow> chunk_page" where
  "in_picker tab f st = (if picker_shown tab st then f st else st)"

definition call_ended :: "nat \<Rightarrow> chunk_page \<Rightarrow> chunk_page" where
  "call_ended i st = st\<lparr>cg_calls := without i (cg_calls st)\<rparr>"

definition chunk_ended :: "string \<Rightarrow> nat \<Rightarrow> (chunk_answer \<times> rat) res \<Rightarrow> chunk_page \<Rightarrow> chunk_page" where
  "chunk_ended unreachable i r st =
     (if i < length (cg_calls st)
      then (case cg_calls st ! i of
              ChunkCall t c aborted \<Rightarrow> (call_ended i st)\<lparr>cg_run := run_finish (chunk_end unreachable r aborted) (cg_run st)\<rparr>
            | _ \<Rightarrow> st)
      else st)"

definition table_call_ended :: "(jsval \<Rightarrow> string) \<Rightarrow> nat \<Rightarrow> jsval res \<Rightarrow> chunk_page \<Rightarrow> chunk_page" where
  "table_call_ended stringify i r st =
     (if i < length (cg_calls st)
      then (case cg_calls st ! i of
              SearchCall t q \<Rightarrow> search_ended stringify r (call_ended i st)
            | FetchCall t d \<Rightarrow> fetch_ended stringify d r (call_ended i st)
            | _ \<Rightarrow> st)
      else st)"

fun chunk_page_event :: "(jsval \<Rightarrow> string) \<Rightarrow> string \<Rightarrow> string \<Rightarrow> string option \<Rightarrow> chunk_event \<Rightarrow> chunk_page \<Rightarrow> chunk_page" where
  "chunk_page_event sf u tab ix (CgConfig e) st = st\<lparr>cg_config := config_step e (cg_config st)\<rparr>"
| "chunk_page_event sf u tab ix (CgInput s) st = st\<lparr>cg_input := s\<rparr>"
| "chunk_page_event sf u tab ix (CgDocId s) st = in_picker tab (\<lambda>st. st\<lparr>cg_docId := s\<rparr>) st"
| "chunk_page_event sf u tab ix (CgSource d) st = (if d = FromTable \<and> tab = [] then st else st\<lparr>cg_source := d\<rparr>)"
| "chunk_page_event sf u tab ix (CgSearchText s) st = in_picker tab (\<lambda>st. st\<lparr>cg_searchQuery := s\<rparr>) st"
| "chunk_page_event sf u tab ix CgSearchEnter st = in_picker tab (handleSearchDocuments tab ix) st"
| "chunk_page_event sf u tab ix CgSearchClick st =
     in_picker tab (\<lambda>st. if cg_searching st then st else handleSearchDocuments tab ix st) st"
| "chunk_page_event sf u tab ix CgLoadEnter st = in_picker tab (\<lambda>st. handleFetchDocument tab (cg_docId st) st) st"
| "chunk_page_event sf u tab ix CgLoadClick st =
     in_picker tab (\<lambda>st. if cg_fetching st then st else handleFetchDocument tab (cg_docId st) st) st"
| "chunk_page_event sf u tab ix (CgPick i) st =
     in_picker tab (\<lambda>st. if i \<in> (case cg_searchResults st of None \<Rightarrow> {} | Some rs \<Rightarrow> set (map fst rs))
                          then handleFetchDocument tab i st else st) st"
| "chunk_page_event sf u tab ix CgChunk st =
     (if ru_loading (cg_run st) \<or> trim (cg_input st) = [] then st else handleChunk st)"
| "chunk_page_event sf u tab ix CgReset st = chunk_page_cleared st"
| "chunk_page_event sf u tab ix (CgChunkEnds i r) st = chunk_ended u i r st"
| "chunk_page_event sf u tab ix (CgEnds i r) st = table_call_ended sf i r st"

section \<open>What is shown\<close>

definition pieces_shown :: "chunk_page \<Rightarrow> chunk_piece list option" where
  "pieces_shown st =
     (case ru_result (cg_run st) of
        None \<Rightarrow> None
      | Some a \<Rightarrow> if ca_chunks a = [] then Some [GapPiece (cg_input st)] else Some (chunk_pieces (cg_input st) 0 0 (ca_chunks a)))"

text \<open>The list of the chunks: only those with text, coloured by their place among them.\<close>

fun text_chunk :: "doc_chunk \<Rightarrow> (string \<times> string \<times> nat \<times> nat) option" where
  "text_chunk (TextChunk i x a b) = Some (i, x, a, b)"
| "text_chunk (MediaChunk i) = None"

definition chunk_list :: "doc_chunk list \<Rightarrow> (nat \<times> string \<times> string \<times> nat) list" where
  "chunk_list cs = map (\<lambda>(k, i, x, a, b). (k mod 8, i, x, estimateTokens x)) (enumerate 0 (List.map_filter text_chunk cs))"

definition badge_document :: "chunk_page \<Rightarrow> string option" where
  "badge_document st = (if ru_result (cg_run st) \<noteq> None \<and> cg_docId st \<noteq> [] then Some (cg_docId st) else None)"

section \<open>The page of the inference server\<close>

record termite_chunk_page =
  tc_input :: string
  tc_config :: chunk_config
  tc_run :: "chunk_answer page_run"
  tc_models :: "string list"
  tc_loaded :: bool
  tc_model_param :: "string option"
  tc_calls :: "(string \<times> chunk_config \<times> bool) list"
  tc_stored :: "string option"

text \<open>
  The kept state: the text and the configuration. A member that is missing, or that is of another type than
  the page writes, takes the default.
\<close>

definition config_json :: "chunk_config \<Rightarrow> jsval" where
  "config_json c = JObj
     [(''model'', JStr (cc_model c)), (''target_tokens'', JNum (of_int (cc_targetTokens c))),
      (''overlap_tokens'', JNum (of_int (cc_overlapTokens c))), (''separator'', JStr (cc_separator c)),
      (''max_chunks'', JNum (of_int (cc_maxChunks c))), (''threshold'', JNum (cc_threshold c))]"

definition stored_text :: "jsval \<Rightarrow> string \<Rightarrow> string" where
  "stored_text v d = (case v of JStr s \<Rightarrow> s | _ \<Rightarrow> d)"

definition stored_number :: "jsval \<Rightarrow> rat \<Rightarrow> rat" where
  "stored_number v d = (case v of JNum r \<Rightarrow> r | _ \<Rightarrow> d)"

definition config_of_json :: "jsval \<Rightarrow> chunk_config" where
  "config_of_json v = (let d = default_chunk_config in
     \<lparr>cc_model = stored_text (fld v ''model'') (cc_model d),
      cc_targetTokens = \<lfloor>stored_number (fld v ''target_tokens'') (of_int (cc_targetTokens d))\<rfloor>,
      cc_overlapTokens = \<lfloor>stored_number (fld v ''overlap_tokens'') (of_int (cc_overlapTokens d))\<rfloor>,
      cc_separator = stored_text (fld v ''separator'') (cc_separator d),
      cc_maxChunks = \<lfloor>stored_number (fld v ''max_chunks'') (of_int (cc_maxChunks d))\<rfloor>,
      cc_threshold = stored_number (fld v ''threshold'') (cc_threshold d)\<rparr>)"

definition restored_input :: "(string \<Rightarrow> jsval option) \<Rightarrow> string option \<Rightarrow> string" where
  "restored_input parse saved =
     (case saved of
        None \<Rightarrow> []
      | Some s \<Rightarrow> if s = [] then [] else (case parse s of None \<Rightarrow> [] | Some v \<Rightarrow> stored_text (fld v ''inputText'') []))"

definition restored_config :: "(string \<Rightarrow> jsval option) \<Rightarrow> string option \<Rightarrow> chunk_config" where
  "restored_config parse saved =
     (case saved of
        None \<Rightarrow> default_chunk_config
      | Some s \<Rightarrow> if s = [] then default_chunk_config
                  else (case parse s of None \<Rightarrow> default_chunk_config | Some v \<Rightarrow> config_of_json (fld v ''config'')))"

definition persist :: "(jsval \<Rightarrow> string) \<Rightarrow> termite_chunk_page \<Rightarrow> termite_chunk_page" where
  "persist print st = st\<lparr>tc_stored := Some (print (JObj [(''inputText'', JStr (tc_input st)), (''config'', config_json (tc_config st))]))\<rparr>"

text \<open>The effects after a render: what changed is written, and the model of the address is taken.\<close>

definition take_model_param :: "termite_chunk_page \<Rightarrow> termite_chunk_page" where
  "take_model_param st =
     (case tc_model_param st of
        Some m \<Rightarrow> if m \<noteq> [] \<and> tc_loaded st \<and> m \<in> set (tc_models st)
                  then st\<lparr>tc_config := (tc_config st)\<lparr>cc_model := m\<rparr>, tc_model_param := None\<rparr> else st
      | None \<Rightarrow> st)"

definition after_render :: "(jsval \<Rightarrow> string) \<Rightarrow> termite_chunk_page \<Rightarrow> termite_chunk_page \<Rightarrow> termite_chunk_page" where
  "after_render print old st =
     (let st = (if tc_input st = tc_input old \<and> tc_config st = tc_config old then st else persist print st);
          st' = take_model_param st
      in if tc_config st' = tc_config st then st' else persist print st')"

definition mount_termite_page :: "(string \<Rightarrow> jsval option) \<Rightarrow> (jsval \<Rightarrow> string) \<Rightarrow> string option \<Rightarrow> string option \<Rightarrow> termite_chunk_page" where
  "mount_termite_page parse print saved param =
     persist print \<lparr>tc_input = restored_input parse saved, tc_config = restored_config parse saved, tc_run = idle_run,
       tc_models = [], tc_loaded = False, tc_model_param = param, tc_calls = [], tc_stored = saved\<rparr>"

definition termite_chunk :: "termite_chunk_page \<Rightarrow> termite_chunk_page" where
  "termite_chunk st =
     (if trim (tc_input st) = [] then st\<lparr>tc_run := run_invalid ''Please enter some text to chunk'' (tc_run st)\<rparr>
      else st\<lparr>tc_run := run_start (tc_run st),
              tc_calls := map (\<lambda>(t, c, b). (t, c, True)) (tc_calls st) @ [(tc_input st, tc_config st, False)]\<rparr>)"

definition termite_reset :: "termite_chunk_page \<Rightarrow> termite_chunk_page" where
  "termite_reset st = st\<lparr>tc_config := default_chunk_config, tc_input := [],
     tc_run := (tc_run st)\<lparr>ru_result := None, ru_error := None, ru_time := None\<rparr>, tc_stored := None\<rparr>"

datatype termite_event =
  TcInput string | TcSample string | TcConfig config_input | TcChunk | TcShortcut | TcReset
  | TcModels "string list option" | TcEnds nat "(chunk_answer \<times> rat) res"

text \<open>\<open>TcModels\<close> is the answer of the list of models: the list, or none when the request failed.\<close>

fun termite_event_step :: "termite_event \<Rightarrow> termite_chunk_page \<Rightarrow> termite_chunk_page" where
  "termite_event_step (TcInput s) st = st\<lparr>tc_input := s\<rparr>"
| "termite_event_step (TcSample s) st = st\<lparr>tc_input := s\<rparr>"
| "termite_event_step (TcConfig e) st =
     (case e of SetModel m \<Rightarrow> if m \<in> set (tc_models st) \<and> tc_loaded st then st\<lparr>tc_config := config_step e (tc_config st)\<rparr> else st
      | _ \<Rightarrow> st\<lparr>tc_config := config_step e (tc_config st)\<rparr>)"
| "termite_event_step TcChunk st = (if ru_loading (tc_run st) \<or> trim (tc_input st) = [] then st else termite_chunk st)"
| "termite_event_step TcShortcut st = termite_chunk st"
| "termite_event_step TcReset st = termite_reset st"
| "termite_event_step (TcModels ms) st =
     st\<lparr>tc_models := (case ms of Some l \<Rightarrow> l | None \<Rightarrow> tc_models st), tc_loaded := True\<rparr>"
| "termite_event_step (TcEnds i r) st =
     (if i < length (tc_calls st)
      then st\<lparr>tc_calls := without i (tc_calls st),
              tc_run := run_finish (chunk_end termite_unreachable r (snd (snd (tc_calls st ! i)))) (tc_run st)\<rparr>
      else st)"

definition termite_step :: "(jsval \<Rightarrow> string) \<Rightarrow> termite_event \<Rightarrow> termite_chunk_page \<Rightarrow> termite_chunk_page" where
  "termite_step print ev st = after_render print st (termite_event_step ev st)"

section \<open>The page on a table, proved\<close>

text \<open>
  At most one chunk request is under way, the page says that it works exactly while there is one, and it is
  never an aborted one: the controller of this page has nothing to abort.
\<close>

fun chunk_flag :: "page_call \<Rightarrow> bool list" where
  "chunk_flag (ChunkCall t c aborted) = [aborted]"
| "chunk_flag _ = []"

definition chunk_calls :: "chunk_page \<Rightarrow> bool list" where
  "chunk_calls st = concat (map chunk_flag (cg_calls st))"

definition chunk_page_ok :: "chunk_page \<Rightarrow> bool" where
  "chunk_page_ok st \<longleftrightarrow> chunk_calls st = (if ru_loading (cg_run st) then [False] else [])"

lemma concat_without:
  assumes "i < length xs"
  shows "concat (map f xs) = concat (map f (take i xs)) @ f (xs ! i) @ concat (map f (drop (i + 1) xs))"
proof -
  have "concat (map f xs) = concat (map f (take i xs @ xs ! i # drop (Suc i) xs))"
    using assms by (simp add: id_take_nth_drop [symmetric])
  then show ?thesis by simp
qed

lemma chunk_calls_ended:
  "i < length (cg_calls st) \<Longrightarrow>
   chunk_calls (call_ended i st) = concat (map chunk_flag (take i (cg_calls st)))
     @ concat (map chunk_flag (drop (i + 1) (cg_calls st)))"
  by (simp add: chunk_calls_def call_ended_def without_nth)

lemma chunk_calls_fields [simp]:
  "chunk_calls (st\<lparr>cg_run := r\<rparr>) = chunk_calls st" "chunk_calls (st\<lparr>cg_config := c\<rparr>) = chunk_calls st"
  "chunk_calls (st\<lparr>cg_input := s\<rparr>) = chunk_calls st" "chunk_calls (st\<lparr>cg_docId := s\<rparr>) = chunk_calls st"
  "chunk_calls (st\<lparr>cg_source := d\<rparr>) = chunk_calls st" "chunk_calls (st\<lparr>cg_searchQuery := s\<rparr>) = chunk_calls st"
  "chunk_calls (st\<lparr>cg_searchResults := rs\<rparr>) = chunk_calls st" "chunk_calls (st\<lparr>cg_searching := b\<rparr>) = chunk_calls st"
  "chunk_calls (st\<lparr>cg_fetching := b\<rparr>) = chunk_calls st" "chunk_calls (page_error e st) = chunk_calls st"
  by (simp_all add: chunk_calls_def page_error_def)

lemma loading_page_error [simp]: "ru_loading (cg_run (page_error e st)) = ru_loading (cg_run st)"
  by (simp add: page_error_def)

lemma search_ok: "chunk_page_ok st \<Longrightarrow> chunk_page_ok (handleSearchDocuments tab ix st)"
  by (simp add: handleSearchDocuments_def chunk_ask_def chunk_page_ok_def page_error_def) (simp add: chunk_calls_def)

lemma fetch_ok: "chunk_page_ok st \<Longrightarrow> chunk_page_ok (handleFetchDocument tab i st)"
  by (simp add: handleFetchDocument_def chunk_ask_def chunk_page_ok_def page_error_def) (simp add: chunk_calls_def)

lemma chunk_flag_abort: "concat (map chunk_flag cs) = [] \<Longrightarrow> concat (map chunk_flag (map abort_call cs)) = []"
proof (induction cs)
  case (Cons c cs)
  then show ?case by (cases c) simp_all
qed simp

lemma chunk_ok:
  assumes "chunk_page_ok st" "\<not> ru_loading (cg_run st)"
  shows "chunk_page_ok (handleChunk st)"
  using assms chunk_flag_abort [of "cg_calls st"]
  by (simp add: handleChunk_def chunk_ask_def chunk_page_ok_def run_invalid_def run_start_def chunk_calls_def)

lemma alone: "xs @ b # ys = (if l then [c] else []) \<Longrightarrow> xs = [] \<and> ys = []"
  by (cases xs) (simp_all split: if_splits)

lemma finish_not_loading [simp]: "ru_loading (run_finish e r) = False"
  by (cases e) (simp_all add: run_finish_def)

lemma chunk_ended_ok: "chunk_page_ok st \<Longrightarrow> chunk_page_ok (chunk_ended u i r st)"
proof (cases "i < length (cg_calls st)")
  case True
  assume ok: "chunk_page_ok st"
  note split = concat_without [OF True, of chunk_flag]
  show ?thesis
  proof (cases "cg_calls st ! i")
    case (ChunkCall t c b)
    have "concat (map chunk_flag (take i (cg_calls st))) @ b # concat (map chunk_flag (drop (i + 1) (cg_calls st)))
        = (if ru_loading (cg_run st) then [False] else [])"
      using ok split ChunkCall by (simp only: chunk_page_ok_def chunk_calls_def chunk_flag.simps append.simps)
    from alone [OF this] have "chunk_calls (call_ended i st) = []"
      unfolding chunk_calls_ended [OF True] by (simp only: append.simps)
    then show ?thesis using True ChunkCall by (simp add: chunk_ended_def chunk_page_ok_def)
  qed (use ok True in \<open>simp_all add: chunk_ended_def\<close>)
qed (simp add: chunk_ended_def)

lemma table_call_ended_ok: "chunk_page_ok st \<Longrightarrow> chunk_page_ok (table_call_ended sf i r st)"
proof (cases "i < length (cg_calls st)")
  case True
  assume ok: "chunk_page_ok st"
  note split = concat_without [OF True, of chunk_flag]
  have same: "chunk_page_ok (call_ended i st)" if "chunk_flag (cg_calls st ! i) = []"
  proof -
    have "chunk_calls (call_ended i st) = chunk_calls st"
      unfolding chunk_calls_ended [OF True] using split that by (simp add: chunk_calls_def)
    then show ?thesis using ok by (simp add: chunk_page_ok_def) (simp add: call_ended_def)
  qed
  show ?thesis using True ok same
    by (cases "cg_calls st ! i") (auto simp: table_call_ended_def search_ended_def fetch_ended_def chunk_page_ok_def split: sum.split)
qed (simp add: table_call_ended_def)

lemma picker_ok: "(chunk_page_ok st \<Longrightarrow> chunk_page_ok (f st)) \<Longrightarrow> chunk_page_ok st \<Longrightarrow> chunk_page_ok (in_picker tab f st)"
  by (simp add: in_picker_def)

lemma fields_ok [simp]:
  "chunk_page_ok (st\<lparr>cg_config := c\<rparr>) = chunk_page_ok st" "chunk_page_ok (st\<lparr>cg_input := s\<rparr>) = chunk_page_ok st"
  "chunk_page_ok (st\<lparr>cg_docId := s\<rparr>) = chunk_page_ok st" "chunk_page_ok (st\<lparr>cg_source := d\<rparr>) = chunk_page_ok st"
  "chunk_page_ok (st\<lparr>cg_searchQuery := s\<rparr>) = chunk_page_ok st" "chunk_page_ok (chunk_page_cleared st) = chunk_page_ok st"
  by (simp_all add: chunk_page_ok_def chunk_page_cleared_def)

lemma chunk_step_ok: "chunk_page_ok st \<Longrightarrow> chunk_page_ok (chunk_page_event sf u tab ix ev st)"
  by (cases ev) (simp_all add: picker_ok search_ok fetch_ok chunk_ok chunk_ended_ok table_call_ended_ok)

theorem one_chunk_request:
  "chunk_page_ok (fold (\<lambda>(tab, ix, ev). chunk_page_event sf u tab ix ev) evs start_chunk_page)"
proof -
  have start: "chunk_page_ok start_chunk_page"
    by (simp add: chunk_page_ok_def start_chunk_page_def chunk_calls_def idle_run_def)
  show ?thesis
    by (induction evs rule: rev_induct) (simp_all add: start chunk_step_ok case_prod_beta)
qed

text \<open>
  The answer to a chunk request is shown over whatever text the page has by then: a document that was
  loaded while the request was under way appears with the pieces of the text before it.
\<close>

theorem chunk_answer_over_document:
  assumes "cg_calls st = [ChunkCall old c False, FetchCall tab d]" "truthy doc"
    and st': "st' = fold (chunk_page_event sf u tab ix) [CgEnds 1 (Inr doc), CgChunkEnds 0 (Inr (a, t))] st"
  shows "cg_input st' = extractDocumentText sf doc \<and> badge_document st' = (if d = [] then None else Some d) \<and>
         ru_result (cg_run st') = Some a \<and> cg_calls st' = []"
  using assms
  by (simp add: table_call_ended_def fetch_ended_def call_ended_def without_def chunk_ended_def chunk_end_def run_finish_def badge_document_def)

definition two_calls :: chunk_page where
  "two_calls = start_chunk_page\<lparr>cg_calls := [ChunkCall ''ab cd'' default_chunk_config False, FetchCall ''t'' ''d'']\<rparr>"

theorem chunk_answer_over_document_witness:
  "pieces_shown (fold (chunk_page_event (\<lambda>_. []) [] ''t'' None)
      [CgEnds 1 (Inr (JObj [(''text'', JStr ''xyz'')])), CgChunkEnds 0 (Inr (\<lparr>ca_model = [], ca_chunks = [TextChunk ''1'' ''ab'' 0 2]\<rparr>, 0))] two_calls)
   = Some [MarkedPiece 0 ''xy'', EndPiece ''z'']"
proof -
  have c: "cg_calls two_calls = [ChunkCall ''ab cd'' default_chunk_config False, FetchCall ''t'' ''d'']" "truthy (JObj [(''text'', JStr ''xyz'')])"
    by (simp_all add: two_calls_def)
  have x: "extractDocumentText (\<lambda>_. []) (JObj [(''text'', JStr ''xyz'')]) = ''xyz''" by code_simp
  have p: "chunk_pieces ''xyz'' 0 0 [TextChunk ''1'' ''ab'' 0 2] = [MarkedPiece 0 ''xy'', EndPiece ''z'']" by code_simp
  note t = chunk_answer_over_document [OF c refl, of "\<lambda>_. []" "[]" None "\<lparr>ca_model = [], ca_chunks = [TextChunk ''1'' ''ab'' 0 2]\<rparr>" 0]
  note i = conjunct1 [OF t, unfolded x] and r = conjunct1 [OF conjunct2 [OF conjunct2 [OF t]]]
  show ?thesis unfolding pieces_shown_def i r by (simp add: p [simplified])
qed

text \<open>
  After an edit of the text the pieces are cut from the new text at the places of the old one, and typing an
  identifier changes the document that the result is said to be of.
\<close>

theorem edit_moves_pieces:
  assumes "ru_result (cg_run st) = Some a" "ca_chunks a \<noteq> []"
  shows "pieces_shown (chunk_page_event sf u tab ix (CgInput s) st) = Some (chunk_pieces s 0 0 (ca_chunks a))
    \<and> (picker_shown tab st \<longrightarrow> d \<noteq> [] \<longrightarrow> badge_document (chunk_page_event sf u tab ix (CgDocId d) st) = Some d)"
  using assms by (simp add: pieces_shown_def badge_document_def in_picker_def)

theorem edit_moves_pieces_witness:
  "pieces_shown (chunk_page_event (\<lambda>_. []) [] ''t'' None (CgInput ''x'')
     (start_chunk_page\<lparr>cg_run := idle_run\<lparr>ru_result := Some \<lparr>ca_model = [], ca_chunks = [TextChunk ''1'' ''ab'' 0 2]\<rparr>\<rparr>\<rparr>))
   = Some [MarkedPiece 0 ''x'']"
proof -
  let ?a = "\<lparr>ca_model = [], ca_chunks = [TextChunk ''1'' ''ab'' 0 2]\<rparr>"
  have "ru_result (cg_run (start_chunk_page\<lparr>cg_run := idle_run\<lparr>ru_result := Some ?a\<rparr>\<rparr>)) = Some ?a" "ca_chunks ?a \<noteq> []" by simp_all
  note t = edit_moves_pieces [OF this, of "\<lambda>_. []" "[]" "''t''" None "''x''" "''d''"]
  have "chunk_pieces ''x'' 0 0 (ca_chunks ?a) = [MarkedPiece 0 ''x'']" by code_simp
  with t show ?thesis by simp
qed

text \<open>Of two documents asked for, as Enter allows, the last answer is loaded, and its identifier with it.\<close>

theorem last_document_loaded:
  assumes "cg_calls st = [FetchCall tab d, FetchCall tab d']" "truthy doc" "truthy doc'"
    and st': "st' = fold (chunk_page_event sf u tab ix) [CgEnds 1 (Inr doc'), CgEnds 0 (Inr doc)] st"
  shows "cg_input st' = extractDocumentText sf doc \<and> cg_docId st' = d"
  using assms by (simp add: table_call_ended_def fetch_ended_def call_ended_def without_def)

theorem last_document_loaded_witness:
  "cg_docId (fold (chunk_page_event (\<lambda>_. []) [] ''t'' None) [CgEnds 1 (Inr (JObj [])), CgEnds 0 (Inr (JObj []))]
     (start_chunk_page\<lparr>cg_calls := [FetchCall ''t'' ''d'', FetchCall ''t'' ''e'']\<rparr>)) = ''d''"
proof -
  have "cg_calls (start_chunk_page\<lparr>cg_calls := [FetchCall ''t'' ''d'', FetchCall ''t'' ''e'']\<rparr>) = [FetchCall ''t'' ''d'', FetchCall ''t'' ''e'']"
    "truthy (JObj [])" "truthy (JObj [])" by simp_all
  from last_document_loaded [OF this refl] show ?thesis by blast
qed

text \<open>A chunk without text shifts the colours of the text against those of the list.\<close>

theorem colours_differ:
  "chunk_pieces ''ab'' 0 0 [MediaChunk ''m'', TextChunk ''1'' ''ab'' 0 2] = [MarkedPiece 1 ''ab''] \<and>
   map fst (chunk_list [MediaChunk ''m'', TextChunk ''1'' ''ab'' 0 2]) = [0]"
  by code_simp

lemma text_chunks_no_media:
  "list_all (\<lambda>c. text_chunk c \<noteq> None) cs \<Longrightarrow> List.map_filter text_chunk cs = map (\<lambda>c. the (text_chunk c)) cs"
  by (induction cs) (auto simp: List.map_filter_simps)

text \<open>Without such chunks, chunk for chunk the list has the colour of the text.\<close>

lemma marked_colours:
  "list_all (\<lambda>c. text_chunk c \<noteq> None) cs \<Longrightarrow>
   concat (map (\<lambda>p. case p of MarkedPiece k s \<Rightarrow> [k] | _ \<Rightarrow> []) (chunk_pieces t i n cs)) = map (\<lambda>k. k mod 8) [n..<n + length cs]"
proof (induction cs arbitrary: i n)
  case (Cons c cs)
  then obtain ci x a b where c: "c = TextChunk ci x a b" by (cases c) auto
  have "[n..<n + length (c # cs)] = n # [n + 1..<(n + 1) + length cs]" by (simp add: upt_rec)
  moreover have "concat (map (\<lambda>p. case p of MarkedPiece k s \<Rightarrow> [k] | _ \<Rightarrow> []) (chunk_pieces t b (n + 1) cs)) = map (\<lambda>k. k mod 8) [n + 1..<(n + 1) + length cs]"
    using Cons by simp
  ultimately show ?case by (simp add: c)
qed simp

theorem colours_agree:
  assumes "list_all (\<lambda>c. text_chunk c \<noteq> None) cs"
  shows "map fst (chunk_list cs) = concat (map (\<lambda>p. case p of MarkedPiece k s \<Rightarrow> [k] | _ \<Rightarrow> []) (chunk_pieces t 0 0 cs))"
proof -
  have "map fst (chunk_list cs) = map (\<lambda>k. k mod 8) (map fst (enumerate 0 (List.map_filter text_chunk cs)))"
    by (simp only: chunk_list_def map_map) (simp add: case_prod_beta comp_def)
  then show ?thesis using marked_colours [OF assms, of t 0 0] text_chunks_no_media [OF assms] by (simp only: map_fst_enumerate length_map add_0)
qed

theorem colours_agree_witness:
  "map fst (chunk_list [TextChunk ''1'' ''a'' 0 1, TextChunk ''2'' ''b'' 1 2]) = [0, 1]"
proof -
  have "list_all (\<lambda>c. text_chunk c \<noteq> None) [TextChunk ''1'' ''a'' 0 1, TextChunk ''2'' ''b'' 1 2]" by simp
  from colours_agree [OF this, of "''ab''"] show ?thesis by simp
qed

text \<open>The previews of the documents found are short.\<close>

theorem previews_short:
  "list_all (\<lambda>(i, p). length p \<le> 123) (case cg_searchResults (search_ended sf (Inr v) st) of Some rs \<Rightarrow> rs | None \<Rightarrow> [])"
  by (simp add: search_ended_def list_all_iff search_item_def document_preview_def)

section \<open>The page of the inference server, proved\<close>

text \<open>
  Of all requests under way only the last is alive, whatever was typed and answered in between; so a result
  that is shown is the answer to the last request that was sent.
\<close>

definition live_last :: "termite_chunk_page \<Rightarrow> bool" where
  "live_last st \<longleftrightarrow> (\<forall>i < length (tc_calls st). \<not> snd (snd (tc_calls st ! i)) \<longrightarrow> i = length (tc_calls st) - 1)"

lemma live_last_without:
  assumes "live_last st" "i < length (tc_calls st)"
  shows "live_last (st\<lparr>tc_calls := without i (tc_calls st), tc_run := r\<rparr>)"
  unfolding live_last_def
proof (intro allI impI)
  let ?xs = "tc_calls st"
  fix j assume j: "j < length (tc_calls (st\<lparr>tc_calls := without i ?xs, tc_run := r\<rparr>))"
    and live: "\<not> snd (snd (tc_calls (st\<lparr>tc_calls := without i ?xs, tc_run := r\<rparr>) ! j))"
  have len: "length (without i ?xs) = length ?xs - 1" using assms(2) by (simp add: without_nth)
  have nth: "without i ?xs ! j = (if j < i then ?xs ! j else ?xs ! (j + 1))"
    using assms(2) j len by (simp add: without_nth nth_append min_absorb2)
  show "j = length (tc_calls (st\<lparr>tc_calls := without i ?xs, tc_run := r\<rparr>)) - 1"
  proof (cases "j < i")
    case True
    then have "j = length ?xs - 1" using assms live nth by (simp add: live_last_def)
    then show ?thesis using True assms(2) by simp
  next
    case False
    then have "j + 1 = length ?xs - 1" using assms live nth j len by (simp add: live_last_def)
    then show ?thesis using len by simp
  qed
qed

lemma live_last_chunk: "live_last st \<Longrightarrow> live_last (termite_chunk st)"
  by (auto simp: live_last_def termite_chunk_def nth_append case_prod_beta)

lemma live_last_after_render: "live_last (after_render print old st) = live_last st"
  by (simp add: after_render_def take_model_param_def persist_def live_last_def Let_def split: option.split)

lemma live_last_fields [simp]:
  "live_last (st\<lparr>tc_input := s\<rparr>) = live_last st" "live_last (st\<lparr>tc_config := c\<rparr>) = live_last st"
  "live_last (st\<lparr>tc_models := ms, tc_loaded := b\<rparr>) = live_last st" "live_last (termite_reset st) = live_last st"
  by (simp_all add: live_last_def termite_reset_def)

lemma live_last_event: "live_last st \<Longrightarrow> live_last (termite_event_step ev st)"
  by (cases ev) (simp_all add: live_last_chunk live_last_without split: config_input.split)

theorem last_request_alive:
  "live_last (fold (termite_step print) evs (mount_termite_page parse print saved param))"
proof -
  have "live_last (mount_termite_page parse print saved param)"
    by (simp add: live_last_def mount_termite_page_def persist_def)
  then show ?thesis
    by (induction evs rule: rev_induct) (simp_all add: termite_step_def live_last_after_render live_last_event)
qed

text \<open>
  The end of the request that was cancelled tells the page that it no longer works, while the newer one is
  still under way: the button is enabled and the working sign gone.
\<close>

theorem cancelled_end_stops_sign:
  assumes "trim (tc_input st) \<noteq> []" "tc_calls st = [(t, c, False)]"
    and st': "st' = termite_event_step (TcEnds 0 r) (termite_event_step TcShortcut st)"
  shows "tc_calls st' = [(tc_input st, tc_config st, False)] \<and> \<not> ru_loading (tc_run st') \<and> ru_result (tc_run st') = None"
  using assms by (simp add: termite_chunk_def chunk_end_def run_finish_def run_start_def without_def)

definition busy_page :: termite_chunk_page where
  "busy_page = (mount_termite_page (\<lambda>_. None) (\<lambda>_. []) None None)\<lparr>tc_input := ''x'', tc_calls := [(''x'', default_chunk_config, False)]\<rparr>"

theorem cancelled_end_stops_sign_witness:
  "\<not> ru_loading (tc_run (termite_event_step (TcEnds 0 (Inl (ErrorObj ''AbortError'' []))) (termite_event_step TcShortcut busy_page)))"
proof -
  have "trim ''x'' \<noteq> []" by code_simp
  then have "trim (tc_input busy_page) \<noteq> []" "tc_calls busy_page = [(''x'', default_chunk_config, False)]" by (simp_all add: busy_page_def)
  from cancelled_end_stops_sign [OF this refl] show ?thesis by blast
qed

text \<open>What is kept is the text and the configuration of the page, and a page that is opened again has both.\<close>

lemma config_round_trip: "config_of_json (config_json c) = c"
  by (simp add: config_of_json_def config_json_def stored_text_def stored_number_def Let_def)

definition kept :: "(jsval \<Rightarrow> string) \<Rightarrow> termite_chunk_page \<Rightarrow> bool" where
  "kept print st \<longleftrightarrow> tc_stored st = Some (print (JObj [(''inputText'', JStr (tc_input st)), (''config'', config_json (tc_config st))]))"

lemma persist_kept: "kept print (persist print st)"
  by (simp add: kept_def persist_def)

lemma persist_same: "tc_input (persist print st) = tc_input st" "tc_config (persist print st) = tc_config st"
  by (simp_all add: persist_def)

lemma param_kept: "kept print st \<Longrightarrow> tc_config (take_model_param st) = tc_config st \<Longrightarrow> kept print (take_model_param st)"
  by (auto simp: kept_def take_model_param_def split: option.split)

lemma after_render_kept:
  assumes "tc_input st = tc_input old \<and> tc_config st = tc_config old \<longrightarrow> kept print st"
  shows "kept print (after_render print old st)"
proof -
  let ?st = "if tc_input st = tc_input old \<and> tc_config st = tc_config old then st else persist print st"
  have k: "kept print ?st" using assms persist_kept by simp
  show ?thesis unfolding after_render_def Let_def using param_kept [OF k] persist_kept by (simp split: if_splits)
qed

definition not_reset :: "termite_event \<Rightarrow> bool" where
  "not_reset ev \<longleftrightarrow> ev \<noteq> TcReset"

lemma stored_step: "not_reset ev \<Longrightarrow> tc_stored (termite_event_step ev st) = tc_stored st"
  by (cases ev) (simp_all add: not_reset_def termite_chunk_def split: config_input.split)

lemma kept_step:
  assumes "not_reset ev" "kept print st"
  shows "kept print (termite_step print ev st)"
  unfolding termite_step_def using assms stored_step [OF assms(1)] by (intro after_render_kept) (simp add: kept_def)

theorem kept_page_restored:
  assumes "list_all not_reset evs" "json_text parse print" "\<forall>v. print v \<noteq> []"
    and st: "st = fold (termite_step print) evs (mount_termite_page parse print saved param)"
  shows "tc_input (mount_termite_page parse print (tc_stored st) p) = tc_input st
       \<and> tc_config (mount_termite_page parse print (tc_stored st) p) = tc_config st"
proof -
  have "kept print (mount_termite_page parse print saved param)" by (simp add: mount_termite_page_def persist_kept)
  then have "kept print st"
    unfolding st using assms(1) by (induction evs rule: rev_induct) (simp_all add: kept_step)
  moreover have "json_value (JObj [(''inputText'', JStr (tc_input st)), (''config'', config_json (tc_config st))])"
    by (simp add: config_json_def)
  then have "parse (print (JObj [(''inputText'', JStr (tc_input st)), (''config'', config_json (tc_config st))]))
      = Some (JObj [(''inputText'', JStr (tc_input st)), (''config'', config_json (tc_config st))])"
    using assms(2) unfolding json_text_def by blast
  ultimately show ?thesis
    by (simp add: kept_def mount_termite_page_def persist_same restored_input_def restored_config_def assms(3) stored_text_def config_round_trip)
qed

definition mark_print :: "jsval \<Rightarrow> string" where
  "mark_print v = CHR ''#'' # stroke_print v"

definition mark_parse :: "string \<Rightarrow> jsval option" where
  "mark_parse s = (case s of [] \<Rightarrow> None | c # r \<Rightarrow> stroke_parse r)"

lemma marks_json: "json_text mark_parse mark_print"
  using strokes_json by (auto simp: json_text_def mark_parse_def mark_print_def split: list.splits)

theorem kept_page_restored_witness:
  "tc_input (mount_termite_page mark_parse mark_print
     (tc_stored (fold (termite_step mark_print) [TcInput ''x''] (mount_termite_page mark_parse mark_print None None))) None) = ''x''"
proof -
  have "list_all not_reset [TcInput ''x'']" "\<forall>v. mark_print v \<noteq> []" by (simp_all add: not_reset_def mark_print_def)
  note t = kept_page_restored [OF this(1) marks_json this(2) refl, of None None None]
  have "tc_input (fold (termite_step mark_print) [TcInput ''x''] (mount_termite_page mark_parse mark_print None None)) = ''x''"
    by (simp add: termite_step_def after_render_def take_model_param_def mount_termite_page_def persist_def Let_def)
  with t show ?thesis by simp
qed

text \<open>
  A reset takes the kept state away, and the effect of the same reset writes the emptied page again, unless
  the page was as new already.
\<close>

theorem reset_written_again:
  assumes "tc_model_param st = None"
  shows "tc_stored (termite_step print TcReset st) =
    (if tc_input st = [] \<and> tc_config st = default_chunk_config then None
     else Some (print (JObj [(''inputText'', JStr []), (''config'', config_json default_chunk_config)])))"
  using assms by (auto simp: termite_step_def after_render_def termite_reset_def take_model_param_def persist_def Let_def)

theorem reset_written_again_witness:
  "tc_stored (termite_step (\<lambda>_. ''kept'') TcReset ((mount_termite_page (\<lambda>_. None) (\<lambda>_. ''kept'') None None)\<lparr>tc_input := ''x''\<rparr>)) = Some ''kept''"
proof -
  have "tc_model_param ((mount_termite_page (\<lambda>_. None) (\<lambda>_. ''kept'') None None)\<lparr>tc_input := ''x''\<rparr>) = None"
    by (simp add: mount_termite_page_def persist_def)
  from reset_written_again [OF this, of "\<lambda>_. ''kept''"] show ?thesis by simp
qed

end
