(* ===== verification/PipelineViews.thy ===== *)
theory PipelineViews
  imports Pipeline ServerStatus
begin

text \<open>
  What the playground shows of its pipeline (ts/apps/antfarm/src/components/rag): the trace with the chosen
  step (PipelineTrace.tsx), the graph (PipelineGraph.tsx, PipelineNode.tsx, PipelineEdge.tsx), the panel of a
  step (PipelineDetailPanel.tsx) and the row of a step (PipelineStep.tsx). \<open>print\<close> is \<open>JSON.stringify\<close>. Reading
  a member of what is missing throws, as in the code, so a view is a result.
\<close>

section \<open>The contents of a step\<close>

record hit_view =
  hv_id :: jsval
  hv_score :: "string option"
  hv_source :: "string option"

datatype bar_colour = Green | Yellow | Red

record confidence_bar =
  cb_colour :: bar_colour
  cb_percent :: string
  cb_width :: rat

datatype step_content =
    NoContent
  | ErrorText string
  | ClassificationView jsval jsval "jsval option" "jsval option"
  | SearchView "jsval option" nat "hit_view list"
  | Generating
  | AnswerView "(jsval \<times> jsval) option" jsval bool
  | ConfidenceView confidence_bar confidence_bar
  | QuestionsView "jsval list"

definition whole_text :: "rat \<Rightarrow> string" where
  "whole_text x = (if x < 0 then ''-'' else []) @ show_nat (nat \<lfloor>\<bar>x\<bar> + 1 / 2\<rfloor>)"

definition if_truthy :: "jsval \<Rightarrow> jsval option" where
  "if_truthy v = (if truthy v then Some v else None)"

definition classification_view :: "jsval \<Rightarrow> step_content" where
  "classification_view data =
     (let c = fld data ''classification'' in
      if \<not> truthy c then NoContent
      else ClassificationView (fld c ''strategy'') (fld c ''semantic_mode'') (if_truthy (fld c ''semantic_query'')) (if_truthy (fld c ''reasoning'')))"

definition pipeline_hit :: "(jsval \<Rightarrow> string) \<Rightarrow> jsval \<Rightarrow> hit_view" where
  "pipeline_hit print hit =
     \<lparr>hv_id = fld hit ''_id'',
      hv_score = (case fld hit ''_score'' of JNum r \<Rightarrow> Some (toFixed 3 r) | _ \<Rightarrow> None),
      hv_source = (if truthy (fld hit ''_source'') then Some (take 300 (print (fld hit ''_source''))) else None)\<rparr>"

text \<open>\<open>v.length\<close> and the elements of a value that should be an array.\<close>

definition elements_of :: "jsval \<Rightarrow> jsval list res" where
  "elements_of v = (if nullish v then throw_type_error else case v of JArr vs \<Rightarrow> Inr vs | _ \<Rightarrow> Inr [])"

definition retrieval_view :: "(jsval \<Rightarrow> string) \<Rightarrow> jsval \<Rightarrow> step_content res" where
  "retrieval_view print data =
     (if \<not> truthy data then Inr NoContent
      else map_sum id (\<lambda>hits. SearchView (if_truthy (fld data ''filterApplied'')) (length hits) (map (pipeline_hit print) hits))
             (elements_of (fld data ''hits'')))"

definition generation_view :: "step_status \<Rightarrow> jsval \<Rightarrow> step_content" where
  "generation_view status data =
     (if \<not> truthy data then (if status = Running then Generating else NoContent)
      else AnswerView (if truthy (fld data ''provider'') \<and> truthy (fld data ''model'') then Some (fld data ''provider'', fld data ''model'') else None)
             (fld data ''answer'') (status = Running))"

definition confidence_bar_of :: "rat \<Rightarrow> confidence_bar" where
  "confidence_bar_of r =
     \<lparr>cb_colour = (if r > 7 / 10 then Green else if r > 4 / 10 then Yellow else Red),
      cb_percent = whole_text (r * 100) @ ''%'', cb_width = r * 100\<rparr>"

definition confidence_number :: "jsval \<Rightarrow> rat" where
  "confidence_number v = (case v of JNum r \<Rightarrow> r | _ \<Rightarrow> 0)"

definition confidence_view :: "jsval \<Rightarrow> step_content" where
  "confidence_view data =
     (if \<not> truthy data then NoContent
      else ConfidenceView (confidence_bar_of (confidence_number (fld data ''generation'')))
             (confidence_bar_of (confidence_number (fld data ''context''))))"

definition followup_view :: "jsval \<Rightarrow> step_content res" where
  "followup_view data =
     (if \<not> truthy data then Inr NoContent
      else map_sum id (\<lambda>qs. if qs = [] then NoContent else QuestionsView qs) (elements_of (fld data ''questions'')))"

definition row_content :: "(jsval \<Rightarrow> string) \<Rightarrow> step_state \<Rightarrow> step_content res" where
  "row_content print s =
     (if \<not> truthy (st_data s) \<and> st_status s \<noteq> Running then Inr NoContent
      else case st_id s of
             Classification \<Rightarrow> Inr (classification_view (st_data s))
           | Search \<Rightarrow> retrieval_view print (st_data s)
           | Generation \<Rightarrow> Inr (generation_view (st_status s) (st_data s))
           | Confidence \<Rightarrow> Inr (confidence_view (st_data s))
           | Followup \<Rightarrow> followup_view (st_data s))"

definition panel_content :: "(jsval \<Rightarrow> string) \<Rightarrow> step_state \<Rightarrow> step_content res" where
  "panel_content print s =
     (case st_data s of
        JStr e \<Rightarrow> if st_status s = Failed then Inr (ErrorText e) else row_content print s
      | _ \<Rightarrow> row_content print s)"

definition step_duration :: "step_state \<Rightarrow> string option" where
  "step_duration s =
     (case (st_startTime s, st_endTime s) of
        (Some a, Some b) \<Rightarrow> if a \<noteq> 0 \<and> b \<noteq> 0 then Some (whole_text (b - a) @ ''ms'') else None
      | _ \<Rightarrow> None)"

section \<open>The row of a step\<close>

definition row_open :: "bool \<Rightarrow> step_state \<Rightarrow> bool" where
  "row_open expanded s \<longleftrightarrow> expanded \<or> st_status s = Running"

text \<open>A click asks for the other state of what is shown.\<close>

definition row_click :: "bool \<Rightarrow> step_state \<Rightarrow> bool" where
  "row_click expanded s = (if st_status s = Pending then expanded else \<not> row_open expanded s)"

section \<open>The trace\<close>

definition handleSelectStep :: "step_id \<Rightarrow> step_id option \<Rightarrow> step_id option" where
  "handleSelectStep i prev = (if prev = Some i then None else Some i)"

definition selectedStep :: "pipeline \<Rightarrow> step_id option \<Rightarrow> step_state option" where
  "selectedStep pl sel = find (\<lambda>s. Some (st_id s) = sel) (pl_steps pl)"

definition pipelineIsIdle :: "pipeline \<Rightarrow> bool" where
  "pipelineIsIdle pl \<longleftrightarrow> pl_overall pl = Idle \<or> pl_steps pl = []"

definition status_text :: "pipeline \<Rightarrow> string option" where
  "status_text pl =
     (case pl_overall pl of AllRunning \<Rightarrow> Some ''Running'' | AllComplete \<Rightarrow> Some ''Complete'' | AllFailed \<Rightarrow> Some ''Error'' | Idle \<Rightarrow> None)"

definition panel_open :: "pipeline \<Rightarrow> step_id option \<Rightarrow> bool" where
  "panel_open pl sel \<longleftrightarrow> sel \<noteq> None \<and> selectedStep pl sel \<noteq> None"

section \<open>The graph\<close>

datatype edge_state = EdgePending | EdgeActive | EdgeComplete | EdgeError

definition getEdgeState :: "step_status \<Rightarrow> step_status \<Rightarrow> edge_state" where
  "getEdgeState source target =
     (if source = Failed \<or> target = Failed then EdgeError
      else if source = Complete \<and> target = Complete then EdgeComplete
      else if source = Complete \<and> target = Running then EdgeActive
      else EdgePending)"

record graph_node =
  gn_id :: step_id
  gn_label :: string
  gn_status :: step_status
  gn_duration :: "string option"
  gn_selected :: bool
  gn_disabled :: bool
  gn_x :: nat
  gn_y :: nat

definition graph_node_of :: "step_state list \<Rightarrow> step_id option \<Rightarrow> node_layout \<Rightarrow> graph_node" where
  "graph_node_of ss sel n =
     (let s = ss ! nl_index n in
      \<lparr>gn_id = st_id s, gn_label = st_label s, gn_status = st_status s, gn_duration = step_duration s,
       gn_selected = (sel = Some (st_id s)), gn_disabled = (st_status s = Pending \<or> st_status s = Skipped),
       gn_x = nl_x n, gn_y = nl_y n\<rparr>)"

definition pipeline_graph :: "step_state list \<Rightarrow> step_id option \<Rightarrow> (graph_node list \<times> (string \<times> edge_state) list) option" where
  "pipeline_graph ss sel =
     (if ss = [] then None
      else let g = computeLayout (length ss)
           in Some (map (graph_node_of ss sel) (gl_nodes g),
                    map (\<lambda>e. (el_pathId e, getEdgeState (st_status (ss ! el_from e)) (st_status (ss ! el_to e)))) (gl_edges g)))"

text \<open>A click on a node: a disabled one does nothing.\<close>

definition node_click :: "graph_node \<Rightarrow> step_id option \<Rightarrow> step_id option" where
  "node_click n sel = (if gn_disabled n then sel else handleSelectStep (gn_id n) sel)"

section \<open>The data of the steps\<close>

text \<open>What the callbacks of the page put into a step has the members that its view reads.\<close>

definition has_array :: "jsval \<Rightarrow> string \<Rightarrow> bool" where
  "has_array v k \<longleftrightarrow> is_array (fld v k)"

definition data_fits :: "step_id \<Rightarrow> jsval \<Rightarrow> bool" where
  "data_fits i v \<longleftrightarrow> nullish v \<or>
     (case i of Search \<Rightarrow> has_array v ''hits'' | Followup \<Rightarrow> has_array v ''questions'' | _ \<Rightarrow> True)"

definition steps_fit :: "pipeline \<Rightarrow> bool" where
  "steps_fit pl \<longleftrightarrow> list_all (\<lambda>s. data_fits (st_id s) (st_data s)) (pl_steps pl)"

definition action_fits :: "pipeline_action \<Rightarrow> bool" where
  "action_fits a \<longleftrightarrow> (case a of StepComplete i d \<Rightarrow> data_fits i d | StepUpdate i d \<Rightarrow> data_fits i d | StepError i d \<Rightarrow> data_fits i d | _ \<Rightarrow> True)"

lemma data_fits_undef [simp]: "data_fits i JUndef" "data_fits i JNull"
  by (simp_all add: data_fits_def nullish_def)

lemma fits_coalesce: "data_fits i d \<Longrightarrow> data_fits i e \<Longrightarrow> data_fits i (coalesce d e)"
  by (simp add: coalesce_def)

lemma fits_on_step:
  assumes "steps_fit pl" "\<And>s. st_id (f s) = st_id s" "\<And>s. st_id s = i \<Longrightarrow> data_fits i (st_data s) \<Longrightarrow> data_fits i (st_data (f s))"
  shows "steps_fit (on_step i f pl)"
  using assms by (auto simp: steps_fit_def on_step_def list_all_iff)

lemma fits_overall [simp]: "steps_fit (pl\<lparr>pl_overall := x\<rparr>) = steps_fit pl"
  by (simp add: steps_fit_def)

lemma fits_reducer: "steps_fit pl \<Longrightarrow> action_fits a \<Longrightarrow> steps_fit (pipelineReducer now a pl)"
  by (cases a) (auto simp: action_fits_def initialPipelineState_def intro!: fits_on_step fits_coalesce, auto simp: steps_fit_def list_all_iff)

lemma fits_dispatch: "steps_fit (rp_pipeline p) \<Longrightarrow> list_all action_fits acts \<Longrightarrow> steps_fit (rp_pipeline (dispatch now acts p))"
proof -
  assume a: "steps_fit (rp_pipeline p)" "list_all action_fits acts"
  have "steps_fit pl \<Longrightarrow> steps_fit (fold (pipelineReducer now) acts pl)" for pl
    using a(2) by (induction acts arbitrary: pl) (simp_all add: fits_reducer)
  then show ?thesis using a(1) by (simp add: dispatch_def)
qed

lemma fits_event: "steps_fit (rp_pipeline p) \<Longrightarrow> steps_fit (rp_pipeline (rag_event_step cfg (now, ev) p))"
  by (cases ev) (auto intro!: fits_dispatch simp: handleStreamStart_def handleClassification_def handleHit_def handleAnswerChunk_def
      handleFollowUpQuestion_def handleConfidence_def handleStreamEnd_def handleError_def complete_search_def Let_def
      action_fits_def data_fits_def has_array_def search_data_def followup_data_def generation_data_def)

lemma elements_defined: "has_array v k \<Longrightarrow> \<exists>vs. elements_of (fld v k) = Inr vs"
  by (cases "fld v k") (auto simp: has_array_def elements_of_def nullish_def)

lemma fits_shown: "data_fits (st_id s) (st_data s) \<Longrightarrow> \<exists>c. row_content print s = Inr c"
  by (cases "st_id s") (auto simp: row_content_def retrieval_view_def followup_view_def data_fits_def nullish_def dest: elements_defined)

text \<open>
  Whatever the stream reports, in whatever order, every step of the page can be shown: the row and the panel
  of a step never read a member of something that is missing.
\<close>

theorem every_step_shown:
  assumes "rp_pipeline p = initialPipelineState"
    and "s \<in> set (pl_steps (rp_pipeline (fold (rag_event_step cfg) evs p)))"
  shows "\<exists>c c'. row_content print s = Inr c \<and> panel_content print s = Inr c'"
proof -
  have "steps_fit (rp_pipeline p)" using assms(1) by (simp add: steps_fit_def initialPipelineState_def)
  then have "steps_fit (rp_pipeline (fold (rag_event_step cfg) evs p))"
  proof (induction evs rule: rev_induct)
    case (snoc e evs)
    then show ?case by (cases e) (simp add: fits_event)
  qed simp
  then have "data_fits (st_id s) (st_data s)" using assms(2) by (simp add: steps_fit_def list_all_iff)
  then obtain c where "row_content print s = Inr c" using fits_shown by blast
  then show ?thesis by (cases "st_data s") (auto simp: panel_content_def)
qed

definition blank_rag :: rag_page where
  "blank_rag = \<lparr>rp_pipeline = initialPipelineState, rp_isLoading = False, rp_error = None, rp_processingTime = None,
     rp_startTime = 0, rp_hits = [], rp_answer = [], rp_followups = [], rp_searchCompleted = False\<rparr>"

definition plain_config :: rag_config where
  "plain_config = \<lparr>classification_enabled = False, confidence_enabled = False, followup_enabled = False, rag_provider = JUndef, rag_model = JUndef\<rparr>"

theorem every_step_shown_witness:
  "\<exists>c c'. row_content (\<lambda>_. []) \<lparr>st_id = Search, st_label = ''Search'', st_status = Running, st_startTime = Some 1, st_endTime = None, st_data = JUndef\<rparr> = Inr c
       \<and> panel_content (\<lambda>_. []) \<lparr>st_id = Search, st_label = ''Search'', st_status = Running, st_startTime = Some 1, st_endTime = None, st_data = JUndef\<rparr> = Inr c'"
proof -
  have b: "rp_pipeline blank_rag = initialPipelineState" by (simp add: blank_rag_def)
  have "\<lparr>st_id = Search, st_label = ''Search'', st_status = Running, st_startTime = Some 1, st_endTime = None, st_data = JUndef\<rparr>
      \<in> set (pl_steps (rp_pipeline (fold (rag_event_step plain_config) [(1, StreamStart)] blank_rag)))"
    by (simp add: handleStreamStart_def dispatch_def enabled_steps_def plain_config_def step_definitions_def on_step_def blank_rag_def)
  from every_step_shown [OF b this] show ?thesis .
qed

text \<open>
  The panel and the row show the same contents, except for the text of an error: the panel shows it, and the
  row of a search or of the questions throws on it.
\<close>

theorem panel_like_row:
  "panel_content print s = (if st_status s = Failed \<and> is_string (st_data s) then Inr (ErrorText (to_str (st_data s))) else row_content print s)"
  by (cases "st_data s") (simp_all add: panel_content_def)

theorem error_row_throws:
  assumes "st_data s = JStr e" "e \<noteq> []" "st_id s \<in> {Search, Followup}"
  shows "row_content print s = throw_type_error"
  using assms by (auto simp: row_content_def retrieval_view_def followup_view_def elements_of_def nullish_def)

theorem error_row_throws_witness:
  "row_content (\<lambda>_. []) \<lparr>st_id = Search, st_label = ''Search'', st_status = Failed, st_startTime = None, st_endTime = None, st_data = JStr ''down''\<rparr> = throw_type_error"
proof -
  let ?s = "\<lparr>st_id = Search, st_label = ''Search'', st_status = Failed, st_startTime = None, st_endTime = None, st_data = JStr ''down''\<rparr>"
  have "st_data ?s = JStr ''down''" "''down'' \<noteq> []" "st_id ?s \<in> {Search, Followup}" by simp_all
  from error_row_throws [OF this] show ?thesis .
qed

lemma no_error_text: "row_content print s \<noteq> Inr (ErrorText m)"
proof -
  have "retrieval_view print v \<noteq> Inr (ErrorText m)" for v
    by (cases "elements_of (fld v ''hits'')") (simp_all add: retrieval_view_def)
  moreover have "followup_view v \<noteq> Inr (ErrorText m)" for v
    by (cases "elements_of (fld v ''questions'')") (simp_all add: followup_view_def)
  ultimately show ?thesis
    by (cases "st_id s") (simp_all add: row_content_def classification_view_def generation_view_def confidence_view_def Let_def)
qed

text \<open>
  An error of the stream marks the whole and no step: the step that was running is shown as running from
  then on, open in its row, and no panel shows the error.
\<close>

theorem stream_error_leaves_running:
  assumes "step_shown i p = Some s" "st_status s = Running"
  shows "step_shown i (handleError now e p) = Some s \<and> status_text (rp_pipeline (handleError now e p)) = Some ''Error'' \<and>
         row_open False s \<and> panel_content print s \<noteq> Inr (ErrorText m)"
proof -
  have "step_shown i (handleError now e p) = Some s"
    using assms(1) by (simp add: step_shown_def handleError_def dispatch_def)
  moreover have "panel_content print s \<noteq> Inr (ErrorText m)"
    using assms(2) no_error_text unfolding panel_like_row by simp
  ultimately show ?thesis using assms(2) by (simp add: handleError_def dispatch_def status_text_def row_open_def)
qed

theorem stream_error_leaves_running_witness:
  "status_text (rp_pipeline (handleError 2 ''down'' (handleStreamStart 1 plain_config blank_rag))) = Some ''Error''"
proof -
  have s: "step_shown Search (handleStreamStart 1 plain_config blank_rag)
      = Some \<lparr>st_id = Search, st_label = ''Search'', st_status = Running, st_startTime = Some 1, st_endTime = None, st_data = JUndef\<rparr>"
    by (simp add: step_shown_def step_at_def handleStreamStart_def dispatch_def enabled_steps_def plain_config_def step_definitions_def on_step_def blank_rag_def)
  have "st_status \<lparr>st_id = Search, st_label = ''Search'', st_status = Running, st_startTime = Some 1, st_endTime = None, st_data = JUndef\<rparr> = Running" by simp
  from stream_error_leaves_running [OF s this] show ?thesis by blast
qed

text \<open>
  A row cannot be closed while its step runs, and a click meanwhile is remembered as closed: once the step
  has ended the row closes. A pending row does not react.
\<close>

theorem running_row_open:
  assumes "st_status s = Running" "st_status s' \<noteq> Running"
  shows "row_open (row_click expanded s) s \<and> \<not> row_open (row_click expanded s) s'"
  using assms by (simp add: row_open_def row_click_def)

theorem running_row_open_witness:
  "row_open (row_click True \<lparr>st_id = Search, st_label = [], st_status = Running, st_startTime = None, st_endTime = None, st_data = JUndef\<rparr>)
     \<lparr>st_id = Search, st_label = [], st_status = Running, st_startTime = None, st_endTime = None, st_data = JUndef\<rparr>"
proof -
  let ?s = "\<lambda>x. \<lparr>st_id = Search, st_label = [], st_status = x, st_startTime = None, st_endTime = None, st_data = JUndef\<rparr>"
  have "st_status (?s Running) = Running" "st_status (?s Complete) \<noteq> Running" by simp_all
  from running_row_open [OF this] show ?thesis by blast
qed

section \<open>The trace and the graph, proved\<close>

text \<open>The panel is open exactly when a step of the present pipeline is chosen, and then shows that step.\<close>

theorem panel_shows_chosen:
  "(panel_open pl sel \<longleftrightarrow> (\<exists>s \<in> set (pl_steps pl). sel = Some (st_id s))) \<and>
   (case selectedStep pl sel of Some s \<Rightarrow> s \<in> set (pl_steps pl) \<and> sel = Some (st_id s) | None \<Rightarrow> \<not> panel_open pl sel)"
proof -
  have none: "selectedStep pl sel = None \<longleftrightarrow> (\<forall>s \<in> set (pl_steps pl). sel \<noteq> Some (st_id s))"
    by (auto simp: selectedStep_def find_None_iff)
  have some: "selectedStep pl sel = Some s \<Longrightarrow> s \<in> set (pl_steps pl) \<and> sel = Some (st_id s)" for s
    by (auto simp: selectedStep_def find_Some_iff)
  show ?thesis using none some by (cases "selectedStep pl sel") (auto simp: panel_open_def)
qed

text \<open>
  The graph has one node for every step, in their order, with the step's state, and between every two
  neighbours one edge coloured by the two; it never looks for a step that is not there.
\<close>

theorem graph_shows_steps:
  assumes "ss \<noteq> []"
  shows "\<exists>ns es. pipeline_graph ss sel = Some (ns, es) \<and>
    map (\<lambda>n. (gn_id n, gn_status n, gn_selected n)) ns = map (\<lambda>s. (st_id s, st_status s, sel = Some (st_id s))) ss \<and>
    map snd es = map (\<lambda>i. getEdgeState (st_status (ss ! i)) (st_status (ss ! (i + 1)))) [0..<length ss - 1]"
proof -
  let ?g = "computeLayout (length ss)"
  note sound = layout_parts [of "length ss"]
  have len: "length (gl_nodes ?g) = length ss" using sound by blast
  have idx: "nl_index (gl_nodes ?g ! i) = i" if "i < length ss" for i
    using sound that by (simp add: node_at_def)
  have nodes: "map (\<lambda>n. (gn_id n, gn_status n, gn_selected n)) (map (graph_node_of ss sel) (gl_nodes ?g))
      = map (\<lambda>s. (st_id s, st_status s, sel = Some (st_id s))) ss"
    by (rule nth_equalityI) (simp_all add: len idx graph_node_of_def Let_def)
  have "map (\<lambda>e. (el_from e, el_to e)) (gl_edges ?g) = map (\<lambda>i. (i, i + 1)) [0..<length ss - 1]" using sound by blast
  then have "map (\<lambda>(i, j). getEdgeState (st_status (ss ! i)) (st_status (ss ! j))) (map (\<lambda>e. (el_from e, el_to e)) (gl_edges ?g))
      = map (\<lambda>i. getEdgeState (st_status (ss ! i)) (st_status (ss ! (i + 1)))) [0..<length ss - 1]"
    by (simp add: comp_def)
  then have edges: "map (\<lambda>e. getEdgeState (st_status (ss ! el_from e)) (st_status (ss ! el_to e))) (gl_edges ?g)
      = map (\<lambda>i. getEdgeState (st_status (ss ! i)) (st_status (ss ! (i + 1)))) [0..<length ss - 1]"
    by (simp add: comp_def)
  show ?thesis using assms nodes edges by (simp add: pipeline_graph_def Let_def comp_def)
qed

theorem graph_shows_steps_witness:
  "\<exists>ns es. pipeline_graph [\<lparr>st_id = Search, st_label = [], st_status = Running, st_startTime = None, st_endTime = None, st_data = JUndef\<rparr>] None = Some (ns, es)"
proof -
  have "[\<lparr>st_id = Search, st_label = [], st_status = Running, st_startTime = None, st_endTime = None, st_data = JUndef\<rparr>] \<noteq> []" by simp
  from graph_shows_steps [OF this, of None] show ?thesis by blast
qed

text \<open>
  Colour and percentage of a confidence come from the same number, so a bar is never wider for a worse colour;
  the number is not kept within the bar.
\<close>

theorem confidence_bar_order:
  assumes "r \<le> r'"
  shows "cb_width (confidence_bar_of r) \<le> cb_width (confidence_bar_of r') \<and>
         (cb_colour (confidence_bar_of r) = Green \<longrightarrow> cb_colour (confidence_bar_of r') = Green) \<and>
         (cb_colour (confidence_bar_of r') = Red \<longrightarrow> cb_colour (confidence_bar_of r) = Red)"
  using assms by (simp add: confidence_bar_of_def)

theorem confidence_bar_order_witness: "cb_width (confidence_bar_of (1 / 2)) \<le> cb_width (confidence_bar_of 1)"
  using confidence_bar_order [of "1 / 2" 1] by simp

end
