(* ===== verification/Spec2Isabelle.thy ===== *)
theory Spec2Isabelle
  imports Codec Citations SdkOps SdkChat TermiteClient History Pagination AnswerStream ChatStream Pages
    EvalRun Pipeline SchemaDetect SchemaForm QueryForms Session TableSelection Audio ServerStatus Palette Playgrounds
    AutosuggestItems ChatWidgets QueryBoxAuto PromptInput ModelCatalog Transcribe TextPlaygrounds
    MemoryDashboard BulkInsert AdminPages SearchBuilder TablePages IndexForms
    CompareViews ResultViews QueryAssistant ChatPage ChunkPages
    PipelineViews
begin

text \<open>
  Verification of the TypeScript and JavaScript packages of Antfly: the client SDK
  (ts/packages/sdk/src), the SDK of the inference server (ts/packages/termite-sdk/src), the React
  search components (ts/packages/components/src), the dashboard (ts/apps/antfarm/src) and the memory
  dashboard (pkg/memoryaf/dashboard/app.js), all under src/.

  \<^bold>\<open>The parts and how they interact.\<close> The SDK turns calls into HTTP requests and reads event streams,
  NDJSON and binary bodies. The components register widgets with a shared store; a listener turns the
  widgets into one multi-query and the responses into dispatches; hooks keep the state of answer and
  chat streams of the SDK. The dashboard uses the SDK and the components in its pages, and asks the
  inference server directly. The memory dashboard is a page of its own over the memory service.

  \<^bold>\<open>Where things are.\<close>

  \<^item> Prelude: JavaScript values (\<open>jsval\<close>), thrown values and results (\<open>js_exn\<close>, \<open>res\<close>), strings,
    objects and \<open>Map\<close>s, with the interfaces \<open>keyed_store\<close> and \<open>framed\<close>. Base64: the platform's btoa.
  \<^item> SDK: LineStream (line buffering, interface \<open>line_reader\<close>) and Sse (client.ts 238-357); SdkClient
    (configuration, authentication, queries), SdkOps (tables, indexes, users), SdkAgents (retrieval
    agent, scan), SdkChat (chat agent) of client.ts; QueryUtils for query-helpers.ts and the
    combinators of components/src/utils.ts (interface \<open>query_semantics\<close>).
  \<^item> Termite SDK: Codec (codec.ts; bytes are 8-bit words, binary32 rounding is written out) and
    TermiteClient (client.ts).
  \<^item> Components: Citations (citations.ts), ComponentClient (the client and \<open>streamAnswer\<close> of utils.ts),
    SharedStore (SharedContext.tsx, Antfly.tsx), Listener and ListenerProps (Listener.tsx), AnswerStream,
    ChatStream and History (hooks/), Pagination, FilterWidgets (Facet.tsx, ActiveFilters.tsx),
    ResultsWidget, Autosuggest and AutosuggestItems, QueryBox and QueryBoxAuto, AnswerResults,
    ChatWidgets (ChatBar.tsx, ChatInput.tsx, ChatMessages.tsx, feedback, adapters), and Pages, which
    composes the registrations of all widgets.
  \<^item> Dashboard: EvalSets and EvalRun (use-eval-sets.ts, EvalsPlaygroundPage.tsx), Pipeline
    and PipelineViews (RagPlaygroundPage.tsx, the step graph and what it shows), SchemaDetect and SchemaForm (schema-builder/), QueryForms
    (querybuilder/, aggregations), Session (authentication, products, preferences), TableSelection,
    ServerStatus, Palette (command palette, semantic search), Audio, Playgrounds (knowledge graph,
    entity recognition, reranking), TextPlaygrounds (chunking, questions, reader), Transcribe,
    PromptInput, ModelCatalog, BulkInsert (Insert.tsx), AdminPages (SecretsPage.tsx, UsersPage.tsx),
    SearchBuilder (SearchBoxBuilder.tsx), TablePages (TablesListPage.tsx, TableDetailsPage.tsx), IndexForms
    (dialogs and pages for indexes and tables), CompareViews (embedding and reranking playgrounds),
    ResultViews (components/results/), QueryAssistant (AIQueryAssistant.tsx, QueryBuilderAgent.tsx,
    GeneratorSelector.tsx), ChatPage (ChatPlaygroundPage.tsx) and ChunkPages (the two chunking pages).
  \<^item> Memory dashboard: MemoryViews (normal forms, query strings, escaping, markup) and MemoryDashboard
    (state, requests, handlers, answers).

  A definition has the name of the function it models; a state is a record with the fields of the
  component's state and references, and a prefix of its own; an operation or handler is a function on
  it, with the early returns and guards of the code. A thrown value is the left side of a result; an
  updater that throws while React renders is noted in the state (\<open>c_thrown\<close> of a chat). The keys of an object
  keep the order in which they were set; where the code enumerates keys that come from outside,
  \<open>own_order\<close> of SchemaDetect puts array indices first, as JavaScript does.

  \<^bold>\<open>Events and awaits.\<close> A handler that awaits something is split at the await: one part makes the
  request, the answer is an event of its own, and the remaining part runs on the state of that moment,
  with the values it had captured before. Events come in any order the program allows, so the races
  of late, lost and superseded answers are behaviours of the model. Effects of a render are a function
  applied after the change of state that causes them.

  \<^bold>\<open>Parameters.\<close> What is not under src/ is an argument: the network (\<open>fetch\<close>, the api of
  openapi-fetch, the attempts of a request), \<open>JSON.parse\<close> and \<open>JSON.stringify\<close> as a pair of functions,
  of which a theorem assumes at most that the one reads what the other wrote, the clock, generators
  of identifiers, the collation of names, the reading of files as data URLs, the resampling of audio,
  the qs library and the browser's navigation and storage. Each hypothesis about a parameter is
  in the statement that uses it and discharged on concrete functions in the witness beside it.

  \<^bold>\<open>What the lemmas show.\<close> Streams: the readers deliver what the server sent, however it is cut into
  chunks, and the hooks collect exactly that, streams beside each other not mixing. Codecs: embeddings,
  WAV files, base64, addresses, query strings and exported sets read back as what was written. Queries
  and facets: what the listener sends selects the documents that the widgets ask for, buckets of
  several fields add up, a listener settles and settles every widget it asked for, also when the
  connection fails. Dashboard: runs, transcripts, graphs, detected fields, forms and routes are what the
  user asked for, and the state invariants of the pages hold in every reachable state. Markup: texts of
  memories cannot change the structure of the page. Where the code does something else than it
  means to, a theorem states what it does, and the statement before it says so.

  \<^bold>\<open>Bounds and termination.\<close> Every function of the model is total. Recursion that is not structural
  (splitting, scanning, percent decoding, template expansion, retries) has a measure, the length
  of the rest or the number of attempts that are left; there is no fuel. JavaScript strings are lists
  of code units up to 0xFF (beyond these, cases of letters differ between the functions of the language;
  C38 says where this matters), numbers inside values are rationals; the codec and the WAV encoder have the
  binary formats written out. Where a printed number could need rounding (\<open>toFixed\<close>, percentages)
  the exact value is kept or the definition says how it rounds.

  \<^bold>\<open>Not modelled.\<close> Rendering beyond what a component decides to show, class names, timers and debouncing,
  scrolling and focus, the browser's audio decoding, the widget set (components/ui), the story files, the
  side bar and the entry points of the dashboard, and the tables of the cluster page, which are markup over states
  that are modelled. The server (Go), the Python and Rust clients, and
  generated code (OpenAPI declarations, the bundle under src/metadata) are the environment.
\<close>

end
